(* ===== verification/Mesh_Prelude.thy ===== *)
theory Mesh_Prelude
  imports
    Main
    "HOL-Library.AList"
    "HOL-Library.Multiset"
    "HOL-Library.Word"
    "HOL-Library.List_Lexorder"
    "HOL-Library.Char_ord"
    "HOL-Library.Product_Lexorder"
    "HOL-Library.Code_Target_Nat"
begin

text \<open>
  What the components of the development share.

  \<^item> Rust's fixed-width arithmetic. A counter, a size or a time stamp (\<open>u64\<close>, \<open>usize\<close> on a 64-bit
    target) is a \<open>nat\<close>; the saturating and checked operations of the source write their bound
    out. Where a width matters bit by bit (replay windows, packet sequences, wire bytes) the
    components use words.
  \<^item> Rust's maps. A \<open>HashMap\<close> or \<open>BTreeMap\<close> is an association list with distinct keys, so that
    \<open>len\<close>, iteration and \<open>retain\<close> compute. A \<open>BTreeMap\<close> keeps its keys sorted, which fixes
    the order in which it is traversed. The interface of both is the locale \<open>keyed_table\<close>;
    lemmas on weighted sums over a table (byte budgets, datagram budgets, numbers of entries) are
    proved once there.
  \<^item> Iterator idioms: \<open>min_by_key\<close> (first minimum) and \<open>max_by_key\<close> (last maximum).
  \<^item> Replay guards: the locale \<open>replay_guard\<close> is the contract of a component that admits every
    sequence number at most once.
\<close>

unbundle bit_operations_syntax

named_theorems sat_simps \<open>definitions of saturating and checked arithmetic\<close>
named_theorems inv_intros \<open>preservation of the component invariants, one fact per operation\<close>

section \<open>Fixed-width arithmetic\<close>

type_synonym u8 = "8 word"
type_synonym u16 = "16 word"
type_synonym u32 = "32 word"
type_synonym u64 = "64 word"
type_synonym u128 = "128 word"

type_synonym ('a, 'e) result = "'e + 'a"

definition u64_max :: nat where
  "u64_max = 18446744073709551615"

abbreviation usize_max :: nat where
  "usize_max \<equiv> u64_max"

definition sat_add :: "nat \<Rightarrow> nat \<Rightarrow> nat" where
  "sat_add a b = min (a + b) u64_max"

definition sat_mul :: "nat \<Rightarrow> nat \<Rightarrow> nat" where
  "sat_mul a b = min (a * b) u64_max"

text \<open>\<open>saturating_sub\<close> stops at zero, as subtraction on \<open>nat\<close> does.\<close>

abbreviation (input) sat_sub :: "nat \<Rightarrow> nat \<Rightarrow> nat" where
  "sat_sub a b \<equiv> a - b"

definition div_ceil :: "nat \<Rightarrow> nat \<Rightarrow> nat" where
  "div_ceil a b = (if a mod b = 0 then a div b else a div b + 1)"

definition checked_add :: "nat \<Rightarrow> nat \<Rightarrow> nat option" where
  "checked_add a b = (if a + b \<le> u64_max then Some (a + b) else None)"

definition clamp :: "nat \<Rightarrow> nat \<Rightarrow> nat \<Rightarrow> nat" where
  "clamp x lo hi = (if x < lo then lo else if hi < x then hi else x)"

lemmas [sat_simps] = sat_add_def sat_mul_def checked_add_def clamp_def

lemma sat_add_bound [simp]: "sat_add a b \<le> u64_max"
  by (simp add: sat_add_def)

lemma sat_add_exact: "a + b \<le> u64_max \<Longrightarrow> sat_add a b = a + b"
  by (simp add: sat_add_def)

lemma sat_add_exact_less: "sat_add a b < u64_max \<Longrightarrow> sat_add a b = a + b"
  by (auto simp: sat_add_def min_def split: if_splits)

lemma sat_add_mono_left: "a \<le> u64_max \<Longrightarrow> a \<le> sat_add a b"
  by (simp add: sat_add_def)

lemma sat_add_le_plus: "sat_add a b \<le> a + b"
  by (simp add: sat_add_def)

lemma checked_add_Some [simp]: "checked_add a b = Some c \<longleftrightarrow> c = a + b \<and> a + b \<le> u64_max"
  by (auto simp: checked_add_def)

lemma checked_add_None [simp]: "checked_add a b = None \<longleftrightarrow> u64_max < a + b"
  by (auto simp: checked_add_def)

lemma clamp_bounds: "lo \<le> hi \<Longrightarrow> lo \<le> clamp x lo hi" "lo \<le> hi \<Longrightarrow> clamp x lo hi \<le> hi"
  by (simp_all add: clamp_def)

lemma clamp_id: "lo \<le> x \<Longrightarrow> x \<le> hi \<Longrightarrow> clamp x lo hi = x"
  by (simp add: clamp_def)

section \<open>Tables\<close>

abbreviation keys :: "('k \<times> 'v) list \<Rightarrow> 'k list" where
  "keys m \<equiv> map fst m"

abbreviation vals :: "('k \<times> 'v) list \<Rightarrow> 'v list" where
  "vals m \<equiv> map snd m"

abbreviation table_ok :: "('k \<times> 'v) list \<Rightarrow> bool" where
  "table_ok m \<equiv> distinct (keys m)"

text \<open>Sum of a weight over the entries of a table. With the weights \<open>\<lambda>_. 1\<close> and
  \<open>\<lambda>p. of_bool (P p)\<close> it counts the entries, or those that satisfy \<open>P\<close>.\<close>

definition tsum :: "('k \<times> 'v \<Rightarrow> nat) \<Rightarrow> ('k \<times> 'v) list \<Rightarrow> nat" where
  "tsum w m = sum_list (map w m)"

lemma tsum_Nil [simp]: "tsum w [] = 0"
  by (simp add: tsum_def)

lemma tsum_Cons [simp]: "tsum w (p # m) = w p + tsum w m"
  by (simp add: tsum_def)

lemma tsum_append [simp]: "tsum w (m @ m') = tsum w m + tsum w m'"
  by (simp add: tsum_def)

lemma tsum_mset: "tsum w m = (\<Sum>p\<in>#mset m. w p)"
  by (induction m) auto

lemma tsum_length: "tsum (\<lambda>_. 1) m = length m"
  by (induction m) auto

lemma tsum_count: "tsum (\<lambda>p. of_bool (P p)) m = length (filter P m)"
  by (induction m) auto

lemma tsum_cong: "(\<And>p. p \<in> set m \<Longrightarrow> w p = w' p) \<Longrightarrow> tsum w m = tsum w' m"
  by (simp add: tsum_def cong: map_cong)

lemma tsum_member_le: "p \<in> set m \<Longrightarrow> w p \<le> tsum w m"
  by (induction m) auto

lemma tsum_filter_split: "tsum w m = tsum w (filter P m) + tsum w (filter (\<lambda>p. \<not> P p) m)"
  by (induction m) auto

lemma tsum_filter_le: "tsum w (filter P m) \<le> tsum w m"
  using tsum_filter_split [of w m P] by simp

text \<open>\<open>HashMap::remove\<close>, \<open>HashMap::insert\<close>, \<open>BTreeMap::insert\<close> and \<open>retain\<close>.\<close>

abbreviation tdel :: "'k \<Rightarrow> ('k \<times> 'v) list \<Rightarrow> ('k \<times> 'v) list" where
  "tdel \<equiv> AList.delete"

abbreviation tput :: "'k \<Rightarrow> 'v \<Rightarrow> ('k \<times> 'v) list \<Rightarrow> ('k \<times> 'v) list" where
  "tput \<equiv> AList.update"

definition bput :: "'k::linorder \<Rightarrow> 'v \<Rightarrow> ('k \<times> 'v) list \<Rightarrow> ('k \<times> 'v) list" where
  "bput k v m = insort_key fst (k, v) (tdel k m)"

definition retain :: "('k \<Rightarrow> 'v \<Rightarrow> bool) \<Rightarrow> ('k \<times> 'v) list \<Rightarrow> ('k \<times> 'v) list" where
  "retain P m = filter (\<lambda>(k, v). P k v) m"

lemma map_of_retain:
  "table_ok m \<Longrightarrow> map_of (retain P m) k = (case map_of m k of None \<Rightarrow> None
     | Some v \<Rightarrow> if P k v then Some v else None)"
proof (induction m)
  case Nil
  then show ?case by (simp add: retain_def)
next
  case (Cons p m)
  then show ?case
    by (cases p) (auto simp: retain_def map_of_eq_None_iff split: option.splits)
qed

lemma set_retain [simp]: "set (retain P m) = {p \<in> set m. P (fst p) (snd p)}"
  by (auto simp: retain_def)

lemma table_ok_retain [simp]: "table_ok m \<Longrightarrow> table_ok (retain P m)"
  by (simp add: retain_def distinct_map_filter)

lemma retain_True: "(\<And>k v. (k, v) \<in> set m \<Longrightarrow> P k v) \<Longrightarrow> retain P m = m"
  by (auto simp: retain_def filter_id_conv)

lemma length_retain_le: "length (retain P m) \<le> length m"
  by (simp add: retain_def)

lemma sorted_retain [simp]: "sorted (keys m) \<Longrightarrow> sorted (keys (retain P m))"
  by (simp add: retain_def sorted_filter)

lemma tsum_retain_le: "tsum w (retain P m) \<le> tsum w m"
  by (simp add: retain_def tsum_filter_le)

declare map_of_eq_Some_iff [simp del]

lemma map_of_in_set: "table_ok m \<Longrightarrow> map_of m k = Some v \<longleftrightarrow> (k, v) \<in> set m"
  by (rule map_of_eq_Some_iff)

lemma mset_tdel_Some:
  "table_ok m \<Longrightarrow> map_of m k = Some v \<Longrightarrow> mset m = add_mset (k, v) (mset (tdel k m))"
proof (induction m)
  case Nil
  then show ?case by simp
next
  case (Cons p m)
  show ?case
  proof (cases "fst p = k")
    case True
    with Cons.prems have "p = (k, v)" and "k \<notin> set (keys m)"
      by (cases p, auto)+
    then show ?thesis
      by (simp add: delete_id)
  next
    case False
    with Cons show ?thesis by (cases p) auto
  qed
qed

lemma tdel_None [simp]: "map_of m k = None \<Longrightarrow> tdel k m = m"
  by (simp add: map_of_eq_None_iff delete_id)

lemma set_tdel: "set (tdel k m) = {p \<in> set m. fst p \<noteq> k}"
  by (auto simp: AList.delete_eq)

lemma sorted_tdel [simp]: "sorted (keys m) \<Longrightarrow> sorted (keys (tdel k m))"
  by (simp add: AList.delete_eq sorted_filter)

locale keyed_table =
  fixes put :: "'k \<Rightarrow> 'v \<Rightarrow> ('k \<times> 'v) list \<Rightarrow> ('k \<times> 'v) list"
  assumes mset_put: "table_ok m \<Longrightarrow> mset (put k v m) = add_mset (k, v) (mset (tdel k m))"
begin

lemma set_put: "table_ok m \<Longrightarrow> set (put k v m) = insert (k, v) (set (tdel k m))"
  using mset_put [of m k v] by (metis set_mset_add_mset_insert set_mset_mset)

lemma table_ok_put: "table_ok m \<Longrightarrow> table_ok (put k v m)"
proof -
  assume ok: "table_ok m"
  have "mset (keys (put k v m)) = mset (k # keys (tdel k m))"
    using mset_put [OF ok, of k v] by simp
  moreover have "distinct (k # keys (tdel k m))"
    using ok by (auto simp: distinct_delete set_tdel)
  ultimately show ?thesis
    by (metis mset_eq_imp_distinct_iff)
qed

lemma map_of_put: "table_ok m \<Longrightarrow> map_of (put k v m) = (map_of m)(k \<mapsto> v)"
proof (rule ext)
  fix k'
  assume ok: "table_ok m"
  show "map_of (put k v m) k' = ((map_of m)(k \<mapsto> v)) k'"
  proof (cases "map_of m k'")
    case None
    then have "k' \<notin> set (keys m)"
      by (simp add: map_of_eq_None_iff)
    then have "k' \<noteq> k \<Longrightarrow> k' \<notin> set (keys (put k v m))"
      using ok by (auto simp: set_put set_tdel)
    moreover have "map_of (put k v m) k = Some v"
      using ok by (simp add: table_ok_put set_put)
    ultimately show ?thesis
      using None by (metis fun_upd_apply map_of_eq_None_iff set_map)
  next
    case (Some v')
    then show ?thesis
      using ok by (auto simp: map_of_in_set table_ok_put set_put set_tdel)
  qed
qed

lemma tsum_put: "table_ok m \<Longrightarrow> tsum w (put k v m) = w (k, v) + tsum w (tdel k m)"
  by (simp add: tsum_mset mset_put)

lemma tsum_put_new:
  "table_ok m \<Longrightarrow> map_of m k = None \<Longrightarrow> tsum w (put k v m) = w (k, v) + tsum w m"
  by (simp add: tsum_put)

lemma tsum_tdel: "table_ok m \<Longrightarrow> map_of m k = Some v \<Longrightarrow> tsum w m = w (k, v) + tsum w (tdel k m)"
  using mset_tdel_Some [of m k v] by (simp add: tsum_mset)

lemma tsum_put_old:
  "table_ok m \<Longrightarrow> map_of m k = Some v \<Longrightarrow> tsum w (put k v' m) + w (k, v) = w (k, v') + tsum w m"
  using tsum_tdel [of m k v w] tsum_put [of m w k v'] by simp

lemma length_put:
  "table_ok m \<Longrightarrow> length (put k v m) = (if map_of m k = None then Suc (length m) else length m)"
proof -
  assume ok: "table_ok m"
  have l: "length (put k v m) = Suc (length (tdel k m))"
    using mset_put [OF ok, of k v] by (metis size_add_mset size_mset)
  show ?thesis
  proof (cases "map_of m k")
    case None
    then show ?thesis using l by simp
  next
    case (Some v')
    then have "length m = Suc (length (tdel k m))"
      using mset_tdel_Some [OF ok Some] by (metis size_add_mset size_mset)
    then show ?thesis using l Some by simp
  qed
qed

end

lemma mset_update: "table_ok m \<Longrightarrow> mset (tput k v m) = add_mset (k, v) (mset (tdel k m))"
proof (induction m)
  case Nil
  then show ?case by simp
next
  case (Cons p m)
  then show ?case
    by (cases p) (auto simp: delete_id)
qed

interpretation ht: keyed_table tput
  by unfold_locales (rule mset_update)

interpretation bt: keyed_table bput
  by unfold_locales (simp add: bput_def)

lemma sorted_bput [simp]: "sorted (keys m) \<Longrightarrow> sorted (keys (bput k v m))"
  by (simp add: bput_def sorted_insort_key)

lemma tdel_length_less: "table_ok m \<Longrightarrow> map_of m k = Some v \<Longrightarrow> length m = Suc (length (tdel k m))"
  using mset_tdel_Some [of m k v] by (metis size_add_mset size_mset)

lemma table_ok_tdel [simp]: "table_ok m \<Longrightarrow> table_ok (tdel k m)"
  by (simp add: distinct_delete)

lemma map_of_tdel [simp]: "map_of (tdel k m) k' = (if k = k' then None else map_of m k')"
  by (simp add: AList.delete_conv)

lemma length_tdel_le: "length (tdel k m) \<le> length m"
  by (simp add: AList.delete_eq)

lemma tsum_tdel_le: "tsum w (tdel k m) \<le> tsum w m"
  by (simp add: AList.delete_eq tsum_filter_le)

lemma filter_keys_notin:
  "table_ok m \<Longrightarrow> filter (\<lambda>p. fst p \<notin> set (keys (filter P m))) m = filter (\<lambda>p. \<not> P p) m"
  by (rule filter_cong) (auto dest: eq_key_imp_eq_value)

lemma map_of_filter_table:
  "table_ok m \<Longrightarrow> map_of (filter (\<lambda>(k, v). P k v) m) k =
     (case map_of m k of None \<Rightarrow> None | Some v \<Rightarrow> if P k v then Some v else None)"
  using map_of_retain [of m P k] by (simp add: retain_def)

lemma length_filter_split: "length m = length (filter P m) + length (filter (\<lambda>p. \<not> P p) m)"
  by (induction m) auto

lemmas table_laws = ht.map_of_put ht.table_ok_put ht.set_put bt.map_of_put bt.table_ok_put bt.set_put

text \<open>\<open>BTreeMap\<close>: a table with its keys in order.\<close>

abbreviation btree_ok :: "('k::linorder \<times> 'v) list \<Rightarrow> bool" where
  "btree_ok m \<equiv> sorted (keys m) \<and> table_ok m"

text \<open>\<open>entry(k).or_default()\<close> and \<open>get(k).copied().unwrap_or(d)\<close>.\<close>

definition get_or :: "'v \<Rightarrow> ('k \<times> 'v) list \<Rightarrow> 'k \<Rightarrow> 'v" where
  "get_or d m k = (case map_of m k of None \<Rightarrow> d | Some v \<Rightarrow> v)"

text \<open>Rewriting every value in place (\<open>iter_mut\<close>, \<open>values_mut\<close>).\<close>

definition map_vals :: "('k \<Rightarrow> 'v \<Rightarrow> 'w) \<Rightarrow> ('k \<times> 'v) list \<Rightarrow> ('k \<times> 'w) list" where
  "map_vals f m = map (\<lambda>(k, v). (k, f k v)) m"

lemma keys_map_vals [simp]: "keys (map_vals f m) = keys m"
  by (auto simp: map_vals_def)

lemma map_of_map_vals: "map_of (map_vals f m) k = map_option (f k) (map_of m k)"
  by (induction m) (auto simp: map_vals_def)

lemma set_map_vals: "set (map_vals f m) = {(k, f k v) | k v. (k, v) \<in> set m}"
  by (auto simp: map_vals_def)

section \<open>Strings\<close>

text \<open>\<open>u8::is_ascii_graphic\<close> and \<open>str::is_ascii\<close>; a Rust string is the list of its bytes.\<close>

definition is_ascii_graphic :: "char \<Rightarrow> bool" where
  "is_ascii_graphic c \<longleftrightarrow> 33 \<le> (of_char c :: nat) \<and> (of_char c :: nat) \<le> 126"

definition is_ascii :: "string \<Rightarrow> bool" where
  "is_ascii s \<longleftrightarrow> list_all (\<lambda>c. (of_char c :: nat) < 128) s"

section \<open>Iterator idioms\<close>

text \<open>\<open>Iterator::min_by_key\<close> returns the first of several minima.\<close>

fun min_by_key :: "('a \<Rightarrow> 'b::linorder) \<Rightarrow> 'a list \<Rightarrow> 'a option" where
  "min_by_key f [] = None"
| "min_by_key f (x # xs) =
     (case min_by_key f xs of None \<Rightarrow> Some x | Some y \<Rightarrow> if f x \<le> f y then Some x else Some y)"

lemma min_by_key_None [simp]: "min_by_key f xs = None \<longleftrightarrow> xs = []"
  by (cases xs) (auto split: option.splits)

lemma min_by_key_in: "min_by_key f xs = Some x \<Longrightarrow> x \<in> set xs"
  by (induction xs arbitrary: x) (auto split: option.splits if_splits)

lemma min_by_key_le: "min_by_key f xs = Some x \<Longrightarrow> y \<in> set xs \<Longrightarrow> f x \<le> f y"
proof (induction xs arbitrary: x)
  case Nil
  then show ?case by simp
next
  case (Cons z zs)
  show ?case
  proof (cases "min_by_key f zs")
    case None
    with Cons.prems show ?thesis by simp
  next
    case (Some m)
    with Cons.IH [OF Some] Cons.prems show ?thesis
      by (auto split: if_splits)
  qed
qed

section \<open>Replay guards\<close>

text \<open>A guard answers whether it admits a sequence number and moves to its next state. \<open>fenced w\<close>
  is the set of numbers the state \<open>w\<close> will not admit any more. A guard that fences what it admits,
  and never lifts a fence, admits no number twice in any run.\<close>

locale replay_guard =
  fixes admit :: "'w \<Rightarrow> 's \<Rightarrow> 'w \<times> bool"
    and fenced :: "'w \<Rightarrow> 's set"
  assumes accept_iff: "snd (admit w s) \<longleftrightarrow> s \<notin> fenced w"
    and fence_kept: "fenced w \<subseteq> fenced (fst (admit w s))"
    and fence_self: "snd (admit w s) \<Longrightarrow> s \<in> fenced (fst (admit w s))"
begin

primrec accepted :: "'w \<Rightarrow> 's list \<Rightarrow> 's list" where
  "accepted w [] = []"
| "accepted w (s # ss) =
     (if snd (admit w s) then s # accepted (fst (admit w s)) ss
      else accepted (fst (admit w s)) ss)"

lemma accepted_not_fenced: "s \<in> set (accepted w ss) \<Longrightarrow> s \<notin> fenced w"
proof (induction ss arbitrary: w)
  case Nil
  then show ?case by simp
next
  case (Cons t ss)
  then show ?case
    using accept_iff [of w t] fence_kept [of w t] by (auto split: if_splits)
qed

lemma accepted_distinct: "distinct (accepted w ss)"
proof (induction ss arbitrary: w)
  case Nil
  then show ?case by simp
next
  case (Cons s ss)
  then show ?case
    using fence_self [of w s] accepted_not_fenced [of s "fst (admit w s)" ss] by auto
qed

lemma second_rejected: "snd (admit w s) \<Longrightarrow> \<not> snd (admit (fst (admit w s)) s)"
  using accept_iff fence_self by blast

end

end
