(* ===== verification/Sequence_Window.thy ===== *)
theory Sequence_Window
  imports Mesh_Prelude
begin

text \<open>
  The replay window of the talkback lane (\<open>SequenceWindow\<close> in \<open>src/src/talkback_lane.rs\<close>): the
  highest sequence number seen and a 128-bit mask of the numbers at distance 0 to 127 below it.
  The mask arithmetic is kept at its width. The window is a \<open>replay_guard\<close>: what it fences is
  everything it has admitted and everything at distance 128 or more below the highest number.
\<close>

definition SEQUENCE_WINDOW_BITS :: nat where
  "SEQUENCE_WINDOW_BITS = 128"

record sequence_window =
  highest :: u64
  seen :: u128

definition window_first :: "u64 \<Rightarrow> sequence_window" where
  "window_first sequence = \<lparr>highest = sequence, seen = 1\<rparr>"

definition window_admit :: "sequence_window \<Rightarrow> u64 \<Rightarrow> sequence_window \<times> bool" where
  "window_admit w sequence =
     (if sequence > highest w then
        let shift = unat (sequence - highest w)
        in (w\<lparr>seen := (if shift \<ge> SEQUENCE_WINDOW_BITS then 1 else push_bit shift (seen w) OR 1),
              highest := sequence\<rparr>, True)
      else
        let distance = unat (highest w - sequence)
        in if distance \<ge> SEQUENCE_WINDOW_BITS then (w, False)
           else let b = push_bit distance 1
                in if seen w AND b \<noteq> 0 then (w, False)
                   else (w\<lparr>seen := seen w OR b\<rparr>, True))"

text \<open>What the window still remembers as admitted, and what it will not admit any more.\<close>

definition remembered :: "sequence_window \<Rightarrow> u64 set" where
  "remembered w = {s. s \<le> highest w \<and> unat (highest w - s) < 128 \<and> bit (seen w) (unat (highest w - s))}"

definition too_old :: "sequence_window \<Rightarrow> u64 set" where
  "too_old w = {s. s \<le> highest w \<and> 128 \<le> unat (highest w - s)}"

definition window_fenced :: "sequence_window \<Rightarrow> u64 set" where
  "window_fenced w = remembered w \<union> too_old w"

lemma unat_minus: "(a::u64) \<le> b \<Longrightarrow> unat (b - a) = unat b - unat a"
  by (rule unat_sub)

lemma and_single_bit: "(x AND 2 ^ n = (0::u128)) \<longleftrightarrow> \<not> (n < 128 \<and> bit x n)"
proof -
  have "x AND 2 ^ n = (if n < 128 \<and> bit x n then 2 ^ n else 0)"
    by (rule bit_eqI) (auto simp: bit_simps)
  moreover have "n < 128 \<Longrightarrow> (2 ^ n :: u128) \<noteq> 0"
    by simp
  ultimately show ?thesis by auto
qed

lemma bit_shift_or_1:
  "k < 128 \<Longrightarrow> bit ((push_bit n (x::u128)) OR 1) k \<longleftrightarrow> k = 0 \<or> (n \<le> k \<and> bit x (k - n))"
  by (auto simp: bit_simps)

lemma window_first_remembered: "remembered (window_first s) = {s}"
  by (auto simp: remembered_def window_first_def bit_simps unat_minus word_le_nat_alt unat_eq_zero
      intro!: order.antisym)

lemma window_admit_iff: "snd (window_admit w s) \<longleftrightarrow> s \<notin> window_fenced w"
  by (auto simp: window_admit_def window_fenced_def remembered_def too_old_def Let_def
      and_single_bit SEQUENCE_WINDOW_BITS_def not_less)

lemma window_admit_highest: "highest (fst (window_admit w s)) = max (highest w) s"
  by (auto simp: window_admit_def Let_def max_def)

text \<open>An accepted number joins the remembered ones; what falls out of the window is too old.\<close>

lemma window_advance_remembered:
  assumes advance: "s > highest w"
  shows "remembered (fst (window_admit w s)) =
    insert s {x \<in> remembered w. unat (max (highest w) s - x) < 128}"
proof (intro set_eqI)
  fix x
  have "x \<in> remembered (fst (window_admit w s)) \<longleftrightarrow>
      x \<le> s \<and> unat s - unat x < 128 \<and>
      (unat s = unat x \<or> (unat (highest w) \<ge> unat x \<and> bit (seen w) (unat (highest w) - unat x)))"
  proof (cases "x \<le> s \<and> unat s - unat x < 128")
    case False
    then show ?thesis
      using advance by (auto simp: remembered_def window_admit_def Let_def unat_minus)
  next
    case xs: True
    then have le: "unat x \<le> unat s" and hw: "unat (highest w) < unat s"
      using advance by (auto simp: word_le_nat_alt word_less_nat_alt)
    show ?thesis
    proof (cases "unat s - unat (highest w) \<ge> 128")
      case far: True
      then have "\<not> unat x \<le> unat (highest w)" using xs by linarith
      then show ?thesis
        using advance xs far le
        by (auto simp: remembered_def window_admit_def Let_def unat_minus bit_simps
            SEQUENCE_WINDOW_BITS_def)
    next
      case near: False
      have shift: "unat s - unat (highest w) \<le> unat s - unat x \<longleftrightarrow> unat x \<le> unat (highest w)"
        using le hw by linarith
      have dist: "unat x \<le> unat (highest w) \<Longrightarrow>
          unat s - (unat x + (unat s - unat (highest w))) = unat (highest w) - unat x"
        using le hw by linarith
      show ?thesis
        using advance xs near le
        by (auto simp: remembered_def window_admit_def Let_def unat_minus bit_shift_or_1
            SEQUENCE_WINDOW_BITS_def shift dist)
    qed
  qed
  also have "\<dots> \<longleftrightarrow> x \<in> insert s {x \<in> remembered w. unat (max (highest w) s - x) < 128}"
    using advance
    by (auto simp: remembered_def max_def unat_minus word_le_nat_alt word_less_nat_alt
        simp flip: word_unat_eq_iff)
  finally show "x \<in> remembered (fst (window_admit w s)) \<longleftrightarrow>
      x \<in> insert s {x \<in> remembered w. unat (max (highest w) s - x) < 128}" .
qed

lemma window_within_remembered:
  assumes within: "\<not> s > highest w" and admitted: "snd (window_admit w s)"
  shows "remembered (fst (window_admit w s)) =
    insert s {x \<in> remembered w. unat (max (highest w) s - x) < 128}"
proof -
  have le: "s \<le> highest w" using within by simp
  with admitted have acc: "unat (highest w - s) < 128" "\<not> bit (seen w) (unat (highest w - s))"
    by (auto simp: window_admit_iff window_fenced_def remembered_def too_old_def)
  then have st: "fst (window_admit w s) = w\<lparr>seen := seen w OR push_bit (unat (highest w - s)) 1\<rparr>"
    using within by (auto simp: window_admit_def Let_def and_single_bit SEQUENCE_WINDOW_BITS_def)
  have same: "unat x \<le> unat (highest w) \<Longrightarrow>
      unat (highest w) - unat x = unat (highest w) - unat s \<longleftrightarrow> x = s" for x
    using le by (auto simp: word_le_nat_alt word_unat_eq_iff)
  show ?thesis
    unfolding st using within le acc
    by (auto simp: remembered_def max_def bit_simps unat_minus word_le_nat_alt
        same simp flip: word_unat_eq_iff)
qed

lemma window_admit_remembered:
  "snd (window_admit w s) \<Longrightarrow> remembered (fst (window_admit w s)) =
    insert s {x \<in> remembered w. unat (max (highest w) s - x) < 128}"
  by (cases "s > highest w") (simp_all add: window_advance_remembered window_within_remembered)

lemma window_admit_rejected: "\<not> snd (window_admit w s) \<Longrightarrow> fst (window_admit w s) = w"
  by (auto simp: window_admit_def Let_def split: if_splits)

lemma window_fence_kept: "window_fenced w \<subseteq> window_fenced (fst (window_admit w s))"
proof (cases "snd (window_admit w s)")
  case True
  have "too_old w \<subseteq> too_old (fst (window_admit w s))"
    unfolding too_old_def window_admit_highest
    by (auto simp: max_def unat_minus word_le_nat_alt)
  moreover have "remembered w \<subseteq> window_fenced (fst (window_admit w s))"
  proof
    fix x
    assume x: "x \<in> remembered w"
    then have "x \<le> max (highest w) s"
      by (auto simp: remembered_def max_def)
    with x show "x \<in> window_fenced (fst (window_admit w s))"
      using True by (auto simp: window_fenced_def window_admit_remembered too_old_def window_admit_highest)
  qed
  ultimately show ?thesis
    by (auto simp: window_fenced_def)
next
  case False
  then show ?thesis by (simp add: window_admit_rejected)
qed

interpretation sw: replay_guard window_admit window_fenced
proof unfold_locales
  fix w :: sequence_window and s :: u64
  show "snd (window_admit w s) \<longleftrightarrow> s \<notin> window_fenced w"
    by (rule window_admit_iff)
  show "window_fenced w \<subseteq> window_fenced (fst (window_admit w s))"
    by (rule window_fence_kept)
  assume "snd (window_admit w s)"
  then show "s \<in> window_fenced (fst (window_admit w s))"
    by (simp add: window_fenced_def window_admit_remembered)
qed

text \<open>The first frame of a publisher creates its window; later frames go through \<open>window_admit\<close>.
  \<open>window_run\<close> is the list of answers the window gives to a sequence of frames.\<close>

fun window_run :: "sequence_window \<Rightarrow> u64 list \<Rightarrow> bool list" where
  "window_run w [] = []"
| "window_run w (s # ss) = snd (window_admit w s) # window_run (fst (window_admit w s)) ss"

lemma accepted_run: "sw.accepted w ss = map fst (filter snd (zip ss (window_run w ss)))"
  by (induction ss arbitrary: w) auto

end
