(* ===== verification/Talkback_Lane.thy ===== *)
theory Talkback_Lane
  imports Sequence_Window
begin

text \<open>
  The ephemeral talkback relay, \<open>src/src/talkback_lane.rs\<close>: routing snapshots (who may publish to
  an audience and who receives), replay windows per publisher, one bounded queue per publisher and
  receiver, and play-out acknowledgements.

  A frame is the third-party type \<open>EphemeralTalkbackFrameV1\<close>. The record \<open>talkback_frame\<close> holds
  what the lane reads of it through its accessors, with the rest in a field of any type; whether a
  frame is expired is a function of the third-party crate and an argument \<open>is_expired\<close> of the
  operations. Every operation takes the lane and returns the new one.

  \<open>lane_inv\<close> is the invariant of the lane: everything queued, acknowledged or remembered belongs to
  the routing snapshot installed now. \<open>lane_reachable\<close> are the states that the public operations
  reach from \<open>TalkbackLane::new\<close>.
\<close>

section \<open>Data\<close>

datatype talkback_lane_error_code =
  InvalidConfiguration | RouteUnavailable | AuthorizationEpoch | PublisherNotAllowed
  | SubscriberNotAllowed | FrameReplay | FrameExpired | PlayoutBeyondDelivery | StaleAcknowledgement

datatype talkback_lane_error =
  TalkbackLaneError (error_code: talkback_lane_error_code) (error_field: string)

record talkback_publisher =
  pub_participant_id :: string
  pub_endpoint_id :: string
  pub_subject_grant_epoch :: nat

record talkback_subscriber =
  sub_participant_id :: string
  sub_endpoint_id :: string

record snapshot_params =
  par_session_id :: string
  par_session_epoch :: nat
  par_media_authorization_epoch :: nat
  par_talkback_epoch :: nat
  par_policy_version :: nat
  par_audience_id :: string
  par_publishers :: "talkback_publisher list"
  par_subscribers :: "talkback_subscriber list"

text \<open>The set of publishers is only asked for membership and size: a list without duplicates.
  The subscribers are a \<open>BTreeMap\<close> from the endpoint.\<close>

record routing_snapshot =
  session_id :: string
  session_epoch :: nat
  media_authorization_epoch :: nat
  talkback_epoch :: nat
  policy_version :: nat
  audience_id :: string
  publishers :: "talkback_publisher list"
  subscribers :: "(string \<times> talkback_subscriber) list"

record lane_config =
  max_frames_per_publisher_receiver :: nat
  acknowledgement_freshness_us :: nat

record 'p talkback_frame =
  fr_session_id :: string
  fr_session_epoch :: nat
  fr_media_authorization_epoch :: nat
  fr_subject_grant_epoch :: nat
  fr_talkback_epoch :: nat
  fr_policy_version :: nat
  fr_publisher_participant_id :: string
  fr_publisher_endpoint_id :: string
  fr_audience_id :: string
  fr_sequence :: u64
  fr_accepted_at_unix_us :: nat
  fr_opaque :: 'p

datatype talkback_fanout =
  TalkbackFanout (queued_receiver_endpoints: "string list") (mix_minus_excluded_endpoints: "string list")

record lane_health =
  active_audiences :: nat
  active_publishers :: nat
  active_subscribers :: nat
  queued_frames_total :: nat
  admitted_frames :: nat
  queued_deliveries :: nat
  mix_minus_exclusions :: nat
  queue_evictions :: nat
  expired_rejections :: nat
  replay_rejections :: nat
  authorization_rejections :: nat
  pulled_frames :: nat
  accepted_playout_acknowledgements :: nat
  rejected_playout_acknowledgements :: nat
  purged_frames :: nat

definition health_default :: lane_health where
  "health_default = \<lparr>active_audiences = 0, active_publishers = 0, active_subscribers = 0,
     queued_frames_total = 0, admitted_frames = 0, queued_deliveries = 0, mix_minus_exclusions = 0,
     queue_evictions = 0, expired_rejections = 0, replay_rejections = 0,
     authorization_rejections = 0, pulled_frames = 0, accepted_playout_acknowledgements = 0,
     rejected_playout_acknowledgements = 0, purged_frames = 0\<rparr>"

record playout_ack =
  ack_session_id :: string
  ack_receiver_participant_id :: string
  ack_receiver_endpoint_id :: string
  ack_publisher_participant_id :: string
  ack_publisher_endpoint_id :: string
  ack_audience_id :: string
  ack_sequence :: u64

text \<open>The keys of the lane's maps with the derived order: field by field.\<close>

datatype audience_key = AudienceKey (ak_session_id: string) (ak_audience_id: string)

datatype publisher_key =
  PublisherKey (pk_audience: audience_key) (pk_participant_id: string) (pk_endpoint_id: string)

datatype delivery_key =
  DeliveryKey (dk_publisher: publisher_key) (dk_receiver_participant_id: string)
    (dk_receiver_endpoint_id: string)

fun ak_tuple :: "audience_key \<Rightarrow> string \<times> string" where
  "ak_tuple (AudienceKey s a) = (s, a)"

fun pk_tuple :: "publisher_key \<Rightarrow> audience_key \<times> string \<times> string" where
  "pk_tuple (PublisherKey a p e) = (a, p, e)"

fun dk_tuple :: "delivery_key \<Rightarrow> publisher_key \<times> string \<times> string" where
  "dk_tuple (DeliveryKey p r e) = (p, r, e)"

lemma ak_tuple_inj [simp]: "ak_tuple a = ak_tuple a' \<longleftrightarrow> a = a'"
  by (cases a; cases a') simp

lemma pk_tuple_inj [simp]: "pk_tuple p = pk_tuple p' \<longleftrightarrow> p = p'"
  by (cases p; cases p') simp

lemma dk_tuple_inj [simp]: "dk_tuple d = dk_tuple d' \<longleftrightarrow> d = d'"
  by (cases d; cases d') simp

instantiation audience_key :: linorder
begin
definition less_eq_audience_key :: "audience_key \<Rightarrow> audience_key \<Rightarrow> bool" where
  "less_eq_audience_key a b \<longleftrightarrow> ak_tuple a \<le> ak_tuple b"
definition less_audience_key :: "audience_key \<Rightarrow> audience_key \<Rightarrow> bool" where
  "less_audience_key a b \<longleftrightarrow> ak_tuple a < ak_tuple b"
instance
  by standard (auto simp: less_eq_audience_key_def less_audience_key_def simp flip: ak_tuple_inj)
end

instantiation publisher_key :: linorder
begin
definition less_eq_publisher_key :: "publisher_key \<Rightarrow> publisher_key \<Rightarrow> bool" where
  "less_eq_publisher_key a b \<longleftrightarrow> pk_tuple a \<le> pk_tuple b"
definition less_publisher_key :: "publisher_key \<Rightarrow> publisher_key \<Rightarrow> bool" where
  "less_publisher_key a b \<longleftrightarrow> pk_tuple a < pk_tuple b"
instance
  by standard (auto simp: less_eq_publisher_key_def less_publisher_key_def simp flip: pk_tuple_inj)
end

instantiation delivery_key :: linorder
begin
definition less_eq_delivery_key :: "delivery_key \<Rightarrow> delivery_key \<Rightarrow> bool" where
  "less_eq_delivery_key a b \<longleftrightarrow> dk_tuple a \<le> dk_tuple b"
definition less_delivery_key :: "delivery_key \<Rightarrow> delivery_key \<Rightarrow> bool" where
  "less_delivery_key a b \<longleftrightarrow> dk_tuple a < dk_tuple b"
instance
  by standard (auto simp: less_eq_delivery_key_def less_delivery_key_def simp flip: dk_tuple_inj)
end

record played_high_water =
  delivered_sequence :: u64
  acknowledged_sequence :: "u64 option"
  acknowledged_at_unix_us :: "nat option"

record 'p talkback_lane =
  config :: lane_config
  routes :: "(audience_key \<times> routing_snapshot) list"
  sequences :: "(publisher_key \<times> sequence_window) list"
  queues :: "(delivery_key \<times> 'p talkback_frame list) list"
  played :: "(delivery_key \<times> played_high_water) list"
  counters :: lane_health

section \<open>Routing snapshots\<close>

definition TALKBACK_ACK_FRESHNESS_US :: nat where
  "TALKBACK_ACK_FRESHNESS_US = 3000000"

definition validate_identifier :: "string \<Rightarrow> string \<Rightarrow> (unit, talkback_lane_error) result" where
  "validate_identifier field value =
     (if value = [] \<or> length value > 128 \<or> \<not> is_ascii value
         \<or> list_ex (\<lambda>c. \<not> is_ascii_graphic c) value
      then Inl (TalkbackLaneError InvalidConfiguration field) else Inr ())"

fun collect_publishers ::
  "talkback_publisher list \<Rightarrow> string list \<Rightarrow> talkback_publisher list
     \<Rightarrow> (talkback_publisher list, talkback_lane_error) result" where
  "collect_publishers pubs endpoints [] = Inr pubs"
| "collect_publishers pubs endpoints (p # ps) =
     (case validate_identifier ''publisher_participant_id'' (pub_participant_id p) of
        Inl e \<Rightarrow> Inl e
      | Inr _ \<Rightarrow>
     (case validate_identifier ''publisher_endpoint_id'' (pub_endpoint_id p) of
        Inl e \<Rightarrow> Inl e
      | Inr _ \<Rightarrow>
        if pub_subject_grant_epoch p = 0 \<or> pub_endpoint_id p \<in> set endpoints \<or> p \<in> set pubs
        then Inl (TalkbackLaneError InvalidConfiguration ''publisher'')
        else collect_publishers (pubs @ [p]) (pub_endpoint_id p # endpoints) ps))"

fun collect_subscribers ::
  "(string \<times> talkback_subscriber) list \<Rightarrow> talkback_subscriber list
     \<Rightarrow> ((string \<times> talkback_subscriber) list, talkback_lane_error) result" where
  "collect_subscribers subs [] = Inr subs"
| "collect_subscribers subs (s # ss) =
     (case validate_identifier ''subscriber_participant_id'' (sub_participant_id s) of
        Inl e \<Rightarrow> Inl e
      | Inr _ \<Rightarrow>
     (case validate_identifier ''subscriber_endpoint_id'' (sub_endpoint_id s) of
        Inl e \<Rightarrow> Inl e
      | Inr _ \<Rightarrow>
        if map_of subs (sub_endpoint_id s) \<noteq> None
        then Inl (TalkbackLaneError InvalidConfiguration ''subscriber_endpoint_id'')
        else collect_subscribers (bput (sub_endpoint_id s) s subs) ss))"

definition snapshot_new :: "snapshot_params \<Rightarrow> (routing_snapshot, talkback_lane_error) result" where
  "snapshot_new params =
     (case validate_identifier ''session_id'' (par_session_id params) of Inl e \<Rightarrow> Inl e | Inr _ \<Rightarrow>
     (case validate_identifier ''audience_id'' (par_audience_id params) of Inl e \<Rightarrow> Inl e | Inr _ \<Rightarrow>
      if par_session_epoch params = 0 \<or> par_media_authorization_epoch params = 0
         \<or> par_talkback_epoch params = 0 \<or> par_policy_version params = 0
      then Inl (TalkbackLaneError InvalidConfiguration ''authorization_generation'')
      else if par_publishers params = [] \<or> length (par_publishers params) > 64
         \<or> length (par_subscribers params) > 256
      then Inl (TalkbackLaneError InvalidConfiguration ''membership'')
      else
     (case collect_publishers [] [] (par_publishers params) of Inl e \<Rightarrow> Inl e | Inr pubs \<Rightarrow>
     (case collect_subscribers [] (par_subscribers params) of Inl e \<Rightarrow> Inl e | Inr subs \<Rightarrow>
      Inr \<lparr>session_id = par_session_id params, session_epoch = par_session_epoch params,
           media_authorization_epoch = par_media_authorization_epoch params,
           talkback_epoch = par_talkback_epoch params, policy_version = par_policy_version params,
           audience_id = par_audience_id params, publishers = pubs, subscribers = subs\<rparr>))))"

definition audience_key_of :: "routing_snapshot \<Rightarrow> audience_key" where
  "audience_key_of s = AudienceKey (session_id s) (audience_id s)"

definition publisher_allowed :: "routing_snapshot \<Rightarrow> 'p talkback_frame \<Rightarrow> bool" where
  "publisher_allowed s f \<longleftrightarrow>
     \<lparr>pub_participant_id = fr_publisher_participant_id f,
      pub_endpoint_id = fr_publisher_endpoint_id f,
      pub_subject_grant_epoch = fr_subject_grant_epoch f\<rparr> \<in> set (publishers s)"

section \<open>The lane\<close>

definition lane_new :: "lane_config \<Rightarrow> ('p talkback_lane, talkback_lane_error) result" where
  "lane_new cfg =
     (if max_frames_per_publisher_receiver cfg = 0 \<or> max_frames_per_publisher_receiver cfg > 256
         \<or> acknowledgement_freshness_us cfg = 0
         \<or> acknowledgement_freshness_us cfg > TALKBACK_ACK_FRESHNESS_US
      then Inl (TalkbackLaneError InvalidConfiguration ''lane_config'')
      else Inr \<lparr>config = cfg, routes = [], sequences = [], queues = [], played = [],
                counters = health_default\<rparr>)"

definition bump :: "(lane_health \<Rightarrow> lane_health) \<Rightarrow> 'p talkback_lane \<Rightarrow> 'p talkback_lane" where
  "bump f lane = lane\<lparr>counters := f (counters lane)\<rparr>"

text \<open>\<open>purge_audience\<close> returns the number of frames it drops.\<close>

definition purge_audience :: "audience_key \<Rightarrow> 'p talkback_lane \<Rightarrow> 'p talkback_lane \<times> nat" where
  "purge_audience audience lane =
     (lane\<lparr>sequences := retain (\<lambda>publisher _. pk_audience publisher \<noteq> audience) (sequences lane),
           queues := retain (\<lambda>delivery _. pk_audience (dk_publisher delivery) \<noteq> audience) (queues lane),
           played := retain (\<lambda>delivery _. pk_audience (dk_publisher delivery) \<noteq> audience) (played lane)\<rparr>,
      sum_list (map (length \<circ> snd)
        (filter (\<lambda>(delivery, _). pk_audience (dk_publisher delivery) = audience) (queues lane))))"

definition count_purged :: "nat \<Rightarrow> 'p talkback_lane \<Rightarrow> 'p talkback_lane" where
  "count_purged purged = bump (\<lambda>c. c\<lparr>purged_frames := sat_add (purged_frames c) purged\<rparr>)"

definition install_snapshot :: "routing_snapshot \<Rightarrow> 'p talkback_lane \<Rightarrow> 'p talkback_lane" where
  "install_snapshot snapshot lane =
     (let key = audience_key_of snapshot;
          (lane1, purged) = purge_audience key lane;
          lane2 = count_purged purged lane1
      in lane2\<lparr>routes := bput key snapshot (routes lane2)\<rparr>)"

definition remove_route :: "audience_key \<Rightarrow> 'p talkback_lane \<Rightarrow> 'p talkback_lane" where
  "remove_route key lane =
     (let (lane1, purged) = purge_audience key (lane\<lparr>routes := tdel key (routes lane)\<rparr>)
      in count_purged purged lane1)"

definition remove_audience :: "string \<Rightarrow> string \<Rightarrow> 'p talkback_lane \<Rightarrow> 'p talkback_lane \<times> bool" where
  "remove_audience session audience lane =
     (let key = AudienceKey session audience
      in (remove_route key lane, map_of (routes lane) key \<noteq> None))"

definition end_session :: "string \<Rightarrow> 'p talkback_lane \<Rightarrow> 'p talkback_lane" where
  "end_session session lane =
     fold remove_route (filter (\<lambda>key. ak_session_id key = session) (keys (routes lane))) lane"

definition queue_deliver ::
  "('p talkback_frame \<Rightarrow> nat \<Rightarrow> bool) \<Rightarrow> nat \<Rightarrow> nat \<Rightarrow> 'p talkback_frame
     \<Rightarrow> 'p talkback_frame list \<Rightarrow> 'p talkback_frame list \<times> bool" where
  "queue_deliver is_expired maximum now frame queue =
     (let queue1 = filter (\<lambda>queued. \<not> is_expired queued now) queue
      in if length queue1 = maximum then (tl queue1 @ [frame], True) else (queue1 @ [frame], False))"

text \<open>One round of the fan-out loop for a receiver that is not the publisher's own participant.\<close>

definition deliver_to ::
  "('p talkback_frame \<Rightarrow> nat \<Rightarrow> bool) \<Rightarrow> publisher_key \<Rightarrow> 'p talkback_frame \<Rightarrow> nat
     \<Rightarrow> talkback_subscriber \<Rightarrow> 'p talkback_lane \<Rightarrow> 'p talkback_lane" where
  "deliver_to is_expired publisher frame now s lane =
     (let key = DeliveryKey publisher (sub_participant_id s) (sub_endpoint_id s);
          (queue, evicted) = queue_deliver is_expired
            (max_frames_per_publisher_receiver (config lane)) now frame (get_or [] (queues lane) key);
          lane1 = (if evicted
                   then bump (\<lambda>c. c\<lparr>queue_evictions := sat_add (queue_evictions c) 1\<rparr>) lane
                   else lane)
      in lane1\<lparr>queues := bput key queue (queues lane1)\<rparr>)"

fun fan_out ::
  "('p talkback_frame \<Rightarrow> nat \<Rightarrow> bool) \<Rightarrow> publisher_key \<Rightarrow> 'p talkback_frame \<Rightarrow> nat
     \<Rightarrow> talkback_subscriber list \<Rightarrow> 'p talkback_lane \<Rightarrow> string list \<Rightarrow> string list
     \<Rightarrow> 'p talkback_lane \<times> talkback_fanout" where
  "fan_out is_expired publisher frame now [] lane queued excluded =
     (lane, TalkbackFanout queued excluded)"
| "fan_out is_expired publisher frame now (s # ss) lane queued excluded =
     (if sub_participant_id s = pk_participant_id publisher
      then fan_out is_expired publisher frame now ss lane queued (excluded @ [sub_endpoint_id s])
      else fan_out is_expired publisher frame now ss
             (deliver_to is_expired publisher frame now s lane)
             (queued @ [sub_endpoint_id s]) excluded)"

definition frame_epochs_match :: "routing_snapshot \<Rightarrow> 'p talkback_frame \<Rightarrow> bool" where
  "frame_epochs_match route f \<longleftrightarrow>
     session_epoch route = fr_session_epoch f
     \<and> media_authorization_epoch route = fr_media_authorization_epoch f
     \<and> talkback_epoch route = fr_talkback_epoch f
     \<and> policy_version route = fr_policy_version f"

definition frame_audience :: "'p talkback_frame \<Rightarrow> audience_key" where
  "frame_audience f = AudienceKey (fr_session_id f) (fr_audience_id f)"

definition frame_publisher :: "'p talkback_frame \<Rightarrow> publisher_key" where
  "frame_publisher f =
     PublisherKey (frame_audience f) (fr_publisher_participant_id f) (fr_publisher_endpoint_id f)"

definition publish_inner ::
  "('p talkback_frame \<Rightarrow> nat \<Rightarrow> bool) \<Rightarrow> 'p talkback_frame \<Rightarrow> nat \<Rightarrow> 'p talkback_lane
     \<Rightarrow> 'p talkback_lane \<times> (talkback_fanout, talkback_lane_error) result" where
  "publish_inner is_expired frame now lane =
     (if is_expired frame now then (lane, Inl (TalkbackLaneError FrameExpired ''deadline''))
      else case map_of (routes lane) (frame_audience frame) of
        None \<Rightarrow> (lane, Inl (TalkbackLaneError RouteUnavailable ''audience''))
      | Some route \<Rightarrow>
        if \<not> frame_epochs_match route frame
        then (lane, Inl (TalkbackLaneError AuthorizationEpoch ''authorization_generation''))
        else if \<not> publisher_allowed route frame
        then (lane, Inl (TalkbackLaneError PublisherNotAllowed ''publisher''))
        else
          let publisher = frame_publisher frame;
              (window, admitted) =
                (case map_of (sequences lane) publisher of
                   Some w \<Rightarrow> window_admit w (fr_sequence frame)
                 | None \<Rightarrow> (window_first (fr_sequence frame), True))
          in if \<not> admitted then (lane, Inl (TalkbackLaneError FrameReplay ''sequence''))
             else
               let (lane1, fanout) = fan_out is_expired publisher frame now (vals (subscribers route))
                     (lane\<lparr>sequences := bput publisher window (sequences lane)\<rparr>) [] []
               in (lane1, Inr fanout))"

definition count_publish ::
  "(talkback_fanout, talkback_lane_error) result \<Rightarrow> lane_health \<Rightarrow> lane_health" where
  "count_publish r c =
     (case r of
        Inr fanout \<Rightarrow>
          c\<lparr>admitted_frames := sat_add (admitted_frames c) 1,
            queued_deliveries :=
              sat_add (queued_deliveries c) (length (queued_receiver_endpoints fanout)),
            mix_minus_exclusions :=
              sat_add (mix_minus_exclusions c) (length (mix_minus_excluded_endpoints fanout))\<rparr>
      | Inl e \<Rightarrow>
         (case error_code e of
            FrameExpired \<Rightarrow> c\<lparr>expired_rejections := sat_add (expired_rejections c) 1\<rparr>
          | FrameReplay \<Rightarrow> c\<lparr>replay_rejections := sat_add (replay_rejections c) 1\<rparr>
          | RouteUnavailable \<Rightarrow> c\<lparr>authorization_rejections := sat_add (authorization_rejections c) 1\<rparr>
          | AuthorizationEpoch \<Rightarrow> c\<lparr>authorization_rejections := sat_add (authorization_rejections c) 1\<rparr>
          | PublisherNotAllowed \<Rightarrow> c\<lparr>authorization_rejections := sat_add (authorization_rejections c) 1\<rparr>
          | _ \<Rightarrow> c))"

definition publish ::
  "('p talkback_frame \<Rightarrow> nat \<Rightarrow> bool) \<Rightarrow> 'p talkback_frame \<Rightarrow> nat \<Rightarrow> 'p talkback_lane
     \<Rightarrow> 'p talkback_lane \<times> (talkback_fanout, talkback_lane_error) result" where
  "publish is_expired frame now lane =
     (let (lane1, r) = publish_inner is_expired frame now lane
      in (bump (count_publish r) lane1, r))"

definition drop_expired_fronts ::
  "('p talkback_frame \<Rightarrow> nat \<Rightarrow> bool) \<Rightarrow> string \<Rightarrow> nat
     \<Rightarrow> (delivery_key \<times> 'p talkback_frame list) list \<Rightarrow> (delivery_key \<times> 'p talkback_frame list) list" where
  "drop_expired_fronts is_expired receiver now qs =
     map_vals (\<lambda>key queue. if dk_receiver_endpoint_id key = receiver
                            then dropWhile (\<lambda>frame. is_expired frame now) queue else queue) qs"

definition pull_next ::
  "('p talkback_frame \<Rightarrow> nat \<Rightarrow> bool) \<Rightarrow> string \<Rightarrow> nat \<Rightarrow> 'p talkback_lane
     \<Rightarrow> 'p talkback_lane \<times> 'p talkback_frame option" where
  "pull_next is_expired receiver now lane =
     (let lane1 = lane\<lparr>queues := drop_expired_fronts is_expired receiver now (queues lane)\<rparr>
      in case min_by_key (\<lambda>(key, queue). (fr_accepted_at_unix_us (hd queue), fr_sequence (hd queue)))
                (filter (\<lambda>(key, queue). dk_receiver_endpoint_id key = receiver \<and> queue \<noteq> [])
                   (queues lane1)) of
           None \<Rightarrow> (lane1, None)
         | Some (key, queue) \<Rightarrow>
             let frame = hd queue;
                 lane2 = bump (\<lambda>c. c\<lparr>pulled_frames := sat_add (pulled_frames c) 1\<rparr>)
                           (lane1\<lparr>queues := bput key (tl queue) (queues lane1)\<rparr>);
                 mark = (case map_of (played lane2) key of
                           Some p \<Rightarrow> p\<lparr>delivered_sequence := max (delivered_sequence p) (fr_sequence frame)\<rparr>
                         | None \<Rightarrow> \<lparr>delivered_sequence = fr_sequence frame,
                                    acknowledged_sequence = None, acknowledged_at_unix_us = None\<rparr>)
             in (lane2\<lparr>played := bput key mark (played lane2)\<rparr>, Some frame))"

definition acknowledgement_key ::
  "playout_ack \<Rightarrow> 'p talkback_lane \<Rightarrow> (delivery_key, talkback_lane_error) result" where
  "acknowledgement_key ack lane =
     (let audience = AudienceKey (ack_session_id ack) (ack_audience_id ack)
      in case map_of (routes lane) audience of
           None \<Rightarrow> Inl (TalkbackLaneError RouteUnavailable ''audience'')
         | Some route \<Rightarrow>
             if \<not> (case map_of (subscribers route) (ack_receiver_endpoint_id ack) of
                      None \<Rightarrow> False
                    | Some s \<Rightarrow> sub_participant_id s = ack_receiver_participant_id ack)
             then Inl (TalkbackLaneError SubscriberNotAllowed ''receiver'')
             else Inr (DeliveryKey
                    (PublisherKey audience (ack_publisher_participant_id ack) (ack_publisher_endpoint_id ack))
                    (ack_receiver_participant_id ack) (ack_receiver_endpoint_id ack)))"

definition acknowledge_playout_inner ::
  "playout_ack \<Rightarrow> nat \<Rightarrow> 'p talkback_lane
     \<Rightarrow> 'p talkback_lane \<times> (unit, talkback_lane_error) result" where
  "acknowledge_playout_inner ack now lane =
     (case acknowledgement_key ack lane of
        Inl e \<Rightarrow> (lane, Inl e)
      | Inr key \<Rightarrow>
       (case map_of (played lane) key of
          None \<Rightarrow> (lane, Inl (TalkbackLaneError PlayoutBeyondDelivery ''played_sequence''))
        | Some p \<Rightarrow>
            if ack_sequence ack > delivered_sequence p
            then (lane, Inl (TalkbackLaneError PlayoutBeyondDelivery ''played_sequence''))
            else if (case acknowledged_sequence p of None \<Rightarrow> False
                     | Some previous \<Rightarrow> ack_sequence ack \<le> previous)
            then (lane, Inl (TalkbackLaneError StaleAcknowledgement ''played_sequence''))
            else (lane\<lparr>played := bput key (p\<lparr>acknowledged_sequence := Some (ack_sequence ack),
                                            acknowledged_at_unix_us := Some now\<rparr>) (played lane)\<rparr>,
                  Inr ())))"

definition acknowledge_playout ::
  "playout_ack \<Rightarrow> nat \<Rightarrow> 'p talkback_lane
     \<Rightarrow> 'p talkback_lane \<times> (unit, talkback_lane_error) result" where
  "acknowledge_playout ack now lane =
     (let (lane1, r) = acknowledge_playout_inner ack now lane
      in (bump (\<lambda>c. case r of
            Inr _ \<Rightarrow> c\<lparr>accepted_playout_acknowledgements := sat_add (accepted_playout_acknowledgements c) 1\<rparr>
          | Inl _ \<Rightarrow> c\<lparr>rejected_playout_acknowledgements := sat_add (rejected_playout_acknowledgements c) 1\<rparr>)
          lane1, r))"

definition is_receiving :: "playout_ack \<Rightarrow> nat \<Rightarrow> 'p talkback_lane \<Rightarrow> bool" where
  "is_receiving ack now lane =
     (case acknowledgement_key ack lane of
        Inl _ \<Rightarrow> False
      | Inr key \<Rightarrow>
       (case map_of (played lane) key of
          None \<Rightarrow> False
        | Some p \<Rightarrow> acknowledged_sequence p = Some (ack_sequence ack)
            \<and> (case acknowledged_at_unix_us p of None \<Rightarrow> False
               | Some at \<Rightarrow> sat_sub now at < acknowledgement_freshness_us (config lane))))"

definition queued_frames :: "string \<Rightarrow> 'p talkback_lane \<Rightarrow> nat" where
  "queued_frames receiver lane =
     sum_list (map (length \<circ> snd)
       (filter (\<lambda>(key, _). dk_receiver_endpoint_id key = receiver) (queues lane)))"

definition health :: "'p talkback_lane \<Rightarrow> lane_health" where
  "health lane = (counters lane)\<lparr>
     active_audiences := length (routes lane),
     active_publishers := sum_list (map (length \<circ> publishers \<circ> snd) (routes lane)),
     active_subscribers := sum_list (map (length \<circ> subscribers \<circ> snd) (routes lane)),
     queued_frames_total := sum_list (map (length \<circ> snd) (queues lane))\<rparr>"

end
