(* ===== verification/Talkback_Safety.thy ===== *)
theory Talkback_Safety
  imports Talkback_Lane
begin

text \<open>
  The invariant of the talkback lane and what follows from it: what \<open>snapshot_new\<close> accepts, what a
  frame is delivered to, that only frames authorised by the snapshot installed now are ever pulled,
  that no frame of a publisher is admitted twice, that acknowledgements follow deliveries, and that
  installing a snapshot fences everything of the one before.
\<close>

section \<open>Snapshots\<close>

definition valid_identifier :: "string \<Rightarrow> bool" where
  "valid_identifier value \<longleftrightarrow> value \<noteq> [] \<and> length value \<le> 128 \<and> list_all is_ascii_graphic value"

lemma validate_identifier_iff [simp]:
  "validate_identifier field value = Inr u \<longleftrightarrow> valid_identifier value"
  "validate_identifier field value = Inl e \<longleftrightarrow>
     \<not> valid_identifier value \<and> e = TalkbackLaneError InvalidConfiguration field"
proof -
  have "list_all is_ascii_graphic value \<Longrightarrow> is_ascii value"
    by (auto simp: list_all_iff is_ascii_def is_ascii_graphic_def)
  then show "validate_identifier field value = Inr u \<longleftrightarrow> valid_identifier value"
    and "validate_identifier field value = Inl e \<longleftrightarrow>
      \<not> valid_identifier value \<and> e = TalkbackLaneError InvalidConfiguration field"
    by (auto simp: validate_identifier_def valid_identifier_def list_all_iff list_ex_iff)
qed

definition publisher_valid :: "talkback_publisher \<Rightarrow> bool" where
  "publisher_valid p \<longleftrightarrow> valid_identifier (pub_participant_id p) \<and> valid_identifier (pub_endpoint_id p)
     \<and> pub_subject_grant_epoch p \<noteq> 0"

definition subscriber_valid :: "talkback_subscriber \<Rightarrow> bool" where
  "subscriber_valid s \<longleftrightarrow> valid_identifier (sub_participant_id s) \<and> valid_identifier (sub_endpoint_id s)"

definition params_valid :: "snapshot_params \<Rightarrow> bool" where
  "params_valid params \<longleftrightarrow>
     valid_identifier (par_session_id params) \<and> valid_identifier (par_audience_id params)
     \<and> par_session_epoch params \<noteq> 0 \<and> par_media_authorization_epoch params \<noteq> 0
     \<and> par_talkback_epoch params \<noteq> 0 \<and> par_policy_version params \<noteq> 0
     \<and> par_publishers params \<noteq> [] \<and> length (par_publishers params) \<le> 64
     \<and> length (par_subscribers params) \<le> 256
     \<and> list_all publisher_valid (par_publishers params)
     \<and> distinct (map pub_endpoint_id (par_publishers params))
     \<and> list_all subscriber_valid (par_subscribers params)
     \<and> distinct (map sub_endpoint_id (par_subscribers params))"

lemma collect_publishers_iff:
  "collect_publishers pubs endpoints ps = Inr out \<longleftrightarrow>
     out = pubs @ ps \<and> list_all publisher_valid ps \<and> distinct (map pub_endpoint_id ps)
     \<and> set endpoints \<inter> pub_endpoint_id ` set ps = {}"
  if "set endpoints = pub_endpoint_id ` set pubs"
  using that
proof (induction ps arbitrary: pubs endpoints)
  case Nil
  then show ?case by auto
next
  case (Cons p ps)
  have step: "set (pub_endpoint_id p # endpoints) = pub_endpoint_id ` set (pubs @ [p])"
    using Cons.prems by auto
  show ?case
    using Cons.prems Cons.IH [OF step]
    by (auto simp: publisher_valid_def image_iff split: sum.splits)
qed

lemma collect_subscribers_iff:
  "table_ok subs \<Longrightarrow>
   (\<exists>out. collect_subscribers subs ss = Inr out) \<longleftrightarrow>
     list_all subscriber_valid ss \<and> distinct (map sub_endpoint_id ss)
     \<and> set (keys subs) \<inter> sub_endpoint_id ` set ss = {}"
proof (induction ss arbitrary: subs)
  case Nil
  then show ?case by simp
next
  case (Cons s ss)
  have ok: "table_ok (bput (sub_endpoint_id s) s subs)"
    using Cons.prems by (rule bt.table_ok_put)
  have ks: "map_of subs (sub_endpoint_id s) = None \<Longrightarrow>
      set (keys (bput (sub_endpoint_id s) s subs)) = insert (sub_endpoint_id s) (set (keys subs))"
    using Cons.prems by (auto simp: bt.set_put map_of_eq_None_iff)
  show ?case
  proof (cases "map_of subs (sub_endpoint_id s)")
    case None
    then have "sub_endpoint_id s \<notin> set (keys subs)" by (simp add: map_of_eq_None_iff)
    then show ?thesis
      using Cons.IH [OF ok] None ks [OF None]
      by (auto simp: subscriber_valid_def image_iff split: sum.splits)
  next
    case (Some v)
    then have "sub_endpoint_id s \<in> set (keys subs)"
      by (metis map_of_eq_None_iff option.distinct(1) set_map)
    then show ?thesis
      using Some by (auto simp: subscriber_valid_def image_iff split: sum.splits)
  qed
qed

lemma collect_subscribers_table:
  "collect_subscribers subs ss = Inr out \<Longrightarrow> btree_ok subs \<Longrightarrow>
   btree_ok out \<and> length out = length subs + length ss \<and>
   (\<forall>e s. map_of out e = Some s \<longleftrightarrow> map_of subs e = Some s \<or> (s \<in> set ss \<and> sub_endpoint_id s = e))"
proof (induction ss arbitrary: subs)
  case Nil
  then show ?case by auto
next
  case (Cons s ss)
  then have new: "map_of subs (sub_endpoint_id s) = None"
    and rest: "collect_subscribers (bput (sub_endpoint_id s) s subs) ss = Inr out"
    by (auto split: sum.splits if_splits)
  have "btree_ok (bput (sub_endpoint_id s) s subs)"
    using Cons.prems(2) by (simp add: bt.table_ok_put)
  from Cons.IH [OF rest this] show ?case
    using Cons.prems(2) new by (auto simp: bt.map_of_put bt.length_put split: if_splits)
qed

text \<open>What every snapshot built by \<open>snapshot_new\<close> satisfies.\<close>

definition snapshot_ok :: "routing_snapshot \<Rightarrow> bool" where
  "snapshot_ok s \<longleftrightarrow> btree_ok (subscribers s)
     \<and> (\<forall>e sub. map_of (subscribers s) e = Some sub \<longrightarrow> sub_endpoint_id sub = e)
     \<and> distinct (map pub_endpoint_id (publishers s))
     \<and> publishers s \<noteq> [] \<and> length (publishers s) \<le> 64 \<and> length (subscribers s) \<le> 256
     \<and> session_epoch s \<noteq> 0 \<and> media_authorization_epoch s \<noteq> 0 \<and> talkback_epoch s \<noteq> 0
     \<and> policy_version s \<noteq> 0"

lemma snapshot_new_ok: "snapshot_new params = Inr s \<Longrightarrow> snapshot_ok s"
  using collect_subscribers_table [of "[]" "par_subscribers params"]
  by (auto simp: snapshot_new_def snapshot_ok_def collect_publishers_iff split: sum.splits if_splits)

lemma snapshot_new_content:
  "snapshot_new params = Inr s \<Longrightarrow>
     publishers s = par_publishers params
     \<and> (\<forall>e sub. map_of (subscribers s) e = Some sub \<longleftrightarrow>
          sub \<in> set (par_subscribers params) \<and> sub_endpoint_id sub = e)"
  using collect_subscribers_table [of "[]" "par_subscribers params"]
  by (auto simp: snapshot_new_def collect_publishers_iff split: sum.splits if_splits)

lemma snapshot_new_defined: "(\<exists>s. snapshot_new params = Inr s) \<longleftrightarrow> params_valid params"
proof -
  have "(\<exists>out. collect_publishers [] [] (par_publishers params) = Inr out) \<longleftrightarrow>
      list_all publisher_valid (par_publishers params)
      \<and> distinct (map pub_endpoint_id (par_publishers params))"
    by (auto simp: collect_publishers_iff)
  moreover note collect_subscribers_iff [of "[]" "par_subscribers params"]
  ultimately show ?thesis
    by (cases "collect_publishers [] [] (par_publishers params)";
        cases "collect_subscribers [] (par_subscribers params)")
      (auto simp: snapshot_new_def params_valid_def split: sum.splits if_splits)
qed

section \<open>Fan-out\<close>

definition receives :: "(string \<times> talkback_subscriber) list \<Rightarrow> delivery_key \<Rightarrow> bool" where
  "receives subs dk \<longleftrightarrow>
     (\<exists>s. map_of subs (dk_receiver_endpoint_id dk) = Some s
        \<and> sub_participant_id s = dk_receiver_participant_id dk
        \<and> sub_participant_id s \<noteq> pk_participant_id (dk_publisher dk))"

lemma bump_simps [simp]:
  "config (bump f l) = config l" "routes (bump f l) = routes l" "sequences (bump f l) = sequences l"
  "queues (bump f l) = queues l" "played (bump f l) = played l"
  by (simp_all add: bump_def)

lemma deliver_to_frame [simp]:
  "config (deliver_to ex pk f now s l) = config l"
  "routes (deliver_to ex pk f now s l) = routes l"
  "sequences (deliver_to ex pk f now s l) = sequences l"
  "played (deliver_to ex pk f now s l) = played l"
  by (simp_all add: deliver_to_def Let_def case_prod_beta)

lemma deliver_to_queues:
  "queues (deliver_to ex pk f now s l) =
     bput (DeliveryKey pk (sub_participant_id s) (sub_endpoint_id s))
       (fst (queue_deliver ex (max_frames_per_publisher_receiver (config l)) now f
          (get_or [] (queues l) (DeliveryKey pk (sub_participant_id s) (sub_endpoint_id s)))))
       (queues l)"
  by (simp add: deliver_to_def Let_def case_prod_beta)

lemma fan_out_frame:
  "fan_out ex pk f now ss l qd xd = (l', fo) \<Longrightarrow>
     config l' = config l \<and> routes l' = routes l \<and> sequences l' = sequences l \<and> played l' = played l"
  by (induction ss arbitrary: l qd xd) (auto split: if_splits)

lemma fan_out_endpoints:
  "fan_out ex pk f now ss l qd xd = (l', fo) \<Longrightarrow>
     queued_receiver_endpoints fo =
       qd @ map sub_endpoint_id (filter (\<lambda>s. sub_participant_id s \<noteq> pk_participant_id pk) ss)
   \<and> mix_minus_excluded_endpoints fo =
       xd @ map sub_endpoint_id (filter (\<lambda>s. sub_participant_id s = pk_participant_id pk) ss)"
  by (induction ss arbitrary: l qd xd) (auto split: if_splits)

lemma fan_out_btree:
  "fan_out ex pk f now ss l qd xd = (l', fo) \<Longrightarrow> btree_ok (queues l) \<Longrightarrow> btree_ok (queues l')"
  by (induction ss arbitrary: l qd xd)
    (auto simp: deliver_to_queues bt.table_ok_put split: if_splits)

text \<open>Every queue after the fan-out, by its key: those of the receivers get the frame, all others
  are as before.\<close>

lemma fan_out_queues:
  assumes "fan_out ex pk f now ss l qd xd = (l', fo)" and "table_ok (queues l)"
    and "distinct (map sub_endpoint_id ss)"
  shows "map_of (queues l') dk =
    (if dk_publisher dk = pk \<and>
        (\<exists>s \<in> set ss. sub_endpoint_id s = dk_receiver_endpoint_id dk
           \<and> sub_participant_id s = dk_receiver_participant_id dk
           \<and> sub_participant_id s \<noteq> pk_participant_id pk)
     then Some (fst (queue_deliver ex (max_frames_per_publisher_receiver (config l)) now f
            (get_or [] (queues l) dk)))
     else map_of (queues l) dk)"
  using assms
proof (induction ss arbitrary: l qd xd)
  case Nil
  then show ?case by simp
next
  case (Cons s ss)
  show ?case
  proof (cases "sub_participant_id s = pk_participant_id pk")
    case True
    with Cons.prems have "fan_out ex pk f now ss l qd (xd @ [sub_endpoint_id s]) = (l', fo)"
      by simp
    from Cons.IH [OF this] Cons.prems True show ?thesis by auto
  next
    case False
    define key where "key = DeliveryKey pk (sub_participant_id s) (sub_endpoint_id s)"
    define q where "q = fst (queue_deliver ex (max_frames_per_publisher_receiver (config l)) now f
      (get_or [] (queues l) key))"
    define l2 where "l2 = deliver_to ex pk f now s l"
    have rest: "fan_out ex pk f now ss l2 (qd @ [sub_endpoint_id s]) xd = (l', fo)"
      using Cons.prems(1) False by (simp add: l2_def)
    have qs: "queues l2 = bput key q (queues l)" and cfg: "config l2 = config l"
      by (simp_all add: l2_def deliver_to_queues key_def q_def)
    have ok: "table_ok (queues l2)"
      using Cons.prems(2) by (simp add: qs bt.table_ok_put)
    have look: "map_of (queues l2) dk = (if dk = key then Some q else map_of (queues l) dk)"
      using Cons.prems(2) by (simp add: qs bt.map_of_put)
    have fresh: "\<forall>s' \<in> set ss. sub_endpoint_id s' \<noteq> sub_endpoint_id s"
      using Cons.prems(3) by (auto simp: image_iff)
    note IH = Cons.IH [OF rest ok, unfolded cfg look get_or_def]
    show ?thesis
    proof (cases "dk = key")
      case True
      then show ?thesis
        using IH Cons.prems(3) False fresh by (auto simp: key_def q_def)
    next
      case other: False
      then have "dk_publisher dk = pk \<Longrightarrow> sub_endpoint_id s = dk_receiver_endpoint_id dk \<Longrightarrow>
          sub_participant_id s \<noteq> dk_receiver_participant_id dk"
        by (cases dk) (simp add: key_def)
      then show ?thesis
        using IH Cons.prems(3) False other by (auto simp: get_or_def)
    qed
  qed
qed

lemma vals_by_key:
  assumes "table_ok m" and "\<forall>e s. map_of m e = Some s \<longrightarrow> g s = e"
  shows "s \<in> set (vals m) \<longleftrightarrow> map_of m (g s) = Some s"
proof
  assume "s \<in> set (vals m)"
  then obtain e where "map_of m e = Some s"
    using assms(1) by (auto simp: map_of_in_set)
  with assms(2) show "map_of m (g s) = Some s" by auto
next
  assume "map_of m (g s) = Some s"
  then show "s \<in> set (vals m)"
    by (metis image_eqI map_of_SomeD set_map snd_conv)
qed

lemma map_vals_keys:
  "table_ok m \<Longrightarrow> \<forall>e s. map_of m e = Some s \<longrightarrow> g s = e \<Longrightarrow> map g (vals m) = keys m"
  by (auto simp: map_of_in_set)

section \<open>The invariant\<close>

text \<open>An entry of the queue table: bounded; addressed from a publisher to a receiver of the snapshot
  installed now, never back to the publisher's participant; every frame in it authorised by that
  snapshot, admitted by the publisher's window, and no sequence number in it twice.\<close>

definition entry_ok :: "'p talkback_lane \<Rightarrow> delivery_key \<Rightarrow> 'p talkback_frame list \<Rightarrow> bool" where
  "entry_ok l dk q \<longleftrightarrow>
     length q \<le> max_frames_per_publisher_receiver (config l)
     \<and> (\<exists>route. map_of (routes l) (pk_audience (dk_publisher dk)) = Some route
          \<and> receives (subscribers route) dk
          \<and> (\<forall>f \<in> set q. frame_publisher f = dk_publisher dk \<and> frame_epochs_match route f
               \<and> publisher_allowed route f))
     \<and> (\<exists>w. map_of (sequences l) (dk_publisher dk) = Some w \<and> fr_sequence ` set q \<subseteq> window_fenced w)
     \<and> distinct (map fr_sequence q)"

definition played_ok :: "'p talkback_lane \<Rightarrow> delivery_key \<Rightarrow> played_high_water \<Rightarrow> bool" where
  "played_ok l dk p \<longleftrightarrow>
     (\<exists>route. map_of (routes l) (pk_audience (dk_publisher dk)) = Some route
        \<and> receives (subscribers route) dk)
     \<and> (\<exists>w. map_of (sequences l) (dk_publisher dk) = Some w \<and> delivered_sequence p \<in> window_fenced w)
     \<and> (case acknowledged_sequence p of None \<Rightarrow> acknowledged_at_unix_us p = None
        | Some a \<Rightarrow> a \<le> delivered_sequence p \<and> acknowledged_at_unix_us p \<noteq> None)"

definition lane_inv :: "'p talkback_lane \<Rightarrow> bool" where
  "lane_inv l \<longleftrightarrow>
     0 < max_frames_per_publisher_receiver (config l)
     \<and> max_frames_per_publisher_receiver (config l) \<le> 256
     \<and> 0 < acknowledgement_freshness_us (config l)
     \<and> acknowledgement_freshness_us (config l) \<le> TALKBACK_ACK_FRESHNESS_US
     \<and> btree_ok (routes l) \<and> btree_ok (sequences l) \<and> btree_ok (queues l) \<and> btree_ok (played l)
     \<and> (\<forall>k s. map_of (routes l) k = Some s \<longrightarrow> audience_key_of s = k \<and> snapshot_ok s)
     \<and> (\<forall>pk w. map_of (sequences l) pk = Some w \<longrightarrow> map_of (routes l) (pk_audience pk) \<noteq> None)
     \<and> (\<forall>dk q. map_of (queues l) dk = Some q \<longrightarrow> entry_ok l dk q)
     \<and> (\<forall>dk p. map_of (played l) dk = Some p \<longrightarrow> played_ok l dk p)"

lemma entry_ok_cong:
  "config l' = config l \<Longrightarrow>
   map_of (routes l') (pk_audience (dk_publisher dk)) = map_of (routes l) (pk_audience (dk_publisher dk)) \<Longrightarrow>
   map_of (sequences l') (dk_publisher dk) = map_of (sequences l) (dk_publisher dk) \<Longrightarrow>
   entry_ok l' dk q = entry_ok l dk q \<and> played_ok l' dk p = played_ok l dk p"
  by (simp add: entry_ok_def played_ok_def)

lemma lane_inv_bump [simp]: "lane_inv (bump f l) = lane_inv l"
  by (simp add: lane_inv_def entry_ok_def played_ok_def)

lemma lane_inv_new: "lane_new cfg = Inr l \<Longrightarrow> lane_inv l"
  by (auto simp: lane_new_def lane_inv_def split: if_splits)

text \<open>Purging an audience keeps exactly what belongs to other audiences.\<close>

lemma purge_lookup:
  assumes "lane_inv l"
  shows "map_of (sequences (fst (purge_audience k l))) pk =
      (if pk_audience pk = k then None else map_of (sequences l) pk)"
    and "map_of (queues (fst (purge_audience k l))) dk =
      (if pk_audience (dk_publisher dk) = k then None else map_of (queues l) dk)"
    and "map_of (played (fst (purge_audience k l))) dk =
      (if pk_audience (dk_publisher dk) = k then None else map_of (played l) dk)"
    and "config (fst (purge_audience k l)) = config l"
    and "routes (fst (purge_audience k l)) = routes l"
    and "btree_ok (sequences (fst (purge_audience k l))) \<and> btree_ok (queues (fst (purge_audience k l)))
      \<and> btree_ok (played (fst (purge_audience k l)))"
  using assms
  by (auto simp: purge_audience_def lane_inv_def map_of_retain split: option.splits)

lemma count_purged_simps [simp]:
  "config (count_purged n l) = config l" "routes (count_purged n l) = routes l"
  "sequences (count_purged n l) = sequences l" "queues (count_purged n l) = queues l"
  "played (count_purged n l) = played l"
  by (simp_all add: count_purged_def)

text \<open>A lane whose routes differ from those of \<open>l\<close> at most at the audience \<open>k\<close>, and from which that
  audience has been purged, satisfies the invariant.\<close>

lemma lane_inv_purged:
  assumes inv: "lane_inv l"
    and cfg: "config l' = config l" and rts: "btree_ok (routes l')"
    and keep: "\<And>a. a \<noteq> k \<Longrightarrow> map_of (routes l') a = map_of (routes l) a"
    and here: "\<And>s. map_of (routes l') k = Some s \<Longrightarrow> audience_key_of s = k \<and> snapshot_ok s"
    and sq: "sequences l' = sequences (fst (purge_audience k l))"
    and qu: "queues l' = queues (fst (purge_audience k l))"
    and pl: "played l' = played (fst (purge_audience k l))"
  shows "lane_inv l'"
proof -
  note look = purge_lookup [OF inv]
  have routes: "\<forall>a s. map_of (routes l') a = Some s \<longrightarrow> audience_key_of s = a \<and> snapshot_ok s"
    using inv keep here by (metis lane_inv_def)
  have seqs: "\<forall>pk w. map_of (sequences l') pk = Some w \<longrightarrow> map_of (routes l') (pk_audience pk) \<noteq> None"
    using inv keep by (auto simp: sq look lane_inv_def)
  have same: "pk_audience (dk_publisher dk) \<noteq> k \<Longrightarrow>
      entry_ok l' dk q = entry_ok l dk q \<and> played_ok l' dk p = played_ok l dk p" for dk q p
    by (rule entry_ok_cong) (simp_all add: cfg keep sq look)
  have "\<forall>dk q. map_of (queues l') dk = Some q \<longrightarrow> entry_ok l' dk q"
    using inv same by (auto simp: qu look lane_inv_def split: if_splits)
  moreover have "\<forall>dk p. map_of (played l') dk = Some p \<longrightarrow> played_ok l' dk p"
    using inv same by (auto simp: pl look lane_inv_def split: if_splits)
  ultimately show ?thesis
    using inv rts routes seqs look(6) by (simp add: lane_inv_def cfg sq qu pl)
qed

lemma lane_inv_install [inv_intros]:
  assumes "lane_inv l" and "snapshot_ok s"
  shows "lane_inv (install_snapshot s l)"
proof (rule lane_inv_purged [OF assms(1), where k = "audience_key_of s"])
  have r: "routes (install_snapshot s l) = bput (audience_key_of s) s (routes l)"
    using purge_lookup(5) [OF assms(1)]
    by (simp add: install_snapshot_def Let_def case_prod_beta)
  have ok: "btree_ok (routes l)" using assms(1) by (simp add: lane_inv_def)
  show "btree_ok (routes (install_snapshot s l))"
    using ok by (simp add: r bt.table_ok_put)
  show "map_of (routes (install_snapshot s l)) a = map_of (routes l) a" if "a \<noteq> audience_key_of s" for a
    using ok that by (simp add: r bt.map_of_put)
  show "audience_key_of s' = audience_key_of s \<and> snapshot_ok s'"
    if "map_of (routes (install_snapshot s l)) (audience_key_of s) = Some s'" for s'
    using ok that assms(2) by (simp add: r bt.map_of_put)
qed (simp_all add: install_snapshot_def Let_def case_prod_beta purge_audience_def)

lemma lane_inv_remove_route [inv_intros]:
  assumes "lane_inv l"
  shows "lane_inv (remove_route k l)"
proof (rule lane_inv_purged [OF assms, where k = k])
  have ok: "btree_ok (routes l)" using assms by (simp add: lane_inv_def)
  have r: "routes (remove_route k l) = tdel k (routes l)"
    by (simp add: remove_route_def Let_def case_prod_beta purge_audience_def)
  show "btree_ok (routes (remove_route k l))"
    using ok by (simp add: r)
  show "map_of (routes (remove_route k l)) a = map_of (routes l) a" if "a \<noteq> k" for a
    using that by (simp add: r)
  show "audience_key_of s = k \<and> snapshot_ok s"
    if "map_of (routes (remove_route k l)) k = Some s" for s
    using that by (simp add: r)
qed (simp_all add: remove_route_def Let_def case_prod_beta purge_audience_def)

lemma lane_inv_remove_routes: "lane_inv l \<Longrightarrow> lane_inv (fold remove_route ks l)"
  by (induction ks arbitrary: l) (auto intro: inv_intros)

lemma lane_inv_end_session [inv_intros]: "lane_inv l \<Longrightarrow> lane_inv (end_session sid l)"
  by (simp add: end_session_def lane_inv_remove_routes)

section \<open>Publishing\<close>

text \<open>The publisher's window after a frame was admitted.\<close>

definition next_window :: "'p talkback_lane \<Rightarrow> 'p talkback_frame \<Rightarrow> sequence_window" where
  "next_window l f = (case map_of (sequences l) (frame_publisher f) of
     Some w \<Rightarrow> fst (window_admit w (fr_sequence f)) | None \<Rightarrow> window_first (fr_sequence f))"

definition fresh_sequence :: "'p talkback_lane \<Rightarrow> 'p talkback_frame \<Rightarrow> bool" where
  "fresh_sequence l f \<longleftrightarrow> (case map_of (sequences l) (frame_publisher f) of
     Some w \<Rightarrow> fr_sequence f \<notin> window_fenced w | None \<Rightarrow> True)"

lemma next_window_fenced:
  "fresh_sequence l f \<Longrightarrow> fr_sequence f \<in> window_fenced (next_window l f)"
  "map_of (sequences l) (frame_publisher f) = Some w \<Longrightarrow>
     window_fenced w \<subseteq> window_fenced (next_window l f)"
  using sw.fence_self sw.accept_iff sw.fence_kept
  by (auto simp: next_window_def fresh_sequence_def window_fenced_def window_first_remembered
      split: option.splits)

lemma window_admit_pair:
  "window_admit w s = (w', True) \<Longrightarrow> s \<notin> window_fenced w"
  "window_admit w s = (w', False) \<Longrightarrow> s \<in> window_fenced w"
  using window_admit_iff [of w s] by auto

text \<open>An accepted frame: the checks it passed, and the lane after the fan-out.\<close>

lemma publish_inner_Inr:
  "publish_inner ex f now l = (l', Inr fo) \<longleftrightarrow>
     \<not> ex f now \<and> (\<exists>route. map_of (routes l) (frame_audience f) = Some route
       \<and> frame_epochs_match route f \<and> publisher_allowed route f \<and> fresh_sequence l f
       \<and> fan_out ex (frame_publisher f) f now (vals (subscribers route))
           (l\<lparr>sequences := bput (frame_publisher f) (next_window l f) (sequences l)\<rparr>) [] [] = (l', fo))"
  by (auto simp: publish_inner_def next_window_def fresh_sequence_def Let_def
      dest: window_admit_pair split: option.splits prod.splits if_splits)

lemma publish_inner_Inl: "publish_inner ex f now l = (l', Inl e) \<Longrightarrow> l' = l"
  by (auto simp: publish_inner_def Let_def split: option.splits prod.splits if_splits)

lemma queue_deliver_eq:
  "fst (queue_deliver ex m now f q) =
     (let q1 = filter (\<lambda>g. \<not> ex g now) q in (if length q1 = m then tl q1 else q1) @ [f])"
  by (simp add: queue_deliver_def Let_def)

lemma queue_deliver_props:
  assumes "length q \<le> m" and "0 < m"
  shows "length (fst (queue_deliver ex m now f q)) \<le> m"
    and "set (fst (queue_deliver ex m now f q)) \<subseteq> insert f (set q)"
    and "f \<in> set (fst (queue_deliver ex m now f q))"
    and "distinct (map h q) \<Longrightarrow> h f \<notin> h ` set q \<Longrightarrow>
      distinct (map h (fst (queue_deliver ex m now f q)))"
proof -
  let ?q1 = "filter (\<lambda>g. \<not> ex g now) q"
  have l1: "length ?q1 \<le> m"
    using assms(1) by (meson length_filter_le order_trans)
  then show "length (fst (queue_deliver ex m now f q)) \<le> m"
    using assms(2) by (auto simp: queue_deliver_eq Let_def)
  show "set (fst (queue_deliver ex m now f q)) \<subseteq> insert f (set q)"
    by (auto simp: queue_deliver_eq Let_def dest: list.set_sel(2) [rotated] split: if_splits)
       (metis filter_is_subset list.sel(2) list.set_sel(2) subsetD)
  show "f \<in> set (fst (queue_deliver ex m now f q))"
    by (simp add: queue_deliver_eq Let_def)
  assume d: "distinct (map h q)" and n: "h f \<notin> h ` set q"
  have d1: "distinct (map h ?q1)" using d by (rule distinct_map_filter)
  moreover have "distinct (map h (tl ?q1))"
    using distinct_tl [OF d1] by (simp add: map_tl)
  moreover have "set (tl ?q1) \<subseteq> set q"
    by (metis filter_is_subset list.set_sel(2) list.sel(2) subset_eq)
  ultimately show "distinct (map h (fst (queue_deliver ex m now f q)))"
    using n by (auto simp: queue_deliver_eq Let_def)
qed

text \<open>Windows only grow while a route stays.\<close>

definition windows_grow :: "'p talkback_lane \<Rightarrow> 'p talkback_lane \<Rightarrow> bool" where
  "windows_grow l l' \<longleftrightarrow> (\<forall>pk w. map_of (sequences l) pk = Some w \<longrightarrow>
     (\<exists>w'. map_of (sequences l') pk = Some w' \<and> window_fenced w \<subseteq> window_fenced w'))"

lemma windows_growE:
  assumes "windows_grow l l'" and "map_of (sequences l) pk = Some w" and "A \<subseteq> window_fenced w"
  shows "\<exists>w'. map_of (sequences l') pk = Some w' \<and> A \<subseteq> window_fenced w'"
  using assms unfolding windows_grow_def by blast

lemma entry_ok_grow:
  assumes "entry_ok l dk q" and "config l' = config l" and "routes l' = routes l" and "windows_grow l l'"
  shows "entry_ok l' dk q"
proof -
  obtain w where "map_of (sequences l) (dk_publisher dk) = Some w" "fr_sequence ` set q \<subseteq> window_fenced w"
    using assms(1) by (auto simp: entry_ok_def)
  from windows_growE [OF assms(4) this] show ?thesis
    using assms(1-3) by (simp add: entry_ok_def)
qed

lemma played_ok_grow:
  assumes "played_ok l dk p" and "routes l' = routes l" and "windows_grow l l'"
  shows "played_ok l' dk p"
proof -
  obtain w where "map_of (sequences l) (dk_publisher dk) = Some w" "{delivered_sequence p} \<subseteq> window_fenced w"
    using assms(1) by (auto simp: played_ok_def)
  from windows_growE [OF assms(3) this] show ?thesis
    using assms(1,2) by (simp add: played_ok_def)
qed

lemma pk_audience_frame [simp]: "pk_audience (frame_publisher f) = frame_audience f"
  "pk_participant_id (frame_publisher f) = fr_publisher_participant_id f"
  by (simp_all add: frame_publisher_def)

text \<open>The queue of a receiver after the delivery of an admitted frame.\<close>

lemma entry_ok_deliver:
  assumes inv: "lane_inv l"
    and route: "map_of (routes l) (frame_audience f) = Some route"
    and auth: "frame_epochs_match route f" "publisher_allowed route f" and fresh: "fresh_sequence l f"
    and dk: "dk_publisher dk = frame_publisher f" "receives (subscribers route) dk"
    and l': "config l' = config l" "routes l' = routes l"
      "map_of (sequences l') (frame_publisher f) = Some (next_window l f)"
  shows "entry_ok l' dk (fst (queue_deliver ex (max_frames_per_publisher_receiver (config l)) now f
    (get_or [] (queues l) dk)))" (is "entry_ok l' dk ?q")
proof -
  let ?before = "get_or [] (queues l) dk" and ?m = "max_frames_per_publisher_receiver (config l)"
  let ?good = "\<lambda>g. frame_publisher g = dk_publisher dk \<and> frame_epochs_match route g
    \<and> publisher_allowed route g"
  have old: "?before = [] \<or> entry_ok l dk ?before"
    using inv by (auto simp: get_or_def lane_inv_def split: option.splits)
  have m: "0 < ?m" and len: "length ?before \<le> ?m" and dist: "distinct (map fr_sequence ?before)"
    and each: "\<forall>g \<in> set ?before. ?good g"
    using inv old route dk(1) by (auto simp: lane_inv_def entry_ok_def)
  have fenced: "fr_sequence ` set ?before \<subseteq> window_fenced (next_window l f)
      \<and> fr_sequence f \<notin> fr_sequence ` set ?before"
    using old fresh next_window_fenced(2) [of l f] dk(1) by (fastforce simp: entry_ok_def fresh_sequence_def)
  note props = queue_deliver_props [OF len m, where ex = ex and now = now and f = f]
  have "\<forall>g \<in> set ?q. ?good g"
    using props(2) each dk(1) auth by auto
  moreover have "fr_sequence ` set ?q \<subseteq> window_fenced (next_window l f)"
    using props(2) fenced next_window_fenced(1) [OF fresh] by auto
  moreover have "distinct (map fr_sequence ?q)"
    using props(4) [where h = fr_sequence] dist fenced by auto
  ultimately show ?thesis
    using props(1) route dk l' by (simp add: entry_ok_def)
qed

text \<open>The queue table after an admitted frame: the receivers of the route other than the publisher's
  own participant get the frame, every other queue is untouched.\<close>

lemma publish_inner_lookup:
  assumes inv: "lane_inv l" and pub: "publish_inner ex f now l = (l', Inr fo)"
    and route: "map_of (routes l) (frame_audience f) = Some route"
  shows "map_of (queues l') dk =
      (if dk_publisher dk = frame_publisher f \<and> receives (subscribers route) dk
       then Some (fst (queue_deliver ex (max_frames_per_publisher_receiver (config l)) now f
              (get_or [] (queues l) dk)))
       else map_of (queues l) dk)"
    and "map_of (sequences l') pk =
      (if pk = frame_publisher f then Some (next_window l f) else map_of (sequences l) pk)"
    and "config l' = config l" "routes l' = routes l" "played l' = played l"
    and "btree_ok (queues l')" "btree_ok (sequences l')"
proof -
  define l1 where "l1 = l\<lparr>sequences := bput (frame_publisher f) (next_window l f) (sequences l)\<rparr>"
  from pub route have fan: "fan_out ex (frame_publisher f) f now (vals (subscribers route)) l1 [] [] = (l', fo)"
    by (auto simp: publish_inner_Inr l1_def)
  have subs: "table_ok (subscribers route)"
    "\<forall>e s. map_of (subscribers route) e = Some s \<longrightarrow> sub_endpoint_id s = e"
    using inv route by (auto simp: lane_inv_def snapshot_ok_def)
  have tq: "table_ok (queues l1)"
    using inv by (simp add: l1_def lane_inv_def)
  have dist: "distinct (map sub_endpoint_id (vals (subscribers route)))"
    unfolding map_vals_keys [OF subs] by (rule subs(1))
  have receivers: "(dk_publisher dk = frame_publisher f \<and>
          (\<exists>s \<in> set (vals (subscribers route)). sub_endpoint_id s = dk_receiver_endpoint_id dk
             \<and> sub_participant_id s = dk_receiver_participant_id dk
             \<and> sub_participant_id s \<noteq> pk_participant_id (frame_publisher f)))
        \<longleftrightarrow> dk_publisher dk = frame_publisher f \<and> receives (subscribers route) dk"
    using vals_by_key [OF subs] subs(2) by (metis receives_def)
  show "map_of (queues l') dk =
      (if dk_publisher dk = frame_publisher f \<and> receives (subscribers route) dk
       then Some (fst (queue_deliver ex (max_frames_per_publisher_receiver (config l)) now f
              (get_or [] (queues l) dk)))
       else map_of (queues l) dk)"
    using fan_out_queues [OF fan tq dist, of dk] unfolding receivers by (simp add: l1_def)
  show "map_of (sequences l') pk =
      (if pk = frame_publisher f then Some (next_window l f) else map_of (sequences l) pk)"
    "config l' = config l" "routes l' = routes l" "played l' = played l" "btree_ok (sequences l')"
    using fan_out_frame [OF fan] inv by (auto simp: l1_def lane_inv_def bt.map_of_put bt.table_ok_put)
  show "btree_ok (queues l')"
    using fan_out_btree [OF fan] inv by (simp add: l1_def lane_inv_def)
qed

lemma lane_inv_publish_inner:
  assumes inv: "lane_inv l" and pub: "publish_inner ex f now l = (l', r)"
  shows "lane_inv l'"
proof (cases r)
  case (Inl e)
  with pub inv show ?thesis by (auto dest: publish_inner_Inl)
next
  case (Inr fo)
  with pub obtain route where
    route: "map_of (routes l) (frame_audience f) = Some route"
    and auth: "frame_epochs_match route f" "publisher_allowed route f" "fresh_sequence l f"
    by (auto simp: publish_inner_Inr)
  note look = publish_inner_lookup [OF inv pub [unfolded Inr] route]
  have grow: "windows_grow l l'"
    using next_window_fenced(2) by (fastforce simp: windows_grow_def look(2))
  have "entry_ok l' dk q" if "map_of (queues l') dk = Some q" for dk q
  proof (cases "dk_publisher dk = frame_publisher f \<and> receives (subscribers route) dk")
    case True
    then show ?thesis
      using that entry_ok_deliver [OF inv route auth, where dk = dk and l' = l' and ex = ex and now = now]
      by (auto simp: look(1-4))
  next
    case False
    then show ?thesis
      using that inv entry_ok_grow [OF _ look(3,4) grow] by (auto simp: look(1) lane_inv_def)
  qed
  moreover have "played_ok l' dk p" if "map_of (played l') dk = Some p" for dk p
    using that inv played_ok_grow [OF _ look(4) grow] by (auto simp: look(5) lane_inv_def)
  moreover have "map_of (routes l') (pk_audience pk) \<noteq> None" if "map_of (sequences l') pk = Some w" for pk w
    using that inv route by (auto simp: look(2,4) lane_inv_def split: if_splits)
  ultimately show ?thesis
    using inv look(6,7) by (simp add: lane_inv_def look(3-5))
qed

lemma lane_inv_publish [inv_intros]: "lane_inv l \<Longrightarrow> lane_inv (fst (publish ex f now l))"
  using lane_inv_publish_inner [of l ex f now]
  by (cases "publish_inner ex f now l") (simp add: publish_def)

end
