(* ===== verification/Talkback_Runs.thy ===== *)
theory Talkback_Runs
  imports Talkback_Safety
begin

text \<open>
  Runs of the talkback lane: pulling and acknowledging keep the invariant, \<open>lane_exec\<close> is the public
  interface as a datatype of operations, \<open>lane_reachable\<close> are the states those operations reach from
  \<open>TalkbackLane::new\<close>, and the properties of \<open>src/src/talkback_lane.rs\<close> are stated over them.
\<close>

section \<open>Pulling\<close>

lemma lane_invD:
  assumes "lane_inv l"
  shows "table_ok (queues l)" "table_ok (routes l)" "table_ok (sequences l)" "table_ok (played l)"
    and "map_of (queues l) dk = Some q \<Longrightarrow> entry_ok l dk q"
    and "map_of (played l) dk = Some p \<Longrightarrow> played_ok l dk p"
    and "map_of (routes l) k = Some s \<Longrightarrow> audience_key_of s = k \<and> snapshot_ok s"
  using assms by (simp_all add: lane_inv_def)

lemma entry_ok_sub:
  assumes "entry_ok l dk q" and "set q' \<subseteq> set q" and "length q' \<le> length q"
    and "distinct (map fr_sequence q')"
  shows "entry_ok l dk q'"
  using assms unfolding entry_ok_def by (metis (no_types, lifting) image_mono order_trans subsetD)

lemma distinct_map_suffix: "distinct (map h (ys @ zs)) \<Longrightarrow> distinct (map h zs)"
  by simp

lemma entry_ok_dropWhile:
  assumes "entry_ok l dk q"
  shows "entry_ok l dk (dropWhile P q)"
proof (rule entry_ok_sub [OF assms])
  show "distinct (map fr_sequence (dropWhile P q))"
    using assms distinct_map_suffix [of fr_sequence "takeWhile P q" "dropWhile P q"]
    by (simp add: entry_ok_def)
qed (auto dest: set_dropWhileD intro: length_dropWhile_le)

lemma entry_ok_tl:
  assumes "entry_ok l dk (x # q)"
  shows "entry_ok l dk q"
  by (rule entry_ok_sub [OF assms]) (use assms in \<open>auto simp: entry_ok_def\<close>)

lemma map_of_drop_expired:
  "map_of (drop_expired_fronts ex r now qs) dk =
     map_option (\<lambda>q. if dk_receiver_endpoint_id dk = r then dropWhile (\<lambda>f. ex f now) q else q) (map_of qs dk)"
  by (simp add: drop_expired_fronts_def map_of_map_vals)

lemma keys_drop_expired [simp]: "keys (drop_expired_fronts ex r now qs) = keys qs"
  by (simp add: drop_expired_fronts_def)

definition play_mark :: "'p talkback_lane \<Rightarrow> delivery_key \<Rightarrow> 'p talkback_frame \<Rightarrow> played_high_water" where
  "play_mark l key f = (case map_of (played l) key of
     Some p \<Rightarrow> p\<lparr>delivered_sequence := max (delivered_sequence p) (fr_sequence f)\<rparr>
   | None \<Rightarrow> \<lparr>delivered_sequence = fr_sequence f, acknowledged_sequence = None,
              acknowledged_at_unix_us = None\<rparr>)"

abbreviation after_expiry ::
  "('p talkback_frame \<Rightarrow> nat \<Rightarrow> bool) \<Rightarrow> string \<Rightarrow> nat \<Rightarrow> 'p talkback_lane \<Rightarrow> 'p talkback_lane" where
  "after_expiry ex r now l \<equiv> l\<lparr>queues := drop_expired_fronts ex r now (queues l)\<rparr>"

lemma lane_inv_after_expiry: "lane_inv l \<Longrightarrow> lane_inv (after_expiry ex r now l)"
proof -
  assume inv: "lane_inv l"
  have "entry_ok l dk q'" if "map_of (drop_expired_fronts ex r now (queues l)) dk = Some q'" for dk q'
    using that by (auto simp: map_of_drop_expired intro: entry_ok_dropWhile lane_invD(5) [OF inv] split: if_splits)
  then show ?thesis
    using inv entry_ok_cong [of "after_expiry ex r now l" l] by (simp add: lane_inv_def)
qed

lemma pull_next_None:
  "pull_next ex r now l = (l', None) \<longleftrightarrow>
     l' = after_expiry ex r now l
     \<and> (\<forall>key q. (key, q) \<in> set (queues l') \<longrightarrow> dk_receiver_endpoint_id key = r \<longrightarrow> q = [])"
proof -
  let ?fronts = "filter (\<lambda>(key, queue). dk_receiver_endpoint_id key = r \<and> queue \<noteq> [])
    (drop_expired_fronts ex r now (queues l))"
  have "pull_next ex r now l = (l', None) \<longleftrightarrow> l' = after_expiry ex r now l \<and> ?fronts = []"
    unfolding min_by_key_None [symmetric, where f = "\<lambda>(key :: delivery_key, queue).
        (fr_accepted_at_unix_us (hd queue), fr_sequence (hd queue))"]
    by (auto simp: pull_next_def Let_def simp del: min_by_key_None split: option.splits)
  then show ?thesis
    by (auto simp: filter_empty_conv)
qed

text \<open>A frame that is pulled is the front of a queue after expiry, of the queue whose front is the
  earliest by acceptance time and sequence number.\<close>

lemma pull_next_Some:
  assumes ok: "table_ok (queues l)" and pull: "pull_next ex r now l = (l', Some f)"
  obtains key rest queue where
    "map_of (queues l) key = Some queue" "dk_receiver_endpoint_id key = r"
    "dropWhile (\<lambda>g. ex g now) queue = f # rest"
    "\<And>key' g gs. map_of (queues (after_expiry ex r now l)) key' = Some (g # gs) \<Longrightarrow>
       dk_receiver_endpoint_id key' = r \<Longrightarrow>
       (fr_accepted_at_unix_us f, fr_sequence f) \<le> (fr_accepted_at_unix_us g, fr_sequence g)"
    "l' = (bump (\<lambda>c. c\<lparr>pulled_frames := sat_add (pulled_frames c) 1\<rparr>) (after_expiry ex r now l))
       \<lparr>queues := bput key rest (queues (after_expiry ex r now l)),
        played := bput key (play_mark l key f) (played l)\<rparr>"
proof -
  let ?l1 = "after_expiry ex r now l"
  let ?key = "\<lambda>(key :: delivery_key, queue). (fr_accepted_at_unix_us (hd queue), fr_sequence (hd queue))"
  let ?fronts = "filter (\<lambda>(key, queue). dk_receiver_endpoint_id key = r \<and> queue \<noteq> []) (queues ?l1)"
  from pull obtain key q where m: "min_by_key ?key ?fronts = Some (key, q)"
    and f: "f = hd q"
    and l': "l' = (bump (\<lambda>c. c\<lparr>pulled_frames := sat_add (pulled_frames c) 1\<rparr>) ?l1)
       \<lparr>queues := bput key (tl q) (queues ?l1), played := bput key (play_mark l key f) (played l)\<rparr>"
    by (auto simp: pull_next_def Let_def play_mark_def bump_def split: option.splits)
  from min_by_key_in [OF m] have mem: "(key, q) \<in> set (queues ?l1)"
    and r: "dk_receiver_endpoint_id key = r" and ne: "q \<noteq> []" by auto
  have ok1: "table_ok (queues ?l1)" using ok by simp
  have look: "map_of (queues ?l1) key = Some q"
    using mem ok1 by (simp add: map_of_in_set)
  then obtain queue where q: "map_of (queues l) key = Some queue" "dropWhile (\<lambda>g. ex g now) queue = q"
    using r by (auto simp: map_of_drop_expired)
  show ?thesis
  proof (rule that [OF q(1) r])
    show "dropWhile (\<lambda>g. ex g now) queue = f # tl q"
      using q(2) ne f by simp
    show "(fr_accepted_at_unix_us f, fr_sequence f) \<le> (fr_accepted_at_unix_us g, fr_sequence g)"
      if "map_of (queues ?l1) key' = Some (g # gs)" "dk_receiver_endpoint_id key' = r" for key' g gs
    proof -
      have "(key', g # gs) \<in> set ?fronts"
        using that ok1 by (auto simp: map_of_in_set)
      from min_by_key_le [OF m this] show ?thesis using f by simp
    qed
    show "l' = (bump (\<lambda>c. c\<lparr>pulled_frames := sat_add (pulled_frames c) 1\<rparr>) ?l1)
       \<lparr>queues := bput key (tl q) (queues ?l1), played := bput key (play_mark l key f) (played l)\<rparr>"
      by (rule l')
  qed
qed

lemma played_ok_mark:
  assumes inv: "lane_inv l" and q: "map_of (queues l) key = Some q" and f: "f \<in> set q"
  shows "played_ok l key (play_mark l key f)"
proof -
  have e: "entry_ok l key q" using inv q by (simp add: lane_inv_def)
  then obtain w where w: "map_of (sequences l) (dk_publisher key) = Some w"
    and s: "fr_sequence f \<in> window_fenced w"
    using f by (auto simp: entry_ok_def)
  show ?thesis
  proof (cases "map_of (played l) key")
    case None
    then show ?thesis
      using e w s by (auto simp: play_mark_def played_ok_def entry_ok_def)
  next
    case (Some p)
    then have "played_ok l key p" using inv by (simp add: lane_inv_def)
    then show ?thesis
      using Some w s by (auto simp: play_mark_def played_ok_def max_def split: option.splits)
  qed
qed

lemma lane_inv_pull_next [inv_intros]:
  assumes inv: "lane_inv l"
  shows "lane_inv (fst (pull_next ex r now l))"
proof (cases "pull_next ex r now l")
  case (Pair l' res)
  show ?thesis
  proof (cases res)
    case None
    then have "l' = after_expiry ex r now l"
      using Pair by (simp add: pull_next_None)
    then show ?thesis
      using Pair lane_inv_after_expiry [OF inv] by simp
  next
    case (Some f)
    let ?l1 = "after_expiry ex r now l"
    have inv1: "lane_inv ?l1" by (rule lane_inv_after_expiry [OF inv])
    have tq: "table_ok (queues l)" using inv by (simp add: lane_inv_def)
    from Pair Some have pull: "pull_next ex r now l = (l', Some f)" by simp
    obtain key rest queue where
      q: "map_of (queues l) key = Some queue" "dk_receiver_endpoint_id key = r"
      "dropWhile (\<lambda>g. ex g now) queue = f # rest"
      and l': "l' = (bump (\<lambda>c. c\<lparr>pulled_frames := sat_add (pulled_frames c) 1\<rparr>) ?l1)
       \<lparr>queues := bput key rest (queues ?l1), played := bput key (play_mark l key f) (played l)\<rparr>"
      by (rule pull_next_Some [OF tq pull]) (rule that)
    have look: "map_of (queues ?l1) key = Some (f # rest)"
      using q by (simp add: map_of_drop_expired)
    have rest: "entry_ok ?l1 key rest"
      using inv1 look entry_ok_tl by (metis lane_inv_def)
    have mark: "played_ok ?l1 key (play_mark l key f)"
      using played_ok_mark [OF inv1 look, of f] by (simp add: play_mark_def)
    have same: "entry_ok l' dk x = entry_ok ?l1 dk x" "played_ok l' dk p = played_ok ?l1 dk p" for dk x p
      using entry_ok_cong [of l' ?l1 dk x p] by (simp_all add: l')
    have "\<forall>dk x. map_of (queues l') dk = Some x \<longrightarrow> entry_ok l' dk x"
      using inv1 rest unfolding same by (simp add: l' bt.map_of_put lane_inv_def)
    moreover have "\<forall>dk p. map_of (played l') dk = Some p \<longrightarrow> played_ok l' dk p"
      using inv1 mark unfolding same by (simp add: l' bt.map_of_put lane_inv_def)
    ultimately show ?thesis
      using Pair inv1 by (simp add: lane_inv_def l' bt.table_ok_put)
  qed
qed

section \<open>Acknowledging\<close>

lemma acknowledge_Inr:
  "acknowledge_playout_inner ack now l = (l', Inr u) \<longleftrightarrow>
     (\<exists>key p. acknowledgement_key ack l = Inr key \<and> map_of (played l) key = Some p
        \<and> ack_sequence ack \<le> delivered_sequence p
        \<and> (\<forall>a. acknowledged_sequence p = Some a \<longrightarrow> a < ack_sequence ack)
        \<and> l' = l\<lparr>played := bput key (p\<lparr>acknowledged_sequence := Some (ack_sequence ack),
                   acknowledged_at_unix_us := Some now\<rparr>) (played l)\<rparr>)"
  by (auto simp: acknowledge_playout_inner_def not_less not_le split: sum.splits option.splits if_splits)

lemma acknowledge_Inl: "acknowledge_playout_inner ack now l = (l', Inl e) \<Longrightarrow> l' = l"
  by (auto simp: acknowledge_playout_inner_def split: sum.splits option.splits if_splits)

lemma lane_inv_acknowledge [inv_intros]:
  assumes inv: "lane_inv l"
  shows "lane_inv (fst (acknowledge_playout ack now l))"
proof -
  obtain l' r where a: "acknowledge_playout_inner ack now l = (l', r)" by fastforce
  have "lane_inv l'"
  proof (cases r)
    case (Inl e)
    then show ?thesis using a inv by (auto dest: acknowledge_Inl)
  next
    case (Inr u)
    with a obtain key p where k: "map_of (played l) key = Some p" "ack_sequence ack \<le> delivered_sequence p"
      and l': "l' = l\<lparr>played := bput key (p\<lparr>acknowledged_sequence := Some (ack_sequence ack),
                   acknowledged_at_unix_us := Some now\<rparr>) (played l)\<rparr>"
      by (auto simp: acknowledge_Inr)
    have same: "entry_ok l' dk x = entry_ok l dk x" "played_ok l' dk y = played_ok l dk y" for dk x y
      using entry_ok_cong [of l' l dk x y] by (simp_all add: l')
    have "played_ok l key (p\<lparr>acknowledged_sequence := Some (ack_sequence ack),
        acknowledged_at_unix_us := Some now\<rparr>)"
      using inv k by (auto simp: lane_inv_def played_ok_def)
    then have "\<forall>dk y. map_of (played l') dk = Some y \<longrightarrow> played_ok l' dk y"
      using inv unfolding same by (simp add: l' bt.map_of_put lane_inv_def)
    moreover have "\<forall>dk x. map_of (queues l') dk = Some x \<longrightarrow> entry_ok l' dk x"
      using inv unfolding same by (simp add: l' lane_inv_def)
    ultimately show ?thesis
      using inv by (simp add: lane_inv_def l' bt.table_ok_put)
  qed
  then show ?thesis by (simp add: acknowledge_playout_def a)
qed

section \<open>Runs\<close>

datatype 'p lane_op =
  InstallSnapshot snapshot_params
| RemoveAudience string string
| EndSession string
| Publish "'p talkback_frame" nat
| PullNext string nat
| AcknowledgePlayout playout_ack nat

text \<open>A caller obtains a snapshot only from \<open>RoutingSnapshot::new\<close>; one that is refused is not
  installed.\<close>

fun lane_exec ::
  "('p talkback_frame \<Rightarrow> nat \<Rightarrow> bool) \<Rightarrow> 'p lane_op \<Rightarrow> 'p talkback_lane \<Rightarrow> 'p talkback_lane" where
  "lane_exec ex (InstallSnapshot params) l =
     (case snapshot_new params of Inl e \<Rightarrow> l | Inr s \<Rightarrow> install_snapshot s l)"
| "lane_exec ex (RemoveAudience sid aid) l = fst (remove_audience sid aid l)"
| "lane_exec ex (EndSession sid) l = end_session sid l"
| "lane_exec ex (Publish f now) l = fst (publish ex f now l)"
| "lane_exec ex (PullNext r now) l = fst (pull_next ex r now l)"
| "lane_exec ex (AcknowledgePlayout ack now) l = fst (acknowledge_playout ack now l)"

inductive lane_reachable :: "('p talkback_frame \<Rightarrow> nat \<Rightarrow> bool) \<Rightarrow> 'p talkback_lane \<Rightarrow> bool"
  for ex where
  start: "lane_new cfg = Inr l \<Longrightarrow> lane_reachable ex l"
| step: "lane_reachable ex l \<Longrightarrow> lane_reachable ex (lane_exec ex op l)"

lemma lane_inv_exec: "lane_inv l \<Longrightarrow> lane_inv (lane_exec ex op l)"
  by (cases op)
    (auto intro: inv_intros snapshot_new_ok simp: remove_audience_def Let_def split: sum.splits)

lemma reachable_inv: "lane_reachable ex l \<Longrightarrow> lane_inv l"
  by (induction rule: lane_reachable.induct) (auto intro: lane_inv_new lane_inv_exec)

lemma lane_inv_run: "lane_inv l \<Longrightarrow> lane_inv (fold (lane_exec ex) ops l)"
  by (induction ops arbitrary: l) (auto intro: lane_inv_exec)

lemma reachable_run: "lane_reachable ex l \<Longrightarrow> lane_reachable ex (fold (lane_exec ex) ops l)"
  by (induction ops arbitrary: l) (auto intro: lane_reachable.intros)


section \<open>What an operation leaves of an audience\<close>

text \<open>The operations that replace or end an audience; they purge it.\<close>

fun touches_audience :: "audience_key \<Rightarrow> 'p lane_op \<Rightarrow> bool" where
  "touches_audience a (InstallSnapshot params) \<longleftrightarrow> a = AudienceKey (par_session_id params) (par_audience_id params)"
| "touches_audience a (RemoveAudience sid aid) \<longleftrightarrow> a = AudienceKey sid aid"
| "touches_audience a (EndSession sid) \<longleftrightarrow> ak_session_id a = sid"
| "touches_audience a _ \<longleftrightarrow> False"

lemma snapshot_new_audience:
  "snapshot_new params = Inr s \<Longrightarrow> audience_key_of s = AudienceKey (par_session_id params) (par_audience_id params)"
  by (auto simp: snapshot_new_def audience_key_of_def split: sum.splits if_splits)

lemma install_lookup:
  assumes "lane_inv l"
  shows "map_of (routes (install_snapshot s l)) = (map_of (routes l))(audience_key_of s \<mapsto> s)"
    and "map_of (sequences (install_snapshot s l)) pk =
      (if pk_audience pk = audience_key_of s then None else map_of (sequences l) pk)"
    and "map_of (queues (install_snapshot s l)) dk =
      (if pk_audience (dk_publisher dk) = audience_key_of s then None else map_of (queues l) dk)"
    and "map_of (played (install_snapshot s l)) dk =
      (if pk_audience (dk_publisher dk) = audience_key_of s then None else map_of (played l) dk)"
  using purge_lookup [OF assms, of "audience_key_of s"] lane_invD(2) [OF assms]
  by (simp_all add: install_snapshot_def Let_def case_prod_beta bt.map_of_put)

lemma remove_lookup:
  assumes "lane_inv l"
  shows "map_of (routes (remove_route k l)) = (map_of (routes l))(k := None)"
    and "map_of (sequences (remove_route k l)) pk =
      (if pk_audience pk = k then None else map_of (sequences l) pk)"
    and "map_of (queues (remove_route k l)) dk =
      (if pk_audience (dk_publisher dk) = k then None else map_of (queues l) dk)"
    and "map_of (played (remove_route k l)) dk =
      (if pk_audience (dk_publisher dk) = k then None else map_of (played l) dk)"
proof -
  have "sequences (remove_route k l) = sequences (fst (purge_audience k l))"
    "queues (remove_route k l) = queues (fst (purge_audience k l))"
    "played (remove_route k l) = played (fst (purge_audience k l))"
    by (simp_all add: remove_route_def Let_def case_prod_beta purge_audience_def)
  then show "map_of (sequences (remove_route k l)) pk =
      (if pk_audience pk = k then None else map_of (sequences l) pk)"
    and "map_of (queues (remove_route k l)) dk =
      (if pk_audience (dk_publisher dk) = k then None else map_of (queues l) dk)"
    and "map_of (played (remove_route k l)) dk =
      (if pk_audience (dk_publisher dk) = k then None else map_of (played l) dk)"
    using purge_lookup(1-3) [OF assms] by auto
  show "map_of (routes (remove_route k l)) = (map_of (routes l))(k := None)"
    by (auto simp: remove_route_def Let_def case_prod_beta purge_audience_def fun_eq_iff)
qed

lemma remove_routes_lookup:
  assumes "lane_inv l"
  shows "map_of (routes (fold remove_route ks l)) a = (if a \<in> set ks then None else map_of (routes l) a)"
    and "map_of (sequences (fold remove_route ks l)) pk =
      (if pk_audience pk \<in> set ks then None else map_of (sequences l) pk)"
    and "map_of (queues (fold remove_route ks l)) dk =
      (if pk_audience (dk_publisher dk) \<in> set ks then None else map_of (queues l) dk)"
    and "map_of (played (fold remove_route ks l)) dk =
      (if pk_audience (dk_publisher dk) \<in> set ks then None else map_of (played l) dk)"
  using assms
  by (induction ks arbitrary: l) (simp_all add: remove_lookup lane_inv_remove_route)

lemma end_session_keys:
  "a \<in> set (filter (\<lambda>key. ak_session_id key = sid) (keys (routes l))) \<longleftrightarrow>
     ak_session_id a = sid \<and> map_of (routes l) a \<noteq> None"
  by (auto simp: map_of_eq_None_iff)

lemma publish_lane:
  "publish ex f now l = (l', r) \<longleftrightarrow>
     (\<exists>l1. publish_inner ex f now l = (l1, r) \<and> l' = bump (count_publish r) l1)"
  by (auto simp: publish_def split: prod.splits)

lemma publish_windows_grow:
  assumes inv: "lane_inv l" and pub: "publish_inner ex f now l = (l', r)"
  shows "windows_grow l l'"
proof (cases r)
  case (Inl e)
  then show ?thesis using pub by (auto dest: publish_inner_Inl simp: windows_grow_def)
next
  case (Inr fo)
  with pub obtain route where route: "map_of (routes l) (frame_audience f) = Some route"
    by (auto simp: publish_inner_Inr)
  show ?thesis
    using next_window_fenced(2) publish_inner_lookup(2) [OF inv pub [unfolded Inr] route]
    by (fastforce simp: windows_grow_def)
qed

lemma pull_next_sequences [simp]: "sequences (fst (pull_next ex r now l)) = sequences l"
  "routes (fst (pull_next ex r now l)) = routes l" "config (fst (pull_next ex r now l)) = config l"
  by (auto simp: pull_next_def Let_def split: option.splits prod.splits)

lemma acknowledge_lane [simp]:
  "sequences (fst (acknowledge_playout ack now l)) = sequences l"
  "routes (fst (acknowledge_playout ack now l)) = routes l"
  "queues (fst (acknowledge_playout ack now l)) = queues l"
  "config (fst (acknowledge_playout ack now l)) = config l"
  by (auto simp: acknowledge_playout_def acknowledge_playout_inner_def
      split: option.splits sum.splits prod.splits)

text \<open>An operation that does not touch an audience never lifts a fence of its publishers.\<close>

lemma fence_exec:
  assumes inv: "lane_inv l" and op: "\<not> touches_audience (pk_audience pk) op"
    and w: "map_of (sequences l) pk = Some w"
  shows "\<exists>w'. map_of (sequences (lane_exec ex op l)) pk = Some w' \<and> window_fenced w \<subseteq> window_fenced w'"
proof (cases op)
  case (InstallSnapshot params)
  then show ?thesis
    using assms by (auto simp: install_lookup snapshot_new_audience split: sum.splits)
next
  case (RemoveAudience sid aid)
  then show ?thesis
    using assms by (simp add: remove_audience_def Let_def remove_lookup)
next
  case (EndSession sid)
  then show ?thesis
    using op w remove_routes_lookup(2) [OF inv] by (simp add: end_session_def)
next
  case (Publish f now)
  then show ?thesis
    using w publish_windows_grow [OF inv, of ex f now]
    by (cases "publish_inner ex f now l") (auto simp: publish_def windows_grow_def)
qed (use w in simp_all)

text \<open>What is queued after an operation was queued before it, or has just been admitted.\<close>

lemma queue_publish:
  assumes inv: "lane_inv l" and p: "publish_inner ex f now l = (l1, r)"
    and q1: "map_of (queues l1) dk = Some q'" and g: "g \<in> set q'"
  shows "(\<exists>q. map_of (queues l) dk = Some q \<and> g \<in> set q) \<or>
    (g = f \<and> fresh_sequence l g \<and> frame_publisher g = dk_publisher dk)"
proof (cases r)
  case (Inl e)
  then show ?thesis using p q1 g publish_inner_Inl by fastforce
next
  case (Inr fo)
  with p obtain route where route: "map_of (routes l) (frame_audience f) = Some route"
    and fresh: "fresh_sequence l f" by (auto simp: publish_inner_Inr)
  let ?m = "max_frames_per_publisher_receiver (config l)"
  have "0 < ?m" "length (get_or [] (queues l) dk) \<le> ?m"
    using inv lane_invD(5) [OF inv, of dk]
    by (auto simp: get_or_def entry_ok_def lane_inv_def split: option.splits)
  note props = queue_deliver_props(2) [OF this(2,1), where ex = ex and now = now and f = f]
  have "g \<in> set (get_or [] (queues l) dk) \<Longrightarrow> ?thesis"
    by (auto simp: get_or_def split: option.splits)
  then show ?thesis
    using q1 g fresh props publish_inner_lookup(1) [OF inv p [unfolded Inr] route, of dk]
    by (auto split: if_splits)
qed

lemma queue_pull:
  assumes inv: "lane_inv l" and p: "pull_next ex r now l = (l1, res)"
    and q1: "map_of (queues l1) dk = Some q'" and g: "g \<in> set q'"
  shows "\<exists>q. map_of (queues l) dk = Some q \<and> g \<in> set q"
proof -
  have old: "g \<in> set z \<Longrightarrow> \<exists>q. map_of (queues l) dk = Some q \<and> g \<in> set q"
    if "map_of (queues (after_expiry ex r now l)) dk = Some z" for z
    using that by (auto simp: map_of_drop_expired dest: set_dropWhileD split: if_splits)
  show ?thesis
  proof (cases res)
    case None
    then have "l1 = after_expiry ex r now l" using p by (simp add: pull_next_None)
    then show ?thesis using q1 g old by blast
  next
    case (Some f)
    obtain key rest queue where k: "map_of (queues l) key = Some queue" "dk_receiver_endpoint_id key = r"
        "dropWhile (\<lambda>g. ex g now) queue = f # rest"
      and l1: "queues l1 = bput key rest (queues (after_expiry ex r now l))"
      by (rule pull_next_Some [OF lane_invD(1) [OF inv] p [unfolded Some]]) simp
    have "map_of (queues (after_expiry ex r now l)) key = Some (f # rest)"
      using k by (simp add: map_of_drop_expired)
    then show ?thesis
      using q1 g old lane_invD(1) [OF inv] by (auto simp: l1 bt.map_of_put split: if_splits)
  qed
qed

lemma queue_exec:
  assumes inv: "lane_inv l" and q': "map_of (queues (lane_exec ex op l)) dk = Some q'" and g: "g \<in> set q'"
  shows "(\<exists>q. map_of (queues l) dk = Some q \<and> g \<in> set q) \<or>
    (fresh_sequence l g \<and> frame_publisher g = dk_publisher dk \<and> (\<exists>now. op = Publish g now))"
proof (cases op)
  case (InstallSnapshot params)
  then show ?thesis
    using assms by (auto simp: install_lookup split: sum.splits if_splits)
next
  case (RemoveAudience sid aid)
  then show ?thesis
    using assms by (auto simp: remove_audience_def Let_def remove_lookup split: if_splits)
next
  case (EndSession sid)
  then show ?thesis
    using q' g remove_routes_lookup(3) [OF inv] by (auto simp: end_session_def split: if_splits)
next
  case (Publish f now)
  then show ?thesis
    using q' g queue_publish [OF inv, of ex f now]
    by (cases "publish_inner ex f now l") (fastforce simp: publish_def)
next
  case (PullNext r now)
  then show ?thesis
    using q' g queue_pull [OF inv, of ex r now] by (cases "pull_next ex r now l") fastforce
next
  case (AcknowledgePlayout ack now)
  then show ?thesis using q' g by simp
qed

text \<open>The queue of a receiver after a delivery ends in the frame, with room for it.\<close>

lemma delivered_queue_form:
  assumes inv: "lane_inv l"
  shows "\<exists>q. fst (queue_deliver ex (max_frames_per_publisher_receiver (config l)) now f
      (get_or [] (queues l) dk)) = q @ [f] \<and> length q < max_frames_per_publisher_receiver (config l)"
proof -
  let ?m = "max_frames_per_publisher_receiver (config l)" and ?old = "get_or [] (queues l) dk"
  have "0 < ?m" "length ?old \<le> ?m"
    using inv lane_invD(5) [OF inv, of dk]
    by (auto simp: get_or_def entry_ok_def lane_inv_def split: option.splits)
  moreover have "length (filter (\<lambda>g. \<not> ex g now) ?old) \<le> ?m"
    using calculation(2) by (meson length_filter_le order_trans)
  ultimately show ?thesis by (auto simp: queue_deliver_eq Let_def le_less)
qed

section \<open>Once only\<close>

text \<open>\<open>gone\<close>: the publisher's frame with this number was admitted and is in no queue of the receiver.\<close>

definition gone :: "publisher_key \<Rightarrow> string \<Rightarrow> u64 \<Rightarrow> 'p talkback_lane \<Rightarrow> bool" where
  "gone pk r s l \<longleftrightarrow>
     (\<exists>w. map_of (sequences l) pk = Some w \<and> s \<in> window_fenced w)
     \<and> (\<forall>dk q. map_of (queues l) dk = Some q \<longrightarrow> dk_publisher dk = pk \<longrightarrow>
          dk_receiver_endpoint_id dk = r \<longrightarrow> s \<notin> fr_sequence ` set q)"

lemma gone_exec:
  assumes inv: "lane_inv l" and gone: "gone pk r s l" and op: "\<not> touches_audience (pk_audience pk) op"
  shows "gone pk r s (lane_exec ex op l)"
proof -
  from gone obtain w where w: "map_of (sequences l) pk = Some w" "s \<in> window_fenced w"
    by (auto simp: gone_def)
  have "s \<notin> fr_sequence ` set q'"
    if q': "map_of (queues (lane_exec ex op l)) dk = Some q'" "dk_publisher dk = pk"
      "dk_receiver_endpoint_id dk = r" for dk q'
  proof
    assume "s \<in> fr_sequence ` set q'"
    then obtain g where g: "g \<in> set q'" "s = fr_sequence g" by auto
    from queue_exec [OF inv q'(1) g(1)] show False
      using gone q'(2,3) g(2) w by (auto simp: gone_def fresh_sequence_def)
  qed
  then show ?thesis
    using fence_exec [OF inv op w(1), of ex] w(2) by (auto simp: gone_def)
qed

lemma gone_run:
  "lane_inv l \<Longrightarrow> gone pk r s l \<Longrightarrow> list_all (\<lambda>op. \<not> touches_audience (pk_audience pk) op) ops \<Longrightarrow>
     gone pk r s (fold (lane_exec ex) ops l)"
  by (induction ops arbitrary: l) (auto intro: gone_exec lane_inv_exec)

lemma fence_run:
  "lane_inv l \<Longrightarrow> map_of (sequences l) pk = Some w \<Longrightarrow> s \<in> window_fenced w \<Longrightarrow>
     list_all (\<lambda>op. \<not> touches_audience (pk_audience pk) op) ops \<Longrightarrow>
     \<exists>w'. map_of (sequences (fold (lane_exec ex) ops l)) pk = Some w' \<and> s \<in> window_fenced w'"
proof (induction ops arbitrary: l w)
  case Nil
  then show ?case by simp
next
  case (Cons op ops)
  then show ?case
    using fence_exec [OF Cons.prems(1), of pk op w ex] Cons.IH [OF lane_inv_exec [OF Cons.prems(1)]]
    by (fastforce simp: subset_iff)
qed

text \<open>A receiver endpoint belongs to one participant of the route, so one queue per publisher.\<close>

lemma receiver_queue_unique:
  assumes inv: "lane_inv l" and "map_of (queues l) dk = Some q" "map_of (queues l) dk' = Some q'"
    and "dk_publisher dk = dk_publisher dk'" "dk_receiver_endpoint_id dk = dk_receiver_endpoint_id dk'"
  shows "dk = dk'"
  using lane_invD(5) [OF inv, of dk q] lane_invD(5) [OF inv, of dk' q'] assms(2-5)
  by (cases dk; cases dk') (auto simp: entry_ok_def receives_def)

lemma pull_gone:
  assumes inv: "lane_inv l" and pull: "pull_next ex r now l = (l', Some f)"
  shows "gone (frame_publisher f) r (fr_sequence f) l'"
proof -
  let ?l1 = "after_expiry ex r now l"
  obtain key rest queue where k: "map_of (queues l) key = Some queue" "dk_receiver_endpoint_id key = r"
      "dropWhile (\<lambda>g. ex g now) queue = f # rest"
    and l1: "queues l' = bput key rest (queues ?l1)"
    by (rule pull_next_Some [OF lane_invD(1) [OF inv] pull]) simp
  have inv1: "lane_inv ?l1" by (rule lane_inv_after_expiry [OF inv])
  have look: "map_of (queues ?l1) key = Some (f # rest)"
    using k by (simp add: map_of_drop_expired)
  note e = lane_invD(5) [OF inv1 look]
  have inv': "lane_inv l'" using lane_inv_pull_next [OF inv, of ex r now] pull by simp
  have seqs: "sequences l' = sequences l" using pull_next_sequences(1) [of ex r now l] pull by simp
  have pk: "frame_publisher f = dk_publisher key" and d: "fr_sequence f \<notin> fr_sequence ` set rest"
    and w: "\<exists>w. map_of (sequences l) (dk_publisher key) = Some w \<and> fr_sequence f \<in> window_fenced w"
    using e by (auto simp: entry_ok_def)
  have here: "map_of (queues l') key = Some rest"
    using lane_invD(1) [OF inv1] by (simp add: l1 bt.map_of_put)
  have "q = rest" if "map_of (queues l') dk = Some q" "dk_publisher dk = dk_publisher key"
    "dk_receiver_endpoint_id dk = r" for dk q
    using receiver_queue_unique [OF inv' that(1) here] that k(2) here by simp
  then show ?thesis
    using w d unfolding gone_def pk seqs by metis
qed

end
