(* ===== verification/Talkback_Properties.thy ===== *)
theory Talkback_Properties
  imports Talkback_Runs
begin

text \<open>
  The properties of the talkback lane over its reachable states, each with a run in which its
  hypotheses hold. The example run installs a route with two publishers and three receivers; a frame
  of the example carries its deadline.
\<close>

section \<open>An example run\<close>

definition ex_deadline :: "nat talkback_frame \<Rightarrow> nat \<Rightarrow> bool" where
  "ex_deadline f now \<longleftrightarrow> fr_opaque f \<le> now"

definition ex_params :: snapshot_params where
  "ex_params = \<lparr>par_session_id = ''s'', par_session_epoch = 1, par_media_authorization_epoch = 2,
     par_talkback_epoch = 3, par_policy_version = 4, par_audience_id = ''a'',
     par_publishers =
       [\<lparr>pub_participant_id = ''p1'', pub_endpoint_id = ''e1'', pub_subject_grant_epoch = 5\<rparr>,
        \<lparr>pub_participant_id = ''p2'', pub_endpoint_id = ''e2'', pub_subject_grant_epoch = 6\<rparr>],
     par_subscribers =
       [\<lparr>sub_participant_id = ''p1'', sub_endpoint_id = ''e1''\<rparr>,
        \<lparr>sub_participant_id = ''p2'', sub_endpoint_id = ''e2''\<rparr>,
        \<lparr>sub_participant_id = ''p3'', sub_endpoint_id = ''e3''\<rparr>]\<rparr>"

definition ex_frame :: "u64 \<Rightarrow> nat talkback_frame" where
  "ex_frame s = \<lparr>fr_session_id = ''s'', fr_session_epoch = 1, fr_media_authorization_epoch = 2,
     fr_subject_grant_epoch = 5, fr_talkback_epoch = 3, fr_policy_version = 4,
     fr_publisher_participant_id = ''p1'', fr_publisher_endpoint_id = ''e1'', fr_audience_id = ''a'',
     fr_sequence = s, fr_accepted_at_unix_us = 10, fr_opaque = 100\<rparr>"

definition ex_ack :: "u64 \<Rightarrow> playout_ack" where
  "ex_ack s = \<lparr>ack_session_id = ''s'', ack_receiver_participant_id = ''p2'',
     ack_receiver_endpoint_id = ''e2'', ack_publisher_participant_id = ''p1'',
     ack_publisher_endpoint_id = ''e1'', ack_audience_id = ''a'', ack_sequence = s\<rparr>"

definition ex_config :: lane_config where
  "ex_config = \<lparr>max_frames_per_publisher_receiver = 2, acknowledgement_freshness_us = 1000\<rparr>"

definition ex_start :: "nat talkback_lane" where
  "ex_start = \<lparr>config = ex_config, routes = [], sequences = [], queues = [], played = [],
     counters = health_default\<rparr>"

definition ex_run :: "nat lane_op list \<Rightarrow> nat talkback_lane" where
  "ex_run ops = fold (lane_exec ex_deadline) (InstallSnapshot ex_params # ops) ex_start"

lemma ex_run_reachable: "lane_reachable ex_deadline (ex_run ops)"
proof -
  have "lane_new ex_config = Inr ex_start"
    by (simp add: lane_new_def ex_config_def ex_start_def TALKBACK_ACK_FRESHNESS_US_def)
  then show ?thesis
    unfolding ex_run_def by (intro reachable_run lane_reachable.start)
qed

section \<open>Delivery\<close>

lemma publisher_allowed_listed:
  "publisher_allowed route f \<Longrightarrow> \<exists>p \<in> set (publishers route).
     pub_participant_id p = fr_publisher_participant_id f \<and> pub_endpoint_id p = fr_publisher_endpoint_id f
     \<and> pub_subject_grant_epoch p = fr_subject_grant_epoch f"
  by (force simp: publisher_allowed_def)

text \<open>C1: a frame that a receiver pulls from a reachable lane is not expired; it carries the epochs of
  the snapshot that is installed for its audience at that moment and comes from one of its
  publishers; and the receiver is a subscriber of that snapshot and not the frame's own publisher
  participant (mix-minus).\<close>

theorem pulled_frame_authorised:
  assumes "lane_reachable ex l" and "pull_next ex r now l = (l', Some f)"
  shows "\<not> ex f now \<and>
    (\<exists>route s. map_of (routes l) (frame_audience f) = Some route
      \<and> session_epoch route = fr_session_epoch f
      \<and> media_authorization_epoch route = fr_media_authorization_epoch f
      \<and> talkback_epoch route = fr_talkback_epoch f \<and> policy_version route = fr_policy_version f
      \<and> (\<exists>p \<in> set (publishers route). pub_participant_id p = fr_publisher_participant_id f
            \<and> pub_endpoint_id p = fr_publisher_endpoint_id f
            \<and> pub_subject_grant_epoch p = fr_subject_grant_epoch f)
      \<and> map_of (subscribers route) r = Some s
      \<and> sub_participant_id s \<noteq> fr_publisher_participant_id f)"
proof -
  have inv: "lane_inv l" using assms(1) by (rule reachable_inv)
  obtain key rest queue where k: "map_of (queues l) key = Some queue" "dk_receiver_endpoint_id key = r"
      "dropWhile (\<lambda>g. ex g now) queue = f # rest"
    by (rule pull_next_Some [OF lane_invD(1) [OF inv] assms(2)])
  have "f \<in> set queue" using k(3) by (metis list.set_intros(1) set_dropWhileD)
  moreover have "\<not> ex f now" using k(3) by (metis dropWhile_eq_Cons_conv)
  moreover note lane_invD(5) [OF inv k(1)]
  ultimately have "\<not> ex f now \<and> (\<exists>route s. map_of (routes l) (frame_audience f) = Some route
      \<and> frame_epochs_match route f \<and> publisher_allowed route f \<and> map_of (subscribers route) r = Some s
      \<and> sub_participant_id s \<noteq> fr_publisher_participant_id f)"
    using k(2) by (cases key) (auto simp: entry_ok_def receives_def simp flip: pk_audience_frame)
  then show ?thesis
    unfolding frame_epochs_match_def by (metis publisher_allowed_listed)
qed

theorem pulled_frame_authorised_witness:
  "lane_reachable ex_deadline (ex_run [Publish (ex_frame 7) 20]) \<and>
   \<not> ex_deadline (ex_frame 7) 30 \<and>
    (\<exists>route s. map_of (routes (ex_run [Publish (ex_frame 7) 20])) (frame_audience (ex_frame 7)) = Some route
      \<and> session_epoch route = fr_session_epoch (ex_frame 7)
      \<and> media_authorization_epoch route = fr_media_authorization_epoch (ex_frame 7)
      \<and> talkback_epoch route = fr_talkback_epoch (ex_frame 7) \<and> policy_version route = fr_policy_version (ex_frame 7)
      \<and> (\<exists>p \<in> set (publishers route). pub_participant_id p = fr_publisher_participant_id (ex_frame 7)
            \<and> pub_endpoint_id p = fr_publisher_endpoint_id (ex_frame 7)
            \<and> pub_subject_grant_epoch p = fr_subject_grant_epoch (ex_frame 7))
      \<and> map_of (subscribers route) ''e2'' = Some s
      \<and> sub_participant_id s \<noteq> fr_publisher_participant_id (ex_frame 7))"
proof -
  have "snd (pull_next ex_deadline ''e2'' 30 (ex_run [Publish (ex_frame 7) 20])) = Some (ex_frame 7)"
    by code_simp
  then have "pull_next ex_deadline ''e2'' 30 (ex_run [Publish (ex_frame 7) 20]) =
      (fst (pull_next ex_deadline ''e2'' 30 (ex_run [Publish (ex_frame 7) 20])), Some (ex_frame 7))"
    by (metis prod.collapse)
  from pulled_frame_authorised [OF ex_run_reachable this] ex_run_reachable show ?thesis by blast
qed

text \<open>of the frames that wait for a receiver, unexpired at the front of a queue, a pull returns one
  with the smallest acceptance time, and among those one with the smallest sequence number; it
  returns nothing exactly when every frame that waits for the receiver has expired.\<close>

theorem pull_earliest:
  assumes "lane_reachable ex l" and "pull_next ex r now l = (l', res)"
  shows "(res = None \<longleftrightarrow> (\<forall>dk q. map_of (queues l) dk = Some q \<longrightarrow> dk_receiver_endpoint_id dk = r \<longrightarrow>
        (\<forall>f \<in> set q. ex f now)))
    \<and> (\<forall>f dk q g gs. res = Some f \<longrightarrow> map_of (queues l) dk = Some q \<longrightarrow> dk_receiver_endpoint_id dk = r \<longrightarrow>
        dropWhile (\<lambda>h. ex h now) q = g # gs \<longrightarrow>
        (fr_accepted_at_unix_us f, fr_sequence f) \<le> (fr_accepted_at_unix_us g, fr_sequence g))"
proof (intro conjI allI impI)
  have inv: "lane_inv l" using assms(1) by (rule reachable_inv)
  have ok: "table_ok (queues l)" by (rule lane_invD(1) [OF inv])
  have look: "map_of (queues (after_expiry ex r now l)) dk = Some (dropWhile (\<lambda>h. ex h now) q)"
    if "map_of (queues l) dk = Some q" "dk_receiver_endpoint_id dk = r" for dk q
    using that by (simp add: map_of_drop_expired)
  show "res = None \<longleftrightarrow> (\<forall>dk q. map_of (queues l) dk = Some q \<longrightarrow> dk_receiver_endpoint_id dk = r \<longrightarrow>
        (\<forall>f \<in> set q. ex f now))"
  proof
    assume "res = None"
    with assms(2) have "\<forall>dk q. (dk, q) \<in> set (queues (after_expiry ex r now l)) \<longrightarrow>
        dk_receiver_endpoint_id dk = r \<longrightarrow> q = []"
      by (auto simp: pull_next_None)
    then show "\<forall>dk q. map_of (queues l) dk = Some q \<longrightarrow> dk_receiver_endpoint_id dk = r \<longrightarrow>
        (\<forall>f \<in> set q. ex f now)"
      using look by (metis dropWhile_eq_Nil_conv map_of_SomeD)
  next
    assume all: "\<forall>dk q. map_of (queues l) dk = Some q \<longrightarrow> dk_receiver_endpoint_id dk = r \<longrightarrow>
        (\<forall>f \<in> set q. ex f now)"
    show "res = None"
    proof (rule ccontr)
      assume "res \<noteq> None"
      then obtain f where "pull_next ex r now l = (l', Some f)" using assms(2) by auto
      from pull_next_Some [OF ok this] show False
        using all by (metis dropWhile_eq_Nil_conv list.distinct(1))
    qed
  qed
  fix f dk q g gs
  assume "res = Some f" and dk: "map_of (queues l) dk = Some q" "dk_receiver_endpoint_id dk = r"
    "dropWhile (\<lambda>h. ex h now) q = g # gs"
  then have pull: "pull_next ex r now l = (l', Some f)" using assms(2) by simp
  show "(fr_accepted_at_unix_us f, fr_sequence f) \<le> (fr_accepted_at_unix_us g, fr_sequence g)"
    by (rule pull_next_Some [OF ok pull]) (use look [OF dk(1,2)] dk in auto)
qed

theorem pull_earliest_witness:
  "lane_reachable ex_deadline (ex_run [Publish (ex_frame 8) 20, Publish (ex_frame 7) 20]) \<and>
   snd (pull_next ex_deadline ''e2'' 30 (ex_run [Publish (ex_frame 8) 20, Publish (ex_frame 7) 20]))
     \<noteq> None"
proof -
  let ?l = "ex_run [Publish (ex_frame 8) 20, Publish (ex_frame 7) 20]"
  let ?k = "DeliveryKey (PublisherKey (AudienceKey ''s'' ''a'') ''p1'' ''e1'') ''p2'' ''e2''"
  have "map_of (queues ?l) ?k = Some [ex_frame 8, ex_frame 7]"
    by code_simp
  moreover have "\<not> ex_deadline (ex_frame 8) 30" by code_simp
  ultimately show ?thesis
    using pull_earliest [OF ex_run_reachable [of "[Publish (ex_frame 8) 20, Publish (ex_frame 7) 20]"]
        prod.collapse [symmetric], where r = "''e2''" and now = 30]
      ex_run_reachable by (metis delivery_key.sel(3) list.set_intros(1))
qed

text \<open>C2: no receiver pulls a frame twice. While its audience is neither replaced nor removed, whatever
  is published, pulled and acknowledged in between, a receiver that has pulled a publisher's frame
  never pulls one with the same sequence number from that publisher again.\<close>

theorem delivered_at_most_once:
  assumes "lane_reachable ex l" and "pull_next ex r now l = (l1, Some f)"
    and "list_all (\<lambda>op. \<not> touches_audience (frame_audience f) op) ops"
    and "pull_next ex r now' (fold (lane_exec ex) ops l1) = (l2, Some g)"
    and "frame_publisher g = frame_publisher f"
  shows "fr_sequence g \<noteq> fr_sequence f"
proof -
  have inv: "lane_inv l" using assms(1) by (rule reachable_inv)
  have inv1: "lane_inv l1" using lane_inv_pull_next [OF inv, of ex r now] assms(2) by simp
  let ?l = "fold (lane_exec ex) ops l1"
  have inv2: "lane_inv ?l" by (rule lane_inv_run [OF inv1])
  have gone: "gone (frame_publisher f) r (fr_sequence f) ?l"
    by (rule gone_run [OF inv1 pull_gone [OF inv assms(2)]]) (simp add: assms(3))
  obtain key rest queue where k: "map_of (queues ?l) key = Some queue" "dk_receiver_endpoint_id key = r"
      "dropWhile (\<lambda>g. ex g now') queue = g # rest"
    by (rule pull_next_Some [OF lane_invD(1) [OF inv2] assms(4)])
  have g: "g \<in> set queue" using k(3) by (metis list.set_intros(1) set_dropWhileD)
  with lane_invD(5) [OF inv2 k(1)] have "dk_publisher key = frame_publisher f"
    using assms(5) by (auto simp: entry_ok_def)
  then have "fr_sequence f \<notin> fr_sequence ` set queue" using gone k(1,2) by (simp add: gone_def)
  then show ?thesis using g by (metis imageI)
qed

theorem delivered_at_most_once_witness:
  "snd (pull_next ex_deadline ''e2'' 24 (fold (lane_exec ex_deadline)
      [Publish (ex_frame 7) 22, Publish (ex_frame 8) 23]
      (fst (pull_next ex_deadline ''e2'' 21 (ex_run [Publish (ex_frame 7) 20]))))) = Some (ex_frame 8)
   \<and> fr_sequence (ex_frame 8) \<noteq> fr_sequence (ex_frame 7)"
proof -
  let ?l = "ex_run [Publish (ex_frame 7) 20]"
  let ?l1 = "fst (pull_next ex_deadline ''e2'' 21 ?l)"
  let ?ops = "[Publish (ex_frame 7) 22, Publish (ex_frame 8) 23]"
  let ?l2 = "fold (lane_exec ex_deadline) ?ops ?l1"
  have "snd (pull_next ex_deadline ''e2'' 21 ?l) = Some (ex_frame 7)" by code_simp
  then have a: "pull_next ex_deadline ''e2'' 21 ?l = (?l1, Some (ex_frame 7))" by (metis prod.collapse)
  have c: "snd (pull_next ex_deadline ''e2'' 24 ?l2) = Some (ex_frame 8)" by code_simp
  then have b: "pull_next ex_deadline ''e2'' 24 ?l2 =
    (fst (pull_next ex_deadline ''e2'' 24 ?l2), Some (ex_frame 8))" by (metis prod.collapse)
  have "fr_sequence (ex_frame 8) \<noteq> fr_sequence (ex_frame 7)"
    by (rule delivered_at_most_once [OF ex_run_reachable a _ b]) code_simp+
  with c show ?thesis by blast
qed

text \<open>no frame is admitted twice. After a frame was admitted, and as long as its audience is neither
  replaced nor removed, every later frame of the same publisher with the same sequence number is
  rejected.\<close>

theorem admitted_at_most_once:
  assumes "lane_reachable ex l" and "publish ex f now l = (l1, Inr fo)"
    and "list_all (\<lambda>op. \<not> touches_audience (frame_audience f) op) ops"
    and "frame_publisher g = frame_publisher f" and "fr_sequence g = fr_sequence f"
  shows "\<exists>e. snd (publish ex g now' (fold (lane_exec ex) ops l1)) = Inl e"
proof -
  have inv: "lane_inv l" using assms(1) by (rule reachable_inv)
  from assms(2) obtain l0 where p: "publish_inner ex f now l = (l0, Inr fo)"
    and l1: "l1 = bump (count_publish (Inr fo)) l0" by (auto simp: publish_lane)
  from p obtain route where route: "map_of (routes l) (frame_audience f) = Some route"
    and fresh: "fresh_sequence l f" by (auto simp: publish_inner_Inr)
  have w: "map_of (sequences l1) (frame_publisher f) = Some (next_window l f)"
    using publish_inner_lookup(2) [OF inv p route] by (simp add: l1)
  have inv1: "lane_inv l1" using lane_inv_publish [OF inv, of ex f now] assms(2) by simp
  let ?l = "fold (lane_exec ex) ops l1"
  obtain w' where "map_of (sequences ?l) (frame_publisher g) = Some w'" "fr_sequence g \<in> window_fenced w'"
    using fence_run [OF inv1 w next_window_fenced(1) [OF fresh], of ops ex] assms(3-5) by auto
  then have "\<not> fresh_sequence ?l g" by (simp add: fresh_sequence_def)
  then have "\<nexists>l' fo'. publish_inner ex g now' ?l = (l', Inr fo')"
    by (simp add: publish_inner_Inr)
  then show ?thesis
    by (cases "publish_inner ex g now' ?l"; cases "snd (publish_inner ex g now' ?l)")
      (auto simp: publish_def)
qed

theorem admitted_at_most_once_witness:
  "\<exists>e. snd (publish ex_deadline (ex_frame 7) 40
     (fold (lane_exec ex_deadline) [Publish (ex_frame 200) 30, PullNext ''e3'' 31]
        (fst (publish ex_deadline (ex_frame 7) 20 (ex_run []))))) = Inl e"
proof -
  have "snd (publish ex_deadline (ex_frame 7) 20 (ex_run [])) = Inr (TalkbackFanout [''e2'', ''e3''] [''e1''])"
    by code_simp
  then have "publish ex_deadline (ex_frame 7) 20 (ex_run []) =
      (fst (publish ex_deadline (ex_frame 7) 20 (ex_run [])), Inr (TalkbackFanout [''e2'', ''e3''] [''e1'']))"
    by (metis prod.collapse)
  from admitted_at_most_once [OF ex_run_reachable this, of "[Publish (ex_frame 200) 30, PullNext ''e3'' 31]"
      "ex_frame 7" 40] show ?thesis by simp
qed

section \<open>Publishing\<close>

text \<open>exactly which frames are admitted, and what admitting one does. A frame is admitted iff it is
  not expired, a snapshot is installed for its audience, its epochs and publisher match it, and its
  sequence number is not fenced by the publisher's window. An admitted frame enters the queue of
  every subscriber of the route except those of the publisher's own participant, which are the
  reported mix-minus exclusions; queues of other publishers or receivers do not change.\<close>

theorem publish_admits_exactly:
  assumes "lane_reachable ex l"
  shows "((\<exists>fo. snd (publish ex f now l) = Inr fo) \<longleftrightarrow>
      \<not> ex f now \<and> (\<exists>route. map_of (routes l) (frame_audience f) = Some route
        \<and> frame_epochs_match route f \<and> publisher_allowed route f \<and> fresh_sequence l f))
    \<and> (\<forall>fo route. snd (publish ex f now l) = Inr fo \<longrightarrow> map_of (routes l) (frame_audience f) = Some route \<longrightarrow>
        queued_receiver_endpoints fo = map sub_endpoint_id
          (filter (\<lambda>s. sub_participant_id s \<noteq> fr_publisher_participant_id f) (vals (subscribers route)))
        \<and> mix_minus_excluded_endpoints fo = map sub_endpoint_id
          (filter (\<lambda>s. sub_participant_id s = fr_publisher_participant_id f) (vals (subscribers route)))
        \<and> (\<forall>dk. if dk_publisher dk = frame_publisher f \<and> receives (subscribers route) dk
                then \<exists>q. map_of (queues (fst (publish ex f now l))) dk = Some (q @ [f])
                  \<and> length q < max_frames_per_publisher_receiver (config l)
                else map_of (queues (fst (publish ex f now l))) dk = map_of (queues l) dk))"
proof (intro conjI allI impI)
  have inv: "lane_inv l" using assms by (rule reachable_inv)
  obtain l1 r where p: "publish_inner ex f now l = (l1, r)" by fastforce
  have "(\<exists>fo. r = Inr fo) \<longleftrightarrow> (\<exists>l1 fo. publish_inner ex f now l = (l1, Inr fo))"
    using p by auto
  also have "\<dots> \<longleftrightarrow> \<not> ex f now \<and> (\<exists>route. map_of (routes l) (frame_audience f) = Some route
        \<and> frame_epochs_match route f \<and> publisher_allowed route f \<and> fresh_sequence l f)"
    unfolding publish_inner_Inr by (metis surj_pair)
  finally show "(\<exists>fo. snd (publish ex f now l) = Inr fo) \<longleftrightarrow>
      \<not> ex f now \<and> (\<exists>route. map_of (routes l) (frame_audience f) = Some route
        \<and> frame_epochs_match route f \<and> publisher_allowed route f \<and> fresh_sequence l f)"
    using p by (simp add: publish_def)
  fix fo route
  assume fo: "snd (publish ex f now l) = Inr fo" and route: "map_of (routes l) (frame_audience f) = Some route"
  with p have pi: "publish_inner ex f now l = (l1, Inr fo)" by (simp add: publish_def)
  from pi route have fan: "fan_out ex (frame_publisher f) f now (vals (subscribers route))
      (l\<lparr>sequences := bput (frame_publisher f) (next_window l f) (sequences l)\<rparr>) [] [] = (l1, fo)"
    by (auto simp: publish_inner_Inr)
  from fan_out_endpoints [OF fan]
  show "queued_receiver_endpoints fo = map sub_endpoint_id
      (filter (\<lambda>s. sub_participant_id s \<noteq> fr_publisher_participant_id f) (vals (subscribers route)))"
    and "mix_minus_excluded_endpoints fo = map sub_endpoint_id
      (filter (\<lambda>s. sub_participant_id s = fr_publisher_participant_id f) (vals (subscribers route)))"
    by simp_all
  fix dk
  have "queues (fst (publish ex f now l)) = queues l1" using pi by (simp add: publish_def)
  then show "if dk_publisher dk = frame_publisher f \<and> receives (subscribers route) dk
      then \<exists>q. map_of (queues (fst (publish ex f now l))) dk = Some (q @ [f])
        \<and> length q < max_frames_per_publisher_receiver (config l)
      else map_of (queues (fst (publish ex f now l))) dk = map_of (queues l) dk"
    using publish_inner_lookup(1) [OF inv pi route, of dk] delivered_queue_form [OF inv, of ex now f dk]
    by (auto simp del: fun_upd_apply)
qed

theorem publish_admits_exactly_witness:
  "lane_reachable ex_deadline (ex_run []) \<and>
   (\<exists>fo. snd (publish ex_deadline (ex_frame 7) 20 (ex_run [])) = Inr fo)"
proof -
  have "\<exists>route. map_of (routes (ex_run [])) (frame_audience (ex_frame 7)) = Some route
        \<and> frame_epochs_match route (ex_frame 7) \<and> publisher_allowed route (ex_frame 7)
        \<and> fresh_sequence (ex_run []) (ex_frame 7)"
    by (rule exI [of _ "hd (vals (routes (ex_run [])))"]) code_simp
  moreover have "\<not> ex_deadline (ex_frame 7) 20" by code_simp
  ultimately show ?thesis
    using publish_admits_exactly [OF ex_run_reachable [of "[]"], of "ex_frame 7" 20] ex_run_reachable by blast
qed

text \<open>a frame that is rejected changes nothing but the counter of its rejection: routes, windows,
  queues and acknowledgements are as before, and the error is the first check that fails, in the
  order expiry, route, epochs, publisher, replay.\<close>

theorem publish_rejection:
  assumes "publish ex f now l = (l', Inl e)"
  shows "l' = bump (count_publish (Inl e)) l \<and>
    error_code e =
      (if ex f now then FrameExpired
       else case map_of (routes l) (frame_audience f) of
         None \<Rightarrow> RouteUnavailable
       | Some route \<Rightarrow> if \<not> frame_epochs_match route f then AuthorizationEpoch
           else if \<not> publisher_allowed route f then PublisherNotAllowed else FrameReplay)"
proof -
  from assms obtain l1 where p: "publish_inner ex f now l = (l1, Inl e)"
    and l': "l' = bump (count_publish (Inl e)) l1" by (auto simp: publish_lane)
  from publish_inner_Inl [OF p] have "l1 = l" .
  then show ?thesis
    using p l' by (auto simp: publish_inner_def Let_def split: option.splits prod.splits if_splits)
qed

theorem publish_rejection_witness:
  "fst (publish ex_deadline (ex_frame 7) 100 (ex_run [])) =
     bump (count_publish (Inl (TalkbackLaneError FrameExpired ''deadline''))) (ex_run [])"
proof -
  have "snd (publish ex_deadline (ex_frame 7) 100 (ex_run [])) = Inl (TalkbackLaneError FrameExpired ''deadline'')"
    by code_simp
  then have "publish ex_deadline (ex_frame 7) 100 (ex_run []) =
     (fst (publish ex_deadline (ex_frame 7) 100 (ex_run [])), Inl (TalkbackLaneError FrameExpired ''deadline''))"
    by (metis prod.collapse)
  from publish_rejection [OF this] show ?thesis by blast
qed

section \<open>Fencing\<close>

text \<open>installing a snapshot fences what was there before it. It replaces the route of its audience
  and forgets every window, queue and acknowledgement of that audience; everything of the other
  audiences is kept.\<close>

theorem install_snapshot_fences:
  assumes "lane_reachable ex l"
  shows "map_of (routes (install_snapshot s l)) = (map_of (routes l))(audience_key_of s \<mapsto> s)
    \<and> (\<forall>pk. map_of (sequences (install_snapshot s l)) pk =
         (if pk_audience pk = audience_key_of s then None else map_of (sequences l) pk))
    \<and> (\<forall>dk. map_of (queues (install_snapshot s l)) dk =
         (if pk_audience (dk_publisher dk) = audience_key_of s then None else map_of (queues l) dk))
    \<and> (\<forall>dk. map_of (played (install_snapshot s l)) dk =
         (if pk_audience (dk_publisher dk) = audience_key_of s then None else map_of (played l) dk))"
  using install_lookup [OF reachable_inv [OF assms]] by blast

theorem install_snapshot_fences_witness:
  "\<exists>s. audience_key_of s = AudienceKey ''s'' ''a'' \<and>
     map_of (queues (install_snapshot s (ex_run [Publish (ex_frame 7) 20])))
       (DeliveryKey (PublisherKey (AudienceKey ''s'' ''a'') ''p1'' ''e1'') ''p2'' ''e2'') = None"
proof -
  obtain s where s: "snapshot_new ex_params = Inr s"
    using snapshot_new_defined [of ex_params] by (auto simp: params_valid_def ex_params_def
        valid_identifier_def is_ascii_graphic_def publisher_valid_def subscriber_valid_def)
  then have "audience_key_of s = AudienceKey ''s'' ''a''"
    by (simp add: snapshot_new_audience ex_params_def)
  with install_snapshot_fences [OF ex_run_reachable [of "[Publish (ex_frame 7) 20]"], of s] show ?thesis
    by (intro exI [of _ s]) simp
qed

text \<open>ending a session removes every route of the session, with all windows, queues and
  acknowledgements of its audiences, and nothing of any other session.\<close>

theorem end_session_fences:
  assumes "lane_reachable ex l"
  shows "(\<forall>a. map_of (routes (end_session sid l)) a =
      (if ak_session_id a = sid then None else map_of (routes l) a))
    \<and> (\<forall>dk. map_of (queues (end_session sid l)) dk =
      (if ak_session_id (pk_audience (dk_publisher dk)) = sid then None else map_of (queues l) dk))
    \<and> (\<forall>dk. map_of (played (end_session sid l)) dk =
      (if ak_session_id (pk_audience (dk_publisher dk)) = sid then None else map_of (played l) dk))"
proof -
  have inv: "lane_inv l" using assms by (rule reachable_inv)
  have q: "map_of (queues l) dk = Some q \<Longrightarrow> map_of (routes l) (pk_audience (dk_publisher dk)) \<noteq> None" for dk q
    using lane_invD(5) [OF inv] by (fastforce simp: entry_ok_def)
  have p: "map_of (played l) dk = Some y \<Longrightarrow> map_of (routes l) (pk_audience (dk_publisher dk)) \<noteq> None" for dk y
    using lane_invD(6) [OF inv] by (fastforce simp: played_ok_def)
  show ?thesis
    unfolding end_session_def remove_routes_lookup [OF inv] end_session_keys
    using q p by (auto simp del: not_None_eq) (metis not_None_eq)+
qed

theorem end_session_fences_witness:
  "map_of (queues (end_session ''s'' (ex_run [Publish (ex_frame 7) 20])))
       (DeliveryKey (PublisherKey (AudienceKey ''s'' ''a'') ''p1'' ''e1'') ''p2'' ''e2'') = None"
  using end_session_fences [OF ex_run_reachable [of "[Publish (ex_frame 7) 20]"], of "''s''"] by simp

section \<open>Acknowledgements\<close>

text \<open>an acknowledgement is accepted iff the receiver is a subscriber of the installed route, some
  frame with at least that sequence number was pulled by it from the publisher, and no such number
  was acknowledged before. Once accepted, the lane reports the receiver as receiving for exactly the
  configured freshness.\<close>

theorem acknowledge_then_receiving:
  assumes "lane_reachable ex l" and "acknowledge_playout ack now l = (l', r)"
  shows "(r = Inr () \<longleftrightarrow>
      (\<exists>key p. acknowledgement_key ack l = Inr key \<and> map_of (played l) key = Some p
        \<and> ack_sequence ack \<le> delivered_sequence p
        \<and> (\<forall>a. acknowledged_sequence p = Some a \<longrightarrow> a < ack_sequence ack)))
    \<and> (r = Inr () \<longrightarrow> (\<forall>now'. is_receiving ack now' l' \<longleftrightarrow>
        now' - now < acknowledgement_freshness_us (config l)))"
proof -
  have inv: "lane_inv l" using assms(1) by (rule reachable_inv)
  obtain l1 r1 where a: "acknowledge_playout_inner ack now l = (l1, r1)" by fastforce
  with assms(2) have r: "r = r1" and l': "routes l' = routes l1" "played l' = played l1" "config l' = config l1"
    by (auto simp: acknowledge_playout_def)
  have iff: "r = Inr () \<longleftrightarrow> (\<exists>key p. acknowledgement_key ack l = Inr key \<and> map_of (played l) key = Some p
        \<and> ack_sequence ack \<le> delivered_sequence p
        \<and> (\<forall>a. acknowledged_sequence p = Some a \<longrightarrow> a < ack_sequence ack))"
  proof -
    have "r1 = Inr () \<longleftrightarrow> (\<exists>l1. acknowledge_playout_inner ack now l = (l1, Inr ()))" using a by auto
    then show ?thesis unfolding r acknowledge_Inr by blast
  qed
  have "is_receiving ack now' l' \<longleftrightarrow> now' - now < acknowledgement_freshness_us (config l)"
    if "r = Inr ()" for now'
  proof -
    from that a r obtain key p where k: "acknowledgement_key ack l = Inr key"
      and l1: "l1 = l\<lparr>played := bput key (p\<lparr>acknowledged_sequence := Some (ack_sequence ack),
                   acknowledged_at_unix_us := Some now\<rparr>) (played l)\<rparr>"
      by (auto simp: acknowledge_Inr)
    have "acknowledgement_key ack l' = Inr key"
      using k by (simp add: acknowledgement_key_def l' l1)
    then show ?thesis
      using lane_invD(4) [OF inv] by (simp add: is_receiving_def l' l1 bt.map_of_put)
  qed
  with iff show ?thesis by blast
qed

theorem acknowledge_then_receiving_witness:
  "is_receiving (ex_ack 7) 1049
     (fst (acknowledge_playout (ex_ack 7) 50 (ex_run [Publish (ex_frame 7) 20, PullNext ''e2'' 21])))"
proof -
  let ?l = "ex_run [Publish (ex_frame 7) 20, PullNext ''e2'' 21]"
  have "snd (acknowledge_playout (ex_ack 7) 50 ?l) = Inr ()" by code_simp
  moreover have "acknowledgement_freshness_us (config ?l) = 1000" by code_simp
  ultimately show ?thesis
    using acknowledge_then_receiving [OF ex_run_reachable [of "[Publish (ex_frame 7) 20, PullNext ''e2'' 21]"]
        prod.collapse [symmetric], where ack = "ex_ack 7" and now = 50] by simp
qed

section \<open>Configuration and bounds\<close>

text \<open>a routing snapshot is accepted iff its identifiers are non-empty, at most 128 bytes long and
  printable ASCII, its epochs are not zero, it has 1 to 64 publishers and at most 256 subscribers, and
  no endpoint occurs twice in either list; the accepted snapshot has exactly the given publishers and
  subscribers.\<close>

theorem snapshot_new_exact:
  "case snapshot_new params of
     Inl e \<Rightarrow> \<not> params_valid params
   | Inr s \<Rightarrow> params_valid params \<and> snapshot_ok s \<and> publishers s = par_publishers params
       \<and> (\<forall>e sub. map_of (subscribers s) e = Some sub \<longleftrightarrow>
            sub \<in> set (par_subscribers params) \<and> sub_endpoint_id sub = e)"
proof (cases "snapshot_new params")
  case (Inl e)
  then show ?thesis using snapshot_new_defined [of params] by simp
next
  case (Inr s)
  then have "params_valid params" using snapshot_new_defined [of params] by blast
  with Inr snapshot_new_ok [OF Inr] snapshot_new_content [OF Inr] show ?thesis by simp
qed

text \<open>the memory of a reachable lane is bounded: a queue holds at most the configured number of
  frames (at most 256), and there is at most one queue for each publisher window and each subscriber
  of its route.\<close>

theorem lane_bounded:
  assumes "lane_reachable ex l"
  shows "max_frames_per_publisher_receiver (config l) \<le> 256
    \<and> (\<forall>dk q. map_of (queues l) dk = Some q \<longrightarrow>
        length q \<le> max_frames_per_publisher_receiver (config l)
        \<and> map_of (sequences l) (dk_publisher dk) \<noteq> None
        \<and> (\<exists>route. map_of (routes l) (pk_audience (dk_publisher dk)) = Some route
            \<and> dk_receiver_endpoint_id dk \<in> set (keys (subscribers route))
            \<and> length (subscribers route) \<le> 256 \<and> length (publishers route) \<le> 64))"
proof (intro conjI allI impI)
  have inv: "lane_inv l" using assms by (rule reachable_inv)
  then show "max_frames_per_publisher_receiver (config l) \<le> 256" by (simp add: lane_inv_def)
  fix dk q
  assume q: "map_of (queues l) dk = Some q"
  note e = lane_invD(5) [OF inv q]
  then show "length q \<le> max_frames_per_publisher_receiver (config l)"
    and "map_of (sequences l) (dk_publisher dk) \<noteq> None" by (auto simp: entry_ok_def)
  from e obtain route where route: "map_of (routes l) (pk_audience (dk_publisher dk)) = Some route"
    and rec: "receives (subscribers route) dk" by (auto simp: entry_ok_def)
  from rec have "dk_receiver_endpoint_id dk \<in> set (keys (subscribers route))"
    by (metis map_of_eq_None_iff option.distinct(1) receives_def set_map)
  moreover have "length (subscribers route) \<le> 256 \<and> length (publishers route) \<le> 64"
    using lane_invD(7) [OF inv route] by (simp add: snapshot_ok_def)
  ultimately show "\<exists>route. map_of (routes l) (pk_audience (dk_publisher dk)) = Some route
      \<and> dk_receiver_endpoint_id dk \<in> set (keys (subscribers route))
      \<and> length (subscribers route) \<le> 256 \<and> length (publishers route) \<le> 64"
    using route by blast
qed

theorem lane_bounded_witness:
  "length [ex_frame 8, ex_frame 9] \<le> max_frames_per_publisher_receiver
     (config (ex_run [Publish (ex_frame 7) 20, Publish (ex_frame 8) 20, Publish (ex_frame 9) 20]))"
proof -
  have "map_of (queues (ex_run [Publish (ex_frame 7) 20, Publish (ex_frame 8) 20, Publish (ex_frame 9) 20]))
      (DeliveryKey (PublisherKey (AudienceKey ''s'' ''a'') ''p1'' ''e1'') ''p2'' ''e2'') =
      Some [ex_frame 8, ex_frame 9]"
    by code_simp
  then show ?thesis
    using lane_bounded [OF ex_run_reachable
        [of "[Publish (ex_frame 7) 20, Publish (ex_frame 8) 20, Publish (ex_frame 9) 20]"]] by blast
qed

text \<open>the replay window accepts no number twice, whatever numbers arrive in whatever order, and
  rejects only numbers it has accepted before or numbers at distance 128 or more below the
  highest.\<close>

theorem window_accepts_once:
  "distinct (map fst (filter snd (zip ss (window_run w ss))))
   \<and> (snd (window_admit w s) \<longleftrightarrow> s \<notin> remembered w \<and> (highest w < s \<or> unat (highest w - s) < SEQUENCE_WINDOW_BITS))"
  using sw.accepted_distinct [of w ss]
  by (auto simp: accepted_run window_admit_iff window_fenced_def too_old_def remembered_def
      SEQUENCE_WINDOW_BITS_def not_le)

end
