(* ===== verification/Udp_Fec.thy ===== *)
theory Udp_Fec
  imports Mesh_Prelude
begin

text \<open>
  The bounded receiver of RaptorQ datagrams, \<open>src/src/udp_fec.rs\<close>: per flow a packet-sequence tracker
  and the recently completed objects, per incomplete object a decoder, and budgets over all objects
  for reserved bytes and buffered datagrams.

  The wire format and the decoder belong to the crates \<open>raptorq_datagram_fec\<close> and
  \<open>raptorq_fec_transport\<close>; they are the fields of the record \<open>fec_lib\<close>, an argument of the operations.
  An \<open>Instant\<close> is a number of nanoseconds; \<open>instant_max\<close> is the last one the platform represents. Where the
  code would panic (an \<open>expect\<close> on a missing entry) the model returns \<open>None\<close>, so that the absence of
  panics is a theorem and not an assumption.
\<close>

section \<open>Data\<close>

type_synonym bytes = "u8 list"

record fec_header =
  hdr_block_id :: u32
  hdr_packet_sequence :: u32
  hdr_transfer_length :: nat

record ('d, 'x) fec_lib =
  split_stream_id_prefix :: "bytes \<Rightarrow> (u64 \<times> bytes) option"
  DATAGRAM_MAGIC :: bytes
  header_decode :: "bytes \<Rightarrow> (fec_header, 'x) result"
  header_payload :: "fec_header \<Rightarrow> bytes \<Rightarrow> (bytes, 'x) result"
  decoder_new :: 'd
  push_datagram :: "'d \<Rightarrow> bytes \<Rightarrow> 'd \<times> (bytes option, 'x) result"
  instant_max :: nat

datatype decoded_udp_fec_payload =
  DecodedUdpFecPayload (dec_stream_id: "u64 option") (dec_payload: bytes)

record fec_config =
  max_datagram_bytes :: nat
  max_object_bytes :: nat
  max_buffered_object_bytes :: nat
  max_flows :: nat
  max_active_objects :: nat
  max_active_objects_per_flow :: nat
  max_completed_objects_per_flow :: nat
  max_datagrams_per_object :: nat
  max_buffered_datagrams :: nat
  max_tracked_sequence_gaps_per_flow :: nat
  object_inactivity_timeout :: nat
  flow_inactivity_timeout :: nat
  expiry_scan_interval :: nat

definition fec_config_default :: fec_config where
  "fec_config_default = \<lparr>max_datagram_bytes = 65535, max_object_bytes = 8 * 1024 * 1024,
     max_buffered_object_bytes = 128 * 1024 * 1024, max_flows = 4096, max_active_objects = 4096,
     max_active_objects_per_flow = 32, max_completed_objects_per_flow = 64,
     max_datagrams_per_object = 32768, max_buffered_datagrams = 131072,
     max_tracked_sequence_gaps_per_flow = 1024, object_inactivity_timeout = 10 * 1000000000,
     flow_inactivity_timeout = 120 * 1000000000, expiry_scan_interval = 250 * 1000000\<rparr>"

datatype push_outcome =
  Buffered "u64 option" u32
| Decoded u32 decoded_udp_fec_payload
| Duplicate "u64 option" u32

fun into_decoded :: "push_outcome \<Rightarrow> decoded_udp_fec_payload option" where
  "into_decoded (Decoded _ payload) = Some payload"
| "into_decoded _ = None"

datatype 'x receive_error =
  DatagramTooLarge nat nat
| ObjectTooLarge "u64 option" u32 nat nat
| FlowLimitExceeded nat
| ActiveObjectLimitExceeded nat
| FlowObjectLimitExceeded "u64 option" nat
| ObjectDatagramLimitExceeded "u64 option" u32 nat
| BufferedDatagramLimitExceeded nat nat
| BufferedObjectBytesLimitExceeded nat nat nat
| Fec "u64 option" 'x

record fec_counters =
  datagrams_received :: nat
  datagrams_accepted :: nat
  datagrams_rejected :: nat
  datagrams_buffered :: nat
  duplicate_datagrams :: nat
  objects_decoded :: nat
  objects_expired :: nat
  flows_expired :: nat
  expiry_scans :: nat

definition fec_counters_default :: fec_counters where
  "fec_counters_default = \<lparr>datagrams_received = 0, datagrams_accepted = 0, datagrams_rejected = 0,
     datagrams_buffered = 0, duplicate_datagrams = 0, objects_decoded = 0, objects_expired = 0,
     flows_expired = 0, expiry_scans = 0\<rparr>"

record fec_expiry =
  exp_objects :: nat
  exp_flows :: nat
  exp_released_object_bytes :: nat
  exp_released_datagrams :: nat

definition fec_expiry_default :: fec_expiry where
  "fec_expiry_default = \<lparr>exp_objects = 0, exp_flows = 0, exp_released_object_bytes = 0,
     exp_released_datagrams = 0\<rparr>"

datatype 'a flow_key = Unprefixed 'a | Stream 'a u64

fun flow_stream_id :: "'a flow_key \<Rightarrow> u64 option" where
  "flow_stream_id (Unprefixed _) = None"
| "flow_stream_id (Stream _ stream_id) = Some stream_id"

datatype 'a object_key = ObjectKey (ok_flow: "'a flow_key") (ok_block_id: u32)

record 'd object_state =
  decoder :: 'd
  transfer_length :: nat
  accepted_datagrams :: nat
  obj_last_activity :: nat

record sequence_stats =
  stat_received :: nat
  stat_missing :: nat
  stat_duplicate_or_reordered :: nat
  stat_highest_seen :: "u32 option"

record sequence_tracker =
  next_expected :: "u32 option"
  missing :: "u32 set"
  stats :: sequence_stats

record flow_state =
  sequence_tracker :: sequence_tracker
  active_objects :: nat
  completed_order :: "u32 list"
  completed :: "u32 set"
  flow_last_activity :: nat

record ('a, 'd, 'x) fec_receiver =
  fec_config :: fec_config
  flows :: "('a flow_key \<times> flow_state) list"
  objects :: "('a object_key \<times> 'd object_state) list"
  buffered_object_bytes :: nat
  buffered_datagrams :: nat
  fec_counters :: fec_counters
  last_error :: "'x receive_error option"
  next_expiry_scan :: "nat option"

section \<open>Packet sequences\<close>

definition tracker_default :: sequence_tracker where
  "tracker_default = \<lparr>next_expected = None, missing = {},
     stats = \<lparr>stat_received = 0, stat_missing = 0, stat_duplicate_or_reordered = 0,
              stat_highest_seen = None\<rparr>\<rparr>"

text \<open>\<open>i32::MAX as u32\<close>: a difference up to this one is ahead, a larger one behind.\<close>

definition I32_MAX :: u32 where
  "I32_MAX = 0x7FFFFFFF"

definition observe_highest :: "u32 \<Rightarrow> u32 option \<Rightarrow> u32 option" where
  "observe_highest sequence seen = Some (case seen of
     None \<Rightarrow> sequence
   | Some highest \<Rightarrow> if sequence - highest \<le> I32_MAX then sequence else highest)"

definition mark_missing :: "u32 \<Rightarrow> u32 \<Rightarrow> nat \<Rightarrow> u32 set" where
  "mark_missing sequence diff max_tracked_gaps =
     (let tracked = min (unat diff) max_tracked_gaps;
          first = sequence - of_nat tracked
      in fold (\<lambda>offset. insert (first + of_nat offset)) [0..<tracked] {})"

definition observe :: "u32 \<Rightarrow> nat \<Rightarrow> sequence_tracker \<Rightarrow> sequence_tracker" where
  "observe sequence max_tracked_gaps t =
     (let t1 = t\<lparr>stats := (stats t)\<lparr>stat_received := sat_add (stat_received (stats t)) 1,
             stat_highest_seen := observe_highest sequence (stat_highest_seen (stats t))\<rparr>\<rparr>
      in case next_expected t1 of
           None \<Rightarrow> t1\<lparr>next_expected := Some (sequence + 1)\<rparr>
         | Some expected \<Rightarrow>
             let diff = sequence - expected;
                 t2 = (if diff \<le> I32_MAX
                       then (if diff > 0 then t1\<lparr>missing := mark_missing sequence diff max_tracked_gaps\<rparr> else t1)
                              \<lparr>next_expected := Some (sequence + 1)\<rparr>
                       else t1\<lparr>missing := missing t1 - {sequence},
                               stats := (stats t1)\<lparr>stat_duplicate_or_reordered :=
                                 sat_add (stat_duplicate_or_reordered (stats t1)) 1\<rparr>\<rparr>)
             in t2\<lparr>stats := (stats t2)\<lparr>stat_missing := card (missing t2)\<rparr>\<rparr>)"

section \<open>Flows\<close>

definition flow_new :: "nat \<Rightarrow> flow_state" where
  "flow_new now = \<lparr>sequence_tracker = tracker_default, active_objects = 0, completed_order = [],
     completed = {}, flow_last_activity = now\<rparr>"

fun trim_completed :: "nat \<Rightarrow> u32 list \<Rightarrow> u32 set \<Rightarrow> u32 list \<times> u32 set" where
  "trim_completed limit [] done = ([], done)"
| "trim_completed limit (expired # order) done =
     (if Suc (length order) > limit then trim_completed limit order (done - {expired})
      else (expired # order, done))"

definition mark_completed :: "u32 \<Rightarrow> nat \<Rightarrow> flow_state \<Rightarrow> flow_state" where
  "mark_completed block limit f =
     (if limit = 0 \<or> block \<in> completed f then f
      else let (order, done) =
             trim_completed limit (completed_order f @ [block]) (insert block (completed f))
           in f\<lparr>completed_order := order, completed := done\<rparr>)"

section \<open>The receiver\<close>

definition with_config :: "fec_config \<Rightarrow> ('a, 'd, 'x) fec_receiver" where
  "with_config cfg = \<lparr>fec_config = cfg, flows = [], objects = [], buffered_object_bytes = 0,
     buffered_datagrams = 0, fec_counters = fec_counters_default, last_error = None,
     next_expiry_scan = None\<rparr>"

definition fec_count :: "(fec_counters \<Rightarrow> fec_counters) \<Rightarrow> ('a, 'd, 'x) fec_receiver \<Rightarrow> ('a, 'd, 'x) fec_receiver" where
  "fec_count f r = r\<lparr>fec_counters := f (fec_counters r)\<rparr>"

definition reject ::
  "'x receive_error \<Rightarrow> ('a, 'd, 'x) fec_receiver
     \<Rightarrow> ('a, 'd, 'x) fec_receiver \<times> (push_outcome, 'x receive_error) result" where
  "reject e r =
     ((fec_count (\<lambda>c. c\<lparr>datagrams_rejected := sat_add (datagrams_rejected c) 1\<rparr>) r)
        \<lparr>last_error := Some e\<rparr>, Inl e)"

definition with_flow ::
  "'a flow_key \<Rightarrow> (flow_state \<Rightarrow> flow_state) \<Rightarrow> ('a, 'd, 'x) fec_receiver
     \<Rightarrow> ('a, 'd, 'x) fec_receiver option" where
  "with_flow flow f r =
     (case map_of (flows r) flow of
        None \<Rightarrow> None
      | Some st \<Rightarrow> Some (r\<lparr>flows := tput flow (f st) (flows r)\<rparr>))"

definition remove_object ::
  "'a object_key \<Rightarrow> ('a, 'd, 'x) fec_receiver \<Rightarrow> ('a, 'd, 'x) fec_receiver \<times> 'd object_state option" where
  "remove_object key r =
     (case map_of (objects r) key of
        None \<Rightarrow> (r, None)
      | Some st \<Rightarrow>
         let r1 = r\<lparr>objects := tdel key (objects r),
                    buffered_object_bytes := sat_sub (buffered_object_bytes r) (transfer_length st),
                    buffered_datagrams := sat_sub (buffered_datagrams r) (accepted_datagrams st)\<rparr>
         in ((case with_flow (ok_flow key) (\<lambda>f. f\<lparr>active_objects := sat_sub (active_objects f) 1\<rparr>) r1 of
                None \<Rightarrow> r1 | Some r2 \<Rightarrow> r2), Some st))"

definition remove_empty_flow :: "'a flow_key \<Rightarrow> ('a, 'd, 'x) fec_receiver \<Rightarrow> ('a, 'd, 'x) fec_receiver" where
  "remove_empty_flow flow r =
     (if (case map_of (flows r) flow of None \<Rightarrow> False
          | Some f \<Rightarrow> active_objects f = 0 \<and> completed f = {})
      then r\<lparr>flows := tdel flow (flows r)\<rparr> else r)"

definition elapsed :: "nat \<Rightarrow> nat \<Rightarrow> nat" where
  "elapsed now before = now - before"

fun expire_objects ::
  "'a object_key list \<Rightarrow> ('a, 'd, 'x) fec_receiver \<Rightarrow> fec_expiry \<Rightarrow> ('a, 'd, 'x) fec_receiver \<times> fec_expiry" where
  "expire_objects [] r expiry = (r, expiry)"
| "expire_objects (key # ks) r expiry =
     (case remove_object key r of
        (r1, None) \<Rightarrow> expire_objects ks r1 expiry
      | (r1, Some st) \<Rightarrow> expire_objects ks r1
          (expiry\<lparr>exp_objects := exp_objects expiry + 1,
             exp_released_object_bytes := sat_add (exp_released_object_bytes expiry) (transfer_length st),
             exp_released_datagrams := sat_add (exp_released_datagrams expiry) (accepted_datagrams st)\<rparr>))"

fun expire_flows ::
  "'a flow_key list \<Rightarrow> ('a, 'd, 'x) fec_receiver \<Rightarrow> fec_expiry \<Rightarrow> ('a, 'd, 'x) fec_receiver \<times> fec_expiry" where
  "expire_flows [] r expiry = (r, expiry)"
| "expire_flows (flow # fs) r expiry =
     (if map_of (flows r) flow \<noteq> None
      then expire_flows fs (r\<lparr>flows := tdel flow (flows r)\<rparr>) (expiry\<lparr>exp_flows := exp_flows expiry + 1\<rparr>)
      else expire_flows fs r expiry)"

definition scan_inactive_at ::
  "nat \<Rightarrow> ('a, 'd, 'x) fec_receiver \<Rightarrow> ('a, 'd, 'x) fec_receiver \<times> fec_expiry" where
  "scan_inactive_at now r =
     (let r1 = fec_count (\<lambda>c. c\<lparr>expiry_scans := sat_add (expiry_scans c) 1\<rparr>) r;
          expired_objects = keys (filter (\<lambda>(key, st).
            elapsed now (obj_last_activity st) \<ge> object_inactivity_timeout (fec_config r1)) (objects r1));
          (r2, expiry) = expire_objects expired_objects r1 fec_expiry_default;
          expired_flows = keys (filter (\<lambda>(key, st). active_objects st = 0
            \<and> elapsed now (flow_last_activity st) \<ge> flow_inactivity_timeout (fec_config r2)) (flows r2));
          (r3, expiry1) = expire_flows expired_flows r2 expiry
      in (fec_count (\<lambda>c. c\<lparr>objects_expired := sat_add (objects_expired c) (exp_objects expiry1),
             flows_expired := sat_add (flows_expired c) (exp_flows expiry1)\<rparr>) r3, expiry1))"

definition schedule_next_expiry_scan ::
  "('d, 'x) fec_lib \<Rightarrow> nat \<Rightarrow> ('a, 'd, 'x) fec_receiver \<Rightarrow> ('a, 'd, 'x) fec_receiver" where
  "schedule_next_expiry_scan lib now r =
     (let interval = min (min (expiry_scan_interval (fec_config r)) (object_inactivity_timeout (fec_config r)))
            (flow_inactivity_timeout (fec_config r))
      in r\<lparr>next_expiry_scan := (if now + interval \<le> instant_max lib then Some (now + interval) else None)\<rparr>)"

definition expire_inactive_at ::
  "('d, 'x) fec_lib \<Rightarrow> nat \<Rightarrow> ('a, 'd, 'x) fec_receiver \<Rightarrow> ('a, 'd, 'x) fec_receiver \<times> fec_expiry" where
  "expire_inactive_at lib now r =
     (let (r1, expiry) = scan_inactive_at now r in (schedule_next_expiry_scan lib now r1, expiry))"

definition expire_inactive_if_due ::
  "('d, 'x) fec_lib \<Rightarrow> nat \<Rightarrow> ('a, 'd, 'x) fec_receiver \<Rightarrow> ('a, 'd, 'x) fec_receiver \<times> fec_expiry" where
  "expire_inactive_if_due lib now r =
     (if (case next_expiry_scan r of None \<Rightarrow> False | Some deadline \<Rightarrow> now < deadline)
      then (r, fec_expiry_default) else expire_inactive_at lib now r)"

section \<open>Accepting a datagram\<close>

definition starts_with :: "bytes \<Rightarrow> bytes \<Rightarrow> bool" where
  "starts_with bs prefix \<longleftrightarrow> take (length prefix) bs = prefix"

definition classify_datagram :: "('d, 'x) fec_lib \<Rightarrow> 'a \<Rightarrow> bytes \<Rightarrow> 'a flow_key \<times> bytes" where
  "classify_datagram lib peer datagram =
     (case split_stream_id_prefix lib datagram of
        Some (stream_id, payload) \<Rightarrow>
          if starts_with payload (DATAGRAM_MAGIC lib) then (Stream peer stream_id, payload)
          else (Unprefixed peer, datagram)
      | None \<Rightarrow> (Unprefixed peer, datagram))"

text \<open>The parsed datagram: flow, FEC datagram and header, or the error of the crate.\<close>

definition parse_datagram ::
  "('d, 'x) fec_lib \<Rightarrow> 'a \<Rightarrow> bytes \<Rightarrow> ('a flow_key \<times> bytes \<times> fec_header, 'x receive_error) result" where
  "parse_datagram lib peer datagram =
     (let (flow, fec_datagram) = classify_datagram lib peer datagram
      in case header_decode lib fec_datagram of
           Inl e \<Rightarrow> Inl (Fec (flow_stream_id flow) e)
         | Inr header \<Rightarrow>
            (case header_payload lib header fec_datagram of
               Inl e \<Rightarrow> Inl (Fec (flow_stream_id flow) e)
             | Inr _ \<Rightarrow> Inr (flow, fec_datagram, header)))"

definition is_completed :: "'a flow_key \<Rightarrow> u32 \<Rightarrow> ('a, 'd, 'x) fec_receiver \<Rightarrow> bool" where
  "is_completed flow block r =
     (case map_of (flows r) flow of None \<Rightarrow> False | Some st \<Rightarrow> block \<in> completed st)"

definition touch_flow :: "nat \<Rightarrow> u32 \<Rightarrow> nat \<Rightarrow> flow_state \<Rightarrow> flow_state" where
  "touch_flow now sequence gaps st =
     st\<lparr>flow_last_activity := now, sequence_tracker := observe sequence gaps (sequence_tracker st)\<rparr>"

definition push_duplicate ::
  "'a flow_key \<Rightarrow> fec_header \<Rightarrow> nat \<Rightarrow> ('a, 'd, 'x) fec_receiver
     \<Rightarrow> (('a, 'd, 'x) fec_receiver \<times> (push_outcome, 'x receive_error) result) option" where
  "push_duplicate flow header now r =
     (case with_flow flow (touch_flow now (hdr_packet_sequence header)
              (max_tracked_sequence_gaps_per_flow (fec_config r))) r of
        None \<Rightarrow> None
      | Some r1 \<Rightarrow> Some
         (fec_count (\<lambda>c. c\<lparr>datagrams_accepted := sat_add (datagrams_accepted c) 1,
                           duplicate_datagrams := sat_add (duplicate_datagrams c) 1\<rparr>) r1,
          Inr (Duplicate (flow_stream_id flow) (hdr_block_id header))))"

definition datagram_budget_error ::
  "'a object_key \<Rightarrow> ('a, 'd, 'x) fec_receiver \<Rightarrow> 'x receive_error option" where
  "datagram_budget_error key r =
     (let cfg = fec_config r; stream_id = flow_stream_id (ok_flow key) in
      if buffered_datagrams r \<ge> max_buffered_datagrams cfg
      then Some (BufferedDatagramLimitExceeded (buffered_datagrams r) (max_buffered_datagrams cfg))
      else if map_of (objects r) key = None \<and> max_datagrams_per_object cfg = 0
      then Some (ObjectDatagramLimitExceeded stream_id (ok_block_id key) (max_datagrams_per_object cfg))
      else None)"

definition object_full :: "'a object_key \<Rightarrow> ('a, 'd, 'x) fec_receiver \<Rightarrow> bool" where
  "object_full key r =
     (case map_of (objects r) key of None \<Rightarrow> False
      | Some st \<Rightarrow> accepted_datagrams st \<ge> max_datagrams_per_object (fec_config r))"

text \<open>Admission of a new object: the four limits, then the flow and the object are inserted and the
  bytes reserved.\<close>

definition reserve_object ::
  "('d, 'x) fec_lib \<Rightarrow> 'a object_key \<Rightarrow> nat \<Rightarrow> nat \<Rightarrow> ('a, 'd, 'x) fec_receiver
     \<Rightarrow> (('a, 'd, 'x) fec_receiver, 'x receive_error) result" where
  "reserve_object lib key length_bytes now r =
     (let cfg = fec_config r; flow = ok_flow key in
      if map_of (flows r) flow = None \<and> length (flows r) \<ge> max_flows cfg
      then Inl (FlowLimitExceeded (max_flows cfg))
      else if length (objects r) \<ge> max_active_objects cfg
      then Inl (ActiveObjectLimitExceeded (max_active_objects cfg))
      else if active_objects (get_or (flow_new now) (flows r) flow) \<ge> max_active_objects_per_flow cfg
      then Inl (FlowObjectLimitExceeded (flow_stream_id flow) (max_active_objects_per_flow cfg))
      else case (case checked_add (buffered_object_bytes r) length_bytes of None \<Rightarrow> None
                 | Some reserved \<Rightarrow> if reserved \<le> max_buffered_object_bytes cfg then Some reserved else None) of
        None \<Rightarrow> Inl (BufferedObjectBytesLimitExceeded (buffered_object_bytes r) length_bytes
                       (max_buffered_object_bytes cfg))
      | Some reserved \<Rightarrow>
          let st = get_or (flow_new now) (flows r) flow
          in Inr (r\<lparr>flows := tput flow (st\<lparr>active_objects := sat_add (active_objects st) 1\<rparr>) (flows r),
                     objects := tput key \<lparr>decoder = decoder_new lib, transfer_length = length_bytes,
                       accepted_datagrams = 0, obj_last_activity = now\<rparr> (objects r),
                     buffered_object_bytes := reserved\<rparr>))"

text \<open>The datagram reaches the decoder of its object.\<close>

definition feed_object ::
  "('d, 'x) fec_lib \<Rightarrow> 'a object_key \<Rightarrow> bytes \<Rightarrow> fec_header \<Rightarrow> nat \<Rightarrow> ('a, 'd, 'x) fec_receiver
     \<Rightarrow> (('a, 'd, 'x) fec_receiver \<times> (bytes option, 'x) result) option" where
  "feed_object lib key datagram header now r =
     (case with_flow (ok_flow key) (touch_flow now (hdr_packet_sequence header)
              (max_tracked_sequence_gaps_per_flow (fec_config r))) r of
        None \<Rightarrow> None
      | Some r1 \<Rightarrow>
       (case map_of (objects r1) key of
          None \<Rightarrow> None
        | Some st \<Rightarrow>
            let (d, res) = push_datagram lib (decoder st) datagram
            in Some (r1\<lparr>objects := tput key (st\<lparr>decoder := d, obj_last_activity := now,
                          accepted_datagrams := sat_add (accepted_datagrams st) 1\<rparr>) (objects r1),
                        buffered_datagrams := sat_add (buffered_datagrams r1) 1\<rparr>, res)))"

definition finish_push ::
  "'a object_key \<Rightarrow> bool \<Rightarrow> (bytes option, 'x) result \<Rightarrow> ('a, 'd, 'x) fec_receiver
     \<Rightarrow> (('a, 'd, 'x) fec_receiver \<times> (push_outcome, 'x receive_error) result) option" where
  "finish_push key is_new_flow res r =
     (let stream_id = flow_stream_id (ok_flow key) in
      case res of
        Inr (Some payload) \<Rightarrow>
         (case with_flow (ok_flow key)
                 (mark_completed (ok_block_id key) (max_completed_objects_per_flow (fec_config r)))
                 (fst (remove_object key r)) of
            None \<Rightarrow> None
          | Some r1 \<Rightarrow> Some
             (fec_count (\<lambda>c. c\<lparr>datagrams_accepted := sat_add (datagrams_accepted c) 1,
                               objects_decoded := sat_add (objects_decoded c) 1\<rparr>) r1,
              Inr (Decoded (ok_block_id key) (DecodedUdpFecPayload stream_id payload))))
      | Inr None \<Rightarrow> Some
         (fec_count (\<lambda>c. c\<lparr>datagrams_accepted := sat_add (datagrams_accepted c) 1,
                           datagrams_buffered := sat_add (datagrams_buffered c) 1\<rparr>) r,
          Inr (Buffered stream_id (ok_block_id key)))
      | Inl e \<Rightarrow>
         let r1 = fst (remove_object key r);
             r2 = (if is_new_flow then remove_empty_flow (ok_flow key) r1 else r1)
         in Some (reject (Fec stream_id e) r2))"

definition push_object ::
  "('d, 'x) fec_lib \<Rightarrow> 'a flow_key \<Rightarrow> bytes \<Rightarrow> fec_header \<Rightarrow> nat \<Rightarrow> ('a, 'd, 'x) fec_receiver
     \<Rightarrow> (('a, 'd, 'x) fec_receiver \<times> (push_outcome, 'x receive_error) result) option" where
  "push_object lib flow datagram header now r =
     (let key = ObjectKey flow (hdr_block_id header);
          is_new_object = (map_of (objects r) key = None);
          is_new_flow = (map_of (flows r) flow = None)
      in case datagram_budget_error key r of
           Some e \<Rightarrow> Some (reject e r)
         | None \<Rightarrow>
           if object_full key r
           then Some (reject (ObjectDatagramLimitExceeded (flow_stream_id flow) (hdr_block_id header)
                  (max_datagrams_per_object (fec_config r))) (fst (remove_object key r)))
           else
             case (if is_new_object then reserve_object lib key (hdr_transfer_length header) now r else Inr r) of
               Inl e \<Rightarrow> Some (reject e r)
             | Inr r1 \<Rightarrow>
                (case feed_object lib key datagram header now r1 of
                   None \<Rightarrow> None
                 | Some (r2, res) \<Rightarrow> finish_push key is_new_flow res r2))"

definition try_push_payload_at ::
  "('d, 'x) fec_lib \<Rightarrow> 'a \<Rightarrow> bytes \<Rightarrow> nat \<Rightarrow> ('a, 'd, 'x) fec_receiver
     \<Rightarrow> (('a, 'd, 'x) fec_receiver \<times> (push_outcome, 'x receive_error) result) option" where
  "try_push_payload_at lib peer datagram now r =
     (let r1 = fec_count (\<lambda>c. c\<lparr>datagrams_received := sat_add (datagrams_received c) 1\<rparr>)
                 (fst (expire_inactive_if_due lib now r))
      in if length datagram > max_datagram_bytes (fec_config r1)
         then Some (reject (DatagramTooLarge (length datagram) (max_datagram_bytes (fec_config r1))) r1)
         else case parse_datagram lib peer datagram of
           Inl e \<Rightarrow> Some (reject e r1)
         | Inr (flow, fec_datagram, header) \<Rightarrow>
             if hdr_transfer_length header > max_object_bytes (fec_config r1)
             then Some (reject (ObjectTooLarge (flow_stream_id flow) (hdr_block_id header)
                    (hdr_transfer_length header) (max_object_bytes (fec_config r1))) r1)
             else if is_completed flow (hdr_block_id header) r1
             then push_duplicate flow header now r1
             else push_object lib flow fec_datagram header now r1)"

definition push_payload ::
  "('d, 'x) fec_lib \<Rightarrow> 'a \<Rightarrow> bytes \<Rightarrow> nat \<Rightarrow> ('a, 'd, 'x) fec_receiver
     \<Rightarrow> (('a, 'd, 'x) fec_receiver \<times> decoded_udp_fec_payload option) option" where
  "push_payload lib peer datagram now r =
     map_option (map_prod id (case_sum (\<lambda>_. None) into_decoded)) (try_push_payload_at lib peer datagram now r)"

definition push_raw ::
  "('d, 'x) fec_lib \<Rightarrow> 'a \<Rightarrow> bytes \<Rightarrow> nat \<Rightarrow> ('a, 'd, 'x) fec_receiver
     \<Rightarrow> (('a, 'd, 'x) fec_receiver \<times> bytes option) option" where
  "push_raw lib peer datagram now r =
     map_option (map_prod id (\<lambda>d. case d of None \<Rightarrow> None
       | Some p \<Rightarrow> if dec_stream_id p = None then Some (dec_payload p) else None))
       (push_payload lib peer datagram now r)"

definition flow_sequence_stats ::
  "'a flow_key \<Rightarrow> ('a, 'd, 'x) fec_receiver \<Rightarrow> sequence_stats option" where
  "flow_sequence_stats flow r = map_option (stats \<circ> sequence_tracker) (map_of (flows r) flow)"

record fec_receiver_state =
  st_active_flows :: nat
  st_active_objects :: nat
  st_buffered_object_bytes :: nat
  st_buffered_datagrams :: nat

definition receiver_state :: "('a, 'd, 'x) fec_receiver \<Rightarrow> fec_receiver_state" where
  "receiver_state r = \<lparr>st_active_flows = length (flows r), st_active_objects = length (objects r),
     st_buffered_object_bytes = buffered_object_bytes r, st_buffered_datagrams = buffered_datagrams r\<rparr>"

definition take_last_error ::
  "('a, 'd, 'x) fec_receiver \<Rightarrow> ('a, 'd, 'x) fec_receiver \<times> 'x receive_error option" where
  "take_last_error r = (r\<lparr>last_error := None\<rparr>, last_error r)"

end
