(* ===== verification/Udp_Fec_Inv.thy ===== *)
theory Udp_Fec_Inv
  imports Udp_Fec
begin

text \<open>
  The invariant of the FEC receiver. \<open>fec_tables\<close> relates the two tables and the two budgets: the
  budgets are the sums over the incomplete objects, each flow counts its incomplete objects, no
  completed object of a flow is incomplete again, and every configured limit holds. It is preserved by
  each elementary table update, hence by every operation; that no \<open>expect\<close> fails follows from it.
\<close>

section \<open>Sequence tracking\<close>

lemma fold_insert_set: "fold (\<lambda>i. insert (g i)) xs A = g ` set xs \<union> A"
  by (induction xs arbitrary: A) auto

text \<open>The numbers marked missing are those at distance 1 to \<open>tracked\<close> below the one that arrived.\<close>

lemma mark_missing_eq:
  "mark_missing s d m = {x. 1 \<le> unat (s - x) \<and> unat (s - x) \<le> min (unat d) m}"
proof -
  let ?t = "min (unat d) m"
  have "unat d < 2 ^ LENGTH(32)" by (rule unsigned_less)
  then have t: "?t < 2 ^ 32" by (simp add: min_less_iff_disj)
  have "(\<lambda>i. s - of_nat ?t + of_nat i) ` {0..<?t} = {x. 1 \<le> unat (s - x) \<and> unat (s - x) \<le> ?t}"
  proof (rule set_eqI, rule iffI)
    fix x
    assume "x \<in> (\<lambda>i. s - of_nat ?t + of_nat i) ` {0..<?t}"
    then obtain i where i: "i < ?t" and x: "x = s - of_nat ?t + of_nat i" by auto
    then have sx: "s - x = of_nat (?t - i)" by (simp add: of_nat_diff)
    have "unat (s - x) = ?t - i"
      using t unfolding sx by (simp add: unat_of_nat take_bit_nat_eq_self del: of_nat_diff)
    then show "x \<in> {x. 1 \<le> unat (s - x) \<and> unat (s - x) \<le> ?t}" using i by auto
  next
    fix x
    assume x: "x \<in> {x. 1 \<le> unat (s - x) \<and> unat (s - x) \<le> ?t}"
    let ?i = "?t - unat (s - x)"
    have "of_nat ?i = (of_nat ?t - (s - x) :: u32)"
      using x by (simp add: of_nat_diff)
    then have "x = s - of_nat ?t + of_nat ?i" by (simp add: algebra_simps)
    moreover have "?i < ?t" using x by auto
    ultimately show "x \<in> (\<lambda>i. s - of_nat ?t + of_nat i) ` {0..<?t}" by auto
  qed
  then show ?thesis by (simp add: mark_missing_def Let_def fold_insert_set)
qed

lemma card_mark_missing: "card (mark_missing s d m) \<le> m"
proof -
  let ?t = "min (unat d) m"
  have "card (mark_missing s d m) \<le> card {0..<?t}"
    unfolding mark_missing_def Let_def fold_insert_set by (simp add: card_image_le del: card_atLeastLessThan)
  then show ?thesis by simp
qed

definition tracker_ok :: "nat \<Rightarrow> sequence_tracker \<Rightarrow> bool" where
  "tracker_ok m t \<longleftrightarrow> card (missing t) \<le> m \<and> stat_missing (stats t) = card (missing t)
     \<and> (next_expected t = None \<longrightarrow> missing t = {})"

lemma tracker_ok_default [simp]: "tracker_ok m tracker_default"
  by (simp add: tracker_ok_def tracker_default_def)

lemma tracker_ok_observe [simp]: "tracker_ok m t \<Longrightarrow> tracker_ok m (observe s m t)"
  using card_mark_missing [of s _ m] card_Diff1_le [of "missing t" s]
  by (auto simp: observe_def tracker_ok_def Let_def split: option.splits intro: order_trans)

section \<open>Completed objects\<close>

lemma trim_completed_eq:
  "distinct order \<Longrightarrow> done = set order \<Longrightarrow> trim_completed limit order done =
     (drop (length order - limit) order, set (drop (length order - limit) order))"
proof (induction order arbitrary: "done")
  case Nil
  then show ?case by simp
next
  case (Cons x order)
  show ?case
  proof (cases "Suc (length order) > limit")
    case True
    moreover have "Suc (length order) - limit = Suc (length order - limit)" using True by simp
    ultimately show ?thesis
      using Cons.prems Cons.IH [of "set order"] by auto
  next
    case False
    then show ?thesis using Cons.prems by simp
  qed
qed

definition completed_ok :: "nat \<Rightarrow> flow_state \<Rightarrow> bool" where
  "completed_ok limit st \<longleftrightarrow> set (completed_order st) = completed st \<and> distinct (completed_order st)
     \<and> length (completed_order st) \<le> limit"

lemma mark_completed_simps [simp]:
  "active_objects (mark_completed b m st) = active_objects st"
  "sequence_tracker (mark_completed b m st) = sequence_tracker st"
  "flow_last_activity (mark_completed b m st) = flow_last_activity st"
  by (simp_all add: mark_completed_def Let_def case_prod_beta)

lemma mark_completed_completed:
  assumes "completed_ok m st"
  shows "completed_ok m (mark_completed b m st)"
    and "completed (mark_completed b m st) \<subseteq> insert b (completed st)"
    and "m \<noteq> 0 \<Longrightarrow> b \<in> completed (mark_completed b m st)"
proof -
  have *: "completed_ok m (mark_completed b m st) \<and> completed (mark_completed b m st) \<subseteq> insert b (completed st)
    \<and> (m \<noteq> 0 \<longrightarrow> b \<in> completed (mark_completed b m st))"
  proof (cases "m = 0 \<or> b \<in> completed st")
    case True
    then show ?thesis using assms by (auto simp: mark_completed_def)
  next
    case False
    define o1 where "o1 = completed_order st @ [b]"
    define o2 where "o2 = drop (length o1 - m) o1"
    have d: "distinct o1" and s: "insert b (completed st) = set o1"
      using False assms by (auto simp: completed_ok_def o1_def)
    have mk: "mark_completed b m st = st\<lparr>completed_order := o2, completed := set o2\<rparr>"
      using False trim_completed_eq [OF d s, of m]
      by (simp add: mark_completed_def o2_def flip: o1_def)
    have "b \<in> set o2" using False by (simp add: o1_def o2_def)
    moreover have "set o2 \<subseteq> insert b (completed st)"
      unfolding s o2_def by (rule set_drop_subset)
    moreover have "distinct o2" "length o2 \<le> m" using d by (simp_all add: o2_def)
    ultimately show ?thesis by (simp add: mk completed_ok_def)
  qed
  then show "completed_ok m (mark_completed b m st)"
    and "completed (mark_completed b m st) \<subseteq> insert b (completed st)"
    and "m \<noteq> 0 \<Longrightarrow> b \<in> completed (mark_completed b m st)" by blast+
qed

section \<open>The tables\<close>

definition in_flow :: "'a flow_key \<Rightarrow> 'a object_key \<times> 'd object_state \<Rightarrow> nat" where
  "in_flow flow p = of_bool (ok_flow (fst p) = flow)"

definition flow_ok :: "fec_config \<Rightarrow> ('a object_key \<times> 'd object_state) list \<Rightarrow> 'a flow_key \<Rightarrow> flow_state \<Rightarrow> bool" where
  "flow_ok cfg ob flow st \<longleftrightarrow>
     active_objects st = tsum (in_flow flow) ob \<and> active_objects st \<le> max_active_objects_per_flow cfg
     \<and> completed_ok (max_completed_objects_per_flow cfg) st
     \<and> (\<forall>b \<in> completed st. map_of ob (ObjectKey flow b) = None)
     \<and> tracker_ok (max_tracked_sequence_gaps_per_flow cfg) (sequence_tracker st)"

definition object_ok :: "fec_config \<Rightarrow> 'd object_state \<Rightarrow> bool" where
  "object_ok cfg st \<longleftrightarrow> transfer_length st \<le> max_object_bytes cfg
     \<and> accepted_datagrams st \<le> max_datagrams_per_object cfg"

definition fec_tables ::
  "fec_config \<Rightarrow> ('a flow_key \<times> flow_state) list \<Rightarrow> ('a object_key \<times> 'd object_state) list \<Rightarrow> nat \<Rightarrow> nat \<Rightarrow> bool" where
  "fec_tables cfg fl ob b d \<longleftrightarrow>
     table_ok fl \<and> table_ok ob
     \<and> b = tsum (transfer_length \<circ> snd) ob \<and> d = tsum (accepted_datagrams \<circ> snd) ob
     \<and> length fl \<le> max_flows cfg \<and> length ob \<le> max_active_objects cfg
     \<and> b \<le> max_buffered_object_bytes cfg \<and> d \<le> max_buffered_datagrams cfg
     \<and> (\<forall>flow st. map_of fl flow = Some st \<longrightarrow> flow_ok cfg ob flow st)
     \<and> (\<forall>key st. map_of ob key = Some st \<longrightarrow> object_ok cfg st \<and> map_of fl (ok_flow key) \<noteq> None)"

text \<open>Every limit is a \<open>usize\<close>.\<close>

definition config_fits :: "fec_config \<Rightarrow> bool" where
  "config_fits cfg \<longleftrightarrow> max_buffered_object_bytes cfg \<le> usize_max \<and> max_buffered_datagrams cfg \<le> usize_max
     \<and> max_datagrams_per_object cfg \<le> usize_max \<and> max_active_objects_per_flow cfg \<le> usize_max"

lemma fec_tablesD:
  assumes "fec_tables cfg fl ob b d"
  shows "table_ok fl" "table_ok ob" "map_of fl flow = Some st \<Longrightarrow> flow_ok cfg ob flow st"
    "map_of ob key = Some os \<Longrightarrow> object_ok cfg os \<and> map_of fl (ok_flow key) \<noteq> None"
    "b = tsum (transfer_length \<circ> snd) ob" "d = tsum (accepted_datagrams \<circ> snd) ob"
  using assms by (simp_all add: fec_tables_def)

lemma fec_tables_empty: "fec_tables cfg [] [] 0 0"
  by (simp add: fec_tables_def)

lemma fec_tables_flow:
  assumes t: "fec_tables cfg fl ob b d" and "map_of fl flow = Some st" and "flow_ok cfg ob flow st'"
  shows "fec_tables cfg (tput flow st' fl) ob b d"
  using assms fec_tablesD(1) [OF t]
  by (auto simp: fec_tables_def ht.table_ok_put ht.map_of_put ht.length_put)

lemma fec_tables_drop_flow:
  assumes t: "fec_tables cfg fl ob b d" and st: "map_of fl flow = Some st" and "active_objects st = 0"
  shows "fec_tables cfg (tdel flow fl) ob b d"
proof -
  have "tsum (in_flow flow) ob = 0"
    using fec_tablesD(3) [OF t st] assms(3) by (simp add: flow_ok_def)
  then have "map_of ob key = None" if "ok_flow key = flow" for key
    using that tsum_member_le [of "(key, os)" ob "in_flow flow" for os] 
    by (cases "map_of ob key") (auto dest!: map_of_SomeD simp: in_flow_def)
  then show ?thesis
    using t length_tdel_le [of flow fl] by (auto simp: fec_tables_def)
qed

lemma flow_ok_cong:
  "tsum (in_flow flow) ob' = tsum (in_flow flow) ob \<Longrightarrow>
   (\<And>k. ok_flow k = flow \<Longrightarrow> map_of ob' k = None \<longleftrightarrow> map_of ob k = None) \<Longrightarrow>
   flow_ok cfg ob' flow st = flow_ok cfg ob flow st"
  by (auto simp: flow_ok_def)

lemma fec_tables_feed:
  assumes t: "fec_tables cfg fl ob b d" and os: "map_of ob key = Some os"
    and os': "transfer_length os' = transfer_length os" "accepted_datagrams os' = Suc (accepted_datagrams os)"
    and room: "accepted_datagrams os < max_datagrams_per_object cfg" "d < max_buffered_datagrams cfg"
  shows "fec_tables cfg fl (tput key os' ob) b (Suc d)"
proof -
  note T = fec_tablesD [OF t]
  have flows: "flow_ok cfg (tput key os' ob) flow st" if "map_of fl flow = Some st" for flow st
  proof -
    have "tsum (in_flow flow) (tput key os' ob) = tsum (in_flow flow) ob"
      using ht.tsum_put_old [OF T(2) os, of "in_flow flow" os'] by (simp add: in_flow_def)
    then show ?thesis
      using T(2) os flow_ok_cong [of flow "tput key os' ob" ob] T(3) [OF that] by (simp add: ht.map_of_put)
  qed
  have "tsum (transfer_length \<circ> snd) (tput key os' ob) = b"
    "tsum (accepted_datagrams \<circ> snd) (tput key os' ob) = Suc d"
    using ht.tsum_put_old [OF T(2) os, of "transfer_length \<circ> snd" os']
      ht.tsum_put_old [OF T(2) os, of "accepted_datagrams \<circ> snd" os'] os' T(5,6) by simp_all
  moreover have "object_ok cfg os'" using T(4) [OF os] os' room by (simp add: object_ok_def)
  ultimately show ?thesis
    using t os flows room T(4) [OF os]
    by (auto simp: fec_tables_def ht.table_ok_put ht.map_of_put ht.length_put)
qed

lemma fec_tables_reserve:
  assumes t: "fec_tables cfg fl ob b d" and new: "map_of ob key = None"
    and limits: "map_of fl (ok_flow key) = None \<Longrightarrow> length fl < max_flows cfg"
      "length ob < max_active_objects cfg"
      "active_objects st < max_active_objects_per_flow cfg"
      "b + transfer_length os \<le> max_buffered_object_bytes cfg"
    and st: "st = get_or (flow_new now) fl (ok_flow key)" and fresh: "ok_block_id key \<notin> completed st"
    and os: "accepted_datagrams os = 0" "object_ok cfg os"
  shows "fec_tables cfg (tput (ok_flow key) (st\<lparr>active_objects := Suc (active_objects st)\<rparr>) fl)
    (tput key os ob) (b + transfer_length os) d"
proof -
  note T = fec_tablesD [OF t]
  have none: "map_of fl flow = None \<Longrightarrow> tsum (in_flow flow) ob = 0" for flow
  proof -
    assume "map_of fl flow = None"
    then have "\<forall>p \<in> set ob. ok_flow (fst p) \<noteq> flow"
      using T(2,4) by (metis map_of_eq_Some_iff prod.collapse)
    then have "tsum (in_flow flow) ob = tsum (\<lambda>_. 0) ob"
      by (intro tsum_cong) (simp add: in_flow_def)
    then show ?thesis by (simp add: tsum_def)
  qed
  have base: "flow_ok cfg ob (ok_flow key) st"
  proof (cases "map_of fl (ok_flow key)")
    case None
    then show ?thesis
      using none [OF None] by (simp add: st get_or_def flow_ok_def flow_new_def completed_ok_def)
  next
    case (Some f)
    then show ?thesis using T(3) [OF Some] by (simp add: st get_or_def)
  qed
  have cnt: "tsum (in_flow flow) (tput key os ob) = of_bool (ok_flow key = flow) + tsum (in_flow flow) ob" for flow
    using ht.tsum_put_new [OF T(2) new, of "in_flow flow" os] by (simp add: in_flow_def)
  have here: "flow_ok cfg (tput key os ob) (ok_flow key) (st\<lparr>active_objects := Suc (active_objects st)\<rparr>)"
    using base limits(3) fresh T(2) cnt
    by (cases key) (auto simp: flow_ok_def completed_ok_def ht.map_of_put)
  have there: "flow_ok cfg (tput key os ob) flow f" if "map_of fl flow = Some f" "flow \<noteq> ok_flow key" for flow f
  proof -
    have "flow_ok cfg (tput key os ob) flow f = flow_ok cfg ob flow f"
      by (rule flow_ok_cong) (use T(2) that(2) cnt in \<open>auto simp: ht.map_of_put\<close>)
    then show ?thesis using T(3) [OF that(1)] by simp
  qed
  have sums: "tsum (transfer_length \<circ> snd) (tput key os ob) = b + transfer_length os"
    "tsum (accepted_datagrams \<circ> snd) (tput key os ob) = d"
    using T(2,5,6) new os by (simp_all add: ht.tsum_put_new)
  show ?thesis
    using t limits here there sums os new
    by (auto simp: fec_tables_def ht.table_ok_put ht.map_of_put ht.length_put)
qed

lemma fec_tables_remove:
  assumes t: "fec_tables cfg fl ob b d" and os: "map_of ob key = Some os"
    and st: "map_of fl (ok_flow key) = Some st"
  shows "fec_tables cfg (tput (ok_flow key) (st\<lparr>active_objects := active_objects st - 1\<rparr>) fl)
    (tdel key ob) (b - transfer_length os) (d - accepted_datagrams os)"
proof -
  note T = fec_tablesD [OF t]
  have cnt: "tsum (in_flow flow) ob = of_bool (ok_flow key = flow) + tsum (in_flow flow) (tdel key ob)" for flow
    using ht.tsum_tdel [OF T(2) os, of "in_flow flow"] by (simp add: in_flow_def)
  have here: "flow_ok cfg (tdel key ob) (ok_flow key) (st\<lparr>active_objects := active_objects st - 1\<rparr>)"
    using T(3) [OF st] cnt [of "ok_flow key"] by (auto simp: flow_ok_def completed_ok_def)
  have there: "flow_ok cfg (tdel key ob) flow f" if "map_of fl flow = Some f" "flow \<noteq> ok_flow key" for flow f
  proof -
    have "flow_ok cfg (tdel key ob) flow f = flow_ok cfg ob flow f"
      by (rule flow_ok_cong) (use that(2) cnt [of flow] in auto)
    then show ?thesis using T(3) [OF that(1)] by simp
  qed
  have sums: "b = transfer_length os + tsum (transfer_length \<circ> snd) (tdel key ob)"
    "d = accepted_datagrams os + tsum (accepted_datagrams \<circ> snd) (tdel key ob)"
    using T(5,6) ht.tsum_tdel [OF T(2) os, of "transfer_length \<circ> snd"]
      ht.tsum_tdel [OF T(2) os, of "accepted_datagrams \<circ> snd"] by simp_all
  have objs: "\<forall>k s. map_of (tdel key ob) k = Some s \<longrightarrow> object_ok cfg s \<and>
      map_of (tput (ok_flow key) (st\<lparr>active_objects := active_objects st - 1\<rparr>) fl) (ok_flow k) \<noteq> None"
    using T(1,4) by (auto simp: ht.map_of_put)
  have lens: "length (tdel key ob) \<le> length ob" by (rule length_tdel_le)
  show ?thesis
    using t here there sums st lens objs
    by (auto simp: fec_tables_def ht.table_ok_put ht.map_of_put ht.length_put)
qed


section \<open>The operations\<close>

definition fec_core :: "('a, 'd, 'x) fec_receiver \<Rightarrow> bool" where
  "fec_core r \<longleftrightarrow> config_fits (fec_config r)
     \<and> fec_tables (fec_config r) (flows r) (objects r) (buffered_object_bytes r) (buffered_datagrams r)"

lemma fec_coreD:
  assumes "fec_core r"
  shows "config_fits (fec_config r)" "table_ok (flows r)" "table_ok (objects r)"
    "map_of (flows r) flow = Some st \<Longrightarrow> flow_ok (fec_config r) (objects r) flow st"
    "map_of (objects r) key = Some os \<Longrightarrow> object_ok (fec_config r) os \<and> map_of (flows r) (ok_flow key) \<noteq> None"
    "buffered_object_bytes r = tsum (transfer_length \<circ> snd) (objects r)"
    "buffered_datagrams r = tsum (accepted_datagrams \<circ> snd) (objects r)"
    "fec_tables (fec_config r) (flows r) (objects r) (buffered_object_bytes r) (buffered_datagrams r)"
  using assms by (simp_all add: fec_core_def fec_tables_def)

lemma fec_core_new: "config_fits cfg \<Longrightarrow> fec_core (with_config cfg)"
  by (simp add: fec_core_def with_config_def fec_tables_empty)

lemma fec_count_simps [simp]:
  "fec_config (fec_count f r) = fec_config r" "flows (fec_count f r) = flows r"
  "objects (fec_count f r) = objects r" "buffered_object_bytes (fec_count f r) = buffered_object_bytes r"
  "buffered_datagrams (fec_count f r) = buffered_datagrams r" "last_error (fec_count f r) = last_error r"
  "next_expiry_scan (fec_count f r) = next_expiry_scan r" "fec_counters (fec_count f r) = f (fec_counters r)"
  by (simp_all add: fec_count_def)

lemma fec_core_cong:
  "fec_config r' = fec_config r \<Longrightarrow> flows r' = flows r \<Longrightarrow> objects r' = objects r \<Longrightarrow>
   buffered_object_bytes r' = buffered_object_bytes r \<Longrightarrow> buffered_datagrams r' = buffered_datagrams r \<Longrightarrow>
   fec_core r' = fec_core r"
  by (simp add: fec_core_def)

lemma fec_core_count [simp]: "fec_core (fec_count f r) = fec_core r"
  by (rule fec_core_cong) simp_all

lemma reject_core [simp]: "fec_core (fst (reject e r)) = fec_core r"
  by (rule fec_core_cong) (simp_all add: reject_def)

lemma with_flow_Some:
  "with_flow flow g r = Some r' \<longleftrightarrow>
     (\<exists>st. map_of (flows r) flow = Some st \<and> r' = r\<lparr>flows := tput flow (g st) (flows r)\<rparr>)"
  by (auto simp: with_flow_def split: option.splits)

lemma fec_core_with_flow:
  assumes "fec_core r" and "with_flow flow g r = Some r'"
    and "\<And>st. map_of (flows r) flow = Some st \<Longrightarrow> flow_ok (fec_config r) (objects r) flow st \<Longrightarrow>
      flow_ok (fec_config r) (objects r) flow (g st)"
  shows "fec_core r'"
  using assms fec_coreD(4) [OF assms(1)]
  by (auto simp: with_flow_Some fec_core_def intro!: fec_tables_flow)

text \<open>Removing an object, when its flow exists.\<close>

lemma remove_object_eq:
  assumes "fec_core r" and "map_of (objects r) key = Some os"
  obtains st where "map_of (flows r) (ok_flow key) = Some st"
    "remove_object key r = (r\<lparr>objects := tdel key (objects r),
       buffered_object_bytes := buffered_object_bytes r - transfer_length os,
       buffered_datagrams := buffered_datagrams r - accepted_datagrams os,
       flows := tput (ok_flow key) (st\<lparr>active_objects := active_objects st - 1\<rparr>) (flows r)\<rparr>, Some os)"
proof -
  obtain st where "map_of (flows r) (ok_flow key) = Some st"
    using fec_coreD(5) [OF assms] by auto
  then show ?thesis
    using assms(2) by (intro that [of st]) (simp_all add: remove_object_def with_flow_def)
qed

lemma fec_core_remove:
  assumes "fec_core r"
  shows "fec_core (fst (remove_object key r))"
proof (cases "map_of (objects r) key")
  case None
  then show ?thesis using assms by (simp add: remove_object_def)
next
  case (Some os)
  obtain st where st: "map_of (flows r) (ok_flow key) = Some st"
    and eq: "remove_object key r = (r\<lparr>objects := tdel key (objects r),
       buffered_object_bytes := buffered_object_bytes r - transfer_length os,
       buffered_datagrams := buffered_datagrams r - accepted_datagrams os,
       flows := tput (ok_flow key) (st\<lparr>active_objects := active_objects st - 1\<rparr>) (flows r)\<rparr>, Some os)"
    by (rule remove_object_eq [OF assms Some])
  show ?thesis
    using fec_tables_remove [OF fec_coreD(8) [OF assms] Some st] fec_coreD(1) [OF assms]
    by (simp add: eq fec_core_def)
qed

lemma remove_object_frame [simp]:
  "fec_config (fst (remove_object key r)) = fec_config r"
  "fec_counters (fst (remove_object key r)) = fec_counters r"
  "next_expiry_scan (fst (remove_object key r)) = next_expiry_scan r"
  "objects (fst (remove_object key r)) = tdel key (objects r)"
  "snd (remove_object key r) = map_of (objects r) key"
  by (auto simp: remove_object_def with_flow_def Let_def split: option.splits)

lemma remove_object_flows:
  assumes "fec_core r"
  shows "map_of (flows (fst (remove_object key r))) f =
    map_option (\<lambda>st. st\<lparr>active_objects := tsum (in_flow f) (tdel key (objects r))\<rparr>) (map_of (flows r) f)"
proof -
  let ?r = "fst (remove_object key r)"
  have active: "map_of (flows ?r) f = Some st \<Longrightarrow> active_objects st = tsum (in_flow f) (tdel key (objects r))" for st
    using fec_coreD(4) [OF fec_core_remove [OF assms, of key]] by (simp add: flow_ok_def)
  have "\<exists>n. map_of (flows ?r) f = map_option (\<lambda>st. st\<lparr>active_objects := n\<rparr>) (map_of (flows r) f)"
  proof (cases "map_of (objects r) key")
    case None
    then show ?thesis
      by (intro exI [of _ "case map_of (flows r) f of None \<Rightarrow> 0 | Some st \<Rightarrow> active_objects st"])
        (auto simp: remove_object_def split: option.splits)
  next
    case (Some os)
    obtain st where st: "map_of (flows r) (ok_flow key) = Some st"
      and eq: "flows ?r = tput (ok_flow key) (st\<lparr>active_objects := active_objects st - 1\<rparr>) (flows r)"
      by (rule remove_object_eq [OF assms Some]) simp
    show ?thesis
      by (rule exI [of _ "if f = ok_flow key then active_objects st - 1
            else case map_of (flows r) f of None \<Rightarrow> 0 | Some st \<Rightarrow> active_objects st"])
        (auto simp: eq st ht.map_of_put fec_coreD(2) [OF assms] split: option.splits)
  qed
  then obtain n where n: "map_of (flows ?r) f = map_option (\<lambda>st. st\<lparr>active_objects := n\<rparr>) (map_of (flows r) f)"
    by blast
  show ?thesis
    using active n by (cases "map_of (flows r) f") auto
qed

lemma remove_object_flow_keys: "keys (flows (fst (remove_object key r))) = keys (flows r)"
proof (cases "\<exists>os st. map_of (objects r) key = Some os \<and> map_of (flows r) (ok_flow key) = Some st")
  case True
  then obtain os st where *: "map_of (objects r) key = Some os" "map_of (flows r) (ok_flow key) = Some st" by blast
  then have "ok_flow key \<in> set (keys (flows r))" by (metis map_of_SomeD fst_conv image_eqI set_map)
  then show ?thesis using * by (simp add: remove_object_def with_flow_def Let_def update_keys)
next
  case False
  then show ?thesis
    by (auto simp: remove_object_def with_flow_def Let_def split: option.splits)
qed

section \<open>Expiry\<close>

lemma tdel_filter: "tdel k m = filter (\<lambda>p. fst p \<noteq> k) m"
  unfolding AList.delete_eq by (rule filter_cong) auto

text \<open>Removing a list of objects filters the table, releases their bytes and datagrams, and leaves
  each flow with the number of its remaining objects.\<close>

lemma expire_objects_eq:
  assumes "fec_core r" and "distinct ks" and "set ks \<subseteq> set (keys (objects r))"
    and "exp_released_object_bytes e + buffered_object_bytes r \<le> usize_max"
    and "exp_released_datagrams e + buffered_datagrams r \<le> usize_max"
    and "expire_objects ks r e = (r', e')"
  shows "fec_core r' \<and> objects r' = filter (\<lambda>p. fst p \<notin> set ks) (objects r)
    \<and> fec_config r' = fec_config r \<and> fec_counters r' = fec_counters r \<and> next_expiry_scan r' = next_expiry_scan r
    \<and> (\<forall>f. map_of (flows r') f =
         map_option (\<lambda>st. st\<lparr>active_objects := tsum (in_flow f) (objects r')\<rparr>) (map_of (flows r) f))
    \<and> keys (flows r') = keys (flows r)
    \<and> exp_objects e' = exp_objects e + length ks \<and> exp_flows e' = exp_flows e
    \<and> exp_released_object_bytes e' + buffered_object_bytes r' = exp_released_object_bytes e + buffered_object_bytes r
    \<and> exp_released_datagrams e' + buffered_datagrams r' = exp_released_datagrams e + buffered_datagrams r"
  using assms
proof (induction ks arbitrary: r e)
  case Nil
  then show ?case
    using fec_coreD(4) [OF Nil.prems(1)]
    by (auto simp: flow_ok_def option.map_ident_strong split: option.splits intro!: option.map_ident_strong [symmetric])
next
  case (Cons key ks)
  define r1 where "r1 = fst (remove_object key r)"
  obtain os where os: "map_of (objects r) key = Some os"
    using Cons.prems(3) by (metis insert_subset list.simps(15) map_of_eq_None_iff not_None_eq set_map)
  define e1 where "e1 = e\<lparr>exp_objects := exp_objects e + 1,
     exp_released_object_bytes := sat_add (exp_released_object_bytes e) (transfer_length os),
     exp_released_datagrams := sat_add (exp_released_datagrams e) (accepted_datagrams os)\<rparr>"
  have rm: "remove_object key r = (r1, Some os)"
    using os by (simp add: r1_def prod_eq_iff)
  have core1: "fec_core r1" unfolding r1_def by (rule fec_core_remove [OF Cons.prems(1)])
  have obj1: "objects r1 = tdel key (objects r)" by (simp add: r1_def)
  have b1: "buffered_object_bytes r = transfer_length os + buffered_object_bytes r1"
    "buffered_datagrams r = accepted_datagrams os + buffered_datagrams r1"
    using fec_coreD(3,6,7) [OF Cons.prems(1)] fec_coreD(6,7) [OF core1] os
      ht.tsum_tdel [of "objects r" key os "transfer_length \<circ> snd"]
      ht.tsum_tdel [of "objects r" key os "accepted_datagrams \<circ> snd"] by (simp_all add: obj1)
  have e1: "exp_released_object_bytes e1 = exp_released_object_bytes e + transfer_length os"
    "exp_released_datagrams e1 = exp_released_datagrams e + accepted_datagrams os"
    using Cons.prems(4,5) b1 by (auto simp: e1_def sat_add_exact)
  have sub: "distinct ks" "set ks \<subseteq> set (keys (objects r1))"
    using Cons.prems(2,3) by (auto simp: obj1 delete_keys simp del: set_map)
  have rest: "expire_objects ks r1 e1 = (r', e')"
    using Cons.prems(6) rm by (simp add: e1_def)
  have lim: "exp_released_object_bytes e1 + buffered_object_bytes r1 \<le> usize_max"
    "exp_released_datagrams e1 + buffered_datagrams r1 \<le> usize_max"
    using Cons.prems(4,5) b1 e1 by simp_all
  note IH = Cons.IH [OF core1 sub lim rest]
  have fl: "map_of (flows r') f =
      map_option (\<lambda>st. st\<lparr>active_objects := tsum (in_flow f) (objects r')\<rparr>) (map_of (flows r) f)" for f
    using IH remove_object_flows [OF Cons.prems(1), of key f] by (simp add: r1_def option.map_comp comp_def)
  have "objects r' = filter (\<lambda>p. fst p \<notin> set (key # ks)) (objects r)"
    using IH by (auto simp: obj1 tdel_filter intro: filter_cong)
  moreover have "fec_config r1 = fec_config r" "fec_counters r1 = fec_counters r"
    "next_expiry_scan r1 = next_expiry_scan r" by (simp_all add: r1_def)
  moreover have "keys (flows r1) = keys (flows r)" unfolding r1_def by (rule remove_object_flow_keys)
  ultimately show ?case
    using IH fl b1 e1 by (simp add: e1_def)
qed

lemma expire_flows_eq:
  assumes "fec_core r" and "distinct fs"
    and "\<forall>f \<in> set fs. \<exists>st. map_of (flows r) f = Some st \<and> active_objects st = 0"
    and "expire_flows fs r e = (r', e')"
  shows "fec_core r' \<and> flows r' = filter (\<lambda>p. fst p \<notin> set fs) (flows r)
    \<and> r' = r\<lparr>flows := flows r'\<rparr> \<and> e' = e\<lparr>exp_flows := exp_flows e + length fs\<rparr>"
  using assms
proof (induction fs arbitrary: r e)
  case Nil
  then show ?case by simp
next
  case (Cons f fs)
  obtain st where st: "map_of (flows r) f = Some st" "active_objects st = 0" using Cons.prems(3) by auto
  define r1 where "r1 = r\<lparr>flows := tdel f (flows r)\<rparr>"
  have core1: "fec_core r1"
    using fec_tables_drop_flow [OF fec_coreD(8) [OF Cons.prems(1)] st] fec_coreD(1) [OF Cons.prems(1)]
    by (simp add: r1_def fec_core_def)
  have rest: "expire_flows fs r1 (e\<lparr>exp_flows := exp_flows e + 1\<rparr>) = (r', e')"
    using Cons.prems(4) st by (simp add: r1_def)
  have sub: "distinct fs" "\<forall>g \<in> set fs. \<exists>st. map_of (flows r1) g = Some st \<and> active_objects st = 0"
    using Cons.prems(2,3) by (auto simp: r1_def)
  note IH = Cons.IH [OF core1 sub rest]
  have "flows r' = filter (\<lambda>p. fst p \<notin> set (f # fs)) (flows r)"
    using IH by (auto simp: r1_def tdel_filter intro: filter_cong)
  moreover have "r' = r\<lparr>flows := flows r'\<rparr>"
    using IH unfolding r1_def by (metis fec_receiver.fold_congs(2) fec_receiver.surjective fec_receiver.update_convs(2))
  moreover have "e' = e\<lparr>exp_flows := exp_flows e + length (f # fs)\<rparr>" "fec_core r'"
    using IH by simp_all
  ultimately show ?case by blast
qed

definition idle_object :: "nat \<Rightarrow> ('a, 'd, 'x) fec_receiver \<Rightarrow> 'd object_state \<Rightarrow> bool" where
  "idle_object now r st \<longleftrightarrow> object_inactivity_timeout (fec_config r) \<le> elapsed now (obj_last_activity st)"

definition idle_flow :: "nat \<Rightarrow> ('a, 'd, 'x) fec_receiver \<Rightarrow> flow_state \<Rightarrow> bool" where
  "idle_flow now r st \<longleftrightarrow> flow_inactivity_timeout (fec_config r) \<le> elapsed now (flow_last_activity st)"

text \<open>The scan in its two phases: idle objects first, then idle flows without objects.\<close>

lemma scan_objects_phase:
  assumes core: "fec_core r"
    and x: "expire_objects (keys (filter (\<lambda>(k, st). idle_object now r st) (objects r)))
      (fec_count g r) fec_expiry_default = (r2, e2)"
  shows "fec_core r2 \<and> fec_config r2 = fec_config r \<and> fec_counters r2 = g (fec_counters r)
    \<and> objects r2 = filter (\<lambda>(k, st). \<not> idle_object now r st) (objects r)
    \<and> (\<forall>f. map_of (flows r2) f =
         map_option (\<lambda>st. st\<lparr>active_objects := tsum (in_flow f) (objects r2)\<rparr>) (map_of (flows r) f))
    \<and> length (objects r) = exp_objects e2 + length (objects r2) \<and> length (flows r2) = length (flows r)
    \<and> exp_flows e2 = 0
    \<and> buffered_object_bytes r = exp_released_object_bytes e2 + buffered_object_bytes r2
    \<and> buffered_datagrams r = exp_released_datagrams e2 + buffered_datagrams r2"
proof -
  let ?ks = "keys (filter (\<lambda>(k, st). idle_object now r st) (objects r))"
  let ?r1 = "fec_count g r"
  have ks: "distinct ?ks" "set ?ks \<subseteq> set (keys (objects ?r1))"
    using fec_coreD(3) [OF core] by (auto simp: distinct_map_filter)
  have lim: "exp_released_object_bytes fec_expiry_default + buffered_object_bytes ?r1 \<le> usize_max"
    "exp_released_datagrams fec_expiry_default + buffered_datagrams ?r1 \<le> usize_max"
    using core by (auto simp: fec_core_def fec_tables_def config_fits_def fec_expiry_default_def)
  have "fec_core ?r1" using core by simp
  note X = expire_objects_eq [OF this ks lim x]
  have obj: "objects r2 = filter (\<lambda>(k, st). \<not> idle_object now r st) (objects r)"
    using X filter_keys_notin [OF fec_coreD(3) [OF core], of "\<lambda>(k, st). idle_object now r st"]
    by (simp add: case_prod_beta')
  moreover have "length (objects r) = exp_objects e2 + length (objects r2)"
    using X length_filter_split [of "objects r" "\<lambda>(k, st). idle_object now r st"]
    by (simp add: obj fec_expiry_default_def case_prod_beta')
  moreover have "length (flows r2) = length (flows r)"
    using X by (metis fec_count_simps(2) length_map)
  ultimately show ?thesis using X by (simp add: fec_expiry_default_def)
qed

lemma scan_flows_phase:
  assumes core: "fec_core r2"
    and y: "expire_flows (keys (filter (\<lambda>(k, st). active_objects st = 0 \<and> idle_flow now r2 st) (flows r2)))
      r2 e2 = (r3, e3)"
  shows "fec_core r3 \<and> r3 = r2\<lparr>flows := flows r3\<rparr>
    \<and> (\<forall>f. map_of (flows r3) f = (case map_of (flows r2) f of None \<Rightarrow> None
         | Some st \<Rightarrow> if active_objects st = 0 \<and> idle_flow now r2 st then None else Some st))
    \<and> e3 = e2\<lparr>exp_flows := exp_flows e2 + (length (flows r2) - length (flows r3))\<rparr>
    \<and> length (flows r3) \<le> length (flows r2)"
proof -
  let ?P = "\<lambda>(k, st). active_objects st = 0 \<and> idle_flow now r2 st"
  let ?fs = "keys (filter ?P (flows r2))"
  have fs: "distinct ?fs" "\<forall>f \<in> set ?fs. \<exists>st. map_of (flows r2) f = Some st \<and> active_objects st = 0"
    using fec_coreD(2) [OF core] by (auto simp: distinct_map_filter map_of_in_set)
  note Y = expire_flows_eq [OF core fs y]
  have fl: "flows r3 = filter (\<lambda>(k, st). \<not> (active_objects st = 0 \<and> idle_flow now r2 st)) (flows r2)"
    using Y filter_keys_notin [OF fec_coreD(2) [OF core], of ?P] by (simp add: case_prod_beta')
  have look: "map_of (flows r3) f = (case map_of (flows r2) f of None \<Rightarrow> None
      | Some st \<Rightarrow> if active_objects st = 0 \<and> idle_flow now r2 st then None else Some st)" for f
    unfolding fl map_of_filter_table [OF fec_coreD(2) [OF core]] by (auto split: option.splits)
  have len: "length (flows r2) = length ?fs + length (flows r3)"
    using length_filter_split [of "flows r2" ?P] by (simp add: fl case_prod_beta')
  then have "e3 = e2\<lparr>exp_flows := exp_flows e2 + (length (flows r2) - length (flows r3))\<rparr>"
    "length (flows r3) \<le> length (flows r2)"
    using Y by simp_all
  then show ?thesis using Y look by blast
qed

lemma scan_inactive:
  assumes core: "fec_core r" and scan: "scan_inactive_at now r = (r', e)"
  shows "fec_core r' \<and> fec_config r' = fec_config r
    \<and> objects r' = filter (\<lambda>(k, st). \<not> idle_object now r st) (objects r)
    \<and> (\<forall>f. map_of (flows r') f = (case map_of (flows r) f of None \<Rightarrow> None
       | Some st \<Rightarrow> if tsum (in_flow f) (objects r') = 0 \<and> idle_flow now r st then None
                   else Some (st\<lparr>active_objects := tsum (in_flow f) (objects r')\<rparr>)))
    \<and> length (objects r) = exp_objects e + length (objects r')
    \<and> length (flows r) = exp_flows e + length (flows r')
    \<and> buffered_object_bytes r = exp_released_object_bytes e + buffered_object_bytes r'
    \<and> buffered_datagrams r = exp_released_datagrams e + buffered_datagrams r'
    \<and> fec_counters r' = (fec_counters r)\<lparr>expiry_scans := sat_add (expiry_scans (fec_counters r)) 1,
       objects_expired := sat_add (objects_expired (fec_counters r)) (exp_objects e),
       flows_expired := sat_add (flows_expired (fec_counters r)) (exp_flows e)\<rparr>"
proof -
  let ?g = "\<lambda>c. c\<lparr>expiry_scans := sat_add (expiry_scans c) 1\<rparr>"
  obtain r2 e2 where x: "expire_objects (keys (filter (\<lambda>(k, st). idle_object now r st) (objects r)))
      (fec_count ?g r) fec_expiry_default = (r2, e2)" by fastforce
  note X = scan_objects_phase [OF core x]
  obtain r3 e3 where y: "expire_flows (keys (filter (\<lambda>(k, st). active_objects st = 0 \<and> idle_flow now r2 st)
      (flows r2))) r2 e2 = (r3, e3)" by fastforce
  have "fec_core r2" using X by blast
  note Y = scan_flows_phase [OF this y]
  have eq: "r' = fec_count (\<lambda>c. c\<lparr>objects_expired := sat_add (objects_expired c) (exp_objects e3),
      flows_expired := sat_add (flows_expired c) (exp_flows e3)\<rparr>) r3" "e = e3"
    using scan x y by (auto simp: scan_inactive_at_def Let_def idle_object_def idle_flow_def)
  from Y obtain fl where r3: "r3 = r2\<lparr>flows := fl\<rparr>" by blast
  have "idle_flow now r2 = idle_flow now r" using X by (simp add: idle_flow_def fun_eq_iff)
  then have "map_of (flows r') f = (case map_of (flows r) f of None \<Rightarrow> None
       | Some st \<Rightarrow> if tsum (in_flow f) (objects r') = 0 \<and> idle_flow now r st then None
                   else Some (st\<lparr>active_objects := tsum (in_flow f) (objects r')\<rparr>))" for f
    using X Y by (auto simp: eq(1) r3 idle_flow_def split: option.splits)
  then show ?thesis
    using X Y by (simp add: eq r3)
qed

lemma schedule_core [simp]:
  "fec_core (schedule_next_expiry_scan lib now r) = fec_core r"
  "fec_config (schedule_next_expiry_scan lib now r) = fec_config r"
  "objects (schedule_next_expiry_scan lib now r) = objects r"
  "flows (schedule_next_expiry_scan lib now r) = flows r"
  "fec_counters (schedule_next_expiry_scan lib now r) = fec_counters r"
  by (simp_all add: schedule_next_expiry_scan_def Let_def fec_core_def)

text \<open>The counters of traffic, as opposed to those of expiry.\<close>

definition traffic :: "fec_counters \<Rightarrow> nat list" where
  "traffic c = [datagrams_received c, datagrams_accepted c, datagrams_rejected c, datagrams_buffered c,
     duplicate_datagrams c, objects_decoded c]"

lemma expire_due:
  assumes "fec_core r"
  shows "fec_core (fst (expire_inactive_if_due lib now r))"
    "fec_config (fst (expire_inactive_if_due lib now r)) = fec_config r"
    "traffic (fec_counters (fst (expire_inactive_if_due lib now r))) = traffic (fec_counters r)"
proof -
  let ?r = "fst (expire_inactive_if_due lib now r)"
  obtain r1 e where s: "scan_inactive_at now r = (r1, e)" by fastforce
  note S = scan_inactive [OF assms s]
  show "fec_core ?r" "fec_config ?r = fec_config r"
    using S assms s by (simp_all add: expire_inactive_if_due_def expire_inactive_at_def)
  show "traffic (fec_counters ?r) = traffic (fec_counters r)"
    using S s by (auto simp: expire_inactive_if_due_def expire_inactive_at_def traffic_def)
qed

section \<open>Accepting a datagram\<close>

lemma flow_ok_touch:
  "flow_ok cfg ob flow st \<Longrightarrow> flow_ok cfg ob flow
     (touch_flow now s (max_tracked_sequence_gaps_per_flow cfg) st)"
  by (simp add: flow_ok_def touch_flow_def completed_ok_def)

lemma touch_flow_simps [simp]:
  "active_objects (touch_flow now s g st) = active_objects st" "completed (touch_flow now s g st) = completed st"
  "completed_order (touch_flow now s g st) = completed_order st"
  by (simp_all add: touch_flow_def)

lemma push_duplicate_ok:
  assumes "fec_core r" and "is_completed flow (hdr_block_id h) r"
  obtains r' where
    "push_duplicate flow h now r = Some (r', Inr (Duplicate (flow_stream_id flow) (hdr_block_id h)))"
    "fec_core r'" "objects r' = objects r" "fec_config r' = fec_config r"
    "fec_counters r' = (fec_counters r)\<lparr>datagrams_accepted := sat_add (datagrams_accepted (fec_counters r)) 1,
       duplicate_datagrams := sat_add (duplicate_datagrams (fec_counters r)) 1\<rparr>"
proof -
  obtain st where st: "map_of (flows r) flow = Some st"
    using assms(2) by (auto simp: is_completed_def split: option.splits)
  let ?g = "touch_flow now (hdr_packet_sequence h) (max_tracked_sequence_gaps_per_flow (fec_config r))"
  let ?r = "r\<lparr>flows := tput flow (?g st) (flows r)\<rparr>"
  have w: "with_flow flow ?g r = Some ?r"
    using st by (simp add: with_flow_def)
  have "fec_core ?r"
    by (rule fec_core_with_flow [OF assms(1) w]) (rule flow_ok_touch)
  then show ?thesis
    using w by (intro that [of "fec_count (\<lambda>c. c\<lparr>datagrams_accepted := sat_add (datagrams_accepted c) 1,
      duplicate_datagrams := sat_add (duplicate_datagrams c) 1\<rparr>) ?r"]) (simp_all add: push_duplicate_def)
qed

text \<open>A reserved object satisfies the invariant, is new, and its flow exists.\<close>

lemma reserve_object_Inr:
  assumes core: "fec_core r" and new: "map_of (objects r) key = None"
    and small: "n \<le> max_object_bytes (fec_config r)"
    and fresh: "\<not> is_completed (ok_flow key) (ok_block_id key) r"
    and res: "reserve_object lib key n now r = Inr r'"
  shows "fec_core r' \<and> map_of (objects r') key = Some \<lparr>decoder = decoder_new lib, transfer_length = n,
      accepted_datagrams = 0, obj_last_activity = now\<rparr>
    \<and> fec_config r' = fec_config r \<and> fec_counters r' = fec_counters r
    \<and> buffered_datagrams r' = buffered_datagrams r \<and> \<not> is_completed (ok_flow key) (ok_block_id key) r'"
proof -
  let ?cfg = "fec_config r" and ?st = "get_or (flow_new now) (flows r) (ok_flow key)"
  let ?os = "\<lparr>decoder = decoder_new lib, transfer_length = n, accepted_datagrams = 0, obj_last_activity = now\<rparr>"
  note T = fec_coreD(8) [OF core]
  have limits: "map_of (flows r) (ok_flow key) = None \<Longrightarrow> length (flows r) < max_flows ?cfg"
    "length (objects r) < max_active_objects ?cfg" "active_objects ?st < max_active_objects_per_flow ?cfg"
    "buffered_object_bytes r + transfer_length ?os \<le> max_buffered_object_bytes ?cfg"
    using res by (auto simp: reserve_object_def Let_def not_le split: if_splits option.splits)
  have fresh': "ok_block_id key \<notin> completed ?st"
    using fresh by (auto simp: is_completed_def get_or_def flow_new_def split: option.splits)
  have os: "accepted_datagrams ?os = 0" "object_ok ?cfg ?os" using small by (simp_all add: object_ok_def)
  have sat: "sat_add (active_objects ?st) 1 = Suc (active_objects ?st)"
    using limits(3) fec_coreD(1) [OF core] by (simp add: sat_add_exact config_fits_def)
  have r': "r' = r\<lparr>flows := tput (ok_flow key) (?st\<lparr>active_objects := Suc (active_objects ?st)\<rparr>) (flows r),
      objects := tput key ?os (objects r), buffered_object_bytes := buffered_object_bytes r + n\<rparr>"
    using res sat by (auto simp: reserve_object_def Let_def split: if_splits option.splits)
  show ?thesis
    using fec_tables_reserve [OF T new limits refl fresh' os] fec_coreD(1-3) [OF core] fresh'
    by (simp add: r' fec_core_def ht.map_of_put is_completed_def)
qed

lemma feed_object_ok:
  assumes core: "fec_core r" and os: "map_of (objects r) key = Some os"
    and room: "accepted_datagrams os < max_datagrams_per_object (fec_config r)"
      "buffered_datagrams r < max_buffered_datagrams (fec_config r)"
  obtains r' where
    "feed_object lib key dg h now r = Some (r', snd (push_datagram lib (decoder os) dg))"
    "fec_core r'" "fec_config r' = fec_config r" "fec_counters r' = fec_counters r"
    "is_completed (ok_flow key) (ok_block_id key) r' = is_completed (ok_flow key) (ok_block_id key) r"
    "map_of (objects r') key \<noteq> None"
proof -
  let ?g = "touch_flow now (hdr_packet_sequence h) (max_tracked_sequence_gaps_per_flow (fec_config r))"
  obtain st where st: "map_of (flows r) (ok_flow key) = Some st"
    using fec_coreD(5) [OF core os] by auto
  let ?r1 = "r\<lparr>flows := tput (ok_flow key) (?g st) (flows r)\<rparr>"
  have w: "with_flow (ok_flow key) ?g r = Some ?r1" using st by (simp add: with_flow_def)
  have core1: "fec_core ?r1"
    by (rule fec_core_with_flow [OF core w]) (rule flow_ok_touch)
  let ?os = "os\<lparr>decoder := fst (push_datagram lib (decoder os) dg), obj_last_activity := now,
    accepted_datagrams := Suc (accepted_datagrams os)\<rparr>"
  let ?r2 = "?r1\<lparr>objects := tput key ?os (objects r), buffered_datagrams := Suc (buffered_datagrams r)\<rparr>"
  have sat: "sat_add (accepted_datagrams os) 1 = Suc (accepted_datagrams os)"
    "sat_add (buffered_datagrams r) 1 = Suc (buffered_datagrams r)"
    using room fec_coreD(1) [OF core] by (simp_all add: sat_add_exact config_fits_def)
  have "fec_core ?r2"
    using fec_tables_feed [OF fec_coreD(8) [OF core1], of key os ?os] os room fec_coreD(1) [OF core]
    by (simp add: fec_core_def)
  moreover have "feed_object lib key dg h now r = Some (?r2, snd (push_datagram lib (decoder os) dg))"
    using w os sat by (simp add: feed_object_def case_prod_beta)
  ultimately show ?thesis
    using fec_coreD(2,3) [OF core] st
    by (intro that [of ?r2]) (simp_all add: is_completed_def ht.map_of_put)
qed

text \<open>The counter step of an answer.\<close>

fun outcome_tally :: "(push_outcome, 'x receive_error) result \<Rightarrow> fec_counters \<Rightarrow> fec_counters" where
  "outcome_tally (Inl e) c = c\<lparr>datagrams_rejected := sat_add (datagrams_rejected c) 1\<rparr>"
| "outcome_tally (Inr (Buffered s b)) c = c\<lparr>datagrams_accepted := sat_add (datagrams_accepted c) 1,
     datagrams_buffered := sat_add (datagrams_buffered c) 1\<rparr>"
| "outcome_tally (Inr (Decoded b p)) c = c\<lparr>datagrams_accepted := sat_add (datagrams_accepted c) 1,
     objects_decoded := sat_add (objects_decoded c) 1\<rparr>"
| "outcome_tally (Inr (Duplicate s b)) c = c\<lparr>datagrams_accepted := sat_add (datagrams_accepted c) 1,
     duplicate_datagrams := sat_add (duplicate_datagrams c) 1\<rparr>"

lemma reject_parts [simp]:
  "snd (reject e r) = Inl e" "fec_counters (fst (reject e r)) = outcome_tally (Inl e) (fec_counters r)"
  "fec_config (fst (reject e r)) = fec_config r"
  by (simp_all add: reject_def)

lemma fec_core_remove_empty_flow:
  assumes "fec_core r"
  shows "fec_core (remove_empty_flow f r)"
  using assms fec_tables_drop_flow [OF fec_coreD(8) [OF assms], of f]
  by (auto simp: remove_empty_flow_def fec_core_def split: option.splits)

lemma remove_empty_flow_frame [simp]:
  "fec_config (remove_empty_flow f r) = fec_config r" "fec_counters (remove_empty_flow f r) = fec_counters r"
  "objects (remove_empty_flow f r) = objects r"
  by (simp_all add: remove_empty_flow_def)

text \<open>What the last step of a push answers, and that it cannot panic.\<close>

definition answer_of :: "'a object_key \<Rightarrow> (bytes option, 'x) result \<Rightarrow> (push_outcome, 'x receive_error) result" where
  "answer_of key res = (case res of
     Inr (Some payload) \<Rightarrow> Inr (Decoded (ok_block_id key) (DecodedUdpFecPayload (flow_stream_id (ok_flow key)) payload))
   | Inr None \<Rightarrow> Inr (Buffered (flow_stream_id (ok_flow key)) (ok_block_id key))
   | Inl e \<Rightarrow> Inl (Fec (flow_stream_id (ok_flow key)) e))"

lemma finish_push_ok:
  assumes core: "fec_core r" and obj: "map_of (objects r) key \<noteq> None"
  obtains r' where "finish_push key nf res r = Some (r', answer_of key res)" "fec_core r'"
    "fec_config r' = fec_config r" "fec_counters r' = outcome_tally (answer_of key res) (fec_counters r)"
    "\<And>p. res = Inr (Some p) \<Longrightarrow> max_completed_objects_per_flow (fec_config r) \<noteq> 0 \<Longrightarrow>
       is_completed (ok_flow key) (ok_block_id key) r'"
proof (cases "\<exists>p. res = Inr (Some p)")
  case False
  then show ?thesis
  proof (cases res)
    case (Inl e)
    let ?r = "fst (reject (Fec (flow_stream_id (ok_flow key)) e)
      (if nf then remove_empty_flow (ok_flow key) (fst (remove_object key r)) else fst (remove_object key r)))"
    show ?thesis
      using Inl core by (intro that [of ?r])
        (simp_all add: finish_push_def answer_of_def fec_core_remove_empty_flow fec_core_remove prod_eq_iff)
  next
    case (Inr x)
    then have "res = Inr None" using False by (cases x) auto
    then show ?thesis
      using core by (intro that [of "fec_count (outcome_tally (answer_of key res)) r"])
        (simp_all add: finish_push_def answer_of_def fec_count_def fec_core_def)
  qed
next
  case True
  then obtain p where res: "res = Inr (Some p)" by blast
  let ?m = "max_completed_objects_per_flow (fec_config r)" and ?r1 = "fst (remove_object key r)"
  have core1: "fec_core ?r1" by (rule fec_core_remove [OF core])
  obtain st where st: "map_of (flows ?r1) (ok_flow key) = Some st"
    using fec_coreD(5) [OF core] obj remove_object_flows [OF core, of key "ok_flow key"] by fastforce
  let ?r2 = "?r1\<lparr>flows := tput (ok_flow key) (mark_completed (ok_block_id key) ?m st) (flows ?r1)\<rparr>"
  have w: "with_flow (ok_flow key) (mark_completed (ok_block_id key) ?m) ?r1 = Some ?r2"
    using st by (simp add: with_flow_def)
  have ok: "completed_ok ?m st" using fec_coreD(4) [OF core1 st] by (simp add: flow_ok_def)
  have core2: "fec_core ?r2"
  proof (rule fec_core_with_flow [OF core1 w])
    fix s
    assume s: "flow_ok (fec_config ?r1) (objects ?r1) (ok_flow key) s"
    note mk = mark_completed_completed(1,2) [of ?m s "ok_block_id key"]
    have "map_of (objects ?r1) (ObjectKey (ok_flow key) b) = None"
      if "b \<in> completed (mark_completed (ok_block_id key) ?m s)" for b
    proof -
      have "b = ok_block_id key \<or> b \<in> completed s" using mk(2) s that by (auto simp: flow_ok_def)
      then show ?thesis using s by (cases key) (auto simp: flow_ok_def)
    qed
    then show "flow_ok (fec_config ?r1) (objects ?r1) (ok_flow key) (mark_completed (ok_block_id key) ?m s)"
      using mk(1) s by (simp add: flow_ok_def)
  qed
  show ?thesis
    using w core2 fec_coreD(2) [OF core1] mark_completed_completed(3) [OF ok]
    by (intro that [of "fec_count (outcome_tally (answer_of key res)) ?r2"])
      (simp_all add: res finish_push_def answer_of_def fec_count_def is_completed_def ht.map_of_put
        fec_core_def)
qed

text \<open>What every push satisfies: a table invariant, one counter step, and, for a decoded object, that the
  flow remembers it.\<close>

definition push_spec ::
  "'a flow_key \<Rightarrow> u32 \<Rightarrow> ('a, 'd, 'x) fec_receiver \<Rightarrow> ('a, 'd, 'x) fec_receiver
     \<Rightarrow> (push_outcome, 'x receive_error) result \<Rightarrow> bool" where
  "push_spec flow block r r' res \<longleftrightarrow>
     fec_core r' \<and> fec_config r' = fec_config r \<and> fec_counters r' = outcome_tally res (fec_counters r)
     \<and> (\<forall>b p. res = Inr (Decoded b p) \<longrightarrow> b = block \<and> dec_stream_id p = flow_stream_id flow
          \<and> (max_completed_objects_per_flow (fec_config r) \<noteq> 0 \<longrightarrow> is_completed flow b r'))"

lemma push_spec_reject: "fec_core r0 \<Longrightarrow> fec_config r0 = fec_config r \<Longrightarrow> fec_counters r0 = fec_counters r \<Longrightarrow>
  \<exists>r' res. Some (reject e r0) = Some (r', res) \<and> push_spec flow block r r' res \<and> res = Inl e"
  by (intro exI [of _ "fst (reject e r0)"] exI [of _ "Inl e"]) (simp add: push_spec_def prod_eq_iff)

lemma push_object_feed:
  assumes core: "fec_core r" and os: "map_of (objects r) (ObjectKey flow (hdr_block_id h)) = Some os"
    and room: "accepted_datagrams os < max_datagrams_per_object (fec_config r)"
      "buffered_datagrams r < max_buffered_datagrams (fec_config r)"
    and feed: "feed_object lib (ObjectKey flow (hdr_block_id h)) dg h now r = Some (r2, res2)"
  shows "\<exists>r' res. finish_push (ObjectKey flow (hdr_block_id h)) nf res2 r2 = Some (r', res)
    \<and> push_spec flow (hdr_block_id h) r r' res \<and> (\<forall>s b. res \<noteq> Inr (Duplicate s b))"
proof -
  let ?key = "ObjectKey flow (hdr_block_id h)"
  obtain r2' where f: "feed_object lib ?key dg h now r = Some (r2', snd (push_datagram lib (decoder os) dg))"
    and r2: "fec_core r2'" "fec_config r2' = fec_config r" "fec_counters r2' = fec_counters r"
      "map_of (objects r2') ?key \<noteq> None"
    by (rule feed_object_ok [OF core os room])
  then have r2: "fec_core r2" "fec_config r2 = fec_config r" "fec_counters r2 = fec_counters r"
    "map_of (objects r2) ?key \<noteq> None" using feed by auto
  obtain r' where F: "finish_push ?key nf res2 r2 = Some (r', answer_of ?key res2)" "fec_core r'"
    "fec_config r' = fec_config r2" "fec_counters r' = outcome_tally (answer_of ?key res2) (fec_counters r2)"
    "\<And>p. res2 = Inr (Some p) \<Longrightarrow> max_completed_objects_per_flow (fec_config r2) \<noteq> 0 \<Longrightarrow>
       is_completed flow (hdr_block_id h) r'"
    by (rule finish_push_ok [OF r2(1,4), of nf res2]) simp
  have "push_spec flow (hdr_block_id h) r r' (answer_of ?key res2)"
    using F r2 by (auto simp: push_spec_def answer_of_def split: sum.splits option.splits)
  moreover have "\<forall>s b. answer_of ?key res2 \<noteq> Inr (Duplicate s b)"
    by (auto simp: answer_of_def split: sum.splits option.splits)
  ultimately show ?thesis using F(1) by blast
qed

lemma push_object_ok:
  assumes core: "fec_core r" and small: "hdr_transfer_length h \<le> max_object_bytes (fec_config r)"
    and fresh: "\<not> is_completed flow (hdr_block_id h) r"
  shows "\<exists>r' res. push_object lib flow dg h now r = Some (r', res) \<and> push_spec flow (hdr_block_id h) r r' res
    \<and> (\<forall>s b. res \<noteq> Inr (Duplicate s b))"
proof -
  let ?key = "ObjectKey flow (hdr_block_id h)"
  have bad: "\<exists>r' res. push_object lib flow dg h now r = Some (r', res) \<and> push_spec flow (hdr_block_id h) r r' res
      \<and> (\<forall>s b. res \<noteq> Inr (Duplicate s b))"
    if "push_object lib flow dg h now r = Some (reject e r0)" "fec_core r0" "fec_config r0 = fec_config r"
      "fec_counters r0 = fec_counters r" for e r0
    using push_spec_reject [OF that(2-4), of e flow "hdr_block_id h"] that(1) by auto
  have good: "\<exists>r' res. push_object lib flow dg h now r = Some (r', res) \<and> push_spec flow (hdr_block_id h) r r' res
      \<and> (\<forall>s b. res \<noteq> Inr (Duplicate s b))"
    if p: "push_object lib flow dg h now r = (case feed_object lib ?key dg h now r1 of None \<Rightarrow> None
          | Some (r2, res) \<Rightarrow> finish_push ?key nf res r2)"
      and r1: "fec_core r1" "fec_config r1 = fec_config r" "fec_counters r1 = fec_counters r"
        "map_of (objects r1) ?key = Some os" "accepted_datagrams os < max_datagrams_per_object (fec_config r1)"
        "buffered_datagrams r1 < max_buffered_datagrams (fec_config r1)" for r1 os nf
  proof -
    obtain r2 where f: "feed_object lib ?key dg h now r1 = Some (r2, snd (push_datagram lib (decoder os) dg))"
      by (rule feed_object_ok [OF r1(1,4-6)])
    from push_object_feed [OF r1(1,4-6) f, of nf] p f r1(2,3) show ?thesis
      by (simp add: push_spec_def)
  qed
  show ?thesis
  proof (cases "datagram_budget_error ?key r")
    case (Some e)
    then show ?thesis using core by (intro bad [of e r]) (simp_all add: push_object_def)
  next
    case None
    then have room: "buffered_datagrams r < max_buffered_datagrams (fec_config r)"
      and zero: "map_of (objects r) ?key = None \<Longrightarrow> max_datagrams_per_object (fec_config r) \<noteq> 0"
      by (auto simp: datagram_budget_error_def Let_def split: if_splits)
    show ?thesis
    proof (cases "map_of (objects r) ?key")
      case (Some os)
      then show ?thesis
      proof (cases "object_full ?key r")
        case True
        then show ?thesis
          using None core
          by (intro bad [of "ObjectDatagramLimitExceeded (flow_stream_id flow) (hdr_block_id h)
                (max_datagrams_per_object (fec_config r))" "fst (remove_object ?key r)"])
            (simp_all add: push_object_def fec_core_remove)
      next
        case False
        then show ?thesis
          using None core Some room by (intro good [where ?r1.0 = r and os = os and nf = "map_of (flows r) flow = None"]) (auto simp: push_object_def object_full_def Let_def)
      qed
    next
      case new: None
      then have nf: "\<not> object_full ?key r" by (simp add: object_full_def)
      show ?thesis
      proof (cases "reserve_object lib ?key (hdr_transfer_length h) now r")
        case (Inl e)
        then show ?thesis using None new nf core by (intro bad [of e r]) (simp_all add: push_object_def)
      next
        case (Inr r1)
        note R = reserve_object_Inr [OF core new small _ Inr]
        show ?thesis
          using None new nf Inr R fresh room zero [OF new]
          by (intro good [where ?r1.0 = r1 and nf = "map_of (flows r) flow = None"]) (auto simp: push_object_def Let_def)
      qed
    qed
  qed
qed

lemma try_push_ok:
  assumes core: "fec_core r"
  shows "\<exists>r' res c. try_push_payload_at lib peer dg now r = Some (r', res) \<and> fec_core r'
    \<and> fec_config r' = fec_config r \<and> traffic c = traffic (fec_counters r)
    \<and> fec_counters r' = outcome_tally res (c\<lparr>datagrams_received := sat_add (datagrams_received c) 1\<rparr>)
    \<and> (\<forall>b p. res = Inr (Decoded b p) \<longrightarrow> (\<exists>flow h. parse_datagram lib peer dg = Inr (flow, h) \<and> b = hdr_block_id (snd h)
         \<and> dec_stream_id p = flow_stream_id flow
         \<and> (max_completed_objects_per_flow (fec_config r) \<noteq> 0 \<longrightarrow> is_completed flow b r')))"
proof -
  let ?r0 = "fst (expire_inactive_if_due lib now r)"
  let ?r1 = "fec_count (\<lambda>c. c\<lparr>datagrams_received := sat_add (datagrams_received c) 1\<rparr>) ?r0"
  note E = expire_due [OF core, of lib now]
  have core1: "fec_core ?r1" using E(1) by simp
  have main: "\<exists>r' res. try_push_payload_at lib peer dg now r = Some (r', res) \<and>
      (\<exists>flow block. push_spec flow block ?r1 r' res \<and> (\<forall>b p. res = Inr (Decoded b p) \<longrightarrow>
         (\<exists>h. parse_datagram lib peer dg = Inr (flow, h) \<and> block = hdr_block_id (snd h))))"
  proof (cases "length dg > max_datagram_bytes (fec_config ?r1)")
    case True
    then show ?thesis
      using push_spec_reject [OF core1 refl refl] by (fastforce simp: try_push_payload_at_def)
  next
    case len: False
    show ?thesis
    proof (cases "parse_datagram lib peer dg")
      case (Inl e)
      then show ?thesis
        using len push_spec_reject [OF core1 refl refl] by (fastforce simp: try_push_payload_at_def)
    next
      case (Inr y)
      obtain flow fd h where y: "y = (flow, fd, h)" by (cases y)
      consider (big) "hdr_transfer_length h > max_object_bytes (fec_config ?r1)"
        | (dup) "hdr_transfer_length h \<le> max_object_bytes (fec_config ?r1)" "is_completed flow (hdr_block_id h) ?r1"
        | (obj) "hdr_transfer_length h \<le> max_object_bytes (fec_config ?r1)" "\<not> is_completed flow (hdr_block_id h) ?r1"
        by fastforce
      then show ?thesis
      proof cases
        case big
        then show ?thesis
          using len Inr y push_spec_reject [OF core1 refl refl] by (fastforce simp: try_push_payload_at_def)
      next
        case dup
        obtain r' where "push_duplicate flow h now ?r1 = Some (r', Inr (Duplicate (flow_stream_id flow) (hdr_block_id h)))"
          "push_spec flow (hdr_block_id h) ?r1 r' (Inr (Duplicate (flow_stream_id flow) (hdr_block_id h)))"
          by (rule push_duplicate_ok [OF core1 dup(2), of now]) (simp add: push_spec_def)
        then show ?thesis
          using len Inr y dup by (fastforce simp: try_push_payload_at_def)
      next
        case obj
        with push_object_ok [OF core1 obj, of lib fd now] show ?thesis
          using len Inr y by (fastforce simp: try_push_payload_at_def)
      qed
    qed
  qed
  then obtain r' res flow block where p: "try_push_payload_at lib peer dg now r = Some (r', res)"
    and s: "push_spec flow block ?r1 r' res" and d: "\<forall>b p. res = Inr (Decoded b p) \<longrightarrow>
         (\<exists>h. parse_datagram lib peer dg = Inr (flow, h) \<and> block = hdr_block_id (snd h))" by blast
  show ?thesis
    using p s d E(2,3)
    by (intro exI [of _ r'] exI [of _ res] exI [of _ "fec_counters ?r0"]) (auto simp: push_spec_def)
qed

end
