(* ===== verification/Udp_Fec_Properties.thy ===== *)
theory Udp_Fec_Properties
  imports Udp_Fec_Inv
begin

text \<open>
  The properties of the FEC receiver over its reachable states, with an example run over a small
  instance of the two third-party crates: a datagram is one byte of block id and one of content, and
  an object is complete with its second datagram.
\<close>

section \<open>Runs\<close>

inductive fec_reachable :: "('d, 'x) fec_lib \<Rightarrow> ('a, 'd, 'x) fec_receiver \<Rightarrow> bool" for lib where
  new: "config_fits cfg \<Longrightarrow> fec_reachable lib (with_config cfg)"
| push: "fec_reachable lib r \<Longrightarrow> try_push_payload_at lib peer datagram now r = Some (r', res) \<Longrightarrow> fec_reachable lib r'"
| expire: "fec_reachable lib r \<Longrightarrow> fec_reachable lib (fst (expire_inactive_at lib now r))"
| take_error: "fec_reachable lib r \<Longrightarrow> fec_reachable lib (fst (take_last_error r))"

text \<open>The traffic counters add up as long as none has saturated.\<close>

definition traffic_ok :: "fec_counters \<Rightarrow> bool" where
  "traffic_ok c \<longleftrightarrow> datagrams_received c \<le> u64_max \<and>
     (datagrams_received c < u64_max \<longrightarrow>
        datagrams_received c = datagrams_accepted c + datagrams_rejected c
        \<and> datagrams_accepted c = datagrams_buffered c + duplicate_datagrams c + objects_decoded c)"

lemma traffic_ok_cong: "traffic c' = traffic c \<Longrightarrow> traffic_ok c' = traffic_ok c"
  by (simp add: traffic_def traffic_ok_def)

lemma traffic_ok_step:
  assumes "traffic_ok c"
  shows "traffic_ok (outcome_tally res (c\<lparr>datagrams_received := sat_add (datagrams_received c) 1\<rparr>))"
proof -
  let ?c = "outcome_tally res (c\<lparr>datagrams_received := sat_add (datagrams_received c) 1\<rparr>)"
  have r: "datagrams_received ?c = sat_add (datagrams_received c) 1"
    by (cases res; (cases "projr res")?) auto
  show ?thesis
  proof (cases "datagrams_received ?c < u64_max")
    case False
    moreover have "datagrams_received ?c \<le> u64_max" unfolding r by simp
    ultimately show ?thesis by (simp add: traffic_ok_def)
  next
    case True
    then have "sat_add (datagrams_received c) 1 < u64_max" unfolding r .
    then have lt: "datagrams_received c + 1 < u64_max" using sat_add_exact_less by metis
    then have "datagrams_received c = datagrams_accepted c + datagrams_rejected c"
      "datagrams_accepted c = datagrams_buffered c + duplicate_datagrams c + objects_decoded c"
      using assms by (simp_all add: traffic_ok_def)
    with lt show ?thesis
      by (cases res; (cases "projr res")?) (auto simp: traffic_ok_def sat_add_def min_def)
  qed
qed

lemma fec_reachable_inv: "fec_reachable lib r \<Longrightarrow> fec_core r \<and> traffic_ok (fec_counters r)"
proof (induction rule: fec_reachable.induct)
  case (new cfg)
  moreover have "traffic_ok (fec_counters (with_config cfg))"
    by (simp add: with_config_def fec_counters_default_def traffic_ok_def)
  ultimately show ?case by (simp add: fec_core_new)
next
  case (push r peer datagram now r' res)
  from push.IH have "fec_core r" by simp
  from try_push_ok [OF this, of lib peer datagram now] push.hyps(2) obtain c where
    "fec_core r'" "traffic c = traffic (fec_counters r)"
    "fec_counters r' = outcome_tally res (c\<lparr>datagrams_received := sat_add (datagrams_received c) 1\<rparr>)"
    by auto
  then show ?case
    using push.IH traffic_ok_cong traffic_ok_step by metis
next
  case (expire r now)
  obtain r1 e where s: "scan_inactive_at now r = (r1, e)" by fastforce
  have "fec_core r" using expire.IH by simp
  note S = scan_inactive [OF this s]
  then have "traffic (fec_counters r1) = traffic (fec_counters r)" by (simp add: traffic_def)
  then have "traffic_ok (fec_counters r1)" using expire.IH traffic_ok_cong by blast
  then show ?case
    using S s by (simp add: expire_inactive_at_def)
next
  case (take_error r)
  then show ?case
    by (simp add: take_last_error_def fec_core_def)
qed

section \<open>An example\<close>

definition ex_lib :: "(nat, string) fec_lib" where
  "ex_lib = \<lparr>split_stream_id_prefix = (\<lambda>bs. None), DATAGRAM_MAGIC = [0],
     header_decode = (\<lambda>bs. case bs of b # c # _ \<Rightarrow>
         Inr \<lparr>hdr_block_id = ucast b, hdr_packet_sequence = ucast c, hdr_transfer_length = 10\<rparr> | _ \<Rightarrow> Inl ''short''),
     header_payload = (\<lambda>h bs. Inr (drop 2 bs)), decoder_new = 0,
     push_datagram = (\<lambda>d bs. if d = 0 then (1, Inr None) else (2, Inr (Some bs))), instant_max = 10 ^ 30\<rparr>"

definition ex_fec_config :: fec_config where
  "ex_fec_config = fec_config_default\<lparr>max_flows := 2, max_active_objects := 2, max_buffered_datagrams := 3\<rparr>"

definition ex_push :: "nat \<Rightarrow> bytes \<Rightarrow> nat \<Rightarrow> (nat, nat, string) fec_receiver \<Rightarrow> (nat, nat, string) fec_receiver" where
  "ex_push peer bs now r = (case try_push_payload_at ex_lib peer bs now r of Some (r', _) \<Rightarrow> r' | None \<Rightarrow> r)"

definition ex_fec :: "(nat, nat, string) fec_receiver" where
  "ex_fec = ex_push 1 [7, 2] 6 (ex_push 1 [7, 1] 5 (with_config ex_fec_config))"

lemma ex_push_reachable: "fec_reachable ex_lib r \<Longrightarrow> fec_reachable ex_lib (ex_push peer bs now r)"
  by (auto simp: ex_push_def intro: fec_reachable.push split: option.splits)

lemma ex_fec_reachable: "fec_reachable ex_lib ex_fec"
proof -
  have "config_fits ex_fec_config"
    by (simp add: config_fits_def ex_fec_config_def fec_config_default_def u64_max_def)
  then show ?thesis
    unfolding ex_fec_def by (intro ex_push_reachable fec_reachable.new)
qed

section \<open>Properties\<close>

text \<open>the receiver never panics. Whatever datagram arrives from whatever peer at whatever time, and
  whatever the decoder answers, a push on a reachable receiver returns an answer; none of the four
  \<open>expect\<close> calls on table entries can fail.\<close>

theorem fec_push_never_panics:
  assumes "fec_reachable lib r"
  shows "\<exists>r' res. try_push_payload_at lib peer datagram now r = Some (r', res)"
  using try_push_ok [of r lib peer datagram now] fec_reachable_inv [OF assms] by blast

theorem fec_push_never_panics_witness:
  "\<exists>r' res. try_push_payload_at ex_lib 3 [9, 9, 9] 50 ex_fec = Some (r', res)"
  by (rule fec_push_never_panics [OF ex_fec_reachable])

text \<open>C3: the memory of a reachable receiver stays within every configured limit, and its budgets are
  exact: reserved bytes and buffered datagrams are the sums over the incomplete objects, each flow's
  number of active objects is the number of incomplete objects of that flow, and no object that a
  flow remembers as completed is incomplete.\<close>

theorem fec_budgets_exact:
  assumes "fec_reachable lib r"
  shows "buffered_object_bytes r = sum_list (map (transfer_length \<circ> snd) (objects r))
    \<and> buffered_datagrams r = sum_list (map (accepted_datagrams \<circ> snd) (objects r))
    \<and> buffered_object_bytes r \<le> max_buffered_object_bytes (fec_config r)
    \<and> buffered_datagrams r \<le> max_buffered_datagrams (fec_config r)
    \<and> length (flows r) \<le> max_flows (fec_config r) \<and> length (objects r) \<le> max_active_objects (fec_config r)
    \<and> (\<forall>flow st. map_of (flows r) flow = Some st \<longrightarrow>
         active_objects st = length (filter (\<lambda>p. ok_flow (fst p) = flow) (objects r))
         \<and> active_objects st \<le> max_active_objects_per_flow (fec_config r)
         \<and> card (completed st) \<le> max_completed_objects_per_flow (fec_config r)
         \<and> card (missing (sequence_tracker st)) \<le> max_tracked_sequence_gaps_per_flow (fec_config r)
         \<and> (\<forall>b \<in> completed st. map_of (objects r) (ObjectKey flow b) = None))
    \<and> (\<forall>key st. map_of (objects r) key = Some st \<longrightarrow> transfer_length st \<le> max_object_bytes (fec_config r)
         \<and> accepted_datagrams st \<le> max_datagrams_per_object (fec_config r)
         \<and> map_of (flows r) (ok_flow key) \<noteq> None)"
proof -
  have core: "fec_core r" using fec_reachable_inv [OF assms] by simp
  have count: "tsum (in_flow flow) (objects r) = length (filter (\<lambda>p. ok_flow (fst p) = flow) (objects r))" for flow
    unfolding in_flow_def by (rule tsum_count)
  have flow: "active_objects st = length (filter (\<lambda>p. ok_flow (fst p) = flow) (objects r))
         \<and> active_objects st \<le> max_active_objects_per_flow (fec_config r)
         \<and> card (completed st) \<le> max_completed_objects_per_flow (fec_config r)
         \<and> card (missing (sequence_tracker st)) \<le> max_tracked_sequence_gaps_per_flow (fec_config r)
         \<and> (\<forall>b \<in> completed st. map_of (objects r) (ObjectKey flow b) = None)"
    if "map_of (flows r) flow = Some st" for flow st
    using fec_coreD(4) [OF core that] distinct_card [of "completed_order st"]
    by (auto simp: flow_ok_def completed_ok_def tracker_ok_def count)
  have "buffered_object_bytes r = sum_list (map (transfer_length \<circ> snd) (objects r))"
    "buffered_datagrams r = sum_list (map (accepted_datagrams \<circ> snd) (objects r))"
    using fec_coreD(6,7) [OF core] by (simp_all add: tsum_def)
  moreover have "buffered_object_bytes r \<le> max_buffered_object_bytes (fec_config r)"
    "buffered_datagrams r \<le> max_buffered_datagrams (fec_config r)"
    "length (flows r) \<le> max_flows (fec_config r)" "length (objects r) \<le> max_active_objects (fec_config r)"
    using fec_coreD(8) [OF core] by (simp_all add: fec_tables_def)
  moreover have "transfer_length st \<le> max_object_bytes (fec_config r)
      \<and> accepted_datagrams st \<le> max_datagrams_per_object (fec_config r)
      \<and> map_of (flows r) (ok_flow key) \<noteq> None" if "map_of (objects r) key = Some st" for key st
    using fec_coreD(5) [OF core that] by (simp add: object_ok_def)
  ultimately show ?thesis using flow by blast
qed

theorem fec_budgets_exact_witness:
  "buffered_datagrams (ex_push 1 [8, 3] 7 ex_fec) = 1 \<and> buffered_object_bytes (ex_push 1 [8, 3] 7 ex_fec) = 10"
proof -
  have "map (transfer_length \<circ> snd) (objects (ex_push 1 [8, 3] 7 ex_fec)) = [10]"
    "map (accepted_datagrams \<circ> snd) (objects (ex_push 1 [8, 3] 7 ex_fec)) = [1]"
    by code_simp+
  then show ?thesis
    using fec_budgets_exact [OF ex_push_reachable [OF ex_fec_reachable], of 1 "[8, 3]" 7] by simp
qed

text \<open>every received datagram is accounted for once: until the counter of received datagrams
  saturates, it is the number of accepted plus rejected ones, and the accepted ones are the buffered,
  the duplicate and the decoding ones.\<close>

theorem fec_counters_add_up:
  assumes "fec_reachable lib r" and "datagrams_received (fec_counters r) < u64_max"
  shows "datagrams_received (fec_counters r) = datagrams_accepted (fec_counters r) + datagrams_rejected (fec_counters r)
    \<and> datagrams_accepted (fec_counters r) =
        datagrams_buffered (fec_counters r) + duplicate_datagrams (fec_counters r) + objects_decoded (fec_counters r)"
  using fec_reachable_inv [OF assms(1)] assms(2) by (simp add: traffic_ok_def)

theorem fec_counters_add_up_witness:
  "datagrams_received (fec_counters ex_fec) = 2 \<and> datagrams_accepted (fec_counters ex_fec) = 2
   \<and> datagrams_rejected (fec_counters ex_fec) = 0"
proof -
  have "datagrams_received (fec_counters ex_fec) = 2" "datagrams_accepted (fec_counters ex_fec) = 2" by code_simp+
  moreover have "datagrams_received (fec_counters ex_fec) < u64_max" by code_simp
  ultimately show ?thesis
    using fec_counters_add_up [OF ex_fec_reachable] by simp
qed

text \<open>an expiry scan removes exactly the objects that were inactive for the object timeout and then
  exactly the flows without objects that were inactive for the flow timeout; it reports how many of
  each it removed and how many bytes and datagrams that released.\<close>

theorem fec_expiry_exact:
  assumes "fec_reachable lib r" and "expire_inactive_at lib now r = (r', e)"
  shows "objects r' = filter (\<lambda>(k, st). now - obj_last_activity st < object_inactivity_timeout (fec_config r)) (objects r)
    \<and> (\<forall>f. map_of (flows r') f = (case map_of (flows r) f of None \<Rightarrow> None
         | Some st \<Rightarrow> let n = length (filter (\<lambda>p. ok_flow (fst p) = f) (objects r')) in
             if n = 0 \<and> flow_inactivity_timeout (fec_config r) \<le> now - flow_last_activity st then None
             else Some (st\<lparr>active_objects := n\<rparr>)))
    \<and> exp_objects e = length (objects r) - length (objects r')
    \<and> exp_flows e = length (flows r) - length (flows r')
    \<and> exp_released_object_bytes e = buffered_object_bytes r - buffered_object_bytes r'
    \<and> exp_released_datagrams e = buffered_datagrams r - buffered_datagrams r'"
proof -
  have core: "fec_core r" using fec_reachable_inv [OF assms(1)] by simp
  obtain r1 where s: "scan_inactive_at now r = (r1, e)" and r': "r' = schedule_next_expiry_scan lib now r1"
    using assms(2) by (auto simp: expire_inactive_at_def split: prod.splits)
  note S = scan_inactive [OF core s]
  have count: "tsum (in_flow f) (objects r1) = length (filter (\<lambda>p. ok_flow (fst p) = f) (objects r1))" for f
    unfolding in_flow_def by (rule tsum_count)
  have eqs: "buffered_object_bytes r' = buffered_object_bytes r1" "buffered_datagrams r' = buffered_datagrams r1"
    "objects r' = objects r1" "flows r' = flows r1"
    by (simp_all add: r' schedule_next_expiry_scan_def Let_def)
  have "objects r' = filter (\<lambda>(k, st). now - obj_last_activity st < object_inactivity_timeout (fec_config r)) (objects r)"
    using S by (simp add: eqs idle_object_def elapsed_def not_le)
  moreover have "map_of (flows r') f = (case map_of (flows r) f of None \<Rightarrow> None
         | Some st \<Rightarrow> let n = length (filter (\<lambda>p. ok_flow (fst p) = f) (objects r')) in
             if n = 0 \<and> flow_inactivity_timeout (fec_config r) \<le> now - flow_last_activity st then None
             else Some (st\<lparr>active_objects := n\<rparr>))" for f
    using S unfolding count eqs idle_flow_def elapsed_def Let_def by blast
  moreover have "exp_objects e = length (objects r) - length (objects r')"
    "exp_flows e = length (flows r) - length (flows r')"
    "exp_released_object_bytes e = buffered_object_bytes r - buffered_object_bytes r'"
    "exp_released_datagrams e = buffered_datagrams r - buffered_datagrams r'"
    using S by (simp_all add: eqs)
  ultimately show ?thesis by blast
qed

theorem fec_expiry_exact_witness:
  "objects (fst (expire_inactive_at ex_lib 10000000007 (ex_push 1 [8, 3] 7 ex_fec))) = []"
proof -
  have "filter (\<lambda>(k, st). 10000000007 - obj_last_activity st
      < object_inactivity_timeout (fec_config (ex_push 1 [8, 3] 7 ex_fec))) (objects (ex_push 1 [8, 3] 7 ex_fec)) = []"
    by code_simp
  then show ?thesis
    using fec_expiry_exact [OF ex_push_reachable [OF ex_fec_reachable] prod.collapse [symmetric],
        of 10000000007 1 "[8, 3]" 7] by simp
qed

text \<open>an object is decoded once. When a push decodes an object, the flow remembers it, and while it
  does, the next datagram of the same flow and block that is well formed and not too large, and comes
  before the next expiry scan, is answered as a duplicate; the decoder is not asked again.\<close>

theorem fec_decoded_once:
  assumes "fec_reachable lib r"
    and "try_push_payload_at lib peer datagram now r = Some (r', Inr (Decoded block payload))"
    and "max_completed_objects_per_flow (fec_config r) \<noteq> 0"
    and "parse_datagram lib peer datagram = Inr (flow, d, h)"
    and "parse_datagram lib peer datagram' = Inr (flow, d', h')" and "hdr_block_id h' = hdr_block_id h"
    and "length datagram' \<le> max_datagram_bytes (fec_config r)"
    and "hdr_transfer_length h' \<le> max_object_bytes (fec_config r)"
    and "next_expiry_scan r' = Some deadline" and "now' < deadline"
  shows "dec_stream_id payload = flow_stream_id flow \<and> block = hdr_block_id h \<and>
    (\<exists>r''. try_push_payload_at lib peer datagram' now' r' =
      Some (r'', Inr (Duplicate (flow_stream_id flow) block)) \<and> objects r'' = objects r')"
proof -
  have core: "fec_core r" using fec_reachable_inv [OF assms(1)] by simp
  from try_push_ok [OF core, of lib peer datagram now] assms(2-4) have
    core': "fec_core r'" and cfg: "fec_config r' = fec_config r" and b: "block = hdr_block_id h"
    and p: "dec_stream_id payload = flow_stream_id flow" and c: "is_completed flow block r'" by auto
  let ?r1 = "fec_count (\<lambda>c. c\<lparr>datagrams_received := sat_add (datagrams_received c) 1\<rparr>) r'"
  have comp: "is_completed flow (hdr_block_id h') ?r1"
    using c b assms(6) by (simp add: is_completed_def)
  have core1: "fec_core ?r1" using core' by simp
  obtain r'' where
    "push_duplicate flow h' now' ?r1 = Some (r'', Inr (Duplicate (flow_stream_id flow) (hdr_block_id h')))"
    "objects r'' = objects ?r1"
    by (rule push_duplicate_ok [OF core1 comp, of now']) (rule that)
  then show ?thesis
    using assms(5-10) b p c cfg
    by (simp add: try_push_payload_at_def expire_inactive_if_due_def is_completed_def)
qed

theorem fec_decoded_once_witness:
  "\<exists>r''. try_push_payload_at ex_lib 1 [7, 3] 8 ex_fec = Some (r'', Inr (Duplicate None 7)) \<and> objects r'' = objects ex_fec"
proof -
  let ?r = "ex_push 1 [7, 1] 5 (with_config ex_fec_config)"
  have a: "try_push_payload_at ex_lib 1 [7, 2] 6 ?r = Some (ex_fec, Inr (Decoded 7 (DecodedUdpFecPayload None [7, 2])))"
  proof -
    have "map_option snd (try_push_payload_at ex_lib 1 [7, 2] 6 ?r) = Some (Inr (Decoded 7 (DecodedUdpFecPayload None [7, 2])))"
      by code_simp
    then show ?thesis by (auto simp: ex_fec_def ex_push_def)
  qed
  have "config_fits ex_fec_config"
    by (simp add: config_fits_def ex_fec_config_def fec_config_default_def u64_max_def)
  then have r: "fec_reachable ex_lib ?r" by (intro ex_push_reachable fec_reachable.new)
  have s: "next_expiry_scan ex_fec = Some 250000005" by code_simp
  have p: "parse_datagram ex_lib (1::nat) [7, 2] = Inr (Unprefixed 1, [7, 2], \<lparr>hdr_block_id = 7, hdr_packet_sequence = 2, hdr_transfer_length = 10\<rparr>)"
    "parse_datagram ex_lib (1::nat) [7, 3] = Inr (Unprefixed 1, [7, 3], \<lparr>hdr_block_id = 7, hdr_packet_sequence = 3, hdr_transfer_length = 10\<rparr>)"
    by code_simp+
  have c: "max_completed_objects_per_flow (fec_config ?r) \<noteq> 0" "max_datagram_bytes (fec_config ?r) = 65535"
    "max_object_bytes (fec_config ?r) = 8388608" by code_simp+
  show ?thesis
    using fec_decoded_once [OF r a c(1) p _ _ _ s, of 8] c by simp
qed

text \<open>sequence tracking. Without a gap the set of missing numbers does not change and the next
  expected number follows; a gap makes the missing numbers exactly those at distance 1 to the smaller
  of the gap and the limit below the number that arrived; a late number leaves the set. The reported
  number of missing packets is the size of the set.\<close>

theorem observe_exact:
  assumes "next_expected t = Some expected"
  shows "missing (observe s m t) =
      (if s = expected then missing t
       else if s - expected \<le> I32_MAX then {x. 1 \<le> unat (s - x) \<and> unat (s - x) \<le> min (unat (s - expected)) m}
       else missing t - {s})
    \<and> next_expected (observe s m t) = (if s - expected \<le> I32_MAX then Some (s + 1) else Some expected)
    \<and> stat_missing (stats (observe s m t)) = card (missing (observe s m t))"
  using assms by (auto simp: observe_def Let_def mark_missing_eq word_greater_zero_iff)

theorem observe_exact_witness:
  "missing (observe 2 10 (tracker_default\<lparr>next_expected := Some 0xFFFFFFFF\<rparr>)) =
     {x. 1 \<le> unat (2 - x) \<and> unat (2 - x) \<le> 3}"
  using observe_exact [of "tracker_default\<lparr>next_expected := Some 0xFFFFFFFF\<rparr>" "0xFFFFFFFF" 2 10]
  by (simp add: I32_MAX_def)

end
