(* ===== verification/Edge_Admission.thy ===== *)
theory Edge_Admission
  imports Mesh_Prelude
begin

text \<open>
  Admission control of an edge node, \<open>src/src/edge_admission.rs\<close>: a rolling window of egress bytes per
  second, an overload flag with hysteresis, and a bounded table of playback sessions.

  The clock readings of the code are arguments (seconds and milliseconds since the start of the
  process). The fields behind locks and atomics are one record, and every public call is one step on
  it. The rolling window refines the log of all recorded bytes: \<open>window_of\<close> is the window a log leaves
  behind, and \<open>rolling_rate\<close> computes the rate of the log over the last seconds.
\<close>

section \<open>Configuration\<close>

record edge_config =
  capacity_bps :: nat
  admission_percent :: nat
  recovery_percent :: nat
  window_seconds :: nat
  min_sustained_seconds :: nat
  session_idle_seconds :: nat
  max_sessions :: nat

definition edge_config_default :: edge_config where
  "edge_config_default = \<lparr>capacity_bps = 4000000000, admission_percent = 85, recovery_percent = 75,
     window_seconds = 10, min_sustained_seconds = 3, session_idle_seconds = 60, max_sessions = 100000\<rparr>"

definition edge_normalized :: "edge_config \<Rightarrow> edge_config" where
  "edge_normalized c =
     (let c1 = c\<lparr>capacity_bps := max (capacity_bps c) 1,
                 admission_percent := clamp (admission_percent c) 1 100\<rparr>;
          c2 = c1\<lparr>recovery_percent := clamp (recovery_percent c1) 1 (max (sat_sub (admission_percent c1) 1) 1),
                  window_seconds := max (window_seconds c1) 1\<rparr>;
          c3 = c2\<lparr>min_sustained_seconds := clamp (min_sustained_seconds c2) 1 (window_seconds c2),
                  session_idle_seconds := max (session_idle_seconds c2) 1,
                  max_sessions := max (max_sessions c2) 1\<rparr>
      in c3)"

definition percent_of :: "nat \<Rightarrow> nat \<Rightarrow> nat" where
  "percent_of value percent = sat_mul value percent div 100"

definition admission_bps :: "edge_config \<Rightarrow> nat" where
  "admission_bps c = percent_of (capacity_bps c) (admission_percent c)"

definition recovery_bps :: "edge_config \<Rightarrow> nat" where
  "recovery_bps c = percent_of (capacity_bps c) (recovery_percent c)"

section \<open>The rolling window\<close>

record egress_bucket =
  bucket_second :: nat
  bucket_bytes :: nat

definition prune_window :: "nat \<Rightarrow> nat \<Rightarrow> egress_bucket list \<Rightarrow> egress_bucket list" where
  "prune_window second window buckets =
     (let oldest = sat_sub second (sat_sub window 1)
      in dropWhile (\<lambda>b. bucket_second b < oldest) buckets)"

definition record_window :: "nat \<Rightarrow> nat \<Rightarrow> nat \<Rightarrow> egress_bucket list \<Rightarrow> egress_bucket list" where
  "record_window second bytes window buckets =
     (let buckets1 = prune_window second window buckets
      in if buckets1 \<noteq> [] \<and> bucket_second (last buckets1) = second
         then butlast buckets1 @ [(last buckets1)\<lparr>bucket_bytes := sat_add (bucket_bytes (last buckets1)) bytes\<rparr>]
         else buckets1 @ [\<lparr>bucket_second = second, bucket_bytes = bytes\<rparr>])"

definition rate_window :: "nat \<Rightarrow> nat \<Rightarrow> egress_bucket list \<Rightarrow> egress_bucket list \<times> nat \<times> nat" where
  "rate_window second window buckets =
     (let buckets1 = prune_window second window buckets
      in case buckets1 of
           [] \<Rightarrow> (buckets1, 0, 0)
         | first # _ \<Rightarrow>
             let observation_seconds = min (sat_add (sat_sub second (bucket_second first)) 1) window;
                 bytes = foldl sat_add 0 (map bucket_bytes buckets1)
             in (buckets1, sat_mul bytes 8 div max observation_seconds 1, observation_seconds))"

section \<open>Admission\<close>

datatype playback_admission = Anonymous | Admitted | Existing | Rejected

record edge_snapshot =
  snap_capacity_bps :: nat
  snap_observed_bps :: nat
  snap_admission_bps :: nat
  snap_recovery_bps :: nat
  snap_observation_seconds :: nat
  snap_window_seconds :: nat
  snap_overloaded :: bool
  snap_rejected_requests :: u64
  snap_active_sessions :: nat
  snap_admitted_sessions :: u64

record edge_admission =
  edge_config :: edge_config
  window :: "egress_bucket list"
  is_overloaded :: bool
  rejected_requests :: u64
  admitted_sessions :: u64
  sessions :: "(string \<times> nat) list"

definition edge_new :: "edge_config \<Rightarrow> edge_admission" where
  "edge_new c = \<lparr>edge_config = edge_normalized c, window = [], is_overloaded = False, rejected_requests = 0,
     admitted_sessions = 0, sessions = []\<rparr>"

definition record_bytes :: "nat \<Rightarrow> nat \<Rightarrow> edge_admission \<Rightarrow> edge_admission" where
  "record_bytes second bytes e =
     (if bytes = 0 then e
      else e\<lparr>window := record_window second bytes (window_seconds (edge_config e)) (window e)\<rparr>)"

definition record_rejection :: "edge_admission \<Rightarrow> edge_admission" where
  "record_rejection e = e\<lparr>rejected_requests := rejected_requests e + 1\<rparr>"

definition prune_sessions :: "nat \<Rightarrow> nat \<Rightarrow> (string \<times> nat) list \<Rightarrow> (string \<times> nat) list" where
  "prune_sessions now_ms idle_seconds ss =
     (let idle_ms = sat_mul idle_seconds 1000
      in retain (\<lambda>_ last_seen_ms. sat_sub now_ms last_seen_ms < idle_ms) ss)"

definition active_sessions_at :: "nat \<Rightarrow> edge_admission \<Rightarrow> edge_admission \<times> nat" where
  "active_sessions_at elapsed_ms e =
     (let ss = prune_sessions elapsed_ms (session_idle_seconds (edge_config e)) (sessions e)
      in (e\<lparr>sessions := ss\<rparr>, min (length ss) u64_max))"

definition next_overloaded :: "edge_config \<Rightarrow> bool \<Rightarrow> nat \<Rightarrow> nat \<Rightarrow> bool" where
  "next_overloaded c was_overloaded observed_bps observation_seconds =
     (if was_overloaded then observed_bps \<ge> recovery_bps c
      else observation_seconds \<ge> min_sustained_seconds c \<and> observed_bps \<ge> admission_bps c)"

definition snapshot_at :: "nat \<Rightarrow> nat \<Rightarrow> edge_admission \<Rightarrow> edge_admission \<times> edge_snapshot" where
  "snapshot_at second elapsed_ms e =
     (let c = edge_config e;
          (buckets, observed_bps, observation_seconds) = rate_window second (window_seconds c) (window e);
          over = next_overloaded c (is_overloaded e) observed_bps observation_seconds;
          (e1, active) = active_sessions_at elapsed_ms (e\<lparr>window := buckets, is_overloaded := over\<rparr>)
      in (e1, \<lparr>snap_capacity_bps = capacity_bps c, snap_observed_bps = observed_bps,
               snap_admission_bps = admission_bps c, snap_recovery_bps = recovery_bps c,
               snap_observation_seconds = observation_seconds, snap_window_seconds = window_seconds c,
               snap_overloaded = over, snap_rejected_requests = rejected_requests e1,
               snap_active_sessions = active, snap_admitted_sessions = admitted_sessions e1\<rparr>))"

definition evict_oldest :: "nat \<Rightarrow> (string \<times> nat) list \<Rightarrow> (string \<times> nat) list" where
  "evict_oldest maximum ss =
     (if length ss \<ge> maximum
      then (case min_by_key snd ss of None \<Rightarrow> ss | Some (oldest, _) \<Rightarrow> tdel oldest ss)
      else ss)"

definition admit_playback_at ::
  "string option \<Rightarrow> bool \<Rightarrow> nat \<Rightarrow> edge_admission \<Rightarrow> edge_admission \<times> playback_admission" where
  "admit_playback_at session over elapsed_ms e =
     (case session of
        None \<Rightarrow> (e, if over then Rejected else Anonymous)
      | Some sid \<Rightarrow>
         let ss = prune_sessions elapsed_ms (session_idle_seconds (edge_config e)) (sessions e)
         in if map_of ss sid \<noteq> None then (e\<lparr>sessions := tput sid elapsed_ms ss\<rparr>, Existing)
            else if over then (e\<lparr>sessions := ss\<rparr>, Rejected)
            else (e\<lparr>sessions := tput sid elapsed_ms (evict_oldest (max_sessions (edge_config e)) ss),
                     admitted_sessions := admitted_sessions e + 1\<rparr>, Admitted))"

definition admit_playback ::
  "string option \<Rightarrow> nat \<Rightarrow> nat \<Rightarrow> nat \<Rightarrow> edge_admission \<Rightarrow> edge_admission \<times> playback_admission" where
  "admit_playback session second snapshot_ms elapsed_ms e =
     (let (e1, snap) = snapshot_at second snapshot_ms e
      in admit_playback_at session (snap_overloaded snap) elapsed_ms e1)"

section \<open>Configuration, proved\<close>

definition edge_config_ok :: "edge_config \<Rightarrow> bool" where
  "edge_config_ok c \<longleftrightarrow> 1 \<le> capacity_bps c \<and> 1 \<le> admission_percent c \<and> admission_percent c \<le> 100
     \<and> 1 \<le> recovery_percent c \<and> recovery_percent c \<le> max (admission_percent c - 1) 1
     \<and> 1 \<le> window_seconds c \<and> 1 \<le> min_sustained_seconds c \<and> min_sustained_seconds c \<le> window_seconds c
     \<and> 1 \<le> session_idle_seconds c \<and> 1 \<le> max_sessions c"

lemma edge_normalized_ok: "edge_config_ok (edge_normalized c)"
  by (simp add: edge_config_ok_def edge_normalized_def Let_def clamp_bounds)

lemma edge_normalized_id: "edge_config_ok c \<Longrightarrow> edge_normalized c = c"
  by (cases c) (simp add: edge_config_ok_def edge_normalized_def Let_def clamp_id max_absorb1)

lemma percent_of_mono: "p \<le> q \<Longrightarrow> percent_of v p \<le> percent_of v q"
  unfolding percent_of_def sat_mul_def by (intro div_le_mono min.mono mult_le_mono) auto

lemma recovery_le_admission: "edge_config_ok c \<Longrightarrow> recovery_bps c \<le> admission_bps c"
  unfolding recovery_bps_def admission_bps_def
  by (rule percent_of_mono) (auto simp: edge_config_ok_def max_def split: if_splits)

section \<open>The rolling window against the log\<close>

text \<open>The abstract window: a log of (second, bytes) in the order recorded.\<close>

definition log_bytes :: "nat \<Rightarrow> nat \<Rightarrow> (nat \<times> nat) list \<Rightarrow> nat" where
  "log_bytes second w log = sum_list (map snd (filter (\<lambda>(s, _). second < s + w) log))"

fun window_of :: "nat \<Rightarrow> (nat \<times> nat) list \<Rightarrow> egress_bucket list \<Rightarrow> egress_bucket list" where
  "window_of w [] buckets = buckets"
| "window_of w ((s, n) # log) buckets = window_of w log (record_window s n w buckets)"

text \<open>The buckets kept are those of the last seconds, strictly increasing, and their bytes per second
  are the recorded ones.\<close>

definition bucket_sum :: "(nat \<Rightarrow> bool) \<Rightarrow> egress_bucket list \<Rightarrow> nat" where
  "bucket_sum P bs = sum_list (map bucket_bytes (filter (P \<circ> bucket_second) bs))"

definition seconds :: "egress_bucket list \<Rightarrow> nat list" where
  "seconds bs = map bucket_second bs"

lemma bucket_sum_simps [simp]:
  "bucket_sum P [] = 0"
  "bucket_sum P (b # bs) = (if P (bucket_second b) then bucket_bytes b else 0) + bucket_sum P bs"
  "bucket_sum P (bs @ cs) = bucket_sum P bs + bucket_sum P cs"
  by (simp_all add: bucket_sum_def)

lemma prune_filter:
  "sorted_wrt (<) (seconds bs) \<Longrightarrow> 1 \<le> w \<Longrightarrow> prune_window s w bs = filter (\<lambda>b. s < bucket_second b + w) bs"
proof (induction bs)
  case Nil
  then show ?case by (simp add: prune_window_def)
next
  case (Cons b bs)
  have old: "bucket_second b < s - (w - 1) \<longleftrightarrow> \<not> s < bucket_second b + w" using Cons.prems(2) by auto
  show ?case
  proof (cases "bucket_second b < s - (w - 1)")
    case True
    then show ?thesis using Cons old by (auto simp: prune_window_def seconds_def)
  next
    case False
    then have "\<forall>c \<in> set bs. s < bucket_second c + w"
      using Cons.prems old by (fastforce simp: seconds_def)
    then have "filter (\<lambda>c. s < bucket_second c + w) bs = bs" by (simp add: filter_id_conv)
    then show ?thesis using False old by (simp add: prune_window_def Let_def)
  qed
qed

lemma sorted_prune:
  assumes "sorted_wrt (<) (seconds bs)"
  shows "sorted_wrt (<) (seconds (prune_window s w bs))"
proof -
  let ?P = "\<lambda>b. bucket_second b < s - (w - 1)"
  have "seconds bs = seconds (takeWhile ?P bs) @ seconds (dropWhile ?P bs)"
    unfolding seconds_def map_append [symmetric] by simp
  then have "sorted_wrt (<) (seconds (dropWhile ?P bs))"
    using assms by (simp add: sorted_wrt_append)
  then show ?thesis by (simp add: prune_window_def Let_def)
qed

lemma set_prune: "set (prune_window s w bs) \<subseteq> set bs"
  by (auto simp: prune_window_def dest: set_dropWhileD)

lemma record_window_sorted:
  assumes "sorted_wrt (<) (seconds bs)" and "\<forall>b \<in> set bs. bucket_second b \<le> s"
  shows "sorted_wrt (<) (seconds (record_window s n w bs))"
    and "\<forall>b \<in> set (record_window s n w bs). bucket_second b \<le> s"
proof -
  let ?p = "prune_window s w bs"
  have p: "sorted_wrt (<) (seconds ?p)" "\<forall>b \<in> set ?p. bucket_second b \<le> s"
    using assms sorted_prune set_prune by blast+
  have "sorted_wrt (<) (seconds (record_window s n w bs)) \<and> (\<forall>b \<in> set (record_window s n w bs). bucket_second b \<le> s)"
  proof (cases "?p = []")
    case True
    then show ?thesis by (simp add: record_window_def Let_def seconds_def)
  next
    case False
    then obtain q b where q: "?p = q @ [b]" by (metis rev_exhaust)
    then show ?thesis
      using p by (auto simp: record_window_def Let_def seconds_def sorted_wrt_append order.strict_iff_order
          dest: order.strict_trans2 split: if_splits)
  qed
  then show "sorted_wrt (<) (seconds (record_window s n w bs))"
    and "\<forall>b \<in> set (record_window s n w bs). bucket_second b \<le> s" by blast+
qed

lemma bucket_sum_filter: "bucket_sum P (filter (\<lambda>b. Q (bucket_second b)) bs) = bucket_sum (\<lambda>s. P s \<and> Q s) bs"
  by (induction bs) auto

lemma bucket_sum_cong: "(\<And>b. b \<in> set bs \<Longrightarrow> P (bucket_second b) = Q (bucket_second b)) \<Longrightarrow> bucket_sum P bs = bucket_sum Q bs"
  by (induction bs) auto


text \<open>Recording adds the bytes to the sums over recent seconds.\<close>

lemma bucket_sum_prune:
  assumes "sorted_wrt (<) (seconds bs)" and "1 \<le> w" and "\<And>t. P t \<Longrightarrow> s < t + w"
  shows "bucket_sum P (prune_window s w bs) = bucket_sum P bs"
proof -
  have "bucket_sum P (filter (\<lambda>b. s < bucket_second b + w) bs) = bucket_sum (\<lambda>t. P t \<and> s < t + w) bs"
    using bucket_sum_filter [of P "\<lambda>t. s < t + w" bs] by simp
  also have "\<dots> = bucket_sum P bs" by (rule bucket_sum_cong) (use assms(3) in auto)
  finally show ?thesis by (simp add: prune_filter [OF assms(1,2)])
qed

lemma bucket_sum_dropWhile_le: "bucket_sum P (dropWhile Q bs) \<le> bucket_sum P bs"
  by (induction bs) auto

lemma bucket_sum_record:
  assumes "sorted_wrt (<) (seconds bs)" and "1 \<le> w" and "\<And>t. P t \<Longrightarrow> s < t + w"
    and "bucket_sum (\<lambda>_. True) bs + n \<le> u64_max"
  shows "bucket_sum P (record_window s n w bs) = bucket_sum P bs + (if P s then n else 0)"
    and "bucket_sum (\<lambda>_. True) (record_window s n w bs) \<le> bucket_sum (\<lambda>_. True) bs + n"
proof -
  let ?p = "prune_window s w bs"
  have le: "bucket_sum (\<lambda>_. True) ?p \<le> bucket_sum (\<lambda>_. True) bs"
    by (simp add: prune_window_def bucket_sum_dropWhile_le)
  have "bucket_sum Q (record_window s n w bs) = bucket_sum Q ?p + (if Q s then n else 0)" for Q
  proof (cases "?p = []")
    case True
    then show ?thesis by (simp add: record_window_def Let_def)
  next
    case False
    then obtain q b where q: "?p = q @ [b]" by (metis rev_exhaust)
    have "bucket_bytes b + n \<le> u64_max" using le assms(4) by (simp add: q)
    then have "sat_add (bucket_bytes b) n = bucket_bytes b + n" by (rule sat_add_exact)
    then show ?thesis by (simp add: record_window_def Let_def q)
  qed
  then show "bucket_sum P (record_window s n w bs) = bucket_sum P bs + (if P s then n else 0)"
    and "bucket_sum (\<lambda>_. True) (record_window s n w bs) \<le> bucket_sum (\<lambda>_. True) bs + n"
    using bucket_sum_prune [OF assms(1-3)] le by simp_all
qed

lemma record_window_seconds:
  assumes "sorted_wrt (<) (seconds bs)" and "1 \<le> w"
  shows "set (seconds (record_window s n w bs)) = insert s {t \<in> set (seconds bs). s < t + w}"
proof -
  have p: "set (seconds (prune_window s w bs)) = {t \<in> set (seconds bs). s < t + w}"
    using prune_filter [OF assms, of s] by (auto simp: seconds_def)
  show ?thesis
  proof (cases "prune_window s w bs = []")
    case True
    then show ?thesis using p by (auto simp: record_window_def Let_def seconds_def)
  next
    case False
    then obtain q b where q: "prune_window s w bs = q @ [b]" by (metis rev_exhaust)
    then show ?thesis using p by (auto simp: record_window_def Let_def seconds_def)
  qed
qed

lemma window_of_props:
  assumes "sorted (map fst log)" and "\<forall>s \<in> set (map fst log). s \<le> now" and "1 \<le> w"
    and "sorted_wrt (<) (seconds bs)" and "\<forall>b \<in> set bs. \<forall>s \<in> set (map fst log). bucket_second b \<le> s"
    and "bucket_sum (\<lambda>_. True) bs + sum_list (map snd log) \<le> u64_max"
  shows "sorted_wrt (<) (seconds (window_of w log bs))
    \<and> bucket_sum (\<lambda>t. now < t + w) (window_of w log bs) = bucket_sum (\<lambda>t. now < t + w) bs + log_bytes now w log
    \<and> {t \<in> set (seconds (window_of w log bs)). now < t + w} =
        {t \<in> set (seconds bs). now < t + w} \<union> {t \<in> set (map fst log). now < t + w}"
  using assms
proof (induction log arbitrary: bs)
  case Nil
  then show ?case by (simp add: log_bytes_def)
next
  case (Cons e log)
  obtain s n where e: "e = (s, n)" by (cases e)
  let ?bs = "record_window s n w bs"
  have le: "\<forall>b \<in> set bs. bucket_second b \<le> s" and snow: "s \<le> now" using Cons.prems e by auto
  have lim: "bucket_sum (\<lambda>_. True) bs + n \<le> u64_max" using Cons.prems(6) e by simp
  have recent: "\<And>t. now < t + w \<Longrightarrow> s < t + w" using snow by simp
  note R = bucket_sum_record [OF Cons.prems(4,3), of "\<lambda>t. now < t + w" s n, OF recent lim]
  note S = record_window_sorted [OF Cons.prems(4) le, of n w]
  have pre: "\<forall>b \<in> set ?bs. \<forall>t \<in> set (map fst log). bucket_second b \<le> t"
    using S(2) Cons.prems(1) e by fastforce
  have IH: "sorted_wrt (<) (seconds (window_of w log ?bs))
    \<and> bucket_sum (\<lambda>t. now < t + w) (window_of w log ?bs) = bucket_sum (\<lambda>t. now < t + w) ?bs + log_bytes now w log
    \<and> {t \<in> set (seconds (window_of w log ?bs)). now < t + w} =
        {t \<in> set (seconds ?bs). now < t + w} \<union> {t \<in> set (map fst log). now < t + w}"
    by (rule Cons.IH) (use Cons.prems e S pre R(2) in auto)
  moreover have "{t \<in> set (seconds ?bs). now < t + w} = {t \<in> insert s (set (seconds bs)). now < t + w}"
    unfolding record_window_seconds [OF Cons.prems(4,3)] using recent by auto
  ultimately show ?case
    using R(1) by (auto simp: e log_bytes_def)
qed

lemma foldl_sat_add: "a \<le> u64_max \<Longrightarrow> foldl sat_add a xs = min (a + sum_list xs) u64_max"
  by (induction xs arbitrary: a) (auto simp: sat_add_def min_def)

lemma hd_Min: "sorted xs \<Longrightarrow> xs \<noteq> [] \<Longrightarrow> hd xs = Min (set xs)"
  by (cases xs) (auto intro!: Min_eqI [symmetric])

text \<open>The oldest second of the log inside the window.\<close>

definition log_start :: "nat \<Rightarrow> nat \<Rightarrow> (nat \<times> nat) list \<Rightarrow> nat" where
  "log_start now w log = hd (filter (\<lambda>s. now < s + w) (map fst log))"

text \<open>C4: the rolling window computes the rate of the whole log. After any bytes recorded at seconds that
  do not go backwards, the rate is eight times the bytes of the last \<open>w\<close> seconds, divided by the seconds
  since the first of them (at most \<open>w\<close>), and zero when nothing was recorded in them.\<close>

theorem rolling_rate_refines_log:
  assumes "sorted (map fst log)" and "\<forall>s \<in> set (map fst log). s \<le> now" and "1 \<le> w" and "w \<le> u64_max"
    and "sum_list (map snd log) \<le> u64_max"
  shows "snd (rate_window now w (window_of w log [])) =
    (if \<forall>s \<in> set (map fst log). s + w \<le> now then (0, 0)
     else let n = min (now - log_start now w log + 1) w in (min (8 * log_bytes now w log) u64_max div n, n))"
proof -
  let ?bs = "window_of w log []" and ?Q = "\<lambda>t. now < t + w"
  have W: "sorted_wrt (<) (seconds ?bs) \<and> bucket_sum ?Q ?bs = log_bytes now w log
    \<and> {t \<in> set (seconds ?bs). ?Q t} = {t \<in> set (map fst log). ?Q t}"
    using window_of_props [OF assms(1-3), of "[]"] assms(5) by (simp add: seconds_def)
  define ps where "ps = prune_window now w ?bs"
  have ps: "ps = filter (\<lambda>b. ?Q (bucket_second b)) ?bs"
    unfolding ps_def using W assms(3) by (intro prune_filter) auto
  have bytes: "sum_list (map bucket_bytes ps) = log_bytes now w log"
    using W by (simp add: ps bucket_sum_def comp_def)
  have "set (seconds ps) = {t \<in> set (seconds ?bs). ?Q t}"
    by (auto simp: ps seconds_def)
  then have secs: "set (seconds ps) = {t \<in> set (map fst log). ?Q t}"
    using W by blast
  show ?thesis
  proof (cases "\<forall>s \<in> set (map fst log). s + w \<le> now")
    case True
    then have "set (seconds ps) = {}" unfolding secs by (auto simp: not_less)
    then show ?thesis using True by (simp add: rate_window_def Let_def seconds_def flip: ps_def)
  next
    case False
    then have ne: "seconds ps \<noteq> []" "filter ?Q (map fst log) \<noteq> []"
      using secs by (auto simp: filter_empty_conv not_le simp flip: set_empty2 simp del: set_map)
    have sorted: "sorted (seconds ps)"
      using W sorted_prune [of ?bs now w] by (simp add: ps_def strict_sorted_imp_sorted)
    have "hd (seconds ps) = log_start now w log"
      unfolding log_start_def
      using hd_Min [OF sorted ne(1)] hd_Min [OF sorted_wrt_filter [OF assms(1)] ne(2)] secs by simp
    then obtain b bs where b: "ps = b # bs" "bucket_second b = log_start now w log"
      using ne(1) by (cases ps) (auto simp: seconds_def)
    have "log_bytes now w log \<le> u64_max"
      unfolding log_bytes_def using assms(5) sum_list_filter_le_nat order_trans by blast
    then have "foldl sat_add 0 (map bucket_bytes ps) = log_bytes now w log"
      using foldl_sat_add [of 0 "map bucket_bytes ps"] bytes by simp
    moreover have "max (min (now - log_start now w log + 1) w) 1 = min (now - log_start now w log + 1) w"
      using assms(3) by simp
    moreover have "min (sat_add (now - log_start now w log) 1) w = min (now - log_start now w log + 1) w"
      using assms(4) by (auto simp: sat_add_def min_def)
    ultimately have "snd (rate_window now w ?bs) =
        (min (8 * log_bytes now w log) u64_max div min (now - log_start now w log + 1) w,
         min (now - log_start now w log + 1) w)"
      using b by (simp add: rate_window_def Let_def sat_mul_def mult.commute flip: ps_def)
    then show ?thesis unfolding if_not_P [OF False] Let_def .
  qed
qed


theorem rolling_rate_refines_log_witness:
  "snd (rate_window 12 10 (window_of 10 [(1, 500), (5, 100), (5, 50), (11, 200)] [])) = (350, 8)"
proof -
  have "log_start 12 10 [(1, 500), (5, 100), (5, 50), (11, 200)] = 5"
    "log_bytes 12 10 [(1, 500), (5, 100), (5, 50), (11, 200)] = 350"
    by (simp_all add: log_start_def log_bytes_def)
  then show ?thesis
    using rolling_rate_refines_log [of "[(1, 500), (5, 100), (5, 50), (11, 200)]" 12 10]
    by (simp add: u64_max_def)
qed

section \<open>Sessions\<close>

definition edge_inv :: "edge_admission \<Rightarrow> bool" where
  "edge_inv e \<longleftrightarrow> edge_config_ok (edge_config e) \<and> table_ok (sessions e)
     \<and> length (sessions e) \<le> max_sessions (edge_config e)"

inductive edge_reachable :: "edge_admission \<Rightarrow> bool" where
  edge_start: "edge_reachable (edge_new c)"
| edge_record: "edge_reachable e \<Longrightarrow> edge_reachable (record_bytes second bytes e)"
| edge_reject: "edge_reachable e \<Longrightarrow> edge_reachable (record_rejection e)"
| edge_snapshot: "edge_reachable e \<Longrightarrow> edge_reachable (fst (snapshot_at second ms e))"
| edge_admit: "edge_reachable e \<Longrightarrow> edge_reachable (fst (admit_playback session second ms ms' e))"

lemma prune_sessions_ok:
  "table_ok ss \<Longrightarrow> table_ok (prune_sessions now idle ss)" "length (prune_sessions now idle ss) \<le> length ss"
  by (simp_all add: prune_sessions_def Let_def length_retain_le)

lemma map_of_prune:
  "table_ok ss \<Longrightarrow> map_of (prune_sessions now idle ss) sid =
     (case map_of ss sid of None \<Rightarrow> None | Some t \<Rightarrow> if now - t < sat_mul idle 1000 then Some t else None)"
  by (simp add: prune_sessions_def Let_def map_of_retain)

text \<open>Eviction makes room for one session and removes one that was seen longest ago.\<close>

lemma evict_oldest_room:
  assumes "table_ok ss" and "length ss \<le> m" and "1 \<le> m"
  shows "table_ok (evict_oldest m ss)" and "length (evict_oldest m ss) < m"
proof -
  show "table_ok (evict_oldest m ss)"
    using assms(1) by (auto simp: evict_oldest_def split: option.splits)
  show "length (evict_oldest m ss) < m"
  proof (cases "length ss < m")
    case True
    then show ?thesis by (simp add: evict_oldest_def)
  next
    case False
    then have "ss \<noteq> []" using assms(3) by auto
    then obtain k t where k: "min_by_key snd ss = Some (k, t)" by (metis min_by_key_None not_None_eq surj_pair)
    then have "map_of ss k = Some t" using assms(1) min_by_key_in by (metis map_of_eq_Some_iff)
    then have "length ss = Suc (length (tdel k ss))" using tdel_length_less [OF assms(1)] by blast
    then show ?thesis using False k assms(2) by (simp add: evict_oldest_def)
  qed
qed

lemma snapshot_parts:
  "sessions (fst (snapshot_at second ms e)) = prune_sessions ms (session_idle_seconds (edge_config e)) (sessions e)"
  "edge_config (fst (snapshot_at second ms e)) = edge_config e"
  by (simp_all add: snapshot_at_def Let_def active_sessions_at_def case_prod_beta)

lemma edge_inv_snapshot: "edge_inv e \<Longrightarrow> edge_inv (fst (snapshot_at second ms e))"
  using prune_sessions_ok [where ss = "sessions e" and now = ms and idle = "session_idle_seconds (edge_config e)"]
  by (auto simp: edge_inv_def snapshot_parts intro: order_trans)

lemma edge_inv_admit_at: "edge_inv e \<Longrightarrow> edge_inv (fst (admit_playback_at session over ms e))"
proof -
  assume inv: "edge_inv e"
  let ?ss = "prune_sessions ms (session_idle_seconds (edge_config e)) (sessions e)"
  have ok: "table_ok ?ss" "length ?ss \<le> max_sessions (edge_config e)" "1 \<le> max_sessions (edge_config e)"
    using inv prune_sessions_ok [where ss = "sessions e" and now = ms and idle = "session_idle_seconds (edge_config e)"]
    by (auto simp: edge_inv_def edge_config_ok_def intro: order_trans)
  note E = evict_oldest_room [OF ok]
  show ?thesis
    using inv ok E
    by (auto simp: admit_playback_at_def edge_inv_def Let_def ht.table_ok_put ht.length_put Suc_le_eq
        split: option.splits)
qed

lemma edge_reachable_inv: "edge_reachable e \<Longrightarrow> edge_inv e"
proof (induction rule: edge_reachable.induct)
  case (edge_start c)
  then show ?case by (simp add: edge_inv_def edge_new_def edge_normalized_ok)
next
  case (edge_admit e session second ms ms')
  then show ?case
    by (simp add: admit_playback_def Let_def case_prod_beta edge_inv_admit_at edge_inv_snapshot)
qed (auto simp: edge_inv_snapshot, auto simp: edge_inv_def record_bytes_def record_rejection_def)

section \<open>Properties\<close>

text \<open>a viewer that is already playing is never turned away. In a reachable state, a session seen
  less than the idle time ago is answered as existing whether or not the edge is overloaded, and its
  time stamp becomes the present one.\<close>

theorem existing_session_kept:
  assumes "edge_reachable e" and "map_of (sessions e) sid = Some t"
    and "ms - t < sat_mul (session_idle_seconds (edge_config e)) 1000"
    and "ms' - t < sat_mul (session_idle_seconds (edge_config e)) 1000"
  shows "snd (admit_playback (Some sid) second ms ms' e) = Existing
    \<and> map_of (sessions (fst (admit_playback (Some sid) second ms ms' e))) sid = Some ms'"
proof -
  have ok: "table_ok (sessions e)" using edge_reachable_inv [OF assms(1)] by (simp add: edge_inv_def)
  let ?idle = "session_idle_seconds (edge_config e)"
  have "map_of (prune_sessions ms' ?idle (prune_sessions ms ?idle (sessions e))) sid = Some t"
    using assms(2-4) ok by (simp add: map_of_prune prune_sessions_ok)
  then show ?thesis
    using ok by (simp add: admit_playback_def admit_playback_at_def Let_def case_prod_beta snapshot_parts
        ht.map_of_put prune_sessions_ok)
qed

theorem existing_session_kept_witness:
  "snd (admit_playback (Some ''v'') 50 50000 50001
     (fst (admit_playback (Some ''v'') 1 1000 1001 (edge_new edge_config_default)))) = Existing"
proof -
  let ?e = "fst (admit_playback (Some ''v'') 1 1000 1001 (edge_new edge_config_default))"
  have r: "edge_reachable ?e" by (intro edge_reachable.intros)
  have "map_of (sessions ?e) ''v'' = Some 1001" "session_idle_seconds (edge_config ?e) = 60" by code_simp+
  then show ?thesis
    using existing_session_kept [OF r, of "''v''" 1001 50000 50001 50] by (simp add: sat_mul_def u64_max_def)
qed

text \<open>no new viewer is admitted while the edge is overloaded, and the session table never exceeds its
  configured size: an answer of admitted or anonymous implies that the snapshot taken for it was not
  overloaded; the table keeps distinct sessions within the limit.\<close>

theorem overload_admits_nobody_new:
  assumes "edge_reachable e" and "admit_playback session second ms ms' e = (e', answer)"
  shows "(answer \<in> {Admitted, Anonymous} \<longrightarrow> \<not> snap_overloaded (snd (snapshot_at second ms e)))
    \<and> (answer = Rejected \<longrightarrow> snap_overloaded (snd (snapshot_at second ms e)))
    \<and> table_ok (sessions e') \<and> length (sessions e') \<le> max_sessions (edge_config e')"
proof -
  have "edge_reachable e'" using edge_reachable.edge_admit [OF assms(1)] assms(2) by (metis fst_conv)
  then have "edge_inv e'" by (rule edge_reachable_inv)
  then show ?thesis
    using assms(2)
    by (auto simp: admit_playback_def admit_playback_at_def Let_def edge_inv_def
        split: prod.splits option.splits if_splits)
qed

theorem overload_admits_nobody_new_witness:
  "length (sessions (fst (admit_playback (Some ''v'') 1 1000 1001 (edge_new edge_config_default)))) \<le> 100000"
proof -
  have "max_sessions (edge_config (fst (admit_playback (Some ''v'') 1 1000 1001 (edge_new edge_config_default)))) = 100000"
    by code_simp
  then show ?thesis
    using overload_admits_nobody_new [OF edge_reachable.edge_start [of edge_config_default]
        prod.collapse [symmetric], of "Some ''v''" 1 1000 1001] by simp
qed

text \<open>the overload flag has hysteresis. The recovery threshold is never above the admission
  threshold; between the two the flag keeps its value; it rises only at or above the admission
  threshold after the sustained time, and falls only below the recovery threshold.\<close>

theorem overload_hysteresis:
  assumes "edge_reachable e" and "snapshot_at second ms e = (e', snap)"
  shows "snap_recovery_bps snap \<le> snap_admission_bps snap
    \<and> is_overloaded e' = snap_overloaded snap
    \<and> (snap_recovery_bps snap \<le> snap_observed_bps snap \<longrightarrow> snap_observed_bps snap < snap_admission_bps snap \<longrightarrow>
         snap_overloaded snap = is_overloaded e)
    \<and> (\<not> is_overloaded e \<longrightarrow> snap_overloaded snap \<longrightarrow> snap_admission_bps snap \<le> snap_observed_bps snap
         \<and> min_sustained_seconds (edge_config e) \<le> snap_observation_seconds snap)
    \<and> (is_overloaded e \<longrightarrow> \<not> snap_overloaded snap \<longrightarrow> snap_observed_bps snap < snap_recovery_bps snap)"
proof -
  have "edge_config_ok (edge_config e)" using edge_reachable_inv [OF assms(1)] by (simp add: edge_inv_def)
  then show ?thesis
    using assms(2) recovery_le_admission
    by (auto simp: snapshot_at_def Let_def next_overloaded_def active_sessions_at_def split: prod.splits if_splits)
qed

theorem overload_hysteresis_witness:
  "snap_recovery_bps (snd (snapshot_at 3 3000 (edge_new edge_config_default))) = 3000000000 \<and>
   3000000000 \<le> snap_admission_bps (snd (snapshot_at 3 3000 (edge_new edge_config_default)))"
proof -
  have "snap_recovery_bps (snd (snapshot_at 3 3000 (edge_new edge_config_default))) = 3000000000" by code_simp
  then show ?thesis
    using overload_hysteresis [OF edge_reachable.edge_start [of edge_config_default] prod.collapse [symmetric],
        of 3 3000] by simp
qed

end
