(* ===== verification/Edge_Lifecycle.thy ===== *)
theory Edge_Lifecycle
  imports Mesh_Prelude
begin

text \<open>
  The planner that provisions and closes edge nodes, \<open>src/src/edge_lifecycle.rs\<close>. Every controller runs
  it over the same node reports; only the one that is the leader of a region acts there.

  The code groups the nodes by region in a hash map; here the regions come in the order of their first
  node. The regions do not interact and the actions are sorted at the end, by the text that derived
  \<open>Debug\<close> prints (\<open>debug_action\<close>; identifiers are ASCII), so the order of the groups does not show in the
  result. The sum of readers is 64-bit arithmetic of a release build.
\<close>

section \<open>Data\<close>

record lifecycle_config =
  enabled :: bool
  min_edges_per_region :: nat
  max_edges_per_region :: nat
  scale_up_active_readers :: nat
  idle_seconds :: nat
  provision_cooldown_seconds :: nat

definition lifecycle_config_default :: lifecycle_config where
  "lifecycle_config_default = \<lparr>enabled = False, min_edges_per_region = 1, max_edges_per_region = 4,
     scale_up_active_readers = 80, idle_seconds = 900, provision_cooldown_seconds = 30\<rparr>"

definition lifecycle_normalized :: "lifecycle_config \<Rightarrow> lifecycle_config" where
  "lifecycle_normalized c =
     (let c1 = c\<lparr>min_edges_per_region := max (min_edges_per_region c) 1\<rparr>
      in c1\<lparr>max_edges_per_region := max (max_edges_per_region c1) (min_edges_per_region c1),
            scale_up_active_readers := max (scale_up_active_readers c1) 1,
            idle_seconds := max (idle_seconds c1) 1,
            provision_cooldown_seconds := max (provision_cooldown_seconds c1) 1\<rparr>)"

record lifecycle_node =
  node_id :: string
  node_region :: string
  updated_unix_ms :: nat
  last_response_unix_ms :: "nat option"
  active_readers :: nat
  egress_overloaded :: bool
  draining :: bool

datatype lifecycle_action = Provision string | Close string string

fun action_region :: "lifecycle_action \<Rightarrow> string" where
  "action_region (Provision r) = r"
| "action_region (Close n r) = r"

record lifecycle_planner =
  last_provision_unix_ms :: "(string \<times> nat) list"
  pressure_samples :: "(string \<times> nat) list"

definition U32_MAX :: nat where
  "U32_MAX = 4294967295"

section \<open>The debug text of an action\<close>

definition hex_digit :: "nat \<Rightarrow> char" where
  "hex_digit n = (if n < 10 then char_of (48 + n) else char_of (87 + n))"

definition escape_char :: "char \<Rightarrow> string" where
  "escape_char c =
     (let n = (of_char c :: nat) in
      if n = 0 then [char_of (92::nat), CHR ''0'']
      else if n = 9 then [char_of (92::nat), CHR ''t'']
      else if n = 10 then [char_of (92::nat), CHR ''n'']
      else if n = 13 then [char_of (92::nat), CHR ''r'']
      else if n = 34 \<or> n = 92 then [char_of (92::nat), c]
      else if n < 32 \<or> n = 127 then
        [char_of (92::nat), CHR ''u'', CHR ''{''] @ (if n < 16 then [] else [hex_digit (n div 16)])
          @ [hex_digit (n mod 16), CHR ''}'']
      else [c])"

definition debug_string :: "string \<Rightarrow> string" where
  "debug_string s = [char_of (34::nat)] @ concat (map escape_char s) @ [char_of (34::nat)]"

fun debug_action :: "lifecycle_action \<Rightarrow> string" where
  "debug_action (Provision r) = ''Provision { region: '' @ debug_string r @ '' }''"
| "debug_action (Close n r) = ''Close { node_id: '' @ debug_string n @ '', region: '' @ debug_string r @ '' }''"

section \<open>Planning\<close>

fun group_regions :: "lifecycle_node list \<Rightarrow> (string \<times> lifecycle_node list) list \<Rightarrow> (string \<times> lifecycle_node list) list" where
  "group_regions [] m = m"
| "group_regions (node # nodes) m =
     group_regions nodes (tput (node_region node) (get_or [] m (node_region node) @ [node]) m)"

definition region_live :: "lifecycle_node list \<Rightarrow> lifecycle_node list" where
  "region_live ns = filter (\<lambda>n. \<not> draining n) ns"

definition region_readers :: "lifecycle_node list \<Rightarrow> nat" where
  "region_readers ns = sum_list (map active_readers (region_live ns)) mod 2 ^ 64"

definition region_pressure :: "lifecycle_config \<Rightarrow> lifecycle_node list \<Rightarrow> bool" where
  "region_pressure c ns \<longleftrightarrow>
     list_ex (\<lambda>n. \<not> draining n \<and> egress_overloaded n) ns \<or> region_readers ns \<ge> scale_up_active_readers c"

definition region_leader :: "lifecycle_node list \<Rightarrow> lifecycle_node option" where
  "region_leader ns = min_by_key node_id (region_live ns)"

definition is_leader :: "string \<Rightarrow> lifecycle_node list \<Rightarrow> bool" where
  "is_leader controller ns = (case region_leader ns of None \<Rightarrow> False | Some n \<Rightarrow> node_id n = controller)"

definition node_activity :: "lifecycle_node \<Rightarrow> nat" where
  "node_activity n = (case last_response_unix_ms n of None \<Rightarrow> updated_unix_ms n | Some t \<Rightarrow> t)"

definition close_candidate :: "lifecycle_config \<Rightarrow> nat \<Rightarrow> lifecycle_node list \<Rightarrow> lifecycle_node option" where
  "close_candidate c now ns =
     min_by_key (\<lambda>n. (node_activity n, node_id n))
       (filter (\<lambda>n. sat_sub now (node_activity n) \<ge> sat_mul (idle_seconds c) 1000)
          (filter (\<lambda>n. \<not> draining n \<and> active_readers n = 0) ns))"

text \<open>Two or more consecutive samples under pressure are needed to provision.\<close>

definition sample_pressure :: "bool \<Rightarrow> string \<Rightarrow> lifecycle_planner \<Rightarrow> lifecycle_planner \<times> nat" where
  "sample_pressure pressure region p =
     (if pressure
      then let samples = min (get_or 0 (pressure_samples p) region + 1) U32_MAX
           in (p\<lparr>pressure_samples := tput region samples (pressure_samples p)\<rparr>, samples)
      else (p\<lparr>pressure_samples := tdel region (pressure_samples p)\<rparr>, 0))"

definition plan_region ::
  "lifecycle_config \<Rightarrow> string \<Rightarrow> nat \<Rightarrow> string \<Rightarrow> lifecycle_node list \<Rightarrow> lifecycle_planner
     \<Rightarrow> lifecycle_planner \<times> lifecycle_action list" where
  "plan_region c controller now region ns p =
     (let live = length (region_live ns);
          (p1, samples) = sample_pressure (region_pressure c ns) region p;
          close = (if live \<le> min_edges_per_region c \<or> \<not> is_leader controller ns then []
                   else case close_candidate c now ns of None \<Rightarrow> [] | Some n \<Rightarrow> [Close (node_id n) region])
      in if live < max_edges_per_region c \<and> samples \<ge> 2 \<and> is_leader controller ns
            \<and> sat_sub now (get_or 0 (last_provision_unix_ms p1) region) \<ge> sat_mul (provision_cooldown_seconds c) 1000
         then (p1\<lparr>last_provision_unix_ms := tput region now (last_provision_unix_ms p1)\<rparr>, [Provision region])
         else (p1, close))"

fun plan_regions ::
  "lifecycle_config \<Rightarrow> string \<Rightarrow> nat \<Rightarrow> (string \<times> lifecycle_node list) list \<Rightarrow> lifecycle_planner
     \<Rightarrow> lifecycle_action list \<Rightarrow> lifecycle_planner \<times> lifecycle_action list" where
  "plan_regions c controller now [] p actions = (p, actions)"
| "plan_regions c controller now ((region, ns) # rest) p actions =
     (let (p1, new) = plan_region c controller now region ns p
      in plan_regions c controller now rest p1 (actions @ new))"

definition plan ::
  "lifecycle_config \<Rightarrow> lifecycle_node list \<Rightarrow> string \<Rightarrow> nat \<Rightarrow> lifecycle_planner
     \<Rightarrow> lifecycle_planner \<times> lifecycle_action list" where
  "plan config nodes controller now p =
     (let c = lifecycle_normalized config in
      if \<not> enabled c then (p, [])
      else let (p1, actions) = plan_regions c controller now (group_regions nodes []) p []
           in (p1, sort_key debug_action actions))"

section \<open>Grouping\<close>

lemma group_regions_lookup:
  "table_ok m \<Longrightarrow> table_ok (group_regions nodes m) \<and>
   map_of (group_regions nodes m) r =
     (case map_of m r of
        None \<Rightarrow> if filter (\<lambda>n. node_region n = r) nodes = [] then None
               else Some (filter (\<lambda>n. node_region n = r) nodes)
      | Some ns \<Rightarrow> Some (ns @ filter (\<lambda>n. node_region n = r) nodes))"
proof (induction nodes arbitrary: m)
  case Nil
  then show ?case by (auto split: option.splits)
next
  case (Cons n nodes)
  let ?m = "tput (node_region n) (get_or [] m (node_region n) @ [n]) m"
  have "table_ok ?m" using Cons.prems by (rule ht.table_ok_put)
  from Cons.IH [OF this] show ?case
    using Cons.prems by (auto simp: ht.map_of_put get_or_def split: option.splits)
qed

lemma group_regions_in:
  "(r, ns) \<in> set (group_regions nodes []) \<longleftrightarrow> ns = filter (\<lambda>n. node_region n = r) nodes \<and> ns \<noteq> []"
proof -
  have "table_ok (group_regions nodes [])" using group_regions_lookup [of "[]" nodes r] by simp
  then show ?thesis
    using group_regions_lookup [of "[]" nodes r] map_of_in_set [of "group_regions nodes []" r ns]
    by (auto split: if_splits)
qed

section \<open>What one region does\<close>

text \<open>Everything a planner may do in a region, and what it needs to do it.\<close>

definition action_justified ::
  "lifecycle_config \<Rightarrow> string \<Rightarrow> nat \<Rightarrow> lifecycle_node list \<Rightarrow> lifecycle_planner \<Rightarrow> lifecycle_action \<Rightarrow> bool" where
  "action_justified c controller now ns p a \<longleftrightarrow> is_leader controller ns \<and>
     (case a of
        Provision r \<Rightarrow> length (region_live ns) < max_edges_per_region c \<and> region_pressure c ns
          \<and> 1 \<le> get_or 0 (pressure_samples p) r
          \<and> sat_mul (provision_cooldown_seconds c) 1000 \<le> now - get_or 0 (last_provision_unix_ms p) r
      | Close n r \<Rightarrow> min_edges_per_region c < length (region_live ns)
          \<and> (\<exists>node \<in> set (region_live ns). node_id node = n \<and> active_readers node = 0
               \<and> sat_mul (idle_seconds c) 1000 \<le> now - node_activity node))"

lemma close_candidate_Some:
  "close_candidate c now ns = Some n \<Longrightarrow>
     n \<in> set (region_live ns) \<and> active_readers n = 0 \<and> sat_mul (idle_seconds c) 1000 \<le> now - node_activity n"
  by (auto simp: close_candidate_def region_live_def dest!: min_by_key_in)

lemma plan_region_actions:
  assumes "plan_region c controller now r ns p = (p', as)"
  shows "length as \<le> 1 \<and> (\<forall>a \<in> set as. action_region a = r \<and> action_justified c controller now ns p a)"
proof -
  obtain p1 samples where sp: "sample_pressure (region_pressure c ns) r p = (p1, samples)" by fastforce
  then have s: "samples \<ge> 2 \<Longrightarrow> region_pressure c ns \<and> 1 \<le> get_or 0 (pressure_samples p) r"
    and l: "last_provision_unix_ms p1 = last_provision_unix_ms p"
    by (auto simp: sample_pressure_def Let_def split: if_splits)
  show ?thesis
    using assms sp s l
    by (auto simp: plan_region_def Let_def action_justified_def dest!: close_candidate_Some
        split: if_splits option.splits)
qed

lemma plan_region_planner:
  assumes "plan_region c controller now r ns p = (p', as)" and "table_ok (last_provision_unix_ms p)"
  shows "table_ok (last_provision_unix_ms p') \<and>
    map_of (last_provision_unix_ms p') q =
      (if Provision q \<in> set as then Some now else map_of (last_provision_unix_ms p) q)"
proof -
  obtain p1 samples where sp: "sample_pressure (region_pressure c ns) r p = (p1, samples)" by fastforce
  then have l: "last_provision_unix_ms p1 = last_provision_unix_ms p"
    by (auto simp: sample_pressure_def Let_def split: if_splits)
  then show ?thesis
    using assms sp
    by (auto simp: plan_region_def Let_def ht.table_ok_put ht.map_of_put split: if_splits option.splits)
qed

lemma sample_pressure_other:
  "q \<noteq> r \<Longrightarrow> get_or 0 (pressure_samples (fst (sample_pressure b r p))) q = get_or 0 (pressure_samples p) q"
  by (simp add: sample_pressure_def get_or_def Let_def update_conv')

lemma plan_region_other:
  assumes pr: "plan_region c controller now r ns p = (p', as)" and q: "q \<noteq> r"
  shows "get_or 0 (pressure_samples p') q = get_or 0 (pressure_samples p) q
    \<and> get_or 0 (last_provision_unix_ms p') q = get_or 0 (last_provision_unix_ms p) q"
proof -
  obtain p1 samples where sp: "sample_pressure (region_pressure c ns) r p = (p1, samples)" by fastforce
  have s: "get_or 0 (pressure_samples p1) q = get_or 0 (pressure_samples p) q"
    using sample_pressure_other [OF q, of "region_pressure c ns" p] by (simp add: sp)
  have l: "last_provision_unix_ms p1 = last_provision_unix_ms p"
    using sp by (auto simp: sample_pressure_def Let_def split: if_splits)
  have "p' = p1 \<or> p' = p1\<lparr>last_provision_unix_ms := tput r now (last_provision_unix_ms p1)\<rparr>"
    using pr sp by (auto simp: plan_region_def Let_def split: if_splits)
  then show ?thesis
    using s l q by (auto simp: get_or_def update_conv')
qed

lemma action_justified_cong:
  "get_or 0 (pressure_samples p') (action_region a) = get_or 0 (pressure_samples p) (action_region a) \<Longrightarrow>
   get_or 0 (last_provision_unix_ms p') (action_region a) = get_or 0 (last_provision_unix_ms p) (action_region a) \<Longrightarrow>
   action_justified c controller now ns p' a = action_justified c controller now ns p a"
  by (cases a) (simp_all add: action_justified_def)

section \<open>All regions\<close>

lemma plan_regions_actions:
  assumes "plan_regions c controller now gs p acc = (p', as)" and "distinct (map fst gs)"
  shows "\<exists>new. as = acc @ new \<and> distinct (map action_region new) \<and>
    (\<forall>a \<in> set new. \<exists>ns. (action_region a, ns) \<in> set gs \<and> action_justified c controller now ns p a)"
  using assms
proof (induction gs arbitrary: p acc)
  case Nil
  then show ?case by simp
next
  case (Cons g gs)
  obtain r ns where g: "g = (r, ns)" by (cases g)
  obtain p1 new1 where pr: "plan_region c controller now r ns p = (p1, new1)" by fastforce
  with Cons.prems g have rest: "plan_regions c controller now gs p1 (acc @ new1) = (p', as)" by simp
  from Cons.IH [OF rest] Cons.prems(2) obtain new2 where n2: "as = (acc @ new1) @ new2"
    "distinct (map action_region new2)"
    "\<forall>a \<in> set new2. \<exists>ns. (action_region a, ns) \<in> set gs \<and> action_justified c controller now ns p1 a" by auto
  have ne: "action_region a \<noteq> r" if "a \<in> set new2" for a
    using n2(3) that Cons.prems(2) g by (force simp: image_iff)
  have just: "action_justified c controller now ns' p1 a = action_justified c controller now ns' p a"
    if "a \<in> set new2" for a ns'
    using plan_region_other [OF pr ne [OF that]] by (intro action_justified_cong) simp_all
  note P1 = plan_region_actions [OF pr]
  have d1: "distinct (map action_region new1)"
    using P1 by (cases new1) auto
  have "distinct (map action_region (new1 @ new2))"
    using d1 n2(2) P1 ne by auto
  moreover have "\<forall>a \<in> set (new1 @ new2). \<exists>ns. (action_region a, ns) \<in> set (g # gs)
      \<and> action_justified c controller now ns p a"
    using P1 n2(3) just g by fastforce
  ultimately show ?case using n2(1) by (intro exI [of _ "new1 @ new2"]) simp
qed

lemma plan_regions_planner:
  assumes "plan_regions c controller now gs p acc = (p', as)" and "table_ok (last_provision_unix_ms p)"
    and "Provision q \<notin> set acc \<or> map_of (last_provision_unix_ms p) q = Some now"
  shows "table_ok (last_provision_unix_ms p') \<and> map_of (last_provision_unix_ms p') q =
    (if Provision q \<in> set as then Some now else map_of (last_provision_unix_ms p) q)"
  using assms
proof (induction gs arbitrary: p acc)
  case Nil
  then show ?case by auto
next
  case (Cons g gs)
  obtain r ns where g: "g = (r, ns)" by (cases g)
  obtain p1 new1 where pr: "plan_region c controller now r ns p = (p1, new1)" by fastforce
  with Cons.prems g have rest: "plan_regions c controller now gs p1 (acc @ new1) = (p', as)" by simp
  note P = plan_region_planner [OF pr Cons.prems(2), of q]
  have "set (acc @ new1) \<subseteq> set as"
  proof -
    have "\<exists>ys. snd (plan_regions c controller now gs p1 xs) = xs @ ys" for xs
      by (induction gs arbitrary: p1 xs) (auto split: prod.splits, metis append.assoc snd_conv)
    from this [of "acc @ new1"] rest show ?thesis by auto
  qed
  then show ?case
    using Cons.IH [OF rest] P Cons.prems(3) by auto
qed

lemma plan_parts:
  assumes "plan config nodes controller now p = (p', as)"
  shows "distinct (map action_region as) \<and> sorted (map debug_action as) \<and>
    (\<forall>a \<in> set as. enabled config \<and> action_justified (lifecycle_normalized config) controller now
       (filter (\<lambda>n. node_region n = action_region a) nodes) p a)"
proof (cases "enabled config")
  case False
  then show ?thesis using assms by (simp add: plan_def Let_def lifecycle_normalized_def)
next
  case True
  let ?c = "lifecycle_normalized config"
  obtain acts where a: "plan_regions ?c controller now (group_regions nodes []) p [] = (p', acts)"
    "as = sort_key debug_action acts"
    using assms True by (auto simp: plan_def Let_def lifecycle_normalized_def split: prod.splits)
  have "distinct (map fst (group_regions nodes []))" using group_regions_lookup [of "[]" nodes] by simp
  from plan_regions_actions [OF a(1) this] have d: "distinct (map action_region acts)"
    and j: "\<forall>a \<in> set acts. \<exists>ns. (action_region a, ns) \<in> set (group_regions nodes [])
      \<and> action_justified ?c controller now ns p a" by auto
  have "distinct (map action_region as)"
    unfolding a(2) by (metis d distinct_map distinct_sort set_sort)
  moreover have "\<forall>x \<in> set as. enabled config \<and> action_justified ?c controller now
       (filter (\<lambda>n. node_region n = action_region x) nodes) p x"
    using j True by (auto simp: a(2) group_regions_in)
  ultimately show ?thesis by (simp add: a(2))
qed

lemma plan_planner:
  assumes "plan config nodes controller now p = (p', as)" and "table_ok (last_provision_unix_ms p)"
  shows "table_ok (last_provision_unix_ms p') \<and> map_of (last_provision_unix_ms p') q =
    (if Provision q \<in> set as then Some now else map_of (last_provision_unix_ms p) q)"
  using assms plan_regions_planner [of "lifecycle_normalized config" controller now "group_regions nodes []" p "[]" p' _ q]
  by (auto simp: plan_def Let_def split: if_splits prod.splits)

section \<open>Runs\<close>

definition planner_default :: lifecycle_planner where
  "planner_default = \<lparr>last_provision_unix_ms = [], pressure_samples = []\<rparr>"

text \<open>A run of one controller with a fixed configuration over a sequence of reports; the result is the
  list of plans.\<close>

fun plan_run ::
  "lifecycle_config \<Rightarrow> string \<Rightarrow> (lifecycle_node list \<times> nat) list \<Rightarrow> lifecycle_planner
     \<Rightarrow> lifecycle_planner \<times> lifecycle_action list list" where
  "plan_run config controller [] p = (p, [])"
| "plan_run config controller ((nodes, now) # rest) p =
     (let (p1, as) = plan config nodes controller now p;
          (p2, ass) = plan_run config controller rest p1
      in (p2, as # ass))"

lemma plan_run_ok: "table_ok (last_provision_unix_ms p) \<Longrightarrow> table_ok (last_provision_unix_ms (fst (plan_run c ctl xs p)))"
proof (induction xs arbitrary: p)
  case Nil
  then show ?case by simp
next
  case (Cons x xs)
  then show ?case
    using plan_planner by (cases x) (fastforce split: prod.splits)
qed

lemma plan_run_append:
  "plan_run c ctl (xs @ ys) q =
     (fst (plan_run c ctl ys (fst (plan_run c ctl xs q))),
      snd (plan_run c ctl xs q) @ snd (plan_run c ctl ys (fst (plan_run c ctl xs q))))"
proof (induction xs arbitrary: q)
  case Nil
  then show ?case by simp
next
  case (Cons x xs)
  then show ?case by (cases x) (simp add: case_prod_beta Let_def)
qed

lemma plan_run_length: "length (snd (plan_run c ctl xs q)) = length xs"
proof (induction xs arbitrary: q)
  case Nil
  then show ?case by simp
next
  case (Cons x xs)
  then show ?case by (cases x) (simp add: case_prod_beta Let_def)
qed

lemma plan_run_keeps:
  "table_ok (last_provision_unix_ms p) \<Longrightarrow> plan_run c ctl xs p = (p', ass) \<Longrightarrow> \<forall>as \<in> set ass. Provision q \<notin> set as \<Longrightarrow>
   map_of (last_provision_unix_ms p') q = map_of (last_provision_unix_ms p) q"
proof (induction xs arbitrary: p ass)
  case Nil
  then show ?case by simp
next
  case (Cons x xs)
  obtain nodes now where x: "x = (nodes, now)" by (cases x)
  obtain p1 as where a: "plan c nodes ctl now p = (p1, as)" by fastforce
  obtain p2 ass' where b: "plan_run c ctl xs p1 = (p2, ass')" by fastforce
  have s: "p' = p2" "ass = as # ass'" using Cons.prems(2) x a b by simp_all
  have "table_ok (last_provision_unix_ms p1)" using plan_planner [OF a Cons.prems(1)] by blast
  from Cons.IH [OF this b [folded s(1)]] Cons.prems(3) s(2) plan_planner [OF a Cons.prems(1), of q]
  show ?case by simp
qed

section \<open>Properties\<close>

definition ex_node :: "string \<Rightarrow> nat \<Rightarrow> lifecycle_node" where
  "ex_node i readers = \<lparr>node_id = i, node_region = ''eu'', updated_unix_ms = 0, last_response_unix_ms = None,
     active_readers = readers, egress_overloaded = False, draining = False\<rparr>"

definition ex_life :: lifecycle_config where
  "ex_life = lifecycle_config_default\<lparr>enabled := True\<rparr>"

text \<open>C5: a plan holds at most one action per region, in the order of their debug text, and every action
  is justified. A node is provisioned only by the leader of the region, under pressure in this and
  the previous sample, below the maximum and after the cool-down; a node is closed only by the leader,
  when more than the minimum are live, and only one that is live, has no readers and is idle.\<close>

theorem plan_actions_justified:
  assumes "plan config nodes controller now p = (p', as)"
  shows "distinct (map action_region as) \<and> sorted (map debug_action as) \<and>
    (\<forall>a \<in> set as. enabled config \<and> action_justified (lifecycle_normalized config) controller now
       (filter (\<lambda>n. node_region n = action_region a) nodes) p a)"
  using plan_parts [OF assms] .

theorem plan_actions_justified_witness:
  "snd (plan ex_life [ex_node ''a'' 0, ex_node ''b'' 5] ''a'' 1000000 planner_default) = [Close ''a'' ''eu'']
   \<and> action_justified (lifecycle_normalized ex_life) ''a'' 1000000
       (filter (\<lambda>n. node_region n = ''eu'') [ex_node ''a'' 0, ex_node ''b'' 5]) planner_default (Close ''a'' ''eu'')"
proof -
  have s: "snd (plan ex_life [ex_node ''a'' 0, ex_node ''b'' 5] ''a'' 1000000 planner_default) = [Close ''a'' ''eu'']"
    by code_simp
  then show ?thesis
    using plan_actions_justified [OF prod.collapse [symmetric],
        of ex_life "[ex_node ''a'' 0, ex_node ''b'' 5]" "''a''" 1000000 planner_default] by simp
qed

text \<open>two controllers never act on the same region: given the same reports, the regions that two
  different controllers plan for are disjoint, whatever their own histories.\<close>

theorem one_controller_per_region:
  assumes "a \<noteq> b" and "plan config nodes a now p = (p', as)" and "plan config nodes b now' q = (q', bs)"
  shows "action_region ` set as \<inter> action_region ` set bs = {}"
proof -
  let ?ns = "\<lambda>r. filter (\<lambda>n. node_region n = r) nodes"
  have a: "is_leader a (?ns (action_region x))" if "x \<in> set as" for x
    using plan_parts [OF assms(2)] that by (simp add: action_justified_def)
  have b: "is_leader b (?ns (action_region x))" if "x \<in> set bs" for x
    using plan_parts [OF assms(3)] that by (simp add: action_justified_def)
  have one: "\<not> (is_leader a ns \<and> is_leader b ns)" for ns
    using assms(1) by (auto simp: is_leader_def split: option.splits)
  have "action_region x \<noteq> action_region y" if "x \<in> set as" "y \<in> set bs" for x y
    using a [OF that(1)] b [OF that(2)] one by metis
  then show ?thesis by blast
qed

theorem one_controller_per_region_witness:
  "action_region ` set (snd (plan ex_life [ex_node ''a'' 0, ex_node ''b'' 5] ''a'' 1000000 planner_default)) \<inter>
   action_region ` set (snd (plan ex_life [ex_node ''a'' 0, ex_node ''b'' 5] ''b'' 1000000 planner_default)) = {}"
  by (rule one_controller_per_region [OF _ prod.collapse [symmetric] prod.collapse [symmetric], of "''a''" "''b''"]) simp

text \<open>provisions of a region are separated by the cool-down. In any run of a controller, when it
  provisions a region and later, with no provision of that region in between, provisions it again, at
  least the cool-down has passed between the two reports.\<close>

theorem provision_cooldown:
  assumes "table_ok (last_provision_unix_ms p)"
    and "plan_run config controller ((nodes, now) # between @ [(nodes', now')]) p = (p', as # mid @ [as'])"
    and "length mid = length between" and "Provision r \<in> set as" and "Provision r \<in> set as'"
    and "\<forall>m \<in> set mid. Provision r \<notin> set m"
  shows "sat_mul (provision_cooldown_seconds (lifecycle_normalized config)) 1000 \<le> now' - now"
proof -
  obtain p1 where a: "plan config nodes controller now p = (p1, as)"
    and b: "plan_run config controller (between @ [(nodes', now')]) p1 = (p', mid @ [as'])"
    using assms(2) by (auto split: prod.splits)
  obtain p2 mid' where c: "plan_run config controller between p1 = (p2, mid')" by fastforce
  have "length mid' = length mid" using plan_run_length [of config controller between p1] c assms(3) by simp
  then have m: "mid' = mid" and d: "plan config nodes' controller now' p2 = (p', as')"
    using b c by (auto simp: plan_run_append Let_def split: prod.splits)
  note P1 = plan_planner [OF a assms(1), of r]
  have "map_of (last_provision_unix_ms p2) r = Some now"
    using plan_run_keeps [of p1 config controller between p2 mid r] P1 c m assms(4,6) by simp
  then show ?thesis
    using plan_parts [OF d] assms(5) by (auto simp: action_justified_def get_or_def)
qed

theorem provision_cooldown_witness:
  "sat_mul (provision_cooldown_seconds (lifecycle_normalized ex_life)) 1000 \<le> (160000::nat) - 100000"
proof -
  let ?n = "[ex_node ''a'' 100]"
  let ?p = "fst (plan ex_life ?n ''a'' 90000 planner_default)"
  have "snd (plan_run ex_life ''a'' ((?n, 100000) # [(?n, 110000)] @ [(?n, 160000)]) ?p) =
      [Provision ''eu''] # [[]] @ [[Provision ''eu'']]"
    by code_simp
  then have r: "plan_run ex_life ''a'' ((?n, 100000) # [(?n, 110000)] @ [(?n, 160000)]) ?p =
      (fst (plan_run ex_life ''a'' ((?n, 100000) # [(?n, 110000)] @ [(?n, 160000)]) ?p),
       [Provision ''eu''] # [[]] @ [[Provision ''eu'']])"
    by (metis prod.collapse)
  have ok: "table_ok (last_provision_unix_ms ?p)" by code_simp
  show ?thesis
    by (rule provision_cooldown [OF ok r, of "''eu''"]) simp_all
qed

end
