(* ===== verification/Relay_Ingress.thy ===== *)
theory Relay_Ingress
  imports Mesh_Prelude
begin

text \<open>
  The cross-parent object receiver, \<open>src/src/relay_ingress.rs\<close>: registered parent sessions, announced
  objects that are being assembled from the symbols of up to two parents, tombstones of completed
  objects, one key per logical object identity, byte and datagram budgets, expiry, and the UDP adapter
  that finds the session of a peer.

  The wire format, the assembler and the media types belong to the crates \<open>relay_session\<close>,
  \<open>media_object\<close> and \<open>raptorq_datagram_fec\<close>. Their functions are the fields of the record
  \<open>relay_lib\<close>; their values of which the code only asks equality are of the type \<open>'o\<close>, assemblers of the
  type \<open>'a\<close> and decoded objects of the type \<open>'m\<close>. Their enumerations have the constructors that the code
  names and one for all others. As in the FEC receiver, a failing \<open>expect\<close> is \<open>None\<close>.
\<close>

section \<open>Data\<close>

type_synonym wire = "u8 list"

text \<open>A socket address: the address as a number, and the port.\<close>

type_synonym socket_addr = "nat \<times> nat"

datatype 'o carrier_kind = QuicDatagram | PrivateUdp | OtherCarrier 'o
datatype 'o trust_mode =
  AuthenticatedSession | PrivateAuthenticatedNetwork | ControlledPrivateNetwork | OtherTrust 'o
datatype 'o parent_path = Primary | Secondary | PromotedSecondary | OtherPath 'o
datatype datagram_role = Source | Repair
datatype 'o media_object_kind =
  KindInitialization | KindCodecConfig | KindData | KindVideoKeyframe | KindAudio | KindVideoDelta | KindOther 'o
datatype object_kind = Initialization | CodecConfiguration | Discontinuity | Media
datatype 'o session_error = CodingProfileConflict | SessionObjectIdentityConflict | OtherSessionError 'o

record 'o carrier_identity =
  id_local :: 'o
  id_peer :: 'o
  id_kind :: "'o carrier_kind"
  id_trust_mode :: "'o trust_mode"

datatype logical_identity =
  LogicalObjectIdentity string string string nat nat nat nat

text \<open>A key is its logical identity and the rest of the third-party key (the payload hash).\<close>

record 'o media_key =
  key_tenant :: string
  key_stream :: string
  key_track :: string
  key_epoch :: nat
  key_group :: nat
  key_object :: nat
  key_version :: nat
  key_rest :: 'o

definition logical_of :: "'o media_key \<Rightarrow> logical_identity" where
  "logical_of k = LogicalObjectIdentity (key_tenant k) (key_stream k) (key_track k) (key_epoch k)
     (key_group k) (key_object k) (key_version k)"

record 'o announcement =
  ann_generation :: 'o
  ann_subscription_id :: 'o
  ann_key :: "'o media_key"
  ann_kind :: "'o media_object_kind"
  ann_deadline :: 'o
  ann_coding :: 'o
  ann_initial_repair_symbols :: nat
  ann_next_packet_sequence :: nat

record 'o relay_symbol =
  sym_generation :: 'o
  sym_subscription_id :: 'o
  sym_object_key :: "'o media_key"
  sym_object_kind :: "'o media_object_kind"
  sym_deadline :: 'o
  sym_coding :: 'o
  sym_role :: datagram_role
  sym_path_intent :: 'o
  sym_fec_datagram :: wire

record ('o, 'a, 'm) relay_lib =
  limits_validate :: "'o \<Rightarrow> (unit, 'o session_error) result"
  max_extra_repair_symbols :: "'o \<Rightarrow> nat"
  coding_validate :: "'o \<Rightarrow> 'o \<Rightarrow> (unit, 'o session_error) result"
  coding_transfer_length :: "'o \<Rightarrow> nat"
  coding_source_symbols :: "'o \<Rightarrow> nat"
  is_expired_at :: "'o \<Rightarrow> nat \<Rightarrow> bool"
  permits :: "'o parent_path \<Rightarrow> 'o \<Rightarrow> bool"
  decode_datagram :: "wire \<Rightarrow> 'o \<Rightarrow> ('o relay_symbol, 'o session_error) result"
  packet_sequence :: "wire \<Rightarrow> (u32, 'o session_error) result"
  payload_digest :: "wire \<Rightarrow> 'o"
  assembler_new :: "'o announcement \<Rightarrow> 'o \<Rightarrow> ('a, 'o session_error) result"
  push_symbol :: "'a \<Rightarrow> 'o relay_symbol \<Rightarrow> 'a \<times> ('m option, 'o session_error) result"
  take_completed_envelope :: "'a \<Rightarrow> 'a \<times> wire option"
  media_key_of :: "'m \<Rightarrow> 'o media_key"
  media_kind :: "'m \<Rightarrow> object_kind"
  media_is_keyframe :: "'m \<Rightarrow> bool"

record 'o relay_config =
  relay_limits :: 'o
  max_parent_sessions :: nat
  max_active_objects :: nat
  max_parents_per_object :: nat
  max_datagrams_per_object :: nat
  max_buffered_datagrams :: nat
  max_buffered_object_bytes :: nat
  max_completed_objects :: nat
  object_inactivity_timeout_us :: nat
  expiry_scan_interval_us :: nat

datatype 'o ingress_error =
  InvalidConfig string string
| LimitExceeded string nat nat
| InvalidSessionId
| InvalidCarrierIdentity string
| AuthenticationRequired
| ParentSessionMissing nat
| ParentSessionConflict nat
| UdpPeerConflict socket_addr
| AnnouncementRequired
| AnnouncementConflict
| ObjectIdentityConflict
| ParentLimitExceeded
| ParentRoleConflict
| UnauthorizedParent
| DeadlineExpired
| DatagramLimitExceeded
| BufferedDatagramLimitExceeded
| SymbolReplayConflict
| RelaySession "'o session_error"

record 'o parent_session =
  session_id :: nat
  identity :: "'o carrier_identity"
  generation :: 'o
  subscription_id :: 'o
  parent_path :: "'o parent_path"
  controlled_qualification :: bool

datatype announcement_outcome = Started | Joined | AlreadyComplete

datatype ('o, 'm) ingress_outcome =
  Buffered "'o media_key" datagram_role 'o
| Decoded 'm wire datagram_role 'o nat nat
| Duplicate "'o media_key" datagram_role 'o

record ingress_counters =
  datagrams_received :: nat
  datagrams_rejected :: nat
  source_datagrams :: nat
  repair_datagrams :: nat
  duplicate_datagrams :: nat
  decoded_objects :: nat
  repair_assisted_objects :: nat
  fec_recovered_objects :: nat
  fec_recovered_source_symbols :: nat
  expired_objects :: nat
  conflict_drops :: nat
  authentication_drops :: nat
  deadline_drops :: nat

definition ingress_counters_default :: ingress_counters where
  "ingress_counters_default = \<lparr>datagrams_received = 0, datagrams_rejected = 0, source_datagrams = 0,
     repair_datagrams = 0, duplicate_datagrams = 0, decoded_objects = 0, repair_assisted_objects = 0,
     fec_recovered_objects = 0, fec_recovered_source_symbols = 0, expired_objects = 0,
     conflict_drops = 0, authentication_drops = 0, deadline_drops = 0\<rparr>"

record object_expiry =
  rx_objects :: nat
  rx_released_object_bytes :: nat
  rx_released_datagrams :: nat

datatype 'o symbol_fingerprint = SymbolFingerprint 'o datagram_role

record ('o, 'a) active_object =
  ao_announcement :: "'o announcement"
  ao_assembler :: 'a
  ao_parent_sessions :: "nat list"
  ao_symbols :: "(u32 \<times> 'o symbol_fingerprint) list"
  ao_source_symbols :: nat
  ao_repair_symbols :: nat
  ao_reserved_bytes :: nat
  ao_last_activity_us :: nat

record 'o completed_object =
  co_announcement :: "'o announcement"
  co_parent_sessions :: "nat list"

record ('o, 'a) relay_receiver =
  relay_config :: "'o relay_config"
  sessions :: "(nat \<times> 'o parent_session) list"
  objects :: "('o media_key \<times> ('o, 'a) active_object) list"
  logical_keys :: "(logical_identity \<times> 'o media_key) list"
  completed :: "('o media_key \<times> 'o completed_object) list"
  completed_order :: "'o media_key list"
  buffered_object_bytes :: nat
  buffered_datagrams :: nat
  relay_counters :: ingress_counters
  next_expiry_scan_us :: "nat option"

section \<open>Configuration\<close>

definition validate_nonzero_bound :: "string \<Rightarrow> nat \<Rightarrow> nat \<Rightarrow> (unit, 'o ingress_error) result" where
  "validate_nonzero_bound field value maximum =
     (if value = 0 then Inl (InvalidConfig field ''bound must be positive'')
      else if value > maximum then Inl (LimitExceeded field value maximum) else Inr ())"

text \<open>The configured bounds in the order in which they are checked.\<close>

definition config_bounds :: "'o relay_config \<Rightarrow> (string \<times> nat \<times> nat) list" where
  "config_bounds c =
     [(''max_parent_sessions'', max_parent_sessions c, 65536),
      (''max_active_objects'', max_active_objects c, 65536),
      (''max_parents_per_object'', max_parents_per_object c, 2),
      (''max_datagrams_per_object'', max_datagrams_per_object c, 65536),
      (''max_buffered_datagrams'', max_buffered_datagrams c, 262144),
      (''max_buffered_object_bytes'', max_buffered_object_bytes c, 512 * 1024 * 1024),
      (''max_completed_objects'', max_completed_objects c, 65536)]"

fun validate_bounds :: "(string \<times> nat \<times> nat) list \<Rightarrow> (unit, 'o ingress_error) result" where
  "validate_bounds [] = Inr ()"
| "validate_bounds ((field, value, maximum) # bs) =
     (case validate_nonzero_bound field value maximum of Inl e \<Rightarrow> Inl e | Inr _ \<Rightarrow> validate_bounds bs)"

definition relay_config_validate ::
  "('o, 'a, 'm) relay_lib \<Rightarrow> 'o relay_config \<Rightarrow> (unit, 'o ingress_error) result" where
  "relay_config_validate lib c =
     (case limits_validate lib (relay_limits c) of
        Inl e \<Rightarrow> Inl (RelaySession e)
      | Inr _ \<Rightarrow>
     (case validate_bounds (config_bounds c) of
        Inl e \<Rightarrow> Inl e
      | Inr _ \<Rightarrow>
        if object_inactivity_timeout_us c = 0
        then Inl (InvalidConfig ''object_inactivity_timeout_us'' ''bound must be positive'')
        else if expiry_scan_interval_us c = 0
        then Inl (InvalidConfig ''expiry_scan_interval_us'' ''bound must be positive'')
        else Inr ()))"

definition relay_new ::
  "('o, 'a, 'm) relay_lib \<Rightarrow> 'o relay_config \<Rightarrow> (('o, 'a) relay_receiver, 'o ingress_error) result" where
  "relay_new lib c =
     (case relay_config_validate lib c of
        Inl e \<Rightarrow> Inl e
      | Inr _ \<Rightarrow> Inr \<lparr>relay_config = c, sessions = [], objects = [], logical_keys = [], completed = [],
           completed_order = [], buffered_object_bytes = 0, buffered_datagrams = 0,
           relay_counters = ingress_counters_default, next_expiry_scan_us = None\<rparr>)"

section \<open>Parent sessions\<close>

definition authenticated_session_new ::
  "nat \<Rightarrow> 'o carrier_identity \<Rightarrow> 'o \<Rightarrow> 'o \<Rightarrow> 'o parent_path \<Rightarrow> ('o parent_session, 'o ingress_error) result" where
  "authenticated_session_new sid ident gen sub path =
     (if sid = 0 then Inl InvalidSessionId
      else if id_local ident = id_peer ident
      then Inl (InvalidCarrierIdentity ''local and peer node identities must differ'')
      else if \<not> (case (id_kind ident, id_trust_mode ident) of
                   (QuicDatagram, AuthenticatedSession) \<Rightarrow> True
                 | (PrivateUdp, PrivateAuthenticatedNetwork) \<Rightarrow> True
                 | _ \<Rightarrow> False)
      then Inl AuthenticationRequired
      else Inr \<lparr>session_id = sid, identity = ident, generation = gen, subscription_id = sub,
                parent_path = path, controlled_qualification = False\<rparr>)"

definition controlled_session_new ::
  "nat \<Rightarrow> 'o carrier_identity \<Rightarrow> 'o \<Rightarrow> 'o \<Rightarrow> 'o parent_path \<Rightarrow> ('o parent_session, 'o ingress_error) result" where
  "controlled_session_new sid ident gen sub path =
     (if sid = 0 then Inl InvalidSessionId
      else if id_local ident = id_peer ident
      then Inl (InvalidCarrierIdentity ''local and peer node identities must differ'')
      else if \<not> (case (id_kind ident, id_trust_mode ident) of
                   (PrivateUdp, ControlledPrivateNetwork) \<Rightarrow> True
                 | _ \<Rightarrow> False)
      then Inl (InvalidCarrierIdentity
        ''controlled qualification uses private UDP with ControlledPrivateNetwork trust'')
      else Inr \<lparr>session_id = sid, identity = ident, generation = gen, subscription_id = sub,
                parent_path = path, controlled_qualification = True\<rparr>)"

definition register_parent_session ::
  "'o parent_session \<Rightarrow> ('o, 'a) relay_receiver \<Rightarrow> ('o, 'a) relay_receiver \<times> (unit, 'o ingress_error) result" where
  "register_parent_session s r =
     (case map_of (sessions r) (session_id s) of
        Some existing \<Rightarrow> (r, if existing = s then Inr () else Inl (ParentSessionConflict (session_id s)))
      | None \<Rightarrow>
         if length (sessions r) \<ge> max_parent_sessions (relay_config r)
         then (r, Inl (LimitExceeded ''parent_sessions'' (sat_add (length (sessions r)) 1)
                  (max_parent_sessions (relay_config r))))
         else (r\<lparr>sessions := tput (session_id s) s (sessions r)\<rparr>, Inr ()))"

text \<open>The loop over the parents of an object; \<open>None\<close> when a parent is not registered.\<close>

fun parent_conflict ::
  "(nat \<times> 'o parent_session) list \<Rightarrow> 'o parent_session \<Rightarrow> nat list \<Rightarrow> 'o ingress_error option option" where
  "parent_conflict ss candidate [] = Some None"
| "parent_conflict ss candidate (i # ids) =
     (case map_of ss i of
        None \<Rightarrow> None
      | Some existing \<Rightarrow>
          if id_peer (identity existing) = id_peer (identity candidate)
             \<and> \<not> (controlled_qualification existing \<and> controlled_qualification candidate)
          then Some (Some (ParentSessionConflict (session_id candidate)))
          else if parent_path existing = parent_path candidate then Some (Some ParentRoleConflict)
          else parent_conflict ss candidate ids)"

definition add_parent_to_set ::
  "(nat \<times> 'o parent_session) list \<Rightarrow> nat list \<Rightarrow> 'o parent_session \<Rightarrow> nat
     \<Rightarrow> (nat list, 'o ingress_error) result option" where
  "add_parent_to_set ss parents candidate max_parents =
     (if session_id candidate \<in> set parents then Some (Inr parents)
      else if length parents \<ge> max_parents then Some (Inl ParentLimitExceeded)
      else case parent_conflict ss candidate parents of
        None \<Rightarrow> None
      | Some (Some e) \<Rightarrow> Some (Inl e)
      | Some None \<Rightarrow> Some (Inr (parents @ [session_id candidate])))"

definition get_session ::
  "nat \<Rightarrow> ('o, 'a) relay_receiver \<Rightarrow> ('o parent_session, 'o ingress_error) result" where
  "get_session sid r = (case map_of (sessions r) sid of None \<Rightarrow> Inl (ParentSessionMissing sid) | Some s \<Rightarrow> Inr s)"

definition validate_session_announcement :: "'o parent_session \<Rightarrow> 'o announcement \<Rightarrow> bool" where
  "validate_session_announcement s a \<longleftrightarrow>
     ann_generation a = generation s \<and> ann_subscription_id a = subscription_id s"

definition validate_session_symbol ::
  "('o, 'a, 'm) relay_lib \<Rightarrow> 'o parent_session \<Rightarrow> 'o relay_symbol \<Rightarrow> bool" where
  "validate_session_symbol lib s y \<longleftrightarrow>
     sym_generation y = generation s \<and> sym_subscription_id y = subscription_id s
     \<and> permits lib (parent_path s) (sym_path_intent y)"

definition validate_completed_symbol ::
  "('o, 'a, 'm) relay_lib \<Rightarrow> 'o completed_object \<Rightarrow> 'o parent_session \<Rightarrow> 'o relay_symbol \<Rightarrow> bool" where
  "validate_completed_symbol lib c s y \<longleftrightarrow>
     session_id s \<in> set (co_parent_sessions c)
     \<and> sym_generation y = ann_generation (co_announcement c)
     \<and> sym_subscription_id y = ann_subscription_id (co_announcement c)
     \<and> sym_object_kind y = ann_kind (co_announcement c)
     \<and> sym_deadline y = ann_deadline (co_announcement c)
     \<and> sym_coding y = ann_coding (co_announcement c)
     \<and> permits lib (parent_path s) (sym_path_intent y)"

definition validate_object_kind :: "('o, 'a, 'm) relay_lib \<Rightarrow> 'm \<Rightarrow> 'o media_object_kind \<Rightarrow> bool" where
  "validate_object_kind lib m announced \<longleftrightarrow>
     (case media_kind lib m of
        Initialization \<Rightarrow> announced = KindInitialization
      | CodecConfiguration \<Rightarrow> announced = KindCodecConfig
      | Discontinuity \<Rightarrow> announced = KindData
      | Media \<Rightarrow> if media_is_keyframe lib m then announced = KindVideoKeyframe
                 else announced \<in> {KindAudio, KindVideoDelta, KindData, KindVideoKeyframe})"

section \<open>Tables\<close>

definition rcount ::
  "(ingress_counters \<Rightarrow> ingress_counters) \<Rightarrow> ('o, 'a) relay_receiver \<Rightarrow> ('o, 'a) relay_receiver" where
  "rcount f r = r\<lparr>relay_counters := f (relay_counters r)\<rparr>"

definition count_role :: "datagram_role \<Rightarrow> ingress_counters \<Rightarrow> ingress_counters" where
  "count_role role c = (case role of
     Source \<Rightarrow> c\<lparr>source_datagrams := sat_add (source_datagrams c) 1\<rparr>
   | Repair \<Rightarrow> c\<lparr>repair_datagrams := sat_add (repair_datagrams c) 1\<rparr>)"

definition count_duplicate :: "datagram_role \<Rightarrow> ingress_counters \<Rightarrow> ingress_counters" where
  "count_duplicate role c = count_role role (c\<lparr>duplicate_datagrams := sat_add (duplicate_datagrams c) 1\<rparr>)"

definition remove_active_object ::
  "'o media_key \<Rightarrow> bool \<Rightarrow> ('o, 'a) relay_receiver \<Rightarrow> ('o, 'a) relay_receiver \<times> ('o, 'a) active_object option" where
  "remove_active_object key remove_logical_key r =
     (case map_of (objects r) key of
        None \<Rightarrow> (r, None)
      | Some st \<Rightarrow>
         let r1 = r\<lparr>objects := tdel key (objects r),
                    buffered_object_bytes := sat_sub (buffered_object_bytes r) (ao_reserved_bytes st),
                    buffered_datagrams := sat_sub (buffered_datagrams r) (length (ao_symbols st))\<rparr>
         in ((if remove_logical_key then r1\<lparr>logical_keys := tdel (logical_of key) (logical_keys r1)\<rparr> else r1),
             Some st))"

text \<open>The eviction loop consumes \<open>completed_order\<close>, so it ends.\<close>

function evict_completed :: "('o, 'a) relay_receiver \<Rightarrow> ('o, 'a) relay_receiver" where
  "evict_completed r =
     (if length (completed r) \<ge> max_completed_objects (relay_config r)
      then case completed_order r of
             [] \<Rightarrow> r
           | evicted # order \<Rightarrow>
              let r1 = r\<lparr>completed_order := order\<rparr>
              in evict_completed
                   (if map_of (completed r1) evicted \<noteq> None
                    then r1\<lparr>completed := tdel evicted (completed r1),
                            logical_keys := tdel (logical_of evicted) (logical_keys r1)\<rparr>
                    else r1)
      else r)"
  by pat_completeness auto
termination
  by (relation "measure (\<lambda>r. length (completed_order r))") auto

declare evict_completed.simps [simp del]

definition insert_completed ::
  "'o media_key \<Rightarrow> 'o completed_object \<Rightarrow> ('o, 'a) relay_receiver \<Rightarrow> ('o, 'a) relay_receiver" where
  "insert_completed key c r =
     (let r1 = evict_completed r
      in r1\<lparr>completed_order := completed_order r1 @ [key], completed := tput key c (completed r1)\<rparr>)"

fun expire_keys ::
  "'o media_key list \<Rightarrow> ('o, 'a) relay_receiver \<Rightarrow> object_expiry \<Rightarrow> ('o, 'a) relay_receiver \<times> object_expiry" where
  "expire_keys [] r x = (r, x)"
| "expire_keys (key # ks) r x =
     (case remove_active_object key True r of
        (r1, None) \<Rightarrow> expire_keys ks r1 x
      | (r1, Some st) \<Rightarrow> expire_keys ks r1
          \<lparr>rx_objects = sat_add (rx_objects x) 1,
           rx_released_object_bytes = sat_add (rx_released_object_bytes x) (ao_reserved_bytes st),
           rx_released_datagrams = sat_add (rx_released_datagrams x) (length (ao_symbols st))\<rparr>)"

definition object_expired ::
  "('o, 'a, 'm) relay_lib \<Rightarrow> nat \<Rightarrow> ('o, 'a) relay_receiver \<Rightarrow> ('o, 'a) active_object \<Rightarrow> bool" where
  "object_expired lib now r st \<longleftrightarrow>
     is_expired_at lib (ann_deadline (ao_announcement st)) now
     \<or> sat_sub now (ao_last_activity_us st) \<ge> object_inactivity_timeout_us (relay_config r)"

definition expire ::
  "('o, 'a, 'm) relay_lib \<Rightarrow> nat \<Rightarrow> ('o, 'a) relay_receiver \<Rightarrow> ('o, 'a) relay_receiver \<times> object_expiry" where
  "expire lib now r =
     (let expired = keys (filter (\<lambda>(key, st). object_expired lib now r st) (objects r));
          (r1, result) = expire_keys expired r
            \<lparr>rx_objects = 0, rx_released_object_bytes = 0, rx_released_datagrams = 0\<rparr>
      in ((rcount (\<lambda>c. c\<lparr>expired_objects := sat_add (expired_objects c) (rx_objects result)\<rparr>) r1)
            \<lparr>next_expiry_scan_us := Some (sat_add now (expiry_scan_interval_us (relay_config r1)))\<rparr>, result))"

definition expire_if_due ::
  "('o, 'a, 'm) relay_lib \<Rightarrow> nat \<Rightarrow> ('o, 'a) relay_receiver \<Rightarrow> ('o, 'a) relay_receiver" where
  "expire_if_due lib now r =
     (if (case next_expiry_scan_us r of Some next_scan \<Rightarrow> now \<ge> next_scan | None \<Rightarrow> True)
      then fst (expire lib now r) else r)"

definition record_rejection ::
  "'o ingress_error \<Rightarrow> bool \<Rightarrow> ('o, 'a) relay_receiver \<Rightarrow> ('o, 'a) relay_receiver" where
  "record_rejection e datagram =
     rcount (\<lambda>c0.
       let c = (if datagram then c0\<lparr>datagrams_rejected := sat_add (datagrams_rejected c0) 1\<rparr> else c0)
       in case e of
            AuthenticationRequired \<Rightarrow> c\<lparr>authentication_drops := sat_add (authentication_drops c) 1\<rparr>
          | ParentSessionMissing _ \<Rightarrow> c\<lparr>authentication_drops := sat_add (authentication_drops c) 1\<rparr>
          | UnauthorizedParent \<Rightarrow> c\<lparr>authentication_drops := sat_add (authentication_drops c) 1\<rparr>
          | DeadlineExpired \<Rightarrow> c\<lparr>deadline_drops := sat_add (deadline_drops c) 1\<rparr>
          | AnnouncementConflict \<Rightarrow> c\<lparr>conflict_drops := sat_add (conflict_drops c) 1\<rparr>
          | ObjectIdentityConflict \<Rightarrow> c\<lparr>conflict_drops := sat_add (conflict_drops c) 1\<rparr>
          | SymbolReplayConflict \<Rightarrow> c\<lparr>conflict_drops := sat_add (conflict_drops c) 1\<rparr>
          | RelaySession CodingProfileConflict \<Rightarrow> c\<lparr>conflict_drops := sat_add (conflict_drops c) 1\<rparr>
          | RelaySession SessionObjectIdentityConflict \<Rightarrow> c\<lparr>conflict_drops := sat_add (conflict_drops c) 1\<rparr>
          | _ \<Rightarrow> c)"

definition identity_conflict :: "'o media_key \<Rightarrow> ('o, 'a) relay_receiver \<Rightarrow> bool" where
  "identity_conflict key r =
     (case map_of (logical_keys r) (logical_of key) of None \<Rightarrow> False | Some existing \<Rightarrow> existing \<noteq> key)"

section \<open>Announcements\<close>

definition start_object ::
  "('o, 'a, 'm) relay_lib \<Rightarrow> nat \<Rightarrow> 'o announcement \<Rightarrow> nat \<Rightarrow> ('o, 'a) relay_receiver
     \<Rightarrow> ('o, 'a) relay_receiver \<times> (announcement_outcome, 'o ingress_error) result" where
  "start_object lib sid ann now r =
     (if length (objects r) \<ge> max_active_objects (relay_config r)
      then (r, Inl (LimitExceeded ''active_objects'' (sat_add (length (objects r)) 1)
               (max_active_objects (relay_config r))))
      else let reserved = coding_transfer_length lib (ann_coding ann)
      in case checked_add (buffered_object_bytes r) reserved of
        None \<Rightarrow> (r, Inl (LimitExceeded ''buffered_object_bytes'' usize_max
                   (max_buffered_object_bytes (relay_config r))))
      | Some requested \<Rightarrow>
         if requested > max_buffered_object_bytes (relay_config r)
         then (r, Inl (LimitExceeded ''buffered_object_bytes'' requested
                   (max_buffered_object_bytes (relay_config r))))
         else case assembler_new lib ann (relay_limits (relay_config r)) of
           Inl e \<Rightarrow> (r, Inl (RelaySession e))
         | Inr assembler \<Rightarrow>
            (r\<lparr>logical_keys := tput (logical_of (ann_key ann)) (ann_key ann) (logical_keys r),
               objects := tput (ann_key ann)
                 \<lparr>ao_announcement = ann, ao_assembler = assembler, ao_parent_sessions = [sid], ao_symbols = [],
                  ao_source_symbols = 0, ao_repair_symbols = 0, ao_reserved_bytes = reserved,
                  ao_last_activity_us = now\<rparr> (objects r),
               buffered_object_bytes := requested\<rparr>, Inr Started))"

definition join_completed ::
  "'o parent_session \<Rightarrow> 'o announcement \<Rightarrow> 'o completed_object \<Rightarrow> ('o, 'a) relay_receiver
     \<Rightarrow> (('o, 'a) relay_receiver \<times> (announcement_outcome, 'o ingress_error) result) option" where
  "join_completed s ann c r =
     (if co_announcement c \<noteq> ann then Some (r, Inl AnnouncementConflict)
      else case add_parent_to_set (sessions r) (co_parent_sessions c) s (max_parents_per_object (relay_config r)) of
        None \<Rightarrow> None
      | Some (Inl e) \<Rightarrow> Some (r, Inl e)
      | Some (Inr parents) \<Rightarrow>
          Some (r\<lparr>completed := tput (ann_key ann) (c\<lparr>co_parent_sessions := parents\<rparr>) (completed r)\<rparr>,
                Inr AlreadyComplete))"

definition join_active ::
  "'o parent_session \<Rightarrow> 'o announcement \<Rightarrow> ('o, 'a) active_object \<Rightarrow> nat \<Rightarrow> ('o, 'a) relay_receiver
     \<Rightarrow> (('o, 'a) relay_receiver \<times> (announcement_outcome, 'o ingress_error) result) option" where
  "join_active s ann st now r =
     (if ao_announcement st \<noteq> ann then Some (r, Inl AnnouncementConflict)
      else case add_parent_to_set (sessions r) (ao_parent_sessions st) s (max_parents_per_object (relay_config r)) of
        None \<Rightarrow> None
      | Some (Inl e) \<Rightarrow> Some (r, Inl e)
      | Some (Inr parents) \<Rightarrow>
          Some (r\<lparr>objects := tput (ann_key ann) (st\<lparr>ao_parent_sessions := parents, ao_last_activity_us := now\<rparr>)
                    (objects r)\<rparr>, Inr Joined))"

definition announcement_error ::
  "('o, 'a, 'm) relay_lib \<Rightarrow> 'o parent_session \<Rightarrow> 'o announcement \<Rightarrow> ('o, 'a) relay_receiver
     \<Rightarrow> 'o ingress_error option" where
  "announcement_error lib s ann r =
     (let limits = relay_limits (relay_config r) in
      if \<not> validate_session_announcement s ann then Some UnauthorizedParent
      else case coding_validate lib (ann_coding ann) limits of
        Inl e \<Rightarrow> Some (RelaySession e)
      | Inr _ \<Rightarrow>
         if ann_initial_repair_symbols ann > max_extra_repair_symbols lib limits
         then Some (LimitExceeded ''initial_repair_symbols'' (ann_initial_repair_symbols ann)
                (max_extra_repair_symbols lib limits))
         else if identity_conflict (ann_key ann) r then Some ObjectIdentityConflict
         else None)"

definition try_announce_object ::
  "('o, 'a, 'm) relay_lib \<Rightarrow> nat \<Rightarrow> 'o announcement \<Rightarrow> nat \<Rightarrow> ('o, 'a) relay_receiver
     \<Rightarrow> (('o, 'a) relay_receiver \<times> (announcement_outcome, 'o ingress_error) result) option" where
  "try_announce_object lib sid ann now r0 =
     (let r = expire_if_due lib now r0
      in case get_session sid r of
           Inl e \<Rightarrow> Some (r, Inl e)
         | Inr s \<Rightarrow>
          (case announcement_error lib s ann r of
             Some e \<Rightarrow> Some (r, Inl e)
           | None \<Rightarrow>
            (case map_of (completed r) (ann_key ann) of
               Some c \<Rightarrow> join_completed s ann c r
             | None \<Rightarrow>
                if is_expired_at lib (ann_deadline ann) now then Some (r, Inl DeadlineExpired)
                else case map_of (objects r) (ann_key ann) of
                  Some st \<Rightarrow> join_active s ann st now r
                | None \<Rightarrow> Some (start_object lib sid ann now r))))"

definition announce_object ::
  "('o, 'a, 'm) relay_lib \<Rightarrow> nat \<Rightarrow> 'o announcement \<Rightarrow> nat \<Rightarrow> ('o, 'a) relay_receiver
     \<Rightarrow> (('o, 'a) relay_receiver \<times> (announcement_outcome, 'o ingress_error) result) option" where
  "announce_object lib sid ann now r =
     (case try_announce_object lib sid ann now r of
        None \<Rightarrow> None
      | Some (r1, Inl e) \<Rightarrow> Some (record_rejection e False r1, Inl e)
      | Some (r1, Inr x) \<Rightarrow> Some (r1, Inr x))"

definition derived_announcement :: "'o relay_symbol \<Rightarrow> 'o announcement" where
  "derived_announcement y = \<lparr>ann_generation = sym_generation y, ann_subscription_id = sym_subscription_id y,
     ann_key = sym_object_key y, ann_kind = sym_object_kind y, ann_deadline = sym_deadline y,
     ann_coding = sym_coding y, ann_initial_repair_symbols = 0, ann_next_packet_sequence = 0\<rparr>"

definition ensure_controlled_announcement ::
  "('o, 'a, 'm) relay_lib \<Rightarrow> nat \<Rightarrow> wire \<Rightarrow> nat \<Rightarrow> ('o, 'a) relay_receiver
     \<Rightarrow> (('o, 'a) relay_receiver \<times> (unit, 'o ingress_error) result) option" where
  "ensure_controlled_announcement lib sid bytes now r =
     (case get_session sid r of
        Inl e \<Rightarrow> Some (r, Inl e)
      | Inr s \<Rightarrow>
         if \<not> controlled_qualification s then Some (r, Inl AnnouncementRequired)
         else case decode_datagram lib bytes (relay_limits (relay_config r)) of
           Inl e \<Rightarrow> Some (r, Inl (RelaySession e))
         | Inr y \<Rightarrow>
            if \<not> validate_session_symbol lib s y then Some (r, Inl UnauthorizedParent)
            else map_option (map_prod id (map_sum id (\<lambda>_. ())))
                   (try_announce_object lib sid (derived_announcement y) now r))"

section \<open>Symbols\<close>

text \<open>The decoded object leaves the active table and becomes a tombstone.\<close>

definition complete_object ::
  "('o, 'a, 'm) relay_lib \<Rightarrow> 'o relay_symbol \<Rightarrow> 'm \<Rightarrow> ('o, 'a) relay_receiver
     \<Rightarrow> (('o, 'a) relay_receiver \<times> (('o, 'm) ingress_outcome, 'o ingress_error) result) option" where
  "complete_object lib y m r =
     (case map_of (objects r) (sym_object_key y) of
        None \<Rightarrow> None
      | Some st \<Rightarrow>
         if \<not> validate_object_kind lib m (ann_kind (ao_announcement st)) then Some (r, Inl ObjectIdentityConflict)
         else let (a, envelope) = take_completed_envelope lib (ao_assembler st);
                  r1 = r\<lparr>objects := tput (sym_object_key y) (st\<lparr>ao_assembler := a\<rparr>) (objects r)\<rparr>
         in case envelope of
              None \<Rightarrow> None
            | Some bytes \<Rightarrow>
              (case remove_active_object (media_key_of lib m) False r1 of
                 (_, None) \<Rightarrow> None
               | (r2, Some active) \<Rightarrow>
                  let missing_symbols = sat_sub (coding_source_symbols lib (ann_coding (ao_announcement active)))
                        (ao_source_symbols active);
                      r3 = rcount (\<lambda>c. c\<lparr>decoded_objects := sat_add (decoded_objects c) 1,
                             repair_assisted_objects := (if ao_repair_symbols active > 0
                               then sat_add (repair_assisted_objects c) 1 else repair_assisted_objects c),
                             fec_recovered_objects := (if missing_symbols > 0
                               then sat_add (fec_recovered_objects c) 1 else fec_recovered_objects c),
                             fec_recovered_source_symbols := (if missing_symbols > 0
                               then sat_add (fec_recovered_source_symbols c) missing_symbols
                               else fec_recovered_source_symbols c)\<rparr>) r2
                  in Some (insert_completed (media_key_of lib m)
                       \<lparr>co_announcement = ao_announcement active, co_parent_sessions = ao_parent_sessions active\<rparr> r3,
                     Inr (Decoded m bytes (sym_role y) (sym_deadline y)
                       (length (ao_parent_sessions active)) (length (ao_symbols active))))))"

text \<open>A new symbol of an active object.\<close>

definition admit_symbol ::
  "('o, 'a, 'm) relay_lib \<Rightarrow> 'o relay_symbol \<Rightarrow> u32 \<Rightarrow> ('o, 'a) active_object \<Rightarrow> nat \<Rightarrow> ('o, 'a) relay_receiver
     \<Rightarrow> (('o, 'a) relay_receiver \<times> (('o, 'm) ingress_outcome, 'o ingress_error) result) option" where
  "admit_symbol lib y seq st now r =
     (case push_symbol lib (ao_assembler st) y of
        (a, Inl e) \<Rightarrow> Some (r\<lparr>objects := tput (sym_object_key y) (st\<lparr>ao_assembler := a\<rparr>) (objects r)\<rparr>,
                           Inl (RelaySession e))
      | (a, Inr decoded) \<Rightarrow>
         let fingerprint = SymbolFingerprint (payload_digest lib (sym_fec_datagram y)) (sym_role y);
             st1 = st\<lparr>ao_assembler := a, ao_symbols := tput seq fingerprint (ao_symbols st),
                      ao_source_symbols := (if sym_role y = Source then sat_add (ao_source_symbols st) 1
                                            else ao_source_symbols st),
                      ao_repair_symbols := (if sym_role y = Repair then sat_add (ao_repair_symbols st) 1
                                            else ao_repair_symbols st),
                      ao_last_activity_us := now\<rparr>;
             r1 = (rcount (count_role (sym_role y)) r)
                    \<lparr>objects := tput (sym_object_key y) st1 (objects r),
                     buffered_datagrams := sat_add (buffered_datagrams r) 1\<rparr>
         in case decoded of
              None \<Rightarrow> Some (r1, Inr (Buffered (sym_object_key y) (sym_role y) (sym_deadline y)))
            | Some m \<Rightarrow> complete_object lib y m r1)"

definition push_active_symbol ::
  "('o, 'a, 'm) relay_lib \<Rightarrow> 'o parent_session \<Rightarrow> 'o relay_symbol \<Rightarrow> ('o, 'a) active_object \<Rightarrow> nat \<Rightarrow> ('o, 'a) relay_receiver
     \<Rightarrow> (('o, 'a) relay_receiver \<times> (('o, 'm) ingress_outcome, 'o ingress_error) result) option" where
  "push_active_symbol lib s y st now r =
     (if session_id s \<notin> set (ao_parent_sessions st) \<or> \<not> permits lib (parent_path s) (sym_path_intent y)
      then Some (r, Inl UnauthorizedParent)
      else case packet_sequence lib (sym_fec_datagram y) of
        Inl e \<Rightarrow> Some (r, Inl (RelaySession e))
      | Inr seq \<Rightarrow>
         (case map_of (ao_symbols st) seq of
            Some existing \<Rightarrow>
              if existing = SymbolFingerprint (payload_digest lib (sym_fec_datagram y)) (sym_role y)
              then Some (rcount (count_duplicate (sym_role y)) r,
                         Inr (Duplicate (sym_object_key y) (sym_role y) (sym_deadline y)))
              else Some (r, Inl SymbolReplayConflict)
          | None \<Rightarrow>
              if length (ao_symbols st) \<ge> max_datagrams_per_object (relay_config r)
              then Some (r, Inl DatagramLimitExceeded)
              else if buffered_datagrams r \<ge> max_buffered_datagrams (relay_config r)
              then Some (r, Inl BufferedDatagramLimitExceeded)
              else admit_symbol lib y seq st now r))"

definition try_push_wire_datagram ::
  "('o, 'a, 'm) relay_lib \<Rightarrow> nat \<Rightarrow> wire \<Rightarrow> nat \<Rightarrow> ('o, 'a) relay_receiver
     \<Rightarrow> (('o, 'a) relay_receiver \<times> (('o, 'm) ingress_outcome, 'o ingress_error) result) option" where
  "try_push_wire_datagram lib sid bytes now r0 =
     (case get_session sid r0 of
        Inl e \<Rightarrow> Some (r0, Inl e)
      | Inr s \<Rightarrow>
       (case decode_datagram lib bytes (relay_limits (relay_config r0)) of
          Inl e \<Rightarrow> Some (r0, Inl (RelaySession e))
        | Inr y \<Rightarrow>
          let r = expire_if_due lib now r0 in
          if \<not> validate_session_symbol lib s y then Some (r, Inl UnauthorizedParent)
          else if identity_conflict (sym_object_key y) r then Some (r, Inl ObjectIdentityConflict)
          else case map_of (completed r) (sym_object_key y) of
            Some c \<Rightarrow>
              if \<not> validate_completed_symbol lib c s y then Some (r, Inl UnauthorizedParent)
              else Some (rcount (count_duplicate (sym_role y)) r,
                         Inr (Duplicate (sym_object_key y) (sym_role y) (sym_deadline y)))
          | None \<Rightarrow>
              if is_expired_at lib (sym_deadline y) now
              then Some (fst (expire lib now r), Inl DeadlineExpired)
              else case map_of (objects r) (sym_object_key y) of
                None \<Rightarrow> Some (r, Inl AnnouncementRequired)
              | Some st \<Rightarrow> push_active_symbol lib s y st now r))"

definition count_received :: "('o, 'a) relay_receiver \<Rightarrow> ('o, 'a) relay_receiver" where
  "count_received = rcount (\<lambda>c. c\<lparr>datagrams_received := sat_add (datagrams_received c) 1\<rparr>)"

definition push_wire_datagram ::
  "('o, 'a, 'm) relay_lib \<Rightarrow> nat \<Rightarrow> wire \<Rightarrow> nat \<Rightarrow> ('o, 'a) relay_receiver
     \<Rightarrow> (('o, 'a) relay_receiver \<times> (('o, 'm) ingress_outcome, 'o ingress_error) result) option" where
  "push_wire_datagram lib sid bytes now r =
     (case try_push_wire_datagram lib sid bytes now (count_received r) of
        None \<Rightarrow> None
      | Some (r1, Inl e) \<Rightarrow> Some (record_rejection e True r1, Inl e)
      | Some (r1, Inr x) \<Rightarrow> Some (r1, Inr x))"

section \<open>Observation\<close>

record relay_state =
  rs_parent_sessions :: nat
  rs_active_objects :: nat
  rs_completed_objects :: nat
  rs_buffered_object_bytes :: nat
  rs_buffered_datagrams :: nat

definition relay_state_of :: "('o, 'a) relay_receiver \<Rightarrow> relay_state" where
  "relay_state_of r = \<lparr>rs_parent_sessions = length (sessions r), rs_active_objects = length (objects r),
     rs_completed_objects = length (completed r), rs_buffered_object_bytes = buffered_object_bytes r,
     rs_buffered_datagrams = buffered_datagrams r\<rparr>"

record relay_snapshot =
  sn_primary_sessions :: nat
  sn_secondary_sessions :: nat
  sn_authenticated_sessions :: nat
  sn_controlled_sessions :: nat
  sn_active_objects :: nat
  sn_completed_objects :: nat
  sn_active_object_bytes :: nat
  sn_buffered_datagrams :: nat
  sn_counters :: ingress_counters

definition relay_snapshot_of :: "('o, 'a) relay_receiver \<Rightarrow> relay_snapshot" where
  "relay_snapshot_of r =
     (let ss = vals (sessions r);
          controlled = length (filter controlled_qualification ss)
      in \<lparr>sn_primary_sessions = length (filter (\<lambda>s. parent_path s = Primary) ss),
          sn_secondary_sessions = length (filter (\<lambda>s. parent_path s \<in> {Secondary, PromotedSecondary}) ss),
          sn_authenticated_sessions = sat_sub (length (sessions r)) controlled,
          sn_controlled_sessions = controlled, sn_active_objects = length (objects r),
          sn_completed_objects = length (completed r), sn_active_object_bytes = buffered_object_bytes r,
          sn_buffered_datagrams = buffered_datagrams r, sn_counters = relay_counters r\<rparr>)"

section \<open>The UDP adapter\<close>

definition RELAY_SESSION_DATAGRAM_MAGIC :: wire where
  "RELAY_SESSION_DATAGRAM_MAGIC = [0x52, 0x4C, 0x53, 0x31]"

definition is_relay_session_datagram :: "wire \<Rightarrow> bool" where
  "is_relay_session_datagram bytes \<longleftrightarrow> take 4 bytes = RELAY_SESSION_DATAGRAM_MAGIC"

record ('o, 'a) udp_dispatch =
  receiver :: "('o, 'a) relay_receiver"
  sessions_by_peer :: "(socket_addr \<times> nat) list"
  controlled_announcement_sessions :: "nat list"

datatype ('o, 'm) dispatch_outcome = Legacy | Relay "('o, 'm) ingress_outcome"

definition dispatch_new :: "('o, 'a) relay_receiver \<Rightarrow> ('o, 'a) udp_dispatch" where
  "dispatch_new r = \<lparr>receiver = r, sessions_by_peer = [], controlled_announcement_sessions = []\<rparr>"

definition peer_conflict :: "socket_addr \<Rightarrow> nat \<Rightarrow> ('o, 'a) udp_dispatch \<Rightarrow> bool" where
  "peer_conflict peer sid d =
     (case map_of (sessions_by_peer d) peer of None \<Rightarrow> False | Some existing \<Rightarrow> existing \<noteq> sid)"

definition bind_authenticated_peer ::
  "socket_addr \<Rightarrow> 'o parent_session \<Rightarrow> ('o, 'a) udp_dispatch
     \<Rightarrow> ('o, 'a) udp_dispatch \<times> (unit, 'o ingress_error) result" where
  "bind_authenticated_peer peer s d =
     (if \<not> (case (id_kind (identity s), id_trust_mode (identity s)) of
              (PrivateUdp, PrivateAuthenticatedNetwork) \<Rightarrow> True | _ \<Rightarrow> False)
      then (d, Inl AuthenticationRequired)
      else if peer_conflict peer (session_id s) d then (d, Inl (UdpPeerConflict peer))
      else case register_parent_session s (receiver d) of
        (r, Inl e) \<Rightarrow> (d\<lparr>receiver := r\<rparr>, Inl e)
      | (r, Inr _) \<Rightarrow>
         (d\<lparr>receiver := r, sessions_by_peer := tput peer (session_id s) (sessions_by_peer d)\<rparr>, Inr ()))"

definition bind_controlled_peer ::
  "socket_addr \<Rightarrow> 'o parent_session \<Rightarrow> ('o, 'a) udp_dispatch
     \<Rightarrow> ('o, 'a) udp_dispatch \<times> (unit, 'o ingress_error) result" where
  "bind_controlled_peer peer s d =
     (if peer_conflict peer (session_id s) d then (d, Inl (UdpPeerConflict peer))
      else case register_parent_session s (receiver d) of
        (r, Inl e) \<Rightarrow> (d\<lparr>receiver := r\<rparr>, Inl e)
      | (r, Inr _) \<Rightarrow>
         (d\<lparr>receiver := r, sessions_by_peer := tput peer (session_id s) (sessions_by_peer d),
            controlled_announcement_sessions := List.insert (session_id s) (controlled_announcement_sessions d)\<rparr>,
          Inr ()))"

definition dispatch_reject ::
  "'o ingress_error \<Rightarrow> ('o, 'a) udp_dispatch
     \<Rightarrow> ('o, 'a) udp_dispatch \<times> (('o, 'm) dispatch_outcome, 'o ingress_error) result" where
  "dispatch_reject e d = (d\<lparr>receiver := record_rejection e True (count_received (receiver d))\<rparr>, Inl e)"

definition dispatch_push ::
  "('o, 'a, 'm) relay_lib \<Rightarrow> socket_addr \<Rightarrow> wire \<Rightarrow> nat \<Rightarrow> ('o, 'a) udp_dispatch
     \<Rightarrow> (('o, 'a) udp_dispatch \<times> (('o, 'm) dispatch_outcome, 'o ingress_error) result) option" where
  "dispatch_push lib peer bytes now d =
     (if \<not> is_relay_session_datagram bytes then Some (d, Inr Legacy)
      else case map_of (sessions_by_peer d) peer of
        None \<Rightarrow> Some (dispatch_reject AuthenticationRequired d)
      | Some sid \<Rightarrow>
         (case (if sid \<in> set (controlled_announcement_sessions d)
                then ensure_controlled_announcement lib sid bytes now (receiver d)
                else Some (receiver d, Inr ())) of
            None \<Rightarrow> None
          | Some (r, Inl e) \<Rightarrow> Some (dispatch_reject e (d\<lparr>receiver := r\<rparr>))
          | Some (r, Inr _) \<Rightarrow>
             map_option (map_prod (\<lambda>r1. d\<lparr>receiver := r1\<rparr>) (map_sum id Relay))
               (push_wire_datagram lib sid bytes now r)))"

end
