(* ===== verification/Relay_Ingress_Inv.thy ===== *)
theory Relay_Ingress_Inv
  imports Relay_Ingress
begin

text \<open>
  The invariant of the relay receiver. Each logical identity belongs to one key, and that key is either
  active or completed; budgets are sums over the active objects; parents of an object are registered,
  entitled to it, and of different roles and peers. The set \<open>X\<close> of \<open>relay_inv\<close> holds the keys between the
  two tables, which occur only inside one operation.
\<close>

section \<open>Documented behaviour of the assembler\<close>

text \<open>\<open>ai ann a\<close>: the assembler \<open>a\<close> works on the announcement \<open>ann\<close>. A decoded object has the announced
  key, and its envelope is available.\<close>

definition assembler_ok ::
  "('o, 'a, 'm) relay_lib \<Rightarrow> ('o announcement \<Rightarrow> 'a \<Rightarrow> bool) \<Rightarrow> bool" where
  "assembler_ok lib ai \<longleftrightarrow>
     (\<forall>ann lim a. assembler_new lib ann lim = Inr a \<longrightarrow> ai ann a)
     \<and> (\<forall>ann a y. ai ann a \<longrightarrow> ai ann (fst (push_symbol lib a y))
          \<and> (\<forall>m. snd (push_symbol lib a y) = Inr (Some m) \<longrightarrow> media_key_of lib m = ann_key ann
               \<and> snd (take_completed_envelope lib (fst (push_symbol lib a y))) \<noteq> None))"

lemma assembler_okD:
  assumes "assembler_ok lib ai"
  shows "assembler_new lib ann lim = Inr a \<Longrightarrow> ai ann a"
    and "ai ann a \<Longrightarrow> push_symbol lib a y = (a', res) \<Longrightarrow> ai ann a'"
    and "ai ann a \<Longrightarrow> push_symbol lib a y = (a', Inr (Some m)) \<Longrightarrow>
      media_key_of lib m = ann_key ann \<and> snd (take_completed_envelope lib a') \<noteq> None"
  using assms unfolding assembler_ok_def by (metis, metis fst_conv, metis fst_conv snd_conv)

section \<open>Parents\<close>

definition compatible_parents :: "'o parent_session \<Rightarrow> 'o parent_session \<Rightarrow> bool" where
  "compatible_parents s t \<longleftrightarrow> parent_path s \<noteq> parent_path t
     \<and> (id_peer (identity s) \<noteq> id_peer (identity t)
        \<or> (controlled_qualification s \<and> controlled_qualification t))"

lemma compatible_sym: "compatible_parents s t \<Longrightarrow> compatible_parents t s"
  by (auto simp: compatible_parents_def)

definition parents_ok ::
  "'o relay_config \<Rightarrow> (nat \<times> 'o parent_session) list \<Rightarrow> 'o announcement \<Rightarrow> nat list \<Rightarrow> bool" where
  "parents_ok cfg ss ann ps \<longleftrightarrow> ps \<noteq> [] \<and> distinct ps \<and> length ps \<le> max_parents_per_object cfg
     \<and> (\<forall>i \<in> set ps. \<exists>s. map_of ss i = Some s \<and> session_id s = i \<and> validate_session_announcement s ann)
     \<and> (\<forall>i \<in> set ps. \<forall>j \<in> set ps. i \<noteq> j \<longrightarrow>
          compatible_parents (the (map_of ss i)) (the (map_of ss j)))"

lemma parent_conflict_None:
  "\<forall>i \<in> set ps. map_of ss i \<noteq> None \<Longrightarrow> parent_conflict ss s ps \<noteq> None"
  by (induction ps) (auto split: option.splits)

lemma parent_conflict_Some_None:
  "parent_conflict ss s ps = Some None \<Longrightarrow> i \<in> set ps \<Longrightarrow>
     \<exists>t. map_of ss i = Some t \<and> compatible_parents t s"
proof (induction ps)
  case Nil
  then show ?case by simp
next
  case (Cons j ps)
  then obtain t where t: "map_of ss j = Some t" by (auto split: option.splits)
  then have "compatible_parents t s" "parent_conflict ss s ps = Some None"
    using Cons.prems(1) by (auto simp: compatible_parents_def split: if_splits)
  then show ?case using Cons t by auto
qed

lemma add_parent_ok:
  assumes "parents_ok cfg ss ann ps" and "map_of ss (session_id s) = Some s"
    and "validate_session_announcement s ann"
  shows "\<exists>res. add_parent_to_set ss ps s (max_parents_per_object cfg) = Some res \<and>
    (\<forall>ps'. res = Inr ps' \<longrightarrow> parents_ok cfg ss ann ps' \<and> session_id s \<in> set ps')"
proof (cases "session_id s \<in> set ps")
  case True
  then show ?thesis using assms(1) by (simp add: add_parent_to_set_def)
next
  case new: False
  have reg: "\<forall>i \<in> set ps. map_of ss i \<noteq> None" using assms(1) by (auto simp: parents_ok_def)
  show ?thesis
  proof (cases "length ps \<ge> max_parents_per_object cfg")
    case True
    then show ?thesis using new by (simp add: add_parent_to_set_def)
  next
    case room: False
    obtain c where c: "parent_conflict ss s ps = Some c" using parent_conflict_None [OF reg] by auto
    show ?thesis
    proof (cases c)
      case (Some e)
      then show ?thesis using new room c by (simp add: add_parent_to_set_def)
    next
      case None
      note comp = parent_conflict_Some_None [OF c [unfolded None]]
      have "parents_ok cfg ss ann (ps @ [session_id s])"
        unfolding parents_ok_def
      proof (intro conjI ballI impI)
        show "ps @ [session_id s] \<noteq> []" "distinct (ps @ [session_id s])"
          "length (ps @ [session_id s]) \<le> max_parents_per_object cfg"
          using assms(1) new room by (auto simp: parents_ok_def)
        show "\<exists>t. map_of ss i = Some t \<and> session_id t = i \<and> validate_session_announcement t ann"
          if "i \<in> set (ps @ [session_id s])" for i
          using that assms by (auto simp: parents_ok_def)
        show "compatible_parents (the (map_of ss i)) (the (map_of ss j))"
          if "i \<in> set (ps @ [session_id s])" "j \<in> set (ps @ [session_id s])" "i \<noteq> j" for i j
          using that assms(1,2) comp compatible_sym by (fastforce simp: parents_ok_def)
      qed
      then show ?thesis using new room c None by (simp add: add_parent_to_set_def)
    qed
  qed
qed

lemma parents_ok_grow:
  "parents_ok cfg ss ann ps \<Longrightarrow> (\<And>i s. map_of ss i = Some s \<Longrightarrow> map_of ss' i = Some s) \<Longrightarrow> parents_ok cfg ss' ann ps"
  unfolding parents_ok_def by (metis option.sel)

section \<open>The invariant\<close>

definition active_ok ::
  "('o, 'a, 'm) relay_lib \<Rightarrow> ('o announcement \<Rightarrow> 'a \<Rightarrow> bool) \<Rightarrow> 'o relay_config
     \<Rightarrow> (nat \<times> 'o parent_session) list \<Rightarrow> 'o media_key \<Rightarrow> ('o, 'a) active_object \<Rightarrow> bool" where
  "active_ok lib ai cfg ss k st \<longleftrightarrow>
     ann_key (ao_announcement st) = k \<and> parents_ok cfg ss (ao_announcement st) (ao_parent_sessions st)
     \<and> ai (ao_announcement st) (ao_assembler st) \<and> table_ok (ao_symbols st)
     \<and> length (ao_symbols st) \<le> max_datagrams_per_object cfg
     \<and> ao_source_symbols st + ao_repair_symbols st = length (ao_symbols st)
     \<and> ao_reserved_bytes st = coding_transfer_length lib (ann_coding (ao_announcement st))"

definition completed_ok ::
  "'o relay_config \<Rightarrow> (nat \<times> 'o parent_session) list \<Rightarrow> 'o media_key \<Rightarrow> 'o completed_object \<Rightarrow> bool" where
  "completed_ok cfg ss k c \<longleftrightarrow>
     ann_key (co_announcement c) = k \<and> parents_ok cfg ss (co_announcement c) (co_parent_sessions c)"

definition relay_config_ok :: "'o relay_config \<Rightarrow> bool" where
  "relay_config_ok cfg \<longleftrightarrow> (\<forall>(f, v, m) \<in> set (config_bounds cfg). 0 < v \<and> v \<le> m)"

text \<open>\<open>A\<close> are the active keys, \<open>C\<close> the completed ones, \<open>X\<close> those in between, and \<open>L\<close> maps exactly the logical
  identities of these keys to them.\<close>

definition keys_ok ::
  "'o media_key set \<Rightarrow> 'o media_key set \<Rightarrow> (logical_identity \<rightharpoonup> 'o media_key) \<Rightarrow> 'o media_key set \<Rightarrow> bool" where
  "keys_ok X A L C \<longleftrightarrow> A \<inter> C = {} \<and> X \<inter> (A \<union> C) = {}
     \<and> (\<forall>l k. L l = Some k \<longleftrightarrow> logical_of k = l \<and> k \<in> A \<union> C \<union> X)"

definition relay_inv ::
  "('o, 'a, 'm) relay_lib \<Rightarrow> ('o announcement \<Rightarrow> 'a \<Rightarrow> bool) \<Rightarrow> 'o media_key set \<Rightarrow> ('o, 'a) relay_receiver \<Rightarrow> bool" where
  "relay_inv lib ai X r \<longleftrightarrow>
     relay_config_ok (relay_config r)
     \<and> table_ok (sessions r) \<and> table_ok (objects r) \<and> table_ok (logical_keys r) \<and> table_ok (completed r)
     \<and> distinct (completed_order r) \<and> set (completed_order r) = set (keys (completed r))
     \<and> buffered_object_bytes r = tsum (ao_reserved_bytes \<circ> snd) (objects r)
     \<and> buffered_datagrams r = tsum (length \<circ> ao_symbols \<circ> snd) (objects r)
     \<and> length (sessions r) \<le> max_parent_sessions (relay_config r)
     \<and> length (objects r) \<le> max_active_objects (relay_config r)
     \<and> length (completed r) \<le> max_completed_objects (relay_config r)
     \<and> buffered_object_bytes r \<le> max_buffered_object_bytes (relay_config r)
     \<and> buffered_datagrams r \<le> max_buffered_datagrams (relay_config r)
     \<and> (\<forall>i s. map_of (sessions r) i = Some s \<longrightarrow> session_id s = i)
     \<and> (\<forall>k st. map_of (objects r) k = Some st \<longrightarrow> active_ok lib ai (relay_config r) (sessions r) k st)
     \<and> (\<forall>k c. map_of (completed r) k = Some c \<longrightarrow> completed_ok (relay_config r) (sessions r) k c)
     \<and> keys_ok X (dom (map_of (objects r))) (map_of (logical_keys r)) (dom (map_of (completed r)))"

lemma relay_invD:
  assumes "relay_inv lib ai X r"
  shows "relay_config_ok (relay_config r)"
    "table_ok (sessions r)" "table_ok (objects r)" "table_ok (logical_keys r)" "table_ok (completed r)"
    "map_of (sessions r) i = Some s \<Longrightarrow> session_id s = i"
    "map_of (objects r) k = Some st \<Longrightarrow> active_ok lib ai (relay_config r) (sessions r) k st"
    "map_of (completed r) k = Some c \<Longrightarrow> completed_ok (relay_config r) (sessions r) k c"
    "keys_ok X (dom (map_of (objects r))) (map_of (logical_keys r)) (dom (map_of (completed r)))"
    "buffered_object_bytes r = tsum (ao_reserved_bytes \<circ> snd) (objects r)"
    "buffered_datagrams r = tsum (length \<circ> ao_symbols \<circ> snd) (objects r)"
  using assms unfolding relay_inv_def by blast+

lemma relay_config_ok_limits:
  assumes "relay_config_ok cfg"
  shows "0 < max_parent_sessions cfg" "0 < max_completed_objects cfg" "0 < max_parents_per_object cfg"
    "max_parents_per_object cfg \<le> 2" "max_datagrams_per_object cfg \<le> 65536"
    "max_buffered_datagrams cfg \<le> 262144" "max_buffered_object_bytes cfg \<le> 512 * 1024 * 1024"
    "max_active_objects cfg \<le> 65536"
  using assms by (simp_all add: relay_config_ok_def config_bounds_def)

lemma relay_inv_rcount [simp]: "relay_inv lib ai X (rcount f r) = relay_inv lib ai X r"
  by (simp add: relay_inv_def rcount_def)

lemma rcount_simps [simp]:
  "relay_config (rcount f r) = relay_config r" "sessions (rcount f r) = sessions r"
  "objects (rcount f r) = objects r" "logical_keys (rcount f r) = logical_keys r"
  "completed (rcount f r) = completed r" "completed_order (rcount f r) = completed_order r"
  "buffered_object_bytes (rcount f r) = buffered_object_bytes r"
  "buffered_datagrams (rcount f r) = buffered_datagrams r"
  "next_expiry_scan_us (rcount f r) = next_expiry_scan_us r"
  "relay_counters (rcount f r) = f (relay_counters r)"
  by (simp_all add: rcount_def)

lemma validate_bounds_ok: "validate_bounds bs = Inr u \<Longrightarrow> \<forall>(f, v, m) \<in> set bs. 0 < v \<and> v \<le> m"
  by (induction bs) (auto simp: validate_nonzero_bound_def split: if_splits)

lemma relay_inv_new: "relay_new lib cfg = Inr r \<Longrightarrow> relay_inv lib ai {} r"
proof -
  assume new: "relay_new lib cfg = Inr r"
  then have "relay_config_ok cfg"
    by (auto simp: relay_new_def relay_config_validate_def relay_config_ok_def dest!: validate_bounds_ok
        split: sum.splits if_splits)
  moreover have "r = \<lparr>relay_config = cfg, sessions = [], objects = [], logical_keys = [], completed = [],
           completed_order = [], buffered_object_bytes = 0, buffered_datagrams = 0,
           relay_counters = ingress_counters_default, next_expiry_scan_us = None\<rparr>"
    using new by (auto simp: relay_new_def split: sum.splits)
  ultimately show ?thesis by (simp add: relay_inv_def keys_ok_def)
qed

section \<open>Elementary updates\<close>

lemma relay_inv_register:
  assumes inv: "relay_inv lib ai {} r"
  shows "relay_inv lib ai {} (fst (register_parent_session s r))"
proof (cases "map_of (sessions r) (session_id s)")
  case (Some t)
  then show ?thesis using inv by (simp add: register_parent_session_def)
next
  case None
  let ?ss = "tput (session_id s) s (sessions r)"
  have grow: "map_of (sessions r) i = Some t \<Longrightarrow> map_of ?ss i = Some t" for i t
    using None relay_invD(2) [OF inv] by (auto simp: ht.map_of_put)
  have act: "active_ok lib ai (relay_config r) ?ss k st" if "map_of (objects r) k = Some st" for k st
    using relay_invD(7) [OF inv that] parents_ok_grow [OF _ grow] unfolding active_ok_def by blast
  have com: "completed_ok (relay_config r) ?ss k c" if "map_of (completed r) k = Some c" for k c
    using relay_invD(8) [OF inv that] parents_ok_grow [OF _ grow] unfolding completed_ok_def by blast
  show ?thesis
    using inv None act com
    by (auto simp: register_parent_session_def relay_inv_def ht.table_ok_put ht.map_of_put ht.length_put)
qed

text \<open>How the keys move between the tables.\<close>

lemma keys_ok_inj: "keys_ok X A L C \<Longrightarrow> k \<in> A \<union> C \<union> X \<Longrightarrow> k' \<in> A \<union> C \<union> X \<Longrightarrow> logical_of k = logical_of k' \<Longrightarrow> k = k'"
  unfolding keys_ok_def by (metis option.inject)

lemma keys_ok_forget:
  assumes "keys_ok X A L C" and "k \<in> A \<union> C \<union> X"
  shows "keys_ok (X - {k}) (A - {k}) (L(logical_of k := None)) (C - {k})"
  using assms keys_ok_inj [OF assms(1)] unfolding keys_ok_def by (auto 0 3)

lemma keys_ok_release: "keys_ok X A L C \<Longrightarrow> k \<in> A \<Longrightarrow> keys_ok (insert k X) (A - {k}) L C"
  unfolding keys_ok_def by auto

lemma keys_ok_settle: "keys_ok {k} A L C \<Longrightarrow> keys_ok {} A L (insert k C)"
  unfolding keys_ok_def by auto

lemma keys_ok_new:
  assumes "keys_ok {} A L C" and "k \<notin> A \<union> C" and "L (logical_of k) = None"
  shows "keys_ok {} (insert k A) (L(logical_of k \<mapsto> k)) C"
proof -
  have "logical_of k' \<noteq> logical_of k" if "k' \<in> A \<union> C" for k'
    using assms(1,3) that unfolding keys_ok_def by (metis Un_iff option.distinct(1))
  then show ?thesis using assms unfolding keys_ok_def by auto
qed

lemma dom_tput: "table_ok m \<Longrightarrow> dom (map_of (tput k v m)) = insert k (dom (map_of m))"
  by (simp add: ht.map_of_put)

lemma map_of_tdel_fun: "map_of (tdel k m) = (map_of m)(k := None)"
  by (rule ext) simp

lemma dom_tdel: "dom (map_of (tdel k m)) = dom (map_of m) - {k}"
  by (simp add: map_of_tdel_fun)

text \<open>Changing an active object in place.\<close>

lemma relay_inv_update:
  assumes inv: "relay_inv lib ai X r" and st: "map_of (objects r) k = Some st"
    and ok: "active_ok lib ai (relay_config r) (sessions r) k st'"
    and bytes: "ao_reserved_bytes st' = ao_reserved_bytes st"
    and dg: "d + length (ao_symbols st) = buffered_datagrams r + length (ao_symbols st')"
      "d \<le> max_buffered_datagrams (relay_config r)"
  shows "relay_inv lib ai X (r\<lparr>objects := tput k st' (objects r), buffered_datagrams := d\<rparr>)"
proof -
  note I = relay_invD [OF inv]
  have "tsum (ao_reserved_bytes \<circ> snd) (tput k st' (objects r)) = buffered_object_bytes r"
    "tsum (length \<circ> ao_symbols \<circ> snd) (tput k st' (objects r)) = d"
    using ht.tsum_put_old [OF I(3) st, of "ao_reserved_bytes \<circ> snd" st']
      ht.tsum_put_old [OF I(3) st, of "length \<circ> ao_symbols \<circ> snd" st'] bytes dg(1) I(10,11) by simp_all
  moreover have "dom (map_of (tput k st' (objects r))) = dom (map_of (objects r))"
    using st I(3) by (auto simp: dom_tput)
  ultimately show ?thesis
    using inv ok dg(2) st
    by (auto simp: relay_inv_def ht.table_ok_put ht.map_of_put ht.length_put)
qed

lemma relay_inv_join_completed:
  assumes inv: "relay_inv lib ai X r" and c: "map_of (completed r) k = Some c"
    and ok: "completed_ok (relay_config r) (sessions r) k c'"
  shows "relay_inv lib ai X (r\<lparr>completed := tput k c' (completed r)\<rparr>)"
proof -
  note I = relay_invD [OF inv]
  have dom: "dom (map_of (tput k c' (completed r))) = dom (map_of (completed r))"
    using c I(5) by (auto simp: dom_tput)
  then have ks: "set (keys (tput k c' (completed r))) = set (keys (completed r))"
    by (simp add: dom_map_of_conv_image_fst)
  show ?thesis
    using inv ok c ks dom
    by (auto simp: relay_inv_def ht.table_ok_put ht.map_of_put ht.length_put simp del: set_map)
qed

lemma relay_inv_start:
  assumes inv: "relay_inv lib ai {} r" and new: "map_of (objects r) k = None" "map_of (completed r) k = None"
    and id: "\<not> identity_conflict k r" and ok: "active_ok lib ai (relay_config r) (sessions r) k st"
    and empty: "ao_symbols st = []"
    and room: "length (objects r) < max_active_objects (relay_config r)"
      "b = buffered_object_bytes r + ao_reserved_bytes st" "b \<le> max_buffered_object_bytes (relay_config r)"
  shows "relay_inv lib ai {} (r\<lparr>logical_keys := tput (logical_of k) k (logical_keys r),
    objects := tput k st (objects r), buffered_object_bytes := b\<rparr>)"
proof -
  note I = relay_invD [OF inv]
  have fresh: "k \<notin> dom (map_of (objects r)) \<union> dom (map_of (completed r))" using new by auto
  have lk: "map_of (logical_keys r) (logical_of k) = None"
  proof (rule ccontr)
    assume "map_of (logical_keys r) (logical_of k) \<noteq> None"
    then have "map_of (logical_keys r) (logical_of k) = Some k"
      using id by (auto simp: identity_conflict_def)
    then show False using I(9) fresh by (auto simp: keys_ok_def)
  qed
  have "keys_ok {} (dom (map_of (tput k st (objects r)))) (map_of (tput (logical_of k) k (logical_keys r)))
      (dom (map_of (completed r)))"
    using keys_ok_new [OF I(9) fresh lk] I(3,4) by (simp add: ht.map_of_put)
  moreover have "tsum (ao_reserved_bytes \<circ> snd) (tput k st (objects r)) = b"
    "tsum (length \<circ> ao_symbols \<circ> snd) (tput k st (objects r)) = buffered_datagrams r"
    using ht.tsum_put_new [OF I(3) new(1)] I(10,11) room(2) empty by simp_all
  ultimately show ?thesis
    using inv ok new room
    by (auto simp: relay_inv_def ht.table_ok_put ht.map_of_put ht.length_put)
qed

lemma remove_active_eq:
  assumes "map_of (objects r) k = Some st"
  shows "remove_active_object k b r =
    ((if b then (\<lambda>r. r\<lparr>logical_keys := tdel (logical_of k) (logical_keys r)\<rparr>) else id)
      (r\<lparr>objects := tdel k (objects r), buffered_object_bytes := buffered_object_bytes r - ao_reserved_bytes st,
         buffered_datagrams := buffered_datagrams r - length (ao_symbols st)\<rparr>), Some st)"
  using assms by (simp add: remove_active_object_def Let_def)

lemma relay_inv_remove_parts:
  assumes inv: "relay_inv lib ai {} r" and st: "map_of (objects r) k = Some st"
  shows "buffered_object_bytes r = ao_reserved_bytes st + tsum (ao_reserved_bytes \<circ> snd) (tdel k (objects r))"
    "buffered_datagrams r = length (ao_symbols st) + tsum (length \<circ> ao_symbols \<circ> snd) (tdel k (objects r))"
    "length (tdel k (objects r)) \<le> length (objects r)"
    "keys_ok {k} (dom (map_of (tdel k (objects r)))) (map_of (logical_keys r)) (dom (map_of (completed r)))"
    "keys_ok {} (dom (map_of (tdel k (objects r)))) (map_of (tdel (logical_of k) (logical_keys r)))
       (dom (map_of (completed r)))"
proof -
  note I = relay_invD [OF inv]
  show "buffered_object_bytes r = ao_reserved_bytes st + tsum (ao_reserved_bytes \<circ> snd) (tdel k (objects r))"
    "buffered_datagrams r = length (ao_symbols st) + tsum (length \<circ> ao_symbols \<circ> snd) (tdel k (objects r))"
    using ht.tsum_tdel [OF I(3) st, of "ao_reserved_bytes \<circ> snd"]
      ht.tsum_tdel [OF I(3) st, of "length \<circ> ao_symbols \<circ> snd"] I(10,11) by simp_all
  show "length (tdel k (objects r)) \<le> length (objects r)" by (rule length_tdel_le)
  have k: "k \<in> dom (map_of (objects r))" using st by auto
  then have c: "dom (map_of (completed r)) - {k} = dom (map_of (completed r))"
    using I(9) by (auto simp: keys_ok_def)
  show "keys_ok {k} (dom (map_of (tdel k (objects r)))) (map_of (logical_keys r)) (dom (map_of (completed r)))"
    using keys_ok_release [OF I(9) k] by (simp add: dom_tdel)
  show "keys_ok {} (dom (map_of (tdel k (objects r)))) (map_of (tdel (logical_of k) (logical_keys r)))
       (dom (map_of (completed r)))"
    using keys_ok_forget [OF I(9), of k] k c by (simp add: dom_tdel map_of_tdel_fun)
qed

end
