(* ===== verification/Relay_Ingress_Ops.thy ===== *)
theory Relay_Ingress_Ops
  imports Relay_Ingress_Inv
begin

text \<open>
  Every operation of the relay receiver returns, keeps the invariant, and changes only what it must. The
  frame \<open>relay_frame\<close> states what no datagram and no announcement changes: configuration and sessions.
\<close>

definition relay_frame :: "('o, 'a) relay_receiver \<Rightarrow> ('o, 'a) relay_receiver \<Rightarrow> bool" where
  "relay_frame r r' \<longleftrightarrow> relay_config r' = relay_config r \<and> sessions r' = sessions r"

lemma relay_frame_refl [simp, intro]: "relay_frame r r"
  by (simp add: relay_frame_def)

lemma relay_frame_trans: "relay_frame r r1 \<Longrightarrow> relay_frame r1 r2 \<Longrightarrow> relay_frame r r2"
  by (simp add: relay_frame_def)

lemma relay_frame_rcount [simp]: "relay_frame r (rcount f r') = relay_frame r r'"
  by (simp add: relay_frame_def)

lemma relay_inv_scan [simp]: "relay_inv lib ai X (r\<lparr>next_expiry_scan_us := t\<rparr>) = relay_inv lib ai X r"
  by (simp add: relay_inv_def)

lemma get_session_Inr: "get_session sid r = Inr s \<longleftrightarrow> map_of (sessions r) sid = Some s"
  by (auto simp: get_session_def split: option.splits)

lemma tdel_tput: "tdel k (tput k v m) = tdel k m"
  by (induction m) auto

section \<open>Removal and expiry\<close>

lemma relay_inv_without:
  assumes inv: "relay_inv lib ai {} r" and st: "map_of (objects r) k = Some st"
    and L: "table_ok L"
      "keys_ok X (dom (map_of (tdel k (objects r)))) (map_of L) (dom (map_of (completed r)))"
  shows "relay_inv lib ai X (r\<lparr>objects := tdel k (objects r),
    buffered_object_bytes := buffered_object_bytes r - ao_reserved_bytes st,
    buffered_datagrams := buffered_datagrams r - length (ao_symbols st), logical_keys := L\<rparr>)"
proof -
  note I = relay_invD [OF inv] and P = relay_inv_remove_parts [OF inv st]
  have act: "active_ok lib ai (relay_config r) (sessions r) k' st'"
    if "map_of (tdel k (objects r)) k' = Some st'" for k' st'
    using I(7) that by (auto split: if_splits)
  have sums: "buffered_object_bytes r - ao_reserved_bytes st = tsum (ao_reserved_bytes \<circ> snd) (tdel k (objects r))"
    "buffered_datagrams r - length (ao_symbols st) = tsum (length \<circ> ao_symbols \<circ> snd) (tdel k (objects r))"
    using P(1,2) by simp_all
  have le: "buffered_object_bytes r - ao_reserved_bytes st \<le> buffered_object_bytes r"
    "buffered_datagrams r - length (ao_symbols st) \<le> buffered_datagrams r" by simp_all
  show ?thesis
    using inv P(3) act sums le L unfolding relay_inv_def
    by (simp del: map_of_tdel add: table_ok_tdel)
qed

lemma relay_inv_remove:
  assumes inv: "relay_inv lib ai {} r" and st: "map_of (objects r) k = Some st"
  shows "relay_inv lib ai {} (fst (remove_active_object k True r))"
  using relay_inv_without [OF inv st _ relay_inv_remove_parts(5) [OF inv st]] relay_invD(4) [OF inv]
  by (simp add: remove_active_eq [OF st])

lemma relay_inv_release:
  assumes inv: "relay_inv lib ai {} r" and st: "map_of (objects r) k = Some st"
  shows "relay_inv lib ai {k} (fst (remove_active_object k False r))"
  using relay_inv_without [OF inv st relay_invD(4) [OF inv] relay_inv_remove_parts(4) [OF inv st]]
  by (simp add: remove_active_eq [OF st])

lemma expire_keys_eq:
  assumes "relay_inv lib ai {} r" and "distinct ks" and "set ks \<subseteq> set (keys (objects r))"
    and "rx_objects x + length ks \<le> u64_max"
    and "rx_released_object_bytes x + buffered_object_bytes r \<le> u64_max"
    and "rx_released_datagrams x + buffered_datagrams r \<le> u64_max"
    and "expire_keys ks r x = (r', x')"
  shows "relay_inv lib ai {} r' \<and> objects r' = filter (\<lambda>p. fst p \<notin> set ks) (objects r)
    \<and> relay_config r' = relay_config r \<and> sessions r' = sessions r \<and> completed r' = completed r
    \<and> completed_order r' = completed_order r \<and> relay_counters r' = relay_counters r
    \<and> rx_objects x' = rx_objects x + length ks
    \<and> rx_released_object_bytes x' + buffered_object_bytes r' = rx_released_object_bytes x + buffered_object_bytes r
    \<and> rx_released_datagrams x' + buffered_datagrams r' = rx_released_datagrams x + buffered_datagrams r"
  using assms
proof (induction ks arbitrary: r x)
  case Nil
  then show ?case by simp
next
  case (Cons k ks)
  obtain st where st: "map_of (objects r) k = Some st"
    using Cons.prems(3) by (metis insert_subset list.simps(15) map_of_eq_None_iff not_None_eq set_map)
  define r1 where "r1 = fst (remove_active_object k True r)"
  define x1 where "x1 = \<lparr>rx_objects = sat_add (rx_objects x) 1,
    rx_released_object_bytes = sat_add (rx_released_object_bytes x) (ao_reserved_bytes st),
    rx_released_datagrams = sat_add (rx_released_datagrams x) (length (ao_symbols st))\<rparr>"
  have r1: "r1 = r\<lparr>objects := tdel k (objects r), buffered_object_bytes := buffered_object_bytes r - ao_reserved_bytes st,
      buffered_datagrams := buffered_datagrams r - length (ao_symbols st),
      logical_keys := tdel (logical_of k) (logical_keys r)\<rparr>"
    by (simp add: r1_def remove_active_eq [OF st])
  have rest: "expire_keys ks r1 x1 = (r', x')"
    using Cons.prems(7) by (simp add: remove_active_eq [OF st] r1 x1_def)
  note P = relay_inv_remove_parts [OF Cons.prems(1) st]
  have x1: "rx_objects x1 = rx_objects x + 1"
    "rx_released_object_bytes x1 + buffered_object_bytes r1 = rx_released_object_bytes x + buffered_object_bytes r"
    "rx_released_datagrams x1 + buffered_datagrams r1 = rx_released_datagrams x + buffered_datagrams r"
    using Cons.prems(4-6) P(1,2) by (simp_all add: x1_def r1 sat_add_exact)
  have inv1: "relay_inv lib ai {} r1" unfolding r1_def by (rule relay_inv_remove [OF Cons.prems(1) st])
  have sub: "distinct ks" "set ks \<subseteq> set (keys (objects r1))"
    using Cons.prems(2,3) by (auto simp: r1 delete_keys simp del: set_map)
  have lim: "rx_objects x1 + length ks \<le> u64_max"
    "rx_released_object_bytes x1 + buffered_object_bytes r1 \<le> u64_max"
    "rx_released_datagrams x1 + buffered_datagrams r1 \<le> u64_max"
    using Cons.prems(4-6) x1 by simp_all
  note IH = Cons.IH [OF inv1 sub lim rest]
  have "filter (\<lambda>p. fst p \<notin> set ks) (tdel k (objects r)) = filter (\<lambda>p. fst p \<notin> set (k # ks)) (objects r)"
    by (auto simp: AList.delete_eq intro: filter_cong)
  then show ?case using IH x1 by (simp add: r1)
qed

lemma relay_inv_budgets:
  assumes "relay_inv lib ai X r"
  shows "length (objects r) \<le> 65536" "buffered_object_bytes r \<le> 512 * 1024 * 1024" "buffered_datagrams r \<le> 262144"
    "length (sessions r) \<le> max_parent_sessions (relay_config r)"
    "length (objects r) \<le> max_active_objects (relay_config r)"
    "length (completed r) \<le> max_completed_objects (relay_config r)"
    "buffered_object_bytes r \<le> max_buffered_object_bytes (relay_config r)"
    "buffered_datagrams r \<le> max_buffered_datagrams (relay_config r)"
  using assms relay_config_ok_limits [OF relay_invD(1) [OF assms]] unfolding relay_inv_def by linarith+

lemma expire_eq:
  assumes inv: "relay_inv lib ai {} r" and ex: "expire lib now r = (r', x)"
  shows "relay_inv lib ai {} r' \<and> relay_frame r r'
    \<and> objects r' = filter (\<lambda>(k, st). \<not> object_expired lib now r st) (objects r)
    \<and> completed r' = completed r \<and> completed_order r' = completed_order r
    \<and> rx_objects x + length (objects r') = length (objects r)
    \<and> rx_released_object_bytes x + buffered_object_bytes r' = buffered_object_bytes r
    \<and> rx_released_datagrams x + buffered_datagrams r' = buffered_datagrams r
    \<and> relay_counters r' = (relay_counters r)\<lparr>expired_objects := sat_add (expired_objects (relay_counters r)) (rx_objects x)\<rparr>
    \<and> next_expiry_scan_us r' = Some (sat_add now (expiry_scan_interval_us (relay_config r)))"
proof -
  let ?P = "\<lambda>(k, st). object_expired lib now r st"
  let ?ks = "keys (filter ?P (objects r))"
  let ?x0 = "\<lparr>rx_objects = 0, rx_released_object_bytes = 0, rx_released_datagrams = 0\<rparr>"
  obtain r1 x1 where e: "expire_keys ?ks r ?x0 = (r1, x1)" by (metis surj_pair)
  note I = relay_invD [OF inv] and B = relay_inv_budgets [OF inv]
  have ks: "distinct ?ks" "set ?ks \<subseteq> set (keys (objects r))"
    using I(3) by (auto simp: distinct_map_filter)
  have "length ?ks \<le> 65536" using B(1) length_filter_le [of ?P "objects r"] by (simp only: length_map)
  then have lim: "rx_objects ?x0 + length ?ks \<le> u64_max"
    "rx_released_object_bytes ?x0 + buffered_object_bytes r \<le> u64_max"
    "rx_released_datagrams ?x0 + buffered_datagrams r \<le> u64_max"
    using B(2,3) by (simp_all add: u64_max_def)
  note X = expire_keys_eq [OF inv ks lim e]
  have obj: "objects r1 = filter (\<lambda>(k, st). \<not> object_expired lib now r st) (objects r)"
    using X filter_keys_notin [OF I(3), of ?P] by (simp add: case_prod_beta')
  have "length (objects r) = rx_objects x1 + length (objects r1)"
    using X length_filter_split [of "objects r" ?P] by (simp add: obj case_prod_beta')
  moreover have "r' = (rcount (\<lambda>c. c\<lparr>expired_objects := sat_add (expired_objects c) (rx_objects x1)\<rparr>) r1)
      \<lparr>next_expiry_scan_us := Some (sat_add now (expiry_scan_interval_us (relay_config r1)))\<rparr>" "x = x1"
    using ex e by (auto simp: expire_def Let_def)
  ultimately show ?thesis using X obj by (simp add: relay_frame_def)
qed

text \<open>What the lazy scan leaves: the objects are those before it, less expired ones.\<close>

lemma expire_if_due_eq:
  assumes inv: "relay_inv lib ai {} r"
  shows "relay_inv lib ai {} (expire_if_due lib now r)" "relay_frame r (expire_if_due lib now r)"
    "completed (expire_if_due lib now r) = completed r"
    "completed_order (expire_if_due lib now r) = completed_order r"
    "map_of (objects (expire_if_due lib now r)) k = Some st \<Longrightarrow> map_of (objects r) k = Some st"
    "relay_counters (expire_if_due lib now r) =
       (relay_counters r)\<lparr>expired_objects := expired_objects (relay_counters (expire_if_due lib now r))\<rparr>"
proof -
  obtain r' x where e: "expire lib now r = (r', x)" by (metis surj_pair)
  note E = expire_eq [OF inv e]
  have m: "map_of (objects r') k = Some st \<Longrightarrow> map_of (objects r) k = Some st"
    using E map_of_filter_table [OF relay_invD(3) [OF inv], of "\<lambda>k st. \<not> object_expired lib now r st" k]
    by (auto split: option.splits if_splits)
  have d: "expire_if_due lib now r = r' \<or> expire_if_due lib now r = r" by (simp add: expire_if_due_def e)
  show "relay_inv lib ai {} (expire_if_due lib now r)" using d E inv by auto
  show "relay_frame r (expire_if_due lib now r)" using d E by auto
  show "completed (expire_if_due lib now r) = completed r" using d E by auto
  show "completed_order (expire_if_due lib now r) = completed_order r" using d E by auto
  show "map_of (objects (expire_if_due lib now r)) k = Some st \<Longrightarrow> map_of (objects r) k = Some st"
    using d m by auto
  show "relay_counters (expire_if_due lib now r) =
       (relay_counters r)\<lparr>expired_objects := expired_objects (relay_counters (expire_if_due lib now r))\<rparr>"
    using d E by auto
qed

section \<open>Tombstones\<close>

lemma relay_inv_evict_one:
  assumes inv: "relay_inv lib ai X r" and order: "completed_order r = k # ks"
  shows "relay_inv lib ai X (r\<lparr>completed_order := ks, completed := tdel k (completed r),
    logical_keys := tdel (logical_of k) (logical_keys r)\<rparr>)"
proof -
  note I = relay_invD [OF inv]
  have d: "distinct (k # ks)" and ks: "set (k # ks) = set (keys (completed r))"
    using inv order by (auto simp: relay_inv_def)
  then have k: "k \<in> dom (map_of (completed r))" by (auto simp: dom_map_of_conv_image_fst)
  then have out: "dom (map_of (objects r)) - {k} = dom (map_of (objects r))" "X - {k} = X"
    using I(9) by (auto simp: keys_ok_def)
  have keys: "keys_ok X (dom (map_of (objects r))) (map_of (tdel (logical_of k) (logical_keys r)))
      (dom (map_of (tdel k (completed r))))"
    using keys_ok_forget [OF I(9), of k] k out by (simp add: dom_tdel map_of_tdel_fun)
  have "set ks = set (keys (tdel k (completed r)))"
    using d ks by (auto simp: delete_keys simp del: set_map)
  moreover have "completed_ok (relay_config r) (sessions r) k' c'"
    if "map_of (tdel k (completed r)) k' = Some c'" for k' c'
    using I(8) that by (auto split: if_splits)
  moreover have "length (tdel k (completed r)) \<le> max_completed_objects (relay_config r)"
    using inv length_tdel_le [of k "completed r"] by (simp add: relay_inv_def)
  ultimately show ?thesis
    using inv d keys unfolding relay_inv_def by (simp del: map_of_tdel set_map)
qed

text \<open>The loop drops the oldest tombstones until one more fits, and nothing else.\<close>

lemma evict_completed_eq:
  assumes "relay_inv lib ai X r"
  shows "relay_inv lib ai X (evict_completed r) \<and> relay_frame r (evict_completed r)
    \<and> length (completed (evict_completed r)) < max_completed_objects (relay_config r)
    \<and> objects (evict_completed r) = objects r \<and> relay_counters (evict_completed r) = relay_counters r
    \<and> buffered_object_bytes (evict_completed r) = buffered_object_bytes r
    \<and> buffered_datagrams (evict_completed r) = buffered_datagrams r
    \<and> completed_order (evict_completed r) =
        drop (Suc (length (completed r)) - max_completed_objects (relay_config r)) (completed_order r)
    \<and> (\<forall>k c. map_of (completed (evict_completed r)) k = Some c \<longrightarrow> map_of (completed r) k = Some c)"
  using assms
proof (induction r rule: evict_completed.induct)
  case (1 r)
  note inv = "1.prems" and limits = relay_config_ok_limits [OF relay_invD(1) [OF "1.prems"]]
  show ?case
  proof (cases "length (completed r) \<ge> max_completed_objects (relay_config r)")
    case False
    then show ?thesis using inv by (simp add: evict_completed.simps [of r])
  next
    case full: True
    have eqs: "set (completed_order r) = set (keys (completed r))" using inv by (simp add: relay_inv_def)
    moreover have "completed r \<noteq> []" using full limits(2) by auto
    ultimately obtain k ks where order: "completed_order r = k # ks"
      by (cases "completed_order r") (auto simp: neq_Nil_conv)
    then have some: "map_of (completed r) k \<noteq> None"
      using eqs by (metis list.set_intros(1) map_of_eq_None_iff set_map)
    define r1 where "r1 = r\<lparr>completed_order := ks, completed := tdel k (completed r),
      logical_keys := tdel (logical_of k) (logical_keys r)\<rparr>"
    have ev: "evict_completed r = evict_completed r1"
      using full order some by (simp add: evict_completed.simps [of r] r1_def Let_def)
    have inv1: "relay_inv lib ai X r1" unfolding r1_def by (rule relay_inv_evict_one [OF inv order])
    have "length (completed r) = Suc (length (completed r1))"
      using some tdel_length_less [OF relay_invD(5) [OF inv]] by (auto simp: r1_def)
    moreover have IH: "relay_inv lib ai X (evict_completed r1) \<and> relay_frame r1 (evict_completed r1)
      \<and> length (completed (evict_completed r1)) < max_completed_objects (relay_config r1)
      \<and> objects (evict_completed r1) = objects r1 \<and> relay_counters (evict_completed r1) = relay_counters r1
      \<and> buffered_object_bytes (evict_completed r1) = buffered_object_bytes r1
      \<and> buffered_datagrams (evict_completed r1) = buffered_datagrams r1
      \<and> completed_order (evict_completed r1) =
          drop (Suc (length (completed r1)) - max_completed_objects (relay_config r1)) (completed_order r1)
      \<and> (\<forall>k c. map_of (completed (evict_completed r1)) k = Some c \<longrightarrow> map_of (completed r1) k = Some c)"
      using "1.IH" [OF full order refl] some inv1 by (simp add: r1_def)
    moreover have "relay_frame r r1" by (simp add: r1_def relay_frame_def)
    moreover have "map_of (completed r1) k' = Some c \<Longrightarrow> map_of (completed r) k' = Some c" for k' c
      by (simp add: r1_def split: if_splits)
    moreover have "objects r1 = objects r" "relay_counters r1 = relay_counters r"
      "buffered_object_bytes r1 = buffered_object_bytes r" "buffered_datagrams r1 = buffered_datagrams r"
      "relay_config r1 = relay_config r" "completed_order r1 = ks" by (simp_all add: r1_def)
    ultimately show ?thesis
      using full order relay_frame_trans [of r r1]
      by (simp add: ev Suc_diff_le)
  qed
qed

lemma relay_inv_insert_completed:
  assumes inv: "relay_inv lib ai {k} r" and c: "completed_ok (relay_config r) (sessions r) k c"
  shows "relay_inv lib ai {} (insert_completed k c r) \<and> relay_frame r (insert_completed k c r)
    \<and> objects (insert_completed k c r) = objects r
    \<and> map_of (completed (insert_completed k c r)) k = Some c
    \<and> relay_counters (insert_completed k c r) = relay_counters r"
proof -
  define r1 where "r1 = evict_completed r"
  note E = evict_completed_eq [OF inv, folded r1_def]
  have inv1: "relay_inv lib ai {k} r1" using E by blast
  note I = relay_invD [OF inv1]
  have new: "map_of (completed r1) k = None" "k \<notin> set (completed_order r1)"
    using I(9) inv1 by (auto simp: keys_ok_def relay_inv_def map_of_eq_None_iff dom_map_of_conv_image_fst)
  have ok: "completed_ok (relay_config r1) (sessions r1) k c" using c E by (simp add: relay_frame_def)
  have "keys_ok {} (dom (map_of (objects r1))) (map_of (logical_keys r1)) (dom (map_of (tput k c (completed r1))))"
    using keys_ok_settle [OF I(9)] I(5) by (simp add: dom_tput)
  moreover have "set (keys (tput k c (completed r1))) = insert k (set (keys (completed r1)))"
    using dom_tput [OF I(5), of k c] by (simp add: dom_map_of_conv_image_fst)
  moreover have "length (completed r1) < max_completed_objects (relay_config r1)"
    using E by (simp add: relay_frame_def)
  ultimately have "relay_inv lib ai {} (r1\<lparr>completed_order := completed_order r1 @ [k],
      completed := tput k c (completed r1)\<rparr>)"
    using inv1 new ok unfolding relay_inv_def
    by (auto simp: ht.table_ok_put ht.map_of_put ht.length_put simp del: set_map)
  then show ?thesis
    using E I(5) by (simp add: insert_completed_def Let_def relay_frame_def ht.map_of_put flip: r1_def)
qed

section \<open>Symbols of active objects\<close>

lemma complete_object_ok:
  assumes inv: "relay_inv lib ai {} r" and st: "map_of (objects r) (sym_object_key y) = Some st"
    and mk: "media_key_of lib m = sym_object_key y"
    and env: "snd (take_completed_envelope lib (ao_assembler st)) = Some bytes"
    and kind: "validate_object_kind lib m (ann_kind (ao_announcement st))"
  shows "\<exists>r'. complete_object lib y m r = Some (r', Inr (Decoded m bytes (sym_role y) (sym_deadline y)
      (length (ao_parent_sessions st)) (length (ao_symbols st))))
    \<and> relay_inv lib ai {} r' \<and> relay_frame r r' \<and> objects r' = tdel (sym_object_key y) (objects r)
    \<and> map_of (completed r') (sym_object_key y) =
        Some \<lparr>co_announcement = ao_announcement st, co_parent_sessions = ao_parent_sessions st\<rparr>
    \<and> completed_order r' = drop (Suc (length (completed r)) - max_completed_objects (relay_config r))
        (completed_order r) @ [sym_object_key y]"
proof -
  let ?k = "sym_object_key y"
  let ?c = "\<lparr>co_announcement = ao_announcement st, co_parent_sessions = ao_parent_sessions st\<rparr>"
  obtain a where te: "take_completed_envelope lib (ao_assembler st) = (a, Some bytes)"
    using env by (cases "take_completed_envelope lib (ao_assembler st)") simp
  note I = relay_invD [OF inv]
  define r1 where "r1 = r\<lparr>objects := tput ?k (st\<lparr>ao_assembler := a\<rparr>) (objects r)\<rparr>"
  define r2 where "r2 = fst (remove_active_object ?k False r)"
  have "map_of (objects r1) ?k = Some (st\<lparr>ao_assembler := a\<rparr>)" by (simp add: r1_def I(3) ht.map_of_put)
  then have rm: "remove_active_object ?k False r1 = (r2, Some (st\<lparr>ao_assembler := a\<rparr>))"
    by (simp add: remove_active_eq r1_def r2_def st tdel_tput)
  obtain g where g: "complete_object lib y m r = Some (insert_completed ?k ?c (rcount g r2),
      Inr (Decoded m bytes (sym_role y) (sym_deadline y) (length (ao_parent_sessions st)) (length (ao_symbols st))))"
    using st kind mk rm by (simp add: complete_object_def te Let_def flip: r1_def)
  have r2: "relay_inv lib ai {?k} (rcount g r2)" "relay_frame r (rcount g r2)"
    "objects (rcount g r2) = tdel ?k (objects r)" "completed r2 = completed r" "completed_order r2 = completed_order r"
    using relay_inv_release [OF inv st] by (simp_all add: r2_def remove_active_eq [OF st] relay_frame_def)
  have "completed_ok (relay_config (rcount g r2)) (sessions (rcount g r2)) ?k ?c"
    using I(7) [OF st] r2(2) by (simp add: completed_ok_def active_ok_def relay_frame_def)
  note C = relay_inv_insert_completed [OF r2(1) this] and E = evict_completed_eq [OF r2(1)]
  have "completed_order (insert_completed ?k ?c (rcount g r2)) =
      drop (Suc (length (completed r)) - max_completed_objects (relay_config r)) (completed_order r) @ [?k]"
    using E r2 by (simp add: insert_completed_def Let_def relay_frame_def)
  then show ?thesis
    using g C r2(3) relay_frame_trans [OF r2(2)] by auto
qed

text \<open>The state after a new symbol has been accepted, before completion.\<close>

definition symbol_added ::
  "('o, 'a, 'm) relay_lib \<Rightarrow> 'o relay_symbol \<Rightarrow> u32 \<Rightarrow> ('o, 'a) active_object \<Rightarrow> nat \<Rightarrow> ('o, 'a) active_object" where
  "symbol_added lib y seq st now = st\<lparr>ao_assembler := fst (push_symbol lib (ao_assembler st) y),
     ao_symbols := tput seq (SymbolFingerprint (payload_digest lib (sym_fec_datagram y)) (sym_role y)) (ao_symbols st),
     ao_source_symbols := ao_source_symbols st + of_bool (sym_role y = Source),
     ao_repair_symbols := ao_repair_symbols st + of_bool (sym_role y = Repair),
     ao_last_activity_us := now\<rparr>"

lemma symbol_added_ok:
  assumes lib: "assembler_ok lib ai" and ok: "active_ok lib ai cfg ss k st"
    and new: "map_of (ao_symbols st) seq = None" "length (ao_symbols st) < max_datagrams_per_object cfg"
  shows "active_ok lib ai cfg ss k (symbol_added lib y seq st now)"
    "length (ao_symbols (symbol_added lib y seq st now)) = Suc (length (ao_symbols st))"
proof -
  have sy: "table_ok (ao_symbols st)" using ok by (simp add: active_ok_def)
  show len: "length (ao_symbols (symbol_added lib y seq st now)) = Suc (length (ao_symbols st))"
    using new by (simp add: symbol_added_def ht.length_put [OF sy])
  have "ai (ao_announcement st) (fst (push_symbol lib (ao_assembler st) y))"
    using assembler_okD(2) [OF lib] ok by (metis active_ok_def prod.collapse)
  then show "active_ok lib ai cfg ss k (symbol_added lib y seq st now)"
    using ok new len by (cases "sym_role y") (simp_all add: active_ok_def symbol_added_def ht.table_ok_put)
qed

text \<open>The four ends of a symbol that passed every check.\<close>

definition admit_post ::
  "('o, 'a, 'm) relay_lib \<Rightarrow> 'o relay_symbol \<Rightarrow> u32 \<Rightarrow> ('o, 'a) active_object \<Rightarrow> nat \<Rightarrow> ('o, 'a) relay_receiver
     \<Rightarrow> ('o, 'a) relay_receiver \<Rightarrow> (('o, 'm) ingress_outcome, 'o ingress_error) result \<Rightarrow> bool" where
  "admit_post lib y seq st now r r' res \<longleftrightarrow> (case res of
         Inl e \<Rightarrow> completed r' = completed r \<and> completed_order r' = completed_order r
           \<and> (e = ObjectIdentityConflict \<or> (\<exists>se. snd (push_symbol lib (ao_assembler st) y) = Inl se \<and> e = RelaySession se))
       | Inr (Buffered k role dl) \<Rightarrow> k = sym_object_key y
           \<and> map_of (objects r') k = Some (symbol_added lib y seq st now)
           \<and> completed r' = completed r \<and> completed_order r' = completed_order r
       | Inr (Decoded m bytes role dl np ns) \<Rightarrow> media_key_of lib m = sym_object_key y
           \<and> snd (push_symbol lib (ao_assembler st) y) = Inr (Some m)
           \<and> validate_object_kind lib m (ann_kind (ao_announcement st))
           \<and> np = length (ao_parent_sessions st) \<and> ns = Suc (length (ao_symbols st))
           \<and> map_of (objects r') (sym_object_key y) = None
           \<and> map_of (completed r') (sym_object_key y) =
               Some \<lparr>co_announcement = ao_announcement st, co_parent_sessions = ao_parent_sessions st\<rparr>
           \<and> completed_order r' = drop (Suc (length (completed r)) - max_completed_objects (relay_config r))
               (completed_order r) @ [sym_object_key y]
       | Inr (Duplicate _ _ _) \<Rightarrow> False)"

text \<open>The receiver after a new symbol has entered the object \<open>st\<close>.\<close>

definition symbol_stored ::
  "('o, 'a, 'm) relay_lib \<Rightarrow> 'o relay_symbol \<Rightarrow> u32 \<Rightarrow> ('o, 'a) active_object \<Rightarrow> nat
     \<Rightarrow> ('o, 'a) relay_receiver \<Rightarrow> ('o, 'a) relay_receiver" where
  "symbol_stored lib y seq st now r = (rcount (count_role (sym_role y)) r)\<lparr>
     objects := tput (sym_object_key y) (symbol_added lib y seq st now) (objects r),
     buffered_datagrams := sat_add (buffered_datagrams r) 1\<rparr>"

lemma symbol_stored_ok:
  assumes lib: "assembler_ok lib ai" and inv: "relay_inv lib ai {} r"
    and st: "map_of (objects r) (sym_object_key y) = Some st"
    and new: "map_of (ao_symbols st) seq = None"
      "length (ao_symbols st) < max_datagrams_per_object (relay_config r)"
      "buffered_datagrams r < max_buffered_datagrams (relay_config r)"
    and r1: "r1 = symbol_stored lib y seq st now r"
  shows "relay_inv lib ai {} r1" "map_of (objects r1) (sym_object_key y) = Some (symbol_added lib y seq st now)"
    "relay_frame r r1" "completed r1 = completed r" "completed_order r1 = completed_order r"
    "dom (map_of (objects r1)) = dom (map_of (objects r))"
proof -
  let ?k = "sym_object_key y" and ?st1 = "symbol_added lib y seq st now"
  note I = relay_invD [OF inv] and B = relay_config_ok_limits [OF relay_invD(1) [OF inv]]
  note A = symbol_added_ok [OF lib I(7) [OF st] new(1,2), of y now]
  have "sat_add (buffered_datagrams r) 1 = buffered_datagrams r + 1"
    using new(3) B(6) by (simp add: sat_add_exact u64_max_def)
  then have "relay_inv lib ai {} (r\<lparr>objects := tput ?k ?st1 (objects r),
      buffered_datagrams := sat_add (buffered_datagrams r) 1\<rparr>)"
    using relay_inv_update [OF inv st A(1), of "buffered_datagrams r + 1"] A(2) new(3)
    by (simp add: symbol_added_def)
  then show "relay_inv lib ai {} r1"
    by (simp add: r1 symbol_stored_def rcount_def relay_inv_def)
  show "map_of (objects r1) ?k = Some ?st1" "relay_frame r r1" "completed r1 = completed r"
    "completed_order r1 = completed_order r"
    by (simp_all add: r1 symbol_stored_def I(3) ht.map_of_put relay_frame_def)
  show "dom (map_of (objects r1)) = dom (map_of (objects r))"
    using st by (auto simp: r1 symbol_stored_def dom_tput [OF I(3)])
qed

lemma admit_symbol_stored:
  assumes "active_ok lib ai cfg ss k st" "push_symbol lib (ao_assembler st) y = (a, Inr decoded)"
    and "length (ao_symbols st) < u64_max"
  shows "admit_symbol lib y seq st now r = (case decoded of
      None \<Rightarrow> Some (symbol_stored lib y seq st now r, Inr (Buffered (sym_object_key y) (sym_role y) (sym_deadline y)))
    | Some m \<Rightarrow> complete_object lib y m (symbol_stored lib y seq st now r))"
proof -
  have "ao_source_symbols st + ao_repair_symbols st = length (ao_symbols st)"
    using assms(1) by (simp add: active_ok_def)
  then have "sat_add (ao_source_symbols st) 1 = ao_source_symbols st + 1"
    "sat_add (ao_repair_symbols st) 1 = ao_repair_symbols st + 1"
    using assms(3) by (simp_all add: sat_add_exact)
  then show ?thesis
    using assms(2) by (cases "sym_role y"; cases decoded)
      (simp_all add: admit_symbol_def symbol_stored_def symbol_added_def Let_def)
qed

text \<open>The symbol that completes an object: \<open>r1\<close> is the receiver with the symbol stored.\<close>

lemma decoded_symbol_ok:
  assumes lib: "assembler_ok lib ai" and ai: "ai (ao_announcement st) (ao_assembler st)" "ann_key (ao_announcement st) = sym_object_key y"
    and ps: "push_symbol lib (ao_assembler st) y = (a, Inr (Some m))"
    and inv1: "relay_inv lib ai {} r1" and st1: "map_of (objects r1) (sym_object_key y) = Some (symbol_added lib y seq st now)"
    and same: "relay_frame r r1" "completed r1 = completed r" "completed_order r1 = completed_order r"
      "dom (map_of (objects r1)) = dom (map_of (objects r))"
    and len: "length (ao_symbols (symbol_added lib y seq st now)) = Suc (length (ao_symbols st))"
  shows "\<exists>r' res. complete_object lib y m r1 = Some (r', res) \<and> relay_inv lib ai {} r' \<and> relay_frame r r'
    \<and> dom (map_of (objects r')) \<subseteq> dom (map_of (objects r)) \<and> admit_post lib y seq st now r r' res"
proof -
  let ?k = "sym_object_key y" and ?st1 = "symbol_added lib y seq st now"
  note D = assembler_okD(3) [OF lib ai(1) ps]
  have s1: "ao_assembler ?st1 = a" "ao_announcement ?st1 = ao_announcement st"
    "ao_parent_sessions ?st1 = ao_parent_sessions st" by (simp_all add: symbol_added_def ps)
  show ?thesis
  proof (cases "validate_object_kind lib m (ann_kind (ao_announcement st))")
    case False
    then show ?thesis using inv1 st1 same s1 by (simp add: complete_object_def admit_post_def)
  next
    case True
    obtain bytes where "snd (take_completed_envelope lib a) = Some bytes" using D by auto
    with complete_object_ok [OF inv1 st1, of m bytes] True D s1 ai(2) obtain r' where
      "complete_object lib y m r1 = Some (r', Inr (Decoded m bytes (sym_role y) (sym_deadline y)
        (length (ao_parent_sessions st)) (length (ao_symbols ?st1))))"
      "relay_inv lib ai {} r'" "relay_frame r1 r'" "objects r' = tdel ?k (objects r1)"
      "map_of (completed r') ?k = Some \<lparr>co_announcement = ao_announcement st, co_parent_sessions = ao_parent_sessions st\<rparr>"
      "completed_order r' = drop (Suc (length (completed r1)) - max_completed_objects (relay_config r1))
        (completed_order r1) @ [?k]"
      by auto
    moreover from this(4) have "dom (map_of (objects r')) \<subseteq> dom (map_of (objects r))"
      using same(4) by (auto simp: dom_tdel)
    ultimately show ?thesis
      using True D same ai(2) len ps by (auto simp: relay_frame_def admit_post_def)
  qed
qed

lemma admit_symbol_ok:
  assumes lib: "assembler_ok lib ai" and inv: "relay_inv lib ai {} r"
    and st: "map_of (objects r) (sym_object_key y) = Some st"
    and new: "map_of (ao_symbols st) seq = None"
      "length (ao_symbols st) < max_datagrams_per_object (relay_config r)"
      "buffered_datagrams r < max_buffered_datagrams (relay_config r)"
  shows "\<exists>r' res. admit_symbol lib y seq st now r = Some (r', res) \<and> relay_inv lib ai {} r' \<and> relay_frame r r'
    \<and> dom (map_of (objects r')) \<subseteq> dom (map_of (objects r)) \<and> admit_post lib y seq st now r r' res"
proof -
  let ?k = "sym_object_key y" and ?st1 = "symbol_added lib y seq st now"
  define r1 where "r1 = symbol_stored lib y seq st now r"
  note ok = relay_invD(7) [OF inv st] and o1 = symbol_stored_ok [OF lib inv st new r1_def]
  have room: "length (ao_symbols st) < u64_max"
    using new(2) relay_config_ok_limits(5) [OF relay_invD(1) [OF inv]] by (simp add: u64_max_def)
  obtain a res where ps: "push_symbol lib (ao_assembler st) y = (a, res)" by (metis surj_pair)
  have ai: "ai (ao_announcement st) (ao_assembler st)" "ann_key (ao_announcement st) = ?k"
    using ok by (simp_all add: active_ok_def)
  consider (err) e where "res = Inl e" | (buf) "res = Inr None" | (dec) m where "res = Inr (Some m)"
    by (metis not_None_eq old.sum.exhaust)
  then show ?thesis
  proof cases
    case err
    have "active_ok lib ai (relay_config r) (sessions r) ?k (st\<lparr>ao_assembler := a\<rparr>)"
      using ok assembler_okD(2) [OF lib ai(1) ps] by (simp add: active_ok_def)
    then have "relay_inv lib ai {} (r\<lparr>objects := tput ?k (st\<lparr>ao_assembler := a\<rparr>) (objects r)\<rparr>)"
      using relay_inv_update [OF inv st, of "st\<lparr>ao_assembler := a\<rparr>" "buffered_datagrams r"]
        relay_inv_budgets(8) [OF inv] by simp
    moreover have "dom (map_of (tput ?k st' (objects r))) = dom (map_of (objects r))" for st'
      using st by (auto simp: dom_tput [OF relay_invD(3) [OF inv]])
    ultimately show ?thesis
      using err by (simp add: admit_symbol_def ps relay_frame_def admit_post_def)
  next
    case buf
    then show ?thesis
      using o1 by (simp add: admit_symbol_stored [OF ok ps [unfolded buf] room] r1_def [symmetric] admit_post_def)
  next
    case (dec m)
    have "admit_symbol lib y seq st now r = complete_object lib y m r1"
      by (simp add: admit_symbol_stored [OF ok ps [unfolded dec] room] r1_def)
    then show ?thesis
      using decoded_symbol_ok [OF lib ai ps [unfolded dec] o1] symbol_added_ok(2) [OF lib ok new(1,2), of y now]
      by simp
  qed
qed

section \<open>Datagrams\<close>

definition fingerprint_of :: "('o, 'a, 'm) relay_lib \<Rightarrow> 'o relay_symbol \<Rightarrow> 'o symbol_fingerprint" where
  "fingerprint_of lib y = SymbolFingerprint (payload_digest lib (sym_fec_datagram y)) (sym_role y)"

text \<open>\<open>st\<close> is the active object of the symbol \<open>y\<close>, the session is one of its parents, the packet sequence is
  new, and both datagram budgets have room.\<close>

definition symbol_fits ::
  "('o, 'a, 'm) relay_lib \<Rightarrow> 'o parent_session \<Rightarrow> 'o relay_symbol \<Rightarrow> ('o, 'a) active_object \<Rightarrow> u32
     \<Rightarrow> ('o, 'a) relay_receiver \<Rightarrow> bool" where
  "symbol_fits lib s y st seq r \<longleftrightarrow>
     map_of (objects r) (sym_object_key y) = Some st \<and> session_id s \<in> set (ao_parent_sessions st)
     \<and> packet_sequence lib (sym_fec_datagram y) = Inr seq \<and> map_of (ao_symbols st) seq = None
     \<and> length (ao_symbols st) < max_datagrams_per_object (relay_config r)
     \<and> buffered_datagrams r < max_buffered_datagrams (relay_config r)"

definition same_tables :: "('o, 'a) relay_receiver \<Rightarrow> ('o, 'a) relay_receiver \<Rightarrow> bool" where
  "same_tables r r' \<longleftrightarrow> objects r' = objects r \<and> completed r' = completed r \<and> completed_order r' = completed_order r
     \<and> logical_keys r' = logical_keys r \<and> buffered_object_bytes r' = buffered_object_bytes r
     \<and> buffered_datagrams r' = buffered_datagrams r"

lemma same_tables_rcount [simp]: "same_tables r (rcount f r)"
  by (simp add: same_tables_def)

text \<open>What an accepted datagram means, by outcome; \<open>r\<close> is the state after the lazy expiry scan.\<close>

definition outcome_ok ::
  "('o, 'a, 'm) relay_lib \<Rightarrow> 'o parent_session \<Rightarrow> 'o relay_symbol \<Rightarrow> nat \<Rightarrow> ('o, 'a) relay_receiver
     \<Rightarrow> ('o, 'a) relay_receiver \<Rightarrow> ('o, 'm) ingress_outcome \<Rightarrow> bool" where
  "outcome_ok lib s y now r r' out \<longleftrightarrow> (case out of
     Buffered k role dl \<Rightarrow> k = sym_object_key y \<and> \<not> is_expired_at lib (sym_deadline y) now
       \<and> (\<exists>st seq. symbol_fits lib s y st seq r \<and> map_of (objects r') k = Some (symbol_added lib y seq st now))
       \<and> completed r' = completed r \<and> completed_order r' = completed_order r
   | Decoded m bytes role dl np ns \<Rightarrow> media_key_of lib m = sym_object_key y \<and> \<not> is_expired_at lib (sym_deadline y) now
       \<and> (\<exists>st seq. symbol_fits lib s y st seq r \<and> snd (push_symbol lib (ao_assembler st) y) = Inr (Some m)
           \<and> validate_object_kind lib m (ann_kind (ao_announcement st))
           \<and> np = length (ao_parent_sessions st) \<and> ns = Suc (length (ao_symbols st))
           \<and> map_of (completed r') (sym_object_key y) =
               Some \<lparr>co_announcement = ao_announcement st, co_parent_sessions = ao_parent_sessions st\<rparr>)
       \<and> map_of (completed r) (sym_object_key y) = None \<and> map_of (objects r') (sym_object_key y) = None
       \<and> completed_order r' = drop (Suc (length (completed r)) - max_completed_objects (relay_config r))
           (completed_order r) @ [sym_object_key y]
   | Duplicate k role dl \<Rightarrow> k = sym_object_key y \<and> same_tables r r'
       \<and> ((\<exists>c. map_of (completed r) k = Some c \<and> validate_completed_symbol lib c s y)
          \<or> \<not> is_expired_at lib (sym_deadline y) now
            \<and> (\<exists>st seq. map_of (objects r) k = Some st \<and> session_id s \<in> set (ao_parent_sessions st)
               \<and> packet_sequence lib (sym_fec_datagram y) = Inr seq
               \<and> map_of (ao_symbols st) seq = Some (fingerprint_of lib y))))"

definition push_ok ::
  "('o, 'a, 'm) relay_lib \<Rightarrow> ('o announcement \<Rightarrow> 'a \<Rightarrow> bool) \<Rightarrow> 'o parent_session \<Rightarrow> 'o relay_symbol \<Rightarrow> nat
     \<Rightarrow> ('o, 'a) relay_receiver \<Rightarrow> ('o, 'a) relay_receiver \<Rightarrow> (('o, 'm) ingress_outcome, 'o ingress_error) result \<Rightarrow> bool" where
  "push_ok lib ai s y now r r' res \<longleftrightarrow> relay_inv lib ai {} r' \<and> relay_frame r r'
     \<and> dom (map_of (objects r')) \<subseteq> dom (map_of (objects r)) \<and> (case res of
     Inl e \<Rightarrow> completed r' = completed r \<and> completed_order r' = completed_order r
   | Inr out \<Rightarrow> outcome_ok lib s y now r r' out)"

text \<open>What a due scan leaves active has not passed its deadline and is not idle.\<close>

lemma expire_if_due_live:
  assumes "relay_inv lib ai {} r" "map_of (objects (expire_if_due lib now r)) k = Some st"
    and "case next_expiry_scan_us r of None \<Rightarrow> True | Some due \<Rightarrow> due \<le> now"
  shows "\<not> is_expired_at lib (ann_deadline (ao_announcement st)) now \<and>
    now - ao_last_activity_us st < object_inactivity_timeout_us (relay_config r)"
proof -
  obtain r' x where e: "expire lib now r = (r', x)" by (metis surj_pair)
  then have "expire_if_due lib now r = r'"
    using assms(3) by (auto simp: expire_if_due_def split: option.splits)
  then have "(k, st) \<in> set (objects r')" "objects r' = filter (\<lambda>(k, st). \<not> object_expired lib now r st) (objects r)"
    using assms(2) expire_eq [OF assms(1) e] by (auto dest: map_of_SomeD)
  then show ?thesis
    by (auto simp: object_expired_def)
qed

lemma push_ok_unchanged: "relay_inv lib ai {} r \<Longrightarrow> push_ok lib ai s y now r r (Inl e)"
  by (simp add: push_ok_def)

lemma push_active_ok:
  assumes lib: "assembler_ok lib ai" and inv: "relay_inv lib ai {} r"
    and st: "map_of (objects r) (sym_object_key y) = Some st"
    and none: "map_of (completed r) (sym_object_key y) = None"
    and live: "\<not> is_expired_at lib (sym_deadline y) now"
  shows "\<exists>r' res. push_active_symbol lib s y st now r = Some (r', res) \<and> push_ok lib ai s y now r r' res"
proof (cases "session_id s \<in> set (ao_parent_sessions st) \<and> permits lib (parent_path s) (sym_path_intent y)")
  case False
  then show ?thesis using push_ok_unchanged [OF inv] by (auto simp: push_active_symbol_def)
next
  case auth: True
  show ?thesis
  proof (cases "packet_sequence lib (sym_fec_datagram y)")
    case (Inl e)
    then show ?thesis using auth push_ok_unchanged [OF inv] by (auto simp: push_active_symbol_def)
  next
    case seq: (Inr seq)
    show ?thesis
    proof (cases "map_of (ao_symbols st) seq")
      case (Some f)
      then show ?thesis
        using auth seq st inv live push_ok_unchanged [OF inv]
        by (auto simp: push_active_symbol_def push_ok_def outcome_ok_def fingerprint_of_def)
    next
      case new: None
      show ?thesis
      proof (cases "symbol_fits lib s y st seq r")
        case False
        then show ?thesis using auth seq new st push_ok_unchanged [OF inv]
          by (auto simp: push_active_symbol_def symbol_fits_def)
      next
        case fits: True
        then have room: "length (ao_symbols st) < max_datagrams_per_object (relay_config r)"
          "buffered_datagrams r < max_buffered_datagrams (relay_config r)" by (simp_all add: symbol_fits_def)
        obtain r' res where A: "admit_symbol lib y seq st now r = Some (r', res)"
          "relay_inv lib ai {} r'" "relay_frame r r'" "dom (map_of (objects r')) \<subseteq> dom (map_of (objects r))"
          and P: "admit_post lib y seq st now r r' res"
          using admit_symbol_ok [OF lib inv st new room, of now] by blast
        have "push_active_symbol lib s y st now r = Some (r', res)"
          using auth seq new room A(1) by (simp add: push_active_symbol_def)
        moreover have "push_ok lib ai s y now r r' res"
          using A(2-4) P fits live none
          by (auto simp: admit_post_def push_ok_def outcome_ok_def split: sum.splits ingress_outcome.splits)
        ultimately show ?thesis by blast
      qed
    qed
  qed
qed

lemma relay_try_push_ok:
  assumes lib: "assembler_ok lib ai" and inv: "relay_inv lib ai {} r0"
    and s: "map_of (sessions r0) sid = Some s"
    and y: "decode_datagram lib bytes (relay_limits (relay_config r0)) = Inr y"
  shows "\<exists>r' res. try_push_wire_datagram lib sid bytes now r0 = Some (r', res)
    \<and> push_ok lib ai s y now (expire_if_due lib now r0) r' res \<and> (\<forall>out. res = Inr out \<longrightarrow> validate_session_symbol lib s y)"
proof -
  define r where "r = expire_if_due lib now r0"
  note E = expire_if_due_eq [OF inv, of now, folded r_def]
  obtain r2 x where x: "expire lib now r = (r2, x)" by (metis surj_pair)
  note X = expire_eq [OF E(1) x]
  have "dom (map_of (objects r2)) \<subseteq> dom (map_of (objects r))"
    using X map_of_filter_table [OF relay_invD(3) [OF E(1)], of "\<lambda>k st. \<not> object_expired lib now r st"]
    by (auto split: option.splits if_splits)
  then have exp: "push_ok lib ai s y now r r2 (Inl e)" for e using X by (auto simp: push_ok_def)
  note eq = try_push_wire_datagram_def [of lib sid bytes now r0] and U = push_ok_unchanged [OF E(1)]
  show ?thesis
  proof (cases "validate_session_symbol lib s y \<and> \<not> identity_conflict (sym_object_key y) r")
    case False
    then show ?thesis using s y U by (auto simp: eq get_session_def Let_def simp flip: r_def)
  next
    case ok: True
    show ?thesis
    proof (cases "map_of (completed r) (sym_object_key y)")
      case (Some c)
      have "push_ok lib ai s y now r (rcount (count_duplicate (sym_role y)) r)
          (Inr (Duplicate (sym_object_key y) (sym_role y) (sym_deadline y)))" if "validate_completed_symbol lib c s y"
        using E(1) Some that by (simp add: push_ok_def outcome_ok_def)
      then show ?thesis using s y U ok Some by (auto simp: eq get_session_def Let_def simp flip: r_def)
    next
      case none: None
      show ?thesis
      proof (cases "is_expired_at lib (sym_deadline y) now \<or> map_of (objects r) (sym_object_key y) = None")
        case True
        then show ?thesis using s y U ok none exp x by (auto simp: eq get_session_def Let_def simp flip: r_def)
      next
        case False
        then obtain st where st: "map_of (objects r) (sym_object_key y) = Some st"
          and live: "\<not> is_expired_at lib (sym_deadline y) now" by auto
        have "try_push_wire_datagram lib sid bytes now r0 = push_active_symbol lib s y st now r"
          using s y ok none st live by (simp add: eq get_session_def Let_def flip: r_def)
        then show ?thesis using push_active_ok [OF lib E(1) st none live, of s] ok by (simp flip: r_def)
      qed
    qed
  qed
qed

section \<open>Announcements\<close>

definition announce_ok ::
  "('o, 'a, 'm) relay_lib \<Rightarrow> ('o announcement \<Rightarrow> 'a \<Rightarrow> bool) \<Rightarrow> nat \<Rightarrow> 'o announcement \<Rightarrow> nat \<Rightarrow> ('o, 'a) relay_receiver
     \<Rightarrow> ('o, 'a) relay_receiver \<Rightarrow> (announcement_outcome, 'o ingress_error) result \<Rightarrow> bool" where
  "announce_ok lib ai sid ann now r r' res \<longleftrightarrow>
     relay_inv lib ai {} r' \<and> relay_frame r r' \<and> completed_order r' = completed_order r
     \<and> keys (completed r') = keys (completed r)
     \<and> (\<forall>s. res \<noteq> Inl (ParentSessionMissing sid) \<and> map_of (sessions r) sid = Some s \<and> (\<exists>o'. res = Inr o') \<longrightarrow>
          validate_session_announcement s ann)
     \<and> (case res of
       Inl e \<Rightarrow> r' = r
     | Inr Started \<Rightarrow> map_of (objects r) (ann_key ann) = None \<and> map_of (completed r) (ann_key ann) = None
         \<and> \<not> is_expired_at lib (ann_deadline ann) now
         \<and> (\<exists>a. map_of (objects r') (ann_key ann) = Some \<lparr>ao_announcement = ann, ao_assembler = a,
              ao_parent_sessions = [sid], ao_symbols = [], ao_source_symbols = 0, ao_repair_symbols = 0,
              ao_reserved_bytes = coding_transfer_length lib (ann_coding ann), ao_last_activity_us = now\<rparr>)
     | Inr Joined \<Rightarrow> \<not> is_expired_at lib (ann_deadline ann) now
         \<and> (\<exists>st ps. map_of (objects r) (ann_key ann) = Some st \<and> ao_announcement st = ann \<and> sid \<in> set ps
              \<and> set (ao_parent_sessions st) \<subseteq> set ps
              \<and> map_of (objects r') (ann_key ann) = Some (st\<lparr>ao_parent_sessions := ps, ao_last_activity_us := now\<rparr>))
     | Inr AlreadyComplete \<Rightarrow> objects r' = objects r
         \<and> (\<exists>c c'. map_of (completed r) (ann_key ann) = Some c \<and> co_announcement c = ann
              \<and> map_of (completed r') (ann_key ann) = Some c' \<and> sid \<in> set (co_parent_sessions c')))"

lemma announce_ok_unchanged: "relay_inv lib ai {} r \<Longrightarrow> announce_ok lib ai sid ann now r r (Inl e)"
  by (simp add: announce_ok_def)

lemma add_parent_superset:
  "add_parent_to_set ss ps s n = Some (Inr ps') \<Longrightarrow> set ps \<subseteq> set ps'"
  by (auto simp: add_parent_to_set_def split: if_splits option.splits)

lemma start_object_ok:
  assumes lib: "assembler_ok lib ai" and inv: "relay_inv lib ai {} r"
    and s: "map_of (sessions r) sid = Some s" and v: "validate_session_announcement s ann"
    and id: "\<not> identity_conflict (ann_key ann) r"
    and new: "map_of (objects r) (ann_key ann) = None" "map_of (completed r) (ann_key ann) = None"
    and live: "\<not> is_expired_at lib (ann_deadline ann) now"
    and so: "start_object lib sid ann now r = (r', res)"
  shows "announce_ok lib ai sid ann now r r' res"
proof (cases res)
  case (Inl e)
  then have "r' = r" using so by (auto simp: start_object_def Let_def split: if_splits option.splits sum.splits)
  then show ?thesis using announce_ok_unchanged [OF inv] Inl by simp
next
  case (Inr out)
  note I = relay_invD [OF inv] and B = relay_config_ok_limits [OF relay_invD(1) [OF inv]]
  let ?b = "buffered_object_bytes r + coding_transfer_length lib (ann_coding ann)"
  obtain a where a: "assembler_new lib ann (relay_limits (relay_config r)) = Inr a"
    and room: "length (objects r) < max_active_objects (relay_config r)" "?b \<le> max_buffered_object_bytes (relay_config r)"
    using so Inr by (auto simp: start_object_def Let_def split: if_splits option.splits sum.splits)
  define st where "st = \<lparr>ao_announcement = ann, ao_assembler = a, ao_parent_sessions = [sid], ao_symbols = [],
    ao_source_symbols = 0, ao_repair_symbols = 0, ao_reserved_bytes = coding_transfer_length lib (ann_coding ann),
    ao_last_activity_us = now\<rparr>"
  have r': "r' = r\<lparr>logical_keys := tput (logical_of (ann_key ann)) (ann_key ann) (logical_keys r),
      objects := tput (ann_key ann) st (objects r), buffered_object_bytes := ?b\<rparr>" "out = Started"
    using so Inr a by (auto simp: start_object_def st_def Let_def split: if_splits option.splits)
  have "parents_ok (relay_config r) (sessions r) ann [sid]"
    using s v I(6) [OF s] B(3) by (auto simp: parents_ok_def)
  then have "active_ok lib ai (relay_config r) (sessions r) (ann_key ann) st"
    using assembler_okD(1) [OF lib a] by (simp add: active_ok_def st_def)
  from relay_inv_start [OF inv new id this _ room(1), of ?b] room(2)
  have "relay_inv lib ai {} r'" by (simp add: r' st_def)
  moreover have "map_of (objects r') (ann_key ann) = Some st" by (simp add: r' I(3) ht.map_of_put)
  ultimately show ?thesis using Inr r' s v new live by (simp add: announce_ok_def relay_frame_def st_def)
qed

lemma join_active_ok:
  assumes inv: "relay_inv lib ai {} r" and s: "map_of (sessions r) sid = Some s"
    and v: "validate_session_announcement s ann" and st: "map_of (objects r) (ann_key ann) = Some st"
    and live: "\<not> is_expired_at lib (ann_deadline ann) now"
  shows "\<exists>r' res. join_active s ann st now r = Some (r', res) \<and> announce_ok lib ai sid ann now r r' res"
proof (cases "ao_announcement st = ann")
  case False
  then show ?thesis using announce_ok_unchanged [OF inv] by (simp add: join_active_def)
next
  case True
  note I = relay_invD [OF inv]
  have sid: "session_id s = sid" by (rule I(6) [OF s])
  have "parents_ok (relay_config r) (sessions r) ann (ao_parent_sessions st)"
    using I(7) [OF st] True by (simp add: active_ok_def)
  from add_parent_ok [OF this _ v] s sid obtain res where
    ap: "add_parent_to_set (sessions r) (ao_parent_sessions st) s (max_parents_per_object (relay_config r)) = Some res"
    and ps: "\<And>ps. res = Inr ps \<Longrightarrow> parents_ok (relay_config r) (sessions r) ann ps \<and> sid \<in> set ps" by auto
  show ?thesis
  proof (cases res)
    case (Inl e)
    then show ?thesis using announce_ok_unchanged [OF inv] True ap by (simp add: join_active_def)
  next
    case (Inr p)
    let ?st = "st\<lparr>ao_parent_sessions := p, ao_last_activity_us := now\<rparr>"
    have "active_ok lib ai (relay_config r) (sessions r) (ann_key ann) ?st"
      using I(7) [OF st] ps [OF Inr] True by (simp add: active_ok_def)
    then have "relay_inv lib ai {} (r\<lparr>objects := tput (ann_key ann) ?st (objects r)\<rparr>)"
      using relay_inv_update [OF inv st, of ?st "buffered_datagrams r"] relay_inv_budgets(8) [OF inv] by simp
    moreover have "map_of (tput (ann_key ann) ?st (objects r)) (ann_key ann) = Some ?st"
      by (simp add: I(3) ht.map_of_put)
    moreover have "set (ao_parent_sessions st) \<subseteq> set p" using add_parent_superset ap Inr by blast
    ultimately show ?thesis
      using True ap Inr ps [OF Inr] v s st live by (simp add: join_active_def announce_ok_def relay_frame_def) blast
  qed
qed

lemma join_completed_ok:
  assumes inv: "relay_inv lib ai {} r" and s: "map_of (sessions r) sid = Some s"
    and v: "validate_session_announcement s ann" and c: "map_of (completed r) (ann_key ann) = Some c"
  shows "\<exists>r' res. join_completed s ann c r = Some (r', res) \<and> announce_ok lib ai sid ann now r r' res"
proof (cases "co_announcement c = ann")
  case False
  then show ?thesis using announce_ok_unchanged [OF inv] by (simp add: join_completed_def)
next
  case True
  note I = relay_invD [OF inv]
  have sid: "session_id s = sid" by (rule I(6) [OF s])
  have "parents_ok (relay_config r) (sessions r) ann (co_parent_sessions c)"
    using I(8) [OF c] True by (simp add: completed_ok_def)
  from add_parent_ok [OF this _ v] s sid obtain res where
    ap: "add_parent_to_set (sessions r) (co_parent_sessions c) s (max_parents_per_object (relay_config r)) = Some res"
    and ps: "\<And>ps. res = Inr ps \<Longrightarrow> parents_ok (relay_config r) (sessions r) ann ps \<and> sid \<in> set ps" by auto
  show ?thesis
  proof (cases res)
    case (Inl e)
    then show ?thesis using announce_ok_unchanged [OF inv] True ap by (simp add: join_completed_def)
  next
    case (Inr p)
    let ?c = "c\<lparr>co_parent_sessions := p\<rparr>"
    have "completed_ok (relay_config r) (sessions r) (ann_key ann) ?c"
      using I(8) [OF c] ps [OF Inr] True by (simp add: completed_ok_def)
    note J = relay_inv_join_completed [OF inv c this]
    have "keys (tput (ann_key ann) ?c (completed r)) = keys (completed r)"
      using c by (simp add: update_keys map_of_eq_None_iff) (metis image_eqI in_set_conv_decomp map_of_SomeD option.distinct(1) fst_conv)
    moreover have "map_of (tput (ann_key ann) ?c (completed r)) (ann_key ann) = Some ?c"
      by (simp add: I(5) ht.map_of_put)
    ultimately show ?thesis
      using True ap Inr ps [OF Inr] v s c J by (simp add: join_completed_def announce_ok_def relay_frame_def)
  qed
qed

lemma try_announce_ok:
  assumes lib: "assembler_ok lib ai" and inv: "relay_inv lib ai {} r"
  shows "\<exists>r' res. try_announce_object lib sid ann now r = Some (r', res)
    \<and> announce_ok lib ai sid ann now (expire_if_due lib now r) r' res"
proof -
  define r1 where "r1 = expire_if_due lib now r"
  note E = expire_if_due_eq [OF inv, of now, folded r1_def]
  note U = announce_ok_unchanged [OF E(1)]
  note eq = try_announce_object_def [of lib sid ann now r]
  show ?thesis
  proof (cases "map_of (sessions r1) sid")
    case None
    then show ?thesis using U by (auto simp: eq get_session_def Let_def simp flip: r1_def)
  next
    case s: (Some s)
    show ?thesis
    proof (cases "announcement_error lib s ann r1")
      case (Some e)
      then show ?thesis using U s by (auto simp: eq get_session_def Let_def simp flip: r1_def)
    next
      case none: None
      then have v: "validate_session_announcement s ann" "\<not> identity_conflict (ann_key ann) r1"
        by (auto simp: announcement_error_def Let_def split: if_splits sum.splits)
      show ?thesis
      proof (cases "map_of (completed r1) (ann_key ann)")
        case (Some c)
        then show ?thesis
          using join_completed_ok [OF E(1) s v(1) Some] s none
          by (simp add: eq get_session_def Let_def flip: r1_def)
      next
        case c: None
        show ?thesis
        proof (cases "is_expired_at lib (ann_deadline ann) now")
          case True
          then show ?thesis using U s none c by (auto simp: eq get_session_def Let_def simp flip: r1_def)
        next
          case live: False
          show ?thesis
            using join_active_ok [OF E(1) s v(1) _ live] start_object_ok [OF lib E(1) s v _ c live] s none c live
            by (cases "map_of (objects r1) (ann_key ann)"; cases "start_object lib sid ann now r1")
              (simp_all add: eq get_session_def Let_def flip: r1_def)
        qed
      qed
    qed
  qed
qed

end
