(* ===== verification/Relay_Ingress_Properties.thy ===== *)
theory Relay_Ingress_Properties
  imports Relay_Ingress_Ops
begin

text \<open>
  The properties of the relay receiver and of its UDP adapter, over every sequence of calls: parent
  registration, announcements, datagrams and expiry through the receiver, peer bindings and datagrams
  through the adapter. The assembler of the \<open>relay_session\<close> crate is a parameter; \<open>assembler_ok\<close> is the
  documented behaviour the receiver relies on.
\<close>

section \<open>Runs\<close>

datatype 'o relay_event =
  RegisterParent "'o parent_session"
| AnnounceObject nat "'o announcement" nat
| PushDatagram nat wire nat
| ExpireAt nat
| BindAuthenticated socket_addr "'o parent_session"
| BindControlled socket_addr "'o parent_session"
| UdpDatagram socket_addr wire nat

text \<open>The keys of the objects that an outcome hands to the caller.\<close>

fun decoded_key :: "('o, 'a, 'm) relay_lib \<Rightarrow> (('o, 'm) ingress_outcome, 'o ingress_error) result \<Rightarrow> 'o media_key list" where
  "decoded_key lib (Inr (Decoded m bytes role dl np ns)) = [media_key_of lib m]"
| "decoded_key lib _ = []"

fun udp_outcome :: "(('o, 'm) dispatch_outcome, 'o ingress_error) result \<Rightarrow> (('o, 'm) ingress_outcome, 'o ingress_error) result" where
  "udp_outcome (Inr (Relay out)) = Inr out"
| "udp_outcome (Inr Legacy) = Inl AnnouncementRequired"
| "udp_outcome (Inl e) = Inl e"

fun relay_step ::
  "('o, 'a, 'm) relay_lib \<Rightarrow> 'o relay_event \<Rightarrow> ('o, 'a) udp_dispatch \<Rightarrow> (('o, 'a) udp_dispatch \<times> 'o media_key list) option" where
  "relay_step lib (RegisterParent s) d = Some (d\<lparr>receiver := fst (register_parent_session s (receiver d))\<rparr>, [])"
| "relay_step lib (AnnounceObject sid ann now) d =
     map_option (\<lambda>(r, res). (d\<lparr>receiver := r\<rparr>, [])) (announce_object lib sid ann now (receiver d))"
| "relay_step lib (PushDatagram sid bytes now) d =
     map_option (\<lambda>(r, res). (d\<lparr>receiver := r\<rparr>, decoded_key lib res)) (push_wire_datagram lib sid bytes now (receiver d))"
| "relay_step lib (ExpireAt now) d = Some (d\<lparr>receiver := fst (expire lib now (receiver d))\<rparr>, [])"
| "relay_step lib (BindAuthenticated peer s) d = Some (fst (bind_authenticated_peer peer s d), [])"
| "relay_step lib (BindControlled peer s) d = Some (fst (bind_controlled_peer peer s d), [])"
| "relay_step lib (UdpDatagram peer bytes now) d =
     map_option (\<lambda>(d', res). (d', decoded_key lib (udp_outcome res))) (dispatch_push lib peer bytes now d)"

fun relay_run ::
  "('o, 'a, 'm) relay_lib \<Rightarrow> 'o relay_event list \<Rightarrow> ('o, 'a) udp_dispatch \<Rightarrow> (('o, 'a) udp_dispatch \<times> 'o media_key list) option" where
  "relay_run lib [] d = Some (d, [])"
| "relay_run lib (ev # evs) d =
     (case relay_step lib ev d of
        None \<Rightarrow> None
      | Some (d1, ks) \<Rightarrow> map_option (\<lambda>(d2, ks'). (d2, ks @ ks')) (relay_run lib evs d1))"

text \<open>The run of a new receiver behind a new adapter.\<close>

definition relay_from :: "('o, 'a, 'm) relay_lib \<Rightarrow> 'o relay_config \<Rightarrow> 'o relay_event list
    \<Rightarrow> (('o, 'a) udp_dispatch \<times> 'o media_key list) option" where
  "relay_from lib cfg evs = (case relay_new lib cfg of
     Inl e \<Rightarrow> None | Inr r \<Rightarrow> relay_run lib evs (dispatch_new r))"

section \<open>History\<close>

text \<open>\<open>D\<close> are the keys decoded so far: the tombstones are the last \<open>max_completed_objects\<close> of them, and a
  key is decoded again only after that many others.\<close>

definition spaced :: "nat \<Rightarrow> 'k list \<Rightarrow> bool" where
  "spaced n D \<longleftrightarrow> (\<forall>xs k ys zs. D = xs @ k # ys @ k # zs \<longrightarrow> n \<le> length ys)"

definition history_ok :: "('o, 'a) relay_receiver \<Rightarrow> 'o media_key list \<Rightarrow> bool" where
  "history_ok r D \<longleftrightarrow> completed_order r = drop (length D - max_completed_objects (relay_config r)) D
     \<and> spaced (max_completed_objects (relay_config r)) D"

lemma spaced_snoc:
  assumes "spaced n D" and "k \<notin> set (drop (length D - n) D)"
  shows "spaced n (D @ [k])"
  unfolding spaced_def
proof (intro allI impI)
  fix xs j ys zs
  assume eq: "D @ [k] = xs @ j # ys @ j # zs"
  show "n \<le> length ys"
  proof (cases zs rule: rev_cases)
    case Nil
    then have D: "D = xs @ k # ys" and "j = k" using eq by auto
    show ?thesis
    proof (rule ccontr)
      assume "\<not> n \<le> length ys"
      then have "length D - n \<le> length xs" using D by simp
      then have "k \<in> set (drop (length D - n) D)" using D by simp
      then show False using assms(2) by blast
    qed
  next
    case (snoc zs' k')
    then have "D = xs @ j # ys @ j # zs'" using eq by auto
    then show ?thesis using assms(1) by (auto simp: spaced_def)
  qed
qed

lemma history_snoc:
  assumes inv: "relay_inv lib ai {} r" and h: "history_ok r D" and none: "map_of (completed r) k = None"
    and cfg: "relay_config r' = relay_config r"
    and order: "completed_order r' = drop (Suc (length (completed r)) - max_completed_objects (relay_config r)) (completed_order r) @ [k]"
  shows "history_ok r' (D @ [k])"
proof -
  let ?n = "max_completed_objects (relay_config r)"
  have n: "0 < ?n" by (rule relay_config_ok_limits(2) [OF relay_invD(1) [OF inv]])
  have co: "completed_order r = drop (length D - ?n) D" "spaced ?n D" using h by (simp_all add: history_ok_def)
  have ds: "distinct (completed_order r)" "set (completed_order r) = set (keys (completed r))" "table_ok (completed r)"
    using inv by (simp_all add: relay_inv_def)
  then have "length (completed r) = length (completed_order r)" by (metis distinct_card length_map)
  then have len: "length (completed r) = min (length D) ?n" using co(1) by simp
  have "k \<notin> set (completed_order r)" using ds(2) none by (simp add: map_of_eq_None_iff)
  then have "spaced ?n (D @ [k])" using spaced_snoc [OF co(2)] co(1) by simp
  moreover have "completed_order r' = drop (length (D @ [k]) - ?n) (D @ [k])"
    using n by (simp add: order len co(1) min_def Suc_diff_le)
  ultimately show ?thesis using cfg by (simp add: history_ok_def)
qed

text \<open>One call: it returns, keeps the invariant and extends the history by what it decoded.\<close>

definition relay_ok ::
  "('o, 'a, 'm) relay_lib \<Rightarrow> ('o announcement \<Rightarrow> 'a \<Rightarrow> bool) \<Rightarrow> 'o relay_config \<Rightarrow> 'o media_key list \<Rightarrow> ('o, 'a) relay_receiver \<Rightarrow> bool" where
  "relay_ok lib ai cfg D r \<longleftrightarrow> relay_inv lib ai {} r \<and> history_ok r D \<and> relay_config r = cfg"

lemma relay_ok_rcount [simp]: "relay_ok lib ai cfg D (rcount f r) = relay_ok lib ai cfg D r"
  by (simp add: relay_ok_def history_ok_def)

lemma record_rejection_rcount: "\<exists>f. record_rejection e b r = rcount f r"
  unfolding record_rejection_def by blast

lemma relay_ok_reject [simp]: "relay_ok lib ai cfg D (record_rejection e b r) = relay_ok lib ai cfg D r"
  using record_rejection_rcount [of e b r] by auto

lemma relay_ok_received [simp]: "relay_ok lib ai cfg D (count_received r) = relay_ok lib ai cfg D r"
  by (simp add: count_received_def)

lemma relay_ok_same_order:
  "relay_ok lib ai cfg D r \<Longrightarrow> relay_inv lib ai {} r' \<Longrightarrow> relay_frame r r' \<Longrightarrow> completed_order r' = completed_order r
     \<Longrightarrow> relay_ok lib ai cfg D r'"
  by (auto simp: relay_ok_def history_ok_def relay_frame_def)

lemma relay_ok_new: "relay_new lib cfg = Inr r \<Longrightarrow> relay_ok lib ai cfg [] r"
  using relay_inv_new [of lib cfg r ai]
  by (auto simp: relay_ok_def history_ok_def spaced_def relay_new_def split: sum.splits)

lemma relay_ok_register: "relay_ok lib ai cfg D r \<Longrightarrow> relay_ok lib ai cfg D (fst (register_parent_session s r))"
  using relay_inv_register [of lib ai r s]
  by (auto simp: relay_ok_def history_ok_def register_parent_session_def split: option.splits)

lemma relay_ok_expire: "relay_ok lib ai cfg D r \<Longrightarrow> relay_ok lib ai cfg D (fst (expire lib now r))"
  using expire_eq [of lib ai r now] relay_ok_same_order
  by (cases "expire lib now r") (auto simp: relay_ok_def history_ok_def relay_frame_def)

lemma relay_ok_due: "relay_ok lib ai cfg D r \<Longrightarrow> relay_ok lib ai cfg D (expire_if_due lib now r)"
  using relay_ok_expire by (auto simp: expire_if_due_def)

lemma try_announce_keeps:
  assumes "assembler_ok lib ai" and "relay_ok lib ai cfg D r"
  shows "\<exists>r' res. try_announce_object lib sid ann now r = Some (r', res) \<and> relay_ok lib ai cfg D r'"
proof -
  obtain r' res where "try_announce_object lib sid ann now r = Some (r', res)"
    "announce_ok lib ai sid ann now (expire_if_due lib now r) r' res"
    using try_announce_ok [OF assms(1)] assms(2) unfolding relay_ok_def by blast
  then show ?thesis
    using relay_ok_same_order [OF relay_ok_due [OF assms(2)]] by (auto simp: announce_ok_def)
qed

lemma announce_keeps:
  assumes "assembler_ok lib ai" and "relay_ok lib ai cfg D r"
  shows "\<exists>r' res. announce_object lib sid ann now r = Some (r', res) \<and> relay_ok lib ai cfg D r'"
  using try_announce_keeps [OF assms, of sid ann now] by (auto simp: announce_object_def split: sum.splits)

lemma ensure_controlled_keeps:
  assumes "assembler_ok lib ai" and "relay_ok lib ai cfg D r"
  shows "\<exists>r' res. ensure_controlled_announcement lib sid bytes now r = Some (r', res) \<and> relay_ok lib ai cfg D r'"
proof -
  note T = try_announce_keeps [OF assms, of sid _ now]
  show ?thesis
  proof (cases "decode_datagram lib bytes (relay_limits (relay_config r))")
    case (Inl e)
    then show ?thesis
      using assms(2) by (auto simp: ensure_controlled_announcement_def split: sum.splits)
  next
    case (Inr y)
    then show ?thesis
      using assms(2) T [of "derived_announcement y"]
      by (auto simp: ensure_controlled_announcement_def split: sum.splits)
  qed
qed

lemma try_push_keeps:
  assumes lib: "assembler_ok lib ai" and ok: "relay_ok lib ai cfg D r"
  shows "\<exists>r' res. try_push_wire_datagram lib sid bytes now r = Some (r', res) \<and> relay_ok lib ai cfg (D @ decoded_key lib res) r'"
proof (cases "map_of (sessions r) sid")
  case None
  then show ?thesis using ok by (simp add: try_push_wire_datagram_def get_session_def)
next
  case s: (Some s)
  show ?thesis
  proof (cases "decode_datagram lib bytes (relay_limits (relay_config r))")
    case (Inl e)
    then show ?thesis using ok s by (simp add: try_push_wire_datagram_def get_session_def)
  next
    case (Inr y)
    define r1 where "r1 = expire_if_due lib now r"
    have ok1: "relay_ok lib ai cfg D r1" unfolding r1_def by (rule relay_ok_due [OF ok])
    obtain r' res where t: "try_push_wire_datagram lib sid bytes now r = Some (r', res)"
      and p: "push_ok lib ai s y now r1 r' res"
      using relay_try_push_ok [OF lib _ s Inr, of now] ok unfolding r1_def relay_ok_def by blast
    then have inv': "relay_inv lib ai {} r'" and fr: "relay_frame r1 r'" by (simp_all add: push_ok_def)
    have "relay_ok lib ai cfg (D @ decoded_key lib res) r'"
    proof (cases "decoded_key lib res")
      case Nil
      then have "completed_order r' = completed_order r1"
        using p by (cases "(lib, res)" rule: decoded_key.cases) (auto simp: push_ok_def outcome_ok_def same_tables_def)
      then show ?thesis using Nil relay_ok_same_order [OF ok1 inv' fr] by simp
    next
      case (Cons k ks)
      then have ks: "ks = []" "map_of (completed r1) k = None"
        "completed_order r' = drop (Suc (length (completed r1)) - max_completed_objects (relay_config r1)) (completed_order r1) @ [k]"
        using p by (cases "(lib, res)" rule: decoded_key.cases; auto simp: push_ok_def outcome_ok_def)+
      then have "history_ok r' (D @ [k])"
        using history_snoc [of lib ai r1 D k r'] ok1 fr by (simp add: relay_ok_def relay_frame_def)
      then show ?thesis using Cons ks(1) inv' fr ok1 by (simp add: relay_ok_def relay_frame_def)
    qed
    then show ?thesis using t by blast
  qed
qed

lemma push_keeps:
  assumes "assembler_ok lib ai" and "relay_ok lib ai cfg D r"
  shows "\<exists>r' res. push_wire_datagram lib sid bytes now r = Some (r', res) \<and> relay_ok lib ai cfg (D @ decoded_key lib res) r'"
  using try_push_keeps [OF assms(1), of cfg D "count_received r" sid bytes now] assms(2)
  by (auto simp: push_wire_datagram_def split: sum.splits)

lemma dispatch_push_keeps:
  assumes lib: "assembler_ok lib ai" and ok: "relay_ok lib ai cfg D (receiver d)"
  shows "\<exists>d' res. dispatch_push lib peer bytes now d = Some (d', res)
    \<and> relay_ok lib ai cfg (D @ decoded_key lib (udp_outcome res)) (receiver d')"
proof (cases "is_relay_session_datagram bytes \<and> map_of (sessions_by_peer d) peer \<noteq> None")
  case False
  then show ?thesis using ok by (auto simp: dispatch_push_def dispatch_reject_def)
next
  case True
  then obtain sid where m: "is_relay_session_datagram bytes" "map_of (sessions_by_peer d) peer = Some sid" by auto
  obtain r res where e: "(if sid \<in> set (controlled_announcement_sessions d)
      then ensure_controlled_announcement lib sid bytes now (receiver d) else Some (receiver d, Inr ())) = Some (r, res)"
    and ok1: "relay_ok lib ai cfg D r"
    using ensure_controlled_keeps [OF lib ok, of sid bytes now] ok by (cases "sid \<in> set (controlled_announcement_sessions d)") auto
  show ?thesis
  proof (cases res)
    case (Inl er)
    then show ?thesis using m e ok1 by (simp add: dispatch_push_def dispatch_reject_def)
  next
    case (Inr u)
    obtain r2 res2 where p: "push_wire_datagram lib sid bytes now r = Some (r2, res2)"
      "relay_ok lib ai cfg (D @ decoded_key lib res2) r2" using push_keeps [OF lib ok1] by blast
    have "udp_outcome (map_sum id Relay res2) = res2" by (cases res2) simp_all
    then show ?thesis using m e Inr p by (simp add: dispatch_push_def)
  qed
qed

lemma relay_step_ok:
  assumes lib: "assembler_ok lib ai" and ok: "relay_ok lib ai cfg D (receiver d)"
  shows "\<exists>d' ks. relay_step lib ev d = Some (d', ks) \<and> relay_ok lib ai cfg (D @ ks) (receiver d')"
proof (cases ev)
  case (AnnounceObject sid ann now)
  then show ?thesis using announce_keeps [OF lib ok, of sid ann now] by auto
next
  case (PushDatagram sid bytes now)
  then show ?thesis using push_keeps [OF lib ok, of sid bytes now] by auto
next
  case (UdpDatagram peer bytes now)
  then show ?thesis using dispatch_push_keeps [OF lib ok, of peer bytes now] by auto
next
  case (BindAuthenticated peer s)
  then show ?thesis using relay_ok_register [OF ok, of s] ok
    by (auto simp: bind_authenticated_peer_def split: prod.splits sum.splits)
next
  case (BindControlled peer s)
  then show ?thesis using relay_ok_register [OF ok, of s] ok
    by (auto simp: bind_controlled_peer_def split: prod.splits sum.splits)
qed (simp_all add: relay_ok_register relay_ok_expire ok)

lemma relay_run_ok:
  assumes lib: "assembler_ok lib ai" and "relay_ok lib ai cfg D (receiver d)"
  shows "\<exists>d' ks. relay_run lib evs d = Some (d', ks) \<and> relay_ok lib ai cfg (D @ ks) (receiver d')"
  using assms(2)
proof (induction evs arbitrary: d D)
  case Nil
  then show ?case by simp
next
  case (Cons ev evs)
  obtain d1 ks where s: "relay_step lib ev d = Some (d1, ks)" "relay_ok lib ai cfg (D @ ks) (receiver d1)"
    using relay_step_ok [OF lib Cons.prems] by blast
  obtain d2 ks' where "relay_run lib evs d1 = Some (d2, ks')" "relay_ok lib ai cfg ((D @ ks) @ ks') (receiver d2)"
    using Cons.IH [OF s(2)] by blast
  then show ?case using s(1) by auto
qed

lemma relay_from_ok:
  assumes lib: "assembler_ok lib ai" and new: "relay_config_validate lib cfg = Inr ()"
  shows "\<exists>d ks. relay_from lib cfg evs = Some (d, ks) \<and> relay_ok lib ai cfg ks (receiver d)"
proof -
  obtain r where r: "relay_new lib cfg = Inr r" using new by (simp add: relay_new_def)
  have "relay_ok lib ai cfg [] (receiver (dispatch_new r))" using relay_ok_new [OF r] by (simp add: dispatch_new_def)
  from relay_run_ok [OF lib this, of evs] show ?thesis by (simp add: relay_from_def r)
qed

lemma relay_from_reached:
  assumes "assembler_ok lib ai" and "relay_from lib cfg evs = Some (d, ks)"
  shows "relay_ok lib ai cfg ks (receiver d)"
proof -
  have "relay_config_validate lib cfg = Inr ()"
    using assms(2) by (cases "relay_config_validate lib cfg") (simp_all add: relay_from_def relay_new_def)
  then show ?thesis using relay_from_ok [OF assms(1), of cfg evs] assms(2) by auto
qed

lemma relay_from_inv:
  assumes "assembler_ok lib ai" and "relay_from lib cfg evs = Some (d, ks)"
  shows "relay_inv lib ai {} (receiver d)" "relay_config (receiver d) = cfg"
  using relay_from_reached [OF assms] by (simp_all add: relay_ok_def)

lemma relay_inv_received [simp]: "relay_inv lib ai X (count_received r) = relay_inv lib ai X r"
  by (simp add: count_received_def)

lemma received_simps [simp]:
  "sessions (count_received r) = sessions r" "relay_config (count_received r) = relay_config r"
  "objects (count_received r) = objects r" "completed (count_received r) = completed r"
  by (simp_all add: count_received_def)

text \<open>A datagram never creates an active object.\<close>

lemma push_no_new_object:
  assumes lib: "assembler_ok lib ai" and inv: "relay_inv lib ai {} r"
  shows "\<exists>r' res. push_wire_datagram lib sid bytes now r = Some (r', res) \<and> set (keys (objects r')) \<subseteq> set (keys (objects r))"
proof -
  let ?r = "count_received r"
  have inv0: "relay_inv lib ai {} ?r" using inv by simp
  note eq = try_push_wire_datagram_def [of lib sid bytes now ?r]
  have "\<exists>r' res. try_push_wire_datagram lib sid bytes now ?r = Some (r', res)
      \<and> dom (map_of (objects r')) \<subseteq> dom (map_of (objects r))"
  proof (cases "\<exists>s y. map_of (sessions ?r) sid = Some s \<and> decode_datagram lib bytes (relay_limits (relay_config ?r)) = Inr y")
    case True
    then obtain s y where "map_of (sessions ?r) sid = Some s" "decode_datagram lib bytes (relay_limits (relay_config ?r)) = Inr y"
      by blast
    from relay_try_push_ok [OF lib inv0 this, of now] obtain r' res where
      t: "try_push_wire_datagram lib sid bytes now ?r = Some (r', res)"
      "dom (map_of (objects r')) \<subseteq> dom (map_of (objects (expire_if_due lib now ?r)))" by (auto simp: push_ok_def)
    moreover have "dom (map_of (objects (expire_if_due lib now ?r))) \<subseteq> dom (map_of (objects r))"
      using expire_if_due_eq(5) [OF inv0, of now] by auto
    ultimately show ?thesis by blast
  next
    case False
    then show ?thesis by (auto simp: eq get_session_def split: option.splits sum.splits)
  qed
  then obtain r' res where t: "try_push_wire_datagram lib sid bytes now ?r = Some (r', res)"
    "set (keys (objects r')) \<subseteq> set (keys (objects r))" by (auto simp: dom_map_of_conv_image_fst)
  then show ?thesis
    by (cases res) (auto simp: push_wire_datagram_def record_rejection_def simp del: set_map)
qed

section \<open>A concrete library\<close>

text \<open>Two source symbols of 50 bytes; deadlines are times; a datagram is the magic, an object number, a
  packet sequence and a role.\<close>

fun ex_decode :: "wire \<Rightarrow> (nat relay_symbol, nat session_error) result" where
  "ex_decode [m0, m1, m2, m3, obj, seq, role] = Inr \<lparr>sym_generation = 1, sym_subscription_id = 1,
     sym_object_key = \<lparr>key_tenant = ''t'', key_stream = ''s'', key_track = ''a'', key_epoch = 1, key_group = 1,
       key_object = unat obj, key_version = 1, key_rest = 0\<rparr>,
     sym_object_kind = KindAudio, sym_deadline = 1000, sym_coding = 0,
     sym_role = (if role = 0 then Source else Repair), sym_path_intent = 0, sym_fec_datagram = [obj, seq, role]\<rparr>"
| "ex_decode _ = Inl (OtherSessionError 0)"

definition ex_lib :: "(nat, nat announcement \<times> nat, nat media_key) relay_lib" where
  "ex_lib = \<lparr>limits_validate = (\<lambda>_. Inr ()), max_extra_repair_symbols = (\<lambda>_. 4), coding_validate = (\<lambda>_ _. Inr ()),
     coding_transfer_length = (\<lambda>_. 100), coding_source_symbols = (\<lambda>_. 2), is_expired_at = (\<lambda>dl now. dl \<le> now),
     permits = (\<lambda>_ _. True), decode_datagram = (\<lambda>bytes _. ex_decode bytes),
     packet_sequence = (\<lambda>dg. Inr (if length dg = 3 then ucast (dg ! 1) else 0)), payload_digest = (\<lambda>dg. unat (hd dg)),
     assembler_new = (\<lambda>ann _. Inr (ann, 0)),
     push_symbol = (\<lambda>(ann, n) y. if n = 0 then ((ann, 1), Inr None) else ((ann, 2), Inr (Some (ann_key ann)))),
     take_completed_envelope = (\<lambda>(ann, n). ((ann, n), if 2 \<le> n then Some [1, 2, 3] else None)),
     media_key_of = id, media_kind = (\<lambda>_. Media), media_is_keyframe = (\<lambda>_. False)\<rparr>"

definition ex_ai :: "nat announcement \<Rightarrow> nat announcement \<times> nat \<Rightarrow> bool" where
  "ex_ai ann a \<longleftrightarrow> fst a = ann"

lemma ex_lib_ok: "assembler_ok ex_lib ex_ai"
  by (auto simp: assembler_ok_def ex_lib_def ex_ai_def split: if_splits)

definition ex_cfg :: "nat relay_config" where
  "ex_cfg = \<lparr>relay_limits = 0, max_parent_sessions = 4, max_active_objects = 2, max_parents_per_object = 2,
     max_datagrams_per_object = 4, max_buffered_datagrams = 8, max_buffered_object_bytes = 250,
     max_completed_objects = 2, object_inactivity_timeout_us = 100, expiry_scan_interval_us = 10\<rparr>"

definition ex_parent :: "nat \<Rightarrow> nat parent_path \<Rightarrow> nat parent_session" where
  "ex_parent i path = \<lparr>session_id = i, identity = \<lparr>id_local = 0, id_peer = i, id_kind = PrivateUdp,
     id_trust_mode = PrivateAuthenticatedNetwork\<rparr>, generation = 1, subscription_id = 1, parent_path = path,
     controlled_qualification = False\<rparr>"

definition ex_key :: "nat \<Rightarrow> nat media_key" where
  "ex_key n = \<lparr>key_tenant = ''t'', key_stream = ''s'', key_track = ''a'', key_epoch = 1, key_group = 1,
     key_object = n, key_version = 1, key_rest = 0\<rparr>"

definition ex_ann :: "nat \<Rightarrow> nat announcement" where
  "ex_ann n = \<lparr>ann_generation = 1, ann_subscription_id = 1, ann_key = ex_key n, ann_kind = KindAudio,
     ann_deadline = 1000, ann_coding = 0, ann_initial_repair_symbols = 0, ann_next_packet_sequence = 0\<rparr>"

definition ex_bytes :: "u8 \<Rightarrow> u8 \<Rightarrow> u8 \<Rightarrow> wire" where
  "ex_bytes obj seq role = [0x52, 0x4C, 0x53, 0x31, obj, seq, role]"

text \<open>Two parents; object 5 is decoded with a symbol of each, object 6 has one symbol.\<close>

definition ex_events :: "nat relay_event list" where
  "ex_events = [BindAuthenticated (1, 1) (ex_parent 1 Primary), RegisterParent (ex_parent 2 Secondary),
     AnnounceObject 1 (ex_ann 5) 10, AnnounceObject 2 (ex_ann 5) 11, PushDatagram 1 (ex_bytes 5 0 0) 12,
     PushDatagram 2 (ex_bytes 5 7 1) 13, AnnounceObject 1 (ex_ann 6) 14, UdpDatagram (1, 1) (ex_bytes 6 0 0) 15]"

definition ex_reached :: "(nat, nat announcement \<times> nat) udp_dispatch" where
  "ex_reached = fst (the (relay_from ex_lib ex_cfg ex_events))"

lemma ex_reached: "relay_from ex_lib ex_cfg ex_events = Some (ex_reached, [ex_key 5])"
proof -
  have "\<exists>d ks. relay_from ex_lib ex_cfg ex_events = Some (d, ks)"
    using relay_from_ok [OF ex_lib_ok, of ex_cfg ex_events]
    by (auto simp: relay_config_validate_def ex_lib_def ex_cfg_def config_bounds_def validate_nonzero_bound_def)
  moreover have "snd (the (relay_from ex_lib ex_cfg ex_events)) = [ex_key 5]" by code_simp
  ultimately show ?thesis unfolding ex_reached_def by auto
qed

section \<open>Properties\<close>

text \<open>The receiver never panics. Starting from a validated configuration, every sequence of registrations,
  announcements, datagrams (well-formed or not), expiry scans and peer bindings returns; the \<open>expect\<close> calls
  on registered parents, active objects and completed envelopes never fail.\<close>

theorem relay_never_panics:
  assumes "assembler_ok lib ai" and "relay_config_validate lib cfg = Inr ()"
  shows "\<exists>d ks. relay_from lib cfg evs = Some (d, ks)"
  using relay_from_ok [OF assms, of evs] by blast

theorem relay_never_panics_witness:
  "relay_config_validate ex_lib ex_cfg = Inr () \<and> (\<exists>d ks. relay_from ex_lib ex_cfg ex_events = Some (d, ks))"
proof -
  have v: "relay_config_validate ex_lib ex_cfg = Inr ()" by code_simp
  then show ?thesis using relay_never_panics [OF ex_lib_ok v, of ex_events] by blast
qed

text \<open>C6: The budgets are exact and within their configured limits in every reached state: buffered bytes
  and datagrams are the sums over the active objects, the tables are no larger than configured, no object
  holds more datagrams than allowed, its source and repair counts add up to them, and no active or completed
  object has more parents than allowed.\<close>

theorem relay_budgets_exact:
  assumes "assembler_ok lib ai" and "relay_from lib cfg evs = Some (d, ks)"
  shows "buffered_object_bytes (receiver d) =
      sum_list (map (\<lambda>(k, st). coding_transfer_length lib (ann_coding (ao_announcement st))) (objects (receiver d)))
    \<and> buffered_datagrams (receiver d) = sum_list (map (\<lambda>(k, st). length (ao_symbols st)) (objects (receiver d)))
    \<and> buffered_object_bytes (receiver d) \<le> max_buffered_object_bytes cfg
    \<and> buffered_datagrams (receiver d) \<le> max_buffered_datagrams cfg
    \<and> length (sessions (receiver d)) \<le> max_parent_sessions cfg
    \<and> length (objects (receiver d)) \<le> max_active_objects cfg
    \<and> length (completed (receiver d)) \<le> max_completed_objects cfg
    \<and> (\<forall>(k, st) \<in> set (objects (receiver d)). length (ao_symbols st) \<le> max_datagrams_per_object cfg
        \<and> ao_source_symbols st + ao_repair_symbols st = length (ao_symbols st)
        \<and> length (ao_parent_sessions st) \<le> max_parents_per_object cfg)
    \<and> (\<forall>(k, c) \<in> set (completed (receiver d)). length (co_parent_sessions c) \<le> max_parents_per_object cfg)"
proof -
  let ?r = "receiver d"
  note inv = relay_from_inv [OF assms] and B = relay_inv_budgets [OF relay_from_inv(1) [OF assms]]
  note I = relay_invD [OF inv(1)]
  have act: "active_ok lib ai cfg (sessions ?r) k st" if "(k, st) \<in> set (objects ?r)" for k st
    using I(7) [of k st] that inv(2) by (simp add: map_of_in_set [OF I(3)])
  have "tsum (ao_reserved_bytes \<circ> snd) (objects ?r) =
      sum_list (map (\<lambda>(k, st). coding_transfer_length lib (ann_coding (ao_announcement st))) (objects ?r))"
    using act by (auto simp: tsum_def active_ok_def intro!: arg_cong [where f = sum_list])
  moreover have "tsum (length \<circ> ao_symbols \<circ> snd) (objects ?r) = sum_list (map (\<lambda>(k, st). length (ao_symbols st)) (objects ?r))"
    by (simp add: tsum_def case_prod_beta' comp_def)
  moreover have "\<forall>(k, st) \<in> set (objects ?r). length (ao_symbols st) \<le> max_datagrams_per_object cfg
        \<and> ao_source_symbols st + ao_repair_symbols st = length (ao_symbols st)
        \<and> length (ao_parent_sessions st) \<le> max_parents_per_object cfg"
    using act by (auto simp: active_ok_def parents_ok_def)
  moreover have "\<forall>(k, c) \<in> set (completed ?r). length (co_parent_sessions c) \<le> max_parents_per_object cfg"
    using I(8) inv(2) by (auto simp: map_of_in_set [OF I(5), symmetric] completed_ok_def parents_ok_def)
  ultimately show ?thesis using B(4-8) I(10,11) inv(2) by simp
qed

theorem relay_budgets_exact_witness:
  "buffered_object_bytes (receiver ex_reached) = 100 \<and> length (objects (receiver ex_reached)) \<le> 2 \<and>
   list_all (\<lambda>(k, c). length (co_parent_sessions c) \<le> 2) (completed (receiver ex_reached))"
proof -
  have "map (\<lambda>(k, st). coding_transfer_length ex_lib (ann_coding (ao_announcement st))) (objects (receiver ex_reached)) = [100]"
    unfolding ex_reached_def by code_simp
  then show ?thesis using relay_budgets_exact [OF ex_lib_ok ex_reached] by (simp add: ex_cfg_def list_all_iff)
qed



text \<open>The parents of an object. Every active object has one or two parents; each is a registered session
  of the generation and subscription of its announcement, and two parents have different roles and
  different peer nodes (controlled sessions may share a peer).\<close>

theorem relay_parents_distinct:
  assumes "assembler_ok lib ai" and "relay_from lib cfg evs = Some (d, ks)"
    and "map_of (objects (receiver d)) k = Some st"
  shows "1 \<le> length (ao_parent_sessions st) \<and> length (ao_parent_sessions st) \<le> 2 \<and> distinct (ao_parent_sessions st)
    \<and> (\<forall>i \<in> set (ao_parent_sessions st). \<exists>s. map_of (sessions (receiver d)) i = Some s
        \<and> generation s = ann_generation (ao_announcement st)
        \<and> subscription_id s = ann_subscription_id (ao_announcement st)
        \<and> (\<forall>j \<in> set (ao_parent_sessions st). \<forall>t. j \<noteq> i \<and> map_of (sessions (receiver d)) j = Some t \<longrightarrow>
             parent_path s \<noteq> parent_path t
             \<and> (id_peer (identity s) \<noteq> id_peer (identity t) \<or> (controlled_qualification s \<and> controlled_qualification t))))"
proof -
  note inv = relay_from_inv [OF assms(1,2)] and I = relay_invD [OF relay_from_inv(1) [OF assms(1,2)]]
  have p: "parents_ok cfg (sessions (receiver d)) (ao_announcement st) (ao_parent_sessions st)"
    using I(7) [OF assms(3)] inv(2) by (simp add: active_ok_def)
  have "length (ao_parent_sessions st) \<le> 2"
    using p relay_config_ok_limits(4) [OF I(1)] inv(2) by (auto simp: parents_ok_def)
  moreover have "\<exists>s. map_of (sessions (receiver d)) i = Some s \<and> validate_session_announcement s (ao_announcement st)
      \<and> (\<forall>j \<in> set (ao_parent_sessions st). \<forall>t. j \<noteq> i \<and> map_of (sessions (receiver d)) j = Some t \<longrightarrow> compatible_parents s t)"
    if i: "i \<in> set (ao_parent_sessions st)" for i
    using p i unfolding parents_ok_def by (metis option.sel)
  ultimately show ?thesis
    using p unfolding parents_ok_def validate_session_announcement_def compatible_parents_def
    by (metis One_nat_def Suc_leI length_greater_0_conv)
qed

theorem relay_parents_distinct_witness:
  "\<exists>d ks st. relay_from ex_lib ex_cfg (take 4 ex_events) = Some (d, ks) \<and> map_of (objects (receiver d)) (ex_key 5) = Some st
     \<and> ao_parent_sessions st = [1, 2] \<and> length (ao_parent_sessions st) \<le> 2"
proof -
  have "map_option (\<lambda>(d, ks). map_option ao_parent_sessions (map_of (objects (receiver d)) (ex_key 5)))
      (relay_from ex_lib ex_cfg (take 4 ex_events)) = Some (Some [1, 2])" by code_simp
  then obtain d ks st where r: "relay_from ex_lib ex_cfg (take 4 ex_events) = Some (d, ks)"
    and st: "map_of (objects (receiver d)) (ex_key 5) = Some st" "ao_parent_sessions st = [1, 2]" by auto
  show ?thesis using r st relay_parents_distinct [OF ex_lib_ok r st(1)] by blast
qed

text \<open>One key per logical object. No object is both active and completed, and two known keys (active or
  completed) with the same tenant, stream, track, epoch, group, object and version are the same key; a
  datagram or an announcement for another key of a known logical object is rejected as a conflict.\<close>

theorem relay_identity_unique:
  assumes "assembler_ok lib ai" and "relay_from lib cfg evs = Some (d, ks)"
    and "k \<in> set (keys (objects (receiver d))) \<union> set (keys (completed (receiver d)))"
  shows "(map_of (objects (receiver d)) k = None \<or> map_of (completed (receiver d)) k = None)
    \<and> (\<forall>k' \<in> set (keys (objects (receiver d))) \<union> set (keys (completed (receiver d))).
        logical_of k' = logical_of k \<longrightarrow> k' = k)
    \<and> (\<forall>k'. logical_of k' = logical_of k \<and> k' \<noteq> k \<longrightarrow> identity_conflict k' (receiver d))"
proof -
  let ?r = "receiver d"
  note K = relay_invD(9) [OF relay_from_inv(1) [OF assms(1,2)]]
  have dom: "dom (map_of (objects ?r)) = set (keys (objects ?r))" "dom (map_of (completed ?r)) = set (keys (completed ?r))"
    by (simp_all add: dom_map_of_conv_image_fst)
  have l: "map_of (logical_keys ?r) (logical_of k) = Some k"
    using K assms(3) unfolding keys_ok_def dom by blast
  have "map_of (objects ?r) k = None \<or> map_of (completed ?r) k = None"
    using K unfolding keys_ok_def by blast
  moreover have "\<forall>k' \<in> set (keys (objects ?r)) \<union> set (keys (completed ?r)). logical_of k' = logical_of k \<longrightarrow> k' = k"
    using keys_ok_inj [OF K] assms(3) unfolding dom by blast
  moreover have "\<forall>k'. logical_of k' = logical_of k \<and> k' \<noteq> k \<longrightarrow> identity_conflict k' ?r"
    using l by (auto simp: identity_conflict_def)
  ultimately show ?thesis by blast
qed

theorem relay_identity_unique_witness:
  "ex_key 5 \<in> set (keys (completed (receiver ex_reached))) \<and> identity_conflict ((ex_key 5)\<lparr>key_rest := 9\<rparr>) (receiver ex_reached)"
proof -
  have "keys (completed (receiver ex_reached)) = [ex_key 5]" unfolding ex_reached_def by code_simp
  then have k: "ex_key 5 \<in> set (keys (objects (receiver ex_reached))) \<union> set (keys (completed (receiver ex_reached)))"
    "ex_key 5 \<in> set (keys (completed (receiver ex_reached)))" by simp_all
  show ?thesis
    using relay_identity_unique [OF ex_lib_ok ex_reached k(1)] k(2) by (simp add: logical_of_def ex_key_def)
qed

text \<open>C8: Completion history. Over a whole run the tombstones are the most recently decoded keys in order, at
  most \<open>max_completed_objects\<close> of them and oldest evicted first; while its tombstone is kept an object is not
  handed to the caller again: between two completions of the same key lie at least
  \<open>max_completed_objects\<close> completions.\<close>

theorem relay_decode_history:
  assumes "assembler_ok lib ai" and "relay_from lib cfg evs = Some (d, ks)"
  shows "completed_order (receiver d) = drop (length ks - max_completed_objects cfg) ks
    \<and> set (keys (completed (receiver d))) = set (completed_order (receiver d)) \<and> distinct (completed_order (receiver d))
    \<and> (\<forall>xs k ys zs. ks = xs @ k # ys @ k # zs \<longrightarrow> max_completed_objects cfg \<le> length ys)"
proof -
  note ok = relay_from_reached [OF assms]
  then have "relay_inv lib ai {} (receiver d)" by (simp add: relay_ok_def)
  then have "set (keys (completed (receiver d))) = set (completed_order (receiver d))" "distinct (completed_order (receiver d))"
    unfolding relay_inv_def by (metis, blast)
  moreover have "history_ok (receiver d) ks" "relay_config (receiver d) = cfg" using ok by (simp_all add: relay_ok_def)
  ultimately show ?thesis unfolding history_ok_def spaced_def by metis
qed

text \<open>The example again, with the datagrams of object 5 replayed after its completion.\<close>

theorem relay_decode_history_witness:
  "\<exists>d ks. relay_from ex_lib ex_cfg (ex_events @ [PushDatagram 1 (ex_bytes 5 0 0) 16, PushDatagram 1 (ex_bytes 6 1 0) 17]) = Some (d, ks)
     \<and> ks = [ex_key 5, ex_key 6] \<and> completed_order (receiver d) = [ex_key 5, ex_key 6]"
proof -
  have "map_option snd (relay_from ex_lib ex_cfg (ex_events @ [PushDatagram 1 (ex_bytes 5 0 0) 16,
      PushDatagram 1 (ex_bytes 6 1 0) 17])) = Some [ex_key 5, ex_key 6]" by code_simp
  then obtain d where d: "relay_from ex_lib ex_cfg (ex_events @ [PushDatagram 1 (ex_bytes 5 0 0) 16,
      PushDatagram 1 (ex_bytes 6 1 0) 17]) = Some (d, [ex_key 5, ex_key 6])" by auto
  show ?thesis using d relay_decode_history [OF ex_lib_ok d] by (simp add: ex_cfg_def)
qed

text \<open>Expiry is exact. A scan removes exactly the active objects past their deadline or idle for the
  configured time, reports their number, bytes and datagrams, returns those to the budgets, forgets their
  logical identities, keeps sessions and tombstones, and schedules the next scan.\<close>

theorem relay_expiry_exact:
  assumes "assembler_ok lib ai" and "relay_from lib cfg evs = Some (d, ks)"
    and "expire lib now (receiver d) = (r', x)"
  shows "objects r' = filter (\<lambda>(k, st). \<not> (is_expired_at lib (ann_deadline (ao_announcement st)) now
        \<or> object_inactivity_timeout_us cfg \<le> now - ao_last_activity_us st)) (objects (receiver d))
    \<and> rx_objects x + length (objects r') = length (objects (receiver d))
    \<and> rx_released_object_bytes x + buffered_object_bytes r' = buffered_object_bytes (receiver d)
    \<and> rx_released_datagrams x + buffered_datagrams r' = buffered_datagrams (receiver d)
    \<and> (\<forall>l k. map_of (logical_keys r') l = Some k \<longleftrightarrow> logical_of k = l \<and> k \<in> set (keys (objects r')) \<union> set (keys (completed r')))
    \<and> completed r' = completed (receiver d) \<and> sessions r' = sessions (receiver d)
    \<and> next_expiry_scan_us r' = Some (sat_add now (expiry_scan_interval_us cfg))"
proof -
  note inv = relay_from_inv [OF assms(1,2)]
  note E = expire_eq [OF inv(1) assms(3)]
  have "keys_ok {} (dom (map_of (objects r'))) (map_of (logical_keys r')) (dom (map_of (completed r')))"
    using E relay_invD(9) by blast
  then have keys: "\<forall>l k. map_of (logical_keys r') l = Some k \<longleftrightarrow>
      logical_of k = l \<and> k \<in> set (keys (objects r')) \<union> set (keys (completed r'))"
    by (simp add: keys_ok_def dom_map_of_conv_image_fst)
  have "objects r' = filter (\<lambda>(k, st). \<not> (is_expired_at lib (ann_deadline (ao_announcement st)) now
        \<or> object_inactivity_timeout_us cfg \<le> now - ao_last_activity_us st)) (objects (receiver d))"
    "next_expiry_scan_us r' = Some (sat_add now (expiry_scan_interval_us cfg))" "sessions r' = sessions (receiver d)"
    using E inv(2) unfolding object_expired_def relay_frame_def by auto
  then show ?thesis using E keys by blast
qed

theorem relay_expiry_exact_witness:
  "length (objects (receiver ex_reached)) = 1 \<and> objects (fst (expire ex_lib 115 (receiver ex_reached))) = []
     \<and> rx_objects (snd (expire ex_lib 115 (receiver ex_reached))) = 1"
proof -
  have o: "map (ao_last_activity_us \<circ> snd) (objects (receiver ex_reached)) = [15]" unfolding ex_reached_def by code_simp
  then have l: "length (objects (receiver ex_reached)) = 1"
    "\<forall>p \<in> set (objects (receiver ex_reached)). ao_last_activity_us (snd p) = 15" by auto
  note E = relay_expiry_exact [OF ex_lib_ok ex_reached prod.collapse [symmetric], of 115]
  have "objects (fst (expire ex_lib 115 (receiver ex_reached))) = []"
    using E l(2) by (auto simp: ex_cfg_def filter_empty_conv)
  moreover have "rx_objects (snd (expire ex_lib 115 (receiver ex_reached)))
      + length (objects (fst (expire ex_lib 115 (receiver ex_reached)))) = 1" using E l(1) by metis
  ultimately show ?thesis using l(1) by simp
qed

text \<open>Replayed packet sequences. A symbol of an active object whose packet sequence is already recorded
  changes no table and no budget: it is a duplicate when payload digest and role agree with the record, and
  rejected as a replay conflict (and counted as such) when they do not.\<close>

theorem relay_replay_rejected:
  assumes "assembler_ok lib ai" and "relay_from lib cfg evs = Some (d, ks)"
    and "map_of (sessions (receiver d)) sid = Some s" and "decode_datagram lib bytes (relay_limits cfg) = Inr y"
    and "validate_session_symbol lib s y" and "\<not> is_expired_at lib (sym_deadline y) now"
    and "map_of (objects (expire_if_due lib now (count_received (receiver d)))) (sym_object_key y) = Some st"
    and "sid \<in> set (ao_parent_sessions st)" and "packet_sequence lib (sym_fec_datagram y) = Inr seq"
    and "map_of (ao_symbols st) seq = Some (SymbolFingerprint digest role)"
  shows "\<exists>r' res. push_wire_datagram lib sid bytes now (receiver d) = Some (r', res)
    \<and> same_tables (expire_if_due lib now (count_received (receiver d))) r'
    \<and> (if digest = payload_digest lib (sym_fec_datagram y) \<and> role = sym_role y
       then res = Inr (Duplicate (sym_object_key y) (sym_role y) (sym_deadline y))
       else res = Inl SymbolReplayConflict
         \<and> conflict_drops (relay_counters r') = sat_add (conflict_drops (relay_counters (receiver d))) 1)"
proof -
  define r where "r = expire_if_due lib now (count_received (receiver d))"
  note inv = relay_from_inv [OF assms(1,2)]
  have inv0: "relay_inv lib ai {} (count_received (receiver d))" using inv(1) by simp
  note E = expire_if_due_eq [OF inv0, of now, folded r_def] and I = relay_invD [OF expire_if_due_eq(1) [OF inv0, of now, folded r_def]]
  have st: "map_of (objects r) (sym_object_key y) = Some st" using assms(7) by (simp add: r_def)
  have sid: "session_id s = sid" using relay_invD(6) [OF inv(1) assms(3)] .
  have "map_of (logical_keys r) (logical_of (sym_object_key y)) = Some (sym_object_key y)"
    using I(9) st unfolding keys_ok_def by blast
  then have k: "\<not> identity_conflict (sym_object_key y) r" "map_of (completed r) (sym_object_key y) = None"
    using I(9) st by (simp add: identity_conflict_def, unfold keys_ok_def, blast)
  have cd: "conflict_drops (relay_counters r) = conflict_drops (relay_counters (receiver d))"
    using arg_cong [OF E(6), of conflict_drops] by (simp add: count_received_def)
  have t: "try_push_wire_datagram lib sid bytes now (count_received (receiver d)) = push_active_symbol lib s y st now r"
    using assms(3-6) st k inv(2) by (simp add: try_push_wire_datagram_def get_session_def Let_def flip: r_def)
  have perm: "permits lib (parent_path s) (sym_path_intent y)" using assms(5) by (simp add: validate_session_symbol_def)
  show ?thesis
  proof (cases "digest = payload_digest lib (sym_fec_datagram y) \<and> role = sym_role y")
    case True
    then have "push_active_symbol lib s y st now r = Some (rcount (count_duplicate (sym_role y)) r,
        Inr (Duplicate (sym_object_key y) (sym_role y) (sym_deadline y)))"
      using assms(8-10) sid perm by (simp add: push_active_symbol_def)
    then show ?thesis using True t by (simp add: push_wire_datagram_def r_def)
  next
    case False
    then have "push_active_symbol lib s y st now r = Some (r, Inl SymbolReplayConflict)"
      using assms(8-10) sid perm by (auto simp: push_active_symbol_def)
    then have "push_wire_datagram lib sid bytes now (receiver d) = Some (record_rejection SymbolReplayConflict True r, Inl SymbolReplayConflict)"
      using t by (simp add: push_wire_datagram_def)
    moreover have "conflict_drops (relay_counters (record_rejection SymbolReplayConflict True r)) =
        sat_add (conflict_drops (relay_counters r)) 1" by (simp add: record_rejection_def)
    moreover have "same_tables r (record_rejection SymbolReplayConflict True r)" by (simp add: record_rejection_def)
    ultimately show ?thesis using False cd unfolding r_def by (simp only: if_False simp_thms) blast
  qed
qed

theorem relay_replay_rejected_witness:
  "\<exists>r'. push_wire_datagram ex_lib 1 (ex_bytes 6 0 1) 16 (receiver ex_reached) = Some (r', Inl SymbolReplayConflict)"
proof -
  let ?y = "projr (ex_decode (ex_bytes 6 0 1))"
  have s: "map_of (sessions (receiver ex_reached)) 1 = Some (ex_parent 1 Primary)" unfolding ex_reached_def by code_simp
  have y: "decode_datagram ex_lib (ex_bytes 6 0 1) (relay_limits ex_cfg) = Inr ?y"
    by (simp add: ex_lib_def ex_bytes_def)
  have v: "validate_session_symbol ex_lib (ex_parent 1 Primary) ?y" "\<not> is_expired_at ex_lib (sym_deadline ?y) 16"
    by (code_simp, code_simp)
  have "map_option (\<lambda>st. (ao_parent_sessions st, ao_symbols st))
      (map_of (objects (expire_if_due ex_lib 16 (count_received (receiver ex_reached)))) (sym_object_key ?y)) =
      Some ([1], [(0, SymbolFingerprint 6 Source)])" unfolding ex_reached_def by code_simp
  then obtain st where st: "map_of (objects (expire_if_due ex_lib 16 (count_received (receiver ex_reached)))) (sym_object_key ?y) = Some st"
    "1 \<in> set (ao_parent_sessions st)" "map_of (ao_symbols st) 0 = Some (SymbolFingerprint 6 Source)" by auto
  have q: "packet_sequence ex_lib (sym_fec_datagram ?y) = Inr 0" "sym_role ?y = Repair" by (code_simp, code_simp)
  show ?thesis using relay_replay_rejected [OF ex_lib_ok ex_reached s y v st(1,2) q(1) st(3)] q(2) by auto
qed

text \<open>The UDP adapter. A datagram without the relay magic is left to the legacy path and changes nothing.
  A relay datagram of a peer that is not bound is rejected, counted as an authentication drop, and changes
  nothing but counters. A datagram of a peer bound to an authenticated session never creates an object:
  only an announcement does, and only controlled sessions announce implicitly.\<close>

theorem udp_dispatch_gate:
  assumes "assembler_ok lib ai" and "relay_from lib cfg evs = Some (d, ks)"
  shows "(\<not> is_relay_session_datagram bytes \<longrightarrow> dispatch_push lib peer bytes now d = Some (d, Inr Legacy))
    \<and> (is_relay_session_datagram bytes \<and> map_of (sessions_by_peer d) peer = None \<longrightarrow>
        (\<exists>d'. dispatch_push lib peer bytes now d = Some (d', Inl AuthenticationRequired)
          \<and> same_tables (receiver d) (receiver d') \<and> sessions (receiver d') = sessions (receiver d)
          \<and> sessions_by_peer d' = sessions_by_peer d
          \<and> authentication_drops (relay_counters (receiver d')) = sat_add (authentication_drops (relay_counters (receiver d))) 1))
    \<and> (\<forall>sid. map_of (sessions_by_peer d) peer = Some sid \<and> sid \<notin> set (controlled_announcement_sessions d) \<longrightarrow>
        (\<exists>d' res. dispatch_push lib peer bytes now d = Some (d', res)
          \<and> set (keys (objects (receiver d'))) \<subseteq> set (keys (objects (receiver d)))))"
proof (intro conjI allI impI)
  show "dispatch_push lib peer bytes now d = Some (d, Inr Legacy)" if "\<not> is_relay_session_datagram bytes"
    using that by (simp add: dispatch_push_def)
  show "\<exists>d'. dispatch_push lib peer bytes now d = Some (d', Inl AuthenticationRequired)
          \<and> same_tables (receiver d) (receiver d') \<and> sessions (receiver d') = sessions (receiver d)
          \<and> sessions_by_peer d' = sessions_by_peer d
          \<and> authentication_drops (relay_counters (receiver d')) = sat_add (authentication_drops (relay_counters (receiver d))) 1"
    if "is_relay_session_datagram bytes \<and> map_of (sessions_by_peer d) peer = None"
    using that by (simp add: dispatch_push_def dispatch_reject_def record_rejection_def count_received_def same_tables_def)
  fix sid
  assume b: "map_of (sessions_by_peer d) peer = Some sid \<and> sid \<notin> set (controlled_announcement_sessions d)"
  obtain r' res where p: "push_wire_datagram lib sid bytes now (receiver d) = Some (r', res)"
    "set (keys (objects r')) \<subseteq> set (keys (objects (receiver d)))"
    using push_no_new_object [OF assms(1) relay_from_inv(1) [OF assms]] by blast
  show "\<exists>d' res. dispatch_push lib peer bytes now d = Some (d', res)
          \<and> set (keys (objects (receiver d'))) \<subseteq> set (keys (objects (receiver d)))"
    using b p by (cases "is_relay_session_datagram bytes") (simp_all add: dispatch_push_def del: set_map)
qed

theorem udp_dispatch_gate_witness:
  "\<exists>d'. dispatch_push ex_lib (9, 9) (ex_bytes 6 0 0) 16 ex_reached = Some (d', Inl AuthenticationRequired)"
proof -
  have "map_of (sessions_by_peer ex_reached) (9, 9) = None" unfolding ex_reached_def by code_simp
  moreover have "is_relay_session_datagram (ex_bytes 6 0 0)" by code_simp
  ultimately show ?thesis using udp_dispatch_gate [OF ex_lib_ok ex_reached, of "ex_bytes 6 0 0" "(9, 9)" 16] by blast
qed

end
