(* ===== verification/Subscribe_Registry.thy ===== *)
theory Subscribe_Registry
  imports Mesh_Prelude
begin

text \<open>
  The registry of current subscribe bindings of \<open>src/src/subscribe_authorization.rs\<close>: installation,
  ordered invalidations, the gap fence, and snapshots. Constants and the order of media classes come from
  the crates \<open>media_object\<close> and \<open>media_capability\<close> and are fields of the record \<open>subscribe_env\<close>. Each
  operation holds the write lock for its whole body, so it is one transition.
\<close>

section \<open>Data\<close>

datatype media_class = Program | Source | Screen | Metadata | Talkback | TakeChunk

datatype edge_error_code =
  InvalidConfiguration | UnknownBinding | RevokedBinding | InvalidationGap | CapabilityTooLarge
| InvalidCapability | InvalidSignature | WrongScope | CapabilityReplay | CapabilityExpired
| ProofRequired | ProofMismatch | MalformedObject | NonCanonicalObject | CatalogLaneMismatch
| SourceNotAllowed | AudienceNotAllowed | ChannelLimit | BitrateLimit | ObjectExpired
| Capacity | RelayScope | DeliveryPurged | DatagramLimit

definition ALL_ERROR_CODES :: "edge_error_code list" where
  "ALL_ERROR_CODES = [InvalidConfiguration, UnknownBinding, RevokedBinding, InvalidationGap, CapabilityTooLarge,
     InvalidCapability, InvalidSignature, WrongScope, CapabilityReplay, CapabilityExpired, ProofRequired,
     ProofMismatch, MalformedObject, NonCanonicalObject, CatalogLaneMismatch, SourceNotAllowed,
     AudienceNotAllowed, ChannelLimit, BitrateLimit, ObjectExpired, Capacity, RelayScope, DeliveryPurged,
     DatagramLimit]"

record edge_error =
  code :: edge_error_code
  field :: string

abbreviation edge_err :: "edge_error_code \<Rightarrow> string \<Rightarrow> (edge_error + 'a)" where
  "edge_err c f \<equiv> Inl \<lparr>code = c, field = f\<rparr>"

record subscribe_env =
  max_generation :: nat
  max_clock_skew_seconds :: int
  max_compact_jws_bytes :: nat
  class_rank :: "media_class \<Rightarrow> nat"

record subscribe_binding =
  tenant_id :: string
  session_id :: string
  session_epoch :: nat
  media_authorization_epoch :: nat
  subject_grant_epoch :: nat
  media_policy_version :: nat
  class_authorization_epoch :: "nat option"
  binding_generation :: nat
  topology_generation :: nat
  participant_id :: string
  endpoint_id :: string
  media_class :: media_class
  edge_id :: string
  clock_skew_seconds :: int

definition MAX_ACTIVE_SUBSCRIPTIONS :: nat where
  "MAX_ACTIVE_SUBSCRIPTIONS = 65536"

definition bad_generation :: "subscribe_env \<Rightarrow> nat \<Rightarrow> bool" where
  "bad_generation env g \<longleftrightarrow> g = 0 \<or> g > max_generation env"

definition binding_new :: "subscribe_env \<Rightarrow> subscribe_binding \<Rightarrow> (subscribe_binding, edge_error) result" where
  "binding_new env b =
     (if list_ex (bad_generation env) [session_epoch b, media_authorization_epoch b, subject_grant_epoch b,
           media_policy_version b, binding_generation b, topology_generation b]
      then edge_err InvalidConfiguration ''authorization_generation''
      else if (case class_authorization_epoch b of None \<Rightarrow> False | Some v \<Rightarrow> bad_generation env v)
         \<or> \<not> (0 \<le> clock_skew_seconds b \<and> clock_skew_seconds b \<le> max_clock_skew_seconds env)
         \<or> media_class b = TakeChunk
      then edge_err InvalidConfiguration ''subscribe_binding''
      else Inr b)"

text \<open>The key of a binding, ordered as the derived \<open>Ord\<close> does: endpoint, class, generation.\<close>

type_synonym binding_key = "string \<times> nat \<times> nat"

definition lookup_key :: "subscribe_env \<Rightarrow> string \<Rightarrow> media_class \<Rightarrow> nat \<Rightarrow> binding_key" where
  "lookup_key env endpoint cls gen = (endpoint, class_rank env cls, gen)"

definition binding_key_of :: "subscribe_env \<Rightarrow> subscribe_binding \<Rightarrow> binding_key" where
  "binding_key_of env b = lookup_key env (endpoint_id b) (media_class b) (binding_generation b)"

record registered_binding =
  reg_binding :: subscribe_binding
  revision :: nat
  active :: bool

record registry =
  next_revision :: nat
  last_invalidation_sequence :: nat
  required_snapshot_boundary :: nat
  synchronized :: bool
  bindings :: "(binding_key \<times> registered_binding) list"

record subscribe_invalidation =
  delivery_sequence :: nat
  inv_session_id :: string
  inv_session_epoch :: nat
  inv_media_authorization_epoch :: nat
  inv_media_policy_version :: nat
  inv_endpoint_id :: "string option"
  inv_subject_grant_epoch :: "nat option"

datatype invalidation_outcome = Applied nat | Duplicate

section \<open>Operations\<close>

definition registry_new :: "subscribe_env \<Rightarrow> nat \<Rightarrow> (registry, edge_error) result" where
  "registry_new env boundary =
     (if boundary > max_generation env then edge_err InvalidConfiguration ''snapshot_boundary_sequence''
      else Inr \<lparr>next_revision = 0, last_invalidation_sequence = boundary, required_snapshot_boundary = 0,
                synchronized = True, bindings = []\<rparr>)"

definition bump_revision :: "nat \<Rightarrow> nat" where
  "bump_revision r = max (sat_add r 1) 1"

definition install :: "subscribe_env \<Rightarrow> subscribe_binding \<Rightarrow> registry \<Rightarrow> registry \<times> (nat, edge_error) result" where
  "install env b s =
     (let key = binding_key_of env b in
      if \<not> synchronized s then (s, edge_err InvalidationGap ''invalidation_sequence'')
      else if map_of (bindings s) key \<noteq> None then (s, edge_err InvalidConfiguration ''subscribe_binding'')
      else if length (bindings s) \<ge> MAX_ACTIVE_SUBSCRIPTIONS then (s, edge_err Capacity ''subscribe_bindings'')
      else let rv = bump_revision (next_revision s)
           in (s\<lparr>next_revision := rv,
                 bindings := bput key \<lparr>reg_binding = b, revision = rv, active = True\<rparr> (bindings s)\<rparr>, Inr rv))"

definition invalidation_valid :: "subscribe_env \<Rightarrow> subscribe_invalidation \<Rightarrow> bool" where
  "invalidation_valid env ev \<longleftrightarrow>
     \<not> (bad_generation env (delivery_sequence ev) \<or> bad_generation env (inv_session_epoch ev)
        \<or> bad_generation env (inv_media_authorization_epoch ev) \<or> bad_generation env (inv_media_policy_version ev)
        \<or> (inv_endpoint_id ev \<noteq> None) \<noteq> (inv_subject_grant_epoch ev \<noteq> None)
        \<or> (case inv_subject_grant_epoch ev of None \<Rightarrow> False | Some g \<Rightarrow> bad_generation env g))"

definition stale :: "subscribe_invalidation \<Rightarrow> subscribe_binding \<Rightarrow> bool" where
  "stale ev b \<longleftrightarrow>
     session_epoch b < inv_session_epoch ev \<or> media_authorization_epoch b < inv_media_authorization_epoch ev
     \<or> media_policy_version b < inv_media_policy_version ev
     \<or> (case inv_endpoint_id ev of
          None \<Rightarrow> False
        | Some e \<Rightarrow> endpoint_id b = e
            \<and> (case inv_subject_grant_epoch ev of None \<Rightarrow> False | Some g \<Rightarrow> subject_grant_epoch b < g))"

text \<open>The loop over \<open>values_mut\<close>, in key order, with the running revision and count.\<close>

fun invalidate_bindings ::
  "subscribe_invalidation \<Rightarrow> nat \<Rightarrow> (binding_key \<times> registered_binding) list
     \<Rightarrow> (binding_key \<times> registered_binding) list \<times> nat \<times> nat" where
  "invalidate_bindings ev rv [] = ([], rv, 0)"
| "invalidate_bindings ev rv ((k, r) # rs) =
     (if session_id (reg_binding r) \<noteq> inv_session_id ev \<or> \<not> active r \<or> \<not> stale ev (reg_binding r)
      then let (rs', rv', n) = invalidate_bindings ev rv rs in ((k, r) # rs', rv', n)
      else let rv1 = bump_revision rv;
               (rs', rv', n) = invalidate_bindings ev rv1 rs
           in ((k, r\<lparr>revision := rv1, active := False\<rparr>) # rs', rv', sat_add n 1))"

definition apply_invalidation ::
  "subscribe_env \<Rightarrow> subscribe_invalidation \<Rightarrow> registry \<Rightarrow> registry \<times> (invalidation_outcome, edge_error) result" where
  "apply_invalidation env ev s =
     (if \<not> invalidation_valid env ev then (s, edge_err InvalidConfiguration ''invalidation_event'')
      else if delivery_sequence ev \<le> last_invalidation_sequence s then (s, Inr Duplicate)
      else if \<not> synchronized s \<or> delivery_sequence ev \<noteq> sat_add (last_invalidation_sequence s) 1
      then (s\<lparr>synchronized := False,
              required_snapshot_boundary := max (required_snapshot_boundary s) (delivery_sequence ev)\<rparr>,
            edge_err InvalidationGap ''invalidation_sequence'')
      else let (bs, rv, n) = invalidate_bindings ev (next_revision s) (bindings s)
           in (s\<lparr>last_invalidation_sequence := delivery_sequence ev, bindings := bs, next_revision := rv\<rparr>,
               Inr (Applied n)))"

fun collect_unique ::
  "subscribe_env \<Rightarrow> subscribe_binding list \<Rightarrow> (binding_key \<times> subscribe_binding) list
     \<Rightarrow> (binding_key \<times> subscribe_binding) list option" where
  "collect_unique env [] u = Some u"
| "collect_unique env (b # bs) u =
     (if map_of u (binding_key_of env b) \<noteq> None then None
      else collect_unique env bs (bput (binding_key_of env b) b u))"

fun assign_revisions ::
  "nat \<Rightarrow> (binding_key \<times> subscribe_binding) list \<Rightarrow> (binding_key \<times> registered_binding) list \<times> nat" where
  "assign_revisions rv [] = ([], rv)"
| "assign_revisions rv ((k, b) # bs) =
     (let rv1 = bump_revision rv; (rs, rv') = assign_revisions rv1 bs
      in ((k, \<lparr>reg_binding = b, revision = rv1, active = True\<rparr>) # rs, rv'))"

definition install_snapshot ::
  "subscribe_env \<Rightarrow> nat \<Rightarrow> subscribe_binding list \<Rightarrow> registry \<Rightarrow> registry \<times> (unit, edge_error) result" where
  "install_snapshot env boundary bs s =
     (if boundary > max_generation env then (s, edge_err InvalidConfiguration ''snapshot_boundary_sequence'')
      else if length bs > MAX_ACTIVE_SUBSCRIPTIONS then (s, edge_err Capacity ''snapshot_bindings'')
      else case collect_unique env bs [] of
        None \<Rightarrow> (s, edge_err InvalidConfiguration ''snapshot_binding'')
      | Some unique \<Rightarrow>
         if boundary < last_invalidation_sequence s \<or> boundary < required_snapshot_boundary s
         then (s, edge_err InvalidConfiguration ''snapshot_boundary_sequence'')
         else let (replacement, rv) = assign_revisions (next_revision s) unique
              in (s\<lparr>next_revision := rv, last_invalidation_sequence := boundary, required_snapshot_boundary := 0,
                    synchronized := True, bindings := replacement\<rparr>, Inr ()))"

definition acknowledged_sequence :: "registry \<Rightarrow> nat option" where
  "acknowledged_sequence s = (if synchronized s then Some (last_invalidation_sequence s) else None)"

definition resolve ::
  "subscribe_env \<Rightarrow> string \<Rightarrow> media_class \<Rightarrow> nat \<Rightarrow> registry \<Rightarrow> (registered_binding, edge_error) result" where
  "resolve env endpoint cls gen s =
     (if \<not> synchronized s then edge_err InvalidationGap ''invalidation_sequence''
      else case map_of (bindings s) (lookup_key env endpoint cls gen) of
        None \<Rightarrow> edge_err UnknownBinding ''subscribe_binding''
      | Some r \<Rightarrow> if active r then Inr r else edge_err RevokedBinding ''subscribe_binding'')"

record subscription_lease =
  lease_binding :: subscribe_binding
  binding_revision :: nat
  lease_capability_id :: string
  connection_id :: string
  lease_source_ids :: "string list"
  lease_audience_ids :: "string list"
  lease_max_channels :: nat
  lease_max_bitrate :: nat
  lease_max_datagram_bytes :: nat
  lease_expires_at :: int

definition registry_revalidate :: "subscribe_env \<Rightarrow> subscription_lease \<Rightarrow> registry \<Rightarrow> (unit, edge_error) result" where
  "registry_revalidate env l s =
     (case resolve env (endpoint_id (lease_binding l)) (media_class (lease_binding l))
             (binding_generation (lease_binding l)) s of
        Inl e \<Rightarrow> Inl e
      | Inr cur \<Rightarrow> if revision cur \<noteq> binding_revision l then edge_err RevokedBinding ''subscribe_binding'' else Inr ())"

section \<open>Runs\<close>

datatype registry_op = Install subscribe_binding | Invalidate subscribe_invalidation | Snapshot nat "subscribe_binding list"

fun registry_step :: "subscribe_env \<Rightarrow> registry_op \<Rightarrow> registry \<Rightarrow> registry" where
  "registry_step env (Install b) s = fst (install env b s)"
| "registry_step env (Invalidate ev) s = fst (apply_invalidation env ev s)"
| "registry_step env (Snapshot n bs) s = fst (install_snapshot env n bs s)"

definition registry_run :: "subscribe_env \<Rightarrow> registry_op list \<Rightarrow> registry \<Rightarrow> registry" where
  "registry_run env ops s = fold (registry_step env) ops s"

end
