(* ===== verification/Subscribe_Leases.thy ===== *)
theory Subscribe_Leases
  imports Subscribe_Registry
begin

text \<open>
  What the registry promises to a lease: invalidations act on exactly the stale bindings, a gap in the
  invalidation sequence fences every lease until a snapshot covers it, and a lease that fails once never
  succeeds again. Revisions are saturating counters, so the last statement is for registries that have not
  issued all of them.
\<close>

section \<open>The invariant\<close>

definition registry_ok :: "registry \<Rightarrow> bool" where
  "registry_ok s \<longleftrightarrow> btree_ok (bindings s) \<and> (\<forall>k r. map_of (bindings s) k = Some r \<longrightarrow> revision r \<le> next_revision s)
     \<and> (if synchronized s then required_snapshot_boundary s = 0
        else last_invalidation_sequence s < required_snapshot_boundary s)"

lemma bump_revision_exact: "bump_revision r < u64_max \<Longrightarrow> bump_revision r = Suc r"
  by (auto simp: bump_revision_def sat_add_def max_def min_def u64_max_def split: if_splits)

lemma bump_revision_mono: "r \<le> u64_max \<Longrightarrow> r \<le> bump_revision r"
  by (auto simp: bump_revision_def sat_add_def max_def min_def)

lemma bump_revision_le: "bump_revision r \<le> u64_max"
  by (auto simp: bump_revision_def sat_add_def max_def u64_max_def)

lemma invalidate_bindings_keys:
  "invalidate_bindings ev rv rs = (rs', rv', n) \<Longrightarrow> keys rs' = keys rs"
  by (induction ev rv rs arbitrary: rs' rv' n rule: invalidate_bindings.induct)
    (auto simp: Let_def split: if_splits prod.splits)

lemma invalidate_bindings_rev:
  "invalidate_bindings ev rv rs = (rs', rv', n) \<Longrightarrow> rv \<le> u64_max \<Longrightarrow> rv \<le> rv' \<and> rv' \<le> u64_max"
proof (induction ev rv rs arbitrary: rs' rv' n rule: invalidate_bindings.induct)
  case (1 ev rv)
  then show ?case by simp
next
  case (2 ev rv k r rs)
  then show ?case
    using bump_revision_mono [of rv] bump_revision_le [of rv]
    by (auto simp: Let_def split: if_splits prod.splits) (meson order.trans)+
qed

text \<open>What the loop does to each binding.\<close>

definition hit :: "subscribe_invalidation \<Rightarrow> registered_binding \<Rightarrow> bool" where
  "hit ev r \<longleftrightarrow> session_id (reg_binding r) = inv_session_id ev \<and> active r \<and> stale ev (reg_binding r)"

definition touched :: "subscribe_invalidation \<Rightarrow> nat \<Rightarrow> nat \<Rightarrow> registered_binding \<Rightarrow> registered_binding \<Rightarrow> bool" where
  "touched ev lo hi r r' \<longleftrightarrow> (if hit ev r then lo < revision r' \<and> revision r' \<le> hi
     \<and> r' = r\<lparr>revision := revision r', active := False\<rparr> else r' = r)"

lemma touched_weaken: "rel_option (touched ev (Suc lo) hi) a b \<Longrightarrow> rel_option (touched ev lo hi) a b"
  by (erule option.rel_mono_strong) (auto simp: touched_def split: if_splits)

lemma touched_cases:
  assumes "rel_option (touched ev lo hi) a (Some r')"
  shows "(lo < revision r' \<and> revision r' \<le> hi) \<or> a = Some r'"
  using assms by (cases a) (auto simp: touched_def split: if_splits)

lemma invalidate_bindings_eq:
  assumes "invalidate_bindings ev rv rs = (rs', rv', n)" and "rv' < u64_max"
  shows "n = length (filter (hit ev \<circ> snd) rs) \<and> rv' = rv + n
    \<and> (\<forall>k. rel_option (touched ev rv rv') (map_of rs k) (map_of rs' k))"
  using assms
proof (induction ev rv rs arbitrary: rs' rv' n rule: invalidate_bindings.induct)
  case (1 ev rv)
  then show ?case by simp
next
  case (2 ev rv k r rs)
  show ?case
  proof (cases "hit ev r")
    case False
    then obtain rs1 where e: "invalidate_bindings ev rv rs = (rs1, rv', n)" "rs' = (k, r) # rs1"
      using "2.prems"(1) by (auto simp: hit_def Let_def split: if_splits prod.splits)
    have "session_id (reg_binding r) \<noteq> inv_session_id ev \<or> \<not> active r \<or> \<not> stale ev (reg_binding r)"
      using False by (simp add: hit_def)
    moreover have "touched ev rv rv' r r" using False by (simp add: touched_def)
    ultimately show ?thesis using "2.IH"(1) [OF _ e(1) "2.prems"(2)] False e(2) by auto
  next
    case True
    obtain rs1 m where e: "invalidate_bindings ev (bump_revision rv) rs = (rs1, rv', m)"
      "rs' = (k, r\<lparr>revision := bump_revision rv, active := False\<rparr>) # rs1" "n = sat_add m 1"
      using "2.prems"(1) True by (auto simp: hit_def Let_def split: if_splits prod.splits)
    have "bump_revision rv \<le> rv'" using invalidate_bindings_rev [OF e(1)] bump_revision_le by blast
    then have b: "bump_revision rv = Suc rv" using bump_revision_exact "2.prems"(2) by simp
    have "\<not> (session_id (reg_binding r) \<noteq> inv_session_id ev \<or> \<not> active r \<or> \<not> stale ev (reg_binding r))"
      using True by (simp add: hit_def)
    note IH = "2.IH"(2) [OF this refl e(1) "2.prems"(2), unfolded b]
    have n: "n = Suc m" using e(3) IH "2.prems"(2) by (simp add: sat_add_exact)
    have "touched ev rv rv' r (r\<lparr>revision := Suc rv, active := False\<rparr>)" using True IH by (simp add: touched_def)
    moreover have "rel_option (touched ev rv rv') (map_of rs k') (map_of rs1 k')" for k'
      using IH touched_weaken by blast
    ultimately show ?thesis using IH True e(2) n b by simp
  qed
qed

lemma assign_revisions_eq:
  assumes "assign_revisions rv bs = (rs, rv')" and "rv' < u64_max"
  shows "keys rs = keys bs \<and> rv' = rv + length bs
    \<and> (\<forall>k r. map_of rs k = Some r \<longrightarrow> rv < revision r \<and> revision r \<le> rv' \<and> active r \<and> map_of bs k = Some (reg_binding r))"
  using assms
proof (induction rv bs arbitrary: rs rv' rule: assign_revisions.induct)
  case (1 rv)
  then show ?case by simp
next
  case (2 rv k b bs)
  obtain rs1 where e: "assign_revisions (bump_revision rv) bs = (rs1, rv')"
    "rs = (k, \<lparr>reg_binding = b, revision = bump_revision rv, active = True\<rparr>) # rs1"
    using "2.prems"(1) by (auto simp: Let_def split: prod.splits)
  note IH = "2.IH" [OF refl e(1) "2.prems"(2)]
  then have b: "bump_revision rv = Suc rv" using bump_revision_exact "2.prems"(2) by simp
  have "rv < revision r" if "map_of rs1 k' = Some r" for k' r using IH that unfolding b by (metis Suc_lessD)
  then show ?case using IH e(2) unfolding b by auto
qed

lemma assign_revisions_mono:
  "assign_revisions rv bs = (rs, rv') \<Longrightarrow> rv \<le> u64_max \<Longrightarrow> rv \<le> rv' \<and> rv' \<le> u64_max \<and> keys rs = keys bs"
proof (induction rv bs arbitrary: rs rv' rule: assign_revisions.induct)
  case (1 rv)
  then show ?case by simp
next
  case (2 rv k b bs)
  then show ?case
    using bump_revision_mono [of rv] bump_revision_le [of rv]
    by (auto simp: Let_def split: prod.splits) (meson order.trans)
qed

lemma collect_unique_btree: "collect_unique env bs u = Some u' \<Longrightarrow> btree_ok u \<Longrightarrow> btree_ok u'"
  by (induction env bs u rule: collect_unique.induct) (auto split: if_splits simp: bt.table_ok_put)

section \<open>One operation\<close>

text \<open>Revisions only grow, and a revision met twice under one key is the same registration.\<close>

definition grows :: "registry \<Rightarrow> registry \<Rightarrow> bool" where
  "grows s s' \<longleftrightarrow> next_revision s \<le> next_revision s'
     \<and> (\<forall>k r'. map_of (bindings s') k = Some r' \<longrightarrow> next_revision s < revision r' \<or> map_of (bindings s) k = Some r')
     \<and> (synchronized s' \<longrightarrow> synchronized s \<or> (\<forall>k r'. map_of (bindings s') k = Some r' \<longrightarrow> next_revision s < revision r'))"

lemma registry_step_next:
  assumes "next_revision s \<le> u64_max"
  shows "next_revision s \<le> next_revision (registry_step env op s) \<and> next_revision (registry_step env op s) \<le> u64_max"
proof (cases op)
  case (Install b)
  then show ?thesis using assms bump_revision_mono bump_revision_le by (auto simp: install_def Let_def)
next
  case (Invalidate ev)
  then show ?thesis
    using assms invalidate_bindings_rev [of ev "next_revision s" "bindings s"]
    by (auto simp: apply_invalidation_def split: prod.splits)
next
  case (Snapshot n bs)
  then show ?thesis
    using assms assign_revisions_mono [of "next_revision s"]
    by (auto simp: install_snapshot_def split: prod.splits option.splits)
qed

lemma install_cases:
  "(\<exists>e. install env b s = (s, Inl e)) \<or>
   (install env b s = (s\<lparr>next_revision := bump_revision (next_revision s),
      bindings := bput (binding_key_of env b) \<lparr>reg_binding = b, revision = bump_revision (next_revision s), active = True\<rparr>
        (bindings s)\<rparr>, Inr (bump_revision (next_revision s)))
    \<and> synchronized s \<and> map_of (bindings s) (binding_key_of env b) = None)"
  by (simp add: install_def Let_def)

lemma apply_invalidation_cases:
  assumes "invalidate_bindings ev (next_revision s) (bindings s) = (bs, rv, n)"
  shows "fst (apply_invalidation env ev s) = s
    \<or> (fst (apply_invalidation env ev s) = s\<lparr>synchronized := False,
          required_snapshot_boundary := max (required_snapshot_boundary s) (delivery_sequence ev)\<rparr>
       \<and> last_invalidation_sequence s < delivery_sequence ev)
    \<or> (fst (apply_invalidation env ev s) = s\<lparr>last_invalidation_sequence := delivery_sequence ev, bindings := bs, next_revision := rv\<rparr>
       \<and> synchronized s \<and> delivery_sequence ev = sat_add (last_invalidation_sequence s) 1)"
  using assms by (simp add: apply_invalidation_def)

lemma install_snapshot_cases:
  "fst (install_snapshot env n bs s) = s
   \<or> (\<exists>u rs rv. collect_unique env bs [] = Some u \<and> assign_revisions (next_revision s) u = (rs, rv)
       \<and> required_snapshot_boundary s \<le> n \<and> last_invalidation_sequence s \<le> n
       \<and> fst (install_snapshot env n bs s) = s\<lparr>next_revision := rv, last_invalidation_sequence := n,
           required_snapshot_boundary := 0, synchronized := True, bindings := rs\<rparr>)"
  by (cases "collect_unique env bs []"; cases "assign_revisions (next_revision s) (the (collect_unique env bs []))")
    (auto simp: install_snapshot_def)

lemma install_step_ok:
  assumes Install: "op = Install b" and ok: "registry_ok s" and new: "next_revision (registry_step env op s) < u64_max"
    "next_revision s \<le> u64_max"
  shows "registry_ok (registry_step env op s) \<and> grows s (registry_step env op s)"
proof (cases "\<exists>e. install env b s = (s, Inl e)")
  case True
  then show ?thesis using ok Install by (auto simp: grows_def)
next
  case False
  then have added: "install env b s = (s\<lparr>next_revision := bump_revision (next_revision s),
      bindings := bput (binding_key_of env b) \<lparr>reg_binding = b, revision = bump_revision (next_revision s), active = True\<rparr>
        (bindings s)\<rparr>, Inr (bump_revision (next_revision s)))"
    "synchronized s" "map_of (bindings s) (binding_key_of env b) = None" using install_cases [of env b s] by auto
  then have b: "bump_revision (next_revision s) = Suc (next_revision s)"
    using new Install bump_revision_exact by simp
  show ?thesis using ok Install added unfolding b registry_ok_def grows_def
    by (auto simp: bt.map_of_put bt.table_ok_put le_Suc_eq)
qed

lemma invalidate_step_ok:
  assumes Invalidate: "op = Invalidate ev" and ok: "registry_ok s" and new: "next_revision (registry_step env op s) < u64_max"
    "next_revision s \<le> u64_max"
  shows "registry_ok (registry_step env op s) \<and> grows s (registry_step env op s)"
proof -
  obtain bs rv n where e: "invalidate_bindings ev (next_revision s) (bindings s) = (bs, rv, n)" by (metis prod_cases3)
  consider "registry_step env op s = s"
    | "registry_step env op s = s\<lparr>synchronized := False,
        required_snapshot_boundary := max (required_snapshot_boundary s) (delivery_sequence ev)\<rparr>"
      "last_invalidation_sequence s < delivery_sequence ev"
    | "registry_step env op s = s\<lparr>last_invalidation_sequence := delivery_sequence ev, bindings := bs, next_revision := rv\<rparr>"
      "synchronized s"
    using Invalidate apply_invalidation_cases [OF e, of env] by auto
  then show ?thesis
  proof cases
    case 3
    then have rv: "rv < u64_max" using new by simp
    note E = invalidate_bindings_eq [OF e rv]
    have look: "(next_revision s < revision r' \<and> revision r' \<le> rv) \<or> map_of (bindings s) k = Some r'"
      if "map_of bs k = Some r'" for k r'
      using E that touched_cases by metis
    then have "revision r' \<le> rv" if "map_of bs k = Some r'" for k r'
      using ok that E unfolding registry_ok_def by (metis le_add1 order.trans)
    then show ?thesis
      using 3 ok look invalidate_bindings_keys [OF e] E unfolding registry_ok_def grows_def by auto
  qed (use ok in \<open>auto simp: registry_ok_def grows_def\<close>)
qed

lemma snapshot_step_ok:
  assumes Snapshot: "op = Snapshot n bs" and ok: "registry_ok s" and new: "next_revision (registry_step env op s) < u64_max"
    "next_revision s \<le> u64_max"
  shows "registry_ok (registry_step env op s) \<and> grows s (registry_step env op s)"
proof -
  consider "registry_step env op s = s"
    | u rs rv where "collect_unique env bs [] = Some u" "assign_revisions (next_revision s) u = (rs, rv)"
      "registry_step env op s = s\<lparr>next_revision := rv, last_invalidation_sequence := n, required_snapshot_boundary := 0,
         synchronized := True, bindings := rs\<rparr>"
    using Snapshot install_snapshot_cases [of env n bs s] by auto
  then show ?thesis
  proof cases
    case 1
    then show ?thesis using ok by (simp add: grows_def)
  next
    case (2 u rs rv)
    then have rv: "rv < u64_max" using new by simp
    note E = assign_revisions_eq [OF 2(2) rv]
    have "btree_ok u" using collect_unique_btree [OF 2(1)] by simp
    then show ?thesis using 2(3) E unfolding registry_ok_def grows_def by auto
  qed
qed

lemma registry_step_ok:
  assumes ok: "registry_ok s" and new: "next_revision (registry_step env op s) < u64_max"
    "next_revision s \<le> u64_max"
  shows "registry_ok (registry_step env op s) \<and> grows s (registry_step env op s)"
  using install_step_ok [OF _ assms] invalidate_step_ok [OF _ assms] snapshot_step_ok [OF _ assms]
  by (cases op) blast+

section \<open>Runs\<close>

lemma registry_run_Nil [simp]: "registry_run env [] s = s"
  by (simp add: registry_run_def)

lemma registry_run_Cons [simp]: "registry_run env (op # ops) s = registry_run env ops (registry_step env op s)"
  by (simp add: registry_run_def)

lemma registry_run_next:
  "next_revision s \<le> u64_max \<Longrightarrow>
     next_revision s \<le> next_revision (registry_run env ops s) \<and> next_revision (registry_run env ops s) \<le> u64_max"
proof (induction ops arbitrary: s)
  case Nil
  then show ?case by simp
next
  case (Cons op ops)
  show ?case using Cons.IH [of "registry_step env op s"] registry_step_next [OF Cons.prems, of env op] by simp
qed

text \<open>An induction over runs that do not exhaust the revisions.\<close>

lemma registry_run_induct:
  assumes ok: "registry_ok s" and P: "P s" and room: "next_revision (registry_run env ops s) < u64_max" "next_revision s \<le> u64_max"
    and step: "\<And>s op. op \<in> set ops \<Longrightarrow> registry_ok s \<Longrightarrow> P s \<Longrightarrow> registry_ok (registry_step env op s) \<Longrightarrow>
      grows s (registry_step env op s) \<Longrightarrow> next_revision (registry_step env op s) < u64_max \<Longrightarrow>
      P (registry_step env op s)"
  shows "registry_ok (registry_run env ops s) \<and> P (registry_run env ops s)"
  using ok P room step
proof (induction ops arbitrary: s)
  case Nil
  then show ?case by simp
next
  case (Cons op ops)
  let ?s = "registry_step env op s"
  have n: "next_revision ?s \<le> u64_max" using registry_step_next [OF Cons.prems(4)] by blast
  then have r: "next_revision ?s < u64_max" using Cons.prems(3) registry_run_next [OF n, of env ops] by simp
  note S = registry_step_ok [OF Cons.prems(1) r Cons.prems(4)]
  have "P ?s" using Cons.prems(5) [of op s] Cons.prems(1,2) S r by simp
  then show ?case using Cons.IH [of ?s] S n Cons.prems(3,5) by simp
qed

definition lease_from :: "registered_binding \<Rightarrow> subscription_lease \<Rightarrow> bool" where
  "lease_from r l \<longleftrightarrow> lease_binding l = reg_binding r \<and> binding_revision l = revision r"

definition lease_key :: "subscribe_env \<Rightarrow> subscription_lease \<Rightarrow> binding_key" where
  "lease_key env l = binding_key_of env (lease_binding l)"

lemma revalidate_iff:
  "registry_revalidate env l s = Inr () \<longleftrightarrow> synchronized s
     \<and> (\<exists>r. map_of (bindings s) (lease_key env l) = Some r \<and> active r \<and> revision r = binding_revision l)"
  by (auto simp: registry_revalidate_def resolve_def lease_key_def binding_key_of_def split: option.splits sum.splits)

lemma registry_ok_new: "registry_new env n = Inr s \<Longrightarrow> registry_ok s \<and> next_revision s = 0"
  by (auto simp: registry_new_def registry_ok_def split: if_splits)

text \<open>A lease issued for the registration \<open>r\<close>: as long as its revision is found, it is that registration.\<close>

lemma lease_same_registration:
  assumes ok: "registry_ok s" and r: "map_of (bindings s) k = Some r"
    and room: "next_revision (registry_run env ops s) < u64_max" "next_revision s \<le> u64_max"
    and r': "map_of (bindings (registry_run env ops s)) k = Some r'" "revision r' = revision r"
  shows "r' = r"
proof -
  let ?P = "\<lambda>t. revision r \<le> next_revision t \<and> (\<forall>x. map_of (bindings t) k = Some x \<and> revision x = revision r \<longrightarrow> x = r)"
  have "revision r \<le> next_revision s" using ok r unfolding registry_ok_def by blast
  then have P: "?P s" using r by simp
  have step: "?P (registry_step env op t)" if "?P t" "grows t (registry_step env op t)" for op t
  proof (intro conjI allI impI)
    show "revision r \<le> next_revision (registry_step env op t)" using that by (auto simp: grows_def)
    fix x
    assume x: "map_of (bindings (registry_step env op t)) k = Some x \<and> revision x = revision r"
    then have "\<not> next_revision t < revision x" using that(1) by simp
    then have "map_of (bindings t) k = Some x" using that(2) x unfolding grows_def by blast
    then show "x = r" using that(1) x by blast
  qed
  from registry_run_induct [of s ?P, OF ok P room] step have "?P (registry_run env ops s)" by blast
  then show ?thesis using r' by blast
qed

lemma lease_stays_dead:
  assumes ok: "registry_ok s" and l: "binding_revision l \<le> next_revision s"
    and dead: "registry_revalidate env l s \<noteq> Inr ()"
    and room: "next_revision (registry_run env ops s) < u64_max" "next_revision s \<le> u64_max"
  shows "registry_revalidate env l (registry_run env ops s) \<noteq> Inr ()"
proof -
  let ?P = "\<lambda>t. binding_revision l \<le> next_revision t \<and> registry_revalidate env l t \<noteq> Inr ()"
  have step: "?P (registry_step env op t)" if "?P t" "grows t (registry_step env op t)" for op t
  proof
    show "binding_revision l \<le> next_revision (registry_step env op t)" using that by (auto simp: grows_def)
    show "registry_revalidate env l (registry_step env op t) \<noteq> Inr ()"
    proof
      assume "registry_revalidate env l (registry_step env op t) = Inr ()"
      then obtain r where r: "synchronized (registry_step env op t)"
        "map_of (bindings (registry_step env op t)) (lease_key env l) = Some r" "active r" "revision r = binding_revision l"
        unfolding revalidate_iff by blast
      then have "\<not> next_revision t < revision r" using that(1) by simp
      then have "map_of (bindings t) (lease_key env l) = Some r" "synchronized t"
        using that(2) r unfolding grows_def by (meson, meson)
      then show False using that(1) r unfolding revalidate_iff by blast
    qed
  qed
  have "?P s" using l dead by simp
  from registry_run_induct [of s ?P, OF ok this room] step show ?thesis by blast
qed

lemma gap_persists:
  assumes "\<not> synchronized s" and "q \<le> required_snapshot_boundary s"
    and "\<And>n bs. Snapshot n bs \<in> set ops \<Longrightarrow> n < q"
  shows "\<not> synchronized (registry_run env ops s)"
  using assms
proof (induction ops arbitrary: s)
  case Nil
  then show ?case by simp
next
  case (Cons op ops)
  have "\<not> synchronized (registry_step env op s) \<and> q \<le> required_snapshot_boundary (registry_step env op s)"
  proof (cases op)
    case (Install b)
    then show ?thesis using Cons.prems(1,2) by (simp add: install_def Let_def)
  next
    case (Invalidate ev)
    then show ?thesis using Cons.prems(1,2) by (auto simp: apply_invalidation_def)
  next
    case (Snapshot n bs)
    then have "n < q" using Cons.prems(3) by auto
    then show ?thesis using Snapshot install_snapshot_cases [of env n bs s] Cons.prems(1,2) by auto
  qed
  then show ?case using Cons.IH [of "registry_step env op s"] Cons.prems(3) by (metis list.set_intros(2) registry_run_Cons)
qed

section \<open>The log of applied invalidations\<close>

text \<open>The run again, with the boundary of the last snapshot and the sequence numbers applied since.\<close>

fun log_step :: "subscribe_env \<Rightarrow> registry_op \<Rightarrow> registry \<times> nat \<times> nat list \<Rightarrow> registry \<times> nat \<times> nat list" where
  "log_step env (Install b) (s, base, log) = (fst (install env b s), base, log)"
| "log_step env (Invalidate ev) (s, base, log) =
     (case apply_invalidation env ev s of
        (s', Inr (Applied n)) \<Rightarrow> (s', base, log @ [delivery_sequence ev])
      | (s', _) \<Rightarrow> (s', base, log))"
| "log_step env (Snapshot n bs) (s, base, log) =
     (case install_snapshot env n bs s of (s', Inr _) \<Rightarrow> (s', n, []) | (s', Inl _) \<Rightarrow> (s', base, log))"

lemma log_step_fst: "fst (log_step env op (s, base, log)) = registry_step env op s"
  by (cases op) (auto split: prod.splits sum.splits invalidation_outcome.splits)

lemma log_run_fst: "fst (fold (log_step env) ops (s, base, log)) = registry_run env ops s"
proof (induction ops arbitrary: s base log)
  case Nil
  then show ?case by simp
next
  case (Cons op ops)
  obtain s1 b1 l1 where e: "log_step env op (s, base, log) = (s1, b1, l1)" by (metis prod_cases3)
  then have "s1 = registry_step env op s" using log_step_fst [of env op s base log] by simp
  then show ?case using Cons.IH [of s1 b1 l1] e by simp
qed

lemma log_step_contiguous:
  assumes "log_step env op (s, base, log) = (s', base', log')"
    and "last_invalidation_sequence s = base + length log" and "log = [Suc base..<Suc (base + length log)]"
  shows "last_invalidation_sequence s' = base' + length log' \<and> log' = [Suc base'..<Suc (base' + length log')]"
proof (cases op)
  case (Install b)
  then have "last_invalidation_sequence s' = last_invalidation_sequence s" "base' = base" "log' = log"
    using assms(1) install_cases [of env b s] by auto
  then show ?thesis using assms(2,3) by metis
next
  case (Snapshot n bs)
  have "(last_invalidation_sequence s' = last_invalidation_sequence s \<and> base' = base \<and> log' = log)
      \<or> (last_invalidation_sequence s' = n \<and> base' = n \<and> log' = [])"
    using assms(1) Snapshot by (auto simp: install_snapshot_def split: if_splits option.splits prod.splits)
  then show ?thesis using assms(2,3) by (elim disjE conjE) (metis, simp)
next
  case (Invalidate ev)
  show ?thesis
  proof (cases "\<exists>n. snd (apply_invalidation env ev s) = Inr (Applied n)")
    case True
    then have "delivery_sequence ev = sat_add (last_invalidation_sequence s) 1"
      "last_invalidation_sequence s < delivery_sequence ev"
      "last_invalidation_sequence s' = delivery_sequence ev" "base' = base" "log' = log @ [delivery_sequence ev]"
      using assms(1) Invalidate by (auto simp: apply_invalidation_def split: if_splits prod.splits)
    moreover from this(1,2) have "delivery_sequence ev = Suc (base + length log)"
      using assms(2) by (auto simp: sat_add_def min_def split: if_splits)
    moreover have "log @ [Suc (base + length log)] = [Suc base..<Suc (Suc (base + length log))]"
      using assms(3) by (metis le_add1 not_less_eq_eq upt_Suc_append Suc_le_mono)
    ultimately show ?thesis by simp
  next
    case False
    then have "last_invalidation_sequence s' = last_invalidation_sequence s" "base' = base" "log' = log"
      using assms(1) Invalidate by (auto simp: apply_invalidation_def split: if_splits prod.splits)
    then show ?thesis using assms(2,3) by metis
  qed
qed

lemma log_run_contiguous:
  assumes "fold (log_step env) ops (s, base, log) = (s', base', log')"
    and "last_invalidation_sequence s = base + length log" and "log = [Suc base..<Suc (base + length log)]"
  shows "last_invalidation_sequence s' = base' + length log' \<and> log' = [Suc base'..<Suc (base' + length log')]"
  using assms
proof (induction ops arbitrary: s base log)
  case Nil
  then show ?case by simp
next
  case (Cons op ops)
  obtain s1 b1 l1 where e: "log_step env op (s, base, log) = (s1, b1, l1)" by (metis prod_cases3)
  note C = log_step_contiguous [OF e Cons.prems(2,3)]
  show ?case using Cons.IH [of s1 b1 l1] C Cons.prems(1) e by simp
qed

end
