(* ===== verification/Subscribe_Gate.thy ===== *)
theory Subscribe_Gate
  imports Subscribe_Leases
begin

text \<open>
  The capability gate of \<open>src/src/subscribe_authorization.rs\<close>. The verifier of the \<open>media_capability\<close> crate
  runs between two accesses to the admissions table: it is an interaction \<open>verifier_run\<close>, which asks the
  replay guard and continues with the answer, or ends. One call of \<open>authorize\<close> is \<open>authorize_begin\<close>, the
  questions, and \<open>authorize_finish\<close>; each of them holds a lock once, so that concurrent calls are
  interleavings of these steps (last section).
\<close>

section \<open>Data\<close>

datatype replay_rejection = RejectCapacity | RejectReplay

datatype verifier_error_code =
  VerifierInvalidSignature | AuthorizationRejected | ReplayAdmissionRejected | SegmentTooLarge | OtherVerifierError

record verifier_error =
  ve_code :: verifier_error_code
  ve_claims_expired :: bool
  ve_field :: string

record verified_capability =
  capability_id :: string
  source_ids :: "string list"
  audience_ids :: "string list"
  max_channels :: nat
  max_bitrate :: nat
  max_datagram_bytes :: nat
  client_key_thumbprint :: "string option"
  expires_at :: int

datatype verifier_run =
  Done "(verified_capability, verifier_error) result"
| Ask string int "replay_rejection option \<Rightarrow> verifier_run"

record subscribe_request =
  compact_jws :: string
  req_endpoint_id :: string
  req_media_class :: media_class
  req_binding_generation :: nat
  requested_source_id :: "string option"
  requested_audience_id :: "string option"
  req_connection_id :: string
  authenticated_client_key_thumbprint :: "string option"
  now_unix_seconds :: int

text \<open>The facts the verifier is given: the current binding, and the selectors and the time of the request.
  The operation is always \<open>Subscribe\<close>, without contributor and take.\<close>

record auth_context =
  ctx_binding :: subscribe_binding
  ctx_source_id :: "string option"
  ctx_audience_id :: "string option"
  ctx_now :: int

type_synonym verifier = "string \<Rightarrow> auth_context \<Rightarrow> verifier_run"

record admission_fingerprint =
  fp_endpoint_id :: string
  fp_media_class :: media_class
  fp_binding_generation :: nat
  fp_connection_id :: string

datatype admission_state = Pending u64 | Committed

record stored_admission =
  fingerprint :: admission_fingerprint
  adm_expires_at :: int
  adm_state :: admission_state

type_synonym admission_table = "(string \<times> stored_admission) list"

record admission_guard =
  g_fingerprint :: admission_fingerprint
  g_now :: int
  reservation_id :: u64
  pending_capability_id :: "string option"

record subscribe_metrics =
  admitted :: u64
  rejected :: u64
  rejection_reasons :: "edge_error_code \<Rightarrow> u64"

record subscribe_gate =
  gate_registry :: registry
  admissions :: admission_table
  next_reservation_id :: u64
  metrics :: subscribe_metrics

definition gate_new :: "registry \<Rightarrow> subscribe_gate" where
  "gate_new reg = \<lparr>gate_registry = reg, admissions = [], next_reservation_id = 1,
     metrics = \<lparr>admitted = 0, rejected = 0, rejection_reasons = (\<lambda>_. 0)\<rparr>\<rparr>"

section \<open>The replay guard\<close>

definition check_and_admit ::
  "string \<Rightarrow> int \<Rightarrow> admission_guard \<Rightarrow> admission_table \<Rightarrow> admission_guard \<times> admission_table \<times> replay_rejection option" where
  "check_and_admit cap expires g adm0 =
     (let adm = retain (\<lambda>_ previous. adm_expires_at previous > g_now g) adm0 in
      if map_of adm cap = None \<and> length adm \<ge> MAX_ACTIVE_SUBSCRIPTIONS then (g, adm, Some RejectCapacity)
      else case map_of adm cap of
        None \<Rightarrow> (g\<lparr>pending_capability_id := Some cap\<rparr>,
                 bput cap \<lparr>fingerprint = g_fingerprint g, adm_expires_at = expires,
                           adm_state = Pending (reservation_id g)\<rparr> adm, None)
      | Some a \<Rightarrow>
         if fingerprint a = g_fingerprint g \<and> adm_state a = Committed
         then (g, bput cap (a\<lparr>adm_expires_at := expires\<rparr>) adm, None)
         else if fingerprint a = g_fingerprint g \<and> adm_state a = Pending (reservation_id g) then (g, adm, None)
         else (g, adm, Some RejectReplay))"

definition guard_commit :: "admission_guard \<Rightarrow> admission_table \<Rightarrow> admission_guard \<times> admission_table" where
  "guard_commit g adm =
     (case pending_capability_id g of
        None \<Rightarrow> (g, adm)
      | Some cap \<Rightarrow> (g\<lparr>pending_capability_id := None\<rparr>,
          case map_of adm cap of
            Some a \<Rightarrow> if adm_state a = Pending (reservation_id g)
                      then bput cap (a\<lparr>adm_state := Committed\<rparr>) adm else adm
          | None \<Rightarrow> adm))"

definition guard_rollback :: "admission_guard \<Rightarrow> admission_table \<Rightarrow> admission_guard \<times> admission_table" where
  "guard_rollback g adm =
     (case pending_capability_id g of
        None \<Rightarrow> (g, adm)
      | Some cap \<Rightarrow> (g\<lparr>pending_capability_id := None\<rparr>,
          if (case map_of adm cap of None \<Rightarrow> False | Some a \<Rightarrow> adm_state a = Pending (reservation_id g))
          then tdel cap adm else adm))"

primrec run_verifier ::
  "verifier_run \<Rightarrow> admission_guard \<Rightarrow> admission_table
     \<Rightarrow> admission_guard \<times> admission_table \<times> (verified_capability, verifier_error) result" where
  "run_verifier (Done res) = (\<lambda>g adm. (g, adm, res))"
| "run_verifier (Ask cap expires k) = (\<lambda>g adm.
     case check_and_admit cap expires g adm of (g1, adm1, answer) \<Rightarrow> run_verifier (k answer) g1 adm1)"

section \<open>Authorization\<close>

definition MAX_CONNECTION_ID_BYTES :: nat where
  "MAX_CONNECTION_ID_BYTES = 128"

definition exact_selector :: "subscribe_request \<Rightarrow> bool" where
  "exact_selector req = (case req_media_class req of
     Talkback \<Rightarrow> requested_source_id req = None \<and> requested_audience_id req \<noteq> None
   | TakeChunk \<Rightarrow> False
   | _ \<Rightarrow> requested_source_id req \<noteq> None \<and> requested_audience_id req = None)"

definition request_error :: "subscribe_env \<Rightarrow> subscribe_request \<Rightarrow> edge_error option" where
  "request_error env req =
     (if compact_jws req = [] \<or> length (compact_jws req) > max_compact_jws_bytes env
      then Some \<lparr>code = CapabilityTooLarge, field = ''authorization''\<rparr>
      else if req_connection_id req = [] \<or> length (req_connection_id req) > MAX_CONNECTION_ID_BYTES
         \<or> \<not> is_ascii (req_connection_id req) \<or> list_ex (\<lambda>c. \<not> is_ascii_graphic c) (req_connection_id req)
      then Some \<lparr>code = InvalidConfiguration, field = ''connection_id''\<rparr>
      else if \<not> exact_selector req then Some \<lparr>code = InvalidConfiguration, field = ''requested_scope''\<rparr>
      else None)"

definition context_of :: "registered_binding \<Rightarrow> subscribe_request \<Rightarrow> auth_context" where
  "context_of r req = \<lparr>ctx_binding = reg_binding r, ctx_source_id = requested_source_id req,
     ctx_audience_id = requested_audience_id req, ctx_now = now_unix_seconds req\<rparr>"

definition fingerprint_of :: "subscribe_request \<Rightarrow> admission_fingerprint" where
  "fingerprint_of req = \<lparr>fp_endpoint_id = req_endpoint_id req, fp_media_class = req_media_class req,
     fp_binding_generation = req_binding_generation req, fp_connection_id = req_connection_id req\<rparr>"

definition authorize_begin ::
  "subscribe_env \<Rightarrow> subscribe_request \<Rightarrow> subscribe_gate
     \<Rightarrow> subscribe_gate \<times> (registered_binding \<times> admission_guard, edge_error) result" where
  "authorize_begin env req g =
     (case request_error env req of
        Some e \<Rightarrow> (g, Inl e)
      | None \<Rightarrow>
       (case resolve env (req_endpoint_id req) (req_media_class req) (req_binding_generation req) (gate_registry g) of
          Inl e \<Rightarrow> (g, Inl e)
        | Inr r \<Rightarrow> (g\<lparr>next_reservation_id := next_reservation_id g + 1\<rparr>,
            Inr (r, \<lparr>g_fingerprint = fingerprint_of req, g_now = now_unix_seconds req,
                     reservation_id = next_reservation_id g, pending_capability_id = None\<rparr>))))"

definition map_verifier_error :: "verifier_error \<Rightarrow> edge_error" where
  "map_verifier_error e =
     \<lparr>code = (if ve_claims_expired e then CapabilityExpired
              else case ve_code e of
                VerifierInvalidSignature \<Rightarrow> InvalidSignature
              | AuthorizationRejected \<Rightarrow> WrongScope
              | ReplayAdmissionRejected \<Rightarrow> CapabilityReplay
              | SegmentTooLarge \<Rightarrow> CapabilityTooLarge
              | _ \<Rightarrow> InvalidCapability),
      field = ve_field e\<rparr>"

definition lease_of :: "registered_binding \<Rightarrow> subscribe_request \<Rightarrow> verified_capability \<Rightarrow> subscription_lease" where
  "lease_of r req v = \<lparr>lease_binding = reg_binding r, binding_revision = revision r,
     lease_capability_id = capability_id v, connection_id = req_connection_id req,
     lease_source_ids = source_ids v, lease_audience_ids = audience_ids v, lease_max_channels = max_channels v,
     lease_max_bitrate = max_bitrate v, lease_max_datagram_bytes = max_datagram_bytes v,
     lease_expires_at = expires_at v\<rparr>"

text \<open>The checks after verification.\<close>

definition check_verified ::
  "subscribe_request \<Rightarrow> (verified_capability, verifier_error) result \<Rightarrow> (verified_capability, edge_error) result" where
  "check_verified req res =
     (case res of
        Inl e \<Rightarrow> Inl (map_verifier_error e)
      | Inr v \<Rightarrow>
         if now_unix_seconds req \<ge> expires_at v then edge_err CapabilityExpired ''expires_at''
         else case (client_key_thumbprint v, authenticated_client_key_thumbprint req) of
           (Some _, None) \<Rightarrow> edge_err ProofRequired ''client_key_thumbprint''
         | (Some expected, Some actual) \<Rightarrow>
             if expected \<noteq> actual then edge_err ProofMismatch ''client_key_thumbprint'' else Inr v
         | (None, _) \<Rightarrow> Inr v)"

text \<open>Success commits the guard; on every error the guard is dropped, which rolls back.\<close>

definition authorize_finish ::
  "subscribe_request \<Rightarrow> registered_binding \<Rightarrow> admission_guard \<Rightarrow> (verified_capability, verifier_error) result
     \<Rightarrow> subscribe_gate \<Rightarrow> subscribe_gate \<times> (subscription_lease, edge_error) result" where
  "authorize_finish req r gd res g =
     (case check_verified req res of
        Inl e \<Rightarrow> (g\<lparr>admissions := snd (guard_rollback gd (admissions g))\<rparr>, Inl e)
      | Inr v \<Rightarrow> (g\<lparr>admissions := snd (guard_commit gd (admissions g))\<rparr>, Inr (lease_of r req v)))"

definition authorize_strict ::
  "subscribe_env \<Rightarrow> verifier \<Rightarrow> subscribe_request \<Rightarrow> subscribe_gate
     \<Rightarrow> subscribe_gate \<times> (subscription_lease, edge_error) result" where
  "authorize_strict env vf req g =
     (case authorize_begin env req g of
        (g1, Inl e) \<Rightarrow> (g1, Inl e)
      | (g1, Inr (r, gd)) \<Rightarrow>
         (case run_verifier (vf (compact_jws req) (context_of r req)) gd (admissions g1) of
            (gd', adm, res) \<Rightarrow> authorize_finish req r gd' res (g1\<lparr>admissions := adm\<rparr>)))"

definition record_rejection :: "edge_error \<Rightarrow> subscribe_gate \<Rightarrow> subscribe_gate" where
  "record_rejection e g =
     (let m = metrics g
      in g\<lparr>metrics := m\<lparr>rejected := rejected m + 1,
           rejection_reasons := (rejection_reasons m)(code e := rejection_reasons m (code e) + 1)\<rparr>\<rparr>)"

definition count_decision :: "(subscription_lease, edge_error) result \<Rightarrow> subscribe_gate \<Rightarrow> subscribe_gate" where
  "count_decision res g = (case res of
     Inr _ \<Rightarrow> g\<lparr>metrics := (metrics g)\<lparr>admitted := admitted (metrics g) + 1\<rparr>\<rparr>
   | Inl e \<Rightarrow> record_rejection e g)"

definition authorize ::
  "subscribe_env \<Rightarrow> verifier \<Rightarrow> subscribe_request \<Rightarrow> subscribe_gate
     \<Rightarrow> subscribe_gate \<times> (subscription_lease, edge_error) result" where
  "authorize env vf req g =
     (case authorize_strict env vf req g of (g1, res) \<Rightarrow> (count_decision res g1, res))"

definition gate_revalidate ::
  "subscribe_env \<Rightarrow> subscription_lease \<Rightarrow> int \<Rightarrow> subscribe_gate \<Rightarrow> subscribe_gate \<times> (unit, edge_error) result" where
  "gate_revalidate env l now g =
     (if now \<ge> lease_expires_at l
      then let e = \<lparr>code = CapabilityExpired, field = ''expires_at''\<rparr> in (record_rejection e g, Inl e)
      else case registry_revalidate env l (gate_registry g) of
        Inl e \<Rightarrow> (record_rejection e g, Inl e)
      | Inr _ \<Rightarrow> (g, Inr ()))"

definition authorize_datagram_bytes :: "subscription_lease \<Rightarrow> nat \<Rightarrow> (unit, edge_error) result" where
  "authorize_datagram_bytes l n =
     (if n > lease_max_datagram_bytes l then edge_err DatagramLimit ''max_datagram_bytes'' else Inr ())"

definition matches_admission :: "subscription_lease \<Rightarrow> string \<Rightarrow> string \<Rightarrow> bool" where
  "matches_admission l cap conn \<longleftrightarrow> lease_capability_id l = cap \<and> connection_id l = conn"

section \<open>Concurrent calls\<close>

text \<open>A call in progress, and the state of all of them. \<open>issued\<close> lists the granted leases with their
  requests and \<open>asked_times\<close> the request times with which the admissions table has been asked.\<close>

record auth_call =
  call_request :: subscribe_request
  call_registered :: registered_binding
  call_guard :: admission_guard
  call_run :: verifier_run

record gate_system =
  sys_gate :: subscribe_gate
  calls :: "(nat \<times> auth_call) list"
  started :: nat
  issued :: "(subscribe_request \<times> subscription_lease) list"
  asked_times :: "int list"

datatype gate_event = Begin subscribe_request | Proceed nat | Registry registry_op

definition system_new :: "registry \<Rightarrow> gate_system" where
  "system_new reg = \<lparr>sys_gate = gate_new reg, calls = [], started = 0, issued = [], asked_times = []\<rparr>"

fun proceed :: "auth_call \<Rightarrow> nat \<Rightarrow> gate_system \<Rightarrow> gate_system" where
  "proceed c t s = (let g = sys_gate s in
     case call_run c of
       Ask cap expires k \<Rightarrow>
         (case check_and_admit cap expires (call_guard c) (admissions g) of
            (gd, adm, answer) \<Rightarrow>
              s\<lparr>sys_gate := g\<lparr>admissions := adm\<rparr>,
                calls := tput t (c\<lparr>call_guard := gd, call_run := k answer\<rparr>) (calls s),
                asked_times := g_now gd # asked_times s\<rparr>)
     | Done res \<Rightarrow>
         (case authorize_finish (call_request c) (call_registered c) (call_guard c) res g of
            (g1, out) \<Rightarrow>
              s\<lparr>sys_gate := count_decision out g1, calls := tdel t (calls s),
                issued := (case out of Inr l \<Rightarrow> (call_request c, l) # issued s | Inl _ \<Rightarrow> issued s)\<rparr>))"

fun gate_step :: "subscribe_env \<Rightarrow> verifier \<Rightarrow> gate_event \<Rightarrow> gate_system \<Rightarrow> gate_system" where
  "gate_step env vf (Begin req) s =
     (case authorize_begin env req (sys_gate s) of
        (g, Inl e) \<Rightarrow> s\<lparr>sys_gate := count_decision (Inl e) g\<rparr>
      | (g, Inr (r, gd)) \<Rightarrow>
          s\<lparr>sys_gate := g, started := Suc (started s),
            calls := tput (started s) \<lparr>call_request = req, call_registered = r, call_guard = gd,
              call_run = vf (compact_jws req) (context_of r req)\<rparr> (calls s)\<rparr>)"
| "gate_step env vf (Proceed t) s = (case map_of (calls s) t of None \<Rightarrow> s | Some c \<Rightarrow> proceed c t s)"
| "gate_step env vf (Registry op) s =
     s\<lparr>sys_gate := (sys_gate s)\<lparr>gate_registry := registry_step env op (gate_registry (sys_gate s))\<rparr>\<rparr>"

definition gate_run :: "subscribe_env \<Rightarrow> verifier \<Rightarrow> gate_event list \<Rightarrow> gate_system \<Rightarrow> gate_system" where
  "gate_run env vf evs s = fold (gate_step env vf) evs s"

end
