(* ===== verification/Subscribe_Admission.thy ===== *)
theory Subscribe_Admission
  imports Subscribe_Gate
begin

text \<open>
  Concurrent authorizations: however calls interleave, a capability is admitted for one connection. The
  invariant ties every admission the verifier was granted, and every lease issued, to the entry of the
  capability in the admissions table, until a request at or after its expiry has purged the entry.
\<close>

section \<open>Documented behaviour of the verifier\<close>

text \<open>The verifier asks the guard once, for the capability it returns and with the expiry that the signed
  claims give it, after every other check; it fails when the guard rejects.\<close>

fun run_ok :: "(string \<Rightarrow> int) \<Rightarrow> verifier_run \<Rightarrow> bool" where
  "run_ok ex (Done res) = (\<exists>e. res = Inl e)"
| "run_ok ex (Ask cap expires k) =
     (expires = ex cap \<and> (\<forall>rej. \<exists>e. k (Some rej) = Done (Inl e))
      \<and> (\<exists>res. k None = Done res \<and> (\<forall>v. res = Inr v \<longrightarrow> capability_id v = cap \<and> expires_at v = ex cap)))"

definition verifier_ok :: "verifier \<Rightarrow> (string \<Rightarrow> int) \<Rightarrow> bool" where
  "verifier_ok vf ex \<longleftrightarrow> (\<forall>jws ctx. run_ok ex (vf jws ctx))"

section \<open>The invariant\<close>

definition unexpired :: "(string \<Rightarrow> int) \<Rightarrow> gate_system \<Rightarrow> string \<Rightarrow> bool" where
  "unexpired ex s cap \<longleftrightarrow> (\<forall>t \<in> set (asked_times s). t < ex cap)"

abbreviation adm :: "gate_system \<Rightarrow> admission_table" where
  "adm s \<equiv> admissions (sys_gate s)"

text \<open>The entry of \<open>cap\<close> is committed for \<open>fp\<close>, or pending for it under the reservation \<open>rid\<close>.\<close>

definition holds :: "admission_table \<Rightarrow> string \<Rightarrow> admission_fingerprint \<Rightarrow> admission_guard \<Rightarrow> bool" where
  "holds m cap fp gd \<longleftrightarrow> (\<exists>a. map_of m cap = Some a \<and> fingerprint a = fp
     \<and> (adm_state a = Committed \<or> adm_state a = Pending (reservation_id gd) \<and> pending_capability_id gd = Some cap))"

definition committed :: "admission_table \<Rightarrow> string \<Rightarrow> admission_fingerprint \<Rightarrow> bool" where
  "committed m cap fp \<longleftrightarrow> (\<exists>a. map_of m cap = Some a \<and> fingerprint a = fp \<and> adm_state a = Committed)"

lemma committed_holds: "committed m cap fp \<Longrightarrow> holds m cap fp gd"
  by (auto simp: committed_def holds_def)

definition call_ok :: "(string \<Rightarrow> int) \<Rightarrow> gate_system \<Rightarrow> nat \<Rightarrow> auth_call \<Rightarrow> bool" where
  "call_ok ex s t c \<longleftrightarrow> t < started s \<and> reservation_id (call_guard c) = of_nat (Suc t)
     \<and> g_fingerprint (call_guard c) = fingerprint_of (call_request c)
     \<and> ((run_ok ex (call_run c) \<and> (pending_capability_id (call_guard c) = None \<or> (\<exists>e. call_run c = Done (Inl e))))
        \<or> (\<exists>v. call_run c = Done (Inr v) \<and> (unexpired ex s (capability_id v) \<longrightarrow>
             holds (adm s) (capability_id v) (fingerprint_of (call_request c)) (call_guard c))))"

text \<open>A pending entry belongs to a call; if the call is in progress, it knows.\<close>

definition owned :: "gate_system \<Rightarrow> bool" where
  "owned s \<longleftrightarrow> (\<forall>cap a r. map_of (adm s) cap = Some a \<and> adm_state a = Pending r \<longrightarrow>
     (\<exists>t < started s. r = of_nat (Suc t)
        \<and> (\<forall>c. map_of (calls s) t = Some c \<longrightarrow> pending_capability_id (call_guard c) = Some cap)))"

definition sys_inv :: "(string \<Rightarrow> int) \<Rightarrow> gate_system \<Rightarrow> bool" where
  "sys_inv ex s \<longleftrightarrow> table_ok (calls s) \<and> table_ok (adm s) \<and> next_reservation_id (sys_gate s) = of_nat (Suc (started s))
     \<and> (\<forall>cap a. map_of (adm s) cap = Some a \<longrightarrow> adm_expires_at a = ex cap)
     \<and> (\<forall>t c. map_of (calls s) t = Some c \<longrightarrow> call_ok ex s t c)
     \<and> (\<forall>(req, l) \<in> set (issued s). unexpired ex s (lease_capability_id l) \<longrightarrow>
          committed (adm s) (lease_capability_id l) (fingerprint_of req))
     \<and> owned s"

lemma sys_invD:
  assumes "sys_inv ex s"
  shows "table_ok (calls s)" "table_ok (adm s)" "next_reservation_id (sys_gate s) = of_nat (Suc (started s))"
    "map_of (adm s) cap = Some a \<Longrightarrow> adm_expires_at a = ex cap"
    "map_of (calls s) t = Some c \<Longrightarrow> call_ok ex s t c"
    "(req, l) \<in> set (issued s) \<Longrightarrow> unexpired ex s (lease_capability_id l) \<Longrightarrow>
       committed (adm s) (lease_capability_id l) (fingerprint_of req)" "owned s"
  using assms unfolding sys_inv_def by blast+

lemma reservation_distinct:
  assumes "Suc i < 2 ^ 64" "Suc j < 2 ^ 64" and "(of_nat (Suc i) :: u64) = of_nat (Suc j)"
  shows "i = j"
proof -
  have u: "unat (of_nat n :: u64) = n" if "n < 2 ^ 64" for n
    using that by (simp add: unat_of_nat take_bit_nat_eq_self del: of_nat_Suc)
  show ?thesis using u [OF assms(1)] u [OF assms(2)] assms(3) by (metis nat.inject)
qed

section \<open>The guard\<close>

text \<open>What a question keeps of other entries, and what its answer means.\<close>

lemma check_and_admit_table_ok:
  "table_ok m \<Longrightarrow> check_and_admit cap x g m = (g', m', ans) \<Longrightarrow> table_ok m'"
  by (auto simp: check_and_admit_def Let_def bt.table_ok_put split: if_splits option.splits)

lemma check_and_admit_expiry:
  assumes "table_ok m" and "\<And>c a. map_of m c = Some a \<Longrightarrow> adm_expires_at a = ex c"
    and "check_and_admit cap (ex cap) g m = (g', m', ans)" and "map_of m' c = Some a"
  shows "adm_expires_at a = ex c"
  using assms
  by (auto simp: check_and_admit_def Let_def bt.map_of_put map_of_retain split: if_splits option.splits)

lemma check_and_admit_guard:
  "check_and_admit cap x g m = (g', m', ans) \<Longrightarrow> reservation_id g' = reservation_id g
     \<and> g_fingerprint g' = g_fingerprint g \<and> g_now g' = g_now g
     \<and> (ans \<noteq> None \<longrightarrow> pending_capability_id g' = pending_capability_id g)"
  by (auto simp: check_and_admit_def Let_def split: if_splits option.splits)

text \<open>An entry that is not expired at the time of the question keeps its fingerprint and state.\<close>

lemma check_and_admit_keeps:
  assumes "table_ok m" and "check_and_admit cap x g m = (g', m', ans)"
    and "map_of m c = Some a" and "g_now g < adm_expires_at a"
  shows "\<exists>a'. map_of m' c = Some a' \<and> fingerprint a' = fingerprint a \<and> adm_state a' = adm_state a"
  using assms
  by (auto simp: check_and_admit_def Let_def bt.map_of_put map_of_retain split: if_splits option.splits)

text \<open>A granted question leaves the entry committed or pending for the guard. The guard must not already
  hold a pending entry whose reservation it shares with the table, which \<open>fresh\<close> excludes.\<close>

lemma check_and_admit_grants:
  assumes "table_ok m" and "check_and_admit cap x g m = (g', m', None)"
    and fresh: "\<And>a. map_of m cap = Some a \<Longrightarrow> adm_state a \<noteq> Pending (reservation_id g)"
  shows "holds m' cap (g_fingerprint g) g'"
  using assms
  by (auto simp: check_and_admit_def Let_def holds_def bt.map_of_put map_of_retain split: if_splits option.splits)

section \<open>Steps\<close>

text \<open>How \<open>call_ok\<close> depends on the rest of the state: on what the admissions table holds for its capability.\<close>

lemma call_ok_transfer:
  assumes "call_ok ex s t c" and "started s \<le> started s'"
    and "\<And>v. call_run c = Done (Inr v) \<Longrightarrow> unexpired ex s' (capability_id v) \<Longrightarrow> unexpired ex s (capability_id v)
      \<and> (holds (adm s) (capability_id v) (fingerprint_of (call_request c)) (call_guard c) \<longrightarrow>
         holds (adm s') (capability_id v) (fingerprint_of (call_request c)) (call_guard c))"
  shows "call_ok ex s' t c"
proof (cases "\<exists>v. call_run c = Done (Inr v)")
  case True
  then obtain v where v: "call_run c = Done (Inr v)" by blast
  have "unexpired ex s (capability_id v) \<longrightarrow> holds (adm s) (capability_id v) (fingerprint_of (call_request c)) (call_guard c)"
    using assms(1) v by (auto simp: call_ok_def)
  then have "unexpired ex s' (capability_id v) \<longrightarrow> holds (adm s') (capability_id v) (fingerprint_of (call_request c)) (call_guard c)"
    using assms(3) [OF v] by blast
  then show ?thesis using assms(1,2) v by (auto simp: call_ok_def)
next
  case False
  then show ?thesis using assms(1,2) by (auto simp: call_ok_def)
qed

lemma holds_mono:
  assumes "holds m cap fp gd"
    and "\<And>a. map_of m cap = Some a \<Longrightarrow> \<exists>a'. map_of m' cap = Some a' \<and> fingerprint a' = fingerprint a
      \<and> (adm_state a' = adm_state a \<or> adm_state a' = Committed)"
  shows "holds m' cap fp gd"
proof -
  obtain a where a: "map_of m cap = Some a" "fingerprint a = fp"
    "adm_state a = Committed \<or> adm_state a = Pending (reservation_id gd) \<and> pending_capability_id gd = Some cap"
    using assms(1) by (auto simp: holds_def)
  obtain a' where "map_of m' cap = Some a'" "fingerprint a' = fingerprint a"
    "adm_state a' = adm_state a \<or> adm_state a' = Committed" using assms(2) [OF a(1)] by blast
  then show ?thesis using a unfolding holds_def by metis
qed

lemma committed_mono:
  assumes "committed m cap fp"
    and "\<And>a. map_of m cap = Some a \<Longrightarrow> \<exists>a'. map_of m' cap = Some a' \<and> fingerprint a' = fingerprint a
      \<and> (adm_state a' = adm_state a \<or> adm_state a' = Committed)"
  shows "committed m' cap fp"
  using assms unfolding committed_def by metis

lemma sys_inv_registry:
  "sys_inv ex (s\<lparr>sys_gate := (sys_gate s)\<lparr>gate_registry := x\<rparr>\<rparr>) = sys_inv ex s"
  unfolding sys_inv_def call_ok_def unexpired_def owned_def by simp

lemma count_decision_simps [simp]:
  "admissions (count_decision res g) = admissions g" "next_reservation_id (count_decision res g) = next_reservation_id g"
  "gate_registry (count_decision res g) = gate_registry g"
  by (simp_all add: count_decision_def record_rejection_def Let_def split: sum.splits)

lemma sys_inv_count: "sys_inv ex (s\<lparr>sys_gate := count_decision res g\<rparr>) = sys_inv ex (s\<lparr>sys_gate := g\<rparr>)"
  unfolding sys_inv_def call_ok_def unexpired_def owned_def by simp

lemma sys_inv_begin:
  assumes vf: "verifier_ok vf ex" and inv: "sys_inv ex s"
  shows "sys_inv ex (gate_step env vf (Begin req) s)"
proof (cases "snd (authorize_begin env req (sys_gate s))")
  case (Inl e)
  then have "authorize_begin env req (sys_gate s) = (sys_gate s, Inl e)"
    by (auto simp: authorize_begin_def split: option.splits sum.splits)
  moreover have "sys_inv ex (s\<lparr>sys_gate := sys_gate s\<rparr>)" using inv by simp
  ultimately show ?thesis by (simp add: sys_inv_count)
next
  case (Inr p)
  let ?g = "(sys_gate s)\<lparr>next_reservation_id := next_reservation_id (sys_gate s) + 1\<rparr>"
  obtain r gd where b: "authorize_begin env req (sys_gate s) = (?g, Inr (r, gd))"
    and gd: "g_fingerprint gd = fingerprint_of req" "reservation_id gd = next_reservation_id (sys_gate s)"
      "pending_capability_id gd = None"
    using Inr by (auto simp: authorize_begin_def split: option.splits sum.splits)
  define c where "c = \<lparr>call_request = req, call_registered = r, call_guard = gd,
    call_run = vf (compact_jws req) (context_of r req)\<rparr>"
  define s' where "s' = s\<lparr>sys_gate := ?g, started := Suc (started s), calls := tput (started s) c (calls s)\<rparr>"
  note I = sys_invD [OF inv]
  have step: "gate_step env vf (Begin req) s = s'" by (simp add: b s'_def c_def)
  have un: "unexpired ex s' = unexpired ex s" by (rule ext) (simp add: unexpired_def s'_def)
  have new: "call_ok ex s' (started s) c"
    using vf gd I(3) by (simp add: call_ok_def c_def verifier_ok_def s'_def)
  have old: "call_ok ex s' t c'" if "map_of (calls s) t = Some c'" for t c'
    by (rule call_ok_transfer [OF I(5) [OF that]]) (simp_all add: s'_def unexpired_def)
  have "map_of (calls s') t = Some c' \<Longrightarrow> call_ok ex s' t c'" for t c'
    using new old I(1) by (auto simp: s'_def ht.map_of_put split: if_splits)
  moreover have "owned s'"
    using I(1,7) unfolding owned_def by (auto simp: s'_def ht.map_of_put) (metis less_SucI less_irrefl)
  ultimately show ?thesis
    using inv unfolding step by (auto simp: sys_inv_def s'_def ht.table_ok_put unexpired_def)
qed

text \<open>Reservations are distinct while the counter has not wrapped around, so a pending entry with the
  reservation of a call is the one the call has noted.\<close>

lemma own_pending:
  assumes own: "owned s" and c: "map_of (calls s) t = Some c" and cok: "call_ok ex s t c" and room: "started s < 2 ^ 64"
    and a: "map_of (adm s) cap = Some a" "adm_state a = Pending (reservation_id (call_guard c))"
  shows "pending_capability_id (call_guard c) = Some cap"
proof -
  obtain t' where t': "t' < started s" "reservation_id (call_guard c) = of_nat (Suc t')"
    "\<And>d. map_of (calls s) t' = Some d \<Longrightarrow> pending_capability_id (call_guard d) = Some cap"
    using own a unfolding owned_def by blast
  have t: "t < started s" "reservation_id (call_guard c) = of_nat (Suc t)" using cok by (simp_all add: call_ok_def)
  have "t' = t" by (rule reservation_distinct) (use t t' room in auto)
  then show ?thesis using t'(3) c by blast
qed

lemma ask_self:
  assumes cok: "call_ok ex s t c" and run: "call_run c = Ask cap x k"
    and q: "check_and_admit cap x (call_guard c) (adm s) = (gd, m, ans)" and ok: "table_ok (adm s)"
    and own: "owned s" "map_of (calls s) t = Some c" and room: "started s < 2 ^ 64"
    and s': "adm s' = m" "started s' = started s" and c': "c' = c\<lparr>call_guard := gd, call_run := k ans\<rparr>"
  shows "call_ok ex s' t c'"
proof -
  have ro: "run_ok ex (Ask cap x k)" and none: "pending_capability_id (call_guard c) = None"
    using cok run by (auto simp: call_ok_def)
  note G = check_and_admit_guard [OF q]
  have base: "t < started s'" "reservation_id gd = of_nat (Suc t)" "g_fingerprint gd = fingerprint_of (call_request c)"
    using cok G s' by (simp_all add: call_ok_def)
  show ?thesis
  proof (cases "\<exists>e. k ans = Done (Inl e)")
    case True
    then show ?thesis using base by (auto simp: call_ok_def c')
  next
    case False
    then have "ans = None" using ro by (cases ans) auto
    then obtain v where v: "k ans = Done (Inr v)" "capability_id v = cap"
      using ro False by (metis old.sum.exhaust run_ok.simps(2))
    have "adm_state a \<noteq> Pending (reservation_id (call_guard c))" if "map_of (adm s) cap = Some a" for a
      using own_pending [OF own(1) own(2) cok room that] none by auto
    then have "holds m cap (fingerprint_of (call_request c)) gd"
      using check_and_admit_grants [OF ok q [unfolded \<open>ans = None\<close>]] cok by (auto simp: call_ok_def)
    then show ?thesis using base v s' by (simp add: call_ok_def c')
  qed
qed

lemma check_and_admit_pending:
  assumes "table_ok m" and "check_and_admit cap x g m = (g', m', ans)" and "map_of m' d = Some a" "adm_state a = Pending r"
  shows "(\<exists>b. map_of m d = Some b \<and> adm_state b = Pending r)
    \<or> (d = cap \<and> r = reservation_id g \<and> pending_capability_id g' = Some cap)"
  using assms
  by (auto simp: check_and_admit_def Let_def bt.map_of_put map_of_retain split: if_splits option.splits)

lemma ask_owned:
  assumes own: "owned s" and c: "map_of (calls s) t = Some c" and none: "pending_capability_id (call_guard c) = None"
    and cok: "call_ok ex s t c" and q: "check_and_admit cap x (call_guard c) (adm s) = (gd, m, ans)" and ok: "table_ok (adm s)"
    and s': "adm s' = m" "started s' = started s" "calls s' = tput t c' (calls s)" "call_guard c' = gd" "table_ok (calls s)"
  shows "owned s'"
  unfolding owned_def
proof (intro allI impI)
  fix d a r
  assume a: "map_of (adm s') d = Some a \<and> adm_state a = Pending r"
  then consider b where "map_of (adm s) d = Some b" "adm_state b = Pending r"
    | "d = cap" "r = reservation_id (call_guard c)" "pending_capability_id gd = Some cap"
    using check_and_admit_pending [OF ok q] s'(1) by blast
  then show "\<exists>t < started s'. r = of_nat (Suc t)
      \<and> (\<forall>c. map_of (calls s') t = Some c \<longrightarrow> pending_capability_id (call_guard c) = Some d)"
  proof cases
    case (1 b)
    then obtain t' where t': "t' < started s" "r = of_nat (Suc t')"
      "\<And>e. map_of (calls s) t' = Some e \<Longrightarrow> pending_capability_id (call_guard e) = Some d"
      using own unfolding owned_def by blast
    then have "t' \<noteq> t" using c none by auto
    then show ?thesis using t' s' by (auto simp: ht.map_of_put)
  next
    case 2
    then show ?thesis using cok s' by (auto simp: call_ok_def ht.map_of_put)
  qed
qed

lemma sys_inv_ask:
  assumes inv: "sys_inv ex s" and c: "map_of (calls s) t = Some c" and run: "call_run c = Ask cap x k"
    and room: "started s < 2 ^ 64"
  shows "sys_inv ex (proceed c t s)"
proof -
  note I = sys_invD [OF inv]
  have cok: "call_ok ex s t c" by (rule I(5) [OF c])
  then have ro: "run_ok ex (Ask cap x k)" and none: "pending_capability_id (call_guard c) = None"
    using run by (auto simp: call_ok_def)
  then have x: "x = ex cap" by simp
  obtain gd m ans where q: "check_and_admit cap x (call_guard c) (adm s) = (gd, m, ans)" by (metis prod_cases3)
  note G = check_and_admit_guard [OF q]
  define c' where "c' = c\<lparr>call_guard := gd, call_run := k ans\<rparr>"
  define s' where "s' = s\<lparr>sys_gate := (sys_gate s)\<lparr>admissions := m\<rparr>, calls := tput t c' (calls s),
    asked_times := g_now gd # asked_times s\<rparr>"
  have step: "proceed c t s = s'" by (simp add: run q s'_def c'_def)
  have un: "unexpired ex s' d \<Longrightarrow> unexpired ex s d \<and> g_now (call_guard c) < ex d" for d
    using G by (simp add: unexpired_def s'_def)
  have keep: "\<exists>a'. map_of m d = Some a' \<and> fingerprint a' = fingerprint a
      \<and> (adm_state a' = adm_state a \<or> adm_state a' = Committed)"
    if "unexpired ex s' d" "map_of (adm s) d = Some a" for d a
    using check_and_admit_keeps [OF I(2) q that(2)] un [OF that(1)] I(4) [OF that(2)] by auto
  have others: "call_ok ex s' t' b" if "map_of (calls s) t' = Some b" for t' b
  proof (rule call_ok_transfer [OF I(5) [OF that]])
    show "started s \<le> started s'" by (simp add: s'_def)
    fix v
    assume u: "unexpired ex s' (capability_id v)"
    have "holds (adm s) (capability_id v) (fingerprint_of (call_request b)) (call_guard b) \<Longrightarrow>
        holds (adm s') (capability_id v) (fingerprint_of (call_request b)) (call_guard b)"
      using holds_mono keep [OF u] by (auto simp: s'_def)
    then show "unexpired ex s (capability_id v) \<and> (holds (adm s) (capability_id v) (fingerprint_of (call_request b)) (call_guard b) \<longrightarrow>
        holds (adm s') (capability_id v) (fingerprint_of (call_request b)) (call_guard b))" using un [OF u] by blast
  qed
  have self: "call_ok ex s' t c'"
    by (rule ask_self [OF cok run q I(2) I(7) c room]) (simp_all add: c'_def s'_def)
  have calls': "call_ok ex s' t' b" if "map_of (calls s') t' = Some b" for t' b
    using that self others I(1) by (auto simp: s'_def ht.map_of_put split: if_splits)
  have exp': "adm_expires_at a = ex d" if "map_of m d = Some a" for d a
    using check_and_admit_expiry [of "adm s" ex cap "call_guard c" gd m ans d a] I(2,4) q x that by blast
  have "committed m (lease_capability_id l) (fingerprint_of req)"
    if "(req, l) \<in> set (issued s)" "unexpired ex s' (lease_capability_id l)" for req l
    using committed_mono [OF I(6) [OF that(1)]] un [OF that(2)] keep [OF that(2)] by blast
  moreover have "owned s'" by (rule ask_owned [OF I(7) c none cok q I(2), where c' = c']) (simp_all add: s'_def c'_def I(1))
  ultimately show ?thesis
    using inv calls' exp' check_and_admit_table_ok [OF I(2) q] unfolding step sys_inv_def
    by (auto simp: s'_def ht.table_ok_put)
qed

text \<open>Finishing a call: the commit and the rollback touch only the pending entry of the call.\<close>

lemma guard_commit_lookup:
  assumes "table_ok m"
  shows "table_ok (snd (guard_commit gd m))"
    "map_of (snd (guard_commit gd m)) d = (case map_of m d of None \<Rightarrow> None | Some a \<Rightarrow>
       if pending_capability_id gd = Some d \<and> adm_state a = Pending (reservation_id gd)
       then Some (a\<lparr>adm_state := Committed\<rparr>) else Some a)"
  using assms by (auto simp: guard_commit_def bt.table_ok_put bt.map_of_put split: option.splits)

lemma guard_rollback_lookup:
  assumes "table_ok m"
  shows "table_ok (snd (guard_rollback gd m))"
    "map_of (snd (guard_rollback gd m)) d = (case map_of m d of None \<Rightarrow> None | Some a \<Rightarrow>
       if pending_capability_id gd = Some d \<and> adm_state a = Pending (reservation_id gd) then None else Some a)"
  using assms by (auto simp: guard_rollback_def split: option.splits)

text \<open>Both at once: entries of other calls keep fingerprint and state.\<close>

lemma finish_others:
  assumes own: "owned s" and c: "map_of (calls s) t = Some c" and cok: "call_ok ex s t c"
    and b: "map_of (calls s) t' = Some b" "t' \<noteq> t" "call_ok ex s t' b" and room: "started s < 2 ^ 64"
    and h: "holds (adm s) cap fp (call_guard b)" and ok: "table_ok (adm s)"
    and m: "m = snd (guard_commit (call_guard c) (adm s)) \<or> m = snd (guard_rollback (call_guard c) (adm s))"
  shows "holds m cap fp (call_guard b)"
proof -
  obtain a where a: "map_of (adm s) cap = Some a" "fingerprint a = fp"
    "adm_state a = Committed \<or> adm_state a = Pending (reservation_id (call_guard b)) \<and> pending_capability_id (call_guard b) = Some cap"
    using h by (auto simp: holds_def)
  have "reservation_id (call_guard b) \<noteq> reservation_id (call_guard c)"
    using reservation_distinct [of t' t] b(2,3) cok room by (auto simp: call_ok_def simp del: of_nat_Suc)
  then have "adm_state a \<noteq> Pending (reservation_id (call_guard c))" using a(3) by auto
  then have "map_of m cap = Some a" using m guard_commit_lookup(2) [OF ok] guard_rollback_lookup(2) [OF ok] a(1) by auto
  then show ?thesis using a(2,3) by (auto simp: holds_def)
qed

lemma finish_committed:
  assumes h: "committed m0 cap fp" and ok: "table_ok m0"
    and m: "m = snd (guard_commit gd m0) \<or> m = snd (guard_rollback gd m0)"
  shows "committed m cap fp"
  using h m guard_commit_lookup(2) [OF ok] guard_rollback_lookup(2) [OF ok] by (auto simp: committed_def)

lemma finish_entry:
  assumes ok: "table_ok m0" and m: "m = snd (guard_commit gd m0) \<or> m = snd (guard_rollback gd m0)"
    and a: "map_of m d = Some a"
  shows "\<exists>a0. map_of m0 d = Some a0 \<and> adm_expires_at a = adm_expires_at a0 \<and> (adm_state a = Committed \<or> a = a0)"
  using assms guard_commit_lookup(2) [OF ok, of gd d] guard_rollback_lookup(2) [OF ok, of gd d]
  by (auto split: option.splits if_splits)

lemma holds_commit: "table_ok m \<Longrightarrow> holds m cap fp gd \<Longrightarrow> committed (snd (guard_commit gd m)) cap fp"
  by (auto simp: holds_def committed_def guard_commit_lookup(2))

lemma sys_inv_finish:
  assumes inv: "sys_inv ex s" and c: "map_of (calls s) t = Some c" and run: "call_run c = Done res"
    and room: "started s < 2 ^ 64"
  shows "sys_inv ex (proceed c t s)"
proof -
  note I = sys_invD [OF inv]
  have cok: "call_ok ex s t c" by (rule I(5) [OF c])
  obtain g out where f: "authorize_finish (call_request c) (call_registered c) (call_guard c) res (sys_gate s) = (g, out)"
    by (metis surj_pair)
  define m where "m = admissions g"
  have g: "g = (sys_gate s)\<lparr>admissions := m\<rparr>"
    and m: "m = snd (guard_commit (call_guard c) (adm s)) \<or> m = snd (guard_rollback (call_guard c) (adm s))"
    using f by (auto simp: authorize_finish_def m_def split: sum.splits)
  define s' where "s' = s\<lparr>sys_gate := count_decision out g, calls := tdel t (calls s),
    issued := (case out of Inr l \<Rightarrow> (call_request c, l) # issued s | Inl _ \<Rightarrow> issued s)\<rparr>"
  have step: "proceed c t s = s'" by (simp add: run f s'_def)
  have un: "unexpired ex s' = unexpired ex s" by (rule ext) (simp add: unexpired_def s'_def)
  have adm': "adm s' = m" "started s' = started s" "next_reservation_id (sys_gate s') = next_reservation_id (sys_gate s)"
    by (simp_all add: s'_def g)
  have tm: "table_ok m" using m guard_commit_lookup(1) [OF I(2)] guard_rollback_lookup(1) [OF I(2)] by auto
  have calls': "call_ok ex s' t' b" if "map_of (calls s') t' = Some b" for t' b
  proof -
    have b: "map_of (calls s) t' = Some b" "t' \<noteq> t" using that by (auto simp: s'_def split: if_splits)
    show ?thesis
      by (rule call_ok_transfer [OF I(5) [OF b(1)]])
        (use finish_others [OF I(7) c cok b I(5) [OF b(1)] room _ I(2) m] in \<open>simp_all add: un adm'\<close>)
  qed
  have exp': "adm_expires_at a = ex d" if "map_of m d = Some a" for d a
    using finish_entry [OF I(2) m that] I(4) by metis
  have own': "owned s'"
    unfolding owned_def
  proof (intro allI impI)
    fix d a r
    assume "map_of (adm s') d = Some a \<and> adm_state a = Pending r"
    then have "map_of (adm s) d = Some a \<and> adm_state a = Pending r" using finish_entry [OF I(2) m, of d a] by (auto simp: adm')
    then obtain t' where "t' < started s" "r = of_nat (Suc t')"
      "\<And>e. map_of (calls s) t' = Some e \<Longrightarrow> pending_capability_id (call_guard e) = Some d"
      using I(7) unfolding owned_def by blast
    then show "\<exists>t < started s'. r = of_nat (Suc t)
        \<and> (\<forall>c. map_of (calls s') t = Some c \<longrightarrow> pending_capability_id (call_guard c) = Some d)"
      by (intro exI [of _ t']) (auto simp: s'_def split: if_splits)
  qed
  have old: "committed m (lease_capability_id l) (fingerprint_of req)"
    if "(req, l) \<in> set (issued s)" "unexpired ex s (lease_capability_id l)" for req l
    by (rule finish_committed [OF I(6) [OF that] I(2) m])
  have new: "committed m (lease_capability_id l) (fingerprint_of (call_request c))"
    if out: "out = Inr l" and u: "unexpired ex s (lease_capability_id l)" for l
  proof -
    obtain v where v: "check_verified (call_request c) res = Inr v"
      using f out by (auto simp: authorize_finish_def split: sum.splits)
    then have "res = Inr v"
      by (auto simp: check_verified_def split: sum.splits if_splits option.splits)
    moreover have mc: "m = snd (guard_commit (call_guard c) (adm s))" "l = lease_of (call_registered c) (call_request c) v"
      using f out v by (auto simp: authorize_finish_def m_def)
    ultimately have "holds (adm s) (capability_id v) (fingerprint_of (call_request c)) (call_guard c)"
      using cok run u by (auto simp: call_ok_def lease_of_def)
    then show ?thesis using holds_commit [OF I(2)] mc by (simp add: lease_of_def)
  qed
  have "\<forall>(req, l) \<in> set (issued s'). unexpired ex s' (lease_capability_id l) \<longrightarrow>
      committed (adm s') (lease_capability_id l) (fingerprint_of req)"
    using old new unfolding un adm'(1) by (auto simp: s'_def split: sum.splits)
  then show ?thesis
    using I(1,3) tm calls' exp' own' unfolding step sys_inv_def adm' by (auto simp: s'_def)
qed

lemma gate_step_started: "started s \<le> started (gate_step env vf ev s)"
  by (cases ev) (auto simp: Let_def split: prod.splits sum.splits option.splits verifier_run.splits)

lemma sys_inv_step:
  assumes "verifier_ok vf ex" and "sys_inv ex s" and "started s < 2 ^ 64"
  shows "sys_inv ex (gate_step env vf ev s)"
proof (cases ev)
  case (Begin req)
  then show ?thesis using sys_inv_begin [OF assms(1,2)] by simp
next
  case (Registry op)
  then show ?thesis using assms(2) by (simp add: sys_inv_registry)
next
  case (Proceed t)
  show ?thesis
  proof (cases "map_of (calls s) t")
    case None
    then show ?thesis using Proceed assms(2) by simp
  next
    case (Some c)
    then show ?thesis
      using Proceed sys_inv_ask [OF assms(2) Some _ assms(3)] sys_inv_finish [OF assms(2) Some _ assms(3)]
      by (cases "call_run c") (simp_all del: proceed.simps)
  qed
qed

lemma gate_run_started: "started s \<le> started (gate_run env vf evs s)"
proof (induction evs arbitrary: s)
  case Nil
  then show ?case by (simp add: gate_run_def)
next
  case (Cons ev evs)
  show ?case using Cons.IH [of "gate_step env vf ev s"] gate_step_started [of s env vf ev]
    by (simp add: gate_run_def)
qed

lemma sys_inv_run:
  "verifier_ok vf ex \<Longrightarrow> sys_inv ex s \<Longrightarrow> started (gate_run env vf evs s) < 2 ^ 64 \<Longrightarrow> sys_inv ex (gate_run env vf evs s)"
proof (induction evs arbitrary: s)
  case Nil
  then show ?case by (simp add: gate_run_def)
next
  case (Cons ev evs)
  have "started s < 2 ^ 64" using gate_run_started [of s env vf "ev # evs"] Cons.prems(3) by simp
  then have "sys_inv ex (gate_step env vf ev s)" using sys_inv_step [OF Cons.prems(1,2)] by blast
  then show ?case using Cons.IH [OF Cons.prems(1)] Cons.prems(3) by (simp add: gate_run_def)
qed

lemma sys_inv_new: "sys_inv ex (system_new reg)"
  by (simp add: sys_inv_def system_new_def gate_new_def owned_def)

end
