(* ===== verification/Subscribe_Catalog.thy ===== *)
theory Subscribe_Catalog
  imports Subscribe_Gate
begin

text \<open>
  Catalogue entries, the partitioned catalogue and the delivery buffer of
  \<open>src/src/subscribe_authorization.rs\<close>. Objects, configurations and envelopes are types of the
  \<open>media_object\<close> crate: records of the values their accessors return, with a field for the rest, of which
  the code only asks equality. Object keys are an ordered type \<open>'k\<close>; their accessors, the JSON codecs, the
  payload hash, and the constructors of the relay types are fields of \<open>object_lib\<close>. Slice search is a field
  as well, because its result on an unsorted slice is not specified.
\<close>

section \<open>Data\<close>

datatype catalog_lane = ProgramLane | TalkbackLane

record object_deadline =
  clock_id :: string
  confidence_unknown :: bool
  unix_time_ns :: int

record ('k, 'x) media_object =
  mo_key :: 'k
  mo_is_media :: bool
  payload :: "u8 list"
  is_keyframe :: bool
  has_capture_timestamp :: bool
  stage_timestamps_empty :: bool
  dependencies_empty :: bool
  metadata :: "(string \<times> u8 list) list"
  object_configuration_epoch :: nat
  deadline :: "object_deadline option"
  mo_rest :: 'x

record media_identity =
  mi_tenant_id :: string
  mi_session_id :: string
  mi_session_epoch :: nat
  mi_topology_generation :: nat
  mi_media_class :: media_class
  mi_source_id :: "string option"
  mi_audience_id :: "string option"

record 'x frame_configuration =
  fc_identity :: media_identity
  configuration_id :: string
  channel_count :: nat
  capture_timebase_hz :: nat
  fc_rest :: 'x

record 'x frame_envelope =
  fe_binding_generation :: nat
  configuration_ref :: nat
  fe_sequence :: nat
  fe_configuration_epoch :: nat
  payload_bytes :: nat
  duration_ticks :: nat
  fe_rest :: 'x

record ('k, 'x, 'g, 's) object_lib =
  key_tenant :: "'k \<Rightarrow> string"
  key_stream :: "'k \<Rightarrow> string"
  key_track :: "'k \<Rightarrow> string"
  key_epoch :: "'k \<Rightarrow> nat"
  key_group :: "'k \<Rightarrow> nat"
  key_object :: "'k \<Rightarrow> nat"
  key_version :: "'k \<Rightarrow> nat"
  verify_payload_hash :: "('k, 'x) media_object \<Rightarrow> bool"
  configuration_from_json :: "u8 list \<Rightarrow> 'x frame_configuration option"
  configuration_to_json :: "'x frame_configuration \<Rightarrow> u8 list option"
  envelope_from_json :: "u8 list \<Rightarrow> 'x frame_envelope option"
  envelope_to_json :: "'x frame_envelope \<Rightarrow> u8 list option"
  envelope_resolves :: "'x frame_envelope \<Rightarrow> 'x frame_configuration \<Rightarrow> bool"
  binary_search_found :: "string list \<Rightarrow> string \<Rightarrow> bool"
  topology_generation_new :: "nat \<Rightarrow> 'g option"
  subscription_scope_new :: "string \<Rightarrow> string \<Rightarrow> string option \<Rightarrow> 's option"

record ('k, 'x) catalog_entry =
  ce_object :: "('k, 'x) media_object"
  configuration :: "'x frame_configuration"
  envelope :: "'x frame_envelope"
  lane :: catalog_lane

section \<open>Canonical entries\<close>

text \<open>\<open>b''v1''\<close>, \<open>b''publish''\<close>: the bytes of a literal.\<close>

definition bytes_of :: "string \<Rightarrow> u8 list" where
  "bytes_of s = map of_char s"

definition CONTRACT_METADATA :: string where
  "CONTRACT_METADATA = ''media-control-contract''"
definition OPERATION_METADATA :: string where
  "OPERATION_METADATA = ''media-operation-v1''"
definition CONFIGURATION_METADATA :: string where
  "CONFIGURATION_METADATA = ''media-frame-configuration-v1''"
definition ENVELOPE_METADATA :: string where
  "ENVELOPE_METADATA = ''media-frame-envelope-v1''"

definition malformed_object :: "('k, 'x, 'g, 's) object_lib \<Rightarrow> ('k, 'x) media_object \<Rightarrow> bool" where
  "malformed_object lib ob \<longleftrightarrow> \<not> mo_is_media ob \<or> \<not> verify_payload_hash lib ob \<or> is_keyframe ob
     \<or> has_capture_timestamp ob \<or> \<not> stage_timestamps_empty ob \<or> \<not> dependencies_empty ob \<or> length (metadata ob) \<noteq> 4"

definition identity_mismatch ::
  "('k, 'x, 'g, 's) object_lib \<Rightarrow> ('k, 'x) media_object \<Rightarrow> 'x frame_configuration \<Rightarrow> 'x frame_envelope \<Rightarrow> bool" where
  "identity_mismatch lib ob c e \<longleftrightarrow>
     (let k = mo_key ob; i = fc_identity c in
      key_tenant lib k \<noteq> mi_tenant_id i \<or> key_track lib k \<noteq> configuration_id c
      \<or> key_epoch lib k \<noteq> fe_binding_generation e \<or> key_group lib k \<noteq> configuration_ref e
      \<or> key_object lib k \<noteq> fe_sequence e \<or> key_version lib k \<noteq> 1
      \<or> object_configuration_epoch ob \<noteq> fe_configuration_epoch e \<or> length (payload ob) \<noteq> payload_bytes e
      \<or> deadline ob = None
      \<or> (case deadline ob of None \<Rightarrow> False
         | Some d \<Rightarrow> clock_id d \<noteq> ''media-capability:issuer'' \<or> \<not> confidence_unknown d)
      \<or> mi_media_class i = TakeChunk)"

definition canonical_mismatch ::
  "('k, 'x, 'g, 's) object_lib \<Rightarrow> 'x frame_configuration \<Rightarrow> u8 list \<Rightarrow> 'x frame_envelope \<Rightarrow> u8 list \<Rightarrow> bool" where
  "canonical_mismatch lib c cb e eb \<longleftrightarrow>
     configuration_to_json lib c \<noteq> Some cb \<or> envelope_to_json lib e \<noteq> Some eb \<or> \<not> envelope_resolves lib e c"

definition from_media_object ::
  "('k, 'x, 'g, 's) object_lib \<Rightarrow> ('k, 'x) media_object \<Rightarrow> (('k, 'x) catalog_entry, edge_error) result" where
  "from_media_object lib ob =
     (let md = map_of (metadata ob) in
      if malformed_object lib ob then edge_err MalformedObject ''media_object''
      else if md CONTRACT_METADATA \<noteq> Some (bytes_of ''v1'') \<or> md OPERATION_METADATA \<noteq> Some (bytes_of ''publish'')
      then edge_err MalformedObject ''media_operation''
      else case md CONFIGURATION_METADATA of
        None \<Rightarrow> edge_err MalformedObject ''configuration''
      | Some cb \<Rightarrow>
       (case md ENVELOPE_METADATA of
          None \<Rightarrow> edge_err MalformedObject ''frame_envelope''
        | Some eb \<Rightarrow>
         (case configuration_from_json lib cb of
            None \<Rightarrow> edge_err MalformedObject ''configuration''
          | Some c \<Rightarrow>
           (case envelope_from_json lib eb of
              None \<Rightarrow> edge_err MalformedObject ''frame_envelope''
            | Some e \<Rightarrow>
                if canonical_mismatch lib c cb e eb then edge_err NonCanonicalObject ''media_control_metadata''
                else if identity_mismatch lib ob c e then edge_err NonCanonicalObject ''canonical_identity''
                else if mi_media_class (fc_identity c) = Talkback
                then edge_err CatalogLaneMismatch ''ephemeral_talkback_lane''
                else Inr \<lparr>ce_object = ob, configuration = c, envelope = e, lane = ProgramLane\<rparr>))))"

definition u128_max :: nat where
  "u128_max = 2 ^ 128 - 1"

definition sat_mul128 :: "nat \<Rightarrow> nat \<Rightarrow> nat" where
  "sat_mul128 a b = min (a * b) u128_max"

text \<open>\<open>i64::checked_mul\<close>.\<close>

definition checked_mul_i64 :: "int \<Rightarrow> int \<Rightarrow> int option" where
  "checked_mul_i64 a b = (if - (2 ^ 63) \<le> a * b \<and> a * b < 2 ^ 63 then Some (a * b) else None)"

definition scope_mismatch :: "('k, 'x) catalog_entry \<Rightarrow> subscription_lease \<Rightarrow> bool" where
  "scope_mismatch e l \<longleftrightarrow>
     (let i = fc_identity (configuration e); b = lease_binding l in
      mi_tenant_id i \<noteq> tenant_id b \<or> mi_session_id i \<noteq> session_id b \<or> mi_session_epoch i \<noteq> session_epoch b
      \<or> mi_topology_generation i \<noteq> topology_generation b \<or> mi_media_class i \<noteq> media_class b)"

definition selector_error ::
  "('k, 'x, 'g, 's) object_lib \<Rightarrow> ('k, 'x) catalog_entry \<Rightarrow> subscription_lease \<Rightarrow> edge_error option" where
  "selector_error lib e l =
     (let i = fc_identity (configuration e) in
      case lane e of
        ProgramLane \<Rightarrow>
          (case mi_source_id i of
             None \<Rightarrow> Some \<lparr>code = SourceNotAllowed, field = ''source_id''\<rparr>
           | Some s \<Rightarrow> if binary_search_found lib (lease_source_ids l) s then None
                       else Some \<lparr>code = SourceNotAllowed, field = ''source_id''\<rparr>)
      | TalkbackLane \<Rightarrow>
          (case mi_audience_id i of
             None \<Rightarrow> Some \<lparr>code = AudienceNotAllowed, field = ''audience_id''\<rparr>
           | Some a \<Rightarrow> if binary_search_found lib (lease_audience_ids l) a then None
                       else Some \<lparr>code = AudienceNotAllowed, field = ''audience_id''\<rparr>))"

text \<open>The checks of \<open>authorize\<close> after the revalidation of the lease.\<close>

definition entry_error ::
  "('k, 'x, 'g, 's) object_lib \<Rightarrow> ('k, 'x) catalog_entry \<Rightarrow> subscription_lease \<Rightarrow> catalog_lane \<Rightarrow> int \<Rightarrow> edge_error option" where
  "entry_error lib e l ln now =
     (if lane e \<noteq> ln then Some \<lparr>code = CatalogLaneMismatch, field = ''catalog_lane''\<rparr>
      else if scope_mismatch e l then Some \<lparr>code = WrongScope, field = ''media_identity''\<rparr>
      else case selector_error lib e l of
        Some er \<Rightarrow> Some er
      | None \<Rightarrow>
         if channel_count (configuration e) > lease_max_channels l
         then Some \<lparr>code = ChannelLimit, field = ''channel_count''\<rparr>
         else if sat_mul128 (sat_mul128 (payload_bytes (envelope e)) 8) (capture_timebase_hz (configuration e))
              > sat_mul128 (lease_max_bitrate l) (duration_ticks (envelope e))
         then Some \<lparr>code = BitrateLimit, field = ''max_bitrate''\<rparr>
         else case checked_mul_i64 now 1000000000 of
           None \<Rightarrow> Some \<lparr>code = InvalidConfiguration, field = ''now''\<rparr>
         | Some now_ns \<Rightarrow>
             if (case deadline (ce_object e) of None \<Rightarrow> True | Some d \<Rightarrow> unix_time_ns d \<le> now_ns)
             then Some \<lparr>code = ObjectExpired, field = ''object_deadline''\<rparr> else None)"

definition entry_authorize ::
  "subscribe_env \<Rightarrow> ('k, 'x, 'g, 's) object_lib \<Rightarrow> ('k, 'x) catalog_entry \<Rightarrow> subscription_lease \<Rightarrow> catalog_lane \<Rightarrow> int
     \<Rightarrow> subscribe_gate \<Rightarrow> subscribe_gate \<times> (unit, edge_error) result" where
  "entry_authorize env lib e l ln now g =
     (case gate_revalidate env l now g of
        (g1, Inl er) \<Rightarrow> (g1, Inl er)
      | (g1, Inr _) \<Rightarrow> (g1, case entry_error lib e l ln now of Some er \<Rightarrow> Inl er | None \<Rightarrow> Inr ()))"

datatype subscription_op = Subscribe | OtherSubscriptionOp

record ('g, 's, 'i) subscription_change =
  sc_generation :: 'g
  sc_id :: 'i
  sc_operation :: subscription_op
  sc_scope :: 's

definition relay_subscription_change ::
  "subscribe_env \<Rightarrow> ('k, 'x, 'g, 's) object_lib \<Rightarrow> subscription_lease \<Rightarrow> ('k, 'x) catalog_entry \<Rightarrow> 'i \<Rightarrow> subscription_op \<Rightarrow> int
     \<Rightarrow> subscribe_gate \<Rightarrow> subscribe_gate \<times> (('g, 's, 'i) subscription_change, edge_error) result" where
  "relay_subscription_change env lib l e sid op now g =
     (case (if op = Subscribe then entry_authorize env lib e l (lane e) now g else (g, Inr ())) of
        (g1, Inl er) \<Rightarrow> (g1, Inl er)
      | (g1, Inr _) \<Rightarrow>
         (g1, case topology_generation_new lib (topology_generation (lease_binding l)) of
            None \<Rightarrow> edge_err RelayScope ''generation''
          | Some gen \<Rightarrow>
             (let k = mo_key (ce_object e) in
              case subscription_scope_new lib (key_tenant lib k) (key_stream lib k) (Some (key_track lib k)) of
                None \<Rightarrow> edge_err RelayScope ''object_key''
              | Some sc \<Rightarrow> Inr \<lparr>sc_generation = gen, sc_id = sid, sc_operation = op, sc_scope = sc\<rparr>)))"

section \<open>The catalogue\<close>

definition MAX_CONFIGURED_CATALOG_OBJECTS :: nat where
  "MAX_CONFIGURED_CATALOG_OBJECTS = 1000000"
definition DEFAULT_MAX_CATALOG_OBJECTS :: nat where
  "DEFAULT_MAX_CATALOG_OBJECTS = 65536"

record ('k, 'x) catalog =
  max_objects :: nat
  program :: "('k \<times> ('k, 'x) catalog_entry) list"
  talkback :: "('k \<times> ('k, 'x) catalog_entry) list"

definition catalog_new :: "nat \<Rightarrow> (('k, 'x) catalog, edge_error) result" where
  "catalog_new n =
     (if n = 0 \<or> n > MAX_CONFIGURED_CATALOG_OBJECTS then edge_err InvalidConfiguration ''max_catalog_objects''
      else Inr \<lparr>max_objects = n, program = [], talkback = []\<rparr>)"

definition lane_table :: "catalog_lane \<Rightarrow> ('k, 'x) catalog \<Rightarrow> ('k \<times> ('k, 'x) catalog_entry) list" where
  "lane_table ln c = (case ln of ProgramLane \<Rightarrow> program c | TalkbackLane \<Rightarrow> talkback c)"

definition set_lane_table ::
  "catalog_lane \<Rightarrow> ('k \<times> ('k, 'x) catalog_entry) list \<Rightarrow> ('k, 'x) catalog \<Rightarrow> ('k, 'x) catalog" where
  "set_lane_table ln m c = (case ln of ProgramLane \<Rightarrow> c\<lparr>program := m\<rparr> | TalkbackLane \<Rightarrow> c\<lparr>talkback := m\<rparr>)"

definition catalog_insert ::
  "('k::linorder, 'x) catalog_entry \<Rightarrow> ('k, 'x) catalog \<Rightarrow> ('k, 'x) catalog \<times> (bool, edge_error) result" where
  "catalog_insert e c =
     (let total = sat_add (length (program c)) (length (talkback c)); k = mo_key (ce_object e);
          target = lane_table (lane e) c
      in case map_of target k of
           Some old \<Rightarrow> (c, if ce_object old = ce_object e then Inr False
                           else edge_err NonCanonicalObject ''object_identity'')
         | None \<Rightarrow>
             if total \<ge> max_objects c then (c, edge_err Capacity ''catalog'')
             else (set_lane_table (lane e) (bput k e target) c, Inr True))"

definition filtered_out :: "edge_error_code \<Rightarrow> bool" where
  "filtered_out cd \<longleftrightarrow> cd \<in> {WrongScope, CatalogLaneMismatch, SourceNotAllowed, AudienceNotAllowed, ChannelLimit,
     BitrateLimit, ObjectExpired}"

text \<open>The loop of \<open>visible\<close>: it stops as soon as \<open>maximum\<close> entries have been collected.\<close>

fun visible_loop ::
  "subscribe_env \<Rightarrow> ('k, 'x, 'g, 's) object_lib \<Rightarrow> subscription_lease \<Rightarrow> catalog_lane \<Rightarrow> int \<Rightarrow> nat
     \<Rightarrow> ('k, 'x) catalog_entry list \<Rightarrow> ('k, 'x) catalog_entry list \<Rightarrow> subscribe_gate
     \<Rightarrow> subscribe_gate \<times> (('k, 'x) catalog_entry list, edge_error) result" where
  "visible_loop env lib l ln now maximum [] acc g = (g, Inr acc)"
| "visible_loop env lib l ln now maximum (e # es) acc g =
     (case entry_authorize env lib e l ln now g of
        (g1, Inl er) \<Rightarrow>
          if filtered_out (code er)
          then if length acc = maximum then (g1, Inr acc) else visible_loop env lib l ln now maximum es acc g1
          else (g1, Inl er)
      | (g1, Inr _) \<Rightarrow>
          if length (acc @ [e]) = maximum then (g1, Inr (acc @ [e]))
          else visible_loop env lib l ln now maximum es (acc @ [e]) g1)"

definition visible ::
  "subscribe_env \<Rightarrow> ('k, 'x, 'g, 's) object_lib \<Rightarrow> subscription_lease \<Rightarrow> catalog_lane \<Rightarrow> int \<Rightarrow> nat \<Rightarrow> ('k, 'x) catalog
     \<Rightarrow> subscribe_gate \<Rightarrow> subscribe_gate \<times> (('k, 'x) catalog_entry list, edge_error) result" where
  "visible env lib l ln now maximum c g =
     (if maximum = 0 \<or> maximum > max_objects c then (g, edge_err InvalidConfiguration ''catalog_limit'')
      else case gate_revalidate env l now g of
        (g1, Inl er) \<Rightarrow> (g1, Inl er)
      | (g1, Inr _) \<Rightarrow>
         (case visible_loop env lib l ln now maximum (vals (lane_table ln c)) [] g1 of
            (g2, Inl er) \<Rightarrow> (g2, Inl er)
          | (g2, Inr vs) \<Rightarrow>
             (case gate_revalidate env l now g2 of (g3, Inl er) \<Rightarrow> (g3, Inl er) | (g3, Inr _) \<Rightarrow> (g3, Inr vs))))"

definition lane_len :: "catalog_lane \<Rightarrow> ('k, 'x) catalog \<Rightarrow> nat" where
  "lane_len ln c = length (lane_table ln c)"

section \<open>The delivery buffer\<close>

record ('k, 'x) delivery_buffer =
  buf_max_objects :: nat
  max_bytes :: nat
  buffered_bytes :: nat
  entries :: "('k, 'x) catalog_entry list"

definition buffer_new :: "nat \<Rightarrow> nat \<Rightarrow> (('k, 'x) delivery_buffer, edge_error) result" where
  "buffer_new n bytes =
     (if n = 0 \<or> bytes = 0 \<or> n > DEFAULT_MAX_CATALOG_OBJECTS then edge_err InvalidConfiguration ''delivery_buffer''
      else Inr \<lparr>buf_max_objects = n, max_bytes = bytes, buffered_bytes = 0, entries = []\<rparr>)"

definition buffer_clear :: "('k, 'x) delivery_buffer \<Rightarrow> ('k, 'x) delivery_buffer" where
  "buffer_clear b = b\<lparr>entries := [], buffered_bytes := 0\<rparr>"

definition entry_bytes :: "('k, 'x) catalog_entry \<Rightarrow> nat" where
  "entry_bytes e = length (payload (ce_object e))"

definition buffer_push ::
  "subscribe_env \<Rightarrow> ('k, 'x, 'g, 's) object_lib \<Rightarrow> subscription_lease \<Rightarrow> ('k, 'x) catalog_entry \<Rightarrow> int
     \<Rightarrow> subscribe_gate \<Rightarrow> ('k, 'x) delivery_buffer \<Rightarrow> subscribe_gate \<times> ('k, 'x) delivery_buffer \<times> (unit, edge_error) result" where
  "buffer_push env lib l e now g b =
     (case entry_authorize env lib e l (lane e) now g of
        (g1, Inl er) \<Rightarrow> (g1, b, Inl er)
      | (g1, Inr _) \<Rightarrow>
         if length (entries b) \<ge> buf_max_objects b \<or> sat_add (buffered_bytes b) (entry_bytes e) > max_bytes b
         then (g1, b, edge_err Capacity ''delivery_buffer'')
         else (g1, b\<lparr>buffered_bytes := sat_add (buffered_bytes b) (entry_bytes e), entries := entries b @ [e]\<rparr>, Inr ()))"

definition buffer_pop ::
  "subscribe_env \<Rightarrow> ('k, 'x, 'g, 's) object_lib \<Rightarrow> subscription_lease \<Rightarrow> int \<Rightarrow> subscribe_gate \<Rightarrow> ('k, 'x) delivery_buffer
     \<Rightarrow> subscribe_gate \<times> ('k, 'x) delivery_buffer \<times> (('k, 'x) catalog_entry option, edge_error) result" where
  "buffer_pop env lib l now g b =
     (case gate_revalidate env l now g of
        (g1, Inl _) \<Rightarrow> (g1, buffer_clear b, edge_err DeliveryPurged ''subscription_lease'')
      | (g1, Inr _) \<Rightarrow>
         (case entries b of
            [] \<Rightarrow> (g1, b, Inr None)
          | front # rest \<Rightarrow>
             (case entry_authorize env lib front l (lane front) now g1 of
                (g2, Inl _) \<Rightarrow> (g2, buffer_clear b, edge_err DeliveryPurged ''buffered_object'')
              | (g2, Inr _) \<Rightarrow>
                 (g2, b\<lparr>entries := rest, buffered_bytes := sat_sub (buffered_bytes b) (entry_bytes front)\<rparr>,
                  Inr (Some front)))))"

definition purge_if_invalid ::
  "subscribe_env \<Rightarrow> subscription_lease \<Rightarrow> int \<Rightarrow> subscribe_gate \<Rightarrow> ('k, 'x) delivery_buffer
     \<Rightarrow> subscribe_gate \<times> ('k, 'x) delivery_buffer \<times> nat" where
  "purge_if_invalid env l now g b =
     (case gate_revalidate env l now g of
        (g1, Inr _) \<Rightarrow> (g1, b, 0)
      | (g1, Inl _) \<Rightarrow> (g1, buffer_clear b, length (entries b)))"

end
