(* ===== verification/Subscribe_Delivery.thy ===== *)
theory Subscribe_Delivery
  imports Subscribe_Catalog "HOL-Library.Sublist"
begin

text \<open>
  The catalogue and the delivery buffer against their specifications: what a lease may see, as a set-theoretic
  condition over exact integers; the listing as a filter; and the buffer as a queue that is emptied at the
  first failed check.
\<close>

section \<open>Entitlement\<close>

text \<open>Documented behaviour of \<open>slice::binary_search\<close>: a hit is an element, and on a sorted slice every element
  is hit.\<close>

definition bsearch_ok :: "('k, 'x, 'g, 's) object_lib \<Rightarrow> bool" where
  "bsearch_ok lib \<longleftrightarrow> (\<forall>xs x. (binary_search_found lib xs x \<longrightarrow> x \<in> set xs)
     \<and> (sorted xs \<and> x \<in> set xs \<longrightarrow> binary_search_found lib xs x))"

definition entitled :: "subscription_lease \<Rightarrow> catalog_lane \<Rightarrow> int \<Rightarrow> ('k, 'x) catalog_entry \<Rightarrow> bool" where
  "entitled l ln now e \<longleftrightarrow>
     (let i = fc_identity (configuration e); b = lease_binding l in
      lane e = ln \<and> mi_tenant_id i = tenant_id b \<and> mi_session_id i = session_id b \<and> mi_session_epoch i = session_epoch b
      \<and> mi_topology_generation i = topology_generation b \<and> mi_media_class i = media_class b
      \<and> (case ln of
           ProgramLane \<Rightarrow> \<exists>s \<in> set (lease_source_ids l). mi_source_id i = Some s
         | TalkbackLane \<Rightarrow> \<exists>a \<in> set (lease_audience_ids l). mi_audience_id i = Some a)
      \<and> channel_count (configuration e) \<le> lease_max_channels l
      \<and> payload_bytes (envelope e) * 8 * capture_timebase_hz (configuration e)
          \<le> lease_max_bitrate l * duration_ticks (envelope e)
      \<and> (case deadline (ce_object e) of None \<Rightarrow> False | Some d \<Rightarrow> now * 1000000000 < unix_time_ns d))"

text \<open>The widths of the source: \<open>u32\<close> sizes and rates, \<open>u64\<close> durations and bit rates, \<open>i64\<close> times.\<close>

definition entry_widths :: "('k, 'x) catalog_entry \<Rightarrow> bool" where
  "entry_widths e \<longleftrightarrow> payload_bytes (envelope e) < 2 ^ 32 \<and> capture_timebase_hz (configuration e) < 2 ^ 32
     \<and> duration_ticks (envelope e) < 2 ^ 64"

definition lease_widths :: "subscription_lease \<Rightarrow> bool" where
  "lease_widths l \<longleftrightarrow> lease_max_bitrate l < 2 ^ 64 \<and> sorted (lease_source_ids l) \<and> sorted (lease_audience_ids l)"

lemma sat_mul128_exact: "a < 2 ^ m \<Longrightarrow> b < 2 ^ n \<Longrightarrow> m + n \<le> 128 \<Longrightarrow> sat_mul128 a b = a * b"
proof -
  assume a: "a < 2 ^ m" and b: "b < 2 ^ n" and mn: "m + n \<le> 128"
  have "a * b < 2 ^ m * 2 ^ n" by (rule mult_strict_mono') (use a b in auto)
  also have "\<dots> \<le> 2 ^ 128" using power_increasing [OF mn, of "2 :: nat"] by (simp add: power_add)
  finally show ?thesis by (simp add: sat_mul128_def u128_max_def)
qed

lemma bits_exact:
  assumes "entry_widths e" and "lease_widths l"
  shows "sat_mul128 (sat_mul128 (payload_bytes (envelope e)) 8) (capture_timebase_hz (configuration e)) =
      payload_bytes (envelope e) * 8 * capture_timebase_hz (configuration e)"
    "sat_mul128 (lease_max_bitrate l) (duration_ticks (envelope e)) = lease_max_bitrate l * duration_ticks (envelope e)"
proof -
  have p: "payload_bytes (envelope e) < 2 ^ 32" "capture_timebase_hz (configuration e) < 2 ^ 32"
    "duration_ticks (envelope e) < 2 ^ 64" "lease_max_bitrate l < 2 ^ 64"
    using assms by (simp_all add: entry_widths_def lease_widths_def)
  have s: "sat_mul128 (payload_bytes (envelope e)) 8 = payload_bytes (envelope e) * 8"
    using p(1) by (intro sat_mul128_exact [of _ 32 _ 4]) simp_all
  moreover have "payload_bytes (envelope e) * 8 < 2 ^ 35" using p(1) by simp
  ultimately show "sat_mul128 (sat_mul128 (payload_bytes (envelope e)) 8) (capture_timebase_hz (configuration e)) =
      payload_bytes (envelope e) * 8 * capture_timebase_hz (configuration e)"
    using p(2) by (simp only: s) (intro sat_mul128_exact [of _ 35 _ 32], simp_all)
  show "sat_mul128 (lease_max_bitrate l) (duration_ticks (envelope e)) = lease_max_bitrate l * duration_ticks (envelope e)"
    by (rule sat_mul128_exact [of _ 64 _ 64]) (use p in auto)
qed

lemma selector_error_None:
  assumes "bsearch_ok lib" and "lease_widths l"
  shows "selector_error lib e l = None \<longleftrightarrow> (case lane e of
           ProgramLane \<Rightarrow> \<exists>s \<in> set (lease_source_ids l). mi_source_id (fc_identity (configuration e)) = Some s
         | TalkbackLane \<Rightarrow> \<exists>a \<in> set (lease_audience_ids l). mi_audience_id (fc_identity (configuration e)) = Some a)"
  using assms
  by (cases "lane e"; cases "mi_source_id (fc_identity (configuration e))"; cases "mi_audience_id (fc_identity (configuration e))")
    (auto simp: selector_error_def bsearch_ok_def lease_widths_def)

lemma entry_error_None:
  assumes "bsearch_ok lib" and "lease_widths l" and "entry_widths e"
    and "checked_mul_i64 now 1000000000 = Some (now * 1000000000)"
  shows "entry_error lib e l ln now = None \<longleftrightarrow> entitled l ln now e"
proof (cases "lane e = ln \<and> \<not> scope_mismatch e l \<and> selector_error lib e l = None")
  case False
  then show ?thesis using selector_error_None [OF assms(1,2), of e]
    by (auto simp: entry_error_def entitled_def scope_mismatch_def Let_def split: option.splits)
next
  case True
  then have "entitled l ln now e \<longleftrightarrow> channel_count (configuration e) \<le> lease_max_channels l
      \<and> payload_bytes (envelope e) * 8 * capture_timebase_hz (configuration e) \<le> lease_max_bitrate l * duration_ticks (envelope e)
      \<and> (case deadline (ce_object e) of None \<Rightarrow> False | Some d \<Rightarrow> now * 1000000000 < unix_time_ns d)"
    using selector_error_None [OF assms(1,2), of e] by (auto simp: entitled_def scope_mismatch_def Let_def)
  moreover have "entry_error lib e l ln now = None \<longleftrightarrow> channel_count (configuration e) \<le> lease_max_channels l
      \<and> payload_bytes (envelope e) * 8 * capture_timebase_hz (configuration e) \<le> lease_max_bitrate l * duration_ticks (envelope e)
      \<and> (case deadline (ce_object e) of None \<Rightarrow> False | Some d \<Rightarrow> now * 1000000000 < unix_time_ns d)"
    using True assms(4) by (auto simp: entry_error_def bits_exact [OF assms(3,2)] split: option.splits)
  ultimately show ?thesis by simp
qed

lemma entry_error_filtered:
  assumes "checked_mul_i64 now 1000000000 \<noteq> None" and "entry_error lib e l ln now = Some er"
  shows "filtered_out (code er)"
  using assms
  by (auto simp: entry_error_def selector_error_def filtered_out_def Let_def
      split: if_splits option.splits catalog_lane.splits)

section \<open>The listing\<close>

lemma gate_revalidate_Inr: "gate_revalidate env l now g = (g', Inr u) \<Longrightarrow> g' = g"
  by (auto simp: gate_revalidate_def Let_def split: if_splits sum.splits)

lemma entry_authorize_live:
  assumes "gate_revalidate env l now g = (g, Inr ())"
  shows "entry_authorize env lib e l ln now g = (g, case entry_error lib e l ln now of Some er \<Rightarrow> Inl er | None \<Rightarrow> Inr ())"
  using assms by (simp add: entry_authorize_def)

lemma visible_loop_eq:
  assumes rv: "gate_revalidate env l now g = (g, Inr ())" and now: "checked_mul_i64 now 1000000000 \<noteq> None"
    and "length acc < maximum"
  shows "visible_loop env lib l ln now maximum es acc g =
    (g, Inr (take maximum (acc @ filter (\<lambda>e. entry_error lib e l ln now = None) es)))"
  using assms(3)
proof (induction es arbitrary: acc)
  case Nil
  then show ?case by simp
next
  case (Cons e es)
  show ?case
  proof (cases "entry_error lib e l ln now")
    case (Some er)
    then show ?thesis
      using Cons entry_authorize_live [OF rv, of lib e ln] entry_error_filtered [OF now Some] by simp
  next
    case None
    then show ?thesis
      using Cons entry_authorize_live [OF rv, of lib e ln] by (cases "Suc (length acc) = maximum") (auto simp: take_Cons')
  qed
qed

section \<open>Canonical catalogues\<close>

definition canonical_entry :: "('k, 'x, 'g, 's) object_lib \<Rightarrow> ('k, 'x) catalog_entry \<Rightarrow> bool" where
  "canonical_entry lib e \<longleftrightarrow> lane e = ProgramLane
     \<and> mi_media_class (fc_identity (configuration e)) \<notin> {Talkback, TakeChunk}
     \<and> key_tenant lib (mo_key (ce_object e)) = mi_tenant_id (fc_identity (configuration e))
     \<and> key_track lib (mo_key (ce_object e)) = configuration_id (configuration e)
     \<and> key_object lib (mo_key (ce_object e)) = fe_sequence (envelope e)
     \<and> length (payload (ce_object e)) = payload_bytes (envelope e) \<and> deadline (ce_object e) \<noteq> None
     \<and> map_of (metadata (ce_object e)) CONFIGURATION_METADATA = configuration_to_json lib (configuration e)
     \<and> map_of (metadata (ce_object e)) ENVELOPE_METADATA = envelope_to_json lib (envelope e)"

lemma from_media_object_canonical:
  "from_media_object lib ob = Inr e \<Longrightarrow> canonical_entry lib e \<and> ce_object e = ob"
  by (auto simp: from_media_object_def canonical_entry_def canonical_mismatch_def identity_mismatch_def Let_def
      split: if_splits option.splits)

definition catalog_ok :: "('k::linorder, 'x, 'g, 's) object_lib \<Rightarrow> ('k, 'x) catalog \<Rightarrow> bool" where
  "catalog_ok lib c \<longleftrightarrow> talkback c = [] \<and> btree_ok (program c) \<and> length (program c) \<le> max_objects c
     \<and> max_objects c \<le> MAX_CONFIGURED_CATALOG_OBJECTS
     \<and> (\<forall>(k, e) \<in> set (program c). k = mo_key (ce_object e) \<and> canonical_entry lib e)"

lemma catalog_ok_insert:
  assumes "catalog_ok lib c" and "canonical_entry lib e"
  shows "catalog_ok lib (fst (catalog_insert e c))"
proof (cases "map_of (program c) (mo_key (ce_object e))")
  case (Some old)
  then show ?thesis using assms by (simp add: catalog_insert_def lane_table_def canonical_entry_def Let_def)
next
  case None
  have "sat_add (length (program c)) 0 = length (program c)"
    using assms(1) by (simp add: catalog_ok_def sat_add_exact MAX_CONFIGURED_CATALOG_OBJECTS_def u64_max_def)
  then show ?thesis
    using assms None
    by (auto simp: catalog_insert_def lane_table_def set_lane_table_def canonical_entry_def Let_def catalog_ok_def
        bt.table_ok_put bt.set_put bt.length_put set_tdel)
qed

text \<open>A catalogue filled with what can be parsed of a list of objects.\<close>

fun catalog_fill ::
  "('k::linorder, 'x, 'g, 's) object_lib \<Rightarrow> ('k, 'x) media_object list \<Rightarrow> ('k, 'x) catalog \<Rightarrow> ('k, 'x) catalog" where
  "catalog_fill lib [] c = c"
| "catalog_fill lib (ob # obs) c =
     (case from_media_object lib ob of
        Inl _ \<Rightarrow> catalog_fill lib obs c
      | Inr e \<Rightarrow> catalog_fill lib obs (fst (catalog_insert e c)))"

lemma catalog_fill_ok: "catalog_ok lib c \<Longrightarrow> catalog_ok lib (catalog_fill lib obs c)"
  by (induction lib obs c rule: catalog_fill.induct)
    (auto split: sum.splits intro: catalog_ok_insert dest: from_media_object_canonical)

lemma catalog_ok_new: "catalog_new n = Inr c \<Longrightarrow> catalog_ok lib c \<and> max_objects c = n"
  by (auto simp: catalog_new_def catalog_ok_def split: if_splits)

lemma catalog_insert_max [simp]: "max_objects (fst (catalog_insert e c)) = max_objects c"
  by (auto simp: catalog_insert_def set_lane_table_def Let_def split: option.splits catalog_lane.splits)

lemma catalog_fill_max: "max_objects (catalog_fill lib obs c) = max_objects c"
  by (induction lib obs c rule: catalog_fill.induct) (auto split: sum.splits)

section \<open>Delivery\<close>

text \<open>Calls on one buffer. The gate is shared with other threads, so every call meets a gate of its own.\<close>

datatype ('k, 'x) buffer_call =
  PushEntry subscribe_gate subscription_lease "('k, 'x) catalog_entry" int
| PopEntry subscribe_gate subscription_lease int
| PurgeInvalid subscribe_gate subscription_lease int

text \<open>The state of a run: the buffer, the entries accepted so far and the entries delivered so far with the
  gate, lease and time of their delivery.\<close>

type_synonym ('k, 'x) buffer_log =
  "('k, 'x) delivery_buffer \<times> ('k, 'x) catalog_entry list
     \<times> (subscribe_gate \<times> subscription_lease \<times> int \<times> ('k, 'x) catalog_entry) list"

fun buffer_step :: "subscribe_env \<Rightarrow> ('k, 'x, 'g, 's) object_lib \<Rightarrow> ('k, 'x) buffer_call \<Rightarrow> ('k, 'x) buffer_log \<Rightarrow> ('k, 'x) buffer_log" where
  "buffer_step env lib (PushEntry g l e now) (b, acc, out) =
     (case buffer_push env lib l e now g b of
        (_, b1, Inr _) \<Rightarrow> (b1, acc @ [e], out) | (_, b1, Inl _) \<Rightarrow> (b1, acc, out))"
| "buffer_step env lib (PopEntry g l now) (b, acc, out) =
     (case buffer_pop env lib l now g b of
        (_, b1, Inr (Some e)) \<Rightarrow> (b1, acc, out @ [(g, l, now, e)]) | (_, b1, _) \<Rightarrow> (b1, acc, out))"
| "buffer_step env lib (PurgeInvalid g l now) (b, acc, out) =
     (case purge_if_invalid env l now g b of (_, b1, _) \<Rightarrow> (b1, acc, out))"

definition delivered :: "(subscribe_gate \<times> subscription_lease \<times> int \<times> ('k, 'x) catalog_entry) list \<Rightarrow> ('k, 'x) catalog_entry list" where
  "delivered out = map (\<lambda>(g, l, now, e). e) out"

definition log_ok :: "subscribe_env \<Rightarrow> ('k, 'x, 'g, 's) object_lib \<Rightarrow> ('k, 'x) buffer_log \<Rightarrow> bool" where
  "log_ok env lib = (\<lambda>(b, acc, out).
     buffered_bytes b = sum_list (map entry_bytes (entries b)) \<and> buffered_bytes b \<le> max_bytes b
     \<and> max_bytes b < u64_max \<and> length (entries b) \<le> buf_max_objects b \<and> subseq (delivered out @ entries b) acc
     \<and> (\<forall>(g, l, now, e) \<in> set out. snd (gate_revalidate env l now g) = Inr () \<and> entry_error lib e l (lane e) now = None))"

lemma subseq_prefix_part: "subseq (xs @ ys) zs \<Longrightarrow> subseq xs zs"
  using subseq_order.trans by blast

lemma entry_authorize_Inr:
  assumes "entry_authorize env lib e l ln now g = (g1, Inr u)"
  shows "snd (gate_revalidate env l now g) = Inr () \<and> entry_error lib e l ln now = None"
  using assms by (auto simp: entry_authorize_def split: prod.splits sum.splits option.splits)

lemma log_ok_push:
  assumes ok: "log_ok env lib (b, acc, out)"
    and room: "length (entries b) < buf_max_objects b" "sat_add (buffered_bytes b) (entry_bytes e) \<le> max_bytes b"
  shows "log_ok env lib (b\<lparr>buffered_bytes := sat_add (buffered_bytes b) (entry_bytes e), entries := entries b @ [e]\<rparr>, acc @ [e], out)"
proof -
  have "sat_add (buffered_bytes b) (entry_bytes e) = buffered_bytes b + entry_bytes e"
    using ok room(2) by (intro sat_add_exact_less) (simp add: log_ok_def)
  moreover have "subseq ((delivered out @ entries b) @ [e]) (acc @ [e])"
    using ok by (simp only: log_ok_def prod.case subseq_append)
  ultimately show ?thesis using ok room by (simp add: log_ok_def)
qed

lemma log_ok_pop:
  assumes ok: "log_ok env lib (b, acc, out)" and b: "entries b = e # es"
    and auth: "snd (gate_revalidate env l now g) = Inr ()" "entry_error lib e l (lane e) now = None"
  shows "log_ok env lib (b\<lparr>entries := es, buffered_bytes := buffered_bytes b - entry_bytes e\<rparr>, acc, out @ [(g, l, now, e)])"
  using assms by (auto simp: log_ok_def delivered_def)

lemma log_ok_clear: "log_ok env lib (b, acc, out) \<Longrightarrow> log_ok env lib (buffer_clear b, acc, out)"
  using subseq_prefix_part by (auto simp: log_ok_def buffer_clear_def)

lemma log_ok_step:
  assumes ok: "log_ok env lib s"
  shows "log_ok env lib (buffer_step env lib c s)"
proof -
  obtain b acc out where s: "s = (b, acc, out)" by (metis prod_cases3)
  note P = log_ok_push [OF ok [unfolded s]] and Q = log_ok_pop [OF ok [unfolded s]] and R = log_ok_clear [OF ok [unfolded s]]
  show ?thesis
  proof (cases c)
    case (PushEntry g l e now)
    then show ?thesis
      using ok P [of e] by (auto simp: s buffer_push_def split: prod.splits sum.splits)
  next
    case (PopEntry g l now)
    obtain g1 res where rv: "gate_revalidate env l now g = (g1, res)" by (metis surj_pair)
    show ?thesis
    proof (cases "\<exists>e es. entries b = e # es \<and> res = Inr () \<and> snd (entry_authorize env lib e l (lane e) now g1) = Inr ()")
      case True
      then obtain e es where e: "entries b = e # es" "res = Inr ()" "snd (entry_authorize env lib e l (lane e) now g1) = Inr ()"
        by blast
      have "g1 = g" using gate_revalidate_Inr rv e(2) by blast
      then have "snd (gate_revalidate env l now g) = Inr () \<and> entry_error lib e l (lane e) now = None"
        using e(3) entry_authorize_Inr by (metis prod.collapse)
      moreover obtain g2 where "entry_authorize env lib e l (lane e) now g1 = (g2, Inr ())" using e(3) by (metis prod.collapse)
      ultimately show ?thesis using Q [OF e(1)] e rv PopEntry by (simp add: s buffer_pop_def)
    next
      case False
      then have "buffer_step env lib c s = (buffer_clear b, acc, out) \<or> buffer_step env lib c s = s"
        using rv PopEntry by (auto simp: s buffer_pop_def split: prod.splits sum.splits list.splits)
      then show ?thesis using R ok by auto
    qed
  next
    case (PurgeInvalid g l now)
    then show ?thesis using R ok by (auto simp: s purge_if_invalid_def split: prod.splits sum.splits)
  qed
qed

lemma log_ok_run: "log_ok env lib s \<Longrightarrow> log_ok env lib (fold (buffer_step env lib) cs s)"
proof (induction cs arbitrary: s)
  case Nil
  then show ?case by simp
next
  case (Cons c cs)
  show ?case using Cons.IH [OF log_ok_step [OF Cons.prems]] by simp
qed

lemma buffer_step_limits:
  "buf_max_objects (fst (buffer_step env lib c s)) = buf_max_objects (fst s) \<and> max_bytes (fst (buffer_step env lib c s)) = max_bytes (fst s)"
  by (cases s; cases c)
    (auto simp: buffer_push_def buffer_pop_def purge_if_invalid_def buffer_clear_def split: prod.splits sum.splits list.splits option.splits)

lemma buffer_limits:
  "buf_max_objects (fst (fold (buffer_step env lib) cs (b, acc, out))) = buf_max_objects b
     \<and> max_bytes (fst (fold (buffer_step env lib) cs (b, acc, out))) = max_bytes b"
proof -
  have "buf_max_objects (fst (fold (buffer_step env lib) cs s)) = buf_max_objects (fst s)
     \<and> max_bytes (fst (fold (buffer_step env lib) cs s)) = max_bytes (fst s)" for s
    using buffer_step_limits [of env lib] by (induction cs arbitrary: s) (simp, simp only: fold_simps)
  from this [of "(b, acc, out)"] show ?thesis by simp
qed

end
