(* ===== verification/Subscribe_Properties.thy ===== *)
theory Subscribe_Properties
  imports Subscribe_Admission Subscribe_Delivery
begin

text \<open>
  The properties of the subscription gate: what invalidations do, what a gap fences, when a lease is current,
  that a capability serves one connection under every interleaving, what the catalogue shows, and what the
  delivery buffer hands out.
\<close>

section \<open>A concrete edge\<close>

definition ex_env :: subscribe_env where
  "ex_env = \<lparr>max_generation = 1000, max_clock_skew_seconds = 60, max_compact_jws_bytes = 100,
     class_rank = (\<lambda>c. case c of Program \<Rightarrow> 0 | Source \<Rightarrow> 1 | Screen \<Rightarrow> 2 | Metadata \<Rightarrow> 3 | Talkback \<Rightarrow> 4 | TakeChunk \<Rightarrow> 5)\<rparr>"

definition ex_binding :: "string \<Rightarrow> subscribe_binding" where
  "ex_binding e = \<lparr>tenant_id = ''t'', session_id = ''s'', session_epoch = 1, media_authorization_epoch = 1,
     subject_grant_epoch = 1, media_policy_version = 1, class_authorization_epoch = None, binding_generation = 1,
     topology_generation = 1, participant_id = ''p'', endpoint_id = e, media_class = Program, edge_id = ''x'',
     clock_skew_seconds = 5\<rparr>"

definition ex_invalidation :: "nat \<Rightarrow> nat \<Rightarrow> subscribe_invalidation" where
  "ex_invalidation n epoch = \<lparr>delivery_sequence = n, inv_session_id = ''s'', inv_session_epoch = epoch,
     inv_media_authorization_epoch = 1, inv_media_policy_version = 1, inv_endpoint_id = None, inv_subject_grant_epoch = None\<rparr>"

definition ex_registry :: registry where
  "ex_registry = registry_run ex_env [Install (ex_binding ''e1''), Install (ex_binding ''e2'')]
     \<lparr>next_revision = 0, last_invalidation_sequence = 0, required_snapshot_boundary = 0, synchronized = True, bindings = []\<rparr>"

lemma registry_from_new:
  assumes "registry_new env n = Inr s0" and "next_revision (registry_run env ops s0) < u64_max"
  shows "registry_ok (registry_run env ops s0)"
  using registry_run_induct [of s0 "\<lambda>_. True" env ops] registry_ok_new [OF assms(1)] assms(2) by simp

lemma ex_registry_new:
  "registry_new ex_env 0 = Inr \<lparr>next_revision = 0, last_invalidation_sequence = 0, required_snapshot_boundary = 0,
     synchronized = True, bindings = []\<rparr>"
  by (simp add: registry_new_def)

section \<open>The registry\<close>

text \<open>C15: Revocation is final. A lease carries the registration that was resolved for it. In every later state
  of the registry (as long as revisions are not exhausted) it revalidates only if the registry is
  synchronized and that very registration, unchanged and active, is still the one under its key; and once it
  has failed to revalidate, it fails in every later state.\<close>

theorem lease_revocation_final:
  assumes "registry_new env n = Inr s0" and "s1 = registry_run env ops1 s0" and "s2 = registry_run env ops2 s1"
    and "s3 = registry_run env ops3 s2" and "next_revision s3 < u64_max"
    and "resolve env ep cls gen s1 = Inr r" and "lookup_key env ep cls gen = binding_key_of env (reg_binding r)"
    and "lease_binding l = reg_binding r" and "binding_revision l = revision r"
  shows "(registry_revalidate env l s2 = Inr () \<longrightarrow> resolve env ep cls gen s2 = Inr r)
    \<and> (registry_revalidate env l s2 \<noteq> Inr () \<longrightarrow> registry_revalidate env l s3 \<noteq> Inr ())"
proof -
  have n0: "next_revision s0 = 0" using registry_ok_new [OF assms(1)] by simp
  have n1: "next_revision s1 \<le> u64_max" using registry_run_next [of s0 env ops1] n0 assms(2) by simp
  have n2: "next_revision s1 \<le> next_revision s2" "next_revision s2 \<le> u64_max"
    using registry_run_next [OF n1, of env ops2] assms(3) by simp_all
  have n3: "next_revision s2 \<le> next_revision s3" using registry_run_next [OF n2(2), of env ops3] assms(4) by simp
  have ok1: "registry_ok s1" and ok2: "registry_ok s2"
    using registry_from_new [OF assms(1), of ops1] registry_from_new [OF assms(1), of "ops1 @ ops2"] assms(2,3,5) n2 n3
    by (simp_all add: registry_run_def)
  have k: "lease_key env l = lookup_key env ep cls gen" using assms(7,8) by (simp add: lease_key_def)
  have r: "map_of (bindings s1) (lease_key env l) = Some r" "active r"
    using assms(6) k by (auto simp: resolve_def split: if_splits option.splits)
  then have le: "binding_revision l \<le> next_revision s2" using ok1 n2(1) assms(9) unfolding registry_ok_def by fastforce
  have "resolve env ep cls gen s2 = Inr r" if live: "registry_revalidate env l s2 = Inr ()"
  proof -
    obtain r' where r': "synchronized s2" "map_of (bindings s2) (lease_key env l) = Some r'" "active r'" "revision r' = revision r"
      using iffD1 [OF revalidate_iff live] assms(9) by metis
    have "r' = r"
      using lease_same_registration [OF ok1 r(1), of env ops2] r'(2,4) n1 n2 n3 assms(3,5) by simp
    then show ?thesis using r' k by (simp add: resolve_def)
  qed
  moreover have "registry_revalidate env l s3 \<noteq> Inr ()" if "registry_revalidate env l s2 \<noteq> Inr ()"
    using lease_stays_dead [OF ok2 le that, of ops3] n2(2) assms(4,5) by simp
  ultimately show ?thesis by blast
qed

definition ex_lease :: subscription_lease where
  "ex_lease = \<lparr>lease_binding = ex_binding ''e1'', binding_revision = 1, lease_capability_id = ''cap'', connection_id = ''c'',
     lease_source_ids = [''mic''], lease_audience_ids = [], lease_max_channels = 2, lease_max_bitrate = 1000000,
     lease_max_datagram_bytes = 1200, lease_expires_at = 100\<rparr>"

theorem lease_revocation_final_witness:
  "registry_revalidate ex_env ex_lease ex_registry = Inr ()
   \<and> registry_revalidate ex_env ex_lease (registry_run ex_env [Invalidate (ex_invalidation 1 2)] ex_registry) \<noteq> Inr ()
   \<and> registry_revalidate ex_env ex_lease
       (registry_run ex_env [Snapshot 9 [ex_binding ''e1'']] (registry_run ex_env [Invalidate (ex_invalidation 1 2)] ex_registry)) \<noteq> Inr ()"
proof -
  let ?s2 = "registry_run ex_env [Invalidate (ex_invalidation 1 2)] ex_registry"
  let ?s3 = "registry_run ex_env [Snapshot 9 [ex_binding ''e1'']] ?s2"
  have n: "next_revision ?s3 < u64_max" by code_simp
  have r: "resolve ex_env ''e1'' Program 1 ex_registry = Inr \<lparr>reg_binding = ex_binding ''e1'', revision = 1, active = True\<rparr>"
    by code_simp
  have "registry_revalidate ex_env ex_lease ?s2 \<noteq> Inr ()" by code_simp
  moreover have "registry_revalidate ex_env ex_lease ex_registry = Inr ()" by code_simp
  moreover have "registry_revalidate ex_env ex_lease ?s2 \<noteq> Inr () \<longrightarrow> registry_revalidate ex_env ex_lease ?s3 \<noteq> Inr ()"
    using lease_revocation_final [OF ex_registry_new ex_registry_def refl refl n r, of ex_lease]
    by (simp add: ex_lease_def ex_binding_def binding_key_of_def)
  ultimately show ?thesis by blast
qed

text \<open>An applied invalidation acts exactly. The active bindings of its session that are older than one of
  its epochs, or that belong to its endpoint with an older grant, become inactive under new revisions; every
  other binding is unchanged; the reported number is their number.\<close>

theorem invalidation_exact:
  assumes "apply_invalidation env ev s = (s', Inr (Applied n))" and "next_revision s' < u64_max"
  shows "n = length (filter (\<lambda>(k, r). active r \<and> session_id (reg_binding r) = inv_session_id ev \<and> stale ev (reg_binding r)) (bindings s))
    \<and> next_revision s' = next_revision s + n
    \<and> (\<forall>k r. map_of (bindings s) k = Some r \<longrightarrow> (\<exists>r'. map_of (bindings s') k = Some r' \<and> reg_binding r' = reg_binding r
        \<and> (if active r \<and> session_id (reg_binding r) = inv_session_id ev \<and> stale ev (reg_binding r)
           then \<not> active r' \<and> next_revision s < revision r' else r' = r)))
    \<and> keys (bindings s') = keys (bindings s) \<and> last_invalidation_sequence s' = last_invalidation_sequence s + 1"
proof -
  obtain bs rv m where e: "invalidate_bindings ev (next_revision s) (bindings s) = (bs, rv, m)" by (metis prod_cases3)
  have seq: "last_invalidation_sequence s < delivery_sequence ev" "delivery_sequence ev = sat_add (last_invalidation_sequence s) 1"
    and s': "s' = s\<lparr>last_invalidation_sequence := delivery_sequence ev, bindings := bs, next_revision := rv\<rparr>" "m = n"
    using assms(1) e by (auto simp: apply_invalidation_def split: if_splits)
  have "delivery_sequence ev = last_invalidation_sequence s + 1" using seq by (auto simp: sat_add_def min_def split: if_splits)
  moreover have rv: "rv < u64_max" using assms(2) s'(1) by simp
  note E = invalidate_bindings_eq [OF e rv]
  have "hit ev \<circ> snd = (\<lambda>(k, r). active r \<and> session_id (reg_binding r) = inv_session_id ev \<and> stale ev (reg_binding r))"
    by (rule ext) (auto simp: hit_def)
  then have "n = length (filter (\<lambda>(k, r). active r \<and> session_id (reg_binding r) = inv_session_id ev \<and> stale ev (reg_binding r)) (bindings s))"
    "rv = next_revision s + n" using E s'(2) by (metis, metis)
  moreover have "\<exists>r'. map_of bs k = Some r' \<and> reg_binding r' = reg_binding r
        \<and> (if active r \<and> session_id (reg_binding r) = inv_session_id ev \<and> stale ev (reg_binding r)
           then \<not> active r' \<and> next_revision s < revision r' else r' = r)" if "map_of (bindings s) k = Some r" for k r
  proof -
    have "rel_option (touched ev (next_revision s) rv) (Some r) (map_of bs k)" using E that by metis
    then obtain r' where r': "map_of bs k = Some r'" "touched ev (next_revision s) rv r r'" by (cases "map_of bs k") auto
    then have "reg_binding r' = reg_binding r
        \<and> (if hit ev r then \<not> active r' \<and> next_revision s < revision r' else r' = r)"
      unfolding touched_def by (metis registered_binding.select_convs(1,3) registered_binding.surjective
          registered_binding.update_convs(2,3))
    then show ?thesis using r'(1) by (auto simp: hit_def)
  qed
  ultimately show ?thesis using invalidate_bindings_keys [OF e] s' by simp
qed

theorem invalidation_exact_witness:
  "\<exists>s'. apply_invalidation ex_env (ex_invalidation 1 2) ex_registry = (s', Inr (Applied 2)) \<and> next_revision s' = 4"
proof -
  have "map_prod next_revision id (apply_invalidation ex_env (ex_invalidation 1 2) ex_registry) = (4, Inr (Applied 2))" by code_simp
  then obtain s' where a: "apply_invalidation ex_env (ex_invalidation 1 2) ex_registry = (s', Inr (Applied 2))"
    and n: "next_revision s' = 4" by (cases "apply_invalidation ex_env (ex_invalidation 1 2) ex_registry") auto
  have "next_revision ex_registry = 2" by code_simp
  then show ?thesis using invalidation_exact [OF a] a n by (simp add: u64_max_def)
qed

text \<open>A gap fences the registry. After an invalidation that is not the next one, every lookup, every
  revalidation and every installation fails with \<open>InvalidationGap\<close>, and no sequence is acknowledged, whatever
  is called, until a snapshot is offered whose boundary covers the invalidation.\<close>

theorem gap_fences:
  assumes "apply_invalidation env ev s = (s1, Inl \<lparr>code = InvalidationGap, field = f\<rparr>)"
    and "\<And>n bs. Snapshot n bs \<in> set ops \<Longrightarrow> n < delivery_sequence ev"
  shows "resolve env ep cls gen (registry_run env ops s1) = edge_err InvalidationGap ''invalidation_sequence''
    \<and> registry_revalidate env l (registry_run env ops s1) = edge_err InvalidationGap ''invalidation_sequence''
    \<and> install env b (registry_run env ops s1) = (registry_run env ops s1, edge_err InvalidationGap ''invalidation_sequence'')
    \<and> acknowledged_sequence (registry_run env ops s1) = None"
proof -
  have "\<not> synchronized s1" "delivery_sequence ev \<le> required_snapshot_boundary s1"
    using assms(1) by (auto simp: apply_invalidation_def split: if_splits prod.splits)
  then have "\<not> synchronized (registry_run env ops s1)" using gap_persists assms(2) by blast
  then show ?thesis by (simp add: resolve_def registry_revalidate_def install_def acknowledged_sequence_def Let_def)
qed

theorem gap_fences_witness:
  "\<exists>s1. apply_invalidation ex_env (ex_invalidation 5 2) ex_registry = (s1, Inl \<lparr>code = InvalidationGap, field = ''invalidation_sequence''\<rparr>)
     \<and> registry_revalidate ex_env ex_lease (registry_run ex_env [Snapshot 4 [], Invalidate (ex_invalidation 6 2)] s1)
         = edge_err InvalidationGap ''invalidation_sequence''"
proof -
  have "snd (apply_invalidation ex_env (ex_invalidation 5 2) ex_registry) =
      Inl \<lparr>code = InvalidationGap, field = ''invalidation_sequence''\<rparr>" by code_simp
  then obtain s1 where a: "apply_invalidation ex_env (ex_invalidation 5 2) ex_registry =
      (s1, Inl \<lparr>code = InvalidationGap, field = ''invalidation_sequence''\<rparr>)" by (metis prod.collapse)
  show ?thesis using a gap_fences [OF a, of "[Snapshot 4 [], Invalidate (ex_invalidation 6 2)]" "''e1''" Program 1 ex_lease "ex_binding ''e1''"]
    by (auto simp: ex_invalidation_def)
qed

text \<open>The acknowledged sequence has no holes. In every state of a run, the invalidations applied since the
  last snapshot (or the start) are exactly the consecutive numbers after its boundary, in order, and an
  acknowledged sequence number is the last of them.\<close>

theorem acknowledged_contiguous:
  assumes "registry_new env n = Inr s0" and "fold (log_step env) ops (s0, n, []) = (s, base, log)"
  shows "s = registry_run env ops s0 \<and> log = [Suc base..<Suc (base + length log)]
    \<and> (\<forall>q. acknowledged_sequence s = Some q \<longrightarrow> q = base + length log)"
proof -
  have "last_invalidation_sequence s0 = n" using assms(1) by (auto simp: registry_new_def split: if_splits)
  then have "last_invalidation_sequence s = base + length log \<and> log = [Suc base..<Suc (base + length log)]"
    using log_run_contiguous [OF assms(2)] by simp
  moreover have "s = registry_run env ops s0" using log_run_fst [of env ops s0 n "[]"] assms(2) by simp
  ultimately show ?thesis by (auto simp: acknowledged_sequence_def)
qed

theorem acknowledged_contiguous_witness:
  "\<exists>s base log. fold (log_step ex_env) [Snapshot 4 [ex_binding ''e1''], Invalidate (ex_invalidation 5 2), Invalidate (ex_invalidation 6 2)]
      (projr (registry_new ex_env 0), 0, []) = (s, base, log) \<and> log = [5, 6] \<and> log = [Suc base..<Suc (base + length log)]"
proof -
  have "snd (fold (log_step ex_env) [Snapshot 4 [ex_binding ''e1''], Invalidate (ex_invalidation 5 2), Invalidate (ex_invalidation 6 2)]
      (projr (registry_new ex_env 0), 0, [])) = (4, [5, 6])" by code_simp
  then obtain s where f: "fold (log_step ex_env) [Snapshot 4 [ex_binding ''e1''], Invalidate (ex_invalidation 5 2), Invalidate (ex_invalidation 6 2)]
      (projr (registry_new ex_env 0), 0, []) = (s, 4, [5, 6])" by (metis prod.collapse)
  show ?thesis using f acknowledged_contiguous [OF _ f] by (simp add: ex_registry_new)
qed

section \<open>The gate\<close>

text \<open>C14: A capability serves one connection. However calls of \<open>authorize\<close> interleave with each other and with
  registry updates, and for any verifier that asks the replay guard once before it grants, two leases for
  the same capability were granted to requests of the same connection, endpoint, class and binding
  generation, unless a request at or after the expiry of the capability has already reached the table of
  admissions. Reservations are 64-bit, so the statement is for fewer than 2^64 calls.\<close>

theorem capability_one_connection:
  assumes "verifier_ok vf ex" and "s = gate_run env vf evs (system_new reg)" and "started s < 2 ^ 64"
    and "(req1, l1) \<in> set (issued s)" and "(req2, l2) \<in> set (issued s)"
    and "lease_capability_id l1 = lease_capability_id l2" and "\<forall>t \<in> set (asked_times s). t < ex (lease_capability_id l1)"
  shows "fingerprint_of req1 = fingerprint_of req2"
proof -
  have inv: "sys_inv ex s" using sys_inv_run [OF assms(1) sys_inv_new] assms(2,3) by simp
  have u: "unexpired ex s (lease_capability_id l1)" using assms(7) by (simp add: unexpired_def)
  have "committed (adm s) (lease_capability_id l1) (fingerprint_of req1)"
    "committed (adm s) (lease_capability_id l1) (fingerprint_of req2)"
    using sys_invD(6) [OF inv assms(4)] sys_invD(6) [OF inv assms(5)] u assms(6) by simp_all
  then show ?thesis by (auto simp: committed_def)
qed

text \<open>A verifier that accepts everything for one capability, and three calls: two interleaved, of which the
  second is refused, and a third from the first connection.\<close>

definition ex_verifier :: verifier where
  "ex_verifier jws ctx = Ask ''cap'' 100 (\<lambda>ans. case ans of
     None \<Rightarrow> Done (Inr \<lparr>capability_id = ''cap'', source_ids = [''mic''], audience_ids = [], max_channels = 2, max_bitrate = 1000000,
       max_datagram_bytes = 1200, client_key_thumbprint = None, expires_at = 100\<rparr>)
   | Some _ \<Rightarrow> Done (Inl \<lparr>ve_code = ReplayAdmissionRejected, ve_claims_expired = False, ve_field = ''jti''\<rparr>))"

lemma ex_verifier_ok: "verifier_ok ex_verifier (\<lambda>_. 100)"
  by (simp add: verifier_ok_def ex_verifier_def)

definition ex_request :: "string \<Rightarrow> int \<Rightarrow> subscribe_request" where
  "ex_request conn t = \<lparr>compact_jws = ''j'', req_endpoint_id = ''e1'', req_media_class = Program, req_binding_generation = 1,
     requested_source_id = Some ''mic'', requested_audience_id = None, req_connection_id = conn,
     authenticated_client_key_thumbprint = None, now_unix_seconds = t\<rparr>"

definition ex_system :: gate_system where
  "ex_system = gate_run ex_env ex_verifier [Begin (ex_request ''c1'' 10), Begin (ex_request ''c2'' 10), Proceed 0, Proceed 1,
     Proceed 1, Proceed 0, Begin (ex_request ''c1'' 11), Proceed 2, Proceed 2] (system_new ex_registry)"

theorem capability_one_connection_witness:
  "\<exists>req1 l1 req2 l2. issued ex_system = [(req1, l1), (req2, l2)] \<and> fingerprint_of req1 = fingerprint_of req2
     \<and> now_unix_seconds req1 \<noteq> now_unix_seconds req2"
proof -
  have "map (\<lambda>(q, l). (now_unix_seconds q, lease_capability_id l)) (issued ex_system) = [(11, ''cap''), (10, ''cap'')]" by code_simp
  then obtain r1 l1 r2 l2 where i: "issued ex_system = [(r1, l1), (r2, l2)]" "now_unix_seconds r1 = 11" "now_unix_seconds r2 = 10"
    "lease_capability_id l1 = ''cap''" "lease_capability_id l2 = ''cap''" by auto
  have t: "asked_times ex_system = [11, 10, 10]" "started ex_system = 3" by (code_simp, code_simp)
  have "fingerprint_of r1 = fingerprint_of r2"
    using capability_one_connection [OF ex_verifier_ok ex_system_def, of r1 l1 r2 l2] i t by simp
  then show ?thesis using i by auto
qed

section \<open>Catalogue and delivery\<close>

definition ex_objects :: "(nat, unit, nat, string) object_lib" where
  "ex_objects = \<lparr>key_tenant = (\<lambda>_. ''t''), key_stream = (\<lambda>_. ''st''), key_track = (\<lambda>_. ''cfg''), key_epoch = (\<lambda>_. 1),
     key_group = (\<lambda>_. 0), key_object = (\<lambda>k. k mod 10), key_version = (\<lambda>_. 1), verify_payload_hash = (\<lambda>_. True),
     configuration_from_json = (\<lambda>b. Some \<lparr>fc_identity = \<lparr>mi_tenant_id = ''t'', mi_session_id = ''s'', mi_session_epoch = 1,
        mi_topology_generation = 1, mi_media_class = Program, mi_source_id = Some (if b = [0] then ''mic'' else ''cam''),
        mi_audience_id = None\<rparr>, configuration_id = ''cfg'', channel_count = 2, capture_timebase_hz = 48000, fc_rest = ()\<rparr>),
     configuration_to_json = (\<lambda>c. Some (if mi_source_id (fc_identity c) = Some ''mic'' then [0] else [1])),
     envelope_from_json = (\<lambda>b. Some \<lparr>fe_binding_generation = 1, configuration_ref = 0, fe_sequence = unat (hd b),
        fe_configuration_epoch = 1, payload_bytes = 2, duration_ticks = 960, fe_rest = ()\<rparr>),
     envelope_to_json = (\<lambda>e. Some [of_nat (fe_sequence e)]), envelope_resolves = (\<lambda>_ _. True),
     binary_search_found = (\<lambda>xs x. x \<in> set xs), topology_generation_new = Some, subscription_scope_new = (\<lambda>a b c. Some a)\<rparr>"

definition ex_object :: "nat \<Rightarrow> u8 \<Rightarrow> u8 \<Rightarrow> (nat, unit) media_object" where
  "ex_object k src seq = \<lparr>mo_key = k, mo_is_media = True, payload = [7, 8], is_keyframe = False, has_capture_timestamp = False,
     stage_timestamps_empty = True, dependencies_empty = True,
     metadata = [(CONTRACT_METADATA, bytes_of ''v1''), (OPERATION_METADATA, bytes_of ''publish''),
       (CONFIGURATION_METADATA, [src]), (ENVELOPE_METADATA, [seq])],
     object_configuration_epoch = 1, deadline = Some \<lparr>clock_id = ''media-capability:issuer'', confidence_unknown = True,
       unix_time_ns = 50000000000\<rparr>, mo_rest = ()\<rparr>"

definition ex_catalog :: "(nat, unit) catalog" where
  "ex_catalog = catalog_fill ex_objects [ex_object 3 0 3, ex_object 12 1 2, ex_object 1 0 1, ex_object 5 0 4]
     \<lparr>max_objects = 10, program = [], talkback = []\<rparr>"

definition ex_gate :: subscribe_gate where
  "ex_gate = gate_new ex_registry"

text \<open>Only canonical programme objects are retained. A catalogue filled from any objects keeps at most its
  configured number, in key order, under their own keys; each entry agrees with the identity, sequence and
  payload size of its canonical metadata; and nothing of the talkback or take class is ever retained.\<close>

theorem catalogue_canonical:
  assumes "catalog_new n = Inr c0" and "c = catalog_fill lib obs c0"
  shows "talkback c = [] \<and> sorted (keys (program c)) \<and> distinct (keys (program c)) \<and> length (program c) \<le> n
    \<and> (\<forall>(k, e) \<in> set (program c). k = mo_key (ce_object e)
        \<and> mi_media_class (fc_identity (configuration e)) \<notin> {Talkback, TakeChunk}
        \<and> key_tenant lib k = mi_tenant_id (fc_identity (configuration e)) \<and> key_object lib k = fe_sequence (envelope e)
        \<and> length (payload (ce_object e)) = payload_bytes (envelope e)
        \<and> map_of (metadata (ce_object e)) CONFIGURATION_METADATA = configuration_to_json lib (configuration e)
        \<and> map_of (metadata (ce_object e)) ENVELOPE_METADATA = envelope_to_json lib (envelope e))"
  using catalog_fill_ok [of lib c0 obs] catalog_ok_new [OF assms(1), of lib] catalog_fill_max [of lib obs c0] assms(2)
  by (auto simp: catalog_ok_def canonical_entry_def)

theorem catalogue_canonical_witness:
  "keys (program ex_catalog) = [1, 3, 12] \<and> length (program ex_catalog) \<le> 10"
proof -
  have n: "catalog_new 10 = Inr \<lparr>max_objects = 10, program = [], talkback = []\<rparr>"
    by (simp add: catalog_new_def MAX_CONFIGURED_CATALOG_OBJECTS_def)
  have "keys (program ex_catalog) = [1, 3, 12]" by code_simp
  then show ?thesis using catalogue_canonical [OF n ex_catalog_def] by simp
qed

text \<open>C16: The listing is the filter. For a lease that revalidates, \<open>visible\<close> returns, in key order, the first
  \<open>maximum\<close> entries of the lane that the lease is entitled to see: same tenant, session, epochs and class,
  a source or audience named by the capability, within its channel and bit-rate limits computed without
  overflow, and not past the deadline.\<close>

theorem catalogue_visible_exact:
  assumes "bsearch_ok lib" and "lease_widths l" and "\<forall>e \<in> set (vals (lane_table ln c)). entry_widths e"
    and "- (2 ^ 63) \<le> now * 1000000000" and "now * 1000000000 < 2 ^ 63"
    and "gate_revalidate env l now g = (g, Inr ())" and "0 < maximum" and "maximum \<le> max_objects c"
  shows "visible env lib l ln now maximum c g =
    (g, Inr (take maximum (filter (entitled l ln now) (vals (lane_table ln c)))))"
proof -
  have t: "checked_mul_i64 now 1000000000 = Some (now * 1000000000)" using assms(4,5) by (simp add: checked_mul_i64_def)
  have "filter (\<lambda>e. entry_error lib e l ln now = None) (vals (lane_table ln c)) = filter (entitled l ln now) (vals (lane_table ln c))"
    by (rule filter_cong) (use entry_error_None [OF assms(1,2) _ t] assms(3) in auto)
  then show ?thesis
    using visible_loop_eq [OF assms(6), of "[]" maximum lib ln "vals (lane_table ln c)"] t assms(6-8) by (simp add: visible_def)
qed

theorem catalogue_visible_exact_witness:
  "map (mo_key \<circ> ce_object) (projr (snd (visible ex_env ex_objects ex_lease ProgramLane 20 5 ex_catalog ex_gate))) = [1, 3]"
proof -
  have b: "bsearch_ok ex_objects" by (simp add: bsearch_ok_def ex_objects_def)
  have w: "lease_widths ex_lease" by code_simp
  have "list_all entry_widths (vals (lane_table ProgramLane ex_catalog))" by code_simp
  then have e: "\<forall>e \<in> set (vals (lane_table ProgramLane ex_catalog)). entry_widths e" by (simp add: list_all_iff)
  have "snd (gate_revalidate ex_env ex_lease 20 ex_gate) = Inr ()" by code_simp
  then have r: "gate_revalidate ex_env ex_lease 20 ex_gate = (ex_gate, Inr ())"
    using gate_revalidate_Inr by (metis prod.collapse)
  have "max_objects ex_catalog = 10" by code_simp
  then have v: "visible ex_env ex_objects ex_lease ProgramLane 20 5 ex_catalog ex_gate =
      (ex_gate, Inr (take 5 (filter (entitled ex_lease ProgramLane 20) (vals (lane_table ProgramLane ex_catalog)))))"
    using catalogue_visible_exact [OF b w e _ _ r, of 5] by simp
  have "map (mo_key \<circ> ce_object) (take 5 (filter (entitled ex_lease ProgramLane 20) (vals (lane_table ProgramLane ex_catalog)))) = [1, 3]"
    by code_simp
  then show ?thesis using v by simp
qed

text \<open>C17: Delivery. Over any calls on a delivery buffer, with the gate changing between them, the entries handed
  out come in the order in which they were accepted, each was authorised by a lease that revalidated at the
  time of its delivery, and the buffer never exceeds its object and byte limits, with an exact byte count.\<close>

theorem delivery_in_order:
  assumes "buffer_new n bytes = Inr b0" and "bytes < u64_max"
    and "fold (buffer_step env lib) cs (b0, [], []) = (b, accepted, out)"
  shows "subseq (delivered out) accepted
    \<and> (\<forall>(g, l, now, e) \<in> set out. snd (gate_revalidate env l now g) = Inr () \<and> entry_error lib e l (lane e) now = None)
    \<and> length (entries b) \<le> n \<and> buffered_bytes b \<le> bytes \<and> buffered_bytes b = sum_list (map entry_bytes (entries b))"
proof -
  have "log_ok env lib (b0, [], [])" "buf_max_objects b0 = n" "max_bytes b0 = bytes"
    using assms(1,2) by (auto simp: buffer_new_def log_ok_def delivered_def split: if_splits)
  moreover from this(1) have "log_ok env lib (b, accepted, out)" using log_ok_run [of env lib "(b0, [], [])" cs] assms(3) by simp
  moreover have "buf_max_objects b = buf_max_objects b0 \<and> max_bytes b = max_bytes b0"
    using buffer_limits [of env lib cs b0 "[]" "[]"] assms(3) by simp
  ultimately show ?thesis using subseq_prefix_part by (auto simp: log_ok_def)
qed

theorem delivery_in_order_witness:
  "\<exists>b accepted out. fold (buffer_step ex_env ex_objects)
     (map (\<lambda>(k, e). PushEntry ex_gate ex_lease e 20) (program ex_catalog) @ [PopEntry ex_gate ex_lease 21])
     (projr (buffer_new 2 100), [], []) = (b, accepted, out)
   \<and> map (mo_key \<circ> ce_object) accepted = [1, 3] \<and> map (mo_key \<circ> ce_object) (delivered out) = [1] \<and> buffered_bytes b = 2"
proof -
  let ?cs = "map (\<lambda>(k, e). PushEntry ex_gate ex_lease e 20) (program ex_catalog) @ [PopEntry ex_gate ex_lease 21]"
  obtain b acc out where f: "fold (buffer_step ex_env ex_objects) ?cs (projr (buffer_new 2 100), [], []) = (b, acc, out)"
    by (metis prod_cases3)
  have "(\<lambda>(b, acc, out). (map (mo_key \<circ> ce_object) acc, map (mo_key \<circ> ce_object) (delivered out), map entry_bytes (entries b)))
      (fold (buffer_step ex_env ex_objects) ?cs (projr (buffer_new 2 100), [], [])) = ([1, 3], [1], [2])" by code_simp
  then have "map (mo_key \<circ> ce_object) acc = [1, 3]" "map (mo_key \<circ> ce_object) (delivered out) = [1]" "map entry_bytes (entries b) = [2]"
    unfolding f by simp_all
  moreover have "buffer_new 2 100 = Inr (projr (buffer_new 2 100) :: (nat, unit) delivery_buffer)"
    by (simp add: buffer_new_def DEFAULT_MAX_CATALOG_OBJECTS_def)
  ultimately show ?thesis using f delivery_in_order [OF _ _ f, of 2 100] by (auto simp: u64_max_def)
qed

end
