(* ===== verification/Wire_Bytes.thy ===== *)
theory Wire_Bytes
  imports Mesh_Prelude
begin

text \<open>
  Bytes on the wire: \<open>to_le_bytes\<close>, \<open>from_le_bytes\<close>, \<open>to_be_bytes\<close> and \<open>from_be_bytes\<close> of
  Rust's integers, slices \<open>&b[i..j]\<close>, and the UTF-8 check of \<open>std::str::from_utf8\<close>.

  The contract a format relies on is the locale \<open>wire_field\<close>: a field of fixed width whose
  encoder and decoder are inverse to each other in both directions. It is interpreted on the
  16, 32 and 64 bit integers in both byte orders; the formats of the mesh (the telemetry
  envelope, the cached live slots, the audio bundles) rest on its facts.
\<close>

type_synonym bytes = "u8 list"

named_theorems wire_simps \<open>lengths and contents of encoded fields\<close>

section \<open>Slices\<close>

text \<open>\<open>&b[i..i + n]\<close>. The callers check the length first, as the source does.\<close>

definition slice :: "nat \<Rightarrow> nat \<Rightarrow> 'a list \<Rightarrow> 'a list" where
  "slice i n b = take n (drop i b)"

lemma length_slice [wire_simps]: "i + n \<le> length b \<Longrightarrow> length (slice i n b) = n"
  by (simp add: slice_def)

lemma slice_prefix: "slice (length a) (length b) (a @ b @ c) = b"
  by (simp add: slice_def)

lemma slice_at: "length a = i \<Longrightarrow> length b = n \<Longrightarrow> slice i n (a @ b @ c) = b"
  by (auto simp: slice_def)

lemma slice_skip: "length a \<le> i \<Longrightarrow> slice i n (a @ b) = slice (i - length a) n b"
  by (simp add: slice_def)

lemma slice_here: "length a = n \<Longrightarrow> slice 0 n (a @ b) = a"
  by (simp add: slice_def)

lemma slice_Cons: "0 < i \<Longrightarrow> slice i n (x # b) = slice (i - 1) n b"
  by (cases i) (simp_all add: slice_def)

lemma slice_here_all: "length a = n \<Longrightarrow> slice 0 n a = a"
  by (simp add: slice_def)

lemma slice_three: "slice 0 3 (a # b # c # d) = [a, b, c]"
  by (simp add: slice_def numeral_3_eq_3)

lemmas slice_eval = slice_Cons slice_skip slice_here slice_here_all slice_three

lemma slice_join: "i + n = j \<Longrightarrow> slice i n b @ slice j m b = slice i (n + m) b"
  using take_add [of n m "drop i b"] by (auto simp: slice_def add.commute)

lemma slice_all: "slice 0 (length b) b = b"
  by (simp add: slice_def)

lemma slice_all_n: "n = length b \<Longrightarrow> slice 0 n b = b"
  by (simp add: slice_def)

lemma slice_rest: "i + n = length b \<Longrightarrow> drop i b = slice i n b"
  by (simp add: slice_def)

lemma nth_slice_Cons: "i < length b \<Longrightarrow> slice i 1 b = [b ! i]"
  by (simp add: slice_def take_Suc_conv_app_nth hd_drop_conv_nth take_Suc drop_eq_Nil)

section \<open>Integers as bytes\<close>

fun le_bytes :: "nat \<Rightarrow> nat \<Rightarrow> bytes" where
  "le_bytes 0 x = []"
| "le_bytes (Suc n) x = of_nat (x mod 256) # le_bytes n (x div 256)"

fun le_value :: "bytes \<Rightarrow> nat" where
  "le_value [] = 0"
| "le_value (b # bs) = unat b + 256 * le_value bs"

definition be_bytes :: "nat \<Rightarrow> nat \<Rightarrow> bytes" where
  "be_bytes n x = rev (le_bytes n x)"

definition be_value :: "bytes \<Rightarrow> nat" where
  "be_value bs = le_value (rev bs)"

lemma length_le_bytes [simp]: "length (le_bytes n x) = n"
  by (induction n arbitrary: x) auto

lemma unat_of_nat_small: "x < 2 ^ LENGTH('a) \<Longrightarrow> unat (of_nat x :: 'a::len word) = x"
  by (simp add: unsigned_of_nat take_bit_nat_eq_self)

lemma unat_less_pow: "unat (w :: 'a::len word) < 2 ^ LENGTH('a)"
  by (rule unsigned_less)

lemma unat_byte [simp]: "x < 256 \<Longrightarrow> unat (of_nat x :: u8) = x"
  by (simp add: unat_of_nat_small)

lemma le_value_le_bytes: "x < 256 ^ n \<Longrightarrow> le_value (le_bytes n x) = x"
proof (induction n arbitrary: x)
  case 0
  then show ?case by simp
next
  case (Suc n)
  then have "x div 256 < 256 ^ n"
    by (simp add: less_mult_imp_div_less mult.commute)
  with Suc.IH show ?case
    by simp
qed

lemma unat_byte_less: "unat (b :: u8) < 256"
  using unat_less_pow [of b] by simp

lemma le_value_less: "le_value bs < 256 ^ length bs"
proof (induction bs)
  case Nil
  then show ?case by simp
next
  case (Cons b bs)
  have "unat b < 256"
    by (rule unat_byte_less)
  with Cons.IH have "unat b + 256 * le_value bs < 256 + 256 * (256 ^ length bs - 1)"
    by linarith
  also have "\<dots> = 256 ^ length (b # bs)"
    by (simp add: algebra_simps)
  finally show ?case by simp
qed

lemma le_bytes_le_value: "le_bytes (length bs) (le_value bs) = bs"
proof (induction bs)
  case Nil
  then show ?case by simp
next
  case (Cons b bs)
  have "unat b < 256"
    by (rule unat_byte_less)
  then have "(unat b + 256 * le_value bs) mod 256 = unat b"
    and "(unat b + 256 * le_value bs) div 256 = le_value bs"
    by simp_all
  with Cons.IH show ?case by simp
qed

section \<open>The contract of a fixed-width field\<close>

locale wire_field =
  fixes enc :: "'a \<Rightarrow> bytes" and dec :: "bytes \<Rightarrow> 'a" and width :: nat
  assumes enc_length: "length (enc x) = width"
    and dec_enc: "dec (enc x) = x"
    and enc_dec: "length bs = width \<Longrightarrow> enc (dec bs) = bs"
begin

lemma enc_inj: "enc x = enc y \<longleftrightarrow> x = y"
  using dec_enc by metis

lemma read_back: "length a = i \<Longrightarrow> dec (slice i width (a @ enc x @ c)) = x"
  using slice_at [of a i "enc x" width c] by (simp add: enc_length dec_enc)

lemma rewrite_slice: "i + width \<le> length b \<Longrightarrow> enc (dec (slice i width b)) = slice i width b"
  by (simp add: enc_dec length_slice)

lemma dec_eq_iff: "length bs = width \<Longrightarrow> dec bs = x \<longleftrightarrow> bs = enc x"
  using dec_enc enc_dec by metis

end

definition to_le :: "nat \<Rightarrow> 'a::len word \<Rightarrow> bytes" where
  "to_le n w = le_bytes n (unat w)"

definition from_le :: "bytes \<Rightarrow> 'a::len word" where
  "from_le bs = of_nat (le_value bs)"

definition to_be :: "nat \<Rightarrow> 'a::len word \<Rightarrow> bytes" where
  "to_be n w = be_bytes n (unat w)"

definition from_be :: "bytes \<Rightarrow> 'a::len word" where
  "from_be bs = of_nat (be_value bs)"

abbreviation u16_le :: "u16 \<Rightarrow> bytes" where "u16_le \<equiv> to_le 2"
abbreviation u32_le :: "u32 \<Rightarrow> bytes" where "u32_le \<equiv> to_le 4"
abbreviation u64_le :: "u64 \<Rightarrow> bytes" where "u64_le \<equiv> to_le 8"
abbreviation u16_be :: "u16 \<Rightarrow> bytes" where "u16_be \<equiv> to_be 2"
abbreviation u32_be :: "u32 \<Rightarrow> bytes" where "u32_be \<equiv> to_be 4"
abbreviation u64_be :: "u64 \<Rightarrow> bytes" where "u64_be \<equiv> to_be 8"

lemma wire_field_le:
  assumes "LENGTH('a::len) = 8 * n"
  shows "wire_field (to_le n :: 'a word \<Rightarrow> bytes) from_le n"
proof
  have pow: "(256 :: nat) ^ n = 2 ^ LENGTH('a)"
    by (simp add: assms power_mult)
  show "length (to_le n x) = n" for x :: "'a word"
    by (simp add: to_le_def)
  show "from_le (to_le n x) = x" for x :: "'a word"
    using unat_less_pow [of x] by (simp add: to_le_def from_le_def le_value_le_bytes pow)
  show "to_le n (from_le bs :: 'a word) = bs" if "length bs = n" for bs
    using that le_value_less [of bs] le_bytes_le_value [of bs]
    by (simp add: to_le_def from_le_def unat_of_nat_small pow)
qed

lemma wire_field_be:
  assumes "LENGTH('a::len) = 8 * n"
  shows "wire_field (to_be n :: 'a word \<Rightarrow> bytes) from_be n"
proof -
  have le: "wire_field (to_le n :: 'a word \<Rightarrow> bytes) from_le n"
    using assms by (rule wire_field_le)
  have to_rev: "to_be n w = rev (to_le n w)" and from_rev: "from_be bs = from_le (rev bs)"
    for w :: "'a word" and bs
    by (simp_all add: to_be_def to_le_def from_be_def from_le_def be_bytes_def be_value_def)
  show ?thesis
    using le by (simp add: wire_field_def to_rev from_rev)
qed

interpretation le16: wire_field u16_le from_le 2
  by (rule wire_field_le) simp
interpretation le32: wire_field u32_le from_le 4
  by (rule wire_field_le) simp
interpretation le64: wire_field u64_le from_le 8
  by (rule wire_field_le) simp
interpretation be16: wire_field u16_be from_be 2
  by (rule wire_field_be) simp
interpretation be32: wire_field u32_be from_be 4
  by (rule wire_field_be) simp
interpretation be64: wire_field u64_be from_be 8
  by (rule wire_field_be) simp

lemmas wire_lengths [simp] =
  le16.enc_length le32.enc_length le64.enc_length
  be16.enc_length be32.enc_length be64.enc_length

lemmas wire_back [simp] =
  le16.dec_enc le32.dec_enc le64.dec_enc be16.dec_enc be32.dec_enc be64.dec_enc

lemmas wire_again [wire_simps] =
  le16.enc_dec le32.enc_dec le64.enc_dec be16.enc_dec be32.enc_dec be64.enc_dec

text \<open>\<open>u16::try_from\<close>, \<open>u32::try_from\<close> of a \<open>usize\<close>, and byte-string literals \<open>b"..."\<close>.\<close>

definition try_word :: "nat \<Rightarrow> 'a::len word option" where
  "try_word x = (if x < 2 ^ LENGTH('a) then Some (of_nat x) else None)"

lemma try_word_Some: "try_word x = Some (w :: 'a::len word) \<longleftrightarrow> unat w = x"
  using unat_less_pow [of w] by (auto simp: try_word_def unat_of_nat_small)

lemma try_word_None: "try_word x = (None :: 'a::len word option) \<longleftrightarrow> 2 ^ LENGTH('a) \<le> x"
  by (simp add: try_word_def not_less)

definition ascii :: "string \<Rightarrow> bytes" where
  "ascii s = map (\<lambda>c. of_nat (of_char c)) s"

lemma length_ascii [simp]: "length (ascii s) = length s"
  by (simp add: ascii_def)

section \<open>UTF-8\<close>

text \<open>The well-formed byte sequences of the Unicode standard, which \<open>from_utf8\<close> accepts: no
  overlong form, no surrogate, nothing above U+10FFFF.\<close>

definition in_range :: "nat \<Rightarrow> nat \<Rightarrow> u8 \<Rightarrow> bool" where
  "in_range lo hi b \<longleftrightarrow> lo \<le> unat b \<and> unat b \<le> hi"

abbreviation is_cont :: "u8 \<Rightarrow> bool" where
  "is_cont \<equiv> in_range 128 191"

definition utf8_pair :: "u8 \<Rightarrow> u8 \<Rightarrow> bool" where
  "utf8_pair a b \<longleftrightarrow> in_range 194 223 a \<and> is_cont b"

definition utf8_triple :: "u8 \<Rightarrow> u8 \<Rightarrow> u8 \<Rightarrow> bool" where
  "utf8_triple a b c \<longleftrightarrow> is_cont c \<and>
     (unat a = 224 \<and> in_range 160 191 b \<or> in_range 225 236 a \<and> is_cont b \<or>
      unat a = 237 \<and> in_range 128 159 b \<or> in_range 238 239 a \<and> is_cont b)"

definition utf8_quad :: "u8 \<Rightarrow> u8 \<Rightarrow> u8 \<Rightarrow> u8 \<Rightarrow> bool" where
  "utf8_quad a b c d \<longleftrightarrow> is_cont c \<and> is_cont d \<and>
     (unat a = 240 \<and> in_range 144 191 b \<or> in_range 241 243 a \<and> is_cont b \<or>
      unat a = 244 \<and> in_range 128 143 b)"

fun utf8_valid :: "bytes \<Rightarrow> bool" where
  "utf8_valid [] = True"
| "utf8_valid (a # bs) =
     (if unat a < 128 then utf8_valid bs
      else case bs of
        [] \<Rightarrow> False
      | b # cs \<Rightarrow> if utf8_pair a b then utf8_valid cs
          else (case cs of
            [] \<Rightarrow> False
          | c # ds \<Rightarrow> if utf8_triple a b c then utf8_valid ds
              else (case ds of
                [] \<Rightarrow> False
              | d # es \<Rightarrow> utf8_quad a b c d \<and> utf8_valid es)))"

lemma utf8_valid_ascii: "list_all (\<lambda>b. unat b < 128) bs \<Longrightarrow> utf8_valid bs"
  by (induction bs) auto

end
