(* ===== verification/Telemetry_Fec.thy ===== *)
theory Telemetry_Fec
  imports Wire_Bytes
begin

text \<open>
  Fleet telemetry over RaptorQ datagrams, \<open>src/src/telemetry_fec.rs\<close>: the envelope format, the
  queue that keeps the latest blocks, the encoder and the per-peer decoder.

  The crates \<open>crc32fast\<close> and \<open>raptorq_datagram_fec\<close> are parameters: the checksum is a function
  \<open>crc\<close> on bytes, and the record \<open>raptorq\<close> holds the calls the source makes on an encoder or
  decoder state it never inspects. A \<open>HashMap\<close> promises no iteration order, so the decoder takes
  the order in which it visits a peer's blocks as a parameter \<open>iter\<close>; the theorems let it differ
  at every call. Instants and durations are nanoseconds. The wake-up of a waiting sender
  (\<open>tokio::sync::Notify\<close>) carries no data and is left out.
\<close>

section \<open>Errors and constants\<close>

datatype 'e telemetry_fec_error =
    EnvelopeTooShort nat
  | EnvelopeTooLarge nat
  | InvalidMagic
  | UnsupportedVersion u8
  | UnsupportedKind u8
  | InvalidNodeIdLength nat
  | InvalidNodeIdEncoding
  | EmptyPayload
  | LengthMismatch nat nat
  | PayloadChecksumMismatch
  | UnexpectedSymbolSize u16
  | PeerLimitExceeded nat
  | PeerIdentityChanged
  | RaptorQ 'e

definition TELEMETRY_ENVELOPE_MAGIC :: bytes where
  "TELEMETRY_ENVELOPE_MAGIC = ascii ''NTF1''"

definition TELEMETRY_ENVELOPE_VERSION :: u8 where
  "TELEMETRY_ENVELOPE_VERSION = 1"

definition TELEMETRY_KIND_MESH_SNAPSHOT :: u8 where
  "TELEMETRY_KIND_MESH_SNAPSHOT = 1"

definition TELEMETRY_SYMBOL_SIZE :: u16 where
  "TELEMETRY_SYMBOL_SIZE = 1152"

definition MAX_TELEMETRY_ENVELOPE_BYTES :: nat where
  "MAX_TELEMETRY_ENVELOPE_BYTES = 32768"

definition MAX_TELEMETRY_NODE_ID_BYTES :: nat where
  "MAX_TELEMETRY_NODE_ID_BYTES = 128"

definition MAX_TELEMETRY_QUEUE_BLOCKS :: nat where
  "MAX_TELEMETRY_QUEUE_BLOCKS = 2"

definition MAX_TELEMETRY_QUEUE_BYTES :: nat where
  "MAX_TELEMETRY_QUEUE_BYTES = 65536"

definition DEFAULT_TELEMETRY_REPAIR_PERCENT :: u8 where
  "DEFAULT_TELEMETRY_REPAIR_PERCENT = 20"

definition DEFAULT_MAX_TELEMETRY_PEERS :: nat where
  "DEFAULT_MAX_TELEMETRY_PEERS = 256"

definition MAX_IN_FLIGHT_BLOCKS_PER_PEER :: nat where
  "MAX_IN_FLIGHT_BLOCKS_PER_PEER = 2"

definition DEFAULT_IN_FLIGHT_BLOCK_TTL :: nat where
  "DEFAULT_IN_FLIGHT_BLOCK_TTL = 15 * 10 ^ 9"

definition ENVELOPE_HEADER_LEN :: nat where
  "ENVELOPE_HEADER_LEN = 48"

lemmas telemetry_consts =
  TELEMETRY_ENVELOPE_MAGIC_def TELEMETRY_ENVELOPE_VERSION_def TELEMETRY_KIND_MESH_SNAPSHOT_def
  TELEMETRY_SYMBOL_SIZE_def MAX_TELEMETRY_ENVELOPE_BYTES_def MAX_TELEMETRY_NODE_ID_BYTES_def
  MAX_TELEMETRY_QUEUE_BLOCKS_def MAX_TELEMETRY_QUEUE_BYTES_def MAX_IN_FLIGHT_BLOCKS_PER_PEER_def
  ENVELOPE_HEADER_LEN_def

section \<open>The envelope\<close>

text \<open>A Rust \<open>String\<close> is the list of its bytes, which are valid UTF-8.\<close>

record telemetry_envelope =
  te_kind :: u8
  te_boot_id :: u64
  te_sequence :: u64
  te_captured_unix_ms :: u64
  te_period_ms :: u32
  te_node_id :: bytes
  te_payload :: bytes

definition mesh_snapshot ::
  "u64 \<Rightarrow> u64 \<Rightarrow> u64 \<Rightarrow> u32 \<Rightarrow> bytes \<Rightarrow> bytes \<Rightarrow> telemetry_envelope" where
  "mesh_snapshot boot_id sequence captured_unix_ms period_ms node_id payload =
     \<lparr> te_kind = TELEMETRY_KIND_MESH_SNAPSHOT, te_boot_id = boot_id, te_sequence = sequence,
       te_captured_unix_ms = captured_unix_ms, te_period_ms = period_ms,
       te_node_id = node_id, te_payload = payload \<rparr>"

definition envelope_bytes :: "(bytes \<Rightarrow> u32) \<Rightarrow> telemetry_envelope \<Rightarrow> u16 \<Rightarrow> u32 \<Rightarrow> bytes" where
  "envelope_bytes crc e node_id_len payload_len =
     TELEMETRY_ENVELOPE_MAGIC @ [TELEMETRY_ENVELOPE_VERSION, te_kind e] @ u16_le 0 @
     u64_le (te_boot_id e) @ u64_le (te_sequence e) @ u64_le (te_captured_unix_ms e) @
     u32_le (te_period_ms e) @ u16_le node_id_len @ u16_le 0 @ u32_le payload_len @
     u32_le (crc (te_payload e)) @ te_node_id e @ te_payload e"

definition encode_envelope ::
  "(bytes \<Rightarrow> u32) \<Rightarrow> telemetry_envelope \<Rightarrow> 'e telemetry_fec_error + bytes" where
  "encode_envelope crc e =
     (let node_len = length (te_node_id e); payload_len = length (te_payload e) in
      if node_len = 0 \<or> MAX_TELEMETRY_NODE_ID_BYTES < node_len
      then Inl (InvalidNodeIdLength node_len)
      else if payload_len = 0 then Inl EmptyPayload
      else case Option.bind (checked_add ENVELOPE_HEADER_LEN node_len)
                  (\<lambda>l. checked_add l payload_len) of
        None \<Rightarrow> Inl (EnvelopeTooLarge usize_max)
      | Some encoded_len \<Rightarrow>
          if MAX_TELEMETRY_ENVELOPE_BYTES < encoded_len then Inl (EnvelopeTooLarge encoded_len)
          else (case try_word node_len of
            None \<Rightarrow> Inl (InvalidNodeIdLength node_len)
          | Some n16 \<Rightarrow> (case try_word payload_len of
              None \<Rightarrow> Inl (EnvelopeTooLarge encoded_len)
            | Some p32 \<Rightarrow> Inr (envelope_bytes crc e n16 p32))))"

definition read_u64 :: "bytes \<Rightarrow> nat \<Rightarrow> u64" where
  "read_u64 encoded offset = from_le (slice offset 8 encoded)"

definition decode_envelope ::
  "(bytes \<Rightarrow> u32) \<Rightarrow> bytes \<Rightarrow> 'e telemetry_fec_error + telemetry_envelope" where
  "decode_envelope crc encoded =
     (if length encoded < ENVELOPE_HEADER_LEN then Inl (EnvelopeTooShort (length encoded))
      else if MAX_TELEMETRY_ENVELOPE_BYTES < length encoded
      then Inl (EnvelopeTooLarge (length encoded))
      else if slice 0 4 encoded \<noteq> TELEMETRY_ENVELOPE_MAGIC then Inl InvalidMagic
      else if encoded ! 4 \<noteq> TELEMETRY_ENVELOPE_VERSION then Inl (UnsupportedVersion (encoded ! 4))
      else
       let node_id_len = unat (from_le (slice 36 2 encoded) :: u16) in
       if node_id_len = 0 \<or> MAX_TELEMETRY_NODE_ID_BYTES < node_id_len
       then Inl (InvalidNodeIdLength node_id_len)
       else
        let payload_len = unat (from_le (slice 40 4 encoded) :: u32) in
        case Option.bind (checked_add ENVELOPE_HEADER_LEN node_id_len)
               (\<lambda>l. checked_add l payload_len) of
          None \<Rightarrow> Inl (EnvelopeTooLarge usize_max)
        | Some expected_len \<Rightarrow>
            if expected_len \<noteq> length encoded
            then Inl (LengthMismatch expected_len (length encoded))
            else if payload_len = 0 then Inl EmptyPayload
            else
             let node_end = ENVELOPE_HEADER_LEN + node_id_len;
                 node_id = slice ENVELOPE_HEADER_LEN node_id_len encoded;
                 payload = drop node_end encoded in
             if \<not> utf8_valid node_id then Inl InvalidNodeIdEncoding
             else if crc payload \<noteq> from_le (slice 44 4 encoded) then Inl PayloadChecksumMismatch
             else Inr \<lparr> te_kind = encoded ! 5, te_boot_id = read_u64 encoded 8,
                        te_sequence = read_u64 encoded 16,
                        te_captured_unix_ms = read_u64 encoded 24,
                        te_period_ms = from_le (slice 32 4 encoded),
                        te_node_id = node_id, te_payload = payload \<rparr>)"

section \<open>The queue of the latest blocks\<close>

datatype queue_push_outcome = Queued | Replaced nat

record queue_state =
  qs_blocks :: "bytes list"
  qs_bytes :: nat

definition queue_default :: queue_state where
  "queue_default = \<lparr> qs_blocks = [], qs_bytes = 0 \<rparr>"

text \<open>The loop of \<open>push\<close>: drop the oldest block while there are too many blocks or bytes.\<close>

fun make_room :: "nat \<Rightarrow> bytes list \<Rightarrow> nat \<Rightarrow> nat \<Rightarrow> bytes list \<times> nat \<times> nat" where
  "make_room len blocks bytes replaced =
     (if MAX_TELEMETRY_QUEUE_BLOCKS \<le> length blocks \<or>
         MAX_TELEMETRY_QUEUE_BYTES < sat_add bytes len
      then case blocks of
        [] \<Rightarrow> (blocks, bytes, replaced)
      | discarded # rest \<Rightarrow> make_room len rest (sat_sub bytes (length discarded)) (replaced + 1)
      else (blocks, bytes, replaced))"

declare make_room.simps [simp del]

definition queue_push ::
  "bytes \<Rightarrow> queue_state \<Rightarrow> queue_state \<times> ('e telemetry_fec_error + queue_push_outcome)" where
  "queue_push envelope q =
     (if MAX_TELEMETRY_ENVELOPE_BYTES < length envelope
      then (q, Inl (EnvelopeTooLarge (length envelope)))
      else case make_room (length envelope) (qs_blocks q) (qs_bytes q) 0 of
        (blocks, bytes, replaced) \<Rightarrow>
          (\<lparr> qs_blocks = blocks @ [envelope], qs_bytes = sat_add bytes (length envelope) \<rparr>,
           Inr (if replaced = 0 then Queued else Replaced replaced)))"

definition queue_try_pop :: "queue_state \<Rightarrow> queue_state \<times> bytes option" where
  "queue_try_pop q =
     (case qs_blocks q of
        [] \<Rightarrow> (q, None)
      | envelope # rest \<Rightarrow>
          (\<lparr> qs_blocks = rest, qs_bytes = sat_sub (qs_bytes q) (length envelope) \<rparr>,
           Some envelope))"

definition queue_len :: "queue_state \<Rightarrow> nat" where
  "queue_len q = length (qs_blocks q)"

definition queue_has_pending :: "queue_state \<Rightarrow> bool" where
  "queue_has_pending q \<longleftrightarrow> \<not> List.null (qs_blocks q)"

definition queue_is_empty :: "queue_state \<Rightarrow> bool" where
  "queue_is_empty q \<longleftrightarrow> queue_len q = 0"

section \<open>The encoder\<close>

text \<open>The calls on the datagram encoder \<open>'n\<close> and decoder \<open>'d\<close>, and the header fields of a
  datagram that \<open>RaptorQBlockProfile::from_datagram\<close> reads.\<close>

record block_profile =
  bp_block_id :: u32
  bp_transfer_length :: nat
  bp_symbol_size :: u16

record ('n, 'd, 'e) raptorq =
  rq_source_symbol_count :: "nat \<Rightarrow> u16 \<Rightarrow> u16"
  rq_encoder_new :: "u16 \<Rightarrow> 'n"
  rq_set_source_symbols :: "u16 \<Rightarrow> 'n \<Rightarrow> 'n"
  rq_encode_object :: "bytes \<Rightarrow> u32 \<Rightarrow> 'n \<Rightarrow> 'n \<times> ('e + bytes list)"
  rq_from_datagram :: "bytes \<Rightarrow> 'e + block_profile"
  rq_decoder_new :: 'd
  rq_push_datagram :: "bytes \<Rightarrow> 'd \<Rightarrow> 'd \<times> ('e + bytes option)"
  rq_expire_block :: "u32 \<Rightarrow> 'd \<Rightarrow> 'd"

record encoded_telemetry_block =
  eb_source_datagrams :: nat
  eb_datagrams :: "bytes list"

record 'n telemetry_encoder =
  enc_encoder :: 'n
  enc_repair_percent :: u8

definition encoder_new :: "('n, 'd, 'e) raptorq \<Rightarrow> u8 \<Rightarrow> 'n telemetry_encoder" where
  "encoder_new rq repair_percent =
     \<lparr> enc_encoder = rq_encoder_new rq TELEMETRY_SYMBOL_SIZE, enc_repair_percent = repair_percent \<rparr>"

definition encoder_default :: "('n, 'd, 'e) raptorq \<Rightarrow> 'n telemetry_encoder" where
  "encoder_default rq = encoder_new rq DEFAULT_TELEMETRY_REPAIR_PERCENT"

definition repair_datagrams :: "nat \<Rightarrow> u8 \<Rightarrow> nat" where
  "repair_datagrams source_datagrams percent =
     max (div_ceil (sat_mul source_datagrams (unat percent)) 100) 1"

text \<open>\<open>None\<close> is the panic of one of the two \<open>expect\<close> calls.\<close>

definition encoder_encode ::
  "('n, 'd, 'e) raptorq \<Rightarrow> bytes \<Rightarrow> 'n telemetry_encoder \<Rightarrow>
   ('n telemetry_encoder \<times> ('e telemetry_fec_error + encoded_telemetry_block)) option" where
  "encoder_encode rq envelope s =
     (if envelope = [] then Some (s, Inl EmptyPayload)
      else if MAX_TELEMETRY_ENVELOPE_BYTES < length envelope
      then Some (s, Inl (EnvelopeTooLarge (length envelope)))
      else
       let source_datagrams =
             unat (rq_source_symbol_count rq (length envelope) TELEMETRY_SYMBOL_SIZE) in
       case try_word source_datagrams of
         None \<Rightarrow> None
       | Some symbols \<Rightarrow>
          let encoder = rq_set_source_symbols rq symbols (enc_encoder s) in
          (case try_word (repair_datagrams source_datagrams (enc_repair_percent s)) of
             None \<Rightarrow> None
           | Some repair \<Rightarrow>
              (case rq_encode_object rq envelope repair encoder of
                 (encoder', Inl e) \<Rightarrow> Some (s\<lparr>enc_encoder := encoder'\<rparr>, Inl (RaptorQ e))
               | (encoder', Inr datagrams) \<Rightarrow>
                   Some (s\<lparr>enc_encoder := encoder'\<rparr>,
                     Inr \<lparr> eb_source_datagrams = source_datagrams,
                           eb_datagrams = datagrams \<rparr>))))"

section \<open>The decoder\<close>

record accepted_sequence =
  as_boot_id :: u64
  as_sequence :: u64

record 'd peer_decoder =
  pd_decoder :: 'd
  pd_blocks :: "(u32 \<times> nat) list"
  pd_node_id :: "bytes option"
  pd_accepted_sequence :: "accepted_sequence option"
  pd_last_seen :: nat

datatype telemetry_decode_outcome = Pending | Duplicate | Complete telemetry_envelope

record ('p, 'd) telemetry_decoder =
  td_peers :: "('p \<times> 'd peer_decoder) list"
  td_max_peers :: nat
  td_block_ttl :: nat

definition decoder_new :: "nat \<Rightarrow> nat \<Rightarrow> ('p, 'd) telemetry_decoder" where
  "decoder_new max_peers block_ttl =
     \<lparr> td_peers = [], td_max_peers = max max_peers 1, td_block_ttl = block_ttl \<rparr>"

definition decoder_default :: "('p, 'd) telemetry_decoder" where
  "decoder_default = decoder_new DEFAULT_MAX_TELEMETRY_PEERS DEFAULT_IN_FLIGHT_BLOCK_TTL"

text \<open>\<open>Duration::saturating_mul\<close>: a duration holds at most \<open>2\<^sup>64\<close> seconds less a nanosecond.\<close>

definition duration_max :: nat where
  "duration_max = 2 ^ 64 * 10 ^ 9 - 1"

definition prune_idle_peers :: "nat \<Rightarrow> ('p, 'd) telemetry_decoder \<Rightarrow> ('p, 'd) telemetry_decoder" where
  "prune_idle_peers now s =
     (let idle_ttl = min (4 * td_block_ttl s) duration_max in
      s\<lparr>td_peers := retain (\<lambda>_ peer. now - pd_last_seen peer < idle_ttl) (td_peers s)\<rparr>)"

definition check_profile ::
  "('n, 'd, 'e) raptorq \<Rightarrow> bytes \<Rightarrow> 'e telemetry_fec_error + block_profile" where
  "check_profile rq datagram =
     (case rq_from_datagram rq datagram of
        Inl e \<Rightarrow> Inl (RaptorQ e)
      | Inr profile \<Rightarrow>
          if MAX_TELEMETRY_ENVELOPE_BYTES < bp_transfer_length profile
          then Inl (EnvelopeTooLarge (bp_transfer_length profile))
          else if bp_symbol_size profile \<noteq> TELEMETRY_SYMBOL_SIZE
          then Inl (UnexpectedSymbolSize (bp_symbol_size profile))
          else Inr profile)"

definition peer_new :: "('n, 'd, 'e) raptorq \<Rightarrow> nat \<Rightarrow> 'd peer_decoder" where
  "peer_new rq now =
     \<lparr> pd_decoder = rq_decoder_new rq, pd_blocks = [], pd_node_id = None,
       pd_accepted_sequence = None, pd_last_seen = now \<rparr>"

definition drop_block :: "('n, 'd, 'e) raptorq \<Rightarrow> u32 \<Rightarrow> 'd peer_decoder \<Rightarrow> 'd peer_decoder" where
  "drop_block rq block_id peer =
     peer\<lparr>pd_blocks := tdel block_id (pd_blocks peer),
          pd_decoder := rq_expire_block rq block_id (pd_decoder peer)\<rparr>"

definition expire_blocks ::
  "((u32 \<times> nat) list \<Rightarrow> (u32 \<times> nat) list) \<Rightarrow> ('n, 'd, 'e) raptorq \<Rightarrow> nat \<Rightarrow> nat \<Rightarrow>
   'd peer_decoder \<Rightarrow> 'd peer_decoder" where
  "expire_blocks iter rq block_ttl now peer =
     fold (drop_block rq)
       (map fst (filter (\<lambda>(block_id, started). block_ttl \<le> now - started) (iter (pd_blocks peer))))
       peer"

definition evict_oldest ::
  "((u32 \<times> nat) list \<Rightarrow> (u32 \<times> nat) list) \<Rightarrow> ('n, 'd, 'e) raptorq \<Rightarrow> u32 \<Rightarrow>
   'd peer_decoder \<Rightarrow> 'd peer_decoder" where
  "evict_oldest iter rq block_id peer =
     (if map_of (pd_blocks peer) block_id = None \<and>
         MAX_IN_FLIGHT_BLOCKS_PER_PEER \<le> length (pd_blocks peer)
      then case min_by_key snd (iter (pd_blocks peer)) of
        None \<Rightarrow> peer
      | Some (oldest, _) \<Rightarrow> drop_block rq oldest peer
      else peer)"

definition track_block :: "u32 \<Rightarrow> nat \<Rightarrow> 'd peer_decoder \<Rightarrow> 'd peer_decoder" where
  "track_block block_id now peer =
     (if map_of (pd_blocks peer) block_id = None
      then peer\<lparr>pd_blocks := tput block_id now (pd_blocks peer)\<rparr> else peer)"

definition accept_envelope ::
  "telemetry_envelope \<Rightarrow> 'd peer_decoder \<Rightarrow>
   'd peer_decoder \<times> ('e telemetry_fec_error + telemetry_decode_outcome)" where
  "accept_envelope envelope peer =
     (if te_kind envelope \<noteq> TELEMETRY_KIND_MESH_SNAPSHOT
      then (peer, Inl (UnsupportedKind (te_kind envelope)))
      else if (case pd_node_id peer of None \<Rightarrow> False | Some n \<Rightarrow> n \<noteq> te_node_id envelope)
      then (peer, Inl PeerIdentityChanged)
      else
       let peer = peer\<lparr>pd_node_id := Some (te_node_id envelope)\<rparr>;
           sequence = \<lparr> as_boot_id = te_boot_id envelope, as_sequence = te_sequence envelope \<rparr> in
       if (case pd_accepted_sequence peer of
             None \<Rightarrow> False
           | Some accepted \<Rightarrow> as_boot_id accepted = as_boot_id sequence \<and>
               as_sequence sequence \<le> as_sequence accepted)
       then (peer, Inr Duplicate)
       else (peer\<lparr>pd_accepted_sequence := Some sequence\<rparr>, Inr (Complete envelope)))"

definition feed_peer ::
  "(bytes \<Rightarrow> u32) \<Rightarrow> ('n, 'd, 'e) raptorq \<Rightarrow> u32 \<Rightarrow> bytes \<Rightarrow> 'd peer_decoder \<Rightarrow>
   'd peer_decoder \<times> ('e telemetry_fec_error + telemetry_decode_outcome)" where
  "feed_peer crc rq block_id datagram peer =
     (case rq_push_datagram rq datagram (pd_decoder peer) of
        (decoder, Inl e) \<Rightarrow> (peer\<lparr>pd_decoder := decoder\<rparr>, Inl (RaptorQ e))
      | (decoder, Inr None) \<Rightarrow> (peer\<lparr>pd_decoder := decoder\<rparr>, Inr Pending)
      | (decoder, Inr (Some decoded)) \<Rightarrow>
          let peer = peer\<lparr>pd_decoder := decoder, pd_blocks := tdel block_id (pd_blocks peer)\<rparr> in
          (case decode_envelope crc decoded of
             Inl e \<Rightarrow> (peer, Inl e)
           | Inr envelope \<Rightarrow> accept_envelope envelope peer))"

definition peer_step ::
  "((u32 \<times> nat) list \<Rightarrow> (u32 \<times> nat) list) \<Rightarrow> (bytes \<Rightarrow> u32) \<Rightarrow> ('n, 'd, 'e) raptorq \<Rightarrow> nat \<Rightarrow>
   u32 \<Rightarrow> bytes \<Rightarrow> nat \<Rightarrow> 'd peer_decoder \<Rightarrow>
   'd peer_decoder \<times> ('e telemetry_fec_error + telemetry_decode_outcome)" where
  "peer_step iter crc rq block_ttl block_id datagram now peer =
     feed_peer crc rq block_id datagram
       (track_block block_id now
         (evict_oldest iter rq block_id
           (expire_blocks iter rq block_ttl now (peer\<lparr>pd_last_seen := now\<rparr>))))"

definition push_datagram_at ::
  "((u32 \<times> nat) list \<Rightarrow> (u32 \<times> nat) list) \<Rightarrow> (bytes \<Rightarrow> u32) \<Rightarrow> ('n, 'd, 'e) raptorq \<Rightarrow>
   'p \<Rightarrow> bytes \<Rightarrow> nat \<Rightarrow> ('p, 'd) telemetry_decoder \<Rightarrow>
   ('p, 'd) telemetry_decoder \<times> ('e telemetry_fec_error + telemetry_decode_outcome)" where
  "push_datagram_at iter crc rq peer datagram now s =
     (case check_profile rq datagram of
        Inl e \<Rightarrow> (s, Inl e)
      | Inr profile \<Rightarrow>
          let s = prune_idle_peers now s in
          if map_of (td_peers s) peer = None \<and> td_max_peers s \<le> length (td_peers s)
          then (s, Inl (PeerLimitExceeded (td_max_peers s)))
          else
           let entry = get_or (peer_new rq now) (td_peers s) peer in
           (case peer_step iter crc rq (td_block_ttl s) (bp_block_id profile) datagram now entry of
              (entry', r) \<Rightarrow> (s\<lparr>td_peers := tput peer entry' (td_peers s)\<rparr>, r)))"

definition peer_count :: "('p, 'd) telemetry_decoder \<Rightarrow> nat" where
  "peer_count s = length (td_peers s)"

definition in_flight_block_count :: "'p \<Rightarrow> ('p, 'd) telemetry_decoder \<Rightarrow> nat" where
  "in_flight_block_count peer s =
     (case map_of (td_peers s) peer of None \<Rightarrow> 0 | Some state \<Rightarrow> length (pd_blocks state))"

end
