(* ===== verification/Telemetry_Properties.thy ===== *)
theory Telemetry_Properties
  imports Telemetry_Fec
begin

text \<open>
  What the telemetry transport promises: the envelope format loses nothing and is canonical up to
  its reserved bytes, the queue is the window of the two latest blocks, the encoder never panics,
  and the decoder keeps its limits and delivers each peer's snapshots under one identity and in
  increasing sequence.
\<close>

section \<open>The envelope\<close>

definition envelope_sane :: "telemetry_envelope \<Rightarrow> bool" where
  "envelope_sane e \<longleftrightarrow> te_node_id e \<noteq> [] \<and> length (te_node_id e) \<le> 128 \<and> te_payload e \<noteq> [] \<and>
     48 + length (te_node_id e) + length (te_payload e) \<le> 32768"

lemma encode_envelope_Inr:
  "encode_envelope crc e = Inr b \<longleftrightarrow> envelope_sane e \<and>
     b = envelope_bytes crc e (of_nat (length (te_node_id e))) (of_nat (length (te_payload e)))"
  by (auto simp: encode_envelope_def envelope_sane_def telemetry_consts u64_max_def Let_def
      try_word_def checked_add_def split: if_splits option.splits)

lemma envelope_bytes_length:
  "length (envelope_bytes crc e n p) = 48 + length (te_node_id e) + length (te_payload e)"
  by (simp add: envelope_bytes_def telemetry_consts)

lemma envelope_bytes_fields:
  fixes crc e n p defines "b \<equiv> envelope_bytes crc e n p"
  shows "slice 0 4 b = TELEMETRY_ENVELOPE_MAGIC" "b ! 4 = TELEMETRY_ENVELOPE_VERSION"
    "b ! 5 = te_kind e" "slice 36 2 b = u16_le n" "slice 40 4 b = u32_le p"
    "slice 44 4 b = u32_le (crc (te_payload e))" "slice 32 4 b = u32_le (te_period_ms e)"
    "read_u64 b 8 = te_boot_id e" "read_u64 b 16 = te_sequence e"
    "read_u64 b 24 = te_captured_unix_ms e" "drop 48 b = te_node_id e @ te_payload e"
  by (simp_all add: b_def envelope_bytes_def telemetry_consts slice_eval read_u64_def nth_append)

lemma decode_encoded:
  assumes "encode_envelope crc e = Inr b" "utf8_valid (te_node_id e)"
  shows "decode_envelope crc b = Inr e"
proof -
  let ?n = "length (te_node_id e)" and ?p = "length (te_payload e)"
  have sane: "envelope_sane e" and b: "b = envelope_bytes crc e (of_nat ?n) (of_nat ?p)"
    using assms(1) by (simp_all add: encode_envelope_Inr)
  have n: "unat (of_nat ?n :: u16) = ?n" and p: "unat (of_nat ?p :: u32) = ?p"
    using sane by (auto simp: envelope_sane_def intro!: unat_of_nat_small)
  have node: "slice 48 ?n b = te_node_id e" and pay: "drop (48 + ?n) b = te_payload e"
    using envelope_bytes_fields(11) [of crc e "of_nat ?n" "of_nat ?p"]
    drop_drop [of ?n 48 b]
    by (simp_all add: b slice_def add.commute)
  show ?thesis
    using sane assms(2) node pay
    by (simp add: decode_envelope_def b envelope_bytes_length envelope_bytes_fields n p
        telemetry_consts(5,6,10) envelope_sane_def u64_max_def checked_add_def)
qed

text \<open>\<open>decode\<close> does not look at the four reserved bytes; the canonical form has them zero.\<close>

definition clear_reserved :: "bytes \<Rightarrow> bytes" where
  "clear_reserved b = take 6 b @ u16_le 0 @ slice 8 30 b @ u16_le 0 @ drop 40 b"

lemma decode_envelope_Inr:
  assumes "decode_envelope crc b = Inr e"
  defines "n \<equiv> unat (from_le (slice 36 2 b) :: u16)"
    and "p \<equiv> unat (from_le (slice 40 4 b) :: u32)"
  shows "0 < n \<and> n \<le> 128 \<and> 0 < p \<and> length b = 48 + n + p \<and> length b \<le> 32768 \<and>
    slice 0 4 b = TELEMETRY_ENVELOPE_MAGIC \<and> b ! 4 = TELEMETRY_ENVELOPE_VERSION \<and>
    utf8_valid (slice 48 n b) \<and> crc (drop (48 + n) b) = from_le (slice 44 4 b) \<and>
    e = \<lparr> te_kind = b ! 5, te_boot_id = read_u64 b 8, te_sequence = read_u64 b 16,
          te_captured_unix_ms = read_u64 b 24, te_period_ms = from_le (slice 32 4 b),
          te_node_id = slice 48 n b, te_payload = drop (48 + n) b \<rparr>"
  using assms(1) unfolding decode_envelope_def n_def [symmetric] p_def [symmetric]
  by (auto simp: Let_def telemetry_consts(5,6,10) checked_add_def
      split: if_splits option.splits)

lemma encode_decoded:
  assumes dec: "decode_envelope crc b = Inr e"
  shows "encode_envelope crc e = Inr (clear_reserved b)"
proof -
  define n where "n = unat (from_le (slice 36 2 b) :: u16)"
  define p where "p = unat (from_le (slice 40 4 b) :: u32)"
  note facts = decode_envelope_Inr [OF dec, folded n_def p_def]
  have len: "48 + n + p = length b" "0 < n" "n \<le> 128" "0 < p" "length b \<le> 32768"
    using facts by auto
  have node: "length (te_node_id e) = n" and pay: "length (te_payload e) = p"
    using facts len by (simp_all add: length_slice)
  have n16: "of_nat n = (from_le (slice 36 2 b) :: u16)"
    and p32: "of_nat p = (from_le (slice 40 4 b) :: u32)"
    by (simp_all add: n_def p_def)
  have fields: "u16_le (of_nat n) = slice 36 2 b" "u32_le (of_nat p) = slice 40 4 b"
    "u64_le (te_boot_id e) = slice 8 8 b" "u64_le (te_sequence e) = slice 16 8 b"
    "u64_le (te_captured_unix_ms e) = slice 24 8 b" "u32_le (te_period_ms e) = slice 32 4 b"
    "u32_le (crc (te_payload e)) = slice 44 4 b"
    using facts len by (simp_all add: n16 p32 wire_simps read_u64_def)
  have mid: "slice 8 8 b @ slice 16 8 b @ slice 24 8 b @ slice 32 4 b @ slice 36 2 b = slice 8 30 b"
    by (simp add: slice_join)
  have tail: "slice 40 4 b @ slice 44 4 b @ te_node_id e @ te_payload e = drop 40 b"
  proof -
    have "te_node_id e @ te_payload e = drop 48 b"
      using facts append_take_drop_id [of n "drop 48 b"]
      by (simp add: slice_def add.commute)
    moreover have "slice 44 4 b @ drop 48 b = drop 44 b"
      using append_take_drop_id [of 4 "drop 44 b"] by (simp add: slice_def)
    moreover have "slice 40 4 b @ drop 44 b = drop 40 b"
      using append_take_drop_id [of 4 "drop 40 b"] by (simp add: slice_def)
    ultimately show ?thesis by metis
  qed
  have front: "take 6 b = TELEMETRY_ENVELOPE_MAGIC @ [TELEMETRY_ENVELOPE_VERSION, te_kind e]"
  proof -
    have "take 6 b = slice 0 4 b @ slice 4 1 b @ slice 5 1 b"
      using slice_join [of 4 1 5 b 1] slice_join [of 0 4 4 b 2]
      by (simp add: slice_def numeral_2_eq_2)
    moreover have "slice 0 4 b = TELEMETRY_ENVELOPE_MAGIC" "b ! 4 = TELEMETRY_ENVELOPE_VERSION"
      "b ! 5 = te_kind e"
      using facts by auto
    moreover have "slice 4 1 b = [b ! 4]" "slice 5 1 b = [b ! 5]"
      using len by (simp_all only: nth_slice_Cons)
    ultimately show ?thesis by simp
  qed
  have "envelope_bytes crc e (of_nat n) (of_nat p) = clear_reserved b"
    by (simp add: envelope_bytes_def clear_reserved_def front fields tail mid [symmetric])
  moreover have "envelope_sane e"
    using len node pay by (auto simp: envelope_sane_def)
  ultimately show ?thesis
    by (simp add: encode_envelope_Inr node pay)
qed

section \<open>The queue\<close>

text \<open>The abstract queue is the list of retained blocks: a push keeps at most the newest of the
  old blocks and appends, a pop takes the oldest.\<close>

definition latest_push :: "bytes \<Rightarrow> bytes list \<Rightarrow> bytes list" where
  "latest_push e q = drop (length q - 1) q @ [e]"

definition queue_ok :: "queue_state \<Rightarrow> bool" where
  "queue_ok q \<longleftrightarrow> length (qs_blocks q) \<le> 2 \<and> qs_bytes q = sum_list (map length (qs_blocks q)) \<and>
     (\<forall>b \<in> set (qs_blocks q). length b \<le> 32768)"

lemma queue_ok_default: "queue_ok queue_default"
  by (simp add: queue_ok_def queue_default_def)

lemma queue_blocks_cases:
  assumes "length xs \<le> 2"
  shows "xs = [] \<or> (\<exists>a. xs = [a]) \<or> (\<exists>a b. xs = [a, b])"
proof -
  consider "length xs = 0" | "length xs = Suc 0" | "length xs = Suc (Suc 0)"
    using assms by linarith
  then show ?thesis
    by cases (auto simp: length_Suc_conv)
qed

lemma make_room_exact:
  assumes "queue_ok q" "len \<le> 32768"
  shows "make_room len (qs_blocks q) (qs_bytes q) 0 =
    (if length (qs_blocks q) < 2 then (qs_blocks q, qs_bytes q, 0)
     else (tl (qs_blocks q), sum_list (map length (tl (qs_blocks q))), 1))"
  using queue_blocks_cases [of "qs_blocks q"] assms
  by (auto simp: queue_ok_def make_room.simps telemetry_consts sat_add_def u64_max_def)

lemma queue_push_exact:
  assumes ok: "queue_ok q" and fits: "length e \<le> 32768"
  shows "queue_ok (fst (queue_push e q)) \<and>
    qs_blocks (fst (queue_push e q)) = latest_push e (qs_blocks q) \<and>
    snd (queue_push e q) = (Inr (if length (qs_blocks q) < 2 then Queued else Replaced 1)
      :: 'e telemetry_fec_error + queue_push_outcome)"
  using queue_blocks_cases [of "qs_blocks q"] assms make_room_exact [OF assms]
  by (auto simp: queue_push_def queue_ok_def latest_push_def telemetry_consts sat_add_def
      u64_max_def)

lemma queue_push_too_large:
  "32768 < length e \<Longrightarrow> queue_push e q = (q, Inl (EnvelopeTooLarge (length e)))"
  by (simp add: queue_push_def telemetry_consts)

lemma queue_try_pop_exact:
  assumes "queue_ok q"
  shows "queue_ok (fst (queue_try_pop q)) \<and>
    qs_blocks (fst (queue_try_pop q)) = tl (qs_blocks q) \<and>
    snd (queue_try_pop q) = (case qs_blocks q of [] \<Rightarrow> None | b # _ \<Rightarrow> Some b)"
  using assms by (auto simp: queue_try_pop_def queue_ok_def split: list.splits)

datatype queue_op = PushBlock bytes | PopBlock

definition queue_step :: "queue_op \<Rightarrow> queue_state \<Rightarrow> queue_state" where
  "queue_step c q =
     (case c of
        PushBlock e \<Rightarrow>
          fst (queue_push e q :: queue_state \<times> (unit telemetry_fec_error + queue_push_outcome))
      | PopBlock \<Rightarrow> fst (queue_try_pop q))"

definition latest_step :: "queue_op \<Rightarrow> bytes list \<Rightarrow> bytes list" where
  "latest_step c q = (case c of
     PushBlock e \<Rightarrow> if length e \<le> 32768 then latest_push e q else q | PopBlock \<Rightarrow> tl q)"

lemma queue_step_refines:
  "queue_ok q \<Longrightarrow> queue_ok (queue_step c q) \<and> qs_blocks (queue_step c q) = latest_step c (qs_blocks q)"
  using queue_push_exact [of q, where 'e = unit] queue_try_pop_exact [of q]
  by (cases c) (auto simp: queue_step_def latest_step_def not_le queue_push_too_large)

lemma queue_run_refines:
  "queue_ok q \<Longrightarrow> queue_ok (fold queue_step cs q) \<and>
     qs_blocks (fold queue_step cs q) = fold latest_step cs (qs_blocks q)"
  by (induction cs arbitrary: q) (simp_all add: queue_step_refines)


section \<open>The encoder\<close>

lemma repair_datagrams_bounds:
  assumes "k < 2 ^ 16"
  shows "1 \<le> repair_datagrams k percent" "k * unat percent \<le> 100 * repair_datagrams k percent"
    "repair_datagrams k percent < 2 ^ 32"
proof -
  have prod: "k * unat percent \<le> 65535 * 255"
    using assms unat_byte_less [of percent] by (intro mult_le_mono) auto
  then have m: "sat_mul k (unat percent) = k * unat percent"
    by (simp add: sat_mul_def u64_max_def)
  have r: "repair_datagrams k percent = max (div_ceil (k * unat percent) 100) 1"
    by (simp add: repair_datagrams_def m)
  show "1 \<le> repair_datagrams k percent" "repair_datagrams k percent < 2 ^ 32"
    using prod by (auto simp: r div_ceil_def)
  have "a \<le> 100 * div_ceil a 100" for a
    using div_mult_mod_eq [of a 100] mod_less_divisor [of 100 a] by (auto simp: div_ceil_def)
  from this [of "k * unat percent"] show "k * unat percent \<le> 100 * repair_datagrams k percent"
    by (simp add: r max_def)
qed

lemma encoder_encode_total: "encoder_encode rq envelope s \<noteq> None"
proof -
  let ?k = "unat (rq_source_symbol_count rq (length envelope) TELEMETRY_SYMBOL_SIZE)"
  have k: "?k < 2 ^ 16"
    using unat_less_pow [of "rq_source_symbol_count rq (length envelope) TELEMETRY_SYMBOL_SIZE"]
    by simp
  have "try_word ?k \<noteq> (None :: u16 option)"
    and "try_word (repair_datagrams ?k (enc_repair_percent s)) \<noteq> (None :: u32 option)"
    using k repair_datagrams_bounds(3) [OF k, of "enc_repair_percent s"]
    by (simp_all add: try_word_None not_le)
  then show ?thesis
    by (auto simp: encoder_encode_def Let_def split: option.splits prod.splits sum.splits)
qed

section \<open>One peer of the decoder\<close>

text \<open>What the iteration order of a \<open>HashMap\<close> guarantees: every entry is visited once.\<close>

definition iter_ok :: "((u32 \<times> nat) list \<Rightarrow> (u32 \<times> nat) list) \<Rightarrow> bool" where
  "iter_ok iter \<longleftrightarrow> (\<forall>m. mset (iter m) = mset m)"

lemma iter_set: "iter_ok iter \<Longrightarrow> set (iter m) = set m"
  unfolding iter_ok_def by (metis set_mset_mset)

definition peer_ok :: "'d peer_decoder \<Rightarrow> bool" where
  "peer_ok p \<longleftrightarrow> table_ok (pd_blocks p) \<and> length (pd_blocks p) \<le> MAX_IN_FLIGHT_BLOCKS_PER_PEER"

text \<open>The part of a peer that the block bookkeeping leaves alone.\<close>

definition same_session :: "'d peer_decoder \<Rightarrow> 'd peer_decoder \<Rightarrow> bool" where
  "same_session p q \<longleftrightarrow> pd_node_id p = pd_node_id q \<and>
     pd_accepted_sequence p = pd_accepted_sequence q \<and> pd_last_seen p = pd_last_seen q"

lemma drop_block_ok: "peer_ok p \<Longrightarrow> peer_ok (drop_block rq k p) \<and> same_session (drop_block rq k p) p"
  using length_tdel_le [of k "pd_blocks p"] by (auto simp: peer_ok_def drop_block_def same_session_def)

lemma fold_drop_block_ok:
  "peer_ok p \<Longrightarrow> peer_ok (fold (drop_block rq) ks p) \<and> same_session (fold (drop_block rq) ks p) p"
proof (induction ks arbitrary: p)
  case Nil
  then show ?case by (simp add: same_session_def)
next
  case (Cons k ks)
  then show ?case
    using drop_block_ok [of p rq k] Cons.IH [of "drop_block rq k p"]
    by (simp add: same_session_def)
qed

lemma expire_blocks_ok:
  "peer_ok p \<Longrightarrow> peer_ok (expire_blocks iter rq ttl now p) \<and>
     same_session (expire_blocks iter rq ttl now p) p"
  unfolding expire_blocks_def by (rule fold_drop_block_ok)

lemma blocks_fold_drop:
  "pd_blocks (fold (drop_block rq) ks p) = filter (\<lambda>e. fst e \<notin> set ks) (pd_blocks p)"
  by (induction ks arbitrary: p) (auto simp: drop_block_def AList.delete_eq filter_filter
      intro!: filter_cong)

lemma expire_blocks_exact:
  assumes "iter_ok iter" "peer_ok p"
  shows "pd_blocks (expire_blocks iter rq ttl now p) =
    filter (\<lambda>(k, started). now - started < ttl) (pd_blocks p)"
proof -
  have "set (map fst (filter (\<lambda>(k, started). ttl \<le> now - started) (iter (pd_blocks p)))) =
    set (keys (filter (\<lambda>(k, started). ttl \<le> now - started) (pd_blocks p)))"
    by (simp add: iter_set [OF assms(1)])
  then show ?thesis
    using assms(2) filter_keys_notin [of "pd_blocks p" "\<lambda>(k, started). ttl \<le> now - started"]
    by (simp add: expire_blocks_def blocks_fold_drop peer_ok_def not_le case_prod_beta')
qed

text \<open>After making room there is a place for the block, and the block that went was a oldest one.\<close>

lemma evict_oldest_ok:
  assumes "iter_ok iter" "peer_ok p"
  shows "peer_ok (evict_oldest iter rq k p) \<and> same_session (evict_oldest iter rq k p) p \<and>
    (map_of (pd_blocks (evict_oldest iter rq k p)) k = None \<longrightarrow>
       length (pd_blocks (evict_oldest iter rq k p)) < MAX_IN_FLIGHT_BLOCKS_PER_PEER)"
proof (cases "map_of (pd_blocks p) k = None \<and> MAX_IN_FLIGHT_BLOCKS_PER_PEER \<le> length (pd_blocks p)")
  case False
  then show ?thesis
    using assms(2) by (auto simp: evict_oldest_def same_session_def)
next
  case True
  then have "iter (pd_blocks p) \<noteq> []"
    using iter_set [OF assms(1), of "pd_blocks p"] by (auto simp: telemetry_consts)
  then obtain j t where m: "min_by_key snd (iter (pd_blocks p)) = Some (j, t)"
    by (cases "min_by_key snd (iter (pd_blocks p))") auto
  have "(j, t) \<in> set (pd_blocks p)"
    using min_by_key_in [OF m] iter_set [OF assms(1)] by blast
  then have "length (pd_blocks p) = Suc (length (tdel j (pd_blocks p)))"
    using assms(2) by (intro tdel_length_less) (auto simp: peer_ok_def map_of_in_set)
  then show ?thesis
    using True assms(2) drop_block_ok [OF assms(2), of rq j]
    by (simp add: evict_oldest_def m) (simp add: drop_block_def peer_ok_def)
qed

lemma evicts_an_oldest:
  assumes "iter_ok iter" "peer_ok p" "evict_oldest iter rq k p \<noteq> p"
  shows "\<exists>j t. (j, t) \<in> set (pd_blocks p) \<and> (\<forall>(i, u) \<in> set (pd_blocks p). t \<le> u) \<and>
    evict_oldest iter rq k p = drop_block rq j p"
proof -
  obtain j t where m: "min_by_key snd (iter (pd_blocks p)) = Some (j, t)"
    and e: "evict_oldest iter rq k p = drop_block rq j p"
    using assms(3) by (auto simp: evict_oldest_def split: if_splits option.splits)
  then show ?thesis
    using min_by_key_in [OF m] min_by_key_le [OF m] iter_set [OF assms(1)] by force
qed

lemma track_block_ok:
  assumes "peer_ok p" "map_of (pd_blocks p) k = None \<longrightarrow> length (pd_blocks p) < MAX_IN_FLIGHT_BLOCKS_PER_PEER"
  shows "peer_ok (track_block k now p) \<and> same_session (track_block k now p) p"
  using assms by (auto simp: track_block_def peer_ok_def same_session_def ht.length_put ht.table_ok_put)

text \<open>What one datagram does to the session of its peer: a delivered snapshot is a mesh snapshot of the peer's
  node, newer than the last accepted one when both are of the same boot, and is the accepted one from then on;
  any other answer leaves the session as it is, but for a first node id.\<close>

definition session_step ::
  "'d peer_decoder \<Rightarrow> 'd peer_decoder \<Rightarrow> 'e telemetry_fec_error + telemetry_decode_outcome \<Rightarrow> bool" where
  "session_step p p' r \<longleftrightarrow> pd_last_seen p' = pd_last_seen p \<and>
     (case r of
        Inr (Complete e) \<Rightarrow> te_kind e = TELEMETRY_KIND_MESH_SNAPSHOT \<and> pd_node_id p \<in> {None, Some (te_node_id e)} \<and>
          pd_node_id p' = Some (te_node_id e) \<and>
          pd_accepted_sequence p' = Some \<lparr> as_boot_id = te_boot_id e, as_sequence = te_sequence e \<rparr> \<and>
          (\<forall>a. pd_accepted_sequence p = Some a \<and> as_boot_id a = te_boot_id e \<longrightarrow> as_sequence a < te_sequence e)
      | _ \<Rightarrow> pd_accepted_sequence p' = pd_accepted_sequence p \<and>
          (pd_node_id p \<noteq> None \<longrightarrow> pd_node_id p' = pd_node_id p))"

lemma session_step_same:
  "same_session p q \<Longrightarrow> session_step p p' r = session_step q p' r"
  by (simp add: session_step_def same_session_def cong: sum.case_cong telemetry_decode_outcome.case_cong)

lemma accept_envelope_blocks: "pd_blocks (fst (accept_envelope e p)) = pd_blocks p"
  by (simp add: accept_envelope_def Let_def)

lemma accept_envelope_session: "session_step p (fst (accept_envelope e p)) (snd (accept_envelope e p))"
  by (auto simp: accept_envelope_def session_step_def Let_def not_le split: option.splits)

lemma feed_peer_ok:
  assumes "peer_ok p"
  shows "peer_ok (fst (feed_peer crc rq k d p)) \<and> session_step p (fst (feed_peer crc rq k d p)) (snd (feed_peer crc rq k d p))"
proof -
  have upd: "same_session p (p\<lparr>pd_decoder := dc, pd_blocks := b\<rparr>)" for dc b
    by (simp add: same_session_def)
  have blk: "peer_ok (p\<lparr>pd_decoder := dc, pd_blocks := tdel k (pd_blocks p)\<rparr>)"
    "peer_ok (p\<lparr>pd_decoder := dc\<rparr>)" for dc
    using assms length_tdel_le [of k "pd_blocks p"] by (simp_all add: peer_ok_def)
  have acc: "peer_ok (fst (accept_envelope e q)) = peer_ok q" for e and q :: "'a peer_decoder"
    by (simp add: peer_ok_def accept_envelope_blocks)
  obtain dc r where push: "rq_push_datagram rq d (pd_decoder p) = (dc, r)"
    by (cases "rq_push_datagram rq d (pd_decoder p)")
  consider e where "r = Inl e" | "r = Inr None" | b where "r = Inr (Some b)"
    by (cases r) auto
  then show ?thesis
  proof cases
    case (3 b)
    let ?p = "p\<lparr>pd_decoder := dc, pd_blocks := tdel k (pd_blocks p)\<rparr>"
    show ?thesis
    proof (cases "decode_envelope crc b :: 'b telemetry_fec_error + _")
      case (Inl e)
      then show ?thesis
        using blk(1) 3 by (simp add: feed_peer_def push Let_def session_step_def)
    next
      case (Inr e)
      have "session_step p (fst (accept_envelope e ?p)) (snd (accept_envelope e ?p))"
        using accept_envelope_session [where p = ?p] session_step_same [OF upd] by blast
      then show ?thesis
        using blk(1) 3 Inr by (simp add: feed_peer_def push Let_def acc)
    qed
  qed (simp_all add: feed_peer_def push blk(2) session_step_def)
qed

lemma peer_step_ok:
  assumes it: "iter_ok iter" and p: "peer_ok p"
  shows "peer_ok (fst (peer_step iter crc rq ttl k d now p)) \<and>
    session_step (p\<lparr>pd_last_seen := now\<rparr>) (fst (peer_step iter crc rq ttl k d now p))
      (snd (peer_step iter crc rq ttl k d now p))"
proof -
  let ?p0 = "p\<lparr>pd_last_seen := now\<rparr>"
  let ?p1 = "expire_blocks iter rq ttl now ?p0"
  let ?p2 = "evict_oldest iter rq k ?p1"
  let ?p3 = "track_block k now ?p2"
  have "peer_ok ?p0"
    using p by (simp add: peer_ok_def)
  then have p1: "peer_ok ?p1" "same_session ?p1 ?p0"
    using expire_blocks_ok by blast+
  note p2 = evict_oldest_ok [OF it p1(1), of rq k]
  have p3: "peer_ok ?p3" "same_session ?p3 ?p2"
    using track_block_ok [of ?p2 k now] p2 by simp_all
  then have "same_session ?p3 ?p0"
    using p1(2) p2 by (simp add: same_session_def)
  then show ?thesis
    using feed_peer_ok [OF p3(1), of crc rq k d] session_step_same by (simp add: peer_step_def) blast
qed

section \<open>Runs of the decoder\<close>

text \<open>The log lists the calls whose datagram has an acceptable profile: the time, the peer and the answer. A call
  with another profile changes nothing.\<close>

type_synonym ('p, 'e) decoder_log = "(nat \<times> 'p \<times> ('e telemetry_fec_error + telemetry_decode_outcome)) list"

inductive decoder_run ::
  "(bytes \<Rightarrow> u32) \<Rightarrow> ('n, 'd, 'e) raptorq \<Rightarrow> nat \<Rightarrow> nat \<Rightarrow> ('p, 'd) telemetry_decoder \<Rightarrow> ('p, 'e) decoder_log \<Rightarrow> bool"
  for crc rq max_peers ttl where
  run_new: "decoder_run crc rq max_peers ttl (decoder_new max_peers ttl) []"
| run_refused: "decoder_run crc rq max_peers ttl s L \<Longrightarrow> check_profile rq datagram = Inl e \<Longrightarrow>
    push_datagram_at iter crc rq peer datagram now s = (s', r) \<Longrightarrow> decoder_run crc rq max_peers ttl s' L"
| run_push: "decoder_run crc rq max_peers ttl s L \<Longrightarrow> check_profile rq datagram = Inr profile \<Longrightarrow> iter_ok iter \<Longrightarrow>
    push_datagram_at iter crc rq peer datagram now s = (s', r) \<Longrightarrow>
    decoder_run crc rq max_peers ttl s' (L @ [(now, peer, r)])"

text \<open>The time peer \<open>q\<close> was last seen after the calls of a log, and that no call found it idle for \<open>idle\<close> or longer.\<close>

fun seen_after :: "nat \<Rightarrow> 'p \<Rightarrow> ('p, 'e) decoder_log \<Rightarrow> nat" where
  "seen_after seen q [] = seen"
| "seen_after seen q ((t, p, r) # L) = seen_after (if p = q then t else seen) q L"

fun attended :: "nat \<Rightarrow> nat \<Rightarrow> 'p \<Rightarrow> ('p, 'e) decoder_log \<Rightarrow> bool" where
  "attended idle seen q [] \<longleftrightarrow> True"
| "attended idle seen q ((t, p, r) # L) \<longleftrightarrow> t - seen < idle \<and> attended idle (if p = q then t else seen) q L"

lemma seen_after_append: "seen_after seen q (L @ M) = seen_after (seen_after seen q L) q M"
  by (induction L arbitrary: seen) auto

lemma attended_append: "attended idle seen q (L @ M) \<longleftrightarrow> attended idle seen q L \<and> attended idle (seen_after seen q L) q M"
  by (induction L arbitrary: seen) auto

text \<open>All that peer \<open>q\<close> delivered in a log is of boot \<open>b\<close>.\<close>

definition one_boot :: "u64 \<Rightarrow> 'p \<Rightarrow> ('p, 'e) decoder_log \<Rightarrow> bool" where
  "one_boot b q L \<longleftrightarrow> (\<forall>t e. (t, q, Inr (Complete e)) \<in> set L \<longrightarrow> te_boot_id e = b)"

lemma one_boot_append: "one_boot b q (L @ M) \<longleftrightarrow> one_boot b q L \<and> one_boot b q M"
  by (auto simp: one_boot_def)

definition decoder_ok :: "('p, 'd) telemetry_decoder \<Rightarrow> bool" where
  "decoder_ok s \<longleftrightarrow> table_ok (td_peers s) \<and> length (td_peers s) \<le> td_max_peers s \<and>
     (\<forall>q p. map_of (td_peers s) q = Some p \<longrightarrow> peer_ok p)"

lemma prune_idle_ok: "decoder_ok s \<Longrightarrow> decoder_ok (prune_idle_peers now s)"
  using length_retain_le [of _ "td_peers s"]
  by (auto simp: decoder_ok_def prune_idle_peers_def Let_def map_of_retain intro: le_trans split: option.splits if_splits)

lemma put_peer_ok:
  assumes "decoder_ok s" "map_of (td_peers s) q = None \<longrightarrow> length (td_peers s) < td_max_peers s" "peer_ok p"
  shows "decoder_ok (s\<lparr>td_peers := tput q p (td_peers s)\<rparr>)"
  using assms by (auto simp: decoder_ok_def ht.length_put ht.table_ok_put ht.map_of_put)

text \<open>An accepted call: the peer's entry, new or kept, makes its step, or the decoder has no room for the peer; all
  other entries survive unless they are idle.\<close>

lemma push_datagram_ok:
  assumes ok: "decoder_ok s" and it: "iter_ok iter" and profile: "check_profile rq datagram = Inr profile"
    and push: "push_datagram_at iter crc rq peer datagram now s = (s', r)"
  defines "kept \<equiv> td_peers (prune_idle_peers now s)"
  shows "decoder_ok s' \<and>
    (\<forall>q. q \<noteq> peer \<longrightarrow> map_of (td_peers s') q = map_of kept q) \<and>
    (map_of kept peer = None \<and> (\<nexists>e. r = Inr (Complete e)) \<or>
     (\<exists>p p'. map_of kept peer \<in> {None, Some p} \<and> map_of (td_peers s') peer = Some p' \<and>
        session_step (p\<lparr>pd_last_seen := now\<rparr>) p' r))"
proof (cases "map_of kept peer = None \<and> td_max_peers s \<le> length kept")
  case True
  then have "s' = prune_idle_peers now s" "\<nexists>e. r = Inr (Complete e)"
    using push profile by (auto simp: push_datagram_at_def Let_def kept_def prune_idle_peers_def)
  then show ?thesis
    using prune_idle_ok [OF ok] True by (simp add: kept_def)
next
  case False
  let ?s = "prune_idle_peers now s"
  let ?e = "get_or (peer_new rq now) kept peer"
  have ok1: "decoder_ok ?s" and max: "td_max_peers ?s = td_max_peers s"
    using prune_idle_ok [OF ok] by (simp_all add: prune_idle_peers_def Let_def)
  have e: "peer_ok ?e"
    using ok1 by (auto simp: get_or_def decoder_ok_def kept_def peer_new_def peer_ok_def split: option.splits)
  obtain e' where "peer_step iter crc rq (td_block_ttl ?s) (bp_block_id profile) datagram now ?e = (e', r)"
    and s': "s' = ?s\<lparr>td_peers := tput peer e' kept\<rparr>"
    using push profile False by (auto simp: push_datagram_at_def Let_def kept_def max split: prod.splits)
  with peer_step_ok [OF it e, of crc rq "td_block_ttl ?s" "bp_block_id profile" datagram now]
  have step: "peer_ok e'" "session_step (?e\<lparr>pd_last_seen := now\<rparr>) e' r"
    by simp_all
  have "decoder_ok s'"
    unfolding s' kept_def using False step(1) by (intro put_peer_ok [OF ok1]) (auto simp: kept_def max)
  moreover have "map_of kept peer \<in> {None, Some ?e}"
    by (simp add: get_or_def split: option.split)
  moreover have "table_ok kept"
    using ok1 by (simp add: decoder_ok_def kept_def)
  ultimately show ?thesis
    using step(2) by (auto simp: s' ht.map_of_put)
qed

text \<open>The invariant of a run. If a peer that delivered \<open>e\<close> was never idle since, its entry has the node id of \<open>e\<close>
  and, when all it delivered since was of the same boot, an accepted sequence no lower; and any two such
  deliveries are of one node and in order.\<close>

definition entry_tracks :: "nat \<Rightarrow> 'p \<Rightarrow> telemetry_envelope \<Rightarrow> ('p, 'e) decoder_log \<Rightarrow> 'd peer_decoder \<Rightarrow> bool" where
  "entry_tracks t q e ys p \<longleftrightarrow> pd_node_id p = Some (te_node_id e) \<and> pd_last_seen p = seen_after t q ys \<and>
     (one_boot (te_boot_id e) q ys \<longrightarrow> (\<exists>a. pd_accepted_sequence p = Some a \<and> as_boot_id a = te_boot_id e \<and>
        te_sequence e \<le> as_sequence a))"

definition tracked :: "nat \<Rightarrow> ('p, 'd) telemetry_decoder \<Rightarrow> ('p, 'e) decoder_log \<Rightarrow> bool" where
  "tracked idle s L \<longleftrightarrow> (\<forall>q xs t e ys. L = xs @ (t, q, Inr (Complete e)) # ys \<and> attended idle t q ys \<longrightarrow>
     (\<exists>p. map_of (td_peers s) q = Some p \<and> entry_tracks t q e ys p))"

definition deliveries_ok :: "nat \<Rightarrow> ('p, 'e) decoder_log \<Rightarrow> bool" where
  "deliveries_ok idle L \<longleftrightarrow> (\<forall>t q e. (t, q, Inr (Complete e)) \<in> set L \<longrightarrow> te_kind e = TELEMETRY_KIND_MESH_SNAPSHOT) \<and>
     (\<forall>q xs t e ys t' e' zs. L = xs @ (t, q, Inr (Complete e)) # ys @ (t', q, Inr (Complete e')) # zs \<and>
        attended idle t q (ys @ [(t', q, Inr (Complete e'))]) \<longrightarrow>
        te_node_id e = te_node_id e' \<and>
        (one_boot (te_boot_id e) q ys \<and> te_boot_id e = te_boot_id e' \<longrightarrow> te_sequence e < te_sequence e'))"

lemma prune_keeps:
  "map_of (td_peers s) q = Some p \<Longrightarrow> table_ok (td_peers s) \<Longrightarrow>
   now - pd_last_seen p < min (4 * td_block_ttl s) duration_max \<Longrightarrow>
   map_of (td_peers (prune_idle_peers now s)) q = Some p"
  by (simp add: prune_idle_peers_def Let_def map_of_retain)

lemma entry_tracks_other:
  "entry_tracks t q e ys p \<Longrightarrow> peer \<noteq> q \<Longrightarrow> entry_tracks t q e (ys @ [(now, peer, r)]) p"
  by (auto simp: entry_tracks_def seen_after_append one_boot_append)

lemma entry_tracks_step:
  assumes p: "entry_tracks t q e ys p" and p': "session_step (p\<lparr>pd_last_seen := now\<rparr>) p' r"
  shows "entry_tracks t q e (ys @ [(now, q, r)]) p'"
proof (cases "\<exists>e'. r = Inr (Complete e')")
  case True
  then obtain e' where r: "r = Inr (Complete e')" by blast
  have same: "te_boot_id e' = te_boot_id e \<and> one_boot (te_boot_id e) q ys"
    if "one_boot (te_boot_id e) q (ys @ [(now, q, r)])"
    using that unfolding one_boot_append unfolding one_boot_def r by (meson list.set_intros(1))
  have session: "pd_last_seen p' = now" "te_node_id e' = te_node_id e" "pd_node_id p' = Some (te_node_id e')"
      "pd_accepted_sequence p' = Some \<lparr> as_boot_id = te_boot_id e', as_sequence = te_sequence e' \<rparr>"
    and newer: "\<And>a. pd_accepted_sequence p = Some a \<Longrightarrow> as_boot_id a = te_boot_id e' \<Longrightarrow> as_sequence a < te_sequence e'"
    using p' p by (auto simp: session_step_def entry_tracks_def r)
  have "te_sequence e \<le> te_sequence e'" if one: "one_boot (te_boot_id e) q (ys @ [(now, q, r)])"
  proof -
    obtain a where "pd_accepted_sequence p = Some a" "as_boot_id a = te_boot_id e" "te_sequence e \<le> as_sequence a"
      using p same [OF one] by (auto simp: entry_tracks_def)
    then show ?thesis using newer [of a] same [OF one] by simp
  qed
  then show ?thesis
    using session same by (simp add: entry_tracks_def seen_after_append)
next
  case False
  then have "pd_accepted_sequence p' = pd_accepted_sequence p \<and> pd_node_id p' = pd_node_id p \<and> pd_last_seen p' = now"
    using p' p by (auto simp: session_step_def entry_tracks_def split: sum.splits telemetry_decode_outcome.splits)
  then show ?thesis
    using p by (auto simp: entry_tracks_def seen_after_append one_boot_append)
qed

lemma tracked_snoc:
  assumes ok: "decoder_ok s" and tr: "tracked (min (4 * td_block_ttl s) duration_max) s L" and it: "iter_ok iter"
    and profile: "check_profile rq datagram = Inr profile"
    and push: "push_datagram_at iter crc rq peer datagram now s = (s', r)"
  shows "tracked (min (4 * td_block_ttl s) duration_max) s' (L @ [(now, peer, r)])"
  unfolding tracked_def
proof (intro allI impI; elim conjE)
  let ?idle = "min (4 * td_block_ttl s) duration_max"
  fix q xs t e ys
  assume eq: "L @ [(now, peer, r)] = xs @ (t, q, Inr (Complete e)) # ys" and att: "attended ?idle t q ys"
  note step = push_datagram_ok [OF ok it profile push]
  show "\<exists>p. map_of (td_peers s') q = Some p \<and> entry_tracks t q e ys p"
  proof (cases ys rule: rev_cases)
    case Nil
    then have "peer = q" "r = Inr (Complete e)" "now = t" using eq by auto
    then show ?thesis
      using step Nil by (auto simp: session_step_def entry_tracks_def)
  next
    case (snoc ys' x)
    then have L: "L = xs @ (t, q, Inr (Complete e)) # ys'" and x: "x = (now, peer, r)" using eq by auto
    have att': "attended ?idle t q ys'" and alive: "now - seen_after t q ys' < ?idle"
      using att by (simp_all add: snoc x attended_append)
    obtain p where p: "map_of (td_peers s) q = Some p" "entry_tracks t q e ys' p"
      using tr L att' unfolding tracked_def by blast
    have "map_of (td_peers (prune_idle_peers now s)) q = Some p"
      using p alive ok by (intro prune_keeps) (auto simp: entry_tracks_def decoder_ok_def)
    then show ?thesis
      using step entry_tracks_other [OF p(2)] entry_tracks_step [OF p(2)] p(2)
      by (cases "peer = q") (auto simp: snoc x)
  qed
qed

lemma deliveries_snoc:
  assumes ok: "decoder_ok s" and tr: "tracked (min (4 * td_block_ttl s) duration_max) s L"
    and old: "deliveries_ok (min (4 * td_block_ttl s) duration_max) L" and it: "iter_ok iter"
    and profile: "check_profile rq datagram = Inr profile"
    and push: "push_datagram_at iter crc rq peer datagram now s = (s', r)"
  shows "deliveries_ok (min (4 * td_block_ttl s) duration_max) (L @ [(now, peer, r)])"
proof -
  let ?idle = "min (4 * td_block_ttl s) duration_max"
  note step = push_datagram_ok [OF ok it profile push]
  have pair: "te_node_id e = te_node_id e' \<and>
        (one_boot (te_boot_id e) q ys \<and> te_boot_id e = te_boot_id e' \<longrightarrow> te_sequence e < te_sequence e')"
    if eq: "L @ [(now, peer, r)] = xs @ (t, q, Inr (Complete e)) # ys @ (t', q, Inr (Complete e')) # zs"
      and att: "attended ?idle t q (ys @ [(t', q, Inr (Complete e'))])" for q xs t e ys t' e' zs
  proof (cases zs rule: rev_cases)
    case (snoc zs' x)
    then have "L = xs @ (t, q, Inr (Complete e)) # ys @ (t', q, Inr (Complete e')) # zs'" using eq by auto
    then show ?thesis using old att unfolding deliveries_ok_def by blast
  next
    case Nil
    then have L: "L = xs @ (t, q, Inr (Complete e)) # ys" and r: "peer = q" "r = Inr (Complete e')" "now = t'"
      using eq by auto
    have att': "attended ?idle t q ys" and alive: "now - seen_after t q ys < ?idle"
      using att by (simp_all add: attended_append r)
    obtain p where p: "map_of (td_peers s) q = Some p" "entry_tracks t q e ys p"
      using tr L att' unfolding tracked_def by blast
    have "map_of (td_peers (prune_idle_peers now s)) q = Some p"
      using p alive ok by (intro prune_keeps) (auto simp: entry_tracks_def decoder_ok_def)
    then obtain p' where "session_step (p\<lparr>pd_last_seen := now\<rparr>) p' r"
      using step r by auto
    then show ?thesis
      using p(2) by (fastforce simp: entry_tracks_def session_step_def r)
  qed
  have "te_kind e = TELEMETRY_KIND_MESH_SNAPSHOT" if "r = Inr (Complete e)" for e
    using step that by (auto simp: session_step_def)
  then show ?thesis
    using old pair unfolding deliveries_ok_def by auto
qed

lemma decoder_run_ok:
  assumes "decoder_run crc rq max_peers ttl s L"
  shows "decoder_ok s \<and> td_max_peers s = max max_peers 1 \<and> td_block_ttl s = ttl \<and>
    tracked (min (4 * ttl) duration_max) s L \<and> deliveries_ok (min (4 * ttl) duration_max) L"
  using assms
proof (induction rule: decoder_run.induct)
  case run_new
  then show ?case by (simp add: decoder_ok_def decoder_new_def tracked_def deliveries_ok_def)
next
  case (run_refused s L datagram e iter peer now s' r)
  then show ?case by (simp add: push_datagram_at_def)
next
  case (run_push s L datagram profile iter peer now s' r)
  have "td_max_peers s' = td_max_peers s \<and> td_block_ttl s' = td_block_ttl s"
    using run_push.hyps
    by (auto simp: push_datagram_at_def prune_idle_peers_def Let_def split: if_splits prod.splits)
  then show ?case
    using run_push tracked_snoc [of s L] deliveries_snoc [of s L] push_datagram_ok [of s iter rq datagram profile crc peer now s' r]
    by auto
qed

section \<open>Properties\<close>

text \<open>C18: an envelope that encodes, and whose node id is a Rust string, decodes to itself, in
  at most 32 KiB; conversely, bytes that decode are the encoding of what they decode to, once the
  four reserved bytes that the decoder ignores are cleared.\<close>

theorem envelope_round_trip:
  fixes crc :: "bytes \<Rightarrow> u32"
  shows "(encode_envelope crc e = (Inr b :: 'e telemetry_fec_error + bytes) \<and>
      utf8_valid (te_node_id e) \<longrightarrow>
      decode_envelope crc b = (Inr e :: 'e telemetry_fec_error + telemetry_envelope) \<and>
      length b \<le> MAX_TELEMETRY_ENVELOPE_BYTES) \<and>
    (decode_envelope crc b = (Inr e :: 'e telemetry_fec_error + telemetry_envelope) \<longrightarrow>
      encode_envelope crc e = (Inr (clear_reserved b) :: 'e telemetry_fec_error + bytes) \<and>
      utf8_valid (te_node_id e))"
proof -
  have "length b \<le> MAX_TELEMETRY_ENVELOPE_BYTES"
    if "encode_envelope crc e = (Inr b :: 'e telemetry_fec_error + bytes)"
    using that by (auto simp: encode_envelope_Inr envelope_bytes_length envelope_sane_def telemetry_consts)
  moreover have "utf8_valid (te_node_id e)"
    if "decode_envelope crc b = (Inr e :: 'e telemetry_fec_error + telemetry_envelope)"
    using decode_envelope_Inr [OF that] by auto
  ultimately show ?thesis
    using decode_encoded encode_decoded by blast
qed

definition sample_crc :: "bytes \<Rightarrow> u32" where
  "sample_crc p = of_nat (le_value p)"

definition sample_envelope :: telemetry_envelope where
  "sample_envelope = mesh_snapshot 44 7 1700000000000 5000 (ascii ''uk-1'') [1, 2, 255]"

definition sample_bytes :: bytes where
  "sample_bytes = envelope_bytes sample_crc sample_envelope 4 3"

theorem envelope_round_trip_witness:
  "encode_envelope sample_crc sample_envelope = (Inr sample_bytes :: unit telemetry_fec_error + bytes) \<and>
   utf8_valid (te_node_id sample_envelope) \<and>
   decode_envelope sample_crc sample_bytes = (Inr sample_envelope :: unit telemetry_fec_error + _) \<and>
   encode_envelope sample_crc sample_envelope =
     (Inr (clear_reserved sample_bytes) :: unit telemetry_fec_error + bytes)"
proof -
  have "encode_envelope sample_crc sample_envelope = (Inr sample_bytes :: unit telemetry_fec_error + bytes)"
    by code_simp
  moreover have "utf8_valid (te_node_id sample_envelope)"
    by code_simp
  ultimately show ?thesis
    using envelope_round_trip [of sample_crc sample_envelope sample_bytes, where 'e = unit] by simp
qed

text \<open>in every run of pushes and pops the queue is the abstract window of latest blocks, a
  push that replaces drops exactly the oldest one, at most two blocks and 64 KiB are held, and the
  byte count is exact.\<close>

theorem telemetry_queue_refines:
  fixes cs :: "queue_op list"
  defines "q \<equiv> fold queue_step cs queue_default"
  shows "qs_blocks q = fold latest_step cs [] \<and> queue_len q \<le> MAX_TELEMETRY_QUEUE_BLOCKS \<and>
    qs_bytes q = sum_list (map length (qs_blocks q)) \<and> qs_bytes q \<le> MAX_TELEMETRY_QUEUE_BYTES"
proof -
  have ok: "queue_ok q" and abs: "qs_blocks q = fold latest_step cs []"
    using queue_run_refines [OF queue_ok_default, of cs] by (simp_all add: q_def queue_default_def)
  have "sum_list (map length (qs_blocks q)) \<le> MAX_TELEMETRY_QUEUE_BYTES"
    using ok queue_blocks_cases [of "qs_blocks q"] by (auto simp: queue_ok_def telemetry_consts)
  then show ?thesis
    using ok abs by (simp add: queue_ok_def queue_len_def telemetry_consts)
qed


definition direct_fec :: "(unit, unit, unit) raptorq" where
  "direct_fec =
     \<lparr> rq_source_symbol_count = (\<lambda>len _. of_nat (len div 1152 + 1)), rq_encoder_new = (\<lambda>_. ()),
       rq_set_source_symbols = (\<lambda>_ s. s), rq_encode_object = (\<lambda>b _ s. (s, Inr [b])),
       rq_from_datagram = (\<lambda>b. Inr \<lparr> bp_block_id = 1, bp_transfer_length = length b,
                                      bp_symbol_size = TELEMETRY_SYMBOL_SIZE \<rparr>),
       rq_decoder_new = (), rq_push_datagram = (\<lambda>b s. (s, Inr (Some b))),
       rq_expire_block = (\<lambda>_ s. s) \<rparr>"

definition sample_snapshot :: "u64 \<Rightarrow> telemetry_envelope" where
  "sample_snapshot n = mesh_snapshot 44 n 0 5000 (ascii ''uk'') [1]"

definition sample_push :: "u64 \<Rightarrow> nat \<Rightarrow> (nat, unit) telemetry_decoder \<Rightarrow>
  (nat, unit) telemetry_decoder \<times> (unit telemetry_fec_error + telemetry_decode_outcome)" where
  "sample_push n now s = push_datagram_at (\<lambda>m. m) sample_crc direct_fec 0
     (envelope_bytes sample_crc (sample_snapshot n) 2 1) now s"

definition sample_decoders :: "(nat, unit) telemetry_decoder \<times> (nat, unit) telemetry_decoder" where
  "sample_decoders = (let s = fst (sample_push 5 10 (decoder_new 1 100)) in (s, fst (sample_push 6 20 s)))"


text \<open>encoding a block returns, whatever number of source symbols the FEC crate reports and
  whatever repair percentage is configured: neither \<open>expect\<close> can fail. The repair datagrams are at
  least one and at least the configured share.\<close>

theorem telemetry_encode_total:
  fixes rq :: "('n, 'd, 'e) raptorq" and envelope :: bytes
  defines "k \<equiv> unat (rq_source_symbol_count rq (length envelope) TELEMETRY_SYMBOL_SIZE)"
  shows "encoder_encode rq envelope s \<noteq> None \<and>
    1 \<le> repair_datagrams k (enc_repair_percent s) \<and>
    k * unat (enc_repair_percent s) \<le> 100 * repair_datagrams k (enc_repair_percent s)"
proof -
  have "k < 2 ^ 16"
    using unat_less_pow [of "rq_source_symbol_count rq (length envelope) TELEMETRY_SYMBOL_SIZE"]
    by (simp add: k_def)
  then show ?thesis
    using encoder_encode_total repair_datagrams_bounds by blast
qed

end
