(* ===== verification/Warm_Replay.thy ===== *)
theory Warm_Replay
  imports Wire_Bytes
begin

text \<open>
  The warm-source replay buffer of a downstream child (\<open>WarmSourceReplayBuffer\<close> in
  \<open>src/src/main.rs\<close>): a relay that forwards only repair symbols to a child keeps the source
  symbols of the last few objects, so that a promotion can replay them. The buffer drops what has
  expired, retires the oldest object beyond four, and evicts the oldest datagrams beyond its
  datagram and byte limits.

  The invariant \<open>warm_ok\<close> makes the bookkeeping exact; \<open>warm_push_exact\<close> says which datagrams a
  push leaves. Times are microseconds.
\<close>

definition RELAY_WARM_SOURCE_REPLAY_MAX_OBJECTS_PER_CHILD :: nat where
  "RELAY_WARM_SOURCE_REPLAY_MAX_OBJECTS_PER_CHILD = 4"

definition RELAY_WARM_SOURCE_REPLAY_MAX_DATAGRAMS_PER_CHILD :: nat where
  "RELAY_WARM_SOURCE_REPLAY_MAX_DATAGRAMS_PER_CHILD = 2048"

definition RELAY_WARM_SOURCE_REPLAY_MAX_BYTES_PER_CHILD :: nat where
  "RELAY_WARM_SOURCE_REPLAY_MAX_BYTES_PER_CHILD = 4194304"

lemmas warm_limits =
  RELAY_WARM_SOURCE_REPLAY_MAX_OBJECTS_PER_CHILD_def
  RELAY_WARM_SOURCE_REPLAY_MAX_DATAGRAMS_PER_CHILD_def
  RELAY_WARM_SOURCE_REPLAY_MAX_BYTES_PER_CHILD_def

record 'k warm_datagram =
  wd_object_key :: 'k
  wd_expires_at_us :: nat
  wd_wire :: bytes

record 'k warm_buffer =
  wb_datagrams :: "'k warm_datagram list"
  wb_object_order :: "'k list"
  wb_bytes :: nat

record warm_mutation =
  added_datagrams :: nat
  added_bytes :: nat
  expired_datagrams :: nat
  expired_bytes :: nat
  retired_datagrams :: nat
  retired_bytes :: nat
  evicted_datagrams :: nat
  evicted_bytes :: nat

record warm_batch =
  wr_datagrams :: "bytes list"
  wr_bytes :: nat
  wr_expired_datagrams :: nat
  wr_expired_bytes :: nat

definition warm_buffer_default :: "'k warm_buffer" where
  "warm_buffer_default = \<lparr> wb_datagrams = [], wb_object_order = [], wb_bytes = 0 \<rparr>"

definition warm_mutation_default :: warm_mutation where
  "warm_mutation_default =
     \<lparr> added_datagrams = 0, added_bytes = 0, expired_datagrams = 0, expired_bytes = 0,
       retired_datagrams = 0, retired_bytes = 0, evicted_datagrams = 0, evicted_bytes = 0 \<rparr>"

section \<open>Operations\<close>

text \<open>The loop \<open>while let Some(datagram) = self.datagrams.pop_front()\<close> that \<open>remove_expired\<close>
  and \<open>remove_object\<close> share: \<open>gone\<close> decides which datagrams go, \<open>note\<close> counts them.\<close>

fun sift ::
  "('k warm_datagram \<Rightarrow> bool) \<Rightarrow> (nat \<Rightarrow> warm_mutation \<Rightarrow> warm_mutation) \<Rightarrow>
   'k warm_datagram list \<Rightarrow> 'k warm_datagram list \<Rightarrow> nat \<Rightarrow> warm_mutation \<Rightarrow>
   'k warm_datagram list \<times> nat \<times> warm_mutation" where
  "sift gone note [] retained bytes m = (retained, bytes, m)"
| "sift gone note (d # ds) retained bytes m =
     (if gone d
      then sift gone note ds retained (sat_sub bytes (length (wd_wire d))) (note (length (wd_wire d)) m)
      else sift gone note ds (retained @ [d]) bytes m)"

definition note_expired :: "nat \<Rightarrow> warm_mutation \<Rightarrow> warm_mutation" where
  "note_expired n m = m\<lparr>expired_datagrams := sat_add (expired_datagrams m) 1,
                        expired_bytes := sat_add (expired_bytes m) n\<rparr>"

definition note_retired :: "nat \<Rightarrow> warm_mutation \<Rightarrow> warm_mutation" where
  "note_retired n m = m\<lparr>retired_datagrams := sat_add (retired_datagrams m) 1,
                        retired_bytes := sat_add (retired_bytes m) n\<rparr>"

definition note_evicted :: "nat \<Rightarrow> warm_mutation \<Rightarrow> warm_mutation" where
  "note_evicted n m = m\<lparr>evicted_datagrams := sat_add (evicted_datagrams m) 1,
                        evicted_bytes := sat_add (evicted_bytes m) n\<rparr>"

definition has_object :: "'k \<Rightarrow> 'k warm_datagram list \<Rightarrow> bool" where
  "has_object k ds \<longleftrightarrow> list_ex (\<lambda>d. wd_object_key d = k) ds"

definition remove_expired ::
  "nat \<Rightarrow> 'k warm_buffer \<Rightarrow> warm_mutation \<Rightarrow> 'k warm_buffer \<times> warm_mutation" where
  "remove_expired now b m =
     (case sift (\<lambda>d. wd_expires_at_us d \<le> now) note_expired (wb_datagrams b) [] (wb_bytes b) m of
        (ds, bytes, m') \<Rightarrow>
          (\<lparr> wb_datagrams = ds, wb_object_order = filter (\<lambda>k. has_object k ds) (wb_object_order b),
             wb_bytes = bytes \<rparr>, m'))"

definition remove_warm_object ::
  "'k \<Rightarrow> 'k warm_buffer \<Rightarrow> warm_mutation \<Rightarrow> 'k warm_buffer \<times> warm_mutation" where
  "remove_warm_object k b m =
     (case sift (\<lambda>d. wd_object_key d = k) note_retired (wb_datagrams b) [] (wb_bytes b) m of
        (ds, bytes, m') \<Rightarrow> (b\<lparr>wb_datagrams := ds, wb_bytes := bytes\<rparr>, m'))"

lemma remove_warm_object_order [simp]:
  "wb_object_order (fst (remove_warm_object k b m)) = wb_object_order b"
  by (simp add: remove_warm_object_def split: prod.splits)

function retire_objects :: "'k warm_buffer \<Rightarrow> warm_mutation \<Rightarrow> 'k warm_buffer \<times> warm_mutation" where
  "retire_objects b m =
     (if RELAY_WARM_SOURCE_REPLAY_MAX_OBJECTS_PER_CHILD < length (wb_object_order b)
      then case wb_object_order b of
        [] \<Rightarrow> (b, m)
      | oldest # rest \<Rightarrow>
          retire_objects (fst (remove_warm_object oldest (b\<lparr>wb_object_order := rest\<rparr>) m))
                         (snd (remove_warm_object oldest (b\<lparr>wb_object_order := rest\<rparr>) m))
      else (b, m))"
  by pat_completeness auto
termination
  by (relation "measure (\<lambda>(b, m). length (wb_object_order b))") (auto simp: case_prod_beta)

function evict_datagrams :: "'k warm_buffer \<Rightarrow> warm_mutation \<Rightarrow> 'k warm_buffer \<times> warm_mutation" where
  "evict_datagrams b m =
     (if RELAY_WARM_SOURCE_REPLAY_MAX_DATAGRAMS_PER_CHILD < length (wb_datagrams b) \<or>
         RELAY_WARM_SOURCE_REPLAY_MAX_BYTES_PER_CHILD < wb_bytes b
      then case wb_datagrams b of
        [] \<Rightarrow> (b, m)
      | evicted # rest \<Rightarrow>
          evict_datagrams
            \<lparr> wb_datagrams = rest,
              wb_object_order =
                (if has_object (wd_object_key evicted) rest then wb_object_order b
                 else filter (\<lambda>k. k \<noteq> wd_object_key evicted) (wb_object_order b)),
              wb_bytes = sat_sub (wb_bytes b) (length (wd_wire evicted)) \<rparr>
            (note_evicted (length (wd_wire evicted)) m)
      else (b, m))"
  by pat_completeness auto
termination
  by (relation "measure (\<lambda>(b, m). length (wb_datagrams b))") auto

declare retire_objects.simps [simp del] evict_datagrams.simps [simp del]

definition warm_append :: "'k \<Rightarrow> nat \<Rightarrow> bytes \<Rightarrow> 'k warm_buffer \<Rightarrow> 'k warm_buffer" where
  "warm_append k expires_at wire b =
     \<lparr> wb_datagrams = wb_datagrams b @
         [\<lparr> wd_object_key = k, wd_expires_at_us = expires_at, wd_wire = wire \<rparr>],
       wb_object_order = (if k \<in> set (wb_object_order b) then wb_object_order b
                          else wb_object_order b @ [k]),
       wb_bytes = sat_add (wb_bytes b) (length wire) \<rparr>"

definition warm_push ::
  "'k \<Rightarrow> nat \<Rightarrow> bytes \<Rightarrow> nat \<Rightarrow> 'k warm_buffer \<Rightarrow> 'k warm_buffer \<times> warm_mutation" where
  "warm_push k expires_at wire now b =
     (case remove_expired now b warm_mutation_default of
        (b1, m1) \<Rightarrow>
          if expires_at \<le> now \<or> RELAY_WARM_SOURCE_REPLAY_MAX_BYTES_PER_CHILD < length wire
          then (b1, m1)
          else (case retire_objects (warm_append k expires_at wire b1)
                       (m1\<lparr>added_datagrams := 1, added_bytes := length wire\<rparr>) of
            (b2, m2) \<Rightarrow> evict_datagrams b2 m2))"

fun drain ::
  "nat \<Rightarrow> 'k warm_datagram list \<Rightarrow> warm_batch \<Rightarrow> warm_batch" where
  "drain now [] batch = batch"
| "drain now (d # ds) batch =
     drain now ds
       (if wd_expires_at_us d \<le> now
        then batch\<lparr>wr_expired_datagrams := sat_add (wr_expired_datagrams batch) 1,
                   wr_expired_bytes := sat_add (wr_expired_bytes batch) (length (wd_wire d))\<rparr>
        else batch\<lparr>wr_bytes := sat_add (wr_bytes batch) (length (wd_wire d)),
                   wr_datagrams := wr_datagrams batch @ [wd_wire d]\<rparr>)"

definition warm_take_live :: "nat \<Rightarrow> 'k warm_buffer \<Rightarrow> 'k warm_buffer \<times> warm_batch" where
  "warm_take_live now b =
     (warm_buffer_default,
      drain now (wb_datagrams b)
        \<lparr> wr_datagrams = [], wr_bytes = 0, wr_expired_datagrams = 0, wr_expired_bytes = 0 \<rparr>)"

section \<open>The invariant\<close>

abbreviation wire_bytes :: "'k warm_datagram list \<Rightarrow> nat" where
  "wire_bytes ds \<equiv> sum_list (map (\<lambda>d. length (wd_wire d)) ds)"

text \<open>Exact bookkeeping; the bounds are separate, since a push exceeds them for a moment.\<close>

definition warm_exact :: "'k warm_buffer \<Rightarrow> bool" where
  "warm_exact b \<longleftrightarrow> wb_bytes b = wire_bytes (wb_datagrams b) \<and> distinct (wb_object_order b) \<and>
     set (wb_object_order b) = wd_object_key ` set (wb_datagrams b)"

definition warm_ok :: "'k warm_buffer \<Rightarrow> bool" where
  "warm_ok b \<longleftrightarrow> warm_exact b \<and>
     length (wb_object_order b) \<le> RELAY_WARM_SOURCE_REPLAY_MAX_OBJECTS_PER_CHILD \<and>
     length (wb_datagrams b) \<le> RELAY_WARM_SOURCE_REPLAY_MAX_DATAGRAMS_PER_CHILD \<and>
     wb_bytes b \<le> RELAY_WARM_SOURCE_REPLAY_MAX_BYTES_PER_CHILD"

lemma warm_ok_default: "warm_ok warm_buffer_default"
  by (simp add: warm_ok_def warm_exact_def warm_buffer_default_def)

lemma wire_bytes_split:
  "wire_bytes ds = wire_bytes (filter P ds) + wire_bytes (filter (\<lambda>d. \<not> P d) ds)"
  by (induction ds) auto

lemma has_object_iff: "has_object k ds \<longleftrightarrow> k \<in> wd_object_key ` set ds"
  by (auto simp: has_object_def list_ex_iff)

lemma sift_exact:
  "bytes = wire_bytes retained + wire_bytes ds \<Longrightarrow>
   sift gone note ds retained bytes m =
     (retained @ filter (\<lambda>d. \<not> gone d) ds,
      wire_bytes retained + wire_bytes (filter (\<lambda>d. \<not> gone d) ds),
      fold (\<lambda>d. note (length (wd_wire d))) (filter gone ds) m)"
proof (induction ds arbitrary: retained bytes m)
  case Nil
  then show ?case by simp
next
  case (Cons d ds)
  show ?case
  proof (cases "gone d")
    case True
    then show ?thesis
      using Cons.IH [of "bytes - length (wd_wire d)" retained] Cons.prems by simp
  next
    case False
    then show ?thesis
      using Cons.IH [of bytes "retained @ [d]"] Cons.prems by (simp add: add.assoc)
  qed
qed

section \<open>Accounting\<close>

text \<open>The counters of a mutation, as one number each for datagrams and bytes. A note adds one
  datagram and its bytes to what has gone, as long as the counters do not saturate.\<close>

definition gone_datagrams :: "warm_mutation \<Rightarrow> nat" where
  "gone_datagrams m = expired_datagrams m + retired_datagrams m + evicted_datagrams m"

definition gone_bytes :: "warm_mutation \<Rightarrow> nat" where
  "gone_bytes m = expired_bytes m + retired_bytes m + evicted_bytes m"

lemma gone_added [simp]:
  "gone_datagrams (m\<lparr>added_datagrams := a, added_bytes := c\<rparr>) = gone_datagrams m"
  "gone_bytes (m\<lparr>added_datagrams := a, added_bytes := c\<rparr>) = gone_bytes m"
  by (simp_all add: gone_datagrams_def gone_bytes_def)

definition notes_one :: "(nat \<Rightarrow> warm_mutation \<Rightarrow> warm_mutation) \<Rightarrow> bool" where
  "notes_one note \<longleftrightarrow> (\<forall>n m. gone_datagrams m + 1 \<le> u64_max \<longrightarrow> gone_bytes m + n \<le> u64_max \<longrightarrow>
     gone_datagrams (note n m) = gone_datagrams m + 1 \<and> gone_bytes (note n m) = gone_bytes m + n \<and>
     added_datagrams (note n m) = added_datagrams m \<and> added_bytes (note n m) = added_bytes m)"

lemma notes_one_all: "notes_one note_expired" "notes_one note_retired" "notes_one note_evicted"
  by (auto simp: notes_one_def gone_datagrams_def gone_bytes_def note_expired_def note_retired_def
      note_evicted_def sat_add_def)

text \<open>The same datagrams and bytes are either in the buffer or counted as gone.\<close>

definition conserves ::
  "'k warm_buffer \<Rightarrow> warm_mutation \<Rightarrow> 'k warm_buffer \<Rightarrow> warm_mutation \<Rightarrow> bool" where
  "conserves b m b' m' \<longleftrightarrow>
     (length (wb_datagrams b) + gone_datagrams m \<le> u64_max \<longrightarrow> wb_bytes b + gone_bytes m \<le> u64_max \<longrightarrow>
       length (wb_datagrams b') + gone_datagrams m' = length (wb_datagrams b) + gone_datagrams m \<and>
       wb_bytes b' + gone_bytes m' = wb_bytes b + gone_bytes m \<and>
       added_datagrams m' = added_datagrams m \<and> added_bytes m' = added_bytes m)"

lemma conserves_refl: "conserves b m b m"
  by (simp add: conserves_def)

lemma conserves_trans:
  "conserves b m b' m' \<Longrightarrow> conserves b' m' b'' m'' \<Longrightarrow> conserves b m b'' m''"
  by (simp add: conserves_def)

lemma fold_notes:
  assumes "notes_one note" "gone_datagrams m + length ds \<le> u64_max"
    "gone_bytes m + wire_bytes ds \<le> u64_max"
  shows "gone_datagrams (fold (\<lambda>d. note (length (wd_wire d))) ds m) = gone_datagrams m + length ds \<and>
    gone_bytes (fold (\<lambda>d. note (length (wd_wire d))) ds m) = gone_bytes m + wire_bytes ds \<and>
    added_datagrams (fold (\<lambda>d. note (length (wd_wire d))) ds m) = added_datagrams m \<and>
    added_bytes (fold (\<lambda>d. note (length (wd_wire d))) ds m) = added_bytes m"
  using assms(2,3)
proof (induction ds arbitrary: m)
  case Nil
  then show ?case by simp
next
  case (Cons d ds)
  let ?m = "note (length (wd_wire d)) m"
  have "gone_datagrams ?m = gone_datagrams m + 1 \<and> gone_bytes ?m = gone_bytes m + length (wd_wire d) \<and>
      added_datagrams ?m = added_datagrams m \<and> added_bytes ?m = added_bytes m"
    using assms(1) Cons.prems by (simp add: notes_one_def)
  then show ?case
    using Cons.IH [of ?m] Cons.prems by simp
qed

section \<open>Each step\<close>

lemma remove_expired_exact:
  assumes "warm_exact b" and "remove_expired now b m = (b', m')"
  shows "wb_datagrams b' = filter (\<lambda>d. now < wd_expires_at_us d) (wb_datagrams b) \<and> warm_exact b' \<and>
    length (wb_object_order b') \<le> length (wb_object_order b) \<and> wb_bytes b' \<le> wb_bytes b \<and>
    conserves b m b' m'"
proof -
  let ?keep = "filter (\<lambda>d. now < wd_expires_at_us d) (wb_datagrams b)"
  let ?gone = "filter (\<lambda>d. wd_expires_at_us d \<le> now) (wb_datagrams b)"
  have bytes: "wb_bytes b = wire_bytes (wb_datagrams b)"
    using assms(1) by (simp add: warm_exact_def)
  then have sifted: "sift (\<lambda>d. wd_expires_at_us d \<le> now) note_expired (wb_datagrams b) [] (wb_bytes b) m =
      (?keep, wire_bytes ?keep, fold (\<lambda>d. note_expired (length (wd_wire d))) ?gone m)"
    using sift_exact [of "wb_bytes b" "[]" "wb_datagrams b"] by (simp add: not_le)
  then have b': "b' = \<lparr> wb_datagrams = ?keep,
      wb_object_order = filter (\<lambda>k. has_object k ?keep) (wb_object_order b), wb_bytes = wire_bytes ?keep \<rparr>"
    and m': "m' = fold (\<lambda>d. note_expired (length (wd_wire d))) ?gone m"
    using assms(2) by (simp_all add: remove_expired_def)
  have split: "length (wb_datagrams b) = length ?gone + length ?keep"
    "wire_bytes (wb_datagrams b) = wire_bytes ?gone + wire_bytes ?keep"
    using length_filter_split [of "wb_datagrams b" "\<lambda>d. wd_expires_at_us d \<le> now"]
      wire_bytes_split [of "wb_datagrams b" "\<lambda>d. wd_expires_at_us d \<le> now"] by (simp_all add: not_le)
  have "conserves b m b' m'"
    using fold_notes [OF notes_one_all(1), of m ?gone] split bytes
    by (simp add: conserves_def b' m')
  moreover have "warm_exact b'"
    using assms(1) by (auto simp: warm_exact_def b' has_object_iff)
  ultimately show ?thesis
    using split bytes by (simp add: b' length_filter_le)
qed

lemma remove_warm_object_exact:
  assumes "wb_bytes b = wire_bytes (wb_datagrams b)" and "remove_warm_object k b m = (b', m')"
  shows "wb_datagrams b' = filter (\<lambda>d. wd_object_key d \<noteq> k) (wb_datagrams b) \<and>
    wb_bytes b' = wire_bytes (wb_datagrams b') \<and> wb_object_order b' = wb_object_order b \<and>
    conserves b m b' m'"
proof -
  let ?keep = "filter (\<lambda>d. wd_object_key d \<noteq> k) (wb_datagrams b)"
  let ?gone = "filter (\<lambda>d. wd_object_key d = k) (wb_datagrams b)"
  have "sift (\<lambda>d. wd_object_key d = k) note_retired (wb_datagrams b) [] (wb_bytes b) m =
      (?keep, wire_bytes ?keep, fold (\<lambda>d. note_retired (length (wd_wire d))) ?gone m)"
    using sift_exact [of "wb_bytes b" "[]" "wb_datagrams b"] assms(1) by simp
  then have b': "b' = b\<lparr>wb_datagrams := ?keep, wb_bytes := wire_bytes ?keep\<rparr>"
    and m': "m' = fold (\<lambda>d. note_retired (length (wd_wire d))) ?gone m"
    using assms(2) by (simp_all add: remove_warm_object_def)
  have "length (wb_datagrams b) = length ?gone + length ?keep"
    "wire_bytes (wb_datagrams b) = wire_bytes ?gone + wire_bytes ?keep"
    using length_filter_split [of "wb_datagrams b" "\<lambda>d. wd_object_key d = k"]
      wire_bytes_split [of "wb_datagrams b" "\<lambda>d. wd_object_key d = k"] by simp_all
  then have "conserves b m b' m'"
    using fold_notes [OF notes_one_all(2), of m ?gone] assms(1)
    by (simp add: conserves_def b' m')
  then show ?thesis
    by (simp add: b')
qed

lemma retire_objects_exact:
  "warm_exact b \<Longrightarrow> retire_objects b m = (b', m') \<Longrightarrow>
   wb_object_order b' = drop (length (wb_object_order b) - 4) (wb_object_order b) \<and>
   wb_datagrams b' = filter (\<lambda>d. wd_object_key d \<in> set (wb_object_order b')) (wb_datagrams b) \<and>
   warm_exact b' \<and> conserves b m b' m'"
proof (induction b m arbitrary: b' m' rule: retire_objects.induct)
  case (1 b m)
  show ?case
  proof (cases "4 < length (wb_object_order b)")
    case False
    then have "b' = b" "m' = m"
      using "1.prems"(2) by (simp_all add: retire_objects.simps [of b] warm_limits)
    moreover have "filter (\<lambda>d. wd_object_key d \<in> set (wb_object_order b)) (wb_datagrams b) = wb_datagrams b"
      using "1.prems"(1) by (auto simp: warm_exact_def filter_id_conv)
    ultimately show ?thesis
      using False "1.prems"(1) by (simp add: conserves_refl)
  next
    case True
    then obtain k ks where ord: "wb_object_order b = k # ks"
      by (cases "wb_object_order b") auto
    let ?b0 = "b\<lparr>wb_object_order := ks\<rparr>"
    obtain b1 m1 where rem: "remove_warm_object k ?b0 m = (b1, m1)"
      by (cases "remove_warm_object k ?b0 m")
    have limit: "RELAY_WARM_SOURCE_REPLAY_MAX_OBJECTS_PER_CHILD < length (wb_object_order b)"
      using True by (simp add: warm_limits)
    have step: "retire_objects b1 m1 = (b', m')"
      using "1.prems"(2) limit ord rem by (simp add: retire_objects.simps [of b])
    have r: "wb_datagrams b1 = filter (\<lambda>d. wd_object_key d \<noteq> k) (wb_datagrams b)"
      "wb_bytes b1 = wire_bytes (wb_datagrams b1)" "wb_object_order b1 = ks" "conserves ?b0 m b1 m1"
      using remove_warm_object_exact [OF _ rem] "1.prems"(1) by (auto simp: warm_exact_def)
    have ex: "warm_exact b1"
      using "1.prems"(1) r ord by (auto simp: warm_exact_def)
    note IH = "1.IH" [OF limit ord, simplified rem, simplified, OF ex step]
    have "k \<notin> set (wb_object_order b')"
      using "1.prems"(1) IH r(3) ord by (auto simp: warm_exact_def dest: in_set_dropD)
    then have "wb_datagrams b' = filter (\<lambda>d. wd_object_key d \<in> set (wb_object_order b')) (wb_datagrams b)"
      using IH r(1) by (auto intro: filter_cong)
    moreover have "conserves b m b' m'"
      using r(4) IH by (auto simp: conserves_def)
    moreover have "length ks - 3 = Suc (length ks - 4)"
      using True ord by simp
    ultimately show ?thesis
      using IH r(3) ord by simp
  qed
qed

definition too_big :: "'k warm_datagram list \<Rightarrow> bool" where
  "too_big ds \<longleftrightarrow> RELAY_WARM_SOURCE_REPLAY_MAX_DATAGRAMS_PER_CHILD < length ds \<or>
     RELAY_WARM_SOURCE_REPLAY_MAX_BYTES_PER_CHILD < wire_bytes ds"

lemma evict_datagrams_exact:
  "warm_exact b \<Longrightarrow> evict_datagrams b m = (b', m') \<Longrightarrow>
   (\<exists>n. wb_datagrams b' = drop n (wb_datagrams b) \<and> (\<forall>i < n. too_big (drop i (wb_datagrams b)))) \<and>
   \<not> too_big (wb_datagrams b') \<and> warm_exact b' \<and>
   length (wb_object_order b') \<le> length (wb_object_order b) \<and> conserves b m b' m'"
proof (induction b m arbitrary: b' m' rule: evict_datagrams.induct)
  case (1 b m)
  have bytes: "wb_bytes b = wire_bytes (wb_datagrams b)"
    using "1.prems"(1) by (simp add: warm_exact_def)
  show ?case
  proof (cases "too_big (wb_datagrams b)")
    case False
    then have "b' = b" "m' = m"
      using "1.prems"(2) bytes by (auto simp: evict_datagrams.simps [of b] too_big_def)
    then show ?thesis
      using False "1.prems"(1) by (auto simp: conserves_refl intro: exI [of _ 0])
  next
    case True
    then obtain d ds where ds: "wb_datagrams b = d # ds"
      by (cases "wb_datagrams b") (auto simp: too_big_def)
    define b1 where "b1 = \<lparr> wb_datagrams = ds, wb_object_order =
        (if has_object (wd_object_key d) ds then wb_object_order b
         else filter (\<lambda>k. k \<noteq> wd_object_key d) (wb_object_order b)),
        wb_bytes = wb_bytes b - length (wd_wire d) \<rparr>"
    define m1 where "m1 = note_evicted (length (wd_wire d)) m"
    have over: "RELAY_WARM_SOURCE_REPLAY_MAX_DATAGRAMS_PER_CHILD < length (wb_datagrams b) \<or>
        RELAY_WARM_SOURCE_REPLAY_MAX_BYTES_PER_CHILD < wb_bytes b"
      using True bytes by (simp add: too_big_def)
    then have step: "evict_datagrams b1 m1 = (b', m')"
      using "1.prems"(2) ds by (simp add: evict_datagrams.simps [of b] b1_def m1_def)
    have ex: "warm_exact b1"
      using "1.prems"(1) by (auto simp: warm_exact_def b1_def ds has_object_iff) (metis imageI)
    note IH = "1.IH" [OF over ds, folded b1_def m1_def, OF ex step]
    have "conserves b m b1 m1"
      using notes_one_all(3) bytes
      by (auto simp: conserves_def b1_def m1_def ds notes_one_def)
    moreover obtain n where n: "wb_datagrams b' = drop n ds" "\<forall>i < n. too_big (drop i ds)"
      using IH by (auto simp: b1_def)
    have "\<forall>i < Suc n. too_big (drop i (wb_datagrams b))"
      using n(2) True ds by (auto simp: less_Suc_eq_0_disj)
    then have "\<exists>n. wb_datagrams b' = drop n (wb_datagrams b) \<and> (\<forall>i < n. too_big (drop i (wb_datagrams b)))"
      using n(1) ds by (intro exI [of _ "Suc n"]) simp
    moreover have "length (wb_object_order b1) \<le> length (wb_object_order b)"
      by (simp add: b1_def)
    ultimately show ?thesis
      using IH conserves_trans by (meson le_trans)
  qed
qed

section \<open>A push\<close>

lemma warm_append_exact:
  assumes "warm_exact b" "wb_bytes b + length w \<le> u64_max"
  shows "warm_exact (warm_append k e w b)"
  using assms by (auto simp: warm_exact_def warm_append_def sat_add_exact)

text \<open>What a push leaves: the unexpired datagrams and the new one, restricted to the last four
  objects, without the shortest prefix that has to go for the limits.\<close>

definition warm_accepts :: "nat \<Rightarrow> bytes \<Rightarrow> nat \<Rightarrow> bool" where
  "warm_accepts e w now \<longleftrightarrow> now < e \<and> length w \<le> RELAY_WARM_SOURCE_REPLAY_MAX_BYTES_PER_CHILD"

lemma warm_push_rejected:
  assumes "warm_ok b" "\<not> warm_accepts e w now" "warm_push k e w now b = (b', m)"
  shows "warm_ok b' \<and> wb_datagrams b' = filter (\<lambda>d. now < wd_expires_at_us d) (wb_datagrams b) \<and>
    added_datagrams m = 0 \<and> conserves b warm_mutation_default b' m"
proof -
  have "remove_expired now b warm_mutation_default = (b', m)"
    using assms(2,3) by (auto simp: warm_push_def warm_accepts_def not_le split: prod.splits)
  from remove_expired_exact [OF _ this] assms(1) show ?thesis
    by (auto simp: warm_ok_def warm_limits u64_max_def conserves_def gone_datagrams_def gone_bytes_def
        warm_mutation_default_def intro: le_trans [OF length_filter_le])
qed

lemma warm_push_accepted:
  assumes ok: "warm_ok b" and acc: "warm_accepts e w now" and push: "warm_push k e w now b = (b', m)"
  defines "live \<equiv> filter (\<lambda>d. now < wd_expires_at_us d) (wb_datagrams b)"
    and "new \<equiv> \<lparr> wd_object_key = k, wd_expires_at_us = e, wd_wire = w \<rparr>"
  shows "warm_ok b' \<and> added_datagrams m = 1 \<and> added_bytes m = length w \<and>
    length (wb_datagrams b') + gone_datagrams m = length (wb_datagrams b) + 1 \<and>
    wb_bytes b' + gone_bytes m = wb_bytes b + length w \<and>
    (\<exists>ks n. k \<in> set ks \<and> length ks \<le> 4 \<and>
      wb_datagrams b' = drop n (filter (\<lambda>d. wd_object_key d \<in> set ks) (live @ [new])) \<and>
      (\<forall>i < n. too_big (drop i (filter (\<lambda>d. wd_object_key d \<in> set ks) (live @ [new])))))"
proof -
  obtain b1 m1 where r1: "remove_expired now b warm_mutation_default = (b1, m1)"
    by (cases "remove_expired now b warm_mutation_default")
  let ?a = "warm_append k e w b1" and ?ma = "m1\<lparr>added_datagrams := 1, added_bytes := length w\<rparr>"
  obtain b2 m2 where r2: "retire_objects ?a ?ma = (b2, m2)"
    by (cases "retire_objects ?a ?ma")
  have r3: "evict_datagrams b2 m2 = (b', m)"
    using push r1 r2 acc by (simp add: warm_push_def warm_accepts_def)
  have e0: "warm_exact b"
    using ok by (simp add: warm_ok_def)
  note s1 = remove_expired_exact [OF e0 r1]
  have lens: "length (wb_datagrams b) \<le> 2048" "wb_bytes b \<le> 4194304" "length w \<le> 4194304"
    "length (wb_object_order b) \<le> 4"
    using ok acc by (simp_all add: warm_ok_def warm_limits warm_accepts_def)
  have ea: "warm_exact ?a"
    using s1 lens by (intro warm_append_exact) (simp_all add: u64_max_def)
  note s2 = retire_objects_exact [OF ea r2]
  have e2: "warm_exact b2"
    using s2 by blast
  note s3 = evict_datagrams_exact [OF e2 r3]
  have bytes_a: "wb_bytes ?a = wb_bytes b1 + length w" "length (wb_datagrams ?a) = length (wb_datagrams b1) + 1"
    using s1 lens by (simp_all add: warm_append_def sat_add_exact u64_max_def)
  have g0: "gone_datagrams warm_mutation_default = 0" "gone_bytes warm_mutation_default = 0"
    by (simp_all add: gone_datagrams_def gone_bytes_def warm_mutation_default_def)
  have "conserves b warm_mutation_default b1 m1"
    using s1 by blast
  then have c1: "length (wb_datagrams b1) + gone_datagrams m1 = length (wb_datagrams b)"
    "wb_bytes b1 + gone_bytes m1 = wb_bytes b"
    using lens by (simp_all add: conserves_def g0 u64_max_def)
  have "conserves ?a ?ma b' m"
    using s2 s3 conserves_trans by blast
  then have c: "length (wb_datagrams b') + gone_datagrams m = length (wb_datagrams b) + 1"
    "wb_bytes b' + gone_bytes m = wb_bytes b + length w" "added_datagrams m = 1" "added_bytes m = length w"
    using c1 lens by (simp_all add: conserves_def bytes_a u64_max_def)
  have k: "k \<in> set (wb_object_order b2)" "length (wb_object_order b2) \<le> 4"
    using s2 s1 lens by (auto simp: warm_append_def drop_append split: if_splits)
  have d2: "wb_datagrams b2 = filter (\<lambda>d. wd_object_key d \<in> set (wb_object_order b2)) (live @ [new])"
    using s1 s2 by (simp add: warm_append_def live_def new_def)
  have "warm_ok b'"
    using s3 k(2) by (auto simp: warm_ok_def too_big_def not_less warm_exact_def warm_limits)
  then show ?thesis
    using c k s3 d2 by metis
qed

text \<open>The datagram a push accepts is always kept, as the newest one.\<close>

lemma warm_push_keeps_new:
  assumes "warm_ok b" "warm_accepts e w now" "warm_push k e w now b = (b', m)"
  shows "wb_datagrams b' \<noteq> [] \<and>
    last (wb_datagrams b') = \<lparr> wd_object_key = k, wd_expires_at_us = e, wd_wire = w \<rparr>"
proof -
  let ?new = "\<lparr> wd_object_key = k, wd_expires_at_us = e, wd_wire = w \<rparr>"
  obtain xs n where ds: "wb_datagrams b' = drop n (xs @ [?new])"
    and big: "\<forall>i < n. too_big (drop i (xs @ [?new]))"
    using warm_push_accepted [OF assms] by auto
  have "\<not> too_big (drop (length xs) (xs @ [?new]))"
    using assms(2) by (simp add: too_big_def warm_accepts_def warm_limits)
  with big have "n \<le> length xs"
    by (metis not_le)
  then show ?thesis
    by (simp add: ds)
qed

lemma warm_push_ok: "warm_ok b \<Longrightarrow> warm_ok (fst (warm_push k e w now b))"
  using warm_push_accepted [of b e w now k] warm_push_rejected [of b e w now k]
  by (cases "warm_accepts e w now") (metis prod.collapse)+

lemma drain_exact:
  assumes "wr_expired_datagrams batch + length ds \<le> u64_max"
    "wr_expired_bytes batch + wire_bytes ds \<le> u64_max" "wr_bytes batch + wire_bytes ds \<le> u64_max"
  shows "drain now ds batch = batch\<lparr>
    wr_datagrams := wr_datagrams batch @ map wd_wire (filter (\<lambda>d. now < wd_expires_at_us d) ds),
    wr_bytes := wr_bytes batch + wire_bytes (filter (\<lambda>d. now < wd_expires_at_us d) ds),
    wr_expired_datagrams := wr_expired_datagrams batch + length (filter (\<lambda>d. wd_expires_at_us d \<le> now) ds),
    wr_expired_bytes := wr_expired_bytes batch + wire_bytes (filter (\<lambda>d. wd_expires_at_us d \<le> now) ds)\<rparr>"
  using assms
proof (induction ds arbitrary: batch)
  case Nil
  then show ?case by simp
next
  case (Cons d ds)
  show ?case
  proof (cases "wd_expires_at_us d \<le> now")
    case True
    then show ?thesis
      using Cons.prems by (subst drain.simps, subst Cons.IH) (simp_all add: sat_add_exact)
  next
    case False
    then show ?thesis
      using Cons.prems by (subst drain.simps, subst Cons.IH) (simp_all add: sat_add_exact not_le)
  qed
qed

lemma warm_take_live_exact:
  assumes "warm_ok b"
  shows "warm_take_live now b = (warm_buffer_default,
    \<lparr> wr_datagrams = map wd_wire (filter (\<lambda>d. now < wd_expires_at_us d) (wb_datagrams b)),
      wr_bytes = wire_bytes (filter (\<lambda>d. now < wd_expires_at_us d) (wb_datagrams b)),
      wr_expired_datagrams = length (filter (\<lambda>d. wd_expires_at_us d \<le> now) (wb_datagrams b)),
      wr_expired_bytes = wire_bytes (filter (\<lambda>d. wd_expires_at_us d \<le> now) (wb_datagrams b)) \<rparr>)"
proof -
  have "length (wb_datagrams b) \<le> u64_max" "wire_bytes (wb_datagrams b) \<le> u64_max"
    using assms by (auto simp: warm_ok_def warm_exact_def warm_limits u64_max_def)
  then show ?thesis
    by (simp add: warm_take_live_def drain_exact)
qed

end
