(* ===== verification/Relay_Forwarder.thy ===== *)
theory Relay_Forwarder
  imports Warm_Replay
begin

text \<open>
  The sending side of warm-secondary failover in \<open>src/src/main.rs\<close>: the downstream forwarder
  with one path per subscribed child (\<open>RelayDownstreamForwarder\<close>), and the listener that
  promotes a repair-only path to carry source symbols while a controller renews its lease
  (\<open>run_relay_failover_listener\<close>).

  The counters are \<open>AtomicU64\<close>: words, on which \<open>fetch_add\<close> wraps. A call of the socket answers
  with the number of bytes it sent or an error; the answers, the durations and the clocks are
  arguments. Encoding and decoding of a lease command belong to the crate \<open>relay_session\<close>; the
  decoder is an argument. Publishing a metrics snapshot after each step and log output are left
  out. Each call is one step: the source reads the promotion flag of a path once per datagram.
\<close>

section \<open>State\<close>

datatype media_role = SourceSymbol | RepairSymbol

datatype forward_role = ForwardAll | ForwardSource | ForwardRepair

datatype failover_mode = RepairOnly | SourceAndRepair

fun permits :: "forward_role \<Rightarrow> media_role \<Rightarrow> bool" where
  "permits ForwardAll r = True"
| "permits ForwardSource r = (r = SourceSymbol)"
| "permits ForwardRepair r = (r = RepairSymbol)"

record ('a, 'k) forward_path =
  fp_target :: 'a
  fp_role :: forward_role
  fp_promoted :: bool
  fp_warm_sources :: "'k warm_buffer"

record forward_counters =
  fc_source_datagrams :: u64
  fc_repair_datagrams :: u64
  fc_bytes :: u64
  fc_errors :: u64
  fc_filtered_datagrams :: u64
  fc_warm_buffered_datagrams :: u64
  fc_warm_buffered_bytes :: u64
  fc_warm_replayed_datagrams :: u64
  fc_warm_replayed_bytes :: u64
  fc_warm_expired_datagrams :: u64
  fc_warm_retired_datagrams :: u64
  fc_warm_evicted_datagrams :: u64
  fc_duration_count :: u64
  fc_duration_sum_us :: u64
  fc_duration_max_us :: u64
  fc_duration_buckets :: "u64 list"
  fc_listeners :: u64
  fc_commands_received :: u64
  fc_commands_rejected :: u64
  fc_lease_expirations :: u64
  fc_promotions_applied :: u64
  fc_demotions_applied :: u64
  fc_last_transition_unix_ms :: u64

record ('a, 'k) forwarder =
  fw_paths :: "('a, 'k) forward_path list"
  fw_counters :: forward_counters

definition EDGE_RESPONSE_DURATION_BUCKETS_US :: "nat list" where
  "EDGE_RESPONSE_DURATION_BUCKETS_US =
     [100, 250, 500, 1000, 2500, 5000, 10000, 25000, 50000, 100000, 250000, 500000, 1000000]"

definition counters_zero :: forward_counters where
  "counters_zero =
     \<lparr> fc_source_datagrams = 0, fc_repair_datagrams = 0, fc_bytes = 0, fc_errors = 0,
       fc_filtered_datagrams = 0, fc_warm_buffered_datagrams = 0, fc_warm_buffered_bytes = 0,
       fc_warm_replayed_datagrams = 0, fc_warm_replayed_bytes = 0, fc_warm_expired_datagrams = 0,
       fc_warm_retired_datagrams = 0, fc_warm_evicted_datagrams = 0, fc_duration_count = 0,
       fc_duration_sum_us = 0, fc_duration_max_us = 0,
       fc_duration_buckets = map (\<lambda>_. 0) EDGE_RESPONSE_DURATION_BUCKETS_US,
       fc_listeners = 0, fc_commands_received = 0, fc_commands_rejected = 0,
       fc_lease_expirations = 0, fc_promotions_applied = 0, fc_demotions_applied = 0,
       fc_last_transition_unix_ms = 0 \<rparr>"

definition forwarder_bind :: "('a \<times> forward_role) list \<Rightarrow> ('a, 'k) forwarder option" where
  "forwarder_bind endpoints =
     (if endpoints = [] then None
      else Some
        \<lparr> fw_paths = map (\<lambda>(target, role).
              \<lparr> fp_target = target, fp_role = role, fp_promoted = False,
                fp_warm_sources = warm_buffer_default \<rparr>) endpoints,
          fw_counters = counters_zero \<rparr>)"

section \<open>Forwarding\<close>

definition saturating_sub :: "u64 \<Rightarrow> nat \<Rightarrow> u64" where
  "saturating_sub c n = (if n \<le> unat c then c - of_nat n else 0)"

definition count_mutation :: "warm_mutation \<Rightarrow> forward_counters \<Rightarrow> forward_counters" where
  "count_mutation m c = c\<lparr>
     fc_warm_buffered_datagrams :=
       saturating_sub (fc_warm_buffered_datagrams c + of_nat (added_datagrams m))
         (sat_add (sat_add (expired_datagrams m) (retired_datagrams m)) (evicted_datagrams m)),
     fc_warm_buffered_bytes :=
       saturating_sub (fc_warm_buffered_bytes c + of_nat (added_bytes m))
         (sat_add (sat_add (expired_bytes m) (retired_bytes m)) (evicted_bytes m)),
     fc_warm_expired_datagrams := fc_warm_expired_datagrams c + of_nat (expired_datagrams m),
     fc_warm_retired_datagrams := fc_warm_retired_datagrams c + of_nat (retired_datagrams m),
     fc_warm_evicted_datagrams := fc_warm_evicted_datagrams c + of_nat (evicted_datagrams m)\<rparr>"

definition buffer_warm_source ::
  "'k \<Rightarrow> nat \<Rightarrow> bytes \<Rightarrow> nat \<Rightarrow> ('a, 'k) forward_path \<Rightarrow> forward_counters \<Rightarrow>
   ('a, 'k) forward_path \<times> forward_counters" where
  "buffer_warm_source key expires_at_us datagram now_us path c =
     (case warm_push key expires_at_us datagram now_us (fp_warm_sources path) of
        (b, m) \<Rightarrow> (path\<lparr>fp_warm_sources := b\<rparr>, count_mutation m c))"

definition observe_duration :: "nat \<Rightarrow> forward_counters \<Rightarrow> forward_counters" where
  "observe_duration duration c =
     (let us = min duration u64_max in
      c\<lparr>fc_duration_count := fc_duration_count c + 1,
        fc_duration_sum_us := fc_duration_sum_us c + of_nat us,
        fc_duration_max_us := max (fc_duration_max_us c) (of_nat us),
        fc_duration_buckets :=
          map2 (\<lambda>bound n. if us \<le> bound then n + 1 else n)
            EDGE_RESPONSE_DURATION_BUCKETS_US (fc_duration_buckets c)\<rparr>)"

definition record_forward_success :: "media_role \<Rightarrow> nat \<Rightarrow> nat \<Rightarrow> forward_counters \<Rightarrow> forward_counters" where
  "record_forward_success role sent duration c =
     (let c1 = (case role of
            SourceSymbol \<Rightarrow> c\<lparr>fc_source_datagrams := fc_source_datagrams c + 1\<rparr>
          | RepairSymbol \<Rightarrow> c\<lparr>fc_repair_datagrams := fc_repair_datagrams c + 1\<rparr>) in
      observe_duration duration (c1\<lparr>fc_bytes := fc_bytes c1 + of_nat sent\<rparr>))"

text \<open>The answer of \<open>send_to\<close> (\<open>None\<close> an error) and the time it took.\<close>

type_synonym send_result = "nat option \<times> nat"

definition record_send :: "media_role \<Rightarrow> bytes \<Rightarrow> send_result \<Rightarrow> forward_counters \<Rightarrow> forward_counters" where
  "record_send role datagram r c =
     (case r of
        (Some sent, duration) \<Rightarrow>
          if sent = length datagram then record_forward_success role sent duration c
          else c\<lparr>fc_errors := fc_errors c + 1\<rparr>
      | (None, _) \<Rightarrow> c\<lparr>fc_errors := fc_errors c + 1\<rparr>)"

text \<open>Whether a datagram goes out on a path.\<close>

definition forwards :: "('a, 'k) forward_path \<Rightarrow> media_role \<Rightarrow> bool" where
  "forwards path role \<longleftrightarrow> permits (fp_role path) role \<or>
     fp_promoted path \<and> fp_role path = ForwardRepair \<and> role = SourceSymbol"

definition forward_one ::
  "bytes \<Rightarrow> media_role \<Rightarrow> 'k option \<Rightarrow> nat option \<Rightarrow> nat \<Rightarrow> send_result \<Rightarrow>
   ('a, 'k) forward_path \<Rightarrow> forward_counters \<Rightarrow>
   ('a, 'k) forward_path \<times> forward_counters \<times> ('a \<times> bytes) list" where
  "forward_one datagram role object_key expires_at_us now_us r path c =
     (if \<not> forwards path role then
        (case (if fp_role path = ForwardRepair \<and> role = SourceSymbol
               then (case (object_key, expires_at_us) of
                       (Some key, Some e) \<Rightarrow> buffer_warm_source key e datagram now_us path c
                     | _ \<Rightarrow> (path, c))
               else (path, c)) of
           (path', c') \<Rightarrow> (path', c'\<lparr>fc_filtered_datagrams := fc_filtered_datagrams c' + 1\<rparr>, []))
      else (path, record_send role datagram r c, [(fp_target path, datagram)]))"

text \<open>The loop over the paths; \<open>env\<close> gives the clock and the socket's answer for each of them.\<close>

fun forward_paths ::
  "bytes \<Rightarrow> media_role \<Rightarrow> 'k option \<Rightarrow> nat option \<Rightarrow> (nat \<Rightarrow> nat \<times> send_result) \<Rightarrow> nat \<Rightarrow>
   ('a, 'k) forward_path list \<Rightarrow> forward_counters \<Rightarrow>
   ('a, 'k) forward_path list \<times> forward_counters \<times> ('a \<times> bytes) list" where
  "forward_paths datagram role object_key expires_at_us env i [] c = ([], c, [])"
| "forward_paths datagram role object_key expires_at_us env i (p # ps) c =
     (case forward_one datagram role object_key expires_at_us (fst (env i)) (snd (env i)) p c of
        (p', c', out) \<Rightarrow>
          (case forward_paths datagram role object_key expires_at_us env (Suc i) ps c' of
             (ps', c'', outs) \<Rightarrow> (p' # ps', c'', out @ outs)))"

definition forward ::
  "bytes \<Rightarrow> media_role \<Rightarrow> 'k option \<Rightarrow> nat option \<Rightarrow> (nat \<Rightarrow> nat \<times> send_result) \<Rightarrow>
   ('a, 'k) forwarder \<Rightarrow> ('a, 'k) forwarder \<times> ('a \<times> bytes) list" where
  "forward datagram role object_key expires_at_us env f =
     (case forward_paths datagram role object_key expires_at_us env 0 (fw_paths f) (fw_counters f) of
        (ps, c, out) \<Rightarrow> (\<lparr> fw_paths = ps, fw_counters = c \<rparr>, out))"

section \<open>Replay and failover modes\<close>

text \<open>\<open>self.paths.iter().find(|path| path.target == target)\<close> and the update of the path found.\<close>

definition find_path :: "'a \<Rightarrow> ('a, 'k) forwarder \<Rightarrow> ('a, 'k) forward_path option" where
  "find_path target f = List.find (\<lambda>p. fp_target p = target) (fw_paths f)"

fun update_first :: "('p \<Rightarrow> bool) \<Rightarrow> ('p \<Rightarrow> 'p) \<Rightarrow> 'p list \<Rightarrow> 'p list" where
  "update_first P g [] = []"
| "update_first P g (p # ps) = (if P p then g p # ps else p # update_first P g ps)"

definition set_path ::
  "'a \<Rightarrow> (('a, 'k) forward_path \<Rightarrow> ('a, 'k) forward_path) \<Rightarrow> ('a, 'k) forwarder \<Rightarrow> ('a, 'k) forwarder" where
  "set_path target g f = f\<lparr>fw_paths := update_first (\<lambda>p. fp_target p = target) g (fw_paths f)\<rparr>"

definition count :: "(forward_counters \<Rightarrow> forward_counters) \<Rightarrow> ('a, 'k) forwarder \<Rightarrow> ('a, 'k) forwarder" where
  "count g f = f\<lparr>fw_counters := g (fw_counters f)\<rparr>"

definition replay_one :: "bytes \<Rightarrow> send_result \<Rightarrow> forward_counters \<Rightarrow> forward_counters" where
  "replay_one datagram r c =
     (let c' = record_send SourceSymbol datagram r c in
      if fst r = Some (length datagram)
      then c'\<lparr>fc_warm_replayed_datagrams := fc_warm_replayed_datagrams c' + 1,
              fc_warm_replayed_bytes := fc_warm_replayed_bytes c' + of_nat (length datagram)\<rparr>
      else c')"

fun replay_all :: "bytes list \<Rightarrow> (nat \<Rightarrow> send_result) \<Rightarrow> nat \<Rightarrow> forward_counters \<Rightarrow> forward_counters" where
  "replay_all [] rs i c = c"
| "replay_all (d # ds) rs i c = replay_all ds rs (Suc i) (replay_one d (rs i) c)"

definition replay_warm_sources ::
  "'a \<Rightarrow> nat \<Rightarrow> (nat \<Rightarrow> send_result) \<Rightarrow> ('a, 'k) forwarder \<Rightarrow> ('a, 'k) forwarder \<times> ('a \<times> bytes) list" where
  "replay_warm_sources target now_us rs f =
     (case find_path target f of
        None \<Rightarrow> (f, [])
      | Some path \<Rightarrow>
          (case warm_take_live now_us (fp_warm_sources path) of
             (b, batch) \<Rightarrow>
               let f1 = set_path target (\<lambda>p. p\<lparr>fp_warm_sources := b\<rparr>) f;
                   f2 = count (\<lambda>c. c\<lparr>
                     fc_warm_buffered_datagrams := saturating_sub (fc_warm_buffered_datagrams c)
                       (sat_add (length (wr_datagrams batch)) (wr_expired_datagrams batch)),
                     fc_warm_buffered_bytes := saturating_sub (fc_warm_buffered_bytes c)
                       (sat_add (wr_bytes batch) (wr_expired_bytes batch)),
                     fc_warm_expired_datagrams :=
                       fc_warm_expired_datagrams c + of_nat (wr_expired_datagrams batch)\<rparr>) f1
               in (count (replay_all (wr_datagrams batch) rs 0) f2,
                   map (\<lambda>d. (target, d)) (wr_datagrams batch))))"

definition register_failover_listener :: "('a, 'k) forwarder \<Rightarrow> ('a, 'k) forwarder" where
  "register_failover_listener = count (\<lambda>c. c\<lparr>fc_listeners := fc_listeners c + 1\<rparr>)"

definition record_failover_command_rejected :: "('a, 'k) forwarder \<Rightarrow> ('a, 'k) forwarder" where
  "record_failover_command_rejected =
     count (\<lambda>c. c\<lparr>fc_commands_rejected := fc_commands_rejected c + 1\<rparr>)"

definition count_transition :: "bool \<Rightarrow> bool \<Rightarrow> nat \<Rightarrow> forward_counters \<Rightarrow> forward_counters" where
  "count_transition promoted lease_expired now_ms c =
     (let c1 = (if promoted then c\<lparr>fc_promotions_applied := fc_promotions_applied c + 1\<rparr>
                else c\<lparr>fc_demotions_applied := fc_demotions_applied c + 1\<rparr>);
          c2 = (if lease_expired then c1\<lparr>fc_lease_expirations := fc_lease_expirations c1 + 1\<rparr> else c1)
      in c2\<lparr>fc_last_transition_unix_ms := of_nat now_ms\<rparr>)"

definition apply_failover_mode ::
  "'a \<Rightarrow> failover_mode \<Rightarrow> bool \<Rightarrow> nat \<Rightarrow> ('a, 'k) forwarder \<Rightarrow> ('a, 'k) forwarder \<times> bool option" where
  "apply_failover_mode target mode lease_expired now_ms f =
     (case find_path target f of
        None \<Rightarrow> (record_failover_command_rejected f, None)
      | Some path \<Rightarrow>
          if fp_role path \<noteq> ForwardRepair then (record_failover_command_rejected f, None)
          else
           let f1 = (if lease_expired then f
                     else count (\<lambda>c. c\<lparr>fc_commands_received := fc_commands_received c + 1\<rparr>) f);
               promoted = (mode = SourceAndRepair);
               f2 = set_path target (\<lambda>p. p\<lparr>fp_promoted := promoted\<rparr>) f1;
               f3 = (if fp_promoted path \<noteq> promoted
                     then count (count_transition promoted lease_expired now_ms) f2 else f2)
           in (f3, Some (\<not> fp_promoted path \<and> promoted)))"

section \<open>The listener\<close>

record lease_command =
  lc_generation :: u64
  lc_subscription_id :: u64
  lc_transition_id :: u64
  lc_issued_at_us :: u64
  lc_lease_duration_us :: u64
  lc_mode :: failover_mode

record 'a listener_endpoint =
  le_bind :: 'a
  le_peer :: 'a
  le_forward_target :: 'a

record listener_state =
  ls_transition_id :: u64
  ls_transition_mode :: failover_mode
  ls_lease_deadline :: "nat option"

definition listener_new :: listener_state where
  "listener_new = \<lparr> ls_transition_id = 0, ls_transition_mode = RepairOnly, ls_lease_deadline = None \<rparr>"

definition listener_tick ::
  "'a listener_endpoint \<Rightarrow> nat \<Rightarrow> nat \<Rightarrow> ('a, 'k) forwarder \<times> listener_state \<Rightarrow>
   ('a, 'k) forwarder \<times> listener_state" where
  "listener_tick ep now now_ms = (\<lambda>(f, l).
     if (case ls_lease_deadline l of None \<Rightarrow> False | Some deadline \<Rightarrow> deadline \<le> now)
     then (fst (apply_failover_mode (le_forward_target ep) RepairOnly True now_ms f),
           l\<lparr>ls_lease_deadline := None, ls_transition_mode := RepairOnly\<rparr>)
     else (f, l))"

definition stale_command :: "u64 \<Rightarrow> u64 \<Rightarrow> lease_command \<Rightarrow> listener_state \<Rightarrow> bool" where
  "stale_command generation subscription_id command l \<longleftrightarrow>
     lc_generation command \<noteq> generation \<or> lc_subscription_id command \<noteq> subscription_id \<or>
     lc_transition_id command < ls_transition_id l \<or>
     lc_transition_id command = ls_transition_id l \<and> lc_mode command \<noteq> ls_transition_mode l"

text \<open>A received datagram: \<open>None\<close> is an error of \<open>recv_from\<close>. \<open>now\<close> is the monotonic clock in
  microseconds, \<open>now_ms\<close> and \<open>now_us\<close> the wall clock, \<open>rs\<close> the answers to the replayed sends.\<close>

definition listener_recv ::
  "(bytes \<Rightarrow> lease_command option) \<Rightarrow> u64 \<Rightarrow> u64 \<Rightarrow> 'a listener_endpoint \<Rightarrow>
   (bytes \<times> 'a) option \<Rightarrow> nat \<Rightarrow> nat \<Rightarrow> nat \<Rightarrow> (nat \<Rightarrow> send_result) \<Rightarrow>
   ('a, 'k) forwarder \<times> listener_state \<Rightarrow>
   (('a, 'k) forwarder \<times> listener_state) \<times> ('a \<times> bytes) list" where
  "listener_recv decode generation subscription_id ep received now now_ms now_us rs = (\<lambda>(f, l).
     case received of
       None \<Rightarrow> ((record_failover_command_rejected f, l), [])
     | Some (buffer, peer) \<Rightarrow>
         (case (if peer = le_peer ep then decode buffer else None) of
            None \<Rightarrow> ((record_failover_command_rejected f, l), [])
          | Some command \<Rightarrow>
              if stale_command generation subscription_id command l
              then ((record_failover_command_rejected f, l), [])
              else
               let l1 = l\<lparr>ls_transition_id := lc_transition_id command, ls_transition_mode := lc_mode command\<rparr>
               in (case apply_failover_mode (le_forward_target ep) (lc_mode command) False now_ms f of
                     (f1, None) \<Rightarrow> ((f1, l1), [])
                   | (f1, Some promoted_now) \<Rightarrow>
                       let l2 = l1\<lparr>ls_lease_deadline :=
                             (if lc_mode command = SourceAndRepair
                              then Some (now + unat (lc_lease_duration_us command)) else None)\<rparr>
                       in if promoted_now
                          then (case replay_warm_sources (le_forward_target ep) now_us rs f1 of
                                  (f2, out) \<Rightarrow> ((f2, l2), out))
                          else ((f1, l2), []))))"

section \<open>The checks on the command line\<close>

text \<open>The part of \<open>Args::normalize\<close> that concerns forwarding and failover. \<open>unspecified\<close> is
  \<open>SocketAddr::ip().is_unspecified()\<close>.\<close>

record 'a forward_endpoint =
  fe_bind :: 'a
  fe_target :: 'a
  fe_role :: forward_role

record 'a relay_args =
  ra_fec_bind :: 'a
  ra_secondary_bind :: "'a option"
  ra_forwards :: "'a forward_endpoint list"
  ra_controller :: "('a \<times> 'a) option"
  ra_controlled_local :: bool
  ra_secondary_peer :: "'a option"
  ra_secondary_promoted :: bool
  ra_listeners :: "'a listener_endpoint list"
  ra_primary_silence_ms :: nat
  ra_primary_recovery_ms :: nat
  ra_secondary_warm_ms :: nat
  ra_heartbeat_ms :: nat
  ra_lease_ms :: nat

datatype 'a relay_args_error =
    ForwardBindIsTarget 'a
  | ForwardBindConflict 'a
  | DuplicateForwardBind 'a
  | DuplicateForwardTarget 'a
  | ControllerNeedsControlledLocal
  | ControllerNeedsPromotedSecondary
  | ListenerNeedsControlledLocal
  | ListenerTargetUnknown 'a
  | ListenerTargetNotRepair 'a
  | ListenerBindInvalid
  | DuplicateControlBind 'a
  | DuplicateControlTarget 'a
  | ControllerBindInvalid
  | FailoverWindowsInvalid
  | FailoverLeaseInvalid

fun check_forwards ::
  "'a relay_args \<Rightarrow> 'a list \<Rightarrow> 'a list \<Rightarrow> 'a forward_endpoint list \<Rightarrow> 'a relay_args_error + unit" where
  "check_forwards a binds targets [] = Inr ()"
| "check_forwards a binds targets (e # es) =
     (if fe_bind e = fe_target e then Inl (ForwardBindIsTarget (fe_bind e))
      else if fe_bind e = ra_fec_bind a \<or> Some (fe_bind e) = ra_secondary_bind a
      then Inl (ForwardBindConflict (fe_bind e))
      else if fe_bind e \<in> set binds then Inl (DuplicateForwardBind (fe_bind e))
      else if fe_target e \<in> set targets then Inl (DuplicateForwardTarget (fe_target e))
      else check_forwards a (fe_bind e # binds) (fe_target e # targets) es)"

fun check_listeners ::
  "('a \<Rightarrow> bool) \<Rightarrow> 'a relay_args \<Rightarrow> 'a list \<Rightarrow> 'a list \<Rightarrow> 'a listener_endpoint list \<Rightarrow>
   'a relay_args_error + 'a list" where
  "check_listeners unspecified a binds targets [] = Inr binds"
| "check_listeners unspecified a binds targets (l # ls) =
     (case List.find (\<lambda>e. fe_target e = le_forward_target l) (ra_forwards a) of
        None \<Rightarrow> Inl (ListenerTargetUnknown (le_forward_target l))
      | Some e \<Rightarrow>
          if fe_role e \<noteq> ForwardRepair then Inl (ListenerTargetNotRepair (le_forward_target l))
          else if le_bind l = le_peer l \<or> unspecified (le_bind l) then Inl ListenerBindInvalid
          else if le_bind l \<in> set binds then Inl (DuplicateControlBind (le_bind l))
          else if le_forward_target l \<in> set targets
          then Inl (DuplicateControlTarget (le_forward_target l))
          else check_listeners unspecified a (le_bind l # binds) (le_forward_target l # targets) ls)"

definition check_relay_args :: "('a \<Rightarrow> bool) \<Rightarrow> 'a relay_args \<Rightarrow> 'a relay_args_error + unit" where
  "check_relay_args unspecified a =
     (case check_forwards a [] [] (ra_forwards a) of
        Inl e \<Rightarrow> Inl e
      | Inr _ \<Rightarrow>
          if ra_controller a \<noteq> None \<and> \<not> ra_controlled_local a
          then Inl ControllerNeedsControlledLocal
          else if ra_controller a \<noteq> None \<and> (ra_secondary_peer a = None \<or> \<not> ra_secondary_promoted a)
          then Inl ControllerNeedsPromotedSecondary
          else if ra_listeners a \<noteq> [] \<and> \<not> ra_controlled_local a
          then Inl ListenerNeedsControlledLocal
          else (case check_listeners unspecified a [] [] (ra_listeners a) of
            Inl e \<Rightarrow> Inl e
          | Inr binds \<Rightarrow>
              (case (case ra_controller a of
                       None \<Rightarrow> Inr ()
                     | Some (bind, target) \<Rightarrow>
                         if bind = target \<or> unspecified bind then Inl ControllerBindInvalid
                         else if bind \<in> set binds then Inl (DuplicateControlBind bind)
                         else Inr ()) of
                 Inl e \<Rightarrow> Inl e
               | Inr _ \<Rightarrow>
                   if ra_primary_silence_ms a = 0 \<or> ra_primary_recovery_ms a < ra_primary_silence_ms a \<or>
                      ra_secondary_warm_ms a < ra_primary_silence_ms a
                   then Inl FailoverWindowsInvalid
                   else if ra_heartbeat_ms a = 0 \<or> ra_lease_ms a < sat_mul (ra_heartbeat_ms a) 3 \<or>
                      60000 < ra_lease_ms a
                   then Inl FailoverLeaseInvalid
                   else Inr ())))"

end
