(* ===== verification/Relay_Leases.thy ===== *)
theory Relay_Leases
  imports Relay_Forwarder
begin

text \<open>
  The forwarder and its listeners as one system. The invariant says that a repair-only path is
  promoted exactly while the one listener assigned to it holds a lease, that the buffers of all
  paths are in order, and that the buffered totals are exact.
\<close>

section \<open>The configuration\<close>

lemma check_forwards_ok:
  "check_forwards a binds targets es = Inr u \<Longrightarrow>
   distinct (map fe_target es) \<and> set (map fe_target es) \<inter> set targets = {}"
  by (induction a binds targets es rule: check_forwards.induct) (auto split: if_splits)

lemma check_listeners_ok:
  "check_listeners unsp a binds targets ls = Inr bs \<Longrightarrow>
   distinct (map le_forward_target ls) \<and> set (map le_forward_target ls) \<inter> set targets = {} \<and>
   (\<forall>l \<in> set ls. \<exists>e \<in> set (ra_forwards a). fe_target e = le_forward_target l \<and> fe_role e = ForwardRepair)"
proof (induction unsp a binds targets ls rule: check_listeners.induct)
  case (1 unsp a binds targets)
  then show ?case by simp
next
  case (2 unsp a binds targets l ls)
  then obtain e where "List.find (\<lambda>e. fe_target e = le_forward_target l) (ra_forwards a) = Some e"
    "fe_role e = ForwardRepair" "le_forward_target l \<notin> set targets"
    and rest: "check_listeners unsp a (le_bind l # binds) (le_forward_target l # targets) ls = Inr bs"
    by (auto split: option.splits if_splits)
  moreover from this have "e \<in> set (ra_forwards a)" "fe_target e = le_forward_target l"
    by (auto simp: find_Some_iff)
  ultimately show ?case
    using "2.IH" [of e] "2.prems" by (auto split: option.splits if_splits)
qed

lemma check_relay_args_ok:
  assumes "check_relay_args unsp a = Inr u"
  shows "distinct (map fe_target (ra_forwards a)) \<and> distinct (map le_forward_target (ra_listeners a)) \<and>
    (\<forall>l \<in> set (ra_listeners a). \<exists>e \<in> set (ra_forwards a).
       fe_target e = le_forward_target l \<and> fe_role e = ForwardRepair)"
  using assms check_forwards_ok [of a "[]" "[]" "ra_forwards a"]
    check_listeners_ok [of unsp a "[]" "[]" "ra_listeners a"]
  by (auto simp: check_relay_args_def split: sum.splits if_splits)

section \<open>Paths by target\<close>

abbreviation targets :: "('a, 'k) forwarder \<Rightarrow> 'a list" where
  "targets f \<equiv> map fp_target (fw_paths f)"

lemma find_path_Some:
  "distinct (targets f) \<Longrightarrow> find_path t f = Some p \<longleftrightarrow> p \<in> set (fw_paths f) \<and> fp_target p = t"
  by (auto simp: find_path_def find_Some_iff distinct_conv_nth in_set_conv_nth)

lemma find_path_None: "find_path t f = None \<longleftrightarrow> t \<notin> set (targets f)"
  by (auto simp: find_path_def find_None_iff)

lemma count_paths [simp]: "fw_paths (count g f) = fw_paths f"
  by (simp add: count_def)

lemma count_counters [simp]: "fw_counters (count g f) = g (fw_counters f)"
  by (simp add: count_def)

lemma set_path_counters [simp]: "fw_counters (set_path t g f) = fw_counters f"
  by (simp add: set_path_def)

lemma update_first_distinct:
  "distinct (map fp_target ps) \<Longrightarrow>
   update_first (\<lambda>p. fp_target p = t) g ps = map (\<lambda>p. if fp_target p = t then g p else p) ps"
proof (induction ps)
  case Nil
  then show ?case by simp
next
  case (Cons p ps)
  have "map (\<lambda>p. if fp_target p = t then g p else p) ps = ps" if "fp_target p = t"
    using Cons.prems that by (auto intro!: map_idI split: if_splits) (metis image_eqI)
  with Cons show ?case by simp
qed

lemma set_path_paths:
  "distinct (targets f) \<Longrightarrow>
   fw_paths (set_path t g f) = map (\<lambda>p. if fp_target p = t then g p else p) (fw_paths f)"
  by (simp add: set_path_def update_first_distinct)

text \<open>The view of a forwarder that decides what goes out: target, role and promotion of each path.\<close>

type_synonym 'a view = "('a \<times> forward_role \<times> bool) list"

definition view :: "('a, 'k) forwarder \<Rightarrow> 'a view" where
  "view f = map (\<lambda>p. (fp_target p, fp_role p, fp_promoted p)) (fw_paths f)"

definition set_view :: "'a \<Rightarrow> bool \<Rightarrow> 'a view \<Rightarrow> 'a view" where
  "set_view t b = map (\<lambda>(t', r, b'). (t', r, if t' = t then b else b'))"

lemma view_targets: "map fst (view f) = targets f"
  by (simp add: view_def)

lemma length_view: "length (view f) = length (fw_paths f)"
  by (simp add: view_def)

lemma length_set_view: "length (set_view t b v) = length v"
  by (simp add: set_view_def)

lemma view_count [simp]: "view (count g f) = view f"
  by (simp add: view_def)

lemma view_rejected [simp]: "view (record_failover_command_rejected f) = view f"
  by (simp add: record_failover_command_rejected_def)

lemma set_view_same:
  "distinct (map fst v) \<Longrightarrow> (t, r, b) \<in> set v \<Longrightarrow> set_view t b v = v"
  unfolding set_view_def
  by (intro map_idI) (auto split: if_splits dest: eq_key_imp_eq_value)

lemma view_find:
  assumes "distinct (targets f)" "(t, r, b) \<in> set (view f)"
  shows "\<exists>p. find_path t f = Some p \<and> fp_role p = r \<and> fp_promoted p = b"
  using assms by (auto simp: view_def find_path_Some)

section \<open>Forwarding\<close>

lemma forward_one_keeps:
  "forward_one d role k e now r p c = (p', c', out) \<Longrightarrow>
   fp_target p' = fp_target p \<and> fp_role p' = fp_role p \<and> fp_promoted p' = fp_promoted p \<and>
   out = (if forwards p role then [(fp_target p, d)] else [])"
  by (auto simp: forward_one_def buffer_warm_source_def split: if_splits option.splits prod.splits)

lemma forward_paths_keeps:
  "forward_paths d role k e env i ps c = (ps', c', out) \<Longrightarrow>
   map (\<lambda>p. (fp_target p, fp_role p, fp_promoted p)) ps' = map (\<lambda>p. (fp_target p, fp_role p, fp_promoted p)) ps \<and>
   out = map (\<lambda>p. (fp_target p, d)) (filter (\<lambda>p. forwards p role) ps)"
proof (induction ps arbitrary: i c ps' c' out)
  case Nil
  then show ?case by simp
next
  case (Cons p ps)
  obtain p1 c1 o1 where 1: "forward_one d role k e (fst (env i)) (snd (env i)) p c = (p1, c1, o1)"
    by (cases "forward_one d role k e (fst (env i)) (snd (env i)) p c")
  obtain ps2 c2 o2 where 2: "forward_paths d role k e env (Suc i) ps c1 = (ps2, c2, o2)"
    by (cases "forward_paths d role k e env (Suc i) ps c1")
  show ?case
    using Cons.prems Cons.IH [OF 2] forward_one_keeps [OF 1] 1 2 by auto
qed

lemma forward_view:
  assumes "forward d role k e env f = (f', out)"
  shows "view f' = view f" and "out = map (\<lambda>p. (fp_target p, d)) (filter (\<lambda>p. forwards p role) (fw_paths f))"
  using assms forward_paths_keeps [of d role k e env 0 "fw_paths f" "fw_counters f"]
  by (auto simp: forward_def view_def split: prod.splits)

section \<open>Failover modes\<close>

lemma apply_failover_view:
  assumes "distinct (targets f)" "(t, ForwardRepair, b) \<in> set (view f)"
    and "apply_failover_mode t mode expired ms f = (f', r)"
  shows "view f' = set_view t (mode = SourceAndRepair) (view f)"
    and "r = Some (\<not> b \<and> mode = SourceAndRepair)"
proof -
  obtain p where p: "find_path t f = Some p" "fp_role p = ForwardRepair" "fp_promoted p = b"
    using view_find [OF assms(1,2)] by blast
  have "view (set_path t (\<lambda>p. p\<lparr>fp_promoted := x\<rparr>) f) = set_view t x (view f)"
    "view (set_path t (\<lambda>p. p\<lparr>fp_promoted := x\<rparr>) (count g f)) = set_view t x (view f)" for x g
    using assms(1) by (auto simp: view_def set_path_paths set_view_def)
  then show "view f' = set_view t (mode = SourceAndRepair) (view f)"
    and "r = Some (\<not> b \<and> mode = SourceAndRepair)"
    using assms(3) p by (auto simp: apply_failover_mode_def Let_def split: if_splits)
qed

lemma replay_view:
  assumes "distinct (targets f)"
  shows "view (fst (replay_warm_sources t now rs f)) = view f"
  using assms by (auto simp: replay_warm_sources_def view_def set_path_paths Let_def
      split: option.splits prod.splits)

section \<open>Listeners\<close>

text \<open>A step of the listener of \<open>t\<close> sets the promotion of \<open>t\<close> and keeps it equal to holding a
  lease.\<close>

definition lease_step :: "'a \<Rightarrow> ('a, 'k) forwarder \<Rightarrow> ('a, 'k) forwarder \<times> listener_state \<Rightarrow> bool" where
  "lease_step t f = (\<lambda>(f', l'). view f' = set_view t (ls_lease_deadline l' \<noteq> None) (view f) \<and>
     (ls_lease_deadline l' \<noteq> None \<longrightarrow> ls_transition_mode l' = SourceAndRepair))"

definition lease_held :: "'a \<Rightarrow> ('a, 'k) forwarder \<Rightarrow> listener_state \<Rightarrow> bool" where
  "lease_held t f l \<longleftrightarrow> (t, ForwardRepair, ls_lease_deadline l \<noteq> None) \<in> set (view f) \<and>
     (ls_lease_deadline l \<noteq> None \<longrightarrow> ls_transition_mode l = SourceAndRepair)"

lemma lease_step_same:
  "distinct (targets f) \<Longrightarrow> lease_held t f l \<Longrightarrow> view f' = view f \<Longrightarrow> lease_step t f (f', l)"
  by (auto simp: lease_step_def lease_held_def set_view_same view_targets)

lemma listener_tick_lease:
  assumes "distinct (targets f)" "lease_held (le_forward_target ep) f l"
  shows "lease_step (le_forward_target ep) f (listener_tick ep now ms (f, l))"
proof (cases "ls_lease_deadline l")
  case None
  then show ?thesis
    using lease_step_same [OF assms refl] by (simp add: listener_tick_def)
next
  case (Some d)
  let ?a = "apply_failover_mode (le_forward_target ep) RepairOnly True ms f"
  have "view (fst ?a) = set_view (le_forward_target ep) False (view f)"
    using apply_failover_view(1) [OF assms(1), of "le_forward_target ep"] assms(2)
    by (cases ?a) (auto simp: lease_held_def)
  then show ?thesis
    using Some lease_step_same [OF assms refl] by (simp add: listener_tick_def lease_step_def)
qed

text \<open>The three ways a received datagram is handled.\<close>

definition accepts ::
  "(bytes \<Rightarrow> lease_command option) \<Rightarrow> u64 \<Rightarrow> u64 \<Rightarrow> 'a listener_endpoint \<Rightarrow> (bytes \<times> 'a) option \<Rightarrow>
   listener_state \<Rightarrow> lease_command option" where
  "accepts decode gen sub ep received l =
     (case received of
        None \<Rightarrow> None
      | Some (buffer, peer) \<Rightarrow>
          if peer = le_peer ep
          then (case decode buffer of
                  None \<Rightarrow> None
                | Some c \<Rightarrow> if stale_command gen sub c l then None else Some c)
          else None)"

lemma listener_recv_rejected:
  "accepts decode gen sub ep received l = None \<Longrightarrow>
   listener_recv decode gen sub ep received now ms us rs (f, l) =
     ((record_failover_command_rejected f, l), [])"
  by (auto simp: accepts_def listener_recv_def split: option.splits if_splits prod.splits)

lemma listener_recv_accepted:
  assumes "distinct (targets f)" "(le_forward_target ep, ForwardRepair, b) \<in> set (view f)"
    and "accepts decode gen sub ep received l = Some c"
    and "listener_recv decode gen sub ep received now ms us rs (f, l) = ((f', l'), out)"
  shows "view f' = set_view (le_forward_target ep) (lc_mode c = SourceAndRepair) (view f) \<and>
    l' = \<lparr> ls_transition_id = lc_transition_id c, ls_transition_mode = lc_mode c,
      ls_lease_deadline = (if lc_mode c = SourceAndRepair
        then Some (now + unat (lc_lease_duration_us c)) else None) \<rparr>"
proof -
  obtain f1 r where a: "apply_failover_mode (le_forward_target ep) (lc_mode c) False ms f = (f1, r)"
    by (cases "apply_failover_mode (le_forward_target ep) (lc_mode c) False ms f")
  note view1 = apply_failover_view [OF assms(1,2) a]
  have d1: "distinct (targets f1)"
    using assms(1) view1(1) by (simp add: view_targets [symmetric] set_view_def case_prod_beta comp_def)
  show ?thesis
    using assms(3,4) a view1 replay_view [OF d1, of "le_forward_target ep" us rs]
    by (auto simp: accepts_def listener_recv_def Let_def split: option.splits if_splits prod.splits)
qed

lemma listener_recv_lease:
  assumes "distinct (targets f)" "lease_held (le_forward_target ep) f l"
    and "listener_recv decode gen sub ep received now ms us rs (f, l) = (fl', out)"
  shows "lease_step (le_forward_target ep) f fl'"
proof (cases "accepts decode gen sub ep received l")
  case None
  then show ?thesis
    using listener_recv_rejected [OF None, of now ms us rs f] assms(3)
      lease_step_same [OF assms(1,2), of "record_failover_command_rejected f"] by simp
next
  case (Some c)
  obtain f' l' where fl: "fl' = (f', l')"
    by (cases fl')
  have "(le_forward_target ep, ForwardRepair, ls_lease_deadline l \<noteq> None) \<in> set (view f)"
    using assms(2) by (simp add: lease_held_def)
  from listener_recv_accepted [OF assms(1) this Some assms(3) [unfolded fl]] show ?thesis
    by (simp add: fl lease_step_def)
qed

section \<open>The system\<close>

type_synonym ('a, 'k) relay_system = "('a, 'k) forwarder \<times> ('a listener_endpoint \<times> listener_state) list"

text \<open>Start with a checked configuration; then datagrams are forwarded, listeners tick and
  listeners receive datagrams, in any order and with any clocks, peers and socket answers.\<close>

inductive relay_run ::
  "(bytes \<Rightarrow> lease_command option) \<Rightarrow> u64 \<Rightarrow> u64 \<Rightarrow> ('a, 'k) relay_system \<Rightarrow> bool"
  for decode gen sub where
  run_start: "check_relay_args unsp a = Inr () \<Longrightarrow>
    forwarder_bind (map (\<lambda>e. (fe_target e, fe_role e)) (ra_forwards a)) = Some f \<Longrightarrow>
    relay_run decode gen sub (f, map (\<lambda>ep. (ep, listener_new)) (ra_listeners a))"
| run_forward: "relay_run decode gen sub (f, ls) \<Longrightarrow>
    relay_run decode gen sub (fst (forward d role k e env f), ls)"
| run_tick: "relay_run decode gen sub (f, ls) \<Longrightarrow> i < length ls \<Longrightarrow> ls ! i = (ep, l) \<Longrightarrow>
    listener_tick ep now ms (f, l) = (f', l') \<Longrightarrow>
    relay_run decode gen sub (f', ls[i := (ep, l')])"
| run_recv: "relay_run decode gen sub (f, ls) \<Longrightarrow> i < length ls \<Longrightarrow> ls ! i = (ep, l) \<Longrightarrow>
    listener_recv decode gen sub ep received now ms us rs (f, l) = ((f', l'), out) \<Longrightarrow>
    relay_run decode gen sub (f', ls[i := (ep, l')])"

definition lease_inv :: "('a, 'k) relay_system \<Rightarrow> bool" where
  "lease_inv = (\<lambda>(f, ls). distinct (targets f) \<and> distinct (map (\<lambda>(ep, l). le_forward_target ep) ls) \<and>
     (\<forall>(ep, l) \<in> set ls. lease_held (le_forward_target ep) f l) \<and>
     (\<forall>t r. (t, r, True) \<in> set (view f) \<longrightarrow> t \<in> set (map (\<lambda>(ep, l). le_forward_target ep) ls)))"

lemma lease_inv_step:
  assumes inv: "lease_inv (f, ls)" and i: "i < length ls" "ls ! i = (ep, l)"
    and step: "lease_step (le_forward_target ep) f (f', l')"
  shows "lease_inv (f', ls[i := (ep, l')])"
proof -
  let ?t = "le_forward_target ep"
  have view: "view f' = set_view ?t (ls_lease_deadline l' \<noteq> None) (view f)"
    using step by (simp add: lease_step_def)
  have tg: "targets f' = targets f"
    unfolding view_targets [symmetric] view by (simp add: set_view_def case_prod_beta comp_def)
  have names: "map (\<lambda>(ep, l). le_forward_target ep) (ls[i := (ep, l')]) = map (\<lambda>(ep, l). le_forward_target ep) ls"
    using i by (intro nth_equalityI) (auto simp: nth_list_update)
  have other: "le_forward_target ep2 \<noteq> ?t" if "j < length ls" "j \<noteq> i" "ls ! j = (ep2, l2)" for j ep2 l2
    using nth_eq_iff_index_eq [of "map (\<lambda>(ep, l). le_forward_target ep) ls" j i] inv i that
    by (simp add: lease_inv_def)
  have "lease_held (le_forward_target ep2) f' l2" if "j < length ls" "ls[i := (ep, l')] ! j = (ep2, l2)" for j ep2 l2
  proof (cases "j = i")
    case True
    have "(?t, ForwardRepair, ls_lease_deadline l \<noteq> None) \<in> set (view f)"
      using inv i by (force simp: lease_inv_def lease_held_def dest: nth_mem)
    then show ?thesis
      using True that i step view by (force simp: lease_held_def lease_step_def set_view_def)
  next
    case False
    then have "lease_held (le_forward_target ep2) f l2"
      using inv that by (force simp: lease_inv_def dest: nth_mem)
    then show ?thesis
      using other [of j ep2 l2] False that view by (force simp: lease_held_def set_view_def)
  qed
  then have held: "\<forall>(ep, l) \<in> set (ls[i := (ep, l')]). lease_held (le_forward_target ep) f' l"
    by (force simp: in_set_conv_nth)
  have "t \<in> set (map (\<lambda>(ep, l). le_forward_target ep) ls)" if "(t, r, True) \<in> set (view f')" for t r
  proof (cases "t = ?t")
    case True
    then show ?thesis
      using i by (force dest: nth_mem)
  next
    case False
    then have "(t, r, True) \<in> set (view f)"
      using that by (auto simp: view set_view_def)
    then show ?thesis
      using inv by (auto simp: lease_inv_def)
  qed
  then show ?thesis
    using inv held unfolding lease_inv_def prod.case names tg by blast
qed

lemma lease_inv_view: "view f' = view f \<Longrightarrow> lease_inv (f, ls) \<Longrightarrow> lease_inv (f', ls)"
  by (simp add: lease_inv_def lease_held_def view_targets [symmetric] del: view_targets)

lemma lease_inv_start:
  assumes "check_relay_args unsp a = Inr u"
    "forwarder_bind (map (\<lambda>e. (fe_target e, fe_role e)) (ra_forwards a)) = Some f"
  shows "lease_inv (f, map (\<lambda>ep. (ep, listener_new)) (ra_listeners a))"
proof -
  have "view f = map (\<lambda>e. (fe_target e, fe_role e, False)) (ra_forwards a)"
    using assms(2) by (auto simp: forwarder_bind_def view_def split: if_splits)
  moreover from this have "targets f = map fe_target (ra_forwards a)"
    by (simp add: view_targets [symmetric] comp_def)
  ultimately show ?thesis
    using check_relay_args_ok [OF assms(1)]
    by (force simp: lease_inv_def lease_held_def listener_new_def comp_def)
qed

lemma relay_run_lease: "relay_run decode gen sub s \<Longrightarrow> lease_inv s"
proof (induction rule: relay_run.induct)
  case (run_start unsp a f)
  then show ?case by (rule lease_inv_start)
next
  case (run_forward f ls d role k e env)
  then show ?case
    using forward_view(1) [of d role k e env f] by (metis lease_inv_view prod.collapse)
next
  case (run_tick f ls i ep l now ms f' l')
  have "distinct (targets f)" "lease_held (le_forward_target ep) f l"
    using run_tick by (force simp: lease_inv_def dest: nth_mem)+
  then show ?case
    using run_tick listener_tick_lease [of f ep l now ms] by (simp add: lease_inv_step)
next
  case (run_recv f ls i ep l received now ms us rs f' l' out)
  have "distinct (targets f)" "lease_held (le_forward_target ep) f l"
    using run_recv by (force simp: lease_inv_def dest: nth_mem)+
  then show ?case
    using run_recv listener_recv_lease [of f ep l decode gen sub received now ms us rs]
    by (simp add: lease_inv_step)
qed

section \<open>Buffered totals\<close>

abbreviation path_datagrams :: "('a, 'k) forward_path \<Rightarrow> nat" where
  "path_datagrams p \<equiv> length (wb_datagrams (fp_warm_sources p))"

abbreviation path_bytes :: "('a, 'k) forward_path \<Rightarrow> nat" where
  "path_bytes p \<equiv> wb_bytes (fp_warm_sources p)"

text \<open>The totals of a list of paths, next to \<open>D\<close> datagrams and \<open>B\<close> bytes of other paths, agree with
  the counters.\<close>

definition totals :: "nat \<Rightarrow> nat \<Rightarrow> ('a, 'k) forward_path list \<Rightarrow> forward_counters \<Rightarrow> bool" where
  "totals D B ps c \<longleftrightarrow> (\<forall>p \<in> set ps. warm_ok (fp_warm_sources p)) \<and>
     unat (fc_warm_buffered_datagrams c) = D + sum_list (map path_datagrams ps) \<and>
     unat (fc_warm_buffered_bytes c) = B + sum_list (map path_bytes ps)"

text \<open>Room for one more datagram on every path, so that no counter wraps.\<close>

definition room :: "nat \<Rightarrow> nat \<Rightarrow> nat \<Rightarrow> bool" where
  "room D B n \<longleftrightarrow> D + 2048 * n + 1 < 2 ^ 64 \<and> B + 4194304 * n + 4194304 < 2 ^ 64"

lemma unat_add_nat: "unat (c :: u64) + a < 2 ^ 64 \<Longrightarrow> unat (c + of_nat a) = unat c + a"
proof -
  assume "unat c + a < 2 ^ 64"
  then have "unat (of_nat (unat c + a) :: u64) = unat c + a"
    by (intro unat_of_nat_small) simp
  then show ?thesis by simp
qed

lemma sum_list_bound: "(\<And>x. x \<in> set xs \<Longrightarrow> f x \<le> k) \<Longrightarrow> sum_list (map f xs) \<le> k * length (xs :: 'p list)"
  for f :: "'p \<Rightarrow> nat"
  by (induction xs) (auto simp: add_mono)

lemma unat_saturating_sub: "unat (saturating_sub c n) = unat c - n"
proof (cases "n \<le> unat c")
  case True
  then have "n < 2 ^ LENGTH(64)"
    using unat_less_pow [of c] by linarith
  then have "unat (of_nat n :: u64) = n"
    by (rule unat_of_nat_small)
  then show ?thesis
    using True by (simp add: saturating_sub_def unat_sub word_le_nat_alt)
next
  case False
  then show ?thesis by (simp add: saturating_sub_def)
qed

lemma warm_path_limits:
  "warm_ok b \<Longrightarrow> length (wb_datagrams b) \<le> 2048 \<and> wb_bytes b \<le> 4194304"
  by (simp add: warm_ok_def warm_limits)

lemma warm_push_balance:
  assumes "warm_ok b" "warm_push k e w now b = (b', m)"
  shows "warm_ok b' \<and> length (wb_datagrams b') + gone_datagrams m = length (wb_datagrams b) + added_datagrams m \<and>
    wb_bytes b' + gone_bytes m = wb_bytes b + added_bytes m \<and> added_datagrams m \<le> 1 \<and> added_bytes m \<le> 4194304"
proof (cases "warm_accepts e w now")
  case True
  then show ?thesis
    using warm_push_accepted [OF assms(1) True assms(2)] by (simp add: warm_accepts_def warm_limits)
next
  case False
  then show ?thesis
    using warm_push_rejected [OF assms(1) False assms(2)] warm_path_limits [OF assms(1)]
    by (auto simp: conserves_def gone_datagrams_def gone_bytes_def warm_mutation_default_def u64_max_def)
qed

lemma count_mutation_totals:
  assumes "unat (fc_warm_buffered_datagrams c) + added_datagrams m < 2 ^ 64"
    and "unat (fc_warm_buffered_bytes c) + added_bytes m < 2 ^ 64"
    and "gone_datagrams m \<le> u64_max" "gone_bytes m \<le> u64_max"
  shows "unat (fc_warm_buffered_datagrams (count_mutation m c)) =
      unat (fc_warm_buffered_datagrams c) + added_datagrams m - gone_datagrams m"
    and "unat (fc_warm_buffered_bytes (count_mutation m c)) =
      unat (fc_warm_buffered_bytes c) + added_bytes m - gone_bytes m"
  using assms
  by (simp_all add: count_mutation_def unat_saturating_sub unat_add_nat sat_add_exact
      gone_datagrams_def gone_bytes_def)

lemma buffer_warm_source_totals:
  assumes "totals D B (p # ps) c" "room D B (Suc (length ps))"
    and "buffer_warm_source k e w now p c = (p', c')"
  shows "totals D B (p' # ps) c'"
proof -
  obtain b m where push: "warm_push k e w now (fp_warm_sources p) = (b, m)"
    by (cases "warm_push k e w now (fp_warm_sources p)")
  have p': "p' = p\<lparr>fp_warm_sources := b\<rparr>" "c' = count_mutation m c"
    using assms(3) push by (simp_all add: buffer_warm_source_def)
  have ok: "warm_ok (fp_warm_sources p)"
    using assms(1) by (simp add: totals_def)
  note bal = warm_push_balance [OF ok push] warm_path_limits [OF ok]
  have others: "sum_list (map path_datagrams ps) \<le> 2048 * length ps"
    "sum_list (map path_bytes ps) \<le> 4194304 * length ps"
    using assms(1) warm_path_limits by (auto simp: totals_def intro!: sum_list_bound)
  have "unat (fc_warm_buffered_datagrams c) + added_datagrams m < 2 ^ 64"
    "unat (fc_warm_buffered_bytes c) + added_bytes m < 2 ^ 64"
    "gone_datagrams m \<le> u64_max" "gone_bytes m \<le> u64_max"
    using assms(1,2) others bal by (auto simp: totals_def room_def u64_max_def)
  note tot = count_mutation_totals [OF this]
  show ?thesis
    using assms(1) bal tot by (auto simp: totals_def p')
qed

lemma totals_Cons:
  "totals D B (p # ps) c \<longleftrightarrow> warm_ok (fp_warm_sources p) \<and> totals (D + path_datagrams p) (B + path_bytes p) ps c"
  by (auto simp: totals_def)

lemma totals_cong:
  "fc_warm_buffered_datagrams c' = fc_warm_buffered_datagrams c \<Longrightarrow>
   fc_warm_buffered_bytes c' = fc_warm_buffered_bytes c \<Longrightarrow> totals D B ps c' = totals D B ps c"
  by (simp add: totals_def)

lemma record_send_buffered [simp]:
  "fc_warm_buffered_datagrams (record_send role d r c) = fc_warm_buffered_datagrams c"
  "fc_warm_buffered_bytes (record_send role d r c) = fc_warm_buffered_bytes c"
  by (auto simp: record_send_def record_forward_success_def observe_duration_def Let_def
      split: option.splits prod.splits media_role.splits)

lemma forward_one_totals:
  assumes "totals D B (p # ps) c" "room D B (Suc (length ps))"
    and "forward_one d role k e now r p c = (p', c', out)"
  shows "totals D B (p' # ps) c'"
proof (cases "forwards p role")
  case True
  then show ?thesis
    using assms by (auto simp: forward_one_def totals_cong [of "record_send role d r c" c])
next
  case False
  obtain p1 c1 where 1: "(if fp_role p = ForwardRepair \<and> role = SourceSymbol
      then (case (k, e) of (Some key, Some x) \<Rightarrow> buffer_warm_source key x d now p c | _ \<Rightarrow> (p, c))
      else (p, c)) = (p1, c1)"
    by (cases "if fp_role p = ForwardRepair \<and> role = SourceSymbol
      then (case (k, e) of (Some key, Some x) \<Rightarrow> buffer_warm_source key x d now p c | _ \<Rightarrow> (p, c))
      else (p, c)")
  then have "totals D B (p1 # ps) c1"
    using assms(1,2) buffer_warm_source_totals by (auto split: if_splits option.splits)
  moreover have "p' = p1" "c' = c1\<lparr>fc_filtered_datagrams := fc_filtered_datagrams c1 + 1\<rparr>"
    using assms(3) False 1 by (auto simp: forward_one_def)
  ultimately show ?thesis
    by (simp add: totals_def)
qed

lemma forward_paths_totals:
  "totals D B ps c \<Longrightarrow> room D B (length ps) \<Longrightarrow> forward_paths d role k e env i ps c = (ps', c', out) \<Longrightarrow>
   totals D B ps' c'"
proof (induction ps arbitrary: D B i c ps' c' out)
  case Nil
  then show ?case by simp
next
  case (Cons p ps)
  obtain p1 c1 o1 where 1: "forward_one d role k e (fst (env i)) (snd (env i)) p c = (p1, c1, o1)"
    by (cases "forward_one d role k e (fst (env i)) (snd (env i)) p c")
  obtain ps2 c2 o2 where 2: "forward_paths d role k e env (Suc i) ps c1 = (ps2, c2, o2)"
    by (cases "forward_paths d role k e env (Suc i) ps c1")
  have t1: "totals D B (p1 # ps) c1"
    using forward_one_totals [OF Cons.prems(1) _ 1] Cons.prems(2) by simp
  then have w: "warm_ok (fp_warm_sources p1)" "totals (D + path_datagrams p1) (B + path_bytes p1) ps c1"
    by (simp_all add: totals_Cons)
  have "room (D + path_datagrams p1) (B + path_bytes p1) (length ps)"
    using Cons.prems(2) warm_path_limits [OF w(1)] by (auto simp: room_def)
  from Cons.IH [OF w(2) this 2] show ?case
    using Cons.prems(3) 1 2 w(1) by (auto simp: totals_Cons)
qed

text \<open>Changing one path.\<close>

lemma update_first_sum:
  "List.find P ps = Some x \<Longrightarrow>
   sum_list (map f (update_first P g ps)) + f x = sum_list (map f ps) + (f (g x) :: nat)"
  by (induction ps) (auto split: if_splits)

lemma update_first_set: "List.find P ps = Some x \<Longrightarrow> set (update_first P g ps) \<subseteq> insert (g x) (set ps)"
  by (induction ps) (auto split: if_splits)

lemma update_first_length [simp]: "length (update_first P g ps) = length ps"
  by (induction ps) auto

lemma find_path_in: "find_path t f = Some p \<Longrightarrow> p \<in> set (fw_paths f)"
  by (auto simp: find_path_def find_Some_iff)

text \<open>Exact totals with room for every path.\<close>

definition warm_inv :: "('a, 'k) forwarder \<Rightarrow> bool" where
  "warm_inv f \<longleftrightarrow> totals 0 0 (fw_paths f) (fw_counters f) \<and> room 0 0 (length (fw_paths f))"

lemma warm_inv_count:
  assumes "\<And>c. fc_warm_buffered_datagrams (g c) = fc_warm_buffered_datagrams c"
    "\<And>c. fc_warm_buffered_bytes (g c) = fc_warm_buffered_bytes c"
  shows "warm_inv (count g f) = warm_inv f"
  using assms by (simp add: warm_inv_def totals_def)

lemma warm_inv_set_path_same:
  assumes "\<And>p. fp_warm_sources (g p) = fp_warm_sources p" "find_path t f = Some x"
  shows "warm_inv f \<Longrightarrow> warm_inv (set_path t g f)"
proof -
  assume inv: "warm_inv f"
  have found: "List.find (\<lambda>p. fp_target p = t) (fw_paths f) = Some x"
    using assms(2) by (simp add: find_path_def)
  have "sum_list (map h (fw_paths (set_path t g f))) = sum_list (map h (fw_paths f))"
    if "\<And>p. h (g p) = h p" for h :: "('a, 'b) forward_path \<Rightarrow> nat"
    using update_first_sum [OF found, of h g] that by (simp add: set_path_def)
  moreover have "\<forall>p \<in> set (fw_paths (set_path t g f)). warm_ok (fp_warm_sources p)"
    using inv update_first_set [OF found, of g] find_path_in [OF assms(2)] assms(1)
    by (auto simp: warm_inv_def totals_def set_path_def)
  ultimately show ?thesis
    using inv assms(1) by (simp add: warm_inv_def totals_def) (simp add: set_path_def)
qed

lemma warm_inv_rejected [simp]: "warm_inv (record_failover_command_rejected f) = warm_inv f"
  unfolding record_failover_command_rejected_def by (rule warm_inv_count) simp_all

lemma warm_inv_apply: "warm_inv f \<Longrightarrow> warm_inv (fst (apply_failover_mode t mode expired ms f))"
proof (cases "find_path t f")
  case None
  then show "warm_inv f \<Longrightarrow> ?thesis" by (simp add: apply_failover_mode_def)
next
  case (Some p)
  assume inv: "warm_inv f"
  have found: "find_path t (count g f) = Some p" for g
    using Some by (simp add: find_path_def)
  have counts: "warm_inv (count (\<lambda>c. c\<lparr>fc_commands_received := fc_commands_received c + 1\<rparr>) h) = warm_inv h"
    "warm_inv (count (count_transition b expired ms) h) = warm_inv h" for h :: "('a, 'b) forwarder" and b
    by (rule warm_inv_count; simp add: count_transition_def Let_def)+
  have "warm_inv (set_path t (\<lambda>p. p\<lparr>fp_promoted := b\<rparr>) h)"
    if "warm_inv h" "find_path t h = Some p" for h b
    by (rule warm_inv_set_path_same [OF _ that(2,1)]) simp
  then show ?thesis
    using inv Some found by (simp add: apply_failover_mode_def Let_def counts)
qed

lemma replay_one_buffered [simp]:
  "fc_warm_buffered_datagrams (replay_one d r c) = fc_warm_buffered_datagrams c"
  "fc_warm_buffered_bytes (replay_one d r c) = fc_warm_buffered_bytes c"
  by (simp_all add: replay_one_def Let_def)

lemma replay_all_buffered [simp]:
  "fc_warm_buffered_datagrams (replay_all ds rs i c) = fc_warm_buffered_datagrams c"
  "fc_warm_buffered_bytes (replay_all ds rs i c) = fc_warm_buffered_bytes c"
  by (induction ds rs i c rule: replay_all.induct) simp_all

lemma warm_inv_replay: "warm_inv f \<Longrightarrow> warm_inv (fst (replay_warm_sources t now rs f))"
proof (cases "find_path t f")
  case None
  then show "warm_inv f \<Longrightarrow> ?thesis" by (simp add: replay_warm_sources_def)
next
  case (Some p)
  assume inv: "warm_inv f"
  let ?g = "\<lambda>p. p\<lparr>fp_warm_sources := warm_buffer_default\<rparr> :: ('a, 'b) forward_path"
  have ok: "warm_ok (fp_warm_sources p)"
    using inv find_path_in [OF Some] by (simp add: warm_inv_def totals_def)
  have found: "List.find (\<lambda>p. fp_target p = t) (fw_paths f) = Some p"
    using Some by (simp add: find_path_def)
  define live where "live = filter (\<lambda>d. now < wd_expires_at_us d) (wb_datagrams (fp_warm_sources p))"
  define dead where "dead = filter (\<lambda>d. wd_expires_at_us d \<le> now) (wb_datagrams (fp_warm_sources p))"
  have split: "length live + length dead = path_datagrams p" "wire_bytes live + wire_bytes dead = path_bytes p"
    using length_filter_split [of "wb_datagrams (fp_warm_sources p)" "\<lambda>d. now < wd_expires_at_us d"]
      wire_bytes_split [of "wb_datagrams (fp_warm_sources p)" "\<lambda>d. now < wd_expires_at_us d"] ok
    by (simp_all add: live_def dead_def not_less warm_ok_def warm_exact_def)
  have sat: "sat_add (length live) (length dead) = path_datagrams p"
    "sat_add (wire_bytes live) (wire_bytes dead) = path_bytes p"
    using split warm_path_limits [OF ok] by (simp_all add: sat_add_def u64_max_def)
  have sums: "sum_list (map path_datagrams (update_first (\<lambda>p. fp_target p = t) ?g (fw_paths f))) + path_datagrams p =
      sum_list (map path_datagrams (fw_paths f))"
    "sum_list (map path_bytes (update_first (\<lambda>p. fp_target p = t) ?g (fw_paths f))) + path_bytes p =
      sum_list (map path_bytes (fw_paths f))"
    using update_first_sum [OF found, of path_datagrams ?g] update_first_sum [OF found, of path_bytes ?g]
    by (simp_all add: warm_buffer_default_def)
  have oks: "\<forall>p \<in> set (update_first (\<lambda>p. fp_target p = t) ?g (fw_paths f)). warm_ok (fp_warm_sources p)"
    using inv update_first_set [OF found, of ?g] warm_ok_default
    by (auto simp: warm_inv_def totals_def)
  have diffs: "sum_list (map path_datagrams (fw_paths f)) - path_datagrams p =
      sum_list (map path_datagrams (update_first (\<lambda>p. fp_target p = t) ?g (fw_paths f)))"
    "sum_list (map path_bytes (fw_paths f)) - path_bytes p =
      sum_list (map path_bytes (update_first (\<lambda>p. fp_target p = t) ?g (fw_paths f)))"
    using sums by linarith+
  show ?thesis
    using inv diffs oks sat
    by (simp add: replay_warm_sources_def Some warm_take_live_exact [OF ok] Let_def warm_inv_def totals_def
        live_def [symmetric] dead_def [symmetric] unat_saturating_sub set_path_def)
qed

lemma warm_inv_forward: "warm_inv f \<Longrightarrow> warm_inv (fst (forward d role k e env f))"
proof -
  assume inv: "warm_inv f"
  obtain ps c out where fw: "forward_paths d role k e env 0 (fw_paths f) (fw_counters f) = (ps, c, out)"
    by (cases "forward_paths d role k e env 0 (fw_paths f) (fw_counters f)")
  have "length ps = length (fw_paths f)"
    using arg_cong [OF conjunct1 [OF forward_paths_keeps [OF fw]], of length] by simp
  then show ?thesis
    using inv forward_paths_totals [OF _ _ fw] by (simp add: warm_inv_def forward_def fw)
qed

lemma warm_inv_recv:
  assumes "warm_inv f" "listener_recv decode gen sub ep received now ms us rs (f, l) = ((f', l'), out)"
  shows "warm_inv f'"
proof (cases "accepts decode gen sub ep received l")
  case None
  then show ?thesis
    using assms listener_recv_rejected [OF None, of now ms us rs f] by auto
next
  case (Some c)
  obtain f1 r where a: "apply_failover_mode (le_forward_target ep) (lc_mode c) False ms f = (f1, r)"
    by (cases "apply_failover_mode (le_forward_target ep) (lc_mode c) False ms f")
  obtain f2 o2 where rp: "replay_warm_sources (le_forward_target ep) us rs f1 = (f2, o2)"
    by (cases "replay_warm_sources (le_forward_target ep) us rs f1")
  have "warm_inv f1" "warm_inv f2"
    using warm_inv_apply [OF assms(1), of "le_forward_target ep" "lc_mode c" False ms] a
      warm_inv_replay [of f1 "le_forward_target ep" us rs] rp by simp_all
  moreover have "f' = f1 \<or> f' = f2"
    using assms(2) Some a rp
    by (auto simp: accepts_def listener_recv_def Let_def split: option.splits if_splits)
  ultimately show ?thesis by blast
qed

lemma lease_step_length: "lease_step t f (f', l') \<Longrightarrow> length (fw_paths f') = length (fw_paths f)"
  unfolding lease_step_def prod.case length_view [symmetric] by (metis length_set_view)

lemma relay_run_member:
  assumes "relay_run decode gen sub (f, ls)" "i < length ls" "ls ! i = (ep, l)"
  shows "distinct (targets f)" "lease_held (le_forward_target ep) f l"
  using relay_run_lease [OF assms(1)] assms(2,3) by (force simp: lease_inv_def dest: nth_mem)+

lemma relay_run_warm:
  "relay_run decode gen sub s \<Longrightarrow> room 0 0 (length (fw_paths (fst s))) \<Longrightarrow> warm_inv (fst s)"
proof (induction rule: relay_run.induct)
  case (run_start unsp a f)
  then have "totals 0 0 (fw_paths f) (fw_counters f)"
    using warm_ok_default
    by (auto simp: forwarder_bind_def totals_def counters_zero_def warm_buffer_default_def comp_def
        split: if_splits)
  then show ?case using run_start by (simp add: warm_inv_def)
next
  case (run_forward f ls d role k e env)
  have "length (fw_paths (fst (forward d role k e env f))) = length (fw_paths f)"
    using forward_view(1) [of d role k e env f] by (metis length_view prod.collapse)
  then show ?case
    using run_forward by (simp add: warm_inv_forward)
next
  case (run_tick f ls i ep l now ms f' l')
  have "lease_step (le_forward_target ep) f (f', l')"
    using listener_tick_lease [of f ep l now ms] relay_run_member [OF run_tick.hyps(1-3)] run_tick.hyps(4)
    by simp
  then have "warm_inv f"
    using run_tick lease_step_length by fastforce
  then show ?case
    using run_tick.hyps(4) by (auto simp: listener_tick_def warm_inv_apply split: if_splits)
next
  case (run_recv f ls i ep l received now ms us rs f' l' out)
  have "lease_step (le_forward_target ep) f (f', l')"
    using listener_recv_lease [OF relay_run_member [OF run_recv.hyps(1-3)] run_recv.hyps(4)] .
  then have "warm_inv f"
    using run_recv lease_step_length by fastforce
  then show ?case
    using warm_inv_recv [OF _ run_recv.hyps(4)] by simp
qed

end
