(* ===== verification/Relay_Failover.thy ===== *)
theory Relay_Failover
  imports Relay_Leases
begin

text \<open>
  The controller of warm-secondary failover (\<open>RelayFailoverController\<close> in \<open>src/src/main.rs\<close>).
  It watches the source symbols of the primary parent and the repair symbols of the secondary,
  and on every heartbeat sends the secondary a leased command that says whether to forward source
  symbols too.

  Instants and durations are nanoseconds; the wall clock readings of one tick are the record
  \<open>wall\<close>. Building and encoding a command belong to the crate \<open>relay_session\<close> and are arguments, as
  is the answer of the socket. Opening the socket and log output are left out.
\<close>

section \<open>State\<close>

datatype controller_state =
  Disabled | Arming | Healthy | Promoted | Recovering | SecondaryUnavailable

fun controller_state_str :: "controller_state \<Rightarrow> string" where
  "controller_state_str Disabled = ''disabled''"
| "controller_state_str Arming = ''arming''"
| "controller_state_str Healthy = ''healthy''"
| "controller_state_str Promoted = ''promoted''"
| "controller_state_str Recovering = ''recovering''"
| "controller_state_str SecondaryUnavailable = ''secondary_unavailable''"

record controller_snapshot =
  sn_state :: controller_state
  sn_enabled :: nat
  sn_commands_sent :: nat
  sn_command_send_errors :: nat
  sn_promotions :: nat
  sn_demotions :: nat
  sn_secondary_unavailable_events :: nat
  sn_primary_source_age_ms :: nat
  sn_secondary_repair_age_ms :: nat
  sn_last_detection_us :: nat
  sn_last_promotion_to_source_us :: nat
  sn_last_media_gap_us :: nat
  sn_max_media_gap_us :: nat
  sn_last_transition_unix_ms :: nat

datatype parent_path = Primary | Secondary

record datagram_observation =
  ob_role :: media_role
  ob_decoded :: bool

record controller =
  ct_generation :: u64
  ct_subscription_id :: u64
  ct_silence :: nat
  ct_recovery :: nat
  ct_secondary_warm :: nat
  ct_lease_duration_us :: nat
  ct_state :: controller_state
  ct_desired_mode :: failover_mode
  ct_transition_id :: nat
  ct_last_primary_source :: "nat option"
  ct_last_secondary_repair :: "nat option"
  ct_recovered_since :: "nat option"
  ct_last_decoded :: "nat option"
  ct_promotion_gap_base :: "nat option"
  ct_promotion_sent_at :: "nat option"
  ct_awaiting_secondary_source :: bool
  ct_awaiting_post_promotion_object :: bool
  ct_snapshot :: controller_snapshot

definition snapshot_default :: controller_snapshot where
  "snapshot_default =
     \<lparr> sn_state = Disabled, sn_enabled = 0, sn_commands_sent = 0, sn_command_send_errors = 0,
       sn_promotions = 0, sn_demotions = 0, sn_secondary_unavailable_events = 0,
       sn_primary_source_age_ms = 0, sn_secondary_repair_age_ms = 0, sn_last_detection_us = 0,
       sn_last_promotion_to_source_us = 0, sn_last_media_gap_us = 0, sn_max_media_gap_us = 0,
       sn_last_transition_unix_ms = 0 \<rparr>"

definition controller_bind :: "'a relay_args \<Rightarrow> u64 \<Rightarrow> u64 \<Rightarrow> nat \<Rightarrow> nat \<Rightarrow> controller option" where
  "controller_bind a generation subscription_id now_us now_ms =
     (if ra_controller a = None then None
      else Some
        \<lparr> ct_generation = generation, ct_subscription_id = subscription_id,
          ct_silence = ra_primary_silence_ms a * 10 ^ 6,
          ct_recovery = ra_primary_recovery_ms a * 10 ^ 6,
          ct_secondary_warm = ra_secondary_warm_ms a * 10 ^ 6,
          ct_lease_duration_us = sat_mul (ra_lease_ms a) 1000,
          ct_state = Arming, ct_desired_mode = RepairOnly, ct_transition_id = max now_us 1,
          ct_last_primary_source = None, ct_last_secondary_repair = None,
          ct_recovered_since = None, ct_last_decoded = None, ct_promotion_gap_base = None,
          ct_promotion_sent_at = None, ct_awaiting_secondary_source = False,
          ct_awaiting_post_promotion_object = False,
          ct_snapshot = snapshot_default\<lparr>sn_state := Arming, sn_enabled := 1,
                                         sn_last_transition_unix_ms := now_ms\<rparr> \<rparr>)"

definition duration_us :: "nat \<Rightarrow> nat" where
  "duration_us d = min (d div 1000) u64_max"

definition duration_ms :: "nat \<Rightarrow> nat" where
  "duration_ms d = min (d div 10 ^ 6) u64_max"

section \<open>Observations\<close>

definition observe_role :: "parent_path \<Rightarrow> media_role \<Rightarrow> nat \<Rightarrow> controller \<Rightarrow> controller" where
  "observe_role path role now c =
     (case (path, role) of
        (Primary, SourceSymbol) \<Rightarrow> c\<lparr>ct_last_primary_source := Some now\<rparr>
      | (Secondary, RepairSymbol) \<Rightarrow> c\<lparr>ct_last_secondary_repair := Some now\<rparr>
      | (Secondary, SourceSymbol) \<Rightarrow>
          if ct_awaiting_secondary_source c
          then (case ct_promotion_sent_at c of
                  None \<Rightarrow> c
                | Some sent_at \<Rightarrow> c\<lparr>ct_snapshot := (ct_snapshot c)
                    \<lparr>sn_last_promotion_to_source_us := duration_us (now - sent_at)\<rparr>\<rparr>)
               \<lparr>ct_awaiting_secondary_source := False\<rparr>
          else c
      | _ \<Rightarrow> c)"

definition observe_decoded :: "nat \<Rightarrow> controller \<Rightarrow> controller" where
  "observe_decoded now c =
     (if ct_awaiting_post_promotion_object c
      then (case ct_promotion_gap_base c of
              None \<Rightarrow> c
            | Some base \<Rightarrow>
                let gap_us = duration_us (now - base); s = ct_snapshot c in
                c\<lparr>ct_snapshot := s\<lparr>sn_last_media_gap_us := gap_us,
                                    sn_max_media_gap_us := max (sn_max_media_gap_us s) gap_us\<rparr>\<rparr>)
           \<lparr>ct_awaiting_post_promotion_object := False\<rparr>
      else c)\<lparr>ct_last_decoded := Some now\<rparr>"

definition controller_observe ::
  "parent_path \<Rightarrow> datagram_observation \<Rightarrow> nat \<Rightarrow> controller \<Rightarrow> controller" where
  "controller_observe path ob now c =
     (let c1 = observe_role path (ob_role ob) now c in
      if ob_decoded ob then observe_decoded now c1 else c1)"

section \<open>The heartbeat\<close>

text \<open>Wall clock: \<open>now_unix_ms\<close> at the first and the second change of state of a tick, and
  \<open>now_unix_us\<close> when the transition advances and when the command is issued.\<close>

record wall =
  w_first_ms :: nat
  w_second_ms :: nat
  w_transition_us :: nat
  w_issued_us :: nat

definition set_state :: "nat \<Rightarrow> controller_state \<Rightarrow> controller \<Rightarrow> controller" where
  "set_state now_ms s c =
     (if ct_state c \<noteq> s
      then c\<lparr>ct_state := s,
             ct_snapshot := (ct_snapshot c)\<lparr>sn_state := s, sn_last_transition_unix_ms := now_ms\<rparr>\<rparr>
      else c)"

definition advance_transition :: "nat \<Rightarrow> controller \<Rightarrow> controller" where
  "advance_transition now_us c = c\<lparr>ct_transition_id := max now_us (sat_add (ct_transition_id c) 1)\<rparr>"

definition promote :: "wall \<Rightarrow> nat \<Rightarrow> controller \<Rightarrow> controller" where
  "promote w now c =
     (let c1 = advance_transition (w_transition_us w) (c\<lparr>ct_desired_mode := SourceAndRepair\<rparr>);
          s = ct_snapshot c1
      in set_state (w_first_ms w) Promoted
          (c1\<lparr>ct_snapshot := s\<lparr>sn_promotions := sat_add (sn_promotions s) 1,
                 sn_last_detection_us := (case ct_last_primary_source c1 of
                    None \<Rightarrow> 0 | Some seen \<Rightarrow> duration_us (now - seen))\<rparr>,
              ct_promotion_sent_at := Some now, ct_promotion_gap_base := ct_last_decoded c1,
              ct_awaiting_secondary_source := True, ct_awaiting_post_promotion_object := True,
              ct_recovered_since := None\<rparr>))"

definition demote :: "wall \<Rightarrow> controller \<Rightarrow> controller" where
  "demote w c =
     (let c1 = advance_transition (w_transition_us w) (c\<lparr>ct_desired_mode := RepairOnly\<rparr>);
          s = ct_snapshot c1
      in set_state (w_second_ms w) Healthy
          (c1\<lparr>ct_snapshot := s\<lparr>sn_demotions := sat_add (sn_demotions s) 1\<rparr>,
              ct_recovered_since := None, ct_awaiting_secondary_source := False\<rparr>))"

definition secondary_unavailable :: "wall \<Rightarrow> controller \<Rightarrow> controller" where
  "secondary_unavailable w c =
     set_state (w_first_ms w) SecondaryUnavailable
       (if ct_state c \<noteq> SecondaryUnavailable
        then c\<lparr>ct_snapshot := (ct_snapshot c)\<lparr>sn_secondary_unavailable_events :=
               sat_add (sn_secondary_unavailable_events (ct_snapshot c)) 1\<rparr>\<rparr>
        else c)"

definition recent :: "nat option \<Rightarrow> nat \<Rightarrow> nat \<Rightarrow> bool" where
  "recent seen window now \<longleftrightarrow> (case seen of None \<Rightarrow> False | Some t \<Rightarrow> now - t < window)"

definition primary_recent :: "nat \<Rightarrow> controller \<Rightarrow> bool" where
  "primary_recent now c = recent (ct_last_primary_source c) (ct_silence c) now"

definition secondary_recent :: "nat \<Rightarrow> controller \<Rightarrow> bool" where
  "secondary_recent now c = recent (ct_last_secondary_repair c) (ct_secondary_warm c) now"

definition lose_primary :: "wall \<Rightarrow> nat \<Rightarrow> controller \<Rightarrow> controller" where
  "lose_primary w now c =
     (if secondary_recent now c then promote w now c else secondary_unavailable w c)"

definition while_promoted :: "wall \<Rightarrow> nat \<Rightarrow> controller \<Rightarrow> controller" where
  "while_promoted w now c =
     (if primary_recent now c then
        let recovered_since = (case ct_recovered_since c of None \<Rightarrow> now | Some t \<Rightarrow> t);
            c1 = set_state (w_first_ms w) Recovering (c\<lparr>ct_recovered_since := Some recovered_since\<rparr>)
        in if ct_recovery c1 \<le> now - recovered_since then demote w c1 else c1
      else set_state (w_first_ms w) Promoted (c\<lparr>ct_recovered_since := None\<rparr>))"

definition tick_state :: "wall \<Rightarrow> nat \<Rightarrow> controller \<Rightarrow> controller" where
  "tick_state w now c =
     (case ct_state c of
        Disabled \<Rightarrow> c
      | Arming \<Rightarrow>
          if primary_recent now c \<and> secondary_recent now c then set_state (w_first_ms w) Healthy c
          else if ct_last_primary_source c \<noteq> None \<and> \<not> primary_recent now c then lose_primary w now c
          else c
      | Healthy \<Rightarrow> if \<not> primary_recent now c then lose_primary w now c else c
      | SecondaryUnavailable \<Rightarrow>
          if primary_recent now c then set_state (w_first_ms w) Healthy c
          else if secondary_recent now c \<and> ct_last_primary_source c \<noteq> None then promote w now c
          else c
      | Promoted \<Rightarrow> while_promoted w now c
      | Recovering \<Rightarrow> while_promoted w now c)"

definition refresh_ages :: "nat \<Rightarrow> controller \<Rightarrow> controller" where
  "refresh_ages now c =
     (let age = (\<lambda>seen. case seen of None \<Rightarrow> 0 | Some t \<Rightarrow> duration_ms (now - t)) in
      c\<lparr>ct_snapshot := (ct_snapshot c)
         \<lparr>sn_primary_source_age_ms := age (ct_last_primary_source c),
          sn_secondary_repair_age_ms := age (ct_last_secondary_repair c)\<rparr>\<rparr>)"

text \<open>\<open>valid_command\<close> says whether \<open>FailoverLeaseCommand::new\<close> accepts the fields; \<open>send\<close> says whether the socket sent the whole
  command. The command that went out, if any, is the second result.\<close>

definition send_desired ::
  "(lease_command \<Rightarrow> bool) \<Rightarrow> (lease_command \<Rightarrow> bool) \<Rightarrow> wall \<Rightarrow> controller \<Rightarrow>
   controller \<times> lease_command option" where
  "send_desired valid_command send w c =
     (let command = \<lparr> lc_generation = ct_generation c, lc_subscription_id = ct_subscription_id c,
            lc_transition_id = of_nat (ct_transition_id c), lc_issued_at_us = of_nat (max (w_issued_us w) 1),
            lc_lease_duration_us = of_nat (ct_lease_duration_us c), lc_mode = ct_desired_mode c \<rparr>;
          s = ct_snapshot c;
          failed = (c\<lparr>ct_snapshot := s\<lparr>sn_command_send_errors := sat_add (sn_command_send_errors s) 1\<rparr>\<rparr>, None)
      in if \<not> valid_command command then failed
         else if send command
         then (c\<lparr>ct_snapshot := s\<lparr>sn_commands_sent := sat_add (sn_commands_sent s) 1\<rparr>\<rparr>, Some command)
         else failed)"

definition controller_tick ::
  "(lease_command \<Rightarrow> bool) \<Rightarrow> (lease_command \<Rightarrow> bool) \<Rightarrow> wall \<Rightarrow> nat \<Rightarrow> controller \<Rightarrow>
   controller \<times> lease_command option" where
  "controller_tick valid_command send w now c =
     send_desired valid_command send w (refresh_ages now (tick_state w now c))"

end
