(* ===== verification/Relay_Failover_Properties.thy ===== *)
theory Relay_Failover_Properties
  imports Relay_Failover
begin

text \<open>
  Warm-secondary failover end to end: what a path forwards, that promotion is bounded by a lease,
  that the controller promotes and recovers in time, and that a delivered command brings the
  secondary into the mode the controller wants.
\<close>

section \<open>The controller's invariant\<close>

definition controller_ok :: "controller \<Rightarrow> bool" where
  "controller_ok c \<longleftrightarrow> ct_state c \<noteq> Disabled \<and>
     (ct_desired_mode c = SourceAndRepair \<longleftrightarrow> ct_state c \<in> {Promoted, Recovering}) \<and>
     sn_state (ct_snapshot c) = ct_state c \<and>
     (ct_recovered_since c \<noteq> None \<longleftrightarrow> ct_state c = Recovering) \<and>
     0 < ct_silence c \<and> 0 < ct_transition_id c"

lemmas controller_defs =
  set_state_def advance_transition_def promote_def demote_def secondary_unavailable_def
  lose_primary_def while_promoted_def

lemma observe_keeps:
  "ct_state (controller_observe p ob now c) = ct_state c \<and>
   ct_desired_mode (controller_observe p ob now c) = ct_desired_mode c \<and>
   sn_state (ct_snapshot (controller_observe p ob now c)) = sn_state (ct_snapshot c) \<and>
   ct_recovered_since (controller_observe p ob now c) = ct_recovered_since c \<and>
   ct_silence (controller_observe p ob now c) = ct_silence c \<and>
   ct_recovery (controller_observe p ob now c) = ct_recovery c \<and>
   ct_transition_id (controller_observe p ob now c) = ct_transition_id c \<and>
   ct_generation (controller_observe p ob now c) = ct_generation c \<and>
   ct_subscription_id (controller_observe p ob now c) = ct_subscription_id c"
  by (auto simp: controller_observe_def observe_role_def observe_decoded_def Let_def
      split: option.splits parent_path.splits media_role.splits)

text \<open>A tick is the change of state, up to the counters of the snapshot.\<close>

lemma tick_fields:
  "ct_state (fst (controller_tick v snd' w now c)) = ct_state (tick_state w now c)"
  "ct_desired_mode (fst (controller_tick v snd' w now c)) = ct_desired_mode (tick_state w now c)"
  "ct_recovered_since (fst (controller_tick v snd' w now c)) = ct_recovered_since (tick_state w now c)"
  "ct_transition_id (fst (controller_tick v snd' w now c)) = ct_transition_id (tick_state w now c)"
  "ct_silence (fst (controller_tick v snd' w now c)) = ct_silence (tick_state w now c)"
  "ct_recovery (fst (controller_tick v snd' w now c)) = ct_recovery (tick_state w now c)"
  "ct_last_primary_source (fst (controller_tick v snd' w now c)) = ct_last_primary_source (tick_state w now c)"
  "ct_generation (fst (controller_tick v snd' w now c)) = ct_generation (tick_state w now c)"
  "ct_subscription_id (fst (controller_tick v snd' w now c)) = ct_subscription_id (tick_state w now c)"
  "sn_state (ct_snapshot (fst (controller_tick v snd' w now c))) = sn_state (ct_snapshot (tick_state w now c))"
  by (simp_all add: controller_tick_def send_desired_def refresh_ages_def Let_def)

lemma tick_state_config:
  "ct_silence (tick_state w now c) = ct_silence c \<and> ct_recovery (tick_state w now c) = ct_recovery c \<and>
   ct_last_primary_source (tick_state w now c) = ct_last_primary_source c \<and>
   ct_generation (tick_state w now c) = ct_generation c \<and>
   ct_subscription_id (tick_state w now c) = ct_subscription_id c"
  by (auto simp: tick_state_def controller_defs Let_def split: controller_state.splits)

lemma advance_pos: "0 < max a (sat_add b (Suc 0))"
  by (simp add: sat_add_def u64_max_def less_max_iff_disj)

lemma tick_state_ok: "controller_ok c \<Longrightarrow> controller_ok (tick_state w now c)"
  by (cases "ct_state c")
    (auto simp: tick_state_def controller_defs Let_def controller_ok_def advance_pos)

lemma controller_tick_ok: "controller_ok c \<Longrightarrow> controller_ok (fst (controller_tick v snd' w now c))"
  using tick_state_ok [of c w now] by (simp add: controller_ok_def tick_fields)

lemma controller_observe_ok: "controller_ok c \<Longrightarrow> controller_ok (controller_observe p ob now c)"
  using observe_keeps [of p ob now c] by (simp add: controller_ok_def)

text \<open>Transitions: the id never goes back, and it moves whenever the mode changes.\<close>

lemma tick_transition:
  assumes "controller_ok c"
  shows "ct_transition_id (tick_state w now c) = ct_transition_id c \<and>
      ct_desired_mode (tick_state w now c) = ct_desired_mode c \<or>
    ct_transition_id (tick_state w now c) = max (w_transition_us w) (sat_add (ct_transition_id c) 1)"
  using assms
  by (cases "ct_state c")
    (auto simp: tick_state_def controller_defs Let_def controller_ok_def)

section \<open>Runs of the controller\<close>

datatype controller_event = Observe parent_path datagram_observation nat | Tick wall nat

definition controller_step ::
  "(lease_command \<Rightarrow> bool) \<Rightarrow> (lease_command \<Rightarrow> bool) \<Rightarrow> controller_event \<Rightarrow>
   controller \<times> lease_command list \<Rightarrow> controller \<times> lease_command list" where
  "controller_step v snd' ev = (\<lambda>(c, sent). case ev of
      Observe p ob now \<Rightarrow> (controller_observe p ob now c, sent)
    | Tick w now \<Rightarrow> (case controller_tick v snd' w now c of
        (c', command) \<Rightarrow> (c', sent @ (case command of None \<Rightarrow> [] | Some x \<Rightarrow> [x]))))"

abbreviation controller_run ::
  "(lease_command \<Rightarrow> bool) \<Rightarrow> (lease_command \<Rightarrow> bool) \<Rightarrow> controller_event list \<Rightarrow>
   controller \<times> lease_command list \<Rightarrow> controller \<times> lease_command list" where
  "controller_run v snd' \<equiv> fold (controller_step v snd')"

lemma controller_bind_ok:
  assumes "check_relay_args unsp a = Inr u" "controller_bind a g s us ms = Some c"
  shows "controller_ok c"
  using assms by (auto simp: check_relay_args_def controller_bind_def controller_ok_def
      split: sum.splits if_splits option.splits prod.splits)

lemma controller_step_ok: "controller_ok (fst cs) \<Longrightarrow> controller_ok (fst (controller_step v snd' ev cs))"
  using controller_tick_ok [of "fst cs" v snd'] controller_observe_ok [of "fst cs"]
  by (cases ev) (simp_all add: controller_step_def case_prod_beta)

lemma controller_run_ok: "controller_ok (fst cs) \<Longrightarrow> controller_ok (fst (controller_run v snd' evs cs))"
  by (induction evs arbitrary: cs) (simp_all add: controller_step_ok)

lemma controller_step_Observe [simp]:
  "controller_step v snd' (Observe p ob now) (c, sent) = (controller_observe p ob now c, sent)"
  by (simp add: controller_step_def)

lemma controller_step_Tick:
  "controller_step v snd' (Tick w now) (c, sent) =
     (fst (controller_tick v snd' w now c),
      sent @ (case snd (controller_tick v snd' w now c) of None \<Rightarrow> [] | Some x \<Rightarrow> [x]))"
  by (simp add: controller_step_def case_prod_beta)

text \<open>What a tick sends carries the mode and the transition of the state it leads to.\<close>

lemma tick_sends:
  assumes "snd (controller_tick v snd' w now c) = Some x"
  shows "lc_mode x = ct_desired_mode (tick_state w now c) \<and>
    lc_transition_id x = of_nat (ct_transition_id (tick_state w now c)) \<and>
    lc_generation x = ct_generation c \<and> lc_subscription_id x = ct_subscription_id c"
  using assms tick_state_config [of w now c]
  by (auto simp: controller_tick_def send_desired_def refresh_ages_def Let_def split: if_splits)

lemma tick_sends_always: "(\<And>x. v x \<and> snd' x) \<Longrightarrow> snd (controller_tick v snd' w now c) \<noteq> None"
  by (simp add: controller_tick_def send_desired_def Let_def)

section \<open>Promotion and recovery\<close>

text \<open>No source symbol from the primary arrives, and no tick is earlier than \<open>t\<close>.\<close>

definition stays_silent :: "nat \<Rightarrow> controller_event \<Rightarrow> bool" where
  "stays_silent t ev = (case ev of
     Observe p ob _ \<Rightarrow> \<not> (p = Primary \<and> ob_role ob = SourceSymbol) | Tick _ now \<Rightarrow> t \<le> now)"

lemma observe_last_primary:
  "\<not> (p = Primary \<and> ob_role ob = SourceSymbol) \<Longrightarrow>
   ct_last_primary_source (controller_observe p ob now c) = ct_last_primary_source c"
  by (cases p; cases "ob_role ob")
    (auto simp: controller_observe_def observe_role_def observe_decoded_def Let_def split: option.splits)

lemma tick_promotes:
  assumes "controller_ok c" "ct_last_primary_source c = Some p" "p + ct_silence c \<le> now" "secondary_recent now c"
  shows "ct_state (tick_state w now c) = Promoted \<and> ct_desired_mode (tick_state w now c) = SourceAndRepair"
proof -
  have "\<not> primary_recent now c"
    using assms(2,3) by (simp add: primary_recent_def recent_def)
  then show ?thesis
    using assms by (cases "ct_state c") (auto simp: tick_state_def controller_defs Let_def controller_ok_def)
qed

lemma tick_holds:
  assumes "controller_ok c" "ct_state c = Promoted" "ct_last_primary_source c = Some p" "p + ct_silence c \<le> now"
  shows "ct_state (tick_state w now c) = Promoted \<and> ct_desired_mode (tick_state w now c) = SourceAndRepair \<and>
    ct_transition_id (tick_state w now c) = ct_transition_id c"
proof -
  have "\<not> primary_recent now c"
    using assms(3,4) by (simp add: primary_recent_def recent_def)
  then show ?thesis
    using assms by (simp add: tick_state_def while_promoted_def set_state_def controller_ok_def)
qed

lemma promotion_held:
  assumes "controller_ok c" "ct_state c = Promoted" "ct_last_primary_source c = Some p"
    "p + ct_silence c \<le> t" "\<forall>ev \<in> set evs. stays_silent t ev"
    and "controller_run v snd' evs (c, sent) = (c', sent')"
  shows "ct_state c' = Promoted \<and> ct_desired_mode c' = SourceAndRepair \<and>
    ct_transition_id c' = ct_transition_id c \<and>
    (\<exists>new. sent' = sent @ new \<and> (\<forall>x \<in> set new. lc_mode x = SourceAndRepair))"
  using assms
proof (induction evs arbitrary: c sent)
  case Nil
  then show ?case by (auto simp: controller_ok_def)
next
  case (Cons ev evs)
  show ?case
  proof (cases ev)
    case (Observe q ob now)
    let ?c = "controller_observe q ob now c"
    have "ct_last_primary_source ?c = Some p"
      using Cons.prems observe_last_primary [of q ob now c] by (simp add: Observe stays_silent_def)
    then show ?thesis
      using Cons.IH [of ?c sent] Cons.prems observe_keeps [of q ob now c] controller_observe_ok [of c q ob now]
      by (simp add: Observe)
  next
    case (Tick w now)
    let ?c = "fst (controller_tick v snd' w now c)" and ?x = "snd (controller_tick v snd' w now c)"
    let ?sent = "sent @ (case ?x of None \<Rightarrow> [] | Some x \<Rightarrow> [x])"
    have hold: "ct_state (tick_state w now c) = Promoted" "ct_desired_mode (tick_state w now c) = SourceAndRepair"
      "ct_transition_id (tick_state w now c) = ct_transition_id c"
      using tick_holds [of c p now w] Cons.prems by (auto simp: Tick stays_silent_def)
    have "\<exists>new. sent' = ?sent @ new \<and> (\<forall>x \<in> set new. lc_mode x = SourceAndRepair)"
      and rest: "ct_state c' = Promoted" "ct_desired_mode c' = SourceAndRepair" "ct_transition_id c' = ct_transition_id c"
      using Cons.IH [of ?c ?sent] Cons.prems hold controller_tick_ok [of c v snd' w now] tick_state_config [of w now c]
      by (simp_all add: Tick controller_step_Tick tick_fields)
    then show ?thesis
      using tick_sends [of v snd' w now c] hold by (cases ?x) auto
  qed
qed

text \<open>The primary is recent at every tick of the run.\<close>

fun ticks_primary ::
  "(lease_command \<Rightarrow> bool) \<Rightarrow> (lease_command \<Rightarrow> bool) \<Rightarrow> controller_event list \<Rightarrow>
   controller \<times> lease_command list \<Rightarrow> bool" where
  "ticks_primary v snd' [] cs = True"
| "ticks_primary v snd' (ev # evs) cs =
     ((case ev of Tick _ now \<Rightarrow> primary_recent now (fst cs) | _ \<Rightarrow> True) \<and>
      ticks_primary v snd' evs (controller_step v snd' ev cs))"

lemma ticks_primary_append:
  "ticks_primary v snd' (es @ es') cs \<longleftrightarrow> ticks_primary v snd' es cs \<and> ticks_primary v snd' es' (controller_run v snd' es cs)"
  by (induction es arbitrary: cs) auto

text \<open>On the way back: recovered and repair-only again, or recovering since \<open>t\<close>.\<close>

definition on_the_way :: "nat \<Rightarrow> controller \<Rightarrow> bool" where
  "on_the_way t c \<longleftrightarrow> controller_ok c \<and>
     (ct_state c = Healthy \<or> ct_state c = Recovering \<and> ct_recovered_since c = Some t)"

lemma tick_on_the_way:
  assumes "on_the_way t c" "primary_recent now c"
  shows "on_the_way t (fst (controller_tick v snd' w now c)) \<and>
    (t + ct_recovery c \<le> now \<longrightarrow> ct_state (fst (controller_tick v snd' w now c)) = Healthy)"
  using assms controller_tick_ok [of c v snd' w now]
  by (auto simp: on_the_way_def tick_fields tick_state_def while_promoted_def demote_def set_state_def
      advance_transition_def Let_def)

lemma run_on_the_way:
  assumes "on_the_way t (fst cs)" "ticks_primary v snd' evs cs"
  shows "on_the_way t (fst (controller_run v snd' evs cs)) \<and>
    ct_recovery (fst (controller_run v snd' evs cs)) = ct_recovery (fst cs)"
  using assms
proof (induction evs arbitrary: cs)
  case Nil
  then show ?case by simp
next
  case (Cons ev evs)
  obtain c sent where cs: "cs = (c, sent)"
    by (cases cs)
  have "on_the_way t (fst (controller_step v snd' ev cs)) \<and>
      ct_recovery (fst (controller_step v snd' ev cs)) = ct_recovery c"
  proof (cases ev)
    case (Observe q ob now)
    then show ?thesis
      using Cons.prems(1) observe_keeps [of q ob now c] controller_observe_ok [of c q ob now]
      by (simp add: cs on_the_way_def)
  next
    case (Tick w now)
    then show ?thesis
      using Cons.prems tick_on_the_way [of t c now v snd' w] tick_state_config [of w now c]
      by (simp add: cs controller_step_Tick tick_fields)
  qed
  then show ?case
    using Cons.IH [of "controller_step v snd' ev cs"] Cons.prems(2) by (simp add: cs)
qed

section \<open>Commands\<close>

text \<open>Every command sent so far is of the current or an earlier transition, and one of the current
  transition has the current mode.\<close>

definition commands_ok :: "controller \<times> lease_command list \<Rightarrow> bool" where
  "commands_ok = (\<lambda>(c, sent). controller_ok c \<and> (\<forall>x \<in> set sent.
     unat (lc_transition_id x) \<le> ct_transition_id c \<and>
     (unat (lc_transition_id x) = ct_transition_id c \<longrightarrow> lc_mode x = ct_desired_mode c) \<and>
     lc_generation x = ct_generation c \<and> lc_subscription_id x = ct_subscription_id c))"

lemma tick_transition_less:
  assumes "controller_ok c" "ct_transition_id (tick_state w now c) < u64_max"
  shows "ct_transition_id (tick_state w now c) = ct_transition_id c \<and>
      ct_desired_mode (tick_state w now c) = ct_desired_mode c \<or>
    ct_transition_id c < ct_transition_id (tick_state w now c)"
  using tick_transition [OF assms(1), of w now]
proof
  assume t: "ct_transition_id (tick_state w now c) = max (w_transition_us w) (sat_add (ct_transition_id c) 1)"
  then have "sat_add (ct_transition_id c) 1 < u64_max"
    using assms(2) by simp
  from sat_add_exact_less [OF this] show ?thesis
    using t by (simp add: less_max_iff_disj)
qed simp

lemma step_transition_less:
  assumes "controller_ok (fst cs)" "ct_transition_id (fst (controller_step v snd' ev cs)) < u64_max"
  shows "ct_transition_id (fst cs) \<le> ct_transition_id (fst (controller_step v snd' ev cs))"
proof (cases ev)
  case (Observe q ob now)
  then show ?thesis
    using observe_keeps [of q ob now "fst cs"] by (cases cs) simp
next
  case (Tick w now)
  then show ?thesis
    using assms tick_transition_less [of "fst cs" w now]
    by (cases cs) (auto simp: controller_step_Tick tick_fields)
qed

lemma run_transition_less:
  "controller_ok (fst cs) \<Longrightarrow> ct_transition_id (fst (controller_run v snd' evs cs)) < u64_max \<Longrightarrow>
   ct_transition_id (fst cs) < u64_max \<and>
   ct_transition_id (fst cs) \<le> ct_transition_id (fst (controller_run v snd' evs cs))"
proof (induction evs arbitrary: cs)
  case Nil
  then show ?case by simp
next
  case (Cons ev evs)
  let ?cs = "controller_step v snd' ev cs"
  have "ct_transition_id (fst ?cs) < u64_max"
    "ct_transition_id (fst ?cs) \<le> ct_transition_id (fst (controller_run v snd' evs ?cs))"
    using Cons.IH [of ?cs] Cons.prems controller_step_ok [of cs v snd' ev] by simp_all
  then show ?case
    using step_transition_less [of cs v snd' ev] Cons.prems(1) by simp
qed

lemma commands_ok_tick:
  assumes inv: "commands_ok (c, sent)" and less: "ct_transition_id (tick_state w now c) < u64_max"
  shows "commands_ok (controller_step v snd' (Tick w now) (c, sent))"
proof -
  let ?c = "tick_state w now c"
  have ok: "controller_ok c"
    using inv by (simp add: commands_ok_def)
  note cfg = tick_state_config [of w now c]
  have fits: "unat (of_nat (ct_transition_id ?c) :: u64) = ct_transition_id ?c"
    using less by (intro unat_of_nat_small) (simp add: u64_max_def)
  have old: "unat (lc_transition_id x) \<le> ct_transition_id ?c \<and>
      (unat (lc_transition_id x) = ct_transition_id ?c \<longrightarrow> lc_mode x = ct_desired_mode ?c) \<and>
      lc_generation x = ct_generation ?c \<and> lc_subscription_id x = ct_subscription_id ?c"
    if "x \<in> set sent" for x
    using inv that tick_transition_less [OF ok less] cfg by (auto simp: commands_ok_def)
  have new: "unat (lc_transition_id x) = ct_transition_id ?c \<and> lc_mode x = ct_desired_mode ?c \<and>
      lc_generation x = ct_generation ?c \<and> lc_subscription_id x = ct_subscription_id ?c"
    if "snd (controller_tick v snd' w now c) = Some x" for x
    using tick_sends [OF that] fits cfg by simp
  show ?thesis
    using controller_tick_ok [OF ok, of v snd' w now] old new
    by (auto simp: commands_ok_def controller_step_Tick tick_fields split: option.splits)
qed

lemma commands_ok_run:
  assumes "commands_ok cs" "ct_transition_id (fst (controller_run v snd' evs cs)) < u64_max"
  shows "commands_ok (controller_run v snd' evs cs)"
  using assms
proof (induction evs arbitrary: cs)
  case Nil
  then show ?case by simp
next
  case (Cons ev evs)
  obtain c sent where cs: "cs = (c, sent)"
    by (cases cs)
  have ok: "controller_ok c"
    using Cons.prems(1) by (simp add: cs commands_ok_def)
  have less: "ct_transition_id (fst (controller_step v snd' ev cs)) < u64_max"
    using run_transition_less [of "controller_step v snd' ev cs" v snd' evs] controller_step_ok [of cs v snd' ev]
      ok Cons.prems(2) by (simp add: cs)
  have "commands_ok (controller_step v snd' ev cs)"
  proof (cases ev)
    case (Observe q ob now)
    then show ?thesis
      using Cons.prems(1) observe_keeps [of q ob now c] controller_observe_ok [of c q ob now]
      by (simp add: cs commands_ok_def)
  next
    case (Tick w now)
    then show ?thesis
      using commands_ok_tick [of c sent w now v snd'] Cons.prems(1) less
      by (simp add: cs controller_step_Tick tick_fields)
  qed
  then show ?case
    using Cons.IH [of "controller_step v snd' ev cs"] Cons.prems(2) by simp
qed

lemma run_config:
  "ct_generation (fst (controller_run v snd' evs cs)) = ct_generation (fst cs) \<and>
   ct_subscription_id (fst (controller_run v snd' evs cs)) = ct_subscription_id (fst cs)"
proof (induction evs arbitrary: cs)
  case Nil
  then show ?case by simp
next
  case (Cons ev evs)
  have "ct_generation (fst (controller_step v snd' ev cs)) = ct_generation (fst cs) \<and>
      ct_subscription_id (fst (controller_step v snd' ev cs)) = ct_subscription_id (fst cs)"
    using observe_keeps tick_state_config
    by (cases cs; cases ev) (simp_all add: controller_step_Tick tick_fields)
  then show ?case
    using Cons.IH by simp
qed

section \<open>A small deployment\<close>

text \<open>One repair-only child at address 3, whose listener takes commands from the controller at
  address 10.\<close>

definition demo_endpoint :: "nat listener_endpoint" where
  "demo_endpoint = \<lparr> le_bind = 5, le_peer = 10, le_forward_target = 3 \<rparr>"

definition demo_args :: "nat relay_args" where
  "demo_args =
     \<lparr> ra_fec_bind = 1, ra_secondary_bind = None,
       ra_forwards = [\<lparr> fe_bind = 2, fe_target = 3, fe_role = ForwardRepair \<rparr>],
       ra_controller = Some (10, 5), ra_controlled_local = True, ra_secondary_peer = Some 4,
       ra_secondary_promoted = True, ra_listeners = [demo_endpoint],
       ra_primary_silence_ms = 250, ra_primary_recovery_ms = 2000, ra_secondary_warm_ms = 750,
       ra_heartbeat_ms = 100, ra_lease_ms = 1000 \<rparr>"

definition demo_controller :: controller where
  "demo_controller = the (controller_bind demo_args 7 9 5 1)"

definition demo_wall :: wall where
  "demo_wall = \<lparr> w_first_ms = 1, w_second_ms = 2, w_transition_us = 50, w_issued_us = 60 \<rparr>"

abbreviation always :: "lease_command \<Rightarrow> bool" where
  "always \<equiv> \<lambda>_. True"

definition demo_before :: "controller_event list" where
  "demo_before =
     [Observe Primary \<lparr> ob_role = SourceSymbol, ob_decoded = True \<rparr> 0,
      Observe Secondary \<lparr> ob_role = RepairSymbol, ob_decoded = False \<rparr> 290000000]"

definition demo_silent :: "controller \<times> lease_command list" where
  "demo_silent = controller_run always always demo_before (demo_controller, [])"

definition demo_promoted :: "controller \<times> lease_command list" where
  "demo_promoted = controller_run always always [Tick demo_wall 300000000] demo_silent"

definition demo_command :: lease_command where
  "demo_command =
     \<lparr> lc_generation = 7, lc_subscription_id = 9, lc_transition_id = 50, lc_issued_at_us = 60,
       lc_lease_duration_us = 1000000, lc_mode = SourceAndRepair \<rparr>"

definition demo_decode :: "bytes \<Rightarrow> lease_command option" where
  "demo_decode b = (if b = [1] then Some demo_command else None)"

definition demo_forwarder :: "(nat, nat) forwarder" where
  "demo_forwarder = the (forwarder_bind (map (\<lambda>e. (fe_target e, fe_role e)) (ra_forwards demo_args)))"

definition demo_recv :: "((nat, nat) forwarder \<times> listener_state) \<times> (nat \<times> bytes) list" where
  "demo_recv = listener_recv demo_decode 7 9 demo_endpoint (Some ([1], 10)) 0 0 0 (\<lambda>_. (None, 0))
     (demo_forwarder, listener_new)"

lemma demo_args_ok: "check_relay_args (\<lambda>_. False) demo_args = Inr ()"
  by code_simp

lemma demo_bind: "controller_bind demo_args 7 9 5 1 = Some demo_controller"
  by (simp add: demo_controller_def controller_bind_def demo_args_def)

lemma demo_forwarder_bind:
  "forwarder_bind (map (\<lambda>e. (fe_target e, fe_role e)) (ra_forwards demo_args)) = Some demo_forwarder"
  by (simp add: demo_forwarder_def forwarder_bind_def demo_args_def)

lemma demo_start: "relay_run demo_decode 7 9 (demo_forwarder, [(demo_endpoint, listener_new)])"
  using run_start [OF demo_args_ok demo_forwarder_bind, of demo_decode 7 9]
  by (simp add: demo_args_def)

lemma demo_leased: "relay_run demo_decode 7 9 (fst (fst demo_recv), [(demo_endpoint, snd (fst demo_recv))])"
  using run_recv [OF demo_start, of 0 demo_endpoint listener_new "Some ([1], 10)" 0 0 0 "\<lambda>_. (None, 0)"
      "fst (fst demo_recv)" "snd (fst demo_recv)" "snd demo_recv"]
  by (simp add: demo_recv_def)

section \<open>Properties\<close>



text \<open>in every run the warm buffers keep their limits, their bookkeeping is exact, and the
  forwarder's buffered totals are the sums over its paths, as long as the number of children is
  below \<open>2\<^sup>32\<close>.\<close>

theorem warm_totals_exact:
  assumes "relay_run decode gen sub (f, ls)" and "length (fw_paths f) < 2 ^ 32"
  shows "unat (fc_warm_buffered_datagrams (fw_counters f)) = sum_list (map path_datagrams (fw_paths f)) \<and>
    unat (fc_warm_buffered_bytes (fw_counters f)) = sum_list (map path_bytes (fw_paths f)) \<and>
    (\<forall>p \<in> set (fw_paths f).
       length (wb_object_order (fp_warm_sources p)) \<le> RELAY_WARM_SOURCE_REPLAY_MAX_OBJECTS_PER_CHILD \<and>
       path_datagrams p \<le> RELAY_WARM_SOURCE_REPLAY_MAX_DATAGRAMS_PER_CHILD \<and>
       path_bytes p \<le> RELAY_WARM_SOURCE_REPLAY_MAX_BYTES_PER_CHILD \<and>
       path_bytes p = wire_bytes (wb_datagrams (fp_warm_sources p)) \<and>
       set (wb_object_order (fp_warm_sources p)) = wd_object_key ` set (wb_datagrams (fp_warm_sources p)))"
proof -
  have "warm_inv f"
    using relay_run_warm [OF assms(1)] assms(2) by (simp add: room_def)
  then show ?thesis
    by (auto simp: warm_inv_def totals_def warm_ok_def warm_exact_def)
qed

theorem warm_totals_exact_witness:
  "length (fw_paths (fst (fst demo_recv))) < 2 ^ 32 \<and>
   unat (fc_warm_buffered_datagrams (fw_counters (fst (fst demo_recv)))) =
     sum_list (map path_datagrams (fw_paths (fst (fst demo_recv))))"
proof -
  have "length (fw_paths (fst (fst demo_recv))) < 2 ^ 32"
    by code_simp
  then show ?thesis
    using warm_totals_exact [OF demo_leased] by blast
qed

text \<open>C21: a heartbeat that finds the primary silent for the configured time and the secondary warm
  leads to promotion from whatever state a controller can be in, and the promotion holds, with every
  command asking for source symbols, until a source symbol of the primary arrives.\<close>

theorem failover_promotes:
  assumes "check_relay_args unsp a = Inr ()" "controller_bind a g s us ms = Some c0"
    and "controller_run v snd' before (c0, []) = (c, sent0)"
    and "ct_last_primary_source c = Some p" "p + ct_silence c \<le> now" "secondary_recent now c"
    and "\<forall>ev \<in> set later. stays_silent now ev"
    and "controller_run v snd' (Tick w now # later) (c, sent0) = (c', sent)"
  shows "ct_state c' = Promoted \<and> ct_desired_mode c' = SourceAndRepair \<and>
    (\<exists>new. sent = sent0 @ new \<and> (\<forall>x \<in> set new. lc_mode x = SourceAndRepair) \<and>
      ((\<forall>x. v x \<and> snd' x) \<longrightarrow> new \<noteq> []))"
proof -
  have ok: "controller_ok c"
    using controller_run_ok [of "(c0, [])" v snd' before] controller_bind_ok [OF assms(1,2)] assms(3) by simp
  let ?c = "fst (controller_tick v snd' w now c)" and ?x = "snd (controller_tick v snd' w now c)"
  let ?sent = "sent0 @ (case ?x of None \<Rightarrow> [] | Some x \<Rightarrow> [x])"
  note prom = tick_promotes [OF ok assms(4,5,6), of w]
  have "controller_ok ?c" "ct_state ?c = Promoted" "ct_last_primary_source ?c = Some p" "p + ct_silence ?c \<le> now"
    using controller_tick_ok [OF ok, of v snd' w now] prom tick_state_config [of w now c] assms(4,5)
    by (simp_all add: tick_fields)
  moreover have "controller_run v snd' later (?c, ?sent) = (c', sent)"
    using assms(8) by (simp add: controller_step_Tick)
  ultimately obtain new where "ct_state c' = Promoted" "ct_desired_mode c' = SourceAndRepair"
    and new: "sent = ?sent @ new" "\<forall>x \<in> set new. lc_mode x = SourceAndRepair"
    using promotion_held [of ?c p now later v snd' ?sent c' sent] assms(7) by blast
  moreover have "\<forall>x \<in> set (case ?x of None \<Rightarrow> [] | Some x \<Rightarrow> [x]). lc_mode x = SourceAndRepair"
    using tick_sends [of v snd' w now c] prom by (auto split: option.splits)
  moreover have "(\<forall>x. v x \<and> snd' x) \<longrightarrow> ?x \<noteq> None"
    using tick_sends_always by blast
  ultimately show ?thesis
    by (intro conjI exI [of _ "(case ?x of None \<Rightarrow> [] | Some x \<Rightarrow> [x]) @ new"]) (auto split: option.splits)
qed

theorem failover_promotes_witness:
  "ct_state (fst demo_promoted) = Promoted \<and> ct_desired_mode (fst demo_promoted) = SourceAndRepair"
proof -
  have "controller_run always always demo_before (demo_controller, []) = (fst demo_silent, snd demo_silent)"
    by (simp add: demo_silent_def)
  moreover have "ct_last_primary_source (fst demo_silent) = Some 0"
    by code_simp
  moreover have "0 + ct_silence (fst demo_silent) \<le> 300000000"
    by code_simp
  moreover have "secondary_recent 300000000 (fst demo_silent)"
    by code_simp
  moreover have "controller_run always always (Tick demo_wall 300000000 # []) (fst demo_silent, snd demo_silent) =
      (fst demo_promoted, snd demo_promoted)"
    by (simp add: demo_promoted_def)
  ultimately show ?thesis
    using failover_promotes [OF demo_args_ok demo_bind, of always always demo_before "fst demo_silent"
        "snd demo_silent" 0 300000000 "[]" demo_wall "fst demo_promoted" "snd demo_promoted"]
    by simp
qed

text \<open>a promoted controller that finds the primary recent at every heartbeat is back to
  repair-only by the first heartbeat that is a full recovery time after the first of them.\<close>

theorem failover_recovers:
  assumes "check_relay_args unsp a = Inr ()" "controller_bind a g s us ms = Some c0"
    and "controller_run v snd' before (c0, []) = (c, sent0)" "ct_state c = Promoted"
    and "ticks_primary v snd' (Tick w0 t0 # mid @ [Tick w1 t1]) (c, sent0)" "t0 + ct_recovery c \<le> t1"
    and "controller_run v snd' (Tick w0 t0 # mid @ [Tick w1 t1]) (c, sent0) = (c', sent)"
  shows "ct_state c' = Healthy \<and> ct_desired_mode c' = RepairOnly"
proof -
  have ok: "controller_ok c"
    using controller_run_ok [of "(c0, [])" v snd' before] controller_bind_ok [OF assms(1,2)] assms(3) by simp
  let ?cs = "controller_step v snd' (Tick w0 t0) (c, sent0)"
  let ?cm = "controller_run v snd' mid ?cs"
  have rec: "primary_recent t0 c" "ticks_primary v snd' mid ?cs" "primary_recent t1 (fst ?cm)"
    using assms(5) by (simp_all add: ticks_primary_append)
  have "on_the_way t0 (fst ?cs)" "ct_recovery (fst ?cs) = ct_recovery c"
    using ok assms(4) rec(1) controller_tick_ok [OF ok, of v snd' w0 t0] tick_state_config [of w0 t0 c]
    by (auto simp: controller_step_Tick on_the_way_def tick_fields tick_state_def while_promoted_def demote_def
        set_state_def advance_transition_def Let_def controller_ok_def)
  then have m: "on_the_way t0 (fst ?cm)" "ct_recovery (fst ?cm) = ct_recovery c"
    using run_on_the_way [of t0 ?cs v snd' mid] rec(2) by simp_all
  have c': "c' = fst (controller_tick v snd' w1 t1 (fst ?cm))"
    using assms(7) by (cases ?cm) (simp add: controller_step_Tick)
  have "ct_state c' = Healthy" "controller_ok c'"
    using tick_on_the_way [OF m(1) rec(3), of v snd' w1] assms(6) m(2) by (simp_all add: c' on_the_way_def)
  then show ?thesis
    using failover_mode.exhaust [of "ct_desired_mode c'"] by (auto simp: controller_ok_def)
qed

definition demo_back :: "controller_event list" where
  "demo_back = [Tick demo_wall 400000000, Observe Primary \<lparr> ob_role = SourceSymbol, ob_decoded = False \<rparr> 2390000000,
     Tick demo_wall 2400000000]"

definition demo_returning :: "controller \<times> lease_command list" where
  "demo_returning = controller_run always always
     (demo_before @ [Tick demo_wall 300000000,
        Observe Primary \<lparr> ob_role = SourceSymbol, ob_decoded = False \<rparr> 390000000]) (demo_controller, [])"

definition demo_recovered :: "controller \<times> lease_command list" where
  "demo_recovered = controller_run always always demo_back demo_returning"

theorem failover_recovers_witness:
  "ct_state (fst demo_recovered) = Healthy \<and> ct_desired_mode (fst demo_recovered) = RepairOnly"
proof -
  let ?mid = "[Observe Primary \<lparr> ob_role = SourceSymbol, ob_decoded = False \<rparr> 2390000000]"
  have split: "demo_back = Tick demo_wall 400000000 # ?mid @ [Tick demo_wall 2400000000]"
    by (simp add: demo_back_def)
  have "controller_run always always (demo_before @ [Tick demo_wall 300000000,
        Observe Primary \<lparr> ob_role = SourceSymbol, ob_decoded = False \<rparr> 390000000]) (demo_controller, []) =
      (fst demo_returning, snd demo_returning)"
    by (simp add: demo_returning_def)
  moreover have "ct_state (fst demo_returning) = Promoted"
    by code_simp
  moreover have "ticks_primary always always demo_back (fst demo_returning, snd demo_returning)"
    by code_simp
  moreover have "400000000 + ct_recovery (fst demo_returning) \<le> 2400000000"
    by code_simp
  moreover have "controller_run always always demo_back (fst demo_returning, snd demo_returning) =
      (fst demo_recovered, snd demo_recovered)"
    by (simp add: demo_recovered_def)
  ultimately show ?thesis
    by (intro failover_recovers [OF demo_args_ok demo_bind]) (simp_all only: split)
qed




definition demo_expired :: "(nat, nat) forwarder \<times> listener_state" where
  "demo_expired = listener_tick demo_endpoint 1000000 3 (fst demo_recv)"

definition demo_renewal :: "((nat, nat) forwarder \<times> listener_state) \<times> (nat \<times> bytes) list" where
  "demo_renewal = listener_recv demo_decode 7 9 demo_endpoint (Some ([1], 10)) 1100000 4 5 (\<lambda>_. (None, 0)) demo_expired"


end
