(* ===== verification/Text_Numbers.thy ===== *)
theory Text_Numbers
  imports Wire_Bytes
begin

text \<open>
  Numbers as text: \<open>to_string\<close> of an unsigned integer and \<open>str::parse\<close> back, over the bytes of ASCII
  text, with the fixed-width hexadecimal and thousandths that format strings of \<open>src/src/main.rs\<close> use.
\<close>

section \<open>Printing\<close>

text \<open>\<open>u64::to_string\<close>.\<close>

fun decimal :: "nat \<Rightarrow> bytes" where
  "decimal n = (if n < 10 then [of_nat (48 + n)] else decimal (n div 10) @ [of_nat (48 + n mod 10)])"

declare decimal.simps [simp del]

definition hex_upper :: "nat \<Rightarrow> u8" where
  "hex_upper d = (if d < 10 then of_nat (48 + d) else of_nat (55 + d))"

text \<open>\<open>{:02X}\<close> of a byte.\<close>

definition hex2 :: "u8 \<Rightarrow> bytes" where
  "hex2 b = [hex_upper (unat b div 16), hex_upper (unat b mod 16)]"

text \<open>\<open>{:.3}\<close> of a number of thousandths over 1000.\<close>

definition thousandths :: "nat \<Rightarrow> bytes" where
  "thousandths n = decimal (n div 1000) @ [46] @
     [of_nat (48 + n mod 1000 div 100), of_nat (48 + n mod 100 div 10), of_nat (48 + n mod 10)]"

section \<open>Parsing\<close>

definition is_ascii_digit :: "u8 \<Rightarrow> bool" where
  "is_ascii_digit b \<longleftrightarrow> 48 \<le> b \<and> b \<le> 57"

text \<open>\<open>from_str_radix\<close> with radix 10 for a type with the given largest value; every error is \<open>None\<close>.\<close>

fun parse_digits :: "nat \<Rightarrow> nat \<Rightarrow> bytes \<Rightarrow> nat option" where
  "parse_digits limit acc [] = Some acc"
| "parse_digits limit acc (b # bs) =
     (if is_ascii_digit b then
        let v = acc * 10 + (unat b - 48) in if v \<le> limit then parse_digits limit v bs else None
      else None)"

definition parse_uint :: "nat \<Rightarrow> bytes \<Rightarrow> nat option" where
  "parse_uint limit text =
     (case text of
        [] \<Rightarrow> None
      | b # bs \<Rightarrow> if b = 43 then (if bs = [] then None else parse_digits limit 0 bs) else parse_digits limit 0 text)"

abbreviation parse_u64 :: "bytes \<Rightarrow> nat option" where "parse_u64 \<equiv> parse_uint u64_max"
abbreviation parse_u32 :: "bytes \<Rightarrow> nat option" where "parse_u32 \<equiv> parse_uint (2 ^ 32 - 1)"

section \<open>Round trip\<close>

lemma digit_byte: "d < 10 \<Longrightarrow> is_ascii_digit (of_nat (48 + d)) \<and> unat (of_nat (48 + d) :: u8) - 48 = d"
  by (simp add: is_ascii_digit_def word_le_nat_alt del: of_nat_add)

lemma digit_eqs: "d < 10 \<Longrightarrow> is_ascii_digit (48 + of_nat d)" "d < 10 \<Longrightarrow> unat (48 + of_nat d :: u8) = 48 + d"
proof -
  assume "d < 10"
  then show "unat (48 + of_nat d :: u8) = 48 + d" using unat_byte [of "48 + d"] by simp
  show "is_ascii_digit (48 + of_nat d)" using digit_byte [OF \<open>d < 10\<close>] by simp
qed

lemma decimal_digits: "\<forall>b \<in> set (decimal n). is_ascii_digit b"
proof (induction n rule: decimal.induct)
  case (1 n)
  then show ?case
    by (subst decimal.simps) (auto simp: digit_eqs)
qed

lemma decimal_nonempty [simp]: "decimal n \<noteq> []"
  by (subst decimal.simps) simp

lemma parse_digits_append:
  "parse_digits limit acc (xs @ ys) = Option.bind (parse_digits limit acc xs) (\<lambda>v. parse_digits limit v ys)"
  by (induction xs arbitrary: acc) (simp_all add: Let_def)

lemma parse_digits_decimal: "n \<le> limit \<Longrightarrow> parse_digits limit 0 (decimal n) = Some n"
proof (induction n rule: decimal.induct)
  case (1 n)
  show ?case
  proof (cases "n < 10")
    case True
    then show ?thesis
      using "1.prems" by (subst decimal.simps) (simp add: digit_eqs)
  next
    case False
    then have "parse_digits limit 0 (decimal (n div 10)) = Some (n div 10)"
      using "1.IH" "1.prems" by (simp add: order_trans [OF div_le_dividend])
    moreover have "n div 10 * 10 + n mod 10 = n" by simp
    ultimately show ?thesis
      using False "1.prems" by (subst decimal.simps) (simp add: parse_digits_append digit_eqs)
  qed
qed

lemma parse_decimal [simp]:
  assumes "n \<le> limit"
  shows "parse_uint limit (decimal n) = Some n"
proof (cases "decimal n")
  case (Cons b bs)
  then have "is_ascii_digit b" using decimal_digits [of n] by simp
  then have "b \<noteq> 43" by (auto simp: is_ascii_digit_def)
  then show ?thesis
    using parse_digits_decimal [OF assms] by (simp add: parse_uint_def Cons)
qed simp

lemma parse_digits_bound: "parse_digits limit acc bs = Some n \<Longrightarrow> acc \<le> limit \<Longrightarrow> n \<le> limit"
  by (induction bs arbitrary: acc) (auto simp: Let_def split: if_splits)

lemma parse_uint_bound: "parse_uint limit bs = Some n \<Longrightarrow> n \<le> limit"
  using parse_digits_bound [of limit 0] by (auto simp: parse_uint_def simp del: parse_digits.simps split: list.splits if_splits)

lemma decimal_inject [simp]: "decimal m = decimal n \<longleftrightarrow> m = n"
proof
  assume "decimal m = decimal n"
  then have "parse_digits (max m n) 0 (decimal m) = parse_digits (max m n) 0 (decimal n)" by (rule arg_cong)
  then show "m = n" by (simp add: parse_digits_decimal)
qed simp

end
