(* ===== verification/Live_Slot.thy ===== *)
theory Live_Slot
  imports Text_Numbers
begin

text \<open>
  The payloads of the live media cache, \<open>LiveSlotPayload\<close> and its codecs in \<open>src/src/main.rs\<close>:
  fMP4 slots, canonical live slots (a fixed index in front of an authenticated media-object
  envelope), and the Soundkit audio bundles that are reboxed before they are cached.

  The crates \<open>media_object\<close> and \<open>soundkit_fmp4\<close> are parameters: the record \<open>object_lib\<close> holds
  the wire magic, the decoder and the accessors of a media object, and \<open>rebox\<close> stands for
  \<open>rebox_soundkit_v2\<close>. The constructors of \<open>slot_error\<close> stand for the
  error texts; the three texts of an offset overflow share one constructor, and so do the four
  texts of a header field that does not fit.
\<close>

section \<open>Kinds and constants\<close>

definition MESH_FMP4_SLOT_MAGIC :: bytes where
  "MESH_FMP4_SLOT_MAGIC = ascii ''AVFMP4S1''"

definition MESH_FMP4_SLOT_HEADER_LEN :: nat where
  "MESH_FMP4_SLOT_HEADER_LEN = 16"

definition CANONICAL_LIVE_SLOT_MAGIC :: bytes where
  "CANONICAL_LIVE_SLOT_MAGIC = ascii ''AVMOBJS1''"

definition CANONICAL_LIVE_SLOT_HEADER_LEN :: nat where
  "CANONICAL_LIVE_SLOT_HEADER_LEN = 40"

definition SOUNDKIT_V2_BUNDLE_MAGIC :: bytes where
  "SOUNDKIT_V2_BUNDLE_MAGIC = ascii ''NTV2PART''"

definition SOUNDKIT_V2_BUNDLE_HEADER_LEN :: nat where
  "SOUNDKIT_V2_BUNDLE_HEADER_LEN = 21"

definition SOUNDKIT_V2_EPOCH_DURATION_MS :: nat where
  "SOUNDKIT_V2_EPOCH_DURATION_MS = 5"

lemmas slot_consts =
  MESH_FMP4_SLOT_MAGIC_def MESH_FMP4_SLOT_HEADER_LEN_def CANONICAL_LIVE_SLOT_MAGIC_def
  CANONICAL_LIVE_SLOT_HEADER_LEN_def

datatype live_media_kind = Fmp4 | Opaque | Ts

fun extension :: "live_media_kind \<Rightarrow> string" where
  "extension Fmp4 = ''mp4''"
| "extension Opaque = ''bin''"
| "extension Ts = ''ts''"

fun content_type :: "live_media_kind \<Rightarrow> string" where
  "content_type Fmp4 = ''video/mp4''"
| "content_type Opaque = ''application/octet-stream''"
| "content_type Ts = ''video/mp2t''"

fun canonical_slot_tag :: "live_media_kind \<Rightarrow> u8" where
  "canonical_slot_tag Fmp4 = 0"
| "canonical_slot_tag Opaque = 1"
| "canonical_slot_tag Ts = 2"

definition from_canonical_slot_tag :: "u8 \<Rightarrow> live_media_kind option" where
  "from_canonical_slot_tag tag =
     (if tag = 0 then Some Fmp4 else if tag = 1 then Some Opaque else if tag = 2 then Some Ts else None)"

lemma slot_tag_back [simp]: "from_canonical_slot_tag (canonical_slot_tag k) = Some k"
  by (cases k) (simp_all add: from_canonical_slot_tag_def)

definition starts_with :: "bytes \<Rightarrow> bytes \<Rightarrow> bool" where
  "starts_with payload prefix \<longleftrightarrow> take (length prefix) payload = prefix"

definition is_multichannel_audio_transport_datagram :: "bytes \<Rightarrow> bool" where
  "is_multichannel_audio_transport_datagram datagram = starts_with datagram (ascii ''AEP1'')"

datatype live_slot_payload =
    SlotFmp4 "bytes option" bytes
  | SlotOpaque bytes live_media_kind
  | SlotInvalid

datatype object_kind = Initialization | CodecConfiguration | Media | Discontinuity

record 'o object_lib =
  ol_wire_magic :: bytes
  ol_decode :: "bytes \<Rightarrow> 'o option"
  ol_kind :: "'o \<Rightarrow> object_kind"
  ol_stream :: "'o \<Rightarrow> bytes"
  ol_payload :: "'o \<Rightarrow> bytes"
  ol_metadata :: "'o \<Rightarrow> string \<Rightarrow> bytes option"

section \<open>Decoding\<close>

definition decode_fmp4_slot :: "bytes \<Rightarrow> live_slot_payload option" where
  "decode_fmp4_slot payload =
     (if length payload < MESH_FMP4_SLOT_HEADER_LEN \<or> \<not> starts_with payload MESH_FMP4_SLOT_MAGIC then None
      else
       let init_len = unat (from_be (slice 8 4 payload) :: u32);
           media_len = unat (from_be (slice 12 4 payload) :: u32) in
       case checked_add MESH_FMP4_SLOT_HEADER_LEN init_len of
         None \<Rightarrow> None
       | Some init_end \<Rightarrow>
          (case checked_add init_end media_len of
             None \<Rightarrow> None
           | Some media_end \<Rightarrow>
               if media_end \<noteq> length payload then None
               else Some (SlotFmp4
                 (if 0 < init_len then Some (slice MESH_FMP4_SLOT_HEADER_LEN init_len payload) else None)
                 (slice init_end media_len payload))))"

definition checked_range :: "bytes \<Rightarrow> nat \<Rightarrow> nat \<Rightarrow> bytes option" where
  "checked_range payload offset len =
     (case checked_add offset len of
        None \<Rightarrow> None
      | Some e \<Rightarrow>
          if CANONICAL_LIVE_SLOT_HEADER_LEN \<le> offset \<and> e \<le> length payload
          then Some (slice offset len payload) else None)"

definition slot_u32 :: "nat \<Rightarrow> bytes \<Rightarrow> nat" where
  "slot_u32 i payload = unat (from_be (slice i 4 payload) :: u32)"

definition decode_canonical_ranges :: "live_media_kind \<Rightarrow> bytes \<Rightarrow> live_slot_payload option" where
  "decode_canonical_ranges kind payload =
     (let init_offset = slot_u32 24 payload; init_len = slot_u32 28 payload;
          media_offset = slot_u32 32 payload; media_len = slot_u32 36 payload in
      case (if init_len = 0 then (if init_offset \<noteq> 0 then None else Some None)
            else map_option Some (checked_range payload init_offset init_len)) of
        None \<Rightarrow> None
      | Some init \<Rightarrow>
          (case checked_range payload media_offset media_len of
             None \<Rightarrow> None
           | Some media \<Rightarrow>
               (case kind of
                  Fmp4 \<Rightarrow> Some (SlotFmp4 init media)
                | _ \<Rightarrow> if init = None then Some (SlotOpaque media kind) else None)))"

definition decode_canonical_live_slot ::
  "'o object_lib \<Rightarrow> bytes \<Rightarrow> u64 option \<Rightarrow> live_slot_payload option" where
  "decode_canonical_live_slot lib payload expected_stream_id =
     (if length payload < CANONICAL_LIVE_SLOT_HEADER_LEN \<or>
         \<not> starts_with payload CANONICAL_LIVE_SLOT_MAGIC \<or> slice 17 3 payload \<noteq> [0, 0, 0]
      then None
      else
       let stream_id = from_be (slice 8 8 payload) :: u64 in
       if (case expected_stream_id of None \<Rightarrow> False | Some expected \<Rightarrow> expected \<noteq> stream_id) then None
       else (case from_canonical_slot_tag (payload ! 16) of
          None \<Rightarrow> None
        | Some kind \<Rightarrow>
            if slot_u32 20 payload \<noteq> length payload - CANONICAL_LIVE_SLOT_HEADER_LEN \<or>
               \<not> starts_with (drop CANONICAL_LIVE_SLOT_HEADER_LEN payload) (ol_wire_magic lib)
            then None
            else decode_canonical_ranges kind payload))"

definition has_metadata :: "'o object_lib \<Rightarrow> 'o \<Rightarrow> string \<Rightarrow> string \<Rightarrow> bool" where
  "has_metadata lib object key value \<longleftrightarrow> ol_metadata lib object key = Some (ascii value)"

definition object_slot :: "'o object_lib \<Rightarrow> 'o \<Rightarrow> live_slot_payload" where
  "object_slot lib object =
     (let is_fmp4 = has_metadata lib object ''container'' ''fmp4'';
          is_fmp4_slot = has_metadata lib object ''payload-format'' ''fmp4-slot-v1'';
          is_opaque = has_metadata lib object ''container'' ''opaque'' \<and>
            has_metadata lib object ''payload-format'' ''opaque-part-v1'';
          payload = ol_payload lib object in
      case ol_kind lib object of
        Media \<Rightarrow>
          if is_fmp4 \<and> is_fmp4_slot
          then (case decode_fmp4_slot payload of None \<Rightarrow> SlotInvalid | Some s \<Rightarrow> s)
          else if is_fmp4 then SlotFmp4 None payload
          else if is_opaque then SlotOpaque payload Opaque
          else SlotOpaque payload Ts
      | Initialization \<Rightarrow> if is_fmp4 then SlotFmp4 (Some payload) [] else SlotInvalid
      | CodecConfiguration \<Rightarrow> if is_fmp4 then SlotFmp4 (Some payload) [] else SlotInvalid
      | Discontinuity \<Rightarrow> SlotInvalid)"

definition decode_inner :: "'o object_lib \<Rightarrow> bytes \<Rightarrow> u64 option \<Rightarrow> live_slot_payload" where
  "decode_inner lib payload expected_stream_id =
     (if starts_with payload CANONICAL_LIVE_SLOT_MAGIC
      then (case decode_canonical_live_slot lib payload expected_stream_id of
              None \<Rightarrow> SlotInvalid | Some s \<Rightarrow> s)
      else if starts_with payload (ol_wire_magic lib)
      then (case ol_decode lib payload of
              None \<Rightarrow> SlotInvalid
            | Some object \<Rightarrow>
                if (case expected_stream_id of None \<Rightarrow> False
                      | Some stream_id \<Rightarrow> ol_stream lib object \<noteq> decimal (unat stream_id))
                then SlotInvalid else object_slot lib object)
      else (case decode_fmp4_slot payload of
              None \<Rightarrow> SlotOpaque payload Ts | Some s \<Rightarrow> s))"

definition slot_decode :: "'o object_lib \<Rightarrow> bytes \<Rightarrow> live_slot_payload" where
  "slot_decode lib payload = decode_inner lib payload None"

definition decode_for_stream :: "'o object_lib \<Rightarrow> bytes \<Rightarrow> u64 \<Rightarrow> live_slot_payload" where
  "decode_for_stream lib payload stream_id = decode_inner lib payload (Some stream_id)"

fun slot_media_kind :: "live_slot_payload \<Rightarrow> live_media_kind" where
  "slot_media_kind (SlotFmp4 _ _) = Fmp4"
| "slot_media_kind (SlotOpaque _ kind) = kind"
| "slot_media_kind SlotInvalid = Ts"

fun slot_init :: "live_slot_payload \<Rightarrow> bytes option" where
  "slot_init (SlotFmp4 init _) = init"
| "slot_init _ = None"

fun slot_media :: "live_slot_payload \<Rightarrow> bytes" where
  "slot_media (SlotFmp4 _ media) = media"
| "slot_media (SlotOpaque media _) = media"
| "slot_media SlotInvalid = []"

definition slot_has_media :: "live_slot_payload \<Rightarrow> bool" where
  "slot_has_media s \<longleftrightarrow> (case s of
     SlotFmp4 _ media \<Rightarrow> media \<noteq> [] | SlotOpaque media _ \<Rightarrow> media \<noteq> [] | SlotInvalid \<Rightarrow> False)"

section \<open>Encoding\<close>

datatype slot_error =
    InitTooLarge
  | FragmentTooLarge
  | NotCacheableMedia
  | EnvelopeTooLong
  | PayloadNotInEnvelope
  | OffsetOverflow
  | SlotHeaderInvalid
  | SlotLengthMismatch
  | FieldTooLarge

definition encode_fmp4_slot :: "bytes \<Rightarrow> bytes \<Rightarrow> slot_error + bytes" where
  "encode_fmp4_slot init media =
     (case try_word (length init) of
        None \<Rightarrow> Inl InitTooLarge
      | Some (init_len :: u32) \<Rightarrow>
          (case try_word (length media) of
             None \<Rightarrow> Inl FragmentTooLarge
           | Some (media_len :: u32) \<Rightarrow>
               Inr (MESH_FMP4_SLOT_MAGIC @ u32_be init_len @ u32_be media_len @ init @ media)))"

text \<open>The ranges of initialization and media inside the cached slot.\<close>

definition slot_ranges ::
  "bytes \<Rightarrow> nat \<Rightarrow> nat \<Rightarrow> bool \<Rightarrow> slot_error + nat \<times> nat \<times> nat \<times> nat" where
  "slot_ranges slot object_payload_offset envelope_len is_fmp4_slot =
     (if is_fmp4_slot then
        (if length slot < MESH_FMP4_SLOT_HEADER_LEN \<or> \<not> starts_with slot MESH_FMP4_SLOT_MAGIC
         then Inl SlotHeaderInvalid
         else
          let init_len = unat (from_be (slice 8 4 slot) :: u32);
              media_len = unat (from_be (slice 12 4 slot) :: u32) in
          case Option.bind (checked_add object_payload_offset MESH_FMP4_SLOT_HEADER_LEN)
                 (\<lambda>init_start. Option.bind (checked_add init_start init_len)
                   (\<lambda>media_start. map_option (\<lambda>media_end. (init_start, media_start, media_end))
                     (checked_add media_start media_len))) of
            None \<Rightarrow> Inl OffsetOverflow
          | Some (init_start, media_start, media_end) \<Rightarrow>
              if media_end \<noteq> CANONICAL_LIVE_SLOT_HEADER_LEN + envelope_len then Inl SlotLengthMismatch
              else Inr (if 0 < init_len then init_start else 0, init_len, media_start, media_len))
      else Inr (0, 0, object_payload_offset, length slot))"

definition canonical_slot_bytes ::
  "u64 \<Rightarrow> live_media_kind \<Rightarrow> u32 \<Rightarrow> u32 \<Rightarrow> u32 \<Rightarrow> u32 \<Rightarrow> u32 \<Rightarrow> bytes \<Rightarrow> bytes" where
  "canonical_slot_bytes stream_id kind envelope_len init_offset init_len media_offset media_len envelope =
     CANONICAL_LIVE_SLOT_MAGIC @ u64_be stream_id @ [canonical_slot_tag kind] @ [0, 0, 0] @
     u32_be envelope_len @ u32_be init_offset @ u32_be init_len @ u32_be media_offset @
     u32_be media_len @ envelope"

definition encode_canonical_live_slot ::
  "'o object_lib \<Rightarrow> u64 \<Rightarrow> 'o \<Rightarrow> bytes \<Rightarrow> live_media_kind \<Rightarrow> slot_error + bytes" where
  "encode_canonical_live_slot lib stream_id object envelope media_kind =
     (if ol_kind lib object \<noteq> Media \<or> ol_payload lib object = [] then Inl NotCacheableMedia
      else case try_word (length envelope) of
        None \<Rightarrow> Inl EnvelopeTooLong
      | Some envelope_len \<Rightarrow>
          if length envelope < length (ol_payload lib object) then Inl PayloadNotInEnvelope
          else (case checked_add CANONICAL_LIVE_SLOT_HEADER_LEN
                       (length envelope - length (ol_payload lib object)) of
             None \<Rightarrow> Inl OffsetOverflow
           | Some object_payload_offset \<Rightarrow>
               (case slot_ranges (ol_payload lib object) object_payload_offset (length envelope)
                       (media_kind = Fmp4 \<and> has_metadata lib object ''payload-format'' ''fmp4-slot-v1'') of
                  Inl e \<Rightarrow> Inl e
                | Inr (init_offset, init_len, media_offset, media_len) \<Rightarrow>
                    (case (try_word init_offset, try_word init_len, try_word media_offset, try_word media_len) of
                       (Some io, Some il, Some mo, Some ml) \<Rightarrow>
                         Inr (canonical_slot_bytes stream_id media_kind envelope_len io il mo ml envelope)
                     | _ \<Rightarrow> Inl FieldTooLarge))))"

text \<open>The kind that a commit chooses; \<open>reboxed\<close> is whether the object was a bundle that was reboxed.\<close>

definition object_media_kind :: "'o object_lib \<Rightarrow> bool \<Rightarrow> 'o \<Rightarrow> live_media_kind" where
  "object_media_kind lib reboxed object =
     (if reboxed \<or> has_metadata lib object ''container'' ''fmp4'' then Fmp4
      else if has_metadata lib object ''container'' ''opaque'' \<and>
              has_metadata lib object ''payload-format'' ''opaque-part-v1'' then Opaque
      else Ts)"

definition decode_canonical_stream_object :: "'o object_lib \<Rightarrow> bytes \<Rightarrow> unit + 'o option" where
  "decode_canonical_stream_object lib payload =
     (if \<not> starts_with payload (ol_wire_magic lib) then Inr None
      else (case ol_decode lib payload of None \<Rightarrow> Inl () | Some object \<Rightarrow> Inr (Some object)))"

section \<open>Soundkit bundles\<close>

datatype bundle_error =
    BundleHeaderInvalid
  | UnsupportedCodec u8
  | NoEpochsOrTracks
  | TrackCountUnsupported u16
  | EntryHeaderOverflow
  | EndedBeforeEpoch nat
  | GroupIdentityChanged nat
  | FrameLengthOverflow
  | FrameTruncated nat
  | TrailingBytes
  | TimelineOverflow
  | SequenceTooLarge
  | ReboxFailed
  | CodecDisagrees
  | NoInitialization

datatype soundkit_codec = Flac | Opus

record reboxed_audio =
  rx_codec :: soundkit_codec
  rx_init :: "bytes option"
  rx_media :: bytes
  rx_duration_ms :: u32

record reboxed_live_audio =
  rl_init :: bytes
  rl_media :: bytes
  rl_duration_ms :: u32

text \<open>The loop \<open>for epoch in 0..epoch_count\<close>; \<open>n\<close> epochs remain.\<close>

fun read_epochs ::
  "bytes \<Rightarrow> u16 \<Rightarrow> nat \<Rightarrow> nat \<Rightarrow> nat \<Rightarrow> bytes \<Rightarrow> bundle_error + nat \<times> bytes" where
  "read_epochs payload base_group_id 0 epoch offset framed = Inr (offset, framed)"
| "read_epochs payload base_group_id (Suc n) epoch offset framed =
     (case checked_add offset 6 of
        None \<Rightarrow> Inl EntryHeaderOverflow
      | Some entry_header_end \<Rightarrow>
          if length payload < entry_header_end then Inl (EndedBeforeEpoch epoch)
          else
           let group_id = from_be (slice offset 2 payload) :: u16;
               frame_len = unat (from_be (slice (offset + 2) 4 payload) :: u32) in
           if group_id \<noteq> base_group_id then Inl (GroupIdentityChanged epoch)
           else (case checked_add entry_header_end frame_len of
              None \<Rightarrow> Inl FrameLengthOverflow
            | Some frame_end \<Rightarrow>
                if length payload < frame_end then Inl (FrameTruncated epoch)
                else read_epochs payload base_group_id n (Suc epoch) frame_end
                       (framed @ slice entry_header_end frame_len payload)))"

definition checked_mul :: "nat \<Rightarrow> nat \<Rightarrow> nat option" where
  "checked_mul a b = (if a * b \<le> u64_max then Some (a * b) else None)"

definition read_bundle :: "bytes \<Rightarrow> bundle_error + soundkit_codec \<times> nat \<times> bytes" where
  "read_bundle payload =
     (if length payload < SOUNDKIT_V2_BUNDLE_HEADER_LEN \<or> \<not> starts_with payload SOUNDKIT_V2_BUNDLE_MAGIC
      then Inl BundleHeaderInvalid
      else case (if payload ! 8 = 1 then Some Flac else if payload ! 8 = 2 then Some Opus else None) of
        None \<Rightarrow> Inl (UnsupportedCodec (payload ! 8))
      | Some codec \<Rightarrow>
         let epoch_count = unat (from_be (slice 9 8 payload) :: u64);
             base_group_id = from_be (slice 17 2 payload) :: u16;
             track_count = from_be (slice 19 2 payload) :: u16 in
         if epoch_count = 0 \<or> track_count = 0 then Inl NoEpochsOrTracks
         else if track_count \<noteq> 1 then Inl (TrackCountUnsupported track_count)
         else (case read_epochs payload base_group_id epoch_count 0 SOUNDKIT_V2_BUNDLE_HEADER_LEN [] of
            Inl e \<Rightarrow> Inl e
          | Inr (offset, framed) \<Rightarrow>
              if offset \<noteq> length payload then Inl TrailingBytes else Inr (codec, epoch_count, framed)))"

definition rebox_soundkit_v2_bundle ::
  "(bytes \<Rightarrow> u32 \<Rightarrow> nat \<Rightarrow> reboxed_audio option) \<Rightarrow> bytes \<Rightarrow> u64 \<Rightarrow> bundle_error + reboxed_live_audio" where
  "rebox_soundkit_v2_bundle rebox payload sequence =
     (case read_bundle payload of
        Inl e \<Rightarrow> Inl e
      | Inr (codec, epoch_count, framed) \<Rightarrow>
         (case Option.bind (checked_mul (unat sequence) epoch_count)
                 (\<lambda>v. checked_mul v SOUNDKIT_V2_EPOCH_DURATION_MS) of
            None \<Rightarrow> Inl TimelineOverflow
          | Some start_pts_ms \<Rightarrow>
             (case try_word (unat sequence) of
                None \<Rightarrow> Inl SequenceTooLarge
              | Some sequence32 \<Rightarrow>
                 (case rebox framed sequence32 start_pts_ms of
                    None \<Rightarrow> Inl ReboxFailed
                  | Some r \<Rightarrow>
                      if rx_codec r \<noteq> codec then Inl CodecDisagrees
                      else (case rx_init r of
                         None \<Rightarrow> Inl NoInitialization
                       | Some init \<Rightarrow> Inr \<lparr> rl_init = init, rl_media = rx_media r,
                                            rl_duration_ms = rx_duration_ms r \<rparr>)))))"

end
