(* ===== verification/Live_Slot_Properties.thy ===== *)
theory Live_Slot_Properties
  imports Live_Slot
begin

text \<open>
  The codecs of the live cache: fMP4 slots and audio bundles decode to what was encoded and only
  to that, and the cached form of a canonical object reads the same as its envelope.
\<close>

section \<open>fMP4 slots\<close>

lemma starts_with_append: "starts_with (a @ b) a"
  by (simp add: starts_with_def)

lemma encode_fmp4_slot_Inr:
  "encode_fmp4_slot init media = Inr b \<longleftrightarrow> length init < 2 ^ 32 \<and> length media < 2 ^ 32 \<and>
     b = MESH_FMP4_SLOT_MAGIC @ u32_be (of_nat (length init)) @ u32_be (of_nat (length media)) @ init @ media"
  by (auto simp: encode_fmp4_slot_def try_word_def split: option.splits if_splits)

lemma slot_magic_length [simp]: "length MESH_FMP4_SLOT_MAGIC = 8" "length CANONICAL_LIVE_SLOT_MAGIC = 8"
  by (simp_all add: slot_consts)

lemma decode_encode_fmp4:
  assumes "encode_fmp4_slot init media = Inr b"
  shows "decode_fmp4_slot b = Some (SlotFmp4 (if init = [] then None else Some init) media)"
proof -
  have len: "length init < 2 ^ 32" "length media < 2 ^ 32"
    and b: "b = MESH_FMP4_SLOT_MAGIC @ u32_be (of_nat (length init)) @ u32_be (of_nat (length media)) @ init @ media"
    using assms by (simp_all add: encode_fmp4_slot_Inr)
  have "slice 8 4 b = u32_be (of_nat (length init))" "slice 12 4 b = u32_be (of_nat (length media))"
    "slice 16 (length init) b = init" "slice (16 + length init) (length media) b = media"
    "length b = 16 + length init + length media" "starts_with b MESH_FMP4_SLOT_MAGIC"
    by (simp_all add: b slice_eval slot_consts starts_with_append)
  moreover have "unat (of_nat (length init) :: u32) = length init" "unat (of_nat (length media) :: u32) = length media"
    using len by (simp_all add: unat_of_nat_small)
  ultimately show ?thesis
    using len by (simp add: decode_fmp4_slot_def MESH_FMP4_SLOT_HEADER_LEN_def checked_add_def u64_max_def)
qed

lemma decode_fmp4_slot_Some:
  assumes "decode_fmp4_slot b = Some s"
  shows "\<exists>init media. s = SlotFmp4 (if init = [] then None else Some init) media \<and>
    encode_fmp4_slot init media = Inr b"
proof -
  define il where "il = unat (from_be (slice 8 4 b) :: u32)"
  define ml where "ml = unat (from_be (slice 12 4 b) :: u32)"
  have len: "16 + il + ml = length b" and magic: "take 8 b = MESH_FMP4_SLOT_MAGIC"
    and s: "s = SlotFmp4 (if 0 < il then Some (slice 16 il b) else None) (slice (16 + il) ml b)"
    using assms unfolding decode_fmp4_slot_def il_def [symmetric] ml_def [symmetric] Let_def
    by (auto simp: MESH_FMP4_SLOT_HEADER_LEN_def starts_with_def split: if_splits option.splits)
  let ?i = "slice 16 il b" and ?m = "slice (16 + il) ml b"
  have lens: "length ?i = il" "length ?m = ml"
    using len by (simp_all add: length_slice)
  have small: "il < 2 ^ 32" "ml < 2 ^ 32"
    using unat_less_pow [of "from_be (slice 8 4 b) :: u32"] unat_less_pow [of "from_be (slice 12 4 b) :: u32"]
    by (simp_all add: il_def ml_def)
  have f: "u32_be (of_nat il) = slice 8 4 b" "u32_be (of_nat ml) = slice 12 4 b"
    using len by (simp_all add: il_def ml_def wire_simps)
  have "b = slice 0 8 b @ slice 8 4 b @ slice 12 4 b @ ?i @ ?m"
    using len slice_all_n [of "16 + (il + ml)" b] by (simp add: slice_join)
  also have "slice 0 8 b = MESH_FMP4_SLOT_MAGIC"
    using magic by (simp add: slice_def)
  finally have "encode_fmp4_slot ?i ?m = Inr b"
    using lens small f by (simp add: encode_fmp4_slot_Inr)
  moreover have "s = SlotFmp4 (if ?i = [] then None else Some ?i) ?m"
    using s lens by auto
  ultimately show ?thesis by blast
qed

section \<open>Canonical slots\<close>

lemma canonical_slot_fields:
  fixes sid kind el io il mo ml env
  defines "b \<equiv> canonical_slot_bytes sid kind el io il mo ml env"
  shows "starts_with b CANONICAL_LIVE_SLOT_MAGIC" "length b = 40 + length env" "slice 17 3 b = [0, 0, 0]"
    "slice 8 8 b = u64_be sid" "b ! 16 = canonical_slot_tag kind" "slot_u32 20 b = unat el"
    "slot_u32 24 b = unat io" "slot_u32 28 b = unat il" "slot_u32 32 b = unat mo" "slot_u32 36 b = unat ml"
    "drop 40 b = env"
  by (simp_all add: b_def canonical_slot_bytes_def slot_consts slice_eval slot_u32_def starts_with_append
      nth_append nth_Cons)

lemma slice_drop: "slice i n (drop k b) = slice (k + i) n b"
  by (simp add: slice_def add.commute)

lemma checked_range_slot:
  assumes "drop 40 b = env" "length b = 40 + length env" "40 \<le> off" "off + len \<le> 40 + length env"
    "off + len \<le> u64_max"
  shows "checked_range b off len = Some (slice (off - 40) len env)"
  using assms slice_drop [of "off - 40" len 40 b]
  by (simp add: checked_range_def slot_consts checked_add_def)

lemma encode_canonical_Inr:
  assumes "encode_canonical_live_slot lib sid obj env kind = Inr b"
  shows "ol_kind lib obj = Media \<and> ol_payload lib obj \<noteq> [] \<and> length (ol_payload lib obj) \<le> length env \<and>
    (\<exists>el io il mo ml. unat (el :: u32) = length env \<and>
      slot_ranges (ol_payload lib obj) (40 + (length env - length (ol_payload lib obj))) (length env)
        (kind = Fmp4 \<and> has_metadata lib obj ''payload-format'' ''fmp4-slot-v1'') =
        Inr (unat io, unat il, unat mo, unat ml) \<and>
      b = canonical_slot_bytes sid kind el io il mo ml env)"
  using assms
  by (auto simp: encode_canonical_live_slot_def try_word_Some slot_consts not_less
      split: if_splits option.splits sum.splits prod.splits) blast

text \<open>The slot reads its object: the index points at what decoding the object would give.\<close>

lemma canonical_ranges_object:
  assumes media: "ol_kind lib obj = Media" and env: "env = h @ ol_payload lib obj"
    and fits: "length env < 2 ^ 32"
    and ranges: "slot_ranges (ol_payload lib obj) (40 + length h) (length env)
        (object_media_kind lib False obj = Fmp4 \<and> has_metadata lib obj ''payload-format'' ''fmp4-slot-v1'') =
        Inr (unat io, unat il, unat mo, unat ml)"
    and b: "b = canonical_slot_bytes sid (object_media_kind lib False obj) el io il mo ml env"
  shows "decode_canonical_ranges (object_media_kind lib False obj) b = Some (object_slot lib obj)"
proof -
  let ?p = "ol_payload lib obj"
  note fields = canonical_slot_fields [of sid "object_media_kind lib False obj" el io il mo ml env, folded b]
  have range: "checked_range b (40 + length h + off) len = Some (slice off len ?p)" if "off + len \<le> length ?p" for off len
    using checked_range_slot [OF fields(11,2), of "40 + length h + off" len] that fits
    by (simp add: env u64_max_def slice_skip)
  show ?thesis
  proof (cases "object_media_kind lib False obj = Fmp4 \<and> has_metadata lib obj ''payload-format'' ''fmp4-slot-v1''")
    case False
    then have q: "(object_media_kind lib False obj = Fmp4 \<and> has_metadata lib obj ''payload-format'' ''fmp4-slot-v1'') = False"
      by blast
    have r: "unat io = 0" "unat il = 0" "unat mo = 40 + length h" "unat ml = length ?p"
      using ranges [unfolded q] by (simp_all add: slot_ranges_def)
    have "checked_range b (40 + length h) (length ?p) = Some ?p"
      using range [of 0 "length ?p"] by (simp add: slice_all)
    then show ?thesis
      using False media fields r
      by (auto simp: decode_canonical_ranges_def object_slot_def object_media_kind_def split: live_media_kind.splits)
  next
    case True
    then have q: "(object_media_kind lib False obj = Fmp4 \<and> has_metadata lib obj ''payload-format'' ''fmp4-slot-v1'') = True"
      by blast
    define i where "i = unat (from_be (slice 8 4 ?p) :: u32)"
    define m where "m = unat (from_be (slice 12 4 ?p) :: u32)"
    have r: "16 \<le> length ?p" "starts_with ?p MESH_FMP4_SLOT_MAGIC" "16 + i + m = length ?p"
      "unat io = (if 0 < i then 40 + length h + 16 else 0)" "unat il = i"
      "unat mo = 40 + length h + (16 + i)" "unat ml = m"
      using ranges [unfolded q] unfolding slot_ranges_def i_def [symmetric] m_def [symmetric] Let_def
      by (auto simp: slot_consts env not_less split: if_splits option.splits bind_splits)
    have "decode_fmp4_slot ?p = Some (SlotFmp4 (if 0 < i then Some (slice 16 i ?p) else None) (slice (16 + i) m ?p))"
      using r(1,2,3) fits unfolding decode_fmp4_slot_def i_def [symmetric] m_def [symmetric] Let_def
      by (simp add: MESH_FMP4_SLOT_HEADER_LEN_def checked_add_def u64_max_def env)
    moreover have "checked_range b (40 + length h + 16) i = Some (slice 16 i ?p)"
      "checked_range b (40 + length h + (16 + i)) m = Some (slice (16 + i) m ?p)"
      using range [of 16 i] range [of "16 + i" m] r(3) by simp_all
    moreover have "has_metadata lib obj ''container'' ''fmp4''" "object_media_kind lib False obj = Fmp4"
      using True by (auto simp: object_media_kind_def split: if_splits)
    ultimately show ?thesis
      using True media fields r(4-7)
      by (cases "i = 0") (simp_all add: decode_canonical_ranges_def object_slot_def)
  qed
qed

section \<open>Audio bundles\<close>

definition bundle_entry :: "u16 \<Rightarrow> bytes \<Rightarrow> bytes" where
  "bundle_entry g f = u16_be g @ u32_be (of_nat (length f)) @ f"

lemma length_bundle_entry [simp]: "length (bundle_entry g f) = 6 + length f"
  by (simp add: bundle_entry_def)

text \<open>Reading \<open>n\<close> epochs succeeds exactly when \<open>n\<close> entries of the group stand at the offset, and
  yields their frames.\<close>

lemma read_epochs_complete:
  assumes "length payload \<le> u64_max"
  shows "drop off payload = concat (map (bundle_entry g) fs) @ rest \<Longrightarrow> off \<le> length payload \<Longrightarrow>
    \<forall>f \<in> set fs. length f < 2 ^ 32 \<Longrightarrow>
    read_epochs payload g (length fs) e off framed = Inr (length payload - length rest, framed @ concat fs)"
proof (induction fs arbitrary: off e framed)
  case Nil
  then have "drop off payload = rest" by simp
  then have "length payload - off = length rest"
    by (simp flip: length_drop)
  then show ?case
    using Nil.prems(2) by simp
next
  case (Cons f fs)
  have d: "drop off payload = u16_be g @ u32_be (of_nat (length f)) @ f @ concat (map (bundle_entry g) fs) @ rest"
    using Cons.prems(1) bundle_entry_def [of g f] by simp
  have len: "length payload = off + 6 + length f + length (concat (map (bundle_entry g) fs) @ rest)"
    using arg_cong [OF d, of length] Cons.prems(2) by simp
  have at: "slice (off + i) n payload =
      slice i n (u16_be g @ u32_be (of_nat (length f)) @ f @ concat (map (bundle_entry g) fs) @ rest)" for i n
    unfolding d [symmetric] by (simp add: slice_drop)
  have s: "slice off 2 payload = u16_be g" "slice (off + 2) 4 payload = u32_be (of_nat (length f))"
    "slice (off + 6) (length f) payload = f"
    using at [of 0 2] at [of 2 4] at [of 6 "length f"] by (simp_all add: slice_eval)
  have next_drop: "drop (off + 6 + length f) payload = concat (map (bundle_entry g) fs) @ rest"
    using arg_cong [OF d, of "drop (6 + length f)"] by (simp add: ac_simps)
  have "unat (of_nat (length f) :: u32) = length f"
    using Cons.prems(3) by (simp add: unat_of_nat_small)
  then show ?case
    using Cons.IH [OF next_drop, of "Suc e" "framed @ f"] Cons.prems(3) len s assms
    by (simp add: checked_add_def)
qed

lemma read_epochs_sound:
  "read_epochs payload g n e off framed = Inr (off', fr) \<Longrightarrow>
   \<exists>fs. length fs = n \<and> (\<forall>f \<in> set fs. length f < 2 ^ 32) \<and> fr = framed @ concat fs \<and>
     slice off (off' - off) payload = concat (map (bundle_entry g) fs) \<and> off \<le> off' \<and>
     (off \<le> length payload \<longrightarrow> off' \<le> length payload)"
proof (induction n arbitrary: e off framed)
  case 0
  then show ?case by (simp add: slice_def)
next
  case (Suc n)
  define m where "m = unat (from_be (slice (off + 2) 4 payload) :: u32)"
  have step: "off + 6 \<le> length payload" "(from_be (slice off 2 payload) :: u16) = g" "off + 6 + m \<le> length payload"
    and rest: "read_epochs payload g n (Suc e) (off + 6 + m) (framed @ slice (off + 6) m payload) = Inr (off', fr)"
    using Suc.prems unfolding read_epochs.simps m_def [symmetric] Let_def
    by (auto split: option.splits if_splits)
  obtain fs where fs: "length fs = n" "\<forall>f \<in> set fs. length f < 2 ^ 32"
    "fr = (framed @ slice (off + 6) m payload) @ concat fs"
    "slice (off + 6 + m) (off' - (off + 6 + m)) payload = concat (map (bundle_entry g) fs)"
    "off + 6 + m \<le> off'" "off' \<le> length payload"
    using Suc.IH [OF rest] step(3) by blast
  let ?f = "slice (off + 6) m payload"
  have lenf: "length ?f = m" "m < 2 ^ 32"
    using step(3) unat_less_pow [of "from_be (slice (off + 2) 4 payload) :: u32"] by (simp_all add: length_slice m_def)
  have "u16_be g = slice off 2 payload" "u32_be (of_nat m) = slice (off + 2) 4 payload"
    using step by (auto simp: m_def wire_simps)
  then have "bundle_entry g ?f = slice off (6 + m) payload"
    by (simp add: bundle_entry_def lenf slice_join)
  then have "slice off (off' - off) payload = concat (map (bundle_entry g) (?f # fs))"
    using fs(4,5) slice_join [of off "6 + m" "off + 6 + m" payload "off' - (off + 6 + m)"] by (simp add: ac_simps)
  then show ?case
    using fs lenf by (intro exI [of _ "?f # fs"]) simp
qed

fun codec_tag :: "soundkit_codec \<Rightarrow> u8" where
  "codec_tag Flac = 1"
| "codec_tag Opus = 2"

definition bundle_bytes :: "soundkit_codec \<Rightarrow> u16 \<Rightarrow> bytes list \<Rightarrow> bytes" where
  "bundle_bytes codec g fs = SOUNDKIT_V2_BUNDLE_MAGIC @ [codec_tag codec] @ u64_be (of_nat (length fs)) @
     u16_be g @ u16_be 1 @ concat (map (bundle_entry g) fs)"

lemma bundle_magic_length [simp]: "length SOUNDKIT_V2_BUNDLE_MAGIC = 8"
  by (simp add: SOUNDKIT_V2_BUNDLE_MAGIC_def)

lemma codec_of_tag:
  "(if b = 1 then Some Flac else if b = 2 then Some Opus else None) = Some codec \<longleftrightarrow> b = codec_tag codec"
  by (cases codec) auto

lemma entries_count: "6 * length fs \<le> length (concat (map (bundle_entry g) fs))"
  by (induction fs) simp_all

lemma bundle_header:
  assumes "21 \<le> length payload" "starts_with payload SOUNDKIT_V2_BUNDLE_MAGIC"
  shows "payload = SOUNDKIT_V2_BUNDLE_MAGIC @ [payload ! 8] @ u64_be (from_be (slice 9 8 payload)) @
    u16_be (from_be (slice 17 2 payload)) @ u16_be (from_be (slice 19 2 payload)) @ drop 21 payload"
proof -
  have "payload = slice 0 8 payload @ slice 8 1 payload @ slice 9 8 payload @ slice 17 2 payload @
      slice 19 2 payload @ slice 21 (length payload - 21) payload"
    using assms(1) by (simp add: slice_join slice_all_n)
  moreover have "slice 0 8 payload = SOUNDKIT_V2_BUNDLE_MAGIC"
    using assms(2) by (simp add: starts_with_def slice_def)
  moreover have "slice 8 1 payload = [payload ! 8]"
    using assms(1) by (intro nth_slice_Cons) simp
  moreover have "slice 21 (length payload - 21) payload = drop 21 payload"
    by (simp add: slice_def)
  ultimately show ?thesis
    using assms(1) by (simp add: be64.rewrite_slice be16.rewrite_slice)
qed

lemma bundle_fields:
  fixes fs :: "bytes list" and codec :: soundkit_codec and g :: u16
  assumes "length fs < 2 ^ 64"
  defines "b \<equiv> bundle_bytes codec g fs"
  shows "starts_with b SOUNDKIT_V2_BUNDLE_MAGIC" "21 \<le> length b" "b ! 8 = codec_tag codec"
    "unat (from_be (slice 9 8 b) :: u64) = length fs" "(from_be (slice 17 2 b) :: u16) = g"
    "(from_be (slice 19 2 b) :: u16) = 1" "drop 21 b = concat (map (bundle_entry g) fs)"
  using assms(1) unfolding b_def bundle_bytes_def
  by (simp_all add: starts_with_append nth_append slice_eval be64.dec_enc be16.dec_enc unat_of_nat_small)

section \<open>Properties\<close>

text \<open>C24: the cached form of a canonical object reads the same as its envelope, for the stream it was
  committed under: the index in front leads to the initialization and media that decoding the
  envelope would give. For any other stream it is invalid. What the source relies on of the crate
  \<open>media_object\<close> are hypotheses: an envelope decodes to its object, starts with the wire magic, which
  is not that of a cached slot, and ends with the object's payload.\<close>

theorem canonical_slot_equivalent:
  assumes "encode_canonical_live_slot lib sid obj env (object_media_kind lib False obj) = Inr cached"
    and "ol_decode lib env = Some obj" "starts_with env (ol_wire_magic lib)"
    and "\<not> starts_with env CANONICAL_LIVE_SLOT_MAGIC" "env = h @ ol_payload lib obj"
    and "ol_stream lib obj = decimal (unat sid)"
  shows "decode_for_stream lib cached sid = decode_for_stream lib env sid \<and>
    decode_for_stream lib cached sid \<noteq> SlotInvalid \<and>
    (\<forall>other. other \<noteq> sid \<longrightarrow> decode_for_stream lib cached other = SlotInvalid)"
proof -
  obtain el io il mo ml where enc: "ol_kind lib obj = Media" "unat (el :: u32) = length env"
      "slot_ranges (ol_payload lib obj) (40 + (length env - length (ol_payload lib obj))) (length env)
        (object_media_kind lib False obj = Fmp4 \<and> has_metadata lib obj ''payload-format'' ''fmp4-slot-v1'') =
        Inr (unat io, unat il, unat mo, unat ml)"
      "cached = canonical_slot_bytes sid (object_media_kind lib False obj) el io il mo ml env"
    using encode_canonical_Inr [OF assms(1)] by blast
  note fields = canonical_slot_fields [of sid "object_media_kind lib False obj" el io il mo ml env, folded enc(4)]
  have "length env < 2 ^ 32"
    using unat_less_pow [of el] enc(2) by simp
  then have r: "decode_canonical_ranges (object_media_kind lib False obj) cached = Some (object_slot lib obj)"
    using canonical_ranges_object [OF enc(1) assms(5) _ _ enc(4)] enc(3) assms(5) by simp
  have slot: "decode_canonical_live_slot lib cached (Some x) =
      (if x = sid then Some (object_slot lib obj) else None)" for x
    using fields r assms(3) enc(2) by (simp add: decode_canonical_live_slot_def slot_consts(4))
  moreover have "decode_for_stream lib env sid = object_slot lib obj"
    using assms(2-4,6) by (simp add: decode_for_stream_def decode_inner_def)
  moreover have "object_slot lib obj \<noteq> SlotInvalid"
    using r by (auto simp: decode_canonical_ranges_def Let_def split: option.splits live_media_kind.splits if_splits)
  ultimately show ?thesis
    using fields(1) by (simp add: decode_for_stream_def decode_inner_def)
qed

text \<open>A format with one byte of magic, the stream and then the payload.\<close>

definition demo_lib :: "bytes object_lib" where
  "demo_lib = \<lparr> ol_wire_magic = [7], ol_decode = (\<lambda>b. if take 2 b = [7, 57] then Some (drop 2 b) else None),
     ol_kind = (\<lambda>_. Media), ol_stream = (\<lambda>_. [57]), ol_payload = (\<lambda>p. p),
     ol_metadata = (\<lambda>_ k. if k = ''container'' then Some (ascii ''fmp4'')
                          else if k = ''payload-format'' then Some (ascii ''fmp4-slot-v1'') else None) \<rparr>"

definition demo_payload :: bytes where
  "demo_payload = MESH_FMP4_SLOT_MAGIC @ [0, 0, 0, 1, 0, 0, 0, 2, 200, 10, 11]"

definition demo_cached :: bytes where
  "demo_cached = canonical_slot_bytes 9 Fmp4 21 58 1 59 2 ([7, 57] @ demo_payload)"

theorem canonical_slot_equivalent_witness:
  "decode_for_stream demo_lib demo_cached 9 = decode_for_stream demo_lib ([7, 57] @ demo_payload) 9 \<and>
   decode_for_stream demo_lib demo_cached 9 = SlotFmp4 (Some [200]) [10, 11]"
proof -
  have "encode_canonical_live_slot demo_lib 9 demo_payload ([7, 57] @ demo_payload)
      (object_media_kind demo_lib False demo_payload) = Inr demo_cached"
    by code_simp
  moreover have "ol_decode demo_lib ([7, 57] @ demo_payload) = Some demo_payload"
    by (simp add: demo_lib_def)
  moreover have "starts_with ([7, 57] @ demo_payload) (ol_wire_magic demo_lib)"
    by code_simp
  moreover have "\<not> starts_with ([7, 57] @ demo_payload) CANONICAL_LIVE_SLOT_MAGIC"
    by code_simp
  moreover have "[7, 57] @ demo_payload = [7, 57] @ ol_payload demo_lib demo_payload"
    by (simp add: demo_lib_def)
  moreover have "ol_stream demo_lib demo_payload = decimal (unat (9 :: u64))"
    by code_simp
  ultimately have "decode_for_stream demo_lib demo_cached 9 = decode_for_stream demo_lib ([7, 57] @ demo_payload) 9"
    by (rule canonical_slot_equivalent [THEN conjunct1])
  moreover have "decode_for_stream demo_lib demo_cached 9 = SlotFmp4 (Some [200]) [10, 11]"
    by code_simp
  ultimately show ?thesis by blast
qed

text \<open>A slot of initialization and fragment decodes to them, with an empty initialization read as
  none, and a payload decodes as such a slot only if it is the encoding of what it decodes to.\<close>

theorem fmp4_slot_round_trip:
  "(encode_fmp4_slot init media = Inr b \<longrightarrow>
      decode_fmp4_slot b = Some (SlotFmp4 (if init = [] then None else Some init) media)) \<and>
   (decode_fmp4_slot b = Some s \<longrightarrow>
      (\<exists>init media. s = SlotFmp4 (if init = [] then None else Some init) media \<and>
         encode_fmp4_slot init media = Inr b))"
  using decode_encode_fmp4 decode_fmp4_slot_Some by blast

text \<open>a bundle is read exactly when it is the header of a supported codec with one track and
  at least one epoch, followed by one entry of the declared group for each epoch and nothing else; what
  is read are the frames in order.\<close>

theorem soundkit_bundle_exact:
  assumes "length payload \<le> u64_max"
  shows "read_bundle payload = Inr (codec, n, framed) \<longleftrightarrow>
    (\<exists>g fs. payload = bundle_bytes codec g fs \<and> 0 < length fs \<and> (\<forall>f \<in> set fs. length f < 2 ^ 32) \<and>
      n = length fs \<and> framed = concat fs)" (is "?l \<longleftrightarrow> ?r")
proof
  assume ?l
  define g where "g = (from_be (slice 17 2 payload) :: u16)"
  have h: "0 < n" "21 \<le> length payload" "starts_with payload SOUNDKIT_V2_BUNDLE_MAGIC" "payload ! 8 = codec_tag codec"
    "n = unat (from_be (slice 9 8 payload) :: u64)" "(from_be (slice 19 2 payload) :: u16) = 1"
    and read: "read_epochs payload g n 0 21 [] = Inr (length payload, framed)"
    using \<open>?l\<close> unfolding read_bundle_def g_def
    by (auto simp: Let_def SOUNDKIT_V2_BUNDLE_HEADER_LEN_def codec_of_tag [symmetric] split: if_splits option.splits sum.splits)
  obtain fs where fs: "length fs = n" "\<forall>f \<in> set fs. length f < 2 ^ 32" "framed = concat fs"
      "drop 21 payload = concat (map (bundle_entry g) fs)"
    using read_epochs_sound [OF read] by (auto simp: slice_def)
  have "payload = bundle_bytes codec g fs"
    using bundle_header [OF h(2,3)] fs(4) by (simp add: bundle_bytes_def h g_def fs(1))
  then show ?r using fs(1-3) h(1) by blast
next
  assume ?r
  then obtain g fs where fs: "payload = bundle_bytes codec g fs" "0 < length fs"
      "\<forall>f \<in> set fs. length f < 2 ^ 32" "n = length fs" "framed = concat fs" by blast
  have "length fs < 2 ^ 64"
    using assms entries_count [of fs g] by (simp add: fs(1) bundle_bytes_def u64_max_def)
  note b = bundle_fields [OF this, of codec g, folded fs(1)]
  have "read_epochs payload g n 0 21 [] = Inr (length payload, framed)"
    using read_epochs_complete [OF assms, of 21 g fs "[]" 0 "[]"] b(2,7) fs(3-5) by simp
  then show ?l
    using b fs(2,4) by (cases codec) (simp_all add: read_bundle_def SOUNDKIT_V2_BUNDLE_HEADER_LEN_def)
qed

theorem soundkit_bundle_exact_witness:
  "read_bundle (bundle_bytes Opus 3 [[1, 2], [], [4]]) = Inr (Opus, 3, [1, 2, 4])"
proof -
  have "length (bundle_bytes Opus 3 [[1, 2], [], [4]]) \<le> u64_max"
    by code_simp
  moreover have "\<exists>g fs. bundle_bytes Opus 3 [[1, 2], [], [4]] = bundle_bytes Opus g fs \<and> 0 < length fs \<and>
      (\<forall>f \<in> set fs. length f < 2 ^ 32) \<and> (3 :: nat) = length fs \<and> [1, 2, 4] = concat fs"
    by (intro exI [of _ 3] exI [of _ "[[1, 2], [], [4]]"]) simp
  ultimately show ?thesis
    using soundkit_bundle_exact [THEN iffD2] by blast
qed

end
