(* ===== verification/Replica_Placement.thy ===== *)
theory Replica_Placement
  imports Mesh_Prelude
begin

text \<open>
  The placement of stream replicas, \<open>src/src/replication.rs\<close>: a policy stages copies of a stream on mesh
  nodes, first so many per continent, then so many per region, then one wherever demand is hot.

  Scores and distances are \<open>f64\<close> arithmetic with trigonometric functions whose precision Rust leaves to
  the platform, so the operations on \<open>f64\<close> are the record \<open>f64_ops\<close> and every statement holds for any of
  them. A hash set is the list of its elements in order of insertion and a hash map an association list;
  the orders in which they are iterated are the functions \<open>pe_ids\<close> and \<open>pe_demand\<close>. Counts of 64 bits
  are natural numbers; the one sum that may wrap does so as in a release build.
\<close>

section \<open>Floating point and iteration orders\<close>

datatype cmp_ordering = Less | Equal | Greater

text \<open>\<open>f_lit m e\<close> is the literal with the digits of \<open>m\<close>, the last \<open>e\<close> of them after the point.\<close>

record 'f f64_ops =
  f_lit :: "nat \<Rightarrow> nat \<Rightarrow> 'f"
  f_of_u64 :: "nat \<Rightarrow> 'f"
  f_infinity :: 'f
  f_add :: "'f \<Rightarrow> 'f \<Rightarrow> 'f"
  f_sub :: "'f \<Rightarrow> 'f \<Rightarrow> 'f"
  f_mul :: "'f \<Rightarrow> 'f \<Rightarrow> 'f"
  f_div :: "'f \<Rightarrow> 'f \<Rightarrow> 'f"
  f_min :: "'f \<Rightarrow> 'f \<Rightarrow> 'f"
  f_ge :: "'f \<Rightarrow> 'f \<Rightarrow> bool"
  f_partial_cmp :: "'f \<Rightarrow> 'f \<Rightarrow> cmp_ordering option"
  f_to_radians :: "'f \<Rightarrow> 'f"
  f_sin :: "'f \<Rightarrow> 'f"
  f_cos :: "'f \<Rightarrow> 'f"
  f_sqrt :: "'f \<Rightarrow> 'f"
  f_asin :: "'f \<Rightarrow> 'f"
  f_powi :: "'f \<Rightarrow> nat \<Rightarrow> 'f"

record 'f demand_totals =
  dt_active_readers :: nat
  dt_reads_per_sec :: 'f

record 'f plan_env =
  pe_f64 :: "'f f64_ops"
  pe_ids :: "string list \<Rightarrow> string list"
  pe_demand :: "((string \<times> string) \<times> 'f demand_totals) list \<Rightarrow> ((string \<times> string) \<times> 'f demand_totals) list"

section \<open>Data\<close>

record 'f mesh_node =
  mn_node_id :: string
  mn_region :: string
  mn_continent :: string
  mn_latitude :: 'f
  mn_longitude :: 'f
  mn_total_storage_bytes :: nat
  mn_used_storage_bytes :: nat
  mn_egress_capacity_bps :: nat
  mn_contributor_streams :: nat
  mn_active_streams :: nat
  mn_draining :: bool

record stream_info =
  si_stream_id :: u64
  si_bytes :: nat
  si_contributor_node_id :: "string option"
  si_active :: bool

record 'f demand_signal =
  ds_stream_id :: u64
  ds_requester_node_id :: string
  ds_region :: string
  ds_continent :: string
  ds_active_readers :: nat
  ds_reads_per_sec :: 'f
  ds_observed_unix_ms :: nat

record 'f replication_policy =
  rp_baseline_per_region :: nat
  rp_baseline_per_continent :: nat
  rp_demand_reads_per_sec :: 'f
  rp_demand_active_readers :: nat
  rp_min_mirror_distance_km :: 'f
  rp_max_new_replicas_per_plan :: nat

definition replication_policy_default :: "'f f64_ops \<Rightarrow> 'f replication_policy" where
  "replication_policy_default F = \<lparr> rp_baseline_per_region = 0, rp_baseline_per_continent = 1,
     rp_demand_reads_per_sec = f_lit F 100 1, rp_demand_active_readers = 50,
     rp_min_mirror_distance_km = f_lit F 3000 1, rp_max_new_replicas_per_plan = 32 \<rparr>"

datatype replica_reason =
    BaselineRegion string
  | BaselineContinent string
  | DemandRegion string
  | DemandContinent string

record 'f replica_placement =
  pl_stream_id :: u64
  pl_target_node_id :: string
  pl_reason :: replica_reason
  pl_score :: 'f

datatype replica_scope = Region string | Continent string

definition available_storage_bytes :: "'f mesh_node \<Rightarrow> nat" where
  "available_storage_bytes node = sat_sub (mn_total_storage_bytes node) (mn_used_storage_bytes node)"

definition storage_utilization :: "'f f64_ops \<Rightarrow> 'f mesh_node \<Rightarrow> 'f" where
  "storage_utilization F node =
     (if mn_total_storage_bytes node = 0 then f_lit F 10 1
      else f_div F (f_of_u64 F (mn_used_storage_bytes node)) (f_of_u64 F (mn_total_storage_bytes node)))"

definition can_store :: "'f mesh_node \<Rightarrow> stream_info \<Rightarrow> bool" where
  "can_store node stream \<longleftrightarrow> \<not> mn_draining node \<and> si_bytes stream \<le> available_storage_bytes node"

section \<open>Distances and scores\<close>

definition distance_km :: "'f f64_ops \<Rightarrow> 'f mesh_node \<Rightarrow> 'f mesh_node \<Rightarrow> 'f" where
  "distance_km F left right =
     (let earth_radius_km = f_lit F 63710 1;
          d_lat = f_to_radians F (f_sub F (mn_latitude right) (mn_latitude left));
          d_lon = f_to_radians F (f_sub F (mn_longitude right) (mn_longitude left));
          lat1 = f_to_radians F (mn_latitude left);
          lat2 = f_to_radians F (mn_latitude right);
          two = f_lit F 20 1;
          a = f_add F (f_powi F (f_sin F (f_div F d_lat two)) 2)
                (f_mul F (f_mul F (f_cos F lat1) (f_cos F lat2)) (f_powi F (f_sin F (f_div F d_lon two)) 2))
      in f_mul F (f_mul F two earth_radius_km) (f_asin F (f_sqrt F a)))"

definition min_distance_to_node_refs :: "'f f64_ops \<Rightarrow> 'f mesh_node \<Rightarrow> 'f mesh_node list \<Rightarrow> 'f" where
  "min_distance_to_node_refs F node replicas =
     foldl (f_min F) (f_infinity F) (map (distance_km F node) replicas)"

definition score_candidate_against_refs :: "'f f64_ops \<Rightarrow> 'f mesh_node \<Rightarrow> 'f mesh_node list \<Rightarrow> 'f" where
  "score_candidate_against_refs F node replicas =
     (let free_ratio = (if mn_total_storage_bytes node = 0 then f_lit F 0 1
            else f_div F (f_of_u64 F (available_storage_bytes node)) (f_of_u64 F (mn_total_storage_bytes node)));
          throughput_score = f_div F (f_min F (f_div F (f_of_u64 F (mn_egress_capacity_bps node))
            (f_lit F 10000000000 1)) (f_lit F 100 1)) (f_lit F 100 1);
          load_penalty = f_mul F (f_of_u64 F ((mn_active_streams node + mn_contributor_streams node) mod 2 ^ 64))
            (f_lit F 1 3);
          distance_score = f_min F (f_div F (min_distance_to_node_refs F node replicas) (f_lit F 100000 1)) (f_lit F 10 1)
      in f_sub F (f_add F (f_add F (f_mul F free_ratio (f_lit F 50 2)) (f_mul F throughput_score (f_lit F 20 2)))
           (f_mul F distance_score (f_lit F 30 2))) load_penalty)"

definition node_by_id :: "'f mesh_node list \<Rightarrow> string \<Rightarrow> 'f mesh_node option" where
  "node_by_id nodes node_id = find (\<lambda>node. mn_node_id node = node_id) nodes"

definition nodes_of :: "'f mesh_node list \<Rightarrow> string list \<Rightarrow> 'f mesh_node list" where
  "nodes_of nodes ids = List.map_filter (node_by_id nodes) ids"

definition score_candidate ::
  "'f f64_ops \<Rightarrow> 'f mesh_node \<Rightarrow> 'f mesh_node list \<Rightarrow> 'f replica_placement list \<Rightarrow> 'f mesh_node list \<Rightarrow> 'f" where
  "score_candidate F node existing selected nodes =
     score_candidate_against_refs F node (existing @ nodes_of nodes (map pl_target_node_id selected))"

section \<open>Candidates\<close>

fun scope_matches :: "'f mesh_node \<Rightarrow> replica_scope \<Rightarrow> bool" where
  "scope_matches node (Region region) \<longleftrightarrow> mn_region node = region"
| "scope_matches node (Continent continent) \<longleftrightarrow> mn_continent node = continent"

definition count_replicas_in_scope ::
  "'f mesh_node list \<Rightarrow> string list \<Rightarrow> string list \<Rightarrow> replica_scope \<Rightarrow> nat" where
  "count_replicas_in_scope nodes existing_replicas selected_ids scope =
     length (filter (\<lambda>node. mn_node_id node \<in> set existing_replicas \<or> mn_node_id node \<in> set selected_ids)
       (filter (\<lambda>node. scope_matches node scope) nodes))"

definition has_replica_in_scope ::
  "'f mesh_node list \<Rightarrow> string list \<Rightarrow> string list \<Rightarrow> replica_scope \<Rightarrow> bool" where
  "has_replica_in_scope nodes existing_replicas selected_ids scope \<longleftrightarrow>
     0 < count_replicas_in_scope nodes existing_replicas selected_ids scope"

text \<open>\<open>Iterator::max_by\<close>: of equal elements the later one.\<close>

fun max_by :: "('a \<Rightarrow> 'a \<Rightarrow> cmp_ordering) \<Rightarrow> 'a list \<Rightarrow> 'a option" where
  "max_by compare [] = None"
| "max_by compare (x # xs) = Some (foldl (\<lambda>x y. if compare x y = Greater then x else y) x xs)"

definition candidates ::
  "stream_info \<Rightarrow> 'f mesh_node list \<Rightarrow> string list \<Rightarrow> string list \<Rightarrow> replica_scope \<Rightarrow> 'f mesh_node list" where
  "candidates stream nodes existing_replicas selected_ids scope =
     filter (\<lambda>node. can_store node stream)
       (filter (\<lambda>node. mn_node_id node \<notin> set selected_ids)
         (filter (\<lambda>node. mn_node_id node \<notin> set existing_replicas)
           (filter (\<lambda>node. scope_matches node scope) nodes)))"

definition far_enough :: "'f f64_ops \<Rightarrow> 'f replication_policy \<Rightarrow> 'f mesh_node list \<Rightarrow> 'f mesh_node \<Rightarrow> bool" where
  "far_enough F policy replicas node =
     f_ge F (min_distance_to_node_refs F node replicas) (rp_min_mirror_distance_km policy)"

definition compare_scores :: "'f f64_ops \<Rightarrow> 'f mesh_node list \<Rightarrow> 'f mesh_node \<Rightarrow> 'f mesh_node \<Rightarrow> cmp_ordering" where
  "compare_scores F replicas left right =
     (case f_partial_cmp F (score_candidate_against_refs F left replicas)
             (score_candidate_against_refs F right replicas) of
        None \<Rightarrow> Equal | Some c \<Rightarrow> c)"

definition choose_candidate ::
  "'f plan_env \<Rightarrow> 'f replication_policy \<Rightarrow> stream_info \<Rightarrow> 'f mesh_node list \<Rightarrow> string list \<Rightarrow> string list
     \<Rightarrow> replica_scope \<Rightarrow> 'f mesh_node list \<Rightarrow> 'f mesh_node option" where
  "choose_candidate env policy stream nodes existing_replicas selected_ids scope existing =
     (let F = pe_f64 env;
          cs = candidates stream nodes existing_replicas selected_ids scope;
          replicas = existing @ nodes_of nodes (pe_ids env selected_ids);
          far = filter (far_enough F policy replicas) cs;
          pool = (if far = [] then cs else far)
      in max_by (compare_scores F replicas) pool)"

section \<open>Planning\<close>

definition hash_insert :: "'a \<Rightarrow> 'a list \<Rightarrow> 'a list" where
  "hash_insert x xs = (if x \<in> set xs then xs else xs @ [x])"

text \<open>The state of a plan: the set of selected identities and the placements so far. \<open>added\<close> is the
  answer of the loop.\<close>

type_synonym 'f plan_state = "string list \<times> 'f replica_placement list"

function fill_loop ::
  "'f plan_env \<Rightarrow> 'f replication_policy \<Rightarrow> stream_info \<Rightarrow> 'f mesh_node list \<Rightarrow> string list \<Rightarrow> replica_scope
     \<Rightarrow> nat \<Rightarrow> replica_reason \<Rightarrow> 'f mesh_node list \<Rightarrow> bool \<Rightarrow> string list \<Rightarrow> 'f replica_placement list
     \<Rightarrow> bool \<times> 'f plan_state" where
  "fill_loop env policy stream nodes existing_replicas scope target_count reason existing added ids selected =
     (if count_replicas_in_scope nodes existing_replicas ids scope < target_count \<and>
         length selected < rp_max_new_replicas_per_plan policy
      then (case choose_candidate env policy stream nodes existing_replicas ids scope existing of
              None \<Rightarrow> (added, ids, selected)
            | Some candidate \<Rightarrow>
                fill_loop env policy stream nodes existing_replicas scope target_count reason existing True
                  (hash_insert (mn_node_id candidate) ids)
                  (selected @ [\<lparr> pl_stream_id = si_stream_id stream, pl_target_node_id = mn_node_id candidate,
                     pl_reason = reason,
                     pl_score = score_candidate (pe_f64 env) candidate existing selected nodes \<rparr>]))
      else (added, ids, selected))"
  by pat_completeness auto
termination
  by (relation "measure (\<lambda>(_, policy, _, _, _, _, _, _, _, _, _, selected).
        rp_max_new_replicas_per_plan policy - length selected)") auto

declare fill_loop.simps [simp del]

definition fill_scope ::
  "'f plan_env \<Rightarrow> 'f replication_policy \<Rightarrow> stream_info \<Rightarrow> 'f mesh_node list \<Rightarrow> string list \<Rightarrow> replica_scope
     \<Rightarrow> nat \<Rightarrow> replica_reason \<Rightarrow> 'f plan_state \<Rightarrow> bool \<times> 'f plan_state" where
  "fill_scope env policy stream nodes existing_replicas scope target_count reason st =
     fill_loop env policy stream nodes existing_replicas scope target_count reason
       (nodes_of nodes existing_replicas) False (fst st) (snd st)"

definition ordered_counts :: "string list \<Rightarrow> (string \<times> nat) list" where
  "ordered_counts values = foldl (\<lambda>counts value. bput value (get_or 0 counts value + 1) counts) [] values"

text \<open>The loops over the continents and over the regions of the nodes.\<close>

fun fill_keys ::
  "'f plan_env \<Rightarrow> 'f replication_policy \<Rightarrow> stream_info \<Rightarrow> 'f mesh_node list \<Rightarrow> string list
     \<Rightarrow> (string \<Rightarrow> replica_scope) \<Rightarrow> nat \<Rightarrow> (string \<Rightarrow> replica_reason) \<Rightarrow> string list \<Rightarrow> 'f plan_state \<Rightarrow> 'f plan_state" where
  "fill_keys env policy stream nodes existing_replicas scope target_count reason [] st = st"
| "fill_keys env policy stream nodes existing_replicas scope target_count reason (key # ks) st =
     fill_keys env policy stream nodes existing_replicas scope target_count reason ks
       (snd (fill_scope env policy stream nodes existing_replicas (scope key) target_count (reason key) st))"

definition add_demand :: "'f f64_ops \<Rightarrow> 'f demand_totals \<Rightarrow> 'f demand_signal \<Rightarrow> 'f demand_totals" where
  "add_demand F totals signal =
     \<lparr> dt_active_readers = sat_add (dt_active_readers totals) (ds_active_readers signal),
       dt_reads_per_sec = f_add F (dt_reads_per_sec totals) (ds_reads_per_sec signal) \<rparr>"

definition demand_by_region ::
  "'f f64_ops \<Rightarrow> stream_info \<Rightarrow> 'f demand_signal list \<Rightarrow> ((string \<times> string) \<times> 'f demand_totals) list" where
  "demand_by_region F stream demand =
     foldl (\<lambda>m signal. let key = (ds_region signal, ds_continent signal) in
         tput key (add_demand F (get_or \<lparr> dt_active_readers = 0, dt_reads_per_sec = f_lit F 0 1 \<rparr> m key) signal) m)
       [] (filter (\<lambda>signal. ds_stream_id signal = si_stream_id stream) demand)"

definition demand_is_hot :: "'f f64_ops \<Rightarrow> 'f replication_policy \<Rightarrow> 'f demand_totals \<Rightarrow> bool" where
  "demand_is_hot F policy totals \<longleftrightarrow>
     f_ge F (dt_reads_per_sec totals) (rp_demand_reads_per_sec policy) \<or>
     rp_demand_active_readers policy \<le> dt_active_readers totals"

definition fill_continent_demand ::
  "'f plan_env \<Rightarrow> 'f replication_policy \<Rightarrow> stream_info \<Rightarrow> 'f mesh_node list \<Rightarrow> string list \<Rightarrow> string
     \<Rightarrow> 'f plan_state \<Rightarrow> 'f plan_state" where
  "fill_continent_demand env policy stream nodes existing_replicas continent st =
     (if has_replica_in_scope nodes existing_replicas (fst st) (Continent continent) then st
      else snd (fill_scope env policy stream nodes existing_replicas (Continent continent) 1
                  (DemandContinent continent) st))"

definition fill_demand ::
  "'f plan_env \<Rightarrow> 'f replication_policy \<Rightarrow> stream_info \<Rightarrow> 'f mesh_node list \<Rightarrow> string list
     \<Rightarrow> (string \<times> string) \<times> 'f demand_totals \<Rightarrow> 'f plan_state \<Rightarrow> 'f plan_state" where
  "fill_demand env policy stream nodes existing_replicas entry st =
     (case entry of ((region, continent), totals) \<Rightarrow>
        if \<not> demand_is_hot (pe_f64 env) policy totals then st
        else if has_replica_in_scope nodes existing_replicas (fst st) (Region region)
        then fill_continent_demand env policy stream nodes existing_replicas continent st
        else (case fill_scope env policy stream nodes existing_replicas (Region region) 1
                     (DemandRegion region) st of
                (True, st') \<Rightarrow> st'
              | (False, st') \<Rightarrow> fill_continent_demand env policy stream nodes existing_replicas continent st'))"

definition plan_baseline ::
  "'f plan_env \<Rightarrow> 'f replication_policy \<Rightarrow> stream_info \<Rightarrow> 'f mesh_node list \<Rightarrow> string list \<Rightarrow> 'f plan_state" where
  "plan_baseline env policy stream nodes existing_replicas =
     (let st0 = ([], []);
          st1 = (if 0 < rp_baseline_per_continent policy
                 then fill_keys env policy stream nodes existing_replicas Continent
                        (rp_baseline_per_continent policy) BaselineContinent
                        (keys (ordered_counts (map mn_continent nodes))) st0
                 else st0)
      in if 0 < rp_baseline_per_region policy
         then fill_keys env policy stream nodes existing_replicas Region
                (rp_baseline_per_region policy) BaselineRegion
                (keys (ordered_counts (map mn_region nodes))) st1
         else st1)"

definition plan_replicas ::
  "'f plan_env \<Rightarrow> 'f replication_policy \<Rightarrow> stream_info \<Rightarrow> 'f mesh_node list \<Rightarrow> string list
     \<Rightarrow> 'f demand_signal list \<Rightarrow> 'f replica_placement list" where
  "plan_replicas env policy stream nodes existing_replicas demand =
     snd (fold (fill_demand env policy stream nodes existing_replicas)
            (pe_demand env (demand_by_region (pe_f64 env) stream demand))
            (plan_baseline env policy stream nodes existing_replicas))"

end
