(* ===== verification/Replica_Properties.thy ===== *)
theory Replica_Properties
  imports Replica_Placement
begin

text \<open>
  The replica planner is correct: every placement is justified when it is made, and at the end every
  continent, every region and every hot spot of demand has its copies unless the plan is full or nothing
  eligible is left. Nothing is assumed of the floating-point operations, and of the iteration order of
  the demand table only that it visits exactly its entries.
\<close>

section \<open>Scopes and what they still lack\<close>

fun reason_scope :: "replica_reason \<Rightarrow> replica_scope" where
  "reason_scope (BaselineRegion region) = Region region"
| "reason_scope (BaselineContinent continent) = Continent continent"
| "reason_scope (DemandRegion region) = Region region"
| "reason_scope (DemandContinent continent) = Continent continent"

fun reason_target :: "'f replication_policy \<Rightarrow> replica_reason \<Rightarrow> nat" where
  "reason_target policy (BaselineRegion _) = rp_baseline_per_region policy"
| "reason_target policy (BaselineContinent _) = rp_baseline_per_continent policy"
| "reason_target policy _ = 1"

text \<open>A scope has its copies, or the plan is full, or no candidate is left.\<close>

definition supplied ::
  "'f replication_policy \<Rightarrow> stream_info \<Rightarrow> 'f mesh_node list \<Rightarrow> string list \<Rightarrow> replica_scope \<Rightarrow> nat \<Rightarrow> 'f plan_state \<Rightarrow> bool" where
  "supplied policy stream nodes ex scope target st \<longleftrightarrow>
     target \<le> count_replicas_in_scope nodes ex (fst st) scope \<or>
     rp_max_new_replicas_per_plan policy \<le> length (snd st) \<or> candidates stream nodes ex (fst st) scope = []"

definition demand_supplied ::
  "'f replication_policy \<Rightarrow> stream_info \<Rightarrow> 'f mesh_node list \<Rightarrow> string list \<Rightarrow> string \<times> string \<Rightarrow> 'f plan_state \<Rightarrow> bool" where
  "demand_supplied policy stream nodes ex key st \<longleftrightarrow>
     has_replica_in_scope nodes ex (fst st) (Region (fst key)) \<or>
     has_replica_in_scope nodes ex (fst st) (Continent (snd key)) \<or>
     rp_max_new_replicas_per_plan policy \<le> length (snd st) \<or>
     (candidates stream nodes ex (fst st) (Region (fst key)) = [] \<and>
      candidates stream nodes ex (fst st) (Continent (snd key)) = [])"

definition plan_le :: "'f plan_state \<Rightarrow> 'f plan_state \<Rightarrow> bool" where
  "plan_le st st' \<longleftrightarrow> set (fst st) \<subseteq> set (fst st') \<and> length (snd st) \<le> length (snd st')"

lemma plan_le_refl [simp]: "plan_le st st"
  by (simp add: plan_le_def)

lemma plan_le_trans: "plan_le a b \<Longrightarrow> plan_le b c \<Longrightarrow> plan_le a c"
  by (auto simp: plan_le_def)

lemma in_candidates:
  "n \<in> set (candidates stream nodes ex ids scope) \<longleftrightarrow>
     n \<in> set nodes \<and> scope_matches n scope \<and> mn_node_id n \<notin> set ex \<and> mn_node_id n \<notin> set ids \<and> can_store n stream"
  by (auto simp: candidates_def)

lemma candidates_shrink:
  assumes "set ids \<subseteq> set ids'" "candidates stream nodes ex ids scope = []"
  shows "candidates stream nodes ex ids' scope = []"
proof -
  have "set (candidates stream nodes ex ids' scope) \<subseteq> set (candidates stream nodes ex ids scope)"
    using assms(1) by (auto simp: in_candidates)
  then show ?thesis using assms(2) by simp
qed

lemma count_grows:
  assumes "set ids \<subseteq> set ids'"
  shows "count_replicas_in_scope nodes ex ids scope \<le> count_replicas_in_scope nodes ex ids' scope"
  using assms unfolding count_replicas_in_scope_def
  by (induction nodes) (auto intro: le_SucI)

lemma has_replica_iff:
  "has_replica_in_scope nodes ex ids scope \<longleftrightarrow>
     (\<exists>n \<in> set nodes. scope_matches n scope \<and> (mn_node_id n \<in> set ex \<or> mn_node_id n \<in> set ids))"
  by (auto simp: has_replica_in_scope_def count_replicas_in_scope_def length_greater_0_conv filter_empty_conv)

lemma has_replica_grows:
  "has_replica_in_scope nodes ex ids scope \<Longrightarrow> set ids \<subseteq> set ids' \<Longrightarrow> has_replica_in_scope nodes ex ids' scope"
  by (auto simp: has_replica_iff)

lemma supplied_mono:
  assumes "supplied policy stream nodes ex scope target st" "plan_le st st'"
  shows "supplied policy stream nodes ex scope target st'"
  using assms count_grows [of "fst st" "fst st'" nodes ex scope] candidates_shrink [of "fst st" "fst st'" stream nodes ex scope]
  unfolding supplied_def plan_le_def by (meson le_trans)

lemma demand_supplied_mono:
  assumes "demand_supplied policy stream nodes ex key st" "plan_le st st'"
  shows "demand_supplied policy stream nodes ex key st'"
  using assms candidates_shrink has_replica_grows unfolding demand_supplied_def plan_le_def by (meson le_trans)

section \<open>One candidate\<close>

lemma fold_choice_in: "foldl (\<lambda>x y. if P x y then x else y) x xs \<in> insert x (set xs)"
proof (induction xs arbitrary: x)
  case (Cons y ys)
  show ?case using Cons.IH [of x] Cons.IH [of y] by auto
qed simp

lemma max_by_in: "max_by compare xs = Some x \<Longrightarrow> x \<in> set xs"
  using fold_choice_in [of "\<lambda>x y. compare x y = Greater"] by (cases xs) auto

lemma max_by_None [simp]: "max_by compare xs = None \<longleftrightarrow> xs = []"
  by (cases xs) simp_all

definition replica_nodes :: "'f plan_env \<Rightarrow> 'f mesh_node list \<Rightarrow> string list \<Rightarrow> string list \<Rightarrow> 'f mesh_node list" where
  "replica_nodes env nodes ex ids = nodes_of nodes ex @ nodes_of nodes (pe_ids env ids)"

lemma choose_candidate_Some:
  assumes "choose_candidate env policy stream nodes ex ids scope (nodes_of nodes ex) = Some n"
  shows "n \<in> set (candidates stream nodes ex ids scope)"
    and "(\<exists>m \<in> set (candidates stream nodes ex ids scope). far_enough (pe_f64 env) policy (replica_nodes env nodes ex ids) m) \<Longrightarrow>
      far_enough (pe_f64 env) policy (replica_nodes env nodes ex ids) n"
proof -
  let ?cs = "candidates stream nodes ex ids scope"
  let ?far = "filter (far_enough (pe_f64 env) policy (replica_nodes env nodes ex ids)) ?cs"
  have n: "n \<in> set (if ?far = [] then ?cs else ?far)"
    using assms unfolding choose_candidate_def Let_def replica_nodes_def by (rule max_by_in)
  then show "n \<in> set ?cs" by (auto split: if_splits)
  assume "\<exists>m \<in> set ?cs. far_enough (pe_f64 env) policy (replica_nodes env nodes ex ids) m"
  then have "?far \<noteq> []" by (simp add: filter_empty_conv)
  then show "far_enough (pe_f64 env) policy (replica_nodes env nodes ex ids) n"
    using n by simp
qed

lemma choose_candidate_None:
  "choose_candidate env policy stream nodes ex ids scope existing = None \<longleftrightarrow> candidates stream nodes ex ids scope = []"
  by (auto simp: choose_candidate_def Let_def)

section \<open>Justified placements\<close>

text \<open>A placement \<open>p\<close> after the placements \<open>pre\<close>: the target is a node of the scope that is not a
  replica yet, is not draining and has the room; it keeps the mirror distance if any such node does;
  the scope lacks copies and the plan has room. \<open>hot\<close> tells for which reasons there is demand.\<close>

definition placement_justified ::
  "'f plan_env \<Rightarrow> 'f replication_policy \<Rightarrow> stream_info \<Rightarrow> 'f mesh_node list \<Rightarrow> string list
     \<Rightarrow> (replica_reason \<Rightarrow> bool) \<Rightarrow> 'f replica_placement list \<Rightarrow> 'f replica_placement \<Rightarrow> bool" where
  "placement_justified env policy stream nodes ex hot pre p \<longleftrightarrow>
     (let ids = map pl_target_node_id pre;
          far = far_enough (pe_f64 env) policy (replica_nodes env nodes ex ids);
          eligible = (\<lambda>n. n \<in> set nodes \<and> scope_matches n (reason_scope (pl_reason p)) \<and>
            mn_node_id n \<notin> set ex \<and> mn_node_id n \<notin> set ids \<and> \<not> mn_draining n \<and>
            si_bytes stream \<le> available_storage_bytes n)
      in (\<exists>n. eligible n \<and> mn_node_id n = pl_target_node_id p \<and> ((\<exists>m. eligible m \<and> far m) \<longrightarrow> far n)) \<and>
         count_replicas_in_scope nodes ex ids (reason_scope (pl_reason p)) < reason_target policy (pl_reason p) \<and>
         length pre < rp_max_new_replicas_per_plan policy \<and> pl_stream_id p = si_stream_id stream \<and> hot (pl_reason p))"

definition plan_ok ::
  "'f plan_env \<Rightarrow> 'f replication_policy \<Rightarrow> stream_info \<Rightarrow> 'f mesh_node list \<Rightarrow> string list
     \<Rightarrow> (replica_reason \<Rightarrow> bool) \<Rightarrow> 'f plan_state \<Rightarrow> bool" where
  "plan_ok env policy stream nodes ex hot st \<longleftrightarrow>
     fst st = map pl_target_node_id (snd st) \<and>
     (\<forall>pre p post. snd st = pre @ p # post \<longrightarrow> placement_justified env policy stream nodes ex hot pre p)"

lemma plan_ok_Nil [simp]: "plan_ok env policy stream nodes ex hot ([], [])"
  by (simp add: plan_ok_def)

lemma plan_ok_snoc:
  assumes "plan_ok env policy stream nodes ex hot (ids, sel)"
    and "placement_justified env policy stream nodes ex hot sel p"
  shows "plan_ok env policy stream nodes ex hot (hash_insert (pl_target_node_id p) ids, sel @ [p])"
proof -
  have ids: "ids = map pl_target_node_id sel"
    using assms(1) by (simp add: plan_ok_def)
  have "pl_target_node_id p \<notin> set ids"
    using assms(2) unfolding ids placement_justified_def Let_def by metis
  moreover have "placement_justified env policy stream nodes ex hot pre q"
    if "sel @ [p] = pre @ q # post" for pre q post
    using that assms unfolding plan_ok_def by (cases post rule: rev_cases) auto
  ultimately show ?thesis
    by (simp add: plan_ok_def ids hash_insert_def)
qed

lemma chosen_justified:
  assumes "choose_candidate env policy stream nodes ex (map pl_target_node_id sel) (reason_scope reason) (nodes_of nodes ex) = Some n"
    and "count_replicas_in_scope nodes ex (map pl_target_node_id sel) (reason_scope reason) < reason_target policy reason"
    and "length sel < rp_max_new_replicas_per_plan policy" "hot reason"
  shows "placement_justified env policy stream nodes ex hot sel
    \<lparr> pl_stream_id = si_stream_id stream, pl_target_node_id = mn_node_id n, pl_reason = reason, pl_score = sc \<rparr>"
proof -
  note c = choose_candidate_Some [OF assms(1)]
  show ?thesis
    unfolding placement_justified_def Let_def
  proof (intro conjI exI [of _ n] impI)
    show "far_enough (pe_f64 env) policy (replica_nodes env nodes ex (map pl_target_node_id sel)) n"
      if "\<exists>m. (m \<in> set nodes \<and> scope_matches m (reason_scope (pl_reason
          \<lparr> pl_stream_id = si_stream_id stream, pl_target_node_id = mn_node_id n, pl_reason = reason, pl_score = sc \<rparr>)) \<and>
          mn_node_id m \<notin> set ex \<and> mn_node_id m \<notin> set (map pl_target_node_id sel) \<and> \<not> mn_draining m \<and>
          si_bytes stream \<le> available_storage_bytes m) \<and>
          far_enough (pe_f64 env) policy (replica_nodes env nodes ex (map pl_target_node_id sel)) m"
      using that c(2) by (auto simp: Bex_def in_candidates can_store_def)
  qed (use c(1) assms(2-4) in \<open>simp_all add: in_candidates can_store_def\<close>)
qed

section \<open>The filling loop\<close>

lemma subset_hash_insert: "set xs \<subseteq> set (hash_insert x xs)" "x \<in> set (hash_insert x xs)"
  by (auto simp: hash_insert_def)

lemma fill_loop_exact:
  assumes "fill_loop env policy stream nodes ex scope target reason (nodes_of nodes ex) added ids sel = (b, st)"
    and "added \<longrightarrow> has_replica_in_scope nodes ex ids scope"
  shows "supplied policy stream nodes ex scope target st \<and> plan_le (ids, sel) st \<and>
    (b \<longrightarrow> has_replica_in_scope nodes ex (fst st) scope) \<and>
    (scope = reason_scope reason \<and> target = reason_target policy reason \<and> hot reason \<and>
     plan_ok env policy stream nodes ex hot (ids, sel) \<longrightarrow> plan_ok env policy stream nodes ex hot st)"
  using assms
proof (induction env policy stream nodes ex scope target reason "nodes_of nodes ex" added ids sel rule: fill_loop.induct)
  case (1 env policy stream nodes ex scope target reason added ids sel)
  let ?more = "count_replicas_in_scope nodes ex ids scope < target \<and> length sel < rp_max_new_replicas_per_plan policy"
  let ?choice = "choose_candidate env policy stream nodes ex ids scope (nodes_of nodes ex)"
  show ?case
  proof (cases "\<exists>n. ?more \<and> ?choice = Some n")
    case False
    then have "st = (ids, sel)" "b = added"
      using "1.prems"(1) by (subst (asm) fill_loop.simps, auto split: if_splits option.splits)+
    moreover have "supplied policy stream nodes ex scope target (ids, sel)"
      using False choose_candidate_None [of env policy stream nodes ex ids scope "nodes_of nodes ex"]
      by (cases ?choice) (auto simp: supplied_def not_less)
    ultimately show ?thesis using "1.prems"(2) by simp
  next
    case True
    then obtain n where n: ?more "?choice = Some n" by blast
    let ?p = "\<lparr> pl_stream_id = si_stream_id stream, pl_target_node_id = mn_node_id n, pl_reason = reason,
      pl_score = score_candidate (pe_f64 env) n (nodes_of nodes ex) sel nodes \<rparr>"
    let ?ids = "hash_insert (mn_node_id n) ids"
    have rec: "fill_loop env policy stream nodes ex scope target reason (nodes_of nodes ex) True ?ids (sel @ [?p]) = (b, st)"
      using "1.prems"(1) n by (subst (asm) fill_loop.simps) simp
    have has: "has_replica_in_scope nodes ex ?ids scope"
      using choose_candidate_Some(1) [OF n(2)] subset_hash_insert(2) [of "mn_node_id n" ids]
      unfolding in_candidates has_replica_iff by blast
    have step: "plan_le (ids, sel) (?ids, sel @ [?p])"
      using subset_hash_insert(1) by (simp add: plan_le_def)
    have "plan_ok env policy stream nodes ex hot (?ids, sel @ [?p])"
      if "scope = reason_scope reason" "target = reason_target policy reason" "hot reason"
        "plan_ok env policy stream nodes ex hot (ids, sel)"
    proof -
      have ids: "ids = map pl_target_node_id sel" using that(4) by (simp add: plan_ok_def)
      show ?thesis
        using plan_ok_snoc [OF that(4), of ?p] n that(1-3)
          chosen_justified [of env policy stream nodes ex sel reason n hot] by (simp add: ids)
    qed
    then show ?thesis
      using "1.hyps" [OF n rec] has plan_le_trans [OF step] by blast
  qed
qed

lemma fill_scope_exact:
  assumes "fill_scope env policy stream nodes ex scope target reason st = (b, st')"
  shows "supplied policy stream nodes ex scope target st'" "plan_le st st'"
    "b \<Longrightarrow> has_replica_in_scope nodes ex (fst st') scope"
    "scope = reason_scope reason \<Longrightarrow> target = reason_target policy reason \<Longrightarrow> hot reason \<Longrightarrow>
     plan_ok env policy stream nodes ex hot st \<Longrightarrow> plan_ok env policy stream nodes ex hot st'"
  using fill_loop_exact [OF assms [unfolded fill_scope_def]] by simp_all

section \<open>The stages of a plan\<close>

lemma fill_keys_exact:
  "plan_le st (fill_keys env policy stream nodes ex scope target reason ks st) \<and>
    (\<forall>k \<in> set ks.
      supplied policy stream nodes ex (scope k) target (fill_keys env policy stream nodes ex scope target reason ks st)) \<and>
    ((\<forall>k. scope k = reason_scope (reason k) \<and> target = reason_target policy (reason k) \<and> hot (reason k)) \<and>
     plan_ok env policy stream nodes ex hot st \<longrightarrow>
     plan_ok env policy stream nodes ex hot (fill_keys env policy stream nodes ex scope target reason ks st))"
proof (induction ks arbitrary: st)
  case (Cons x xs)
  obtain b st' where f: "fill_scope env policy stream nodes ex (scope x) target (reason x) st = (b, st')"
    by (rule prod.exhaust)
  note e = fill_scope_exact [OF f]
  have step: "fill_keys env policy stream nodes ex scope target reason (x # xs) st =
      fill_keys env policy stream nodes ex scope target reason xs st'"
    by (simp add: f)
  show ?case
    unfolding step list.set ball_simps
    using Cons.IH [of st'] e(4) [of hot] plan_le_trans [OF e(2)] supplied_mono [OF e(1)] by blast
qed simp

lemma ordered_counts_snoc:
  "ordered_counts (vs @ [v]) = bput v (get_or 0 (ordered_counts vs) v + 1) (ordered_counts vs)"
  by (simp add: ordered_counts_def)

lemma ordered_counts_keys: "table_ok (ordered_counts vs) \<and> set (keys (ordered_counts vs)) = set vs"
proof (induction vs rule: rev_induct)
  case (snoc v vs)
  then show ?case
    by (auto simp: ordered_counts_snoc table_laws set_tdel image_iff)
qed (simp add: ordered_counts_def)

definition demanded :: "(string \<Rightarrow> string \<Rightarrow> bool) \<Rightarrow> replica_reason \<Rightarrow> bool" where
  "demanded P reason = (case reason of
     DemandRegion r \<Rightarrow> \<exists>c. P r c | DemandContinent c \<Rightarrow> \<exists>r. P r c | _ \<Rightarrow> True)"

lemma fill_demand_exact:
  fixes entry :: "(string \<times> string) \<times> 'f demand_totals"
  assumes "demand_is_hot (pe_f64 env) policy (snd entry) \<longrightarrow> P (fst (fst entry)) (snd (fst entry))"
  shows "plan_le st (fill_demand env policy stream nodes ex entry st)"
    "demand_is_hot (pe_f64 env) policy (snd entry) \<Longrightarrow>
       demand_supplied policy stream nodes ex (fst entry) (fill_demand env policy stream nodes ex entry st)"
    "plan_ok env policy stream nodes ex (demanded P) st \<Longrightarrow>
       plan_ok env policy stream nodes ex (demanded P) (fill_demand env policy stream nodes ex entry st)"
proof -
  obtain r c totals where entry: "entry = ((r, c), totals)" by (metis prod.exhaust)
  let ?rest = "fill_continent_demand env policy stream nodes ex c"
  have rest: "plan_le s (?rest s)"
    "supplied policy stream nodes ex (Region r) 1 s \<Longrightarrow> demand_supplied policy stream nodes ex (r, c) (?rest s)"
    "P r c \<Longrightarrow> plan_ok env policy stream nodes ex (demanded P) s \<Longrightarrow> plan_ok env policy stream nodes ex (demanded P) (?rest s)" for s
  proof -
    obtain b s' where f: "fill_scope env policy stream nodes ex (Continent c) 1 (DemandContinent c) s = (b, s')"
      by (rule prod.exhaust)
    note e = fill_scope_exact [OF f]
    show "plan_le s (?rest s)" using e(2) by (simp add: fill_continent_demand_def f del: One_nat_def)
    show "plan_ok env policy stream nodes ex (demanded P) (?rest s)" if "P r c" "plan_ok env policy stream nodes ex (demanded P) s"
      using that e(4) [of "demanded P"] by (auto simp: fill_continent_demand_def f demanded_def simp del: One_nat_def)
    show "demand_supplied policy stream nodes ex (r, c) (?rest s)" if "supplied policy stream nodes ex (Region r) 1 s"
      using that e(1) supplied_mono [OF that e(2)]
      by (auto simp: fill_continent_demand_def f demand_supplied_def supplied_def has_replica_in_scope_def
        simp del: One_nat_def)
  qed
  obtain b s' where f: "fill_scope env policy stream nodes ex (Region r) 1 (DemandRegion r) st = (b, s')"
    by (rule prod.exhaust)
  note e = fill_scope_exact [OF f]
  show "plan_le st (fill_demand env policy stream nodes ex entry st)"
    using e(2) rest(1) [of st] plan_le_trans [OF e(2) rest(1)] by (cases b) (auto simp: fill_demand_def entry f simp del: One_nat_def)
  show "demand_supplied policy stream nodes ex (fst entry) (fill_demand env policy stream nodes ex entry st)"
    if "demand_is_hot (pe_f64 env) policy (snd entry)"
    using that e(1,3) rest(2) [of s'] rest(2) [of st]
    by (cases b) (auto simp: fill_demand_def entry f demand_supplied_def [of policy stream nodes ex "(r, c)" s']
      supplied_def [of policy stream nodes ex "Region r" _ st] has_replica_in_scope_def simp del: One_nat_def)
  show "plan_ok env policy stream nodes ex (demanded P) (fill_demand env policy stream nodes ex entry st)"
    if "plan_ok env policy stream nodes ex (demanded P) st"
    using that assms e(4) [of "demanded P"] rest(3) [of st] rest(3) [of s']
    by (cases b) (auto simp: fill_demand_def entry f demanded_def simp del: One_nat_def)
qed

lemma fold_demand_exact:
  "plan_le st (fold (fill_demand env policy stream nodes ex) es st) \<and>
   (\<forall>e \<in> set es. demand_is_hot (pe_f64 env) policy (snd e) \<longrightarrow>
     demand_supplied policy stream nodes ex (fst e) (fold (fill_demand env policy stream nodes ex) es st)) \<and>
   ((\<forall>e \<in> set es. demand_is_hot (pe_f64 env) policy (snd e) \<longrightarrow> P (fst (fst e)) (snd (fst e))) \<and>
    plan_ok env policy stream nodes ex (demanded P) st \<longrightarrow>
    plan_ok env policy stream nodes ex (demanded P) (fold (fill_demand env policy stream nodes ex) es st))"
proof (induction es arbitrary: st)
  case (Cons e es)
  let ?st = "fill_demand env policy stream nodes ex e st"
  have step: "fold (fill_demand env policy stream nodes ex) (e # es) st = fold (fill_demand env policy stream nodes ex) es ?st"
    by simp
  have any: "demand_is_hot (pe_f64 env) policy (snd e) \<longrightarrow> True" by simp
  note d = fill_demand_exact(1,2) [where P = "\<lambda>_ _. True", OF any]
  show ?case
    unfolding step list.set ball_simps
    using Cons.IH [of ?st] plan_le_trans [OF d(1)] demand_supplied_mono [OF d(2)]
      fill_demand_exact(3) [of env policy e P stream nodes ex st] by blast
qed simp

section \<open>Demand per region\<close>

definition signals_in :: "stream_info \<Rightarrow> 'f demand_signal list \<Rightarrow> string \<times> string \<Rightarrow> 'f demand_signal list" where
  "signals_in stream demand key =
     filter (\<lambda>s. ds_stream_id s = si_stream_id stream \<and> (ds_region s, ds_continent s) = key) demand"

definition demand_at :: "'f f64_ops \<Rightarrow> stream_info \<Rightarrow> 'f demand_signal list \<Rightarrow> string \<times> string \<Rightarrow> 'f demand_totals" where
  "demand_at F stream demand key =
     foldl (add_demand F) \<lparr> dt_active_readers = 0, dt_reads_per_sec = f_lit F 0 1 \<rparr> (signals_in stream demand key)"

lemma demand_lookup:
  "table_ok (demand_by_region F stream demand) \<and>
   map_of (demand_by_region F stream demand) key =
     (if signals_in stream demand key = [] then None else Some (demand_at F stream demand key))"
proof (induction demand arbitrary: key rule: rev_induct)
  case Nil
  then show ?case by (simp add: demand_by_region_def signals_in_def)
next
  case (snoc s demand)
  let ?key = "(ds_region s, ds_continent s)"
  show ?case
  proof (cases "ds_stream_id s = si_stream_id stream")
    case False
    then have "demand_by_region F stream (demand @ [s]) = demand_by_region F stream demand"
      "signals_in stream (demand @ [s]) key = signals_in stream demand key"
      by (simp_all add: demand_by_region_def signals_in_def)
    then show ?thesis using snoc.IH [of key] by (simp add: demand_at_def)
  next
    case True
    let ?zero = "\<lparr> dt_active_readers = 0, dt_reads_per_sec = f_lit F 0 1 \<rparr>"
    have new: "demand_by_region F stream (demand @ [s]) =
        tput ?key (add_demand F (get_or ?zero (demand_by_region F stream demand) ?key) s) (demand_by_region F stream demand)"
      using True by (simp add: demand_by_region_def Let_def)
    have old: "get_or ?zero (demand_by_region F stream demand) ?key =
        foldl (add_demand F) ?zero (signals_in stream demand ?key)"
      using snoc.IH [of ?key] by (auto simp: get_or_def demand_at_def)
    have sig: "signals_in stream (demand @ [s]) key = signals_in stream demand key @ (if key = ?key then [s] else [])"
      using True by (auto simp: signals_in_def)
    show ?thesis
      using snoc.IH [of key] unfolding new old
      by (auto simp: table_laws sig demand_at_def)
  qed
qed

lemma demand_entries:
  "(key, totals) \<in> set (demand_by_region F stream demand) \<longleftrightarrow>
     signals_in stream demand key \<noteq> [] \<and> totals = demand_at F stream demand key"
  using demand_lookup [of F stream demand key] map_of_in_set [of "demand_by_region F stream demand" key totals]
  by (auto split: if_splits)

section \<open>The whole plan\<close>

lemma distinct_by_prefixes:
  "(\<And>pre p post. xs = pre @ p # post \<Longrightarrow> f p \<notin> f ` set pre) \<Longrightarrow> distinct (map f xs)"
proof (induction xs rule: rev_induct)
  case (snoc x xs)
  have "f p \<notin> f ` set pre" if "xs = pre @ p # post" for pre p post
    using snoc.prems [of pre p "post @ [x]"] that by simp
  then show ?case
    using snoc.IH snoc.prems [of xs x "[]"] by auto
qed simp

lemma plan_ok_facts:
  assumes "plan_ok env policy stream nodes ex hot (ids, sel)"
  shows "length sel \<le> rp_max_new_replicas_per_plan policy" "distinct (map pl_target_node_id sel)"
proof -
  have j: "placement_justified env policy stream nodes ex hot pre p" if "sel = pre @ p # post" for pre p post
    using that assms by (simp add: plan_ok_def)
  show "length sel \<le> rp_max_new_replicas_per_plan policy"
  proof (cases sel rule: rev_cases)
    case (snoc pre p)
    then show ?thesis using j [of pre p "[]"] unfolding placement_justified_def Let_def by simp
  qed simp
  have "pl_target_node_id p \<notin> pl_target_node_id ` set pre" if "sel = pre @ p # post" for pre p post
    using j [OF that] unfolding placement_justified_def Let_def by (metis list.set_map)
  then show "distinct (map pl_target_node_id sel)"
    by (rule distinct_by_prefixes)
qed

lemma plan_baseline_ok:
  assumes "\<And>s. hot (BaselineContinent s)" "\<And>s. hot (BaselineRegion s)"
  shows "plan_ok env policy stream nodes ex hot (plan_baseline env policy stream nodes ex)"
  unfolding plan_baseline_def Let_def
  using assms by (simp add: fill_keys_exact [THEN conjunct2, THEN conjunct2, rule_format])

lemma plan_baseline_supplied:
  assumes "n \<in> set nodes"
  shows "supplied policy stream nodes ex (Continent (mn_continent n)) (rp_baseline_per_continent policy)
      (plan_baseline env policy stream nodes ex)"
    and "supplied policy stream nodes ex (Region (mn_region n)) (rp_baseline_per_region policy)
      (plan_baseline env policy stream nodes ex)"
proof -
  let ?fill = "fill_keys env policy stream nodes ex"
  let ?cs = "?fill Continent (rp_baseline_per_continent policy) BaselineContinent (keys (ordered_counts (map mn_continent nodes)))"
  let ?rs = "?fill Region (rp_baseline_per_region policy) BaselineRegion (keys (ordered_counts (map mn_region nodes)))"
  have all: "mn_continent n \<in> set (keys (ordered_counts (map mn_continent nodes)))"
    "mn_region n \<in> set (keys (ordered_counts (map mn_region nodes)))"
    using assms ordered_counts_keys by (metis image_eqI list.set_map)+
  have none: "supplied policy stream nodes ex scope 0 st" for scope st
    by (simp add: supplied_def)
  note keys = fill_keys_exact [THEN conjunct1] fill_keys_exact [THEN conjunct2, THEN conjunct1, rule_format]
  define st1 where "st1 = (if 0 < rp_baseline_per_continent policy then ?cs ([], []) else ([], []))"
  have plan: "plan_baseline env policy stream nodes ex = (if 0 < rp_baseline_per_region policy then ?rs st1 else st1)"
    by (simp add: plan_baseline_def Let_def st1_def)
  have c: "supplied policy stream nodes ex (Continent (mn_continent n)) (rp_baseline_per_continent policy) st1"
    using keys(2) [OF all(1), of policy stream nodes ex Continent _ env BaselineContinent "([], [])"] none
    by (simp add: st1_def)
  then show "supplied policy stream nodes ex (Continent (mn_continent n)) (rp_baseline_per_continent policy)
      (plan_baseline env policy stream nodes ex)"
    unfolding plan using supplied_mono [OF c keys(1)] by simp
  show "supplied policy stream nodes ex (Region (mn_region n)) (rp_baseline_per_region policy)
      (plan_baseline env policy stream nodes ex)"
    unfolding plan using keys(2) [OF all(2), of policy stream nodes ex Region _ env BaselineRegion st1] none [of _ st1] by simp
qed

definition hot_at :: "'f plan_env \<Rightarrow> 'f replication_policy \<Rightarrow> stream_info \<Rightarrow> 'f demand_signal list \<Rightarrow> string \<Rightarrow> string \<Rightarrow> bool" where
  "hot_at env policy stream demand r c \<longleftrightarrow> signals_in stream demand (r, c) \<noteq> [] \<and>
     demand_is_hot (pe_f64 env) policy (demand_at (pe_f64 env) stream demand (r, c))"

definition visits_all :: "'f plan_env \<Rightarrow> bool" where
  "visits_all env \<longleftrightarrow> (\<forall>m. set (pe_demand env m) = set m)"

lemma plan_replicas_exact:
  assumes "visits_all env" "plan = plan_replicas env policy stream nodes ex demand"
    and "st = (map pl_target_node_id plan, plan)"
  shows "plan_ok env policy stream nodes ex (demanded (hot_at env policy stream demand)) st"
    "plan_le (plan_baseline env policy stream nodes ex) st"
    "hot_at env policy stream demand r c \<Longrightarrow> demand_supplied policy stream nodes ex (r, c) st"
proof -
  let ?es = "pe_demand env (demand_by_region (pe_f64 env) stream demand)"
  let ?st = "fold (fill_demand env policy stream nodes ex) ?es (plan_baseline env policy stream nodes ex)"
  let ?P = "hot_at env policy stream demand"
  note f = fold_demand_exact [of "plan_baseline env policy stream nodes ex" env policy stream nodes ex ?es ?P]
  have es: "(key, totals) \<in> set ?es \<longleftrightarrow>
      signals_in stream demand key \<noteq> [] \<and> totals = demand_at (pe_f64 env) stream demand key" for key totals
    using assms(1) demand_entries [of key totals "pe_f64 env" stream demand] by (simp add: visits_all_def)
  have "\<forall>e \<in> set ?es. demand_is_hot (pe_f64 env) policy (snd e) \<longrightarrow> ?P (fst (fst e)) (snd (fst e))"
    using es by (auto simp: hot_at_def)
  moreover have "plan_ok env policy stream nodes ex (demanded ?P) (plan_baseline env policy stream nodes ex)"
    by (rule plan_baseline_ok) (simp_all add: demanded_def)
  ultimately have ok: "plan_ok env policy stream nodes ex (demanded ?P) ?st"
    using f by blast
  have st: "st = ?st"
    using ok by (simp add: assms(2,3) plan_replicas_def plan_ok_def prod_eq_iff)
  show "plan_ok env policy stream nodes ex (demanded ?P) st" using ok by (simp add: st)
  show "plan_le (plan_baseline env policy stream nodes ex) st" using f by (simp add: st)
  show "demand_supplied policy stream nodes ex (r, c) st" if "?P r c"
    using f es [of "(r, c)" "demand_at (pe_f64 env) stream demand (r, c)"] that
    by (force simp: st hot_at_def)
qed

section \<open>Properties\<close>

text \<open>Whole numbers for \<open>f64\<close>, a literal read without its fraction, on a flat world; three
  continents, one of them without room.\<close>

definition demo_f64 :: "int f64_ops" where
  "demo_f64 = \<lparr> f_lit = (\<lambda>m e. int (m div 10 ^ e)), f_of_u64 = int, f_infinity = 10 ^ 9, f_add = (+), f_sub = (-),
     f_mul = (*), f_div = (div), f_min = min, f_ge = (\<ge>),
     f_partial_cmp = (\<lambda>a b. Some (if a < b then Less else if b < a then Greater else Equal)),
     f_to_radians = (\<lambda>x. x), f_sin = (\<lambda>x. x), f_cos = (\<lambda>_. 1), f_sqrt = (\<lambda>x. x), f_asin = (\<lambda>x. x),
     f_powi = (^) \<rparr>"

definition demo_env :: "int plan_env" where
  "demo_env = \<lparr> pe_f64 = demo_f64, pe_ids = (\<lambda>xs. xs), pe_demand = (\<lambda>m. m) \<rparr>"

definition demo_node :: "string \<Rightarrow> string \<Rightarrow> string \<Rightarrow> int \<Rightarrow> nat \<Rightarrow> int mesh_node" where
  "demo_node name region continent latitude room = \<lparr> mn_node_id = name, mn_region = region, mn_continent = continent,
     mn_latitude = latitude, mn_longitude = 0, mn_total_storage_bytes = room, mn_used_storage_bytes = 0,
     mn_egress_capacity_bps = 0, mn_contributor_streams = 0, mn_active_streams = 0, mn_draining = False \<rparr>"

definition demo_nodes :: "int mesh_node list" where
  "demo_nodes = [demo_node ''a'' ''uk'' ''eu'' 0 100, demo_node ''b'' ''de'' ''eu'' 4 100,
     demo_node ''c'' ''us'' ''na'' 40 100, demo_node ''d'' ''jp'' ''as'' 80 10]"

definition demo_stream :: stream_info where
  "demo_stream = \<lparr> si_stream_id = 7, si_bytes = 50, si_contributor_node_id = None, si_active = True \<rparr>"

definition demo_demand :: "int demand_signal list" where
  "demo_demand = [\<lparr> ds_stream_id = 7, ds_requester_node_id = ''b'', ds_region = ''de'', ds_continent = ''eu'',
     ds_active_readers = 60, ds_reads_per_sec = 0, ds_observed_unix_ms = 0 \<rparr>]"

definition demo_plan :: "int replica_placement list" where
  "demo_plan = plan_replicas demo_env (replication_policy_default demo_f64) demo_stream demo_nodes [''a''] demo_demand"

lemma demo_visits_all: "visits_all demo_env"
  by (simp add: visits_all_def demo_env_def)

text \<open>C25: every placement of a plan is justified when it is made: its target is a node of its region
  or continent that holds no copy, is not draining and has the room, and keeps the mirror distance to all
  copies if any such node does; the region or continent lacks copies at that point, and a placement for
  demand lies where demand is hot. No node is chosen twice and the limit of the plan holds.\<close>

theorem replica_plan_justified:
  assumes "visits_all env" "plan = plan_replicas env policy stream nodes ex demand"
  shows "length plan \<le> rp_max_new_replicas_per_plan policy \<and> distinct (map pl_target_node_id plan) \<and>
    (\<forall>pre p post. plan = pre @ p # post \<longrightarrow>
      placement_justified env policy stream nodes ex (demanded (hot_at env policy stream demand)) pre p)"
proof -
  note ok = plan_replicas_exact(1) [OF assms refl]
  show ?thesis
    using plan_ok_facts [OF ok] ok by (simp add: plan_ok_def)
qed

theorem replica_plan_justified_witness:
  "map (\<lambda>p. (pl_target_node_id p, pl_reason p)) demo_plan =
     [(''c'', BaselineContinent ''na''), (''b'', DemandRegion ''de'')] \<and>
   distinct (map pl_target_node_id demo_plan) \<and> length demo_plan \<le> 32"
proof -
  have "map (\<lambda>p. (pl_target_node_id p, pl_reason p)) demo_plan =
      [(''c'', BaselineContinent ''na''), (''b'', DemandRegion ''de'')]"
    by code_simp
  moreover have "rp_max_new_replicas_per_plan (replication_policy_default demo_f64) = 32"
    by code_simp
  ultimately show ?thesis
    using replica_plan_justified [OF demo_visits_all demo_plan_def] by simp
qed

text \<open>a plan leaves nothing out: unless it is full, every continent and every region of a node has
  its number of copies or no candidate is left there, and every place with hot demand has a copy in its
  region or in its continent or there is no candidate in either.\<close>

theorem replica_plan_complete:
  assumes "visits_all env" "plan = plan_replicas env policy stream nodes ex demand"
    and "length plan < rp_max_new_replicas_per_plan policy"
  shows "(\<forall>n \<in> set nodes.
      (rp_baseline_per_continent policy
         \<le> count_replicas_in_scope nodes ex (map pl_target_node_id plan) (Continent (mn_continent n)) \<or>
       candidates stream nodes ex (map pl_target_node_id plan) (Continent (mn_continent n)) = []) \<and>
      (rp_baseline_per_region policy
         \<le> count_replicas_in_scope nodes ex (map pl_target_node_id plan) (Region (mn_region n)) \<or>
       candidates stream nodes ex (map pl_target_node_id plan) (Region (mn_region n)) = [])) \<and>
    (\<forall>r c. hot_at env policy stream demand r c \<longrightarrow>
      has_replica_in_scope nodes ex (map pl_target_node_id plan) (Region r) \<or>
      has_replica_in_scope nodes ex (map pl_target_node_id plan) (Continent c) \<or>
      (candidates stream nodes ex (map pl_target_node_id plan) (Region r) = [] \<and>
       candidates stream nodes ex (map pl_target_node_id plan) (Continent c) = []))"
proof -
  note exact = plan_replicas_exact [OF assms(1,2) refl]
  have "supplied policy stream nodes ex (Continent (mn_continent n)) (rp_baseline_per_continent policy)
        (map pl_target_node_id plan, plan)"
    "supplied policy stream nodes ex (Region (mn_region n)) (rp_baseline_per_region policy)
        (map pl_target_node_id plan, plan)" if "n \<in> set nodes" for n
    using plan_baseline_supplied [OF that] supplied_mono exact(2) by blast+
  then show ?thesis
    using exact(3) assms(3) by (simp add: supplied_def demand_supplied_def)
qed

theorem replica_plan_complete_witness:
  "1 \<le> count_replicas_in_scope demo_nodes [''a''] (map pl_target_node_id demo_plan) (Continent ''na'') \<or>
   candidates demo_stream demo_nodes [''a''] (map pl_target_node_id demo_plan) (Continent ''na'') = []"
proof -
  have "length demo_plan < rp_max_new_replicas_per_plan (replication_policy_default demo_f64)"
    by code_simp
  note complete = replica_plan_complete [OF demo_visits_all demo_plan_def this, THEN conjunct1, rule_format,
    of "demo_node ''c'' ''us'' ''na'' 40 100"]
  show ?thesis
    using complete [THEN conjunct1] by (simp add: demo_nodes_def demo_node_def replication_policy_default_def)
qed

end
