(* ===== verification/Stem_Subscribe.thy ===== *)
theory Stem_Subscribe
  imports Wire_Bytes
begin

text \<open>
  Subscriptions to synchronized stems, \<open>src/src/synchronized_stem_subscribe.rs\<close>: a capability that
  \<open>media_capability\<close> has authorized and a stem configuration give a subscription, which then opens
  datagrams until the capability expires.

  The crates are parameters. \<open>stem_lib\<close> holds what the code calls of \<open>synchronized_stems_media\<close>: the
  parser of the configuration, its accessors, the checks of a composite identity and of a datagram. The
  operations and media classes of a capability are of unknown types \<open>'op\<close> and \<open>'mc\<close>, of which the code
  only asks whether they are \<open>Subscribe\<close> and \<open>Program\<close>.
\<close>

section \<open>Data\<close>

datatype 'e stem_error_code =
    InvalidConfig
  | CapabilityScope
  | CapabilityExpired
  | ChannelLimit
  | DatagramLimit
  | StemMedia 'e

datatype 'e stem_error = StemError (stem_code: "'e stem_error_code") (stem_field: string)

datatype auth_operation = Publish | Subscribe

datatype auth_class = Program | Talkback

record ('op, 'mc) media_claims =
  mc_tenant_id :: string
  mc_session_id :: string
  mc_session_epoch :: u64
  mc_contributor_id :: "string option"
  mc_topology_generation :: u64
  mc_binding_generation :: u64
  mc_operation :: 'op
  mc_media_class :: 'mc
  mc_source_ids :: "string list"
  mc_expires_at :: int
  mc_max_channels :: u16
  mc_max_datagram_bytes :: u32

record 'i claims_view =
  cv_identity :: 'i
  cv_topology_generation :: u64
  cv_binding_generation :: u64
  cv_operation :: auth_operation
  cv_media_class :: auth_class
  cv_source_ids :: "string list"
  cv_expires_at :: int
  cv_max_channels :: u16
  cv_max_datagram_bytes :: u32

record 'i stem_authorization =
  sa_identity :: 'i
  sa_topology_generation :: u64
  sa_binding_generation :: u64
  sa_operation :: auth_operation
  sa_media_class :: auth_class
  sa_source_ids :: "string list"

record ('i, 'c, 'e, 's) stem_lib =
  sl_identity_new :: "string \<Rightarrow> string \<Rightarrow> u64 \<Rightarrow> string \<Rightarrow> 'i option"
  sl_config_from_json :: "bytes \<Rightarrow> 'c option"
  sl_identity :: "'c \<Rightarrow> 'i"
  sl_topology_generation :: "'c \<Rightarrow> u64"
  sl_binding_generation :: "'c \<Rightarrow> u64"
  sl_channel_counts :: "'c \<Rightarrow> u16 list"
  sl_max_datagram_bytes :: "'c \<Rightarrow> u16"
  sl_open :: "bytes \<Rightarrow> 'c \<Rightarrow> 'i stem_authorization \<Rightarrow> auth_operation \<Rightarrow> 'e \<times> string + 's"

record ('i, 'c) stem_subscription =
  ss_config :: 'c
  ss_authorization :: "'i stem_authorization"
  ss_expires_at :: int
  ss_max_datagram_bytes :: u32

section \<open>Operations\<close>

definition view_from_authorized ::
  "('i, 'c, 'e, 's) stem_lib \<Rightarrow> ('op \<Rightarrow> bool) \<Rightarrow> ('mc \<Rightarrow> bool) \<Rightarrow> ('op, 'mc) media_claims \<Rightarrow> 'e stem_error + 'i claims_view" where
  "view_from_authorized lib is_subscribe is_program claims =
     (case mc_contributor_id claims of
        None \<Rightarrow> Inl (StemError CapabilityScope ''contributorId'')
      | Some contributor_id \<Rightarrow>
          (case sl_identity_new lib (mc_tenant_id claims) (mc_session_id claims) (mc_session_epoch claims) contributor_id of
             None \<Rightarrow> Inl (StemError CapabilityScope ''identity'')
           | Some identity \<Rightarrow>
               Inr \<lparr> cv_identity = identity, cv_topology_generation = mc_topology_generation claims,
                     cv_binding_generation = mc_binding_generation claims,
                     cv_operation = (if is_subscribe (mc_operation claims) then Subscribe else Publish),
                     cv_media_class = (if is_program (mc_media_class claims) then Program else Talkback),
                     cv_source_ids = mc_source_ids claims, cv_expires_at = mc_expires_at claims,
                     cv_max_channels = mc_max_channels claims,
                     cv_max_datagram_bytes = mc_max_datagram_bytes claims \<rparr>))"

text \<open>\<open>try_fold\<close> with \<open>u32::checked_add\<close>.\<close>

fun admitted_channels :: "u32 \<Rightarrow> u16 list \<Rightarrow> u32 option" where
  "admitted_channels so_far [] = Some so_far"
| "admitted_channels so_far (n # ns) =
     (if unat so_far + unat n < 2 ^ 32 then admitted_channels (so_far + ucast n) ns else None)"

definition from_verified_claims ::
  "('i, 'c, 'e, 's) stem_lib \<Rightarrow> bytes \<Rightarrow> 'i claims_view \<Rightarrow> 'e stem_error + ('i, 'c) stem_subscription" where
  "from_verified_claims lib config_json claims =
     (case sl_config_from_json lib config_json of
        None \<Rightarrow> Inl (StemError InvalidConfig ''stemStreamConfig'')
      | Some config \<Rightarrow>
          if cv_identity claims \<noteq> sl_identity lib config \<or>
             cv_topology_generation claims \<noteq> sl_topology_generation lib config \<or>
             cv_binding_generation claims \<noteq> sl_binding_generation lib config \<or>
             cv_operation claims \<noteq> Subscribe \<or> cv_media_class claims \<noteq> Program
          then Inl (StemError CapabilityScope ''capability'')
          else (case admitted_channels 0 (sl_channel_counts lib config) of
             None \<Rightarrow> Inl (StemError ChannelLimit ''maxChannels'')
           | Some channels \<Rightarrow>
               if ucast (cv_max_channels claims) < channels then Inl (StemError ChannelLimit ''maxChannels'')
               else if cv_max_datagram_bytes claims < ucast (sl_max_datagram_bytes lib config)
               then Inl (StemError DatagramLimit ''maxDatagramBytes'')
               else Inr \<lparr> ss_config = config,
                 ss_authorization = \<lparr> sa_identity = cv_identity claims,
                   sa_topology_generation = cv_topology_generation claims,
                   sa_binding_generation = cv_binding_generation claims, sa_operation = cv_operation claims,
                   sa_media_class = cv_media_class claims, sa_source_ids = cv_source_ids claims \<rparr>,
                 ss_expires_at = cv_expires_at claims,
                 ss_max_datagram_bytes = cv_max_datagram_bytes claims \<rparr>))"

definition from_authorized ::
  "('i, 'c, 'e, 's) stem_lib \<Rightarrow> ('op \<Rightarrow> bool) \<Rightarrow> ('mc \<Rightarrow> bool) \<Rightarrow> bytes \<Rightarrow> ('op, 'mc) media_claims
     \<Rightarrow> 'e stem_error + ('i, 'c) stem_subscription" where
  "from_authorized lib is_subscribe is_program config_json claims =
     (case view_from_authorized lib is_subscribe is_program claims of
        Inl e \<Rightarrow> Inl e | Inr view \<Rightarrow> from_verified_claims lib config_json view)"

definition stem_open ::
  "('i, 'c, 'e, 's) stem_lib \<Rightarrow> ('i, 'c) stem_subscription \<Rightarrow> bytes \<Rightarrow> int \<Rightarrow> 'e stem_error + 's" where
  "stem_open lib sub datagram now_unix_seconds =
     (if ss_expires_at sub \<le> now_unix_seconds then Inl (StemError CapabilityExpired ''expiresAt'')
      else if unat (ss_max_datagram_bytes sub) < length datagram then Inl (StemError DatagramLimit ''maxDatagramBytes'')
      else (case sl_open lib datagram (ss_config sub) (ss_authorization sub) Subscribe of
         Inl (code, field) \<Rightarrow> Inl (StemError (StemMedia code) field)
       | Inr symbol \<Rightarrow> Inr symbol))"

section \<open>Lemmas\<close>

lemma unat_u16_u32 [simp]: "unat (ucast (n :: u16) :: u32) = unat n"
  using unat_less_pow [of n] by (simp add: unsigned_ucast_eq take_bit_nat_eq_self)

lemma admitted_channels_exact:
  "admitted_channels so_far ns = Some c \<longleftrightarrow> unat c = unat so_far + sum_list (map unat ns)"
proof (induction ns arbitrary: so_far)
  case Nil
  then show ?case by (auto simp: word_unat_eq_iff)
next
  case (Cons n ns)
  show ?case
  proof (cases "unat so_far + unat n < 2 ^ 32")
    case True
    then have "unat (so_far + ucast n) = unat so_far + unat n"
      using unat_add_lem [of so_far "ucast n"] by simp
    then show ?thesis using Cons.IH [of "so_far + ucast n"] True by (simp add: add.assoc)
  next
    case False
    then show ?thesis using unat_less_pow [of c] by simp
  qed
qed

lemma admitted_channels_fit:
  assumes "sum_list (map unat ns) < 2 ^ 32"
  shows "admitted_channels 0 ns = Some (of_nat (sum_list (map unat ns)))"
  using assms by (simp add: admitted_channels_exact unat_of_nat_small)

text \<open>The guards of \<open>from_verified_claims\<close> over exact numbers.\<close>

lemma from_verified_claims_Inr:
  "(\<exists>sub. from_verified_claims lib config_json view = Inr sub \<and> ss_config sub = config) \<longleftrightarrow>
   sl_config_from_json lib config_json = Some config \<and> cv_identity view = sl_identity lib config \<and>
   cv_topology_generation view = sl_topology_generation lib config \<and>
   cv_binding_generation view = sl_binding_generation lib config \<and>
   cv_operation view = Subscribe \<and> cv_media_class view = Program \<and>
   sum_list (map unat (sl_channel_counts lib config)) \<le> unat (cv_max_channels view) \<and>
   unat (sl_max_datagram_bytes lib config) \<le> unat (cv_max_datagram_bytes view)"
proof (cases "sum_list (map unat (sl_channel_counts lib config)) < 2 ^ 32")
  case True
  then show ?thesis
    by (auto simp: from_verified_claims_def admitted_channels_fit word_less_nat_alt not_less unat_of_nat_small
      split: option.splits)
next
  case False
  then have "admitted_channels 0 (sl_channel_counts lib config) = None"
  proof (cases "admitted_channels 0 (sl_channel_counts lib config)")
    case (Some c)
    then show ?thesis
      using admitted_channels_exact [of 0 "sl_channel_counts lib config" c] unat_less_pow [of c] False by simp
  qed simp
  moreover have "unat (cv_max_channels view) < 2 ^ 32"
    using unat_less_pow [of "cv_max_channels view"] by simp
  ultimately show ?thesis
    using False by (auto simp: from_verified_claims_def split: option.splits)
qed

lemma view_from_authorized_Inr:
  "view_from_authorized lib is_subscribe is_program claims = Inr view \<Longrightarrow>
   (\<exists>contributor_id. mc_contributor_id claims = Some contributor_id \<and>
     sl_identity_new lib (mc_tenant_id claims) (mc_session_id claims) (mc_session_epoch claims) contributor_id =
       Some (cv_identity view)) \<and>
   cv_topology_generation view = mc_topology_generation claims \<and>
   cv_binding_generation view = mc_binding_generation claims \<and>
   (cv_operation view = Subscribe \<longleftrightarrow> is_subscribe (mc_operation claims)) \<and>
   (cv_media_class view = Program \<longleftrightarrow> is_program (mc_media_class claims)) \<and>
   cv_max_channels view = mc_max_channels claims \<and> cv_max_datagram_bytes view = mc_max_datagram_bytes claims \<and>
   cv_expires_at view = mc_expires_at claims \<and> cv_source_ids view = mc_source_ids claims"
  by (auto simp: view_from_authorized_def split: option.splits if_splits)

lemma view_from_authorized_Inl:
  "view_from_authorized lib is_subscribe is_program claims = Inl e \<Longrightarrow>
   mc_contributor_id claims = Some contributor_id \<Longrightarrow>
   sl_identity_new lib (mc_tenant_id claims) (mc_session_id claims) (mc_session_epoch claims) contributor_id = None"
  by (auto simp: view_from_authorized_def split: option.splits if_splits)

section \<open>Properties\<close>

text \<open>C26: exactly which capabilities and configurations give a subscription. The sum of the channels
  does not wrap. The sources of the capability play no part in it: they are only handed on to the check
  of each datagram.\<close>

theorem stem_subscription_exact:
  "(\<exists>sub. from_authorized lib is_subscribe is_program config_json claims = Inr sub \<and> ss_config sub = config) \<longleftrightarrow>
   sl_config_from_json lib config_json = Some config \<and>
   (\<exists>contributor_id. mc_contributor_id claims = Some contributor_id \<and>
     sl_identity_new lib (mc_tenant_id claims) (mc_session_id claims) (mc_session_epoch claims) contributor_id =
       Some (sl_identity lib config)) \<and>
   mc_topology_generation claims = sl_topology_generation lib config \<and>
   mc_binding_generation claims = sl_binding_generation lib config \<and>
   is_subscribe (mc_operation claims) \<and> is_program (mc_media_class claims) \<and>
   sum_list (map unat (sl_channel_counts lib config)) \<le> unat (mc_max_channels claims) \<and>
   unat (sl_max_datagram_bytes lib config) \<le> unat (mc_max_datagram_bytes claims)" 
proof (cases "view_from_authorized lib is_subscribe is_program claims")
  case (Inl e)
  then show ?thesis
    using view_from_authorized_Inl [OF Inl] by (fastforce simp: from_authorized_def)
next
  case (Inr view)
  then show ?thesis
    using view_from_authorized_Inr [OF Inr] from_verified_claims_Inr [of lib config_json view config]
    by (auto simp: from_authorized_def)
qed

text \<open>what a subscription opens is what the library opens, for the configuration and with the
  identity, generations and sources of the capability, before the capability expires and within its
  datagram limit; everything else is an error.\<close>

theorem stem_open_authorised:
  assumes "from_authorized lib is_subscribe is_program config_json claims = Inr sub"
  shows "stem_open lib sub datagram now = Inr symbol \<longleftrightarrow>
    now < mc_expires_at claims \<and> length datagram \<le> unat (mc_max_datagram_bytes claims) \<and>
    sl_open lib datagram (ss_config sub)
      \<lparr> sa_identity = sl_identity lib (ss_config sub), sa_topology_generation = mc_topology_generation claims,
        sa_binding_generation = mc_binding_generation claims, sa_operation = Subscribe, sa_media_class = Program,
        sa_source_ids = mc_source_ids claims \<rparr> Subscribe = Inr symbol"
proof -
  obtain view where view: "view_from_authorized lib is_subscribe is_program claims = Inr view"
      "from_verified_claims lib config_json view = Inr sub"
    using assms by (auto simp: from_authorized_def split: sum.splits)
  have sub: "ss_expires_at sub = mc_expires_at claims" "ss_max_datagram_bytes sub = mc_max_datagram_bytes claims"
    "ss_authorization sub = \<lparr> sa_identity = sl_identity lib (ss_config sub),
        sa_topology_generation = mc_topology_generation claims,
        sa_binding_generation = mc_binding_generation claims, sa_operation = Subscribe, sa_media_class = Program,
        sa_source_ids = mc_source_ids claims \<rparr>"
    using view(2) view_from_authorized_Inr [OF view(1)]
    by (auto simp: from_verified_claims_def split: option.splits if_splits)
  show ?thesis
    unfolding stem_open_def sub by (auto split: sum.splits)
qed

text \<open>A library with one configuration of two stereo sources, which opens every datagram to its first
  byte.\<close>

definition demo_stems :: "(string, unit, nat, u8) stem_lib" where
  "demo_stems = \<lparr> sl_identity_new = (\<lambda>tenant _ _ _. Some tenant), sl_config_from_json = (\<lambda>_. Some ()),
     sl_identity = (\<lambda>_. ''t''), sl_topology_generation = (\<lambda>_. 3), sl_binding_generation = (\<lambda>_. 4),
     sl_channel_counts = (\<lambda>_. [2, 2]), sl_max_datagram_bytes = (\<lambda>_. 1200),
     sl_open = (\<lambda>b _ _ _. if b = [] then Inl (1, ''header'') else Inr (hd b)) \<rparr>"

definition demo_claims :: "(bool, bool) media_claims" where
  "demo_claims = \<lparr> mc_tenant_id = ''t'', mc_session_id = ''s'', mc_session_epoch = 1, mc_contributor_id = Some ''c'',
     mc_topology_generation = 3, mc_binding_generation = 4, mc_operation = True, mc_media_class = True,
     mc_source_ids = [''v''], mc_expires_at = 200, mc_max_channels = 4, mc_max_datagram_bytes = 1200 \<rparr>"

definition demo_sub :: "(string, unit) stem_subscription" where
  "demo_sub = projr (from_authorized demo_stems id id [] demo_claims)"

theorem stem_open_authorised_witness:
  "stem_open demo_stems demo_sub [9, 8] 199 = Inr 9"
proof -
  have "from_authorized demo_stems id id [] demo_claims = Inr demo_sub"
    by code_simp
  then show ?thesis
    by (rule stem_open_authorised [THEN iffD2]) code_simp
qed

end
