(* ===== verification/Live_State.thy ===== *)
theory Live_State
  imports Live_Slot
begin

text \<open>
  The bookkeeping of the live cache, \<open>LiveState\<close> in \<open>src/src/main.rs\<close>: the part under construction and,
  for every stream, its epoch, its next sequence number and the observations of the parts in the retained
  window.

  Hash maps and B-tree maps are the tables of the prelude. An \<open>Instant\<close> is a number of nanoseconds;
  sequence numbers, sizes and wall clocks are natural numbers below $2^{64}$, with the saturation the code
  writes, and the sums it does not guard wrap as in a release build.
\<close>

section \<open>State\<close>

record part_observation =
  po_bytes :: nat
  po_available_unix_us :: nat
  po_duration_ms :: "nat option"
  po_keyframe :: bool
  po_fmp4_segment_id :: "nat option"

record stream_summary =
  sm_latest_sequence :: "nat option"
  sm_latest_bytes :: "nat option"
  sm_retained_bytes :: nat
  sm_retained_parts :: nat

record live_state =
  st_process_started_unix_us :: nat
  st_current :: bytes
  st_current_started :: nat
  st_current_started_unix_ms :: nat
  st_next_seq :: nat
  st_datagrams_received :: nat
  st_bytes_received :: nat
  st_last_ingest_unix_ms :: "nat option"
  st_last_committed_seq :: "nat option"
  st_last_committed_unix_ms :: "nat option"
  st_last_committed_bytes :: "nat option"
  st_last_committed_duration_ms :: "nat option"
  st_stream_next_seq :: "(u64 \<times> nat) list"
  st_canonical_epoch :: "(u64 \<times> nat) list"
  st_activation_delay_us :: "(u64 \<times> nat) list"
  st_subscription_base :: "(u64 \<times> nat) list"
  st_latest_canonical :: "(u64 \<times> nat) list"
  st_stream_last_ingest :: "(u64 \<times> nat) list"
  st_parts :: "(u64 \<times> (nat \<times> part_observation) list) list"
  st_current_segment :: "(u64 \<times> nat) list"
  st_retained_bytes :: "(u64 \<times> nat) list"
  st_max_part_ms :: "(u64 \<times> nat) list"
  st_max_segment_ms :: "(u64 \<times> nat) list"
  st_inits :: "(u64 \<times> bytes) list"
  st_media_kinds :: "(u64 \<times> live_media_kind) list"

record pending_part =
  pp_seq :: nat
  pp_bytes :: nat
  pp_duration_ms :: nat
  pp_committed_unix_ms :: nat
  pp_data :: bytes

definition live_state_new :: "nat \<Rightarrow> nat \<Rightarrow> nat \<Rightarrow> live_state" where
  "live_state_new now now_us now_ms = \<lparr> st_process_started_unix_us = now_us, st_current = [], st_current_started = now,
     st_current_started_unix_ms = now_ms, st_next_seq = 0, st_datagrams_received = 0, st_bytes_received = 0,
     st_last_ingest_unix_ms = None, st_last_committed_seq = None, st_last_committed_unix_ms = None,
     st_last_committed_bytes = None, st_last_committed_duration_ms = None, st_stream_next_seq = [],
     st_canonical_epoch = [], st_activation_delay_us = [], st_subscription_base = [], st_latest_canonical = [],
     st_stream_last_ingest = [], st_parts = [], st_current_segment = [], st_retained_bytes = [], st_max_part_ms = [],
     st_max_segment_ms = [], st_inits = [], st_media_kinds = [] \<rparr>"

section \<open>Operations\<close>

definition next_stream_seq :: "live_state \<Rightarrow> u64 \<Rightarrow> live_state \<times> nat" where
  "next_stream_seq s stream_id =
     (let seq = get_or 0 (st_stream_next_seq s) stream_id in
      (s\<lparr> st_stream_next_seq := tput stream_id (sat_add seq 1) (st_stream_next_seq s) \<rparr>, seq))"

definition observe_stream_seq :: "live_state \<Rightarrow> u64 \<Rightarrow> nat \<Rightarrow> live_state" where
  "observe_stream_seq s stream_id sequence =
     s\<lparr> st_stream_next_seq :=
         tput stream_id (max (get_or 0 (st_stream_next_seq s) stream_id) (sat_add sequence 1)) (st_stream_next_seq s) \<rparr>"

text \<open>\<open>entry(k).and_modify(|m| m.max(v)).or_insert(v)\<close>.\<close>

definition entry_max :: "u64 \<Rightarrow> nat \<Rightarrow> (u64 \<times> nat) list \<Rightarrow> (u64 \<times> nat) list" where
  "entry_max k v m = tput k (case map_of m k of None \<Rightarrow> v | Some old \<Rightarrow> max old v) m"

definition note_part_duration :: "live_state \<Rightarrow> u64 \<Rightarrow> nat option \<Rightarrow> live_state" where
  "note_part_duration s stream_id duration_ms =
     (case duration_ms of None \<Rightarrow> s
      | Some d \<Rightarrow> s\<lparr> st_max_part_ms := entry_max stream_id d (st_max_part_ms s) \<rparr>)"

definition parts_of :: "live_state \<Rightarrow> u64 \<Rightarrow> (nat \<times> part_observation) list" where
  "parts_of s stream_id = get_or [] (st_parts s) stream_id"

text \<open>The segment of a part: that of an earlier observation, or the next one at a keyframe, or the
  current one.\<close>

definition assign_segment :: "live_state \<Rightarrow> u64 \<Rightarrow> nat \<Rightarrow> bool \<Rightarrow> bool \<Rightarrow> live_state \<times> nat option" where
  "assign_segment s stream_id sequence keyframe keyframe_segments =
     (case Option.bind (map_of (st_parts s) stream_id) (\<lambda>parts. map_of parts sequence) of
        Some existing \<Rightarrow> (s, po_fmp4_segment_id existing)
      | None \<Rightarrow>
          if keyframe_segments \<and> keyframe then
            let segment_id = (case map_of (st_current_segment s) stream_id of None \<Rightarrow> 0 | Some i \<Rightarrow> sat_add i 1) in
            (s\<lparr> st_current_segment := tput stream_id segment_id (st_current_segment s) \<rparr>, Some segment_id)
          else if keyframe_segments then (s, map_of (st_current_segment s) stream_id)
          else (s, None))"

definition insert_part ::
  "(nat \<times> part_observation) list \<Rightarrow> nat \<Rightarrow> part_observation \<Rightarrow> (nat \<times> part_observation) list \<times> nat" where
  "insert_part parts sequence part =
     (case map_of parts sequence of
        None \<Rightarrow> (bput sequence part parts, po_bytes part)
      | Some _ \<Rightarrow> (parts, 0))"

text \<open>The loop that pops the first part while it lies before the window.\<close>

fun evict_parts ::
  "nat \<Rightarrow> (nat \<times> part_observation) list \<Rightarrow> nat \<Rightarrow> (nat \<times> part_observation) list \<times> nat" where
  "evict_parts oldest [] removed = ([], removed)"
| "evict_parts oldest ((k, p) # ps) removed =
     (if k < oldest then evict_parts oldest ps (sat_add removed (po_bytes p)) else ((k, p) # ps, removed))"

definition retention_head :: "(nat \<times> part_observation) list \<Rightarrow> nat \<Rightarrow> nat" where
  "retention_head parts sequence = (if parts = [] then sequence else fst (last parts))"

definition oldest_retained :: "nat \<Rightarrow> nat \<Rightarrow> nat" where
  "oldest_retained head window_parts = sat_sub head (sat_sub (max window_parts 1) 1)"

definition retain_part ::
  "nat \<Rightarrow> (nat \<times> part_observation) list \<Rightarrow> nat \<Rightarrow> part_observation
     \<Rightarrow> (nat \<times> part_observation) list \<times> nat \<times> nat" where
  "retain_part window_parts parts sequence part =
     (let (parts1, inserted_bytes) = insert_part parts sequence part;
          (parts2, removed_bytes) = evict_parts (oldest_retained (retention_head parts1 sequence) window_parts) parts1 0
      in (parts2, inserted_bytes, removed_bytes))"

definition record_part_available ::
  "live_state \<Rightarrow> u64 \<Rightarrow> nat \<Rightarrow> nat \<Rightarrow> nat \<Rightarrow> nat option \<Rightarrow> bool \<Rightarrow> bool \<Rightarrow> nat \<Rightarrow> live_state" where
  "record_part_available s stream_id sequence bytes available_unix_us duration_ms keyframe keyframe_segments window_parts =
     (let s1 = note_part_duration s stream_id duration_ms;
          (s2, segment) = assign_segment s1 stream_id sequence keyframe keyframe_segments;
          part = \<lparr> po_bytes = bytes, po_available_unix_us = available_unix_us, po_duration_ms = duration_ms,
                   po_keyframe = keyframe, po_fmp4_segment_id = segment \<rparr>;
          (parts, inserted, removed) = retain_part window_parts (parts_of s2 stream_id) sequence part
      in s2\<lparr> st_parts := tput stream_id parts (st_parts s2),
             st_retained_bytes :=
               tput stream_id (sat_sub (sat_add (get_or 0 (st_retained_bytes s2) stream_id) inserted) removed)
                 (st_retained_bytes s2) \<rparr>)"

definition retained_stream_summaries :: "live_state \<Rightarrow> (u64 \<times> stream_summary) list" where
  "retained_stream_summaries s =
     List.map_filter (\<lambda>(stream_id, parts).
       if parts = [] then None
       else Some (stream_id, \<lparr> sm_latest_sequence = Some (fst (last parts)),
         sm_latest_bytes = Some (po_bytes (snd (last parts))),
         sm_retained_bytes = get_or 0 (st_retained_bytes s) stream_id, sm_retained_parts = length parts \<rparr>)) (st_parts s)"

definition forget_stream :: "live_state \<Rightarrow> u64 \<Rightarrow> live_state" where
  "forget_stream s stream_id =
     s\<lparr> st_stream_next_seq := tdel stream_id (st_stream_next_seq s),
        st_canonical_epoch := tdel stream_id (st_canonical_epoch s),
        st_activation_delay_us := tdel stream_id (st_activation_delay_us s),
        st_subscription_base := tdel stream_id (st_subscription_base s),
        st_latest_canonical := tdel stream_id (st_latest_canonical s),
        st_stream_last_ingest := tdel stream_id (st_stream_last_ingest s),
        st_parts := tdel stream_id (st_parts s),
        st_current_segment := tdel stream_id (st_current_segment s),
        st_retained_bytes := tdel stream_id (st_retained_bytes s),
        st_max_part_ms := tdel stream_id (st_max_part_ms s),
        st_max_segment_ms := tdel stream_id (st_max_segment_ms s),
        st_inits := tdel stream_id (st_inits s),
        st_media_kinds := tdel stream_id (st_media_kinds s) \<rparr>"

definition take_current :: "live_state \<Rightarrow> nat \<Rightarrow> nat \<Rightarrow> live_state \<times> pending_part option" where
  "take_current s now now_ms =
     (let reset = s\<lparr> st_current_started := now, st_current_started_unix_ms := now_ms \<rparr> in
      if st_current s = [] then (reset, None)
      else (reset\<lparr> st_next_seq := (st_next_seq s + 1) mod 2 ^ 64, st_current := [] \<rparr>,
        Some \<lparr> pp_seq = st_next_seq s, pp_bytes = length (st_current s),
               pp_duration_ms = min (max (sat_sub now (st_current_started s) div 1000000) 1) u64_max,
               pp_committed_unix_ms = now_ms, pp_data = st_current s \<rparr>))"

section \<open>The retained window\<close>

abbreviation part_sum :: "(nat \<times> part_observation) list \<Rightarrow> nat" where
  "part_sum \<equiv> tsum (\<lambda>p. po_bytes (snd p))"

text \<open>The parts of a stream lie in one window, in order, and the byte count is their sum. \<open>b\<close> bounds the
  size of a part.\<close>

definition window_ok :: "nat \<Rightarrow> nat \<Rightarrow> (nat \<times> part_observation) list \<Rightarrow> nat \<Rightarrow> bool" where
  "window_ok w b parts retained \<longleftrightarrow> btree_ok parts \<and>
     (\<forall>p \<in> set parts. fst (last parts) < fst p + max w 1 \<and> po_bytes (snd p) \<le> b) \<and> retained = part_sum parts"

lemma window_ok_Nil [simp]: "window_ok w b [] 0"
  by (simp add: window_ok_def)

lemma evict_parts_exact:
  "evict_parts oldest parts removed =
     (dropWhile (\<lambda>p. fst p < oldest) parts,
      foldl (\<lambda>r p. sat_add r (po_bytes (snd p))) removed (takeWhile (\<lambda>p. fst p < oldest) parts))"
  by (induction oldest parts removed rule: evict_parts.induct) simp_all

lemma foldl_sat_sum: "r + part_sum ps \<le> u64_max \<Longrightarrow> foldl (\<lambda>r p. sat_add r (po_bytes (snd p))) r ps = r + part_sum ps"
  by (induction ps arbitrary: r) (simp_all add: sat_add_exact)

lemma part_sum_bound: "(\<forall>p \<in> set ps. po_bytes (snd p) \<le> b) \<Longrightarrow> part_sum ps \<le> length ps * b"
  by (induction ps) auto

lemma btree_last_max: "btree_ok m \<Longrightarrow> p \<in> set m \<Longrightarrow> fst p \<le> fst (last m)"
proof -
  assume m: "btree_ok m" "p \<in> set m"
  then obtain ps q where q: "m = ps @ [q]" by (metis empty_iff list.set(1) rev_exhaust)
  then show ?thesis using m by (auto simp: sorted_append)
qed

lemma dropWhile_sorted_keys:
  "sorted (keys m) \<Longrightarrow> set (dropWhile (\<lambda>p. fst p < n) m) = {p \<in> set m. n \<le> fst p}"
  by (induction m) (auto simp: order.strict_trans1)

text \<open>A window of \<open>n\<close> consecutive keys holds at most \<open>n\<close> entries.\<close>

lemma window_length:
  assumes "btree_ok m" "\<forall>p \<in> set m. fst (last m) < fst p + n" "0 < n"
  shows "length m \<le> n"
proof (cases "m = []")
  case False
  let ?h = "fst (last m)"
  have "set (keys m) \<subseteq> {Suc ?h - n .. ?h}"
    using assms(2) btree_last_max [OF assms(1)] by (fastforce simp: Suc_le_eq)
  then have "card (set (keys m)) \<le> n"
    using card_mono [of "{Suc ?h - n .. ?h}" "set (keys m)"] by simp
  then show ?thesis
    using assms(1) distinct_card [of "keys m"] by simp
qed simp

lemma btree_dropWhile: "btree_ok m \<Longrightarrow> btree_ok (dropWhile P m)"
proof -
  assume "btree_ok m"
  moreover have "keys m = keys (takeWhile P m) @ keys (dropWhile P m)"
    by (simp flip: map_append)
  ultimately show ?thesis by (simp add: sorted_append)
qed

lemma map_of_dropWhile:
  "sorted (keys m) \<Longrightarrow> map_of (dropWhile (\<lambda>p. fst p < n) m) k = (if n \<le> k then map_of m k else None)"
proof (induction m)
  case (Cons p m)
  then show ?case
    by (cases p) (force simp: map_of_eq_None_iff)
qed simp

lemma dropWhile_last: "dropWhile P m \<noteq> [] \<Longrightarrow> last (dropWhile P m) = last m"
  by (metis last_appendR takeWhile_dropWhile_id)

lemma insert_part_exact:
  assumes "window_ok w b parts retained" "po_bytes part \<le> b" "insert_part parts sequence part = (parts1, inserted)"
  shows "btree_ok parts1" "\<forall>p \<in> set parts1. po_bytes (snd p) \<le> b" "part_sum parts1 = retained + inserted"
    "length parts1 \<le> max w 1 + 1" "parts1 \<noteq> []" "inserted \<le> b"
    "map_of parts1 = (if map_of parts sequence = None then (map_of parts)(sequence \<mapsto> part) else map_of parts)"
proof -
  have ok: "btree_ok parts" "\<forall>p \<in> set parts. po_bytes (snd p) \<le> b" "part_sum parts = retained"
    using assms(1) by (auto simp: window_ok_def)
  have len: "length parts \<le> max w 1"
    using assms(1) by (intro window_length) (auto simp: window_ok_def)
  show "btree_ok parts1" "\<forall>p \<in> set parts1. po_bytes (snd p) \<le> b" "part_sum parts1 = retained + inserted"
    "inserted \<le> b"
    using assms(2,3) ok by (auto simp: insert_part_def table_laws set_tdel bt.tsum_put_new split: option.splits)
  show "length parts1 \<le> max w 1 + 1"
    using assms(3) ok len bt.length_put [of parts sequence part] by (auto simp: insert_part_def split: option.splits)
  show "map_of parts1 = (if map_of parts sequence = None then (map_of parts)(sequence \<mapsto> part) else map_of parts)"
    using assms(3) ok by (auto simp: insert_part_def table_laws split: option.splits)
  then show "parts1 \<noteq> []"
    by (auto split: if_splits dest: fun_cong [of _ _ sequence])
qed

lemma retain_part_exact:
  assumes "window_ok w b parts retained" "po_bytes part \<le> b" "(max w 1 + 1) * b \<le> u64_max"
    and "retain_part w parts sequence part = (parts', inserted, removed)"
  shows "window_ok w b parts' (sat_sub (sat_add retained inserted) removed)"
    and "\<And>k. map_of parts' k =
      (if k + max w 1 \<le> fst (last (fst (insert_part parts sequence part))) then None
       else if k = sequence \<and> map_of parts k = None then Some part else map_of parts k)"
proof -
  obtain parts1 ins where i: "insert_part parts sequence part = (parts1, ins)"
    by (rule prod.exhaust)
  note e = insert_part_exact [OF assms(1,2) i]
  let ?old = "oldest_retained (fst (last parts1)) w"
  let ?keep = "dropWhile (\<lambda>p. fst p < ?old) parts1" and ?gone = "takeWhile (\<lambda>p. fst p < ?old) parts1"
  have split: "part_sum parts1 = part_sum ?gone + part_sum ?keep"
    using takeWhile_dropWhile_id [of "\<lambda>p. fst p < ?old" parts1] by (metis tsum_append)
  have "part_sum parts1 \<le> length parts1 * b"
    using e(2) by (rule part_sum_bound)
  also have "\<dots> \<le> (max w 1 + 1) * b"
    using e(4) by (rule mult_le_mono1)
  finally have small: "part_sum parts1 \<le> u64_max"
    using assms(3) by simp
  have out: "parts' = ?keep" "inserted = ins" "removed = part_sum ?gone"
    using assms(4) i e(5) small split
    by (auto simp: retain_part_def evict_parts_exact retention_head_def foldl_sat_sum)
  have last_in: "last parts1 \<in> set ?keep"
    using e(1,5) by (simp add: dropWhile_sorted_keys oldest_retained_def)
  then have last: "last ?keep = last parts1"
    by (intro dropWhile_last) (auto simp del: dropWhile_eq_Nil_conv)
  have keep: "btree_ok ?keep"
    using e(1) by (rule btree_dropWhile)
  have "fst (last parts1) < fst p + max w 1" if "p \<in> set ?keep" for p
    using that e(1) by (auto simp: dropWhile_sorted_keys oldest_retained_def)
  then show "window_ok w b parts' (sat_sub (sat_add retained inserted) removed)"
    using keep e(1,2,3) small split
    by (auto simp: window_ok_def out last sat_add_exact dest: set_dropWhileD)
  show "map_of parts' k = (if k + max w 1 \<le> fst (last (fst (insert_part parts sequence part))) then None
       else if k = sequence \<and> map_of parts k = None then Some part else map_of parts k)" for k
  proof -
    have "map_of ?keep k = (if ?old \<le> k then map_of parts1 k else None)"
      using e(1) by (simp add: map_of_dropWhile)
    moreover have "?old \<le> k \<longleftrightarrow> \<not> k + max w 1 \<le> fst (last parts1)"
      by (auto simp: oldest_retained_def)
    ultimately show ?thesis
      by (auto simp: out i e(7))
  qed
qed

section \<open>The invariant of the state\<close>

text \<open>Every stream has a window in order.\<close>

definition live_ok :: "nat \<Rightarrow> nat \<Rightarrow> live_state \<Rightarrow> bool" where
  "live_ok w b s \<longleftrightarrow> (\<forall>stream_id. window_ok w b (parts_of s stream_id) (get_or 0 (st_retained_bytes s) stream_id))"

lemma get_or_tput [simp]: "get_or d (tput k v m) k' = (if k' = k then v else get_or d m k')"
  by (simp add: get_or_def update_conv)

lemma get_or_tdel [simp]: "get_or d (tdel k m) k' = (if k' = k then d else get_or d m k')"
  by (simp add: get_or_def)

lemma live_ok_new: "live_ok w b (live_state_new now now_us now_ms)"
  by (simp add: live_ok_def live_state_new_def parts_of_def get_or_def)

lemma live_ok_cong:
  "st_parts s' = st_parts s \<Longrightarrow> st_retained_bytes s' = st_retained_bytes s \<Longrightarrow> live_ok w b s' = live_ok w b s"
  by (simp add: live_ok_def parts_of_def)

lemma note_part_duration_frame [simp]:
  "st_parts (note_part_duration s k d) = st_parts s" "st_retained_bytes (note_part_duration s k d) = st_retained_bytes s"
  "st_current_segment (note_part_duration s k d) = st_current_segment s"
  "st_canonical_epoch (note_part_duration s k d) = st_canonical_epoch s"
  by (simp_all add: note_part_duration_def split: option.splits)

lemma assign_segment_frame:
  "st_parts (fst (assign_segment s k q kf ks)) = st_parts s"
  "st_retained_bytes (fst (assign_segment s k q kf ks)) = st_retained_bytes s"
  "st_canonical_epoch (fst (assign_segment s k q kf ks)) = st_canonical_epoch s"
  by (auto simp: assign_segment_def Let_def split: option.splits)

definition recorded_part :: "live_state \<Rightarrow> u64 \<Rightarrow> nat \<Rightarrow> nat \<Rightarrow> nat \<Rightarrow> nat option \<Rightarrow> bool \<Rightarrow> bool \<Rightarrow> part_observation" where
  "recorded_part s stream_id sequence bytes available duration keyframe keyframe_segments =
     \<lparr> po_bytes = bytes, po_available_unix_us = available, po_duration_ms = duration, po_keyframe = keyframe,
       po_fmp4_segment_id = snd (assign_segment s stream_id sequence keyframe keyframe_segments) \<rparr>"

lemma record_part_available_eq:
  "\<exists>parts inserted removed.
     retain_part w (parts_of s k) q (recorded_part s k q bytes available d kf ks) = (parts, inserted, removed) \<and>
     st_parts (record_part_available s k q bytes available d kf ks w) = tput k parts (st_parts s) \<and>
     st_retained_bytes (record_part_available s k q bytes available d kf ks w) =
       tput k (sat_sub (sat_add (get_or 0 (st_retained_bytes s) k) inserted) removed) (st_retained_bytes s) \<and>
     st_canonical_epoch (record_part_available s k q bytes available d kf ks w) = st_canonical_epoch s"
proof -
  let ?s1 = "note_part_duration s k d"
  obtain s2 seg where a: "assign_segment ?s1 k q kf ks = (s2, seg)" by (rule prod.exhaust)
  have seg: "seg = snd (assign_segment s k q kf ks)"
    using a by (auto simp: assign_segment_def Let_def split: option.splits if_splits)
  obtain parts inserted removed where
    r: "retain_part w (parts_of s k) q (recorded_part s k q bytes available d kf ks) = (parts, inserted, removed)"
    by (metis prod.exhaust)
  have "parts_of s2 k = parts_of s k"
    using assign_segment_frame(1) [of ?s1 k q kf ks] a by (simp add: parts_of_def)
  then show ?thesis
    using r a assign_segment_frame [of ?s1 k q kf ks]
    by (simp add: record_part_available_def recorded_part_def seg Let_def)
qed

lemma live_ok_record:
  assumes "live_ok w b s" "bytes \<le> b" "(max w 1 + 1) * b \<le> u64_max"
  shows "live_ok w b (record_part_available s k q bytes available d kf ks w)"
proof -
  obtain parts inserted removed where
    r: "retain_part w (parts_of s k) q (recorded_part s k q bytes available d kf ks) = (parts, inserted, removed)"
      "st_parts (record_part_available s k q bytes available d kf ks w) = tput k parts (st_parts s)"
      "st_retained_bytes (record_part_available s k q bytes available d kf ks w) =
        tput k (sat_sub (sat_add (get_or 0 (st_retained_bytes s) k) inserted) removed) (st_retained_bytes s)"
    using record_part_available_eq by metis
  have "window_ok w b (parts_of s k) (get_or 0 (st_retained_bytes s) k)"
    using assms(1) by (simp add: live_ok_def)
  then have "window_ok w b parts (sat_sub (sat_add (get_or 0 (st_retained_bytes s) k) inserted) removed)"
    using retain_part_exact(1) [OF _ _ assms(3) r(1)] assms(2) by (simp add: recorded_part_def)
  then show ?thesis
    using assms(1) by (simp add: live_ok_def r parts_of_def)
qed

lemma live_ok_forget: "live_ok w b s \<Longrightarrow> live_ok w b (forget_stream s k)"
  by (simp add: live_ok_def forget_stream_def parts_of_def)

end
