(* ===== verification/Live_Cache.thy ===== *)
theory Live_Cache
  imports Live_State
begin

text \<open>
  The live media cache, \<open>LiveTsCache\<close> in \<open>src/src/main.rs\<close>: building parts from raw payloads, committing
  canonical media objects and other stream payloads, retiring idle streams and reading parts back.

  The crate \<open>playlists\<close> with its chunk cache is a parameter: \<open>chunk_lib\<close> holds the operations the code
  calls over a state of unknown type, and \<open>media_lib\<close> those of \<open>media_object\<close> and \<open>soundkit_fmp4\<close>. A
  commit holds the lock of its stream from start to end; the model takes it as one step. Clock readings
  are arguments. On a target with 64-bit addresses \<open>usize::try_from\<close> of a sequence number succeeds.
\<close>

section \<open>Parameters and state\<close>

datatype put_result = HashConflict | PutAccepted

record 'k chunk_lib =
  cl_stream_idx :: "'k \<Rightarrow> u64 \<Rightarrow> nat option"
  cl_last :: "'k \<Rightarrow> nat \<Rightarrow> nat option"
  cl_version :: "'k \<Rightarrow> nat \<Rightarrow> nat option"
  cl_get :: "'k \<Rightarrow> nat \<Rightarrow> nat \<Rightarrow> (bytes \<times> nat) option"
  cl_get_for_stream :: "'k \<Rightarrow> u64 \<Rightarrow> nat \<Rightarrow> (bytes \<times> nat) option"
  cl_retained_start :: "'k \<Rightarrow> nat \<Rightarrow> nat"
  cl_initialization :: "'k \<Rightarrow> u64 \<Rightarrow> bytes option"
  cl_set_initialization :: "'k \<Rightarrow> u64 \<Rightarrow> bytes \<Rightarrow> 'k \<times> bool"
  cl_zero :: "'k \<Rightarrow> u64 \<Rightarrow> 'k"
  cl_add :: "'k \<Rightarrow> u64 \<Rightarrow> nat \<Rightarrow> bytes \<Rightarrow> 'k \<times> bool"
  cl_put_contiguous :: "'k \<Rightarrow> u64 \<Rightarrow> nat \<Rightarrow> nat \<Rightarrow> bytes \<Rightarrow> 'k \<times> put_result option"

record 'o media_lib =
  ml_object :: "'o object_lib"
  ml_epoch :: "'o \<Rightarrow> nat"
  ml_sequence :: "'o \<Rightarrow> nat"
  ml_keyframe :: "'o \<Rightarrow> bool"
  ml_rebox :: "bytes \<Rightarrow> u32 \<Rightarrow> nat \<Rightarrow> reboxed_audio option"

record live_config =
  lt_stream_id :: u64
  lt_part_target_ms :: nat
  lt_parts_per_segment :: nat
  lt_window_parts :: nat
  lt_max_part_bytes :: nat

record cached_playlist =
  cp_stream_id :: u64
  cp_version :: nat
  cp_body :: bytes

record 'k live_cache =
  lv_chunks :: 'k
  lv_state :: live_state
  lv_playlists :: "cached_playlist option list"
  lv_part_update :: nat

record commit_clock =
  ck_activation_us :: nat
  ck_now_ms :: nat
  ck_available_us :: nat

datatype live_error =
    InvalidEnvelope
  | StreamMismatch
  | StaleEpoch nat nat
  | BundleRejected bundle_error
  | InitializationFailed
  | SlotRejected slot_error
  | CacheWriteFailed
  | IdentityConflict

section \<open>Parts from raw payloads\<close>

definition commit_part ::
  "'k chunk_lib \<Rightarrow> live_config \<Rightarrow> pending_part \<Rightarrow> nat \<Rightarrow> 'k live_cache \<Rightarrow> 'k live_cache \<times> (live_error + unit)" where
  "commit_part lib cfg part available_us c =
     (let (chunks, ok) = cl_add lib (lv_chunks c) (lt_stream_id cfg) (pp_seq part) (pp_data part);
          c1 = c\<lparr> lv_chunks := chunks \<rparr> in
      if \<not> ok then (c1, Inl CacheWriteFailed)
      else
       let s = (lv_state c1)\<lparr> st_last_committed_seq := Some (pp_seq part),
             st_last_committed_unix_ms := Some (pp_committed_unix_ms part),
             st_last_committed_bytes := Some (pp_bytes part),
             st_last_committed_duration_ms := Some (pp_duration_ms part) \<rparr> in
       (c1\<lparr> lv_state := record_part_available s (lt_stream_id cfg) (pp_seq part) (pp_bytes part) available_us
              (if pp_duration_ms part < 2 ^ 32 then Some (pp_duration_ms part) else None) False False (lt_window_parts cfg),
            lv_part_update := pp_seq part \<rparr>, Inr ()))"

definition commit_finalized ::
  "'k chunk_lib \<Rightarrow> live_config \<Rightarrow> nat \<Rightarrow> 'k live_cache \<Rightarrow> live_state \<times> pending_part option
     \<Rightarrow> 'k live_cache \<times> (live_error + unit)" where
  "commit_finalized lib cfg available_us c fin =
     (let c1 = c\<lparr> lv_state := fst fin \<rparr> in
      case snd fin of None \<Rightarrow> (c1, Inr ()) | Some part \<Rightarrow> commit_part lib cfg part available_us c1)"

definition buffer_payload :: "bytes \<Rightarrow> nat \<Rightarrow> nat \<Rightarrow> live_state \<Rightarrow> live_state" where
  "buffer_payload payload now now_ms s =
     (let s1 = s\<lparr> st_datagrams_received := (st_datagrams_received s + 1) mod 2 ^ 64,
                  st_last_ingest_unix_ms := Some now_ms,
                  st_bytes_received := (st_bytes_received s + length payload) mod 2 ^ 64 \<rparr>;
          s2 = (if st_current s1 = []
                then s1\<lparr> st_current_started := now, st_current_started_unix_ms := now_ms \<rparr> else s1)
      in s2\<lparr> st_current := st_current s2 @ payload \<rparr>)"

definition push_payload ::
  "'k chunk_lib \<Rightarrow> live_config \<Rightarrow> bytes \<Rightarrow> nat \<Rightarrow> nat \<Rightarrow> nat \<Rightarrow> 'k live_cache \<Rightarrow> 'k live_cache \<times> (live_error + unit)" where
  "push_payload lib cfg payload now now_ms available_us c =
     (let s = buffer_payload payload now now_ms (lv_state c) in
      commit_finalized lib cfg available_us c
        (if lt_part_target_ms cfg * 1000000 \<le> sat_sub now (st_current_started s) \<or>
            lt_max_part_bytes cfg \<le> length (st_current s)
         then take_current s now now_ms else (s, None)))"

definition rotate_if_due ::
  "'k chunk_lib \<Rightarrow> live_config \<Rightarrow> bool \<Rightarrow> nat \<Rightarrow> nat \<Rightarrow> nat \<Rightarrow> 'k live_cache \<Rightarrow> 'k live_cache \<times> (live_error + unit)" where
  "rotate_if_due lib cfg force now now_ms available_us c =
     commit_finalized lib cfg available_us c
       (if force \<or> lt_part_target_ms cfg * 1000000 \<le> sat_sub now (st_current_started (lv_state c))
        then take_current (lv_state c) now now_ms else (lv_state c, None))"

section \<open>Canonical objects\<close>

text \<open>The state of a stream whose source starts a new epoch.\<close>

definition activate_epoch :: "live_config \<Rightarrow> u64 \<Rightarrow> nat \<Rightarrow> nat option \<Rightarrow> live_state \<Rightarrow> live_state" where
  "activate_epoch cfg stream_id source_epoch delay s =
     (let s1 = s\<lparr> st_canonical_epoch := tput stream_id source_epoch (st_canonical_epoch s),
           st_activation_delay_us := (case delay of
              None \<Rightarrow> tdel stream_id (st_activation_delay_us s)
            | Some d \<Rightarrow> tput stream_id d (tdel stream_id (st_activation_delay_us s))),
           st_subscription_base := tdel stream_id (st_subscription_base s),
           st_latest_canonical := tdel stream_id (st_latest_canonical s),
           st_stream_next_seq := tdel stream_id (st_stream_next_seq s),
           st_parts := tdel stream_id (st_parts s),
           st_current_segment := tdel stream_id (st_current_segment s),
           st_retained_bytes := tdel stream_id (st_retained_bytes s),
           st_max_part_ms := tdel stream_id (st_max_part_ms s),
           st_max_segment_ms := tdel stream_id (st_max_segment_ms s),
           st_inits := tdel stream_id (st_inits s),
           st_media_kinds := tdel stream_id (st_media_kinds s) \<rparr> in
      if stream_id = lt_stream_id cfg
      then s1\<lparr> st_last_committed_seq := None, st_last_committed_unix_ms := None, st_last_committed_bytes := None,
               st_last_committed_duration_ms := None \<rparr>
      else s1)"

definition activation_delay :: "live_state \<Rightarrow> u64 \<Rightarrow> nat \<Rightarrow> nat \<Rightarrow> nat option" where
  "activation_delay s stream_id source_epoch now_us =
     (if (map_of (st_canonical_epoch s) stream_id \<noteq> None \<or> st_process_started_unix_us s \<le> source_epoch) \<and>
         source_epoch \<le> now_us
      then Some (now_us - source_epoch) else None)"

definition enter_epoch ::
  "'k chunk_lib \<Rightarrow> live_config \<Rightarrow> u64 \<Rightarrow> nat \<Rightarrow> nat \<Rightarrow> 'k live_cache \<Rightarrow> 'k live_cache" where
  "enter_epoch lib cfg stream_id source_epoch now_us c =
     (if map_of (st_canonical_epoch (lv_state c)) stream_id = Some source_epoch then c
      else c\<lparr> lv_chunks := cl_zero lib (lv_chunks c) stream_id,
              lv_state := activate_epoch cfg stream_id source_epoch
                (activation_delay (lv_state c) stream_id source_epoch now_us) (lv_state c) \<rparr>)"

definition metadata_duration_ms :: "'o object_lib \<Rightarrow> 'o \<Rightarrow> nat option" where
  "metadata_duration_ms lib object =
     (case ol_metadata lib object ''duration-ms'' of
        None \<Rightarrow> None
      | Some text \<Rightarrow>
          (case parse_u32 text of None \<Rightarrow> None | Some d \<Rightarrow> if 0 < d then Some d else None))"

definition rebox_object :: "'o media_lib \<Rightarrow> 'o \<Rightarrow> bundle_error + reboxed_live_audio option" where
  "rebox_object lib object =
     (if ol_kind (ml_object lib) object = Media \<and>
         has_metadata (ml_object lib) object ''payload-format'' ''soundkit-v2-bundle''
      then (case rebox_soundkit_v2_bundle (ml_rebox lib) (ol_payload (ml_object lib) object)
                   (of_nat (ml_sequence lib object)) of
              Inl e \<Rightarrow> Inl e | Inr r \<Rightarrow> Inr (Some r))
      else Inr None)"

definition object_duration_ms :: "'o media_lib \<Rightarrow> reboxed_live_audio option \<Rightarrow> 'o \<Rightarrow> nat option" where
  "object_duration_ms lib reboxed object =
     (case reboxed of Some r \<Rightarrow> Some (unat (rl_duration_ms r)) | None \<Rightarrow> metadata_duration_ms (ml_object lib) object)"

definition object_media_bytes :: "'o media_lib \<Rightarrow> reboxed_live_audio option \<Rightarrow> 'o \<Rightarrow> nat" where
  "object_media_bytes lib reboxed object =
     (case reboxed of Some r \<Rightarrow> length (rl_media r) | None \<Rightarrow> length (ol_payload (ml_object lib) object))"

definition is_initialization :: "object_kind \<Rightarrow> bool" where
  "is_initialization kind \<longleftrightarrow> kind = Initialization \<or> kind = CodecConfiguration"

text \<open>The initialization an object brings: that of the reboxed audio or its own payload.\<close>

definition object_init :: "'o media_lib \<Rightarrow> reboxed_live_audio option \<Rightarrow> 'o \<Rightarrow> bytes option" where
  "object_init lib reboxed object =
     (if is_initialization (ol_kind (ml_object lib) object) then Some (ol_payload (ml_object lib) object)
      else map_option rl_init reboxed)"

definition note_ingest :: "u64 \<Rightarrow> nat \<Rightarrow> nat \<Rightarrow> live_media_kind \<Rightarrow> live_state \<Rightarrow> live_state" where
  "note_ingest stream_id bytes now_ms media_kind s =
     s\<lparr> st_datagrams_received := sat_add (st_datagrams_received s) 1,
        st_bytes_received := sat_add (st_bytes_received s) bytes,
        st_last_ingest_unix_ms := Some now_ms,
        st_stream_last_ingest := tput stream_id now_ms (st_stream_last_ingest s),
        st_media_kinds := tput stream_id media_kind (st_media_kinds s) \<rparr>"

definition set_init :: "u64 \<Rightarrow> bytes option \<Rightarrow> live_state \<Rightarrow> live_state" where
  "set_init stream_id init s =
     (case init of None \<Rightarrow> s | Some i \<Rightarrow> s\<lparr> st_inits := tput stream_id i (st_inits s) \<rparr>)"

definition store_init :: "'k chunk_lib \<Rightarrow> u64 \<Rightarrow> bytes option \<Rightarrow> 'k \<Rightarrow> 'k \<times> bool" where
  "store_init lib stream_id init chunks =
     (case init of None \<Rightarrow> (chunks, True) | Some i \<Rightarrow> cl_set_initialization lib chunks stream_id i)"

definition note_committed :: "nat \<Rightarrow> nat \<Rightarrow> nat \<Rightarrow> nat option \<Rightarrow> live_state \<Rightarrow> live_state" where
  "note_committed seq now_ms media_bytes duration_ms s =
     s\<lparr> st_last_committed_seq := Some (case st_last_committed_seq s of None \<Rightarrow> seq | Some l \<Rightarrow> max l seq),
        st_last_committed_unix_ms := Some now_ms, st_last_committed_bytes := Some media_bytes,
        st_last_committed_duration_ms := duration_ms \<rparr>"

definition note_canonical :: "u64 \<Rightarrow> nat \<Rightarrow> live_state \<Rightarrow> live_state" where
  "note_canonical stream_id seq s =
     s\<lparr> st_subscription_base := (case map_of (st_subscription_base s) stream_id of
          None \<Rightarrow> tput stream_id seq (st_subscription_base s) | Some _ \<Rightarrow> st_subscription_base s),
        st_latest_canonical := entry_max stream_id seq (st_latest_canonical s) \<rparr>"

definition encode_object_slot ::
  "'o media_lib \<Rightarrow> u64 \<Rightarrow> 'o \<Rightarrow> bytes \<Rightarrow> live_media_kind \<Rightarrow> reboxed_live_audio option \<Rightarrow> slot_error + bytes" where
  "encode_object_slot lib stream_id object payload media_kind reboxed =
     (case reboxed of
        Some r \<Rightarrow> encode_fmp4_slot (rl_init r) (rl_media r)
      | None \<Rightarrow> encode_canonical_live_slot (ml_object lib) stream_id object payload media_kind)"

text \<open>The last part of a commit: writing the slot of a media object and recording it.\<close>

definition commit_media ::
  "'k chunk_lib \<Rightarrow> 'o media_lib \<Rightarrow> live_config \<Rightarrow> u64 \<Rightarrow> 'o \<Rightarrow> bytes \<Rightarrow> reboxed_live_audio option \<Rightarrow> live_media_kind
     \<Rightarrow> commit_clock \<Rightarrow> 'k live_cache \<Rightarrow> 'k live_cache \<times> (live_error + nat)" where
  "commit_media lib mlib cfg stream_id object payload reboxed media_kind clk c =
     (let seq = ml_sequence mlib object;
          base = get_or seq (st_subscription_base (lv_state c)) stream_id in
      case encode_object_slot mlib stream_id object payload media_kind reboxed of
        Inl e \<Rightarrow> (c, Inl (SlotRejected e))
      | Inr cached \<Rightarrow>
         (let (chunks, written) = cl_put_contiguous lib (lv_chunks c) stream_id seq base cached;
              c1 = c\<lparr> lv_chunks := chunks \<rparr> in
          case written of
            None \<Rightarrow> (c1, Inl CacheWriteFailed)
          | Some HashConflict \<Rightarrow> (c1, Inl IdentityConflict)
          | Some PutAccepted \<Rightarrow>
              let duration_ms = object_duration_ms mlib reboxed object;
                  s = note_committed seq (ck_now_ms clk) (object_media_bytes mlib reboxed object) duration_ms
                        (note_canonical stream_id seq (lv_state c1)) in
              (c1\<lparr> lv_state := record_part_available s stream_id seq (length cached) (ck_available_us clk) duration_ms
                     (ml_keyframe mlib object) (media_kind = Fmp4) (lt_window_parts cfg),
                   lv_part_update := seq \<rparr>, Inr seq)))"

definition commit_canonical ::
  "'k chunk_lib \<Rightarrow> 'o media_lib \<Rightarrow> live_config \<Rightarrow> u64 \<Rightarrow> 'o \<Rightarrow> bytes \<Rightarrow> commit_clock
     \<Rightarrow> 'k live_cache \<Rightarrow> 'k live_cache \<times> (live_error + nat)" where
  "commit_canonical lib mlib cfg stream_id object payload clk c =
     (let olib = ml_object mlib; source_epoch = ml_epoch mlib object; seq = ml_sequence mlib object in
      if ol_stream olib object \<noteq> decimal (unat stream_id) then (c, Inl StreamMismatch)
      else if (case map_of (st_canonical_epoch (lv_state c)) stream_id of
                 None \<Rightarrow> False | Some previous \<Rightarrow> source_epoch < previous)
      then (c, Inl (StaleEpoch source_epoch (get_or 0 (st_canonical_epoch (lv_state c)) stream_id)))
      else
       let c1 = enter_epoch lib cfg stream_id source_epoch (ck_activation_us clk) c in
       case rebox_object mlib object of
         Inl e \<Rightarrow> (c1, Inl (BundleRejected e))
       | Inr reboxed \<Rightarrow>
           let media_kind = object_media_kind olib (reboxed \<noteq> None) object;
               init = object_init mlib reboxed object;
               s = set_init stream_id init (observe_stream_seq
                     (note_ingest stream_id (length payload) (ck_now_ms clk) media_kind (lv_state c1)) stream_id seq);
               (chunks, stored) = store_init lib stream_id init (lv_chunks c1);
               c2 = c1\<lparr> lv_state := s, lv_chunks := chunks \<rparr> in
           if \<not> stored then (c2, Inl InitializationFailed)
           else if ol_kind olib object \<noteq> Media then (c2, Inr seq)
           else commit_media lib mlib cfg stream_id object payload reboxed media_kind clk c2)"

section \<open>Other stream payloads\<close>

definition commit_prefixed ::
  "'k chunk_lib \<Rightarrow> 'o media_lib \<Rightarrow> live_config \<Rightarrow> u64 \<Rightarrow> bytes \<Rightarrow> commit_clock
     \<Rightarrow> 'k live_cache \<Rightarrow> 'k live_cache \<times> (live_error + nat)" where
  "commit_prefixed lib mlib cfg stream_id payload clk c =
     (let decoded = slot_decode (ml_object mlib) payload;
          s = set_init stream_id (slot_init decoded)
                (note_ingest stream_id (length payload) (ck_now_ms clk) (slot_media_kind decoded) (lv_state c));
          (s1, seq) = next_stream_seq s stream_id;
          (chunks, stored) = store_init lib stream_id (slot_init decoded) (lv_chunks c);
          c1 = c\<lparr> lv_state := s1, lv_chunks := chunks \<rparr> in
      if \<not> stored then (c1, Inl InitializationFailed)
      else
       let (chunks', ok) = cl_add lib (lv_chunks c1) stream_id seq payload;
           c2 = c1\<lparr> lv_chunks := chunks' \<rparr> in
       if \<not> ok then (c2, Inl CacheWriteFailed)
       else
        let s2 = note_committed seq (ck_now_ms clk) (length (slot_media decoded)) None (lv_state c2) in
        (c2\<lparr> lv_state := record_part_available s2 stream_id seq (length payload) (ck_available_us clk) None False False
               (lt_window_parts cfg),
             lv_part_update := seq \<rparr>, Inr seq))"

definition commit_stream_payload_inner ::
  "'k chunk_lib \<Rightarrow> 'o media_lib \<Rightarrow> live_config \<Rightarrow> u64 \<Rightarrow> bytes \<Rightarrow> 'o option \<Rightarrow> commit_clock
     \<Rightarrow> 'k live_cache \<Rightarrow> 'k live_cache \<times> (live_error + nat)" where
  "commit_stream_payload_inner lib mlib cfg stream_id payload validated_object clk c =
     (case (case validated_object of
              Some object \<Rightarrow> Inr (Some object)
            | None \<Rightarrow> decode_canonical_stream_object (ml_object mlib) payload) of
        Inl _ \<Rightarrow> (c, Inl InvalidEnvelope)
      | Inr (Some object) \<Rightarrow> commit_canonical lib mlib cfg stream_id object payload clk c
      | Inr None \<Rightarrow> commit_prefixed lib mlib cfg stream_id payload clk c)"

section \<open>Retirement\<close>

definition retire_stream :: "'k chunk_lib \<Rightarrow> u64 \<Rightarrow> 'k live_cache \<Rightarrow> 'k live_cache" where
  "retire_stream lib stream_id c =
     c\<lparr> lv_chunks := cl_zero lib (lv_chunks c) stream_id,
        lv_state := forget_stream (lv_state c) stream_id,
        lv_playlists := map (\<lambda>cached. case cached of
            None \<Rightarrow> None | Some p \<Rightarrow> if cp_stream_id p = stream_id then None else Some p) (lv_playlists c) \<rparr>"

definition still_idle :: "nat \<Rightarrow> u64 \<Rightarrow> 'k live_cache \<Rightarrow> bool" where
  "still_idle cutoff_unix_ms stream_id c \<longleftrightarrow>
     (case map_of (st_stream_last_ingest (lv_state c)) stream_id of None \<Rightarrow> False | Some t \<Rightarrow> t \<le> cutoff_unix_ms)"

fun retire_each :: "'k chunk_lib \<Rightarrow> nat \<Rightarrow> u64 list \<Rightarrow> nat \<Rightarrow> 'k live_cache \<Rightarrow> 'k live_cache \<times> nat" where
  "retire_each lib cutoff [] retired c = (c, retired)"
| "retire_each lib cutoff (stream_id # rest) retired c =
     (if still_idle cutoff stream_id c then retire_each lib cutoff rest (retired + 1) (retire_stream lib stream_id c)
      else retire_each lib cutoff rest retired c)"

definition retire_streams_idle_before ::
  "'k chunk_lib \<Rightarrow> live_config \<Rightarrow> nat \<Rightarrow> 'k live_cache \<Rightarrow> 'k live_cache \<times> nat" where
  "retire_streams_idle_before lib cfg cutoff_unix_ms c =
     retire_each lib cutoff_unix_ms
       (keys (filter (\<lambda>(stream_id, t). stream_id \<noteq> lt_stream_id cfg \<and> t \<le> cutoff_unix_ms)
          (st_stream_last_ingest (lv_state c)))) 0 c"

end
