(* ===== verification/Mp4_Init.thy ===== *)
theory Mp4_Init
  imports Text_Numbers
begin

text \<open>
  What the playlists read from an fMP4 initialization segment, in \<open>src/src/main.rs\<close>: the codec strings
  of a master playlist (\<open>hls_codecs_from_init\<close> with the box and descriptor readers below it) and whether
  the segment holds audio only.
\<close>

section \<open>Searching\<close>

text \<open>\<open>init.windows(k).any(|w| w == pattern)\<close>, for a pattern of length \<open>k\<close>.\<close>

fun has_window :: "bytes \<Rightarrow> bytes \<Rightarrow> bool" where
  "has_window pattern [] \<longleftrightarrow> pattern = []"
| "has_window pattern (b # bs) \<longleftrightarrow> take (length pattern) (b # bs) = pattern \<or> has_window pattern bs"

definition fmp4_init_is_audio_only :: "bytes \<Rightarrow> bool" where
  "fmp4_init_is_audio_only init \<longleftrightarrow>
     list_ex (\<lambda>entry. has_window (ascii entry) init) [''fLaC'', ''alac'', ''Opus'', ''mp4a'', ''ipcm'', ''fpcm''] \<and>
     \<not> list_ex (\<lambda>configuration. has_window (ascii configuration) init) [''avcC'', ''hvcC'', ''av1C'', ''vpcC'']"

definition fmp4_content_type_from_init :: "bytes option \<Rightarrow> string" where
  "fmp4_content_type_from_init init =
     (case init of None \<Rightarrow> ''video/mp4''
      | Some i \<Rightarrow> if fmp4_init_is_audio_only i then ''audio/mp4'' else ''video/mp4'')"

section \<open>Boxes and descriptors\<close>

text \<open>\<open>input.get(i..j)\<close>.\<close>

definition get_range :: "bytes \<Rightarrow> nat \<Rightarrow> nat \<Rightarrow> bytes option" where
  "get_range input i j = (if i \<le> j \<and> j \<le> length input then Some (slice i (j - i) input) else None)"

definition get_from :: "bytes \<Rightarrow> nat \<Rightarrow> bytes option" where
  "get_from input i = (if i \<le> length input then Some (drop i input) else None)"

definition get_byte :: "bytes \<Rightarrow> nat \<Rightarrow> u8 option" where
  "get_byte input i = (if i < length input then Some (input ! i) else None)"

text \<open>The loop over \<open>type_offset\<close> in \<open>4..input.len().saturating_sub(3)\<close>, with the offsets that remain.\<close>

fun box_scan :: "bytes \<Rightarrow> bytes \<Rightarrow> nat list \<Rightarrow> bytes option" where
  "box_scan input box_type [] = None"
| "box_scan input box_type (type_offset # offsets) =
     (if get_range input type_offset (type_offset + 4) \<noteq> Some box_type then box_scan input box_type offsets
      else let size_offset = type_offset - 4 in
       case get_range input size_offset type_offset of
         None \<Rightarrow> None
       | Some field \<Rightarrow>
           let size = unat (from_be field :: u32) in
           if size < 8 then box_scan input box_type offsets
           else (case checked_add size_offset size of
              None \<Rightarrow> None
            | Some box_end \<Rightarrow>
                if box_end \<le> length input then get_range input (type_offset + 4) box_end
                else box_scan input box_type offsets))"

definition mp4_box_payload :: "bytes \<Rightarrow> bytes \<Rightarrow> bytes option" where
  "mp4_box_payload input box_type = box_scan input box_type [4 ..< length input - 3]"

text \<open>The loop that reads a length of up to four groups of seven bits; \<open>n\<close> rounds remain. The answer is
  the offset behind the length and the length.\<close>

fun descriptor_length :: "bytes \<Rightarrow> nat \<Rightarrow> nat \<Rightarrow> nat \<Rightarrow> (nat \<times> nat) option" where
  "descriptor_length input 0 header_length payload_length = None"
| "descriptor_length input (Suc n) header_length payload_length =
     (case get_byte input header_length of
        None \<Rightarrow> None
      | Some byte \<Rightarrow>
          if payload_length * 128 \<le> u64_max \<and> payload_length * 128 + unat byte mod 128 \<le> u64_max then
            (if unat byte < 128 then Some (header_length + 1, payload_length * 128 + unat byte mod 128)
             else descriptor_length input n (header_length + 1) (payload_length * 128 + unat byte mod 128))
          else None)"

definition mp4_descriptor :: "bytes \<Rightarrow> (u8 \<times> bytes \<times> nat) option" where
  "mp4_descriptor input =
     (case get_byte input 0 of
        None \<Rightarrow> None
      | Some tag \<Rightarrow>
          (case descriptor_length input 4 1 0 of
             None \<Rightarrow> None
           | Some (header_length, payload_length) \<Rightarrow>
               (case checked_add header_length payload_length of
                  None \<Rightarrow> None
                | Some e \<Rightarrow> map_option (\<lambda>payload. (tag, payload, e)) (get_range input header_length e))))"

section \<open>Codec strings\<close>

definition hls_avc_codec_from_init :: "bytes \<Rightarrow> bytes option" where
  "hls_avc_codec_from_init init =
     (case mp4_box_payload init (ascii ''avcC'') of
        None \<Rightarrow> None
      | Some avcc \<Rightarrow>
          if length avcc < 4 \<or> avcc ! 0 \<noteq> 1 then None
          else Some (ascii ''avc1.'' @ hex2 (avcc ! 1) @ hex2 (avcc ! 2) @ hex2 (avcc ! 3)))"

text \<open>Where the decoder configuration starts: behind the optional dependency, address and clock fields.\<close>

definition decoder_offset :: "bytes \<Rightarrow> nat option" where
  "decoder_offset es_descriptor =
     (let flags = unat (es_descriptor ! 2);
          o1 = (if flags div 128 mod 2 = 1 then 5 else 3) in
      Option.bind
        (if flags div 64 mod 2 = 1
         then Option.bind (get_byte es_descriptor o1)
                (\<lambda>url_length. Option.bind (checked_add o1 1) (\<lambda>x. checked_add x (unat url_length)))
         else Some o1)
        (\<lambda>o2. if flags div 32 mod 2 = 1 then checked_add o2 2 else Some o2))"

definition audio_object_type :: "bytes \<Rightarrow> nat option" where
  "audio_object_type config =
     (case get_byte config 0 of
        None \<Rightarrow> None
      | Some first \<Rightarrow>
          if unat first div 8 = 31
          then (case get_byte config 1 of
                  None \<Rightarrow> None
                | Some second \<Rightarrow> Some (32 + (unat first mod 8 * 8 + unat second div 32)))
          else Some (unat first div 8))"

definition hls_aac_codec_from_init :: "bytes \<Rightarrow> bytes option" where
  "hls_aac_codec_from_init init =
     Option.bind (mp4_box_payload init (ascii ''esds'')) (\<lambda>esds.
     Option.bind (get_from esds 4) (\<lambda>body.
     Option.bind (mp4_descriptor body) (\<lambda>(tag, es_descriptor, _).
       if tag \<noteq> 3 \<or> length es_descriptor < 3 then None
       else
     Option.bind (decoder_offset es_descriptor) (\<lambda>offset.
     Option.bind (get_from es_descriptor offset) (\<lambda>rest.
     Option.bind (mp4_descriptor rest) (\<lambda>(tag, decoder_config, _).
       if tag \<noteq> 4 \<or> length decoder_config < 13 then None
       else
     Option.bind (get_from decoder_config 13) (\<lambda>specific.
     Option.bind (mp4_descriptor specific) (\<lambda>(tag, audio_specific_config, _).
       if tag \<noteq> 5 then None
       else
     Option.bind (audio_object_type audio_specific_config) (\<lambda>aot.
       if aot = 0 then None
       else Some (ascii ''mp4a.'' @ hex2 (decoder_config ! 0) @ ascii ''.'' @ decimal aot))))))))))"

definition hls_codecs_from_init :: "bytes \<Rightarrow> bytes option" where
  "hls_codecs_from_init init =
     (let audio = (if has_window (ascii ''mp4a'') init then map_option (\<lambda>c. [c]) (hls_aac_codec_from_init init)
            else if has_window (ascii ''fLaC'') init then Some [ascii ''fLaC'']
            else if has_window (ascii ''alac'') init then Some [ascii ''alac'']
            else if has_window (ascii ''Opus'') init then Some [ascii ''opus'']
            else if has_window (ascii ''ipcm'') init then Some [ascii ''ipcm'']
            else Some []);
          video = (if has_window (ascii ''avcC'') init then map_option (\<lambda>c. [c]) (hls_avc_codec_from_init init)
            else Some []) in
      Option.bind video (\<lambda>v. Option.bind audio (\<lambda>a.
        case v @ a of
          [] \<Rightarrow> None
        | [c] \<Rightarrow> Some c
        | c # d # _ \<Rightarrow> Some (c @ ascii '','' @ d))))"

section \<open>Reading back what a muxer writes\<close>

definition mp4_box :: "bytes \<Rightarrow> bytes \<Rightarrow> bytes" where
  "mp4_box box_type payload = u32_be (of_nat (8 + length payload)) @ box_type @ payload"

definition descriptor :: "u8 \<Rightarrow> bytes \<Rightarrow> bytes" where
  "descriptor tag payload = [tag, of_nat (length payload)] @ payload"

definition specific_config :: "nat \<Rightarrow> bytes" where
  "specific_config aot =
     (if aot < 31 then [of_nat (aot * 8), 0]
      else [of_nat (248 + (aot - 32) div 8), of_nat ((aot - 32) mod 8 * 32)])"

definition esds_box :: "u8 \<Rightarrow> nat \<Rightarrow> bytes" where
  "esds_box oti aot = mp4_box (ascii ''esds'') ([0, 0, 0, 0] @ descriptor 3 ([0, 1, 0] @
     descriptor 4 ([oti, 0, 0, 0, 0, 0, 0, 0, 0, 0, 0, 0, 0] @ descriptor 5 (specific_config aot))))"

lemma box_scan_skip:
  assumes "\<forall>k \<in> set offs. slice k 4 input \<noteq> box_type"
  shows "box_scan input box_type (offs @ rest) = box_scan input box_type rest"
  using assms by (induction offs) (auto simp: get_range_def)

lemma box_scan_hit:
  assumes "input = pre @ mp4_box box_type payload @ post" "length box_type = 4" "length input < 2 ^ 32"
  shows "box_scan input box_type ((length pre + 4) # rest) = Some payload"
proof -
  have type: "slice (length pre + 4) 4 input = box_type" "slice (length pre) 4 input = u32_be (of_nat (8 + length payload))"
    "slice (length pre + 8) (length payload) input = payload"
    using assms(2) by (simp_all add: assms(1) mp4_box_def slice_eval)
  have len: "length input = length pre + 8 + length payload + length post"
    using assms(2) by (simp add: assms(1) mp4_box_def)
  then have "unat (from_be (slice (length pre) 4 input) :: u32) = 8 + length payload"
    using assms(3) by (simp add: type(2) be32.dec_enc unat_of_nat_small del: of_nat_add)
  then show ?thesis
    using type len assms(3) by (simp add: get_range_def checked_add_def u64_max_def add.assoc)
qed

lemma mp4_box_payload_found:
  assumes "input = pre @ mp4_box box_type payload @ post" "length box_type = 4" "length input < 2 ^ 32"
    and "\<forall>k < length pre + 4. slice k 4 input \<noteq> box_type"
  shows "mp4_box_payload input box_type = Some payload"
proof -
  have "length pre + 4 < length input - 3"
    using assms(2) by (simp add: assms(1) mp4_box_def)
  then have "[4 ..< length input - 3] = [4 ..< length pre + 4] @ (length pre + 4) # [length pre + 5 ..< length input - 3]"
    using upt_add_eq_append [of 4 "length pre + 4" "length input - 3 - (length pre + 4)"]
      upt_conv_Cons [of "length pre + 4" "length input - 3"] by (simp add: add.commute)
  then show ?thesis
    using box_scan_skip [of "[4 ..< length pre + 4]" input box_type] box_scan_hit [OF assms(1-3)] assms(4)
    by (simp add: mp4_box_payload_def)
qed

lemma mp4_descriptor_back:
  assumes "length payload < 128"
  shows "mp4_descriptor (descriptor tag payload @ post) = Some (tag, payload, 2 + length payload)"
proof -
  have "descriptor_length (descriptor tag payload @ post) 4 1 0 = Some (2, length payload)"
    using assms descriptor_length.simps(2) [of "descriptor tag payload @ post" 3 1 0]
    by (simp add: descriptor_def get_byte_def u64_max_def)
  moreover have "get_range (descriptor tag payload @ post) 2 (2 + length payload) = Some payload"
    by (simp add: get_range_def descriptor_def slice_eval)
  ultimately show ?thesis
    using assms by (simp add: mp4_descriptor_def get_byte_def descriptor_def checked_add_def u64_max_def)
qed

lemma audio_object_type_back:
  assumes "aot < 31 \<or> (32 \<le> aot \<and> aot < 96)"
  shows "audio_object_type (specific_config aot) = Some aot"
proof (cases "aot < 31")
  case True
  then have "unat (of_nat (aot * 8) :: u8) = aot * 8" by (intro unat_byte) simp
  then show ?thesis
    using True by (simp add: audio_object_type_def specific_config_def get_byte_def)
next
  case False
  define d m where "d = (aot - 32) div 8" and "m = (aot - 32) mod 8"
  have dm: "aot = 32 + (d * 8 + m)" "d < 8" "m < 8"
    using assms False by (auto simp: d_def m_def div_less_iff_less_mult)
  have "unat (of_nat (248 + d) :: u8) = 248 + d" "unat (of_nat (m * 32) :: u8) = m * 32"
    using dm(2,3) by (auto intro!: unat_byte simp del: of_nat_add of_nat_mult)
  moreover have "(248 + d) div 8 = 31" "(248 + d) mod 8 = d"
    using dm(2) by (auto simp: div_nat_eqI mod_nat_eqI)
  ultimately show ?thesis
    using False dm by (simp add: audio_object_type_def specific_config_def get_byte_def d_def [symmetric] m_def [symmetric])
qed

section \<open>Properties\<close>

text \<open>the codec string of an AAC track is read back from the \<open>esds\<close> box that a muxer writes, for
  every object type indication and every audio object type, the escaped ones included.\<close>

theorem aac_codec_round_trip:
  assumes "init = pre @ esds_box oti aot @ post" "length init < 2 ^ 32"
    and "\<forall>k < length pre + 4. slice k 4 init \<noteq> ascii ''esds''"
    and "0 < aot" "aot \<noteq> 31" "aot < 96"
  shows "hls_aac_codec_from_init init = Some (ascii ''mp4a.'' @ hex2 oti @ ascii ''.'' @ decimal aot)"
proof -
  let ?d5 = "descriptor 5 (specific_config aot)"
  let ?c4 = "[oti, 0, 0, 0, 0, 0, 0, 0, 0, 0, 0, 0, 0] @ ?d5"
  let ?c3 = "[0, 1, 0] @ descriptor 4 ?c4"
  have len: "length (specific_config aot) = 2" by (simp add: specific_config_def)
  have box: "mp4_box_payload init (ascii ''esds'') = Some ([0, 0, 0, 0] @ descriptor 3 ?c3)"
    using mp4_box_payload_found [OF assms(1) [unfolded esds_box_def]] assms(2,3) by simp
  have d: "mp4_descriptor (descriptor 3 ?c3) = Some (3, ?c3, 24)" "mp4_descriptor (descriptor 4 ?c4) = Some (4, ?c4, 19)"
    "mp4_descriptor ?d5 = Some (5, specific_config aot, 4)"
    using mp4_descriptor_back [of ?c3 3 "[]"] mp4_descriptor_back [of ?c4 4 "[]"]
      mp4_descriptor_back [of "specific_config aot" 5 "[]"] by (simp_all add: len descriptor_def)
  have "decoder_offset ?c3 = Some 3"
    by (simp add: decoder_offset_def)
  moreover have "audio_object_type (specific_config aot) = Some aot"
    using assms(4-6) by (intro audio_object_type_back) linarith
  ultimately show ?thesis
    using d assms(4) by (simp add: hls_aac_codec_from_init_def box get_from_def)
qed

theorem aac_codec_round_trip_witness:
  "hls_aac_codec_from_init (esds_box 64 2 @ [9]) = Some (ascii ''mp4a.40.2'')"
proof -
  have "\<forall>k < length [] + 4. slice k 4 (esds_box 64 2 @ [9]) \<noteq> ascii ''esds''"
    by code_simp
  then have "hls_aac_codec_from_init (esds_box 64 2 @ [9]) =
      Some (ascii ''mp4a.'' @ hex2 64 @ ascii ''.'' @ decimal 2)"
    by (intro aac_codec_round_trip [of _ "[]" _ _ "[9]"]) (simp_all add: esds_box_def mp4_box_def descriptor_def specific_config_def)
  moreover have "ascii ''mp4a.'' @ hex2 64 @ ascii ''.'' @ decimal 2 = ascii ''mp4a.40.2''"
    by code_simp
  ultimately show ?thesis by simp
qed

end
