(* ===== verification/Hls_Playlist.thy ===== *)
theory Hls_Playlist
  imports Live_Cache Mp4_Init
begin

text \<open>
  Low-latency HLS from the live cache, in \<open>src/src/main.rs\<close>: the media playlist of a stream
  (\<open>playlist_for_stream_id\<close> with its cache and the empty and waiting playlists), the test a blocking
  reload waits for, and the bodies of segments.

  A playlist is built as a list of lines and then printed. Durations are whole milliseconds and are
  printed with three decimals from them: the code divides by 1000 in \<open>f64\<close>, whose error is far below half
  a millisecond for the sums a window allows. The date of a program comes from the crate \<open>chrono\<close> and is
  the parameter \<open>date\<close>.
\<close>

section \<open>Reading the cache\<close>

definition stream_position_for_id :: "'k chunk_lib \<Rightarrow> 'k live_cache \<Rightarrow> u64 \<Rightarrow> (nat \<times> nat) option" where
  "stream_position_for_id lib c stream_id =
     Option.bind (cl_stream_idx lib (lv_chunks c) stream_id) (\<lambda>idx.
       map_option (\<lambda>l. (idx, l)) (cl_last lib (lv_chunks c) idx))"

definition remember_media_kind :: "u64 \<Rightarrow> live_media_kind \<Rightarrow> 'k live_cache \<Rightarrow> 'k live_cache" where
  "remember_media_kind stream_id media_kind c =
     c\<lparr> lv_state := (lv_state c)\<lparr> st_media_kinds := tput stream_id media_kind (st_media_kinds (lv_state c)) \<rparr> \<rparr>"

definition media_kind_hint :: "'k live_cache \<Rightarrow> u64 \<Rightarrow> live_media_kind option" where
  "media_kind_hint c stream_id = map_of (st_media_kinds (lv_state c)) stream_id"

definition remember_stream_init :: "'k chunk_lib \<Rightarrow> u64 \<Rightarrow> bytes \<Rightarrow> 'k live_cache \<Rightarrow> 'k live_cache" where
  "remember_stream_init lib stream_id init c =
     c\<lparr> lv_state := set_init stream_id (Some init) (lv_state c),
        lv_chunks := fst (cl_set_initialization lib (lv_chunks c) stream_id init) \<rparr>"

definition read_slot ::
  "'k chunk_lib \<Rightarrow> 'o object_lib \<Rightarrow> 'k live_cache \<Rightarrow> u64 \<Rightarrow> nat \<Rightarrow> nat \<Rightarrow> live_slot_payload option" where
  "read_slot lib olib c stream_id idx seq =
     map_option (\<lambda>(bytes, _). decode_for_stream olib bytes stream_id) (cl_get lib (lv_chunks c) idx seq)"

fun find_init :: "'k chunk_lib \<Rightarrow> 'o object_lib \<Rightarrow> 'k live_cache \<Rightarrow> u64 \<Rightarrow> nat \<Rightarrow> nat list \<Rightarrow> bytes option" where
  "find_init lib olib c stream_id idx [] = None"
| "find_init lib olib c stream_id idx (seq # seqs) =
     (case read_slot lib olib c stream_id idx seq of
        None \<Rightarrow> find_init lib olib c stream_id idx seqs
      | Some slot \<Rightarrow>
          (case slot_init slot of None \<Rightarrow> find_init lib olib c stream_id idx seqs | Some init \<Rightarrow> Some init))"

definition get_init_for_stream_id ::
  "'k chunk_lib \<Rightarrow> 'o object_lib \<Rightarrow> u64 \<Rightarrow> 'k live_cache \<Rightarrow> 'k live_cache \<times> bytes option" where
  "get_init_for_stream_id lib olib stream_id c =
     (case map_of (st_inits (lv_state c)) stream_id of
        Some init \<Rightarrow> (c, Some init)
      | None \<Rightarrow>
         (case cl_initialization lib (lv_chunks c) stream_id of
            Some init \<Rightarrow> (remember_stream_init lib stream_id init c, Some init)
          | None \<Rightarrow>
             (case stream_position_for_id lib c stream_id of
                None \<Rightarrow> (c, None)
              | Some (idx, l) \<Rightarrow>
                 (case find_init lib olib c stream_id idx (rev [cl_retained_start lib (lv_chunks c) l ..< Suc l]) of
                    None \<Rightarrow> (c, None)
                  | Some init \<Rightarrow> (remember_stream_init lib stream_id init c, Some init)))))"

definition read_part_for_stream_id ::
  "'k chunk_lib \<Rightarrow> 'o object_lib \<Rightarrow> 'k live_cache \<Rightarrow> u64 \<Rightarrow> nat
     \<Rightarrow> (bytes \<times> nat \<times> live_media_kind \<times> bytes option) option" where
  "read_part_for_stream_id lib olib c stream_id seq =
     (case cl_get_for_stream lib (lv_chunks c) stream_id seq of
        None \<Rightarrow> None
      | Some (bytes, hash) \<Rightarrow>
          let slot = decode_for_stream olib bytes stream_id in
          if slot_has_media slot then Some (slot_media slot, hash, slot_media_kind slot, slot_init slot) else None)"

definition get_part_for_stream_id ::
  "'k chunk_lib \<Rightarrow> 'o object_lib \<Rightarrow> u64 \<Rightarrow> nat \<Rightarrow> 'k live_cache \<Rightarrow> 'k live_cache \<times> (bytes \<times> nat) option" where
  "get_part_for_stream_id lib olib stream_id seq c =
     (case read_part_for_stream_id lib olib c stream_id seq of
        None \<Rightarrow> (c, None)
      | Some (media, hash, media_kind, init) \<Rightarrow>
          let c1 = (case init of None \<Rightarrow> c | Some i \<Rightarrow> remember_stream_init lib stream_id i c) in
          (remember_media_kind stream_id media_kind c1, Some (media, hash)))"

section \<open>The parts of a playlist\<close>

record playlist_part =
  pt_sequence :: nat
  pt_duration_ms :: nat
  pt_keyframe :: bool
  pt_segment_id :: "nat option"
  pt_available_unix_us :: nat

definition window_first :: "live_config \<Rightarrow> nat \<Rightarrow> nat" where
  "window_first cfg l = sat_sub l (sat_sub (lt_window_parts cfg) 1)"

definition scan_window ::
  "'k chunk_lib \<Rightarrow> 'o object_lib \<Rightarrow> live_config \<Rightarrow> 'k live_cache \<Rightarrow> u64 \<Rightarrow> nat \<Rightarrow> nat \<Rightarrow> (nat \<times> live_slot_payload) list" where
  "scan_window lib olib cfg c stream_id idx l =
     List.map_filter (\<lambda>seq. case read_slot lib olib c stream_id idx seq of
         None \<Rightarrow> None | Some slot \<Rightarrow> if slot_has_media slot then Some (seq, slot) else None)
       [window_first cfg l ..< Suc l]"

fun last_init :: "(nat \<times> live_slot_payload) list \<Rightarrow> bytes option" where
  "last_init [] = None"
| "last_init ((_, slot) # rest) = (case last_init rest of Some i \<Rightarrow> Some i | None \<Rightarrow> slot_init slot)"

definition nominal_part_ms :: "live_config \<Rightarrow> nat" where
  "nominal_part_ms cfg = clamp (lt_part_target_ms cfg) 1 (2 ^ 32 - 1)"

definition part_target_ms :: "live_config \<Rightarrow> live_state \<Rightarrow> u64 \<Rightarrow> nat" where
  "part_target_ms cfg s stream_id =
     max (get_or (nominal_part_ms cfg) (st_max_part_ms s) stream_id) (nominal_part_ms cfg)"

definition describe_part :: "live_config \<Rightarrow> live_state \<Rightarrow> u64 \<Rightarrow> nat \<Rightarrow> playlist_part" where
  "describe_part cfg s stream_id seq =
     (let observation = Option.bind (map_of (st_parts s) stream_id) (\<lambda>parts. map_of parts seq) in
      \<lparr> pt_sequence = seq,
        pt_duration_ms = (case Option.bind observation po_duration_ms of None \<Rightarrow> nominal_part_ms cfg | Some d \<Rightarrow> d),
        pt_keyframe = (case observation of None \<Rightarrow> False | Some p \<Rightarrow> po_keyframe p),
        pt_segment_id = Option.bind observation po_fmp4_segment_id,
        pt_available_unix_us = (case observation of None \<Rightarrow> 0 | Some p \<Rightarrow> po_available_unix_us p) \<rparr>)"

type_synonym part_groups = "(nat \<times> playlist_part list) list"

definition part_segment :: "bool \<Rightarrow> nat \<Rightarrow> playlist_part \<Rightarrow> nat option" where
  "part_segment aligned parts_per_segment part =
     (if aligned then pt_segment_id part else Some (pt_sequence part div parts_per_segment))"

fun group_parts :: "bool \<Rightarrow> nat \<Rightarrow> playlist_part list \<Rightarrow> part_groups \<Rightarrow> part_groups" where
  "group_parts aligned pps [] groups = groups"
| "group_parts aligned pps (part # parts) groups =
     group_parts aligned pps parts
       (case part_segment aligned pps part of
          None \<Rightarrow> groups
        | Some segment_id \<Rightarrow> bput segment_id (get_or [] groups segment_id @ [part]) groups)"

text \<open>The parents that the start of the window has cut are left out.\<close>

definition trim_groups :: "bool \<Rightarrow> nat \<Rightarrow> part_groups \<Rightarrow> part_groups" where
  "trim_groups aligned pps groups =
     (if aligned then filter (\<lambda>(_, parts). parts \<noteq> [] \<and> pt_keyframe (hd parts)) groups
      else if 1 < length groups \<and>
              (case groups of (first_segment, part # _) # _ \<Rightarrow> pt_sequence part \<noteq> sat_mul first_segment pps | _ \<Rightarrow> False)
      then tl groups else groups)"

definition open_segment :: "bool \<Rightarrow> part_groups \<Rightarrow> nat option" where
  "open_segment aligned groups = (if aligned \<and> groups \<noteq> [] then Some (fst (last groups)) else None)"

definition segment_is_complete :: "bool \<Rightarrow> nat \<Rightarrow> part_groups \<Rightarrow> nat \<times> playlist_part list \<Rightarrow> bool" where
  "segment_is_complete aligned pps groups entry \<longleftrightarrow>
     (if aligned then Some (fst entry) \<noteq> open_segment aligned groups else length (snd entry) = pps)"

definition group_duration_ms :: "playlist_part list \<Rightarrow> nat" where
  "group_duration_ms parts = sum_list (map pt_duration_ms parts) mod 2 ^ 64"

fun max_option :: "nat list \<Rightarrow> nat option" where
  "max_option [] = None"
| "max_option (x # xs) = Some (case max_option xs of None \<Rightarrow> x | Some y \<Rightarrow> max x y)"

definition observed_segment_ms :: "bool \<Rightarrow> nat \<Rightarrow> part_groups \<Rightarrow> nat option" where
  "observed_segment_ms aligned pps groups =
     max_option (map (group_duration_ms \<circ> snd) (filter (segment_is_complete aligned pps groups) groups))"

definition fallback_segment_ms :: "live_config \<Rightarrow> nat" where
  "fallback_segment_ms cfg = (nominal_part_ms cfg * lt_parts_per_segment cfg) mod 2 ^ 64"

definition note_segment_ms :: "u64 \<Rightarrow> nat option \<Rightarrow> live_state \<Rightarrow> live_state" where
  "note_segment_ms stream_id observed s =
     (case observed of None \<Rightarrow> s | Some d \<Rightarrow> s\<lparr> st_max_segment_ms := entry_max stream_id d (st_max_segment_ms s) \<rparr>)"

definition segment_target_ms :: "live_config \<Rightarrow> live_state \<Rightarrow> u64 \<Rightarrow> nat" where
  "segment_target_ms cfg s stream_id =
     max (get_or (fallback_segment_ms cfg) (st_max_segment_ms s) stream_id) (fallback_segment_ms cfg)"

definition hls_target_duration_from_millis :: "nat \<Rightarrow> nat" where
  "hls_target_duration_from_millis duration_ms = max (sat_add duration_ms 500 div 1000) 1"

section \<open>Lines and their text\<close>

datatype hls_line =
    ExtM3u
  | Version
  | TargetDuration nat
  | MediaSequence nat
  | IndependentSegments
  | MapInit
  | PartInf nat
  | ServerControl nat nat
  | ProgramDateTime bytes
  | Part nat nat live_media_kind bool
  | ExtInf nat
  | SegmentUri nat live_media_kind
  | PreloadHint nat live_media_kind

definition quoted :: "bytes \<Rightarrow> bytes" where
  "quoted s = [34] @ s @ [34]"

definition part_uri :: "nat \<Rightarrow> live_media_kind \<Rightarrow> bytes" where
  "part_uri seq kind = ascii ''part'' @ decimal seq @ ascii ''.'' @ ascii (extension kind)"

fun line_text :: "hls_line \<Rightarrow> bytes" where
  "line_text ExtM3u = ascii ''#EXTM3U''"
| "line_text Version = ascii ''#EXT-X-VERSION:10''"
| "line_text (TargetDuration n) = ascii ''#EXT-X-TARGETDURATION:'' @ decimal n"
| "line_text (MediaSequence n) = ascii ''#EXT-X-MEDIA-SEQUENCE:'' @ decimal n"
| "line_text IndependentSegments = ascii ''#EXT-X-INDEPENDENT-SEGMENTS''"
| "line_text MapInit = ascii ''#EXT-X-MAP:URI='' @ quoted (ascii ''init.mp4'')"
| "line_text (PartInf ms) = ascii ''#EXT-X-PART-INF:PART-TARGET='' @ thousandths ms"
| "line_text (ServerControl part_ms hold_ms) =
     ascii ''#EXT-X-SERVER-CONTROL:CAN-BLOCK-RELOAD=YES,PART-HOLD-BACK='' @ thousandths part_ms @
     ascii '',HOLD-BACK='' @ thousandths hold_ms"
| "line_text (ProgramDateTime text) = ascii ''#EXT-X-PROGRAM-DATE-TIME:'' @ text"
| "line_text (Part ms seq kind independent) =
     ascii ''#EXT-X-PART:DURATION='' @ thousandths ms @ ascii '',URI='' @ quoted (part_uri seq kind) @
     (if independent then ascii '',INDEPENDENT=YES'' else [])"
| "line_text (ExtInf ms) = ascii ''#EXTINF:'' @ thousandths ms @ ascii '',''"
| "line_text (SegmentUri segment kind) = ascii ''seg'' @ decimal segment @ ascii ''.'' @ ascii (extension kind)"
| "line_text (PreloadHint seq kind) = ascii ''#EXT-X-PRELOAD-HINT:TYPE=PART,URI='' @ quoted (part_uri seq kind)"

definition playlist_text :: "hls_line list \<Rightarrow> bytes" where
  "playlist_text ls = concat (map (\<lambda>l. line_text l @ [10]) ls)"

definition hold_back_ms :: "nat \<Rightarrow> nat" where
  "hold_back_ms target_duration = max (target_duration * 3) 3 * 1000"

definition initial_target :: "live_config \<Rightarrow> nat" where
  "initial_target cfg = hls_target_duration_from_millis ((lt_part_target_ms cfg * lt_parts_per_segment cfg) mod 2 ^ 64)"

definition empty_playlist :: "live_config \<Rightarrow> nat \<Rightarrow> live_media_kind \<Rightarrow> bool \<Rightarrow> hls_line list" where
  "empty_playlist cfg next_part media_kind include_map =
     [ExtM3u, Version, TargetDuration (initial_target cfg), MediaSequence 0] @
     (if include_map then [MapInit] else []) @
     [PartInf (lt_part_target_ms cfg), ServerControl (lt_part_target_ms cfg * 3) (hold_back_ms (initial_target cfg))] @
     (if media_kind = Fmp4 \<and> \<not> include_map then [] else [PreloadHint next_part media_kind])"

definition waiting_playlist :: "live_config \<Rightarrow> bool \<Rightarrow> hls_line list" where
  "waiting_playlist cfg include_map =
     [ExtM3u, Version, TargetDuration (initial_target cfg), MediaSequence 0] @
     (if include_map then [MapInit] else []) @
     [PartInf (lt_part_target_ms cfg), ServerControl (lt_part_target_ms cfg * 3) (hold_back_ms (initial_target cfg))]"

text \<open>The date at which the first part of the playlist began.\<close>

definition program_date :: "(nat \<Rightarrow> bytes option) \<Rightarrow> part_groups \<Rightarrow> bytes option" where
  "program_date date groups =
     (case groups of
        (_, part # _) # _ \<Rightarrow>
          let start = sat_sub (pt_available_unix_us part) (sat_mul (pt_duration_ms part) 1000) in
          if start < 2 ^ 63 then date start else None
      | _ \<Rightarrow> None)"

definition first_parted_segment :: "nat \<Rightarrow> nat \<Rightarrow> part_groups \<Rightarrow> nat" where
  "first_parted_segment target_duration target_ms groups =
     (let last_segment = (if groups = [] then 0 else fst (last groups));
          d = max target_ms 1;
          parted = max ((sat_mul target_duration 3000 + d - 1) div d) 1
      in sat_sub last_segment (sat_sub parted 1))"

definition group_lines ::
  "live_media_kind \<Rightarrow> bool \<Rightarrow> nat \<Rightarrow> (nat \<times> playlist_part list \<Rightarrow> bool) \<Rightarrow> nat \<times> playlist_part list \<Rightarrow> hls_line list" where
  "group_lines media_kind audio_only first_parted complete entry =
     (if fst entry < first_parted then []
      else map (\<lambda>part. Part (pt_duration_ms part) (pt_sequence part) media_kind
             ((pt_keyframe part \<or> audio_only) \<and> media_kind = Fmp4)) (snd entry)) @
     (if complete entry then [ExtInf (sum_list (map pt_duration_ms (snd entry))), SegmentUri (fst entry) media_kind] else [])"

definition playlist_lines ::
  "(nat \<Rightarrow> bytes option) \<Rightarrow> live_config \<Rightarrow> live_state \<Rightarrow> u64 \<Rightarrow> live_media_kind \<Rightarrow> bytes option \<Rightarrow> bool
     \<Rightarrow> part_groups \<Rightarrow> nat \<Rightarrow> nat \<Rightarrow> hls_line list" where
  "playlist_lines date cfg s stream_id media_kind init aligned groups part_target next_part =
     (let target_ms = segment_target_ms cfg s stream_id;
          target_duration = hls_target_duration_from_millis target_ms;
          audio_only = (media_kind = Fmp4 \<and> (case init of None \<Rightarrow> False | Some i \<Rightarrow> fmp4_init_is_audio_only i))
      in [ExtM3u, Version, TargetDuration target_duration,
          MediaSequence (if groups = [] then 0 else fst (hd groups))] @
         (if aligned \<or> audio_only then [IndependentSegments] else []) @
         (if media_kind = Fmp4 \<and> init \<noteq> None then [MapInit] else []) @
         [PartInf part_target, ServerControl (part_target * 3) (hold_back_ms target_duration)] @
         (case program_date date groups of None \<Rightarrow> [] | Some d \<Rightarrow> [ProgramDateTime d]) @
         concat (map (group_lines media_kind audio_only (first_parted_segment target_duration target_ms groups)
           (segment_is_complete aligned (lt_parts_per_segment cfg) groups)) groups) @
         [PreloadHint next_part media_kind])"

section \<open>The playlist of a stream\<close>

definition cached_playlist_body :: "'k live_cache \<Rightarrow> u64 \<Rightarrow> nat \<Rightarrow> nat \<Rightarrow> bytes option" where
  "cached_playlist_body c stream_id idx version =
     (if idx < length (lv_playlists c) then
        (case lv_playlists c ! idx of
           None \<Rightarrow> None
         | Some p \<Rightarrow> if cp_stream_id p = stream_id \<and> cp_version p = version then Some (cp_body p) else None)
      else None)"

definition cache_playlist ::
  "'k chunk_lib \<Rightarrow> u64 \<Rightarrow> nat \<Rightarrow> nat \<Rightarrow> 'k live_cache \<times> hls_line list \<Rightarrow> 'k live_cache \<times> bytes" where
  "cache_playlist lib stream_id idx version r =
     (let c = fst r; body = playlist_text (snd r) in
      if cl_version lib (lv_chunks c) idx \<noteq> Some version then (c, body)
      else (c\<lparr> lv_playlists := (lv_playlists c)[idx := Some \<lparr> cp_stream_id = stream_id, cp_version = version, cp_body = body \<rparr>] \<rparr>,
            body))"

definition idle_playlist ::
  "'k chunk_lib \<Rightarrow> 'o object_lib \<Rightarrow> live_config \<Rightarrow> u64 \<Rightarrow> nat \<Rightarrow> 'k live_cache \<Rightarrow> 'k live_cache \<times> hls_line list" where
  "idle_playlist lib olib cfg stream_id next_part c =
     (let media_kind = (case media_kind_hint c stream_id of None \<Rightarrow> Fmp4 | Some k \<Rightarrow> k) in
      if media_kind = Fmp4 then
        let (c1, init) = get_init_for_stream_id lib olib stream_id c in
        (c1, empty_playlist cfg next_part media_kind (init \<noteq> None))
      else (c, empty_playlist cfg next_part media_kind False))"

text \<open>The playlist of a window with media, after the initialization is known.\<close>

definition media_playlist ::
  "(nat \<Rightarrow> bytes option) \<Rightarrow> live_config \<Rightarrow> u64 \<Rightarrow> live_media_kind \<Rightarrow> bytes option \<Rightarrow> nat list \<Rightarrow> 'k live_cache
     \<Rightarrow> 'k live_cache \<times> hls_line list" where
  "media_playlist date cfg stream_id media_kind init seqs c =
     (let s = lv_state c;
          parts = map (describe_part cfg s stream_id) seqs;
          aligned = (media_kind = Fmp4 \<and> list_ex (\<lambda>p. pt_segment_id p \<noteq> None) parts);
          pps = lt_parts_per_segment cfg;
          groups = trim_groups aligned pps (group_parts aligned pps parts []);
          s1 = note_segment_ms stream_id (observed_segment_ms aligned pps groups) s
      in (c\<lparr> lv_state := s1 \<rparr>,
          playlist_lines date cfg s1 stream_id media_kind init aligned groups (part_target_ms cfg s stream_id)
            ((last seqs + 1) mod 2 ^ 64)))"

definition live_playlist ::
  "(nat \<Rightarrow> bytes option) \<Rightarrow> 'k chunk_lib \<Rightarrow> 'o object_lib \<Rightarrow> live_config \<Rightarrow> u64 \<Rightarrow> nat \<Rightarrow> nat
     \<Rightarrow> 'k live_cache \<Rightarrow> 'k live_cache \<times> hls_line list" where
  "live_playlist date lib olib cfg stream_id idx l c =
     (let available = scan_window lib olib cfg c stream_id idx l in
      if available = [] then idle_playlist lib olib cfg stream_id l c
      else
       let c1 = (case last_init available of None \<Rightarrow> c | Some i \<Rightarrow> remember_stream_init lib stream_id i c);
           media_kind = slot_media_kind (snd (last available));
           c2 = remember_media_kind stream_id media_kind c1;
           (c3, init) = (if media_kind = Fmp4 then get_init_for_stream_id lib olib stream_id c2 else (c2, None))
       in if media_kind = Fmp4 \<and> init = None then (c3, waiting_playlist cfg False)
          else media_playlist date cfg stream_id media_kind init (map fst available) c3)"

definition playlist_for_stream_id ::
  "(nat \<Rightarrow> bytes option) \<Rightarrow> 'k chunk_lib \<Rightarrow> 'o object_lib \<Rightarrow> live_config \<Rightarrow> u64
     \<Rightarrow> 'k live_cache \<Rightarrow> 'k live_cache \<times> bytes" where
  "playlist_for_stream_id date lib olib cfg stream_id c =
     (case stream_position_for_id lib c stream_id of
        None \<Rightarrow> (let (c1, ls) = idle_playlist lib olib cfg stream_id 0 c in (c1, playlist_text ls))
      | Some (idx, l) \<Rightarrow>
          let version = (case cl_version lib (lv_chunks c) idx of None \<Rightarrow> 0 | Some v \<Rightarrow> v) in
          (case cached_playlist_body c stream_id idx version of
             Some body \<Rightarrow> (c, body)
           | None \<Rightarrow> cache_playlist lib stream_id idx version (live_playlist date lib olib cfg stream_id idx l c)))"

section \<open>Reloads and segments\<close>

record reload_position =
  rl_msn :: nat
  rl_part :: "nat option"

definition observed_segment :: "bool \<Rightarrow> nat \<Rightarrow> nat \<times> part_observation \<Rightarrow> nat option" where
  "observed_segment keyframe_segments pps entry =
     (if keyframe_segments then po_fmp4_segment_id (snd entry) else Some (fst entry div pps))"

definition count_segments :: "bool \<Rightarrow> nat \<Rightarrow> (nat \<times> part_observation) list \<Rightarrow> (nat \<times> nat) list" where
  "count_segments keyframe_segments pps parts =
     foldl (\<lambda>m entry. case observed_segment keyframe_segments pps entry of
         None \<Rightarrow> m | Some segment \<Rightarrow> bput segment (get_or 0 m segment + 1) m) [] parts"

definition hls_reload_position_available :: "live_config \<Rightarrow> live_state \<Rightarrow> u64 \<Rightarrow> reload_position \<Rightarrow> bool" where
  "hls_reload_position_available cfg s stream_id position =
     (case map_of (st_parts s) stream_id of
        None \<Rightarrow> False
      | Some parts \<Rightarrow>
          let keyframe_segments = list_ex (\<lambda>(_, p). po_fmp4_segment_id p \<noteq> None) parts;
              counts = count_segments keyframe_segments (lt_parts_per_segment cfg) parts in
          if counts = [] then False
          else if rl_msn position < fst (hd counts) \<or> rl_msn position < fst (last counts) then True
          else (case map_of counts (rl_msn position) of
             None \<Rightarrow> False
           | Some part_count \<Rightarrow>
               (case rl_part position of
                  Some part \<Rightarrow> part < part_count
                | None \<Rightarrow>
                    if keyframe_segments then rl_msn position < fst (last counts)
                    else lt_parts_per_segment cfg \<le> part_count)))"

text \<open>The sequences of a segment of a stream whose segments follow its keyframes: \<open>Inl ()\<close> if it cannot be
  served, \<open>Inr None\<close> if the stream has no such segments.\<close>

definition keyframe_sequences :: "live_state \<Rightarrow> u64 \<Rightarrow> nat \<Rightarrow> unit + nat list option" where
  "keyframe_sequences s stream_id segment =
     (case map_of (st_parts s) stream_id of
        None \<Rightarrow> Inr None
      | Some parts \<Rightarrow>
          if list_ex (\<lambda>(_, p). po_fmp4_segment_id p \<noteq> None) parts then
            let closed = list_ex (\<lambda>(_, p). case po_fmp4_segment_id p of None \<Rightarrow> False | Some i \<Rightarrow> segment < i) parts;
                members = filter (\<lambda>(_, p). po_fmp4_segment_id p = Some segment) parts in
            if \<not> closed \<or> members = [] \<or> \<not> po_keyframe (snd (hd members)) then Inl ()
            else Inr (Some (keys members))
          else Inr None)"

text \<open>A blocking read of a part: at once if it is there, else what the wait brings, in the cache that the
  other tasks have left by then.\<close>

definition get_part_blocking ::
  "'k chunk_lib \<Rightarrow> 'o object_lib \<Rightarrow> (nat \<Rightarrow> 'k live_cache \<Rightarrow> 'k live_cache \<times> bytes option) \<Rightarrow> u64 \<Rightarrow> nat
     \<Rightarrow> 'k live_cache \<Rightarrow> 'k live_cache \<times> bytes option" where
  "get_part_blocking lib olib wait stream_id seq c =
     (case get_part_for_stream_id lib olib stream_id seq c of
        (c1, Some (media, _)) \<Rightarrow> (c1, Some media)
      | (c1, None) \<Rightarrow> wait seq c1)"

fun collect_parts ::
  "(nat \<Rightarrow> 'k live_cache \<Rightarrow> 'k live_cache \<times> bytes option) \<Rightarrow> nat list \<Rightarrow> bytes \<Rightarrow> 'k live_cache
     \<Rightarrow> 'k live_cache \<times> bytes option" where
  "collect_parts read [] out c = (c, Some out)"
| "collect_parts read (seq # seqs) out c =
     (case read seq c of (c1, None) \<Rightarrow> (c1, None) | (c1, Some b) \<Rightarrow> collect_parts read seqs (out @ b) c1)"

definition get_segment_for_stream_id ::
  "'k chunk_lib \<Rightarrow> 'o object_lib \<Rightarrow> live_config \<Rightarrow> (nat \<Rightarrow> 'k live_cache \<Rightarrow> 'k live_cache \<times> bytes option)
     \<Rightarrow> u64 \<Rightarrow> nat \<Rightarrow> 'k live_cache \<Rightarrow> 'k live_cache \<times> bytes option" where
  "get_segment_for_stream_id lib olib cfg wait stream_id segment c =
     (case keyframe_sequences (lv_state c) stream_id segment of
        Inl _ \<Rightarrow> (c, None)
      | Inr (Some seqs) \<Rightarrow> collect_parts (get_part_blocking lib olib wait stream_id) seqs [] c
      | Inr None \<Rightarrow>
          if segment * lt_parts_per_segment cfg \<le> u64_max
          then collect_parts (get_part_blocking lib olib wait stream_id)
                 (map (\<lambda>offset. (segment * lt_parts_per_segment cfg + offset) mod 2 ^ 64) [0 ..< lt_parts_per_segment cfg])
                 [] c
          else (c, None))"

end
