(* ===== verification/Live_Properties.thy ===== *)
theory Live_Properties
  imports Hls_Playlist
begin

text \<open>
  Runs of the live cache: the retained window, epochs and retirement, and what a playlist promises to a
  player. A run is any sequence of payloads, commits, rotations, retirements, playlist requests and reads.
\<close>

section \<open>Runs\<close>

datatype 'o live_op =
    PushPayload bytes nat nat nat
  | Rotate bool nat nat nat
  | Commit u64 bytes "'o option" commit_clock
  | Retire nat
  | Playlist u64
  | ReadPart u64 nat

text \<open>The parameters of a run: dates, chunk cache and media library.\<close>

record ('k, 'o) live_env =
  le_date :: "nat \<Rightarrow> bytes option"
  le_chunks :: "'k chunk_lib"
  le_media :: "'o media_lib"
  le_config :: live_config

fun live_step :: "('k, 'o) live_env \<Rightarrow> 'o live_op \<Rightarrow> 'k live_cache \<Rightarrow> 'k live_cache" where
  "live_step e (PushPayload payload now now_ms us) c = fst (push_payload (le_chunks e) (le_config e) payload now now_ms us c)"
| "live_step e (Rotate force now now_ms us) c = fst (rotate_if_due (le_chunks e) (le_config e) force now now_ms us c)"
| "live_step e (Commit sid payload obj clk) c =
     fst (commit_stream_payload_inner (le_chunks e) (le_media e) (le_config e) sid payload obj clk c)"
| "live_step e (Retire cutoff) c = fst (retire_streams_idle_before (le_chunks e) (le_config e) cutoff c)"
| "live_step e (Playlist sid) c =
     fst (playlist_for_stream_id (le_date e) (le_chunks e) (ml_object (le_media e)) (le_config e) sid c)"
| "live_step e (ReadPart sid seq) c = fst (get_part_for_stream_id (le_chunks e) (ml_object (le_media e)) sid seq c)"

text \<open>No payload has more than 8 GiB.\<close>

fun op_small :: "'o live_op \<Rightarrow> bool" where
  "op_small (PushPayload payload _ _ _) \<longleftrightarrow> length payload \<le> 2 ^ 33"
| "op_small (Commit _ payload _ _) \<longleftrightarrow> length payload \<le> 2 ^ 33"
| "op_small _ \<longleftrightarrow> True"

definition config_small :: "live_config \<Rightarrow> bool" where
  "config_small cfg \<longleftrightarrow> lt_window_parts cfg < 2 ^ 29 \<and> lt_max_part_bytes cfg \<le> 2 ^ 33"

inductive live_reach :: "('k, 'o) live_env \<Rightarrow> 'k live_cache \<Rightarrow> bool" for e where
  start: "live_reach e \<lparr> lv_chunks = chunks, lv_state = live_state_new now now_us now_ms,
      lv_playlists = replicate 16 None, lv_part_update = 0 \<rparr>"
| step: "live_reach e c \<Longrightarrow> op_small op \<Longrightarrow> live_reach e (live_step e op c)"

text \<open>The duration of a part is a \<open>u32\<close>, and no longer than the longest part the stream has had.\<close>

definition duration_le :: "nat \<Rightarrow> nat option \<Rightarrow> bool" where
  "duration_le b d \<longleftrightarrow> (case d of None \<Rightarrow> True | Some n \<Rightarrow> n \<le> b)"

definition durations_ok :: "live_state \<Rightarrow> bool" where
  "durations_ok s \<longleftrightarrow> (\<forall>stream_id. get_or 0 (st_max_part_ms s) stream_id < 2 ^ 32 \<and>
     (\<forall>p \<in> set (parts_of s stream_id). duration_le (get_or 0 (st_max_part_ms s) stream_id) (po_duration_ms (snd p))))"

abbreviation duration_u32 :: "nat option \<Rightarrow> bool" where
  "duration_u32 \<equiv> duration_le (2 ^ 32 - 1)"

definition live_inv :: "live_config \<Rightarrow> 'k live_cache \<Rightarrow> bool" where
  "live_inv cfg c \<longleftrightarrow> live_ok (lt_window_parts cfg) (2 ^ 34) (lv_state c) \<and>
     length (st_current (lv_state c)) \<le> lt_max_part_bytes cfg \<and> table_ok (st_stream_last_ingest (lv_state c)) \<and>
     durations_ok (lv_state c)"

section \<open>What each operation keeps\<close>

text \<open>The tables the invariant speaks of.\<close>

definition core :: "live_state \<Rightarrow> _" where
  "core s = (st_parts s, st_retained_bytes s, st_current s, st_max_part_ms s)"

lemma core_simps [simp]:
  "core (note_ingest k n t kind s) = core s" "core (set_init k i s) = core s" "core (observe_stream_seq s k q) = core s"
  "core (note_committed q t n d s) = core s" "core (note_canonical k q s) = core s" "core (note_segment_ms k d s) = core s"
  "core (fst (next_stream_seq s k)) = core s"
  by (simp_all add: core_def note_ingest_def set_init_def observe_stream_seq_def note_committed_def note_canonical_def
    note_segment_ms_def next_stream_seq_def Let_def split: option.splits)

lemma live_ok_core: "core s' = core s \<Longrightarrow> live_ok w b s' = live_ok w b s"
  by (rule live_ok_cong) (simp_all add: core_def)

lemma ingest_simps [simp]:
  "st_stream_last_ingest (set_init k i s) = st_stream_last_ingest s"
  "st_stream_last_ingest (observe_stream_seq s k q) = st_stream_last_ingest s"
  "st_stream_last_ingest (note_committed q t n d s) = st_stream_last_ingest s"
  "st_stream_last_ingest (note_canonical k q s) = st_stream_last_ingest s"
  "st_stream_last_ingest (note_segment_ms k d s) = st_stream_last_ingest s"
  "st_stream_last_ingest (fst (next_stream_seq s k)) = st_stream_last_ingest s"
  "st_stream_last_ingest (note_ingest k n t kind s) = tput k t (st_stream_last_ingest s)"
  by (simp_all add: note_ingest_def set_init_def observe_stream_seq_def note_committed_def note_canonical_def
    note_segment_ms_def next_stream_seq_def Let_def split: option.splits)

lemma record_part_frame [simp]:
  "st_current (record_part_available s k q n us d kf ks w) = st_current s"
  "st_stream_last_ingest (record_part_available s k q n us d kf ks w) = st_stream_last_ingest s"
  by (auto simp: record_part_available_def note_part_duration_def assign_segment_def Let_def split: option.splits prod.splits)

lemma activate_epoch_frame [simp]:
  "st_current (activate_epoch cfg k e d s) = st_current s"
  "st_stream_last_ingest (activate_epoch cfg k e d s) = st_stream_last_ingest s"
  "st_parts (activate_epoch cfg k e d s) = tdel k (st_parts s)"
  "st_retained_bytes (activate_epoch cfg k e d s) = tdel k (st_retained_bytes s)"
  "st_canonical_epoch (activate_epoch cfg k e d s) = tput k e (st_canonical_epoch s)"
  "st_max_part_ms (activate_epoch cfg k e d s) = tdel k (st_max_part_ms s)"
  by (simp_all add: activate_epoch_def Let_def)

lemma live_ok_activate: "live_ok w b s \<Longrightarrow> live_ok w b (activate_epoch cfg k e d s)"
  by (simp add: live_ok_def parts_of_def)

lemma window_room: "config_small cfg \<Longrightarrow> (max (lt_window_parts cfg) 1 + 1) * 2 ^ 34 \<le> u64_max"
  by (simp add: config_small_def u64_max_def max_def)

lemma durations_cong:
  "st_parts s' = st_parts s \<Longrightarrow> st_max_part_ms s' = st_max_part_ms s \<Longrightarrow> durations_ok s' = durations_ok s"
  by (simp add: durations_ok_def parts_of_def)

lemma durations_core: "core s' = core s \<Longrightarrow> durations_ok s' = durations_ok s"
  by (rule durations_cong) (simp_all add: core_def)

lemma durations_drop [simp]:
  "durations_ok s \<Longrightarrow> durations_ok (activate_epoch cfg k e d s)" "durations_ok s \<Longrightarrow> durations_ok (forget_stream s k)"
  by (simp_all add: durations_ok_def parts_of_def forget_stream_def)

lemma retain_part_subset:
  "retain_part w parts q part = (parts', inserted, removed) \<Longrightarrow> set parts' \<subseteq> insert (q, part) (set parts)"
  by (auto simp: retain_part_def insert_part_def evict_parts_exact bput_def set_insort_key set_tdel
    split: option.splits prod.splits dest!: set_dropWhileD)

lemma get_or_entry_max: "get_or 0 (entry_max k v m) j = (if j = k then max v (get_or 0 m k) else get_or 0 m j)"
  by (auto simp: entry_max_def) (simp add: get_or_def max.commute split: option.split)

lemma max_part_record:
  "get_or 0 (st_max_part_ms (record_part_available s k q n us d kf ks w)) j =
     (case d of None \<Rightarrow> get_or 0 (st_max_part_ms s) j
      | Some m \<Rightarrow> if j = k then max m (get_or 0 (st_max_part_ms s) k) else get_or 0 (st_max_part_ms s) j)"
proof -
  have "st_max_part_ms (fst (assign_segment s k q kf ks)) = st_max_part_ms s" for s
    by (auto simp: assign_segment_def Let_def split: option.split)
  then have "st_max_part_ms (record_part_available s k q n us d kf ks w) = st_max_part_ms (note_part_duration s k d)"
    by (simp add: record_part_available_def Let_def split_beta)
  then show ?thesis
    by (simp add: note_part_duration_def get_or_entry_max split: option.split)
qed

lemma duration_le_mono: "duration_le a d \<Longrightarrow> a \<le> b \<Longrightarrow> duration_le b d"
  by (auto simp: duration_le_def split: option.splits)

lemma durations_record:
  assumes "durations_ok s" "duration_u32 d"
  shows "durations_ok (record_part_available s k q n us d kf ks w)"
proof -
  obtain parts inserted removed where
    r: "retain_part w (parts_of s k) q (recorded_part s k q n us d kf ks) = (parts, inserted, removed)"
      "st_parts (record_part_available s k q n us d kf ks w) = tput k parts (st_parts s)"
    using record_part_available_eq by metis
  let ?max = "\<lambda>j. get_or 0 (st_max_part_ms (record_part_available s k q n us d kf ks w)) j"
  have grows: "get_or 0 (st_max_part_ms s) j \<le> ?max j" for j
    unfolding max_part_record by (simp split: option.split)
  have old: "duration_le (?max j) (po_duration_ms (snd p))" if "p \<in> set (parts_of s j)" for j p
    using assms(1) that duration_le_mono [OF _ grows] by (auto simp: durations_ok_def)
  have "duration_le (?max k) d"
    unfolding max_part_record by (simp add: duration_le_def split: option.split)
  then have "duration_le (?max k) (po_duration_ms (snd p))" if "p \<in> set parts" for p
    using that retain_part_subset [OF r(1)] old [of p k] by (cases p) (auto simp: recorded_part_def)
  moreover have "?max j < 2 ^ 32" for j
    using assms unfolding max_part_record by (auto simp: durations_ok_def duration_le_def split: option.split)
  ultimately show ?thesis
    using old by (simp add: durations_ok_def r(2) parts_of_def)
qed

lemma live_inv_same:
  assumes "live_inv cfg c" "core (lv_state c') = core (lv_state c)"
    and "st_stream_last_ingest (lv_state c') = st_stream_last_ingest (lv_state c)"
  shows "live_inv cfg c'"
  using assms live_ok_core [OF assms(2)] durations_core [OF assms(2)] by (simp add: live_inv_def core_def)

lemma live_inv_record:
  assumes "live_inv cfg c" "config_small cfg" "n \<le> 2 ^ 34" "duration_u32 d" "core s = core (lv_state c)"
    and "st_stream_last_ingest s = st_stream_last_ingest (lv_state c)"
  shows "live_inv cfg (c\<lparr> lv_chunks := ch, lv_state := record_part_available s k q n us d kf ks (lt_window_parts cfg),
    lv_part_update := u \<rparr>)"
proof -
  have "live_ok (lt_window_parts cfg) (2 ^ 34) s"
    using assms(1) live_ok_core [OF assms(5)] by (simp add: live_inv_def)
  moreover have "durations_ok s"
    using assms(1) durations_core [OF assms(5)] by (simp add: live_inv_def)
  ultimately show ?thesis
    using live_ok_record [OF _ assms(3) window_room [OF assms(2)]] durations_record [OF _ assms(4)] assms(1,5,6)
    by (simp add: live_inv_def core_def)
qed

lemma live_inv_chunks: "live_inv cfg c \<Longrightarrow> live_inv cfg (c\<lparr> lv_chunks := ch \<rparr>)"
  by (simp add: live_inv_def)

lemma live_inv_commit_part:
  assumes "live_inv cfg c" "config_small cfg" "pp_bytes part \<le> 2 ^ 34"
  shows "live_inv cfg (fst (commit_part lib cfg part us c))"
proof (cases "snd (cl_add lib (lv_chunks c) (lt_stream_id cfg) (pp_seq part) (pp_data part))")
  case True
  then show ?thesis
    using live_inv_record [OF assms] by (simp add: commit_part_def split_beta Let_def core_def duration_le_def)
next
  case False
  then show ?thesis
    using live_inv_chunks [OF assms(1)] by (simp add: commit_part_def split_beta Let_def)
qed

lemma take_current_exact:
  "core (fst (take_current s now ms)) = (st_parts s, st_retained_bytes s, [], st_max_part_ms s)"
  "st_stream_last_ingest (fst (take_current s now ms)) = st_stream_last_ingest s"
  "snd (take_current s now ms) = Some part \<Longrightarrow> pp_bytes part = length (st_current s)"
  by (auto simp: take_current_def core_def Let_def split: if_splits)

lemma live_inv_finalized:
  assumes "live_inv cfg c" "config_small cfg" "length (st_current s) \<le> 2 ^ 34"
    and "st_parts s = st_parts (lv_state c)" "st_retained_bytes s = st_retained_bytes (lv_state c)"
    and "st_stream_last_ingest s = st_stream_last_ingest (lv_state c)" "st_max_part_ms s = st_max_part_ms (lv_state c)"
    and "fin = take_current s now ms \<or> fin = (s, None) \<and> length (st_current s) \<le> lt_max_part_bytes cfg"
  shows "live_inv cfg (fst (commit_finalized lib cfg us c fin))"
proof -
  have "live_inv cfg (c\<lparr> lv_state := fst fin \<rparr>)"
    using assms(1,4-8) take_current_exact(1,2) [of s now ms] live_ok_cong [of "fst fin" "lv_state c"]
      durations_cong [of "fst fin" "lv_state c"]
    by (auto simp: live_inv_def core_def)
  moreover have "pp_bytes part \<le> 2 ^ 34" if "snd fin = Some part" for part
    using that assms(3,8) take_current_exact(3) [of s now ms part] by auto
  ultimately show ?thesis
    using live_inv_commit_part [OF _ assms(2), of "c\<lparr> lv_state := fst fin \<rparr>"]
    by (simp add: commit_finalized_def Let_def split: option.split)
qed

lemma buffer_payload_frame [simp]:
  "st_current (buffer_payload payload now ms s) = st_current s @ payload"
  "st_parts (buffer_payload payload now ms s) = st_parts s"
  "st_retained_bytes (buffer_payload payload now ms s) = st_retained_bytes s"
  "st_stream_last_ingest (buffer_payload payload now ms s) = st_stream_last_ingest s"
  "st_canonical_epoch (buffer_payload payload now ms s) = st_canonical_epoch s"
  "st_max_part_ms (buffer_payload payload now ms s) = st_max_part_ms s"
  by (simp_all add: buffer_payload_def Let_def)

lemma live_inv_push:
  assumes "live_inv cfg c" "config_small cfg" "length payload \<le> 2 ^ 33"
  shows "live_inv cfg (fst (push_payload lib cfg payload now ms us c))"
proof -
  have "length (st_current (lv_state c)) + length payload \<le> 2 ^ 34"
    using assms by (simp add: live_inv_def config_small_def)
  then show ?thesis
    unfolding push_payload_def Let_def
    by (intro live_inv_finalized [OF assms(1,2), of "buffer_payload payload now ms (lv_state c)"]) auto
qed

lemma live_inv_rotate:
  assumes "live_inv cfg c" "config_small cfg"
  shows "live_inv cfg (fst (rotate_if_due lib cfg force now ms us c))"
  using assms unfolding rotate_if_due_def
  by (intro live_inv_finalized [OF assms, of "lv_state c"]) (auto simp: live_inv_def config_small_def)

lemma encode_object_slot_length:
  assumes "encode_object_slot mlib k obj payload kind reboxed = Inr cached" "length payload \<le> 2 ^ 33"
  shows "length cached \<le> 2 ^ 34"
proof (cases reboxed)
  case None
  then have "length cached = 40 + length payload"
    using assms(1)
    by (auto simp: encode_object_slot_def encode_canonical_live_slot_def canonical_slot_bytes_def slot_consts
      split: if_splits option.splits sum.splits prod.splits)
  then show ?thesis using assms(2) by simp
next
  case (Some r)
  then show ?thesis
    using assms(1)
    by (auto simp: encode_object_slot_def encode_fmp4_slot_def try_word_def slot_consts split: if_splits)
qed

lemma parse_u32_bound: "parse_u32 t = Some n \<Longrightarrow> n < 2 ^ 32"
  using parse_uint_bound [of "2 ^ 32 - 1" t n] by simp

lemma object_duration_u32: "duration_u32 (object_duration_ms mlib reboxed obj)"
proof (cases reboxed)
  case (Some r)
  then show ?thesis
    using unsigned_less [of "rl_duration_ms r", where 'a = nat] by (simp add: object_duration_ms_def duration_le_def)
next
  case None
  then show ?thesis
    using parse_u32_bound
    by (fastforce simp: object_duration_ms_def metadata_duration_ms_def duration_le_def split: option.split)
qed

lemma live_inv_commit_media:
  assumes "live_inv cfg c" "config_small cfg" "length payload \<le> 2 ^ 33"
  shows "live_inv cfg (fst (commit_media lib mlib cfg k obj payload reboxed kind clk c))"
proof (cases "encode_object_slot mlib k obj payload kind reboxed")
  case (Inl e)
  then show ?thesis using assms(1) by (simp add: commit_media_def Let_def)
next
  case (Inr cached)
  note small = encode_object_slot_length [OF Inr assms(3)]
  show ?thesis
    using live_inv_record [OF assms(1,2) small object_duration_u32 [of mlib reboxed obj]] live_inv_chunks [OF assms(1)] Inr
    by (auto simp: commit_media_def Let_def split: prod.split option.split put_result.split)
qed

lemma live_inv_enter_epoch: "live_inv cfg c \<Longrightarrow> live_inv cfg (enter_epoch lib cfg k e us c)"
  by (simp add: enter_epoch_def live_inv_def live_ok_activate)

lemma live_inv_ingest:
  assumes "live_inv cfg c" "core s = core (lv_state c)"
    and "st_stream_last_ingest s = tput k t (st_stream_last_ingest (lv_state c))"
  shows "live_inv cfg (c\<lparr> lv_state := s, lv_chunks := ch \<rparr>)"
  using assms(1,3) live_ok_core [OF assms(2)] durations_core [OF assms(2)] assms(2) ht.table_ok_put
  by (auto simp: live_inv_def core_def)

lemma live_inv_commit_canonical:
  assumes "live_inv cfg c" "config_small cfg" "length payload \<le> 2 ^ 33"
  shows "live_inv cfg (fst (commit_canonical lib mlib cfg k obj payload clk c))"
proof -
  let ?c1 = "enter_epoch lib cfg k (ml_epoch mlib obj) (ck_activation_us clk) c"
  have c1: "live_inv cfg ?c1" using assms(1) by (rule live_inv_enter_epoch)
  show ?thesis
  proof (cases "rebox_object mlib obj")
    case (Inl e)
    then show ?thesis using assms(1) c1 by (simp add: commit_canonical_def Let_def)
  next
    case (Inr reboxed)
    define kind where "kind = object_media_kind (ml_object mlib) (reboxed \<noteq> None) obj"
    define s where "s = set_init k (object_init mlib reboxed obj) (observe_stream_seq
        (note_ingest k (length payload) (ck_now_ms clk) kind (lv_state ?c1)) k (ml_sequence mlib obj))"
    define r where "r = store_init lib k (object_init mlib reboxed obj) (lv_chunks ?c1)"
    have c2: "live_inv cfg (?c1\<lparr> lv_state := s, lv_chunks := fst r \<rparr>)"
      by (rule live_inv_ingest [OF c1]) (simp_all add: s_def)
    show ?thesis
      using assms(1) live_inv_commit_media [OF c2 assms(2,3)] c2
      unfolding commit_canonical_def Let_def Inr sum.case kind_def [symmetric] s_def [symmetric] r_def [symmetric] split_beta
      by auto
  qed
qed

lemma live_inv_commit_prefixed:
  assumes "live_inv cfg c" "config_small cfg" "length payload \<le> 2 ^ 33"
  shows "live_inv cfg (fst (commit_prefixed lib mlib cfg k payload clk c))"
proof -
  define d where "d = slot_decode (ml_object mlib) payload"
  define s where "s = fst (next_stream_seq (set_init k (slot_init d)
    (note_ingest k (length payload) (ck_now_ms clk) (slot_media_kind d) (lv_state c))) k)"
  have c1: "live_inv cfg (c\<lparr> lv_state := s, lv_chunks := ch \<rparr>)" for ch
    by (rule live_inv_ingest [OF assms(1)]) (simp_all add: s_def)
  have "length payload \<le> 2 ^ 34" using assms(3) by simp
  then show ?thesis
    using live_inv_record [OF c1 assms(2), where d = None] live_inv_chunks [OF c1] c1
    unfolding commit_prefixed_def d_def [symmetric] Let_def split_beta s_def [symmetric]
    by (auto simp: duration_le_def)
qed

lemma live_inv_commit:
  assumes "live_inv cfg c" "config_small cfg" "length payload \<le> 2 ^ 33"
  shows "live_inv cfg (fst (commit_stream_payload_inner lib mlib cfg k payload obj clk c))"
  using assms live_inv_commit_canonical live_inv_commit_prefixed
  by (auto simp: commit_stream_payload_inner_def split: sum.split option.split)

text \<open>Reading leaves parts, ingest times and epochs alone.\<close>

definition ledger :: "live_state \<Rightarrow> _" where
  "ledger s = (core s, st_stream_last_ingest s, st_canonical_epoch s)"

lemma ledger_simps [simp]:
  "ledger (set_init k i s) = ledger s" "ledger (note_segment_ms k d s) = ledger s"
  "ledger (s\<lparr> st_media_kinds := m \<rparr>) = ledger s"
  by (simp_all add: ledger_def core_def set_init_def note_segment_ms_def split: option.splits)

lemma reads_ledger [simp]:
  "ledger (lv_state (remember_media_kind k kind c)) = ledger (lv_state c)"
  "ledger (lv_state (remember_stream_init lib k i c)) = ledger (lv_state c)"
  "ledger (lv_state (fst (get_init_for_stream_id lib olib k c))) = ledger (lv_state c)"
  "ledger (lv_state (fst (get_part_for_stream_id lib olib k q c))) = ledger (lv_state c)"
  "ledger (lv_state (fst (idle_playlist lib olib cfg k n c))) = ledger (lv_state c)"
  "ledger (lv_state (fst (media_playlist date cfg k kind init seqs c))) = ledger (lv_state c)"
  "ledger (lv_state (fst (cache_playlist lib k idx v r))) = ledger (lv_state (fst r))"
proof -
  show kind: "ledger (lv_state (remember_media_kind k kind c)) = ledger (lv_state c)" for c :: "'a live_cache"
    by (simp add: remember_media_kind_def)
  show init: "ledger (lv_state (remember_stream_init lib k i c)) = ledger (lv_state c)" for i and c :: "'a live_cache"
    by (simp add: remember_stream_init_def)
  show get: "ledger (lv_state (fst (get_init_for_stream_id lib olib k c))) = ledger (lv_state c)"
    by (simp add: get_init_for_stream_id_def init split: option.split)
  show "ledger (lv_state (fst (get_part_for_stream_id lib olib k q c))) = ledger (lv_state c)"
    by (simp add: get_part_for_stream_id_def remember_media_kind_def init Let_def split: option.split)
  show "ledger (lv_state (fst (idle_playlist lib olib cfg k n c))) = ledger (lv_state c)"
    by (simp add: idle_playlist_def get Let_def split_beta)
  show "ledger (lv_state (fst (media_playlist date cfg k kind init seqs c))) = ledger (lv_state c)"
    by (simp add: media_playlist_def Let_def)
  show "ledger (lv_state (fst (cache_playlist lib k idx v r))) = ledger (lv_state (fst r))"
    by (simp add: cache_playlist_def Let_def)
qed

lemma playlist_ledger [simp]:
  "ledger (lv_state (fst (playlist_for_stream_id date lib olib cfg k c))) = ledger (lv_state c)"
proof -
  have "ledger (lv_state (fst (live_playlist date lib olib cfg k idx l c))) = ledger (lv_state c)" for idx l
    by (simp add: live_playlist_def Let_def split_beta split: option.split)
  then show ?thesis
    by (simp add: playlist_for_stream_id_def Let_def split_beta split: option.split)
qed

lemma live_inv_ledger: "live_inv cfg c \<Longrightarrow> ledger (lv_state c') = ledger (lv_state c) \<Longrightarrow> live_inv cfg c'"
  by (rule live_inv_same) (simp_all add: ledger_def)

lemma live_inv_retire:
  assumes "live_inv cfg c"
  shows "live_inv cfg (fst (retire_streams_idle_before lib cfg cutoff c))"
proof -
  have "live_inv cfg (fst (retire_each lib cutoff ks n c))" if "live_inv cfg c" for ks n c
    using that
    by (induction lib cutoff ks n c rule: retire_each.induct)
      (auto simp: live_inv_def retire_stream_def live_ok_forget, auto simp: forget_stream_def)
  then show ?thesis
    using assms by (simp add: retire_streams_idle_before_def)
qed

lemma live_inv_step:
  assumes "live_inv (le_config e) c" "config_small (le_config e)" "op_small op"
  shows "live_inv (le_config e) (live_step e op c)"
  using assms live_inv_push live_inv_rotate live_inv_commit live_inv_retire
  by (cases op) (auto intro: live_inv_ledger)

lemma live_inv_reach: "live_reach e c \<Longrightarrow> config_small (le_config e) \<Longrightarrow> live_inv (le_config e) c"
proof (induction rule: live_reach.induct)
  case (start chunks now now_us now_ms)
  then show ?case
    by (simp add: live_inv_def live_ok_new) (simp add: live_state_new_def durations_ok_def parts_of_def get_or_def)
next
  case (step c op)
  then show ?case by (intro live_inv_step) auto
qed

section \<open>Epochs\<close>

abbreviation epoch_of :: "'k live_cache \<Rightarrow> u64 \<Rightarrow> nat option" where
  "epoch_of c \<equiv> map_of (st_canonical_epoch (lv_state c))"

lemma epoch_simps [simp]:
  "st_canonical_epoch (note_ingest k n t kind s) = st_canonical_epoch s"
  "st_canonical_epoch (set_init k i s) = st_canonical_epoch s"
  "st_canonical_epoch (observe_stream_seq s k q) = st_canonical_epoch s"
  "st_canonical_epoch (note_committed q t n d s) = st_canonical_epoch s"
  "st_canonical_epoch (note_canonical k q s) = st_canonical_epoch s"
  "st_canonical_epoch (fst (next_stream_seq s k)) = st_canonical_epoch s"
  "st_canonical_epoch (fst (take_current s now ms)) = st_canonical_epoch s"
  "st_canonical_epoch (record_part_available s k q bytes us d kf ks w) = st_canonical_epoch s"
  using record_part_available_eq [of w s k q bytes us d kf ks]
  by (auto simp: note_ingest_def set_init_def observe_stream_seq_def note_committed_def note_canonical_def
    next_stream_seq_def take_current_def Let_def split: option.splits)

lemma epoch_raw [simp]:
  "epoch_of (fst (push_payload lib cfg payload now ms us c)) = epoch_of c"
  "epoch_of (fst (rotate_if_due lib cfg force now ms us c)) = epoch_of c"
  "epoch_of (fst (commit_prefixed lib mlib cfg k payload clk c)) = epoch_of c"
proof -
  have "epoch_of (fst (commit_part lib cfg part us c)) = epoch_of c" for part and c :: "'a live_cache"
    by (simp add: commit_part_def Let_def split_beta)
  then have "epoch_of (fst (commit_finalized lib cfg us c fin)) = map_of (st_canonical_epoch (fst fin))" for fin
    by (simp add: commit_finalized_def Let_def split: option.split)
  then show "epoch_of (fst (push_payload lib cfg payload now ms us c)) = epoch_of c"
    "epoch_of (fst (rotate_if_due lib cfg force now ms us c)) = epoch_of c"
    by (auto simp: push_payload_def rotate_if_due_def Let_def)
  show "epoch_of (fst (commit_prefixed lib mlib cfg k payload clk c)) = epoch_of c"
    by (simp add: commit_prefixed_def Let_def split_beta)
qed

lemma epoch_commit_media [simp]:
  "epoch_of (fst (commit_media lib mlib cfg k obj payload reboxed kind clk c)) = epoch_of c"
  by (auto simp: commit_media_def Let_def split: sum.split prod.split option.split put_result.split)

lemma epoch_enter [simp]: "epoch_of (enter_epoch lib cfg k e us c) = (epoch_of c)(k \<mapsto> e)"
  by (auto simp: enter_epoch_def update_conv)

lemma epoch_commit_canonical:
  "epoch_of (fst (commit_canonical lib mlib cfg k obj payload clk c)) = epoch_of c \<or>
   epoch_of (fst (commit_canonical lib mlib cfg k obj payload clk c)) = (epoch_of c)(k \<mapsto> ml_epoch mlib obj) \<and>
     (\<forall>p. epoch_of c k = Some p \<longrightarrow> p \<le> ml_epoch mlib obj)"
  by (auto simp: commit_canonical_def Let_def split_beta split: sum.split option.splits)


lemma epoch_retire_each:
  "epoch_of (fst (retire_each lib cutoff ks n c)) sid =
     (if sid \<in> set ks \<and> still_idle cutoff sid c then None else epoch_of c sid)"
  by (induction lib cutoff ks n c rule: retire_each.induct)
    (auto simp: retire_stream_def still_idle_def forget_stream_def)

lemma epoch_commit_shape:
  "epoch_of (fst (commit_stream_payload_inner lib mlib cfg k payload obj clk c)) sid = epoch_of c sid \<or>
   sid = k \<and> (\<exists>o'. epoch_of (fst (commit_stream_payload_inner lib mlib cfg k payload obj clk c)) sid = Some (ml_epoch mlib o') \<and>
     (\<forall>p. epoch_of c sid = Some p \<longrightarrow> p \<le> ml_epoch mlib o'))"
proof -
  have "epoch_of (fst (commit_canonical lib mlib cfg k o' payload clk c)) sid = epoch_of c sid \<or>
      sid = k \<and> epoch_of (fst (commit_canonical lib mlib cfg k o' payload clk c)) sid = Some (ml_epoch mlib o') \<and>
        (\<forall>p. epoch_of c sid = Some p \<longrightarrow> p \<le> ml_epoch mlib o')" for o'
    using epoch_commit_canonical [of lib mlib cfg k o' payload clk c] by (auto split: if_splits)
  then show ?thesis
    by (auto simp: commit_stream_payload_inner_def split: sum.split option.split)
qed

lemma epoch_ledger: "ledger (lv_state c') = ledger (lv_state c) \<Longrightarrow> epoch_of c' = epoch_of c"
  by (simp add: ledger_def)

text \<open>An epoch changes in a commit of its stream, and then upwards, or goes when its idle stream retires.\<close>

lemma epoch_step:
  "epoch_of (live_step e op c) sid = epoch_of c sid \<or>
   (\<exists>new payload obj clk. op = Commit sid payload obj clk \<and> epoch_of (live_step e op c) sid = Some new \<and>
      (\<forall>old. epoch_of c sid = Some old \<longrightarrow> old \<le> new)) \<or>
   (\<exists>cutoff. op = Retire cutoff \<and> sid \<noteq> lt_stream_id (le_config e) \<and> still_idle cutoff sid c \<and>
      epoch_of (live_step e op c) sid = None)"
proof (cases op)
  case (Commit k payload obj clk)
  then show ?thesis
    using epoch_commit_shape [of "le_chunks e" "le_media e" "le_config e" k payload obj clk c sid] by auto
next
  case (Retire cutoff)
  then show ?thesis
    by (auto simp: retire_streams_idle_before_def epoch_retire_each)
next
  case (Playlist k)
  then have "epoch_of (live_step e op c) = epoch_of c" by (intro epoch_ledger) simp
  then show ?thesis by simp
next
  case (ReadPart k q)
  then have "epoch_of (live_step e op c) = epoch_of c" by (intro epoch_ledger) simp
  then show ?thesis by simp
qed simp_all

section \<open>Stored parts of a new epoch\<close>

lemma parts_record:
  "set (parts_of (record_part_available s k q n us d kf ks w) sid) \<subseteq>
     set (parts_of s sid) \<union> (if sid = k then {(q, recorded_part s k q n us d kf ks)} else {})"
proof -
  obtain parts inserted removed where
    "retain_part w (parts_of s k) q (recorded_part s k q n us d kf ks) = (parts, inserted, removed)"
    "st_parts (record_part_available s k q n us d kf ks w) = tput k parts (st_parts s)"
    using record_part_available_eq by metis
  then show ?thesis
    using retain_part_subset by (auto simp: parts_of_def)
qed

lemma parts_core: "core s' = core s \<Longrightarrow> parts_of s' = parts_of s"
  by (rule ext) (simp add: core_def parts_of_def)

lemma parts_commit_media:
  "fst ` set (parts_of (lv_state (fst (commit_media lib mlib cfg k obj payload reboxed kind clk c))) k) \<subseteq>
     fst ` set (parts_of (lv_state c) k) \<union> {ml_sequence mlib obj}"
proof -
  have "fst ` set (parts_of (record_part_available (note_committed q t n d (note_canonical k q s)) k q m us d kf ks w) k)
      \<subseteq> fst ` set (parts_of s k) \<union> {q}" for q t n d s m us kf ks w
    using image_mono [OF parts_record [of "note_committed q t n d (note_canonical k q s)" k q m us d kf ks w k], of fst]
      parts_core [of "note_committed q t n d (note_canonical k q s)" s]
    by simp
  then show ?thesis
    by (auto simp: commit_media_def Let_def split: sum.split prod.split option.split put_result.split)
qed

lemma parts_new_epoch:
  assumes "epoch_of c k \<noteq> Some (ml_epoch mlib obj)"
    and "epoch_of (fst (commit_canonical lib mlib cfg k obj payload clk c)) k = Some (ml_epoch mlib obj)"
  shows "fst ` set (parts_of (lv_state (fst (commit_canonical lib mlib cfg k obj payload clk c))) k) \<subseteq> {ml_sequence mlib obj}"
proof -
  let ?c1 = "enter_epoch lib cfg k (ml_epoch mlib obj) (ck_activation_us clk) c"
  have "parts_of (lv_state ?c1) k = []"
    using assms(1) by (simp add: enter_epoch_def parts_of_def)
  then have media: "fst ` set (parts_of (lv_state (fst (commit_media lib mlib cfg k obj payload r kind clk
      (?c1\<lparr> lv_state := s, lv_chunks := ch \<rparr>)))) k) \<subseteq> {ml_sequence mlib obj}"
      and here: "parts_of s k = []" if "core s = core (lv_state ?c1)" for r kind s ch
    using parts_commit_media [of lib mlib cfg k obj payload r kind clk "?c1\<lparr> lv_state := s, lv_chunks := ch \<rparr>"]
      parts_core [OF that] by simp_all
  show ?thesis
    using assms media here \<open>parts_of (lv_state ?c1) k = []\<close>
    unfolding commit_canonical_def Let_def split_beta
    by (auto split: sum.split)
qed

section \<open>Retirement\<close>

text \<open>What the cache knows of one stream, in all its tables.\<close>

definition stream_view :: "live_state \<Rightarrow> u64 \<Rightarrow> _" where
  "stream_view s k = (map_of (st_stream_next_seq s) k, map_of (st_canonical_epoch s) k,
     map_of (st_activation_delay_us s) k, map_of (st_subscription_base s) k, map_of (st_latest_canonical s) k,
     map_of (st_stream_last_ingest s) k, map_of (st_parts s) k, map_of (st_current_segment s) k,
     map_of (st_retained_bytes s) k, map_of (st_max_part_ms s) k, map_of (st_max_segment_ms s) k,
     map_of (st_inits s) k, map_of (st_media_kinds s) k)"

text \<open>What does not belong to a stream other than the default one.\<close>

definition shared_view :: "live_state \<Rightarrow> _" where
  "shared_view s = (st_process_started_unix_us s, st_current s, st_current_started s, st_current_started_unix_ms s,
     st_next_seq s, st_datagrams_received s, st_bytes_received s, st_last_ingest_unix_ms s, st_last_committed_seq s,
     st_last_committed_unix_ms s, st_last_committed_bytes s, st_last_committed_duration_ms s)"

abbreviation forgotten :: "live_state \<Rightarrow> u64 \<Rightarrow> bool" where
  "forgotten s k \<equiv> stream_view s k = (None, None, None, None, None, None, None, None, None, None, None, None, None)"

definition drop_playlists :: "(u64 \<Rightarrow> bool) \<Rightarrow> cached_playlist option list \<Rightarrow> cached_playlist option list" where
  "drop_playlists gone = map (\<lambda>cached. case cached of None \<Rightarrow> None | Some p \<Rightarrow> if gone (cp_stream_id p) then None else Some p)"

lemma forget_view:
  "stream_view (forget_stream s k) j = (if j = k then stream_view (live_state_new 0 0 0) j else stream_view s j)"
  "shared_view (forget_stream s k) = shared_view s"
  by (simp_all add: stream_view_def shared_view_def forget_stream_def live_state_new_def)

lemma drop_playlists_twice: "drop_playlists P (drop_playlists Q l) = drop_playlists (\<lambda>k. P k \<or> Q k) l"
  by (auto simp: drop_playlists_def split: option.split)

lemma retire_stream_idle: "still_idle cutoff j (retire_stream lib k c) \<longleftrightarrow> j \<noteq> k \<and> still_idle cutoff j c"
  by (simp add: still_idle_def retire_stream_def forget_stream_def)

text \<open>The candidates that are idle go, each once.\<close>

lemma retire_each_view:
  "stream_view (lv_state (fst (retire_each lib cutoff ks n c))) j =
     (if j \<in> set ks \<and> still_idle cutoff j c then stream_view (live_state_new 0 0 0) j else stream_view (lv_state c) j)"
  by (induction lib cutoff ks n c rule: retire_each.induct)
    (auto simp: retire_stream_idle, auto simp: retire_stream_def forget_view)

lemma retire_each_shared: "shared_view (lv_state (fst (retire_each lib cutoff ks n c))) = shared_view (lv_state c)"
  by (induction lib cutoff ks n c rule: retire_each.induct) (auto simp: retire_stream_def forget_view)

lemma retire_each_playlists:
  "lv_playlists (fst (retire_each lib cutoff ks n c)) =
     drop_playlists (\<lambda>k. k \<in> set ks \<and> still_idle cutoff k c) (lv_playlists c)"
proof (induction lib cutoff ks n c rule: retire_each.induct)
  case (1 lib cutoff n c)
  show ?case by (simp add: drop_playlists_def map_idI split: option.split)
next
  case (2 lib cutoff k ks n c)
  show ?case
  proof (cases "still_idle cutoff k c")
    case True
    have "lv_playlists (retire_stream lib k c) = drop_playlists (\<lambda>j. j = k) (lv_playlists c)"
      by (simp add: retire_stream_def drop_playlists_def)
    then show ?thesis
      using 2(1) [OF True] True
      by (simp add: retire_stream_idle drop_playlists_twice) (metis (no_types, lifting))
  next
    case False
    then have "(\<lambda>j. j \<in> set (k # ks) \<and> still_idle cutoff j c) = (\<lambda>j. j \<in> set ks \<and> still_idle cutoff j c)"
      by auto
    then show ?thesis using 2(2) [OF False] False by simp
  qed
qed

lemma retire_each_count:
  "distinct ks \<Longrightarrow> snd (retire_each lib cutoff ks n c) = n + length (filter (\<lambda>k. still_idle cutoff k c) ks)"
proof (induction lib cutoff ks n c rule: retire_each.induct)
  case (2 lib cutoff k ks n c)
  moreover have "filter (\<lambda>j. still_idle cutoff j (retire_stream lib k c)) ks = filter (\<lambda>j. still_idle cutoff j c) ks"
    using 2(3) by (intro filter_cong) (auto simp: retire_stream_idle)
  ultimately show ?case by simp
qed simp

abbreviation idle_stream :: "live_config \<Rightarrow> nat \<Rightarrow> 'k live_cache \<Rightarrow> u64 \<Rightarrow> bool" where
  "idle_stream cfg cutoff c k \<equiv> k \<noteq> lt_stream_id cfg \<and> still_idle cutoff k c"

definition idle_candidates :: "live_config \<Rightarrow> nat \<Rightarrow> 'k live_cache \<Rightarrow> u64 list" where
  "idle_candidates cfg cutoff c = keys (filter (\<lambda>(k, t). k \<noteq> lt_stream_id cfg \<and> t \<le> cutoff)
     (st_stream_last_ingest (lv_state c)))"

lemma idle_candidates_exact:
  assumes "table_ok (st_stream_last_ingest (lv_state c))"
  shows "distinct (idle_candidates cfg cutoff c)" "set (idle_candidates cfg cutoff c) = {k. idle_stream cfg cutoff c k}"
proof -
  show "distinct (idle_candidates cfg cutoff c)"
    using assms by (simp add: idle_candidates_def distinct_map_filter)
  have "still_idle cutoff k c \<longleftrightarrow> (\<exists>t. (k, t) \<in> set (st_stream_last_ingest (lv_state c)) \<and> t \<le> cutoff)" for k
    unfolding map_of_in_set [OF assms, symmetric] by (auto simp: still_idle_def split: option.splits)
  then show "set (idle_candidates cfg cutoff c) = {k. idle_stream cfg cutoff c k}"
    by (force simp: idle_candidates_def image_iff)
qed

section \<open>A concrete cache\<close>

text \<open>A chunk cache with one table of slots and one of initializations, and media objects of five bytes and
  a payload: a mark, the epoch, the sequence number, the kind (0 for media, 1 for an initialization) and
  whether the object is a keyframe.\<close>

type_synonym demo_chunks = "((u64 \<times> nat) \<times> bytes) list \<times> (u64 \<times> bytes) list"

fun demo_last :: "((u64 \<times> nat) \<times> bytes) list \<Rightarrow> nat option" where
  "demo_last [] = None"
| "demo_last (((_, q), _) # m) = Some (case demo_last m of None \<Rightarrow> q | Some l \<Rightarrow> max q l)"

definition demo_get :: "demo_chunks \<Rightarrow> u64 \<Rightarrow> nat \<Rightarrow> (bytes \<times> nat) option" where
  "demo_get k sid q = map_option (\<lambda>b. (b, 0)) (map_of (fst k) (sid, q))"

definition demo_lib :: "demo_chunks chunk_lib" where
  "demo_lib = \<lparr> cl_stream_idx = (\<lambda>_ sid. if sid = 5 then Some 0 else None), cl_last = (\<lambda>k _. demo_last (fst k)),
     cl_version = (\<lambda>k _. Some (length (fst k))), cl_get = (\<lambda>k _ q. demo_get k 5 q), cl_get_for_stream = demo_get,
     cl_retained_start = (\<lambda>_ _. 0), cl_initialization = (\<lambda>k sid. map_of (snd k) sid),
     cl_set_initialization = (\<lambda>k sid i. ((fst k, tput sid i (snd k)), True)),
     cl_zero = (\<lambda>k sid. (filter (\<lambda>p. fst (fst p) \<noteq> sid) (fst k), tdel sid (snd k))),
     cl_add = (\<lambda>k sid q b. ((tput (sid, q) b (fst k), snd k), True)),
     cl_put_contiguous = (\<lambda>k sid q _ b. ((tput (sid, q) b (fst k), snd k), Some PutAccepted)) \<rparr>"

definition demo_media :: "bytes media_lib" where
  "demo_media = \<lparr> ml_object = \<lparr> ol_wire_magic = [77], ol_decode = Some,
       ol_kind = (\<lambda>b. if b ! 3 = 0 then Media else Initialization), ol_stream = (\<lambda>_. ascii ''5''), ol_payload = drop 5,
       ol_metadata = (\<lambda>_ key. if key = ''container'' then Some (ascii ''fmp4'')
         else if key = ''duration-ms'' then Some (ascii ''400'') else None) \<rparr>,
     ml_epoch = (\<lambda>b. unat (b ! 1)), ml_sequence = (\<lambda>b. unat (b ! 2)), ml_keyframe = (\<lambda>b. b ! 4 = 1),
     ml_rebox = (\<lambda>_ _ _. None) \<rparr>"

definition demo_config :: live_config where
  "demo_config = \<lparr> lt_stream_id = 1, lt_part_target_ms = 500, lt_parts_per_segment = 2, lt_window_parts = 3,
     lt_max_part_bytes = 1024 \<rparr>"

definition demo_env :: "(demo_chunks, bytes) live_env" where
  "demo_env = \<lparr> le_date = (\<lambda>_. None), le_chunks = demo_lib, le_media = demo_media, le_config = demo_config \<rparr>"

definition demo_start :: "demo_chunks live_cache" where
  "demo_start = \<lparr> lv_chunks = ([], []), lv_state = live_state_new 0 0 0, lv_playlists = replicate 16 None,
     lv_part_update = 0 \<rparr>"

definition demo_commit :: "nat \<Rightarrow> u8 \<Rightarrow> u8 \<Rightarrow> bytes \<Rightarrow> bytes live_op" where
  "demo_commit t epoch seq rest = Commit 5 ([77, epoch, seq] @ rest) None
     \<lparr> ck_activation_us = t, ck_now_ms = t, ck_available_us = t * 1000 \<rparr>"

definition demo_run :: "bytes live_op list \<Rightarrow> demo_chunks live_cache" where
  "demo_run ops = foldl (\<lambda>c op. live_step demo_env op c) demo_start ops"

lemma demo_reach: "(\<forall>op \<in> set ops. op_small op) \<Longrightarrow> live_reach demo_env (demo_run ops)"
proof (induction ops rule: rev_induct)
  case Nil
  then show ?case
    using live_reach.start [of demo_env "([], [])" 0 0 0] by (simp add: demo_run_def demo_start_def)
next
  case (snoc op ops)
  then show ?case using live_reach.step [of demo_env "demo_run ops" op] by (simp add: demo_run_def)
qed

lemma demo_small: "config_small (le_config demo_env)"
  by (simp add: config_small_def demo_env_def demo_config_def)

section \<open>Properties\<close>

text \<open>C27: in every run of the live cache the retained parts of every stream are in strictly ascending order
  and within one window of the newest of them, so that there are no more of them than the window has, and
  the retained bytes that the cache reports are exactly their sum.\<close>

theorem live_retention_exact:
  assumes "live_reach e c" "config_small (le_config e)"
  shows "sorted_wrt (<) (keys (parts_of (lv_state c) sid)) \<and>
    length (parts_of (lv_state c) sid) \<le> max (lt_window_parts (le_config e)) 1 \<and>
    (\<forall>p \<in> set (parts_of (lv_state c) sid).
      fst (last (parts_of (lv_state c) sid)) < fst p + max (lt_window_parts (le_config e)) 1) \<and>
    get_or 0 (st_retained_bytes (lv_state c)) sid = sum_list (map (\<lambda>p. po_bytes (snd p)) (parts_of (lv_state c) sid))"
proof (intro conjI)
  have w: "window_ok (lt_window_parts (le_config e)) (2 ^ 34) (parts_of (lv_state c) sid)
      (get_or 0 (st_retained_bytes (lv_state c)) sid)"
    using live_inv_reach [OF assms] by (simp add: live_inv_def live_ok_def)
  then show "sorted_wrt (<) (keys (parts_of (lv_state c) sid))"
    "\<forall>p \<in> set (parts_of (lv_state c) sid).
      fst (last (parts_of (lv_state c) sid)) < fst p + max (lt_window_parts (le_config e)) 1"
    "get_or 0 (st_retained_bytes (lv_state c)) sid = sum_list (map (\<lambda>p. po_bytes (snd p)) (parts_of (lv_state c) sid))"
    by (auto simp: window_ok_def strict_sorted_iff tsum_def simp del: One_nat_def)
  show "length (parts_of (lv_state c) sid) \<le> max (lt_window_parts (le_config e)) 1"
    using w by (intro window_length) (auto simp: window_ok_def)
qed

theorem live_retention_exact_witness:
  "let c = demo_run [demo_commit 1 1 1 [1, 0, 9], demo_commit 2 1 1 [0, 1, 8], demo_commit 3 1 2 [0, 0, 8],
       demo_commit 4 1 5 [0, 1, 7, 7]] in
   keys (parts_of (lv_state c) 5) = [5] \<and>
   get_or 0 (st_retained_bytes (lv_state c)) 5 = sum_list (map (\<lambda>p. po_bytes (snd p)) (parts_of (lv_state c) 5))"
  unfolding Let_def
  by (intro conjI live_retention_exact [OF demo_reach demo_small, THEN conjunct2, THEN conjunct2, THEN conjunct2]) code_simp+

text \<open>C28: epochs fence a stream. Under a source epoch an object of an older epoch is refused and leaves the
  cache as it was. No operation lowers the epoch of a stream; only the retirement of an idle stream that
  is not the default one removes it. The first object of a new epoch leaves no part of the old one.\<close>

theorem epoch_fenced:
  assumes "epoch_of c sid = Some epoch"
  shows "(ml_epoch (le_media e) obj < epoch \<longrightarrow> live_step e (Commit sid payload (Some obj) clk) c = c) \<and>
    (epoch_of (live_step e op c) sid = Some new \<longrightarrow> epoch \<le> new) \<and>
    (epoch_of (live_step e op c) sid = None \<longrightarrow>
      (\<exists>cutoff t. op = Retire cutoff \<and> sid \<noteq> lt_stream_id (le_config e) \<and>
        map_of (st_stream_last_ingest (lv_state c)) sid = Some t \<and> t \<le> cutoff)) \<and>
    (epoch_of (live_step e (Commit sid payload (Some obj) clk) c) sid = Some new \<longrightarrow> new \<noteq> epoch \<longrightarrow>
      set (keys (parts_of (lv_state (live_step e (Commit sid payload (Some obj) clk) c)) sid)) \<subseteq>
        {ml_sequence (le_media e) obj})"
proof (intro conjI impI)
  let ?commit = "commit_canonical (le_chunks e) (le_media e) (le_config e) sid obj payload clk c"
  have step: "live_step e (Commit sid payload (Some obj) clk) c = fst ?commit"
    by (simp add: commit_stream_payload_inner_def)
  show "ml_epoch (le_media e) obj < epoch \<Longrightarrow> live_step e (Commit sid payload (Some obj) clk) c = c"
    unfolding step using assms by (simp add: commit_canonical_def Let_def)
  show "epoch_of (live_step e op c) sid = Some new \<Longrightarrow> epoch \<le> new"
    using epoch_step [of e op c sid] assms by auto
  show "epoch_of (live_step e op c) sid = None \<Longrightarrow> \<exists>cutoff t. op = Retire cutoff \<and> sid \<noteq> lt_stream_id (le_config e) \<and>
      map_of (st_stream_last_ingest (lv_state c)) sid = Some t \<and> t \<le> cutoff"
    using epoch_step [of e op c sid] assms by (auto simp: still_idle_def split: option.splits)
  assume new: "epoch_of (live_step e (Commit sid payload (Some obj) clk) c) sid = Some new" "new \<noteq> epoch"
  then have "epoch_of (fst ?commit) sid = Some (ml_epoch (le_media e) obj)" "epoch_of c sid \<noteq> Some (ml_epoch (le_media e) obj)"
    using epoch_commit_canonical [of "le_chunks e" "le_media e" "le_config e" sid obj payload clk c] assms
    unfolding step by auto
  then show "set (keys (parts_of (lv_state (live_step e (Commit sid payload (Some obj) clk) c)) sid)) \<subseteq>
      {ml_sequence (le_media e) obj}"
    unfolding step set_map by (intro parts_new_epoch)
qed

theorem epoch_fenced_witness:
  "let c = demo_run [demo_commit 1 3 1 [1, 0, 9], demo_commit 2 3 1 [0, 1, 8], demo_commit 3 3 2 [0, 0, 8]];
       clk = \<lparr> ck_activation_us = 9, ck_now_ms = 9, ck_available_us = 9 \<rparr>;
       c' = live_step demo_env (Commit 5 [77, 4, 1, 0, 1, 6] (Some [77, 4, 1, 0, 1, 6]) clk) c in
   live_step demo_env (Commit 5 [77, 2, 9, 0, 1, 6] (Some [77, 2, 9, 0, 1, 6]) clk) c = c \<and>
   keys (parts_of (lv_state c) 5) = [1, 2] \<and> set (keys (parts_of (lv_state c') 5)) \<subseteq> {1} \<and>
   epoch_of (live_step demo_env (Retire 10) c) 5 = None \<and> 3 \<le> the (epoch_of c' 5)"
proof -
  define clk where "clk = \<lparr> ck_activation_us = 9, ck_now_ms = 9, ck_available_us = (9 :: nat) \<rparr>"
  define c where "c = demo_run [demo_commit 1 3 1 [1, 0, 9], demo_commit 2 3 1 [0, 1, 8], demo_commit 3 3 2 [0, 0, 8]]"
  have epoch: "epoch_of c 5 = Some 3" "keys (parts_of (lv_state c) 5) = [1, 2]" "epoch_of (live_step demo_env (Retire 10) c) 5 = None"
    unfolding c_def by code_simp+
  have new: "epoch_of (live_step demo_env (Commit 5 [77, 4, 1, 0, 1, 6] (Some [77, 4, 1, 0, 1, 6]) clk) c) 5 = Some 4"
    unfolding c_def clk_def by code_simp
  have old: "ml_epoch (le_media demo_env) [77, 2, 9, 0, 1, 6] < 3" by code_simp
  have seq: "ml_sequence (le_media demo_env) [77, 4, 1, 0, 1, 6] = 1" by code_simp
  show ?thesis
    unfolding Let_def c_def [symmetric] clk_def [symmetric]
    using epoch old epoch_fenced [OF epoch(1), of demo_env "[77, 2, 9, 0, 1, 6]" "[77, 2, 9, 0, 1, 6]" clk]
      epoch_fenced [OF epoch(1), of demo_env "[77, 4, 1, 0, 1, 6]" "[77, 4, 1, 0, 1, 6]" clk
        "Commit 5 [77, 4, 1, 0, 1, 6] (Some [77, 4, 1, 0, 1, 6]) clk" 4] new unfolding seq by simp
qed

text \<open>retirement is exact. Of a reachable cache, exactly the streams other than the default one whose last
  payload is not after the cutoff are forgotten, in every table and in the playlist cache; every other
  stream, the part under construction and the counters are left as they were, and the result counts
  them.\<close>

theorem retirement_exact:
  assumes "live_reach e c" "config_small (le_config e)"
    and "retire_streams_idle_before lib (le_config e) cutoff c = (c', n)"
  shows "(idle_stream (le_config e) cutoff c sid \<longrightarrow> forgotten (lv_state c') sid) \<and>
    (\<not> idle_stream (le_config e) cutoff c sid \<longrightarrow> stream_view (lv_state c') sid = stream_view (lv_state c) sid) \<and>
    shared_view (lv_state c') = shared_view (lv_state c) \<and>
    lv_playlists c' = drop_playlists (idle_stream (le_config e) cutoff c) (lv_playlists c) \<and>
    n = card {sid. idle_stream (le_config e) cutoff c sid}"
proof (intro conjI impI)
  let ?ks = "idle_candidates (le_config e) cutoff c"
  have ks: "distinct ?ks" "set ?ks = {k. idle_stream (le_config e) cutoff c k}"
    using live_inv_reach [OF assms(1,2)] by (auto intro: idle_candidates_exact simp: live_inv_def idle_candidates_exact(2))
  have r: "retire_each lib cutoff ?ks 0 c = (c', n)"
    using assms(3) by (simp add: retire_streams_idle_before_def idle_candidates_def)
  show "idle_stream (le_config e) cutoff c sid \<Longrightarrow> forgotten (lv_state c') sid"
    "\<not> idle_stream (le_config e) cutoff c sid \<Longrightarrow> stream_view (lv_state c') sid = stream_view (lv_state c) sid"
    using retire_each_view [of lib cutoff ?ks 0 c sid] r ks(2)
    by (auto simp: stream_view_def live_state_new_def split: if_splits)
  show "shared_view (lv_state c') = shared_view (lv_state c)"
    using retire_each_shared [of lib cutoff ?ks 0 c] r by simp
  show "lv_playlists c' = drop_playlists (idle_stream (le_config e) cutoff c) (lv_playlists c)"
    using retire_each_playlists [of lib cutoff ?ks 0 c] r ks(2) by (simp add: conj_ac)
  have "filter (\<lambda>k. still_idle cutoff k c) ?ks = ?ks"
    using ks(2) by (auto simp: filter_id_conv)
  then show "n = card {sid. idle_stream (le_config e) cutoff c sid}"
    using retire_each_count [OF ks(1), of lib cutoff 0 c] r distinct_card [OF ks(1)] ks(2) by simp
qed

theorem retirement_exact_witness:
  "let c = demo_run [demo_commit 1 3 1 [1, 0, 9], demo_commit 2 3 1 [0, 1, 8]];
       r = retire_streams_idle_before demo_lib demo_config 2 c in
   parts_of (lv_state c) 5 \<noteq> [] \<and> forgotten (lv_state (fst r)) 5 \<and> snd r = 1 \<and>
   snd r = card {sid. idle_stream demo_config 2 c sid}"
proof -
  define c where "c = demo_run [demo_commit 1 3 1 [1, 0, 9], demo_commit 2 3 1 [0, 1, 8]]"
  have reach: "live_reach demo_env c"
    unfolding c_def by (rule demo_reach) code_simp
  have idle: "idle_stream (le_config demo_env) 2 c 5" "parts_of (lv_state c) 5 \<noteq> []"
      "snd (retire_streams_idle_before demo_lib demo_config 2 c) = 1" "le_config demo_env = demo_config"
    unfolding c_def by code_simp+
  have r: "retire_streams_idle_before demo_lib (le_config demo_env) 2 c =
      (fst (retire_streams_idle_before demo_lib demo_config 2 c), snd (retire_streams_idle_before demo_lib demo_config 2 c))"
    by (simp add: idle(4))
  note exact = retirement_exact [OF reach demo_small r, of 5]
  show ?thesis
    unfolding Let_def c_def [symmetric] using idle exact unfolding idle(4) by blast
qed

end
