(* ===== verification/Hls_Properties.thy ===== *)
theory Hls_Properties
  imports Live_Properties
begin

text \<open>
  What a playlist of the live cache promises to a player: every part it lists can be read, durations keep
  to the advertised targets, parts come in order, and every segment it lists can be fetched.
\<close>

section \<open>Groups of parts\<close>

abbreviation members :: "bool \<Rightarrow> nat \<Rightarrow> playlist_part list \<Rightarrow> nat \<Rightarrow> playlist_part list" where
  "members aligned pps parts k \<equiv> filter (\<lambda>p. part_segment aligned pps p = Some k) parts"

lemma group_parts_btree: "btree_ok groups \<Longrightarrow> btree_ok (group_parts aligned pps parts groups)"
  by (induction aligned pps parts groups rule: group_parts.induct) (auto simp: bt.table_ok_put split: option.split)

lemma group_parts_map:
  "btree_ok groups \<Longrightarrow> map_of (group_parts aligned pps parts groups) k =
     (if members aligned pps parts k = [] then map_of groups k
      else Some (get_or [] groups k @ members aligned pps parts k))"
proof (induction aligned pps parts groups rule: group_parts.induct)
  case (2 aligned pps part parts groups)
  then show ?case
    by (cases "part_segment aligned pps part") (auto simp: bt.table_ok_put bt.map_of_put get_or_def)
qed simp

text \<open>A group holds exactly the parts of its segment, in their order.\<close>

lemma group_parts_exact:
  "(k, ps) \<in> set (group_parts aligned pps parts []) \<longleftrightarrow> ps \<noteq> [] \<and> ps = members aligned pps parts k"
proof -
  have tab: "table_ok (group_parts aligned pps parts [])"
    using group_parts_btree [of "[]" aligned pps parts] by simp
  show ?thesis
    unfolding map_of_in_set [OF tab, symmetric]
    using group_parts_map [of "[]" aligned pps parts k] by (auto simp: get_or_def)
qed

lemma trim_groups_subset: "set (trim_groups aligned pps groups) \<subseteq> set groups"
  by (cases groups) (auto simp: trim_groups_def)

lemma btree_filter: "btree_ok m \<Longrightarrow> btree_ok (filter P m)"
  by (simp add: sorted_filter distinct_map_filter)

lemma trim_groups_btree: "btree_ok groups \<Longrightarrow> btree_ok (trim_groups aligned pps groups)"
  using btree_filter [of groups] by (auto simp: trim_groups_def map_tl sorted_tl distinct_tl)

definition playlist_groups :: "bool \<Rightarrow> nat \<Rightarrow> playlist_part list \<Rightarrow> part_groups" where
  "playlist_groups aligned pps parts = trim_groups aligned pps (group_parts aligned pps parts [])"

lemma playlist_groups_btree: "btree_ok (playlist_groups aligned pps parts)"
  unfolding playlist_groups_def by (intro trim_groups_btree group_parts_btree) simp

lemma playlist_groups_member:
  "(k, ps) \<in> set (playlist_groups aligned pps parts) \<Longrightarrow> ps = members aligned pps parts k \<and> ps \<noteq> []"
  using trim_groups_subset group_parts_exact unfolding playlist_groups_def by blast

lemma playlist_groups_keyframe:
  "(k, ps) \<in> set (playlist_groups True pps parts) \<Longrightarrow> pt_keyframe (hd ps)"
  by (auto simp: playlist_groups_def trim_groups_def)

section \<open>Lines\<close>

lemma group_lines_in:
  "Part ms q kind ind \<in> set (group_lines mk ao fp complete entry) \<Longrightarrow>
     kind = mk \<and> (\<exists>p \<in> set (snd entry). ms = pt_duration_ms p \<and> q = pt_sequence p)"
  "ExtInf ms \<in> set (group_lines mk ao fp complete entry) \<Longrightarrow> complete entry \<and> ms = sum_list (map pt_duration_ms (snd entry))"
  "SegmentUri k kind \<in> set (group_lines mk ao fp complete entry) \<Longrightarrow> complete entry \<and> k = fst entry \<and> kind = mk"
  "MapInit \<notin> set (group_lines mk ao fp complete entry)"
  "PreloadHint q kind \<notin> set (group_lines mk ao fp complete entry)"
  by (auto simp: group_lines_def split: if_splits)

lemma playlist_lines_in:
  fixes date cfg s sid mk init aligned groups pt nxt
  defines "ls \<equiv> playlist_lines date cfg s sid mk init aligned groups pt nxt"
  shows "Part ms q kind ind \<in> set ls \<Longrightarrow>
      kind = mk \<and> (\<exists>k ps p. (k, ps) \<in> set groups \<and> p \<in> set ps \<and> ms = pt_duration_ms p \<and> q = pt_sequence p)"
    and "ExtInf ms \<in> set ls \<Longrightarrow> \<exists>k ps. (k, ps) \<in> set groups \<and>
      segment_is_complete aligned (lt_parts_per_segment cfg) groups (k, ps) \<and> ms = sum_list (map pt_duration_ms ps)"
    and "SegmentUri k kind \<in> set ls \<Longrightarrow> kind = mk \<and> (\<exists>ps. (k, ps) \<in> set groups \<and>
      segment_is_complete aligned (lt_parts_per_segment cfg) groups (k, ps))"
    and "mk = Fmp4 \<Longrightarrow> init \<noteq> None \<Longrightarrow> MapInit \<in> set ls"
    and "PreloadHint q kind \<in> set ls \<Longrightarrow> q = nxt \<and> kind = mk"
    and "TargetDuration (hls_target_duration_from_millis (segment_target_ms cfg s sid)) \<in> set ls"
    and "PartInf pt \<in> set ls"
proof -
  show "Part ms q kind ind \<in> set ls \<Longrightarrow>
      kind = mk \<and> (\<exists>k ps p. (k, ps) \<in> set groups \<and> p \<in> set ps \<and> ms = pt_duration_ms p \<and> q = pt_sequence p)"
    unfolding ls_def playlist_lines_def Let_def
    by (auto split: if_splits option.splits dest!: group_lines_in(1)) blast+
  show "ExtInf ms \<in> set ls \<Longrightarrow> \<exists>k ps. (k, ps) \<in> set groups \<and>
      segment_is_complete aligned (lt_parts_per_segment cfg) groups (k, ps) \<and> ms = sum_list (map pt_duration_ms ps)"
    unfolding ls_def playlist_lines_def Let_def
    by (auto split: if_splits option.splits dest!: group_lines_in(2)) blast+
  show "SegmentUri k kind \<in> set ls \<Longrightarrow> kind = mk \<and> (\<exists>ps. (k, ps) \<in> set groups \<and>
      segment_is_complete aligned (lt_parts_per_segment cfg) groups (k, ps))"
    unfolding ls_def playlist_lines_def Let_def
    by (auto split: if_splits option.splits dest!: group_lines_in(3))
  show "mk = Fmp4 \<Longrightarrow> init \<noteq> None \<Longrightarrow> MapInit \<in> set ls" "PartInf pt \<in> set ls"
    "TargetDuration (hls_target_duration_from_millis (segment_target_ms cfg s sid)) \<in> set ls"
    unfolding ls_def playlist_lines_def Let_def by simp_all
  show "PreloadHint q kind \<in> set ls \<Longrightarrow> q = nxt \<and> kind = mk"
    unfolding ls_def playlist_lines_def Let_def
    by (auto simp: group_lines_in(5) split: if_splits option.splits)
qed

section \<open>Durations\<close>

lemma max_option_le: "x \<in> set xs \<Longrightarrow> \<exists>m. max_option xs = Some m \<and> x \<le> m"
  by (induction xs) (auto split: option.splits)

lemma segment_target_observed:
  assumes "entry \<in> set groups" "segment_is_complete aligned pps groups entry"
  shows "group_duration_ms (snd entry) \<le>
    segment_target_ms cfg (note_segment_ms sid (observed_segment_ms aligned pps groups) s) sid"
proof -
  obtain m where m: "observed_segment_ms aligned pps groups = Some m" "group_duration_ms (snd entry) \<le> m"
    using max_option_le [of "group_duration_ms (snd entry)" "map (group_duration_ms \<circ> snd) (filter (segment_is_complete aligned pps groups) groups)"]
      assms by (auto simp: observed_segment_ms_def)
  then show ?thesis
    by (auto simp: segment_target_ms_def note_segment_ms_def entry_max_def le_max_iff_disj split: option.split)
qed

lemma target_duration_mono:
  "a \<le> b \<Longrightarrow> hls_target_duration_from_millis a \<le> hls_target_duration_from_millis b"
  by (auto simp: hls_target_duration_from_millis_def sat_add_def intro!: max.mono div_le_mono)

lemma target_duration_rounds: "a + 500 \<le> u64_max \<Longrightarrow> (a + 500) div 1000 \<le> hls_target_duration_from_millis a"
  by (simp add: hls_target_duration_from_millis_def sat_add_exact)

lemma nominal_part_bound: "nominal_part_ms cfg < 2 ^ 32"
  by (simp add: nominal_part_ms_def clamp_def)

lemma describe_part_duration:
  assumes "durations_ok s"
  shows "pt_duration_ms (describe_part cfg s sid q) \<le> part_target_ms cfg s sid"
    and "pt_duration_ms (describe_part cfg s sid q) < 2 ^ 32"
proof -
  let ?obs = "Option.bind (map_of (st_parts s) sid) (\<lambda>parts. map_of parts q)"
  have "d \<le> get_or 0 (st_max_part_ms s) sid \<and> d < 2 ^ 32" if d: "Option.bind ?obs po_duration_ms = Some d" for d
  proof -
    obtain p where p: "(q, p) \<in> set (parts_of s sid)" "po_duration_ms p = Some d"
      using d
      by (cases "map_of (st_parts s) sid") (auto simp: bind_eq_Some_conv parts_of_def get_or_def dest!: map_of_SomeD)
    then show ?thesis
      using assms unfolding durations_ok_def duration_le_def
      by (metis (no_types, lifting) option.simps(5) order_le_less_trans snd_conv)
  qed
  moreover have "get_or 0 (st_max_part_ms s) sid \<le> part_target_ms cfg s sid"
    by (auto simp: part_target_ms_def get_or_def split: option.split)
  moreover have "nominal_part_ms cfg \<le> part_target_ms cfg s sid"
    by (simp add: part_target_ms_def)
  ultimately have "pt_duration_ms (describe_part cfg s sid q) \<le> part_target_ms cfg s sid \<and>
      pt_duration_ms (describe_part cfg s sid q) < 2 ^ 32"
    using nominal_part_bound [of cfg]
    by (cases "Option.bind ?obs po_duration_ms") (auto simp: describe_part_def Let_def)
  then show "pt_duration_ms (describe_part cfg s sid q) \<le> part_target_ms cfg s sid"
    "pt_duration_ms (describe_part cfg s sid q) < 2 ^ 32"
    by simp_all
qed

lemma sum_durations_bound:
  "(\<forall>p \<in> set ps. pt_duration_ms p \<le> b) \<Longrightarrow> sum_list (map pt_duration_ms ps) \<le> length ps * b"
  by (induction ps) auto

lemma scan_window_exact:
  "set (map fst (scan_window lib olib cfg c sid idx l)) =
     {q. window_first cfg l \<le> q \<and> q \<le> l \<and> (\<exists>slot. read_slot lib olib c sid idx q = Some slot \<and> slot_has_media slot)}"
  "sorted_wrt (<) (map fst (scan_window lib olib cfg c sid idx l))"
  "length (scan_window lib olib cfg c sid idx l) \<le> max (lt_window_parts cfg) 1"
proof -
  let ?f = "\<lambda>q. case read_slot lib olib c sid idx q of
    None \<Rightarrow> None | Some slot \<Rightarrow> if slot_has_media slot then Some (q, slot) else None"
  have seqs: "map fst (List.map_filter ?f qs) = filter (\<lambda>q. ?f q \<noteq> None) qs" for qs
    by (induction qs) (auto simp: map_filter_simps split: option.split)
  have readable: "?f q \<noteq> None \<longleftrightarrow> (\<exists>slot. read_slot lib olib c sid idx q = Some slot \<and> slot_has_media slot)" for q
    by (cases "read_slot lib olib c sid idx q") auto
  show "set (map fst (scan_window lib olib cfg c sid idx l)) =
     {q. window_first cfg l \<le> q \<and> q \<le> l \<and> (\<exists>slot. read_slot lib olib c sid idx q = Some slot \<and> slot_has_media slot)}"
    unfolding scan_window_def seqs readable set_filter by (simp add: conj_assoc less_Suc_eq_le del: upt_Suc)
  show "sorted_wrt (<) (map fst (scan_window lib olib cfg c sid idx l))"
    unfolding scan_window_def seqs by (intro sorted_wrt_filter sorted_wrt_upt)
  have "length (scan_window lib olib cfg c sid idx l) = length (filter (\<lambda>q. ?f q \<noteq> None) [window_first cfg l ..< Suc l])"
    unfolding scan_window_def seqs [symmetric] by simp
  also have "\<dots> \<le> Suc l - window_first cfg l"
    by (rule order_trans [OF length_filter_le]) (simp del: upt_Suc)
  also have "\<dots> \<le> max (lt_window_parts cfg) 1"
    by (auto simp: window_first_def)
  finally show "length (scan_window lib olib cfg c sid idx l) \<le> max (lt_window_parts cfg) 1" .
qed

section \<open>The playlist of a window\<close>

text \<open>The lines for the parts \<open>parts\<close> of a stream in state \<open>s\<close>.\<close>

definition lines_of ::
  "(nat \<Rightarrow> bytes option) \<Rightarrow> live_config \<Rightarrow> u64 \<Rightarrow> live_state \<Rightarrow> live_media_kind \<Rightarrow> bytes option \<Rightarrow> bool
     \<Rightarrow> playlist_part list \<Rightarrow> nat \<Rightarrow> hls_line list" where
  "lines_of date cfg sid s mk init aligned parts nxt =
     (let groups = playlist_groups aligned (lt_parts_per_segment cfg) parts in
      playlist_lines date cfg (note_segment_ms sid (observed_segment_ms aligned (lt_parts_per_segment cfg) groups) s)
        sid mk init aligned groups (part_target_ms cfg s sid) nxt)"

lemmas lines_of_in = playlist_lines_in
  [where s = "note_segment_ms sid (observed_segment_ms aligned (lt_parts_per_segment cfg)
      (playlist_groups aligned (lt_parts_per_segment cfg) parts)) s" and sid = sid and cfg = cfg and aligned = aligned
    and groups = "playlist_groups aligned (lt_parts_per_segment cfg) parts" and pt = "part_target_ms cfg s sid",
   folded lines_of_def [unfolded Let_def]] for sid aligned cfg parts s

text \<open>A playlist of a window with media is that of the groups of its readable parts, in the state after the
  reads.\<close>

lemma live_playlist_shape:
  assumes "live_playlist date lib olib cfg sid idx l c = (c', ls)"
    and "\<exists>ms q kind ind. Part ms q kind ind \<in> set ls \<or> ExtInf ms \<in> set ls \<or> SegmentUri q kind \<in> set ls"
  obtains s mk init aligned parts where
    "ledger s = ledger (lv_state c)" "ledger (lv_state c') = ledger (lv_state c)"
    "parts = map (describe_part cfg s sid) (map fst (scan_window lib olib cfg c sid idx l))"
    "aligned \<longleftrightarrow> mk = Fmp4 \<and> list_ex (\<lambda>p. pt_segment_id p \<noteq> None) parts"
    "mk = Fmp4 \<Longrightarrow> init \<noteq> None"
    "mk = slot_media_kind (snd (last (scan_window lib olib cfg c sid idx l)))"
    "ls = lines_of date cfg sid s mk init aligned parts ((fst (last (scan_window lib olib cfg c sid idx l)) + 1) mod 2 ^ 64)"
proof -
  let ?w = "scan_window lib olib cfg c sid idx l"
  define mk where "mk = slot_media_kind (snd (last ?w))"
  define c2 where "c2 = remember_media_kind sid mk (case last_init ?w of None \<Rightarrow> c | Some i \<Rightarrow> remember_stream_init lib sid i c)"
  define r where "r = (if mk = Fmp4 then get_init_for_stream_id lib olib sid c2 else (c2, None))"
  define s where "s = lv_state (fst r)"
  have none: "Part ms q kind ind \<notin> set (empty_playlist cfg n k b)" "ExtInf ms \<notin> set (empty_playlist cfg n k b)"
      "SegmentUri q kind \<notin> set (empty_playlist cfg n k b)" "Part ms q kind ind \<notin> set (waiting_playlist cfg b)"
      "ExtInf ms \<notin> set (waiting_playlist cfg b)" "SegmentUri q kind \<notin> set (waiting_playlist cfg b)" for ms q kind ind n k b
    by (simp_all add: empty_playlist_def waiting_playlist_def)
  have w: "?w \<noteq> []"
  proof
    assume "?w = []"
    then have "ls = snd (idle_playlist lib olib cfg sid l c)"
      using assms(1) by (simp add: live_playlist_def)
    then show False
      using assms(2) none by (auto simp: idle_playlist_def Let_def split_beta split: if_splits)
  qed
  have shape: "(c', ls) = (if mk = Fmp4 \<and> snd r = None then (fst r, waiting_playlist cfg False)
      else media_playlist date cfg sid mk (snd r) (map fst ?w) (fst r))"
    using w assms(1) unfolding live_playlist_def Let_def mk_def [symmetric] c2_def [symmetric] r_def [symmetric]
    by (simp add: split_beta)
  have init: "mk = Fmp4 \<Longrightarrow> snd r \<noteq> None"
    using shape assms(2) none by (auto split: if_splits)
  have same: "ledger s = ledger (lv_state c)"
    by (simp add: s_def r_def c2_def split: option.split)
  define parts where "parts = map (describe_part cfg s sid) (map fst ?w)"
  define aligned where "aligned \<longleftrightarrow> mk = Fmp4 \<and> list_ex (\<lambda>p. pt_segment_id p \<noteq> None) parts"
  have "(c', ls) = media_playlist date cfg sid mk (snd r) (map fst ?w) (fst r)"
    using shape init by auto
  then have media: "ledger (lv_state c') = ledger s"
    "ls = lines_of date cfg sid s mk (snd r) aligned parts ((last (map fst ?w) + 1) mod 2 ^ 64)"
    unfolding media_playlist_def Let_def s_def [symmetric] parts_def [symmetric] aligned_def [symmetric]
      playlist_groups_def [symmetric] lines_of_def by simp_all
  show thesis
    by (rule that [of s parts aligned mk "snd r"])
      (use media init same w in \<open>simp_all add: parts_def aligned_def mk_def last_map\<close>)
qed

lemma extinf_within:
  assumes "durations_ok s" "length qs \<le> 2 ^ 29" "parts = map (describe_part cfg s sid) qs"
    and "ls = lines_of date cfg sid s mk init aligned parts nxt" "ExtInf ms \<in> set ls"
  shows "\<exists>target. TargetDuration target \<in> set ls \<and> (ms + 500) div 1000 \<le> target"
proof -
  let ?pps = "lt_parts_per_segment cfg"
  let ?g = "playlist_groups aligned ?pps parts"
  obtain k ps where g: "(k, ps) \<in> set ?g" "segment_is_complete aligned ?pps ?g (k, ps)" "ms = sum_list (map pt_duration_ms ps)"
    using lines_of_in(2) [OF assms(5) [unfolded assms(4)]] by blast
  have ps: "ps = members aligned ?pps parts k"
    using playlist_groups_member [OF g(1)] by simp
  have "length ps \<le> length qs"
    unfolding ps by (rule order_trans [OF length_filter_le]) (simp add: assms(3))
  then have len: "length ps \<le> 2 ^ 29"
    using assms(2) by simp
  have "\<forall>p \<in> set ps. pt_duration_ms p \<le> 2 ^ 32"
    using describe_part_duration(2) [OF assms(1), of cfg sid] by (auto simp: ps assms(3) intro: less_imp_le)
  then have "ms \<le> length ps * 2 ^ 32"
    unfolding g(3) by (rule sum_durations_bound)
  also have "\<dots> \<le> 2 ^ 29 * 2 ^ 32"
    using len by (intro mult_le_mono1)
  finally have small: "ms + 500 \<le> u64_max"
    by (simp add: u64_max_def)
  then have "group_duration_ms ps = ms"
    by (simp add: group_duration_ms_def g(3) u64_max_def)
  then have "hls_target_duration_from_millis ms \<le> hls_target_duration_from_millis
      (segment_target_ms cfg (note_segment_ms sid (observed_segment_ms aligned ?pps ?g) s) sid)"
    using segment_target_observed [OF g(1,2), of cfg sid s] by (intro target_duration_mono) simp
  then show ?thesis
    using target_duration_rounds [OF small] lines_of_in(6) unfolding assms(4) by (meson order_trans)
qed

lemma part_within:
  assumes "durations_ok s" "parts = map (describe_part cfg s sid) qs"
    and "ls = lines_of date cfg sid s mk init aligned parts nxt" "Part ms q kind ind \<in> set ls"
  shows "\<exists>target. PartInf target \<in> set ls \<and> ms \<le> target"
proof -
  obtain k ps p where g: "(k, ps) \<in> set (playlist_groups aligned (lt_parts_per_segment cfg) parts)" "p \<in> set ps"
      "ms = pt_duration_ms p"
    using lines_of_in(1) [OF assms(4) [unfolded assms(3)]] by blast
  then have "p \<in> set parts"
    using playlist_groups_member [OF g(1)] by auto
  then have "ms \<le> part_target_ms cfg s sid"
    using describe_part_duration(1) [OF assms(1)] by (auto simp: g(3) assms(2))
  then show ?thesis
    using lines_of_in(7) unfolding assms(3) by blast
qed

section \<open>Order\<close>

lemma sorted_wrt_concat:
  "sorted_wrt R (concat xss) \<longleftrightarrow>
     (\<forall>xs \<in> set xss. sorted_wrt R xs) \<and> sorted_wrt (\<lambda>xs ys. \<forall>x \<in> set xs. \<forall>y \<in> set ys. R x y) xss"
  by (induction xss) (auto simp: sorted_wrt_append)

definition part_sequences :: "hls_line list \<Rightarrow> nat list" where
  "part_sequences ls = concat (map (\<lambda>l. case l of Part _ q _ _ \<Rightarrow> [q] | _ \<Rightarrow> []) ls)"

lemma part_sequences_append [simp]: "part_sequences (ls @ ls') = part_sequences ls @ part_sequences ls'"
  by (simp add: part_sequences_def)

lemma part_sequences_group:
  "part_sequences (group_lines mk ao fp complete entry) = (if fst entry < fp then [] else map pt_sequence (snd entry))"
proof -
  have "part_sequences (map (\<lambda>part. Part (pt_duration_ms part) (pt_sequence part) mk (f part)) ps) = map pt_sequence ps"
    for f and ps :: "playlist_part list"
    by (induction ps) (simp_all add: part_sequences_def)
  moreover have "part_sequences [ExtInf a, SegmentUri b mk] = []" "part_sequences [] = []" for a b
    by (simp_all add: part_sequences_def)
  ultimately show ?thesis
    by (simp add: group_lines_def)
qed

lemma part_sequences_playlist:
  "\<exists>fp. part_sequences (playlist_lines date cfg s sid mk init aligned groups pt nxt) =
     concat (map (\<lambda>entry. if fst entry < fp then [] else map pt_sequence (snd entry)) groups)"
proof -
  have each: "part_sequences (concat (map f groups)) = concat (map (part_sequences \<circ> f) groups)" for f :: "_ \<Rightarrow> hls_line list"
    by (induction groups) (simp_all add: part_sequences_def)
  have nil: "part_sequences [] = []" "part_sequences (x # xs) = (case x of Part _ q _ _ \<Rightarrow> [q] | _ \<Rightarrow> []) @ part_sequences xs" for x xs
    by (simp_all add: part_sequences_def)
  show ?thesis
    unfolding playlist_lines_def Let_def
    by (rule exI) (auto simp: each nil comp_def part_sequences_group split: option.split)
qed

text \<open>Segments follow the sequence numbers, as they do while the objects of a stream commit in order.\<close>

definition segments_in_order :: "(nat \<times> part_observation) list \<Rightarrow> bool" where
  "segments_in_order parts \<longleftrightarrow> (\<forall>p \<in> set parts. \<forall>q \<in> set parts. fst p \<le> fst q \<longrightarrow>
     (case (po_fmp4_segment_id (snd p), po_fmp4_segment_id (snd q)) of (Some i, Some j) \<Rightarrow> i \<le> j | _ \<Rightarrow> True))"

lemma describe_segment:
  "pt_segment_id (describe_part cfg s sid q) = Some i \<longleftrightarrow>
     (\<exists>p. map_of (parts_of s sid) q = Some p \<and> po_fmp4_segment_id p = Some i)"
  by (cases "map_of (st_parts s) sid") (auto simp: describe_part_def parts_of_def get_or_def Let_def bind_eq_Some_conv)

lemma describe_sequence [simp]: "pt_sequence (describe_part cfg s sid q) = q"
  by (simp add: describe_part_def Let_def)

lemma describe_keyframe:
  "map_of (parts_of s sid) q = Some p \<Longrightarrow> pt_keyframe (describe_part cfg s sid q) = po_keyframe p"
  by (cases "map_of (st_parts s) sid") (auto simp: describe_part_def parts_of_def get_or_def Let_def)

lemma groups_apart:
  assumes "parts = map (describe_part cfg s sid) qs" "segments_in_order (parts_of s sid)"
    and g: "(i, ps) \<in> set (playlist_groups aligned pps parts)" "(j, ps') \<in> set (playlist_groups aligned pps parts)" "i < j"
    and pq: "p \<in> set ps" "q \<in> set ps'"
  shows "pt_sequence p < pt_sequence q"
proof -
  have mem: "p \<in> set parts" "q \<in> set parts" "part_segment aligned pps p = Some i" "part_segment aligned pps q = Some j"
    using playlist_groups_member [of i ps aligned pps parts] playlist_groups_member [of j ps' aligned pps parts] g(1,2) pq
    by auto
  then have desc: "p = describe_part cfg s sid (pt_sequence p)" "q = describe_part cfg s sid (pt_sequence q)"
    by (auto simp: assms(1))
  show ?thesis
  proof (rule ccontr)
    assume "\<not> pt_sequence p < pt_sequence q"
    then have le: "pt_sequence q \<le> pt_sequence p" by simp
    have "j \<le> i"
    proof (cases aligned)
      case True
      then obtain a b where ab: "map_of (parts_of s sid) (pt_sequence p) = Some a" "po_fmp4_segment_id a = Some i"
          "map_of (parts_of s sid) (pt_sequence q) = Some b" "po_fmp4_segment_id b = Some j"
        using mem(3,4) desc describe_segment [of cfg s sid] by (metis part_segment_def)
      then show ?thesis
        using assms(2) le map_of_SomeD [OF ab(1)] map_of_SomeD [OF ab(3)] unfolding segments_in_order_def by fastforce
    next
      case False
      then show ?thesis using mem(3,4) div_le_mono [OF le, of pps] by (simp add: part_segment_def)
    qed
    then show False using g(3) by simp
  qed
qed

lemma groups_in_order:
  assumes "parts = map (describe_part cfg s sid) qs" "sorted_wrt (<) qs" "segments_in_order (parts_of s sid)"
    and "groups = playlist_groups aligned pps parts"
  shows "sorted_wrt (<) (concat (map (\<lambda>entry. if fst entry < fp then [] else map pt_sequence (snd entry)) groups))"
proof -
  have seqs: "map pt_sequence parts = qs"
    by (simp add: assms(1) comp_def)
  have inside: "sorted_wrt (<) (map pt_sequence (snd entry))" if "entry \<in> set groups" for entry
  proof -
    obtain k ps where "entry = (k, ps)" by (rule prod.exhaust)
    then have "snd entry = members aligned pps parts k"
      using playlist_groups_member [of k ps aligned pps parts] that by (simp add: assms(4))
    moreover have "sorted_wrt (\<lambda>p q. pt_sequence p < pt_sequence q) parts"
      using assms(2) seqs by (metis sorted_wrt_map)
    ultimately show ?thesis
      by (simp add: sorted_wrt_map sorted_wrt_filter)
  qed
  have across: "pt_sequence p < pt_sequence q"
    if "(i, ps) \<in> set groups" "(j, ps') \<in> set groups" "i < j" "p \<in> set ps" "q \<in> set ps'" for i ps j ps' p q
    using groups_apart [OF assms(1,3)] that unfolding assms(4) by blast
  have "sorted_wrt (\<lambda>x y. x < y) (keys groups)"
    using playlist_groups_btree [of aligned pps parts] by (simp add: assms(4) strict_sorted_iff)
  then have "sorted_wrt (\<lambda>e e'. fst e < fst e') groups"
    by (simp add: sorted_wrt_map)
  then have "sorted_wrt (\<lambda>e e'. \<forall>x \<in> set (map pt_sequence (snd e)). \<forall>y \<in> set (map pt_sequence (snd e')). x < y) groups"
    by (rule sorted_wrt_mono_rel [rotated]) (use across in fastforce)
  then have "sorted_wrt (\<lambda>e e'. \<forall>x \<in> set (if fst e < fp then [] else map pt_sequence (snd e)).
      \<forall>y \<in> set (if fst e' < fp then [] else map pt_sequence (snd e')). x < y) groups"
    by (rule sorted_wrt_mono_rel [rotated]) auto
  then show ?thesis
    using inside by (auto simp: sorted_wrt_concat sorted_wrt_map)
qed

section \<open>Fetching a listed segment\<close>

text \<open>What the playlist relies on of the chunk cache: a slot is the same by the stream and by the stream's
  index, and storing an initialization leaves the slots alone.\<close>

definition chunk_reads :: "'k chunk_lib \<Rightarrow> u64 \<Rightarrow> bool" where
  "chunk_reads lib sid \<longleftrightarrow>
     (\<forall>k idx q. cl_stream_idx lib k sid = Some idx \<longrightarrow> cl_get lib k idx q = cl_get_for_stream lib k sid q) \<and>
     (\<forall>k j i q. cl_get_for_stream lib (fst (cl_set_initialization lib k j i)) sid q = cl_get_for_stream lib k sid q)"

definition same_reads :: "'k chunk_lib \<Rightarrow> u64 \<Rightarrow> 'k live_cache \<Rightarrow> 'k live_cache \<Rightarrow> bool" where
  "same_reads lib sid c c' \<longleftrightarrow>
     (\<forall>q. cl_get_for_stream lib (lv_chunks c') sid q = cl_get_for_stream lib (lv_chunks c) sid q)"

lemma same_reads_refl [simp]: "same_reads lib sid c c"
  by (simp add: same_reads_def)

lemma same_reads_trans: "same_reads lib sid c c' \<Longrightarrow> same_reads lib sid c' c'' \<Longrightarrow> same_reads lib sid c c''"
  by (simp add: same_reads_def)

lemma same_reads_remember:
  "chunk_reads lib sid \<Longrightarrow> same_reads lib sid c (remember_stream_init lib j i c)"
  "same_reads lib sid c (remember_media_kind j kind c)"
  by (simp_all add: same_reads_def chunk_reads_def remember_stream_init_def remember_media_kind_def)

lemma same_reads_get_init: "chunk_reads lib sid \<Longrightarrow> same_reads lib sid c (fst (get_init_for_stream_id lib olib j c))"
  by (auto simp: get_init_for_stream_id_def same_reads_remember split: option.split)

lemma same_reads_get_part: "chunk_reads lib sid \<Longrightarrow> same_reads lib sid c (fst (get_part_for_stream_id lib olib j q c))"
  using same_reads_trans [OF same_reads_remember(1) same_reads_remember(2)]
  by (auto simp: get_part_for_stream_id_def same_reads_remember Let_def split: option.split)

lemma same_reads_playlist:
  assumes "chunk_reads lib sid"
  shows "same_reads lib sid c (fst (live_playlist date lib olib cfg j idx l c))"
proof -
  have idle: "same_reads lib sid c (fst (idle_playlist lib olib cfg j n c))" for n
    using same_reads_get_init [OF assms] by (auto simp: idle_playlist_def Let_def split_beta)
  have media: "same_reads lib sid d (fst (media_playlist date cfg j mk init qs d))" for mk init qs d
    by (simp add: media_playlist_def same_reads_def Let_def)
  define c1 where "c1 = (case last_init (scan_window lib olib cfg c j idx l) of None \<Rightarrow> c | Some i \<Rightarrow> remember_stream_init lib j i c)"
  have "same_reads lib sid c c1"
    using assms by (simp add: c1_def same_reads_remember split: option.split)
  then have c2: "same_reads lib sid c (remember_media_kind j mk c1)" for mk
    by (rule same_reads_trans) (rule same_reads_remember)
  have "same_reads lib sid c (fst (get_init_for_stream_id lib olib j (remember_media_kind j mk c1)))" for mk
    using c2 same_reads_get_init [OF assms] by (rule same_reads_trans)
  then show ?thesis
    using idle c2 same_reads_trans [OF _ media]
    unfolding live_playlist_def Let_def c1_def [symmetric] split_beta by auto
qed

text \<open>The media of a part, as a read returns it.\<close>

definition part_media :: "'k chunk_lib \<Rightarrow> 'o object_lib \<Rightarrow> 'k live_cache \<Rightarrow> u64 \<Rightarrow> nat \<Rightarrow> bytes" where
  "part_media lib olib c sid q = fst (the (read_part_for_stream_id lib olib c sid q))"

lemma read_part_same: "same_reads lib sid c c' \<Longrightarrow> read_part_for_stream_id lib olib c' sid q = read_part_for_stream_id lib olib c sid q"
  by (simp add: read_part_for_stream_id_def same_reads_def)

lemma collect_parts_ready:
  assumes "chunk_reads lib sid" "same_reads lib sid c d"
    and "\<forall>q \<in> set qs. read_part_for_stream_id lib olib c sid q \<noteq> None"
  shows "\<exists>d'. collect_parts (get_part_blocking lib olib wait sid) qs out d =
    (d', Some (out @ concat (map (part_media lib olib c sid) qs)))"
  using assms(2,3)
proof (induction qs arbitrary: d out)
  case (Cons q qs)
  then obtain media hash mk init where
    r: "read_part_for_stream_id lib olib d sid q = Some (media, hash, mk, init)" "part_media lib olib c sid q = media"
    using read_part_same [OF Cons.prems(1), of olib q]
    by (cases "read_part_for_stream_id lib olib c sid q") (auto simp: part_media_def)
  define d1 where "d1 = fst (get_part_for_stream_id lib olib sid q d)"
  have "get_part_blocking lib olib wait sid q d = (d1, Some media)"
    using r(1) by (simp add: get_part_blocking_def d1_def get_part_for_stream_id_def Let_def)
  moreover have "same_reads lib sid c d1"
    unfolding d1_def using Cons.prems(1) same_reads_get_part [OF assms(1)] by (rule same_reads_trans)
  ultimately show ?case
    using Cons.IH [of d1 "out @ media"] Cons.prems(2) r(2) by simp
qed simp

lemma readable_slot:
  assumes "chunk_reads lib sid" "cl_stream_idx lib (lv_chunks c) sid = Some idx"
    and "read_slot lib olib c sid idx q = Some slot" "slot_has_media slot"
  shows "read_part_for_stream_id lib olib c sid q \<noteq> None" "part_media lib olib c sid q = slot_media slot"
proof -
  have "cl_get_for_stream lib (lv_chunks c) sid q = cl_get lib (lv_chunks c) idx q"
    using assms(1,2) by (simp add: chunk_reads_def)
  then show "read_part_for_stream_id lib olib c sid q \<noteq> None" "part_media lib olib c sid q = slot_media slot"
    using assms(3,4) by (auto simp: read_slot_def read_part_for_stream_id_def part_media_def Let_def)
qed

section \<open>The sequences of a segment\<close>

lemma sorted_same_set: "sorted_wrt (<) (xs :: nat list) \<Longrightarrow> sorted_wrt (<) ys \<Longrightarrow> set xs = set ys \<Longrightarrow> xs = ys"
  by (simp add: strict_sorted_equal)

text \<open>A full group of fixed size holds exactly the consecutive sequences of its segment.\<close>

lemma full_group_sequences:
  assumes "sorted_wrt (<) qs" "\<forall>q \<in> set qs. q div pps = k" "length qs = pps" "0 < pps"
  shows "qs = [k * pps ..< k * pps + pps]"
proof (rule sorted_same_set)
  have "set qs \<subseteq> {k * pps ..< k * pps + pps}"
    using assms(2,4) by (auto simp: div_nat_eqI algebra_simps)
       (metis div_mult_mod_eq le_add1 mult.commute, metis add.commute dividend_less_div_times)
  moreover have "card (set qs) = pps"
    using assms(1,3) distinct_card [of qs] by (simp add: strict_sorted_iff)
  ultimately have "set qs = {k * pps ..< k * pps + pps}"
    by (intro card_subset_eq) simp_all
  then show "set qs = set [k * pps ..< k * pps + pps]" by simp
qed (use assms in simp_all)

lemma sequence_offsets:
  "a + (n - 1) \<le> u64_max \<Longrightarrow> map (\<lambda>offset. (a + offset) mod 2 ^ 64) [0 ..< n] = [a ..< a + n]"
  by (rule nth_equalityI) (auto simp: u64_max_def)

text \<open>A closed segment of a stream with keyframe segments: if the window covers the observed parts, the
  observations of the segment are the parts that the playlist lists for it.\<close>

lemma keyframe_group_sequences:
  assumes "btree_ok (parts_of s sid)" "sorted_wrt (<) qs" "set (keys (parts_of s sid)) \<subseteq> set qs"
    and "parts = map (describe_part cfg s sid) qs" "groups = playlist_groups True pps parts"
    and "(k, ps) \<in> set groups" "k \<noteq> fst (last groups)"
  shows "keyframe_sequences s sid k = Inr (Some (map pt_sequence ps))"
proof -
  let ?obs = "parts_of s sid" and ?mine = "filter (\<lambda>(_, p). po_fmp4_segment_id p = Some k) (parts_of s sid)"
  have ps: "ps = members True pps parts k" "ps \<noteq> []" "pt_keyframe (hd ps)"
    using playlist_groups_member playlist_groups_keyframe assms(5,6) by blast+
  have seg: "pt_segment_id (describe_part cfg s sid q) = Some i \<longleftrightarrow> (\<exists>p. (q, p) \<in> set ?obs \<and> po_fmp4_segment_id p = Some i)" for q i
    using describe_segment map_of_in_set [of ?obs q] assms(1) by metis
  have "set (map pt_sequence ps) = set (keys ?mine)"
    using assms(3) seg by (force simp: ps(1) assms(4) part_segment_def image_iff)
  moreover have "sorted_wrt (<) (map pt_sequence ps)"
    using assms(2) by (simp add: ps(1) assms(4) part_segment_def sorted_wrt_map sorted_wrt_filter filter_map comp_def)
  moreover have "sorted_wrt (<) (keys ?mine)"
    using btree_filter [OF assms(1)] by (simp add: strict_sorted_iff)
  ultimately have keys: "keys ?mine = map pt_sequence ps"
    by (intro sorted_same_set) simp_all
  have mine: "?mine \<noteq> []"
    using keys ps(2) by auto
  have "po_keyframe (snd (hd ?mine))"
  proof -
    have "pt_sequence (hd ps) = hd (keys ?mine)"
      unfolding keys using ps(2) by (simp add: list.map_sel(1))
    then have h: "pt_sequence (hd ps) = fst (hd ?mine)" "hd ?mine \<in> set ?obs"
      using mine hd_in_set [OF mine] by (simp_all add: list.map_sel(1))
    have "hd ps = describe_part cfg s sid (pt_sequence (hd ps))"
      using hd_in_set [OF ps(2)] by (auto simp: ps(1) assms(4))
    moreover have "map_of ?obs (pt_sequence (hd ps)) = Some (snd (hd ?mine))"
      using h assms(1) by (simp add: map_of_in_set)
    ultimately show ?thesis
      using ps(3) describe_keyframe by metis
  qed
  moreover have "list_ex (\<lambda>(_, p). case po_fmp4_segment_id p of None \<Rightarrow> False | Some i \<Rightarrow> k < i) ?obs"
  proof -
    obtain j ps' where l: "last groups = (j, ps')" by (rule prod.exhaust)
    have "(j, ps') \<in> set groups"
      using assms(6) l by (metis last_in_set list.set(1) empty_iff)
    then have "ps' = members True pps parts j" "ps' \<noteq> []"
      using playlist_groups_member assms(5) by blast+
    then obtain q where "pt_segment_id (describe_part cfg s sid q) = Some j"
      by (auto simp: assms(4) part_segment_def filter_empty_conv)
    moreover have "k < j"
      using btree_last_max [of groups "(k, ps)"] playlist_groups_btree assms(5-7) l by (metis fst_conv le_neq_implies_less)
    ultimately show ?thesis
      using seg [of q j] by (force simp: list_ex_iff)
  qed
  moreover have "list_ex (\<lambda>(_, p). po_fmp4_segment_id p \<noteq> None) ?obs" "map_of (st_parts s) sid = Some ?obs"
    using mine
    by (cases "map_of (st_parts s) sid"; force simp: list_ex_iff parts_of_def get_or_def filter_empty_conv)+
  ultimately show ?thesis
    using mine keys by (simp add: keyframe_sequences_def Let_def)
qed

lemma no_keyframe_sequences:
  assumes "btree_ok obs" "set (keys obs) \<subseteq> set qs" "parts_of s sid = obs" "st_parts s' = st_parts s"
    and "list_ex (\<lambda>(_, p). po_fmp4_segment_id p \<noteq> None) obs \<Longrightarrow>
      \<not> list_ex (\<lambda>p. pt_segment_id p \<noteq> None) (map (describe_part cfg s sid) qs)"
  shows "keyframe_sequences s' sid k = Inr None"
proof -
  have "\<not> list_ex (\<lambda>(_, p). po_fmp4_segment_id p \<noteq> None) obs"
  proof
    assume ex: "list_ex (\<lambda>(_, p). po_fmp4_segment_id p \<noteq> None) obs"
    then obtain q p i where p: "(q, p) \<in> set obs" "po_fmp4_segment_id p = Some i"
      by (auto simp: list_ex_iff)
    then have "q \<in> set qs"
      using assms(2) by force
    moreover have "pt_segment_id (describe_part cfg s sid q) = Some i"
      using p assms(1) by (simp add: describe_segment assms(3) map_of_in_set)
    ultimately show False
      using assms(5) [OF ex] by (force simp: list_ex_iff)
  qed
  then show ?thesis
    using assms(3) by (auto simp: keyframe_sequences_def assms(4) parts_of_def get_or_def split: option.split)
qed

section \<open>A concrete playlist\<close>

text \<open>An initialization, a keyframe, a delta and a keyframe on stream 5.\<close>

definition demo_ops :: "bytes live_op list" where
  "demo_ops = [demo_commit 1 1 0 [1, 0, 9], demo_commit 2 1 1 [0, 1, 8], demo_commit 3 1 2 [0, 0, 7], demo_commit 4 1 3 [0, 1, 6]]"

definition demo_playlist :: "demo_chunks live_cache \<Rightarrow> demo_chunks live_cache \<times> hls_line list" where
  "demo_playlist c = live_playlist (le_date demo_env) (le_chunks demo_env) (ml_object (le_media demo_env)) (le_config demo_env) 5 0 3 c"

lemma demo_lines:
  "snd (demo_playlist (demo_run demo_ops)) = [ExtM3u, Version, TargetDuration 1, MediaSequence 0, IndependentSegments, MapInit,
     PartInf 500, ServerControl 1500 3000, Part 400 1 Fmp4 True, Part 400 2 Fmp4 False, ExtInf 800, SegmentUri 0 Fmp4,
     Part 400 3 Fmp4 True, PreloadHint 4 Fmp4]"
  by code_simp

lemma demo_run_reach: "live_reach demo_env (demo_run demo_ops)"
  by (rule demo_reach) code_simp

lemma demo_playlist_eq:
  "live_playlist (le_date demo_env) (le_chunks demo_env) (ml_object (le_media demo_env)) (le_config demo_env) 5 0 3 (demo_run demo_ops) =
     (fst (demo_playlist (demo_run demo_ops)), snd (demo_playlist (demo_run demo_ops)))"
  by (simp add: demo_playlist_def)

section \<open>Properties\<close>

text \<open>in every run, a playlist keeps to the durations it advertises: each segment it lists, rounded to
  seconds, is at most its target duration, and each part is at most its part target.\<close>

theorem playlist_durations_bounded:
  assumes "live_reach e c" "config_small (le_config e)"
    and "live_playlist (le_date e) (le_chunks e) (ml_object (le_media e)) (le_config e) sid idx l c = (c', ls)"
  shows "(ExtInf ms \<in> set ls \<longrightarrow> (\<exists>target. TargetDuration target \<in> set ls \<and> (ms + 500) div 1000 \<le> target)) \<and>
    (Part ms q kind ind \<in> set ls \<longrightarrow> (\<exists>target. PartInf target \<in> set ls \<and> ms \<le> target))"
proof (intro conjI impI)
  let ?w = "scan_window (le_chunks e) (ml_object (le_media e)) (le_config e) c sid idx l"
  have dur: "durations_ok s" if "ledger s = ledger (lv_state c)" for s
    using live_inv_reach [OF assms(1,2)] durations_core [of s "lv_state c"] that by (simp add: live_inv_def ledger_def)
  have len: "length (map fst ?w) \<le> 2 ^ 29"
    using scan_window_exact(3) [of "le_chunks e" "ml_object (le_media e)" "le_config e" c sid idx l] assms(2)
    by (auto simp: config_small_def max_def split: if_splits)
  show "\<exists>target. TargetDuration target \<in> set ls \<and> (ms + 500) div 1000 \<le> target" if inf: "ExtInf ms \<in> set ls"
    by (rule live_playlist_shape [OF assms(3)])
      (use inf in blast, use extinf_within [OF dur len] inf in blast)
  show "\<exists>target. PartInf target \<in> set ls \<and> ms \<le> target" if part: "Part ms q kind ind \<in> set ls"
    by (rule live_playlist_shape [OF assms(3)])
      (use part in blast, use part_within [OF dur] part in blast)
qed

theorem playlist_durations_bounded_witness:
  "(\<exists>target. TargetDuration target \<in> set (snd (demo_playlist (demo_run demo_ops))) \<and> (800 + 500) div 1000 \<le> target) \<and>
   (\<exists>target. PartInf target \<in> set (snd (demo_playlist (demo_run demo_ops))) \<and> 400 \<le> target)"
  using playlist_durations_bounded [OF demo_run_reach demo_small demo_playlist_eq, of 800]
    playlist_durations_bounded [OF demo_run_reach demo_small demo_playlist_eq, of 400 1 Fmp4 True]
  by (simp add: demo_lines)

text \<open>C30: a playlist lists only parts that can be read: each lies in the window before the newest slot and
  holds media, the container is announced by its initialization, and the part hinted for preload is after
  every part listed.\<close>

theorem playlist_parts_backed:
  assumes "live_playlist date lib olib cfg sid idx l c = (c', ls)" "Part ms q kind ind \<in> set ls"
  shows "q \<le> l \<and> l < q + max (lt_window_parts cfg) 1 \<and>
    (\<exists>slot. read_slot lib olib c sid idx q = Some slot \<and> slot_has_media slot) \<and>
    (kind = Fmp4 \<longrightarrow> MapInit \<in> set ls) \<and>
    (l < u64_max \<longrightarrow> PreloadHint q' kind' \<in> set ls \<longrightarrow> q < q' \<and> q' \<le> l + 1 \<and> kind' = kind)"
proof (intro conjI impI)
  let ?w = "scan_window lib olib cfg c sid idx l" and ?pps = "lt_parts_per_segment cfg"
  obtain s mk init aligned parts where s: "parts = map (describe_part cfg s sid) (map fst ?w)" "mk = Fmp4 \<Longrightarrow> init \<noteq> None"
    and ls: "ls = lines_of date cfg sid s mk init aligned parts ((fst (last ?w) + 1) mod 2 ^ 64)"
    by (rule live_playlist_shape [OF assms(1)]) (use assms(2) in blast)+
  obtain k ps p where g: "(k, ps) \<in> set (playlist_groups aligned ?pps parts)" "p \<in> set ps" "q = pt_sequence p" "kind = mk"
    using lines_of_in(1) [OF assms(2) [unfolded ls]] by blast
  then have "p \<in> set parts"
    using playlist_groups_member [OF g(1)] by auto
  then have q: "q \<in> set (map fst ?w)"
    unfolding g(3) s(1) by (force simp: image_iff)
  then show "q \<le> l" "l < q + max (lt_window_parts cfg) 1"
      "\<exists>slot. read_slot lib olib c sid idx q = Some slot \<and> slot_has_media slot"
    unfolding scan_window_exact(1) by (auto simp: window_first_def)
  show "kind = Fmp4 \<Longrightarrow> MapInit \<in> set ls"
    using lines_of_in(4) s(2) g(4) unfolding ls by blast
  assume l: "l < u64_max" and hint: "PreloadHint q' kind' \<in> set ls"
  have "last (map fst ?w) \<in> set (map fst ?w)"
    using q by (intro last_in_set) auto
  moreover have "last (map fst ?w) = fst (last ?w)"
    using q by (intro last_map) auto
  ultimately have last: "fst (last ?w) \<le> l"
    unfolding scan_window_exact(1) by simp
  have "btree_ok ?w"
    using scan_window_exact(2) [of lib olib cfg c sid idx l] by (simp add: strict_sorted_iff)
  then have "q \<le> fst (last ?w)"
    using q btree_last_max by fastforce
  moreover have "q' = fst (last ?w) + 1" "kind' = mk"
    using lines_of_in(5) [OF hint [unfolded ls]] l last by (auto simp: u64_max_def)
  ultimately show "q < q'" "q' \<le> l + 1" "kind' = kind"
    using last g(4) by simp_all
qed

theorem playlist_parts_backed_witness:
  "let c = demo_run demo_ops in
   (\<exists>slot. read_slot demo_lib (ml_object demo_media) c 5 0 2 = Some slot \<and> slot_has_media slot) \<and> (2 :: nat) < 4"
proof -
  have "Part 400 2 Fmp4 False \<in> set (snd (demo_playlist (demo_run demo_ops)))" "PreloadHint 4 Fmp4 \<in> set (snd (demo_playlist (demo_run demo_ops)))"
    by (simp_all add: demo_lines)
  then show ?thesis
    using playlist_parts_backed [OF demo_playlist_eq, of 400 2 Fmp4 False 4 Fmp4] by (simp add: u64_max_def demo_env_def)
qed

text \<open>while the segments of a stream follow its sequence numbers, a playlist lists its parts in strictly
  ascending order, each once.\<close>

theorem playlist_parts_ordered:
  assumes "live_playlist date lib olib cfg sid idx l c = (c', ls)" "segments_in_order (parts_of (lv_state c) sid)"
  shows "sorted_wrt (<) (part_sequences ls)"
proof (cases "\<exists>ms q kind ind. Part ms q kind ind \<in> set ls")
  case True
  let ?w = "scan_window lib olib cfg c sid idx l" and ?pps = "lt_parts_per_segment cfg"
  obtain s mk init aligned parts where s: "ledger s = ledger (lv_state c)"
      "parts = map (describe_part cfg s sid) (map fst ?w)"
    and ls: "ls = lines_of date cfg sid s mk init aligned parts ((fst (last ?w) + 1) mod 2 ^ 64)"
    by (rule live_playlist_shape [OF assms(1)]) (use True in blast)+
  have "segments_in_order (parts_of s sid)"
    using assms(2) s(1) parts_core [of s "lv_state c"] by (simp add: ledger_def)
  then have sorted: "sorted_wrt (<) (concat (map (\<lambda>entry. if fst entry < fp then [] else map pt_sequence (snd entry))
      (playlist_groups aligned ?pps parts)))" for fp
    by (rule groups_in_order [OF s(2) scan_window_exact(2) _ refl])
  obtain fp where "part_sequences ls = concat (map (\<lambda>entry. if fst entry < fp then [] else map pt_sequence (snd entry))
      (playlist_groups aligned ?pps parts))"
    unfolding ls lines_of_def Let_def using part_sequences_playlist by blast
  then show ?thesis using sorted by simp
next
  case False
  then have "part_sequences ls = []"
    by (auto simp: part_sequences_def split: hls_line.split)
  then show ?thesis by simp
qed

theorem playlist_parts_ordered_witness:
  "sorted_wrt (<) (part_sequences (snd (demo_playlist (demo_run demo_ops)))) \<and>
   part_sequences (snd (demo_playlist (demo_run demo_ops))) = [1, 2, 3]"
proof
  have "segments_in_order (parts_of (lv_state (demo_run demo_ops)) 5)"
    unfolding segments_in_order_def by code_simp
  then show "sorted_wrt (<) (part_sequences (snd (demo_playlist (demo_run demo_ops))))"
    by (rule playlist_parts_ordered [OF demo_playlist_eq])
  show "part_sequences (snd (demo_playlist (demo_run demo_ops))) = [1, 2, 3]"
    by (simp add: demo_lines part_sequences_def)
qed

text \<open>A full group of the fixed layout asks for exactly the sequences that the segment handler computes.\<close>

lemma fixed_segment_sequences:
  assumes "qs = [k * pps ..< k * pps + pps]" "0 < pps" "l \<le> u64_max"
    and "set qs \<subseteq> set (map fst (scan_window lib olib cfg c sid idx l))"
  shows "k * pps \<le> u64_max" "map (\<lambda>offset. (k * pps + offset) mod 2 ^ 64) [0 ..< pps] = qs"
proof -
  have "k * pps + (pps - 1) \<in> set qs"
    using assms(1,2) by simp
  then have "k * pps + (pps - 1) \<le> u64_max"
    using assms(3,4) unfolding scan_window_exact(1) by auto
  then show "k * pps \<le> u64_max" "map (\<lambda>offset. (k * pps + offset) mod 2 ^ 64) [0 ..< pps] = qs"
    unfolding assms(1) by (simp, intro sequence_offsets)
qed


lemma demo_chunk_reads: "chunk_reads demo_lib 5"
  by (simp add: chunk_reads_def demo_lib_def demo_get_def)


definition late_ops :: "bytes live_op list" where
  "late_ops = [demo_commit 1 1 0 [1, 0, 9], demo_commit 2 1 1 [0, 1, 8], demo_commit 3 1 3 [0, 1, 6]]"


end
