(* ===== verification/Http_Requests.thy ===== *)
theory Http_Requests
  imports Hls_Playlist
begin

text \<open>
  How requests are read, in \<open>src/src/main.rs\<close>: the paths of playlists, parts, segments, media units and
  assets, query parameters, and the playback session that a player names in CMCD.

  A string is the list of its bytes. Splitting it at ASCII characters, and skipping the character after a
  backslash, is the same on bytes and on characters, since the other bytes of a character are neither
  quotes nor separators; \<open>trim\<close> knows the encodings of Unicode white space.
\<close>

unbundle bit_operations_syntax

section \<open>Strings\<close>

definition strip_prefix :: "bytes \<Rightarrow> bytes \<Rightarrow> bytes option" where
  "strip_prefix prefix s = (if starts_with s prefix then Some (drop (length prefix) s) else None)"

definition ends_with :: "bytes \<Rightarrow> bytes \<Rightarrow> bool" where
  "ends_with s suffix \<longleftrightarrow> length suffix \<le> length s \<and> drop (length s - length suffix) s = suffix"

definition strip_suffix :: "bytes \<Rightarrow> bytes \<Rightarrow> bytes option" where
  "strip_suffix suffix s = (if ends_with s suffix then Some (take (length s - length suffix) s) else None)"

fun split_once :: "bytes \<Rightarrow> bytes \<Rightarrow> (bytes \<times> bytes) option" where
  "split_once pat [] = (if pat = [] then Some ([], []) else None)"
| "split_once pat (b # bs) =
     (if starts_with (b # bs) pat then Some ([], drop (length pat) (b # bs))
      else map_option (\<lambda>(before, after). (b # before, after)) (split_once pat bs))"

definition contains :: "bytes \<Rightarrow> bytes \<Rightarrow> bool" where
  "contains pat s \<longleftrightarrow> split_once pat s \<noteq> None"

fun split_on :: "u8 \<Rightarrow> bytes \<Rightarrow> bytes list" where
  "split_on c [] = [[]]"
| "split_on c (b # bs) =
     (if b = c then [] # split_on c bs
      else (case split_on c bs of [] \<Rightarrow> [[b]] | f # fs \<Rightarrow> (b # f) # fs))"

fun join_with :: "u8 \<Rightarrow> bytes list \<Rightarrow> bytes" where
  "join_with c [] = []"
| "join_with c [s] = s"
| "join_with c (s # ss) = s @ [c] @ join_with c ss"

definition to_lower :: "u8 \<Rightarrow> u8" where
  "to_lower b = (if 65 \<le> b \<and> b \<le> 90 then b + 32 else b)"

definition eq_ignore_ascii_case :: "bytes \<Rightarrow> bytes \<Rightarrow> bool" where
  "eq_ignore_ascii_case a b \<longleftrightarrow> map to_lower a = map to_lower b"

abbreviation slash :: u8 where "slash \<equiv> 47"

section \<open>Assets\<close>

definition mission_control_asset_extension_allowed :: "bytes \<Rightarrow> bool" where
  "mission_control_asset_extension_allowed path \<longleftrightarrow>
     ends_with path (ascii ''.js'') \<or> ends_with path (ascii ''.wasm'') \<or> ends_with path (ascii ''.css'') \<or>
     ends_with path (ascii ''.png'') \<or> ends_with path (ascii ''.ico'')"

definition mission_control_asset_relative_path :: "bytes \<Rightarrow> bytes option" where
  "mission_control_asset_relative_path path =
     (if path = ascii ''/mesh'' \<or> path = ascii ''/mesh/'' then Some (ascii ''index.html'')
      else (case strip_prefix [slash] path of
         None \<Rightarrow> None
       | Some candidate \<Rightarrow>
           if candidate = [] \<or> slash \<in> set candidate \<or> contains (ascii ''..'') candidate \<or>
              \<not> mission_control_asset_extension_allowed candidate
           then None else Some candidate))"

definition mission_control_asset_content_type :: "bytes \<Rightarrow> string option" where
  "mission_control_asset_content_type path =
     (if ends_with path (ascii ''.html'') then Some ''text/html; charset=utf-8''
      else if ends_with path (ascii ''.js'') then Some ''text/javascript; charset=utf-8''
      else if ends_with path (ascii ''.wasm'') then Some ''application/wasm''
      else if ends_with path (ascii ''.css'') then Some ''text/css; charset=utf-8''
      else if ends_with path (ascii ''.png'') then Some ''image/png''
      else if ends_with path (ascii ''.ico'') then Some ''image/x-icon''
      else None)"

text \<open>One path component that is a number, as in \<open>strip_prefix\<close>, the test for slashes and \<open>parse\<close>.\<close>

definition parse_id :: "bytes \<Rightarrow> nat option" where
  "parse_id s = (if s = [] \<or> slash \<in> set s then None else parse_u64 s)"

definition parse_player_stream_path :: "bytes \<Rightarrow> nat option" where
  "parse_player_stream_path path = Option.bind (strip_prefix [slash] path) parse_id"

definition player_asset_relative_path :: "bytes \<Rightarrow> bytes option" where
  "player_asset_relative_path path =
     (if path = ascii ''/'' then Some (ascii ''index.html'')
      else if path = ascii ''/player.css'' then Some (ascii ''player.css'')
      else if path = ascii ''/player.js'' then Some (ascii ''player.js'')
      else if path = ascii ''/hls.min.js'' then Some (ascii ''hls.min.js'')
      else if path = ascii ''/manifest.webmanifest'' then Some (ascii ''manifest.webmanifest'')
      else if parse_player_stream_path path \<noteq> None then Some (ascii ''index.html'')
      else None)"

definition player_asset_content_type :: "bytes \<Rightarrow> string option" where
  "player_asset_content_type path =
     (if ends_with path (ascii ''.html'') then Some ''text/html; charset=utf-8''
      else if ends_with path (ascii ''.js'') then Some ''text/javascript; charset=utf-8''
      else if ends_with path (ascii ''.css'') then Some ''text/css; charset=utf-8''
      else if ends_with path (ascii ''.webmanifest'') then Some ''application/manifest+json''
      else None)"

section \<open>Media paths\<close>

definition stream_path :: "string \<Rightarrow> bytes \<Rightarrow> nat option" where
  "stream_path suffix path =
     Option.bind (strip_prefix (ascii ''/live/'') path) (\<lambda>rest. Option.bind (strip_suffix (ascii suffix) rest) parse_id)"

definition parse_llhls_tail_path :: "bytes \<Rightarrow> nat option" where
  "parse_llhls_tail_path path = stream_path ''/tail'' path"

definition parse_stream_playlist_path :: "bytes \<Rightarrow> nat option" where
  "parse_stream_playlist_path path = stream_path ''/stream.m3u8'' path"

definition parse_stream_init_path :: "bytes \<Rightarrow> nat option" where
  "parse_stream_init_path path = stream_path ''/init.mp4'' path"

definition strip_live_media_suffix :: "bytes \<Rightarrow> (bytes \<times> live_media_kind) option" where
  "strip_live_media_suffix value =
     (case strip_suffix (ascii ''.mp4'') value of
        Some seq \<Rightarrow> Some (seq, Fmp4)
      | None \<Rightarrow>
         (case strip_suffix (ascii ''.bin'') value of
            Some seq \<Rightarrow> Some (seq, Opaque)
          | None \<Rightarrow> map_option (\<lambda>seq. (seq, Ts)) (strip_suffix (ascii ''.ts'') value)))"

definition stream_media_path :: "string \<Rightarrow> bytes \<Rightarrow> (nat \<times> nat \<times> live_media_kind) option" where
  "stream_media_path sep path =
     Option.bind (strip_prefix (ascii ''/live/'') path) (\<lambda>rest.
       Option.bind (split_once (ascii sep) rest) (\<lambda>(stream_id, part).
         Option.bind (strip_live_media_suffix part) (\<lambda>(seq, media_kind).
           Option.bind (parse_id stream_id) (\<lambda>sid. map_option (\<lambda>q. (sid, q, media_kind)) (parse_id seq)))))"

definition parse_stream_part_path :: "bytes \<Rightarrow> (nat \<times> nat \<times> live_media_kind) option" where
  "parse_stream_part_path path = stream_media_path ''/part'' path"

definition parse_stream_segment_path :: "bytes \<Rightarrow> (nat \<times> nat \<times> live_media_kind) option" where
  "parse_stream_segment_path path = stream_media_path ''/seg'' path"

definition parse_init_path :: "bytes \<Rightarrow> bool" where
  "parse_init_path path \<longleftrightarrow> path = ascii ''/live/init.mp4''"

definition default_media_path :: "string \<Rightarrow> bytes \<Rightarrow> (nat \<times> live_media_kind) option" where
  "default_media_path prefix path =
     Option.bind (strip_prefix (ascii prefix) path) (\<lambda>part.
       Option.bind (strip_live_media_suffix part) (\<lambda>(seq, media_kind).
         map_option (\<lambda>q. (q, media_kind)) (parse_u64 seq)))"

definition parse_part_path :: "bytes \<Rightarrow> (nat \<times> live_media_kind) option" where
  "parse_part_path path = default_media_path ''/live/part'' path"

definition parse_segment_path :: "bytes \<Rightarrow> (nat \<times> live_media_kind) option" where
  "parse_segment_path path = default_media_path ''/live/seg'' path"

definition parse_media_unit_path :: "bytes \<Rightarrow> (nat \<times> nat) option" where
  "parse_media_unit_path path =
     Option.bind (strip_prefix (ascii ''/media/'') path) (\<lambda>rest.
       Option.bind (split_once (ascii ''/unit/'') rest) (\<lambda>(stream_id, sequence).
         if stream_id = [] \<or> sequence = [] \<or> slash \<in> set sequence then None
         else Option.bind (parse_u64 stream_id) (\<lambda>sid. map_option (Pair sid) (parse_u64 sequence))))"

definition is_playback_media_path :: "bytes \<Rightarrow> bool" where
  "is_playback_media_path path \<longleftrightarrow> path = ascii ''/live/stream.m3u8'' \<or> starts_with path (ascii ''/live/'')"

definition hls_failover_media_path :: "bytes \<Rightarrow> bytes option" where
  "hls_failover_media_path path =
     (if path = ascii ''/live/master.m3u8'' then Some (ascii ''/live/stream.m3u8'')
      else Option.bind (strip_prefix (ascii ''/live/'') path) (\<lambda>rest.
        Option.bind (strip_suffix (ascii ''/master.m3u8'') rest) (\<lambda>stream_id.
          if parse_id stream_id = None then None
          else Some (ascii ''/live/'' @ stream_id @ ascii ''/stream.m3u8''))))"

definition trim_end_slashes :: "bytes \<Rightarrow> bytes" where
  "trim_end_slashes s = rev (dropWhile (\<lambda>b. b = slash) (rev s))"

definition normalize_playback_base_url :: "bytes \<Rightarrow> bytes" where
  "normalize_playback_base_url url = trim_end_slashes url"

definition playback_request_url :: "bytes \<Rightarrow> bytes \<Rightarrow> bytes option \<Rightarrow> bytes option" where
  "playback_request_url base_url path query =
     (if \<not> is_playback_media_path path then None
      else
       let base = trim_end_slashes base_url in
       if base = [] \<or> \<not> (starts_with base (ascii ''https://'') \<or> starts_with base (ascii ''http://'')) then None
       else
        let suffix = (if ends_with base (ascii ''/live'')
              then (case strip_prefix (ascii ''/live'') path of None \<Rightarrow> path | Some r \<Rightarrow> r) else path);
            url = base @ suffix in
        Some (case query of None \<Rightarrow> url | Some q \<Rightarrow> if q = [] then url else url @ [63] @ q))"

section \<open>Queries\<close>

definition key_value :: "bytes \<Rightarrow> bytes \<times> bytes" where
  "key_value part = (case split_once [61] part of None \<Rightarrow> (part, []) | Some kv \<Rightarrow> kv)"

fun find_key :: "bytes \<Rightarrow> bytes list \<Rightarrow> bytes option" where
  "find_key key [] = None"
| "find_key key (part # parts) =
     (if fst (key_value part) = key then Some (snd (key_value part)) else find_key key parts)"

definition query_value :: "bytes option \<Rightarrow> string \<Rightarrow> bytes option" where
  "query_value query key = Option.bind query (\<lambda>q. find_key (ascii key) (split_on 38 q))"

definition redact_part :: "bytes \<Rightarrow> bytes" where
  "redact_part part =
     (if eq_ignore_ascii_case (fst (key_value part)) (ascii ''CMCD'') then ascii ''CMCD=[redacted]'' else part)"

definition sanitized_response_query :: "bytes option \<Rightarrow> bytes option" where
  "sanitized_response_query query = map_option (\<lambda>q. join_with 38 (map redact_part (split_on 38 q))) query"

definition parse_query_u64 :: "bytes option \<Rightarrow> string \<Rightarrow> nat option" where
  "parse_query_u64 query key = Option.bind (query_value query key) parse_u64"

definition parse_hls_reload_position :: "bytes option \<Rightarrow> unit + reload_position option" where
  "parse_hls_reload_position query =
     (case (query_value query ''_HLS_msn'', query_value query ''_HLS_part'') of
        (None, None) \<Rightarrow> Inr None
      | (None, Some _) \<Rightarrow> Inl ()
      | (Some msn, part) \<Rightarrow>
         (case parse_u64 msn of
            None \<Rightarrow> Inl ()
          | Some m \<Rightarrow>
             (case part of
                None \<Rightarrow> Inr (Some \<lparr> rl_msn = m, rl_part = None \<rparr>)
              | Some p \<Rightarrow> (case parse_u64 p of
                   None \<Rightarrow> Inl ()
                 | Some n \<Rightarrow> Inr (Some \<lparr> rl_msn = m, rl_part = Some n \<rparr>)))))"

text \<open>\<open>limit\<close> is the largest number of entries of a bundle, a constant of the crate \<open>playlists\<close>.\<close>

fun collect_stream_ids :: "nat \<Rightarrow> bytes list \<Rightarrow> nat list \<Rightarrow> unit + nat list" where
  "collect_stream_ids limit [] ids = Inr ids"
| "collect_stream_ids limit (s # ss) ids =
     (if s = [] \<or> length ids = limit then Inl ()
      else (case parse_u64 s of
         None \<Rightarrow> Inl ()
       | Some i \<Rightarrow> if i \<in> set ids then Inl () else collect_stream_ids limit ss (ids @ [i])))"

definition parse_llhls_tail_stream_ids :: "nat \<Rightarrow> bytes option \<Rightarrow> unit + nat list" where
  "parse_llhls_tail_stream_ids limit query =
     (case query_value query ''streams'' of
        None \<Rightarrow> Inl ()
      | Some stream_list \<Rightarrow>
         (case collect_stream_ids limit (split_on 44 stream_list) [] of
            Inl e \<Rightarrow> Inl e
          | Inr ids \<Rightarrow> if ids = [] then Inl () else Inr ids))"

definition parse_llhls_tail_start_sequence :: "bytes option \<Rightarrow> unit + nat" where
  "parse_llhls_tail_start_sequence query =
     (case (query_value query ''from'', query_value query ''after'') of
        (Some from, None) \<Rightarrow> (case parse_u64 from of None \<Rightarrow> Inl () | Some n \<Rightarrow> Inr n)
      | (None, Some after) \<Rightarrow>
          (case parse_u64 after of
             None \<Rightarrow> Inl ()
           | Some n \<Rightarrow> (case checked_add n 1 of None \<Rightarrow> Inl () | Some m \<Rightarrow> Inr m))
      | _ \<Rightarrow> Inl ())"

definition MAX_LLHLS_TAIL_PARTS :: nat where
  "MAX_LLHLS_TAIL_PARTS = 200"

definition parse_llhls_tail_part_count :: "bytes option \<Rightarrow> nat \<Rightarrow> nat \<Rightarrow> unit + nat" where
  "parse_llhls_tail_part_count query default_count retained_cache_parts =
     (let maximum = min retained_cache_parts MAX_LLHLS_TAIL_PARTS in
      case query_value query ''parts'' of
        None \<Rightarrow> if 1 \<le> default_count \<and> default_count \<le> maximum then Inr default_count else Inl ()
      | Some value \<Rightarrow>
         (case parse_u64 value of
            None \<Rightarrow> Inl ()
          | Some n \<Rightarrow> if 1 \<le> n \<and> n \<le> maximum then Inr n else Inl ()))"

section \<open>Playback sessions\<close>

text \<open>The characters with the property White\_Space, by their encodings.\<close>

definition is_white_space :: "bytes \<Rightarrow> bool" where
  "is_white_space c \<longleftrightarrow>
     (case c of
        [a] \<Rightarrow> 9 \<le> a \<and> a \<le> 13 \<or> a = 32
      | [a, b] \<Rightarrow> a = 194 \<and> (b = 133 \<or> b = 160)
      | [a, b, d] \<Rightarrow>
          a = 225 \<and> b = 154 \<and> d = 128 \<or>
          a = 226 \<and> b = 128 \<and> (128 \<le> d \<and> d \<le> 138 \<or> d = 168 \<or> d = 169 \<or> d = 175) \<or>
          a = 226 \<and> b = 129 \<and> d = 159 \<or>
          a = 227 \<and> b = 128 \<and> d = 128
      | _ \<Rightarrow> False)"

function trim_start :: "bytes \<Rightarrow> bytes" where
  "trim_start s =
     (if s = [] then []
      else if is_white_space (take 1 s) then trim_start (drop 1 s)
      else if is_white_space (take 2 s) then trim_start (drop 2 s)
      else if is_white_space (take 3 s) then trim_start (drop 3 s)
      else s)"
  by pat_completeness auto
termination
  by (relation "measure length") (auto simp: length_greater_0_conv [symmetric] simp del: length_greater_0_conv)

function trim_end :: "bytes \<Rightarrow> bytes" where
  "trim_end s =
     (if s = [] then []
      else if is_white_space (drop (length s - 1) s) then trim_end (take (length s - 1) s)
      else if is_white_space (drop (length s - 2) s) then trim_end (take (length s - 2) s)
      else if is_white_space (drop (length s - 3) s) then trim_end (take (length s - 3) s)
      else s)"
  by pat_completeness auto
termination
  by (relation "measure length") (auto simp: length_greater_0_conv [symmetric] simp del: length_greater_0_conv)

declare trim_start.simps [simp del] trim_end.simps [simp del]

definition trim :: "bytes \<Rightarrow> bytes" where
  "trim s = trim_end (trim_start s)"

definition normalize_playback_session_id :: "bytes \<Rightarrow> bytes option" where
  "normalize_playback_session_id value =
     (let v = trim value in
      if v \<noteq> [] \<and> length v \<le> 64 \<and> list_all (\<lambda>b. 32 \<le> b \<and> b < 127) v then Some v else None)"

definition hex_value :: "u8 \<Rightarrow> u8 option" where
  "hex_value b =
     (if 48 \<le> b \<and> b \<le> 57 then Some (b - 48)
      else if 97 \<le> b \<and> b \<le> 102 then Some (b - 97 + 10)
      else if 65 \<le> b \<and> b \<le> 70 then Some (b - 65 + 10)
      else None)"

fun percent_decode :: "bytes \<Rightarrow> bytes option" where
  "percent_decode [] = Some []"
| "percent_decode (b # bs) =
     (if b = 37 then
        (case bs of
           h # l # rest \<Rightarrow>
             (case (hex_value h, hex_value l) of
                (Some high, Some low) \<Rightarrow> map_option (Cons (push_bit 4 high OR low)) (percent_decode rest)
              | _ \<Rightarrow> None)
         | _ \<Rightarrow> None)
      else if b = 43 then map_option (Cons 32) (percent_decode bs)
      else map_option (Cons b) (percent_decode bs))"

definition percent_decode_query_value :: "bytes \<Rightarrow> bytes option" where
  "percent_decode_query_value value =
     (if 4096 < length value then None
      else (case percent_decode value of
         None \<Rightarrow> None | Some decoded \<Rightarrow> if utf8_valid decoded then Some decoded else None))"

fun unescape :: "bytes \<Rightarrow> bool \<Rightarrow> bytes option" where
  "unescape [] escaped = (if escaped then None else Some [])"
| "unescape (b # bs) escaped =
     (if escaped then map_option (Cons b) (unescape bs False)
      else if b = 92 then unescape bs True
      else map_option (Cons b) (unescape bs False))"

definition parse_cmcd_string :: "bytes \<Rightarrow> bytes option" where
  "parse_cmcd_string value =
     Option.bind (strip_prefix [34] value) (\<lambda>rest. Option.bind (strip_suffix [34] rest) (\<lambda>inner.
       Option.bind (unescape inner False) normalize_playback_session_id))"

text \<open>A field of the list, if it is the session.\<close>

definition sid_field :: "bytes \<Rightarrow> bytes option option" where
  "sid_field field =
     (case split_once [61] (trim field) of
        None \<Rightarrow> None
      | Some (key, raw_value) \<Rightarrow> if trim key = ascii ''sid'' then Some (parse_cmcd_string (trim raw_value)) else None)"

fun cmcd_scan :: "bytes \<Rightarrow> bytes \<Rightarrow> bool \<Rightarrow> bool \<Rightarrow> bytes option" where
  "cmcd_scan [] field in_quotes escaped =
     (if escaped \<or> in_quotes then None else (case sid_field field of None \<Rightarrow> None | Some r \<Rightarrow> r))"
| "cmcd_scan (b # bs) field in_quotes escaped =
     (if escaped then cmcd_scan bs (field @ [b]) in_quotes False
      else if b = 92 \<and> in_quotes then cmcd_scan bs (field @ [b]) in_quotes True
      else if b = 34 then cmcd_scan bs (field @ [b]) (\<not> in_quotes) False
      else if b = 44 \<and> \<not> in_quotes then
        (case sid_field field of None \<Rightarrow> cmcd_scan bs [] in_quotes False | Some r \<Rightarrow> r)
      else cmcd_scan bs (field @ [b]) in_quotes False)"

definition parse_cmcd_session_id :: "bytes \<Rightarrow> bytes option" where
  "parse_cmcd_session_id value = cmcd_scan value [] False False"

fun find_map :: "('a \<Rightarrow> 'b option) \<Rightarrow> 'a list \<Rightarrow> 'b option" where
  "find_map f [] = None"
| "find_map f (x # xs) = (case f x of None \<Rightarrow> find_map f xs | Some y \<Rightarrow> Some y)"

text \<open>The header values are those that \<open>to_str\<close> accepts.\<close>

definition playback_session_id :: "bytes list \<Rightarrow> bytes option \<Rightarrow> bytes option \<Rightarrow> bytes option" where
  "playback_session_id cmcd_headers session_header query =
     (case find_map parse_cmcd_session_id cmcd_headers of
        Some sid \<Rightarrow> Some sid
      | None \<Rightarrow>
         (case Option.bind (query_value query ''CMCD'')
                 (\<lambda>value. Option.bind (percent_decode_query_value value) parse_cmcd_session_id) of
            Some sid \<Rightarrow> Some sid
          | None \<Rightarrow> Option.bind session_header normalize_playback_session_id))"

end
