(* ===== verification/Http_Properties.thy ===== *)
theory Http_Properties
  imports Http_Requests
begin

text \<open>
  Requests are read as they were meant: the addresses in a playlist lead back to its parts and segments,
  asset paths stay in their directory, and a playback session is short printable text that no response
  repeats.
\<close>

section \<open>Paths\<close>

lemma starts_with_prefix [simp]: "starts_with (p @ s) p"
  by (simp add: starts_with_def)

lemma strip_prefix_append [simp]: "strip_prefix p (p @ s) = Some s"
  by (simp add: strip_prefix_def)

lemma strip_suffix_append [simp]: "strip_suffix t (s @ t) = Some s"
  by (simp add: strip_suffix_def ends_with_def)

lemma ends_with_last: "ends_with s t \<Longrightarrow> t \<noteq> [] \<Longrightarrow> last s = last t"
  unfolding ends_with_def by (metis append_take_drop_id last_appendR)

lemma ascii_simps: "ascii [] = []" "ascii (c # s) = of_nat (of_char c) # ascii s"
  by (simp_all add: ascii_def)

lemma strip_live_media_suffix_extension:
  "strip_live_media_suffix (s @ ascii ''.'' @ ascii (extension kind)) = Some (s, kind)"
proof -
  have ext: "ascii ''.'' @ ascii ''mp4'' = ascii ''.mp4''" "ascii ''.'' @ ascii ''bin'' = ascii ''.bin''"
      "ascii ''.'' @ ascii ''ts'' = ascii ''.ts''"
    by (simp_all add: ascii_simps)
  have no: "strip_suffix t s = None" if "t \<noteq> []" "s \<noteq> []" "last s \<noteq> last t" for t s
    using that ends_with_last [of s t] by (auto simp: strip_suffix_def)
  have "strip_suffix (ascii ''.mp4'') (s @ ascii ''.bin'') = None" "strip_suffix (ascii ''.mp4'') (s @ ascii ''.ts'') = None"
      "strip_suffix (ascii ''.bin'') (s @ ascii ''.ts'') = None"
    by (rule no; simp add: ascii_simps)+
  then show ?thesis
    by (cases kind) (simp_all add: strip_live_media_suffix_def ext)
qed

lemma split_once_first: "c \<notin> set a \<Longrightarrow> split_once (c # p) (a @ (c # p) @ b) = Some (a, b)"
  by (induction a) (auto simp: starts_with_def)

lemma decimal_no_slash [simp]: "slash \<notin> set (decimal n)"
  using decimal_digits [of n] by (auto simp: is_ascii_digit_def)

lemma parse_id_decimal [simp]: "n \<le> u64_max \<Longrightarrow> parse_id (decimal n) = Some n"
  by (simp add: parse_id_def)

lemma ascii_append: "ascii (s @ t) = ascii s @ ascii t"
  by (simp add: ascii_def)

lemma stream_path_back: "sid \<le> u64_max \<Longrightarrow> stream_path suffix (ascii ''/live/'' @ decimal sid @ ascii suffix) = Some sid"
  by (simp add: stream_path_def)

lemma default_path_back:
  "q \<le> u64_max \<Longrightarrow> default_media_path p (ascii p @ decimal q @ ascii ''.'' @ ascii (extension kind)) = Some (q, kind)"
  by (simp add: default_media_path_def strip_live_media_suffix_extension)

lemma media_path_back:
  assumes "sid \<le> u64_max" "q \<le> u64_max"
  shows "stream_media_path (''/'' @ sep) (ascii ''/live/'' @ decimal sid @ [slash] @ ascii sep @ decimal q @ ascii ''.'' @ ascii (extension kind)) =
    Some (sid, q, kind)"
proof -
  have "split_once (ascii (''/'' @ sep)) (decimal sid @ [slash] @ ascii sep @ decimal q @ ascii ''.'' @ ascii (extension kind)) =
      Some (decimal sid, decimal q @ ascii ''.'' @ ascii (extension kind))"
    using split_once_first [OF decimal_no_slash [of sid], of "ascii sep" "decimal q @ ascii ''.'' @ ascii (extension kind)"]
    by (simp add: ascii_simps)
  then show ?thesis
    using assms by (simp add: stream_media_path_def strip_live_media_suffix_extension)
qed

section \<open>White space\<close>

definition printable :: "u8 \<Rightarrow> bool" where
  "printable b \<longleftrightarrow> 33 \<le> b \<and> b < 127"

lemma printable_not_white: "printable a \<Longrightarrow> \<not> is_white_space (a # s)"
  by (auto simp: is_white_space_def printable_def word_le_nat_alt word_less_nat_alt split: list.splits)

lemma printable_end_not_white: "printable a \<Longrightarrow> \<not> is_white_space (s @ [a])"
  by (auto simp: is_white_space_def printable_def word_le_nat_alt word_less_nat_alt split: list.splits)

lemma trim_start_keep: "s \<noteq> [] \<Longrightarrow> printable (hd s) \<Longrightarrow> trim_start s = s"
  using printable_not_white by (subst trim_start.simps) (cases s, auto simp: take_Cons')

lemma trim_end_keep:
  assumes "s \<noteq> []" "printable (last s)"
  shows "trim_end s = s"
proof -
  have "\<not> is_white_space (drop (length s - n) s)" if "0 < n" for n
  proof -
    have "length s - n < length s"
      using assms(1) that by simp
    then have "drop (length s - n) s \<noteq> []" "last (drop (length s - n) s) = last s"
      by (simp_all add: last_drop)
    then show ?thesis
      using printable_end_not_white [OF assms(2)] by (metis append_butlast_last_id)
  qed
  then show ?thesis
    using assms(1) by (subst trim_end.simps) simp
qed

lemma trim_keep: "s \<noteq> [] \<Longrightarrow> printable (hd s) \<Longrightarrow> printable (last s) \<Longrightarrow> trim s = s"
  by (simp add: trim_def trim_start_keep trim_end_keep)

lemma trim_start_result: "trim_start s \<noteq> [] \<Longrightarrow> \<not> is_white_space [hd (trim_start s)]"
proof (induction s rule: trim_start.induct)
  case (1 s)
  then show ?case
    by (subst (asm) (4) trim_start.simps, subst trim_start.simps) (auto simp: take_Suc split: if_splits)
qed

lemma trim_end_prefix: "\<exists>n. trim_end s = take n s"
proof (induction s rule: trim_end.induct)
  case (1 s)
  then show ?case
    using trim_end.simps [of s] by (metis take_all_iff take_take order_refl)
qed

lemma trim_end_result: "trim_end s \<noteq> [] \<Longrightarrow> \<not> is_white_space [last (trim_end s)]"
proof (induction s rule: trim_end.induct)
  case (1 s)
  have "drop (length s - 1) s = [last s]" if "s \<noteq> []"
    using that by (metis append_butlast_last_id append_eq_conv_conj diff_Suc_1 length_butlast One_nat_def)
  then show ?case
    using 1 trim_end.simps [of s] by (metis (full_types))
qed

section \<open>Sessions\<close>

definition session_text :: "bytes \<Rightarrow> bool" where
  "session_text v \<longleftrightarrow> v \<noteq> [] \<and> length v \<le> 64 \<and> list_all (\<lambda>b. 32 \<le> b \<and> b < 127) v \<and> printable (hd v) \<and> printable (last v)"

lemma visible_or_space: "32 \<le> b \<Longrightarrow> b < 127 \<Longrightarrow> \<not> is_white_space [b] \<Longrightarrow> printable b" for b :: u8
proof -
  assume "32 \<le> b" "b < 127" "\<not> is_white_space [b]"
  then have "b \<noteq> 32" by (simp add: is_white_space_def)
  then have "unat b \<noteq> 32" by (simp add: word_unat_eq_iff)
  then show ?thesis
    using \<open>32 \<le> b\<close> \<open>b < 127\<close> by (simp add: printable_def word_le_nat_alt word_less_nat_alt)
qed

lemma normalized_session: "normalize_playback_session_id value = Some v \<Longrightarrow> session_text v"
proof -
  assume n: "normalize_playback_session_id value = Some v"
  then have v: "v = trim value" "v \<noteq> []" "length v \<le> 64" "list_all (\<lambda>b. 32 \<le> b \<and> b < 127) v"
    by (auto simp: normalize_playback_session_id_def Let_def split: if_splits)
  obtain k where "v = take k (trim_start value)"
    using trim_end_prefix [of "trim_start value"] v(1) by (auto simp: trim_def)
  then have "hd v = hd (trim_start value)" "trim_start value \<noteq> []"
    using v(2) by (auto simp: hd_take)
  then have "\<not> is_white_space [hd v]"
    using trim_start_result by simp
  moreover have "\<not> is_white_space [last v]"
    using trim_end_result v(1,2) by (simp add: trim_def)
  ultimately show ?thesis
    using v(2-4) hd_in_set [OF v(2)] last_in_set [OF v(2)]
    by (auto simp: session_text_def list_all_iff intro!: visible_or_space)
qed

lemma session_normalized: "session_text v \<Longrightarrow> normalize_playback_session_id v = Some v"
  by (simp add: session_text_def normalize_playback_session_id_def trim_keep)

lemma cmcd_string_session: "parse_cmcd_string s = Some v \<Longrightarrow> session_text v"
  by (auto simp: parse_cmcd_string_def bind_eq_Some_conv dest: normalized_session)

lemma cmcd_scan_session: "cmcd_scan s f q e = Some v \<Longrightarrow> session_text v"
proof (induction s f q e rule: cmcd_scan.induct)
  case (1 f q e)
  then show ?case
    by (auto simp: sid_field_def split: if_splits option.splits dest: cmcd_string_session)
next
  case (2 b bs f q e)
  have "sid_field f = Some (Some v) \<Longrightarrow> session_text v"
    by (auto simp: sid_field_def split: if_splits option.splits dest: cmcd_string_session)
  then show ?case
    using 2 by (auto split: if_splits option.splits)
qed

fun escape :: "bytes \<Rightarrow> bytes" where
  "escape [] = []"
| "escape (b # bs) = (if b = 34 \<or> b = 92 then [92, b] else [b]) @ escape bs"

lemma unescape_escape: "unescape (escape v) False = Some v"
  by (induction v) auto

lemma scan_escaped: "cmcd_scan (escape v @ rest) f True False = cmcd_scan rest (f @ escape v) True False"
  by (induction v arbitrary: f) auto

lemma sid_field_escaped:
  assumes "session_text v"
  shows "sid_field (ascii ''sid='' @ [34] @ escape v @ [34]) = Some (Some v)"
proof -
  let ?q = "[34] @ escape v @ [34]"
  have p: "printable 34" "printable 115" "printable 100"
    by (simp_all add: printable_def)
  have "trim (ascii ''sid='' @ ?q) = ascii ''sid='' @ ?q"
    by (rule trim_keep) (simp_all add: ascii_simps p)
  moreover have "split_once [61] (ascii ''sid='' @ ?q) = Some (ascii ''sid'', ?q)"
    by (simp add: ascii_simps starts_with_def)
  moreover have "trim (ascii ''sid'') = ascii ''sid''"
    by (rule trim_keep) (simp_all add: ascii_simps p)
  moreover have "trim ?q = ?q"
    by (rule trim_keep) (simp_all add: p)
  moreover have "parse_cmcd_string ?q = Some v"
    using session_normalized [OF assms] strip_prefix_append [of "[34]" "escape v @ [34]"]
    by (simp add: parse_cmcd_string_def unescape_escape)
  ultimately show ?thesis
    unfolding sid_field_def by (simp only: option.case prod.case simp_thms if_True)
qed

text \<open>A player that names its session gets it back, whatever quotes and backslashes it contains and whatever
  fields follow.\<close>

lemma cmcd_session_round_trip:
  assumes "session_text v" "rest = [] \<or> hd rest = 44"
  shows "parse_cmcd_session_id (ascii ''sid='' @ [34] @ escape v @ [34] @ rest) = Some v"
proof -
  have "parse_cmcd_session_id (ascii ''sid='' @ [34] @ escape v @ [34] @ rest) =
      cmcd_scan (escape v @ [34] @ rest) (ascii ''sid='' @ [34]) True False"
    by (simp add: parse_cmcd_session_id_def ascii_simps)
  also have "\<dots> = cmcd_scan rest (ascii ''sid='' @ [34] @ escape v @ [34]) False False"
    unfolding scan_escaped by simp
  also have "\<dots> = Some v"
    using assms(2) sid_field_escaped [OF assms(1)] by (cases rest) auto
  finally show ?thesis .
qed

section \<open>Queries\<close>

lemma split_on_nonempty [simp]: "split_on c s \<noteq> []"
  by (induction s) (auto split: list.splits)

lemma split_on_free: "\<forall>p \<in> set (split_on c s). c \<notin> set p"
  by (induction s) (auto split: list.splits)

lemma split_on_whole: "c \<notin> set s \<Longrightarrow> split_on c s = [s]"
  by (induction s) auto

lemma split_on_append: "c \<notin> set a \<Longrightarrow> split_on c (a @ [c] @ s) = a # split_on c s"
  by (induction a) auto

lemma split_join: "ps \<noteq> [] \<Longrightarrow> \<forall>p \<in> set ps. c \<notin> set p \<Longrightarrow> split_on c (join_with c ps) = ps"
proof (induction c ps rule: join_with.induct)
  case (3 c s v va)
  then show ?case using split_on_append [of c s "join_with c (v # va)"] by simp
qed (simp_all add: split_on_whole)

lemma redacted_free: "38 \<notin> set p \<Longrightarrow> 38 \<notin> set (redact_part p)"
  by (auto simp: redact_part_def ascii_simps)

text \<open>A response repeats the query with every CMCD parameter, in any letter case, replaced, and nothing else
  changed.\<close>

lemma query_redacted:
  assumes "sanitized_response_query (Some q) = Some r"
  shows "split_on 38 r = map redact_part (split_on 38 q)"
    and "\<forall>p \<in> set (split_on 38 r). eq_ignore_ascii_case (fst (key_value p)) (ascii ''CMCD'') \<longrightarrow> p = ascii ''CMCD=[redacted]''"
proof -
  have r: "r = join_with 38 (map redact_part (split_on 38 q))"
    using assms by (simp add: sanitized_response_query_def)
  show "split_on 38 r = map redact_part (split_on 38 q)"
    unfolding r using split_on_free [of 38 q] by (intro split_join) (auto simp: redacted_free)
  then show "\<forall>p \<in> set (split_on 38 r). eq_ignore_ascii_case (fst (key_value p)) (ascii ''CMCD'') \<longrightarrow> p = ascii ''CMCD=[redacted]''"
    by (auto simp: redact_part_def)
qed

lemma collect_stream_ids_exact:
  "distinct ids \<Longrightarrow> length ids \<le> limit \<Longrightarrow> collect_stream_ids limit ss ids = Inr out \<longleftrightarrow>
     (\<exists>new. out = ids @ new \<and> map parse_u64 ss = map Some new \<and> distinct out \<and> length out \<le> limit)"
proof (induction limit ss ids rule: collect_stream_ids.induct)
  case (2 limit s ss ids)
  show ?case
  proof (cases "parse_u64 s")
    case None
    then show ?thesis by auto
  next
    case (Some i)
    then have "s \<noteq> []" by (auto simp: parse_uint_def)
    then show ?thesis
      using 2 Some by (auto simp: map_eq_Cons_conv)
  qed
qed auto

section \<open>Properties\<close>



text \<open>a playback session, whether it comes in a CMCD header, in the query or in a header of its own, is one
  to 64 printable characters without white space at its ends, and is kept whole: the session that a CMCD
  field quotes is read back exactly.\<close>

theorem playback_session_sound:
  "(playback_session_id cmcd own query = Some v \<longrightarrow> session_text v) \<and>
   (session_text v \<longrightarrow> rest = [] \<or> hd rest = 44 \<longrightarrow>
      playback_session_id ((ascii ''sid='' @ [34] @ escape v @ [34] @ rest) # cmcd) own query = Some v)"
proof (intro conjI impI)
  have headers: "session_text v" if "find_map parse_cmcd_session_id hs = Some v" for hs
    using that by (induction hs) (auto simp: parse_cmcd_session_id_def split: option.splits dest: cmcd_scan_session)
  show "playback_session_id cmcd own query = Some v \<Longrightarrow> session_text v"
    by (auto simp: playback_session_id_def parse_cmcd_session_id_def bind_eq_Some_conv split: option.splits
      dest: headers cmcd_scan_session normalized_session)
  show "session_text v \<Longrightarrow> rest = [] \<or> hd rest = 44 \<Longrightarrow>
      playback_session_id ((ascii ''sid='' @ [34] @ escape v @ [34] @ rest) # cmcd) own query = Some v"
    using cmcd_session_round_trip by (simp add: playback_session_id_def)
qed

theorem playback_session_sound_witness:
  "playback_session_id [ascii ''sid='' @ [34] @ escape (ascii ''a b'') @ [34] @ ascii '',ot=v''] None None = Some (ascii ''a b'') \<and>
   session_text (ascii ''x1'')"
proof
  show "playback_session_id [ascii ''sid='' @ [34] @ escape (ascii ''a b'') @ [34] @ ascii '',ot=v''] None None = Some (ascii ''a b'')"
    by (rule playback_session_sound [THEN conjunct2, rule_format]) code_simp+
  show "session_text (ascii ''x1'')"
    by (rule playback_session_sound [of "[]" "Some (ascii '' x1'')" None, THEN conjunct1, rule_format]) code_simp
qed

text \<open>a file that a request path names lies directly in its asset directory: its name is not empty and has
  neither a slash nor two dots in a row, and has one of the served extensions.\<close>

theorem asset_path_confined:
  assumes "mission_control_asset_relative_path path = Some file \<or> player_asset_relative_path path = Some file"
  shows "file \<noteq> []" "slash \<notin> set file" "\<not> contains (ascii ''..'') file"
    and "mission_control_asset_content_type file \<noteq> None \<or> player_asset_content_type file \<noteq> None"
proof -
  let ?ok = "\<lambda>file. file \<noteq> [] \<and> slash \<notin> set file \<and> \<not> contains (ascii ''..'') file \<and>
     (mission_control_asset_content_type file \<noteq> None \<or> player_asset_content_type file \<noteq> None)"
  have fixed: "?ok (ascii ''index.html'')" "?ok (ascii ''player.css'')" "?ok (ascii ''player.js'')" "?ok (ascii ''hls.min.js'')"
      "?ok (ascii ''manifest.webmanifest'')"
    by code_simp+
  have "mission_control_asset_relative_path path = Some file \<Longrightarrow> ?ok file"
    using fixed(1)
    by (auto simp: mission_control_asset_relative_path_def mission_control_asset_extension_allowed_def
      mission_control_asset_content_type_def split: if_splits option.splits)
  moreover have "player_asset_relative_path path = Some file \<Longrightarrow> ?ok file"
    using fixed by (auto simp: player_asset_relative_path_def split: if_splits)
  ultimately have "?ok file" using assms by blast
  then show "file \<noteq> []" "slash \<notin> set file" "\<not> contains (ascii ''..'') file"
    "mission_control_asset_content_type file \<noteq> None \<or> player_asset_content_type file \<noteq> None"
    by blast+
qed

theorem asset_path_confined_witness:
  "slash \<notin> set (ascii ''app.wasm'') \<and> mission_control_asset_relative_path (ascii ''/app.wasm'') = Some (ascii ''app.wasm'') \<and>
   mission_control_asset_relative_path (ascii ''/../app.js'') = None"
proof -
  have "mission_control_asset_relative_path (ascii ''/app.wasm'') = Some (ascii ''app.wasm'')"
    "mission_control_asset_relative_path (ascii ''/../app.js'') = None"
    by code_simp+
  then show ?thesis
    using asset_path_confined(2) [of "ascii ''/app.wasm''" "ascii ''app.wasm''"] by blast
qed

text \<open>a request for the tails of several streams is read exactly if it lists numbers in range, each once and
  no more than the limit; the answer keeps their order.\<close>

theorem tail_streams_exact:
  "parse_llhls_tail_stream_ids limit query = Inr ids \<longleftrightarrow>
     (\<exists>l. query_value query ''streams'' = Some l \<and> map parse_u64 (split_on 44 l) = map Some ids \<and>
        distinct ids \<and> length ids \<le> limit)"
proof (cases "query_value query ''streams''")
  case (Some l)
  have "ids = [] \<Longrightarrow> map parse_u64 (split_on 44 l) \<noteq> map Some ids"
    by simp
  then show ?thesis
    using collect_stream_ids_exact [of "[]" limit "split_on 44 l"] Some
    by (auto simp: parse_llhls_tail_stream_ids_def split: sum.split)
qed (simp add: parse_llhls_tail_stream_ids_def)

end
