(* ===== verification/Native_Audio.thy ===== *)
theory Native_Audio
  imports Http_Requests Relay_Forwarder
begin

text \<open>
  The multichannel audio lane of \<open>src/src/main.rs\<close>: the native relay to which a player subscribes by
  datagram (\<open>NativeAudioRelay\<close>), the session of a datagram that does not name one, the datagram handlers of
  the relay ingest and of the media ingest, and the audio subscription of a WebTransport session.

  A peer is of the type \<open>'a\<close>, an \<open>Instant\<close> a number of nanoseconds. A hash map is a table with one entry per
  key; the order in which \<open>forward\<close> visits the subscriptions is that of the table. The parser of a datagram
  (\<open>inspect_multichannel_audio_datagram\<close>) belongs to another crate and is an argument. The relay sends with
  \<open>try_send_to\<close> and only logs the answer: what is sent is part of the result, the answers are not.
\<close>

section \<open>Messages\<close>

definition AUDIO_EPOCH_SUBSCRIPTION :: bytes where
  "AUDIO_EPOCH_SUBSCRIPTION = ascii ''WAVEY-AUDIO-EPOCH/1''"

definition AUDIO_EPOCH_SUBSCRIPTION_V2_PREFIX :: bytes where
  "AUDIO_EPOCH_SUBSCRIPTION_V2_PREFIX = ascii ''WAVEY-AUDIO-EPOCH/2 ''"

definition NATIVE_AUDIO_SUBSCRIBE :: bytes where
  "NATIVE_AUDIO_SUBSCRIBE = ascii ''WAVEY-DAW-SUBSCRIBE/1''"

definition NATIVE_AUDIO_SUBSCRIBE_ACK :: bytes where
  "NATIVE_AUDIO_SUBSCRIBE_ACK = ascii ''WAVEY-DAW-SUBSCRIBED/1''"

definition NATIVE_AUDIO_SUBSCRIBE_V2_PREFIX :: bytes where
  "NATIVE_AUDIO_SUBSCRIBE_V2_PREFIX = ascii ''WAVEY-DAW-SUBSCRIBE/2 ''"

definition NATIVE_AUDIO_SUBSCRIBE_ACK_V2_PREFIX :: bytes where
  "NATIVE_AUDIO_SUBSCRIBE_ACK_V2_PREFIX = ascii ''WAVEY-DAW-SUBSCRIBED/2 ''"

definition NATIVE_AUDIO_UNSUBSCRIBE :: bytes where
  "NATIVE_AUDIO_UNSUBSCRIBE = ascii ''WAVEY-DAW-UNSUBSCRIBE/1''"

definition NATIVE_AUDIO_UNSUBSCRIBE_V2_PREFIX :: bytes where
  "NATIVE_AUDIO_UNSUBSCRIBE_V2_PREFIX = ascii ''WAVEY-DAW-UNSUBSCRIBE/2 ''"

definition NATIVE_AUDIO_SUBSCRIPTION_TTL :: nat where
  "NATIVE_AUDIO_SUBSCRIPTION_TTL = 15 * 10 ^ 9"

text \<open>Bytes that are all ASCII digits are valid UTF-8, so \<open>from_utf8\<close> refuses nothing more.\<close>

definition parse_session_digits :: "bytes \<Rightarrow> nat option" where
  "parse_session_digits session =
     (if session = [] \<or> \<not> list_all is_ascii_digit session then None else parse_u64 session)"

definition parse_native_audio_session_message :: "bytes \<Rightarrow> bytes \<Rightarrow> nat option" where
  "parse_native_audio_session_message payload prefix =
     (case strip_prefix prefix payload of None \<Rightarrow> None | Some session \<Rightarrow> parse_session_digits session)"

definition parse_audio_epoch_subscription :: "bytes \<Rightarrow> nat option option" where
  "parse_audio_epoch_subscription payload =
     (if payload = AUDIO_EPOCH_SUBSCRIPTION then Some None
      else case strip_prefix AUDIO_EPOCH_SUBSCRIPTION_V2_PREFIX payload of
        None \<Rightarrow> None
      | Some session \<Rightarrow> map_option Some (parse_session_digits session))"

section \<open>The native relay\<close>

record native_subscription =
  ns_session_id :: "nat option"
  ns_expires_at :: nat

type_synonym 'a native_relay = "('a \<times> native_subscription) list"

definition has_subscriptions :: "'a native_relay \<Rightarrow> bool" where
  "has_subscriptions subs \<longleftrightarrow> subs \<noteq> []"

definition native_expire :: "nat \<Rightarrow> 'a native_relay \<Rightarrow> 'a native_relay" where
  "native_expire now subs = retain (\<lambda>_ s. now < ns_expires_at s) subs"

text \<open>The subscriptions after a control message, the acknowledgement sent to the peer, and whether the
  datagram was a control message.\<close>

definition handle_control ::
  "'a \<Rightarrow> bytes \<Rightarrow> nat \<Rightarrow> 'a native_relay \<Rightarrow> 'a native_relay \<times> bytes option \<times> bool" where
  "handle_control peer payload now subs =
     (let subscribe = \<lambda>session. tput peer
            \<lparr> ns_session_id = session, ns_expires_at = now + NATIVE_AUDIO_SUBSCRIPTION_TTL \<rparr> subs in
      if payload = NATIVE_AUDIO_SUBSCRIBE then (subscribe None, Some NATIVE_AUDIO_SUBSCRIBE_ACK, True)
      else case parse_native_audio_session_message payload NATIVE_AUDIO_SUBSCRIBE_V2_PREFIX of
        Some session_id \<Rightarrow>
          (subscribe (Some session_id), Some (NATIVE_AUDIO_SUBSCRIBE_ACK_V2_PREFIX @ decimal session_id), True)
      | None \<Rightarrow>
          if starts_with payload NATIVE_AUDIO_SUBSCRIBE_V2_PREFIX then (subs, None, True)
          else if payload = NATIVE_AUDIO_UNSUBSCRIBE then (tdel peer subs, None, True)
          else case parse_native_audio_session_message payload NATIVE_AUDIO_UNSUBSCRIBE_V2_PREFIX of
            Some session_id \<Rightarrow>
              (if (case map_of subs peer of
                     None \<Rightarrow> False | Some subscription \<Rightarrow> ns_session_id subscription = Some session_id)
               then tdel peer subs else subs, None, True)
          | None \<Rightarrow> (subs, None, starts_with payload NATIVE_AUDIO_UNSUBSCRIBE_V2_PREFIX))"

definition wants_session :: "native_subscription \<Rightarrow> nat option \<Rightarrow> bool" where
  "wants_session subscription session_id \<longleftrightarrow>
     \<not> (ns_session_id subscription \<noteq> None \<and> ns_session_id subscription \<noteq> session_id)"

text \<open>The datagrams that \<open>forward\<close> hands to the socket.\<close>

definition native_forward :: "bytes \<Rightarrow> nat option \<Rightarrow> 'a native_relay \<Rightarrow> ('a \<times> bytes) list" where
  "native_forward datagram session_id subs =
     map (\<lambda>(target, _). (target, datagram)) (filter (\<lambda>(_, s). wants_session s session_id) subs)"

section \<open>The session of a datagram\<close>

record audio_identity =
  au_session_id :: "nat option"
  au_block_id :: u32
  au_source_index :: "nat option"

text \<open>The sessions of recent blocks, keyed by the block (relay ingest) or by peer and block (media ingest),
  with the time until which they are remembered.\<close>

type_synonym 'b block_sessions = "('b \<times> nat \<times> nat) list"

definition retain_sessions :: "nat \<Rightarrow> 'b block_sessions \<Rightarrow> 'b block_sessions" where
  "retain_sessions now m = retain (\<lambda>_ v. now < snd v) m"

definition session_of ::
  "'b \<Rightarrow> nat option \<Rightarrow> nat \<Rightarrow> 'b block_sessions \<Rightarrow> 'b block_sessions \<times> nat option" where
  "session_of block named now m =
     (case named of
        Some session_id \<Rightarrow> (tput block (session_id, now + 15 * 10 ^ 9) m, Some session_id)
      | None \<Rightarrow> (m, map_option fst (map_of m block)))"

section \<open>The audio lane of the relay ingest\<close>

record audio_epoch_datagram =
  ae_session_id :: "nat option"
  ae_bytes :: bytes

record 'a audio_effects =
  ax_native :: "('a \<times> bytes) list"
  ax_downstream :: "('a \<times> bytes) list"
  ax_broadcast :: "audio_epoch_datagram list"

definition no_audio_effects :: "'a audio_effects" where
  "no_audio_effects = \<lparr> ax_native = [], ax_downstream = [], ax_broadcast = [] \<rparr>"

text \<open>The channel to the WebTransport sessions is the number of its receivers, when it exists; \<open>env\<close> gives
  the clock and the answers of the forwarder's socket.\<close>

definition audio_lane ::
  "audio_identity \<Rightarrow> bytes \<Rightarrow> nat \<Rightarrow> (nat \<Rightarrow> nat \<times> send_result) \<Rightarrow> nat option \<Rightarrow> 'a native_relay option \<Rightarrow>
   u32 block_sessions \<Rightarrow> ('a, 'k) forwarder option \<Rightarrow>
   u32 block_sessions \<times> ('a, 'k) forwarder option \<times> 'a audio_effects" where
  "audio_lane identity datagram now env channel native m fw =
     (let (m1, session_id) = session_of (au_block_id identity) (au_session_id identity) now m;
          role = (if au_source_index identity \<noteq> None then SourceSymbol else RepairSymbol);
          sent = (case native of None \<Rightarrow> [] | Some subs \<Rightarrow> native_forward datagram session_id subs);
          (fw1, downstream) = (case fw of
              None \<Rightarrow> (None, [])
            | Some f \<Rightarrow> map_prod Some (\<lambda>out. out) (forward datagram role None None env f))
      in (m1, fw1, \<lparr> ax_native = sent, ax_downstream = downstream,
            ax_broadcast = (case channel of
              None \<Rightarrow> [] | Some _ \<Rightarrow> [\<lparr> ae_session_id = session_id, ae_bytes = datagram \<rparr>]) \<rparr>))"

definition process_relay_audio_epoch_datagram ::
  "(bytes \<Rightarrow> 'x + audio_identity) \<Rightarrow> bytes \<Rightarrow> nat \<Rightarrow> (nat \<Rightarrow> nat \<times> send_result) \<Rightarrow> nat option \<Rightarrow>
   'a native_relay option \<Rightarrow> u32 block_sessions \<Rightarrow> ('a, 'k) forwarder option \<Rightarrow>
   bool \<times> u32 block_sessions \<times> ('a, 'k) forwarder option \<times> 'a audio_effects" where
  "process_relay_audio_epoch_datagram inspect datagram now env channel native m fw =
     (if \<not> is_multichannel_audio_transport_datagram datagram then (False, m, fw, no_audio_effects)
      else
       let receivers = (case channel of None \<Rightarrow> 0 | Some n \<Rightarrow> n);
           subscribed = (case native of None \<Rightarrow> False | Some subs \<Rightarrow> has_subscriptions subs) in
       if Option.is_none fw \<and> receivers = 0 \<and> \<not> subscribed then (True, m, fw, no_audio_effects)
       else
        let m1 = retain_sessions now m in
        case inspect (drop 4 datagram) of
          Inl _ \<Rightarrow> (True, m1, fw, no_audio_effects)
        | Inr identity \<Rightarrow> (True, audio_lane identity datagram now env channel native m1 fw))"

section \<open>The audio lane of the media ingest\<close>

definition media_audio_datagram ::
  "(bytes \<Rightarrow> 'x + audio_identity) \<Rightarrow> 'a \<Rightarrow> bytes \<Rightarrow> nat \<Rightarrow> 'a native_relay \<Rightarrow> ('a \<times> u32) block_sessions \<Rightarrow>
   ('a \<times> u32) block_sessions \<times> ('a \<times> bytes) list \<times> audio_epoch_datagram" where
  "media_audio_datagram inspect peer datagram now subs m =
     (let m1 = retain_sessions now m;
          (m2, session_id) = (case inspect (drop 4 datagram) of
              Inl _ \<Rightarrow> (m1, None)
            | Inr identity \<Rightarrow> session_of (peer, au_block_id identity) (au_session_id identity) now m1)
      in (m2, native_forward datagram session_id subs, \<lparr> ae_session_id = session_id, ae_bytes = datagram \<rparr>))"

section \<open>The subscription of a WebTransport session\<close>

text \<open>What the channel hands to a subscriber: a datagram, a gap, or the end.\<close>

datatype epoch_recv = EpochDatagram audio_epoch_datagram | EpochLagged nat | EpochClosed

text \<open>The datagrams that the loop sends; \<open>accepts\<close> says whether \<open>send_datagram\<close> takes one.\<close>

fun audio_epoch_session :: "(bytes \<Rightarrow> bool) \<Rightarrow> nat option \<Rightarrow> epoch_recv list \<Rightarrow> bytes list" where
  "audio_epoch_session accepts requested [] = []"
| "audio_epoch_session accepts requested (EpochDatagram d # rest) =
     (if requested \<noteq> None \<and> ae_session_id d \<noteq> requested then audio_epoch_session accepts requested rest
      else if accepts (ae_bytes d) then ae_bytes d # audio_epoch_session accepts requested rest
      else [])"
| "audio_epoch_session accepts requested (EpochLagged n # rest) = audio_epoch_session accepts requested rest"
| "audio_epoch_session accepts requested (EpochClosed # rest) = []"

end
