(* ===== verification/Ingest_Node.thy ===== *)
theory Ingest_Node
  imports Native_Audio Relay_Ingress Udp_Fec Relay_Failover Live_Properties
begin

text \<open>
  The ingest loop of an edge, \<open>run_udp_fec_ingest\<close> in \<open>src/src/main.rs\<close>: one socket on which control messages
  of the native audio relay, multichannel audio, relay-session symbols and plain FEC datagrams arrive, a
  second one for the warm secondary parent, and the timers that rotate parts, expire state and drive the
  failover controller. The loop composes the components of the other theories; each handler here calls
  their operations in the order of the source.

  \<open>ingest_env\<close> holds the parameters of the components. A turn of the loop is one event; it carries the
  clocks that the handlers read and what the sockets answered. What a turn sends is part of its result.
  The forwarder is shared with the failover listeners; between two turns they may change it. Metrics
  snapshots and logs are left out.
\<close>

section \<open>Parameters and state\<close>

text \<open>A stage timestamp of a media object: whether the stage is \<open>Published\<close>, its Unix time in nanoseconds
  and the largest error of its clock, if that is known.\<close>

record stage_timestamp =
  sg_published :: bool
  sg_unix_time_ns :: int
  sg_maximum_error_ns :: "nat option"

record ('o, 'a, 'm, 'd, 'x, 'k, 'e) ingest_env =
  ie_relay :: "('o, 'a, 'm) relay_lib"
  ie_fec :: "('d, 'x) fec_lib"
  ie_live :: "('k, 'm) live_env"
  ie_inspect :: "bytes \<Rightarrow> 'e + audio_identity"
  ie_expires_at_us :: "'o \<Rightarrow> nat"
  ie_stage_timestamps :: "'m \<Rightarrow> stage_timestamp list"

record ('o, 'a, 'd, 'x, 'k) ingest_node =
  in_dispatch :: "('o, 'a) udp_dispatch"
  in_fec :: "(socket_addr, 'd, 'x) fec_receiver"
  in_sessions :: "u32 block_sessions"
  in_native :: "socket_addr native_relay"
  in_forwarder :: "(socket_addr, 'o media_key) forwarder option"
  in_live :: "'k live_cache"
  in_controller :: "controller option"
  in_reported_drops :: nat

text \<open>A datagram, with the clocks read while it is handled: the monotonic clock in nanoseconds, the wall
  clock in microseconds at the dispatch and after a commit, and in milliseconds; the answers of the
  forwarder's socket; and the receivers of the audio channel.\<close>

record arrival =
  ar_peer :: socket_addr
  ar_bytes :: bytes
  ar_now :: nat
  ar_us :: nat
  ar_available_us :: nat
  ar_ms :: nat
  ar_commit :: commit_clock
  ar_send :: "nat \<Rightarrow> nat \<times> send_result"
  ar_receivers :: "nat option"

section \<open>The age of a published object\<close>

datatype availability_observation = Measured nat nat | UnusableClock

datatype publication_clock = MeasuredClock nat nat | Unusable

fun observe_availability :: "publication_clock \<Rightarrow> nat \<Rightarrow> availability_observation" where
  "observe_availability (MeasuredClock published_us clock_error_us) available_at_us =
     (if published_us \<le> available_at_us then Measured (available_at_us - published_us) clock_error_us
      else UnusableClock)"
| "observe_availability Unusable available_at_us = UnusableClock"

definition relay_publication_clock ::
  "('o, 'a, 'm, 'd, 'x, 'k, 'e) ingest_env \<Rightarrow> 'm \<Rightarrow> publication_clock option" where
  "relay_publication_clock e object =
     (if media_kind (ie_relay e) object \<noteq> Media then None
      else case List.find sg_published (ie_stage_timestamps e object) of
        None \<Rightarrow> Some Unusable
      | Some published \<Rightarrow>
         (if sg_unix_time_ns published < 0 \<or> int u64_max < sg_unix_time_ns published then Some Unusable
          else case sg_maximum_error_ns published of
            None \<Rightarrow> Some Unusable
          | Some clock_error_ns \<Rightarrow>
              Some (MeasuredClock (div_ceil (nat (sg_unix_time_ns published)) 1000) (div_ceil clock_error_ns 1000))))"

section \<open>One datagram\<close>

text \<open>What a turn does outside the node: acknowledgements, datagrams to native subscribers, datagrams to
  children, the audio channel, committed relay objects, measured availability, and the lease command.\<close>

record 'o ingest_effects =
  ef_ack :: "(socket_addr \<times> bytes) list"
  ef_native :: "(socket_addr \<times> bytes) list"
  ef_downstream :: "(socket_addr \<times> bytes) list"
  ef_broadcast :: "audio_epoch_datagram list"
  ef_committed :: "'o media_key list"
  ef_availability :: "availability_observation list"
  ef_command :: "lease_command option"

definition no_effects :: "'o ingest_effects" where
  "no_effects = \<lparr> ef_ack = [], ef_native = [], ef_downstream = [], ef_broadcast = [], ef_committed = [],
     ef_availability = [], ef_command = None \<rparr>"

fun media_role_of :: "datagram_role \<Rightarrow> media_role" where
  "media_role_of Source = SourceSymbol"
| "media_role_of Repair = RepairSymbol"

definition commit_relay_object ::
  "('o, 'a, 'm, 'd, 'x, 'k, 'e) ingest_env \<Rightarrow> 'm \<Rightarrow> bytes \<Rightarrow> commit_clock \<Rightarrow> 'k live_cache \<Rightarrow>
   'k live_cache \<times> (live_error + nat) option" where
  "commit_relay_object e object envelope clk c =
     (case parse_u64 (ascii (key_stream (media_key_of (ie_relay e) object))) of
        None \<Rightarrow> (c, None)
      | Some stream_id \<Rightarrow>
          map_prod (\<lambda>c. c) Some (commit_stream_payload_inner (le_chunks (ie_live e)) (le_media (ie_live e))
            (le_config (ie_live e)) (of_nat stream_id) envelope (Some object) clk c))"

text \<open>A relay symbol on its way to the children.\<close>

definition forward_symbol ::
  "arrival \<Rightarrow> datagram_role \<Rightarrow> 'o media_key \<Rightarrow> nat \<Rightarrow> (socket_addr, 'o media_key) forwarder option \<Rightarrow>
   (socket_addr, 'o media_key) forwarder option \<times> (socket_addr \<times> bytes) list" where
  "forward_symbol a role key expires_at_us fw =
     (case fw of
        None \<Rightarrow> (None, [])
      | Some f \<Rightarrow> map_prod Some (\<lambda>out. out)
          (forward (ar_bytes a) (media_role_of role) (Some key) (Some expires_at_us) (ar_send a) f))"

definition relay_outcome ::
  "('o, 'a, 'm, 'd, 'x, 'k, 'e) ingest_env \<Rightarrow> arrival \<Rightarrow> ('o, 'm) ingress_outcome \<Rightarrow>
   ('o, 'a, 'd, 'x, 'k) ingest_node \<Rightarrow>
   ('o, 'a, 'd, 'x, 'k) ingest_node \<times> 'o ingest_effects \<times> datagram_observation" where
  "relay_outcome e a outcome n =
     (let key = (case outcome of
             ingress_outcome.Buffered key _ _ \<Rightarrow> key
           | ingress_outcome.Decoded object _ _ _ _ _ \<Rightarrow> media_key_of (ie_relay e) object
           | ingress_outcome.Duplicate key _ _ \<Rightarrow> key);
          role = (case outcome of
             ingress_outcome.Buffered _ role _ \<Rightarrow> role
           | ingress_outcome.Decoded _ _ role _ _ _ \<Rightarrow> role
           | ingress_outcome.Duplicate _ role _ \<Rightarrow> role);
          deadline = (case outcome of
             ingress_outcome.Buffered _ _ deadline \<Rightarrow> deadline
           | ingress_outcome.Decoded _ _ _ deadline _ _ \<Rightarrow> deadline
           | ingress_outcome.Duplicate _ _ deadline \<Rightarrow> deadline);
          (fw, out) = forward_symbol a role key (ie_expires_at_us e deadline) (in_forwarder n);
          n1 = n\<lparr> in_forwarder := fw \<rparr>;
          sent = no_effects\<lparr> ef_downstream := out \<rparr>
      in case outcome of
           ingress_outcome.Decoded object envelope _ _ _ _ \<Rightarrow>
             (case commit_relay_object e object envelope (ar_commit a) (in_live n1) of
                (live, Some (Inr _)) \<Rightarrow>
                  (n1\<lparr> in_live := live \<rparr>,
                   sent\<lparr> ef_committed := [key],
                     ef_availability := (case relay_publication_clock e object of
                        None \<Rightarrow> [] | Some clock \<Rightarrow> [observe_availability clock (ar_available_us a)]) \<rparr>,
                   \<lparr> ob_role = media_role_of role, ob_decoded = True \<rparr>)
              | (live, _) \<Rightarrow>
                  (n1\<lparr> in_live := live \<rparr>, sent, \<lparr> ob_role = media_role_of role, ob_decoded = False \<rparr>))
         | _ \<Rightarrow> (n1, sent, \<lparr> ob_role = media_role_of role, ob_decoded = False \<rparr>))"

text \<open>The payload of a FEC object: to its stream, or to the raw part buffer.\<close>

definition legacy_outcome ::
  "('o, 'a, 'm, 'd, 'x, 'k, 'e) ingest_env \<Rightarrow> arrival \<Rightarrow> (push_outcome, 'x receive_error) result \<Rightarrow>
   'k live_cache \<Rightarrow> 'k live_cache" where
  "legacy_outcome e a res c =
     (case res of
        Inr (push_outcome.Decoded _ decoded) \<Rightarrow>
          (case dec_stream_id decoded of
             Some stream_id \<Rightarrow>
               fst (commit_stream_payload_inner (le_chunks (ie_live e)) (le_media (ie_live e))
                 (le_config (ie_live e)) stream_id (dec_payload decoded) None (ar_commit a) c)
           | None \<Rightarrow>
               fst (Live_Cache.push_payload (le_chunks (ie_live e)) (le_config (ie_live e)) (dec_payload decoded)
                 (ar_now a) (ar_ms a) (ar_available_us a) c))
      | _ \<Rightarrow> c)"

definition process_udp_fec_ingest_datagram ::
  "('o, 'a, 'm, 'd, 'x, 'k, 'e) ingest_env \<Rightarrow> arrival \<Rightarrow> ('o, 'a, 'd, 'x, 'k) ingest_node \<Rightarrow>
   (('o, 'a, 'd, 'x, 'k) ingest_node \<times> 'o ingest_effects \<times> datagram_observation option) option" where
  "process_udp_fec_ingest_datagram e a n =
     (case dispatch_push (ie_relay e) (ar_peer a) (ar_bytes a) (ar_us a) (in_dispatch n) of
        None \<Rightarrow> None
      | Some (d, Inr (Relay outcome)) \<Rightarrow>
          (case relay_outcome e a outcome (n\<lparr> in_dispatch := d \<rparr>) of
             (n1, ef, observation) \<Rightarrow> Some (n1, ef, Some observation))
      | Some (d, Inl _) \<Rightarrow> Some (n\<lparr> in_dispatch := d \<rparr>, no_effects, None)
      | Some (d, Inr Legacy) \<Rightarrow>
          (case try_push_payload_at (ie_fec e) (ar_peer a) (ar_bytes a) (ar_now a) (in_fec n) of
             None \<Rightarrow> None
           | Some (r, res) \<Rightarrow>
               Some (n\<lparr> in_dispatch := d, in_fec := r, in_live := legacy_outcome e a res (in_live n) \<rparr>,
                     no_effects, None)))"

section \<open>The loop\<close>

text \<open>A datagram that is not a control message: the audio lane first, then relay and FEC, and the
  observation for the failover controller.\<close>

definition receive_media ::
  "('o, 'a, 'm, 'd, 'x, 'k, 'e) ingest_env \<Rightarrow> Relay_Failover.parent_path \<Rightarrow> arrival \<Rightarrow>
   ('o, 'a, 'd, 'x, 'k) ingest_node \<Rightarrow> (('o, 'a, 'd, 'x, 'k) ingest_node \<times> 'o ingest_effects) option" where
  "receive_media e path a n =
     (case process_relay_audio_epoch_datagram (ie_inspect e) (ar_bytes a) (ar_now a) (ar_send a) (ar_receivers a)
             (Some (in_native n)) (in_sessions n) (in_forwarder n) of
        (True, m, fw, ax) \<Rightarrow>
          Some (n\<lparr> in_sessions := m, in_forwarder := fw \<rparr>,
                no_effects\<lparr> ef_native := ax_native ax, ef_downstream := ax_downstream ax,
                  ef_broadcast := ax_broadcast ax \<rparr>)
      | (False, _) \<Rightarrow>
          (case process_udp_fec_ingest_datagram e a n of
             None \<Rightarrow> None
           | Some (n1, ef, observation) \<Rightarrow>
               Some (case (in_controller n1, observation) of
                   (Some c, Some ob) \<Rightarrow> n1\<lparr> in_controller := Some (controller_observe path ob (ar_now a) c) \<rparr>
                 | _ \<Rightarrow> n1, ef)))"

definition receive_primary ::
  "('o, 'a, 'm, 'd, 'x, 'k, 'e) ingest_env \<Rightarrow> arrival \<Rightarrow>
   ('o, 'a, 'd, 'x, 'k) ingest_node \<Rightarrow> (('o, 'a, 'd, 'x, 'k) ingest_node \<times> 'o ingest_effects) option" where
  "receive_primary e a n =
     (case handle_control (ar_peer a) (ar_bytes a) (ar_now a) (in_native n) of
        (subs, ack, True) \<Rightarrow>
          Some (n\<lparr> in_native := subs \<rparr>,
                no_effects\<lparr> ef_ack := (case ack of None \<Rightarrow> [] | Some b \<Rightarrow> [(ar_peer a, b)]) \<rparr>)
      | (subs, ack, False) \<Rightarrow> receive_media e Relay_Failover.Primary a (n\<lparr> in_native := subs \<rparr>))"

definition take_relay_deadline_drop_delta :: "nat \<Rightarrow> nat \<Rightarrow> nat \<times> nat option" where
  "take_relay_deadline_drop_delta reported_total current_total =
     (let delta = sat_sub current_total reported_total in (current_total, if 0 < delta then Some delta else None))"

text \<open>The receive state, once a second.\<close>

definition expire_ingest ::
  "('o, 'a, 'm, 'd, 'x, 'k, 'e) ingest_env \<Rightarrow> nat \<Rightarrow> nat \<Rightarrow> nat \<Rightarrow>
   ('o, 'a, 'd, 'x, 'k) ingest_node \<Rightarrow> ('o, 'a, 'd, 'x, 'k) ingest_node" where
  "expire_ingest e now now_us now_ms n =
     (let r = fst (Relay_Ingress.expire (ie_relay e) now_us (receiver (in_dispatch n))) in
      n\<lparr> in_native := native_expire now (in_native n),
         in_fec := fst (expire_inactive_at (ie_fec e) now (in_fec n)),
         in_dispatch := (in_dispatch n)\<lparr> receiver := r \<rparr>,
         in_reported_drops := fst (take_relay_deadline_drop_delta (in_reported_drops n)
           (deadline_drops (relay_counters r))),
         in_live := fst (retire_streams_idle_before (le_chunks (ie_live e)) (le_config (ie_live e))
           (sat_sub now_ms (5 * 60 * 1000)) (in_live n)) \<rparr>)"

datatype ingest_event =
    ShutdownRequested nat nat nat
  | RotateTick nat nat nat
  | ExpireTick nat nat nat
  | FailoverTick "lease_command \<Rightarrow> bool" "lease_command \<Rightarrow> bool" wall nat
  | PrimaryDatagram arrival
  | SecondaryDatagram arrival
  | ReceiveFailed

datatype ingest_status = Running | Returned | Failed

definition ingest_step ::
  "('o, 'a, 'm, 'd, 'x, 'k, 'e) ingest_env \<Rightarrow> ingest_event \<Rightarrow> ('o, 'a, 'd, 'x, 'k) ingest_node \<Rightarrow>
   (('o, 'a, 'd, 'x, 'k) ingest_node \<times> 'o ingest_effects \<times> ingest_status) option" where
  "ingest_step e ev n =
     (let rotate = \<lambda>force now now_ms us. rotate_if_due (le_chunks (ie_live e)) (le_config (ie_live e)) force
            now now_ms us (in_live n) in
      case ev of
        ShutdownRequested now now_ms us \<Rightarrow>
          (case rotate True now now_ms us of
             (live, Inr _) \<Rightarrow> Some (n\<lparr> in_live := live \<rparr>, no_effects, Returned)
           | (live, Inl _) \<Rightarrow> Some (n\<lparr> in_live := live \<rparr>, no_effects, Failed))
      | RotateTick now now_ms us \<Rightarrow>
          (case rotate False now now_ms us of
             (live, Inr _) \<Rightarrow> Some (n\<lparr> in_live := live \<rparr>, no_effects, Running)
           | (live, Inl _) \<Rightarrow> Some (n\<lparr> in_live := live \<rparr>, no_effects, Failed))
      | ExpireTick now now_us now_ms \<Rightarrow> Some (expire_ingest e now now_us now_ms n, no_effects, Running)
      | FailoverTick valid_command send w now \<Rightarrow>
          (case in_controller n of
             None \<Rightarrow> Some (n, no_effects, Running)
           | Some c \<Rightarrow>
              (case controller_tick valid_command send w now c of
                 (c1, command) \<Rightarrow>
                   Some (n\<lparr> in_controller := Some c1 \<rparr>, no_effects\<lparr> ef_command := command \<rparr>, Running)))
      | PrimaryDatagram a \<Rightarrow> map_option (\<lambda>(n1, ef). (n1, ef, Running)) (receive_primary e a n)
      | SecondaryDatagram a \<Rightarrow>
          map_option (\<lambda>(n1, ef). (n1, ef, Running)) (receive_media e Relay_Failover.Secondary a n)
      | ReceiveFailed \<Rightarrow> Some (n, no_effects, Failed))"

text \<open>The node when the loop starts.\<close>

definition ingest_start ::
  "('o, 'a) udp_dispatch \<Rightarrow> (socket_addr, 'o media_key) forwarder option \<Rightarrow> 'k live_cache \<Rightarrow> controller option \<Rightarrow>
   ('o, 'a, 'd, 'x, 'k) ingest_node" where
  "ingest_start dispatch forwarder cache failover_controller =
     \<lparr> in_dispatch = dispatch, in_fec = with_config fec_config_default, in_sessions = [], in_native = [],
       in_forwarder = forwarder, in_live = cache, in_controller = failover_controller, in_reported_drops = 0 \<rparr>"

text \<open>The loop over a sequence of events, up to the one that ends it; the effects in their order.\<close>

fun run_udp_fec_ingest ::
  "('o, 'a, 'm, 'd, 'x, 'k, 'e) ingest_env \<Rightarrow> ingest_event list \<Rightarrow> ('o, 'a, 'd, 'x, 'k) ingest_node \<Rightarrow>
   (('o, 'a, 'd, 'x, 'k) ingest_node \<times> 'o ingest_effects list \<times> ingest_status) option" where
  "run_udp_fec_ingest e [] n = Some (n, [], Running)"
| "run_udp_fec_ingest e (ev # evs) n =
     (case ingest_step e ev n of
        None \<Rightarrow> None
      | Some (n1, ef, Running) \<Rightarrow>
          map_option (\<lambda>(n2, efs, st). (n2, ef # efs, st)) (run_udp_fec_ingest e evs n1)
      | Some (n1, ef, st) \<Rightarrow> Some (n1, [ef], st))"

end
