(* ===== verification/Media_Units.thy ===== *)
theory Media_Units
  imports Native_Audio Live_Properties
begin

text \<open>
  Media access units in \<open>src/src/main.rs\<close>: how the cache stores and returns one, the datagram decoder of a
  WebTransport session (\<open>WebTransportMediaDecoder\<close>), and the media ingest loop
  (\<open>run_udp_media_fec_ingest\<close>), which shares its socket with the multichannel audio lane.

  The header codec, the FEC decoder and the stream prefix belong to other crates: fields of \<open>unit_lib\<close>. Of
  a frame's metadata the code uses the stream and the sequence number; the rest has the type \<open>'r\<close>.
\<close>

section \<open>Parameters\<close>

record 'r frame_metadata =
  mf_stream_id :: u64
  mf_sequence :: nat
  mf_rest :: 'r

record 'r fragment_header =
  fh_metadata :: "'r frame_metadata"
  fh_fragment_index :: nat
  fh_fragment_count :: nat
  fh_access_unit_len :: nat
  fh_fragment_offset :: nat

record 'r media_frame =
  fr_metadata :: "'r frame_metadata"
  fr_payload :: bytes

record ('r, 'd, 'e) unit_lib =
  ul_header_len :: nat
  ul_encode :: "'r fragment_header \<Rightarrow> 'e + bytes"
  ul_decode :: "bytes \<Rightarrow> 'e + 'r fragment_header"
  ul_decode_serialized :: "bytes \<Rightarrow> 'e + 'r media_frame option"
  ul_prefix_len :: nat
  ul_split_prefix :: "bytes \<Rightarrow> (u64 \<times> bytes) option"
  ul_datagram_magic :: bytes
  ul_decoder_new :: 'd
  ul_push :: "'d \<Rightarrow> bytes \<Rightarrow> 'd \<times> ('e + 'r media_frame option)"
  ul_push_prefixed :: "u64 \<Rightarrow> 'd \<Rightarrow> bytes \<Rightarrow> 'd \<times> ('e + 'r media_frame option)"

section \<open>Units in the cache\<close>

record 'r cached_unit =
  cu_metadata :: "'r frame_metadata"
  cu_payload_bytes :: nat
  cu_serialized :: bytes
  cu_hash :: nat

datatype 'e unit_error = UnitTooLarge nat | HeaderRejected 'e | UnitWriteFailed

definition unit_header :: "'r frame_metadata \<Rightarrow> bytes \<Rightarrow> 'r fragment_header" where
  "unit_header metadata payload =
     \<lparr> fh_metadata = metadata, fh_fragment_index = 0, fh_fragment_count = 1,
       fh_access_unit_len = length payload, fh_fragment_offset = 0 \<rparr>"

definition add_media_access_unit ::
  "('r, 'd, 'e) unit_lib \<Rightarrow> 'k chunk_lib \<Rightarrow> 'r frame_metadata \<Rightarrow> bytes \<Rightarrow> nat \<Rightarrow> 'k live_cache \<Rightarrow>
   'k live_cache \<times> ('e unit_error + 'r cached_unit)" where
  "add_media_access_unit ulib lib metadata payload now_ms c =
     (if 2 ^ 32 - 1 < length payload then (c, Inl (UnitTooLarge (length payload)))
      else case ul_encode ulib (unit_header metadata payload) of
        Inl err \<Rightarrow> (c, Inl (HeaderRejected err))
      | Inr header \<Rightarrow>
          let serialized = header @ payload;
              (chunks, ok) = cl_add lib (lv_chunks c) (mf_stream_id metadata) (mf_sequence metadata) serialized;
              c1 = c\<lparr> lv_chunks := chunks \<rparr>; s = lv_state c1 in
          if \<not> ok then (c1, Inl UnitWriteFailed)
          else
           (c1\<lparr> lv_state := s\<lparr> st_datagrams_received := sat_add (st_datagrams_received s) 1,
                  st_last_ingest_unix_ms := Some now_ms,
                  st_bytes_received := sat_add (st_bytes_received s) (length payload) \<rparr> \<rparr>,
            Inr \<lparr> cu_metadata = metadata, cu_payload_bytes = length payload, cu_serialized = serialized,
                  cu_hash = 0 \<rparr>))"

definition get_media_access_unit ::
  "('r, 'd, 'e) unit_lib \<Rightarrow> 'k chunk_lib \<Rightarrow> u64 \<Rightarrow> nat \<Rightarrow> 'k live_cache \<Rightarrow> 'r cached_unit option" where
  "get_media_access_unit ulib lib stream_id sequence c =
     (case cl_get_for_stream lib (lv_chunks c) stream_id sequence of
        None \<Rightarrow> None
      | Some (serialized, hash) \<Rightarrow>
         (if length serialized < ul_header_len ulib then None
          else case ul_decode ulib (take (ul_header_len ulib) serialized) of
            Inl _ \<Rightarrow> None
          | Inr header \<Rightarrow>
             (if mf_stream_id (fh_metadata header) \<noteq> stream_id \<or> mf_sequence (fh_metadata header) \<noteq> sequence \<or>
                 fh_fragment_index header \<noteq> 0 \<or> fh_fragment_count header \<noteq> 1 \<or> fh_fragment_offset header \<noteq> 0
              then None
              else if fh_access_unit_len header \<noteq> length serialized - ul_header_len ulib then None
              else Some \<lparr> cu_metadata = fh_metadata header,
                          cu_payload_bytes = length serialized - ul_header_len ulib,
                          cu_serialized = serialized, cu_hash = hash \<rparr>)))"

text \<open>The outer error is that of the crate's parser, the inner one that of the cache.\<close>

definition ingest_serialized_media_access_unit ::
  "('r, 'd, 'e) unit_lib \<Rightarrow> 'k chunk_lib \<Rightarrow> bytes \<Rightarrow> nat \<Rightarrow> 'k live_cache \<Rightarrow>
   'k live_cache \<times> (('e + 'e unit_error) + 'r cached_unit option)" where
  "ingest_serialized_media_access_unit ulib lib input now_ms c =
     (case ul_decode_serialized ulib input of
        Inl err \<Rightarrow> (c, Inl (Inl err))
      | Inr None \<Rightarrow> (c, Inr None)
      | Inr (Some frame) \<Rightarrow>
          map_prod (\<lambda>c. c) (map_sum Inr Some)
            (add_media_access_unit ulib lib (fr_metadata frame) (fr_payload frame) now_ms c))"

section \<open>The decoder of a WebTransport session\<close>

record 'd webtransport_decoder =
  wt_unprefixed :: 'd
  wt_prefixed_by_stream :: "(u64 \<times> 'd) list"

datatype 'e media_error = DecoderError 'e | StreamPrefixMismatch u64 u64

definition webtransport_decoder_new :: "('r, 'd, 'e) unit_lib \<Rightarrow> 'd webtransport_decoder" where
  "webtransport_decoder_new ulib = \<lparr> wt_unprefixed = ul_decoder_new ulib, wt_prefixed_by_stream = [] \<rparr>"

definition push_prefixed ::
  "('r, 'd, 'e) unit_lib \<Rightarrow> u64 \<Rightarrow> bytes \<Rightarrow> 'd webtransport_decoder \<Rightarrow>
   'd webtransport_decoder \<times> ('e media_error + 'r media_frame option)" where
  "push_prefixed ulib stream_id datagram w =
     (let decoder = (case map_of (wt_prefixed_by_stream w) stream_id of
            None \<Rightarrow> ul_decoder_new ulib | Some d \<Rightarrow> d);
          (decoder', res) = ul_push_prefixed ulib stream_id decoder datagram;
          w1 = w\<lparr> wt_prefixed_by_stream := tput stream_id decoder' (wt_prefixed_by_stream w) \<rparr>
      in case res of
           Inl err \<Rightarrow> (w1, Inl (DecoderError err))
         | Inr None \<Rightarrow> (w1, Inr None)
         | Inr (Some frame) \<Rightarrow>
             if mf_stream_id (fr_metadata frame) \<noteq> stream_id
             then (w1, Inl (StreamPrefixMismatch stream_id (mf_stream_id (fr_metadata frame))))
             else (w1, Inr (Some frame)))"

definition webtransport_push_datagram ::
  "('r, 'd, 'e) unit_lib \<Rightarrow> bytes \<Rightarrow> 'd webtransport_decoder \<Rightarrow>
   'd webtransport_decoder \<times> ('e media_error + 'r media_frame option)" where
  "webtransport_push_datagram ulib datagram w =
     (let plain = (case ul_push ulib (wt_unprefixed w) datagram of
            (d, res) \<Rightarrow> (w\<lparr> wt_unprefixed := d \<rparr>, map_sum DecoderError (\<lambda>f. f) res)) in
      case ul_split_prefix ulib datagram of
        None \<Rightarrow> plain
      | Some (stream_id, payload) \<Rightarrow>
          if length datagram = ul_prefix_len ulib then (w, Inr None)
          else if starts_with payload (ul_datagram_magic ulib) then push_prefixed ulib stream_id datagram w
          else plain)"

section \<open>The media ingest loop\<close>

record ('a, 'd, 'k) media_ingest =
  mi_decoder :: 'd
  mi_sessions :: "('a \<times> u32) block_sessions"
  mi_native :: "'a native_relay"
  mi_live :: "'k live_cache"

record 'a media_effects =
  me_ack :: "('a \<times> bytes) list"
  me_native :: "('a \<times> bytes) list"
  me_broadcast :: "audio_epoch_datagram list"

text \<open>One datagram from \<open>peer\<close>; a unit that cannot be cached and a datagram that cannot be decoded are only
  logged.\<close>

definition media_ingest_datagram ::
  "('r, 'd, 'e) unit_lib \<Rightarrow> 'k chunk_lib \<Rightarrow> (bytes \<Rightarrow> 'x + audio_identity) \<Rightarrow> 'a \<Rightarrow> bytes \<Rightarrow> nat \<Rightarrow> nat \<Rightarrow>
   ('a, 'd, 'k) media_ingest \<Rightarrow> ('a, 'd, 'k) media_ingest \<times> 'a media_effects" where
  "media_ingest_datagram ulib lib inspect peer datagram now now_ms mi =
     (let (subs, ack, control) = handle_control peer datagram now (native_expire now (mi_native mi));
          mi1 = mi\<lparr> mi_native := subs \<rparr> in
      if control then
        (mi1, \<lparr> me_ack = (case ack of None \<Rightarrow> [] | Some b \<Rightarrow> [(peer, b)]), me_native = [], me_broadcast = [] \<rparr>)
      else if is_multichannel_audio_transport_datagram datagram then
        (case media_audio_datagram inspect peer datagram now subs (mi_sessions mi1) of
           (m, sent, epoch) \<Rightarrow>
             (mi1\<lparr> mi_sessions := m \<rparr>, \<lparr> me_ack = [], me_native = sent, me_broadcast = [epoch] \<rparr>))
      else
        (case ul_push ulib (mi_decoder mi1) datagram of
           (d, res) \<Rightarrow>
             (case res of
                Inr (Some frame) \<Rightarrow>
                  mi1\<lparr> mi_decoder := d,
                       mi_live := fst (add_media_access_unit ulib lib (fr_metadata frame) (fr_payload frame)
                         now_ms (mi_live mi1)) \<rparr>
              | _ \<Rightarrow> mi1\<lparr> mi_decoder := d \<rparr>,
              \<lparr> me_ack = [], me_native = [], me_broadcast = [] \<rparr>)))"

end
