(* ===== verification/Native_Audio_Properties.thy ===== *)
theory Native_Audio_Properties
  imports Media_Units Http_Properties
begin

text \<open>
  Properties of the audio lane and of media access units: who receives a datagram, which session a datagram
  belongs to, and that a unit can be read back.
\<close>

section \<open>Control messages\<close>

datatype control_message =
    SubscribeAll | SubscribeSession nat | UnsubscribeAll | UnsubscribeSession nat | MalformedControl | NoControl

definition control_of :: "bytes \<Rightarrow> control_message" where
  "control_of payload =
     (let session = parse_native_audio_session_message payload in
      if payload = NATIVE_AUDIO_SUBSCRIBE then SubscribeAll
      else if session NATIVE_AUDIO_SUBSCRIBE_V2_PREFIX \<noteq> None
      then SubscribeSession (the (session NATIVE_AUDIO_SUBSCRIBE_V2_PREFIX))
      else if starts_with payload NATIVE_AUDIO_SUBSCRIBE_V2_PREFIX then MalformedControl
      else if payload = NATIVE_AUDIO_UNSUBSCRIBE then UnsubscribeAll
      else if session NATIVE_AUDIO_UNSUBSCRIBE_V2_PREFIX \<noteq> None
      then UnsubscribeSession (the (session NATIVE_AUDIO_UNSUBSCRIBE_V2_PREFIX))
      else if starts_with payload NATIVE_AUDIO_UNSUBSCRIBE_V2_PREFIX then MalformedControl
      else NoControl)"

text \<open>What a control message makes of the subscription of its sender.\<close>

fun subscription_after :: "control_message \<Rightarrow> nat \<Rightarrow> native_subscription option \<Rightarrow> native_subscription option" where
  "subscription_after SubscribeAll now v =
     Some \<lparr> ns_session_id = None, ns_expires_at = now + NATIVE_AUDIO_SUBSCRIPTION_TTL \<rparr>"
| "subscription_after (SubscribeSession n) now v =
     Some \<lparr> ns_session_id = Some n, ns_expires_at = now + NATIVE_AUDIO_SUBSCRIPTION_TTL \<rparr>"
| "subscription_after UnsubscribeAll now v = None"
| "subscription_after (UnsubscribeSession n) now v =
     (case v of None \<Rightarrow> None | Some s \<Rightarrow> if ns_session_id s = Some n then None else Some s)"
| "subscription_after MalformedControl now v = v"
| "subscription_after NoControl now v = v"

lemma session_digits_decimal [simp]: "n \<le> u64_max \<Longrightarrow> parse_session_digits (decimal n) = Some n"
  using decimal_digits [of n] by (simp add: parse_session_digits_def list_all_iff)

lemma handle_control_view:
  assumes "table_ok subs"
  shows "table_ok (fst (handle_control p payload now subs))"
    and "map_of (fst (handle_control p payload now subs)) q =
      (if q = p then subscription_after (control_of payload) now (map_of subs p) else map_of subs q)"
  using assms
  by (auto simp: handle_control_def control_of_def Let_def distinct_update delete_conv distinct_delete update_conv
      split: option.split)

lemma handle_control_handled:
  "handle_control p payload now subs = (subs', ack, control) \<Longrightarrow>
     control = (control_of payload \<noteq> NoControl) \<and> (\<not> control \<longrightarrow> subs' = subs)"
  by (auto simp: handle_control_def control_of_def Let_def split: option.splits if_splits)

section \<open>Who receives a datagram\<close>

datatype 'a native_event = ControlReceived 'a bytes nat | ExpirePassed nat

fun native_step :: "'a native_event \<Rightarrow> 'a native_relay \<Rightarrow> 'a native_relay" where
  "native_step (ControlReceived p payload now) subs = fst (handle_control p payload now subs)"
| "native_step (ExpirePassed now) subs = native_expire now subs"

definition native_run :: "'a native_event list \<Rightarrow> 'a native_relay" where
  "native_run evs = fold native_step evs []"

text \<open>The subscription of one peer, from its own messages and the expiry passes alone.\<close>

fun own_step :: "'a \<Rightarrow> 'a native_event \<Rightarrow> native_subscription option \<Rightarrow> native_subscription option" where
  "own_step p (ControlReceived q payload now) v = (if q = p then subscription_after (control_of payload) now v else v)"
| "own_step p (ExpirePassed now) v =
     (case v of None \<Rightarrow> None | Some s \<Rightarrow> if now < ns_expires_at s then Some s else None)"

definition own_subscription :: "'a \<Rightarrow> 'a native_event list \<Rightarrow> native_subscription option" where
  "own_subscription p evs = fold (own_step p) evs None"

lemma native_run_view: "table_ok (native_run evs) \<and> map_of (native_run evs) p = own_subscription p evs"
proof (induction evs rule: rev_induct)
  case Nil
  then show ?case by (simp add: native_run_def own_subscription_def)
next
  case (snoc ev evs)
  let ?subs = "fold native_step evs []"
  have ok: "table_ok ?subs" and view: "map_of ?subs p = fold (own_step p) evs None"
    using snoc by (simp_all add: native_run_def own_subscription_def)
  show ?case
  proof (cases ev)
    case (ControlReceived q payload now)
    then show ?thesis
      using handle_control_view(1,2) [OF ok] view by (simp add: native_run_def own_subscription_def)
  next
    case (ExpirePassed now)
    then show ?thesis
      using ok view by (simp add: native_run_def own_subscription_def native_expire_def map_of_retain)
  qed
qed

text \<open>C13: After any sequence of control messages and expiry passes, the native relay hands a datagram to
  exactly the peers whose own messages leave them with a live subscription to every session or to the
  datagram's session, and to each of them once; what other peers sent makes no difference.\<close>

theorem native_targets_exact:
  "set (native_forward datagram session_id (native_run evs)) =
     {(p, datagram) | p. \<exists>s. own_subscription p evs = Some s \<and>
        (ns_session_id s = None \<or> ns_session_id s = session_id)} \<and>
   distinct (map fst (native_forward datagram session_id (native_run evs)))"
proof -
  have ok: "table_ok (native_run evs)" and view: "\<And>p. map_of (native_run evs) p = own_subscription p evs"
    by (simp_all add: native_run_view)
  have "set (native_forward datagram session_id (native_run evs)) =
     {(p, datagram) | p. \<exists>s. (p, s) \<in> set (native_run evs) \<and> (ns_session_id s = None \<or> ns_session_id s = session_id)}"
    by (force simp: native_forward_def wants_session_def)
  moreover have "distinct (map fst (native_forward datagram session_id (native_run evs)))"
    using ok by (simp add: native_forward_def comp_def split_beta distinct_map_filter)
  ultimately show ?thesis
    by (simp add: map_of_in_set [OF ok, symmetric] view)
qed

section \<open>The session of a datagram\<close>

text \<open>A datagram of block \<open>b\<close> at a time, with the session it names, if any; blocks whose header cannot be read
  have none.\<close>

type_synonym 'b sighting = "('b \<times> nat option) option \<times> nat"

definition observe_block :: "'b sighting \<Rightarrow> 'b block_sessions \<Rightarrow> 'b block_sessions" where
  "observe_block x m =
     (let m1 = retain_sessions (snd x) m in
      case fst x of None \<Rightarrow> m1 | Some (b, named) \<Rightarrow> fst (session_of b named (snd x) m1))"

text \<open>The session last named for a block, and when.\<close>

fun named_session :: "'b \<Rightarrow> 'b sighting \<Rightarrow> (nat \<times> nat) option" where
  "named_session b (Some (b', Some s), t) = (if b' = b then Some (s, t) else None)"
| "named_session b _ = None"

definition last_named :: "'b \<Rightarrow> 'b sighting list \<Rightarrow> (nat \<times> nat) option" where
  "last_named b xs = fold (\<lambda>x v. case named_session b x of None \<Rightarrow> v | Some st \<Rightarrow> Some st) xs None"

definition recent_session :: "'b \<Rightarrow> nat \<Rightarrow> 'b sighting list \<Rightarrow> nat option" where
  "recent_session b now xs =
     (case last_named b xs of None \<Rightarrow> None | Some (s, t) \<Rightarrow> if now < t + 15 * 10 ^ 9 then Some s else None)"

lemma retain_sessions_later: "t \<le> now \<Longrightarrow> retain_sessions now (retain_sessions t m) = retain_sessions now m"
  unfolding retain_sessions_def retain_def filter_filter by (rule filter_cong) auto

lemma retain_sessions_of:
  "table_ok m \<Longrightarrow> map_of (retain_sessions now m) b =
     (case map_of m b of None \<Rightarrow> None | Some v \<Rightarrow> if now < snd v then Some v else None)"
  by (simp add: retain_sessions_def map_of_retain)

lemma observe_block_ok: "table_ok m \<Longrightarrow> table_ok (observe_block x m)"
  by (auto simp: observe_block_def session_of_def retain_sessions_def distinct_update Let_def split: option.split)

lemma observe_block_other:
  assumes "table_ok m" "snd x \<le> now" "named_session b x = None"
  shows "map_of (retain_sessions now (observe_block x m)) b = map_of (retain_sessions now m) b"
proof -
  let ?m = "retain_sessions (snd x) m"
  have ok: "table_ok ?m"
    using assms(1) by (simp add: retain_sessions_def)
  have "map_of (retain_sessions now (fst (session_of b' named (snd x) ?m))) b = map_of (retain_sessions now ?m) b"
    if "fst x = Some (b', named)" for b' named
    using that assms(3) ok
    by (cases x; cases named) (auto simp: session_of_def retain_sessions_of distinct_update update_conv split: if_splits)
  then show ?thesis
    using retain_sessions_later [OF assms(2), of m]
    by (auto simp: observe_block_def Let_def split: option.split)
qed

lemma observe_block_named:
  assumes "table_ok m" "named_session b x = Some (s, t)"
  shows "map_of (retain_sessions now (observe_block x m)) b =
    (if now < t + 15 * 10 ^ 9 then Some (s, t + 15 * 10 ^ 9) else None)"
proof -
  have x: "x = (Some (b, Some s), t)"
    using assms(2) by (cases "(b, x)" rule: named_session.cases) (auto split: if_splits)
  have "table_ok (retain_sessions t m)"
    using assms(1) by (simp add: retain_sessions_def)
  then show ?thesis
    by (simp add: x observe_block_def session_of_def retain_sessions_of distinct_update update_conv)
qed

lemma observe_view:
  assumes "sorted (map snd xs @ [now])"
  shows "table_ok (fold observe_block xs []) \<and>
    map_of (retain_sessions now (fold observe_block xs [])) b =
      (case last_named b xs of None \<Rightarrow> None
       | Some (s, t) \<Rightarrow> if now < t + 15 * 10 ^ 9 then Some (s, t + 15 * 10 ^ 9) else None)"
  using assms
proof (induction xs rule: rev_induct)
  case Nil
  then show ?case by (simp add: last_named_def retain_sessions_def retain_def)
next
  case (snoc x xs)
  have le: "snd x \<le> now" and "sorted (map snd xs @ [now])"
    using snoc.prems by (auto simp: sorted_append)
  note IH = snoc.IH [OF this(2)]
  show ?case
  proof (cases "named_session b x")
    case None
    then show ?thesis
      using IH observe_block_ok [of "fold observe_block xs []" x] observe_block_other [OF _ le None] by (simp add: last_named_def)
  next
    case (Some st)
    then show ?thesis
      using IH observe_block_ok [of "fold observe_block xs []" x] observe_block_named [of _ b x "fst st" "snd st"] by (simp add: last_named_def split_beta)
  qed
qed

text \<open>Datagrams of the media ingest: peer, bytes and time.\<close>

definition media_sighting ::
  "(bytes \<Rightarrow> 'x + audio_identity) \<Rightarrow> 'a \<times> bytes \<times> nat \<Rightarrow> ('a \<times> u32) sighting" where
  "media_sighting inspect d =
     (case inspect (drop 4 (fst (snd d))) of
        Inl _ \<Rightarrow> None
      | Inr i \<Rightarrow> Some ((fst d, au_block_id i), au_session_id i), snd (snd d))"

definition media_audio_run ::
  "(bytes \<Rightarrow> 'x + audio_identity) \<Rightarrow> ('a \<times> bytes \<times> nat) list \<Rightarrow> ('a \<times> u32) block_sessions" where
  "media_audio_run inspect ds = fold (\<lambda>(p, d, t) m. fst (media_audio_datagram inspect p d t [] m)) ds []"

lemma media_audio_run_eq: "media_audio_run inspect ds = fold observe_block (map (media_sighting inspect) ds) []"
proof -
  have "fst (media_audio_datagram inspect p d t [] m) = observe_block (media_sighting inspect (p, d, t)) m" for p d t m
    by (simp add: media_audio_datagram_def observe_block_def media_sighting_def split_beta Let_def split: sum.split)
  then have "(\<lambda>(p, d, t) m. fst (media_audio_datagram inspect p d t [] m)) = (\<lambda>x. observe_block (media_sighting inspect x))"
    by (auto intro!: ext)
  then show ?thesis
    unfolding media_audio_run_def fold_map comp_def by (rule arg_cong)
qed

text \<open>A datagram of the media ingest is given the session it names, or else the one that the same peer
  named last for the same block, if that was less than fifteen seconds ago. Blocks of other peers, and
  datagrams that cannot be read, make no difference.\<close>

theorem audio_session_exact:
  assumes "sorted (map (snd \<circ> snd) ds @ [now])" "inspect (drop 4 datagram) = Inr i"
  shows "ae_session_id (snd (snd (media_audio_datagram inspect p datagram now subs (media_audio_run inspect ds)))) =
    (case au_session_id i of
       Some s \<Rightarrow> Some s
     | None \<Rightarrow> recent_session (p, au_block_id i) now (map (media_sighting inspect) ds))"
proof -
  have "sorted (map snd (map (media_sighting inspect) ds) @ [now])"
    using assms(1) by (simp add: media_sighting_def comp_def)
  from observe_view [OF this, of "(p, au_block_id i)"] show ?thesis
    using assms(2)
    by (simp add: media_audio_datagram_def session_of_def media_audio_run_eq recent_session_def Let_def split_beta
        split: option.split)
qed

theorem audio_session_exact_witness:
  "let inspect = (\<lambda>d. case d of [b, n] \<Rightarrow> Inr \<lparr> au_session_id = if n = 0 then None else Some (unat n),
         au_block_id = ucast b, au_source_index = None \<rparr> | _ \<Rightarrow> Inl ''short'');
       datagram = (\<lambda>b n. ascii ''AEP1'' @ [b, n]);
       session = (\<lambda>p now. ae_session_id (snd (snd (media_audio_datagram inspect p (datagram 7 0) now [(2, \<lparr> ns_session_id = None, ns_expires_at = 0 \<rparr>)]
         (media_audio_run inspect [(1, datagram 7 9, 10), (2 :: nat, datagram 7 5, 20), (1, [], 30)])))))
   in session 1 40 = Some 9 \<and> session 2 40 = Some 5 \<and> session 1 15000000010 = None"
proof -
  define inspect :: "bytes \<Rightarrow> string + audio_identity" where
    "inspect = (\<lambda>d. case d of [b, n] \<Rightarrow> Inr \<lparr> au_session_id = if n = 0 then None else Some (unat n),
         au_block_id = ucast b, au_source_index = None \<rparr> | _ \<Rightarrow> Inl ''short'')"
  define ds where "ds = [(1, ascii ''AEP1'' @ [7, 9], 10), (2 :: nat, ascii ''AEP1'' @ [7, 5], 20), (1, [], 30 :: nat)]"
  let ?i = "\<lparr> au_session_id = None, au_block_id = 7, au_source_index = None \<rparr>" and ?d = "ascii ''AEP1'' @ [7, 0]"
  have i: "inspect (drop 4 ?d) = Inr ?i"
    unfolding inspect_def by code_simp
  have sorted: "sorted (map (snd \<circ> snd) ds @ [40])" "sorted (map (snd \<circ> snd) ds @ [15000000010])"
    unfolding ds_def by code_simp+
  have recent: "recent_session (1, 7) 40 (map (media_sighting inspect) ds) = Some 9"
      "recent_session (2, 7) 40 (map (media_sighting inspect) ds) = Some 5"
      "recent_session (1, 7) 15000000010 (map (media_sighting inspect) ds) = None"
    unfolding inspect_def ds_def by code_simp+
  show ?thesis
    unfolding Let_def inspect_def [symmetric] ds_def [symmetric]
    using audio_session_exact [of ds 40 inspect ?d ?i, OF sorted(1) i]
      audio_session_exact [of ds 15000000010 inspect ?d ?i, OF sorted(2) i] recent by simp
qed

section \<open>Media access units\<close>

text \<open>The header codec: a header that can be encoded has the fixed length and decodes to itself. The chunk
  cache: a slot that was written reads back.\<close>

definition header_codec :: "('r, 'd, 'e) unit_lib \<Rightarrow> bool" where
  "header_codec ulib \<longleftrightarrow> (\<forall>h bs. ul_encode ulib h = Inr bs \<longrightarrow>
     length bs = ul_header_len ulib \<and> ul_decode ulib bs = Inr h)"

definition reads_back :: "'k chunk_lib \<Rightarrow> bool" where
  "reads_back lib \<longleftrightarrow> (\<forall>k k' sid q data. cl_add lib k sid q data = (k', True) \<longrightarrow>
     (\<exists>hash. cl_get_for_stream lib k' sid q = Some (data, hash)))"

text \<open>An access unit that the cache accepted is found again under its stream and sequence number, with its
  metadata and its payload; nothing but the chunk and the ingest counters of the cache has changed.\<close>

theorem media_unit_roundtrip:
  assumes "header_codec ulib" "reads_back lib"
    and "add_media_access_unit ulib lib metadata payload now_ms c = (c', Inr u)"
  shows "(\<exists>hash. get_media_access_unit ulib lib (mf_stream_id metadata) (mf_sequence metadata) c' = Some (u\<lparr> cu_hash := hash \<rparr>)) \<and>
    cu_metadata u = metadata \<and> drop (ul_header_len ulib) (cu_serialized u) = payload \<and>
    ledger (lv_state c') = ledger (lv_state c) \<and> lv_playlists c' = lv_playlists c"
proof -
  obtain header chunks where enc: "ul_encode ulib (unit_header metadata payload) = Inr header"
    and add: "cl_add lib (lv_chunks c) (mf_stream_id metadata) (mf_sequence metadata) (header @ payload) = (chunks, True)"
    and u: "u = \<lparr> cu_metadata = metadata, cu_payload_bytes = length payload, cu_serialized = header @ payload, cu_hash = 0 \<rparr>"
    and c': "lv_chunks c' = chunks" "ledger (lv_state c') = ledger (lv_state c)" "lv_playlists c' = lv_playlists c"
    using assms(3)
    by (auto simp: add_media_access_unit_def Let_def split_beta ledger_def core_def split: if_splits sum.splits)
      (metis prod.collapse)
  have h: "length header = ul_header_len ulib" "ul_decode ulib header = Inr (unit_header metadata payload)"
    using assms(1) enc by (auto simp: header_codec_def)
  obtain hash where "cl_get_for_stream lib chunks (mf_stream_id metadata) (mf_sequence metadata) = Some (header @ payload, hash)"
    using assms(2) add unfolding reads_back_def by blast
  then show ?thesis
    using h c' u by (simp add: get_media_access_unit_def unit_header_def flip: h(1))
qed

text \<open>A codec with headers of three bytes: the stream, the sequence number and the length.\<close>

definition demo_unit_decode :: "bytes \<Rightarrow> string + unit fragment_header" where
  "demo_unit_decode bs =
     (case bs of
        [s, q, n] \<Rightarrow> Inr \<lparr> fh_metadata = \<lparr> mf_stream_id = ucast s, mf_sequence = unat q, mf_rest = () \<rparr>,
          fh_fragment_index = 0, fh_fragment_count = 1, fh_access_unit_len = unat n, fh_fragment_offset = 0 \<rparr>
      | _ \<Rightarrow> Inl ''length'')"

definition demo_unit_encode :: "unit fragment_header \<Rightarrow> string + bytes" where
  "demo_unit_encode h =
     (let bs = [ucast (mf_stream_id (fh_metadata h)), of_nat (mf_sequence (fh_metadata h)), of_nat (fh_access_unit_len h)]
      in if demo_unit_decode bs = Inr h then Inr bs else Inl ''range'')"

text \<open>A decoder that waits for one datagram of a frame; the prefix is one byte, the first of the frame its stream.\<close>

definition demo_unit_lib :: "(unit, nat, string) unit_lib" where
  "demo_unit_lib =
     (let push = (\<lambda>n bs. (Suc n, if n = 0 then Inr None
            else Inr (Some \<lparr> fr_metadata = \<lparr> mf_stream_id = ucast (last bs), mf_sequence = n, mf_rest = () \<rparr>,
                             fr_payload = bs \<rparr>))) in
      \<lparr> ul_header_len = 3, ul_encode = demo_unit_encode, ul_decode = demo_unit_decode,
        ul_decode_serialized = (\<lambda>bs. Inr None), ul_prefix_len = 1,
        ul_split_prefix = (\<lambda>bs. case bs of [] \<Rightarrow> None | b # rest \<Rightarrow> Some (ucast b, rest)),
        ul_datagram_magic = [77], ul_decoder_new = 0, ul_push = push, ul_push_prefixed = (\<lambda>_. push) \<rparr>)"

lemma demo_unit_codec: "header_codec demo_unit_lib"
  by (auto simp: header_codec_def demo_unit_lib_def demo_unit_encode_def Let_def split: if_splits)

lemma demo_reads_back: "reads_back demo_lib"
  by (auto simp: reads_back_def demo_lib_def demo_get_def update_conv)

theorem media_unit_roundtrip_witness:
  "let md = \<lparr> mf_stream_id = 9, mf_sequence = 4, mf_rest = () \<rparr>;
       c = fst (add_media_access_unit demo_unit_lib demo_lib md [1, 2] 50 (demo_run [])) in
   map_option cu_metadata (get_media_access_unit demo_unit_lib demo_lib 9 4 c) = Some md \<and>
   st_datagrams_received (lv_state c) = 1"
proof -
  define md where "md = \<lparr> mf_stream_id = 9, mf_sequence = 4, mf_rest = () \<rparr>"
  let ?add = "add_media_access_unit demo_unit_lib demo_lib md [1, 2] 50 (demo_run [])"
  let ?u = "\<lparr> cu_metadata = md, cu_payload_bytes = 2, cu_serialized = [9, 4, 2, 1, 2], cu_hash = 0 \<rparr>"
  have "snd ?add = Inr ?u" and received: "st_datagrams_received (lv_state (fst ?add)) = 1"
    unfolding md_def by code_simp+
  then have "?add = (fst ?add, Inr ?u)"
    by (metis prod.collapse)
  from media_unit_roundtrip [OF demo_unit_codec demo_reads_back this] received show ?thesis
    unfolding Let_def md_def [symmetric] by (auto simp: md_def)
qed

text \<open>A frame that a WebTransport session hands on from a datagram with a stream prefix belongs to the stream
  that the prefix names, and the datagram touches no decoder but that stream's.\<close>

theorem webtransport_stream_checked:
  assumes "ul_split_prefix ulib datagram = Some (stream_id, payload)" "starts_with payload (ul_datagram_magic ulib)"
    and "webtransport_push_datagram ulib datagram w = (w', res)"
  shows "(\<forall>frame. res = Inr (Some frame) \<longrightarrow> mf_stream_id (fr_metadata frame) = stream_id) \<and>
    wt_unprefixed w' = wt_unprefixed w \<and>
    (\<forall>s. s \<noteq> stream_id \<longrightarrow> map_of (wt_prefixed_by_stream w') s = map_of (wt_prefixed_by_stream w) s)"
  using assms
  by (auto simp: webtransport_push_datagram_def push_prefixed_def Let_def split_beta update_conv
      split: if_splits sum.splits option.splits)

theorem webtransport_stream_checked_witness:
  "let w = fst (webtransport_push_datagram demo_unit_lib [5, 77, 5] (webtransport_decoder_new demo_unit_lib));
       refused = webtransport_push_datagram demo_unit_lib [5, 77, 6] w;
       taken = webtransport_push_datagram demo_unit_lib [5, 77, 5] w in
   snd refused = Inl (StreamPrefixMismatch 5 6) \<and> (\<exists>frame. snd taken = Inr (Some frame) \<and> mf_stream_id (fr_metadata frame) = 5) \<and>
   map_of (wt_prefixed_by_stream (fst taken)) 6 = map_of (wt_prefixed_by_stream w) 6"
proof -
  define w where "w = fst (webtransport_push_datagram demo_unit_lib [5, 77, 5] (webtransport_decoder_new demo_unit_lib))"
  have r: "snd (webtransport_push_datagram demo_unit_lib [5, 77, 6] w) = Inl (StreamPrefixMismatch 5 6)"
      "\<exists>frame. snd (webtransport_push_datagram demo_unit_lib [5, 77, 5] w) = Inr (Some frame)"
    unfolding w_def by (code_simp, rule exI [of _ "\<lparr> fr_metadata = \<lparr> mf_stream_id = 5, mf_sequence = 1, mf_rest = () \<rparr>,
      fr_payload = [5, 77, 5] \<rparr>"], code_simp)
  have split: "ul_split_prefix demo_unit_lib [5, 77, 5] = Some (5, [77, 5])" "starts_with [77, 5] (ul_datagram_magic demo_unit_lib)"
    by code_simp+
  show ?thesis
    unfolding Let_def w_def [symmetric]
    using r webtransport_stream_checked [OF split prod.collapse [symmetric], of w] by auto
qed

end
