(* ===== verification/Ingest_Properties.thy ===== *)
theory Ingest_Properties
  imports Ingest_Node Native_Audio_Properties Relay_Ingress_Properties Udp_Fec_Properties "HOL-Library.Sublist"
begin

text \<open>
  The ingest loop as a whole: every run of it returns and keeps the invariants of its components, an object
  is committed once, a datagram belongs to one lane, and only symbols of bound parents go further.
\<close>

section \<open>What the components hand over\<close>

lemma fec_decoded_payload:
  assumes "try_push_payload_at lib peer datagram now r = Some (r', Inr (push_outcome.Decoded b p))"
  shows "\<exists>d bs d'. push_datagram lib d bs = (d', Inr (Some (dec_payload p)))"
proof -
  have finish: "res = Inr (Some (dec_payload p))"
    if "finish_push key nf res r2 = Some (r', Inr (push_outcome.Decoded b p))" for key nf res and r2 :: "('a, 'b, 'c) fec_receiver"
    using that by (auto simp: finish_push_def reject_def Let_def split: sum.splits option.splits if_splits)
  have feed: "\<exists>d bs d'. push_datagram lib d bs = (d', res)"
    if "feed_object lib key dg h now r1 = Some (r2, res)" for key dg h r1 and r2 :: "('a, 'b, 'c) fec_receiver" and res
    using that by (auto simp: feed_object_def split_beta Let_def split: option.splits) (metis prod.collapse)
  have object: "\<exists>d bs d'. push_datagram lib d bs = (d', Inr (Some (dec_payload p)))"
    if "push_object lib flow dg h now r1 = Some (r', Inr (push_outcome.Decoded b p))" for flow dg h r1
    using that finish feed by (fastforce simp: push_object_def reject_def Let_def split: option.splits sum.splits if_splits)
  show ?thesis
    using assms object
    by (auto simp: try_push_payload_at_def push_duplicate_def reject_def Let_def split: if_splits sum.splits option.splits)
qed

lemma relay_accepted:
  assumes "try_push_wire_datagram lib sid bytes now r = Some (r', Inr out)"
  shows "\<exists>s y. get_session sid r = Inr s \<and> decode_datagram lib bytes (relay_limits (relay_config r)) = Inr y \<and>
      validate_session_symbol lib s y"
    and "out = ingress_outcome.Decoded m env role dl np ns \<Longrightarrow> \<exists>a a'. take_completed_envelope lib a = (a', Some env)"
proof -
  show "\<exists>s y. get_session sid r = Inr s \<and> decode_datagram lib bytes (relay_limits (relay_config r)) = Inr y \<and>
      validate_session_symbol lib s y"
    using assms by (auto simp: try_push_wire_datagram_def Let_def split: sum.splits if_splits)
  have complete: "\<exists>a a'. take_completed_envelope lib a = (a', Some env)"
    if "complete_object lib y m' r1 = Some (r', Inr (ingress_outcome.Decoded m env role dl np ns))" for y m' and r1 :: "('a, 'b) relay_receiver"
    using that by (auto simp: complete_object_def split_beta Let_def split: option.splits if_splits) (metis prod.collapse)
  have admit: "\<exists>a a'. take_completed_envelope lib a = (a', Some env)"
    if "admit_symbol lib y q st now r1 = Some (r', Inr (ingress_outcome.Decoded m env role dl np ns))" for y q st r1
    using that complete by (auto simp: admit_symbol_def Let_def split: prod.splits sum.splits option.splits)
  assume "out = ingress_outcome.Decoded m env role dl np ns"
  then show "\<exists>a a'. take_completed_envelope lib a = (a', Some env)"
    using assms admit
    by (auto simp: try_push_wire_datagram_def push_active_symbol_def Let_def split: sum.splits if_splits option.splits)
qed

lemma dispatch_accepted:
  assumes "assembler_ok lib ai" "relay_ok lib ai cfg D (receiver d)"
    and "dispatch_push lib peer bytes now d = Some (d', Inr (Relay out))"
  shows "\<exists>sid y. map_of (sessions_by_peer d) peer = Some sid \<and> decode_datagram lib bytes (relay_limits cfg) = Inr y"
    and "out = ingress_outcome.Decoded m env role dl np ns \<Longrightarrow> \<exists>a a'. take_completed_envelope lib a = (a', Some env)"
proof -
  obtain sid r r' where peer: "map_of (sessions_by_peer d) peer = Some sid"
    and r: "r = receiver d \<or> (\<exists>u. ensure_controlled_announcement lib sid bytes now (receiver d) = Some (r, Inr u))"
    and push: "try_push_wire_datagram lib sid bytes now (count_received r) = Some (r', Inr out)"
    using assms(3)
    by (auto simp: dispatch_push_def dispatch_reject_def push_wire_datagram_def split: if_splits option.splits sum.splits)
      blast+
  have "relay_ok lib ai cfg D r"
    using r assms(2) ensure_controlled_keeps [OF assms(1,2), of sid bytes now] by auto
  then have "relay_config (count_received r) = cfg"
    by (simp add: relay_ok_def count_received_def)
  then show "\<exists>sid y. map_of (sessions_by_peer d) peer = Some sid \<and> decode_datagram lib bytes (relay_limits cfg) = Inr y"
    using peer relay_accepted(1) [OF push] by auto
  show "out = ingress_outcome.Decoded m env role dl np ns \<Longrightarrow> \<exists>a a'. take_completed_envelope lib a = (a', Some env)"
    by (rule relay_accepted(2) [OF push])
qed

section \<open>The invariant of the loop\<close>

text \<open>The laws of the parameters: those of the assembler, and that no decoder returns more than 8 GiB. The
  invariant says that the relay receiver has its invariant and has decoded the keys \<open>D\<close> so far, and that
  the FEC receiver and the live cache are in states that runs of their own reach.\<close>

definition env_ok :: "('o, 'a, 'm, 'd, 'x, 'k, 'e) ingest_env \<Rightarrow> ('o announcement \<Rightarrow> 'a \<Rightarrow> bool) \<Rightarrow> bool" where
  "env_ok e ai \<longleftrightarrow> assembler_ok (ie_relay e) ai \<and>
     (\<forall>a a' env. take_completed_envelope (ie_relay e) a = (a', Some env) \<longrightarrow> length env \<le> 2 ^ 33) \<and>
     (\<forall>d bs d' p. push_datagram (ie_fec e) d bs = (d', Inr (Some p)) \<longrightarrow> length p \<le> 2 ^ 33)"

definition ingest_ok ::
  "('o, 'a, 'm, 'd, 'x, 'k, 'e) ingest_env \<Rightarrow> ('o announcement \<Rightarrow> 'a \<Rightarrow> bool) \<Rightarrow> 'o relay_config \<Rightarrow>
   'o media_key list \<Rightarrow> ('o, 'a, 'd, 'x, 'k) ingest_node \<Rightarrow> bool" where
  "ingest_ok e ai cfg D n \<longleftrightarrow> relay_ok (ie_relay e) ai cfg D (receiver (in_dispatch n)) \<and>
     fec_reachable (ie_fec e) (in_fec n) \<and> live_reach (ie_live e) (in_live n)"

lemma ingest_ok_cong [simp]:
  "ingest_ok e ai cfg D (n\<lparr> in_native := s \<rparr>) = ingest_ok e ai cfg D n"
  "ingest_ok e ai cfg D (n\<lparr> in_sessions := m \<rparr>) = ingest_ok e ai cfg D n"
  "ingest_ok e ai cfg D (n\<lparr> in_forwarder := fw \<rparr>) = ingest_ok e ai cfg D n"
  "ingest_ok e ai cfg D (n\<lparr> in_controller := c \<rparr>) = ingest_ok e ai cfg D n"
  by (simp_all add: ingest_ok_def)

lemma legacy_live:
  assumes "env_ok e ai" "live_reach (ie_live e) c"
    and "try_push_payload_at (ie_fec e) peer datagram now r = Some (r', res)"
  shows "live_reach (ie_live e) (legacy_outcome e a res c)"
proof (cases "\<exists>b p. res = Inr (push_outcome.Decoded b p)")
  case True
  then obtain b p where res: "res = Inr (push_outcome.Decoded b p)" by blast
  have small: "length (dec_payload p) \<le> 2 ^ 33"
    using assms(1) fec_decoded_payload [OF assms(3) [unfolded res]] by (auto simp: env_ok_def)
  show ?thesis
  proof (cases "dec_stream_id p")
    case None
    then show ?thesis
      using live_reach.step [OF assms(2), of "PushPayload (dec_payload p) (ar_now a) (ar_ms a) (ar_available_us a)"] small
      by (simp add: res legacy_outcome_def)
  next
    case (Some sid)
    then show ?thesis
      using live_reach.step [OF assms(2), of "Commit sid (dec_payload p) None (ar_commit a)"] small
      by (simp add: res legacy_outcome_def)
  qed
next
  case False
  then show ?thesis
    using assms(2) by (auto simp: legacy_outcome_def split: sum.splits push_outcome.splits)
qed

lemma commit_relay_live:
  assumes "live_reach (ie_live e) c" "length env \<le> 2 ^ 33"
  shows "live_reach (ie_live e) (fst (commit_relay_object e m env clk c))"
  using live_reach.step [OF assms(1), of "Commit sid env (Some m) clk" for sid] assms
  by (simp add: commit_relay_object_def split: option.split)

text \<open>What the outcome of a relay datagram changes in the node, and what it sends.\<close>

lemma relay_outcome_frame:
  assumes "relay_outcome e a out n = (n', ef, ob)"
  shows "in_dispatch n' = in_dispatch n \<and> in_fec n' = in_fec n \<and> in_native n' = in_native n \<and>
    in_sessions n' = in_sessions n \<and> in_controller n' = in_controller n \<and> in_reported_drops n' = in_reported_drops n \<and>
    ef_ack ef = [] \<and> ef_native ef = [] \<and> ef_broadcast ef = [] \<and> ef_command ef = None"
  using assms
  by (auto simp: relay_outcome_def no_effects_def split_beta Let_def
      split: ingress_outcome.splits option.splits sum.splits prod.splits)

lemma relay_outcome_live:
  assumes "relay_outcome e a out n = (n', ef, ob)"
  shows "(\<exists>m env role dl np ns. out = ingress_outcome.Decoded m env role dl np ns \<and>
      in_live n' = fst (commit_relay_object e m env (ar_commit a) (in_live n)) \<and>
      (ef_committed ef = [] \<or> ef_committed ef = [media_key_of (ie_relay e) m])) \<or>
    in_live n' = in_live n \<and> ef_committed ef = []"
  using assms
  by (cases out)
    (auto simp: relay_outcome_def no_effects_def split_beta Let_def split: option.splits sum.splits prod.splits)

lemma decoded_key_other: "\<nexists>m env role dl np ns. res = Inr (ingress_outcome.Decoded m env role dl np ns) \<Longrightarrow> decoded_key lib res = []"
  by (cases "(lib, res)" rule: decoded_key.cases) auto

text \<open>The object that the relay receiver completes in a turn, if any: the turn's datagram goes to the receiver
  unless it is a control message on the primary socket or belongs to the audio lane. The completions of a run are
  listed turn by turn, up to the turn that ends the loop.\<close>

definition datagram_completes ::
  "('o, 'a, 'm, 'd, 'x, 'k, 'e) ingest_env \<Rightarrow> arrival \<Rightarrow> ('o, 'a, 'd, 'x, 'k) ingest_node \<Rightarrow> 'o media_key list" where
  "datagram_completes e a n =
     (case dispatch_push (ie_relay e) (ar_peer a) (ar_bytes a) (ar_us a) (in_dispatch n) of
        None \<Rightarrow> [] | Some (d, res) \<Rightarrow> decoded_key (ie_relay e) (udp_outcome res))"

definition media_completes ::
  "('o, 'a, 'm, 'd, 'x, 'k, 'e) ingest_env \<Rightarrow> arrival \<Rightarrow> ('o, 'a, 'd, 'x, 'k) ingest_node \<Rightarrow> 'o media_key list" where
  "media_completes e a n = (if is_multichannel_audio_transport_datagram (ar_bytes a) then [] else datagram_completes e a n)"

fun event_completes ::
  "('o, 'a, 'm, 'd, 'x, 'k, 'e) ingest_env \<Rightarrow> ingest_event \<Rightarrow> ('o, 'a, 'd, 'x, 'k) ingest_node \<Rightarrow> 'o media_key list" where
  "event_completes e (PrimaryDatagram a) n =
     (if snd (snd (handle_control (ar_peer a) (ar_bytes a) (ar_now a) (in_native n))) then [] else media_completes e a n)"
| "event_completes e (SecondaryDatagram a) n = media_completes e a n"
| "event_completes e _ n = []"

fun completions ::
  "('o, 'a, 'm, 'd, 'x, 'k, 'e) ingest_env \<Rightarrow> ingest_event list \<Rightarrow> ('o, 'a, 'd, 'x, 'k) ingest_node \<Rightarrow> 'o media_key list list" where
  "completions e [] n = []"
| "completions e (ev # evs) n = event_completes e ev n #
     (case ingest_step e ev n of Some (n1, ef, Running) \<Rightarrow> completions e evs n1 | _ \<Rightarrow> [])"

lemma process_ok:
  assumes env: "env_ok e ai" and ok: "ingest_ok e ai cfg D n"
  shows "\<exists>n' ef ob. process_udp_fec_ingest_datagram e a n = Some (n', ef, ob) \<and>
    ingest_ok e ai cfg (D @ datagram_completes e a n) n' \<and> ef_committed ef \<in> {[], datagram_completes e a n}"
proof -
  have lib: "assembler_ok (ie_relay e) ai" and relay_inv: "relay_ok (ie_relay e) ai cfg D (receiver (in_dispatch n))"
    and fec: "fec_reachable (ie_fec e) (in_fec n)" and live: "live_reach (ie_live e) (in_live n)"
    using assms by (simp_all add: env_ok_def ingest_ok_def)
  let ?key = "\<lambda>res. decoded_key (ie_relay e) (udp_outcome res)"
  obtain d res where push: "dispatch_push (ie_relay e) (ar_peer a) (ar_bytes a) (ar_us a) (in_dispatch n) = Some (d, res)"
    and d: "relay_ok (ie_relay e) ai cfg (D @ ?key res) (receiver d)"
    using dispatch_push_keeps [OF lib relay_inv] by blast
  have completes: "datagram_completes e a n = ?key res" by (simp add: datagram_completes_def push)
  consider (err) x where "res = Inl x" | (legacy) "res = Inr Legacy" | (relay) out where "res = Inr (Relay out)"
    by (metis dispatch_outcome.exhaust sum.exhaust)
  then show ?thesis
  proof cases
    case err
    then have "process_udp_fec_ingest_datagram e a n = Some (n\<lparr> in_dispatch := d \<rparr>, no_effects, None)"
      by (simp add: process_udp_fec_ingest_datagram_def push)
    then show ?thesis
      using d fec live err by (auto simp: ingest_ok_def no_effects_def completes)
  next
    case legacy
    obtain r fres where fpush: "try_push_payload_at (ie_fec e) (ar_peer a) (ar_bytes a) (ar_now a) (in_fec n) = Some (r, fres)"
      using try_push_ok [of "in_fec n" "ie_fec e" "ar_peer a" "ar_bytes a" "ar_now a"] fec_reachable_inv [OF fec] by blast
    then have "process_udp_fec_ingest_datagram e a n =
        Some (n\<lparr> in_dispatch := d, in_fec := r, in_live := legacy_outcome e a fres (in_live n) \<rparr>, no_effects, None)"
      by (simp add: process_udp_fec_ingest_datagram_def push legacy)
    then show ?thesis
      using d legacy fec_reachable.push [OF fec fpush] legacy_live [OF env live fpush]
      by (auto simp: ingest_ok_def no_effects_def completes)
  next
    case relay
    obtain n' ef ob where out: "relay_outcome e a out (n\<lparr> in_dispatch := d \<rparr>) = (n', ef, ob)"
      by (metis prod.collapse)
    have small: "length env \<le> 2 ^ 33" if "out = ingress_outcome.Decoded m env role dl np ns" for m env role dl np ns
      using dispatch_accepted(2) [OF lib relay_inv push [unfolded relay] that] env
      by (auto simp: env_ok_def)
    have "live_reach (ie_live e) (in_live n') \<and> ef_committed ef \<in> {[], ?key res}"
      using relay_outcome_live [OF out] live commit_relay_live [OF live small] relay by auto
    then show ?thesis
      using d fec relay_outcome_frame [OF out] push relay out
      by (auto simp: process_udp_fec_ingest_datagram_def ingest_ok_def completes)
  qed
qed

lemma audio_lane_handled:
  "fst (process_relay_audio_epoch_datagram inspect datagram now env channel native m fw) \<longleftrightarrow>
     is_multichannel_audio_transport_datagram datagram"
  by (simp add: process_relay_audio_epoch_datagram_def Let_def split: sum.split)

lemma receive_media_ok:
  assumes "env_ok e ai" "ingest_ok e ai cfg D n"
  shows "\<exists>n' ef. receive_media e path a n = Some (n', ef) \<and>
    ingest_ok e ai cfg (D @ media_completes e a n) n' \<and> ef_committed ef \<in> {[], media_completes e a n}"
proof (cases "process_relay_audio_epoch_datagram (ie_inspect e) (ar_bytes a) (ar_now a) (ar_send a) (ar_receivers a)
             (Some (in_native n)) (in_sessions n) (in_forwarder n)")
  case (fields handled m fw ax)
  have handled: "handled \<longleftrightarrow> is_multichannel_audio_transport_datagram (ar_bytes a)"
    using audio_lane_handled fields by (metis fst_conv)
  obtain n' ef ob where p: "process_udp_fec_ingest_datagram e a n = Some (n', ef, ob)"
      "ingest_ok e ai cfg (D @ datagram_completes e a n) n'" "ef_committed ef \<in> {[], datagram_completes e a n}"
    using process_ok [OF assms] by blast
  show ?thesis
  proof (cases handled)
    case True
    then show ?thesis
      using assms(2) handled by (auto simp: receive_media_def fields no_effects_def media_completes_def)
  next
    case False
    then show ?thesis
      using p handled by (auto simp: receive_media_def fields media_completes_def split: option.split)
  qed
qed

lemma receive_primary_ok:
  assumes "env_ok e ai" "ingest_ok e ai cfg D n"
  shows "\<exists>n' ef. receive_primary e a n = Some (n', ef) \<and>
    ingest_ok e ai cfg (D @ event_completes e (PrimaryDatagram a) n) n' \<and>
    ef_committed ef \<in> {[], event_completes e (PrimaryDatagram a) n}"
proof (cases "handle_control (ar_peer a) (ar_bytes a) (ar_now a) (in_native n)")
  case (fields subs ack control)
  have same: "media_completes e a (n\<lparr> in_native := subs \<rparr>) = media_completes e a n"
    by (simp add: media_completes_def datagram_completes_def)
  show ?thesis
  proof (cases control)
    case True
    then show ?thesis
      using assms(2) by (auto simp: receive_primary_def fields no_effects_def)
  next
    case False
    then show ?thesis
      using receive_media_ok [OF assms(1), of cfg D "n\<lparr> in_native := subs \<rparr>" Relay_Failover.Primary a] assms(2)
      by (simp add: receive_primary_def fields same)
  qed
qed

lemma ingest_step_ok:
  assumes "env_ok e ai" "ingest_ok e ai cfg D n"
  shows "\<exists>n' ef st. ingest_step e ev n = Some (n', ef, st) \<and>
    ingest_ok e ai cfg (D @ event_completes e ev n) n' \<and> ef_committed ef \<in> {[], event_completes e ev n}"
proof -
  have rotate: "live_reach (ie_live e) live"
    if "rotate_if_due (le_chunks (ie_live e)) (le_config (ie_live e)) force now ms us (in_live n) = (live, res)"
    for force now ms us live res
    using live_reach.step [of "ie_live e" "in_live n" "Rotate force now ms us"] assms(2) that by (simp add: ingest_ok_def)
  show ?thesis
  proof (cases ev)
    case (ShutdownRequested now ms us)
    then show ?thesis
      using assms(2) rotate by (auto simp: ingest_step_def ingest_ok_def no_effects_def split: prod.split sum.split)
  next
    case (RotateTick now ms us)
    then show ?thesis
      using assms(2) rotate by (auto simp: ingest_step_def ingest_ok_def no_effects_def split: prod.split sum.split)
  next
    case (ExpireTick now us ms)
    then show ?thesis
      using assms(2) relay_ok_expire fec_reachable.expire [of "ie_fec e" "in_fec n" now]
        live_reach.step [of "ie_live e" "in_live n" "Retire (sat_sub ms (5 * 60 * 1000))"]
      by (auto simp: ingest_step_def expire_ingest_def ingest_ok_def no_effects_def Let_def)
  next
    case (FailoverTick valid send w now)
    then show ?thesis
      using assms(2) by (auto simp: ingest_step_def no_effects_def split: option.split prod.split)
  next
    case (PrimaryDatagram a)
    then show ?thesis
      using receive_primary_ok [OF assms, of a] by (auto simp: ingest_step_def)
  next
    case (SecondaryDatagram a)
    then show ?thesis
      using receive_media_ok [OF assms, of Relay_Failover.Secondary a] by (auto simp: ingest_step_def)
  next
    case ReceiveFailed
    then show ?thesis
      using assms(2) by (auto simp: ingest_step_def no_effects_def)
  qed
qed

lemma ingest_run_ok:
  assumes "env_ok e ai" "ingest_ok e ai cfg D n"
  shows "\<exists>n' efs st. run_udp_fec_ingest e evs n = Some (n', efs, st) \<and>
    ingest_ok e ai cfg (D @ concat (completions e evs n)) n' \<and>
    list_all2 (\<lambda>ef ks. ef_committed ef \<in> {[], ks}) efs (completions e evs n)"
  using assms(2)
proof (induction evs arbitrary: n D)
  case Nil
  then show ?case by simp
next
  case (Cons ev evs)
  obtain n1 ef st where step: "ingest_step e ev n = Some (n1, ef, st)" "ingest_ok e ai cfg (D @ event_completes e ev n) n1"
      "ef_committed ef \<in> {[], event_completes e ev n}"
    using ingest_step_ok [OF assms(1) Cons.prems] by blast
  show ?case
  proof (cases "st = Running")
    case True
    then show ?thesis
      using step Cons.IH [OF step(2)] by auto
  next
    case False
    then show ?thesis
      using step by (cases st) auto
  qed
qed

lemma ingest_start_ok:
  assumes "env_ok e ai" "relay_from (ie_relay e) cfg binds = Some (d, ks)" "live_reach (ie_live e) live"
  shows "ingest_ok e ai cfg ks (ingest_start d fw live ct)"
proof -
  have "config_fits fec_config_default"
    by (simp add: config_fits_def fec_config_default_def u64_max_def)
  then show ?thesis
    using assms relay_from_reached [of "ie_relay e" ai cfg binds d ks] fec_reachable.new
    by (simp add: env_ok_def ingest_ok_def ingest_start_def)
qed

text \<open>Between two equal keys of a spaced history lie the keys of the turns between theirs.\<close>

lemma spaced_turns:
  assumes spaced: "spaced m (D @ concat cs)" and "i < j" "j < length cs" "k \<in> set (cs ! i)" "k \<in> set (cs ! j)"
    and single: "length (cs ! i) \<le> 1" "length (cs ! j) \<le> 1"
  shows "m \<le> length (concat (drop (Suc i) (take j cs)))"
proof -
  have key: "cs ! i = [k]" "cs ! j = [k]"
    using assms(4-) by (auto simp: le_Suc_eq length_Suc_conv)
  have "cs = take j cs @ [k] # drop (Suc j) cs"
    using id_take_nth_drop [of j cs] assms(3) key by simp
  moreover have "take j cs = take i cs @ [k] # drop (Suc i) (take j cs)"
    using id_take_nth_drop [of i "take j cs"] assms(2,3) key by (simp add: min_def)
  ultimately have "concat cs = concat (take i cs) @ k # concat (drop (Suc i) (take j cs)) @ k # concat (drop (Suc j) cs)"
    by (metis append.assoc append_Cons append_Nil concat.simps(2) concat_append)
  then show ?thesis
    using spaced unfolding spaced_def by (metis append.assoc)
qed

lemma spaced_since:
  assumes spaced: "spaced m ((xs @ k # ys) @ concat cs)" and "j < length cs" "k \<in> set (cs ! j)" "length (cs ! j) \<le> 1"
  shows "m \<le> length ys + length (concat (take j cs))"
proof -
  have key: "cs ! j = [k]"
    using assms(3,4) by (auto simp: le_Suc_eq length_Suc_conv)
  have "cs = take j cs @ [k] # drop (Suc j) cs"
    using id_take_nth_drop [of j cs] assms(2) key by simp
  then have "concat cs = concat (take j cs) @ k # concat (drop (Suc j) cs)"
    by (metis append_Cons append_Nil concat.simps(2) concat_append)
  then have "(xs @ k # ys) @ concat cs = xs @ k # (ys @ concat (take j cs)) @ k # concat (drop (Suc j) cs)"
    by simp
  then show ?thesis
    using spaced unfolding spaced_def by (metis length_append)
qed

lemma event_completes_single: "length (event_completes e ev n) \<le> 1"
proof -
  have "length (decoded_key lib res) \<le> 1" for lib res
    by (cases "(lib, res)" rule: decoded_key.cases) auto
  then show ?thesis
    by (cases ev) (auto simp: media_completes_def datagram_completes_def split: option.split prod.split)
qed

lemma completions_single: "\<forall>c \<in> set (completions e evs n). length c \<le> 1"
  by (induction evs arbitrary: n)
    (auto simp: event_completes_single split: option.split prod.split ingest_status.split simp del: One_nat_def)

section \<open>A concrete node\<close>

text \<open>The relay library of the receiver's examples with objects of stream 5, behind the chunk cache of the
  live cache's examples.\<close>

definition node_relay :: "(nat, nat announcement \<times> nat, nat media_key) relay_lib" where
  "node_relay = Relay_Ingress_Properties.ex_lib\<lparr> decode_datagram := (\<lambda>bytes _. map_sum (\<lambda>x. x)
     (\<lambda>y. y\<lparr> sym_object_key := (sym_object_key y)\<lparr> key_stream := ''5'' \<rparr> \<rparr>) (ex_decode bytes)) \<rparr>"

definition node_media :: "nat media_key media_lib" where
  "node_media = \<lparr> ml_object = \<lparr> ol_wire_magic = [77], ol_decode = (\<lambda>_. None), ol_kind = (\<lambda>_. Live_Slot.Media),
       ol_stream = (\<lambda>k. ascii (key_stream k)), ol_payload = (\<lambda>_. [3]), ol_metadata = (\<lambda>_ _. None) \<rparr>,
     ml_epoch = key_epoch, ml_sequence = key_object, ml_keyframe = (\<lambda>_. True), ml_rebox = (\<lambda>_ _ _. None) \<rparr>"

definition node_env :: "(nat, nat announcement \<times> nat, nat media_key, nat, string, demo_chunks, string) ingest_env" where
  "node_env = \<lparr> ie_relay = node_relay, ie_fec = Udp_Fec_Properties.ex_lib\<lparr> push_datagram := (\<lambda>n bs. (Suc n, Inr (if n = 0 then None else Some (take 16 bs)))) \<rparr>,
     ie_live = \<lparr> le_date = (\<lambda>_. None), le_chunks = demo_lib, le_media = node_media, le_config = demo_config \<rparr>,
     ie_inspect = (\<lambda>_. Inl ''short''), ie_expires_at_us = (\<lambda>dl. dl), ie_stage_timestamps = (\<lambda>_. []) \<rparr>"

definition node_cfg :: "nat relay_config" where
  "node_cfg = ex_cfg\<lparr> max_completed_objects := 8 \<rparr>"

definition node_binds :: "nat relay_event list" where
  "node_binds = [BindAuthenticated (1, 1) (ex_parent 1 Relay_Ingress.Primary),
     AnnounceObject 1 ((ex_ann 5)\<lparr> ann_key := (ex_key 5)\<lparr> key_stream := ''5'' \<rparr> \<rparr>) 10]"

definition node_dispatch :: "(nat, nat announcement \<times> nat) udp_dispatch" where
  "node_dispatch = fst (the (relay_from node_relay node_cfg node_binds))"

definition node_forwarder :: "(socket_addr, nat media_key) forwarder" where
  "node_forwarder = \<lparr> fw_paths = [\<lparr> fp_target = (9, 9), fp_role = ForwardAll, fp_promoted = False,
     fp_warm_sources = warm_buffer_default \<rparr>], fw_counters = counters_zero \<rparr>"

definition node_start :: "(nat, nat announcement \<times> nat, nat, string, demo_chunks) ingest_node" where
  "node_start = ingest_start node_dispatch (Some node_forwarder) demo_start None"

definition node_arrival :: "socket_addr \<Rightarrow> bytes \<Rightarrow> nat \<Rightarrow> arrival" where
  "node_arrival peer bs t = \<lparr> ar_peer = peer, ar_bytes = bs, ar_now = t, ar_us = t, ar_available_us = t, ar_ms = t,
     ar_commit = \<lparr> ck_activation_us = t, ck_now_ms = t, ck_available_us = t \<rparr>,
     ar_send = (\<lambda>_. (0, Some (length bs), 0)), ar_receivers = None \<rparr>"

definition node_events :: "ingest_event list" where
  "node_events = [PrimaryDatagram (node_arrival (1, 1) (ex_bytes 5 0 0) 20),
     PrimaryDatagram (node_arrival (1, 1) (ex_bytes 5 1 1) 21), SecondaryDatagram (node_arrival (1, 1) (ex_bytes 5 0 0) 24)]"

lemma node_env_ok: "env_ok node_env ex_ai"
proof -
  have "assembler_ok node_relay ex_ai"
    by (auto simp: assembler_ok_def node_relay_def Relay_Ingress_Properties.ex_lib_def ex_ai_def split: if_splits)
  then show ?thesis
    by (simp add: env_ok_def node_env_def) (auto simp: node_relay_def Relay_Ingress_Properties.ex_lib_def split: if_splits)
qed

lemma node_dispatch_from: "relay_from (ie_relay node_env) node_cfg node_binds = Some (node_dispatch, [])"
proof -
  have "snd (the (relay_from node_relay node_cfg node_binds)) = []" "relay_config_validate node_relay node_cfg = Inr ()"
    by code_simp+
  moreover have "assembler_ok node_relay ex_ai"
    using node_env_ok by (simp add: env_ok_def node_env_def)
  ultimately show ?thesis
    using relay_from_ok [of node_relay ex_ai node_cfg node_binds] by (auto simp: node_env_def node_dispatch_def)
qed

lemma node_live_reach: "live_reach (ie_live node_env) demo_start"
  unfolding demo_start_def by (rule live_reach.start)

lemmas node_setup = node_env_ok node_dispatch_from node_live_reach

section \<open>Properties\<close>

text \<open>C9: The ingest loop never panics. From a validated relay configuration with its bound peers, an empty FEC
  receiver and any live cache that its own operations reach, every sequence of datagrams (well-formed or
  not, on either socket), timer ticks and failures returns; the relay receiver keeps its invariant, and the
  FEC receiver and the live cache stay in states that their own operations reach.\<close>

theorem ingest_never_panics:
  assumes "env_ok e ai" "relay_from (ie_relay e) cfg binds = Some (d, ks)" "live_reach (ie_live e) live"
  shows "\<exists>n efs st. run_udp_fec_ingest e evs (ingest_start d fw live ct) = Some (n, efs, st) \<and>
    relay_inv (ie_relay e) ai {} (receiver (in_dispatch n)) \<and> fec_reachable (ie_fec e) (in_fec n) \<and>
    live_reach (ie_live e) (in_live n)"
  using ingest_run_ok [OF assms(1) ingest_start_ok [OF assms, of fw ct], of evs] by (auto simp: ingest_ok_def relay_ok_def)

theorem ingest_never_panics_witness:
  "\<exists>n efs st. run_udp_fec_ingest node_env (node_events @ [RotateTick 25 25 25, ExpireTick 26 26 26, ReceiveFailed]) node_start =
     Some (n, efs, st) \<and> live_reach (ie_live node_env) (in_live n)"
  using ingest_never_panics [OF node_setup, of "node_events @ [RotateTick 25 25 25, ExpireTick 26 26 26, ReceiveFailed]"]
  unfolding node_start_def by blast

text \<open>C10: A relayed object is committed to the cache at most once within the tombstones the receiver keeps. Each
  turn commits nothing or the object that its datagram completed, and the tombstones are always the last
  \<open>max_completed_objects\<close> completions. If two turns of a run commit the same key, at least that many other objects
  were completed between them, however the symbols are repeated, reordered and spread over the parents and whatever
  else the loop handles; likewise for a key that was completed before the loop started.\<close>

theorem relay_commits_once:
  assumes "env_ok e ai" "relay_from (ie_relay e) cfg binds = Some (d, ks)" "live_reach (ie_live e) live"
    and "run_udp_fec_ingest e evs (ingest_start d fw live ct) = Some (n, efs, st)"
    and "cs = completions e evs (ingest_start d fw live ct)"
  shows "list_all2 (\<lambda>ef c. ef_committed ef \<in> {[], c} \<and> length c \<le> 1) efs cs \<and>
    relay_receiver.completed_order (receiver (in_dispatch n)) =
      drop (length (ks @ concat cs) - max_completed_objects cfg) (ks @ concat cs) \<and>
    (\<forall>i j k. i < j \<and> j < length efs \<and> k \<in> set (ef_committed (efs ! i)) \<and> k \<in> set (ef_committed (efs ! j)) \<longrightarrow>
       max_completed_objects cfg \<le> length (concat (drop (Suc i) (take j cs)))) \<and>
    (\<forall>xs k ys j. ks = xs @ k # ys \<and> j < length efs \<and> k \<in> set (ef_committed (efs ! j)) \<longrightarrow>
       max_completed_objects cfg \<le> length ys + length (concat (take j cs)))"
proof -
  have ok: "ingest_ok e ai cfg (ks @ concat cs) n" and turns: "list_all2 (\<lambda>ef c. ef_committed ef \<in> {[], c}) efs cs"
    using ingest_run_ok [OF assms(1) ingest_start_ok [OF assms(1-3), of fw ct], of evs] assms(4,5) by auto
  have single: "length c \<le> 1" if "c \<in> set cs" for c
    using completions_single that assms(5) by blast
  have len: "length efs = length cs"
    using turns by (rule list_all2_lengthD)
  have commit: "k \<in> set (cs ! i) \<and> length (cs ! i) \<le> 1" if "i < length cs" "k \<in> set (ef_committed (efs ! i))" for i k
    using list_all2_nthD2 [OF turns that(1)] that single [of "cs ! i"] by auto
  have spaced: "spaced (max_completed_objects cfg) (ks @ concat cs)"
    and order: "relay_receiver.completed_order (receiver (in_dispatch n)) =
      drop (length (ks @ concat cs) - max_completed_objects cfg) (ks @ concat cs)"
    using ok by (auto simp: ingest_ok_def relay_ok_def history_ok_def)
  have again: "max_completed_objects cfg \<le> length (concat (drop (Suc i) (take j cs)))"
    if "i < j" "j < length efs" "k \<in> set (ef_committed (efs ! i))" "k \<in> set (ef_committed (efs ! j))" for i j k
    using spaced_turns [OF spaced that(1), of k] commit [of i k] commit [of j k] that len by simp
  have since: "max_completed_objects cfg \<le> length ys + length (concat (take j cs))"
    if "ks = xs @ k # ys" "j < length efs" "k \<in> set (ef_committed (efs ! j))" for xs k ys j
    using spaced_since [of _ xs k ys cs j] spaced commit [of j k] that len by simp
  have "list_all2 (\<lambda>ef c. ef_committed ef \<in> {[], c} \<and> length c \<le> 1) efs cs"
    using turns single by (auto simp: list_all2_conv_all_nth)
  then show ?thesis
    using order again since by blast
qed


text \<open>A node that keeps one tombstone, where a symbol completes its object, and which completed the objects 5 and 6
  before its loop starts: object 5 may be committed again, since object 6 came in between.\<close>

definition brief_relay :: "(nat, nat announcement \<times> nat, nat media_key) relay_lib" where
  "brief_relay = node_relay\<lparr> push_symbol := (\<lambda>(ann, n) y. ((ann, 2), Inr (Some (ann_key ann)))),
     coding_source_symbols := (\<lambda>_. 1) \<rparr>"

definition brief_env :: "(nat, nat announcement \<times> nat, nat media_key, nat, string, demo_chunks, string) ingest_env" where
  "brief_env = node_env\<lparr> ie_relay := brief_relay \<rparr>"

definition brief_cfg :: "nat relay_config" where
  "brief_cfg = ex_cfg\<lparr> max_completed_objects := 1 \<rparr>"

definition brief_binds :: "nat relay_event list" where
  "brief_binds = [BindControlled (1, 1) ((ex_parent 1 Relay_Ingress.Primary)\<lparr> controlled_qualification := True \<rparr>),
     UdpDatagram (1, 1) (ex_bytes 5 0 0) 15, UdpDatagram (1, 1) (ex_bytes 6 0 0) 16]"

definition brief_dispatch :: "(nat, nat announcement \<times> nat) udp_dispatch" where
  "brief_dispatch = fst (the (relay_from brief_relay brief_cfg brief_binds))"

definition brief_start :: "(nat, nat announcement \<times> nat, nat, string, demo_chunks) ingest_node" where
  "brief_start = ingest_start brief_dispatch (Some node_forwarder) demo_start None"

definition brief_events :: "ingest_event list" where
  "brief_events = [RotateTick 17 17 17, PrimaryDatagram (node_arrival (1, 1) (ex_bytes 5 0 0) 20)]"

abbreviation stream5_key :: "nat \<Rightarrow> nat media_key" where
  "stream5_key k \<equiv> (ex_key k)\<lparr> key_stream := ''5'' \<rparr>"

lemma brief_env_ok: "env_ok brief_env ex_ai"
proof -
  have "assembler_ok brief_relay ex_ai"
    by (auto simp: assembler_ok_def brief_relay_def node_relay_def Relay_Ingress_Properties.ex_lib_def ex_ai_def split: if_splits)
  then show ?thesis
    using node_env_ok
    by (simp add: env_ok_def brief_env_def node_env_def)
      (auto simp: brief_relay_def node_relay_def Relay_Ingress_Properties.ex_lib_def split: if_splits)
qed

lemma brief_dispatch_from:
  "relay_from (ie_relay brief_env) brief_cfg brief_binds = Some (brief_dispatch, [stream5_key 5, stream5_key 6])"
proof -
  have "snd (the (relay_from brief_relay brief_cfg brief_binds)) = [stream5_key 5, stream5_key 6]"
      "relay_config_validate brief_relay brief_cfg = Inr ()"
    by code_simp+
  moreover have "assembler_ok brief_relay ex_ai"
    using brief_env_ok by (simp add: env_ok_def brief_env_def)
  ultimately show ?thesis
    using relay_from_ok [of brief_relay ex_ai brief_cfg brief_binds] by (auto simp: brief_env_def brief_dispatch_def)
qed

theorem relay_commits_once_witness:
  "\<exists>n efs st. run_udp_fec_ingest brief_env brief_events brief_start = Some (n, efs, st) \<and>
     map ef_committed efs = [[], [stream5_key 5]] \<and>
     max_completed_objects brief_cfg \<le> length [stream5_key 6] + length (concat (take 1 (completions brief_env brief_events brief_start)))"
proof -
  have "map_option (\<lambda>(n, efs, st). map ef_committed efs) (run_udp_fec_ingest brief_env brief_events brief_start) =
     Some [[], [stream5_key 5]]"
    by code_simp
  then obtain n efs st where run: "run_udp_fec_ingest brief_env brief_events brief_start = Some (n, efs, st)"
    and committed: "map ef_committed efs = [[], [stream5_key 5]]"
    by auto
  have "1 < length efs \<and> stream5_key 5 \<in> set (ef_committed (efs ! 1))"
    using committed by (auto simp: map_eq_Cons_conv)
  moreover have "[stream5_key 5, stream5_key 6] = [] @ stream5_key 5 # [stream5_key 6]"
    by simp
  moreover have live: "live_reach (ie_live brief_env) demo_start"
    using node_live_reach by (simp add: brief_env_def)
  note once = relay_commits_once [OF brief_env_ok brief_dispatch_from live run [unfolded brief_start_def] refl,
      THEN conjunct2, THEN conjunct2, THEN conjunct2, rule_format, of "[]" "stream5_key 5" "[stream5_key 6]" 1]
  ultimately have "max_completed_objects brief_cfg \<le>
      length [stream5_key 6] + length (concat (take 1 (completions brief_env brief_events brief_start)))"
    using once unfolding brief_start_def by blast
  with run committed show ?thesis
    by - (intro exI conjI)
qed

text \<open>A datagram outside the audio lane.\<close>

lemma receive_media_relay:
  assumes "receive_media e path a n = Some (n', ef)" "\<not> is_multichannel_audio_transport_datagram (ar_bytes a)"
  shows "\<exists>n1 ob. process_udp_fec_ingest_datagram e a n = Some (n1, ef, ob) \<and>
    n' = (case (in_controller n1, ob) of
        (Some c, Some x) \<Rightarrow> n1\<lparr> in_controller := Some (controller_observe path x (ar_now a) c) \<rparr> | _ \<Rightarrow> n1)"
proof -
  obtain m fw ax where "process_relay_audio_epoch_datagram (ie_inspect e) (ar_bytes a) (ar_now a) (ar_send a) (ar_receivers a)
      (Some (in_native n)) (in_sessions n) (in_forwarder n) = (False, m, fw, ax)"
    using assms(2) audio_lane_handled by (metis prod.collapse)
  then show ?thesis
    using assms(1) by (cases "process_udp_fec_ingest_datagram e a n") (auto simp: receive_media_def)
qed

lemma relay_not_legacy: "map_sum id Relay res \<noteq> Inr Legacy"
  by (cases res) auto

lemma dispatch_relay_only:
  assumes "dispatch_push lib peer bs now d = Some (d', res)" "is_relay_session_datagram bs"
  shows "res \<noteq> Inr Legacy"
  using assms by (auto simp: dispatch_push_def dispatch_reject_def relay_not_legacy split: option.splits sum.splits if_splits)

lemma process_relay_frame:
  assumes "process_udp_fec_ingest_datagram e a n = Some (n', ef, ob)" "is_relay_session_datagram (ar_bytes a)"
  shows "in_fec n' = in_fec n \<and> in_sessions n' = in_sessions n \<and> in_native n' = in_native n \<and>
    in_controller n' = in_controller n \<and> ef_ack ef = [] \<and> ef_native ef = [] \<and> ef_broadcast ef = []"
proof -
  obtain d res where push: "dispatch_push (ie_relay e) (ar_peer a) (ar_bytes a) (ar_us a) (in_dispatch n) = Some (d, res)"
    using assms(1) by (auto simp: process_udp_fec_ingest_datagram_def split: option.splits)
  have "res \<noteq> Inr Legacy"
    by (rule dispatch_relay_only [OF push assms(2)])
  then consider (err) x where "res = Inl x" | (relay) out where "res = Inr (Relay out)"
    by (metis dispatch_outcome.exhaust sum.exhaust)
  then show ?thesis
  proof cases
    case err
    then show ?thesis
      using assms(1) push by (auto simp: process_udp_fec_ingest_datagram_def no_effects_def)
  next
    case relay
    obtain n1 ef1 ob1 where out: "relay_outcome e a out (n\<lparr> in_dispatch := d \<rparr>) = (n1, ef1, ob1)"
      by (metis prod.collapse)
    then show ?thesis
      using assms(1) push relay relay_outcome_frame [OF out] by (simp add: process_udp_fec_ingest_datagram_def)
  qed
qed

lemma process_legacy_frame:
  assumes "process_udp_fec_ingest_datagram e a n = Some (n', ef, ob)" "\<not> is_relay_session_datagram (ar_bytes a)"
  shows "n' = n\<lparr> in_fec := in_fec n', in_live := in_live n' \<rparr> \<and> ef = no_effects \<and> ob = None"
  using assms by (auto simp: process_udp_fec_ingest_datagram_def dispatch_push_def split: option.splits prod.splits)

text \<open>C11: Every datagram belongs to one lane, and a lane touches only its own state. A control message changes
  the native subscriptions alone, and the only datagram it sends is the answer to its peer. An audio
  datagram changes the block sessions and the forwarder, and commits nothing. A relay datagram leaves
  subscriptions, sessions and the FEC receiver as they were. Every other datagram goes to the FEC
  receiver and the cache alone, and sends nothing.\<close>

theorem ingest_lanes_separate:
  assumes "receive_primary e a n = Some (n', ef)"
  shows "if control_of (ar_bytes a) \<noteq> NoControl then
      n' = n\<lparr> in_native := in_native n' \<rparr> \<and> ef = no_effects\<lparr> ef_ack := ef_ack ef \<rparr> \<and> fst ` set (ef_ack ef) \<subseteq> {ar_peer a}
    else if is_multichannel_audio_transport_datagram (ar_bytes a) then
      n' = n\<lparr> in_sessions := in_sessions n', in_forwarder := in_forwarder n' \<rparr> \<and> ef_ack ef = [] \<and> ef_committed ef = []
    else if is_relay_session_datagram (ar_bytes a) then
      in_fec n' = in_fec n \<and> in_sessions n' = in_sessions n \<and> in_native n' = in_native n \<and>
      ef_ack ef = [] \<and> ef_native ef = [] \<and> ef_broadcast ef = []
    else n' = n\<lparr> in_fec := in_fec n', in_live := in_live n' \<rparr> \<and> ef = no_effects"
proof -
  obtain subs ack control where h: "handle_control (ar_peer a) (ar_bytes a) (ar_now a) (in_native n) = (subs, ack, control)"
    by (metis prod.collapse)
  note handled = handle_control_handled [OF h]
  show ?thesis
  proof (cases control)
    case True
    then show ?thesis
      using assms handled by (auto simp: receive_primary_def h no_effects_def split: option.splits)
  next
    case False
    then have media: "receive_media e Relay_Failover.Primary a n = Some (n', ef)"
      using assms handled by (simp add: receive_primary_def h)
    show ?thesis
    proof (cases "is_multichannel_audio_transport_datagram (ar_bytes a)")
      case True
      then show ?thesis
        using media False handled audio_lane_handled [of "ie_inspect e" "ar_bytes a" "ar_now a" "ar_send a" "ar_receivers a"
            "Some (in_native n)" "in_sessions n" "in_forwarder n"]
        by (auto simp: receive_media_def no_effects_def split: prod.splits bool.splits)
    next
      case audio: False
      obtain n1 ob where p: "process_udp_fec_ingest_datagram e a n = Some (n1, ef, ob)"
          "n' = (case (in_controller n1, ob) of
            (Some c, Some x) \<Rightarrow> n1\<lparr> in_controller := Some (controller_observe Relay_Failover.Primary x (ar_now a) c) \<rparr> | _ \<Rightarrow> n1)"
        using receive_media_relay [OF media audio] by blast
      show ?thesis
      proof (cases "is_relay_session_datagram (ar_bytes a)")
        case True
        then show ?thesis
          using process_relay_frame [OF p(1) True] p(2) audio False handled by (auto split: option.splits)
      next
        case relay: False
        then show ?thesis
          using process_legacy_frame [OF p(1) relay] p(2) audio False handled by (auto split: option.splits)
      qed
    qed
  qed
qed

theorem ingest_lanes_separate_witness:
  "let a = node_arrival (7, 7) (ascii ''WAVEY-DAW-SUBSCRIBE/2 12'') 23 in
   \<exists>n' ef. receive_primary node_env a node_start = Some (n', ef) \<and>
     n' = node_start\<lparr> in_native := [((7, 7), \<lparr> ns_session_id = Some 12, ns_expires_at = 15000000023 \<rparr>)] \<rparr> \<and>
     ef = no_effects\<lparr> ef_ack := [((7, 7), ascii ''WAVEY-DAW-SUBSCRIBED/2 12'')] \<rparr>"
proof -
  define a where "a = node_arrival (7, 7) (ascii ''WAVEY-DAW-SUBSCRIBE/2 12'') 23"
  have "map_option (\<lambda>(n', ef). (in_native n', ef_ack ef)) (receive_primary node_env a node_start) =
      Some ([((7, 7), \<lparr> ns_session_id = Some 12, ns_expires_at = 15000000023 \<rparr>)], [((7, 7), ascii ''WAVEY-DAW-SUBSCRIBED/2 12'')])"
    unfolding a_def by code_simp
  then obtain n' ef where r: "receive_primary node_env a node_start = Some (n', ef)"
      "in_native n' = [((7, 7), \<lparr> ns_session_id = Some 12, ns_expires_at = 15000000023 \<rparr>)]"
      "ef_ack ef = [((7, 7), ascii ''WAVEY-DAW-SUBSCRIBED/2 12'')]"
    by auto
  have "control_of (ar_bytes a) \<noteq> NoControl"
    unfolding a_def by code_simp
  then show ?thesis
    unfolding Let_def a_def [symmetric] using r ingest_lanes_separate [OF r(1)] by auto
qed

lemma relay_not_audio:
  assumes "is_relay_session_datagram bs"
  shows "\<not> is_multichannel_audio_transport_datagram bs"
proof -
  have len: "length (ascii ''AEP1'') = 4" and "ascii ''AEP1'' \<noteq> RELAY_SESSION_DATAGRAM_MAGIC"
    by (simp_all add: ascii_def RELAY_SESSION_DATAGRAM_MAGIC_def)
  then show ?thesis
    using assms unfolding is_relay_session_datagram_def is_multichannel_audio_transport_datagram_def Live_Slot.starts_with_def len
    by auto
qed

lemma forward_paths_out: "snd ` set (snd (snd (forward_paths datagram role k x env i ps c))) \<subseteq> {datagram}"
proof (induction ps arbitrary: i c)
  case (Cons p ps)
  have "snd ` set (snd (snd (forward_one datagram role k x now r p c))) \<subseteq> {datagram}" for now r
    by (simp add: forward_one_def split_beta)
  then show ?case
    using Cons by (simp add: split_beta image_Un)
qed simp

lemma forward_symbol_out: "snd ` set (snd (forward_symbol a role key x fw)) \<subseteq> {ar_bytes a}"
  by (simp add: forward_symbol_def forward_def forward_paths_out split_beta split: option.split)

lemma relay_outcome_downstream:
  assumes "relay_outcome e a out n = (n', ef, ob)"
  shows "snd ` set (ef_downstream ef) \<subseteq> {ar_bytes a}"
proof -
  have "\<exists>role key x. ef_downstream ef = snd (forward_symbol a role key x (in_forwarder n))"
    using assms
    by (cases out) (auto simp: relay_outcome_def no_effects_def Let_def split_beta split: option.splits sum.splits prod.splits, blast+)
  then show ?thesis
    using forward_symbol_out by metis
qed

text \<open>C12: Only the symbols of bound parents go further. If a relay datagram makes the loop send to a child, change
  the live cache or tell the failover controller anything, then its peer is bound to a parent session and
  the datagram decodes to a symbol; and what the children get is the datagram as it came.\<close>

theorem relay_forwards_authenticated:
  assumes "env_ok e ai" "ingest_ok e ai cfg D n" "receive_media e path a n = Some (n', ef)"
    and "is_relay_session_datagram (ar_bytes a)"
  shows "(ef_downstream ef \<noteq> [] \<or> in_live n' \<noteq> in_live n \<or> in_controller n' \<noteq> in_controller n \<longrightarrow>
      (\<exists>sid y. map_of (sessions_by_peer (in_dispatch n)) (ar_peer a) = Some sid \<and>
        decode_datagram (ie_relay e) (ar_bytes a) (relay_limits cfg) = Inr y)) \<and>
    snd ` set (ef_downstream ef) \<subseteq> {ar_bytes a}"
proof -
  note lib = assms(1) [unfolded env_ok_def, THEN conjunct1]
  note relay = assms(2) [unfolded ingest_ok_def, THEN conjunct1]
  obtain n1 ob where p: "process_udp_fec_ingest_datagram e a n = Some (n1, ef, ob)"
    and n': "n' = (case (in_controller n1, ob) of
        (Some c, Some x) \<Rightarrow> n1\<lparr> in_controller := Some (controller_observe path x (ar_now a) c) \<rparr> | _ \<Rightarrow> n1)"
    using receive_media_relay [OF assms(3) relay_not_audio [OF assms(4)]] by blast
  obtain d res where push: "dispatch_push (ie_relay e) (ar_peer a) (ar_bytes a) (ar_us a) (in_dispatch n) = Some (d, res)"
    using p by (auto simp: process_udp_fec_ingest_datagram_def split: option.splits)
  show ?thesis
  proof (cases "\<exists>out. res = Inr (Relay out)")
    case True
    then obtain out where out: "res = Inr (Relay out)" by blast
    have "relay_outcome e a out (n\<lparr> in_dispatch := d \<rparr>) = (n1, ef, the ob)"
      using p push out by (auto simp: process_udp_fec_ingest_datagram_def split: prod.splits)
    then show ?thesis
      using dispatch_accepted(1) [OF lib relay push [unfolded out]] relay_outcome_downstream by blast
  next
    case False
    then obtain x where "res = Inl x"
      using dispatch_relay_only [OF push assms(4)] by (metis dispatch_outcome.exhaust sum.exhaust)
    then have "n1 = n\<lparr> in_dispatch := d \<rparr>" "ef = no_effects" "ob = None"
      using p push by (auto simp: process_udp_fec_ingest_datagram_def)
    then show ?thesis
      using n' by (auto simp: no_effects_def split: option.splits)
  qed
qed

theorem relay_forwards_authenticated_witness:
  "\<exists>n' ef. receive_media node_env Relay_Failover.Primary (node_arrival (1, 1) (ex_bytes 5 0 0) 20) node_start = Some (n', ef) \<and>
     ef_downstream ef = [((9, 9), ex_bytes 5 0 0)] \<and> map_of (sessions_by_peer (in_dispatch node_start)) (1, 1) \<noteq> None"
proof -
  define a where "a = node_arrival (1, 1) (ex_bytes 5 0 0) 20"
  have "map_option (\<lambda>(n', ef). ef_downstream ef) (receive_media node_env Relay_Failover.Primary a node_start) =
      Some [((9, 9), ex_bytes 5 0 0)]"
    unfolding a_def by code_simp
  then obtain n' ef where r: "receive_media node_env Relay_Failover.Primary a node_start = Some (n', ef)"
      "ef_downstream ef = [((9, 9), ex_bytes 5 0 0)]"
    by auto
  have "is_relay_session_datagram (ar_bytes a)" "ar_peer a = (1, 1)"
    unfolding a_def by code_simp+
  moreover have "ingest_ok node_env ex_ai node_cfg [] node_start"
    unfolding node_start_def by (rule ingest_start_ok [OF node_setup])
  ultimately show ?thesis
    using relay_forwards_authenticated [OF node_env_ok _ r(1)] r unfolding a_def [symmetric] by auto
qed

end
