(* ===== verification/Mesh_Telemetry.thy ===== *)
theory Mesh_Telemetry
  imports Mesh_Prelude
begin

text \<open>
  What a node knows about the others, in \<open>src/src/main.rs\<close>: the snapshots that they send and when these are
  stale (\<open>TelemetryAggregator\<close>), the connections over which they come (\<open>TelemetryPeerMonitor\<close>), and the log of
  control commands (\<open>ControlPlane\<close>).

  Of a snapshot the code here uses the node, its region and the time of the update; the rest has the type
  \<open>'s\<close>. The JSON decoder is an argument. A hash map is a table with one entry per key.
\<close>

section \<open>Snapshots of other nodes\<close>

record 's mesh_snapshot =
  ms_node_id :: string
  ms_region :: string
  ms_updated_unix_ms :: nat
  ms_rest :: 's

record node_health =
  nh_node_id :: string
  nh_region :: string
  nh_updated_unix_ms :: nat
  nh_age_ms :: nat

record 's aggregator =
  ag_snapshots :: "(string \<times> 's mesh_snapshot) list"
  ag_stale_nodes :: "node_health list"
  ag_stale_after_ms :: nat

record telemetry_health =
  th_stale_after_ms :: nat
  th_fresh_remote_count :: nat
  th_stale_remote_count :: nat
  th_stale_nodes :: "node_health list"

definition aggregator_new :: "nat \<Rightarrow> 's aggregator" where
  "aggregator_new stale_after_ms =
     \<lparr> ag_snapshots = [], ag_stale_nodes = [], ag_stale_after_ms = stale_after_ms \<rparr>"

definition ingest_snapshot :: "'s mesh_snapshot \<Rightarrow> 's aggregator \<Rightarrow> 's aggregator" where
  "ingest_snapshot s a =
     a\<lparr> ag_snapshots := tput (ms_node_id s) s (ag_snapshots a),
        ag_stale_nodes := filter (\<lambda>n. nh_node_id n \<noteq> ms_node_id s) (ag_stale_nodes a) \<rparr>"

text \<open>\<open>None\<close> is a payload that does not decode.\<close>

definition ingest_payload ::
  "(u8 list \<Rightarrow> 's mesh_snapshot option) \<Rightarrow> u8 list \<Rightarrow> u8 list \<Rightarrow> 's aggregator \<Rightarrow> 's aggregator \<times> bool option" where
  "ingest_payload decode tag val a =
     (if tag \<noteq> [0x41, 0x56, 0x4D, 0x54] then (a, Some False)
      else case decode val of None \<Rightarrow> (a, None) | Some s \<Rightarrow> (ingest_snapshot s a, Some True))"

definition is_stale :: "nat \<Rightarrow> 's aggregator \<Rightarrow> 's mesh_snapshot \<Rightarrow> bool" where
  "is_stale now_ms a s \<longleftrightarrow> 0 < ag_stale_after_ms a \<and> ag_stale_after_ms a < sat_sub now_ms (ms_updated_unix_ms s)"

definition node_health_from :: "nat \<Rightarrow> 's mesh_snapshot \<Rightarrow> node_health" where
  "node_health_from now_ms s =
     \<lparr> nh_node_id = ms_node_id s, nh_region = ms_region s, nh_updated_unix_ms = ms_updated_unix_ms s,
       nh_age_ms = sat_sub now_ms (ms_updated_unix_ms s) \<rparr>"

text \<open>The first entry of the same node is replaced, or the node is appended.\<close>

fun remember_stale_node :: "node_health list \<Rightarrow> node_health \<Rightarrow> node_health list" where
  "remember_stale_node [] n = [n]"
| "remember_stale_node (x # xs) n =
     (if nh_node_id x = nh_node_id n then n # xs else x # remember_stale_node xs n)"

text \<open>Oldest first, then by name.\<close>

definition stale_order :: "node_health \<Rightarrow> int \<times> string" where
  "stale_order n = (- int (nh_age_ms n), nh_node_id n)"

definition remember_stale_nodes :: "node_health list \<Rightarrow> node_health list \<Rightarrow> node_health list" where
  "remember_stale_nodes stale remembered = take 32 (sort_key stale_order (foldl remember_stale_node remembered stale))"

definition snapshots_with_local ::
  "nat \<Rightarrow> 's mesh_snapshot \<Rightarrow> 's aggregator \<Rightarrow> 's aggregator \<times> 's mesh_snapshot list \<times> telemetry_health" where
  "snapshots_with_local now_ms local a =
     (let stale = map (node_health_from now_ms) (filter (is_stale now_ms a) (vals (ag_snapshots a)));
          fresh = retain (\<lambda>_ s. \<not> is_stale now_ms a s) (ag_snapshots a);
          remembered = (if stale \<noteq> [] then remember_stale_nodes stale (ag_stale_nodes a) else ag_stale_nodes a)
      in (a\<lparr> ag_snapshots := fresh, ag_stale_nodes := remembered \<rparr>,
          sort_key ms_node_id (vals (tput (ms_node_id local) local fresh)),
          \<lparr> th_stale_after_ms = ag_stale_after_ms a, th_fresh_remote_count = length fresh,
            th_stale_remote_count = length remembered, th_stale_nodes = remembered \<rparr>))"

section \<open>Connections\<close>

record peer_status =
  ps_peer :: string
  ps_state :: string
  ps_connect_attempts :: nat
  ps_disconnects :: nat
  ps_payloads :: nat
  ps_bytes :: nat
  ps_last_connected_unix_ms :: "nat option"
  ps_last_payload_unix_ms :: "nat option"
  ps_last_error :: "string option"

definition peer_status_default :: "string \<Rightarrow> string \<Rightarrow> peer_status" where
  "peer_status_default peer state =
     \<lparr> ps_peer = peer, ps_state = state, ps_connect_attempts = 0, ps_disconnects = 0, ps_payloads = 0, ps_bytes = 0,
       ps_last_connected_unix_ms = None, ps_last_payload_unix_ms = None, ps_last_error = None \<rparr>"

definition monitor_new :: "string list \<Rightarrow> (string \<times> peer_status) list" where
  "monitor_new peers = foldl (\<lambda>m p. tput p (peer_status_default p ''configured'') m) [] peers"

text \<open>\<open>entry(..).or_insert_with(..)\<close> and the update of the entry.\<close>

definition update_peer ::
  "string \<Rightarrow> string \<Rightarrow> (peer_status \<Rightarrow> peer_status) \<Rightarrow> (string \<times> peer_status) list \<Rightarrow> (string \<times> peer_status) list" where
  "update_peer peer state f m = tput peer (f (get_or (peer_status_default peer state) m peer)) m"

definition record_connecting :: "string \<Rightarrow> (string \<times> peer_status) list \<Rightarrow> (string \<times> peer_status) list" where
  "record_connecting peer = update_peer peer ''configured'' (\<lambda>s. s\<lparr> ps_state := ''connecting'',
     ps_connect_attempts := sat_add (ps_connect_attempts s) 1 \<rparr>)"

definition record_connected :: "nat \<Rightarrow> string \<Rightarrow> (string \<times> peer_status) list \<Rightarrow> (string \<times> peer_status) list" where
  "record_connected now_ms peer = update_peer peer '''' (\<lambda>s. s\<lparr> ps_state := ''connected'',
     ps_last_connected_unix_ms := Some now_ms, ps_last_error := None \<rparr>)"

definition record_payload :: "nat \<Rightarrow> string \<Rightarrow> nat \<Rightarrow> (string \<times> peer_status) list \<Rightarrow> (string \<times> peer_status) list" where
  "record_payload now_ms peer bytes = update_peer peer '''' (\<lambda>s. s\<lparr> ps_payloads := sat_add (ps_payloads s) 1,
     ps_bytes := sat_add (ps_bytes s) bytes, ps_last_payload_unix_ms := Some now_ms \<rparr>)"

definition record_disconnected :: "string \<Rightarrow> string option \<Rightarrow> (string \<times> peer_status) list \<Rightarrow> (string \<times> peer_status) list" where
  "record_disconnected peer err = update_peer peer '''' (\<lambda>s. s\<lparr>
     ps_state := (if err \<noteq> None then ''error'' else ''disconnected''),
     ps_disconnects := sat_add (ps_disconnects s) 1, ps_last_error := err \<rparr>)"

definition monitor_snapshot :: "(string \<times> peer_status) list \<Rightarrow> peer_status list" where
  "monitor_snapshot m = sort_key ps_peer (vals m)"

section \<open>Control commands\<close>

datatype control_kind = ProvisionNode | CloseNode | WarmStream | ReplicaRequest

record control_request =
  cr_node_id :: "string option"
  cr_region :: "string option"
  cr_stream_id :: "u64 option"

record control_command =
  cc_id :: nat
  cc_kind :: control_kind
  cc_node_id :: "string option"
  cc_region :: "string option"
  cc_stream_id :: "u64 option"
  cc_stream_id_text :: "string option"
  cc_target_text :: string
  cc_created_unix_ms :: nat
  cc_status :: string

text \<open>\<open>stream_text\<close> prints a stream identifier.\<close>

fun join_parts :: "string list \<Rightarrow> string" where
  "join_parts [] = []"
| "join_parts [p] = p"
| "join_parts (p # ps) = p @ '' / '' @ join_parts ps"

definition named_part :: "string \<Rightarrow> string option \<Rightarrow> string list" where
  "named_part label v = (case v of None \<Rightarrow> [] | Some s \<Rightarrow> if s = [] then [] else [label @ s])"

definition control_request_target_text :: "(u64 \<Rightarrow> string) \<Rightarrow> control_request \<Rightarrow> string" where
  "control_request_target_text stream_text request =
     (let parts = named_part ''node '' (cr_node_id request) @ named_part ''region '' (cr_region request) @
            (case cr_stream_id request of None \<Rightarrow> [] | Some sid \<Rightarrow> [''stream '' @ stream_text sid])
      in if parts = [] then ''global'' else join_parts parts)"

text \<open>The identifier of a command is the time at which it is recorded.\<close>

definition record_command ::
  "(u64 \<Rightarrow> string) \<Rightarrow> control_kind \<Rightarrow> control_request \<Rightarrow> nat \<Rightarrow> nat \<Rightarrow> control_command list
     \<Rightarrow> control_command list \<times> control_command" where
  "record_command stream_text kind request now_ms created_ms commands =
     (let command = \<lparr> cc_id = now_ms, cc_kind = kind, cc_node_id = cr_node_id request, cc_region = cr_region request,
            cc_stream_id = cr_stream_id request, cc_stream_id_text = map_option stream_text (cr_stream_id request),
            cc_target_text = control_request_target_text stream_text request,
            cc_created_unix_ms = created_ms, cc_status = ''accepted'' \<rparr>;
          pushed = commands @ [command]
      in (if 128 < length pushed then drop (length pushed - 128) pushed else pushed, command))"

definition recent_commands :: "control_command list \<Rightarrow> control_command list" where
  "recent_commands commands = take 16 (rev commands)"

fun replace_command :: "control_command \<Rightarrow> control_command list \<Rightarrow> control_command list" where
  "replace_command command [] = []"
| "replace_command command (x # xs) = (if cc_id x = cc_id command then command # xs else x # replace_command command xs)"

section \<open>Stale nodes\<close>

datatype 's telemetry_op = Ingested "'s mesh_snapshot" | Viewed nat "'s mesh_snapshot"

fun telemetry_step :: "'s telemetry_op \<Rightarrow> 's aggregator \<Rightarrow> 's aggregator" where
  "telemetry_step (Ingested s) a = ingest_snapshot s a"
| "telemetry_step (Viewed now_ms local) a = fst (snapshots_with_local now_ms local a)"

definition telemetry_run :: "nat \<Rightarrow> 's telemetry_op list \<Rightarrow> 's aggregator" where
  "telemetry_run stale_after_ms ops = fold telemetry_step ops (aggregator_new stale_after_ms)"

text \<open>Every snapshot stands under its node, no node is stale twice or both stale and fresh, and the stale
  ones are in order and no more than 32.\<close>

definition telemetry_ok :: "'s aggregator \<Rightarrow> bool" where
  "telemetry_ok a \<longleftrightarrow> table_ok (ag_snapshots a) \<and> (\<forall>(k, s) \<in> set (ag_snapshots a). ms_node_id s = k) \<and>
     distinct (map nh_node_id (ag_stale_nodes a)) \<and>
     set (map nh_node_id (ag_stale_nodes a)) \<inter> set (keys (ag_snapshots a)) = {} \<and>
     sorted (map stale_order (ag_stale_nodes a)) \<and> length (ag_stale_nodes a) \<le> 32"

lemma remember_stale_node_ids:
  "set (map nh_node_id (remember_stale_node xs n)) = insert (nh_node_id n) (set (map nh_node_id xs))"
  "distinct (map nh_node_id xs) \<Longrightarrow> distinct (map nh_node_id (remember_stale_node xs n))"
  by (induction xs n rule: remember_stale_node.induct) (auto simp del: set_map simp add: set_map [symmetric])

lemma remember_fold_ids:
  "set (map nh_node_id (foldl remember_stale_node xs ns)) = set (map nh_node_id xs) \<union> set (map nh_node_id ns) \<and>
   (distinct (map nh_node_id xs) \<longrightarrow> distinct (map nh_node_id (foldl remember_stale_node xs ns)))"
proof (induction ns arbitrary: xs)
  case (Cons n ns)
  then show ?case
    using remember_stale_node_ids [of xs n] by auto
qed simp

lemma remember_stale_nodes_ok:
  assumes "distinct (map nh_node_id xs)"
  shows "distinct (map nh_node_id (remember_stale_nodes ns xs))" "sorted (map stale_order (remember_stale_nodes ns xs))"
    "length (remember_stale_nodes ns xs) \<le> 32"
    "set (map nh_node_id (remember_stale_nodes ns xs)) \<subseteq> set (map nh_node_id xs) \<union> set (map nh_node_id ns)"
proof -
  let ?l = "sort_key stale_order (foldl remember_stale_node xs ns)"
  have ids: "mset (map nh_node_id ?l) = mset (map nh_node_id (foldl remember_stale_node xs ns))"
    by simp
  then have "distinct (map nh_node_id ?l)" and set: "set (map nh_node_id ?l) = set (map nh_node_id xs) \<union> set (map nh_node_id ns)"
    using remember_fold_ids [of xs ns] assms by (metis mset_eq_imp_distinct_iff, metis mset_eq_setD)
  then show "distinct (map nh_node_id (remember_stale_nodes ns xs))"
    unfolding remember_stale_nodes_def take_map [symmetric] by (intro distinct_take)
  show "sorted (map stale_order (remember_stale_nodes ns xs))"
    unfolding remember_stale_nodes_def take_map [symmetric] by (intro sorted_wrt_take) simp
  show "length (remember_stale_nodes ns xs) \<le> 32"
    by (simp add: remember_stale_nodes_def)
  show "set (map nh_node_id (remember_stale_nodes ns xs)) \<subseteq> set (map nh_node_id xs) \<union> set (map nh_node_id ns)"
    unfolding remember_stale_nodes_def take_map [symmetric] set [symmetric] by (rule set_take_subset)
qed

text \<open>The fresh snapshots of a view, and the stale ones.\<close>

lemma fresh_snapshots:
  assumes "telemetry_ok a" "fresh = retain (\<lambda>_ s. \<not> is_stale now a s) (ag_snapshots a)"
  shows "table_ok fresh" "set fresh = {(k, s) \<in> set (ag_snapshots a). \<not> is_stale now a s}"
    and "\<lbrakk>s \<in> set (vals (ag_snapshots a)); is_stale now a s\<rbrakk> \<Longrightarrow> ms_node_id s \<notin> set (keys fresh)"
proof -
  show ok: "table_ok fresh"
    using assms by (simp add: telemetry_ok_def)
  show fresh: "set fresh = {(k, s) \<in> set (ag_snapshots a). \<not> is_stale now a s}"
    using assms(2) by (auto simp: retain_def)
  assume s: "s \<in> set (vals (ag_snapshots a))" "is_stale now a s"
  show "ms_node_id s \<notin> set (keys fresh)"
  proof
    assume "ms_node_id s \<in> set (keys fresh)"
    then obtain t where t: "(ms_node_id s, t) \<in> set (ag_snapshots a)" "\<not> is_stale now a t"
      using fresh by auto
    have "(ms_node_id s, s) \<in> set (ag_snapshots a)"
      using s(1) assms(1) by (auto simp: telemetry_ok_def)
    then have "s = t"
      using eq_key_imp_eq_value [OF _ _ t(1)] assms(1) by (auto simp: telemetry_ok_def)
    then show False
      using t(2) s(2) by simp
  qed
qed

lemma telemetry_ok_view:
  assumes "telemetry_ok a"
  shows "telemetry_ok (fst (snapshots_with_local now local a))"
proof -
  define fresh where "fresh = retain (\<lambda>_ s. \<not> is_stale now a s) (ag_snapshots a)"
  define stale where "stale = map (node_health_from now) (filter (is_stale now a) (vals (ag_snapshots a)))"
  define nodes where "nodes = (if stale \<noteq> [] then remember_stale_nodes stale (ag_stale_nodes a) else ag_stale_nodes a)"
  note f = fresh_snapshots [OF assms fresh_def]
  have stale_ids: "set (map nh_node_id stale) \<inter> set (keys fresh) = {}"
    using f(3) by (auto simp: stale_def node_health_from_def)
  have old_ids: "set (map nh_node_id (ag_stale_nodes a)) \<inter> set (keys fresh) = {}"
    using assms f(2) by (auto simp: telemetry_ok_def)
  have "distinct (map nh_node_id nodes) \<and> sorted (map stale_order nodes) \<and> length nodes \<le> 32 \<and>
      set (map nh_node_id nodes) \<subseteq> set (map nh_node_id (ag_stale_nodes a)) \<union> set (map nh_node_id stale)"
    using assms remember_stale_nodes_ok [of "ag_stale_nodes a" stale] by (simp add: nodes_def telemetry_ok_def)
  moreover have "\<forall>(k, s) \<in> set fresh. ms_node_id s = k"
    using assms f(2) by (auto simp: telemetry_ok_def)
  moreover from calculation have "set (map nh_node_id nodes) \<inter> set (keys fresh) = {}"
    using stale_ids old_ids by blast
  ultimately have "telemetry_ok (a\<lparr> ag_snapshots := fresh, ag_stale_nodes := nodes \<rparr>)"
    using f(1) by (simp add: telemetry_ok_def)
  then show ?thesis
    unfolding snapshots_with_local_def Let_def fst_conv fresh_def [symmetric] stale_def [symmetric] nodes_def [symmetric] .
qed

lemma telemetry_ok_ingest:
  assumes "telemetry_ok a"
  shows "telemetry_ok (ingest_snapshot s a)"
proof -
  have ok: "table_ok (ag_snapshots a)"
    using assms by (simp add: telemetry_ok_def)
  have "set (keys (tput (ms_node_id s) s (ag_snapshots a))) = insert (ms_node_id s) (set (keys (ag_snapshots a)))"
    using ok by (auto simp: ht.set_put set_tdel)
  moreover have "\<forall>(k, t) \<in> set (tput (ms_node_id s) s (ag_snapshots a)). ms_node_id t = k"
    using assms ok by (auto simp: telemetry_ok_def ht.set_put set_tdel)
  ultimately show ?thesis
    using assms ok
    by (auto simp: telemetry_ok_def ingest_snapshot_def ht.table_ok_put sorted_filter distinct_map_filter
        intro: le_trans [OF length_filter_le])
qed

lemma telemetry_ok_run: "telemetry_ok (telemetry_run n ops)"
proof (induction ops rule: rev_induct)
  case Nil
  then show ?case by (simp add: telemetry_run_def aggregator_new_def telemetry_ok_def)
next
  case (snoc op ops)
  then show ?case
    by (cases op) (simp_all add: telemetry_run_def telemetry_ok_ingest telemetry_ok_view)
qed



section \<open>The log of commands\<close>

text \<open>The log holds the last 128 commands.\<close>

lemma record_command_log:
  "fst (record_command tx kind request t t' commands) =
     drop (length commands - 127) (commands @ [snd (record_command tx kind request t t' commands)])"
  if "length commands \<le> 128"
  using that by (simp add: record_command_def Let_def)

lemma replace_command_own:
  assumes "distinct (map cc_id commands)" "commands = xs @ c # ys" "cc_id c' = cc_id c"
  shows "replace_command c' commands = xs @ c' # ys"
proof -
  have "\<forall>x \<in> set xs. cc_id x \<noteq> cc_id c'"
    using assms by (auto simp: image_iff)
  then show ?thesis
    unfolding assms(2) by (induction xs) (simp_all add: assms(3))
qed

text \<open>C36: Two commands that are recorded in the same millisecond have the same identifier, and the outcome of
  the second one replaces the first: the first command is lost from the log, and the second stays there
  as accepted besides its outcome.\<close>

theorem same_millisecond_commands_collide:
  assumes "length commands \<le> 126" "\<forall>c \<in> set commands. cc_id c \<noteq> t"
    and "record_command tx kind1 request1 t t1 commands = (log1, first)"
    and "record_command tx kind2 request2 t t2 log1 = (log2, second)"
  shows "log2 = commands @ [first, second] \<and>
    replace_command (second\<lparr> cc_status := outcome \<rparr>) log2 = commands @ [second\<lparr> cc_status := outcome \<rparr>, second]"
proof -
  have logs: "log1 = commands @ [first]" "log2 = log1 @ [second]" and ids: "cc_id first = t" "cc_id second = t"
    using assms(1,3,4) by (auto simp: record_command_def Let_def)
  have "replace_command c' (commands @ xs) = commands @ replace_command c' xs" if "cc_id c' = t" for c' xs
    using assms(2) that by (induction commands) auto
  then show ?thesis
    using logs ids by simp
qed

theorem same_millisecond_commands_collide_witness:
  "let request = (\<lambda>n. \<lparr> cr_node_id = Some n, cr_region = None, cr_stream_id = None \<rparr>);
       (log1, first) = record_command (\<lambda>_. []) CloseNode (request ''a'') 5 5 [];
       (log2, second) = record_command (\<lambda>_. []) CloseNode (request ''b'') 5 5 log1 in
   first \<in> set log2 \<and> first \<notin> set (replace_command (second\<lparr> cc_status := ''done'' \<rparr>) log2)"
proof -
  define request where "request = (\<lambda>n :: string. \<lparr> cr_node_id = Some n, cr_region = None, cr_stream_id = None \<rparr>)"
  obtain log1 first where r1: "record_command (\<lambda>_. []) CloseNode (request ''a'') 5 5 [] = (log1, first)"
    by (metis prod.collapse)
  obtain log2 second where r2: "record_command (\<lambda>_. []) CloseNode (request ''b'') 5 5 log1 = (log2, second)"
    by (metis prod.collapse)
  have "cc_node_id first = Some ''a''" "cc_node_id second = Some ''b''"
    using r1 r2 by (auto simp: record_command_def request_def Let_def)
  then show ?thesis
    unfolding Let_def request_def [symmetric]
    using same_millisecond_commands_collide [OF _ _ r1 r2, of "''done''"] by (auto simp: r1 r2 simp del: replace_command.simps)
qed

end
