(* ===== verification/Edge_Load.thy ===== *)
theory Edge_Load
  imports Edge_Admission Http_Requests Ingest_Node
begin

text \<open>
  The load that an edge reports about itself, in \<open>src/src/main.rs\<close>: the histogram of response times and its
  percentiles, the age of relayed objects when they become available, readers and served bytes, the recent
  responses (\<open>EdgeLoad\<close>, \<open>EdgeReadGuard\<close>, \<open>RelayAvailabilityTelemetry\<close>), and the limit on replica requests
  (\<open>DemandTracker\<close>).

  Counters are \<open>AtomicU64\<close> and wrap. Each call is one step. A duration is a number of nanoseconds.
\<close>

section \<open>Histograms\<close>

record histogram =
  h_count :: u64
  h_sum_us :: u64
  h_max_us :: u64
  h_buckets :: "u64 list"

definition histogram_default :: "nat list \<Rightarrow> histogram" where
  "histogram_default bounds = \<lparr> h_count = 0, h_sum_us = 0, h_max_us = 0, h_buckets = map (\<lambda>_. 0) bounds \<rparr>"

text \<open>\<open>Iterator::position\<close>.\<close>

fun position :: "('b \<Rightarrow> bool) \<Rightarrow> 'b list \<Rightarrow> nat option" where
  "position P [] = None"
| "position P (x # xs) = (if P x then Some 0 else map_option Suc (position P xs))"

text \<open>A response time is counted in the first bucket that holds it.\<close>

definition record_us :: "nat \<Rightarrow> histogram \<Rightarrow> histogram" where
  "record_us elapsed_us h =
     h\<lparr> h_count := h_count h + 1, h_sum_us := h_sum_us h + of_nat elapsed_us,
        h_max_us := max (h_max_us h) (of_nat elapsed_us),
        h_buckets := (case position (\<lambda>upper_bound_us. elapsed_us \<le> upper_bound_us) EDGE_RESPONSE_DURATION_BUCKETS_US of
           None \<Rightarrow> h_buckets h
         | Some index \<Rightarrow> (h_buckets h)[index := h_buckets h ! index + 1]) \<rparr>"

definition record_duration :: "nat \<Rightarrow> histogram \<Rightarrow> histogram \<times> nat" where
  "record_duration duration h =
     (let elapsed_us = min (duration div 1000) u64_max in (record_us elapsed_us h, elapsed_us))"

text \<open>The running sums of a snapshot.\<close>

fun cumulate :: "nat \<Rightarrow> u64 list \<Rightarrow> nat list" where
  "cumulate cumulative [] = []"
| "cumulate cumulative (bucket # buckets) =
     (let c = sat_add cumulative (unat bucket) in c # cumulate c buckets)"

definition histogram_percentile_upper_bound_us :: "nat \<Rightarrow> nat list \<Rightarrow> nat \<Rightarrow> nat \<Rightarrow> nat option" where
  "histogram_percentile_upper_bound_us samples buckets percentile max_us =
     (if samples = 0 then None
      else
       let rank = sat_add (sat_mul samples percentile) 99 div 100 in
       case position (\<lambda>bucket_count. rank \<le> bucket_count) buckets of
         Some index \<Rightarrow> Some (EDGE_RESPONSE_DURATION_BUCKETS_US ! index)
       | None \<Rightarrow> Some max_us)"

section \<open>The age of relayed objects\<close>

definition PUBLICATION_AVAILABILITY_BUCKETS_US :: "nat list" where
  "PUBLICATION_AVAILABILITY_BUCKETS_US =
     [1000, 2500, 5000, 10000, 25000, 50000, 75000, 100000, 125000, 150000, 175000, 200000, 250000, 500000,
      1000000, 2000000]"

text \<open>An age is counted in every bucket that holds it.\<close>

definition record_publication_us :: "nat \<Rightarrow> histogram \<Rightarrow> histogram" where
  "record_publication_us elapsed_us h =
     h\<lparr> h_count := h_count h + 1, h_sum_us := h_sum_us h + of_nat elapsed_us,
        h_max_us := max (h_max_us h) (of_nat elapsed_us),
        h_buckets := map2 (\<lambda>upper_bound_us n. if elapsed_us \<le> upper_bound_us then n + 1 else n)
          PUBLICATION_AVAILABILITY_BUCKETS_US (h_buckets h) \<rparr>"

record availability_telemetry =
  av_duration :: histogram
  av_clock_error_max_us :: u64
  av_unusable_clock_objects :: u64

definition availability_default :: availability_telemetry where
  "availability_default = \<lparr> av_duration = histogram_default PUBLICATION_AVAILABILITY_BUCKETS_US,
     av_clock_error_max_us = 0, av_unusable_clock_objects = 0 \<rparr>"

fun record_availability :: "availability_observation \<Rightarrow> availability_telemetry \<Rightarrow> availability_telemetry" where
  "record_availability (Measured elapsed_us clock_error_us) t =
     t\<lparr> av_duration := record_publication_us elapsed_us (av_duration t),
        av_clock_error_max_us := max (av_clock_error_max_us t) (of_nat clock_error_us) \<rparr>"
| "record_availability UnusableClock t =
     t\<lparr> av_unusable_clock_objects := av_unusable_clock_objects t + 1 \<rparr>"

section \<open>Readers and responses\<close>

record response_snapshot =
  rp_unix_ms :: nat
  rp_method :: bytes
  rp_path :: bytes
  rp_query :: "bytes option"
  rp_status :: nat
  rp_bytes :: nat
  rp_duration_us :: nat
  rp_content_type :: "bytes option"

record edge_load =
  el_active_readers :: u64
  el_requests_served :: u64
  el_bytes_served :: u64
  el_llhls_tail_requests :: u64
  el_responses_total :: u64
  el_response_errors :: u64
  el_response_not_found :: u64
  el_last_response_unix_ms :: nat
  el_response_duration :: histogram
  el_last_recent_success_unix_ms :: nat
  el_recent_responses :: "response_snapshot list"
  el_egress :: edge_admission

definition edge_load_new :: "edge_admission \<Rightarrow> edge_load" where
  "edge_load_new egress =
     \<lparr> el_active_readers = 0, el_requests_served = 0, el_bytes_served = 0, el_llhls_tail_requests = 0,
       el_responses_total = 0, el_response_errors = 0, el_response_not_found = 0, el_last_response_unix_ms = 0,
       el_response_duration = histogram_default EDGE_RESPONSE_DURATION_BUCKETS_US,
       el_last_recent_success_unix_ms = 0, el_recent_responses = [], el_egress = egress \<rparr>"

definition EDGE_RECENT_RESPONSE_LIMIT :: nat where "EDGE_RECENT_RESPONSE_LIMIT = 32"
definition EDGE_RECENT_SUCCESS_INTERVAL_MS :: nat where "EDGE_RECENT_SUCCESS_INTERVAL_MS = 100"

text \<open>A guard is the number of bytes it has recorded; dropping it ends the read.\<close>

definition begin_read :: "bool \<Rightarrow> edge_load \<Rightarrow> edge_load \<times> nat" where
  "begin_read llhls_tail l =
     (l\<lparr> el_active_readers := el_active_readers l + 1, el_requests_served := el_requests_served l + 1,
         el_llhls_tail_requests := el_llhls_tail_requests l + (if llhls_tail then 1 else 0) \<rparr>, 0)"

definition guard_record_bytes :: "nat \<Rightarrow> nat \<Rightarrow> nat \<Rightarrow> edge_load \<Rightarrow> edge_load \<times> nat" where
  "guard_record_bytes second bytes bytes_recorded l =
     (l\<lparr> el_bytes_served := el_bytes_served l + of_nat bytes, el_egress := record_bytes second bytes (el_egress l) \<rparr>,
      sat_add bytes_recorded bytes)"

definition guard_drop :: "edge_load \<Rightarrow> edge_load" where
  "guard_drop l = l\<lparr> el_active_readers := el_active_readers l - 1 \<rparr>"

text \<open>\<open>finish\<close> takes the guard, which is dropped at its end.\<close>

definition guard_finish :: "nat \<Rightarrow> nat \<Rightarrow> edge_load \<Rightarrow> edge_load" where
  "guard_finish bytes_served bytes_recorded l =
     guard_drop (l\<lparr> el_bytes_served := el_bytes_served l + of_nat (sat_sub bytes_served bytes_recorded) \<rparr>)"

definition is_error_status :: "nat \<Rightarrow> bool" where
  "is_error_status status \<longleftrightarrow> 400 \<le> status \<and> status < 600"

text \<open>A successful response is kept in detail at most every \<open>EDGE_RECENT_SUCCESS_INTERVAL_MS\<close>.\<close>

definition retain_success :: "nat \<Rightarrow> edge_load \<Rightarrow> edge_load \<times> bool" where
  "retain_success unix_ms l =
     (if el_last_recent_success_unix_ms l = 0 \<or>
         EDGE_RECENT_SUCCESS_INTERVAL_MS \<le> sat_sub unix_ms (el_last_recent_success_unix_ms l)
      then (l\<lparr> el_last_recent_success_unix_ms := unix_ms \<rparr>, True) else (l, False))"

text \<open>\<open>second\<close> is the second of the egress window; \<open>status\<close>, \<open>body\<close> and \<open>ctype\<close> come from the response.\<close>

definition record_response ::
  "nat \<Rightarrow> nat \<Rightarrow> bytes \<Rightarrow> bytes \<Rightarrow> bytes option \<Rightarrow> nat \<Rightarrow> bytes option \<Rightarrow> bytes option \<Rightarrow> nat \<Rightarrow> edge_load \<Rightarrow> edge_load" where
  "record_response second unix_ms meth path query status body ctype duration l =
     (let bytes = (case body of None \<Rightarrow> 0 | Some b \<Rightarrow> length b);
          l1 = (if meth \<noteq> ascii ''HEAD'' then l\<lparr> el_egress := record_bytes second bytes (el_egress l) \<rparr> else l);
          (h, elapsed_us) = record_duration duration (el_response_duration l1);
          l2 = l1\<lparr> el_response_duration := h, el_responses_total := el_responses_total l1 + 1,
                   el_response_errors := el_response_errors l1 + (if is_error_status status then 1 else 0),
                   el_response_not_found := el_response_not_found l1 + (if status = 404 then 1 else 0),
                   el_last_response_unix_ms := unix_ms \<rparr>;
          (l3, retain_detail) = (if is_error_status status then (l2, True) else retain_success unix_ms l2)
      in if \<not> retain_detail then l3
         else l3\<lparr> el_recent_responses := take EDGE_RECENT_RESPONSE_LIMIT
               (\<lparr> rp_unix_ms = unix_ms, rp_method = meth, rp_path = path, rp_query = sanitized_response_query query,
                  rp_status = status, rp_bytes = bytes, rp_duration_us = elapsed_us,
                  rp_content_type = ctype \<rparr> # el_recent_responses l3) \<rparr>)"

text \<open>What \<open>snapshot\<close> reads from the histogram.\<close>

definition response_duration_buckets :: "edge_load \<Rightarrow> nat list" where
  "response_duration_buckets l = cumulate 0 (h_buckets (el_response_duration l))"

definition response_duration_p95_us :: "edge_load \<Rightarrow> nat option" where
  "response_duration_p95_us l =
     histogram_percentile_upper_bound_us (unat (h_count (el_response_duration l))) (response_duration_buckets l) 95
       (unat (h_max_us (el_response_duration l)))"

record load_snapshot =
  lsn_active_readers :: nat
  lsn_requests_served :: nat
  lsn_bytes_served :: nat
  lsn_llhls_tail_requests :: nat
  lsn_responses_total :: nat
  lsn_response_errors :: nat
  lsn_response_not_found :: nat
  lsn_last_response_unix_ms :: "nat option"
  lsn_response_duration_count :: nat
  lsn_response_duration_sum_us :: nat
  lsn_response_duration_p95_us :: "nat option"
  lsn_response_duration_buckets :: "nat list"
  lsn_recent_responses :: "response_snapshot list"
  lsn_egress :: edge_snapshot

definition load_snapshot_default :: load_snapshot where
  "load_snapshot_default =
     \<lparr> lsn_active_readers = 0, lsn_requests_served = 0, lsn_bytes_served = 0, lsn_llhls_tail_requests = 0,
       lsn_responses_total = 0, lsn_response_errors = 0, lsn_response_not_found = 0, lsn_last_response_unix_ms = None,
       lsn_response_duration_count = 0, lsn_response_duration_sum_us = 0, lsn_response_duration_p95_us = None,
       lsn_response_duration_buckets = [], lsn_recent_responses = [],
       lsn_egress = \<lparr> snap_capacity_bps = 0, snap_observed_bps = 0, snap_admission_bps = 0, snap_recovery_bps = 0,
         snap_observation_seconds = 0, snap_window_seconds = 0, snap_overloaded = False, snap_rejected_requests = 0,
         snap_active_sessions = 0, snap_admitted_sessions = 0 \<rparr> \<rparr>"

text \<open>What \<open>snapshot\<close> reads; the egress part prunes sessions and keeps the state of overload.\<close>

definition load_snapshot_of :: "nat \<Rightarrow> nat \<Rightarrow> edge_load \<Rightarrow> edge_load \<times> load_snapshot" where
  "load_snapshot_of second elapsed_ms l =
     (let (egress, egress_snapshot) = snapshot_at second elapsed_ms (el_egress l) in
      (l\<lparr> el_egress := egress \<rparr>,
       \<lparr> lsn_active_readers = unat (el_active_readers l), lsn_requests_served = unat (el_requests_served l),
         lsn_bytes_served = unat (el_bytes_served l), lsn_llhls_tail_requests = unat (el_llhls_tail_requests l),
         lsn_responses_total = unat (el_responses_total l), lsn_response_errors = unat (el_response_errors l),
         lsn_response_not_found = unat (el_response_not_found l),
         lsn_last_response_unix_ms = (if el_last_response_unix_ms l = 0 then None else Some (el_last_response_unix_ms l)),
         lsn_response_duration_count = unat (h_count (el_response_duration l)),
         lsn_response_duration_sum_us = unat (h_sum_us (el_response_duration l)),
         lsn_response_duration_p95_us = response_duration_p95_us l,
         lsn_response_duration_buckets = response_duration_buckets l,
         lsn_recent_responses = el_recent_responses l, lsn_egress = egress_snapshot \<rparr>))"

section \<open>Replica requests\<close>

definition REPLICA_REQUEST_MIN_INTERVAL_MS :: nat where "REPLICA_REQUEST_MIN_INTERVAL_MS = 1000"

text \<open>The loop around \<open>compare_exchange_weak\<close>. The entry of the map is locked, so an exchange fails only
  spuriously and then observes the value that is there; \<open>fails k\<close> says whether the \<open>k\<close>-th exchange does.
  A loop that never ends is \<open>None\<close>.\<close>

partial_function (option) exchange_loop :: "(nat \<Rightarrow> bool) \<Rightarrow> nat \<Rightarrow> nat \<Rightarrow> nat \<Rightarrow> bool option" where
  "exchange_loop fails k now_ms last_ms =
     (if sat_sub now_ms last_ms < REPLICA_REQUEST_MIN_INTERVAL_MS then Some False
      else if fails k then exchange_loop fails (Suc k) now_ms last_ms
      else Some True)"

declare exchange_loop.simps [code]

definition should_request_replica ::
  "(nat \<Rightarrow> bool) \<Rightarrow> u64 \<Rightarrow> nat \<Rightarrow> (u64 \<times> nat) list \<Rightarrow> ((u64 \<times> nat) list \<times> bool) option" where
  "should_request_replica fails stream_id now_ms m =
     (case map_of m stream_id of
        None \<Rightarrow> Some (tput stream_id now_ms m, True)
      | Some last_ms \<Rightarrow>
          map_option (\<lambda>granted. (if granted then tput stream_id now_ms m else m, granted))
            (exchange_loop fails 0 now_ms last_ms))"

end
