(* ===== verification/Link_Telemetry.thy ===== *)
theory Link_Telemetry
  imports Http_Requests
begin

text \<open>
  What a node measures of the links from its parents, in \<open>src/src/link_telemetry.rs\<close>: the bytes that arrive
  from a parent's address, the round-trip times of the last probes, and the report made from them
  (\<open>LinkState\<close>, \<open>LinkTelemetry\<close>), with the reader of the output of \<open>ping\<close>.

  The operations of \<open>f64\<close> are an argument, \<open>float_ops\<close>: the model fixes which operations are applied to
  which values in which order and makes no assumption on their rounding. The type \<open>'i\<close> is an IP address.
  Probes that a task runs are events; \<open>run_probe\<close> records what the reader returns for the output of each.
\<close>

section \<open>State\<close>

record 'f float_ops =
  fl_zero :: 'f
  fl_add :: "'f \<Rightarrow> 'f \<Rightarrow> 'f"
  fl_sub :: "'f \<Rightarrow> 'f \<Rightarrow> 'f"
  fl_mul :: "'f \<Rightarrow> 'f \<Rightarrow> 'f"
  fl_div :: "'f \<Rightarrow> 'f \<Rightarrow> 'f"
  fl_abs :: "'f \<Rightarrow> 'f"
  fl_of_nat :: "nat \<Rightarrow> 'f"
  fl_parse :: "bytes \<Rightarrow> 'f option"

definition PROBE_WINDOW :: nat where "PROBE_WINDOW = 30"
definition FRESH_FOR_MS :: nat where "FRESH_FOR_MS = 10000"

datatype link_role = Primary | Secondary

fun link_role_text :: "link_role \<Rightarrow> string" where
  "link_role_text Primary = ''primary''"
| "link_role_text Secondary = ''secondary''"

record 'f link_observation =
  lo_from_node_id :: string
  lo_to_node_id :: string
  lo_role :: string
  lo_state :: string
  lo_method :: string
  lo_rtt_ms :: "'f option"
  lo_jitter_ms :: "'f option"
  lo_loss_percent :: 'f
  lo_throughput_bps :: nat
  lo_received_bytes_total :: nat
  lo_sample_count :: nat
  lo_observed_unix_ms :: nat
  lo_fresh_for_ms :: nat

record 'f probe_window =
  pw_samples :: "'f option list"
  pw_last_total_bytes :: nat
  pw_last_rate_sample_unix_ms :: nat
  pw_throughput_bps :: nat
  pw_observed_unix_ms :: nat

definition probe_window_default :: "'f probe_window" where
  "probe_window_default = \<lparr> pw_samples = [], pw_last_total_bytes = 0, pw_last_rate_sample_unix_ms = 0,
     pw_throughput_bps = 0, pw_observed_unix_ms = 0 \<rparr>"

record ('i, 'f) link_state =
  ls_from_node_id :: string
  ls_to_node_id :: string
  ls_role :: link_role
  ls_peer_ip :: 'i
  ls_received_bytes :: u64
  ls_probe :: "'f probe_window"

definition link_new :: "string \<Rightarrow> string \<Rightarrow> link_role \<Rightarrow> 'i \<times> nat \<Rightarrow> ('i, 'f) link_state" where
  "link_new from_node_id to_node_id role peer =
     \<lparr> ls_from_node_id = from_node_id, ls_to_node_id = to_node_id, ls_role = role, ls_peer_ip = fst peer,
       ls_received_bytes = 0, ls_probe = probe_window_default \<rparr>"

section \<open>Bytes and probes\<close>

definition link_record_bytes :: "'i \<times> nat \<Rightarrow> nat \<Rightarrow> ('i, 'f) link_state \<Rightarrow> ('i, 'f) link_state" where
  "link_record_bytes peer bytes l =
     (if fst peer = ls_peer_ip l then l\<lparr> ls_received_bytes := ls_received_bytes l + of_nat bytes \<rparr> else l)"

definition record_probe :: "'f option \<Rightarrow> nat \<Rightarrow> ('i, 'f) link_state \<Rightarrow> ('i, 'f) link_state" where
  "record_probe rtt_ms observed_unix_ms l =
     (let total_bytes = unat (ls_received_bytes l);
          probe = ls_probe l;
          samples = (if length (pw_samples probe) = PROBE_WINDOW then tl (pw_samples probe) else pw_samples probe) @ [rtt_ms];
          elapsed_ms = sat_sub observed_unix_ms (pw_last_rate_sample_unix_ms probe);
          throughput_bps =
            (if 0 < pw_last_rate_sample_unix_ms probe \<and> 0 < elapsed_ms
             then sat_mul (sat_mul (sat_sub total_bytes (pw_last_total_bytes probe)) 8) 1000 div elapsed_ms
             else pw_throughput_bps probe)
      in l\<lparr> ls_probe := \<lparr> pw_samples = samples, pw_last_total_bytes = total_bytes,
              pw_last_rate_sample_unix_ms = observed_unix_ms, pw_throughput_bps = throughput_bps,
              pw_observed_unix_ms = observed_unix_ms \<rparr> \<rparr>)"

definition fl_sum :: "'f float_ops \<Rightarrow> 'f list \<Rightarrow> 'f" where
  "fl_sum fl xs = foldl (fl_add fl) (fl_zero fl) xs"

text \<open>The differences of \<open>windows(2)\<close>.\<close>

fun jumps :: "'f float_ops \<Rightarrow> 'f list \<Rightarrow> 'f list" where
  "jumps fl (a # b # xs) = fl_abs fl (fl_sub fl b a) # jumps fl (b # xs)"
| "jumps fl _ = []"

definition link_snapshot :: "'f float_ops \<Rightarrow> ('i, 'f) link_state \<Rightarrow> 'f link_observation option" where
  "link_snapshot fl l =
     (let probe = ls_probe l in
      if pw_observed_unix_ms probe = 0 \<or> pw_samples probe = [] then None
      else
       let successful = List.map_filter (\<lambda>s. s) (pw_samples probe);
           rtt_ms = (if successful = [] then None
              else Some (fl_div fl (fl_sum fl successful) (fl_of_nat fl (length successful))));
           jitter_ms = (if length successful < 2 then None
              else Some (fl_div fl (fl_sum fl (jumps fl successful)) (fl_of_nat fl (length successful - 1))));
           loss_percent = fl_div fl (fl_mul fl (fl_of_nat fl 100)
              (fl_of_nat fl (sat_sub (length (pw_samples probe)) (length successful)))) (fl_of_nat fl (length (pw_samples probe)))
       in Some \<lparr> lo_from_node_id = ls_from_node_id l, lo_to_node_id = ls_to_node_id l, lo_role = link_role_text (ls_role l),
                 lo_state = (if successful = [] then ''unreachable'' else ''measured''),
                 lo_method = ''icmp_and_udp_ingress'', lo_rtt_ms = rtt_ms, lo_jitter_ms = jitter_ms,
                 lo_loss_percent = loss_percent, lo_throughput_bps = pw_throughput_bps probe,
                 lo_received_bytes_total = unat (ls_received_bytes l), lo_sample_count = length (pw_samples probe),
                 lo_observed_unix_ms = pw_observed_unix_ms probe, lo_fresh_for_ms = FRESH_FOR_MS \<rparr>)"

section \<open>The two links of a node\<close>

record ('i, 'f) link_telemetry =
  lt_primary :: "('i, 'f) link_state option"
  lt_secondary :: "('i, 'f) link_state option"

definition link_telemetry_new ::
  "string \<Rightarrow> (string \<times> 'i \<times> nat) option \<Rightarrow> (string \<times> 'i \<times> nat) option \<Rightarrow> ('i, 'f) link_telemetry" where
  "link_telemetry_new to_node_id primary secondary =
     \<lparr> lt_primary = map_option (\<lambda>(from_id, peer). link_new from_id to_node_id Primary peer) primary,
       lt_secondary = map_option (\<lambda>(from_id, peer). link_new from_id to_node_id Secondary peer) secondary \<rparr>"

definition record_primary_bytes :: "'i \<times> nat \<Rightarrow> nat \<Rightarrow> ('i, 'f) link_telemetry \<Rightarrow> ('i, 'f) link_telemetry" where
  "record_primary_bytes peer bytes t = t\<lparr> lt_primary := map_option (link_record_bytes peer bytes) (lt_primary t) \<rparr>"

definition record_secondary_bytes :: "'i \<times> nat \<Rightarrow> nat \<Rightarrow> ('i, 'f) link_telemetry \<Rightarrow> ('i, 'f) link_telemetry" where
  "record_secondary_bytes peer bytes t = t\<lparr> lt_secondary := map_option (link_record_bytes peer bytes) (lt_secondary t) \<rparr>"

definition links_snapshot :: "'f float_ops \<Rightarrow> ('i, 'f) link_telemetry \<Rightarrow> 'f link_observation list" where
  "links_snapshot fl t =
     List.map_filter (\<lambda>l. Option.bind l (link_snapshot fl)) [lt_primary t, lt_secondary t]"

section \<open>The output of ping\<close>

text \<open>\<open>split_whitespace\<close>: \<open>cur\<close> is the word that has begun.\<close>

function split_whitespace :: "bytes \<Rightarrow> bytes \<Rightarrow> bytes list" where
  "split_whitespace cur s =
     (let flush = (if cur = [] then [] else [cur]) in
      if s = [] then flush
      else if is_white_space (take 1 s) then flush @ split_whitespace [] (drop 1 s)
      else if is_white_space (take 2 s) then flush @ split_whitespace [] (drop 2 s)
      else if is_white_space (take 3 s) then flush @ split_whitespace [] (drop 3 s)
      else split_whitespace (cur @ [hd s]) (tl s))"
  by pat_completeness auto
termination
  by (relation "measure (length \<circ> snd)")
    (auto simp: length_greater_0_conv [symmetric] simp del: length_greater_0_conv)

declare split_whitespace.simps [simp del]

text \<open>\<open>lines\<close>: a last line that is empty is left out, as is a carriage return before the line feed.\<close>

definition str_lines :: "bytes \<Rightarrow> bytes list" where
  "str_lines s =
     (let ls = split_on 10 s;
          closed = map (\<lambda>l. if l \<noteq> [] \<and> last l = 13 then butlast l else l) (butlast ls)
      in if last ls = [] then closed else closed @ [last ls])"

fun find_map :: "('a \<Rightarrow> 'b option) \<Rightarrow> 'a list \<Rightarrow> 'b option" where
  "find_map f [] = None"
| "find_map f (x # xs) = (case f x of Some y \<Rightarrow> Some y | None \<Rightarrow> find_map f xs)"

definition time_token :: "'f float_ops \<Rightarrow> bytes \<Rightarrow> 'f option" where
  "time_token fl token =
     Option.bind (case strip_prefix (ascii ''time='') token of
         None \<Rightarrow> strip_prefix (ascii ''time<'') token
       | Some value \<Rightarrow> Some value) (fl_parse fl)"

definition summary_line :: "'f float_ops \<Rightarrow> bytes \<Rightarrow> 'f option" where
  "summary_line fl line =
     Option.bind (split_once (ascii ''='') line) (\<lambda>(_, rest).
     Option.bind (strip_suffix (ascii '' ms'') (trim rest)) (\<lambda>values.
       (let fields = split_on 47 values in
        if 1 < length fields then fl_parse fl (fields ! 1) else None)))"

definition parse_ping_rtt_ms :: "'f float_ops \<Rightarrow> bytes \<Rightarrow> 'f option" where
  "parse_ping_rtt_ms fl output =
     (case find_map (time_token fl) (split_whitespace [] output) of
        Some v \<Rightarrow> Some v
      | None \<Rightarrow> find_map (summary_line fl) (str_lines output))"

text \<open>One turn of \<open>run_probe\<close>: \<open>None\<close> is a command that could not be run.\<close>

definition probe_turn :: "'f float_ops \<Rightarrow> bytes option \<Rightarrow> nat \<Rightarrow> ('i, 'f) link_state \<Rightarrow> ('i, 'f) link_state" where
  "probe_turn fl output now_unix_ms l = record_probe (Option.bind output (parse_ping_rtt_ms fl)) now_unix_ms l"

section \<open>Reports are exact\<close>

datatype ('i, 'f) link_event = Received "'i \<times> nat" nat | Probed "'f option" nat

fun link_step :: "('i, 'f) link_event \<Rightarrow> ('i, 'f) link_state \<Rightarrow> ('i, 'f) link_state" where
  "link_step (Received peer bytes) l = link_record_bytes peer bytes l"
| "link_step (Probed rtt_ms t) l = record_probe rtt_ms t l"

definition link_run :: "string \<Rightarrow> string \<Rightarrow> link_role \<Rightarrow> 'i \<times> nat \<Rightarrow> ('i, 'f) link_event list \<Rightarrow> ('i, 'f) link_state" where
  "link_run from_id to_id role peer evs = fold link_step evs (link_new from_id to_id role peer)"

text \<open>What the events say: the bytes from an address, and the results of the probes.\<close>

fun event_bytes :: "'i \<Rightarrow> ('i, 'f) link_event \<Rightarrow> nat" where
  "event_bytes ip (Received peer n) = (if fst peer = ip then n else 0)"
| "event_bytes ip (Probed _ _) = 0"

definition bytes_from :: "'i \<Rightarrow> ('i, 'f) link_event list \<Rightarrow> nat" where
  "bytes_from ip evs = sum_list (map (event_bytes ip) evs)"

fun probe_result :: "('i, 'f) link_event \<Rightarrow> 'f option option" where
  "probe_result (Received _ _) = None"
| "probe_result (Probed rtt _) = Some rtt"

abbreviation probe_results :: "('i, 'f) link_event list \<Rightarrow> 'f option list" where
  "probe_results \<equiv> List.map_filter probe_result"

definition last_n :: "nat \<Rightarrow> 'a list \<Rightarrow> 'a list" where
  "last_n n xs = drop (length xs - n) xs"

lemma link_step_fixed [simp]:
  "ls_peer_ip (link_step e l) = ls_peer_ip l" "ls_from_node_id (link_step e l) = ls_from_node_id l"
  "ls_to_node_id (link_step e l) = ls_to_node_id l" "ls_role (link_step e l) = ls_role l"
  by (cases e; simp add: link_record_bytes_def record_probe_def Let_def)+

lemma link_fold_fixed [simp]:
  "ls_peer_ip (fold link_step evs l) = ls_peer_ip l"
  by (induction evs arbitrary: l) auto

lemma link_fold_bytes:
  "ls_received_bytes (fold link_step evs l) = ls_received_bytes l + of_nat (bytes_from (ls_peer_ip l) evs)"
proof (induction evs arbitrary: l)
  case (Cons e evs)
  have "ls_received_bytes (link_step e l) = ls_received_bytes l + of_nat (event_bytes (ls_peer_ip l) e)"
    by (cases e) (auto simp: link_record_bytes_def record_probe_def Let_def)
  then show ?case
    using Cons.IH [of "link_step e l"] by (simp add: bytes_from_def)
qed (simp add: bytes_from_def)

lemma last_n_snoc:
  "last_n n (xs @ [x]) = (if length (last_n n xs) = n then tl (last_n n xs) else last_n n xs) @ [x]" if "0 < n"
proof (cases "n \<le> length xs")
  case True
  then have "Suc (length xs) - n = Suc (length xs - n)"
    by (rule Suc_diff_le)
  then show ?thesis
    using True that by (simp add: last_n_def tl_drop drop_Suc [symmetric] drop_tl)
next
  case False
  then show ?thesis
    by (simp add: last_n_def)
qed

lemma link_run_samples:
  "pw_samples (ls_probe (link_run from_id to_id role peer evs)) = last_n PROBE_WINDOW (probe_results evs)"
proof (induction evs rule: rev_induct)
  case Nil
  then show ?case
    by (simp add: link_run_def link_new_def probe_window_default_def last_n_def map_filter_simps)
next
  case (snoc e evs)
  then show ?case
  proof (cases e)
    case (Received p n)
    then show ?thesis
      using snoc by (simp add: link_run_def link_record_bytes_def List.map_filter_def)
  next
    case (Probed rtt t)
    have "probe_results (evs @ [e]) = probe_results evs @ [rtt]"
      by (simp add: Probed List.map_filter_def)
    moreover have "0 < PROBE_WINDOW"
      by (simp add: PROBE_WINDOW_def)
    ultimately show ?thesis
      using snoc by (simp add: Probed link_run_def record_probe_def Let_def last_n_snoc)
  qed
qed

text \<open>Events without a probe leave the window as it is.\<close>

lemma link_fold_quiet: "probe_results evs = [] \<Longrightarrow> ls_probe (fold link_step evs l) = ls_probe l"
proof (induction evs arbitrary: l)
  case (Cons e evs)
  then show ?case
    by (cases e) (auto simp: link_record_bytes_def List.map_filter_def)
qed simp

lemma all_lost: "xs \<noteq> [] \<Longrightarrow> List.map_filter (\<lambda>s. s) xs = [] \<longleftrightarrow> set xs = {None}"
  by (cases xs) (auto simp: List.map_filter_def filter_empty_conv)

text \<open>A link report is exact. After any run in which the link was probed at two times and no more since,
  the report counts the bytes from the parent's address and from no other, the rate is that of the bytes
  between the two probes, and the samples behind the averages are the last thirty results of probes,
  lost ones included; the link is called unreachable exactly if all of them were lost.\<close>

theorem link_report_exact:
  assumes "evs = pre @ Probed r1 t1 # mid @ Probed r2 t2 # post" "probe_results mid = []" "probe_results post = []"
    and "0 < t1" "t1 < t2" "8000 * bytes_from (fst peer) evs \<le> u64_max"
  shows "\<exists>obs. link_snapshot fl (link_run from_id to_id role peer evs) = Some obs \<and>
    lo_received_bytes_total obs = bytes_from (fst peer) evs \<and>
    lo_throughput_bps obs = 8000 * bytes_from (fst peer) mid div (t2 - t1) \<and>
    lo_observed_unix_ms obs = t2 \<and>
    lo_sample_count obs = min PROBE_WINDOW (length (probe_results evs)) \<and>
    (lo_state obs = ''unreachable'' \<longleftrightarrow> set (last_n PROBE_WINDOW (probe_results evs)) = {None})"
proof -
  let ?l = "link_run from_id to_id role peer evs"
  define l1 where "l1 = fold link_step mid (record_probe r1 t1 (fold link_step pre (link_new from_id to_id role peer)))"
  define b1 where "b1 = ls_received_bytes (fold link_step pre (link_new from_id to_id role peer :: ('a, 'b) link_state))"
  have total: "bytes_from (fst peer) evs = bytes_from (fst peer) pre + bytes_from (fst peer) mid + bytes_from (fst peer) post"
    using assms(1) by (simp add: bytes_from_def)
  have small: "unat (of_nat n :: u64) = n" if "n \<le> bytes_from (fst peer) evs" for n
    using that assms(6) by (simp add: unat_of_nat take_bit_nat_eq_self u64_max_def)
  have b1: "unat b1 = bytes_from (fst peer) pre"
    using total by (simp add: b1_def link_fold_bytes link_new_def small)
  have before: "pw_last_rate_sample_unix_ms (ls_probe l1) = t1" "pw_last_total_bytes (ls_probe l1) = bytes_from (fst peer) pre"
    using assms(2) b1 by (simp_all add: l1_def link_fold_quiet record_probe_def Let_def b1_def)
  have "ls_received_bytes l1 = b1 + of_nat (bytes_from (fst peer) mid)"
    by (simp add: l1_def link_fold_bytes record_probe_def Let_def b1_def link_new_def)
  then have bytes: "unat (ls_received_bytes l1) = bytes_from (fst peer) pre + bytes_from (fst peer) mid"
    using total small [of "bytes_from (fst peer) pre + bytes_from (fst peer) mid"]
    by (simp add: b1_def link_fold_bytes link_new_def)
  have run: "?l = fold link_step post (record_probe r2 t2 l1)"
    by (simp add: link_run_def l1_def assms(1))
  then have probe: "ls_probe ?l = ls_probe (record_probe r2 t2 l1)"
    using assms(3) by (simp add: link_fold_quiet)
  have rate: "pw_throughput_bps (ls_probe ?l) = 8000 * bytes_from (fst peer) mid div (t2 - t1)" "pw_observed_unix_ms (ls_probe ?l) = t2"
    using before bytes assms(4-6) total unfolding probe by (simp_all add: record_probe_def Let_def sat_mul_def)
  have received: "unat (ls_received_bytes ?l) = bytes_from (fst peer) evs"
    by (simp add: link_run_def link_fold_bytes link_new_def small)
  have samples: "pw_samples (ls_probe ?l) = last_n PROBE_WINDOW (probe_results evs)"
    by (rule link_run_samples)
  moreover have "probe_results evs \<noteq> []"
    by (simp add: assms(1) List.map_filter_def)
  moreover have "last_n PROBE_WINDOW (probe_results evs) \<noteq> []"
    using \<open>probe_results evs \<noteq> []\<close> by (cases "probe_results evs") (auto simp: last_n_def PROBE_WINDOW_def)
  ultimately show ?thesis
    using rate received assms(4,5) by (simp add: link_snapshot_def Let_def all_lost) (simp add: last_n_def)
qed

definition int_floats :: "int float_ops" where
  "int_floats = \<lparr> fl_zero = 0, fl_add = (+), fl_sub = (-), fl_mul = (*), fl_div = (div), fl_abs = abs, fl_of_nat = int,
     fl_parse = (\<lambda>s. map_option int (parse_u64 s)) \<rparr>"

theorem link_report_exact_witness:
  "\<exists>obs. link_snapshot int_floats (link_run ''a'' ''b'' Primary (1 :: nat, 12001)
       [Received (1, 9) 500, Probed (Some 10) 1000, Received (1, 12001) 2000, Received (2, 12001) 700, Probed None 3000]) = Some obs \<and>
     lo_received_bytes_total obs = 2500 \<and> lo_throughput_bps obs = 8000 \<and> lo_sample_count obs = 2 \<and> lo_state obs \<noteq> ''unreachable''"
proof -
  let ?mid = "[Received (1 :: nat, 12001) 2000, Received (2, 12001) 700] :: (nat, int) link_event list"
  let ?evs = "[Received (1, 9) 500] @ Probed (Some 10) 1000 # ?mid @ Probed None 3000 # []"
  have "probe_results ?mid = []" "probe_results ([] :: (nat, int) link_event list) = []"
    "bytes_from 1 ?evs = 2500" "bytes_from 1 ?mid = 2000" "probe_results ?evs = [Some 10, None]"
    by (simp_all add: List.map_filter_def bytes_from_def)
  then obtain obs where "link_snapshot int_floats (link_run ''a'' ''b'' Primary (1, 12001) ?evs) = Some obs"
    "lo_received_bytes_total obs = 2500" "lo_throughput_bps obs = 8000" "lo_sample_count obs = 2" "lo_state obs \<noteq> ''unreachable''"
    using link_report_exact [OF refl, of ?mid "[]" 1000 3000 "(1, 12001)" "[Received (1, 9) 500]" "Some 10" None
        int_floats "''a''" "''b''" Primary]
    by (auto simp: u64_max_def PROBE_WINDOW_def last_n_def)
  then show ?thesis
    by (intro exI [of _ obs]) simp
qed

text \<open>The words of a reply that name its time.\<close>

lemma time_token_reply:
  "time_token fl (ascii ''time='' @ v) = fl_parse fl v" "time_token fl (ascii ''time<'' @ v) = fl_parse fl v"
  by (simp_all add: time_token_def strip_prefix_def starts_with_def ascii_def)

text \<open>The primary link is reported first, and each link under its role.\<close>

lemma links_in_order:
  "links_snapshot fl t =
     (case Option.bind (lt_primary t) (link_snapshot fl) of None \<Rightarrow> [] | Some obs \<Rightarrow> [obs]) @
     (case Option.bind (lt_secondary t) (link_snapshot fl) of None \<Rightarrow> [] | Some obs \<Rightarrow> [obs])"
  by (auto simp: links_snapshot_def List.map_filter_def split: option.splits)

end
