(* ===== verification/Mesh_Report.thy ===== *)
theory Mesh_Report
  imports Mesh_Telemetry Edge_Load Link_Telemetry Replica_Placement
begin

text \<open>
  What a node tells its operators about the mesh, in \<open>src/src/main.rs\<close>: the report of one node
  (\<open>MeshSnapshot\<close>), the lag of streams, and \<open>MeshApiSnapshot::from_snapshots\<close>, which joins the reports of all
  nodes, orders their links and derives alerts and activity.

  Of the records, the fields that this code computes with are modelled; counters that it only copies are left
  out. \<open>private_target\<close> stands for the reader of IP addresses in \<open>is_private_mesh_target\<close>, and \<open>hashed\<close> for the
  order in which a hash map is iterated. A string is a list of characters of one byte.
\<close>

section \<open>Text\<close>

definition chars :: "bytes \<Rightarrow> string" where
  "chars bs = map (\<lambda>b. char_of (unat b)) bs"

abbreviation dec :: "nat \<Rightarrow> string" where
  "dec n \<equiv> chars (decimal n)"

abbreviation stream_text :: "u64 \<Rightarrow> string" where
  "stream_text sid \<equiv> dec (unat sid)"

definition lower_char :: "char \<Rightarrow> char" where
  "lower_char c = (if 65 \<le> (of_char c :: nat) \<and> (of_char c :: nat) \<le> 90 then char_of ((of_char c :: nat) + 32) else c)"

definition to_ascii_lowercase :: "string \<Rightarrow> string" where
  "to_ascii_lowercase s = map lower_char s"

definition str_contains :: "string \<Rightarrow> string \<Rightarrow> bool" where
  "str_contains pat s = list_ex (\<lambda>n. take (length pat) (drop n s) = pat) [0..<Suc (length s)]"

text \<open>\<open>max_by_key\<close>: the last of the greatest elements.\<close>

fun max_by_key :: "('a \<Rightarrow> 'b::linorder) \<Rightarrow> 'a list \<Rightarrow> 'a option" where
  "max_by_key f [] = None"
| "max_by_key f (x # xs) = (case max_by_key f xs of None \<Rightarrow> Some x | Some y \<Rightarrow> if f y < f x then Some x else Some y)"

text \<open>\<open>dedup_by_key\<close>: of neighbours with the same key the first.\<close>

fun dedup_by :: "('a \<Rightarrow> 'k) \<Rightarrow> 'a list \<Rightarrow> 'a list" where
  "dedup_by f [] = []"
| "dedup_by f [x] = [x]"
| "dedup_by f (x # y # xs) = (if f y = f x then dedup_by f (x # xs) else x # dedup_by f (y # xs))"

section \<open>Constants\<close>

definition MESH_STORAGE_WARN_PCT :: nat where "MESH_STORAGE_WARN_PCT = 85"
definition MESH_STORAGE_ERROR_PCT :: nat where "MESH_STORAGE_ERROR_PCT = 95"
definition MESH_MIN_STALE_INGEST_ALERT_MS :: nat where "MESH_MIN_STALE_INGEST_ALERT_MS = 5000"
definition MESH_STREAM_LAG_WARN_PARTS :: nat where "MESH_STREAM_LAG_WARN_PARTS = 6"
definition CANONICAL_EPOCH_ACTIVATION_WARN_US :: nat where "CANONICAL_EPOCH_ACTIVATION_WARN_US = 10000000"
definition RELAY_PROCESSING_P95_WARN_US :: nat where "RELAY_PROCESSING_P95_WARN_US = 1000"
definition MESH_ACTIVITY_LIMIT :: nat where "MESH_ACTIVITY_LIMIT = 64"

section \<open>Streams\<close>

record stats_snapshot =
  ss_stream_id :: u64
  ss_stream_id_text :: string
  ss_part_target_ms :: nat
  ss_parts_per_segment :: nat
  ss_window_parts :: nat
  ss_datagrams_received :: nat
  ss_bytes_received :: nat
  ss_current_part_bytes :: nat
  ss_latest_local_part :: "nat option"
  ss_latest_local_part_bytes :: "nat option"
  ss_latest_local_part_duration_ms :: "nat option"
  ss_latest_mesh_part :: "nat option"
  ss_canonical_epoch :: "nat option"
  ss_canonical_epoch_activation_delay_us :: "nat option"
  ss_contiguous_object :: "nat option"
  ss_head_object :: "nat option"
  ss_gap_count :: "nat option"
  ss_mesh_peers :: "string list"
  ss_latest_local_part_age_ms :: "nat option"
  ss_last_ingest_age_ms :: "nat option"

record stream_telemetry =
  sx_node_id :: string
  sx_stream_id :: u64
  sx_stream_id_text :: string
  sx_latest_local_part :: "nat option"
  sx_latest_local_part_bytes :: "nat option"
  sx_latest_local_part_duration_ms :: "nat option"
  sx_latest_local_part_age_ms :: "nat option"
  sx_latest_mesh_part :: "nat option"
  sx_canonical_epoch :: "nat option"
  sx_canonical_epoch_activation_delay_us :: "nat option"
  sx_contiguous_object :: "nat option"
  sx_head_object :: "nat option"
  sx_gap_count :: "nat option"
  sx_bytes_received :: nat
  sx_datagrams_received :: nat
  sx_last_ingest_age_ms :: "nat option"
  sx_stale_threshold_ms :: "nat option"
  sx_mesh_lag_parts :: "nat option"

definition stream_stale_threshold_ms :: "nat \<Rightarrow> nat \<Rightarrow> nat" where
  "stream_stale_threshold_ms part_ms parts =
     max (sat_mul part_ms parts) MESH_MIN_STALE_INGEST_ALERT_MS"

definition stream_from_stats :: "string \<Rightarrow> stats_snapshot \<Rightarrow> stream_telemetry" where
  "stream_from_stats node_id sn =
     \<lparr> sx_node_id = node_id, sx_stream_id = ss_stream_id sn, sx_stream_id_text = stream_text (ss_stream_id sn),
       sx_latest_local_part = ss_latest_local_part sn, sx_latest_local_part_bytes = ss_latest_local_part_bytes sn,
       sx_latest_local_part_duration_ms = ss_latest_local_part_duration_ms sn,
       sx_latest_local_part_age_ms = ss_latest_local_part_age_ms sn, sx_latest_mesh_part = ss_latest_mesh_part sn,
       sx_canonical_epoch = ss_canonical_epoch sn,
       sx_canonical_epoch_activation_delay_us = ss_canonical_epoch_activation_delay_us sn,
       sx_contiguous_object = ss_contiguous_object sn, sx_head_object = ss_head_object sn,
       sx_gap_count = ss_gap_count sn, sx_bytes_received = ss_bytes_received sn,
       sx_datagrams_received = ss_datagrams_received sn, sx_last_ingest_age_ms = ss_last_ingest_age_ms sn,
       sx_stale_threshold_ms = Some (stream_stale_threshold_ms (ss_part_target_ms sn) (ss_window_parts sn)),
       sx_mesh_lag_parts = None \<rparr>"

definition stream_active :: "stream_telemetry \<Rightarrow> bool" where
  "stream_active s \<longleftrightarrow> sx_latest_local_part s \<noteq> None \<or> sx_latest_mesh_part s \<noteq> None \<or> sx_head_object s \<noteq> None"

definition or_else :: "'a \<Rightarrow> 'a option \<Rightarrow> 'a" where
  "or_else d v = (case v of None \<Rightarrow> d | Some x \<Rightarrow> x)"

definition stream_stale :: "stream_telemetry \<Rightarrow> bool" where
  "stream_stale s \<longleftrightarrow> stream_active s \<and>
     (case sx_last_ingest_age_ms s of None \<Rightarrow> False
      | Some age_ms \<Rightarrow> or_else MESH_MIN_STALE_INGEST_ALERT_MS (sx_stale_threshold_ms s) < age_ms)"

definition latest_comparable_object :: "stream_telemetry \<Rightarrow> nat option" where
  "latest_comparable_object s =
     (case sx_contiguous_object s of None \<Rightarrow> sx_latest_mesh_part s | Some n \<Rightarrow> Some n)"

definition stream_lagging :: "stream_telemetry \<Rightarrow> bool" where
  "stream_lagging s \<longleftrightarrow> (case sx_mesh_lag_parts s of None \<Rightarrow> False | Some lag \<Rightarrow> MESH_STREAM_LAG_WARN_PARTS < lag)"

abbreviation lag_key :: "stream_telemetry \<Rightarrow> u64 \<times> nat option" where
  "lag_key s \<equiv> (sx_stream_id s, sx_canonical_epoch s)"

definition note_head :: "((u64 \<times> nat option) \<times> nat) list \<Rightarrow> stream_telemetry \<Rightarrow> ((u64 \<times> nat option) \<times> nat) list" where
  "note_head heads s =
     (case latest_comparable_object s of
        None \<Rightarrow> heads
      | Some part \<Rightarrow> tput (lag_key s) (case map_of heads (lag_key s) of None \<Rightarrow> part | Some head \<Rightarrow> max head part) heads)"

definition annotate_stream_lag :: "stream_telemetry list \<Rightarrow> stream_telemetry list" where
  "annotate_stream_lag streams =
     (let heads = foldl note_head [] streams in
      map (\<lambda>s. s\<lparr> sx_mesh_lag_parts := Option.bind (latest_comparable_object s)
            (\<lambda>part. map_option (\<lambda>head. sat_sub head part) (map_of heads (lag_key s))) \<rparr>) streams)"

text \<open>The epochs of each stream, a set as a list without repetitions.\<close>

definition note_epoch :: "(u64 \<times> nat list) list \<Rightarrow> stream_telemetry \<Rightarrow> (u64 \<times> nat list) list" where
  "note_epoch m s =
     (case sx_canonical_epoch s of
        None \<Rightarrow> m
      | Some epoch \<Rightarrow> tput (sx_stream_id s) (List.insert epoch (get_or [] m (sx_stream_id s))) m)"

definition stream_epochs :: "stream_telemetry list \<Rightarrow> (u64 \<times> nat list) list" where
  "stream_epochs streams = foldl note_epoch [] streams"

definition canonical_epoch_divergent_stream_count :: "stream_telemetry list \<Rightarrow> nat" where
  "canonical_epoch_divergent_stream_count streams =
     length (filter (\<lambda>epochs. 1 < length epochs) (vals (stream_epochs streams)))"

section \<open>The report of a node\<close>

record relay_session =
  rs_authenticated_sessions :: nat
  rs_controlled_sessions :: nat
  rs_processing_duration_count :: nat
  rs_processing_duration_max_us :: nat
  rs_processing_duration_buckets :: "nat list"

text \<open>\<open>relay_ingress_snapshot\<close> copies the histogram of processing times as it stands.\<close>

definition relay_ingress_snapshot :: "nat \<Rightarrow> nat \<Rightarrow> histogram \<Rightarrow> relay_session" where
  "relay_ingress_snapshot authenticated controlled processing =
     \<lparr> rs_authenticated_sessions = authenticated, rs_controlled_sessions = controlled,
       rs_processing_duration_count = unat (h_count processing), rs_processing_duration_max_us = unat (h_max_us processing),
       rs_processing_duration_buckets = map unat (h_buckets processing) \<rparr>"

record edge_service =
  es_node_id :: string
  es_region :: string
  es_continent :: string
  es_cache_mesh_role :: string
  es_playback_base_url :: "string option"
  es_active_readers :: nat
  es_requests_served :: nat
  es_bytes_served :: nat
  es_llhls_tail_requests :: nat
  es_responses_total :: nat
  es_response_errors :: nat
  es_response_not_found :: nat
  es_last_response_unix_ms :: "nat option"
  es_response_duration_count :: nat
  es_response_duration_sum_us :: nat
  es_response_duration_p95_us :: "nat option"
  es_response_duration_buckets :: "nat list"
  es_recent_responses :: "response_snapshot list"
  es_egress_capacity_bps :: nat
  es_egress_observed_bps :: nat
  es_egress_admission_bps :: nat
  es_egress_recovery_bps :: nat
  es_egress_observation_seconds :: nat
  es_egress_window_seconds :: nat
  es_egress_overloaded :: bool
  es_egress_rejected_requests :: nat
  es_active_playback_sessions :: nat
  es_admitted_playback_sessions :: nat
  es_draining :: bool

definition edge_service_from_node :: "'f mesh_node \<Rightarrow> string option \<Rightarrow> string \<Rightarrow> load_snapshot \<Rightarrow> edge_service" where
  "edge_service_from_node node playback_base_url cache_mesh_role load =
     \<lparr> es_node_id = mn_node_id node, es_region = mn_region node, es_continent = mn_continent node,
       es_cache_mesh_role = cache_mesh_role, es_playback_base_url = playback_base_url,
       es_active_readers = lsn_active_readers load, es_requests_served = lsn_requests_served load,
       es_bytes_served = lsn_bytes_served load, es_llhls_tail_requests = lsn_llhls_tail_requests load,
       es_responses_total = lsn_responses_total load, es_response_errors = lsn_response_errors load,
       es_response_not_found = lsn_response_not_found load, es_last_response_unix_ms = lsn_last_response_unix_ms load,
       es_response_duration_count = lsn_response_duration_count load,
       es_response_duration_sum_us = lsn_response_duration_sum_us load,
       es_response_duration_p95_us = lsn_response_duration_p95_us load,
       es_response_duration_buckets = lsn_response_duration_buckets load, es_recent_responses = lsn_recent_responses load,
       es_egress_capacity_bps = snap_capacity_bps (lsn_egress load), es_egress_observed_bps = snap_observed_bps (lsn_egress load),
       es_egress_admission_bps = snap_admission_bps (lsn_egress load), es_egress_recovery_bps = snap_recovery_bps (lsn_egress load),
       es_egress_observation_seconds = snap_observation_seconds (lsn_egress load),
       es_egress_window_seconds = snap_window_seconds (lsn_egress load), es_egress_overloaded = snap_overloaded (lsn_egress load),
       es_egress_rejected_requests = unat (snap_rejected_requests (lsn_egress load)),
       es_active_playback_sessions = snap_active_sessions (lsn_egress load),
       es_admitted_playback_sessions = unat (snap_admitted_sessions (lsn_egress load)),
       es_draining = mn_draining node \<rparr>"

definition fallback_for_node :: "'f mesh_node \<Rightarrow> edge_service" where
  "fallback_for_node node = edge_service_from_node node None ''edge'' load_snapshot_default"

text \<open>\<open>EdgeLoad::snapshot\<close>.\<close>

definition edge_load_snapshot ::
  "nat \<Rightarrow> nat \<Rightarrow> 'f mesh_node \<Rightarrow> string option \<Rightarrow> string \<Rightarrow> edge_load \<Rightarrow> edge_load \<times> edge_service" where
  "edge_load_snapshot second elapsed_ms node playback_base_url cache_mesh_role l =
     (let (l', load) = load_snapshot_of second elapsed_ms l in
      (l', edge_service_from_node node playback_base_url cache_mesh_role load))"

record 'f node_report =
  nr_node :: "'f mesh_node"
  nr_mesh_addr :: "string option"
  nr_edge_service :: "edge_service option"
  nr_relay_session :: relay_session
  nr_link_observations :: "'f link_observation list"
  nr_peers :: "(string \<times> string) list"
  nr_stream :: stats_snapshot
  nr_streams :: "stream_telemetry list"
  nr_recent_commands :: "control_command list"

definition snapshot_stream_for_id :: "'f node_report \<Rightarrow> u64 \<Rightarrow> stream_telemetry option" where
  "snapshot_stream_for_id r stream_id =
     (if nr_streams r = [] then
        if ss_stream_id (nr_stream r) = stream_id then Some (stream_from_stats (mn_node_id (nr_node r)) (nr_stream r)) else None
      else find (\<lambda>s. sx_stream_id s = stream_id) (nr_streams r))"

definition snapshot_stream_ids :: "'f node_report \<Rightarrow> u64 list" where
  "snapshot_stream_ids r =
     (if nr_streams r = [] then
        if ss_latest_local_part (nr_stream r) \<noteq> None \<or> ss_latest_mesh_part (nr_stream r) \<noteq> None
        then [ss_stream_id (nr_stream r)] else []
      else map sx_stream_id (filter stream_active (nr_streams r)))"

definition storage_percent :: "'f mesh_node \<Rightarrow> nat" where
  "storage_percent node =
     (if mn_total_storage_bytes node = 0 then 0
      else sat_mul (mn_used_storage_bytes node) 100 div mn_total_storage_bytes node)"

end
