(* ===== verification/Mesh_Alerts.thy ===== *)
theory Mesh_Alerts
  imports Mesh_Report
begin

text \<open>
  The alerts and the activity that a node derives from the joined reports, and the joining itself
  (\<open>derive_mesh_alerts\<close>, \<open>derive_mesh_activity\<close> and \<open>MeshApiSnapshot::from_snapshots\<close> of \<open>src/src/main.rs\<close>). One
  definition stands for each block of \<open>derive_mesh_alerts\<close> that may add alerts, in the order of the source.
\<close>

section \<open>Alerts\<close>

datatype level = Info | Warn | Error

record alert =
  al_level :: level
  al_code :: string
  al_message :: string
  al_count :: nat
  al_last_seen_unix_ms :: "nat option"
  al_node_id :: "string option"
  al_stream_id_text :: "string option"

definition mesh_alert :: "level \<Rightarrow> string \<Rightarrow> string \<Rightarrow> nat \<Rightarrow> nat option \<Rightarrow> string option \<Rightarrow> string option \<Rightarrow> alert" where
  "mesh_alert lv code message n last_seen node_id stream_id =
     \<lparr> al_level = lv, al_code = code, al_message = message, al_count = n, al_last_seen_unix_ms = last_seen,
       al_node_id = node_id, al_stream_id_text = stream_id \<rparr>"

record aggregate =
  ag_node_count :: nat
  ag_connection_count :: nat
  ag_total_storage_bytes :: nat
  ag_used_storage_bytes :: nat
  ag_total_egress_capacity_bps :: nat
  ag_contributor_streams :: nat
  ag_active_streams :: nat

record connection =
  cn_source_node_id :: string
  cn_target_addr :: string
  cn_target_node_id :: "string option"
  cn_state :: string
  cn_private_target :: bool

record relay_node =
  rn_node_id :: string
  rn_region :: string
  rn_relay_session :: relay_session

record provision_status =
  pv_backends :: "string list"
  pv_backend_states :: "string list"

definition reach_alerts :: "nat \<Rightarrow> aggregate \<Rightarrow> relay_session \<Rightarrow> alert list" where
  "reach_alerts now agg session =
     (if ag_node_count agg \<le> 1 then
        [mesh_alert Warn ''mesh_single_node''
           ''Only one mesh node is visible; failover and regional routing are not available.''
           (ag_node_count agg) (Some now) None None]
      else if ag_connection_count agg = 0 \<and> rs_controlled_sessions session = 0 \<and> rs_authenticated_sessions session = 0 then
        [mesh_alert Error ''mesh_no_links'' ''Multiple mesh nodes are visible, but no mesh links are currently reported.''
           (ag_node_count agg) (Some now) None None]
      else [])"

definition unknown_peer_alerts :: "nat \<Rightarrow> connection list \<Rightarrow> alert list" where
  "unknown_peer_alerts now connections =
     (let n = length (filter (\<lambda>c. cn_target_node_id c = None) connections) in
      if 0 < n then [mesh_alert Warn ''mesh_unknown_peers'' ''Some mesh peer addresses do not resolve to known node ids.''
        n (Some now) None None] else [])"

definition draining_alerts :: "nat \<Rightarrow> 'f mesh_node list \<Rightarrow> alert list" where
  "draining_alerts now nodes =
     (let n = length (filter mn_draining nodes) in
      if 0 < n then [mesh_alert Warn ''nodes_draining'' ''One or more mesh nodes are marked draining.'' n (Some now) None None]
      else [])"

definition playback_alerts :: "nat \<Rightarrow> edge_service list \<Rightarrow> alert list" where
  "playback_alerts now edges =
     (let n = length (filter (\<lambda>e. es_playback_base_url e = None) edges) in
      if 0 < n then [mesh_alert Warn ''edge_playback_missing''
        ''One or more nodes do not advertise a public LL-HLS playback base URL.'' n (Some now) None None] else [])"

text \<open>The sum of \<open>u64\<close> values wraps in a release build.\<close>

definition response_error_alerts :: "edge_service list \<Rightarrow> alert list" where
  "response_error_alerts edges =
     (let errors = sum_list (map es_response_errors edges) mod 2 ^ 64;
          recent = concat (map (\<lambda>e. map (Pair e) (filter (\<lambda>r. 400 \<le> rp_status r) (es_recent_responses e))) edges)
      in case max_by_key (\<lambda>(_, r). rp_unix_ms r) recent of
           None \<Rightarrow> []
         | Some (e, r) \<Rightarrow>
             [mesh_alert (if 500 \<le> rp_status r then Error else Warn) ''edge_response_errors''
                (''Edge playback/API paths have returned '' @ dec errors @ '' non-success response(s); latest was HTTP '' @
                 dec (rp_status r) @ '' for '' @ chars (rp_path r) @ ''.'')
                errors (Some (rp_unix_ms r)) (Some (es_node_id e)) None])"

definition storage_alerts :: "nat \<Rightarrow> 'f mesh_node list \<Rightarrow> alert list" where
  "storage_alerts now nodes =
     (let errors = length (filter (\<lambda>n. MESH_STORAGE_ERROR_PCT \<le> storage_percent n) nodes);
          warns = length (filter (\<lambda>n. MESH_STORAGE_WARN_PCT \<le> storage_percent n) nodes)
      in if 0 < errors then
           [mesh_alert Error ''storage_exhausted''
              (dec errors @ '' node(s) are at or above '' @ dec MESH_STORAGE_ERROR_PCT @ ''% storage usage.'')
              errors (Some now) None None]
         else if 0 < warns then
           [mesh_alert Warn ''storage_pressure''
              (dec warns @ '' node(s) are at or above '' @ dec MESH_STORAGE_WARN_PCT @ ''% storage usage.'')
              warns (Some now) None None]
         else [])"

definition status_level :: "control_command \<Rightarrow> level" where
  "status_level command =
     (let status = to_ascii_lowercase (cc_status command) in
      if str_contains ''failed'' status \<or> str_contains ''timed out'' status \<or> str_contains ''error'' status then Error
      else if str_contains ''skipped'' status then Warn
      else Info)"

text \<open>The loop over commands: failures, skips and the time of the last of either.\<close>

definition count_issue :: "nat \<times> nat \<times> nat option \<Rightarrow> control_command \<Rightarrow> nat \<times> nat \<times> nat option" where
  "count_issue acc command =
     (case acc of (failed, skipped, last_issue) \<Rightarrow>
        let last_issue' = Some (max (or_else 0 last_issue) (cc_created_unix_ms command)) in
        case status_level command of
          Error \<Rightarrow> (sat_add failed 1, skipped, last_issue')
        | Warn \<Rightarrow> (failed, sat_add skipped 1, last_issue')
        | Info \<Rightarrow> acc)"

definition control_alerts :: "control_command list \<Rightarrow> alert list" where
  "control_alerts commands =
     (case foldl count_issue (0, 0, None) commands of (failed, skipped, last_issue) \<Rightarrow>
        if 0 < failed then
          [mesh_alert Error ''control_failures'' ''One or more recent orchestration commands failed.'' failed last_issue None None]
        else if 0 < skipped then
          [mesh_alert Warn ''control_skipped'' ''One or more recent orchestration commands were skipped.'' skipped last_issue None None]
        else [])"

definition discovery_alerts :: "nat \<Rightarrow> string \<Rightarrow> provision_status \<Rightarrow> bool \<Rightarrow> alert list" where
  "discovery_alerts now local_id provision discovery_enabled =
     (if list_ex (\<lambda>b. b = ''linode'') (pv_backends provision) \<and> \<not> discovery_enabled then
        [mesh_alert Warn ''linode_private_discovery_inactive''
           ''Linode provisioning is configured, but private-subnet discovery is not active; new VLAN nodes may need explicit seed peers.''
           1 (Some now) (Some local_id) None]
      else [])"

definition peer_last_seen :: "peer_status \<Rightarrow> nat" where
  "peer_last_seen p = or_else 0 (case ps_last_payload_unix_ms p of None \<Rightarrow> ps_last_connected_unix_ms p | Some t \<Rightarrow> Some t)"

definition telemetry_peer_alerts :: "nat \<Rightarrow> peer_status list \<Rightarrow> alert list" where
  "telemetry_peer_alerts now peers =
     (let away = filter (\<lambda>p. ps_state p \<noteq> ''connected'') peers;
          latest = max_by_key peer_last_seen away;
          peer = or_else ''unknown peer'' (map_option ps_peer latest);
          state = or_else ''unknown'' (map_option ps_state latest)
      in if 0 < length away then
           [mesh_alert Warn ''telemetry_peer_unavailable''
              (dec (length away) @ '' tcp-changes telemetry peer(s) are not connected; latest is '' @ peer @ '' ('' @ state @ '').'')
              (length away) (Some now) None None]
         else [])"

definition stale_detail :: "node_health \<Rightarrow> string" where
  "stale_detail n = ''latest stale node '' @ nh_node_id n @ '' in '' @ nh_region n @ '' last updated '' @ dec (nh_age_ms n) @ '' ms ago''"

definition stale_snapshot_alerts :: "telemetry_health \<Rightarrow> alert list" where
  "stale_snapshot_alerts health =
     (if 0 < th_stale_remote_count health then
        let latest = max_by_key nh_updated_unix_ms (th_stale_nodes health);
            detail = or_else ''stale telemetry node details unavailable'' (map_option stale_detail latest)
        in [mesh_alert Warn ''telemetry_snapshot_stale''
              (dec (th_stale_remote_count health) @ '' mesh telemetry snapshot(s) have aged out; '' @ detail @ ''.'')
              (th_stale_remote_count health) (map_option nh_updated_unix_ms latest) (map_option nh_node_id latest) None]
      else [])"

definition backend_alerts :: "nat \<Rightarrow> provision_status \<Rightarrow> alert list" where
  "backend_alerts now provision =
     (let n = length (filter (\<lambda>s. s \<noteq> ''ready'') (pv_backend_states provision)) in
      if 0 < n then [mesh_alert Warn ''provision_backend_blocked''
        ''One or more configured provision backends are not ready.'' n (Some now) None None] else [])"

definition checked_sub :: "nat \<Rightarrow> nat \<Rightarrow> nat option" where
  "checked_sub a b = (if b \<le> a then Some (a - b) else None)"

definition local_ingest_alerts :: "nat \<Rightarrow> stats_snapshot \<Rightarrow> alert list" where
  "local_ingest_alerts now sn =
     (case ss_last_ingest_age_ms sn of
        None \<Rightarrow> []
      | Some age_ms \<Rightarrow>
          if ss_latest_local_part sn \<noteq> None \<and>
             stream_stale_threshold_ms (ss_part_target_ms sn) (ss_window_parts sn) < age_ms then
            [mesh_alert Warn ''local_ingest_stale''
               (''Local stream '' @ ss_stream_id_text sn @ '' has not ingested bytes for '' @ dec age_ms @ '' ms.'')
               1 (checked_sub now age_ms) None (Some (ss_stream_id_text sn))]
          else [])"

definition stale_stream_alerts :: "nat \<Rightarrow> string \<Rightarrow> stream_telemetry list \<Rightarrow> alert list" where
  "stale_stream_alerts now local_id streams =
     (let stale = filter (\<lambda>s. sx_node_id s \<noteq> local_id \<and> stream_stale s) streams;
          seen = List.map_filter (\<lambda>s. map_option (\<lambda>age_ms. (s, sat_sub now age_ms, age_ms)) (sx_last_ingest_age_ms s)) stale
      in case max_by_key (\<lambda>(_, last_seen, _). last_seen) seen of
           None \<Rightarrow> []
         | Some (s, last_seen, age_ms) \<Rightarrow>
             [mesh_alert Warn ''mesh_stream_stale''
                (dec (length stale) @ '' mesh stream(s) are stale; latest stale stream '' @ sx_stream_id_text s @ '' on '' @
                 sx_node_id s @ '' has not ingested bytes for '' @ dec age_ms @ '' ms.'')
                (length stale) (Some last_seen) (Some (sx_node_id s)) (Some (sx_stream_id_text s))])"

text \<open>The alerts that count the streams with some property and name the one with the greatest value.\<close>

definition worst_stream_alert ::
  "(stream_telemetry \<Rightarrow> bool) \<Rightarrow> (stream_telemetry \<Rightarrow> nat) \<Rightarrow> string \<Rightarrow> (nat \<Rightarrow> stream_telemetry \<Rightarrow> string) \<Rightarrow> nat
     \<Rightarrow> stream_telemetry list \<Rightarrow> alert list" where
  "worst_stream_alert P f code message now streams =
     (let hit = filter P streams in
      case max_by_key f hit of
        None \<Rightarrow> []
      | Some s \<Rightarrow> [mesh_alert Warn code (message (length hit) s) (length hit) (Some now) (Some (sx_node_id s))
                    (Some (sx_stream_id_text s))])"

definition gap_alerts :: "nat \<Rightarrow> stream_telemetry list \<Rightarrow> alert list" where
  "gap_alerts = worst_stream_alert (\<lambda>s. 0 < or_else 0 (sx_gap_count s)) (\<lambda>s. or_else 0 (sx_gap_count s))
     ''canonical_publication_gap''
     (\<lambda>n s. dec n @ '' stream publication(s) have retained canonical gaps; stream '' @ sx_stream_id_text s @ '' on '' @
        sx_node_id s @ '' has '' @ dec (or_else 0 (sx_gap_count s)) @ '' missing object(s).'')"

definition slow_epoch_alerts :: "nat \<Rightarrow> stream_telemetry list \<Rightarrow> alert list" where
  "slow_epoch_alerts = worst_stream_alert
     (\<lambda>s. case sx_canonical_epoch_activation_delay_us s of None \<Rightarrow> False | Some delay \<Rightarrow> CANONICAL_EPOCH_ACTIVATION_WARN_US < delay)
     (\<lambda>s. or_else 0 (sx_canonical_epoch_activation_delay_us s)) ''canonical_epoch_activation_slow''
     (\<lambda>n s. dec n @ '' stream publication(s) exceeded the source-epoch activation target; stream '' @ sx_stream_id_text s @
        '' on '' @ sx_node_id s @ '' took '' @ dec (or_else 0 (sx_canonical_epoch_activation_delay_us s)) @
        '' us to accept its first canonical object.'')"

definition divergence_alerts ::
  "((u64 \<times> nat list) list \<Rightarrow> (u64 \<times> nat list) list) \<Rightarrow> nat \<Rightarrow> stream_telemetry list \<Rightarrow> alert list" where
  "divergence_alerts hashed now streams =
     (case find (\<lambda>(_, epochs). 1 < length epochs) (hashed (stream_epochs streams)) of
        None \<Rightarrow> []
      | Some (stream_id, epochs) \<Rightarrow>
          [mesh_alert Warn ''canonical_epoch_divergence''
             (''Stream '' @ stream_text stream_id @ '' is split across '' @ dec (length epochs) @
              '' canonical source epochs during publication convergence.'')
             (length epochs) (Some now) None (Some (stream_text stream_id))])"

definition relay_processing_p95 :: "relay_session \<Rightarrow> nat option" where
  "relay_processing_p95 r = histogram_percentile_upper_bound_us (rs_processing_duration_count r)
     (rs_processing_duration_buckets r) 95 (rs_processing_duration_max_us r)"

definition relay_processing_alert :: "nat \<Rightarrow> relay_node \<Rightarrow> alert list" where
  "relay_processing_alert now node =
     (case relay_processing_p95 (rn_relay_session node) of
        None \<Rightarrow> []
      | Some p95 \<Rightarrow>
          if RELAY_PROCESSING_P95_WARN_US < p95 then
            [mesh_alert Warn ''relay_processing_p95_exceeded''
               (''Relay '' @ rn_node_id node @ '' application processing p95 is '' @ dec p95 @
                '' us; the interactive and premium limit is '' @ dec RELAY_PROCESSING_P95_WARN_US @ '' us.'')
               p95 (Some now) (Some (rn_node_id node)) None]
          else [])"

definition lag_alerts :: "nat \<Rightarrow> relay_node list \<Rightarrow> stream_telemetry list \<Rightarrow> alert list" where
  "lag_alerts now relay_nodes = worst_stream_alert
     (\<lambda>s. stream_lagging s \<and>
        sx_node_id s \<notin> set (map rn_node_id (filter (\<lambda>n. 0 < rs_controlled_sessions (rn_relay_session n)) relay_nodes)))
     (\<lambda>s. or_else 0 (sx_mesh_lag_parts s)) ''mesh_stream_lagging''
     (\<lambda>n s. dec n @ '' mesh stream replica(s) are behind the stream head; latest lag is '' @
        dec (or_else 0 (sx_mesh_lag_parts s)) @ '' part(s) for stream '' @ sx_stream_id_text s @ '' on '' @ sx_node_id s @ ''.'') now"

record alert_env =
  ae_hashed :: "(u64 \<times> nat list) list \<Rightarrow> (u64 \<times> nat list) list"
  ae_now :: nat
  ae_provision :: provision_status
  ae_telemetry_peers :: "peer_status list"
  ae_discovery_enabled :: bool

definition derive_mesh_alerts ::
  "alert_env \<Rightarrow> aggregate \<Rightarrow> 'f mesh_node list \<Rightarrow> edge_service list \<Rightarrow> connection list \<Rightarrow> stats_snapshot \<Rightarrow> string
     \<Rightarrow> stream_telemetry list \<Rightarrow> relay_node list \<Rightarrow> control_command list \<Rightarrow> telemetry_health \<Rightarrow> relay_session \<Rightarrow> alert list" where
  "derive_mesh_alerts env agg nodes edges connections local_stream local_id streams relay_nodes commands health session =
     (let now = ae_now env in
      reach_alerts now agg session @ unknown_peer_alerts now connections @ draining_alerts now nodes @
      playback_alerts now edges @ response_error_alerts edges @ storage_alerts now nodes @ control_alerts commands @
      discovery_alerts now local_id (ae_provision env) (ae_discovery_enabled env) @
      telemetry_peer_alerts now (ae_telemetry_peers env) @ stale_snapshot_alerts health @ backend_alerts now (ae_provision env) @
      local_ingest_alerts now local_stream @ stale_stream_alerts now local_id streams @ gap_alerts now streams @
      slow_epoch_alerts now streams @ divergence_alerts (ae_hashed env) now streams @
      concat (map (relay_processing_alert now) relay_nodes) @ lag_alerts now relay_nodes streams)"

section \<open>Activity\<close>

record activity =
  ac_level :: level
  ac_code :: string
  ac_message :: string
  ac_count :: nat
  ac_seen_unix_ms :: nat
  ac_node_id :: "string option"
  ac_stream_id_text :: "string option"

fun control_kind_code :: "control_kind \<Rightarrow> string" where
  "control_kind_code ProvisionNode = ''provision_node''"
| "control_kind_code CloseNode = ''close_node''"
| "control_kind_code WarmStream = ''warm_stream''"
| "control_kind_code ReplicaRequest = ''replica_request''"

fun control_kind_label :: "control_kind \<Rightarrow> string" where
  "control_kind_label ProvisionNode = ''Provision node''"
| "control_kind_label CloseNode = ''Close node''"
| "control_kind_label WarmStream = ''Warm stream''"
| "control_kind_label ReplicaRequest = ''Replica request''"

definition snapshot_activity :: "nat \<Rightarrow> aggregate \<Rightarrow> activity" where
  "snapshot_activity now agg =
     \<lparr> ac_level = Info, ac_code = ''mesh_snapshot'',
       ac_message = ''Mesh sees '' @ dec (ag_node_count agg) @ '' node(s), '' @ dec (ag_connection_count agg) @
         '' link(s), and '' @ dec (ag_active_streams agg) @ '' active stream(s).'',
       ac_count = ag_node_count agg, ac_seen_unix_ms = now, ac_node_id = None, ac_stream_id_text = None \<rparr>"

definition alert_activity :: "nat \<Rightarrow> alert \<Rightarrow> activity" where
  "alert_activity now a =
     \<lparr> ac_level = al_level a, ac_code = al_code a, ac_message = al_message a, ac_count = al_count a,
       ac_seen_unix_ms = or_else now (al_last_seen_unix_ms a), ac_node_id = al_node_id a,
       ac_stream_id_text = al_stream_id_text a \<rparr>"

definition command_activity :: "control_command \<Rightarrow> activity" where
  "command_activity command =
     \<lparr> ac_level = status_level command, ac_code = control_kind_code (cc_kind command),
       ac_message = control_kind_label (cc_kind command) @ '' command '' @ cc_status command @ ''.'',
       ac_count = 1, ac_seen_unix_ms = cc_created_unix_ms command, ac_node_id = cc_node_id command,
       ac_stream_id_text = cc_stream_id_text command \<rparr>"

definition derive_mesh_activity :: "nat \<Rightarrow> aggregate \<Rightarrow> alert list \<Rightarrow> control_command list \<Rightarrow> activity list" where
  "derive_mesh_activity now agg alerts commands =
     take MESH_ACTIVITY_LIMIT (sort_key (\<lambda>a. (- int (ac_seen_unix_ms a), ac_code a))
       (snapshot_activity now agg # map (alert_activity now) alerts @ map command_activity commands))"

section \<open>Joining the reports\<close>

record topology =
  tp_connection_count :: nat
  tp_resolved_peer_count :: nat
  tp_unresolved_peer_count :: nat
  tp_private_peer_count :: nat
  tp_public_peer_count :: nat

definition topology_from_connections :: "connection list \<Rightarrow> topology" where
  "topology_from_connections connections =
     (let n = length connections;
          resolved = length (filter (\<lambda>c. cn_target_node_id c \<noteq> None) connections);
          privates = length (filter cn_private_target connections)
      in \<lparr> tp_connection_count = n, tp_resolved_peer_count = resolved, tp_unresolved_peer_count = sat_sub n resolved,
           tp_private_peer_count = privates, tp_public_peer_count = sat_sub n privates \<rparr>)"

text \<open>The names under which a node is known to its peers.\<close>

definition note_addr :: "(string \<times> string) list \<Rightarrow> 'f node_report \<Rightarrow> (string \<times> string) list" where
  "note_addr m r =
     (let own = mn_node_id (nr_node r); m' = tput own own m in
      case nr_mesh_addr r of None \<Rightarrow> m' | Some addr \<Rightarrow> tput addr own m')"

definition add_node :: "aggregate \<Rightarrow> 'f node_report \<Rightarrow> aggregate" where
  "add_node agg r =
     (let node = nr_node r in
      agg\<lparr> ag_node_count := ag_node_count agg + 1,
          ag_total_storage_bytes := sat_add (ag_total_storage_bytes agg) (mn_total_storage_bytes node),
          ag_used_storage_bytes := sat_add (ag_used_storage_bytes agg) (mn_used_storage_bytes node),
          ag_total_egress_capacity_bps := sat_add (ag_total_egress_capacity_bps agg) (mn_egress_capacity_bps node),
          ag_contributor_streams := sat_add (ag_contributor_streams agg) (mn_contributor_streams node),
          ag_active_streams := sat_add (ag_active_streams agg) (mn_active_streams node) \<rparr>)"

definition aggregate_default :: aggregate where
  "aggregate_default = \<lparr> ag_node_count = 0, ag_connection_count = 0, ag_total_storage_bytes = 0, ag_used_storage_bytes = 0,
     ag_total_egress_capacity_bps = 0, ag_contributor_streams = 0, ag_active_streams = 0 \<rparr>"

definition connections_of :: "(string \<Rightarrow> bool) \<Rightarrow> (string \<times> string) list \<Rightarrow> 'f node_report \<Rightarrow> connection list" where
  "connections_of private_target addrs r =
     map (\<lambda>(addr, state). \<lparr> cn_source_node_id = mn_node_id (nr_node r), cn_target_addr = addr,
       cn_target_node_id = map_of addrs addr, cn_state = state, cn_private_target = private_target addr \<rparr>) (nr_peers r)"

definition streams_of :: "'f node_report \<Rightarrow> stream_telemetry list" where
  "streams_of r = (if nr_streams r = [] then [stream_from_stats (mn_node_id (nr_node r)) (nr_stream r)] else nr_streams r)"

text \<open>\<open>None\<close> comes before \<open>Some\<close>.\<close>

definition connection_order :: "connection \<Rightarrow> string \<times> string \<times> nat \<times> string" where
  "connection_order c =
     (cn_source_node_id c, cn_target_addr c, case cn_target_node_id c of None \<Rightarrow> (0, []) | Some n \<Rightarrow> (1, n))"

definition link_key :: "'f link_observation \<Rightarrow> string \<times> string \<times> string" where
  "link_key obs = (lo_from_node_id obs, lo_to_node_id obs, lo_role obs)"

definition link_order :: "'f link_observation \<Rightarrow> (string \<times> string \<times> string) \<times> int" where
  "link_order obs = (link_key obs, - int (lo_observed_unix_ms obs))"

record 'f mesh_api =
  ma_link_observations :: "'f link_observation list"
  ma_relay_nodes :: "relay_node list"
  ma_aggregate :: aggregate
  ma_alerts :: "alert list"
  ma_activity :: "activity list"
  ma_topology :: topology
  ma_nodes :: "'f mesh_node list"
  ma_edge_services :: "edge_service list"
  ma_connections :: "connection list"
  ma_streams :: "stream_telemetry list"

definition from_snapshots ::
  "(string \<Rightarrow> bool) \<Rightarrow> alert_env \<Rightarrow> 'f node_report \<Rightarrow> 'f node_report list \<Rightarrow> telemetry_health \<Rightarrow> 'f mesh_api" where
  "from_snapshots private_target env local reports health =
     (let addrs = foldl note_addr [] reports;
          streams = annotate_stream_lag (concat (map streams_of reports));
          connections = dedup_by (\<lambda>c. c) (sort_key connection_order (concat (map (connections_of private_target addrs) reports)));
          links = dedup_by link_key (sort_key link_order (concat (map nr_link_observations reports)));
          relay_nodes = sort_key rn_node_id (map (\<lambda>r. \<lparr> rn_node_id = mn_node_id (nr_node r), rn_region = mn_region (nr_node r),
            rn_relay_session = nr_relay_session r \<rparr>) reports);
          nodes = map nr_node reports;
          edges = map (\<lambda>r. or_else (fallback_for_node (nr_node r)) (nr_edge_service r)) reports;
          agg = (foldl add_node aggregate_default reports)\<lparr> ag_connection_count := length connections \<rparr>;
          alerts = derive_mesh_alerts env agg nodes edges connections (nr_stream local) (mn_node_id (nr_node local)) streams
            relay_nodes (nr_recent_commands local) health (nr_relay_session local)
      in \<lparr> ma_link_observations = links, ma_relay_nodes = relay_nodes, ma_aggregate = agg, ma_alerts = alerts,
           ma_activity = derive_mesh_activity (ae_now env) agg alerts (nr_recent_commands local),
           ma_topology = topology_from_connections connections, ma_nodes = nodes, ma_edge_services = edges,
           ma_connections = connections, ma_streams = streams \<rparr>)"

end
