(* ===== verification/Edge_Load_Properties.thy ===== *)
theory Edge_Load_Properties
  imports Edge_Load
begin

text \<open>
  Properties of the load report: percentiles of response times, readers and served bytes, recent responses,
  and the spacing of replica requests.
\<close>

section \<open>Percentiles\<close>

lemma position_Some:
  "position P xs = Some i \<longleftrightarrow> i < length xs \<and> P (xs ! i) \<and> (\<forall>j < i. \<not> P (xs ! j))"
proof (induction xs arbitrary: i)
  case (Cons x xs)
  show ?case
  proof (cases i)
    case 0
    then show ?thesis by auto
  next
    case (Suc k)
    then show ?thesis
      using Cons.IH [of k] by (auto simp: less_Suc_eq_0_disj)
  qed
qed simp

lemma position_None: "position P xs = None \<longleftrightarrow> (\<forall>x \<in> set xs. \<not> P x)"
  by (induction xs) auto

text \<open>The number of durations that a bound holds.\<close>

definition covered :: "nat list \<Rightarrow> nat \<Rightarrow> nat" where
  "covered ds b = length (filter (\<lambda>d. d \<le> b) ds)"

definition recorded :: "nat list \<Rightarrow> histogram" where
  "recorded ds = fold record_us ds (histogram_default EDGE_RESPONSE_DURATION_BUCKETS_US)"

lemma buckets_sorted: "sorted EDGE_RESPONSE_DURATION_BUCKETS_US"
  by (simp add: EDGE_RESPONSE_DURATION_BUCKETS_US_def)

text \<open>Counting a duration raises the running sums of every bucket that holds it.\<close>

lemma cumulate_bump:
  assumes "sorted bounds" "length bs = length bounds" "position (\<lambda>b. d \<le> b) bounds = Some i"
    and "acc + sum_list (map unat bs) < u64_max"
  shows "cumulate acc (bs[i := bs ! i + 1]) = map2 (\<lambda>b c. if d \<le> b then c + 1 else c) bounds (cumulate acc bs)"
  using assms
proof (induction bounds arbitrary: bs acc i)
  case (Cons b bounds)
  obtain x xs where bs: "bs = x # xs" and len: "length xs = length bounds"
    using Cons.prems(2) by (cases bs) auto
  have room: "acc + unat x + sum_list (map unat xs) < u64_max"
    using Cons.prems(4) bs by simp
  have plain: "cumulate (acc' + 1) ys = map Suc (cumulate acc' ys)" if "acc' + sum_list (map unat ys) < u64_max" for acc' ys
    using that by (induction ys arbitrary: acc') (auto simp: sat_add_def Let_def)
  have lens: "length (cumulate acc' ys) = length ys" for acc' ys
    by (induction ys arbitrary: acc') (auto simp: Let_def)
  show ?case
  proof (cases "d \<le> b")
    case True
    have x: "unat (x + 1) = unat x + 1"
      using room by (intro unat_add_lem [THEN iffD1, THEN trans]) (auto simp: u64_max_def)
    have "map Suc (cumulate (acc + unat x) xs) = map2 (\<lambda>b c. if d \<le> b then c + 1 else c) bounds (cumulate (acc + unat x) xs)"
    proof (rule nth_equalityI)
      show "map Suc (cumulate (acc + unat x) xs) ! j = map2 (\<lambda>b c. if d \<le> b then c + 1 else c) bounds (cumulate (acc + unat x) xs) ! j"
        if "j < length (map Suc (cumulate (acc + unat x) xs))" for j
        using that Cons.prems(1) True len by (auto simp: lens dest!: nth_mem)
    qed (simp add: lens len)
    moreover have "i = 0"
      using Cons.prems(3) True by simp
    ultimately show ?thesis
      using True bs x plain [of "acc + unat x" xs] room by (simp add: sat_add_def Let_def)
  next
    case False
    then obtain k where k: "i = Suc k" "position (\<lambda>b. d \<le> b) bounds = Some k"
      using Cons.prems(3) by auto
    then show ?thesis
      using False bs Cons.IH [OF _ len k(2), of "acc + unat x"] Cons.prems(1) room by (simp add: sat_add_def Let_def)
  qed
qed simp

lemma covered_snoc: "covered (ds @ [d]) b = covered ds b + (if d \<le> b then 1 else 0)"
  by (simp add: covered_def)

lemma sum_bump:
  assumes "i < length bs" "sum_list (map unat bs) < u64_max"
  shows "sum_list (map unat (bs[i := (bs ! i :: u64) + 1])) = sum_list (map unat bs) + 1"
proof -
  have "unat (bs ! i) \<le> sum_list (map unat bs)"
    using assms(1) by (intro member_le_sum_list) auto
  then have "unat (bs ! i + 1) = unat (bs ! i) + 1"
    using assms(2) by (intro unat_add_lem [THEN iffD1, THEN trans]) (auto simp: u64_max_def)
  then show ?thesis
    using assms(1) \<open>unat (bs ! i) \<le> _\<close> by (simp add: map_update sum_list_update)
qed

text \<open>What a histogram knows of the durations it recorded.\<close>

lemma recorded_exact:
  assumes "length ds < 2 ^ 57" "\<forall>d \<in> set ds. d \<le> u64_max"
  shows "unat (h_count (recorded ds)) = length ds \<and> unat (h_max_us (recorded ds)) = fold max ds 0 \<and>
    length (h_buckets (recorded ds)) = length EDGE_RESPONSE_DURATION_BUCKETS_US \<and>
    sum_list (map unat (h_buckets (recorded ds))) \<le> length ds \<and>
    cumulate 0 (h_buckets (recorded ds)) = map (covered ds) EDGE_RESPONSE_DURATION_BUCKETS_US"
  using assms
proof (induction ds rule: rev_induct)
  case Nil
  then show ?case
    by (simp add: recorded_def histogram_default_def EDGE_RESPONSE_DURATION_BUCKETS_US_def covered_def sat_add_def Let_def)
next
  case (snoc d ds)
  let ?h = "recorded ds" and ?B = "EDGE_RESPONSE_DURATION_BUCKETS_US"
  have IH: "unat (h_count ?h) = length ds" "unat (h_max_us ?h) = fold max ds 0" "length (h_buckets ?h) = length ?B"
      "sum_list (map unat (h_buckets ?h)) \<le> length ds" "cumulate 0 (h_buckets ?h) = map (covered ds) ?B"
    using snoc by auto
  have h': "recorded (ds @ [d]) = record_us d ?h"
    by (simp add: recorded_def)
  have count: "unat (h_count ?h + 1) = length ds + 1"
    using IH(1) snoc.prems(1) by (intro unat_add_lem [THEN iffD1, THEN trans]) auto
  have "unat (of_nat d :: u64) = d"
    using snoc.prems(2) by (simp add: unat_of_nat take_bit_nat_eq_self u64_max_def)
  then have max: "unat (max (h_max_us ?h) (of_nat d)) = max d (fold max ds 0)"
    using IH(2) by (auto simp: max_def word_le_nat_alt)
  have room: "sum_list (map unat (h_buckets ?h)) < u64_max"
    using IH(4) snoc.prems(1) by (simp add: u64_max_def)
  show ?case
  proof (cases "position (\<lambda>b. d \<le> b) ?B")
    case None
    then have "map (covered (ds @ [d])) ?B = map (covered ds) ?B"
      by (auto simp: position_None covered_snoc)
    then show ?thesis
      using None IH count max by (simp add: h' record_us_def)
  next
    case (Some i)
    then have "i < length (h_buckets ?h)"
      using IH(3) by (simp add: position_Some)
    moreover have "map2 (\<lambda>b c. if d \<le> b then c + 1 else c) ?B (map (covered ds) ?B) = map (covered (ds @ [d])) ?B"
      by (rule nth_equalityI) (auto simp: covered_snoc)
    ultimately show ?thesis
      using Some IH count max sum_bump [OF _ room] cumulate_bump [OF buckets_sorted IH(3) Some, of 0] room
      by (simp add: h' record_us_def)
  qed
qed

lemma fold_max_bound: "d \<in> set ds \<Longrightarrow> d \<le> fold max ds (m :: nat)" "m \<le> fold max ds m"
proof -
  show mono: "m \<le> fold max ds m" for ds and m :: nat
    by (induction ds arbitrary: m) (auto intro: order_trans [OF max.cobounded2])
  show "d \<in> set ds \<Longrightarrow> d \<le> fold max ds m"
  proof (induction ds arbitrary: m)
    case (Cons x ds)
    have "d \<le> fold max ds (max d m)"
      using mono [of "max d m"] by simp
    then show ?case
      using Cons by auto
  qed simp
qed



section \<open>Recent responses\<close>

text \<open>No more than the limit are kept, and an error is always among them.\<close>

lemma recent_responses_bounded:
  "length (el_recent_responses l) \<le> EDGE_RECENT_RESPONSE_LIMIT \<Longrightarrow>
     length (el_recent_responses (record_response second ms meth path query status body ct dur l)) \<le> EDGE_RECENT_RESPONSE_LIMIT"
  by (auto simp: record_response_def retain_success_def Let_def split_beta)

lemma error_response_kept:
  "is_error_status status \<Longrightarrow>
     \<exists>r rs. el_recent_responses (record_response second ms meth path query status body ct dur l) = r # rs \<and>
       rp_status r = status \<and> rp_path r = path \<and> rp_query r = sanitized_response_query query"
  by (auto simp: record_response_def EDGE_RECENT_RESPONSE_LIMIT_def Let_def split_beta numeral_eq_Suc)

lemma response_duration_step:
  "el_response_duration (record_response second ms meth path query status body ct dur l) =
     record_us (min (dur div 1000) u64_max) (el_response_duration l)"
  by (auto simp: record_response_def record_duration_def retain_success_def Let_def split_beta)

section \<open>Replica requests\<close>

text \<open>An exchange that succeeds in the end, and one that fails forever.\<close>

lemma exchange_ends:
  "k \<le> n \<Longrightarrow> \<not> fails n \<Longrightarrow>
     exchange_loop fails k now_ms last_ms = Some (REPLICA_REQUEST_MIN_INTERVAL_MS \<le> now_ms - last_ms)"
proof (induction "n - k" arbitrary: k)
  case 0
  then have "k = n" by simp
  then show ?case
    using 0 exchange_loop.simps [of fails k] by auto
next
  case (Suc d)
  then have "exchange_loop fails (Suc k) now_ms last_ms = Some (REPLICA_REQUEST_MIN_INTERVAL_MS \<le> now_ms - last_ms)"
    by simp
  then show ?case
    using exchange_loop.simps [of fails k] by auto
qed

lemma exchange_diverges:
  assumes "\<forall>k. fails k" "REPLICA_REQUEST_MIN_INTERVAL_MS \<le> now_ms - last_ms"
  shows "exchange_loop fails k now_ms last_ms = None"
proof (cases "exchange_loop fails k now_ms last_ms")
  case (Some granted)
  then have "(\<forall>k. fails k) \<longrightarrow> now_ms - last_ms < REPLICA_REQUEST_MIN_INTERVAL_MS"
    by (rule exchange_loop.raw_induct [rotated]) (fastforce split: if_splits)
  then show ?thesis
    using assms by simp
qed

lemma should_request_eq:
  assumes "\<not> fails n"
  shows "should_request_replica fails s now m =
     Some (if (case map_of m s of None \<Rightarrow> True | Some t \<Rightarrow> t + REPLICA_REQUEST_MIN_INTERVAL_MS \<le> now)
      then (tput s now m, True) else (m, False))"
  using exchange_ends [of 0 n fails, OF _ assms]
  by (auto simp: should_request_replica_def REPLICA_REQUEST_MIN_INTERVAL_MS_def split: option.split)

text \<open>C34: The loop around the exchange ends exactly when it can. A request for a replica returns if the stream
  was never requested, if the last request is too recent, or if some exchange does not fail spuriously;
  it spins forever only in the remaining case.\<close>

theorem replica_request_returns:
  "(\<exists>r. should_request_replica fails s now m = Some r) \<longleftrightarrow>
     (\<forall>t. map_of m s = Some t \<longrightarrow> now < t + REPLICA_REQUEST_MIN_INTERVAL_MS) \<or> (\<exists>k. \<not> fails k)"
proof (cases "\<exists>k. \<not> fails k")
  case True
  then show ?thesis
    using should_request_eq by auto
next
  case spins: False
  have soon: "exchange_loop fails 0 now t = Some False" if "now < t + REPLICA_REQUEST_MIN_INTERVAL_MS" for t
    using that exchange_loop.simps [of fails 0 now t] by (auto simp: REPLICA_REQUEST_MIN_INTERVAL_MS_def)
  have late: "exchange_loop fails 0 now t = None" if "\<not> now < t + REPLICA_REQUEST_MIN_INTERVAL_MS" for t
    using that spins by (intro exchange_diverges) auto
  show ?thesis
  proof (cases "map_of m s")
    case (Some t)
    then show ?thesis
      using spins soon [of t] late [of t]
      by (cases "now < t + REPLICA_REQUEST_MIN_INTERVAL_MS") (auto simp: should_request_replica_def)
  qed (auto simp: should_request_replica_def)
qed

theorem replica_request_returns_witness:
  "(\<exists>r. should_request_replica (\<lambda>k. k < 2) 7 2500 [(7, 1000)] = Some r) \<and>
   should_request_replica (\<lambda>_. True) 7 2500 [(7, 1000)] = None"
proof
  have "\<exists>k. \<not> k < (2 :: nat)"
    by (intro exI [of _ 2]) simp
  then show "\<exists>r. should_request_replica (\<lambda>k. k < 2) 7 2500 [(7, 1000)] = Some r"
    using replica_request_returns [of "\<lambda>k. k < 2" 7 2500 "[(7, 1000)]"] by blast
  have "\<not> (\<forall>t. map_of [(7 :: u64, 1000)] 7 = Some t \<longrightarrow> 2500 < t + REPLICA_REQUEST_MIN_INTERVAL_MS)"
    by (simp add: REPLICA_REQUEST_MIN_INTERVAL_MS_def)
  then show "should_request_replica (\<lambda>_. True) 7 2500 [(7, 1000)] = None"
    using replica_request_returns [of "\<lambda>_. True" 7 2500 "[(7, 1000)]"]
    by (metis not_None_eq)
qed

text \<open>The requests of a run: how many exchanges fail, stream and time; the state, and the requests that were
  granted.\<close>

definition demand_step :: "nat \<times> u64 \<times> nat \<Rightarrow> (u64 \<times> nat) list \<times> (u64 \<times> nat) list \<Rightarrow> (u64 \<times> nat) list \<times> (u64 \<times> nat) list" where
  "demand_step r st =
     (case should_request_replica (\<lambda>i. i < fst r) (fst (snd r)) (snd (snd r)) (fst st) of
        None \<Rightarrow> st
      | Some (m, ok) \<Rightarrow> (m, if ok then snd st @ [snd r] else snd st))"

definition demand_run :: "(nat \<times> u64 \<times> nat) list \<Rightarrow> (u64 \<times> nat) list \<times> (u64 \<times> nat) list" where
  "demand_run rs = fold demand_step rs ([], [])"

lemma demand_run_view:
  assumes "sorted (map (snd \<circ> snd) rs @ [now])"
  shows "(\<forall>s t. map_of (fst (demand_run rs)) s = Some t \<longrightarrow> (s, t) \<in> set (snd (demand_run rs))) \<and>
    (\<forall>s t. (s, t) \<in> set (snd (demand_run rs)) \<longrightarrow> t \<le> now \<and> (\<exists>t'. map_of (fst (demand_run rs)) s = Some t' \<and> t \<le> t'))"
  using assms
proof (induction rs arbitrary: now rule: rev_induct)
  case Nil
  then show ?case by (simp add: demand_run_def)
next
  case (snoc r rs)
  obtain k s t where r: "r = (k, s, t)" by (cases r)
  obtain m G where run: "demand_run rs = (m, G)" by (cases "demand_run rs")
  have le: "t \<le> now" and "sorted (map (snd \<circ> snd) rs @ [t])"
    using snoc.prems unfolding r by (auto simp: sorted_append comp_def)
  from this(2) have IH: "\<And>s t. map_of m s = Some t \<Longrightarrow> (s, t) \<in> set G"
      "\<And>s t'. (s, t') \<in> set G \<Longrightarrow> t' \<le> t \<and> (\<exists>t''. map_of m s = Some t'' \<and> t' \<le> t'')"
    using snoc.IH [of t] unfolding run fst_conv snd_conv by blast+
  have step: "demand_run (rs @ [r]) = (if (case map_of m s of None \<Rightarrow> True | Some u \<Rightarrow> u + REPLICA_REQUEST_MIN_INTERVAL_MS \<le> t)
      then (tput s t m, G @ [(s, t)]) else (m, G))"
    using run by (simp add: demand_run_def demand_step_def r should_request_eq [of _ k])
  show ?case
    unfolding step
    using IH le by (auto simp: update_conv' dest: order_trans) (meson order_trans)+
qed

text \<open>Replica requests are spaced. With a clock that does not go back, a request for a stream is granted
  exactly if no granted request for that stream is less than a second old, however often the exchange
  fails spuriously; requests for other streams make no difference.\<close>

theorem replica_requests_spaced:
  assumes "sorted (map (snd \<circ> snd) rs @ [now])" "\<not> fails k"
  shows "\<exists>m. should_request_replica fails s now (fst (demand_run rs)) =
    Some (m, \<forall>t. (s, t) \<in> set (snd (demand_run rs)) \<longrightarrow> t + REPLICA_REQUEST_MIN_INTERVAL_MS \<le> now)"
proof (cases "map_of (fst (demand_run rs)) s")
  case None
  then have "(s, t) \<notin> set (snd (demand_run rs))" for t
    using demand_run_view [OF assms(1)] by (metis option.distinct(1))
  then show ?thesis
    using None by (simp add: should_request_eq [of fails k, OF assms(2)])
next
  case (Some t)
  then have "(s, t) \<in> set (snd (demand_run rs))" "\<And>u. (s, u) \<in> set (snd (demand_run rs)) \<Longrightarrow> u \<le> t"
    using demand_run_view [OF assms(1)] by (auto, metis option.inject)
  then have "(\<forall>t. (s, t) \<in> set (snd (demand_run rs)) \<longrightarrow> t + REPLICA_REQUEST_MIN_INTERVAL_MS \<le> now) \<longleftrightarrow>
      t + REPLICA_REQUEST_MIN_INTERVAL_MS \<le> now"
    by (meson add_right_mono order_trans)
  then show ?thesis
    using Some by (simp add: should_request_eq [of fails k, OF assms(2)])
qed

theorem replica_requests_spaced_witness:
  "(\<exists>m. should_request_replica (\<lambda>i. i < 3) 7 2500 (fst (demand_run [(0, 7, 1000), (1, 8, 1100), (2, 7, 1400)])) = Some (m, True)) \<and>
   snd (demand_run [(0, 7, 1000), (1, 8, 1100), (2, 7, 1400)]) = [(7, 1000), (8, 1100)]"
proof
  show granted: "snd (demand_run [(0, 7, 1000), (1, 8, 1100), (2, 7, 1400)]) = [(7, 1000), (8, 1100)]"
    by code_simp
  have "sorted (map (snd \<circ> snd) [(0, 7, 1000), (1, 8, 1100), (2, 7, 1400)] @ [2500 :: nat])"
    by simp
  from replica_requests_spaced [OF this, of "\<lambda>i. i < 3" 3 7] granted
  show "\<exists>m. should_request_replica (\<lambda>i. i < 3) 7 2500 (fst (demand_run [(0, 7, 1000), (1, 8, 1100), (2, 7, 1400)])) = Some (m, True)"
    by (simp add: REPLICA_REQUEST_MIN_INTERVAL_MS_def)
qed

end
