(* ===== verification/Mesh_Report_Properties.thy ===== *)
theory Mesh_Report_Properties
  imports Mesh_Alerts Edge_Load_Properties
begin

text \<open>
  Properties of the joined report: the lag of streams, the links that it lists, when sources diverge, and
  what its alert on relay processing times says.
\<close>

section \<open>Lag\<close>

text \<open>The parts that the streams with a given key have reached.\<close>

definition reached :: "stream_telemetry list \<Rightarrow> u64 \<times> nat option \<Rightarrow> nat set" where
  "reached streams k = {p. \<exists>t \<in> set streams. lag_key t = k \<and> latest_comparable_object t = Some p}"

lemma reached_finite [simp]: "finite (reached streams k)"
proof -
  have "reached streams k \<subseteq> (\<lambda>t. the (latest_comparable_object t)) ` set streams"
    by (force simp: reached_def)
  then show ?thesis
    by (rule finite_subset) simp
qed

lemma reached_snoc:
  "reached (streams @ [s]) k =
     (case latest_comparable_object s of None \<Rightarrow> reached streams k
      | Some p \<Rightarrow> if lag_key s = k then insert p (reached streams k) else reached streams k)"
  by (auto simp: reached_def split: option.split)

lemma heads_exact:
  "map_of (foldl note_head [] streams) k = (if reached streams k = {} then None else Some (Max (reached streams k)))"
proof (induction streams arbitrary: k rule: rev_induct)
  case Nil
  then show ?case by (simp add: reached_def)
next
  case (snoc s streams)
  then show ?case
    by (auto simp: note_head_def reached_snoc update_conv' max.commute split: option.split)
qed

text \<open>C37: The lag of a stream is exact: how many parts the copy of a node is behind the furthest copy of the same
  stream and source epoch among all nodes, and unknown only if the node has no part to compare. The
  furthest copy lags by nothing, and nothing else in the report of a stream is changed.\<close>

theorem stream_lag_exact:
  "annotate_stream_lag streams =
     map (\<lambda>s. s\<lparr> sx_mesh_lag_parts :=
       map_option (\<lambda>p. Max (reached streams (lag_key s)) - p) (latest_comparable_object s) \<rparr>) streams"
proof -
  have "map_of (foldl note_head [] streams) (lag_key s) = Some (Max (reached streams (lag_key s)))"
    if "s \<in> set streams" "latest_comparable_object s = Some p" for s p
  proof -
    have "p \<in> reached streams (lag_key s)"
      using that by (auto simp: reached_def)
    then show ?thesis
      by (auto simp: heads_exact)
  qed
  then show ?thesis
    unfolding annotate_stream_lag_def Let_def
    by (intro map_cong refl arg_cong [of _ _ "\<lambda>l. sx_mesh_lag_parts_update (\<lambda>_. l) _"])
      (case_tac "latest_comparable_object x"; simp)
qed

section \<open>Links\<close>

lemma dedup_set: "set (dedup_by f xs) \<subseteq> set xs" "f ` set (dedup_by f xs) = f ` set xs"
  by (induction f xs rule: dedup_by.induct) auto

lemma dedup_hd: "xs \<noteq> [] \<Longrightarrow> dedup_by f xs \<noteq> [] \<and> f (hd (dedup_by f xs)) = f (hd xs)"
  by (induction f xs rule: dedup_by.induct) auto

lemma dedup_strict:
  fixes f :: "'a \<Rightarrow> 'b::linorder"
  shows "sorted (map f xs) \<Longrightarrow> sorted_wrt (<) (map f (dedup_by f xs))"
proof (induction f xs rule: dedup_by.induct)
  case (3 f x y xs)
  then show ?case
  proof (cases "f y = f x")
    case False
    then have "f x < f z" if "z \<in> set (y # xs)" for z
      using that 3(3) by (auto simp: order_less_le dest: order_trans)
    then show ?thesis
      using 3 False dedup_set(1) [of f "y # xs"] by auto
  qed simp
qed simp_all

lemma sorted_by_first:
  fixes f :: "'a \<Rightarrow> 'b::linorder" and g :: "'a \<Rightarrow> 'c::linorder"
  shows "sorted (map (\<lambda>x. (f x, g x)) xs) \<Longrightarrow> sorted (map f xs)"
  by (induction xs) (auto simp: less_eq_prod_def)

text \<open>Of equal keys the first is kept.\<close>

lemma dedup_first:
  fixes f :: "'a \<Rightarrow> 'b::linorder" and g :: "'a \<Rightarrow> 'c::linorder"
  assumes "sorted (map (\<lambda>x. (f x, g x)) xs)" "x \<in> set (dedup_by f xs)" "y \<in> set xs" "f y = f x"
  shows "g x \<le> g y"
  using assms
proof (induction f xs arbitrary: y rule: dedup_by.induct)
  case (3 f a b xs)
  show ?case
  proof (cases "f b = f a")
    case True
    have first: "g x \<le> g z" if "z \<in> set (a # xs)" "f z = f x" for z
      using that 3(1) [of z] 3(3,4) True by (simp add: less_eq_prod_def)
    moreover have "g a \<le> g b"
      using 3(3) True by (simp add: less_eq_prod_def)
    ultimately show ?thesis
      using 3(5,6) True first [of a] by (cases "y = b") (auto intro: order_trans)
  next
    case False
    have later: "f a < f z" if "z \<in> set (b # xs)" for z
      using 3(3) that False by (auto simp: less_eq_prod_def)
    show ?thesis
    proof (cases "x = a")
      case True
      then have "y = a"
        using 3(5,6) later [of y] by auto
      then show ?thesis
        using True by simp
    next
      case other: False
      then have x: "x \<in> set (dedup_by f (b # xs))"
        using 3(4) False by simp
      then have "y \<noteq> a"
        using 3(6) later [of x] dedup_set(1) [of f "b # xs"] by auto
      then show ?thesis
        using 3(2) [OF False _ x, of y] 3(3,5,6) by simp
    qed
  qed
qed auto

text \<open>The joined report lists the links of the mesh in order, each once, and of several observations of a link
  one that no other is newer than. No link is lost and none is made up.\<close>

theorem newest_links_reported:
  fixes reports :: "'f node_report list"
  assumes "links = ma_link_observations (from_snapshots private_target env local reports health)"
    and "observed = concat (map nr_link_observations reports)"
  shows "sorted_wrt (<) (map link_key links) \<and> link_key ` set links = link_key ` set observed \<and> set links \<subseteq> set observed \<and>
    (\<forall>x \<in> set links. \<forall>y \<in> set observed. link_key y = link_key x \<longrightarrow> lo_observed_unix_ms y \<le> lo_observed_unix_ms x)"
proof -
  let ?sorted = "sort_key link_order observed"
  have links: "links = dedup_by link_key ?sorted"
    using assms by (simp add: from_snapshots_def Let_def)
  have sorted: "sorted (map (\<lambda>x. (link_key x, - int (lo_observed_unix_ms x))) ?sorted)"
    using sorted_sort_key [of link_order observed] by (simp add: link_order_def [abs_def])
  then have keys: "sorted (map link_key ?sorted)"
    by (rule sorted_by_first)
  have "lo_observed_unix_ms y \<le> lo_observed_unix_ms x"
    if "x \<in> set links" "y \<in> set observed" "link_key y = link_key x" for x y
    using dedup_first [OF sorted, of x y] that by (simp add: links)
  then show ?thesis
    using dedup_strict [OF keys] dedup_set [of link_key ?sorted] by (simp add: links)
qed

definition plain_report :: "unit link_observation list \<Rightarrow> unit node_report" where
  "plain_report links =
     \<lparr> nr_node = \<lparr> mn_node_id = ''n'', mn_region = ''eu'', mn_continent = ''eu'', mn_latitude = (), mn_longitude = (),
         mn_total_storage_bytes = 0, mn_used_storage_bytes = 0, mn_egress_capacity_bps = 0, mn_contributor_streams = 0,
         mn_active_streams = 0, mn_draining = False \<rparr>,
       nr_mesh_addr = None, nr_edge_service = None, nr_relay_session = relay_ingress_snapshot 0 0 (recorded []),
       nr_link_observations = links, nr_peers = [],
       nr_stream = \<lparr> ss_stream_id = 1, ss_stream_id_text = ''1'', ss_part_target_ms = 0, ss_parts_per_segment = 0, ss_window_parts = 0,
         ss_datagrams_received = 0, ss_bytes_received = 0, ss_current_part_bytes = 0, ss_latest_local_part = None, ss_latest_local_part_bytes = None,
         ss_latest_local_part_duration_ms = None, ss_latest_mesh_part = None, ss_canonical_epoch = None,
         ss_canonical_epoch_activation_delay_us = None, ss_contiguous_object = None, ss_head_object = None, ss_gap_count = None, ss_mesh_peers = [],
         ss_latest_local_part_age_ms = None, ss_last_ingest_age_ms = None \<rparr>,
       nr_streams = [], nr_recent_commands = [] \<rparr>"

definition plain_link :: "string \<Rightarrow> nat \<Rightarrow> unit link_observation" where
  "plain_link from_id t =
     \<lparr> lo_from_node_id = from_id, lo_to_node_id = ''n'', lo_role = ''primary'', lo_state = ''measured'', lo_method = [],
       lo_rtt_ms = None, lo_jitter_ms = None, lo_loss_percent = (), lo_throughput_bps = 0, lo_received_bytes_total = 0,
       lo_sample_count = 1, lo_observed_unix_ms = t, lo_fresh_for_ms = FRESH_FOR_MS \<rparr>"

theorem newest_links_reported_witness:
  "\<forall>env health. \<exists>x. ma_link_observations (from_snapshots (\<lambda>_. False) env (plain_report [])
       [plain_report [plain_link ''a'' 5], plain_report [plain_link ''a'' 9]] health) = [x] \<and>
     link_key x = link_key (plain_link ''a'' 5) \<and> 9 \<le> lo_observed_unix_ms x"
proof (intro allI)
  fix env health
  let ?reports = "[plain_report [plain_link ''a'' 5], plain_report [plain_link ''a'' 9]]" and ?k = "link_key (plain_link ''a'' 5)"
  define links where "links = ma_link_observations (from_snapshots (\<lambda>_. False) env (plain_report []) ?reports health)"
  have observed: "[plain_link ''a'' 5, plain_link ''a'' 9] = concat (map nr_link_observations ?reports)"
    and nine: "link_key (plain_link ''a'' 9) = ?k" "lo_observed_unix_ms (plain_link ''a'' 9) = 9"
    by (simp_all add: plain_report_def plain_link_def link_key_def)
  note reported = newest_links_reported [OF links_def observed]
  have sorted: "sorted_wrt (<) (map link_key links)" and keys: "link_key ` set links = {?k}"
    using reported nine(1) by auto
  then obtain x xs where "links = x # xs"
    by (cases links) auto
  moreover from this have "xs = []"
    using sorted keys by (cases xs) auto
  ultimately have links: "links = [x]" and "link_key x = ?k"
    using keys by auto
  moreover from this have "9 \<le> lo_observed_unix_ms x"
    using reported nine by force
  ultimately show "\<exists>x. ma_link_observations (from_snapshots (\<lambda>_. False) env (plain_report []) ?reports health) = [x] \<and>
      link_key x = ?k \<and> 9 \<le> lo_observed_unix_ms x"
    using links_def by auto
qed

section \<open>Sources that diverge\<close>

text \<open>The source epochs that the nodes report for a stream.\<close>

definition epochs_of :: "stream_telemetry list \<Rightarrow> u64 \<Rightarrow> nat set" where
  "epochs_of streams k = {e. \<exists>s \<in> set streams. sx_stream_id s = k \<and> sx_canonical_epoch s = Some e}"

lemma stream_epochs_view:
  "table_ok (stream_epochs streams) \<and> distinct (get_or [] (stream_epochs streams) k) \<and>
     set (get_or [] (stream_epochs streams) k) = epochs_of streams k"
proof (induction streams arbitrary: k rule: rev_induct)
  case Nil
  then show ?case by (simp add: stream_epochs_def epochs_of_def get_or_def)
next
  case (snoc s streams)
  have m: "stream_epochs (streams @ [s]) = note_epoch (stream_epochs streams) s"
    by (simp add: stream_epochs_def)
  have e: "epochs_of (streams @ [s]) k =
      epochs_of streams k \<union> {e. sx_stream_id s = k \<and> sx_canonical_epoch s = Some e}" for k
    by (auto simp: epochs_of_def)
  show ?case
  proof (cases "sx_canonical_epoch s")
    case None
    then show ?thesis
      using snoc by (simp add: m e note_epoch_def)
  next
    case (Some epoch)
    then have "get_or [] (stream_epochs (streams @ [s])) k =
        (if sx_stream_id s = k then List.insert epoch (get_or [] (stream_epochs streams) k) else get_or [] (stream_epochs streams) k)"
      using snoc by (auto simp: m note_epoch_def get_or_def update_conv')
    then show ?thesis
      using snoc Some by (auto simp: m e note_epoch_def ht.table_ok_put)
  qed
qed

lemma stream_epochs_entry:
  assumes "(k, es) \<in> set (stream_epochs streams)"
  shows "length es = card (epochs_of streams k)"
proof -
  have "get_or [] (stream_epochs streams) k = es"
    using assms stream_epochs_view [of streams k] by (simp add: get_or_def)
  then show ?thesis
    using stream_epochs_view [of streams k] distinct_card by metis
qed

lemma stream_epochs_key: "1 < card (epochs_of streams k) \<Longrightarrow> \<exists>es. (k, es) \<in> set (stream_epochs streams)"
  using stream_epochs_view [of streams k] by (cases "map_of (stream_epochs streams) k") (auto simp: get_or_def dest: map_of_SomeD)

lemma divergent_count:
  "canonical_epoch_divergent_stream_count streams = card {k. 1 < card (epochs_of streams k)}"
proof -
  let ?m = "filter (\<lambda>(k, es). 1 < length es) (stream_epochs streams)"
  have "set (keys ?m) = {k. 1 < card (epochs_of streams k)}"
    using stream_epochs_key by (force simp: stream_epochs_entry)
  moreover have "distinct (keys ?m)"
    using stream_epochs_view [of streams] by (simp add: distinct_map_filter)
  ultimately have "length ?m = card {k. 1 < card (epochs_of streams k)}"
    using distinct_card [of "keys ?m"] by simp
  moreover have "length ?m = canonical_epoch_divergent_stream_count streams"
    by (simp add: canonical_epoch_divergent_stream_count_def filter_map comp_def split_beta')
  ultimately show ?thesis by simp
qed

text \<open>The alert on diverging sources and the metric agree with what the nodes report. The metric counts the
  streams for which nodes report different source epochs; the alert is raised exactly if there is one, and
  names such a stream with the number of its epochs, in whatever order a hash map is read.\<close>

theorem divergence_alert_exact:
  assumes "set (hashed (stream_epochs streams)) = set (stream_epochs streams)"
  shows "canonical_epoch_divergent_stream_count streams = card {k. 1 < card (epochs_of streams k)} \<and>
    (divergence_alerts hashed now streams = [] \<longleftrightarrow> canonical_epoch_divergent_stream_count streams = 0) \<and>
    (\<forall>a \<in> set (divergence_alerts hashed now streams). \<exists>k. al_stream_id_text a = Some (stream_text k) \<and>
      al_count a = card (epochs_of streams k) \<and> 1 < al_count a)"
proof -
  let ?hit = "find (\<lambda>(_, es). 1 < length es) (hashed (stream_epochs streams))"
  have entry: "length es = card (epochs_of streams k)" if "(k, es) \<in> set (hashed (stream_epochs streams))" for k es
    using that stream_epochs_entry assms by simp
  have fin: "finite {k. 1 < card (epochs_of streams k)}"
    by (rule finite_subset [of _ "set (keys (stream_epochs streams))"]) (use stream_epochs_key in force, simp)
  show ?thesis
  proof (cases ?hit)
    case None
    then have none: "\<forall>(k, es) \<in> set (stream_epochs streams). \<not> 1 < length es"
      using assms by (auto simp: find_None_iff)
    have "\<not> 1 < card (epochs_of streams k)" for k
    proof
      assume "1 < card (epochs_of streams k)"
      moreover from this obtain es where "(k, es) \<in> set (stream_epochs streams)"
        using stream_epochs_key by blast
      ultimately show False
        using none stream_epochs_entry [of k es streams] by fastforce
    qed
    then show ?thesis
      using None divergent_count [of streams] by (simp add: divergence_alerts_def)
  next
    case (Some p)
    then obtain k es where p: "p = (k, es)" "(k, es) \<in> set (hashed (stream_epochs streams))" "1 < length es"
      by (cases p) (auto simp: find_Some_iff dest: nth_mem)
    then have "k \<in> {k. 1 < card (epochs_of streams k)}"
      using entry by simp
    then have "card {k. 1 < card (epochs_of streams k)} \<noteq> 0"
      using fin by auto
    then show ?thesis
      using Some p entry [OF p(2)] divergent_count [of streams] by (auto simp: divergence_alerts_def mesh_alert_def)
  qed
qed

definition epoch_stream :: "string \<Rightarrow> nat \<Rightarrow> stream_telemetry" where
  "epoch_stream node e = (stream_from_stats node (nr_stream (plain_report [])))\<lparr> sx_canonical_epoch := Some e \<rparr>"

theorem divergence_alert_exact_witness:
  "canonical_epoch_divergent_stream_count [epoch_stream ''a'' 3, epoch_stream ''b'' 4] = 1 \<and>
   divergence_alerts rev 7 [epoch_stream ''a'' 3, epoch_stream ''b'' 4] \<noteq> []"
proof
  have "set (rev (stream_epochs [epoch_stream ''a'' 3, epoch_stream ''b'' 4])) = set (stream_epochs [epoch_stream ''a'' 3, epoch_stream ''b'' 4])"
    by simp
  note exact = divergence_alert_exact [of rev "[epoch_stream ''a'' 3, epoch_stream ''b'' 4]" 7, OF this]
  show one: "canonical_epoch_divergent_stream_count [epoch_stream ''a'' 3, epoch_stream ''b'' 4] = 1"
    by code_simp
  show "divergence_alerts rev 7 [epoch_stream ''a'' 3, epoch_stream ''b'' 4] \<noteq> []"
    using exact one by auto
qed

section \<open>Processing times\<close>

text \<open>The durations that the \<open>i\<close>-th bucket is the first to hold.\<close>

definition in_bucket :: "nat list \<Rightarrow> nat \<Rightarrow> nat" where
  "in_bucket ds i = length (filter (\<lambda>d. position (\<lambda>b. d \<le> b) EDGE_RESPONSE_DURATION_BUCKETS_US = Some i) ds)"

lemma recorded_bucket:
  assumes "length ds < 2 ^ 57" "\<forall>d \<in> set ds. d \<le> u64_max" "i < length EDGE_RESPONSE_DURATION_BUCKETS_US"
  shows "unat (h_buckets (recorded ds) ! i) = in_bucket ds i"
  using assms
proof (induction ds rule: rev_induct)
  case Nil
  then show ?case
    by (simp add: recorded_def histogram_default_def in_bucket_def)
next
  case (snoc d ds)
  let ?h = "recorded ds"
  have IH: "unat (h_buckets ?h ! i) = in_bucket ds i" and len: "length (h_buckets ?h) = length EDGE_RESPONSE_DURATION_BUCKETS_US"
    using snoc recorded_exact [of ds] by auto
  have "in_bucket ds i < 2 ^ 57"
    unfolding in_bucket_def by (rule le_less_trans [OF length_filter_le]) (use snoc.prems(1) in simp)
  then have "unat (h_buckets ?h ! i + 1) = in_bucket ds i + 1"
    using IH by (intro unat_add_lem [THEN iffD1, THEN trans]) auto
  moreover have "recorded (ds @ [d]) = record_us d ?h"
    by (simp add: recorded_def)
  ultimately show ?case
    using IH len snoc.prems(3) by (auto simp: record_us_def in_bucket_def nth_list_update split: option.split)
qed

lemma fold_max_Max: "ds \<noteq> [] \<Longrightarrow> fold max ds 0 = Max (set ds)" for ds :: "nat list"
  by (cases ds) (simp_all add: Max.set_eq_fold del: list.set)

text \<open>C38: The percentile behind the alert on relay processing is not one. The report copies the counts of single
  buckets, which the percentile reads as running sums; so unless one bucket alone holds 95 of 100 durations,
  what is reported as p95, and compared with the limit, is the longest duration ever seen.\<close>

theorem relay_p95_inflated:
  assumes "ds \<noteq> []" "length ds < 2 ^ 57" "\<forall>d \<in> set ds. d \<le> u64_max"
    and "\<forall>i < length EDGE_RESPONSE_DURATION_BUCKETS_US. 100 * in_bucket ds i < 95 * length ds"
  shows "relay_processing_p95 (relay_ingress_snapshot authenticated controlled (recorded ds)) = Some (Max (set ds))"
proof -
  let ?B = "EDGE_RESPONSE_DURATION_BUCKETS_US" and ?n = "length ds"
  note exact = recorded_exact [OF assms(2,3)]
  have "?n * 95 + 99 \<le> u64_max"
    using assms(2) by (simp add: u64_max_def)
  then have rank: "\<not> sat_add (sat_mul ?n 95) 99 div 100 \<le> c" if "100 * c < 95 * ?n" for c
    using that by (simp add: sat_add_def sat_mul_def)
  have "position (\<lambda>c. sat_add (sat_mul ?n 95) 99 div 100 \<le> c) (map unat (h_buckets (recorded ds))) = None"
    using assms(4) recorded_bucket [OF assms(2,3)] exact rank by (auto simp: position_None in_set_conv_nth)
  then show ?thesis
    using exact assms(1) fold_max_Max [OF assms(1)]
    by (simp add: relay_processing_p95_def relay_ingress_snapshot_def histogram_percentile_upper_bound_us_def Let_def)
qed

theorem relay_p95_inflated_witness:
  "let ds = replicate 10 90 @ replicate 9 200 @ [5000];
       session = relay_ingress_snapshot 1 1 (recorded ds)
   in relay_processing_p95 session = Some 5000 \<and> 95 * length ds \<le> 100 * covered ds 250 \<and>
      map al_code (relay_processing_alert 7 \<lparr> rn_node_id = ''r'', rn_region = ''eu'', rn_relay_session = session \<rparr>) =
        [''relay_processing_p95_exceeded'']"
proof -
  define ds :: "nat list" where "ds = replicate 10 90 @ replicate 9 200 @ [5000]"
  have "list_all (\<lambda>i. 100 * in_bucket ds i < 95 * length ds) [0..<length EDGE_RESPONSE_DURATION_BUCKETS_US]"
    unfolding ds_def by code_simp
  then have "\<forall>i < length EDGE_RESPONSE_DURATION_BUCKETS_US. 100 * in_bucket ds i < 95 * length ds"
    by (simp add: list_all_iff)
  then have "relay_processing_p95 (relay_ingress_snapshot 1 1 (recorded ds)) = Some (Max (set ds))"
    by (intro relay_p95_inflated) (auto simp: ds_def u64_max_def)
  then have p95: "relay_processing_p95 (relay_ingress_snapshot 1 1 (recorded ds)) = Some 5000"
    by (simp add: ds_def)
  moreover have "95 * length ds \<le> 100 * covered ds 250"
    by (simp add: ds_def covered_def)
  ultimately show ?thesis
    unfolding Let_def ds_def [symmetric]
    by (simp add: relay_processing_alert_def RELAY_PROCESSING_P95_WARN_US_def mesh_alert_def)
qed

end
