(* ===== verification/Mesh_Node.thy ===== *)
theory Mesh_Node
  imports Mesh_Alerts Edge_Lifecycle
begin

text \<open>
  A node as a member of the mesh, in \<open>src/src/main.rs\<close>: the report that it makes of its own cache
  (\<open>LiveTsCache::mesh_snapshot\<close>), and the part of \<open>AppRouter\<close> that acts on the mesh: control commands and where they
  apply, requests for replicas, the edges that a rejected player is sent to, and the lifecycle of edges. It
  composes the live cache, the aggregator of reports, the log of commands, the planners of replicas and of
  edges, and the load of the edge.

  Outcomes of the tasks beyond (the mesh that answers a request for a replica, the channel that takes a control
  message, the commands that provision a node) and the readings of the clock are in the environment of a call.
\<close>

section \<open>What the cache reports\<close>

definition estimated_storage_bytes :: "live_state \<Rightarrow> nat" where
  "estimated_storage_bytes s = foldl sat_add 0 (vals (st_retained_bytes s))"

definition estimated_storage_bytes_for_stream :: "live_state \<Rightarrow> u64 \<Rightarrow> nat" where
  "estimated_storage_bytes_for_stream s stream_id = get_or 0 (st_retained_bytes s) stream_id"

definition active_stream_ids :: "live_state \<Rightarrow> u64 list" where
  "active_stream_ids s = sort (keys (filter (\<lambda>(_, parts). parts \<noteq> []) (st_parts s)))"

definition reaches :: "(nat \<times> nat) option \<Rightarrow> nat \<Rightarrow> bool" where
  "reaches pos head = (case pos of None \<Rightarrow> False | Some (_, contiguous) \<Rightarrow> head \<le> contiguous)"

definition canonical_gap_count ::
  "'k chunk_lib \<Rightarrow> live_config \<Rightarrow> 'k live_cache \<Rightarrow> u64 \<Rightarrow> nat option \<Rightarrow> nat option \<Rightarrow> nat option" where
  "canonical_gap_count lib cfg c stream_id base_object head_object =
     Option.bind base_object (\<lambda>base. Option.bind head_object (\<lambda>head.
       if reaches (stream_position_for_id lib c stream_id) head then Some 0
       else
        let retained_start = max (sat_sub head (sat_sub (lt_window_parts cfg) 1)) base in
        Some (foldl (\<lambda>gaps obj. if cl_get_for_stream lib (lv_chunks c) stream_id obj = None then sat_add gaps 1 else gaps)
          0 [retained_start ..< Suc head])))"

definition cache_stats :: "'k chunk_lib \<Rightarrow> live_config \<Rightarrow> nat \<Rightarrow> string list \<Rightarrow> 'k live_cache \<Rightarrow> stats_snapshot" where
  "cache_stats lib cfg now_ms peers c =
     (let s = lv_state c;
          sid = lt_stream_id cfg;
          head_object = map_of (st_latest_canonical s) sid;
          latest_mesh_part = map_option snd (stream_position_for_id lib c sid)
      in \<lparr> ss_stream_id = sid, ss_stream_id_text = stream_text sid, ss_part_target_ms = lt_part_target_ms cfg,
           ss_parts_per_segment = lt_parts_per_segment cfg, ss_window_parts = lt_window_parts cfg,
           ss_datagrams_received = st_datagrams_received s, ss_bytes_received = st_bytes_received s,
           ss_current_part_bytes = length (st_current s), ss_latest_local_part = st_last_committed_seq s,
           ss_latest_local_part_bytes = st_last_committed_bytes s,
           ss_latest_local_part_duration_ms = st_last_committed_duration_ms s, ss_latest_mesh_part = latest_mesh_part,
           ss_canonical_epoch = map_of (st_canonical_epoch s) sid,
           ss_canonical_epoch_activation_delay_us = map_of (st_activation_delay_us s) sid,
           ss_contiguous_object = latest_mesh_part, ss_head_object = head_object,
           ss_gap_count = canonical_gap_count lib cfg c sid (map_of (st_subscription_base s) sid) head_object,
           ss_mesh_peers = peers,
           ss_latest_local_part_age_ms = map_option (\<lambda>t. sat_sub now_ms t) (st_last_committed_unix_ms s),
           ss_last_ingest_age_ms = map_option (\<lambda>t. sat_sub now_ms t) (st_last_ingest_unix_ms s) \<rparr>)"

text \<open>One turn of the loop of \<open>stream_telemetry\<close>.\<close>

definition telemetry_of_stream ::
  "'k chunk_lib \<Rightarrow> live_config \<Rightarrow> string \<Rightarrow> stats_snapshot \<Rightarrow> 'k live_cache \<Rightarrow> u64 \<times> stream_summary \<Rightarrow> stream_telemetry option" where
  "telemetry_of_stream lib cfg name sn c entry =
     (case entry of (sid, retained) \<Rightarrow>
      Option.bind (cl_stream_idx lib (lv_chunks c) sid) (\<lambda>idx.
      Option.bind (cl_last lib (lv_chunks c) idx) (\<lambda>latest_part.
       let s = lv_state c;
           own = (sid = lt_stream_id cfg);
           latest_part_bytes = (if sm_latest_sequence retained = Some latest_part then sm_latest_bytes retained
             else map_option (\<lambda>(payload, _). length payload) (cl_get lib (lv_chunks c) idx latest_part));
           head_object = (if own then ss_head_object sn else map_of (st_latest_canonical s) sid)
       in Some \<lparr> sx_node_id = name, sx_stream_id = sid, sx_stream_id_text = stream_text sid,
            sx_latest_local_part = (if own then ss_latest_local_part sn else None),
            sx_latest_local_part_bytes = (if own then
                (case ss_latest_local_part_bytes sn of None \<Rightarrow> latest_part_bytes | Some n \<Rightarrow> Some n) else latest_part_bytes),
            sx_latest_local_part_duration_ms = (if own then ss_latest_local_part_duration_ms sn else None),
            sx_latest_local_part_age_ms = (if own then ss_latest_local_part_age_ms sn else None),
            sx_latest_mesh_part = Some latest_part,
            sx_canonical_epoch = (if own then ss_canonical_epoch sn else map_of (st_canonical_epoch s) sid),
            sx_canonical_epoch_activation_delay_us =
              (if own then ss_canonical_epoch_activation_delay_us sn else map_of (st_activation_delay_us s) sid),
            sx_contiguous_object = (if own then ss_contiguous_object sn else Some latest_part),
            sx_head_object = head_object,
            sx_gap_count = (if own then ss_gap_count sn
              else canonical_gap_count lib cfg c sid (map_of (st_subscription_base s) sid) head_object),
            sx_bytes_received = (if own then max (ss_bytes_received sn) (sm_retained_bytes retained) else sm_retained_bytes retained),
            sx_datagrams_received =
              (if own then max (ss_datagrams_received sn) (sm_retained_parts retained) else sm_retained_parts retained),
            sx_last_ingest_age_ms = (if own then ss_last_ingest_age_ms sn else None),
            sx_stale_threshold_ms = Some (stream_stale_threshold_ms (ss_part_target_ms sn) (ss_window_parts sn)),
            sx_mesh_lag_parts = None \<rparr>)))"

definition cache_stream_telemetry ::
  "'k chunk_lib \<Rightarrow> live_config \<Rightarrow> string \<Rightarrow> stats_snapshot \<Rightarrow> 'k live_cache \<Rightarrow> stream_telemetry list" where
  "cache_stream_telemetry lib cfg name sn c =
     sort_key sx_stream_id (List.map_filter (telemetry_of_stream lib cfg name sn c) (retained_stream_summaries (lv_state c)))"

definition stream_is_locally_fresh :: "'k chunk_lib \<Rightarrow> live_config \<Rightarrow> nat \<Rightarrow> 'k live_cache \<Rightarrow> u64 \<Rightarrow> bool" where
  "stream_is_locally_fresh lib cfg now_ms c stream_id =
     (case map_of (st_stream_last_ingest (lv_state c)) stream_id of
        None \<Rightarrow> False
      | Some last_ingest \<Rightarrow>
          if stream_stale_threshold_ms (lt_part_target_ms cfg) (lt_window_parts cfg) < sat_sub now_ms last_ingest then False
          else (case map_of (st_latest_canonical (lv_state c)) stream_id of
                  None \<Rightarrow> True
                | Some head \<Rightarrow> reaches (stream_position_for_id lib c stream_id) head))"

definition streams_are_locally_fresh :: "live_config \<Rightarrow> nat \<Rightarrow> live_state \<Rightarrow> u64 list \<Rightarrow> bool" where
  "streams_are_locally_fresh cfg now_ms s stream_ids \<longleftrightarrow>
     stream_ids \<noteq> [] \<and>
     list_all (\<lambda>sid.
       (case map_of (st_stream_last_ingest s) sid of
          None \<Rightarrow> False
        | Some t \<Rightarrow> sat_sub now_ms t \<le> stream_stale_threshold_ms (lt_part_target_ms cfg) (lt_window_parts cfg)) \<and>
       (case map_of (st_latest_canonical s) sid of
          None \<Rightarrow> True
        | Some head \<Rightarrow> (case map_of (st_parts s) sid of
             None \<Rightarrow> False
           | Some parts \<Rightarrow> parts \<noteq> [] \<and> head \<le> fst (last parts)))) stream_ids"

text \<open>The loop of \<open>replica_request_from_slot\<close>: the first slot that is not there, or the one after the last.\<close>

fun first_missing :: "(nat \<Rightarrow> bool) \<Rightarrow> nat \<Rightarrow> nat option \<Rightarrow> nat list \<Rightarrow> nat" where
  "first_missing present start latest [] = (case latest of None \<Rightarrow> start | Some q \<Rightarrow> sat_add q 1)"
| "first_missing present start latest (q # qs) =
     (if present q then first_missing present start (Some q) qs else q)"

definition slot_present :: "'k chunk_lib \<Rightarrow> 'k \<Rightarrow> nat \<Rightarrow> nat \<Rightarrow> bool" where
  "slot_present lib chunks idx q = (case cl_get lib chunks idx q of None \<Rightarrow> False | Some (payload, h) \<Rightarrow> h \<noteq> 0 \<or> payload \<noteq> [])"

definition replica_request_from_slot :: "'k chunk_lib \<Rightarrow> 'k live_cache \<Rightarrow> u64 \<Rightarrow> nat" where
  "replica_request_from_slot lib c stream_id =
     (case stream_position_for_id lib c stream_id of
        None \<Rightarrow> 0
      | Some (idx, l) \<Rightarrow>
          let start = cl_retained_start lib (lv_chunks c) l in
          first_missing (slot_present lib (lv_chunks c) idx) start None [start ..< Suc l])"

section \<open>The router\<close>

record ('k, 'f) router =
  ro_draining :: bool
  ro_cache :: "'k live_cache"
  ro_telemetry :: "'f node_report aggregator"
  ro_control :: "control_command list"
  ro_demand :: "(u64 \<times> nat) list"
  ro_lifecycle :: lifecycle_planner
  ro_load :: edge_load

record control_envelope =
  ce_id :: nat
  ce_origin_node_id :: string
  ce_kind :: control_kind
  ce_request :: control_request
  ce_target_node_ids :: "string list"

text \<open>What a call meets: the configuration of the node, the clock when it begins (and, for a request for a replica
  that it makes, when that is recorded), and the outcomes of what it asks of others. A channel that is not
  connected, or an error, is not an envelope sent.\<close>

datatype publish_result = Published | NoPublisher | PublishFailed string

record ('k, 'f) router_env =
  re_node :: "'f mesh_node"
  re_chunks :: "'k chunk_lib"
  re_config :: live_config
  re_policy :: "'f replication_policy"
  re_plan :: "'f plan_env"
  re_f64_max :: "'f \<Rightarrow> 'f \<Rightarrow> 'f"
  re_lifecycle_config :: lifecycle_config
  re_playback_base_url :: "string option"
  re_role :: string
  re_now_ms :: nat
  re_replica_ms :: nat
  re_second :: nat
  re_elapsed_ms :: nat
  re_peers :: "string list"
  re_mesh_addr :: string
  re_relay_session :: relay_session
  re_links :: "'f link_observation list"
  re_fails :: "nat \<Rightarrow> bool"
  re_create_stream :: "'k \<Rightarrow> u64 \<Rightarrow> 'k"
  re_request_replica :: "u64 \<Rightarrow> nat \<Rightarrow> nat option"
  re_publish :: "control_envelope \<Rightarrow> publish_result"
  re_provision_run :: "nat \<Rightarrow> control_request \<Rightarrow> string"
  re_provision_close :: "nat \<Rightarrow> control_request \<Rightarrow> string"

definition mesh_snapshot_of_cache :: "('k, 'f) router_env \<Rightarrow> 'f mesh_node \<Rightarrow> ('k, 'f) router \<Rightarrow> 'f node_report" where
  "mesh_snapshot_of_cache env node r =
     (let sn = cache_stats (re_chunks env) (re_config env) (re_now_ms env) (re_peers env) (ro_cache r);
          streams = cache_stream_telemetry (re_chunks env) (re_config env) (mn_node_id node) sn (ro_cache r);
          node' = node\<lparr> mn_used_storage_bytes := min (estimated_storage_bytes (lv_state (ro_cache r))) (mn_total_storage_bytes node),
             mn_active_streams := length streams,
             mn_contributor_streams := length (filter (\<lambda>s. sx_latest_local_part s \<noteq> None) streams) \<rparr>
      in \<lparr> nr_node = node', nr_mesh_addr = Some (re_mesh_addr env), nr_edge_service = None,
           nr_relay_session = re_relay_session env, nr_link_observations = re_links env,
           nr_peers = map (\<lambda>addr. (addr, ''discovered'')) (ss_mesh_peers sn), nr_stream = sn, nr_streams = streams,
           nr_recent_commands = recent_commands (ro_control r) \<rparr>)"

text \<open>A report as the aggregator keeps it.\<close>

definition stamped :: "nat \<Rightarrow> 'f node_report \<Rightarrow> 'f node_report mesh_snapshot" where
  "stamped updated r = \<lparr> ms_node_id = mn_node_id (nr_node r), ms_region = mn_region (nr_node r), ms_updated_unix_ms = updated, ms_rest = r \<rparr>"

definition local_mesh_snapshot ::
  "('k, 'f) router_env \<Rightarrow> ('k, 'f) router \<Rightarrow> ('k, 'f) router \<times> 'f node_report mesh_snapshot" where
  "local_mesh_snapshot env r =
     (let node = (re_node env)\<lparr> mn_draining := ro_draining r \<rparr>;
          report = mesh_snapshot_of_cache env node r;
          (load, service) = edge_load_snapshot (re_second env) (re_elapsed_ms env) node (re_playback_base_url env) (re_role env) (ro_load r)
      in (r\<lparr> ro_load := load \<rparr>, stamped (re_now_ms env) (report\<lparr> nr_edge_service := Some service \<rparr>)))"

definition mesh_view ::
  "('k, 'f) router_env \<Rightarrow> ('k, 'f) router \<Rightarrow> ('k, 'f) router \<times> 'f node_report mesh_snapshot list" where
  "mesh_view env r =
     (let (r1, own) = local_mesh_snapshot env r;
          (telemetry, snapshots, _) = snapshots_with_local (re_now_ms env) own (ro_telemetry r1)
      in (r1\<lparr> ro_telemetry := telemetry \<rparr>, snapshots))"

section \<open>Planning of replicas\<close>

definition stream_in :: "'f node_report mesh_snapshot \<Rightarrow> u64 \<Rightarrow> stream_telemetry option" where
  "stream_in s sid = snapshot_stream_for_id (ms_rest s) sid"

definition plan_replicas_from_snapshots ::
  "('k, 'f) router_env \<Rightarrow> u64 \<Rightarrow> nat \<Rightarrow> 'f node_report mesh_snapshot list \<Rightarrow> 'f demand_signal list \<Rightarrow> 'f replica_placement list" where
  "plan_replicas_from_snapshots env sid local_bytes snapshots demand =
     (let nodes = map (\<lambda>s. nr_node (ms_rest s)) snapshots;
          holding = map (\<lambda>s. mn_node_id (nr_node (ms_rest s)))
            (filter (\<lambda>s. case stream_in s sid of None \<Rightarrow> False | Some st \<Rightarrow> stream_active st) snapshots);
          existing = remdups (if 0 < local_bytes then mn_node_id (re_node env) # holding else holding);
          part_bytes = List.map_filter (\<lambda>s. Option.bind (stream_in s sid) sx_latest_local_part_bytes) snapshots;
          telemetry_bytes = sat_mul (foldl max 0 part_bytes) (lt_window_parts (re_config env));
          stream = \<lparr> si_stream_id = sid, si_bytes = max (max local_bytes telemetry_bytes) 1,
            si_contributor_node_id = map_option (\<lambda>s. mn_node_id (nr_node (ms_rest s)))
              (find (\<lambda>s. case stream_in s sid of None \<Rightarrow> False | Some st \<Rightarrow> sx_latest_local_part st \<noteq> None) snapshots),
            si_active = (existing \<noteq> []) \<rparr>
      in if \<not> si_active stream \<and> demand = [] then []
         else plan_replicas (re_plan env) (re_policy env) stream nodes existing demand)"

definition stream_ids_of_view :: "live_state \<Rightarrow> 'f node_report mesh_snapshot list \<Rightarrow> u64 list" where
  "stream_ids_of_view s snapshots =
     sort (remdups (active_stream_ids s @ concat (map (\<lambda>p. snapshot_stream_ids (ms_rest p)) snapshots)))"

definition plan_all_active_replicas_from_snapshots ::
  "('k, 'f) router_env \<Rightarrow> live_state \<Rightarrow> 'f node_report mesh_snapshot list \<Rightarrow> 'f replica_placement list" where
  "plan_all_active_replicas_from_snapshots env s snapshots =
     concat (map (\<lambda>sid. plan_replicas_from_snapshots env sid (estimated_storage_bytes_for_stream s sid) snapshots [])
       (stream_ids_of_view s snapshots))"

definition comma_list :: "string list \<Rightarrow> string" where
  "comma_list ss = (case ss of [] \<Rightarrow> [] | s # rest \<Rightarrow> s @ concat (map (\<lambda>x. '','' @ x) rest))"

definition format_replica_request_status :: "string \<Rightarrow> nat \<Rightarrow> 'f replica_placement list \<Rightarrow> string" where
  "format_replica_request_status reason peer_count planned =
     (if planned = [] then reason @ '': requested from '' @ dec peer_count @ '' peers; no eligible planned targets''
      else
       let tgts = comma_list (map pl_target_node_id (take 5 planned)) @ (if 5 < length planned then '',...'' else [])
       in reason @ '': requested from '' @ dec peer_count @ '' peers; planned '' @ dec (length planned) @ '' targets: '' @ tgts)"

text \<open>The command that a request for a replica leaves in the log.\<close>

definition log_replica_request ::
  "('k, 'f) router_env \<Rightarrow> u64 \<Rightarrow> string \<Rightarrow> string \<Rightarrow> control_command list \<Rightarrow> control_command list" where
  "log_replica_request env sid region status log =
     (let request = \<lparr> cr_node_id = Some (mn_node_id (re_node env)), cr_region = Some region, cr_stream_id = Some sid \<rparr>;
          (log1, command) = record_command (\<lambda>s. stream_text s) ReplicaRequest request (re_replica_ms env) (re_replica_ms env) log
      in replace_command (command\<lparr> cc_status := status \<rparr>) log1)"

text \<open>\<open>None\<close> is a request whose exchange never ends.\<close>

definition request_replica_for_stream ::
  "('k, 'f) router_env \<Rightarrow> u64 \<Rightarrow> string \<Rightarrow> string option \<Rightarrow> ('k, 'f) router \<Rightarrow> ('k, 'f) router option" where
  "request_replica_for_stream env sid reason demand_region r =
     (if stream_is_locally_fresh (re_chunks env) (re_config env) (re_now_ms env) (ro_cache r) sid then Some r
      else
       Option.bind (should_request_replica (re_fails env) sid (re_now_ms env) (ro_demand r)) (\<lambda>(demand, granted).
       let r0 = r\<lparr> ro_demand := demand \<rparr> in
       if \<not> granted then Some r0
       else
        let (r1, snapshots) = mesh_view env r0;
            region = or_else (mn_region (re_node env)) demand_region;
            continent = (case find (\<lambda>s. mn_region (nr_node (ms_rest s)) = region) snapshots of
               None \<Rightarrow> mn_continent (re_node env) | Some s \<Rightarrow> mn_continent (nr_node (ms_rest s)));
            signal = \<lparr> ds_stream_id = sid, ds_requester_node_id = mn_node_id (re_node env), ds_region = region,
               ds_continent = continent, ds_active_readers = max (rp_demand_active_readers (re_policy env)) 1,
               ds_reads_per_sec = re_f64_max env (rp_demand_reads_per_sec (re_policy env)) (f_lit (pe_f64 (re_plan env)) 10 1),
               ds_observed_unix_ms = re_now_ms env \<rparr>;
            planned = plan_replicas_from_snapshots env sid
               (estimated_storage_bytes_for_stream (lv_state (ro_cache r1)) sid) snapshots [signal];
            from_slot = replica_request_from_slot (re_chunks env) (ro_cache r1) sid
        in case re_request_replica env sid from_slot of
             None \<Rightarrow> Some r1
           | Some peer_count \<Rightarrow> Some (r1\<lparr> ro_control := log_replica_request env sid region
               (format_replica_request_status reason peer_count planned) (ro_control r1) \<rparr>)))"

definition known_active_stream_ids :: "('k, 'f) router_env \<Rightarrow> ('k, 'f) router \<Rightarrow> ('k, 'f) router \<times> u64 list" where
  "known_active_stream_ids env r =
     (let (r1, snapshots) = mesh_view env r in (r1, stream_ids_of_view (lv_state (ro_cache r1)) snapshots))"

definition request_planned_local_replica ::
  "('k, 'f) router_env \<Rightarrow> u64 \<Rightarrow> string \<Rightarrow> ('k, 'f) router \<Rightarrow> (('k, 'f) router \<times> bool) option" where
  "request_planned_local_replica env sid reason r =
     (let (r1, snapshots) = mesh_view env r;
          own = mn_node_id (re_node env);
          planned = plan_replicas_from_snapshots env sid (estimated_storage_bytes_for_stream (lv_state (ro_cache r1)) sid) snapshots []
      in if \<not> list_ex (\<lambda>p. pl_target_node_id p = own) planned then Some (r1, False)
         else
          Option.bind (should_request_replica (re_fails env) sid (re_now_ms env) (ro_demand r1)) (\<lambda>(demand, granted).
          let r2 = r1\<lparr> ro_demand := demand \<rparr> in
          if \<not> granted then Some (r2, False)
          else case re_request_replica env sid (replica_request_from_slot (re_chunks env) (ro_cache r2) sid) of
                 None \<Rightarrow> Some (r2, False)
               | Some peer_count \<Rightarrow>
                   Some (if 0 < peer_count then r2\<lparr> ro_control := log_replica_request env sid (mn_region (re_node env))
                       (format_replica_request_status reason peer_count planned) (ro_control r2) \<rparr> else r2, True)))"

fun request_each ::
  "('k, 'f) router_env \<Rightarrow> string \<Rightarrow> u64 list \<Rightarrow> ('k, 'f) router \<Rightarrow> (('k, 'f) router \<times> u64 list) option" where
  "request_each env reason [] r = Some (r, [])"
| "request_each env reason (sid # sids) r =
     Option.bind (request_planned_local_replica env sid reason r) (\<lambda>(r1, asked).
       map_option (\<lambda>(r2, requested). (r2, if asked then sid # requested else requested)) (request_each env reason sids r1))"

definition request_planned_local_replicas ::
  "('k, 'f) router_env \<Rightarrow> string \<Rightarrow> ('k, 'f) router \<Rightarrow> (('k, 'f) router \<times> u64 list) option" where
  "request_planned_local_replicas env reason r =
     (let (r1, sids) = known_active_stream_ids env r in request_each env reason sids r1)"

section \<open>Control\<close>

definition control_targets_local :: "('k, 'f) router_env \<Rightarrow> control_request \<Rightarrow> string list \<Rightarrow> bool" where
  "control_targets_local env request tgts =
     (if tgts \<noteq> [] then mn_node_id (re_node env) \<in> set tgts
      else case cr_node_id request of
             Some n \<Rightarrow> n = mn_node_id (re_node env)
           | None \<Rightarrow> (case cr_region request of Some region \<Rightarrow> region = mn_region (re_node env) | None \<Rightarrow> True))"

definition selected_control_target_node_ids ::
  "('k, 'f) router_env \<Rightarrow> control_kind \<Rightarrow> control_request \<Rightarrow> ('k, 'f) router \<Rightarrow> ('k, 'f) router \<times> string list" where
  "selected_control_target_node_ids env kind request r =
     (if kind = ProvisionNode then (r, [])
      else case cr_node_id request of
             Some n \<Rightarrow> (r, [n])
           | None \<Rightarrow> (case cr_region request of
                None \<Rightarrow> (r, [])
              | Some region \<Rightarrow>
                  let (r1, snapshots) = mesh_view env r;
                      ids = map (\<lambda>s. mn_node_id (nr_node (ms_rest s))) (filter (\<lambda>s. mn_region (nr_node (ms_rest s)) = region) snapshots)
                  in (r1, dedup_by (\<lambda>x. x) (sort ids))))"

definition apply_control_locally ::
  "('k, 'f) router_env \<Rightarrow> control_kind \<Rightarrow> control_request \<Rightarrow> bool \<Rightarrow> nat \<Rightarrow> string list \<Rightarrow> ('k, 'f) router
     \<Rightarrow> (('k, 'f) router \<times> string) option" where
  "apply_control_locally env kind request originated control_id tgts r =
     (if kind \<noteq> ProvisionNode \<and> \<not> control_targets_local env request tgts then
        Some (r, ''local skipped: target does not match'')
      else case kind of
        WarmStream \<Rightarrow>
          (case cr_stream_id request of
             None \<Rightarrow> Some (r, ''local warm skipped: missing stream id'')
           | Some sid \<Rightarrow>
               map_option (\<lambda>r1. (r1, ''local warm requested''))
                 (request_replica_for_stream env sid ''warm-stream'' (cr_region request)
                   (r\<lparr> ro_cache := (ro_cache r)\<lparr> lv_chunks := re_create_stream env (lv_chunks (ro_cache r)) sid \<rparr> \<rparr>)))
      | CloseNode \<Rightarrow> Some (r\<lparr> ro_draining := True \<rparr>, ''local close requested: draining'')
      | ProvisionNode \<Rightarrow>
          Some (r, if \<not> originated then ''remote provision noted: executor only runs at command origin''
                   else re_provision_run env control_id request)
      | ReplicaRequest \<Rightarrow> Some (r, ''local replica request command ignored''))"

fun join_statuses :: "string list \<Rightarrow> string" where
  "join_statuses [] = []"
| "join_statuses [s] = s"
| "join_statuses (s # ss) = s @ ''; '' @ join_statuses ss"

text \<open>The result names the envelope that was given to the channel, if one was.\<close>

definition execute_control_internal_with_targets ::
  "('k, 'f) router_env \<Rightarrow> control_kind \<Rightarrow> control_request \<Rightarrow> bool \<Rightarrow> string list \<Rightarrow> ('k, 'f) router
     \<Rightarrow> (('k, 'f) router \<times> control_command \<times> control_envelope option) option" where
  "execute_control_internal_with_targets env kind request dispatch tgts r =
     (let (log, command) = record_command (\<lambda>s. stream_text s) kind request (re_now_ms env) (re_now_ms env) (ro_control r) in
      Option.bind (apply_control_locally env kind request dispatch (cc_id command) tgts (r\<lparr> ro_control := log \<rparr>)) (\<lambda>(r1, status).
      let closed = (if dispatch \<and> kind = CloseNode \<and> cr_node_id request \<noteq> None
            then [re_provision_close env (cc_id command) request] else []);
          envelope = \<lparr> ce_id = cc_id command, ce_origin_node_id = mn_node_id (re_node env), ce_kind = kind,
            ce_request = request, ce_target_node_ids = tgts \<rparr>;
          outcome = re_publish env envelope;
          published = (if \<not> dispatch then [] else case outcome of
              Published \<Rightarrow> [if tgts = [] then ''published AVMC control'' else ''published AVMC control to '' @ comma_list tgts]
            | NoPublisher \<Rightarrow> [''no tcp-changes control publisher'']
            | PublishFailed e \<Rightarrow> [''control publish failed: '' @ e]);
          command' = command\<lparr> cc_status := join_statuses (status # closed @ published) \<rparr>
      in Some (r1\<lparr> ro_control := replace_command command' (ro_control r1) \<rparr>, command',
               if dispatch \<and> outcome = Published then Some envelope else None)))"

definition execute_control ::
  "('k, 'f) router_env \<Rightarrow> control_kind \<Rightarrow> control_request \<Rightarrow> ('k, 'f) router
     \<Rightarrow> (('k, 'f) router \<times> control_command \<times> control_envelope option) option" where
  "execute_control env kind request r =
     (let (r1, tgts) = selected_control_target_node_ids env kind request r in
      execute_control_internal_with_targets env kind request True tgts r1)"

definition ingest_control_payload ::
  "('k, 'f) router_env \<Rightarrow> control_envelope \<Rightarrow> ('k, 'f) router \<Rightarrow> (('k, 'f) router \<times> bool) option" where
  "ingest_control_payload env envelope r =
     (if ce_origin_node_id envelope = mn_node_id (re_node env) then Some (r, False)
      else if \<not> control_targets_local env (ce_request envelope) (ce_target_node_ids envelope) then Some (r, False)
      else
       map_option (\<lambda>(r1, command, _).
         (r1\<lparr> ro_control := replace_command
            (command\<lparr> cc_status := ''received from '' @ ce_origin_node_id envelope @ '' command '' @ dec (ce_id envelope) @
               ''; '' @ cc_status command \<rparr>) (ro_control r1) \<rparr>, True))
         (execute_control_internal_with_targets env (ce_kind envelope) (ce_request envelope) False (ce_target_node_ids envelope) r))"

section \<open>Edges\<close>

definition edge_utilization :: "edge_service \<Rightarrow> nat" where
  "edge_utilization e =
     (if es_egress_capacity_bps e = 0 then u64_max else sat_mul (es_egress_observed_bps e) 1000000 div es_egress_capacity_bps e)"

definition is_alternative :: "('k, 'f) router_env \<Rightarrow> 'f node_report mesh_snapshot \<Rightarrow> bool" where
  "is_alternative env s \<longleftrightarrow>
     (let node = nr_node (ms_rest s) in
      mn_node_id node \<noteq> mn_node_id (re_node env) \<and> mn_region node = mn_region (re_node env) \<and> \<not> mn_draining node)"

definition alternative_candidate :: "bytes \<Rightarrow> bytes option \<Rightarrow> edge_service \<Rightarrow> ((nat \<times> nat \<times> string) \<times> bytes) option" where
  "alternative_candidate path query e =
     (if es_cache_mesh_role e = ''edge'' \<and> \<not> es_draining e \<and> \<not> es_egress_overloaded e then
        Option.bind (es_playback_base_url e) (\<lambda>base.
          map_option (\<lambda>url. ((edge_utilization e, es_active_readers e, es_node_id e), url)) (playback_request_url (ascii base) path query))
      else None)"

text \<open>The urls in order of their load, each once, at most eight.\<close>

definition same_region_alternative_edges ::
  "('k, 'f) router_env \<Rightarrow> bytes \<Rightarrow> bytes option \<Rightarrow> ('k, 'f) router \<Rightarrow> ('k, 'f) router \<times> bytes list" where
  "same_region_alternative_edges env path query r =
     (let (r1, snapshots) = mesh_view env r;
          services = List.map_filter (\<lambda>s. nr_edge_service (ms_rest s)) (filter (is_alternative env) snapshots);
          candidates = sort_key fst (List.map_filter (alternative_candidate path query) services)
      in (r1, take 8 (rev (remdups (rev (map snd candidates))))))"

text \<open>\<open>Some\<close> is the answer that an overloaded edge gives, with the other edges it names.\<close>

definition playback_admission_response ::
  "('k, 'f) router_env \<Rightarrow> bytes \<Rightarrow> bytes option \<Rightarrow> string option \<Rightarrow> ('k, 'f) router \<Rightarrow> ('k, 'f) router \<times> bytes list option" where
  "playback_admission_response env path query session r =
     (let (egress, admission) = admit_playback session (re_second env) (re_elapsed_ms env) (re_elapsed_ms env) (el_egress (ro_load r));
          r1 = r\<lparr> ro_load := (ro_load r)\<lparr> el_egress := egress \<rparr> \<rparr>
      in if admission \<noteq> Rejected then (r1, None)
         else
          let (r2, alternatives) = same_region_alternative_edges env path query r1
          in (r2\<lparr> ro_load := (ro_load r2)\<lparr> el_egress := Edge_Admission.record_rejection (el_egress (ro_load r2)) \<rparr> \<rparr>, Some alternatives))"

definition lifecycle_node_of :: "'f node_report mesh_snapshot \<Rightarrow> lifecycle_node option" where
  "lifecycle_node_of s =
     Option.bind (nr_edge_service (ms_rest s)) (\<lambda>e.
       if es_cache_mesh_role e \<noteq> ''edge'' then None
       else Some \<lparr> node_id = es_node_id e, node_region = es_region e, updated_unix_ms = ms_updated_unix_ms s,
         last_response_unix_ms = es_last_response_unix_ms e, active_readers = es_active_readers e,
         egress_overloaded = es_egress_overloaded e, draining = es_draining e \<rparr>)"

fun action_request :: "lifecycle_action \<Rightarrow> control_kind \<times> control_request" where
  "action_request (Provision region) =
     (ProvisionNode, \<lparr> cr_node_id = None, cr_region = Some region, cr_stream_id = None \<rparr>)"
| "action_request (Close n region) =
     (CloseNode, \<lparr> cr_node_id = Some n, cr_region = Some region, cr_stream_id = None \<rparr>)"

fun execute_actions ::
  "('k, 'f) router_env \<Rightarrow> lifecycle_action list \<Rightarrow> ('k, 'f) router \<Rightarrow> (('k, 'f) router \<times> control_envelope list) option" where
  "execute_actions env [] r = Some (r, [])"
| "execute_actions env (a # actions) r =
     (let (kind, request) = action_request a in
      Option.bind (execute_control env kind request r) (\<lambda>(r1, _, envelope).
        map_option (\<lambda>(r2, envelopes). (r2, (case envelope of None \<Rightarrow> [] | Some e \<Rightarrow> [e]) @ envelopes)) (execute_actions env actions r1)))"

definition run_edge_lifecycle ::
  "('k, 'f) router_env \<Rightarrow> ('k, 'f) router \<Rightarrow> (('k, 'f) router \<times> control_envelope list) option" where
  "run_edge_lifecycle env r =
     (if \<not> enabled (re_lifecycle_config env) then Some (r, [])
      else
       let (r1, snapshots) = mesh_view env r;
           nodes = List.map_filter lifecycle_node_of snapshots;
           (planner, actions) = plan (re_lifecycle_config env) nodes (mn_node_id (re_node env)) (re_now_ms env) (ro_lifecycle r1)
       in execute_actions env actions (r1\<lparr> ro_lifecycle := planner \<rparr>))"

text \<open>One tick of \<open>run_replication_planner\<close>.\<close>

definition planner_tick ::
  "('k, 'f) router_env \<Rightarrow> ('k, 'f) router \<Rightarrow> (('k, 'f) router \<times> control_envelope list \<times> u64 list) option" where
  "planner_tick env r =
     Option.bind (run_edge_lifecycle env r) (\<lambda>(r1, envelopes).
       map_option (\<lambda>(r2, requested). (r2, envelopes, requested)) (request_planned_local_replicas env ''baseline-replication'' r1))"

end
