(* ===== verification/Mesh_Node_Properties.thy ===== *)
theory Mesh_Node_Properties
  imports Mesh_Node Edge_Load_Properties Replica_Properties
begin

text \<open>
  Properties of a node as a member of the mesh: which nodes a command reaches, which edges a rejected player is
  sent to, and where a replica resumes.
\<close>

section \<open>Commands\<close>

lemma dedup_self_set [simp]: "set (dedup_by (\<lambda>x. x) xs) = set xs"
  by (induction "\<lambda>x :: 'a. x" xs rule: dedup_by.induct) auto

text \<open>The nodes that a request means, given what the node that issues it knows of the mesh: the one that it names,
  or all of its region (those that are known there, or if none is, those that say so themselves), or all.\<close>

definition request_hits :: "control_request \<Rightarrow> 'f node_report mesh_snapshot list \<Rightarrow> 'f mesh_node \<Rightarrow> bool" where
  "request_hits request seen node =
     (case cr_node_id request of
        Some n \<Rightarrow> mn_node_id node = n
      | None \<Rightarrow> (case cr_region request of
           None \<Rightarrow> True
         | Some region \<Rightarrow>
             let known = {mn_node_id (nr_node (ms_rest s)) | s. s \<in> set seen \<and> mn_region (nr_node (ms_rest s)) = region}
             in if known = {} then mn_region node = region else mn_node_id node \<in> known))"

lemma selected_targets:
  assumes "selected_control_target_node_ids env kind request r = (r1, tgts)" "kind \<noteq> ProvisionNode"
  shows "control_targets_local env' request tgts = request_hits request (snd (mesh_view env r)) (re_node env')"
    and "ro_draining r1 = ro_draining r"
proof -
  have draining: "ro_draining (fst (mesh_view env r)) = ro_draining r"
    by (simp add: mesh_view_def local_mesh_snapshot_def Let_def split_beta)
  show "ro_draining r1 = ro_draining r"
    using assms draining
    by (auto simp: selected_control_target_node_ids_def Let_def split_beta split: option.splits if_splits)
  show "control_targets_local env' request tgts = request_hits request (snd (mesh_view env r)) (re_node env')"
  proof (cases "cr_node_id request")
    case (Some n)
    then show ?thesis
      using assms by (auto simp: selected_control_target_node_ids_def control_targets_local_def request_hits_def)
  next
    case None
    show ?thesis
    proof (cases "cr_region request")
      case (Some region)
      let ?ids = "map (\<lambda>s. mn_node_id (nr_node (ms_rest s))) (filter (\<lambda>s. mn_region (nr_node (ms_rest s)) = region) (snd (mesh_view env r)))"
      have "tgts = dedup_by (\<lambda>x. x) (sort ?ids)"
        using assms None Some by (simp add: selected_control_target_node_ids_def Let_def split_beta)
      then have "set tgts = set ?ids"
        by simp
      then have set: "set tgts = {mn_node_id (nr_node (ms_rest s)) | s. s \<in> set (snd (mesh_view env r)) \<and> mn_region (nr_node (ms_rest s)) = region}"
        by auto
      then show ?thesis
        using None Some unfolding control_targets_local_def request_hits_def Let_def
        by (simp flip: set add: eq_commute [of region])
    next
      case everywhere: None
      then show ?thesis
        using assms None by (simp add: selected_control_target_node_ids_def control_targets_local_def request_hits_def)
    qed
  qed
qed

lemma close_locally:
  "apply_control_locally env CloseNode request originated n tgts r =
     Some (if control_targets_local env request tgts
       then (r\<lparr> ro_draining := True \<rparr>, ''local close requested: draining'')
       else (r, ''local skipped: target does not match''))"
  by (simp add: apply_control_locally_def)

lemma close_executed:
  assumes "execute_control_internal_with_targets env CloseNode request dispatch tgts r = Some (r1, command, sent)"
  shows "ro_draining r1 \<longleftrightarrow> ro_draining r \<or> control_targets_local env request tgts"
    and "sent = Some e \<Longrightarrow> ce_request e = request \<and> ce_target_node_ids e = tgts \<and> ce_kind e = CloseNode \<and>
      ce_origin_node_id e = mn_node_id (re_node env)"
  using assms
  by (auto simp: execute_control_internal_with_targets_def close_locally Let_def split_beta split: if_splits)

text \<open>C39: A close command drains exactly the nodes that it means. When a node executes it and the message reaches
  another one, each of the two is draining afterwards if it was before or is meant by the request, as the
  first knows the mesh; a node that is not meant ignores the message altogether.\<close>

theorem close_reaches_targets:
  assumes "execute_control env CloseNode request r = Some (r1, command, Some e)"
    and "ingest_control_payload env2 e r2 = Some (r3, handled)"
    and "mn_node_id (re_node env2) \<noteq> mn_node_id (re_node env)" "seen = snd (mesh_view env r)"
  shows "(ro_draining r1 \<longleftrightarrow> ro_draining r \<or> request_hits request seen (re_node env)) \<and>
    (ro_draining r3 \<longleftrightarrow> ro_draining r2 \<or> request_hits request seen (re_node env2)) \<and>
    (handled \<longleftrightarrow> request_hits request seen (re_node env2)) \<and> (\<not> handled \<longrightarrow> r3 = r2)"
proof -
  obtain r0 tgts where sel: "selected_control_target_node_ids env CloseNode request r = (r0, tgts)"
    by (cases "selected_control_target_node_ids env CloseNode request r")
  note targets = selected_targets [OF sel, folded assms(4)]
  have exec: "execute_control_internal_with_targets env CloseNode request True tgts r0 = Some (r1, command, Some e)"
    using assms(1) sel by (simp add: execute_control_def)
  note own = close_executed(1) [OF exec] and sent = close_executed(2) [OF exec refl]
  have remote: "control_targets_local env2 (ce_request e) (ce_target_node_ids e) = request_hits request seen (re_node env2)"
    using sent targets(1) by simp
  show ?thesis
  proof (cases "request_hits request seen (re_node env2)")
    case True
    then obtain r' command' sent' where run: "execute_control_internal_with_targets env2 CloseNode request False tgts r2 = Some (r', command', sent')"
        and r3: "r3 = r'\<lparr> ro_control := ro_control r3 \<rparr>" "handled"
      using assms(2,3) sent remote by (auto simp: ingest_control_payload_def)
    have "ro_draining r3 = ro_draining r'"
      using arg_cong [OF r3(1), of ro_draining] by simp
    then show ?thesis
      using own targets(1) [of env] targets(1) [of env2] targets(2) close_executed(1) [OF run] True r3(2) by simp
  next
    case False
    then have "r3 = r2 \<and> \<not> handled"
      using assms(2,3) sent remote by (simp add: ingest_control_payload_def)
    then show ?thesis
      using own targets(1) [of env] targets(2) False by simp
  qed
qed

text \<open>Two members of one region with empty caches.\<close>

definition null_chunks :: "unit chunk_lib" where
  "null_chunks = \<lparr> cl_stream_idx = (\<lambda>_ _. None), cl_last = (\<lambda>_ _. None), cl_version = (\<lambda>_ _. None), cl_get = (\<lambda>_ _ _. None),
     cl_get_for_stream = (\<lambda>_ _ _. None), cl_retained_start = (\<lambda>_ _. 0), cl_initialization = (\<lambda>_ _. None),
     cl_set_initialization = (\<lambda>k _ _. (k, False)), cl_zero = (\<lambda>k _. k), cl_add = (\<lambda>k _ _ _. (k, False)),
     cl_put_contiguous = (\<lambda>k _ _ _ _. (k, None)) \<rparr>"

definition member :: "string \<Rightarrow> nat \<Rightarrow> (unit, int) router_env" where
  "member name now =
     \<lparr> re_node = demo_node name ''uk'' ''eu'' 0 100, re_chunks = null_chunks,
       re_config = \<lparr> lt_stream_id = 1, lt_part_target_ms = 500, lt_parts_per_segment = 4, lt_window_parts = 16, lt_max_part_bytes = 1000 \<rparr>,
       re_policy = replication_policy_default demo_f64, re_plan = demo_env, re_f64_max = max,
       re_lifecycle_config = lifecycle_config_default, re_playback_base_url = Some (''https://'' @ name), re_role = ''edge'',
       re_now_ms = now, re_replica_ms = now, re_second = 1, re_elapsed_ms = 1000, re_peers = [], re_mesh_addr = name,
       re_relay_session = relay_ingress_snapshot 0 0 (recorded []), re_links = [], re_fails = (\<lambda>_. False),
       re_create_stream = (\<lambda>k _. k), re_request_replica = (\<lambda>_ _. None), re_publish = (\<lambda>_. Published),
       re_provision_run = (\<lambda>_ _. ''done''), re_provision_close = (\<lambda>_ _. ''done'') \<rparr>"

definition fresh_router :: "(unit, int) router" where
  "fresh_router =
     \<lparr> ro_draining = False,
       ro_cache = \<lparr> lv_chunks = (), lv_state = live_state_new 0 0 0, lv_playlists = [], lv_part_update = 0 \<rparr>,
       ro_telemetry = aggregator_new 5000, ro_control = [], ro_demand = [], ro_lifecycle = planner_default,
       ro_load = edge_load_new (edge_new edge_config_default) \<rparr>"

theorem close_reaches_targets_witness:
  "\<exists>r1 command e r3. execute_control (member ''a'' 7) CloseNode \<lparr> cr_node_id = Some ''b'', cr_region = None, cr_stream_id = None \<rparr> fresh_router =
      Some (r1, command, Some e) \<and>
    ingest_control_payload (member ''b'' 8) e fresh_router = Some (r3, True) \<and> \<not> ro_draining r1 \<and> ro_draining r3"
proof -
  let ?request = "\<lparr> cr_node_id = Some ''b'', cr_region = None, cr_stream_id = None \<rparr>"
  have names: "mn_node_id (re_node (member n t)) = n" for n t
    by (simp add: member_def demo_node_def)
  obtain r1 command e where own: "execute_control (member ''a'' 7) CloseNode ?request fresh_router = Some (r1, command, Some e)"
    by (simp add: execute_control_def selected_control_target_node_ids_def execute_control_internal_with_targets_def close_locally
        Let_def split_beta member_def)
  have hits: "request_hits ?request (snd (mesh_view (member ''a'' 7) fresh_router)) (re_node (member n t)) \<longleftrightarrow> n = ''b''" for n t
    by (simp add: request_hits_def names)
  obtain r3 handled where remote: "ingest_control_payload (member ''b'' 8) e fresh_router = Some (r3, handled)"
    by (cases "ingest_control_payload (member ''b'' 8) e fresh_router")
      (use own in \<open>auto simp: ingest_control_payload_def execute_control_def selected_control_target_node_ids_def
        execute_control_internal_with_targets_def close_locally Let_def split_beta split: if_splits\<close>)
  have "mn_node_id (re_node (member ''b'' 8)) \<noteq> mn_node_id (re_node (member ''a'' 7))"
    by (simp add: names)
  note reached = close_reaches_targets [OF own remote this refl, unfolded hits]
  have "\<not> ro_draining fresh_router"
    by (simp add: fresh_router_def)
  with reached have "\<not> ro_draining r1" "ro_draining r3" "handled"
    by auto
  moreover from this have "ingest_control_payload (member ''b'' 8) e fresh_router = Some (r3, True)"
    using remote by simp
  ultimately show ?thesis
    using own by blast
qed

section \<open>Other edges\<close>

definition offers :: "('k, 'f) router_env \<Rightarrow> bytes \<Rightarrow> bytes option \<Rightarrow> 'f node_report mesh_snapshot \<Rightarrow> edge_service \<Rightarrow> bytes \<Rightarrow> bool" where
  "offers env path query s e url \<longleftrightarrow>
     mn_node_id (nr_node (ms_rest s)) \<noteq> mn_node_id (re_node env) \<and>
     mn_region (nr_node (ms_rest s)) = mn_region (re_node env) \<and> \<not> mn_draining (nr_node (ms_rest s)) \<and>
     nr_edge_service (ms_rest s) = Some e \<and> es_cache_mesh_role e = ''edge'' \<and> \<not> es_draining e \<and>
     \<not> es_egress_overloaded e \<and>
     (\<exists>base. es_playback_base_url e = Some base \<and> playback_request_url (ascii base) path query = Some url)"

definition edge_load_key :: "edge_service \<Rightarrow> nat \<times> nat \<times> string" where
  "edge_load_key e = (edge_utilization e, es_active_readers e, es_node_id e)"

lemma candidate_exact:
  "alternative_candidate path query e = Some (k, url) \<longleftrightarrow>
     k = edge_load_key e \<and> es_cache_mesh_role e = ''edge'' \<and> \<not> es_draining e \<and> \<not> es_egress_overloaded e \<and>
     (\<exists>base. es_playback_base_url e = Some base \<and> playback_request_url (ascii base) path query = Some url)"
  by (auto simp: alternative_candidate_def edge_load_key_def bind_eq_Some_conv)

lemma map_filter_set: "x \<in> set (List.map_filter f xs) \<longleftrightarrow> (\<exists>y \<in> set xs. f y = Some x)"
  by (force simp: List.map_filter_def)

lemma sorted_hd: "sorted (map f xs) \<Longrightarrow> x \<in> set xs \<Longrightarrow> f (hd xs) \<le> f x"
  by (cases xs) auto

lemma last_remdups: "xs \<noteq> [] \<Longrightarrow> last (remdups xs) = last xs"
  by (induction xs) auto

text \<open>The candidates of a view, before they are ordered: one per report of an edge that can take a player.\<close>

definition edge_candidates ::
  "('k, 'f) router_env \<Rightarrow> bytes \<Rightarrow> bytes option \<Rightarrow> 'f node_report mesh_snapshot list \<Rightarrow> ((nat \<times> nat \<times> string) \<times> bytes) list" where
  "edge_candidates env path query seen = List.map_filter (alternative_candidate path query)
     (List.map_filter (\<lambda>s. nr_edge_service (ms_rest s)) (filter (is_alternative env) seen))"

lemma edge_candidates_exact:
  "(k, url) \<in> set (edge_candidates env path query seen) \<longleftrightarrow>
     (\<exists>s \<in> set seen. \<exists>e. offers env path query s e url \<and> k = edge_load_key e)"
  unfolding edge_candidates_def map_filter_set Bex_def candidate_exact offers_def
  by (auto simp: eq_commute is_alternative_def Let_def)

definition urls_by_load :: "('k :: linorder \<times> 'u) list \<Rightarrow> 'u list" where
  "urls_by_load cs = take 8 (rev (remdups (rev (map snd (sort_key fst cs)))))"

lemma urls_by_load_subset: "set (urls_by_load cs) \<subseteq> snd ` set cs"
  using set_take_subset [of 8 "rev (remdups (rev (map snd (sort_key fst cs))))"] by (simp add: urls_by_load_def)

lemma first_url_least:
  assumes "(k, url) \<in> set cs"
  shows "urls_by_load cs \<noteq> [] \<and> (\<exists>k'. (k', hd (urls_by_load cs)) \<in> set cs \<and> k' \<le> k)"
proof -
  have ne: "sort_key fst cs \<noteq> []"
    using assms by (metis empty_iff list.set(1) set_sort)
  then have "hd (sort_key fst cs) \<in> set cs"
    using hd_in_set set_sort by metis
  moreover have "hd (rev (remdups (rev (map snd (sort_key fst cs))))) = snd (hd (sort_key fst cs))"
    using ne by (simp add: hd_rev last_remdups last_rev hd_map)
  moreover have "fst (hd (sort_key fst cs)) \<le> k"
    using sorted_hd [OF sorted_sort_key [of fst cs], of "(k, url)"] assms by simp
  ultimately show ?thesis
    using ne by (intro conjI exI [of _ "fst (hd (sort_key fst cs))"]) (simp_all add: urls_by_load_def)
qed


definition report_of_b :: "int node_report mesh_snapshot" where
  "report_of_b = snd (local_mesh_snapshot (member ''b'' 900) fresh_router)"

definition knows_b :: "(unit, int) router" where
  "knows_b = fresh_router\<lparr> ro_telemetry := ingest_snapshot report_of_b (aggregator_new 5000) \<rparr>"

lemma b_in_view: "report_of_b \<in> set (snd (mesh_view (member ''a'' 1000) knows_b))"
  by (simp add: mesh_view_def knows_b_def report_of_b_def local_mesh_snapshot_def mesh_snapshot_of_cache_def stamped_def
      snapshots_with_local_def ingest_snapshot_def aggregator_new_def is_stale_def retain_def member_def demo_node_def
      Let_def split_beta)

lemma b_not_overloaded: "\<not> snap_overloaded (snd (snapshot_at 1 1000 (edge_new edge_config_default)))"
  by code_simp

lemma b_url: "playback_request_url (ascii ''https://b'') (ascii ''/live/1/stream.m3u8'') None = Some (ascii ''https://b/live/1/stream.m3u8'')"
  by code_simp

lemma b_offers:
  "\<exists>e. offers (member ''a'' 1000) (ascii ''/live/1/stream.m3u8'') None report_of_b e (ascii ''https://b/live/1/stream.m3u8'')"
  using b_not_overloaded b_url
  by (simp add: offers_def is_alternative_def report_of_b_def local_mesh_snapshot_def mesh_snapshot_of_cache_def stamped_def
      edge_load_snapshot_def load_snapshot_of_def edge_service_from_node_def edge_load_new_def fresh_router_def member_def
      demo_node_def Let_def split_beta)


section \<open>Replicas\<close>

lemma first_missing_exact:
  assumes "q = first_missing present start latest [n ..< m]" "start \<le> n" "n \<le> m" "m \<le> u64_max"
    and "\<forall>p. start \<le> p \<and> p < n \<longrightarrow> present p" "latest = (if n = start then None else Some (n - 1))"
  shows "start \<le> q \<and> q \<le> m \<and> (\<forall>p. start \<le> p \<and> p < q \<longrightarrow> present p) \<and> (q < m \<longrightarrow> \<not> present q)"
  using assms
proof (induction "m - n" arbitrary: n latest)
  case 0
  then show ?case
    by (auto simp: sat_add_def)
next
  case (Suc d)
  then have range: "[n ..< m] = n # [Suc n ..< m]"
    by (simp add: upt_conv_Cons)
  show ?case
  proof (cases "present n")
    case True
    then show ?thesis
      using Suc.prems Suc.hyps(2) range
      by (intro Suc.hyps(1) [of "Suc n" "Some n"]) (auto simp: less_Suc_eq)
  next
    case False
    then show ?thesis
      using Suc.prems Suc.hyps(2) range by auto
  qed
qed

text \<open>A replica resumes at its first gap. A node asks the mesh for a stream from a slot of the window such that
  it has every earlier slot of the window and not that one, or from the slot after the window if it has
  them all.\<close>

theorem replica_resumes_at_gap:
  assumes "stream_position_for_id lib c sid = Some (idx, l)" "cl_retained_start lib (lv_chunks c) l \<le> l" "l < u64_max"
    and "q = replica_request_from_slot lib c sid"
  shows "cl_retained_start lib (lv_chunks c) l \<le> q \<and> q \<le> l + 1 \<and>
    (\<forall>p. cl_retained_start lib (lv_chunks c) l \<le> p \<and> p < q \<longrightarrow> slot_present lib (lv_chunks c) idx p) \<and>
    (q \<le> l \<longrightarrow> \<not> slot_present lib (lv_chunks c) idx q)"
proof -
  define start where "start = cl_retained_start lib (lv_chunks c) l"
  have "q = first_missing (slot_present lib (lv_chunks c) idx) start None [start ..< Suc l]"
    using assms(1,4) by (simp add: replica_request_from_slot_def start_def Let_def del: upt_Suc)
  then have "start \<le> q \<and> q \<le> Suc l \<and> (\<forall>p. start \<le> p \<and> p < q \<longrightarrow> slot_present lib (lv_chunks c) idx p) \<and>
      (q < Suc l \<longrightarrow> \<not> slot_present lib (lv_chunks c) idx q)"
    by (rule first_missing_exact) (use assms(2,3) in \<open>auto simp: start_def\<close>)
  then show ?thesis
    by (simp add: start_def less_Suc_eq_le)
qed

definition gap_chunks :: "unit chunk_lib" where
  "gap_chunks = null_chunks\<lparr> cl_stream_idx := (\<lambda>_ _. Some 0), cl_last := (\<lambda>_ _. Some 4), cl_retained_start := (\<lambda>_ _. 1),
     cl_get := (\<lambda>_ _ q. if q = 3 then None else Some ([1], 9)) \<rparr>"

theorem replica_resumes_at_gap_witness:
  "replica_request_from_slot gap_chunks (ro_cache fresh_router) 7 = 3 \<and> slot_present gap_chunks () 0 2 \<and> \<not> slot_present gap_chunks () 0 3"
proof -
  have range: "[Suc 0 ..< 5] = [1, 2, 3, 4]"
    by code_simp
  have start: "stream_position_for_id gap_chunks (ro_cache fresh_router) 7 = Some (0, 4)"
    "cl_retained_start gap_chunks (lv_chunks (ro_cache fresh_router)) 4 = 1"
    by (simp_all add: stream_position_for_id_def gap_chunks_def)
  have "slot_present gap_chunks (lv_chunks (ro_cache fresh_router)) 0 q \<longleftrightarrow> q \<noteq> 3" for q
    by (simp add: slot_present_def gap_chunks_def)
  with start have q: "replica_request_from_slot gap_chunks (ro_cache fresh_router) 7 = 3"
    by (simp add: replica_request_from_slot_def range del: upt_Suc)
  have "cl_retained_start gap_chunks (lv_chunks (ro_cache fresh_router)) 4 \<le> 4" "4 < u64_max"
    by (simp_all add: gap_chunks_def u64_max_def)
  from replica_resumes_at_gap [OF start(1) this q [symmetric]]
  have "slot_present gap_chunks (lv_chunks (ro_cache fresh_router)) 0 2" "\<not> slot_present gap_chunks (lv_chunks (ro_cache fresh_router)) 0 3"
    unfolding start(2) by simp_all
  then show ?thesis
    using q by simp
qed

end
